(* ===== verification/Prelude.thy ===== *)
theory Prelude
  imports Main "HOL-Library.AList" "HOL-Library.Char_ord" "HOL-Library.List_Lexorder"
begin

text \<open>
  Shared vocabulary of the development: instants and durations as the Go package \<open>time\<close> has
  them, Go maps as association lists, the functions of the Go package \<open>strings\<close> the sources
  call, and the generic lemmas and fact collections the component theories use.

  \<^item> An instant (\<open>time.Time\<close>) is the number of nanoseconds since Go's zero time, so
    \<open>IsZero\<close> is equality with 0; \<open>Before\<close> and \<open>After\<close> are the order of the integers and
    \<open>Add\<close> is their sum. A duration (\<open>time.Duration\<close>) counts nanoseconds.
  \<^item> A Go map is an association list with distinct keys. A \<open>range\<close> over the map visits
    the list in its order; since a theorem quantifies over the list, it holds for every order.
\<close>

named_theorems inv_intros \<open>introduction rules for component invariants\<close>
named_theorems frame_simps \<open>fields an operation leaves unchanged\<close>

section \<open>Instants and durations\<close>

type_synonym time = int
type_synonym duration = int

abbreviation zero_time :: time where "zero_time \<equiv> 0"
abbreviation is_zero :: "time \<Rightarrow> bool" where "is_zero t \<equiv> t = zero_time"

abbreviation Second :: duration where "Second \<equiv> 1000000000"
abbreviation Minute :: duration where "Minute \<equiv> 60000000000"
abbreviation Hour :: duration where "Hour \<equiv> 3600000000000"

definition max_duration :: duration where "max_duration = 2 ^ 63 - 1"
definition min_duration :: duration where "min_duration = - (2 ^ 63)"

text \<open>\<open>Time.Sub\<close> saturates at the extreme durations.\<close>

definition time_sub :: "time \<Rightarrow> time \<Rightarrow> duration" where
  "time_sub t u = max min_duration (min max_duration (t - u))"

lemma time_sub_exact:
  "min_duration \<le> t - u \<Longrightarrow> t - u \<le> max_duration \<Longrightarrow> time_sub t u = t - u"
  by (simp add: time_sub_def)

lemma time_sub_pos_iff: "0 < time_sub t u \<longleftrightarrow> u < t"
  by (auto simp: time_sub_def max_duration_def min_duration_def max_def min_def)

section \<open>Go maps\<close>

type_synonym 'v gomap = "(string \<times> 'v) list"

abbreviation map_get :: "('k \<times> 'v) list \<Rightarrow> 'k \<Rightarrow> 'v option" where
  "map_get m k \<equiv> map_of m k"
abbreviation map_put :: "'k \<Rightarrow> 'v \<Rightarrow> ('k \<times> 'v) list \<Rightarrow> ('k \<times> 'v) list" where
  "map_put k v m \<equiv> AList.update k v m"
abbreviation map_del :: "'k \<Rightarrow> ('k \<times> 'v) list \<Rightarrow> ('k \<times> 'v) list" where
  "map_del k m \<equiv> AList.delete k m"
abbreviation map_wf :: "('k \<times> 'v) list \<Rightarrow> bool" where
  "map_wf m \<equiv> distinct (map fst m)"

lemma map_get_put [simp]: "map_get (map_put k v m) k' = (if k' = k then Some v else map_get m k')"
  by (simp add: update_conv')

lemma map_get_del [simp]: "map_get (map_del k m) k' = (if k' = k then None else map_get m k')"
  by (simp add: delete_conv')

lemma map_wf_put [simp, intro]: "map_wf m \<Longrightarrow> map_wf (map_put k v m)"
  by (simp add: distinct_update)

lemma map_wf_del [simp, intro]: "map_wf m \<Longrightarrow> map_wf (map_del k m)"
  by (simp add: distinct_delete)

lemma map_wf_filter [simp, intro]: "map_wf m \<Longrightarrow> map_wf (filter P m)"
  by (induction m) auto

lemma map_get_filter_key:
  "map_wf m \<Longrightarrow> map_get (filter (\<lambda>(k, v). P k v) m) k =
     (case map_get m k of None \<Rightarrow> None | Some v \<Rightarrow> if P k v then Some v else None)"
  by (induction m) (auto split: option.splits simp: image_iff dest: map_of_SomeD)

lemma map_get_filter_Some:
  "map_wf m \<Longrightarrow> map_get (filter (\<lambda>(k, v). P k v) m) k = Some v \<longleftrightarrow> map_get m k = Some v \<and> P k v"
  by (cases "map_get m k") (auto simp add: map_get_filter_key simp del: map_of_eq_Some_iff)

lemma length_map_del_less: "map_get m k \<noteq> None \<Longrightarrow> length (map_del k m) < length m"
proof (induction m)
  case Nil
  then show ?case by simp
next
  case (Cons e m)
  show ?case
  proof (cases "fst e = k")
    case True
    have "length (map_del k m) \<le> length m" by (simp add: length_delete_le)
    with True show ?thesis by (cases e) simp
  next
    case False
    with Cons show ?thesis by (cases e) auto
  qed
qed

section \<open>Strings\<close>

text \<open>A Go string is its bytes, a \<open>char list\<close>.\<close>

definition HasPrefix :: "string \<Rightarrow> string \<Rightarrow> bool" where
  "HasPrefix s p \<longleftrightarrow> take (length p) s = p"

text \<open>
  The UTF-8 encodings of the code points for which \<open>unicode.IsSpace\<close> holds, the ones
  \<open>strings.TrimSpace\<close> removes at both ends.
\<close>

definition space_encodings :: "string list" where
  "space_encodings =
     [[CHR 0x20], [CHR 0x09], [CHR 0x0A], [CHR 0x0B], [CHR 0x0C], [CHR 0x0D],
      [CHR 0xC2, CHR 0x85], [CHR 0xC2, CHR 0xA0], [CHR 0xE1, CHR 0x9A, CHR 0x80],
      [CHR 0xE2, CHR 0x80, CHR 0x80], [CHR 0xE2, CHR 0x80, CHR 0x81], [CHR 0xE2, CHR 0x80, CHR 0x82],
      [CHR 0xE2, CHR 0x80, CHR 0x83], [CHR 0xE2, CHR 0x80, CHR 0x84], [CHR 0xE2, CHR 0x80, CHR 0x85],
      [CHR 0xE2, CHR 0x80, CHR 0x86], [CHR 0xE2, CHR 0x80, CHR 0x87], [CHR 0xE2, CHR 0x80, CHR 0x88],
      [CHR 0xE2, CHR 0x80, CHR 0x89], [CHR 0xE2, CHR 0x80, CHR 0x8A], [CHR 0xE2, CHR 0x80, CHR 0xA8],
      [CHR 0xE2, CHR 0x80, CHR 0xA9], [CHR 0xE2, CHR 0x80, CHR 0xAF], [CHR 0xE2, CHR 0x81, CHR 0x9F],
      [CHR 0xE3, CHR 0x80, CHR 0x80]]"

fun strip_one :: "string list \<Rightarrow> string \<Rightarrow> string option" where
  "strip_one [] s = None"
| "strip_one (p # ps) s =
     (if p \<noteq> [] \<and> HasPrefix s p then Some (drop (length p) s) else strip_one ps s)"

lemma strip_one_shorter: "strip_one ps s = Some s' \<Longrightarrow> length s' < length s"
proof (induction ps)
  case Nil
  then show ?case by simp
next
  case (Cons p ps)
  show ?case
  proof (cases "p \<noteq> [] \<and> HasPrefix s p")
    case True
    then have "length p \<le> length s"
      by (metis HasPrefix_def length_take min.absorb_iff2)
    moreover from True have "0 < length p" by simp
    ultimately have "length (drop (length p) s) < length s"
      by (simp only: length_drop)
    with True Cons.prems show ?thesis by auto
  next
    case False
    then show ?thesis using Cons by (simp split: if_splits)
  qed
qed

function trim_left :: "string list \<Rightarrow> string \<Rightarrow> string" where
  "trim_left ps s = (case strip_one ps s of None \<Rightarrow> s | Some s' \<Rightarrow> trim_left ps s')"
  by pat_completeness auto
termination
  by (relation "measure (\<lambda>(ps, s). length s)") (auto dest: strip_one_shorter)

declare trim_left.simps [simp del]

definition TrimSpace :: "string \<Rightarrow> string" where
  "TrimSpace s =
     rev (trim_left (map rev space_encodings) (rev (trim_left space_encodings s)))"

definition is_blank :: "string \<Rightarrow> bool" where
  "is_blank s \<longleftrightarrow> TrimSpace s = []"

lemma trim_left_no_space: "strip_one ps s = None \<Longrightarrow> trim_left ps s = s"
  by (simp add: trim_left.simps)

lemma TrimSpace_id:
  "strip_one space_encodings s = None \<Longrightarrow> strip_one (map rev space_encodings) (rev s) = None \<Longrightarrow>
   TrimSpace s = s"
  by (simp add: TrimSpace_def trim_left_no_space)

lemma TrimSpace_Nil [simp]: "TrimSpace [] = []"
  by (rule TrimSpace_id) (simp_all add: space_encodings_def HasPrefix_def)

text \<open>\<open>strings.Split(s, sep)\<close> for a one-byte separator, and the cut at the first separator
  that \<open>strings.SplitN(s, sep, 2)\<close> makes.\<close>

fun Split :: "char \<Rightarrow> string \<Rightarrow> string list" where
  "Split c [] = [[]]"
| "Split c (x # xs) =
     (if x = c then [] # Split c xs
      else (case Split c xs of [] \<Rightarrow> [[x]] | y # ys \<Rightarrow> (x # y) # ys))"

definition SplitN2 :: "char \<Rightarrow> string \<Rightarrow> (string \<times> string) option" where
  "SplitN2 c s =
     (if c \<in> set s then Some (takeWhile (\<lambda>x. x \<noteq> c) s, tl (dropWhile (\<lambda>x. x \<noteq> c) s)) else None)"

fun Join :: "string \<Rightarrow> string list \<Rightarrow> string" where
  "Join sep [] = []"
| "Join sep [x] = x"
| "Join sep (x # y # ys) = x @ sep @ Join sep (y # ys)"

lemma Split_not_Nil [simp]: "Split c s \<noteq> []"
  by (induction s) (auto split: list.splits)

lemma Split_no_sep: "c \<notin> set s \<Longrightarrow> Split c s = [s]"
  by (induction s) auto

lemma Split_append_sep: "c \<notin> set s \<Longrightarrow> Split c (s @ c # t) = s # Split c t"
  by (induction s) auto

lemma Split_Join:
  "xs \<noteq> [] \<Longrightarrow> \<forall>x \<in> set xs. c \<notin> set x \<Longrightarrow> Split c (Join [c] xs) = xs"
proof (induction "[c]" xs rule: Join.induct)
  case (2 x)
  then show ?case by (simp add: Split_no_sep)
next
  case (3 x y ys)
  then show ?case by (simp add: Split_append_sep)
qed simp

lemma SplitN2_append: "c \<notin> set s \<Longrightarrow> SplitN2 c (s @ c # t) = Some (s, t)"
  by (simp add: SplitN2_def takeWhile_append dropWhile_append)

definition Contains :: "string \<Rightarrow> string \<Rightarrow> bool" where
  "Contains s p \<longleftrightarrow> (\<exists>i \<in> set [0..<Suc (length s)]. HasPrefix (drop i s) p)"

section \<open>Binary search\<close>

text \<open>\<open>sort.Search(n, f)\<close>: the loop of the standard library on the half-open range \<open>[i, j)\<close>.\<close>

function search_range :: "(nat \<Rightarrow> bool) \<Rightarrow> nat \<Rightarrow> nat \<Rightarrow> nat" where
  "search_range f i j =
     (if i < j then (let h = (i + j) div 2 in if \<not> f h then search_range f (Suc h) j
                     else search_range f i h)
      else i)"
  by pat_completeness auto
termination
  by (relation "measure (\<lambda>(f, i, j). j - i)") auto

declare search_range.simps [simp del]

definition sort_Search :: "nat \<Rightarrow> (nat \<Rightarrow> bool) \<Rightarrow> nat" where
  "sort_Search n f = search_range f 0 n"

lemma search_range_bounds: "i \<le> j \<Longrightarrow> i \<le> search_range f i j \<and> search_range f i j \<le> j"
proof (induction f i j rule: search_range.induct)
  case (1 f i j)
  show ?case
  proof (cases "i < j")
    case True
    let ?h = "(i + j) div 2"
    have h: "i \<le> ?h" "Suc ?h \<le> j" using True by auto
    show ?thesis
      using "1.IH" [OF True refl] h True
      by (cases "f ?h") (simp_all add: search_range.simps [of f i j])
  next
    case False
    with "1.prems" show ?thesis by (simp add: search_range.simps [of f j j])
  qed
qed

text \<open>For a predicate that stays true once it is true, the search finds the boundary.\<close>

lemma search_range_mono:
  assumes "i \<le> j" and "\<forall>a b. a \<le> b \<longrightarrow> b < n \<longrightarrow> f a \<longrightarrow> f b"
    and "\<forall>k < i. \<not> f k" and "\<forall>k. j \<le> k \<longrightarrow> k < n \<longrightarrow> f k" and "j \<le> n"
  shows "(\<forall>k < search_range f i j. \<not> f k) \<and> (\<forall>k. search_range f i j \<le> k \<longrightarrow> k < n \<longrightarrow> f k)"
  using assms
proof (induction f i j rule: search_range.induct)
  case (1 f i j)
  show ?case
  proof (cases "i < j")
    case False
    with "1.prems" show ?thesis by (simp add: search_range.simps [of f j j])
  next
    case True
    let ?h = "(i + j) div 2"
    have h: "i \<le> ?h" "?h < j" using True by auto
    show ?thesis
    proof (cases "f ?h")
      case True
      have up: "\<forall>k. ?h \<le> k \<longrightarrow> k < n \<longrightarrow> f k" using "1.prems"(2) True by blast
      have "\<not> \<not> f ?h" and "?h \<le> n" using True h(2) "1.prems"(5) by simp_all
      then have "(\<forall>k < search_range f i ?h. \<not> f k) \<and>
          (\<forall>k. search_range f i ?h \<le> k \<longrightarrow> k < n \<longrightarrow> f k)"
        by (rule "1.IH"(2) [OF \<open>i < j\<close> refl _ h(1) "1.prems"(2,3) up])
      then show ?thesis using True \<open>i < j\<close> by (simp add: search_range.simps [of f i j])
    next
      case False
      have "\<not> f k" if "k < Suc ?h" for k
      proof
        assume "f k"
        moreover have "k \<le> ?h" "?h < n" using that h "1.prems"(5) by linarith+
        ultimately have "f ?h" using "1.prems"(2) by blast
        with False show False by simp
      qed
      then have down: "\<forall>k < Suc ?h. \<not> f k" by blast
      have "(\<forall>k < search_range f (Suc ?h) j. \<not> f k) \<and>
          (\<forall>k. search_range f (Suc ?h) j \<le> k \<longrightarrow> k < n \<longrightarrow> f k)"
        by (rule "1.IH"(1) [OF \<open>i < j\<close> refl False _ "1.prems"(2) down "1.prems"(4,5)])
          (use h(2) in simp)
      then show ?thesis using False \<open>i < j\<close> by (simp add: search_range.simps [of f i j])
    qed
  qed
qed

lemma sort_Search_le: "sort_Search n f \<le> n"
  using search_range_bounds [of 0 n f] by (simp add: sort_Search_def)

lemma sort_Search_boundary:
  assumes "\<And>a b. a \<le> b \<Longrightarrow> b < n \<Longrightarrow> f a \<Longrightarrow> f b"
  shows "k < sort_Search n f \<Longrightarrow> \<not> f k" and "sort_Search n f \<le> k \<Longrightarrow> k < n \<Longrightarrow> f k"
proof -
  have "\<forall>a b. a \<le> b \<longrightarrow> b < n \<longrightarrow> f a \<longrightarrow> f b" using assms by blast
  then have *: "(\<forall>k < sort_Search n f. \<not> f k) \<and> (\<forall>k. sort_Search n f \<le> k \<longrightarrow> k < n \<longrightarrow> f k)"
    unfolding sort_Search_def by (intro search_range_mono) auto
  show "k < sort_Search n f \<Longrightarrow> \<not> f k" using * by blast
  show "sort_Search n f \<le> k \<Longrightarrow> k < n \<Longrightarrow> f k" using * by blast
qed

section \<open>Lists\<close>

lemma length_filter_mono:
  "(\<And>x. x \<in> set xs \<Longrightarrow> P x \<Longrightarrow> Q x) \<Longrightarrow> length (filter P xs) \<le> length (filter Q xs)"
  by (induction xs) auto

lemma filter_eq_drop_prefix:
  "\<forall>x \<in> set (take n xs). \<not> P x \<Longrightarrow> filter P (drop n xs) = filter P xs"
  by (metis append_self_conv2 append_take_drop_id filter_False filter_append)

end
