(* ===== verification/Provider_Contract.thy ===== *)
theory Provider_Contract
  imports Prelude
begin

text \<open>
  The provider-neutral contract of \<open>internal/provider\<close>: route safety (\<open>provider.go\<close>), delivery
  evidence (\<open>delivery_state.go\<close>), the closed failure taxonomy (\<open>failure_class.go\<close>) and the
  sanitizer of rate-limit observations (\<open>rate_limit.go\<close>). The governor relies on these; the
  lemmas say what a validated route excludes and what a sanitized observation can contain.
\<close>

section \<open>Route safety\<close>

datatype GatewayContractHealth =
    GatewayContractHealthUnknown | GatewayContractHealthHealthy
  | GatewayContractHealthDegraded | GatewayContractHealthProtocolChanged

datatype SingleAttemptGuarantee = SingleAttemptUnknown | SingleAttemptGuaranteed

datatype AmplificationStatus = AmplificationUnknown | AmplificationDisabled | AmplificationEnabled

datatype AttemptAccounting =
  AttemptAccountingUnknown | AttemptAccountingSingle | AttemptAccountingReceipts

record RouteSafety =
  rs_AttemptAccounting :: AttemptAccounting
  rs_SingleAttempt :: SingleAttemptGuarantee
  rs_InternalRetries :: AmplificationStatus
  rs_CooldownReplay :: AmplificationStatus
  rs_AccountPooling :: AmplificationStatus
  rs_AutomaticFallback :: AmplificationStatus
  rs_ComboRouting :: AmplificationStatus

definition SafeRouteSafety :: RouteSafety where
  "SafeRouteSafety =
     \<lparr>rs_AttemptAccounting = AttemptAccountingSingle,
      rs_SingleAttempt = SingleAttemptGuaranteed,
      rs_InternalRetries = AmplificationDisabled,
      rs_CooldownReplay = AmplificationDisabled,
      rs_AccountPooling = AmplificationDisabled,
      rs_AutomaticFallback = AmplificationDisabled,
      rs_ComboRouting = AmplificationDisabled\<rparr>"

definition ReceiptRouteSafety :: RouteSafety where
  "ReceiptRouteSafety =
     \<lparr>rs_AttemptAccounting = AttemptAccountingReceipts,
      rs_SingleAttempt = SingleAttemptUnknown,
      rs_InternalRetries = AmplificationDisabled,
      rs_CooldownReplay = AmplificationDisabled,
      rs_AccountPooling = AmplificationDisabled,
      rs_AutomaticFallback = AmplificationDisabled,
      rs_ComboRouting = AmplificationDisabled\<rparr>"

text \<open>The amplification flags the loop of \<open>RouteSafety.Validate\<close> visits. The Go map that
  names them is iterated in no fixed order; the flag named in the error message is the only
  thing that order decides, and the model's error does not carry it.\<close>

definition amplification_flags :: "RouteSafety \<Rightarrow> AmplificationStatus list" where
  "amplification_flags s =
     [rs_InternalRetries s, rs_CooldownReplay s, rs_AccountPooling s,
      rs_AutomaticFallback s, rs_ComboRouting s]"

datatype route_error =
    SingleAttemptGuaranteeUnknown
  | AmplificationNotDisabled
  | ReceiptRouteClaimsSingleAttempt
  | ReceiptRouteAmplifies
  | AttemptAccountingModeUnknown

definition RouteSafety_Validate :: "RouteSafety \<Rightarrow> route_error option" where
  "RouteSafety_Validate s =
     (case rs_AttemptAccounting s of
        AttemptAccountingSingle \<Rightarrow>
          (if rs_SingleAttempt s \<noteq> SingleAttemptGuaranteed then Some SingleAttemptGuaranteeUnknown
           else if \<exists>v \<in> set (amplification_flags s). v \<noteq> AmplificationDisabled
             then Some AmplificationNotDisabled
           else None)
      | AttemptAccountingReceipts \<Rightarrow>
          (if rs_SingleAttempt s \<noteq> SingleAttemptUnknown then Some ReceiptRouteClaimsSingleAttempt
           else if \<exists>v \<in> set (amplification_flags s). v \<noteq> AmplificationDisabled
             then Some ReceiptRouteAmplifies
           else None)
      | AttemptAccountingUnknown \<Rightarrow> Some AttemptAccountingModeUnknown)"

definition RouteSafety_Equal :: "RouteSafety \<Rightarrow> RouteSafety \<Rightarrow> bool" where
  "RouteSafety_Equal s other \<longleftrightarrow> s = other"

text \<open>The two constructors of the source are the only declarations that validate.\<close>

lemma RouteSafety_Validate_iff:
  "RouteSafety_Validate s = None \<longleftrightarrow> s = SafeRouteSafety \<or> s = ReceiptRouteSafety"
  by (cases s; cases "rs_AttemptAccounting s")
    (auto simp: RouteSafety_Validate_def amplification_flags_def SafeRouteSafety_def
      ReceiptRouteSafety_def)

section \<open>Delivery evidence\<close>

datatype DeliveryState =
    DeliveryUnobserved
  | DeliveryNotSent
  | DeliverySentConfirmed
  | DeliverySentUnconfirmed
  | DeliveryResponseStarted
  | DeliveryCompleted
  | DeliveryOutOfRange nat

definition DeliveryState_Valid :: "DeliveryState \<Rightarrow> bool" where
  "DeliveryState_Valid s \<longleftrightarrow>
     (case s of DeliveryUnobserved \<Rightarrow> False | DeliveryOutOfRange _ \<Rightarrow> False | _ \<Rightarrow> True)"

definition DeliveryState_String :: "DeliveryState \<Rightarrow> string" where
  "DeliveryState_String s =
     (case s of
        DeliveryNotSent \<Rightarrow> ''not_sent''
      | DeliverySentConfirmed \<Rightarrow> ''sent_confirmed''
      | DeliverySentUnconfirmed \<Rightarrow> ''sent_unconfirmed''
      | DeliveryResponseStarted \<Rightarrow> ''response_started''
      | DeliveryCompleted \<Rightarrow> ''completed''
      | _ \<Rightarrow> ''unobserved'')"

definition ReplaySafe :: "DeliveryState \<Rightarrow> bool" where
  "ReplaySafe s \<longleftrightarrow> s = DeliveryNotSent"

lemma ReplaySafe_Valid: "ReplaySafe s \<Longrightarrow> DeliveryState_Valid s"
  by (simp add: ReplaySafe_def DeliveryState_Valid_def)

section \<open>Failure taxonomy\<close>

definition failure_classes :: "string list" where
  "failure_classes =
     [''config_refused'', ''auth_unavailable'', ''authentication_denied'', ''permission_denied'',
      ''rate_or_capacity'', ''timeout'', ''cancelled'', ''malformed_response'',
      ''invalid_envelope'', ''empty_response'', ''unsupported_response_format'',
      ''incomplete_completion'', ''refusal'', ''response_too_large'', ''request_too_large'',
      ''upstream_server_failure'', ''upstream_http_failure'', ''unsafe_redirect'', ''transport'',
      ''response_failed'', ''response_incomplete'', ''stream_incomplete'',
      ''subscription_sharing_user_not_eligible'', ''subscription_sharing_usage_limit_exceeded'',
      ''subscription_sharing_usage_unavailable'', ''subscription_sharing_unsupported_capability'',
      ''subscription_sharing_route_not_supported'', ''subscription_sharing_invalid_user'',
      ''subscription_sharing_user_unavailable'', ''chatpass_v2_scope_not_authorized'',
      ''chatpass_v2_invalid_authorization_context'']"

definition ProviderFailureClass_Valid :: "string \<Rightarrow> bool" where
  "ProviderFailureClass_Valid c \<longleftrightarrow> c \<in> set failure_classes"

definition ParseProviderFailureClass :: "string \<Rightarrow> string" where
  "ParseProviderFailureClass v = (if ProviderFailureClass_Valid v then v else [])"

section \<open>Rate-limit observations\<close>

definition MaxRateLimitCounter :: int where "MaxRateLimitCounter = 1000000000"
definition maxRateLimitObservationDuration :: duration where
  "maxRateLimitObservationDuration = 30 * 24 * Hour"

record RateLimitObservation =
  ro_ObservedRetryAfter :: duration
  ro_LimitRequests :: "int option"
  ro_RemainingRequests :: "int option"
  ro_ResetRequests :: duration
  ro_LimitTokens :: "int option"
  ro_RemainingTokens :: "int option"
  ro_ResetTokens :: duration

definition sanitizeRateLimitCounter :: "int option \<Rightarrow> bool \<Rightarrow> int option" where
  "sanitizeRateLimitCounter value allowZero =
     (case value of
        None \<Rightarrow> None
      | Some v \<Rightarrow>
          if v < 0 \<or> v > MaxRateLimitCounter \<or> (\<not> allowZero \<and> v = 0) then None else Some v)"

definition sanitizeRateLimitDuration :: "duration \<Rightarrow> duration" where
  "sanitizeRateLimitDuration v =
     (if v \<le> 0 \<or> v > maxRateLimitObservationDuration then 0 else v)"

definition Sanitized :: "RateLimitObservation \<Rightarrow> RateLimitObservation" where
  "Sanitized ob =
     \<lparr>ro_ObservedRetryAfter = sanitizeRateLimitDuration (ro_ObservedRetryAfter ob),
      ro_LimitRequests = sanitizeRateLimitCounter (ro_LimitRequests ob) False,
      ro_RemainingRequests = sanitizeRateLimitCounter (ro_RemainingRequests ob) True,
      ro_ResetRequests = sanitizeRateLimitDuration (ro_ResetRequests ob),
      ro_LimitTokens = sanitizeRateLimitCounter (ro_LimitTokens ob) False,
      ro_RemainingTokens = sanitizeRateLimitCounter (ro_RemainingTokens ob) True,
      ro_ResetTokens = sanitizeRateLimitDuration (ro_ResetTokens ob)\<rparr>"

lemma sanitizeRateLimitCounter_range:
  "sanitizeRateLimitCounter v z = Some n \<Longrightarrow>
     v = Some n \<and> 0 \<le> n \<and> n \<le> MaxRateLimitCounter \<and> (\<not> z \<longrightarrow> 0 < n)"
  by (auto simp: sanitizeRateLimitCounter_def split: option.splits if_splits)

lemma sanitizeRateLimitCounter_idem [simp]:
  "sanitizeRateLimitCounter (sanitizeRateLimitCounter v z) z = sanitizeRateLimitCounter v z"
  by (auto simp: sanitizeRateLimitCounter_def split: option.splits)

lemma sanitizeRateLimitDuration_range:
  "0 \<le> sanitizeRateLimitDuration d \<and> sanitizeRateLimitDuration d \<le> maxRateLimitObservationDuration"
  by (simp add: sanitizeRateLimitDuration_def maxRateLimitObservationDuration_def)

lemma sanitizeRateLimitDuration_idem [simp]:
  "sanitizeRateLimitDuration (sanitizeRateLimitDuration d) = sanitizeRateLimitDuration d"
  by (simp add: sanitizeRateLimitDuration_def)

lemma Sanitized_idem: "Sanitized (Sanitized ob) = Sanitized ob"
  by (simp add: Sanitized_def)

end
