(* ===== verification/Attempt_Receipts.thy ===== *)
theory Attempt_Receipts
  imports Provider_Contract
begin

text \<open>
  Attempt receipts, \<open>internal/provider/attempt_receipts.go\<close>: the structural validator the
  governor trusts before it debits anything from a receipt-aware route. Two functions of the
  standard library are arguments of the validator because their result depends on more than
  the instant: \<open>json.Marshal\<close> of the set (\<open>None\<close> is its error) and the calendar year of a
  timestamp in its own location. Every theorem holds for all such functions.
\<close>

section \<open>Data\<close>

definition AttemptReceiptSchemaVersion :: int where "AttemptReceiptSchemaVersion = 1"
definition MaxAttemptReceipts :: nat where "MaxAttemptReceipts = 16"
definition MaxAttemptReceiptSerializedBytes :: nat where "MaxAttemptReceiptSerializedBytes = 8192"
definition MaxAttemptReceiptIdentifierBytes :: nat where "MaxAttemptReceiptIdentifierBytes = 256"
definition MaxAttemptReceiptDuration :: duration where "MaxAttemptReceiptDuration = 24 * Hour"
definition MaxAttemptReceiptClockSkew :: duration where "MaxAttemptReceiptClockSkew = 5 * Minute"

datatype AttemptTrigger =
    AttemptTriggerInitial | AttemptTriggerExecutorRetry | AttemptTriggerCredentialRefresh
  | AttemptTriggerFallback | AttemptTriggerCombo | AttemptTriggerCooldownReplay
  | AttemptTriggerOther string

datatype AttemptOutcome =
    AttemptOutcomeSuccess | AttemptOutcomeError | AttemptOutcomeHTTPError
  | AttemptOutcomeTransportError | AttemptOutcomeRateCapacity
  | AttemptOutcomeAuthenticationExpired | AttemptOutcomeAuthenticationDenied
  | AttemptOutcomeHTTP403 | AttemptOutcomeLoginChallenge | AttemptOutcomeCAPTCHA
  | AttemptOutcomeSuspiciousActivity | AttemptOutcomeAccountWarning
  | AttemptOutcomeFeatureRestriction | AttemptOutcomeConnectionReset | AttemptOutcomeTimeout
  | AttemptOutcomeEmptyResponse | AttemptOutcomeMalformedUpstream
  | AttemptOutcomeUpstreamServerFailure | AttemptOutcomeCancelled | AttemptOutcomeUncertain
  | AttemptOutcomeOther string

record AttemptReceipt =
  ar_SchemaVersion :: int
  ar_AttemptID :: string
  ar_ClientRequestID :: string
  ar_Sequence :: int
  ar_Provider :: string
  ar_Model :: string
  ar_AccountLaneHash :: string
  ar_StartedAt :: time
  ar_CompletedAt :: time
  ar_Outcome :: AttemptOutcome
  ar_Trigger :: AttemptTrigger
  ar_UpstreamReached :: bool

record AttemptReceiptSet =
  as_SchemaVersion :: int
  as_ClientRequestID :: string
  as_Finalized :: bool
  as_Receipts :: "AttemptReceipt list"

record AttemptReceiptExpectation =
  ae_ClientRequestID :: string
  ae_Provider :: string
  ae_Model :: string
  ae_AccountLaneHash :: string
  ae_RequestStartedAt :: time
  ae_RequestCompletedAt :: time
  ae_SingleAttempt :: bool
  ae_Now :: time

datatype AttemptReceiptErrorCode =
    AttemptReceiptMissing | AttemptReceiptMalformed | AttemptReceiptUnknownVersion
  | AttemptReceiptNotFinalized | AttemptReceiptEmpty | AttemptReceiptTooMany
  | AttemptReceiptTooLarge | AttemptReceiptInvalidField | AttemptReceiptDuplicateID
  | AttemptReceiptSequence | AttemptReceiptCorrelation | AttemptReceiptRouteMismatch
  | AttemptReceiptTimestamp | AttemptReceiptUnknownOutcome | AttemptReceiptUnknownTrigger
  | AttemptReceiptTriggerMismatch | AttemptReceiptAmplification

section \<open>Validation\<close>

text \<open>\<open>utf8.ValidString\<close> on bytes: no overlong forms, no surrogates, nothing above U+10FFFF.\<close>

definition byte_in :: "nat \<Rightarrow> nat \<Rightarrow> char \<Rightarrow> bool" where
  "byte_in lo hi c \<longleftrightarrow> lo \<le> of_char c \<and> of_char c \<le> hi"

fun utf8_valid :: "string \<Rightarrow> bool" where
  "utf8_valid [] = True"
| "utf8_valid (a # s) =
     (if byte_in 0x00 0x7F a then utf8_valid s
      else if byte_in 0xC2 0xDF a
        then (case s of b # s' \<Rightarrow> byte_in 0x80 0xBF b \<and> utf8_valid s' | _ \<Rightarrow> False)
      else if byte_in 0xE0 0xEF a
        then (case s of b # c # s' \<Rightarrow>
                byte_in (if of_char a = (0xE0 :: nat) then 0xA0 else 0x80)
                        (if of_char a = (0xED :: nat) then 0x9F else 0xBF) b
                \<and> byte_in 0x80 0xBF c \<and> utf8_valid s'
              | _ \<Rightarrow> False)
      else if byte_in 0xF0 0xF4 a
        then (case s of b # c # d # s' \<Rightarrow>
                byte_in (if of_char a = (0xF0 :: nat) then 0x90 else 0x80)
                        (if of_char a = (0xF4 :: nat) then 0x8F else 0xBF) b
                \<and> byte_in 0x80 0xBF c \<and> byte_in 0x80 0xBF d \<and> utf8_valid s'
              | _ \<Rightarrow> False)
      else False)"

text \<open>The loop over the runes of a valid string rejects a rune below 0x20 and 0x7f; those runes
  are the one-byte encodings, so it is a check of the bytes.\<close>

definition validateIdentifier :: "string \<Rightarrow> AttemptReceiptErrorCode option" where
  "validateIdentifier value =
     (if value = [] \<or> length value > MaxAttemptReceiptIdentifierBytes \<or> \<not> utf8_valid value
      then Some AttemptReceiptInvalidField
      else if \<exists>c \<in> set value. of_char c < (0x20 :: nat) \<or> of_char c = (0x7F :: nat)
      then Some AttemptReceiptInvalidField
      else None)"

definition validateTimestamps ::
  "(time \<Rightarrow> int) \<Rightarrow> time \<Rightarrow> time \<Rightarrow> AttemptReceiptExpectation \<Rightarrow> AttemptReceiptErrorCode option" where
  "validateTimestamps year started completed expected =
     (if is_zero started \<or> is_zero completed \<or> completed < started
         \<or> time_sub completed started > MaxAttemptReceiptDuration
      then Some AttemptReceiptTimestamp
      else if year started < 2000 \<or> year completed < 2000 then Some AttemptReceiptTimestamp
      else if \<not> is_zero (ae_RequestStartedAt expected)
              \<and> started < ae_RequestStartedAt expected - MaxAttemptReceiptClockSkew
      then Some AttemptReceiptTimestamp
      else if \<not> is_zero (ae_RequestCompletedAt expected)
              \<and> (started > ae_RequestCompletedAt expected + MaxAttemptReceiptClockSkew
                 \<or> completed > ae_RequestCompletedAt expected + MaxAttemptReceiptClockSkew)
      then Some AttemptReceiptTimestamp
      else if \<not> is_zero (ae_Now expected)
              \<and> (started < ae_Now expected - MaxAttemptReceiptDuration
                 \<or> completed < ae_Now expected - MaxAttemptReceiptDuration
                 \<or> started > ae_Now expected + MaxAttemptReceiptDuration
                 \<or> completed > ae_Now expected + MaxAttemptReceiptDuration)
      then Some AttemptReceiptTimestamp
      else None)"

fun validOutcome :: "AttemptOutcome \<Rightarrow> bool" where
  "validOutcome (AttemptOutcomeOther _) = False"
| "validOutcome _ = True"

fun validTrigger :: "AttemptTrigger \<Rightarrow> bool" where
  "validTrigger (AttemptTriggerOther _) = False"
| "validTrigger _ = True"

text \<open>One turn of the receipt loop: \<open>seen\<close> holds the attempt ids of the earlier receipts and
  \<open>prev\<close> the previous receipt.\<close>

definition validate_receipt ::
  "(time \<Rightarrow> int) \<Rightarrow> AttemptReceiptSet \<Rightarrow> AttemptReceiptExpectation \<Rightarrow> string list \<Rightarrow>
   AttemptReceipt option \<Rightarrow> nat \<Rightarrow> AttemptReceipt \<Rightarrow> AttemptReceiptErrorCode option" where
  "validate_receipt year rset expected seen prev index receipt =
     (if ar_SchemaVersion receipt \<noteq> AttemptReceiptSchemaVersion then Some AttemptReceiptUnknownVersion
      else if validateIdentifier (ar_AttemptID receipt) \<noteq> None
        then validateIdentifier (ar_AttemptID receipt)
      else if ar_AttemptID receipt \<in> set seen then Some AttemptReceiptDuplicateID
      else if ar_ClientRequestID receipt \<noteq> as_ClientRequestID rset then Some AttemptReceiptCorrelation
      else if \<not> ar_UpstreamReached receipt then Some AttemptReceiptInvalidField
      else if ar_Sequence receipt \<noteq> int index + 1 then Some AttemptReceiptSequence
      else if validateIdentifier (ar_Provider receipt) \<noteq> None
        then validateIdentifier (ar_Provider receipt)
      else if validateIdentifier (ar_Model receipt) \<noteq> None
        then validateIdentifier (ar_Model receipt)
      else if validateIdentifier (ar_AccountLaneHash receipt) \<noteq> None
        then validateIdentifier (ar_AccountLaneHash receipt)
      else if ae_Provider expected \<noteq> [] \<and> ar_Provider receipt \<noteq> ae_Provider expected
        then Some AttemptReceiptRouteMismatch
      else if ae_Model expected \<noteq> [] \<and> ar_Model receipt \<noteq> ae_Model expected
        then Some AttemptReceiptRouteMismatch
      else if ae_AccountLaneHash expected \<noteq> []
              \<and> ar_AccountLaneHash receipt \<noteq> ae_AccountLaneHash expected
        then Some AttemptReceiptRouteMismatch
      else if \<not> validOutcome (ar_Outcome receipt) then Some AttemptReceiptUnknownOutcome
      else if \<not> validTrigger (ar_Trigger receipt) then Some AttemptReceiptUnknownTrigger
      else if (index = 0 \<and> ar_Trigger receipt \<noteq> AttemptTriggerInitial)
              \<or> (index > 0 \<and> ar_Trigger receipt = AttemptTriggerInitial)
        then Some AttemptReceiptTriggerMismatch
      else if ae_SingleAttempt expected \<and> ar_Trigger receipt \<noteq> AttemptTriggerInitial
        then Some AttemptReceiptTriggerMismatch
      else if validateTimestamps year (ar_StartedAt receipt) (ar_CompletedAt receipt) expected \<noteq> None
        then validateTimestamps year (ar_StartedAt receipt) (ar_CompletedAt receipt) expected
      else (case prev of
              Some p \<Rightarrow> if ar_StartedAt receipt < ar_CompletedAt p then Some AttemptReceiptTimestamp
                        else None
            | None \<Rightarrow> None))"

fun validate_receipts ::
  "(time \<Rightarrow> int) \<Rightarrow> AttemptReceiptSet \<Rightarrow> AttemptReceiptExpectation \<Rightarrow> string list \<Rightarrow>
   AttemptReceipt option \<Rightarrow> nat \<Rightarrow> AttemptReceipt list \<Rightarrow> AttemptReceiptErrorCode option" where
  "validate_receipts year rset expected seen prev index [] = None"
| "validate_receipts year rset expected seen prev index (r # rs) =
     (case validate_receipt year rset expected seen prev index r of
        Some e \<Rightarrow> Some e
      | None \<Rightarrow> validate_receipts year rset expected (ar_AttemptID r # seen) (Some r) (Suc index) rs)"

definition ValidateAttemptReceiptSet ::
  "(AttemptReceiptSet \<Rightarrow> string option) \<Rightarrow> (time \<Rightarrow> int) \<Rightarrow> AttemptReceiptSet \<Rightarrow>
   AttemptReceiptExpectation \<Rightarrow> AttemptReceiptErrorCode option" where
  "ValidateAttemptReceiptSet marshal year rset expected =
     (if as_SchemaVersion rset \<noteq> AttemptReceiptSchemaVersion then Some AttemptReceiptUnknownVersion
      else if \<not> as_Finalized rset then Some AttemptReceiptNotFinalized
      else if as_Receipts rset = [] then Some AttemptReceiptEmpty
      else if length (as_Receipts rset) > MaxAttemptReceipts then Some AttemptReceiptTooMany
      else if validateIdentifier (as_ClientRequestID rset) \<noteq> None
        then validateIdentifier (as_ClientRequestID rset)
      else if ae_ClientRequestID expected \<noteq> []
              \<and> as_ClientRequestID rset \<noteq> ae_ClientRequestID expected
        then Some AttemptReceiptCorrelation
      else if ae_SingleAttempt expected \<and> length (as_Receipts rset) \<noteq> 1
        then Some AttemptReceiptAmplification
      else (case validate_receipts year rset expected [] None 0 (as_Receipts rset) of
              Some e \<Rightarrow> Some e
            | None \<Rightarrow>
                (case marshal rset of
                   None \<Rightarrow> Some AttemptReceiptTooLarge
                 | Some bytes \<Rightarrow>
                     if length bytes > MaxAttemptReceiptSerializedBytes then Some AttemptReceiptTooLarge
                     else None)))"

fun uncertain_outcome :: "AttemptOutcome \<Rightarrow> bool" where
  "uncertain_outcome AttemptOutcomeError = True"
| "uncertain_outcome AttemptOutcomeHTTPError = True"
| "uncertain_outcome AttemptOutcomeTransportError = True"
| "uncertain_outcome AttemptOutcomeConnectionReset = True"
| "uncertain_outcome AttemptOutcomeTimeout = True"
| "uncertain_outcome AttemptOutcomeCancelled = True"
| "uncertain_outcome AttemptOutcomeUncertain = True"
| "uncertain_outcome _ = False"

definition ContainsUncertain :: "AttemptReceiptSet \<Rightarrow> bool" where
  "ContainsUncertain s \<longleftrightarrow> (\<exists>r \<in> set (as_Receipts s). uncertain_outcome (ar_Outcome r))"

section \<open>What a validated set guarantees\<close>

text \<open>A receipt in a position that passed the loop body.\<close>

definition receipt_ok ::
  "AttemptReceiptSet \<Rightarrow> AttemptReceiptExpectation \<Rightarrow> nat \<Rightarrow> AttemptReceipt \<Rightarrow> bool" where
  "receipt_ok rset expected index r \<longleftrightarrow>
     ar_ClientRequestID r = as_ClientRequestID rset
     \<and> ar_UpstreamReached r
     \<and> ar_Sequence r = int index + 1
     \<and> (ae_Provider expected = [] \<or> ar_Provider r = ae_Provider expected)
     \<and> (ae_Model expected = [] \<or> ar_Model r = ae_Model expected)
     \<and> (ae_AccountLaneHash expected = [] \<or> ar_AccountLaneHash r = ae_AccountLaneHash expected)
     \<and> validOutcome (ar_Outcome r) \<and> validTrigger (ar_Trigger r)
     \<and> (ar_Trigger r = AttemptTriggerInitial \<longleftrightarrow> index = 0)
     \<and> ar_StartedAt r \<le> ar_CompletedAt r"

lemma validateTimestamps_order:
  "validateTimestamps year s c e = None \<Longrightarrow> s \<le> c"
  by (auto simp: validateTimestamps_def split: if_splits)

lemma validate_receipt_ok:
  assumes "validate_receipt year rset expected seen prev index r = None"
  shows "receipt_ok rset expected index r" and "ar_AttemptID r \<notin> set seen"
    and "case prev of None \<Rightarrow> True | Some p \<Rightarrow> ar_CompletedAt p \<le> ar_StartedAt r"
  using assms validateTimestamps_order [of year "ar_StartedAt r" "ar_CompletedAt r" expected]
  by (auto simp: validate_receipt_def receipt_ok_def split: if_splits option.splits)

text \<open>Consecutive receipts do not overlap in time.\<close>

definition sequential :: "AttemptReceipt list \<Rightarrow> bool" where
  "sequential rs \<longleftrightarrow>
     (\<forall>i. Suc i < length rs \<longrightarrow> ar_CompletedAt (rs ! i) \<le> ar_StartedAt (rs ! Suc i))"

lemma sequential_short [simp]: "sequential []" "sequential [r]"
  by (simp_all add: sequential_def)

lemma sequential_Cons_Cons:
  "sequential (r # r' # rs) \<longleftrightarrow> ar_CompletedAt r \<le> ar_StartedAt r' \<and> sequential (r' # rs)"
  by (auto simp: sequential_def nth_Cons split: nat.splits)

lemma validate_receipts_ok:
  assumes "validate_receipts year rset expected seen prev index rs = None"
  shows "(\<forall>i < length rs. receipt_ok rset expected (index + i) (rs ! i))
    \<and> distinct (map ar_AttemptID rs)
    \<and> set (map ar_AttemptID rs) \<inter> set seen = {}
    \<and> sequential rs
    \<and> (case (prev, rs) of (Some p, r # _) \<Rightarrow> ar_CompletedAt p \<le> ar_StartedAt r | _ \<Rightarrow> True)"
  using assms
proof (induction rs arbitrary: seen prev index)
  case Nil
  then show ?case by (simp split: option.splits)
next
  case (Cons r rs)
  then have head: "validate_receipt year rset expected seen prev index r = None"
    and tail: "validate_receipts year rset expected (ar_AttemptID r # seen) (Some r) (Suc index) rs = None"
    by (auto split: option.splits)
  note ih = Cons.IH [OF tail] and ok = validate_receipt_ok [OF head]
  have "\<forall>i < length (r # rs). receipt_ok rset expected (index + i) ((r # rs) ! i)"
    using ih ok(1) by (auto simp: nth_Cons split: nat.splits)
  moreover have "sequential (r # rs)"
    using ih by (cases rs) (auto simp: sequential_Cons_Cons)
  ultimately show ?case using ih ok(2,3) by (auto split: option.splits)
qed

lemma ValidateAttemptReceiptSet_ok:
  assumes "ValidateAttemptReceiptSet marshal year rset expected = None"
  shows "as_Finalized rset" and "as_Receipts rset \<noteq> []"
    and "length (as_Receipts rset) \<le> MaxAttemptReceipts"
    and "ae_ClientRequestID expected = [] \<or> as_ClientRequestID rset = ae_ClientRequestID expected"
    and "ae_SingleAttempt expected \<Longrightarrow> length (as_Receipts rset) = 1"
    and "validate_receipts year rset expected [] None 0 (as_Receipts rset) = None"
  using assms by (auto simp: ValidateAttemptReceiptSet_def split: if_splits option.splits)

lemma ValidateAttemptReceiptSet_receipts:
  assumes "ValidateAttemptReceiptSet marshal year rset expected = None"
  shows "\<forall>i < length (as_Receipts rset). receipt_ok rset expected i (as_Receipts rset ! i)"
    and "distinct (map ar_AttemptID (as_Receipts rset))" and "sequential (as_Receipts rset)"
  using validate_receipts_ok [OF ValidateAttemptReceiptSet_ok(6) [OF assms]] by auto

end
