(* ===== verification/Ledger.thy ===== *)
theory Ledger
  imports Prelude
begin

text \<open>
  The rolling usage ledger of \<open>internal/governor/ledger.go\<close>: an append-only list of attempt
  instants with a head index that skips expired entries and a compaction step. The reference
  is the plain list of live entries; \<open>expire\<close> is proved invisible to every window that the
  governor reads, and \<open>next\<close> is characterised against \<open>count\<close>.
\<close>

record ledgerEvent =
  le_at :: time
  le_taskID :: string

record rollingLedger =
  rl_events :: "ledgerEvent list"
  rl_head :: nat

definition empty_ledger :: rollingLedger where
  "empty_ledger = \<lparr>rl_events = [], rl_head = 0\<rparr>"

definition ledger_add :: "rollingLedger \<Rightarrow> time \<Rightarrow> string \<Rightarrow> rollingLedger" where
  "ledger_add l at taskID =
     l\<lparr>rl_events := rl_events l @ [\<lparr>le_at = at, le_taskID = taskID\<rparr>]\<rparr>"

function advance_head :: "time \<Rightarrow> ledgerEvent list \<Rightarrow> nat \<Rightarrow> nat" where
  "advance_head cutoff evs h =
     (if h < length evs \<and> \<not> cutoff < le_at (evs ! h) then advance_head cutoff evs (Suc h) else h)"
  by pat_completeness auto
termination
  by (relation "measure (\<lambda>(c, evs, h). length evs - h)") auto

declare advance_head.simps [simp del]

definition ledger_expire :: "rollingLedger \<Rightarrow> time \<Rightarrow> duration \<Rightarrow> rollingLedger" where
  "ledger_expire l now maxWindow =
     (let cutoff = now - maxWindow;
          h = advance_head cutoff (rl_events l) (rl_head l)
      in if 0 < h \<and> (256 \<le> h \<or> length (rl_events l) \<le> h * 2)
         then l\<lparr>rl_events := drop h (rl_events l), rl_head := 0\<rparr>
         else l\<lparr>rl_head := h\<rparr>)"

definition live :: "rollingLedger \<Rightarrow> ledgerEvent list" where
  "live l = drop (rl_head l) (rl_events l)"

definition ledger_count :: "rollingLedger \<Rightarrow> time \<Rightarrow> duration \<Rightarrow> int" where
  "ledger_count l now window =
     (let cutoff = now - window
      in foldl (\<lambda>n e. if cutoff < le_at e then n + 1 else n) 0 (live l))"

fun first_after :: "time \<Rightarrow> duration \<Rightarrow> ledgerEvent list \<Rightarrow> time" where
  "first_after cutoff window [] = zero_time"
| "first_after cutoff window (e # es) =
     (if cutoff < le_at e then le_at e + window else first_after cutoff window es)"

definition ledger_next :: "rollingLedger \<Rightarrow> time \<Rightarrow> duration \<Rightarrow> int \<Rightarrow> time" where
  "ledger_next l now window ceiling =
     (if ledger_count l now window < ceiling then zero_time
      else first_after (now - window) window (live l))"

definition copyEvents :: "rollingLedger \<Rightarrow> ledgerEvent list" where
  "copyEvents l = live l"

section \<open>Representation invariant\<close>

definition ledger_wf :: "rollingLedger \<Rightarrow> bool" where
  "ledger_wf l \<longleftrightarrow> rl_head l \<le> length (rl_events l)"

lemma advance_head_bounds:
  "h \<le> length evs \<Longrightarrow> h \<le> advance_head c evs h \<and> advance_head c evs h \<le> length evs"
proof (induction c evs h rule: advance_head.induct)
  case (1 c evs h)
  show ?case
  proof (cases "h < length evs \<and> \<not> c < le_at (evs ! h)")
    case True
    with "1.IH" have "Suc h \<le> advance_head c evs (Suc h) \<and> advance_head c evs (Suc h) \<le> length evs"
      by simp
    with True show ?thesis by (subst (1 2) advance_head.simps) simp
  next
    case False
    with "1.prems" show ?thesis by (subst (1 2) advance_head.simps) auto
  qed
qed

lemma advance_head_expired:
  "h \<le> i \<Longrightarrow> i < advance_head c evs h \<Longrightarrow> i < length evs \<and> le_at (evs ! i) \<le> c"
proof (induction c evs h rule: advance_head.induct)
  case (1 c evs h)
  show ?case
  proof (cases "h < length evs \<and> \<not> c < le_at (evs ! h)")
    case True
    with "1.prems"(2) have "i < advance_head c evs (Suc h)" by (simp add: advance_head.simps [of c evs h])
    with "1.IH" True "1.prems"(1) show ?thesis by (cases "h = i") auto
  next
    case False
    with "1.prems" show ?thesis by (simp add: advance_head.simps [of c evs h] split: if_splits)
  qed
qed

lemma ledger_wf_empty [simp]: "ledger_wf empty_ledger"
  by (simp add: ledger_wf_def empty_ledger_def)

lemma ledger_wf_add [simp]: "ledger_wf l \<Longrightarrow> ledger_wf (ledger_add l at t)"
  by (simp add: ledger_wf_def ledger_add_def)

lemma ledger_wf_expire [simp]: "ledger_wf l \<Longrightarrow> ledger_wf (ledger_expire l now w)"
  using advance_head_bounds [of "rl_head l" "rl_events l" "now - w"]
  by (auto simp: ledger_wf_def ledger_expire_def Let_def)

section \<open>The live entries\<close>

lemma live_add: "ledger_wf l \<Longrightarrow> live (ledger_add l at t) = live l @ [\<lparr>le_at = at, le_taskID = t\<rparr>]"
  by (simp add: live_def ledger_add_def ledger_wf_def)

lemma live_empty [simp]: "live empty_ledger = []"
  by (simp add: live_def empty_ledger_def)

text \<open>Expiry drops a prefix of the live entries, all of them at or before the cutoff.\<close>

lemma live_expire:
  assumes "ledger_wf l"
  obtains k where "live (ledger_expire l now w) = drop k (live l)"
    and "\<forall>e \<in> set (take k (live l)). le_at e \<le> now - w"
proof -
  let ?h = "advance_head (now - w) (rl_events l) (rl_head l)"
  let ?k = "?h - rl_head l"
  have le: "rl_head l \<le> ?h" and len: "?h \<le> length (rl_events l)"
    using advance_head_bounds [of "rl_head l" "rl_events l" "now - w"] assms by (auto simp: ledger_wf_def)
  have "live (ledger_expire l now w) = drop ?h (rl_events l)"
    by (simp add: live_def ledger_expire_def Let_def)
  also have "\<dots> = drop ?k (live l)" using le by (simp add: live_def)
  finally have drop: "live (ledger_expire l now w) = drop ?k (live l)" .
  have "\<forall>e \<in> set (take ?k (live l)). le_at e \<le> now - w"
  proof
    fix e assume "e \<in> set (take ?k (live l))"
    then obtain j where j: "j < ?k" "j < length (live l)" "e = live l ! j"
      by (auto simp: in_set_conv_nth)
    then have "e = rl_events l ! (rl_head l + j)" by (simp add: live_def)
    moreover have "rl_head l + j < ?h" using j(1) by simp
    ultimately show "le_at e \<le> now - w"
      using advance_head_expired [of "rl_head l" "rl_head l + j"] by simp
  qed
  with drop show thesis by (rule that)
qed

lemma foldl_count: "foldl (\<lambda>n e. if P e then n + 1 else n) (k::int) xs = k + int (length (filter P xs))"
  by (induction xs arbitrary: k) auto

lemma ledger_count_eq:
  "ledger_count l now w = int (length (filter (\<lambda>e. now - w < le_at e) (live l)))"
  by (simp add: ledger_count_def foldl_count)

lemma ledger_count_nonneg [simp]: "0 \<le> ledger_count l now w"
  by (simp add: ledger_count_eq)

lemma ledger_count_add:
  "ledger_wf l \<Longrightarrow>
   ledger_count (ledger_add l at t) now w = ledger_count l now w + (if now - w < at then 1 else 0)"
  by (simp add: ledger_count_eq live_add)

text \<open>A later reading of the same ledger never counts more.\<close>

lemma ledger_count_antimono:
  "now \<le> now' \<Longrightarrow> ledger_count l now' w \<le> ledger_count l now w"
  unfolding ledger_count_eq by (auto intro!: length_filter_mono)

lemma ledger_count_window_mono:
  "w \<le> w' \<Longrightarrow> ledger_count l now w \<le> ledger_count l now w'"
  unfolding ledger_count_eq by (auto intro!: length_filter_mono)

text \<open>Expiry with the largest window is invisible to every smaller window, now and later.\<close>

lemma ledger_count_expire:
  assumes "ledger_wf l" "w \<le> W" "now \<le> now'"
  shows "ledger_count (ledger_expire l now W) now' w = ledger_count l now' w"
proof -
  obtain k where "live (ledger_expire l now W) = drop k (live l)"
    and "\<forall>e \<in> set (take k (live l)). le_at e \<le> now - W"
    using live_expire [OF assms(1)] by blast
  moreover from this(2) assms(2,3) have "\<forall>e \<in> set (take k (live l)). \<not> now' - w < le_at e"
    by auto
  ultimately show ?thesis by (simp add: ledger_count_eq filter_eq_drop_prefix)
qed

section \<open>The next admissible instant\<close>

lemma first_after_filter:
  "first_after c w es = (case filter (\<lambda>e. c < le_at e) es of [] \<Rightarrow> zero_time | e # _ \<Rightarrow> le_at e + w)"
  by (induction es) auto

lemma ledger_next_below: "ledger_count l now w < c \<Longrightarrow> ledger_next l now w c = zero_time"
  by (simp add: ledger_next_def)

text \<open>With a positive ceiling and a clock past the zero time, \<open>next\<close> is the zero time exactly
  when the window has room, and otherwise a strictly later instant.\<close>

lemma ledger_next_zero_iff:
  assumes "0 < c" "0 \<le> now"
  shows "ledger_next l now w c = zero_time \<longleftrightarrow> ledger_count l now w < c"
  using assms by (auto simp: ledger_next_def first_after_filter ledger_count_eq split: list.splits
      dest: filter_eq_ConsD)

lemma ledger_next_future:
  assumes "0 < c" "c \<le> ledger_count l now w"
  shows "now < ledger_next l now w c"
proof -
  from assms obtain e es where f: "filter (\<lambda>e. now - w < le_at e) (live l) = e # es"
    by (cases "filter (\<lambda>e. now - w < le_at e) (live l)") (auto simp: ledger_count_eq)
  then have "now - w < le_at e" by (auto dest: filter_eq_ConsD)
  with assms f show ?thesis by (simp add: ledger_next_def first_after_filter)
qed

text \<open>Waiting until \<open>next\<close> frees at least one slot of the window.\<close>

lemma ledger_next_frees:
  assumes "0 < c" "c \<le> ledger_count l now w"
  shows "ledger_count l (ledger_next l now w c) w < ledger_count l now w"
proof -
  let ?n = "ledger_next l now w c"
  from assms obtain e es where f: "filter (\<lambda>e. now - w < le_at e) (live l) = e # es"
    by (cases "filter (\<lambda>e. now - w < le_at e) (live l)") (auto simp: ledger_count_eq)
  have n: "?n = le_at e + w" using assms f by (simp add: ledger_next_def first_after_filter)
  have "now < ?n" using ledger_next_future [OF assms] .
  then have "filter (\<lambda>x. ?n - w < le_at x) (live l) =
      filter (\<lambda>x. ?n - w < le_at x) (filter (\<lambda>x. now - w < le_at x) (live l))"
    by (auto intro!: filter_cong)
  also have "\<dots> = filter (\<lambda>x. ?n - w < le_at x) es" using f n by simp
  finally have "length (filter (\<lambda>x. ?n - w < le_at x) (live l)) \<le> length es" by simp
  with f show ?thesis by (simp add: ledger_count_eq)
qed

end
