(* ===== verification/Governor_Types.thy ===== *)
theory Governor_Types
  imports Attempt_Receipts Ledger
begin

text \<open>
  Configuration, codes and records of the account governor, \<open>internal/governor/types.go\<close>, with
  the delivery-evidence rule and the outcome algebra of \<open>permit.go\<close>. A Go string type with a
  closed vocabulary is a datatype with one constructor per constant and one for every other
  string, so that a value the code must refuse can be written down.
\<close>

section \<open>Allowance semantics and configuration\<close>

datatype AllowanceProfile =
    AllowanceProfileInstant | AllowanceProfileReasoning | AllowanceProfileUnknown
  | AllowanceProfileLunaUnlimitedText | AllowanceProfileOther string

datatype AllowanceKind =
    AllowanceKindPublishedQuota | AllowanceKindUnlimitedText | AllowanceKindUnknown
  | AllowanceKindEmpty | AllowanceKindOther string

fun AllowanceKindForProfile :: "AllowanceProfile \<Rightarrow> AllowanceKind" where
  "AllowanceKindForProfile AllowanceProfileInstant = AllowanceKindPublishedQuota"
| "AllowanceKindForProfile AllowanceProfileReasoning = AllowanceKindPublishedQuota"
| "AllowanceKindForProfile AllowanceProfileLunaUnlimitedText = AllowanceKindUnlimitedText"
| "AllowanceKindForProfile AllowanceProfileUnknown = AllowanceKindUnknown"
| "AllowanceKindForProfile (AllowanceProfileOther _) = AllowanceKindEmpty"

fun AllowanceKind_Valid :: "AllowanceKind \<Rightarrow> bool" where
  "AllowanceKind_Valid AllowanceKindPublishedQuota = True"
| "AllowanceKind_Valid AllowanceKindUnlimitedText = True"
| "AllowanceKind_Valid AllowanceKindUnknown = True"
| "AllowanceKind_Valid _ = False"

record Config =
  cfg_AccountPolicyID :: string
  cfg_ProviderID :: string
  cfg_ModelPool :: string
  cfg_Model :: string
  cfg_AllowanceProfile :: AllowanceProfile
  cfg_AllowanceKind :: AllowanceKind
  cfg_Rolling3h :: int
  cfg_ManualReserve :: int
  cfg_Rolling1h :: int
  cfg_Rolling10m :: int
  cfg_TaskBudget :: int
  cfg_RetryBudget :: int
  cfg_QueueCapacity :: int
  cfg_FairnessQuantum :: int
  cfg_MinimumStartInterval :: duration
  cfg_BurstCapacity :: int
  cfg_MaxInFlight :: int
  cfg_RequireSingleAttempt :: bool
  cfg_RequireAttemptReceipts :: bool
  cfg_ProtocolFamily :: string
  cfg_ConfigIdentity :: string
  cfg_AttemptProviderID :: string
  cfg_AccountLaneHash :: string
  cfg_RateResponseThreshold :: int
  cfg_RateResponseWindow :: duration
  cfg_ResetSafetyMargin :: duration
  cfg_RouteSafety :: RouteSafety

definition EffectiveAllowanceKind :: "Config \<Rightarrow> AllowanceKind" where
  "EffectiveAllowanceKind c =
     (if AllowanceKind_Valid (cfg_AllowanceKind c) then cfg_AllowanceKind c
      else AllowanceKindForProfile (cfg_AllowanceProfile c))"

definition DefaultInstantConfig :: "string \<Rightarrow> string \<Rightarrow> string \<Rightarrow> RouteSafety \<Rightarrow> Config" where
  "DefaultInstantConfig accountPolicyID providerID modelPool safety =
     \<lparr>cfg_AccountPolicyID = accountPolicyID, cfg_ProviderID = providerID,
      cfg_ModelPool = modelPool, cfg_Model = [],
      cfg_AllowanceProfile = AllowanceProfileInstant,
      cfg_AllowanceKind = AllowanceKindPublishedQuota,
      cfg_Rolling3h = 140, cfg_ManualReserve = 20, cfg_Rolling1h = 80, cfg_Rolling10m = 25,
      cfg_TaskBudget = 80, cfg_RetryBudget = 2, cfg_QueueCapacity = 16, cfg_FairnessQuantum = 1,
      cfg_MinimumStartInterval = 5 * Second, cfg_BurstCapacity = 1, cfg_MaxInFlight = 1,
      cfg_RequireSingleAttempt = True, cfg_RequireAttemptReceipts = False,
      cfg_ProtocolFamily = [], cfg_ConfigIdentity = [], cfg_AttemptProviderID = [],
      cfg_AccountLaneHash = [], cfg_RateResponseThreshold = 3, cfg_RateResponseWindow = Hour,
      cfg_ResetSafetyMargin = 5 * Minute, cfg_RouteSafety = safety\<rparr>"

definition DefaultLunaUnlimitedTextConfig ::
  "string \<Rightarrow> string \<Rightarrow> string \<Rightarrow> RouteSafety \<Rightarrow> Config" where
  "DefaultLunaUnlimitedTextConfig accountPolicyID providerID modelPool safety =
     (DefaultInstantConfig accountPolicyID providerID modelPool safety)
       \<lparr>cfg_AllowanceProfile := AllowanceProfileLunaUnlimitedText,
        cfg_AllowanceKind := AllowanceKindUnlimitedText,
        cfg_Rolling3h := 0, cfg_Rolling1h := 0, cfg_Rolling10m := 0, cfg_ManualReserve := 0\<rparr>"

definition DefaultUnknownConfig :: "string \<Rightarrow> string \<Rightarrow> string \<Rightarrow> RouteSafety \<Rightarrow> Config" where
  "DefaultUnknownConfig accountPolicyID providerID modelPool safety =
     (DefaultInstantConfig accountPolicyID providerID modelPool safety)
       \<lparr>cfg_AllowanceProfile := AllowanceProfileUnknown,
        cfg_AllowanceKind := AllowanceKindUnknown\<rparr>"

datatype config_error =
    IdentifierEmpty | UnsupportedProfile | UnsupportedKind | KindProfileMismatch
  | RollingCeilingsNotPositive | RollingWindowsNotOrdered | ManualReserveOutOfRange
  | FabricatedCeilings | FabricatedReserve | BudgetsInvalid | StartIntervalNotPositive
  | BurstCapacityNotOne | MaxInFlightNotOne | AttemptAccountingRequirement
  | SingleAttemptRouteRequired | ReceiptRouteRequired | LaneHashRequired | ModelRequired
  | CircuitThresholdsInvalid | UnsafeRoute route_error

definition validate_rolling :: "Config \<Rightarrow> config_error option" where
  "validate_rolling c =
     (if cfg_Rolling3h c \<le> 0 \<or> cfg_Rolling1h c \<le> 0 \<or> cfg_Rolling10m c \<le> 0
      then Some RollingCeilingsNotPositive
      else if cfg_Rolling10m c \<ge> cfg_Rolling1h c \<or> cfg_Rolling1h c \<ge> cfg_Rolling3h c
      then Some RollingWindowsNotOrdered
      else if cfg_ManualReserve c < 0 \<or> cfg_ManualReserve c \<ge> cfg_Rolling3h c
      then Some ManualReserveOutOfRange
      else None)"

definition validate_kind :: "AllowanceKind \<Rightarrow> Config \<Rightarrow> config_error option" where
  "validate_kind kind c =
     (case kind of
        AllowanceKindPublishedQuota \<Rightarrow> validate_rolling c
      | AllowanceKindUnlimitedText \<Rightarrow>
          (if cfg_Rolling3h c \<noteq> 0 \<or> cfg_Rolling1h c \<noteq> 0 \<or> cfg_Rolling10m c \<noteq> 0
           then Some FabricatedCeilings
           else if cfg_ManualReserve c \<noteq> 0 then Some FabricatedReserve
           else None)
      | AllowanceKindUnknown \<Rightarrow> validate_rolling c
      | _ \<Rightarrow> Some UnsupportedKind)"

definition validate_limits :: "Config \<Rightarrow> config_error option" where
  "validate_limits c =
     (if cfg_TaskBudget c \<le> 0 \<or> cfg_RetryBudget c < 0 \<or> cfg_QueueCapacity c \<le> 0
         \<or> cfg_FairnessQuantum c \<le> 0 then Some BudgetsInvalid
      else if cfg_MinimumStartInterval c \<le> 0 then Some StartIntervalNotPositive
      else if cfg_BurstCapacity c \<noteq> 1 then Some BurstCapacityNotOne
      else if cfg_MaxInFlight c \<noteq> 1 then Some MaxInFlightNotOne
      else if cfg_RequireSingleAttempt c = cfg_RequireAttemptReceipts c
        then Some AttemptAccountingRequirement
      else if cfg_RequireSingleAttempt c
              \<and> rs_AttemptAccounting (cfg_RouteSafety c) \<noteq> AttemptAccountingSingle
        then Some SingleAttemptRouteRequired
      else if cfg_RequireAttemptReceipts c
              \<and> rs_AttemptAccounting (cfg_RouteSafety c) \<noteq> AttemptAccountingReceipts
        then Some ReceiptRouteRequired
      else if cfg_RequireAttemptReceipts c \<and> is_blank (cfg_AccountLaneHash c)
        then Some LaneHashRequired
      else if cfg_RequireAttemptReceipts c \<and> is_blank (cfg_Model c) then Some ModelRequired
      else if cfg_RateResponseThreshold c \<le> 0 \<or> cfg_RateResponseWindow c \<le> 0
              \<or> cfg_ResetSafetyMargin c \<le> 0
        then Some CircuitThresholdsInvalid
      else map_option UnsafeRoute (RouteSafety_Validate (cfg_RouteSafety c)))"

definition Config_Validate :: "Config \<Rightarrow> config_error option" where
  "Config_Validate c =
     (if is_blank (cfg_AccountPolicyID c) \<or> is_blank (cfg_ProviderID c) \<or> is_blank (cfg_ModelPool c)
      then Some IdentifierEmpty
      else (case cfg_AllowanceProfile c of
              AllowanceProfileOther _ \<Rightarrow> Some UnsupportedProfile
            | _ \<Rightarrow>
               (let profileKind = AllowanceKindForProfile (cfg_AllowanceProfile c);
                    kind = (if cfg_AllowanceKind c = AllowanceKindEmpty then profileKind
                            else cfg_AllowanceKind c)
                in if cfg_AllowanceKind c \<noteq> AllowanceKindEmpty \<and> \<not> AllowanceKind_Valid kind
                   then Some UnsupportedKind
                   else if cfg_AllowanceKind c \<noteq> AllowanceKindEmpty \<and> profileKind \<noteq> kind
                   then Some KindProfileMismatch
                   else (case validate_kind kind c of
                           Some e \<Rightarrow> Some e
                         | None \<Rightarrow> validate_limits c))))"

section \<open>Admission codes, outcomes, circuits\<close>

datatype AdmissionCode =
    AdmissionNone | AdmissionAdmitted | AdmissionDelayed | AdmissionContextCancelled
  | AdmissionQueueFull | AdmissionTaskDeadlineExceeded | AdmissionTaskBudgetExhausted
  | AdmissionRollingBudgetExhausted | AdmissionUpstreamAllowanceExhausted
  | AdmissionCooldownActive | AdmissionCircuitOpen | AdmissionUnsafeProviderAmplification
  | AdmissionUnsafeConfiguration | AdmissionHumanAcknowledgementRequired
  | AdmissionRetryBudgetExhausted | AdmissionAuthenticationRefreshRequired
  | AdmissionDuplicateClientRequest | AdmissionGovernorClosed
  | AdmissionMissingAttemptReceipts | AdmissionGatewayContractUnhealthy

record ProviderRequest =
  pr_Protocol :: string
  pr_Prompt :: string
  pr_Model :: string
  pr_ClientRequestID :: string

record AttemptRequest =
  rq_TaskID :: string
  rq_WorkUnitID :: string
  rq_ClientRequestID :: string
  rq_ModelPool :: string
  rq_Retry :: bool
  rq_ProviderRequest :: ProviderRequest

datatype OutcomeClass =
    OutcomeEmpty | OutcomeSuccess | OutcomeRateCapacity | OutcomeAuthenticationExpired
  | OutcomeAuthenticationDenied | OutcomeHTTP403 | OutcomeLoginChallenge | OutcomeCAPTCHA
  | OutcomeSuspiciousActivity | OutcomeAccountWarning | OutcomeFeatureRestriction
  | OutcomeConnectionReset | OutcomeTimeout | OutcomeEmptyResponse | OutcomeMalformedUpstream
  | OutcomeUpstreamServerFailure | OutcomeCancelledBeforeUpstream | OutcomeUncertainReached
  | OutcomeOther string

record ResponseMetadata =
  md_StatusCode :: int
  md_RequestID :: string
  md_SessionID :: string
  md_Duration :: duration
  md_RetryAfter :: duration
  md_ResetAt :: time
  md_RateLimitObservation :: RateLimitObservation
  md_Endpoint :: string
  md_Model :: string
  md_DeliveryState :: DeliveryState
  md_AttemptReceipts :: "AttemptReceiptSet option"
  md_AdapterVersion :: string
  md_Transport :: string
  md_FirstByteLatency :: duration
  md_RetryCount :: int
  md_Fallback :: bool
  md_UsageEstimated :: bool

definition empty_observation :: RateLimitObservation where
  "empty_observation =
     \<lparr>ro_ObservedRetryAfter = 0, ro_LimitRequests = None, ro_RemainingRequests = None,
      ro_ResetRequests = 0, ro_LimitTokens = None, ro_RemainingTokens = None, ro_ResetTokens = 0\<rparr>"

definition empty_metadata :: ResponseMetadata where
  "empty_metadata =
     \<lparr>md_StatusCode = 0, md_RequestID = [], md_SessionID = [], md_Duration = 0, md_RetryAfter = 0,
      md_ResetAt = zero_time, md_RateLimitObservation = empty_observation, md_Endpoint = [],
      md_Model = [], md_DeliveryState = DeliveryUnobserved, md_AttemptReceipts = None,
      md_AdapterVersion = [], md_Transport = [], md_FirstByteLatency = 0, md_RetryCount = 0,
      md_Fallback = False, md_UsageEstimated = False\<rparr>"

record ProviderResponse =
  rsp_Text :: string
  rsp_Metadata :: ResponseMetadata

record Outcome =
  oc_Class :: OutcomeClass
  oc_ProviderFailureClass :: string
  oc_RetryAfter :: duration
  oc_ResetAt :: time
  oc_UpstreamReached :: bool
  oc_DeliveryState :: DeliveryState
  oc_Metadata :: ResponseMetadata

definition outcome_of_class :: "OutcomeClass \<Rightarrow> Outcome" where
  "outcome_of_class cls =
     \<lparr>oc_Class = cls, oc_ProviderFailureClass = [], oc_RetryAfter = 0, oc_ResetAt = zero_time,
      oc_UpstreamReached = False, oc_DeliveryState = DeliveryUnobserved,
      oc_Metadata = empty_metadata\<rparr>"

definition effectiveDeliveryState :: "DeliveryState \<Rightarrow> DeliveryState" where
  "effectiveDeliveryState s = (if DeliveryState_Valid s then s else DeliverySentUnconfirmed)"

definition deliveryUpstreamReached :: "DeliveryState \<Rightarrow> bool" where
  "deliveryUpstreamReached s \<longleftrightarrow> effectiveDeliveryState s \<noteq> DeliveryNotSent"

definition applyDeliveryEvidence :: "Outcome \<Rightarrow> Outcome" where
  "applyDeliveryEvidence outcome =
     (if \<not> DeliveryState_Valid (oc_DeliveryState outcome) then outcome
      else (let reached = outcome\<lparr>oc_UpstreamReached :=
                  deliveryUpstreamReached (oc_DeliveryState outcome)\<rparr>
            in case effectiveDeliveryState (oc_DeliveryState outcome) of
                 DeliverySentUnconfirmed \<Rightarrow> reached\<lparr>oc_Class := OutcomeUncertainReached\<rparr>
               | DeliveryResponseStarted \<Rightarrow> reached\<lparr>oc_Class := OutcomeUncertainReached\<rparr>
               | _ \<Rightarrow> reached))"

text \<open>The errors of \<open>client.Complete\<close> the default classifier distinguishes.\<close>

datatype call_error = CallCanceled | CallDeadlineExceeded | CallOtherError string

definition defaultOutcome :: "ProviderResponse \<Rightarrow> call_error option \<Rightarrow> Outcome" where
  "defaultOutcome response err =
     (let ds = md_DeliveryState (rsp_Metadata response);
          base = (\<lambda>cls. (outcome_of_class cls)\<lparr>oc_DeliveryState := ds\<rparr>)
      in case err of
           Some CallCanceled \<Rightarrow> base OutcomeCancelledBeforeUpstream
         | Some CallDeadlineExceeded \<Rightarrow> base OutcomeTimeout
         | None \<Rightarrow>
             (if is_blank (rsp_Text response)
              then (base OutcomeEmptyResponse)\<lparr>oc_UpstreamReached := True\<rparr>
              else (base OutcomeSuccess)\<lparr>oc_UpstreamReached := True\<rparr>)
         | Some (CallOtherError _) \<Rightarrow> (base OutcomeUncertainReached)\<lparr>oc_UpstreamReached := True\<rparr>)"

datatype CircuitState =
  CircuitEmpty | CircuitClosed | CircuitOpenUntil | CircuitHumanReviewRequired | CircuitOther string

datatype UpstreamCircuitState =
    UpstreamCircuitEmpty | UpstreamCircuitUnknown | UpstreamCircuitClosed | UpstreamCircuitOpen
  | UpstreamCircuitOther string

fun receiptOutcome :: "AttemptOutcome \<Rightarrow> OutcomeClass" where
  "receiptOutcome AttemptOutcomeSuccess = OutcomeSuccess"
| "receiptOutcome AttemptOutcomeRateCapacity = OutcomeRateCapacity"
| "receiptOutcome AttemptOutcomeAuthenticationExpired = OutcomeAuthenticationExpired"
| "receiptOutcome AttemptOutcomeAuthenticationDenied = OutcomeAuthenticationDenied"
| "receiptOutcome AttemptOutcomeHTTP403 = OutcomeHTTP403"
| "receiptOutcome AttemptOutcomeLoginChallenge = OutcomeLoginChallenge"
| "receiptOutcome AttemptOutcomeCAPTCHA = OutcomeCAPTCHA"
| "receiptOutcome AttemptOutcomeSuspiciousActivity = OutcomeSuspiciousActivity"
| "receiptOutcome AttemptOutcomeAccountWarning = OutcomeAccountWarning"
| "receiptOutcome AttemptOutcomeFeatureRestriction = OutcomeFeatureRestriction"
| "receiptOutcome AttemptOutcomeConnectionReset = OutcomeConnectionReset"
| "receiptOutcome AttemptOutcomeTimeout = OutcomeTimeout"
| "receiptOutcome AttemptOutcomeEmptyResponse = OutcomeEmptyResponse"
| "receiptOutcome AttemptOutcomeMalformedUpstream = OutcomeMalformedUpstream"
| "receiptOutcome AttemptOutcomeUpstreamServerFailure = OutcomeUpstreamServerFailure"
| "receiptOutcome _ = OutcomeUncertainReached"

fun security_signal :: "OutcomeClass \<Rightarrow> bool" where
  "security_signal OutcomeAuthenticationDenied = True"
| "security_signal OutcomeHTTP403 = True"
| "security_signal OutcomeLoginChallenge = True"
| "security_signal OutcomeCAPTCHA = True"
| "security_signal OutcomeSuspiciousActivity = True"
| "security_signal OutcomeAccountWarning = True"
| "security_signal OutcomeFeatureRestriction = True"
| "security_signal _ = False"

fun outcomePriority :: "OutcomeClass \<Rightarrow> int" where
  "outcomePriority OutcomeAuthenticationDenied = 100"
| "outcomePriority OutcomeHTTP403 = 100"
| "outcomePriority OutcomeLoginChallenge = 100"
| "outcomePriority OutcomeCAPTCHA = 100"
| "outcomePriority OutcomeSuspiciousActivity = 100"
| "outcomePriority OutcomeAccountWarning = 100"
| "outcomePriority OutcomeFeatureRestriction = 100"
| "outcomePriority OutcomeAuthenticationExpired = 95"
| "outcomePriority OutcomeRateCapacity = 90"
| "outcomePriority OutcomeUncertainReached = 80"
| "outcomePriority OutcomeConnectionReset = 70"
| "outcomePriority OutcomeTimeout = 70"
| "outcomePriority OutcomeMalformedUpstream = 60"
| "outcomePriority OutcomeEmptyResponse = 60"
| "outcomePriority OutcomeUpstreamServerFailure = 60"
| "outcomePriority OutcomeSuccess = 0"
| "outcomePriority _ = 50"

definition strongerOutcome :: "OutcomeClass \<Rightarrow> OutcomeClass \<Rightarrow> OutcomeClass" where
  "strongerOutcome current candidate =
     (if outcomePriority candidate > outcomePriority current then candidate else current)"

fun isRecoverableOutcome :: "OutcomeClass \<Rightarrow> bool" where
  "isRecoverableOutcome OutcomeRateCapacity = True"
| "isRecoverableOutcome OutcomeConnectionReset = True"
| "isRecoverableOutcome OutcomeTimeout = True"
| "isRecoverableOutcome OutcomeEmptyResponse = True"
| "isRecoverableOutcome OutcomeMalformedUpstream = True"
| "isRecoverableOutcome OutcomeUpstreamServerFailure = True"
| "isRecoverableOutcome _ = False"

section \<open>Lemmas\<close>

lemma validate_rolling_None:
  "validate_rolling c = None \<longleftrightarrow>
     0 < cfg_Rolling10m c \<and> cfg_Rolling10m c < cfg_Rolling1h c \<and> cfg_Rolling1h c < cfg_Rolling3h c
     \<and> 0 \<le> cfg_ManualReserve c \<and> cfg_ManualReserve c < cfg_Rolling3h c"
  by (auto simp: validate_rolling_def)

lemma Config_Validate_limits:
  assumes "Config_Validate c = None"
  shows "0 < cfg_TaskBudget c" and "0 \<le> cfg_RetryBudget c" and "0 < cfg_QueueCapacity c"
    and "0 < cfg_FairnessQuantum c" and "0 < cfg_MinimumStartInterval c"
    and "cfg_RequireSingleAttempt c \<noteq> cfg_RequireAttemptReceipts c"
    and "0 < cfg_RateResponseThreshold c" and "0 < cfg_RateResponseWindow c"
    and "0 < cfg_ResetSafetyMargin c" and "RouteSafety_Validate (cfg_RouteSafety c) = None"
  using assms
  by (auto simp: Config_Validate_def validate_limits_def Let_def
      split: AllowanceProfile.splits option.splits if_splits)

text \<open>The kind the constructor stores: valid, equal to the profile's, and with ordered positive
  rolling ceilings unless the text allowance is unlimited.\<close>

lemma Config_Validate_kind:
  assumes "Config_Validate c = None"
  shows "EffectiveAllowanceKind c = AllowanceKindForProfile (cfg_AllowanceProfile c)"
    and "AllowanceKind_Valid (EffectiveAllowanceKind c)"
    and "EffectiveAllowanceKind c \<noteq> AllowanceKindUnlimitedText \<Longrightarrow> validate_rolling c = None"
  using assms
  by (auto simp: Config_Validate_def EffectiveAllowanceKind_def validate_kind_def Let_def
      split: AllowanceProfile.splits option.splits if_splits AllowanceKind.splits)

lemma strongerOutcome_priority:
  "outcomePriority (strongerOutcome a b) = max (outcomePriority a) (outcomePriority b)"
  by (simp add: strongerOutcome_def)

lemma applyDeliveryEvidence_class:
  "oc_Class (applyDeliveryEvidence oc) =
     (if oc_DeliveryState oc \<in> {DeliverySentUnconfirmed, DeliveryResponseStarted}
      then OutcomeUncertainReached else oc_Class oc)"
  by (cases "oc_DeliveryState oc")
    (auto simp: applyDeliveryEvidence_def DeliveryState_Valid_def effectiveDeliveryState_def Let_def)

end
