(* ===== verification/Governor_Core.thy ===== *)
theory Governor_Core
  imports Governor_Types
begin

text \<open>
  The state of the account governor: the records of \<open>governor.go\<close>, \<open>retention.go\<close> and
  \<open>types.go\<close>. The operations are in the theories that follow; each models one critical
  section of the mutex and takes the governor to the new one.

  The clock is the field \<open>g_now\<close>: it is fixed while the mutex is held and moves between two
  critical sections. The queue holds waiter addresses into the store \<open>g_waiters\<close>, because a
  waiter removed from the queue is still read by the goroutine that owns it. A waiter's
  channel \<open>notify\<close> is the number of channels closed for it so far: closing one and making
  the next increments the number.
\<close>

section \<open>State\<close>

record waiter =
  w_request :: AttemptRequest
  w_notify :: nat
  w_checking :: bool
  w_removed :: bool

record circuitData =
  c_state :: CircuitState
  c_reason :: OutcomeClass
  c_openUntil :: time
  c_refreshRequired :: bool
  c_refreshInFlight :: bool
  c_lastRateReset :: time
  c_rateEvents :: "time list"

record telemetryState =
  t_available :: "int option"
  t_resetAt :: time
  t_cooldownUntil :: time
  t_rateLimited :: bool
  t_capacityExhausted :: bool
  t_upstreamCircuit :: UpstreamCircuitState
  t_unsafe :: bool

record taskState =
  ts_attempts :: int
  ts_retries :: int
  ts_lastTouched :: time

datatype requestState = requestUnset | requestPending | requestActive | requestCompleted

record requestRecord =
  rr_state :: requestState
  rr_completedAt :: time

record completedRequest =
  cr_id :: string
  cr_completedAt :: time

record TelemetrySummary =
  tm_Available :: bool
  tm_Remaining :: "int option"
  tm_ResetAt :: time
  tm_CooldownUntil :: time
  tm_RateLimited :: bool
  tm_CapacityExhausted :: bool
  tm_UpstreamCircuit :: UpstreamCircuitState
  tm_Unsafe :: bool

record BudgetSnapshot =
  bs_Rolling3hUsed :: int
  bs_Rolling3hCeiling :: int
  bs_Automated3hCeiling :: int
  bs_Rolling1hUsed :: int
  bs_Rolling1hCeiling :: int
  bs_Rolling10mUsed :: int
  bs_Rolling10mCeiling :: int
  bs_TaskUsed :: int
  bs_TaskCeiling :: int
  bs_RetriesUsed :: int
  bs_RetryCeiling :: int
  bs_ManualReserve :: int
  bs_ManualReserveRemaining :: int

record CircuitSnapshot =
  cs_State :: CircuitState
  cs_Reason :: OutcomeClass
  cs_OpenUntil :: time
  cs_RefreshRequired :: bool

record TelemetrySnapshot =
  sn_Remaining :: "int option"
  sn_ResetAt :: time
  sn_CooldownUntil :: time
  sn_RetryAfter :: duration
  sn_RateLimited :: bool
  sn_CapacityExhausted :: bool
  sn_UpstreamCircuit :: UpstreamCircuitState
  sn_RouteSafety :: "RouteSafety option"

datatype EventKind =
    EventAdmission | EventAttemptStarted | EventAttemptFinished | EventUpstreamAttempt
  | EventUncertainAttempt | EventCircuit

record GatewayContractHealthResult =
  gh_State :: GatewayContractHealth
  gh_ReasonCode :: string
  gh_Endpoint :: string
  gh_CheckedAt :: time

record Event =
  ev_Kind :: EventKind
  ev_AccountPolicyID :: string
  ev_ProviderID :: string
  ev_ModelPool :: string
  ev_Model :: string
  ev_AllowanceProfile :: AllowanceProfile
  ev_AllowanceKind :: AllowanceKind
  ev_TaskID :: string
  ev_ClientRequestID :: string
  ev_AttemptSequence :: int
  ev_AttemptID :: string
  ev_AttemptTrigger :: "AttemptTrigger option"
  ev_AttemptReceiptOutcome :: "AttemptOutcome option"
  ev_UpstreamReached :: bool
  ev_DeliveryState :: DeliveryState
  ev_Admission :: AdmissionCode
  ev_Reason :: AdmissionCode
  ev_Delay :: duration
  ev_RetryAt :: time
  ev_BudgetsBefore :: "BudgetSnapshot option"
  ev_BudgetsAfter :: "BudgetSnapshot option"
  ev_Telemetry :: "TelemetrySummary option"
  ev_Outcome :: OutcomeClass
  ev_CooldownUntil :: time
  ev_SelectedBackoff :: duration
  ev_CircuitFrom :: CircuitState
  ev_CircuitTo :: CircuitState
  ev_CircuitReason :: OutcomeClass
  ev_TelemetryHealthy :: bool
  ev_GatewayContractHealth :: "GatewayContractHealthResult option"
  ev_AttemptMetadata :: ResponseMetadata

text \<open>A permit is handed to the caller by value of its pointer; the operations on it take the
  permit and the governor and return both.\<close>

record Permit =
  pm_request :: AttemptRequest
  pm_telemetryHealthy :: bool
  pm_started :: bool
  pm_completed :: bool
  pm_attemptSequence :: int
  pm_receiptAware :: bool
  pm_startedAt :: time

datatype admission_cause =
    CauseIdentifiersRequired | CauseContextRequired | CauseContextCanceled
  | CauseDeadlineExceeded | CauseModelPoolDiffers | CauseGovernorClosed
  | CauseClientRequired | CauseUnsafeRoute | CauseInvalidReceipts | CauseModelDiffers
  | CauseGatewayUnhealthy

record AdmissionError =
  aer_Code :: AdmissionCode
  aer_Cause :: "admission_cause option"

record AdmissionResult =
  ad_Code :: AdmissionCode
  ad_Reason :: AdmissionCode
  ad_RetryAt :: time
  ad_Delay :: duration
  ad_Permit :: "Permit option"
  ad_Err :: "AdmissionError option"
  ad_TelemetryHealthy :: bool
  ad_GatewayContractHealth :: "GatewayContractHealthResult option"

definition Admitted :: "AdmissionResult \<Rightarrow> bool" where
  "Admitted r \<longleftrightarrow> ad_Code r = AdmissionAdmitted \<and> ad_Permit r \<noteq> None"

record Governor =
  g_config :: Config
  g_now :: time
  g_telemetrySource :: bool
  g_events :: bool
  g_closed :: bool
  g_inFlight :: bool
  g_queue :: "nat list"
  g_waiters :: "(nat \<times> waiter) list"
  g_currentTask :: string
  g_consecutiveTurns :: int
  g_lastStart :: time
  g_nextAttempt :: int
  g_ledger :: rollingLedger
  g_tasks :: "taskState gomap"
  g_requestIDs :: "requestRecord gomap"
  g_attemptIDs :: "time gomap"
  g_completedRequestIDs :: "completedRequest list"
  g_activeTaskID :: string
  g_circuit :: circuitData
  g_cooldownUntil :: time
  g_telemetry :: telemetryState
  g_pendingEvents :: "Event list"
  g_drainingEvents :: bool

end
