(* ===== verification/Governor_Retention.thy ===== *)
theory Governor_Retention
  imports Governor_Core
begin

text \<open>
  Retention of request ids, receipt attempt ids and task states, \<open>internal/governor/retention.go\<close>:
  window pruning followed by eviction of the oldest entry while a map is over its bound. The
  eviction loop occurs twice in the source with different maps; its contract is the locale
  \<open>eviction\<close>, interpreted for both.
\<close>

definition requestRetentionWindow :: duration where "requestRetentionWindow = 3 * Hour"
definition maxCompletedRequestIDs :: nat where "maxCompletedRequestIDs = 4096"
definition attemptIDRetentionWindow :: duration where "attemptIDRetentionWindow = 3 * Hour"
definition maxRetainedAttemptIDs :: nat where "maxRetainedAttemptIDs = 4096"
definition taskRetentionWindow :: duration where "taskRetentionWindow = 3 * Hour"
definition maxRetainedTaskStates :: nat where "maxRetainedTaskStates = 1024"

section \<open>Evicting the oldest entries\<close>

text \<open>The inner loop: the unprotected entry with the least stamp, the first of equals in
  iteration order; the empty id stands for none.\<close>

definition oldest_step ::
  "(string \<Rightarrow> bool) \<Rightarrow> ('v \<Rightarrow> time) \<Rightarrow> string \<times> time \<Rightarrow> string \<times> 'v \<Rightarrow> string \<times> time" where
  "oldest_step prot stamp acc entry =
     (case (acc, entry) of ((oldestID, oldest), (k, v)) \<Rightarrow>
        if prot k then acc
        else if oldestID = [] \<or> stamp v < oldest then (k, stamp v)
        else acc)"

definition find_oldest :: "(string \<Rightarrow> bool) \<Rightarrow> ('v \<Rightarrow> time) \<Rightarrow> 'v gomap \<Rightarrow> string" where
  "find_oldest prot stamp m = fst (foldl (oldest_step prot stamp) ([], zero_time) m)"

lemma foldl_oldest_mem:
  "foldl (oldest_step prot stamp) acc m = (k, t) \<Longrightarrow>
     (k, t) = acc \<or> (\<exists>v. (k, v) \<in> set m \<and> t = stamp v \<and> \<not> prot k)"
proof (induction m arbitrary: acc)
  case Nil
  then show ?case by simp
next
  case (Cons e m)
  from Cons.IH [of "oldest_step prot stamp acc e"] Cons.prems show ?case
    by (cases e; cases acc) (auto simp: oldest_step_def split: if_splits)
qed

lemma find_oldest_mem:
  assumes "find_oldest prot stamp m \<noteq> []"
  shows "find_oldest prot stamp m \<in> fst ` set m" and "\<not> prot (find_oldest prot stamp m)"
proof -
  obtain k t where kt: "foldl (oldest_step prot stamp) ([], zero_time) m = (k, t)" by fastforce
  with assms have "k \<noteq> []" by (simp add: find_oldest_def)
  with foldl_oldest_mem [OF kt] show "find_oldest prot stamp m \<in> fst ` set m"
    and "\<not> prot (find_oldest prot stamp m)"
    using kt by (auto simp: find_oldest_def image_iff) (metis fst_conv)
qed

function evict :: "nat \<Rightarrow> (string \<Rightarrow> bool) \<Rightarrow> ('v \<Rightarrow> time) \<Rightarrow> 'v gomap \<Rightarrow> 'v gomap" where
  "evict bound prot stamp m =
     (if length m > bound
      then (let oldestID = find_oldest prot stamp m
            in if oldestID = [] then m else evict bound prot stamp (map_del oldestID m))
      else m)"
  by pat_completeness auto
termination
proof (relation "measure (\<lambda>(b, p, s, m). length m)", goal_cases)
  case (2 bound prot stamp m oldestID)
  then have "map_get m oldestID \<noteq> None"
    using find_oldest_mem(1) [of prot stamp m] by (simp add: map_of_eq_None_iff)
  then show ?case by (simp add: length_map_del_less)
qed simp

declare evict.simps [simp del]

lemma foldl_oldest_least:
  assumes "foldl (oldest_step prot stamp) acc m = (k, t)" and "[] \<notin> fst ` set m"
  shows "(k = [] \<longrightarrow> fst acc = [] \<and> (\<forall>e \<in> set m. prot (fst e))) \<and>
     (k \<noteq> [] \<longrightarrow> (fst acc \<noteq> [] \<longrightarrow> t \<le> snd acc) \<and> (\<forall>(a, v) \<in> set m. \<not> prot a \<longrightarrow> t \<le> stamp v))"
  using assms
proof (induction m arbitrary: acc)
  case Nil
  then show ?case by auto
next
  case (Cons e m)
  obtain a v where e: "e = (a, v)" by fastforce
  obtain k0 t0 where acc: "acc = (k0, t0)" by fastforce
  from Cons.IH [of "oldest_step prot stamp acc e"] Cons.prems e acc show ?case
    by (auto simp: oldest_step_def split: if_splits)
qed

lemma find_oldest_Nil:
  "find_oldest prot stamp m = [] \<Longrightarrow> [] \<notin> fst ` set m \<Longrightarrow> e \<in> set m \<Longrightarrow> prot (fst e)"
  using foldl_oldest_least [of prot stamp "([], zero_time)" m "[]"]
  by (cases "foldl (oldest_step prot stamp) ([], zero_time) m") (auto simp: find_oldest_def)

lemma find_oldest_least:
  assumes "find_oldest prot stamp m \<noteq> []" "[] \<notin> fst ` set m" "map_wf m"
    and "map_get m (find_oldest prot stamp m) = Some v" and "(a, u) \<in> set m" "\<not> prot a"
  shows "stamp v \<le> stamp u"
proof -
  obtain k t where kt: "foldl (oldest_step prot stamp) ([], zero_time) m = (k, t)" by fastforce
  then have k: "k = find_oldest prot stamp m" by (simp add: find_oldest_def)
  with foldl_oldest_mem [OF kt] assms(1) obtain w where "(k, w) \<in> set m" "t = stamp w" by auto
  with assms(3,4) k have "t = stamp v" by (metis map_of_is_SomeI option.inject)
  with foldl_oldest_least [OF kt assms(2)] assms(1,5,6) k show ?thesis by auto
qed

lemma set_map_del: "set (map_del k m) = {e \<in> set m. fst e \<noteq> k}"
  by (induction m) auto

text \<open>Induction over the eviction loop: the map is returned as it is, or one entry goes.\<close>

lemma evict_loop_induct [case_names stop step]:
  assumes stop: "\<And>m. length m \<le> bound \<or> find_oldest prot stamp m = [] \<Longrightarrow> P m m"
    and step: "\<And>m r. find_oldest prot stamp m \<noteq> [] \<Longrightarrow> P (map_del (find_oldest prot stamp m) m) r \<Longrightarrow> P m r"
  shows "P m (evict bound prot stamp m)"
proof (induction "length m" arbitrary: m rule: less_induct)
  case less
  let ?k = "find_oldest prot stamp m"
  show ?case
  proof (cases "length m \<le> bound \<or> ?k = []")
    case True
    then have "evict bound prot stamp m = m" by (auto simp: evict.simps [of bound prot stamp m])
    with stop True show ?thesis by simp
  next
    case False
    then have ev: "evict bound prot stamp m = evict bound prot stamp (map_del ?k m)"
      by (simp add: evict.simps [of bound prot stamp m])
    have "map_get m ?k \<noteq> None"
      using find_oldest_mem(1) [of prot stamp m] False by (simp add: map_of_eq_None_iff)
    then have "P (map_del ?k m) (evict bound prot stamp (map_del ?k m))"
      by (intro less) (simp add: length_map_del_less)
    with False step ev show ?thesis by simp
  qed
qed

lemma evict_submap: "set (evict bound prot stamp m) \<subseteq> set m"
  by (rule evict_loop_induct) (auto simp: set_map_del)

lemma evict_wf: "map_wf m \<Longrightarrow> map_wf (evict bound prot stamp m)"
  by (rule evict_loop_induct [where P = "\<lambda>m r. map_wf m \<longrightarrow> map_wf r", THEN mp]) auto

lemma evict_protected: "prot k \<Longrightarrow> map_get (evict bound prot stamp m) k = map_get m k"
proof (induction rule: evict_loop_induct)
  case (step m r)
  then show ?case using find_oldest_mem(2) [of prot stamp m] by auto
qed simp

lemma evict_bounded:
  assumes "[] \<notin> fst ` set m"
  shows "length (evict bound prot stamp m) \<le> bound \<or> (\<forall>e \<in> set (evict bound prot stamp m). prot (fst e))"
  using assms
proof (induction rule: evict_loop_induct)
  case (stop m)
  then show ?case using find_oldest_Nil [of prot stamp m] by auto
next
  case (step m r)
  then show ?case by (auto simp: set_map_del)
qed

lemma evict_small: "length m \<le> bound \<Longrightarrow> evict bound prot stamp m = m"
  by (simp add: evict.simps [of bound prot stamp m])

text \<open>Whatever was evicted is no newer than any unprotected entry that stayed.\<close>

lemma evict_oldest_first:
  assumes "map_wf m" "[] \<notin> fst ` set m"
    and "(a, v) \<in> set m" "(a, v) \<notin> set (evict bound prot stamp m)"
    and "(b, u) \<in> set (evict bound prot stamp m)" "\<not> prot b"
  shows "stamp v \<le> stamp u"
  using assms
proof (induction bound prot stamp m rule: evict.induct)
  case (1 bound prot stamp m)
  let ?k = "find_oldest prot stamp m"
  from "1.prems" have big: "length m > bound" and some: "?k \<noteq> []"
    by (auto simp: evict.simps [of bound prot stamp m] Let_def split: if_splits)
  then have ev: "evict bound prot stamp m = evict bound prot stamp (map_del ?k m)"
    by (simp add: evict.simps [of bound prot stamp m])
  have bm: "(b, u) \<in> set m" using evict_submap "1.prems"(5) by blast
  show ?case
  proof (cases "a = ?k")
    case True
    with "1.prems"(1,3) have "map_get m ?k = Some v" by simp
    then show ?thesis using find_oldest_least [OF some "1.prems"(2,1) _ bm "1.prems"(6)] by simp
  next
    case False
    then show ?thesis
      using "1.IH" [OF big refl some] "1.prems" ev by (auto simp: set_map_del)
  qed
qed

locale eviction =
  fixes evict_op :: "'v gomap \<Rightarrow> 'v gomap"
    and bound :: nat
    and prot :: "string \<Rightarrow> bool"
    and stamp :: "'v \<Rightarrow> time"
  assumes submap: "set (evict_op m) \<subseteq> set m"
    and keeps_wf: "map_wf m \<Longrightarrow> map_wf (evict_op m)"
    and keeps_protected: "prot k \<Longrightarrow> map_get (evict_op m) k = map_get m k"
    and bounded: "[] \<notin> fst ` set m \<Longrightarrow>
      length (evict_op m) \<le> bound \<or> (\<forall>e \<in> set (evict_op m). prot (fst e))"
    and room: "length m \<le> bound \<Longrightarrow> evict_op m = m"
    and oldest_first: "map_wf m \<Longrightarrow> [] \<notin> fst ` set m \<Longrightarrow> (a, v) \<in> set m \<Longrightarrow>
      (a, v) \<notin> set (evict_op m) \<Longrightarrow> (b, u) \<in> set (evict_op m) \<Longrightarrow> \<not> prot b \<Longrightarrow> stamp v \<le> stamp u"
begin

text \<open>Window pruning followed by eviction, the shape both maps use.\<close>

lemma retained_is_old_value:
  "map_wf m \<Longrightarrow> map_get (evict_op (filter P m)) k = Some v \<Longrightarrow> map_get m k = Some v \<and> P (k, v)"
proof -
  assume wf: "map_wf m" and get: "map_get (evict_op (filter P m)) k = Some v"
  then have "(k, v) \<in> set (evict_op (filter P m))" by (simp add: map_of_SomeD)
  then have "(k, v) \<in> set (filter P m)" using submap by blast
  with wf show ?thesis by simp
qed

lemma fresh_kept:
  assumes "map_wf m" "map_get m k = Some v" "P (k, v)" "length (filter P m) \<le> bound"
  shows "map_get (evict_op (filter P m)) k = Some v"
proof -
  have "(k, v) \<in> set (filter P m)" using assms(2,3) by (simp add: map_of_SomeD)
  then show ?thesis using room [OF assms(4)] assms(1) by (simp add: map_wf_filter)
qed

lemma lost_only_to_newer:
  assumes "map_wf m" "[] \<notin> fst ` set m" "map_get m k = Some v" "P (k, v)"
    and "map_get (evict_op (filter P m)) k = None"
    and "map_get (evict_op (filter P m)) k' = Some u" "\<not> prot k'"
  shows "stamp v \<le> stamp u"
proof (rule oldest_first)
  show "map_wf (filter P m)" using assms(1) by simp
  show "[] \<notin> fst ` set (filter P m)" using assms(2) by auto
  show "(k, v) \<in> set (filter P m)" using assms(3,4) by (simp add: map_of_SomeD)
  show "(k, v) \<notin> set (evict_op (filter P m))" using assms(5) by (metis image_eqI fst_conv map_of_eq_None_iff)
  show "(k', u) \<in> set (evict_op (filter P m))" using assms(6) by (simp add: map_of_SomeD)
qed (rule assms)

end

section \<open>Operations of the governor\<close>

definition waiter_of :: "Governor \<Rightarrow> nat \<Rightarrow> waiter option" where
  "waiter_of g a = map_get (g_waiters g) a"

definition taskProtectedLocked :: "Governor \<Rightarrow> string \<Rightarrow> bool" where
  "taskProtectedLocked g taskID \<longleftrightarrow>
     (g_inFlight g \<and> g_activeTaskID g = taskID)
     \<or> (\<exists>a \<in> set (g_queue g).
           case waiter_of g a of
             None \<Rightarrow> False
           | Some w \<Rightarrow> rq_TaskID (w_request w) = taskID \<and> \<not> w_removed w)"

definition pruneAttemptIDsLocked :: "time \<Rightarrow> Governor \<Rightarrow> Governor" where
  "pruneAttemptIDsLocked now g =
     (let cutoff = now - attemptIDRetentionWindow
      in g\<lparr>g_attemptIDs := evict maxRetainedAttemptIDs (\<lambda>_. False) (\<lambda>t. t)
             (filter (\<lambda>(k, seenAt). \<not> seenAt < cutoff) (g_attemptIDs g))\<rparr>)"

fun prune_completed ::
  "time \<Rightarrow> requestRecord gomap \<Rightarrow> completedRequest list \<Rightarrow> requestRecord gomap \<times> completedRequest list" where
  "prune_completed cutoff ids [] = (ids, [])"
| "prune_completed cutoff ids (entry # rest) =
     (case map_get ids (cr_id entry) of
        None \<Rightarrow> prune_completed cutoff ids rest
      | Some record \<Rightarrow>
          if rr_state record \<noteq> requestCompleted \<or> rr_completedAt record \<noteq> cr_completedAt entry
          then prune_completed cutoff ids rest
          else if \<not> cutoff < cr_completedAt entry
          then prune_completed cutoff (map_del (cr_id entry) ids) rest
          else (let (ids', kept) = prune_completed cutoff ids rest in (ids', entry # kept)))"

fun bound_completed ::
  "nat \<Rightarrow> requestRecord gomap \<Rightarrow> completedRequest list \<Rightarrow> requestRecord gomap \<times> completedRequest list" where
  "bound_completed bound ids [] = (ids, [])"
| "bound_completed bound ids (entry # rest) =
     (if length (entry # rest) > bound
      then (case map_get ids (cr_id entry) of
              None \<Rightarrow> bound_completed bound ids rest
            | Some record \<Rightarrow>
                if rr_state record = requestCompleted \<and> rr_completedAt record = cr_completedAt entry
                then bound_completed bound (map_del (cr_id entry) ids) rest
                else bound_completed bound ids rest)
      else (ids, entry # rest))"

definition pruneRetentionLocked :: "time \<Rightarrow> Governor \<Rightarrow> Governor" where
  "pruneRetentionLocked now g0 =
     (let g = pruneAttemptIDsLocked now g0;
          cutoff = now - requestRetentionWindow;
          (ids, kept) = prune_completed cutoff (g_requestIDs g) (g_completedRequestIDs g);
          (ids', kept') = bound_completed maxCompletedRequestIDs ids kept;
          taskCutoff = now - taskRetentionWindow;
          tasks = filter (\<lambda>(taskID, st).
             taskProtectedLocked g taskID \<or> taskCutoff < ts_lastTouched st) (g_tasks g)
      in g\<lparr>g_requestIDs := ids', g_completedRequestIDs := kept',
           g_tasks := evict maxRetainedTaskStates (taskProtectedLocked g) ts_lastTouched tasks\<rparr>)"

definition requestSeenLocked :: "string \<Rightarrow> Governor \<Rightarrow> bool \<times> Governor" where
  "requestSeenLocked requestID g =
     (let g' = pruneRetentionLocked (g_now g) g
      in (map_get (g_requestIDs g') requestID \<noteq> None, g'))"

definition reserveRequestLocked :: "string \<Rightarrow> Governor \<Rightarrow> Governor" where
  "reserveRequestLocked requestID g =
     g\<lparr>g_requestIDs := map_put requestID
          \<lparr>rr_state = requestPending, rr_completedAt = zero_time\<rparr> (g_requestIDs g)\<rparr>"

definition markRequestActiveLocked :: "string \<Rightarrow> Governor \<Rightarrow> Governor" where
  "markRequestActiveLocked requestID g =
     (case map_get (g_requestIDs g) requestID of
        None \<Rightarrow> g
      | Some record \<Rightarrow>
          g\<lparr>g_requestIDs := map_put requestID (record\<lparr>rr_state := requestActive\<rparr>) (g_requestIDs g)\<rparr>)"

definition completeRequestLocked :: "string \<Rightarrow> time \<Rightarrow> Governor \<Rightarrow> Governor" where
  "completeRequestLocked requestID completedAt g =
     (case map_get (g_requestIDs g) requestID of
        None \<Rightarrow> g
      | Some record \<Rightarrow>
          g\<lparr>g_requestIDs := map_put requestID
               (record\<lparr>rr_state := requestCompleted, rr_completedAt := completedAt\<rparr>) (g_requestIDs g),
            g_completedRequestIDs := g_completedRequestIDs g
               @ [\<lparr>cr_id = requestID, cr_completedAt = completedAt\<rparr>]\<rparr>)"

definition releaseRequestLocked :: "string \<Rightarrow> Governor \<Rightarrow> Governor" where
  "releaseRequestLocked requestID g = g\<lparr>g_requestIDs := map_del requestID (g_requestIDs g)\<rparr>"

text \<open>\<open>taskLocked\<close> creates the task's record when it is missing and touches it; the pointer it
  returns is the record stored under the task id.\<close>

definition task_of :: "Governor \<Rightarrow> string \<Rightarrow> taskState" where
  "task_of g taskID =
     (case map_get (g_tasks g) taskID of
        None \<Rightarrow> \<lparr>ts_attempts = 0, ts_retries = 0, ts_lastTouched = zero_time\<rparr>
      | Some st \<Rightarrow> st)"

definition taskLocked :: "string \<Rightarrow> Governor \<Rightarrow> taskState \<times> Governor" where
  "taskLocked taskID g =
     (let st = (task_of g taskID)\<lparr>ts_lastTouched := g_now g\<rparr>
      in (st, g\<lparr>g_tasks := map_put taskID st (g_tasks g)\<rparr>))"

definition task_store :: "string \<Rightarrow> taskState \<Rightarrow> Governor \<Rightarrow> Governor" where
  "task_store taskID st g = g\<lparr>g_tasks := map_put taskID st (g_tasks g)\<rparr>"

section \<open>Frame lemmas\<close>

text \<open>The fields each operation leaves alone.\<close>

lemma pruneAttemptIDsLocked_frame [simp, frame_simps]:
  "g_config (pruneAttemptIDsLocked now g) = g_config g" "g_now (pruneAttemptIDsLocked now g) = g_now g"
  "g_telemetrySource (pruneAttemptIDsLocked now g) = g_telemetrySource g"
  "g_events (pruneAttemptIDsLocked now g) = g_events g"
  "g_closed (pruneAttemptIDsLocked now g) = g_closed g"
  "g_inFlight (pruneAttemptIDsLocked now g) = g_inFlight g"
  "g_queue (pruneAttemptIDsLocked now g) = g_queue g"
  "g_waiters (pruneAttemptIDsLocked now g) = g_waiters g"
  "g_currentTask (pruneAttemptIDsLocked now g) = g_currentTask g"
  "g_consecutiveTurns (pruneAttemptIDsLocked now g) = g_consecutiveTurns g"
  "g_lastStart (pruneAttemptIDsLocked now g) = g_lastStart g"
  "g_nextAttempt (pruneAttemptIDsLocked now g) = g_nextAttempt g"
  "g_ledger (pruneAttemptIDsLocked now g) = g_ledger g"
  "g_tasks (pruneAttemptIDsLocked now g) = g_tasks g"
  "g_requestIDs (pruneAttemptIDsLocked now g) = g_requestIDs g"
  "g_completedRequestIDs (pruneAttemptIDsLocked now g) = g_completedRequestIDs g"
  "g_activeTaskID (pruneAttemptIDsLocked now g) = g_activeTaskID g"
  "g_circuit (pruneAttemptIDsLocked now g) = g_circuit g"
  "g_cooldownUntil (pruneAttemptIDsLocked now g) = g_cooldownUntil g"
  "g_telemetry (pruneAttemptIDsLocked now g) = g_telemetry g"
  "g_pendingEvents (pruneAttemptIDsLocked now g) = g_pendingEvents g"
  "g_drainingEvents (pruneAttemptIDsLocked now g) = g_drainingEvents g"
  by (simp_all add: pruneAttemptIDsLocked_def)

lemma pruneRetentionLocked_frame [simp, frame_simps]:
  "g_config (pruneRetentionLocked now g) = g_config g" "g_now (pruneRetentionLocked now g) = g_now g"
  "g_telemetrySource (pruneRetentionLocked now g) = g_telemetrySource g"
  "g_events (pruneRetentionLocked now g) = g_events g"
  "g_closed (pruneRetentionLocked now g) = g_closed g"
  "g_inFlight (pruneRetentionLocked now g) = g_inFlight g"
  "g_queue (pruneRetentionLocked now g) = g_queue g"
  "g_waiters (pruneRetentionLocked now g) = g_waiters g"
  "g_currentTask (pruneRetentionLocked now g) = g_currentTask g"
  "g_consecutiveTurns (pruneRetentionLocked now g) = g_consecutiveTurns g"
  "g_lastStart (pruneRetentionLocked now g) = g_lastStart g"
  "g_nextAttempt (pruneRetentionLocked now g) = g_nextAttempt g"
  "g_ledger (pruneRetentionLocked now g) = g_ledger g"
  "g_activeTaskID (pruneRetentionLocked now g) = g_activeTaskID g"
  "g_circuit (pruneRetentionLocked now g) = g_circuit g"
  "g_cooldownUntil (pruneRetentionLocked now g) = g_cooldownUntil g"
  "g_telemetry (pruneRetentionLocked now g) = g_telemetry g"
  "g_pendingEvents (pruneRetentionLocked now g) = g_pendingEvents g"
  "g_drainingEvents (pruneRetentionLocked now g) = g_drainingEvents g"
  by (simp_all add: pruneRetentionLocked_def Let_def split: prod.splits)

lemma reserveRequestLocked_frame [simp, frame_simps]:
  "g_config (reserveRequestLocked i g) = g_config g" "g_now (reserveRequestLocked i g) = g_now g"
  "g_telemetrySource (reserveRequestLocked i g) = g_telemetrySource g"
  "g_events (reserveRequestLocked i g) = g_events g" "g_closed (reserveRequestLocked i g) = g_closed g"
  "g_inFlight (reserveRequestLocked i g) = g_inFlight g"
  "g_queue (reserveRequestLocked i g) = g_queue g" "g_waiters (reserveRequestLocked i g) = g_waiters g"
  "g_currentTask (reserveRequestLocked i g) = g_currentTask g"
  "g_consecutiveTurns (reserveRequestLocked i g) = g_consecutiveTurns g"
  "g_lastStart (reserveRequestLocked i g) = g_lastStart g"
  "g_nextAttempt (reserveRequestLocked i g) = g_nextAttempt g"
  "g_ledger (reserveRequestLocked i g) = g_ledger g" "g_tasks (reserveRequestLocked i g) = g_tasks g"
  "g_attemptIDs (reserveRequestLocked i g) = g_attemptIDs g"
  "g_completedRequestIDs (reserveRequestLocked i g) = g_completedRequestIDs g"
  "g_activeTaskID (reserveRequestLocked i g) = g_activeTaskID g"
  "g_circuit (reserveRequestLocked i g) = g_circuit g"
  "g_cooldownUntil (reserveRequestLocked i g) = g_cooldownUntil g"
  "g_telemetry (reserveRequestLocked i g) = g_telemetry g"
  "g_pendingEvents (reserveRequestLocked i g) = g_pendingEvents g"
  "g_drainingEvents (reserveRequestLocked i g) = g_drainingEvents g"
  by (simp_all add: reserveRequestLocked_def)

lemma markRequestActiveLocked_frame [simp, frame_simps]:
  "g_config (markRequestActiveLocked i g) = g_config g" "g_now (markRequestActiveLocked i g) = g_now g"
  "g_telemetrySource (markRequestActiveLocked i g) = g_telemetrySource g"
  "g_events (markRequestActiveLocked i g) = g_events g"
  "g_closed (markRequestActiveLocked i g) = g_closed g"
  "g_inFlight (markRequestActiveLocked i g) = g_inFlight g"
  "g_queue (markRequestActiveLocked i g) = g_queue g"
  "g_waiters (markRequestActiveLocked i g) = g_waiters g"
  "g_currentTask (markRequestActiveLocked i g) = g_currentTask g"
  "g_consecutiveTurns (markRequestActiveLocked i g) = g_consecutiveTurns g"
  "g_lastStart (markRequestActiveLocked i g) = g_lastStart g"
  "g_nextAttempt (markRequestActiveLocked i g) = g_nextAttempt g"
  "g_ledger (markRequestActiveLocked i g) = g_ledger g"
  "g_tasks (markRequestActiveLocked i g) = g_tasks g"
  "g_attemptIDs (markRequestActiveLocked i g) = g_attemptIDs g"
  "g_completedRequestIDs (markRequestActiveLocked i g) = g_completedRequestIDs g"
  "g_activeTaskID (markRequestActiveLocked i g) = g_activeTaskID g"
  "g_circuit (markRequestActiveLocked i g) = g_circuit g"
  "g_cooldownUntil (markRequestActiveLocked i g) = g_cooldownUntil g"
  "g_telemetry (markRequestActiveLocked i g) = g_telemetry g"
  "g_pendingEvents (markRequestActiveLocked i g) = g_pendingEvents g"
  "g_drainingEvents (markRequestActiveLocked i g) = g_drainingEvents g"
  by (simp_all add: markRequestActiveLocked_def split: option.splits)

lemma completeRequestLocked_frame [simp, frame_simps]:
  "g_config (completeRequestLocked i t g) = g_config g" "g_now (completeRequestLocked i t g) = g_now g"
  "g_telemetrySource (completeRequestLocked i t g) = g_telemetrySource g"
  "g_events (completeRequestLocked i t g) = g_events g"
  "g_closed (completeRequestLocked i t g) = g_closed g"
  "g_inFlight (completeRequestLocked i t g) = g_inFlight g"
  "g_queue (completeRequestLocked i t g) = g_queue g"
  "g_waiters (completeRequestLocked i t g) = g_waiters g"
  "g_currentTask (completeRequestLocked i t g) = g_currentTask g"
  "g_consecutiveTurns (completeRequestLocked i t g) = g_consecutiveTurns g"
  "g_lastStart (completeRequestLocked i t g) = g_lastStart g"
  "g_nextAttempt (completeRequestLocked i t g) = g_nextAttempt g"
  "g_ledger (completeRequestLocked i t g) = g_ledger g"
  "g_tasks (completeRequestLocked i t g) = g_tasks g"
  "g_attemptIDs (completeRequestLocked i t g) = g_attemptIDs g"
  "g_activeTaskID (completeRequestLocked i t g) = g_activeTaskID g"
  "g_circuit (completeRequestLocked i t g) = g_circuit g"
  "g_cooldownUntil (completeRequestLocked i t g) = g_cooldownUntil g"
  "g_telemetry (completeRequestLocked i t g) = g_telemetry g"
  "g_pendingEvents (completeRequestLocked i t g) = g_pendingEvents g"
  "g_drainingEvents (completeRequestLocked i t g) = g_drainingEvents g"
  by (simp_all add: completeRequestLocked_def split: option.splits)

lemma releaseRequestLocked_frame [simp, frame_simps]:
  "g_config (releaseRequestLocked i g) = g_config g" "g_now (releaseRequestLocked i g) = g_now g"
  "g_telemetrySource (releaseRequestLocked i g) = g_telemetrySource g"
  "g_events (releaseRequestLocked i g) = g_events g" "g_closed (releaseRequestLocked i g) = g_closed g"
  "g_inFlight (releaseRequestLocked i g) = g_inFlight g"
  "g_queue (releaseRequestLocked i g) = g_queue g" "g_waiters (releaseRequestLocked i g) = g_waiters g"
  "g_currentTask (releaseRequestLocked i g) = g_currentTask g"
  "g_consecutiveTurns (releaseRequestLocked i g) = g_consecutiveTurns g"
  "g_lastStart (releaseRequestLocked i g) = g_lastStart g"
  "g_nextAttempt (releaseRequestLocked i g) = g_nextAttempt g"
  "g_ledger (releaseRequestLocked i g) = g_ledger g" "g_tasks (releaseRequestLocked i g) = g_tasks g"
  "g_attemptIDs (releaseRequestLocked i g) = g_attemptIDs g"
  "g_completedRequestIDs (releaseRequestLocked i g) = g_completedRequestIDs g"
  "g_activeTaskID (releaseRequestLocked i g) = g_activeTaskID g"
  "g_circuit (releaseRequestLocked i g) = g_circuit g"
  "g_cooldownUntil (releaseRequestLocked i g) = g_cooldownUntil g"
  "g_telemetry (releaseRequestLocked i g) = g_telemetry g"
  "g_pendingEvents (releaseRequestLocked i g) = g_pendingEvents g"
  "g_drainingEvents (releaseRequestLocked i g) = g_drainingEvents g"
  by (simp_all add: releaseRequestLocked_def)

lemma taskLocked_frame [simp, frame_simps]:
  "g_config (snd (taskLocked i g)) = g_config g" "g_now (snd (taskLocked i g)) = g_now g"
  "g_telemetrySource (snd (taskLocked i g)) = g_telemetrySource g"
  "g_events (snd (taskLocked i g)) = g_events g" "g_closed (snd (taskLocked i g)) = g_closed g"
  "g_inFlight (snd (taskLocked i g)) = g_inFlight g" "g_queue (snd (taskLocked i g)) = g_queue g"
  "g_waiters (snd (taskLocked i g)) = g_waiters g"
  "g_currentTask (snd (taskLocked i g)) = g_currentTask g"
  "g_consecutiveTurns (snd (taskLocked i g)) = g_consecutiveTurns g"
  "g_lastStart (snd (taskLocked i g)) = g_lastStart g"
  "g_nextAttempt (snd (taskLocked i g)) = g_nextAttempt g"
  "g_ledger (snd (taskLocked i g)) = g_ledger g" "g_requestIDs (snd (taskLocked i g)) = g_requestIDs g"
  "g_attemptIDs (snd (taskLocked i g)) = g_attemptIDs g"
  "g_completedRequestIDs (snd (taskLocked i g)) = g_completedRequestIDs g"
  "g_activeTaskID (snd (taskLocked i g)) = g_activeTaskID g"
  "g_circuit (snd (taskLocked i g)) = g_circuit g"
  "g_cooldownUntil (snd (taskLocked i g)) = g_cooldownUntil g"
  "g_telemetry (snd (taskLocked i g)) = g_telemetry g"
  "g_pendingEvents (snd (taskLocked i g)) = g_pendingEvents g"
  "g_drainingEvents (snd (taskLocked i g)) = g_drainingEvents g"
  by (simp_all add: taskLocked_def Let_def)

lemma task_store_frame [simp, frame_simps]:
  "g_config (task_store i st g) = g_config g" "g_now (task_store i st g) = g_now g"
  "g_telemetrySource (task_store i st g) = g_telemetrySource g"
  "g_events (task_store i st g) = g_events g" "g_closed (task_store i st g) = g_closed g"
  "g_inFlight (task_store i st g) = g_inFlight g" "g_queue (task_store i st g) = g_queue g"
  "g_waiters (task_store i st g) = g_waiters g" "g_currentTask (task_store i st g) = g_currentTask g"
  "g_consecutiveTurns (task_store i st g) = g_consecutiveTurns g"
  "g_lastStart (task_store i st g) = g_lastStart g"
  "g_nextAttempt (task_store i st g) = g_nextAttempt g" "g_ledger (task_store i st g) = g_ledger g"
  "g_requestIDs (task_store i st g) = g_requestIDs g"
  "g_attemptIDs (task_store i st g) = g_attemptIDs g"
  "g_completedRequestIDs (task_store i st g) = g_completedRequestIDs g"
  "g_activeTaskID (task_store i st g) = g_activeTaskID g" "g_circuit (task_store i st g) = g_circuit g"
  "g_cooldownUntil (task_store i st g) = g_cooldownUntil g"
  "g_telemetry (task_store i st g) = g_telemetry g"
  "g_pendingEvents (task_store i st g) = g_pendingEvents g"
  "g_drainingEvents (task_store i st g) = g_drainingEvents g"
  by (simp_all add: task_store_def)

section \<open>The eviction contract\<close>

lemma evict_eviction: "eviction (evict bound prot stamp) bound prot stamp"
  by (rule eviction.intro)
    (fact evict_submap, erule evict_wf, erule evict_protected, erule evict_bounded,
      erule evict_small, erule (5) evict_oldest_first)

interpretation attempt_ids: eviction
  "evict maxRetainedAttemptIDs (\<lambda>_. False) (\<lambda>t. t)" maxRetainedAttemptIDs "\<lambda>_. False" "\<lambda>t. t"
  by (rule evict_eviction)

interpretation task_states: eviction
  "evict maxRetainedTaskStates (taskProtectedLocked g) ts_lastTouched" maxRetainedTaskStates
  "taskProtectedLocked g" ts_lastTouched
  for g
  by (rule evict_eviction)

end
