(* ===== verification/Governor_Telemetry.thy ===== *)
theory Governor_Telemetry
  imports Governor_Retention
begin

text \<open>
  Events, expiry, budgets, telemetry and circuit transitions: \<open>events.go\<close>, \<open>telemetry.go\<close> and
  \<open>circuit.go\<close> of \<open>internal/governor\<close>. The lemmas record which fields each operation can change
  and that telemetry only ever tightens protection, with the exception the source has: a
  repeated rate signal replaces the circuit state whatever it was.
\<close>

section \<open>Events\<close>

definition queueEventLocked :: "Event \<Rightarrow> Governor \<Rightarrow> Governor" where
  "queueEventLocked event g =
     (if \<not> g_events g then g else g\<lparr>g_pendingEvents := g_pendingEvents g @ [event]\<rparr>)"

text \<open>The fields every event literal of the source takes from the configuration; all others
  are zero values.\<close>

definition config_event :: "EventKind \<Rightarrow> Governor \<Rightarrow> Event" where
  "config_event kind g =
     \<lparr>ev_Kind = kind, ev_AccountPolicyID = cfg_AccountPolicyID (g_config g),
      ev_ProviderID = cfg_ProviderID (g_config g), ev_ModelPool = cfg_ModelPool (g_config g),
      ev_Model = cfg_Model (g_config g), ev_AllowanceProfile = cfg_AllowanceProfile (g_config g),
      ev_AllowanceKind = cfg_AllowanceKind (g_config g), ev_TaskID = [], ev_ClientRequestID = [],
      ev_AttemptSequence = 0, ev_AttemptID = [], ev_AttemptTrigger = None,
      ev_AttemptReceiptOutcome = None, ev_UpstreamReached = False,
      ev_DeliveryState = DeliveryUnobserved, ev_Admission = AdmissionNone,
      ev_Reason = AdmissionNone, ev_Delay = 0, ev_RetryAt = zero_time, ev_BudgetsBefore = None,
      ev_BudgetsAfter = None, ev_Telemetry = None, ev_Outcome = OutcomeEmpty,
      ev_CooldownUntil = zero_time, ev_SelectedBackoff = 0, ev_CircuitFrom = CircuitEmpty,
      ev_CircuitTo = CircuitEmpty, ev_CircuitReason = OutcomeEmpty, ev_TelemetryHealthy = False,
      ev_GatewayContractHealth = None, ev_AttemptMetadata = empty_metadata\<rparr>"

text \<open>\<open>DrainEvents\<close> in its critical sections: claim the drain, take one batch, finish. The batch
  is delivered to the sink between the sections; a panic of the sink runs \<open>drain_abort\<close>.\<close>

definition drain_begin :: "Governor \<Rightarrow> bool \<times> Governor" where
  "drain_begin g =
     (if \<not> g_events g \<or> g_drainingEvents g \<or> g_pendingEvents g = [] then (False, g)
      else (True, g\<lparr>g_drainingEvents := True\<rparr>))"

definition drain_batch :: "Governor \<Rightarrow> Event list option \<times> Governor" where
  "drain_batch g =
     (if g_pendingEvents g = [] then (None, g\<lparr>g_drainingEvents := False\<rparr>)
      else (Some (g_pendingEvents g), g\<lparr>g_pendingEvents := []\<rparr>))"

definition drain_abort :: "Governor \<Rightarrow> Governor" where
  "drain_abort g = g\<lparr>g_drainingEvents := False\<rparr>"

section \<open>Circuit transitions\<close>

definition transitionCircuitLocked ::
  "CircuitState \<Rightarrow> OutcomeClass \<Rightarrow> time \<Rightarrow> Governor \<Rightarrow> Governor" where
  "transitionCircuitLocked state reason openUntil g =
     (let from = c_state (g_circuit g);
          g' = g\<lparr>g_circuit := (g_circuit g)
                   \<lparr>c_state := state, c_reason := reason, c_openUntil := openUntil\<rparr>\<rparr>
      in if from \<noteq> state
         then queueEventLocked
                ((config_event EventCircuit g')
                   \<lparr>ev_CircuitFrom := from, ev_CircuitTo := state, ev_CircuitReason := reason,
                    ev_CooldownUntil := openUntil\<rparr>) g'
         else g')"

definition circuitSnapshotLocked :: "Governor \<Rightarrow> CircuitSnapshot" where
  "circuitSnapshotLocked g =
     \<lparr>cs_State = c_state (g_circuit g), cs_Reason = c_reason (g_circuit g),
      cs_OpenUntil = c_openUntil (g_circuit g),
      cs_RefreshRequired = c_refreshRequired (g_circuit g)\<rparr>"

section \<open>Expiry and budgets\<close>

definition expire_rate_events :: "time \<Rightarrow> time list \<Rightarrow> time list" where
  "expire_rate_events cutoff evs =
     (let index = sort_Search (length evs) (\<lambda>i. cutoff < evs ! i)
      in if 0 < index then drop index evs else evs)"

definition expire_telemetry :: "time \<Rightarrow> telemetryState \<Rightarrow> telemetryState" where
  "expire_telemetry now t =
     (if \<not> is_zero (t_resetAt t) \<and> \<not> now < t_resetAt t
      then t\<lparr>t_available := None, t_resetAt := zero_time, t_rateLimited := False,
             t_capacityExhausted := False, t_cooldownUntil := zero_time\<rparr>
      else t)"

definition expireLocked :: "time \<Rightarrow> Governor \<Rightarrow> Governor" where
  "expireLocked now g0 =
     (let g = pruneRetentionLocked now (g0\<lparr>g_ledger := ledger_expire (g_ledger g0) now (3 * Hour)\<rparr>);
          cutoff = now - cfg_RateResponseWindow (g_config g)
      in g\<lparr>g_circuit := (g_circuit g)
              \<lparr>c_rateEvents := expire_rate_events cutoff (c_rateEvents (g_circuit g))\<rparr>,
           g_telemetry := expire_telemetry now (g_telemetry g)\<rparr>)"

definition localNumericLayerApplies :: "Governor \<Rightarrow> bool" where
  "localNumericLayerApplies g \<longleftrightarrow> cfg_AllowanceKind (g_config g) \<noteq> AllowanceKindUnlimitedText"

definition rollingBudgetsApply :: "Governor \<Rightarrow> bool" where
  "rollingBudgetsApply g \<longleftrightarrow> localNumericLayerApplies g"

definition manualReserveApplies :: "Governor \<Rightarrow> bool" where
  "manualReserveApplies g \<longleftrightarrow> localNumericLayerApplies g"

definition remainingSignalApplies :: "Governor \<Rightarrow> bool" where
  "remainingSignalApplies g \<longleftrightarrow> localNumericLayerApplies g"

definition taskRetryCountLocked :: "string \<Rightarrow> Governor \<Rightarrow> int \<times> Governor" where
  "taskRetryCountLocked taskID g =
     (if taskID = [] then (0, g)
      else (case taskLocked taskID g of (st, g') \<Rightarrow> (ts_retries st, g')))"

definition budgetLocked :: "time \<Rightarrow> string \<Rightarrow> Governor \<Rightarrow> BudgetSnapshot \<times> Governor" where
  "budgetLocked now taskID g0 =
     (let g1 = expireLocked now g0;
          (taskUsed, g2) = (if taskID = [] then (0, g1)
             else (case taskLocked taskID g1 of (st, g') \<Rightarrow> (ts_attempts st, g')));
          numeric = localNumericLayerApplies g2;
          cfg = g_config g2;
          reserve = (if numeric then cfg_ManualReserve cfg else 0);
          remaining = (if numeric
             then (case t_available (g_telemetry g2) of
                     Some v \<Rightarrow> if v < cfg_ManualReserve cfg then v else cfg_ManualReserve cfg
                   | None \<Rightarrow> cfg_ManualReserve cfg)
             else 0);
          (retriesUsed, g3) = taskRetryCountLocked taskID g2
      in (\<lparr>bs_Rolling3hUsed = ledger_count (g_ledger g2) now (3 * Hour),
           bs_Rolling3hCeiling = (if numeric then cfg_Rolling3h cfg else 0),
           bs_Automated3hCeiling = (if numeric then cfg_Rolling3h cfg else 0),
           bs_Rolling1hUsed = ledger_count (g_ledger g2) now Hour,
           bs_Rolling1hCeiling = (if numeric then cfg_Rolling1h cfg else 0),
           bs_Rolling10mUsed = ledger_count (g_ledger g2) now (10 * Minute),
           bs_Rolling10mCeiling = (if numeric then cfg_Rolling10m cfg else 0),
           bs_TaskUsed = taskUsed, bs_TaskCeiling = cfg_TaskBudget cfg,
           bs_RetriesUsed = retriesUsed, bs_RetryCeiling = cfg_RetryBudget cfg,
           bs_ManualReserve = reserve, bs_ManualReserveRemaining = remaining\<rparr>, g3))"

definition telemetrySummaryLocked :: "Governor \<Rightarrow> TelemetrySummary" where
  "telemetrySummaryLocked g =
     \<lparr>tm_Available = g_telemetrySource g, tm_Remaining = t_available (g_telemetry g),
      tm_ResetAt = t_resetAt (g_telemetry g), tm_CooldownUntil = t_cooldownUntil (g_telemetry g),
      tm_RateLimited = t_rateLimited (g_telemetry g),
      tm_CapacityExhausted = t_capacityExhausted (g_telemetry g),
      tm_UpstreamCircuit = t_upstreamCircuit (g_telemetry g), tm_Unsafe = t_unsafe (g_telemetry g)\<rparr>"

definition emitAdmissionLocked ::
  "AttemptRequest \<Rightarrow> AdmissionResult \<Rightarrow> bool \<Rightarrow> Governor \<Rightarrow> Governor" where
  "emitAdmissionLocked request result telemetryHealthy g =
     (if \<not> g_events g then g
      else (let (budgets, g') = budgetLocked (g_now g) (rq_TaskID request) g
            in queueEventLocked
                 ((config_event EventAdmission g')
                    \<lparr>ev_TaskID := rq_TaskID request,
                     ev_ClientRequestID := rq_ClientRequestID request,
                     ev_Admission := ad_Code result, ev_Reason := ad_Reason result,
                     ev_Delay := ad_Delay result, ev_RetryAt := ad_RetryAt result,
                     ev_BudgetsBefore := Some budgets, ev_BudgetsAfter := Some budgets,
                     ev_Telemetry := Some (telemetrySummaryLocked g'),
                     ev_TelemetryHealthy := telemetryHealthy,
                     ev_GatewayContractHealth := ad_GatewayContractHealth result\<rparr>) g'))"

section \<open>Telemetry\<close>

text \<open>What the telemetry source returned: \<open>None\<close> is its error. Without a source there is
  nothing to apply and telemetry counts as healthy.\<close>

definition readTelemetry ::
  "Governor \<Rightarrow> TelemetrySnapshot option \<Rightarrow> TelemetrySnapshot option \<times> bool" where
  "readTelemetry g observed =
     (if \<not> g_telemetrySource g then (None, True)
      else (case observed of None \<Rightarrow> (None, False) | Some s \<Rightarrow> (Some s, True)))"

definition lower_remaining :: "int option \<Rightarrow> int option \<Rightarrow> int option" where
  "lower_remaining current reported =
     (case reported of
        None \<Rightarrow> current
      | Some r \<Rightarrow> (case current of
                     None \<Rightarrow> Some r
                   | Some c \<Rightarrow> if r < c then Some r else Some c))"

definition apply_remaining :: "time \<Rightarrow> TelemetrySnapshot \<Rightarrow> telemetryState \<Rightarrow> telemetryState" where
  "apply_remaining now s t =
     (if now < sn_ResetAt s
      then (if is_zero (t_resetAt t) \<or> t_resetAt t \<noteq> sn_ResetAt s \<or> \<not> now < t_resetAt t
            then t\<lparr>t_available := sn_Remaining s, t_resetAt := sn_ResetAt s\<rparr>
            else t\<lparr>t_available := lower_remaining (t_available t) (sn_Remaining s),
                   t_resetAt := sn_ResetAt s\<rparr>)
      else t\<lparr>t_available := lower_remaining (t_available t) (sn_Remaining s)\<rparr>)"

definition apply_cooldown ::
  "time \<Rightarrow> TelemetrySnapshot \<Rightarrow> telemetryState \<times> time \<Rightarrow> telemetryState \<times> time" where
  "apply_cooldown now s st =
     (case st of (t, cooldown) \<Rightarrow>
        let t1 = (if t_cooldownUntil t < sn_CooldownUntil s
                  then t\<lparr>t_cooldownUntil := sn_CooldownUntil s\<rparr> else t);
            (t2, cd) = (if 0 < sn_RetryAfter s
               then (let until = now + sn_RetryAfter s
                     in (if t_cooldownUntil t1 < until then t1\<lparr>t_cooldownUntil := until\<rparr> else t1,
                         if cooldown < until then until else cooldown))
               else (t1, cooldown))
        in (t2, if cd < sn_CooldownUntil s then sn_CooldownUntil s else cd))"

definition applyTelemetryLocked :: "TelemetrySnapshot \<Rightarrow> time \<Rightarrow> Governor \<Rightarrow> Governor" where
  "applyTelemetryLocked s now g0 =
     (let t0 = g_telemetry g0;
          previousReset = t_resetAt t0;
          t1 = (case sn_RouteSafety s of
                  None \<Rightarrow> t0
                | Some rs \<Rightarrow>
                    if RouteSafety_Validate rs \<noteq> None
                       \<or> \<not> RouteSafety_Equal rs (cfg_RouteSafety (g_config g0))
                    then t0\<lparr>t_unsafe := True\<rparr> else t0);
          t2 = apply_remaining now s t1;
          (t3, cooldown) = apply_cooldown now s (t2, g_cooldownUntil g0);
          t4 = t3\<lparr>t_rateLimited := sn_RateLimited s, t_capacityExhausted := sn_CapacityExhausted s\<rparr>;
          t5 = (if sn_UpstreamCircuit s \<noteq> UpstreamCircuitUnknown
                then t4\<lparr>t_upstreamCircuit := sn_UpstreamCircuit s\<rparr> else t4);
          g1 = g0\<lparr>g_telemetry := t5, g_cooldownUntil := cooldown\<rparr>;
          g2 = (if (sn_RateLimited s \<or> sn_CapacityExhausted s)
                   \<and> now < previousReset \<and> now < sn_ResetAt s
                then (let openUntil = (if previousReset < sn_ResetAt s then sn_ResetAt s
                                       else previousReset)
                      in transitionCircuitLocked CircuitOpenUntil OutcomeRateCapacity
                           (openUntil + cfg_ResetSafetyMargin (g_config g1)) g1)
                else g1);
          g3 = (if sn_UpstreamCircuit s = UpstreamCircuitOpen
                   \<and> t_cooldownUntil (g_telemetry g2) < sn_ResetAt s
                then g2\<lparr>g_telemetry := (g_telemetry g2)\<lparr>t_cooldownUntil := sn_ResetAt s\<rparr>\<rparr> else g2)
      in if sn_UpstreamCircuit s = UpstreamCircuitOpen \<and> g_cooldownUntil g3 < sn_CooldownUntil s
         then g3\<lparr>g_cooldownUntil := sn_CooldownUntil s\<rparr> else g3)"

section \<open>Frame lemmas\<close>

lemma queueEventLocked_frame [simp, frame_simps]:
  "g_config (queueEventLocked e g) = g_config g" "g_now (queueEventLocked e g) = g_now g"
  "g_telemetrySource (queueEventLocked e g) = g_telemetrySource g"
  "g_events (queueEventLocked e g) = g_events g" "g_closed (queueEventLocked e g) = g_closed g"
  "g_inFlight (queueEventLocked e g) = g_inFlight g" "g_queue (queueEventLocked e g) = g_queue g"
  "g_waiters (queueEventLocked e g) = g_waiters g"
  "g_currentTask (queueEventLocked e g) = g_currentTask g"
  "g_consecutiveTurns (queueEventLocked e g) = g_consecutiveTurns g"
  "g_lastStart (queueEventLocked e g) = g_lastStart g"
  "g_nextAttempt (queueEventLocked e g) = g_nextAttempt g"
  "g_ledger (queueEventLocked e g) = g_ledger g" "g_tasks (queueEventLocked e g) = g_tasks g"
  "g_requestIDs (queueEventLocked e g) = g_requestIDs g"
  "g_attemptIDs (queueEventLocked e g) = g_attemptIDs g"
  "g_completedRequestIDs (queueEventLocked e g) = g_completedRequestIDs g"
  "g_activeTaskID (queueEventLocked e g) = g_activeTaskID g"
  "g_circuit (queueEventLocked e g) = g_circuit g"
  "g_cooldownUntil (queueEventLocked e g) = g_cooldownUntil g"
  "g_telemetry (queueEventLocked e g) = g_telemetry g"
  "g_drainingEvents (queueEventLocked e g) = g_drainingEvents g"
  by (simp_all add: queueEventLocked_def)

lemma transitionCircuitLocked_frame [simp, frame_simps]:
  "g_config (transitionCircuitLocked st r u g) = g_config g"
  "g_now (transitionCircuitLocked st r u g) = g_now g"
  "g_telemetrySource (transitionCircuitLocked st r u g) = g_telemetrySource g"
  "g_events (transitionCircuitLocked st r u g) = g_events g"
  "g_closed (transitionCircuitLocked st r u g) = g_closed g"
  "g_inFlight (transitionCircuitLocked st r u g) = g_inFlight g"
  "g_queue (transitionCircuitLocked st r u g) = g_queue g"
  "g_waiters (transitionCircuitLocked st r u g) = g_waiters g"
  "g_currentTask (transitionCircuitLocked st r u g) = g_currentTask g"
  "g_consecutiveTurns (transitionCircuitLocked st r u g) = g_consecutiveTurns g"
  "g_lastStart (transitionCircuitLocked st r u g) = g_lastStart g"
  "g_nextAttempt (transitionCircuitLocked st r u g) = g_nextAttempt g"
  "g_ledger (transitionCircuitLocked st r u g) = g_ledger g"
  "g_tasks (transitionCircuitLocked st r u g) = g_tasks g"
  "g_requestIDs (transitionCircuitLocked st r u g) = g_requestIDs g"
  "g_attemptIDs (transitionCircuitLocked st r u g) = g_attemptIDs g"
  "g_completedRequestIDs (transitionCircuitLocked st r u g) = g_completedRequestIDs g"
  "g_activeTaskID (transitionCircuitLocked st r u g) = g_activeTaskID g"
  "g_cooldownUntil (transitionCircuitLocked st r u g) = g_cooldownUntil g"
  "g_telemetry (transitionCircuitLocked st r u g) = g_telemetry g"
  "g_drainingEvents (transitionCircuitLocked st r u g) = g_drainingEvents g"
  by (simp_all add: transitionCircuitLocked_def Let_def)

lemma expireLocked_frame [simp, frame_simps]:
  "g_config (expireLocked now g) = g_config g" "g_now (expireLocked now g) = g_now g"
  "g_telemetrySource (expireLocked now g) = g_telemetrySource g"
  "g_events (expireLocked now g) = g_events g" "g_closed (expireLocked now g) = g_closed g"
  "g_inFlight (expireLocked now g) = g_inFlight g" "g_queue (expireLocked now g) = g_queue g"
  "g_waiters (expireLocked now g) = g_waiters g" "g_currentTask (expireLocked now g) = g_currentTask g"
  "g_consecutiveTurns (expireLocked now g) = g_consecutiveTurns g"
  "g_lastStart (expireLocked now g) = g_lastStart g"
  "g_nextAttempt (expireLocked now g) = g_nextAttempt g"
  "g_activeTaskID (expireLocked now g) = g_activeTaskID g"
  "g_cooldownUntil (expireLocked now g) = g_cooldownUntil g"
  "g_pendingEvents (expireLocked now g) = g_pendingEvents g"
  "g_drainingEvents (expireLocked now g) = g_drainingEvents g"
  by (simp_all add: expireLocked_def Let_def)

lemma taskRetryCountLocked_frame [simp, frame_simps]:
  "g_config (snd (taskRetryCountLocked i g)) = g_config g"
  "g_now (snd (taskRetryCountLocked i g)) = g_now g"
  "g_telemetrySource (snd (taskRetryCountLocked i g)) = g_telemetrySource g"
  "g_events (snd (taskRetryCountLocked i g)) = g_events g"
  "g_closed (snd (taskRetryCountLocked i g)) = g_closed g"
  "g_inFlight (snd (taskRetryCountLocked i g)) = g_inFlight g"
  "g_queue (snd (taskRetryCountLocked i g)) = g_queue g"
  "g_waiters (snd (taskRetryCountLocked i g)) = g_waiters g"
  "g_currentTask (snd (taskRetryCountLocked i g)) = g_currentTask g"
  "g_consecutiveTurns (snd (taskRetryCountLocked i g)) = g_consecutiveTurns g"
  "g_lastStart (snd (taskRetryCountLocked i g)) = g_lastStart g"
  "g_nextAttempt (snd (taskRetryCountLocked i g)) = g_nextAttempt g"
  "g_ledger (snd (taskRetryCountLocked i g)) = g_ledger g"
  "g_requestIDs (snd (taskRetryCountLocked i g)) = g_requestIDs g"
  "g_attemptIDs (snd (taskRetryCountLocked i g)) = g_attemptIDs g"
  "g_completedRequestIDs (snd (taskRetryCountLocked i g)) = g_completedRequestIDs g"
  "g_activeTaskID (snd (taskRetryCountLocked i g)) = g_activeTaskID g"
  "g_circuit (snd (taskRetryCountLocked i g)) = g_circuit g"
  "g_cooldownUntil (snd (taskRetryCountLocked i g)) = g_cooldownUntil g"
  "g_telemetry (snd (taskRetryCountLocked i g)) = g_telemetry g"
  "g_pendingEvents (snd (taskRetryCountLocked i g)) = g_pendingEvents g"
  "g_drainingEvents (snd (taskRetryCountLocked i g)) = g_drainingEvents g"
  by (simp_all add: taskRetryCountLocked_def split_beta)

lemma budgetLocked_frame [simp, frame_simps]:
  "g_config (snd (budgetLocked now i g)) = g_config g" "g_now (snd (budgetLocked now i g)) = g_now g"
  "g_telemetrySource (snd (budgetLocked now i g)) = g_telemetrySource g"
  "g_events (snd (budgetLocked now i g)) = g_events g"
  "g_closed (snd (budgetLocked now i g)) = g_closed g"
  "g_inFlight (snd (budgetLocked now i g)) = g_inFlight g"
  "g_queue (snd (budgetLocked now i g)) = g_queue g"
  "g_waiters (snd (budgetLocked now i g)) = g_waiters g"
  "g_currentTask (snd (budgetLocked now i g)) = g_currentTask g"
  "g_consecutiveTurns (snd (budgetLocked now i g)) = g_consecutiveTurns g"
  "g_lastStart (snd (budgetLocked now i g)) = g_lastStart g"
  "g_nextAttempt (snd (budgetLocked now i g)) = g_nextAttempt g"
  "g_activeTaskID (snd (budgetLocked now i g)) = g_activeTaskID g"
  "g_cooldownUntil (snd (budgetLocked now i g)) = g_cooldownUntil g"
  "g_pendingEvents (snd (budgetLocked now i g)) = g_pendingEvents g"
  "g_drainingEvents (snd (budgetLocked now i g)) = g_drainingEvents g"
  by (simp_all add: budgetLocked_def Let_def split_beta)

lemma emitAdmissionLocked_frame [simp, frame_simps]:
  "g_config (emitAdmissionLocked rq res h g) = g_config g"
  "g_now (emitAdmissionLocked rq res h g) = g_now g"
  "g_telemetrySource (emitAdmissionLocked rq res h g) = g_telemetrySource g"
  "g_events (emitAdmissionLocked rq res h g) = g_events g"
  "g_closed (emitAdmissionLocked rq res h g) = g_closed g"
  "g_inFlight (emitAdmissionLocked rq res h g) = g_inFlight g"
  "g_queue (emitAdmissionLocked rq res h g) = g_queue g"
  "g_waiters (emitAdmissionLocked rq res h g) = g_waiters g"
  "g_currentTask (emitAdmissionLocked rq res h g) = g_currentTask g"
  "g_consecutiveTurns (emitAdmissionLocked rq res h g) = g_consecutiveTurns g"
  "g_lastStart (emitAdmissionLocked rq res h g) = g_lastStart g"
  "g_nextAttempt (emitAdmissionLocked rq res h g) = g_nextAttempt g"
  "g_activeTaskID (emitAdmissionLocked rq res h g) = g_activeTaskID g"
  "g_cooldownUntil (emitAdmissionLocked rq res h g) = g_cooldownUntil g"
  "g_drainingEvents (emitAdmissionLocked rq res h g) = g_drainingEvents g"
  by (simp_all add: emitAdmissionLocked_def Let_def split_beta)

lemma applyTelemetryLocked_frame [simp, frame_simps]:
  "g_config (applyTelemetryLocked s now g) = g_config g"
  "g_now (applyTelemetryLocked s now g) = g_now g"
  "g_telemetrySource (applyTelemetryLocked s now g) = g_telemetrySource g"
  "g_events (applyTelemetryLocked s now g) = g_events g"
  "g_closed (applyTelemetryLocked s now g) = g_closed g"
  "g_inFlight (applyTelemetryLocked s now g) = g_inFlight g"
  "g_queue (applyTelemetryLocked s now g) = g_queue g"
  "g_waiters (applyTelemetryLocked s now g) = g_waiters g"
  "g_currentTask (applyTelemetryLocked s now g) = g_currentTask g"
  "g_consecutiveTurns (applyTelemetryLocked s now g) = g_consecutiveTurns g"
  "g_lastStart (applyTelemetryLocked s now g) = g_lastStart g"
  "g_nextAttempt (applyTelemetryLocked s now g) = g_nextAttempt g"
  "g_ledger (applyTelemetryLocked s now g) = g_ledger g"
  "g_tasks (applyTelemetryLocked s now g) = g_tasks g"
  "g_requestIDs (applyTelemetryLocked s now g) = g_requestIDs g"
  "g_attemptIDs (applyTelemetryLocked s now g) = g_attemptIDs g"
  "g_completedRequestIDs (applyTelemetryLocked s now g) = g_completedRequestIDs g"
  "g_activeTaskID (applyTelemetryLocked s now g) = g_activeTaskID g"
  "g_drainingEvents (applyTelemetryLocked s now g) = g_drainingEvents g"
  by (simp_all add: applyTelemetryLocked_def Let_def split_beta)

end
