(* ===== verification/Governor_Circuit.thy ===== *)
theory Governor_Circuit
  imports Governor_Telemetry
begin

text \<open>
  Outcome recording, the circuit and credential refresh: \<open>circuit.go\<close> and the refresh part of
  \<open>permit.go\<close>. The backoff jitter (\<open>Jitter.Apply\<close>) is an argument; \<open>randomJitter_Apply\<close> is the
  implementation of the source with the drawn random number as an argument.
\<close>

datatype governor_error =
    ErrPermitCompleted | ErrPermitNotStarted | ErrPermitStarted | ErrPermitNotHeld
  | ErrAttemptReceiptsRequired | ErrAttemptReceiptReplayed | ErrInvalidAttemptReceipts
  | ErrAttemptReceipt AttemptReceiptErrorCode

record FinishResult =
  fr_Outcome :: OutcomeClass
  fr_RetryEligible :: bool
  fr_SelectedBackoff :: duration
  fr_AttemptDebited :: int
  fr_Circuit :: "CircuitSnapshot option"
  fr_DeliveryState :: DeliveryState
  fr_Err :: "governor_error option"

definition finish_error :: "governor_error \<Rightarrow> FinishResult" where
  "finish_error e =
     \<lparr>fr_Outcome = OutcomeEmpty, fr_RetryEligible = False, fr_SelectedBackoff = 0,
      fr_AttemptDebited = 0, fr_Circuit = None, fr_DeliveryState = DeliveryUnobserved,
      fr_Err = Some e\<rparr>"

text \<open>\<open>rng.Int63n(extra + 1)\<close> is the draw modulo the bound.\<close>

definition randomJitter_Apply :: "int \<Rightarrow> duration \<Rightarrow> int \<Rightarrow> duration" where
  "randomJitter_Apply draw base sequence =
     (if base \<le> 0 then 0 else base + draw mod (base div 2 + 1))"

definition backoff_base :: "duration list" where
  "backoff_base = [15 * Second, 30 * Second, 60 * Second, 120 * Second]"

definition normalize_outcome :: "Outcome \<Rightarrow> Outcome" where
  "normalize_outcome outcome =
     (let o1 = (if oc_Class outcome = OutcomeEmpty then outcome\<lparr>oc_Class := OutcomeUncertainReached\<rparr>
                else outcome)
      in if oc_Class o1 = OutcomeCancelledBeforeUpstream
            \<and> effectiveDeliveryState (oc_DeliveryState o1) \<noteq> DeliveryNotSent
         then o1\<lparr>oc_Class := OutcomeUncertainReached\<rparr> else o1)"

definition select_backoff ::
  "(duration \<Rightarrow> int \<Rightarrow> duration) \<Rightarrow> time \<Rightarrow> nat \<Rightarrow> Outcome \<Rightarrow> duration" where
  "select_backoff jitter now sequence outcome =
     (let baseline = backoff_base ! min (sequence - 1) (length backoff_base - 1);
          jittered = jitter baseline (int sequence);
          selected = (if jittered < baseline then baseline else jittered);
          retryUntil = (if 0 < oc_RetryAfter outcome then now + oc_RetryAfter outcome else zero_time);
          authoritativeUntil =
            (if retryUntil < oc_ResetAt outcome then oc_ResetAt outcome else retryUntil)
      in if \<not> is_zero authoritativeUntil then time_sub authoritativeUntil now else selected)"

definition record_rate ::
  "(duration \<Rightarrow> int \<Rightarrow> duration) \<Rightarrow> time \<Rightarrow> Outcome \<Rightarrow> Governor \<Rightarrow> duration \<times> Governor" where
  "record_rate jitter now outcome g0 =
     (let g1 = expireLocked now g0;
          g2 = g1\<lparr>g_circuit := (g_circuit g1)
                    \<lparr>c_rateEvents := c_rateEvents (g_circuit g1) @ [now]\<rparr>\<rparr>;
          sequence = length (c_rateEvents (g_circuit g2));
          selected = select_backoff jitter now sequence outcome;
          g3 = (if 0 < selected \<and> g_cooldownUntil g2 < now + selected
                then g2\<lparr>g_cooldownUntil := now + selected\<rparr> else g2);
          lastReset = c_lastRateReset (g_circuit g3);
          margin = cfg_ResetSafetyMargin (g_config g3);
          g4 = (if \<not> is_zero lastReset \<and> now < oc_ResetAt outcome \<and> now < lastReset
                then transitionCircuitLocked CircuitOpenUntil (oc_Class outcome)
                       (if lastReset + margin < oc_ResetAt outcome + margin
                        then oc_ResetAt outcome + margin else lastReset + margin) g3
                else g3);
          g5 = (if \<not> is_zero (oc_ResetAt outcome)
                then g4\<lparr>g_circuit := (g_circuit g4)\<lparr>c_lastRateReset := oc_ResetAt outcome\<rparr>\<rparr>
                else g4);
          g6 = (if cfg_RateResponseThreshold (g_config g5) \<le> int (length (c_rateEvents (g_circuit g5)))
                then transitionCircuitLocked CircuitHumanReviewRequired (oc_Class outcome) zero_time g5
                else g5)
      in (selected, g6))"

definition record_signal :: "Outcome \<Rightarrow> Governor \<Rightarrow> Governor" where
  "record_signal outcome g =
     (if oc_Class outcome = OutcomeAuthenticationExpired
      then transitionCircuitLocked CircuitOpenUntil (oc_Class outcome) zero_time
             (g\<lparr>g_circuit := (g_circuit g)\<lparr>c_refreshRequired := True\<rparr>\<rparr>)
      else if security_signal (oc_Class outcome)
      then transitionCircuitLocked CircuitHumanReviewRequired (oc_Class outcome) zero_time g
      else g)"

definition recordOutcomeLocked ::
  "(duration \<Rightarrow> int \<Rightarrow> duration) \<Rightarrow> time \<Rightarrow> string \<Rightarrow> Outcome \<Rightarrow> Governor \<Rightarrow> FinishResult \<times> Governor" where
  "recordOutcomeLocked jitter now taskID outcome0 g0 =
     (let outcome = normalize_outcome outcome0;
          (selected, g1) = (if oc_Class outcome = OutcomeRateCapacity
             then record_rate jitter now outcome g0
             else (0, record_signal outcome g0));
          (st, g2) = taskLocked taskID g1
      in (\<lparr>fr_Outcome = oc_Class outcome,
           fr_RetryEligible = isRecoverableOutcome (oc_Class outcome)
              \<and> ts_retries st < cfg_RetryBudget (g_config g2)
              \<and> c_state (g_circuit g2) = CircuitClosed,
           fr_SelectedBackoff = selected, fr_AttemptDebited = 1,
           fr_Circuit = Some (circuitSnapshotLocked g1),
           fr_DeliveryState = oc_DeliveryState outcome, fr_Err = None\<rparr>, g2))"

definition AcknowledgeHuman :: "Governor \<Rightarrow> bool \<times> Governor" where
  "AcknowledgeHuman g =
     (if c_state (g_circuit g) \<noteq> CircuitHumanReviewRequired then (False, g)
      else (True, transitionCircuitLocked CircuitClosed OutcomeEmpty zero_time
              (g\<lparr>g_circuit := (g_circuit g)
                   \<lparr>c_rateEvents := [], c_lastRateReset := zero_time, c_refreshRequired := False\<rparr>\<rparr>)))"

text \<open>A refresh permit is the flag that it was finished.\<close>

definition BeginCredentialRefresh :: "Governor \<Rightarrow> AdmissionCode \<times> Governor" where
  "BeginCredentialRefresh g =
     (if \<not> c_refreshRequired (g_circuit g) then (AdmissionCircuitOpen, g)
      else if c_refreshInFlight (g_circuit g) \<or> g_inFlight g \<or> g_queue g \<noteq> []
      then (AdmissionDelayed, g)
      else (AdmissionAdmitted, g\<lparr>g_circuit := (g_circuit g)\<lparr>c_refreshInFlight := True\<rparr>\<rparr>))"

definition RefreshPermit_Finish ::
  "bool \<Rightarrow> bool \<Rightarrow> Governor \<Rightarrow> governor_error option \<times> bool \<times> Governor" where
  "RefreshPermit_Finish success finished g =
     (if finished then (Some ErrPermitCompleted, finished, g)
      else (let g' = g\<lparr>g_circuit := (g_circuit g)\<lparr>c_refreshInFlight := False\<rparr>\<rparr>
            in if success
               then (None, True, transitionCircuitLocked CircuitClosed OutcomeEmpty zero_time
                       (g'\<lparr>g_circuit := (g_circuit g')\<lparr>c_refreshRequired := False\<rparr>\<rparr>))
               else (None, True, transitionCircuitLocked CircuitHumanReviewRequired
                       OutcomeAuthenticationExpired zero_time g')))"

section \<open>Frame lemmas\<close>

lemma record_rate_field:
  assumes "\<And>h c. f (h\<lparr>g_circuit := c\<rparr>) = f h" "\<And>h t. f (h\<lparr>g_cooldownUntil := t\<rparr>) = f h"
    and "\<And>st c u h. f (transitionCircuitLocked st c u h) = f h"
  shows "f (snd (record_rate jitter now oc g)) = f (expireLocked now g)"
  unfolding record_rate_def Let_def snd_conv by (simp only: if_distrib [of f] assms if_cancel)

lemma record_rate_frame [simp, frame_simps]:
  "g_config (snd (record_rate jitter now oc g)) = g_config g"
  "g_now (snd (record_rate jitter now oc g)) = g_now g"
  "g_telemetrySource (snd (record_rate jitter now oc g)) = g_telemetrySource g"
  "g_events (snd (record_rate jitter now oc g)) = g_events g"
  "g_closed (snd (record_rate jitter now oc g)) = g_closed g"
  "g_inFlight (snd (record_rate jitter now oc g)) = g_inFlight g"
  "g_queue (snd (record_rate jitter now oc g)) = g_queue g"
  "g_waiters (snd (record_rate jitter now oc g)) = g_waiters g"
  "g_currentTask (snd (record_rate jitter now oc g)) = g_currentTask g"
  "g_consecutiveTurns (snd (record_rate jitter now oc g)) = g_consecutiveTurns g"
  "g_lastStart (snd (record_rate jitter now oc g)) = g_lastStart g"
  "g_nextAttempt (snd (record_rate jitter now oc g)) = g_nextAttempt g"
  "g_activeTaskID (snd (record_rate jitter now oc g)) = g_activeTaskID g"
  "g_drainingEvents (snd (record_rate jitter now oc g)) = g_drainingEvents g"
  by (rule trans [OF record_rate_field]; simp)+

lemma record_signal_frame [simp, frame_simps]:
  "g_config (record_signal oc g) = g_config g" "g_now (record_signal oc g) = g_now g"
  "g_telemetrySource (record_signal oc g) = g_telemetrySource g"
  "g_events (record_signal oc g) = g_events g" "g_closed (record_signal oc g) = g_closed g"
  "g_inFlight (record_signal oc g) = g_inFlight g" "g_queue (record_signal oc g) = g_queue g"
  "g_waiters (record_signal oc g) = g_waiters g" "g_currentTask (record_signal oc g) = g_currentTask g"
  "g_consecutiveTurns (record_signal oc g) = g_consecutiveTurns g"
  "g_lastStart (record_signal oc g) = g_lastStart g"
  "g_nextAttempt (record_signal oc g) = g_nextAttempt g" "g_ledger (record_signal oc g) = g_ledger g"
  "g_tasks (record_signal oc g) = g_tasks g" "g_requestIDs (record_signal oc g) = g_requestIDs g"
  "g_attemptIDs (record_signal oc g) = g_attemptIDs g"
  "g_completedRequestIDs (record_signal oc g) = g_completedRequestIDs g"
  "g_activeTaskID (record_signal oc g) = g_activeTaskID g"
  "g_cooldownUntil (record_signal oc g) = g_cooldownUntil g"
  "g_telemetry (record_signal oc g) = g_telemetry g"
  "g_drainingEvents (record_signal oc g) = g_drainingEvents g"
  by (simp_all add: record_signal_def)

lemma recordOutcomeLocked_frame [simp, frame_simps]:
  "g_config (snd (recordOutcomeLocked jitter now i oc g)) = g_config g"
  "g_now (snd (recordOutcomeLocked jitter now i oc g)) = g_now g"
  "g_telemetrySource (snd (recordOutcomeLocked jitter now i oc g)) = g_telemetrySource g"
  "g_events (snd (recordOutcomeLocked jitter now i oc g)) = g_events g"
  "g_closed (snd (recordOutcomeLocked jitter now i oc g)) = g_closed g"
  "g_inFlight (snd (recordOutcomeLocked jitter now i oc g)) = g_inFlight g"
  "g_queue (snd (recordOutcomeLocked jitter now i oc g)) = g_queue g"
  "g_waiters (snd (recordOutcomeLocked jitter now i oc g)) = g_waiters g"
  "g_currentTask (snd (recordOutcomeLocked jitter now i oc g)) = g_currentTask g"
  "g_consecutiveTurns (snd (recordOutcomeLocked jitter now i oc g)) = g_consecutiveTurns g"
  "g_lastStart (snd (recordOutcomeLocked jitter now i oc g)) = g_lastStart g"
  "g_nextAttempt (snd (recordOutcomeLocked jitter now i oc g)) = g_nextAttempt g"
  "g_activeTaskID (snd (recordOutcomeLocked jitter now i oc g)) = g_activeTaskID g"
  "g_drainingEvents (snd (recordOutcomeLocked jitter now i oc g)) = g_drainingEvents g"
  by (simp_all add: recordOutcomeLocked_def Let_def split_beta)

end
