(* ===== verification/Governor_Admission.thy ===== *)
theory Governor_Admission
  imports Governor_Circuit
begin

text \<open>
  Admission, \<open>internal/governor/admission.go\<close>. Each definition is one critical section of the
  mutex: the two sections of \<open>tryAdmit\<close> before and after telemetry is read, and the sections of
  the waiting loop of \<open>queueAdmit\<close>. What telemetry returned between two sections is an
  argument. The context of a call is its error and its deadline at the moment it is looked at.
\<close>

section \<open>Contexts and results\<close>

datatype ctx_error = CtxCanceled | CtxDeadlineExceeded

record Ctx =
  cx_Err :: "ctx_error option"
  cx_Deadline :: "time option"

definition contextAdmissionCode :: "Ctx \<Rightarrow> AdmissionCode" where
  "contextAdmissionCode ctx =
     (if cx_Err ctx = Some CtxDeadlineExceeded then AdmissionTaskDeadlineExceeded
      else AdmissionContextCancelled)"

fun ctx_cause :: "ctx_error \<Rightarrow> admission_cause" where
  "ctx_cause CtxCanceled = CauseContextCanceled"
| "ctx_cause CtxDeadlineExceeded = CauseDeadlineExceeded"

definition empty_result :: AdmissionResult where
  "empty_result =
     \<lparr>ad_Code = AdmissionNone, ad_Reason = AdmissionNone, ad_RetryAt = zero_time, ad_Delay = 0,
      ad_Permit = None, ad_Err = None, ad_TelemetryHealthy = False,
      ad_GatewayContractHealth = None\<rparr>"

definition admission_result ::
  "AdmissionCode \<Rightarrow> AdmissionCode \<Rightarrow> time \<Rightarrow> admission_cause option \<Rightarrow> AdmissionResult" where
  "admission_result code reason retryAt cause =
     (let err = (case cause of
                   None \<Rightarrow> if code \<noteq> AdmissionAdmitted \<and> code \<noteq> AdmissionDelayed
                           then Some \<lparr>aer_Code = code, aer_Cause = None\<rparr> else None
                 | Some c \<Rightarrow> Some \<lparr>aer_Code = code, aer_Cause = Some c\<rparr>)
      in empty_result\<lparr>ad_Code := code, ad_Reason := reason, ad_RetryAt := retryAt, ad_Err := err\<rparr>)"

definition validateAdmissionContext ::
  "Ctx option \<Rightarrow> AttemptRequest \<Rightarrow> Governor \<Rightarrow> AdmissionResult" where
  "validateAdmissionContext ctx request g =
     (if rq_TaskID request = [] \<or> rq_ClientRequestID request = []
      then admission_result AdmissionUnsafeConfiguration AdmissionUnsafeConfiguration zero_time
             (Some CauseIdentifiersRequired)
      else (case ctx of
              None \<Rightarrow> admission_result AdmissionUnsafeConfiguration AdmissionUnsafeConfiguration
                        zero_time (Some CauseContextRequired)
            | Some cx \<Rightarrow>
               (case cx_Err cx of
                  Some e \<Rightarrow> admission_result (contextAdmissionCode cx) (contextAdmissionCode cx)
                              zero_time (Some (ctx_cause e))
                | None \<Rightarrow>
                   (case cx_Deadline cx of
                      Some deadline \<Rightarrow>
                        if \<not> g_now g < deadline
                        then admission_result AdmissionTaskDeadlineExceeded
                               AdmissionTaskDeadlineExceeded deadline (Some CauseDeadlineExceeded)
                        else empty_result
                    | None \<Rightarrow> empty_result))))"

definition contextResult :: "Ctx \<Rightarrow> AdmissionResult" where
  "contextResult cx =
     (case cx_Err cx of
        None \<Rightarrow> admission_result AdmissionContextCancelled AdmissionContextCancelled zero_time
                  (Some CauseContextCanceled)
      | Some e \<Rightarrow> admission_result (contextAdmissionCode cx) (contextAdmissionCode cx) zero_time
                    (Some (ctx_cause e)))"

definition delayedLocked ::
  "AttemptRequest \<Rightarrow> AdmissionCode \<Rightarrow> time \<Rightarrow> bool \<Rightarrow> Governor \<Rightarrow> AdmissionResult \<times> Governor" where
  "delayedLocked request reason retryAt healthy g =
     (let now = g_now g;
          delay = (if \<not> is_zero retryAt \<and> now < retryAt then time_sub retryAt now else 0);
          result = empty_result\<lparr>ad_Code := AdmissionDelayed, ad_Reason := reason,
                     ad_RetryAt := retryAt, ad_Delay := delay, ad_TelemetryHealthy := healthy\<rparr>
      in (result, emitAdmissionLocked request result healthy g))"

definition nextAvailableLocked :: "time \<Rightarrow> Governor \<Rightarrow> time" where
  "nextAvailableLocked now g =
     (if \<not> is_zero (g_lastStart g)
      then g_lastStart g + cfg_MinimumStartInterval (g_config g) else now)"

section \<open>The admission check\<close>

record admissionCheck =
  ck_code :: AdmissionCode
  ck_until :: time
  ck_delayed :: bool

abbreviation refuse :: "AdmissionCode \<Rightarrow> admissionCheck" where
  "refuse code \<equiv> \<lparr>ck_code = code, ck_until = zero_time, ck_delayed = False\<rparr>"
abbreviation delay_until :: "AdmissionCode \<Rightarrow> time \<Rightarrow> admissionCheck" where
  "delay_until code t \<equiv> \<lparr>ck_code = code, ck_until = t, ck_delayed = True\<rparr>"
abbreviation pass :: admissionCheck where
  "pass \<equiv> refuse AdmissionNone"

text \<open>Lane, route safety and the local circuit, which closes when its window has passed.\<close>

definition check_circuit :: "time \<Rightarrow> Governor \<Rightarrow> admissionCheck \<times> Governor" where
  "check_circuit now g =
     (if g_inFlight g then (delay_until AdmissionDelayed zero_time, g)
      else if t_unsafe (g_telemetry g) then (refuse AdmissionUnsafeProviderAmplification, g)
      else if c_refreshRequired (g_circuit g) then (refuse AdmissionAuthenticationRefreshRequired, g)
      else if c_state (g_circuit g) = CircuitHumanReviewRequired
        then (refuse AdmissionHumanAcknowledgementRequired, g)
      else if c_state (g_circuit g) = CircuitOpenUntil
        then (if is_zero (c_openUntil (g_circuit g)) then (refuse AdmissionCircuitOpen, g)
              else if now < c_openUntil (g_circuit g)
                then (delay_until AdmissionCircuitOpen (c_openUntil (g_circuit g)), g)
              else (pass, transitionCircuitLocked CircuitClosed OutcomeEmpty zero_time g))
      else (pass, g))"

text \<open>Upstream circuit, cooldown and the upstream allowance.\<close>

definition check_allowance :: "time \<Rightarrow> Governor \<Rightarrow> admissionCheck" where
  "check_allowance now g =
     (if t_resetAt (g_telemetry g) > now
      then delay_until AdmissionUpstreamAllowanceExhausted (t_resetAt (g_telemetry g))
      else refuse AdmissionUpstreamAllowanceExhausted)"

definition check_upstream :: "time \<Rightarrow> Governor \<Rightarrow> admissionCheck" where
  "check_upstream now g =
     (if t_upstreamCircuit (g_telemetry g) = UpstreamCircuitOpen
      then (if t_cooldownUntil (g_telemetry g) > now
            then delay_until AdmissionCircuitOpen (t_cooldownUntil (g_telemetry g))
            else refuse AdmissionCircuitOpen)
      else if now < g_cooldownUntil g then delay_until AdmissionCooldownActive (g_cooldownUntil g)
      else if t_rateLimited (g_telemetry g) \<or> t_capacityExhausted (g_telemetry g)
        then check_allowance now g
      else (case t_available (g_telemetry g) of
              Some v \<Rightarrow>
                if remainingSignalApplies g
                   \<and> (if manualReserveApplies g then v - cfg_ManualReserve (g_config g) else v) \<le> 0
                then check_allowance now g else pass
            | None \<Rightarrow> pass))"

text \<open>The three rolling windows, in the order the source reads them.\<close>

definition check_rolling :: "time \<Rightarrow> Governor \<Rightarrow> admissionCheck" where
  "check_rolling now g =
     (if \<not> rollingBudgetsApply g then pass
      else (let n3 = ledger_next (g_ledger g) now (3 * Hour) (cfg_Rolling3h (g_config g));
                n1 = ledger_next (g_ledger g) now Hour (cfg_Rolling1h (g_config g));
                n10 = ledger_next (g_ledger g) now (10 * Minute) (cfg_Rolling10m (g_config g))
            in if \<not> is_zero n3 then delay_until AdmissionRollingBudgetExhausted n3
               else if \<not> is_zero n1 then delay_until AdmissionRollingBudgetExhausted n1
               else if \<not> is_zero n10 then delay_until AdmissionRollingBudgetExhausted n10
               else pass))"

definition check_pacing :: "time \<Rightarrow> Governor \<Rightarrow> admissionCheck" where
  "check_pacing now g =
     (if \<not> is_zero (g_lastStart g)
         \<and> now < g_lastStart g + cfg_MinimumStartInterval (g_config g)
      then delay_until AdmissionDelayed (g_lastStart g + cfg_MinimumStartInterval (g_config g))
      else pass)"

definition check_task :: "AttemptRequest \<Rightarrow> taskState \<Rightarrow> Governor \<Rightarrow> admissionCheck" where
  "check_task request st g =
     (if cfg_TaskBudget (g_config g) \<le> ts_attempts st then refuse AdmissionTaskBudgetExhausted
      else if rq_Retry request \<and> cfg_RetryBudget (g_config g) \<le> ts_retries st
        then refuse AdmissionRetryBudgetExhausted
      else pass)"

definition checkLocked :: "time \<Rightarrow> AttemptRequest \<Rightarrow> Governor \<Rightarrow> admissionCheck \<times> Governor" where
  "checkLocked now request g0 =
     (let (c1, g1) = check_circuit now (expireLocked now g0)
      in if c1 \<noteq> pass then (c1, g1)
         else (let c2 = check_upstream now g1
               in if c2 \<noteq> pass then (c2, g1)
                  else (let (st, g2) = taskLocked (rq_TaskID request) g1;
                            c3 = check_task request st g2
                        in if c3 \<noteq> pass then (c3, g2)
                           else if check_rolling now g2 \<noteq> pass then (check_rolling now g2, g2)
                           else (check_pacing now g2, g2))))"

section \<open>The queue\<close>

definition set_waiter :: "nat \<Rightarrow> (waiter \<Rightarrow> waiter) \<Rightarrow> Governor \<Rightarrow> Governor" where
  "set_waiter a f g =
     g\<lparr>g_waiters := map (\<lambda>(b, w). if b = a then (b, f w) else (b, w)) (g_waiters g)\<rparr>"

definition signalLocked :: "nat \<Rightarrow> Governor \<Rightarrow> Governor" where
  "signalLocked a g = set_waiter a (\<lambda>w. w\<lparr>w_notify := Suc (w_notify w)\<rparr>) g"

definition signalAllLocked :: "Governor \<Rightarrow> Governor" where
  "signalAllLocked g = fold signalLocked (g_queue g) g"

definition queue_task :: "Governor \<Rightarrow> nat \<Rightarrow> string" where
  "queue_task g a = (case waiter_of g a of None \<Rightarrow> [] | Some w \<Rightarrow> rq_TaskID (w_request w))"

fun first_index :: "('a \<Rightarrow> bool) \<Rightarrow> 'a list \<Rightarrow> nat \<Rightarrow> nat option" where
  "first_index P [] i = None"
| "first_index P (x # xs) i = (if P x then Some i else first_index P xs (Suc i))"

definition eligibleIndexLocked :: "Governor \<Rightarrow> nat option" where
  "eligibleIndexLocked g =
     (if g_queue g = [] then None
      else if g_currentTask g \<noteq> [] \<and> cfg_FairnessQuantum (g_config g) \<le> g_consecutiveTurns g
      then (case first_index (\<lambda>a. queue_task g a \<noteq> g_currentTask g) (g_queue g) 0 of
              Some i \<Rightarrow> Some i
            | None \<Rightarrow> Some 0)
      else Some 0)"

definition indexOfLocked :: "nat \<Rightarrow> Governor \<Rightarrow> nat option" where
  "indexOfLocked a g = first_index (\<lambda>b. b = a) (g_queue g) 0"

definition removeWaiterLocked :: "nat \<Rightarrow> Governor \<Rightarrow> Governor" where
  "removeWaiterLocked a g =
     (case waiter_of g a of
        None \<Rightarrow> g
      | Some w \<Rightarrow>
          if w_removed w then g
          else (let g1 = releaseRequestLocked (rq_ClientRequestID (w_request w))
                           (set_waiter a (\<lambda>w. w\<lparr>w_removed := True\<rparr>) g)
                in case indexOfLocked a g of
                     None \<Rightarrow> signalLocked a g1
                   | Some i \<Rightarrow>
                       signalAllLocked (signalLocked a
                         (g1\<lparr>g_queue := take i (g_queue g1) @ drop (Suc i) (g_queue g1)\<rparr>))))"

definition grantLocked :: "AttemptRequest \<Rightarrow> bool \<Rightarrow> Governor \<Rightarrow> Permit \<times> Governor" where
  "grantLocked request healthy g =
     (\<lparr>pm_request = request, pm_telemetryHealthy = healthy, pm_started = False,
       pm_completed = False, pm_attemptSequence = 0, pm_receiptAware = False,
       pm_startedAt = zero_time\<rparr>,
      g\<lparr>g_inFlight := True, g_activeTaskID := rq_TaskID request\<rparr>)"

text \<open>The common end of both admission paths: reserve the id, grant, emit.\<close>

definition grant_and_emit :: "AttemptRequest \<Rightarrow> bool \<Rightarrow> Governor \<Rightarrow> AdmissionResult \<times> Governor" where
  "grant_and_emit request healthy g =
     (let (permit, g') = grantLocked request healthy (reserveRequestLocked (rq_ClientRequestID request) g);
          result = empty_result\<lparr>ad_Code := AdmissionAdmitted, ad_Permit := Some permit,
                     ad_TelemetryHealthy := healthy\<rparr>
      in (result, emitAdmissionLocked request result healthy g'))"

definition refuse_and_emit ::
  "AttemptRequest \<Rightarrow> AdmissionResult \<Rightarrow> bool \<Rightarrow> Governor \<Rightarrow> AdmissionResult \<times> Governor" where
  "refuse_and_emit request result healthy g =
     (result, emitAdmissionLocked request result healthy g)"

section \<open>Try-admission\<close>

text \<open>The front of \<open>Admit\<close> and \<open>TryAdmit\<close>: the context, then the model pool, which defaults to the
  configured one.\<close>

definition admit_prepare ::
  "Ctx option \<Rightarrow> AttemptRequest \<Rightarrow> Governor \<Rightarrow> AdmissionResult + AttemptRequest" where
  "admit_prepare ctx request g =
     (let result = validateAdmissionContext ctx request g
      in if ad_Code result \<noteq> AdmissionNone then Inl result
         else (let pool = cfg_ModelPool (g_config g);
                   request' = (if rq_ModelPool request = [] then request\<lparr>rq_ModelPool := pool\<rparr> else request)
               in if rq_ModelPool request' \<noteq> pool
                  then Inl (admission_result AdmissionUnsafeConfiguration AdmissionUnsafeConfiguration
                              zero_time (Some CauseModelPoolDiffers))
                  else Inr request'))"

text \<open>Closed, duplicate, full or busy: the test both sections of \<open>tryAdmit\<close> start with.\<close>

definition try_precheck ::
  "bool \<Rightarrow> bool \<Rightarrow> AttemptRequest \<Rightarrow> Governor \<Rightarrow> AdmissionResult option \<times> Governor" where
  "try_precheck emitHealthy delayHealthy request g =
     (if g_closed g
      then (Some (admission_result AdmissionGovernorClosed AdmissionGovernorClosed zero_time
                    (Some CauseGovernorClosed)), g)
      else (let (seen, g1) = requestSeenLocked (rq_ClientRequestID request) g;
                dup = admission_result AdmissionDuplicateClientRequest AdmissionDuplicateClientRequest
                        zero_time None;
                full = admission_result AdmissionQueueFull AdmissionQueueFull zero_time None
            in if seen then (Some dup, emitAdmissionLocked request dup emitHealthy g1)
               else if cfg_QueueCapacity (g_config g1) \<le> int (length (g_queue g1))
                 then (Some full, emitAdmissionLocked request full emitHealthy g1)
               else if g_queue g1 \<noteq> [] \<or> g_inFlight g1
                 then (case delayedLocked request AdmissionDelayed
                              (nextAvailableLocked (g_now g1) g1) delayHealthy g1 of
                         (r, g2) \<Rightarrow> (Some r, g2))
               else (None, g1)))"

definition tryAdmit_first :: "AttemptRequest \<Rightarrow> Governor \<Rightarrow> AdmissionResult option \<times> Governor" where
  "tryAdmit_first request g = try_precheck True False request g"

definition tryAdmit_second ::
  "Ctx \<Rightarrow> AttemptRequest \<Rightarrow> TelemetrySnapshot option \<Rightarrow> Governor \<Rightarrow> AdmissionResult \<times> Governor" where
  "tryAdmit_second ctx request observed g =
     (let (telemetry, healthy) = readTelemetry g observed
      in case try_precheck healthy healthy request g of
           (Some r, g1) \<Rightarrow> (r, g1)
         | (None, g1) \<Rightarrow>
            (case cx_Err ctx of
               Some e \<Rightarrow> refuse_and_emit request
                  (admission_result (contextAdmissionCode ctx) (contextAdmissionCode ctx) zero_time
                     (Some (ctx_cause e))) healthy g1
             | None \<Rightarrow>
                (let g2 = (case telemetry of None \<Rightarrow> g1
                             | Some s \<Rightarrow> applyTelemetryLocked s (g_now g1) g1);
                     (check, g3) = checkLocked (g_now g2) request g2
                 in if ck_code check \<noteq> AdmissionNone
                    then (if ck_delayed check
                          then delayedLocked request (ck_code check) (ck_until check) healthy g3
                          else refuse_and_emit request
                                 (admission_result (ck_code check) (ck_code check) (ck_until check) None)
                                 healthy g3)
                    else grant_and_emit request healthy g3)))"

section \<open>Queued admission\<close>

definition queueAdmit_enter ::
  "AttemptRequest \<Rightarrow> Governor \<Rightarrow> (AdmissionResult + nat) \<times> Governor" where
  "queueAdmit_enter request g =
     (if g_closed g
      then (Inl (admission_result AdmissionGovernorClosed AdmissionGovernorClosed zero_time
                   (Some CauseGovernorClosed)), g)
      else (let (seen, g1) = requestSeenLocked (rq_ClientRequestID request) g;
                dup = admission_result AdmissionDuplicateClientRequest AdmissionDuplicateClientRequest
                        zero_time None;
                full = admission_result AdmissionQueueFull AdmissionQueueFull zero_time None
            in if seen then (Inl dup, emitAdmissionLocked request dup True g1)
               else if cfg_QueueCapacity (g_config g1) \<le> int (length (g_queue g1))
                 then (Inl full, emitAdmissionLocked request full True g1)
               else (let a = length (g_waiters g1);
                         w = \<lparr>w_request = request, w_notify = 0, w_checking = False, w_removed = False\<rparr>;
                         g2 = reserveRequestLocked (rq_ClientRequestID request)
                                (g1\<lparr>g_waiters := g_waiters g1 @ [(a, w)]\<rparr>)
                     in (Inr a, g2\<lparr>g_queue := g_queue g2 @ [a]\<rparr>))))"

text \<open>How one section of the loop ends: with a result, blocked on the current channel (with a
  timer when the instant is not zero), or with the claim to read telemetry.\<close>

datatype turn = Return AdmissionResult | Block nat time | ReadTelemetry

definition queueAdmit_abort ::
  "nat \<Rightarrow> AttemptRequest \<Rightarrow> AdmissionResult \<Rightarrow> bool \<Rightarrow> Governor \<Rightarrow> AdmissionResult \<times> Governor" where
  "queueAdmit_abort a request result healthy g =
     (result, emitAdmissionLocked request result healthy (removeWaiterLocked a g))"

definition queueAdmit_turn :: "Ctx \<Rightarrow> nat \<Rightarrow> Governor \<Rightarrow> turn \<times> Governor" where
  "queueAdmit_turn ctx a g =
     (case waiter_of g a of
        None \<Rightarrow> (Block 0 zero_time, g)
      | Some w \<Rightarrow>
          if w_removed w
          then (let code = (if g_closed g then AdmissionGovernorClosed else AdmissionContextCancelled)
                in (Return (admission_result code code zero_time (map_option ctx_cause (cx_Err ctx))), g))
          else if g_closed g
          then (Return (admission_result AdmissionGovernorClosed AdmissionGovernorClosed zero_time
                          (Some CauseGovernorClosed)), removeWaiterLocked a g)
          else if eligibleIndexLocked g \<noteq> indexOfLocked a g \<or> w_checking w
          then (Block (w_notify w) zero_time, g)
          else (ReadTelemetry, set_waiter a (\<lambda>w. w\<lparr>w_checking := True\<rparr>) g))"

text \<open>The decision uses the clock as it was read before the mutex was taken again, so its \<open>now\<close> is
  an argument that may lie behind \<open>g_now\<close>.\<close>

definition queueAdmit_decide ::
  "Ctx \<Rightarrow> nat \<Rightarrow> TelemetrySnapshot option \<Rightarrow> time \<Rightarrow> Governor \<Rightarrow> turn \<times> Governor" where
  "queueAdmit_decide ctx a observed now g =
     (case waiter_of g a of
        None \<Rightarrow> (Block 0 zero_time, g)
      | Some w \<Rightarrow>
          (let (telemetry, healthy) = readTelemetry g observed;
               request = w_request w;
               g1 = set_waiter a (\<lambda>w. w\<lparr>w_checking := False\<rparr>) g
           in if w_removed w
              then (Return (admission_result AdmissionGovernorClosed AdmissionGovernorClosed zero_time
                              (Some CauseGovernorClosed)), g1)
              else (let g2 = (case telemetry of None \<Rightarrow> g1 | Some s \<Rightarrow> applyTelemetryLocked s now g1)
                    in if cx_Err ctx \<noteq> None
                       then (case queueAdmit_abort a request (contextResult ctx) healthy g2 of
                               (r, g3) \<Rightarrow> (Return r, g3))
                       else (let (check, g3) = checkLocked now request g2
                             in if ck_code check \<noteq> AdmissionNone
                                then (if ck_delayed check
                                      then (Block (w_notify w) (ck_until check),
                                            snd (delayedLocked request (ck_code check) (ck_until check)
                                                   healthy g3))
                                      else (case queueAdmit_abort a request
                                                   (admission_result (ck_code check) (ck_code check)
                                                      (ck_until check) None) healthy g3 of
                                              (r, g4) \<Rightarrow> (Return r, g4)))
                                else (case grant_and_emit request healthy (removeWaiterLocked a g3) of
                                        (r, g4) \<Rightarrow> (Return r, g4))))))"

text \<open>When the wait of a blocked turn can end without the context: its channel was closed or
  its timer fired.\<close>

definition waitForChange_ready :: "nat \<Rightarrow> nat \<Rightarrow> time \<Rightarrow> Governor \<Rightarrow> bool" where
  "waitForChange_ready a generation until g \<longleftrightarrow>
     (\<not> is_zero until \<and> time_sub until (g_now g) \<le> 0)
     \<or> (case waiter_of g a of None \<Rightarrow> False | Some w \<Rightarrow> generation < w_notify w)"

definition Governor_Close :: "Governor \<Rightarrow> Governor" where
  "Governor_Close g =
     (if g_closed g then g
      else (fold (\<lambda>a g. signalLocked a (set_waiter a (\<lambda>w. w\<lparr>w_removed := True\<rparr>) g)) (g_queue g)
              (g\<lparr>g_closed := True\<rparr>))\<lparr>g_queue := []\<rparr>)"

end
