(* ===== verification/Governor_Permit.thy ===== *)
theory Governor_Permit
  imports Governor_Admission
begin

text \<open>
  Permits, \<open>internal/governor/permit.go\<close>: start, the two cancellations and the two ways to
  finish, plain and with attempt receipts. A nil permit is not modelled; every operation takes
  the permit and the governor it belongs to and returns both.
\<close>

definition debit_remaining :: "Governor \<Rightarrow> Governor" where
  "debit_remaining g =
     (case t_available (g_telemetry g) of
        None \<Rightarrow> g
      | Some v \<Rightarrow>
          if remainingSignalApplies g
          then g\<lparr>g_telemetry := (g_telemetry g)\<lparr>t_available := Some (if 0 < v then v - 1 else v)\<rparr>\<rparr>
          else g)"

definition permit_event :: "EventKind \<Rightarrow> Permit \<Rightarrow> Governor \<Rightarrow> Event" where
  "permit_event kind p g =
     (config_event kind g)
       \<lparr>ev_TaskID := rq_TaskID (pm_request p),
        ev_ClientRequestID := rq_ClientRequestID (pm_request p),
        ev_AttemptSequence := pm_attemptSequence p,
        ev_TelemetryHealthy := pm_telemetryHealthy p\<rparr>"

definition release_lane :: "Governor \<Rightarrow> Governor" where
  "release_lane g = signalAllLocked (g\<lparr>g_inFlight := False, g_activeTaskID := []\<rparr>)"

section \<open>Start\<close>

definition take_turn :: "string \<Rightarrow> Governor \<Rightarrow> Governor" where
  "take_turn taskID g =
     (if g_currentTask g = taskID then g\<lparr>g_consecutiveTurns := g_consecutiveTurns g + 1\<rparr>
      else g\<lparr>g_currentTask := taskID, g_consecutiveTurns := 1\<rparr>)"

definition debit_task :: "string \<Rightarrow> bool \<Rightarrow> Governor \<Rightarrow> Governor" where
  "debit_task taskID retry g =
     (let (st, g') = taskLocked taskID g
      in task_store taskID
           (st\<lparr>ts_attempts := ts_attempts st + 1,
               ts_retries := (if retry then ts_retries st + 1 else ts_retries st)\<rparr>) g')"

definition permit_start :: "bool \<Rightarrow> Permit \<Rightarrow> Governor \<Rightarrow> governor_error option \<times> Permit \<times> Governor" where
  "permit_start receiptAware p g =
     (if pm_completed p then (Some ErrPermitCompleted, p, g)
      else if pm_started p then (Some ErrPermitStarted, p, g)
      else if \<not> g_inFlight g then (Some ErrPermitNotHeld, p, g)
      else (let now = g_now g;
                taskID = rq_TaskID (pm_request p);
                (before, g1) = budgetLocked now taskID g;
                p' = p\<lparr>pm_started := True, pm_receiptAware := receiptAware, pm_startedAt := now,
                       pm_attemptSequence := g_nextAttempt g1\<rparr>;
                g2 = markRequestActiveLocked (rq_ClientRequestID (pm_request p))
                       (g1\<lparr>g_nextAttempt := g_nextAttempt g1 + 1\<rparr>);
                g3 = (if receiptAware then g2 else g2\<lparr>g_lastStart := now\<rparr>);
                g4 = take_turn taskID g3
            in if receiptAware then (None, p', g4)
               else (let g5 = debit_task taskID (rq_Retry (pm_request p)) g4;
                         g6 = debit_remaining (g5\<lparr>g_ledger := ledger_add (g_ledger g5) now taskID\<rparr>);
                         (after, g7) = budgetLocked now taskID g6
                     in (None, p', queueEventLocked
                           ((permit_event EventAttemptStarted p' g7)
                              \<lparr>ev_Admission := AdmissionAdmitted, ev_BudgetsBefore := Some before,
                               ev_BudgetsAfter := Some after,
                               ev_Telemetry := Some (telemetrySummaryLocked g7)\<rparr>) g7))))"

section \<open>Cancellation\<close>

definition CancelBeforeStart :: "Permit \<Rightarrow> Governor \<Rightarrow> governor_error option \<times> Permit \<times> Governor" where
  "CancelBeforeStart p g =
     (if pm_completed p then (Some ErrPermitCompleted, p, g)
      else if pm_started p then (Some ErrPermitStarted, p, g)
      else (let g1 = releaseRequestLocked (rq_ClientRequestID (pm_request p)) g;
                g2 = g1\<lparr>g_inFlight := False, g_activeTaskID := []\<rparr>;
                result = empty_result\<lparr>ad_Code := AdmissionContextCancelled,
                           ad_Reason := AdmissionContextCancelled,
                           ad_TelemetryHealthy := pm_telemetryHealthy p\<rparr>
            in (None, p\<lparr>pm_completed := True\<rparr>,
                signalAllLocked (emitAdmissionLocked (pm_request p) result (pm_telemetryHealthy p) g2))))"

definition CancelAfterStart :: "Permit \<Rightarrow> Governor \<Rightarrow> FinishResult \<times> Permit \<times> Governor" where
  "CancelAfterStart p g =
     (if pm_completed p then (finish_error ErrPermitCompleted, p, g)
      else if \<not> pm_started p then (finish_error ErrPermitNotStarted, p, g)
      else (let g1 = release_lane (completeRequestLocked (rq_ClientRequestID (pm_request p)) (g_now g) g);
                g2 = queueEventLocked
                       ((permit_event EventAttemptFinished p g1)
                          \<lparr>ev_Outcome := OutcomeCancelledBeforeUpstream,
                           ev_CircuitTo := c_state (g_circuit g1)\<rparr>) g1
            in (\<lparr>fr_Outcome = OutcomeCancelledBeforeUpstream, fr_RetryEligible = False,
                 fr_SelectedBackoff = 0, fr_AttemptDebited = 0,
                 fr_Circuit = Some (circuitSnapshotLocked g2), fr_DeliveryState = DeliveryUnobserved,
                 fr_Err = None\<rparr>, p\<lparr>pm_completed := True\<rparr>, g2)))"

section \<open>Finish\<close>

definition finished_event ::
  "Permit \<Rightarrow> FinishResult \<Rightarrow> BudgetSnapshot \<Rightarrow> BudgetSnapshot \<Rightarrow> ResponseMetadata \<Rightarrow> Governor \<Rightarrow> Event" where
  "finished_event p result before after md g =
     (permit_event EventAttemptFinished p g)
       \<lparr>ev_Outcome := fr_Outcome result, ev_DeliveryState := fr_DeliveryState result,
        ev_CooldownUntil := g_cooldownUntil g, ev_SelectedBackoff := fr_SelectedBackoff result,
        ev_CircuitTo := (case fr_Circuit result of None \<Rightarrow> CircuitEmpty | Some c \<Rightarrow> cs_State c),
        ev_BudgetsBefore := Some before, ev_BudgetsAfter := Some after,
        ev_Telemetry := Some (telemetrySummaryLocked g), ev_AttemptMetadata := md\<rparr>"

definition Permit_Finish ::
  "(duration \<Rightarrow> int \<Rightarrow> duration) \<Rightarrow> Outcome \<Rightarrow> Permit \<Rightarrow> Governor \<Rightarrow> FinishResult \<times> Permit \<times> Governor" where
  "Permit_Finish jitter outcome p g =
     (if pm_completed p then (finish_error ErrPermitCompleted, p, g)
      else if \<not> pm_started p then (finish_error ErrPermitNotStarted, p, g)
      else if pm_receiptAware p then (finish_error ErrAttemptReceiptsRequired, p, g)
      else (let now = g_now g;
                taskID = rq_TaskID (pm_request p);
                (before, g1) = budgetLocked now taskID g;
                (result, g2) = recordOutcomeLocked jitter now taskID outcome g1;
                g3 = release_lane (completeRequestLocked (rq_ClientRequestID (pm_request p)) now g2);
                (after, g4) = budgetLocked now taskID g3
            in (result, p\<lparr>pm_completed := True\<rparr>,
                queueEventLocked (finished_event p result before after (oc_Metadata outcome) g4) g4)))"

definition normalizeReceiptProtectionTime :: "time \<Rightarrow> time \<Rightarrow> time \<Rightarrow> time" where
  "normalizeReceiptProtectionTime remote localStart localNow =
     (if remote < localStart then localStart
      else if localNow < remote then localNow
      else remote)"

definition finishReceiptFailureLocked ::
  "governor_error \<Rightarrow> bool \<Rightarrow> DeliveryState \<Rightarrow> Permit \<Rightarrow> Governor \<Rightarrow> FinishResult \<times> Permit \<times> Governor" where
  "finishReceiptFailureLocked err debitPossibleAttempt deliveryState p g0 =
     (let now = g_now g0;
          taskID = rq_TaskID (pm_request p);
          g1 = g0\<lparr>g_telemetry := (g_telemetry g0)\<lparr>t_unsafe := True\<rparr>\<rparr>;
          (before, g2) = budgetLocked now taskID g1;
          circuit = circuitSnapshotLocked g2;
          debitAt = (if is_zero (pm_startedAt p) then now else pm_startedAt p);
          g3 = (if debitPossibleAttempt
                then (let h1 = debit_task taskID (rq_Retry (pm_request p)) g2;
                          h2 = debit_remaining (h1\<lparr>g_ledger := ledger_add (g_ledger h1) debitAt taskID\<rparr>);
                          h3 = h2\<lparr>g_lastStart := debitAt\<rparr>
                      in queueEventLocked
                           ((permit_event EventUncertainAttempt p h3)
                              \<lparr>ev_Outcome := OutcomeUncertainReached, ev_UpstreamReached := True,
                               ev_DeliveryState := deliveryState\<rparr>) h3)
                else g2);
          result = \<lparr>fr_Outcome = OutcomeUncertainReached, fr_RetryEligible = False,
                    fr_SelectedBackoff = 0,
                    fr_AttemptDebited = (if debitPossibleAttempt then 1 else 0),
                    fr_Circuit = Some circuit, fr_DeliveryState = deliveryState, fr_Err = Some err\<rparr>;
          g4 = release_lane (completeRequestLocked (rq_ClientRequestID (pm_request p)) now g3);
          (after, g5) = budgetLocked now taskID g4
      in (result, p\<lparr>pm_completed := True\<rparr>,
          queueEventLocked
            ((permit_event EventAttemptFinished p g5)
               \<lparr>ev_Outcome := fr_Outcome result, ev_DeliveryState := fr_DeliveryState result,
                ev_BudgetsBefore := Some before, ev_BudgetsAfter := Some after,
                ev_Telemetry := Some (telemetrySummaryLocked g5),
                ev_CircuitTo := cs_State circuit\<rparr>) g5))"

section \<open>Finish with attempt receipts\<close>

definition receipt_expectation :: "Permit \<Rightarrow> Governor \<Rightarrow> AttemptReceiptExpectation" where
  "receipt_expectation p g =
     \<lparr>ae_ClientRequestID = rq_ClientRequestID (pm_request p),
      ae_Provider = (if cfg_AttemptProviderID (g_config g) = [] then cfg_ProviderID (g_config g)
                     else cfg_AttemptProviderID (g_config g)),
      ae_Model = cfg_Model (g_config g), ae_AccountLaneHash = cfg_AccountLaneHash (g_config g),
      ae_RequestStartedAt = pm_startedAt p, ae_RequestCompletedAt = g_now g,
      ae_SingleAttempt = False, ae_Now = g_now g\<rparr>"

definition new_receipts :: "time gomap \<Rightarrow> AttemptReceipt list \<Rightarrow> AttemptReceipt list" where
  "new_receipts seen rs = filter (\<lambda>r. map_get seen (ar_AttemptID r) = None) rs"

text \<open>The debit of one receipt: ledger entry, task counters, attempt number, remaining signal,
  event.\<close>

definition debit_receipt :: "Permit \<Rightarrow> time \<Rightarrow> AttemptReceipt \<Rightarrow> Governor \<Rightarrow> Governor" where
  "debit_receipt p now r g =
     (let taskID = rq_TaskID (pm_request p);
          at = normalizeReceiptProtectionTime (ar_StartedAt r) (pm_startedAt p) now;
          st = task_of g taskID;
          g1 = task_store taskID
                 (st\<lparr>ts_attempts := ts_attempts st + 1,
                     ts_retries := (if 1 < ar_Sequence r \<or> rq_Retry (pm_request p)
                                    then ts_retries st + 1 else ts_retries st)\<rparr>)
                 (g\<lparr>g_ledger := ledger_add (g_ledger g) at taskID\<rparr>);
          g2 = (if 1 < ar_Sequence r then g1\<lparr>g_nextAttempt := g_nextAttempt g1 + 1\<rparr> else g1);
          g3 = debit_remaining g2
      in queueEventLocked
           ((config_event EventUpstreamAttempt g3)
              \<lparr>ev_Model := ar_Model r, ev_TaskID := taskID,
               ev_ClientRequestID := rq_ClientRequestID (pm_request p),
               ev_AttemptSequence := ar_Sequence r, ev_AttemptID := ar_AttemptID r,
               ev_AttemptTrigger := Some (ar_Trigger r),
               ev_AttemptReceiptOutcome := Some (ar_Outcome r),
               ev_UpstreamReached := ar_UpstreamReached r,
               ev_Outcome := receiptOutcome (ar_Outcome r),
               ev_TelemetryHealthy := pm_telemetryHealthy p\<rparr>) g3)"

definition receipt_outcome_value :: "AttemptReceipt \<Rightarrow> Outcome" where
  "receipt_outcome_value r =
     (outcome_of_class (receiptOutcome (ar_Outcome r)))\<lparr>oc_UpstreamReached := ar_UpstreamReached r\<rparr>"

text \<open>The loop that records every receipt outcome; the last one carries the retry evidence of
  the classified outcome when their classes agree.\<close>

fun record_receipts ::
  "(duration \<Rightarrow> int \<Rightarrow> duration) \<Rightarrow> time \<Rightarrow> string \<Rightarrow> Outcome \<Rightarrow> AttemptReceipt list \<Rightarrow>
   FinishResult option \<times> duration \<times> OutcomeClass \<times> Governor \<Rightarrow>
   FinishResult option \<times> duration \<times> OutcomeClass \<times> Governor" where
  "record_receipts jitter now taskID outcome [] acc = acc"
| "record_receipts jitter now taskID outcome (r # rs) (result, backoff, aggregate, g) =
     (let value0 = receipt_outcome_value r;
          value = (if rs = [] \<and> oc_Class outcome \<noteq> OutcomeEmpty \<and> oc_Class outcome \<noteq> OutcomeSuccess
                      \<and> oc_Class outcome = oc_Class value0
                   then value0\<lparr>oc_RetryAfter := oc_RetryAfter outcome, oc_ResetAt := oc_ResetAt outcome\<rparr>
                   else value0);
          (rec, g') = recordOutcomeLocked jitter now taskID value g
      in record_receipts jitter now taskID outcome rs
           (if rs = [] then Some rec else result,
            (if backoff < fr_SelectedBackoff rec then fr_SelectedBackoff rec else backoff),
            strongerOutcome aggregate (oc_Class value), g'))"

definition latest_start :: "Permit \<Rightarrow> time \<Rightarrow> AttemptReceipt list \<Rightarrow> time" where
  "latest_start p now rs =
     foldl (\<lambda>latest r.
        let at = normalizeReceiptProtectionTime (ar_StartedAt r) (pm_startedAt p) now
        in if latest < at then at else latest) zero_time rs"

text \<open>A classified outcome that differs from the last receipt is recorded on its own and gives the
  result; otherwise the result of the last receipt stays.\<close>

definition record_classified ::
  "(duration \<Rightarrow> int \<Rightarrow> duration) \<Rightarrow> time \<Rightarrow> string \<Rightarrow> Outcome \<Rightarrow> OutcomeClass \<Rightarrow> FinishResult option \<Rightarrow>
   duration \<Rightarrow> Governor \<Rightarrow> FinishResult \<times> duration \<times> Governor" where
  "record_classified jitter now taskID outcome lastClass recorded backoff g =
     (if oc_Class outcome \<noteq> OutcomeEmpty \<and> oc_Class outcome \<noteq> OutcomeSuccess
         \<and> oc_Class outcome \<noteq> lastClass
      then (case recordOutcomeLocked jitter now taskID outcome g of
              (rec, g') \<Rightarrow> (rec, (if backoff < fr_SelectedBackoff rec
                                  then fr_SelectedBackoff rec else backoff), g'))
      else (case recorded of
              Some rec \<Rightarrow> (rec, backoff, g)
            | None \<Rightarrow> (finish_error ErrAttemptReceiptsRequired, backoff, g)))"

text \<open>A receipt policy violation marks the route unsafe and dominates the result.\<close>

definition apply_policy ::
  "governor_error option \<Rightarrow> FinishResult \<Rightarrow> Governor \<Rightarrow> FinishResult \<times> Governor" where
  "apply_policy policyErr result g =
     (case policyErr of
        None \<Rightarrow> (result, g)
      | Some e \<Rightarrow>
         (let h = g\<lparr>g_telemetry := (g_telemetry g)\<lparr>t_unsafe := True\<rparr>\<rparr>
          in (result\<lparr>fr_Err := Some e,
                fr_Outcome := strongerOutcome (fr_Outcome result) OutcomeUncertainReached,
                fr_RetryEligible := False, fr_Circuit := Some (circuitSnapshotLocked h)\<rparr>, h)))"

definition receipt_result ::
  "string \<Rightarrow> DeliveryState \<Rightarrow> OutcomeClass \<Rightarrow> nat \<Rightarrow> duration \<Rightarrow> FinishResult \<Rightarrow> Governor \<Rightarrow> FinishResult" where
  "receipt_result taskID ds aggregate debited backoff result g =
     (let final = strongerOutcome OutcomeSuccess aggregate
      in result\<lparr>fr_Outcome := final, fr_AttemptDebited := int debited,
           fr_SelectedBackoff := backoff, fr_Circuit := Some (circuitSnapshotLocked g),
           fr_DeliveryState := ds,
           fr_RetryEligible := isRecoverableOutcome final
              \<and> ts_retries (task_of g taskID) < cfg_RetryBudget (g_config g)
              \<and> c_state (g_circuit g) = CircuitClosed\<rparr>)"

definition settle_receipts ::
  "(duration \<Rightarrow> int \<Rightarrow> duration) \<Rightarrow> Outcome \<Rightarrow> AttemptReceiptSet \<Rightarrow> governor_error option \<Rightarrow>
   AttemptReceipt list \<Rightarrow> Permit \<Rightarrow> Governor \<Rightarrow> FinishResult \<times> Permit \<times> Governor" where
  "settle_receipts jitter outcome0 rset policyErr news p g0 =
     (let now = g_now g0;
          taskID = rq_TaskID (pm_request p);
          (before, g1) = budgetLocked now taskID g0;
          g2 = snd (taskLocked taskID g1);
          g3 = fold (debit_receipt p now) news g2;
          outcome = (if oc_Class outcome0 = OutcomeCancelledBeforeUpstream
                        \<and> effectiveDeliveryState (oc_DeliveryState outcome0) \<noteq> DeliveryNotSent
                     then outcome0\<lparr>oc_Class := OutcomeUncertainReached\<rparr> else outcome0);
          start = (if oc_Class outcome = OutcomeEmpty then OutcomeSuccess else oc_Class outcome);
          (recorded, backoff1, aggregate1, g4) =
            record_receipts jitter now taskID outcome news (None, 0, start, g3);
          (result1, backoff2, g5) =
            record_classified jitter now taskID outcome
              (oc_Class (receipt_outcome_value (last news))) recorded backoff1 g4;
          aggregate2 = (if ContainsUncertain rset then strongerOutcome aggregate1 OutcomeUncertainReached
                        else aggregate1);
          result2 = receipt_result taskID (oc_DeliveryState outcome) aggregate2 (length news) backoff2
                      result1 g5;
          (result3, g6) = apply_policy policyErr result2 g5;
          latest = latest_start p now news;
          g7 = (if g_lastStart g6 < latest then g6\<lparr>g_lastStart := latest\<rparr> else g6);
          g8 = release_lane (completeRequestLocked (rq_ClientRequestID (pm_request p)) now g7);
          (after, g9) = budgetLocked now taskID g8
      in (result3, p\<lparr>pm_completed := True\<rparr>,
          queueEventLocked (finished_event p result3 before after (oc_Metadata outcome) g9) g9))"

definition FinishWithAttemptReceipts ::
  "(AttemptReceiptSet \<Rightarrow> string option) \<Rightarrow> (time \<Rightarrow> int) \<Rightarrow> (duration \<Rightarrow> int \<Rightarrow> duration) \<Rightarrow> Outcome \<Rightarrow>
   AttemptReceiptSet option \<Rightarrow> Permit \<Rightarrow> Governor \<Rightarrow> FinishResult \<times> Permit \<times> Governor" where
  "FinishWithAttemptReceipts marshal year jitter outcome rset p g =
     (if pm_completed p then (finish_error ErrPermitCompleted, p, g)
      else if \<not> pm_started p then (finish_error ErrPermitNotStarted, p, g)
      else if \<not> pm_receiptAware p then (finish_error ErrAttemptReceiptsRequired, p, g)
      else (let expected = receipt_expectation p g
            in case rset of
                 None \<Rightarrow> finishReceiptFailureLocked ErrInvalidAttemptReceipts True
                           (oc_DeliveryState outcome) p g
               | Some rs \<Rightarrow>
                  (case ValidateAttemptReceiptSet marshal year rs expected of
                     Some code \<Rightarrow> finishReceiptFailureLocked (ErrAttemptReceipt code) True
                                    (oc_DeliveryState outcome) p g
                   | None \<Rightarrow>
                      (let now = g_now g;
                           g1 = pruneAttemptIDsLocked now g;
                           news = new_receipts (g_attemptIDs g1) (as_Receipts rs);
                           replayed = (length news < length (as_Receipts rs));
                           g2 = g1\<lparr>g_attemptIDs :=
                                     fold (\<lambda>r m. map_put (ar_AttemptID r) now m) news (g_attemptIDs g1)\<rparr>;
                           policyErr1 = (if 1 < length (as_Receipts rs)
                              then map_option ErrAttemptReceipt
                                     (ValidateAttemptReceiptSet marshal year rs
                                        (expected\<lparr>ae_SingleAttempt := True\<rparr>))
                              else None);
                           policyErr = (if policyErr1 = None \<and> replayed
                                        then Some ErrAttemptReceiptReplayed else policyErr1)
                       in if news = []
                          then finishReceiptFailureLocked
                                 (case policyErr of Some e \<Rightarrow> e | None \<Rightarrow> ErrAttemptReceiptReplayed)
                                 False (oc_DeliveryState outcome) p g2
                          else settle_receipts jitter outcome rs policyErr news p g2))))"

end
