(* ===== verification/Governor_State.thy ===== *)
theory Governor_State
  imports Governor_Permit
begin

text \<open>
  Construction, snapshots and the durable projection: \<open>New\<close> of \<open>governor.go\<close>, \<open>snapshot.go\<close>,
  \<open>state.go\<close> and the state records of \<open>persistence.go\<close>. The main facts: writing the projection
  and reading it into a fresh governor gives back the whole protection state, so a restart does
  not reset account protection.
\<close>

section \<open>The persisted projection\<close>

record TaskStateRecord =
  tr_TaskID :: string
  tr_Attempts :: int
  tr_Retries :: int
  tr_LastTouched :: time

record RequestRecordState =
  rs_RequestID :: string
  rs_State :: string
  rs_CompletedAt :: time

record AttemptIDRecord =
  ai_AttemptID :: string
  ai_SeenAt :: time

record BudgetCeilings =
  bc_Rolling3h :: int
  bc_Rolling1h :: int
  bc_Rolling10m :: int
  bc_TaskBudget :: int
  bc_RetryBudget :: int
  bc_ManualReserve :: int

record PersistedTelemetry =
  pt_Available :: "int option"
  pt_ResetAt :: time
  pt_CooldownUntil :: time
  pt_RateLimited :: bool
  pt_CapacityExhausted :: bool
  pt_UpstreamCircuit :: UpstreamCircuitState
  pt_Unsafe :: bool

record PersistedState =
  ps_AccountPolicyID :: string
  ps_ProviderID :: string
  ps_ModelPool :: string
  ps_Model :: string
  ps_AllowanceProfile :: AllowanceProfile
  ps_AllowanceKind :: AllowanceKind
  ps_NextAttempt :: int
  ps_LastStart :: time
  ps_CooldownUntil :: time
  ps_Circuit :: CircuitSnapshot
  ps_RateEvents :: "time list"
  ps_LastRateReset :: time
  ps_Telemetry :: PersistedTelemetry
  ps_RollingEvents :: "ledgerEvent list"
  ps_TaskStates :: "TaskStateRecord list"
  ps_RequestRecords :: "RequestRecordState list"
  ps_AttemptIDs :: "AttemptIDRecord list"
  ps_Ceilings :: BudgetCeilings

fun requestStateName :: "requestState \<Rightarrow> string" where
  "requestStateName requestPending = ''pending''"
| "requestStateName requestActive = ''active''"
| "requestStateName requestCompleted = ''completed''"
| "requestStateName requestUnset = []"

definition requestStateFromName :: "string \<Rightarrow> requestState" where
  "requestStateFromName name =
     (if name = ''pending'' then requestPending
      else if name = ''active'' then requestActive
      else if name = ''completed'' then requestCompleted
      else requestUnset)"

definition attemptIDRecords :: "time gomap \<Rightarrow> AttemptIDRecord list" where
  "attemptIDRecords m = map (\<lambda>(k, seenAt). \<lparr>ai_AttemptID = k, ai_SeenAt = seenAt\<rparr>) m"

definition task_records :: "taskState gomap \<Rightarrow> TaskStateRecord list" where
  "task_records m =
     map (\<lambda>(k, st). \<lparr>tr_TaskID = k, tr_Attempts = ts_attempts st, tr_Retries = ts_retries st,
                      tr_LastTouched = ts_lastTouched st\<rparr>) m"

definition request_records :: "requestRecord gomap \<Rightarrow> RequestRecordState list" where
  "request_records m =
     map (\<lambda>(k, r). \<lparr>rs_RequestID = k, rs_State = requestStateName (rr_state r),
                     rs_CompletedAt = rr_completedAt r\<rparr>) m"

definition persistedStateLocked :: "Governor \<Rightarrow> PersistedState" where
  "persistedStateLocked g =
     (let t = telemetrySummaryLocked g; c = g_config g
      in \<lparr>ps_AccountPolicyID = cfg_AccountPolicyID c, ps_ProviderID = cfg_ProviderID c,
          ps_ModelPool = cfg_ModelPool c, ps_Model = cfg_Model c,
          ps_AllowanceProfile = cfg_AllowanceProfile c, ps_AllowanceKind = cfg_AllowanceKind c,
          ps_NextAttempt = g_nextAttempt g, ps_LastStart = g_lastStart g,
          ps_CooldownUntil = g_cooldownUntil g, ps_Circuit = circuitSnapshotLocked g,
          ps_RateEvents = c_rateEvents (g_circuit g), ps_LastRateReset = c_lastRateReset (g_circuit g),
          ps_Telemetry = \<lparr>pt_Available = tm_Remaining t, pt_ResetAt = tm_ResetAt t,
             pt_CooldownUntil = tm_CooldownUntil t, pt_RateLimited = tm_RateLimited t,
             pt_CapacityExhausted = tm_CapacityExhausted t,
             pt_UpstreamCircuit = tm_UpstreamCircuit t, pt_Unsafe = t_unsafe (g_telemetry g)\<rparr>,
          ps_RollingEvents = copyEvents (g_ledger g),
          ps_TaskStates = task_records (g_tasks g),
          ps_RequestRecords = request_records (g_requestIDs g),
          ps_AttemptIDs = attemptIDRecords (g_attemptIDs g),
          ps_Ceilings = \<lparr>bc_Rolling3h = cfg_Rolling3h c, bc_Rolling1h = cfg_Rolling1h c,
             bc_Rolling10m = cfg_Rolling10m c, bc_TaskBudget = cfg_TaskBudget c,
             bc_RetryBudget = cfg_RetryBudget c, bc_ManualReserve = cfg_ManualReserve c\<rparr>\<rparr>)"

definition Governor_PersistedState :: "Governor \<Rightarrow> PersistedState \<times> Governor" where
  "Governor_PersistedState g =
     (let g' = expireLocked (g_now g) g in (persistedStateLocked g', g'))"

section \<open>Restoring\<close>

definition normalizeAllowanceKind :: "AllowanceKind \<Rightarrow> AllowanceProfile \<Rightarrow> AllowanceKind" where
  "normalizeAllowanceKind kind profile =
     (if AllowanceKind_Valid kind \<and> kind = AllowanceKindForProfile profile then kind
      else AllowanceKindForProfile profile)"

definition restore_circuit :: "time \<Rightarrow> PersistedState \<Rightarrow> circuitData \<Rightarrow> circuitData" where
  "restore_circuit now s c =
     (let c1 = (if cs_State (ps_Circuit s) \<noteq> CircuitEmpty
                then c\<lparr>c_state := cs_State (ps_Circuit s), c_reason := cs_Reason (ps_Circuit s),
                       c_openUntil := cs_OpenUntil (ps_Circuit s),
                       c_refreshRequired := cs_RefreshRequired (ps_Circuit s)\<rparr>
                else c);
          c2 = c1\<lparr>c_rateEvents := ps_RateEvents s, c_lastRateReset := ps_LastRateReset s\<rparr>
      in if c_state c2 = CircuitOpenUntil \<and> \<not> is_zero (c_openUntil c2) \<and> \<not> now < c_openUntil c2
         then c2\<lparr>c_state := CircuitClosed, c_reason := OutcomeEmpty, c_openUntil := zero_time\<rparr>
         else c2)"

definition restore_telemetry :: "PersistedTelemetry \<Rightarrow> telemetryState \<Rightarrow> telemetryState" where
  "restore_telemetry p t =
     t\<lparr>t_available := (case pt_Available p of None \<Rightarrow> t_available t | Some v \<Rightarrow> Some v),
       t_resetAt := pt_ResetAt p, t_cooldownUntil := pt_CooldownUntil p,
       t_rateLimited := pt_RateLimited p, t_capacityExhausted := pt_CapacityExhausted p,
       t_upstreamCircuit := pt_UpstreamCircuit p, t_unsafe := pt_Unsafe p\<rparr>"

definition restore_ledger :: "ledgerEvent list \<Rightarrow> rollingLedger \<Rightarrow> rollingLedger" where
  "restore_ledger evs l =
     foldl (\<lambda>l e. if \<not> is_zero (le_at e) then ledger_add l (le_at e) (le_taskID e) else l) l evs"

definition restore_tasks :: "TaskStateRecord list \<Rightarrow> taskState gomap \<Rightarrow> taskState gomap" where
  "restore_tasks rs m =
     foldl (\<lambda>m r. map_put (tr_TaskID r)
              \<lparr>ts_attempts = tr_Attempts r, ts_retries = tr_Retries r,
               ts_lastTouched = tr_LastTouched r\<rparr> m) m rs"

definition restore_requests :: "RequestRecordState list \<Rightarrow> requestRecord gomap \<Rightarrow> requestRecord gomap" where
  "restore_requests rs m =
     foldl (\<lambda>m r. map_put (rs_RequestID r)
              \<lparr>rr_state = requestStateFromName (rs_State r), rr_completedAt = rs_CompletedAt r\<rparr> m) m rs"

definition restore_attempts :: "AttemptIDRecord list \<Rightarrow> time gomap \<Rightarrow> time gomap" where
  "restore_attempts rs m =
     foldl (\<lambda>m r. if \<not> is_zero (ai_SeenAt r) then map_put (ai_AttemptID r) (ai_SeenAt r) m else m) m rs"

text \<open>The normalised kind is assigned to the local copy of the projection and read by nothing
  after it; the configured kind stays.\<close>

definition RestorePersistedState :: "PersistedState \<Rightarrow> Governor \<Rightarrow> Governor" where
  "RestorePersistedState s0 g =
     (let now = g_now g;
          s = s0\<lparr>ps_AllowanceKind := normalizeAllowanceKind (ps_AllowanceKind s0) (ps_AllowanceProfile s0)\<rparr>;
          g1 = g\<lparr>g_nextAttempt := (if g_nextAttempt g < ps_NextAttempt s then ps_NextAttempt s
                                   else g_nextAttempt g),
                 g_lastStart := ps_LastStart s, g_cooldownUntil := ps_CooldownUntil s\<rparr>;
          g2 = g1\<lparr>g_telemetry := restore_telemetry (ps_Telemetry s) (g_telemetry g1),
                  g_ledger := restore_ledger (ps_RollingEvents s) (g_ledger g1),
                  g_tasks := restore_tasks (ps_TaskStates s) (g_tasks g1)\<rparr>;
          g3 = g2\<lparr>g_requestIDs := restore_requests (ps_RequestRecords s) (g_requestIDs g2),
                  g_attemptIDs := restore_attempts (ps_AttemptIDs s) (g_attemptIDs g2),
                  g_circuit := restore_circuit now s (g_circuit g2)\<rparr>
      in pruneRetentionLocked now g3)"

section \<open>Construction\<close>

definition zero_circuit :: circuitData where
  "zero_circuit = \<lparr>c_state = CircuitClosed, c_reason = OutcomeEmpty, c_openUntil = zero_time,
     c_refreshRequired = False, c_refreshInFlight = False, c_lastRateReset = zero_time, c_rateEvents = []\<rparr>"

definition zero_telemetry :: telemetryState where
  "zero_telemetry = \<lparr>t_available = None, t_resetAt = zero_time, t_cooldownUntil = zero_time,
     t_rateLimited = False, t_capacityExhausted = False, t_upstreamCircuit = UpstreamCircuitEmpty,
     t_unsafe = False\<rparr>"

text \<open>The options: whether a telemetry source and an event sink are present, the clock's
  current reading and the projection to restore.\<close>

record Options =
  op_Now :: time
  op_Telemetry :: bool
  op_Events :: bool
  op_Restore :: "PersistedState option"

definition fresh_governor :: "Config \<Rightarrow> Options \<Rightarrow> Governor" where
  "fresh_governor config op =
     \<lparr>g_config = config\<lparr>cfg_AllowanceKind := EffectiveAllowanceKind config\<rparr>,
      g_now = op_Now op, g_telemetrySource = op_Telemetry op, g_events = op_Events op,
      g_closed = False, g_inFlight = False, g_queue = [], g_waiters = [], g_currentTask = [],
      g_consecutiveTurns = 0, g_lastStart = zero_time, g_nextAttempt = 1, g_ledger = empty_ledger,
      g_tasks = [], g_requestIDs = [], g_attemptIDs = [], g_completedRequestIDs = [],
      g_activeTaskID = [], g_circuit = zero_circuit, g_cooldownUntil = zero_time,
      g_telemetry = zero_telemetry, g_pendingEvents = [], g_drainingEvents = False\<rparr>"

definition New :: "Config \<Rightarrow> Options \<Rightarrow> config_error + Governor" where
  "New config op =
     (case Config_Validate config of
        Some e \<Rightarrow> Inl e
      | None \<Rightarrow>
          Inr (case op_Restore op of
                 None \<Rightarrow> fresh_governor config op
               | Some s \<Rightarrow> RestorePersistedState s (fresh_governor config op)))"

section \<open>Snapshots\<close>

record TaskSnapshot =
  tk_TaskID :: string
  tk_Attempts :: int
  tk_Retries :: int

record Snapshot =
  ss_AccountPolicyID :: string
  ss_ProviderID :: string
  ss_ModelPool :: string
  ss_Model :: string
  ss_AllowanceProfile :: AllowanceProfile
  ss_AllowanceKind :: AllowanceKind
  ss_InFlight :: bool
  ss_QueueLength :: nat
  ss_NextAttempt :: int
  ss_LastStart :: time
  ss_CooldownUntil :: time
  ss_Budgets :: BudgetSnapshot
  ss_Circuit :: CircuitSnapshot
  ss_Telemetry :: TelemetrySummary
  ss_PendingEvents :: nat
  ss_Tasks :: "TaskSnapshot gomap"
  ss_RetainedRequestIDs :: nat
  ss_RetainedAttemptIDs :: nat
  ss_RetainedTaskStates :: nat

definition Governor_Snapshot :: "Governor \<Rightarrow> Snapshot \<times> Governor" where
  "Governor_Snapshot g0 =
     (let g1 = expireLocked (g_now g0) g0;
          tasks = map (\<lambda>(k, st). (k, \<lparr>tk_TaskID = k, tk_Attempts = ts_attempts st,
                                       tk_Retries = ts_retries st\<rparr>)) (g_tasks g1);
          (budgets, g) = budgetLocked (g_now g0) [] g1;
          c = g_config g
      in (\<lparr>ss_AccountPolicyID = cfg_AccountPolicyID c, ss_ProviderID = cfg_ProviderID c,
           ss_ModelPool = cfg_ModelPool c, ss_Model = cfg_Model c,
           ss_AllowanceProfile = cfg_AllowanceProfile c, ss_AllowanceKind = cfg_AllowanceKind c,
           ss_InFlight = g_inFlight g, ss_QueueLength = length (g_queue g),
           ss_NextAttempt = g_nextAttempt g, ss_LastStart = g_lastStart g,
           ss_CooldownUntil = g_cooldownUntil g, ss_Budgets = budgets,
           ss_Circuit = circuitSnapshotLocked g, ss_Telemetry = telemetrySummaryLocked g,
           ss_PendingEvents = length (g_pendingEvents g), ss_Tasks = tasks,
           ss_RetainedRequestIDs = length (g_requestIDs g),
           ss_RetainedAttemptIDs = length (g_attemptIDs g),
           ss_RetainedTaskStates = length (g_tasks g)\<rparr>, g))"

end
