(* ===== verification/Governor_Quiet.thy ===== *)
theory Governor_Quiet
  imports Governor_State
begin

text \<open>
  Critical sections that debit nothing. \<open>quiet g g'\<close> says that the step from \<open>g\<close> to \<open>g'\<close> keeps
  the configuration, the clock, the lane and the last start, that the ledger only lost a prefix
  of its live entries, that the usage of a task changed only by forgetting an idle task, and
  that the unsafe mark was not cleared. The relation is a preorder; every operation that is not
  a debit is shown to be quiet once, and the invariants of the system are proved against the
  relation instead of against the operations.
\<close>

definition usage :: "Governor \<Rightarrow> string \<Rightarrow> int \<times> int" where
  "usage g t = (ts_attempts (task_of g t), ts_retries (task_of g t))"

definition forgets :: "Governor \<Rightarrow> Governor \<Rightarrow> bool" where
  "forgets g g' \<longleftrightarrow>
     (map_wf (g_tasks g) \<longrightarrow> map_wf (g_tasks g') \<and>
       (\<forall>t. usage g' t = usage g t
          \<or> usage g' t = (0, 0) \<and> \<not> (g_inFlight g \<and> g_activeTaskID g = t)))"

definition shrinks :: "time \<Rightarrow> rollingLedger \<Rightarrow> rollingLedger \<Rightarrow> bool" where
  "shrinks now l l' \<longleftrightarrow>
     (ledger_wf l \<longrightarrow> ledger_wf l' \<and>
       (\<exists>k. live l' = drop k (live l) \<and> (\<forall>e \<in> set (take k (live l)). le_at e \<le> now - 3 * Hour)))"

definition quiet :: "Governor \<Rightarrow> Governor \<Rightarrow> bool" where
  "quiet g g' \<longleftrightarrow>
     g_config g' = g_config g \<and> g_now g' = g_now g \<and> g_lastStart g' = g_lastStart g
     \<and> g_inFlight g' = g_inFlight g \<and> g_activeTaskID g' = g_activeTaskID g
     \<and> (t_unsafe (g_telemetry g) \<longrightarrow> t_unsafe (g_telemetry g'))
     \<and> shrinks (g_now g) (g_ledger g) (g_ledger g') \<and> forgets g g'"

section \<open>A preorder\<close>

lemma shrinks_refl [simp]: "shrinks now l l"
  unfolding shrinks_def by (auto intro: exI [of _ 0])

lemma shrinks_trans:
  assumes "shrinks now a b" "shrinks now b c"
  shows "shrinks now a c"
  unfolding shrinks_def
proof (intro impI conjI)
  assume wf: "ledger_wf a"
  with assms(1) obtain k where b: "ledger_wf b" "live b = drop k (live a)"
    and old1: "\<forall>e \<in> set (take k (live a)). le_at e \<le> now - 3 * Hour" by (auto simp: shrinks_def)
  with assms(2) obtain m where c: "ledger_wf c" "live c = drop m (live b)"
    and old2: "\<forall>e \<in> set (take m (live b)). le_at e \<le> now - 3 * Hour" by (auto simp: shrinks_def)
  show "ledger_wf c" by (fact c(1))
  have "live c = drop (k + m) (live a)" using b(2) c(2) by (simp add: add.commute)
  moreover have "\<forall>e \<in> set (take (k + m) (live a)). le_at e \<le> now - 3 * Hour"
    using old1 old2 b(2) by (auto simp: take_add)
  ultimately show "\<exists>k. live c = drop k (live a) \<and> (\<forall>e \<in> set (take k (live a)). le_at e \<le> now - 3 * Hour)"
    by blast
qed

lemma shrinks_expire:
  assumes "now \<le> now'"
  shows "shrinks now' l (ledger_expire l now (3 * Hour))"
  unfolding shrinks_def
proof (intro impI conjI)
  assume wf: "ledger_wf l"
  then show "ledger_wf (ledger_expire l now (3 * Hour))" by (rule ledger_wf_expire)
  obtain k where k: "live (ledger_expire l now (3 * Hour)) = drop k (live l)"
    "\<forall>e \<in> set (take k (live l)). le_at e \<le> now - 3 * Hour" using live_expire [OF wf] by blast
  then have "\<forall>e \<in> set (take k (live l)). le_at e \<le> now' - 3 * Hour" using assms by auto
  with k(1) show "\<exists>k. live (ledger_expire l now (3 * Hour)) = drop k (live l)
      \<and> (\<forall>e \<in> set (take k (live l)). le_at e \<le> now' - 3 * Hour)" by blast
qed

text \<open>The counts the governor reads do not see the difference, now or later.\<close>

lemma shrinks_count:
  assumes "shrinks now l l'" "ledger_wf l" "w \<le> 3 * Hour" "now \<le> now'"
  shows "ledger_count l' now' w = ledger_count l now' w"
proof -
  from assms(1,2) obtain k where k: "live l' = drop k (live l)"
    "\<forall>e \<in> set (take k (live l)). le_at e \<le> now - 3 * Hour" by (auto simp: shrinks_def)
  then have "\<forall>e \<in> set (take k (live l)). \<not> now' - w < le_at e" using assms(3,4) by auto
  with k(1) show ?thesis by (simp add: ledger_count_eq filter_eq_drop_prefix)
qed

lemma quiet_refl [simp]: "quiet g g"
  by (simp add: quiet_def forgets_def)

lemma forgets_trans:
  assumes "forgets g g'" "forgets g' g''"
    and "g_inFlight g' = g_inFlight g" "g_activeTaskID g' = g_activeTaskID g"
  shows "forgets g g''"
  unfolding forgets_def
proof (intro impI conjI allI)
  assume wf: "map_wf (g_tasks g)"
  then have wf': "map_wf (g_tasks g')" using assms(1) by (simp add: forgets_def)
  then show "map_wf (g_tasks g'')" using assms(2) by (simp add: forgets_def)
  fix t
  show "usage g'' t = usage g t \<or> usage g'' t = (0, 0) \<and> \<not> (g_inFlight g \<and> g_activeTaskID g = t)"
    using assms wf wf' unfolding forgets_def by metis
qed

lemma quiet_trans [trans]:
  assumes "quiet g g'" "quiet g' g''"
  shows "quiet g g''"
proof -
  have "forgets g g''" using assms forgets_trans [of g g' g''] by (simp add: quiet_def)
  moreover have "shrinks (g_now g) (g_ledger g) (g_ledger g'')"
    using assms shrinks_trans [of "g_now g" "g_ledger g" "g_ledger g'"] by (simp add: quiet_def)
  ultimately show ?thesis using assms by (simp add: quiet_def)
qed

text \<open>A step that keeps the fields the relation looks at.\<close>

lemma quiet_same:
  assumes "g_config g' = g_config g" "g_now g' = g_now g" "g_lastStart g' = g_lastStart g"
    and "g_inFlight g' = g_inFlight g" "g_activeTaskID g' = g_activeTaskID g"
    and "t_unsafe (g_telemetry g) \<longrightarrow> t_unsafe (g_telemetry g')"
    and "g_ledger g' = g_ledger g" "g_tasks g' = g_tasks g"
  shows "quiet g g'"
  using assms by (simp add: quiet_def forgets_def usage_def task_of_def)

section \<open>Retention, expiry and the task records\<close>

lemma usage_map_get:
  "usage g t = (case map_get (g_tasks g) t of None \<Rightarrow> (0, 0) | Some st \<Rightarrow> (ts_attempts st, ts_retries st))"
  by (simp add: usage_def task_of_def split: option.splits)

lemma pruned_tasks:
  assumes "map_wf (g_tasks g)"
  shows "map_get (g_tasks (pruneRetentionLocked now g)) t = map_get (g_tasks g) t
    \<or> map_get (g_tasks (pruneRetentionLocked now g)) t = None \<and> \<not> taskProtectedLocked g t"
proof -
  let ?h = "pruneAttemptIDsLocked now g"
  let ?P = "\<lambda>(k, st). taskProtectedLocked ?h k \<or> now - taskRetentionWindow < ts_lastTouched st"
  have tasks: "g_tasks (pruneRetentionLocked now g) =
      evict maxRetainedTaskStates (taskProtectedLocked ?h) ts_lastTouched (filter ?P (g_tasks g))"
    by (simp add: pruneRetentionLocked_def Let_def split: prod.splits)
  have prot: "taskProtectedLocked ?h = taskProtectedLocked g"
    by (simp add: fun_eq_iff taskProtectedLocked_def waiter_of_def)
  show ?thesis
  proof (cases "map_get (g_tasks (pruneRetentionLocked now g)) t")
    case None
    show ?thesis
    proof (cases "taskProtectedLocked g t")
      case True
      then have "map_get (filter ?P (g_tasks g)) t = None"
        using None tasks prot task_states.keeps_protected [of ?h t "filter ?P (g_tasks g)"] by simp
      then have "map_get (g_tasks g) t = None"
        using True prot by (auto simp: map_of_eq_None_iff)
      with None show ?thesis by simp
    qed (use None in simp)
  next
    case (Some st)
    then show ?thesis
      using task_states.retained_is_old_value [OF assms] tasks by simp
  qed
qed

lemma quiet_pruneRetention [simp]: "quiet g (pruneRetentionLocked now g)"
proof -
  have "map_wf (g_tasks g) \<Longrightarrow> map_wf (g_tasks (pruneRetentionLocked now g))"
    by (simp add: pruneRetentionLocked_def Let_def evict_wf split: prod.splits)
  moreover have "map_wf (g_tasks g) \<Longrightarrow>
      usage (pruneRetentionLocked now g) t = usage g t
      \<or> usage (pruneRetentionLocked now g) t = (0, 0) \<and> \<not> (g_inFlight g \<and> g_activeTaskID g = t)" for t
    using pruned_tasks [of g now t] by (auto simp: usage_map_get taskProtectedLocked_def)
  ultimately show ?thesis by (simp add: quiet_def forgets_def)
qed

lemma quiet_expireLocked [simp]:
  assumes "now \<le> g_now g"
  shows "quiet g (expireLocked now g)"
proof -
  let ?g1 = "g\<lparr>g_ledger := ledger_expire (g_ledger g) now (3 * Hour)\<rparr>"
  have "forgets g ?g1" by (simp add: forgets_def usage_def task_of_def)
  moreover have "shrinks (g_now g) (g_ledger g) (g_ledger ?g1)"
    using shrinks_expire [OF assms] by simp
  ultimately have "quiet g ?g1" by (simp add: quiet_def)
  also have "quiet ?g1 (pruneRetentionLocked now ?g1)" by simp
  also have "quiet (pruneRetentionLocked now ?g1) (expireLocked now g)"
    by (rule quiet_same) (simp_all add: expireLocked_def Let_def expire_telemetry_def)
  finally show ?thesis .
qed

lemma usage_taskLocked [simp]: "usage (snd (taskLocked i g)) t = usage g t"
  by (simp add: usage_def task_of_def taskLocked_def Let_def split: option.splits)

lemma fst_taskLocked [simp]:
  "ts_attempts (fst (taskLocked i g)) = fst (usage g i)"
  "ts_retries (fst (taskLocked i g)) = snd (usage g i)"
  by (simp_all add: taskLocked_def Let_def usage_def)

lemma map_wf_taskLocked [simp]: "map_wf (g_tasks g) \<Longrightarrow> map_wf (g_tasks (snd (taskLocked i g)))"
  by (simp add: taskLocked_def Let_def)

lemma quiet_taskLocked [simp]: "quiet g (snd (taskLocked i g))"
  by (simp add: quiet_def forgets_def)

lemma quiet_queueEvent [simp]: "quiet g (queueEventLocked e g)"
  by (rule quiet_same) simp_all

lemma quiet_transition [simp]: "quiet g (transitionCircuitLocked st r u g)"
  by (rule quiet_same) simp_all

lemma quiet_taskRetryCount [simp]: "quiet g (snd (taskRetryCountLocked i g))"
  by (simp add: taskRetryCountLocked_def split_beta)

lemma quiet_budget [simp]: "now \<le> g_now g \<Longrightarrow> quiet g (snd (budgetLocked now i g))"
proof -
  assume [simp]: "now \<le> g_now g"
  let ?g1 = "expireLocked now g"
  let ?g2 = "if i = [] then ?g1 else snd (taskLocked i ?g1)"
  have "snd (budgetLocked now i g) = snd (taskRetryCountLocked i ?g2)"
    by (simp add: budgetLocked_def Let_def split_beta)
  moreover have "quiet g ?g1" "quiet ?g1 ?g2" "quiet ?g2 (snd (taskRetryCountLocked i ?g2))" by simp_all
  ultimately show ?thesis by (metis quiet_trans)
qed

lemma quiet_emit [simp]: "quiet g (emitAdmissionLocked rq res h g)"
  by (auto simp: emitAdmissionLocked_def Let_def split_beta intro: quiet_trans [OF quiet_budget [OF order_refl] quiet_queueEvent])

lemma apply_remaining_unsafe [simp]: "t_unsafe (apply_remaining now s t) = t_unsafe t"
  by (simp add: apply_remaining_def)

lemma apply_cooldown_unsafe [simp]: "t_unsafe (fst (apply_cooldown now s tc)) = t_unsafe (fst tc)"
  by (simp add: apply_cooldown_def Let_def split_beta)

lemma applyTelemetry_unsafe: "t_unsafe (g_telemetry g) \<Longrightarrow> t_unsafe (g_telemetry (applyTelemetryLocked s now g))"
  by (simp add: applyTelemetryLocked_def Let_def split_beta split: option.split)

lemma quiet_applyTelemetry [simp]: "quiet g (applyTelemetryLocked s now g)"
  by (rule quiet_same) (simp_all add: applyTelemetry_unsafe)

section \<open>Outcomes, circuit and refresh\<close>

lemma quiet_circuit_update [simp]: "quiet g (g\<lparr>g_circuit := c\<rparr>)"
  by (rule quiet_same) simp_all

lemma quiet_record_signal [simp]: "quiet g (record_signal oc g)"
  by (rule quiet_same) simp_all

lemma record_rate_core:
  "g_ledger (snd (record_rate j now oc g)) = g_ledger (expireLocked now g)"
  "g_tasks (snd (record_rate j now oc g)) = g_tasks (expireLocked now g)"
  "g_telemetry (snd (record_rate j now oc g)) = g_telemetry (expireLocked now g)"
  by (rule record_rate_field; simp)+

lemma quiet_record_rate [simp]: "now \<le> g_now g \<Longrightarrow> quiet g (snd (record_rate j now oc g))"
  by (rule quiet_trans [OF quiet_expireLocked quiet_same]) (simp_all add: record_rate_core)

lemma quiet_recordOutcome [simp]: "now \<le> g_now g \<Longrightarrow> quiet g (snd (recordOutcomeLocked j now i oc g))"
  by (auto simp: recordOutcomeLocked_def Let_def split_beta intro: quiet_trans [OF _ quiet_taskLocked])

lemma quiet_AcknowledgeHuman [simp]: "quiet g (snd (AcknowledgeHuman g))"
  by (rule quiet_same) (simp_all add: AcknowledgeHuman_def)

lemma quiet_BeginRefresh [simp]: "quiet g (snd (BeginCredentialRefresh g))"
  by (rule quiet_same) (simp_all add: BeginCredentialRefresh_def)

lemma quiet_RefreshFinish [simp]: "quiet g (snd (snd (RefreshPermit_Finish ok f g)))"
  by (rule quiet_same) (simp_all add: RefreshPermit_Finish_def Let_def)

section \<open>Request ids, queue and events\<close>

lemma quiet_requests [simp]:
  "quiet g (reserveRequestLocked i g)" "quiet g (markRequestActiveLocked i g)"
  "quiet g (completeRequestLocked i t g)" "quiet g (releaseRequestLocked i g)"
  "quiet g (pruneAttemptIDsLocked now g)" "quiet g (snd (requestSeenLocked i g))"
  by (rule quiet_same; simp)+ (simp add: requestSeenLocked_def Let_def)

lemma quiet_drain [simp]:
  "quiet g (snd (drain_begin g))" "quiet g (snd (drain_batch g))" "quiet g (drain_abort g)"
  by (rule quiet_same; simp add: drain_begin_def drain_batch_def drain_abort_def)+

text \<open>Waiters and the queue are outside the relation.\<close>

definition queue_only :: "Governor \<Rightarrow> Governor \<Rightarrow> bool" where
  "queue_only g g' \<longleftrightarrow> g' = g\<lparr>g_queue := g_queue g', g_waiters := g_waiters g'\<rparr>"

lemma queue_only_refl [simp]: "queue_only g g" by (simp add: queue_only_def)

lemma queue_only_trans: "queue_only a b \<Longrightarrow> queue_only b c \<Longrightarrow> queue_only a c"
  unfolding queue_only_def
  by (metis (no_types, lifting) Governor.surjective Governor.update_convs(7,8))

lemma quiet_queue_only: "queue_only g g' \<Longrightarrow> quiet g g'"
  unfolding queue_only_def by (rule quiet_same; (erule ssubst)?; simp)

lemma queue_only_set_waiter [simp]: "queue_only g (set_waiter a f g)"
  by (simp add: queue_only_def set_waiter_def)

lemma queue_only_signal [simp]: "queue_only g (signalLocked a g)"
  by (simp add: signalLocked_def)

lemma queue_only_fold: "(\<And>a h. queue_only h (f a h)) \<Longrightarrow> queue_only g (fold f xs g)"
  by (induction xs arbitrary: g) (auto intro: queue_only_trans)

lemma queue_only_signalAll [simp]: "queue_only g (signalAllLocked g)"
  by (simp add: signalAllLocked_def queue_only_fold)

end
