(* ===== verification/Governor_Gates.thy ===== *)
theory Governor_Gates
  imports Governor_Quiet
begin

text \<open>
  What an admission decision means. \<open>admissible\<close> is the specification of the admission check as
  one conjunction of the protection gates; the check of the source agrees with it on the state
  it leaves. Every admission path is then shown to be quiet and, when it hands out a permit, to
  grant the lane in a state in which all gates held.
\<close>

definition window_room :: "Governor \<Rightarrow> time \<Rightarrow> bool" where
  "window_room g now \<longleftrightarrow>
     ledger_count (g_ledger g) now (3 * Hour) < cfg_Rolling3h (g_config g)
     \<and> ledger_count (g_ledger g) now Hour < cfg_Rolling1h (g_config g)
     \<and> ledger_count (g_ledger g) now (10 * Minute) < cfg_Rolling10m (g_config g)"

definition paced :: "Governor \<Rightarrow> time \<Rightarrow> bool" where
  "paced g now \<longleftrightarrow>
     is_zero (g_lastStart g) \<or> g_lastStart g + cfg_MinimumStartInterval (g_config g) \<le> now"

definition upstream_clear :: "Governor \<Rightarrow> time \<Rightarrow> bool" where
  "upstream_clear g now \<longleftrightarrow>
     t_upstreamCircuit (g_telemetry g) \<noteq> UpstreamCircuitOpen
     \<and> g_cooldownUntil g \<le> now
     \<and> \<not> t_rateLimited (g_telemetry g) \<and> \<not> t_capacityExhausted (g_telemetry g)
     \<and> (\<forall>v. t_available (g_telemetry g) = Some v \<and> remainingSignalApplies g
          \<longrightarrow> cfg_ManualReserve (g_config g) < v)"

definition circuit_clear :: "Governor \<Rightarrow> bool" where
  "circuit_clear g \<longleftrightarrow>
     \<not> c_refreshRequired (g_circuit g)
     \<and> c_state (g_circuit g) \<noteq> CircuitHumanReviewRequired \<and> c_state (g_circuit g) \<noteq> CircuitOpenUntil"

definition task_room :: "AttemptRequest \<Rightarrow> Governor \<Rightarrow> bool" where
  "task_room rq g \<longleftrightarrow>
     fst (usage g (rq_TaskID rq)) < cfg_TaskBudget (g_config g)
     \<and> (rq_Retry rq \<longrightarrow> snd (usage g (rq_TaskID rq)) < cfg_RetryBudget (g_config g))"

definition admissible :: "time \<Rightarrow> AttemptRequest \<Rightarrow> Governor \<Rightarrow> bool" where
  "admissible now rq g \<longleftrightarrow>
     \<not> g_inFlight g \<and> \<not> t_unsafe (g_telemetry g) \<and> circuit_clear g \<and> upstream_clear g now
     \<and> task_room rq g \<and> (rollingBudgetsApply g \<longrightarrow> window_room g now) \<and> paced g now"

text \<open>The numeric configuration facts the check needs; \<open>New\<close> establishes them.\<close>

definition ceilings_ok :: "Config \<Rightarrow> bool" where
  "ceilings_ok c \<longleftrightarrow>
     cfg_AllowanceKind c \<noteq> AllowanceKindUnlimitedText \<longrightarrow>
       0 < cfg_Rolling10m c \<and> 0 < cfg_Rolling1h c \<and> 0 < cfg_Rolling3h c"

section \<open>The check against the specification\<close>

lemma check_circuit_pass_iff:
  "fst (check_circuit now g) = pass \<longleftrightarrow>
     (let g' = snd (check_circuit now g)
      in \<not> g_inFlight g' \<and> \<not> t_unsafe (g_telemetry g') \<and> circuit_clear g')"
  by (auto simp: check_circuit_def circuit_clear_def Let_def transitionCircuitLocked_def
      queueEventLocked_def)

lemma check_circuit_core [simp]:
  "g_tasks (snd (check_circuit now g)) = g_tasks g" "g_ledger (snd (check_circuit now g)) = g_ledger g"
  "g_config (snd (check_circuit now g)) = g_config g" "g_queue (snd (check_circuit now g)) = g_queue g"
  "g_waiters (snd (check_circuit now g)) = g_waiters g" "g_now (snd (check_circuit now g)) = g_now g"
  "g_requestIDs (snd (check_circuit now g)) = g_requestIDs g" "g_closed (snd (check_circuit now g)) = g_closed g"
  by (simp_all add: check_circuit_def)

lemma check_upstream_pass_iff: "check_upstream now g = pass \<longleftrightarrow> upstream_clear g now"
  by (auto simp: check_upstream_def check_allowance_def upstream_clear_def manualReserveApplies_def
      remainingSignalApplies_def split: option.splits if_splits)

lemma check_task_pass_iff:
  "check_task rq (fst (taskLocked (rq_TaskID rq) g)) g' = pass \<longleftrightarrow> task_room rq g"
  if "g_config g' = g_config g"
  using that by (auto simp: check_task_def task_room_def)

lemma check_rolling_pass_iff:
  assumes "0 \<le> now" "ceilings_ok (g_config g)"
  shows "check_rolling now g = pass \<longleftrightarrow> (rollingBudgetsApply g \<longrightarrow> window_room g now)"
  using assms ledger_next_zero_iff [OF _ assms(1)]
  by (auto simp: check_rolling_def window_room_def Let_def ceilings_ok_def rollingBudgetsApply_def
      localNumericLayerApplies_def)

lemma check_pacing_pass_iff: "check_pacing now g = pass \<longleftrightarrow> paced g now"
  by (auto simp: check_pacing_def paced_def)

lemma predicates_taskLocked [simp]:
  "upstream_clear (snd (taskLocked i g)) now = upstream_clear g now"
  "circuit_clear (snd (taskLocked i g)) = circuit_clear g"
  "task_room rq (snd (taskLocked i g)) = task_room rq g"
  "rollingBudgetsApply (snd (taskLocked i g)) = rollingBudgetsApply g"
  by (simp_all add: upstream_clear_def circuit_clear_def task_room_def remainingSignalApplies_def
      rollingBudgetsApply_def localNumericLayerApplies_def)

text \<open>Every refusal carries a code, so the callers' test on the code is the test for \<open>pass\<close>.\<close>

lemma check_codes:
  "ck_code (fst (check_circuit now g)) = AdmissionNone \<longleftrightarrow> fst (check_circuit now g) = pass"
  "ck_code (check_upstream now g) = AdmissionNone \<longleftrightarrow> check_upstream now g = pass"
  "ck_code (check_task rq st g) = AdmissionNone \<longleftrightarrow> check_task rq st g = pass"
  "ck_code (check_rolling now g) = AdmissionNone \<longleftrightarrow> check_rolling now g = pass"
  "ck_code (check_pacing now g) = AdmissionNone \<longleftrightarrow> check_pacing now g = pass"
  by (simp_all add: check_circuit_def check_upstream_def check_allowance_def check_task_def
      check_rolling_def check_pacing_def Let_def split: option.split)

lemma checkLocked_code: "ck_code (fst (checkLocked now rq g)) = AdmissionNone \<longleftrightarrow> fst (checkLocked now rq g) = pass"
  by (auto simp: checkLocked_def Let_def split_beta check_codes)

lemma checkLocked_spec:
  assumes "0 \<le> now" "ceilings_ok (g_config g)"
  shows "fst (checkLocked now rq g) = pass \<longleftrightarrow> admissible now rq (snd (checkLocked now rq g))"
proof -
  let ?g1 = "snd (check_circuit now (expireLocked now g))"
  let ?g2 = "snd (taskLocked (rq_TaskID rq) ?g1)"
  have c1: "fst (check_circuit now (expireLocked now g)) = pass \<longleftrightarrow>
      \<not> g_inFlight ?g1 \<and> \<not> t_unsafe (g_telemetry ?g1) \<and> circuit_clear ?g1"
    by (simp add: check_circuit_pass_iff Let_def)
  have c3: "check_task rq (fst (taskLocked (rq_TaskID rq) ?g1)) ?g2 = pass \<longleftrightarrow> task_room rq ?g1"
    by (simp add: check_task_pass_iff)
  have "ceilings_ok (g_config ?g2)" using assms(2) by simp
  note c4 = check_rolling_pass_iff [OF assms(1) this]
  show ?thesis
  proof (cases "fst (check_circuit now (expireLocked now g)) = pass")
    case False
    then show ?thesis using c1 by (auto simp: checkLocked_def Let_def split_beta admissible_def)
  next
    case True
    then show ?thesis
      using c1 c3 c4 by (auto simp: checkLocked_def Let_def split_beta admissible_def
          check_upstream_pass_iff check_pacing_pass_iff)
  qed
qed

section \<open>Admission paths are quiet or grants\<close>

lemmas quiet_then [intro] =
  quiet_trans [OF _ quiet_emit] quiet_trans [OF _ quiet_requests(1)]
  quiet_trans [OF _ quiet_requests(4)] quiet_trans [OF _ quiet_applyTelemetry]

lemma quiet_check_circuit [simp]: "quiet g (snd (check_circuit now g))"
  by (simp add: check_circuit_def)

lemma quiet_checkLocked [simp]: "now \<le> g_now g \<Longrightarrow> quiet g (snd (checkLocked now rq g))"
proof -
  assume [simp]: "now \<le> g_now g"
  let ?g1 = "snd (check_circuit now (expireLocked now g))"
  have "quiet g (expireLocked now g)" by simp
  also have "quiet (expireLocked now g) ?g1" by simp
  finally have q1: "quiet g ?g1" .
  moreover have "quiet ?g1 (snd (taskLocked (rq_TaskID rq) ?g1))" by simp
  ultimately have "quiet g (snd (taskLocked (rq_TaskID rq) ?g1))" by (rule quiet_trans)
  with q1 show ?thesis by (simp add: checkLocked_def Let_def split_beta)
qed

lemma quiet_delayed [simp]: "quiet g (snd (delayedLocked rq r u h g))"
  by (simp add: delayedLocked_def Let_def)

lemma quiet_removeWaiter [simp]: "quiet g (removeWaiterLocked a g)"
proof -
  let ?h = "set_waiter a (\<lambda>w. w\<lparr>w_removed := True\<rparr>) g"
  have q1: "quiet g (releaseRequestLocked i ?h)" for i
    by (rule quiet_trans [OF quiet_queue_only [OF queue_only_set_waiter] quiet_requests(4)])
  have q2: "quiet k (signalLocked a k)" for k by (rule quiet_queue_only) simp
  have q3: "quiet k (signalAllLocked (signalLocked a (k\<lparr>g_queue := q\<rparr>)))" for k q
  proof (rule quiet_queue_only, rule queue_only_trans [OF _ queue_only_signalAll],
      rule queue_only_trans [OF _ queue_only_signal])
    show "queue_only k (k\<lparr>g_queue := q\<rparr>)" by (simp add: queue_only_def)
  qed
  show ?thesis
    using quiet_trans [OF q1 q2] quiet_trans [OF q1 q3]
    by (auto simp: removeWaiterLocked_def Let_def split: option.split)
qed

lemma quiet_try_precheck [simp]: "quiet g (snd (try_precheck h1 h2 rq g))"
proof -
  let ?g1 = "snd (requestSeenLocked (rq_ClientRequestID rq) g)"
  have q: "quiet g ?g1" by simp
  moreover have "quiet g (snd (delayedLocked rq r u h ?g1))" for r u h
    by (rule quiet_trans [OF q quiet_delayed])
  moreover have "quiet g (emitAdmissionLocked rq r h ?g1)" for r h
    by (rule quiet_trans [OF q quiet_emit])
  ultimately show ?thesis by (simp add: try_precheck_def Let_def split_beta)
qed

lemma try_precheck_no_permit:
  "fst (try_precheck h1 h2 rq g) = Some r \<Longrightarrow> ad_Permit r = None"
  by (auto simp: try_precheck_def Let_def split_beta admission_result_def empty_result_def
      delayedLocked_def split: if_splits)

text \<open>A grant: up to quiet steps, the lane is taken in a state in which every gate was open.\<close>

definition fresh_permit :: "AttemptRequest \<Rightarrow> bool \<Rightarrow> Permit" where
  "fresh_permit rq healthy =
     \<lparr>pm_request = rq, pm_telemetryHealthy = healthy, pm_started = False, pm_completed = False,
      pm_attemptSequence = 0, pm_receiptAware = False, pm_startedAt = zero_time\<rparr>"

definition grant :: "AttemptRequest \<Rightarrow> Governor \<Rightarrow> Governor" where
  "grant rq g = g\<lparr>g_inFlight := True, g_activeTaskID := rq_TaskID rq\<rparr>"

definition grants :: "Governor \<Rightarrow> Permit \<Rightarrow> Governor \<Rightarrow> bool" where
  "grants g p g' \<longleftrightarrow>
     (\<exists>now h healthy. now \<le> g_now g \<and> quiet g h
        \<and> (ceilings_ok (g_config g) \<longrightarrow> admissible now (pm_request p) h)
        \<and> p = fresh_permit (pm_request p) healthy \<and> quiet (grant (pm_request p) h) g')"

lemma admissible_requests [simp]:
  "admissible now rq (reserveRequestLocked i g) = admissible now rq g"
  by (simp add: admissible_def circuit_clear_def upstream_clear_def task_room_def usage_def task_of_def
      window_room_def paced_def remainingSignalApplies_def rollingBudgetsApply_def localNumericLayerApplies_def)

lemma grant_and_emit_grants:
  assumes "quiet g h" "now \<le> g_now g" "ceilings_ok (g_config g) \<longrightarrow> admissible now rq h"
  shows "\<exists>p. ad_Permit (fst (grant_and_emit rq healthy h)) = Some p
    \<and> pm_request p = rq \<and> grants g p (snd (grant_and_emit rq healthy h))"
proof -
  let ?k = "reserveRequestLocked (rq_ClientRequestID rq) h"
  have ge: "grant_and_emit rq healthy h =
      (empty_result\<lparr>ad_Code := AdmissionAdmitted, ad_Permit := Some (fresh_permit rq healthy),
         ad_TelemetryHealthy := healthy\<rparr>,
       emitAdmissionLocked rq (empty_result\<lparr>ad_Code := AdmissionAdmitted,
         ad_Permit := Some (fresh_permit rq healthy), ad_TelemetryHealthy := healthy\<rparr>) healthy (grant rq ?k))"
    by (simp add: grant_and_emit_def grantLocked_def Let_def fresh_permit_def grant_def)
  have "quiet g ?k" using assms(1) by (rule quiet_trans) simp
  moreover have "ceilings_ok (g_config g) \<longrightarrow> admissible now rq ?k" using assms(3) by simp
  ultimately show ?thesis
    using assms(2) by (auto simp: ge grants_def fresh_permit_def intro!: exI [of _ now] exI [of _ ?k])
qed

lemma tryAdmit_first_quiet:
  "quiet g (snd (tryAdmit_first rq g))" "fst (tryAdmit_first rq g) = Some r \<Longrightarrow> ad_Permit r = None"
  using try_precheck_no_permit by (auto simp: tryAdmit_first_def)

text \<open>A passed check on a state reached quietly, at a clock reading that is not in the future.\<close>

lemma checkLocked_admissible:
  assumes "quiet g h" "0 \<le> now" "now \<le> g_now g" "fst (checkLocked now rq h) = pass"
  shows "quiet g (snd (checkLocked now rq h))"
    and "ceilings_ok (g_config g) \<longrightarrow> admissible now rq (snd (checkLocked now rq h))"
proof -
  have "now \<le> g_now h" using assms(1,3) by (simp add: quiet_def)
  then show "quiet g (snd (checkLocked now rq h))" by (rule quiet_trans [OF assms(1) quiet_checkLocked])
  show "ceilings_ok (g_config g) \<longrightarrow> admissible now rq (snd (checkLocked now rq h))"
    using assms checkLocked_spec [of now h rq] by (simp add: quiet_def)
qed

text \<open>The second section of \<open>tryAdmit\<close>: no permit and a quiet step, or a grant.\<close>

lemma tryAdmit_second_cases:
  assumes "tryAdmit_second ctx rq obs g = (r, g')" "0 \<le> g_now g"
  shows "ad_Permit r = None \<and> quiet g g' \<or> (\<exists>p. ad_Permit r = Some p \<and> pm_request p = rq \<and> grants g p g')"
proof -
  obtain tel healthy where tel: "readTelemetry g obs = (tel, healthy)" by fastforce
  obtain pr g1 where pre: "try_precheck healthy healthy rq g = (pr, g1)" by fastforce
  have q1: "quiet g g1" using quiet_try_precheck [of g healthy healthy rq] pre by simp
  let ?g2 = "case tel of None \<Rightarrow> g1 | Some s \<Rightarrow> applyTelemetryLocked s (g_now g1) g1"
  have q2: "quiet g ?g2" using q1 by (auto split: option.split)
  obtain ck g3 where ck: "checkLocked (g_now ?g2) rq ?g2 = (ck, g3)" by fastforce
  have q3: "quiet g g3" using quiet_trans [OF q2 quiet_checkLocked [of "g_now ?g2" ?g2 rq]] ck by simp
  show ?thesis
  proof (cases "pr \<noteq> None \<or> cx_Err ctx \<noteq> None \<or> ck_code ck \<noteq> AdmissionNone")
    case True
    have "quiet g (snd (delayedLocked rq c u healthy g3))" for c u
      using q3 quiet_delayed by (rule quiet_trans)
    with True assms(1) tel pre ck q1 q3 try_precheck_no_permit [of healthy healthy rq g]
    show ?thesis
      by (auto simp: tryAdmit_second_def Let_def refuse_and_emit_def admission_result_def
          empty_result_def delayedLocked_def split: if_splits option.splits)
  next
    case False
    then have "fst (checkLocked (g_now ?g2) rq ?g2) = pass" using ck checkLocked_code [of "g_now ?g2" rq ?g2] by simp
    then have "quiet g g3" "ceilings_ok (g_config g) \<longrightarrow> admissible (g_now g) rq g3"
      using checkLocked_admissible [OF q2, of "g_now g" rq] ck q2 assms(2) by (simp_all add: quiet_def)
    from grant_and_emit_grants [OF this(1) _ this(2), of healthy]
    have "\<exists>p. ad_Permit (fst (grant_and_emit rq healthy g3)) = Some p
      \<and> pm_request p = rq \<and> grants g p (snd (grant_and_emit rq healthy g3))" by simp
    moreover have "(r, g') = grant_and_emit rq healthy g3"
      using False assms tel pre ck by (simp add: tryAdmit_second_def Let_def)
    ultimately show ?thesis by (metis fst_conv snd_conv)
  qed
qed

text \<open>The sections of the waiting loop.\<close>

lemma quiet_enter [simp]: "quiet g (snd (queueAdmit_enter rq g))"
proof -
  let ?g1 = "snd (requestSeenLocked (rq_ClientRequestID rq) g)"
  have q: "quiet g ?g1" by simp
  have "quiet h ((reserveRequestLocked i (h\<lparr>g_waiters := ws\<rparr>))\<lparr>g_queue := qs\<rparr>)" for h i ws qs
    by (rule quiet_same) simp_all
  from quiet_trans [OF q this] show ?thesis
    using quiet_trans [OF q quiet_emit] q by (simp add: queueAdmit_enter_def Let_def split_beta)
qed

lemma quiet_turn [simp]: "quiet g (snd (queueAdmit_turn ctx a g))"
  by (auto simp: queueAdmit_turn_def Let_def quiet_queue_only split: option.split)

lemma turn_no_permit: "fst (queueAdmit_turn ctx a g) = Return r \<Longrightarrow> ad_Permit r = None"
  by (auto simp: queueAdmit_turn_def Let_def admission_result_def empty_result_def
      split: option.splits if_splits)

lemma quiet_abort [simp]: "quiet g (snd (queueAdmit_abort a rq res h g))"
  using quiet_trans [OF quiet_removeWaiter quiet_emit] by (simp add: queueAdmit_abort_def)

text \<open>Signals and waiter updates leave every field but the queue and the waiters alone.\<close>

lemma queue_only_fields:
  assumes "queue_only g g'"
  shows "g_config g' = g_config g"
    and "g_now g' = g_now g"
    and "g_telemetrySource g' = g_telemetrySource g"
    and "g_events g' = g_events g"
    and "g_closed g' = g_closed g"
    and "g_inFlight g' = g_inFlight g"
    and "g_currentTask g' = g_currentTask g"
    and "g_consecutiveTurns g' = g_consecutiveTurns g"
    and "g_lastStart g' = g_lastStart g"
    and "g_nextAttempt g' = g_nextAttempt g"
    and "g_ledger g' = g_ledger g"
    and "g_tasks g' = g_tasks g"
    and "g_requestIDs g' = g_requestIDs g"
    and "g_attemptIDs g' = g_attemptIDs g"
    and "g_completedRequestIDs g' = g_completedRequestIDs g"
    and "g_activeTaskID g' = g_activeTaskID g"
    and "g_circuit g' = g_circuit g"
    and "g_cooldownUntil g' = g_cooldownUntil g"
    and "g_telemetry g' = g_telemetry g"
    and "g_pendingEvents g' = g_pendingEvents g"
    and "g_drainingEvents g' = g_drainingEvents g"
  by (subst assms [unfolded queue_only_def]; simp)+

lemmas set_waiter_frame [simp, frame_simps] = queue_only_fields [OF queue_only_set_waiter]
lemmas signalLocked_frame [simp, frame_simps] = queue_only_fields [OF queue_only_signal]
lemmas signalAllLocked_frame [simp, frame_simps] = queue_only_fields [OF queue_only_signalAll]

lemma removeWaiterLocked_frame [simp, frame_simps]:
  "g_config (removeWaiterLocked a g) = g_config g" "g_now (removeWaiterLocked a g) = g_now g"
  "g_telemetrySource (removeWaiterLocked a g) = g_telemetrySource g"
  "g_events (removeWaiterLocked a g) = g_events g" "g_closed (removeWaiterLocked a g) = g_closed g"
  "g_inFlight (removeWaiterLocked a g) = g_inFlight g"
  "g_currentTask (removeWaiterLocked a g) = g_currentTask g"
  "g_consecutiveTurns (removeWaiterLocked a g) = g_consecutiveTurns g"
  "g_lastStart (removeWaiterLocked a g) = g_lastStart g"
  "g_nextAttempt (removeWaiterLocked a g) = g_nextAttempt g"
  "g_ledger (removeWaiterLocked a g) = g_ledger g" "g_tasks (removeWaiterLocked a g) = g_tasks g"
  "g_attemptIDs (removeWaiterLocked a g) = g_attemptIDs g"
  "g_completedRequestIDs (removeWaiterLocked a g) = g_completedRequestIDs g"
  "g_activeTaskID (removeWaiterLocked a g) = g_activeTaskID g"
  "g_circuit (removeWaiterLocked a g) = g_circuit g"
  "g_cooldownUntil (removeWaiterLocked a g) = g_cooldownUntil g"
  "g_telemetry (removeWaiterLocked a g) = g_telemetry g"
  "g_pendingEvents (removeWaiterLocked a g) = g_pendingEvents g"
  "g_drainingEvents (removeWaiterLocked a g) = g_drainingEvents g"
  by (simp_all add: removeWaiterLocked_def Let_def split: option.split)

lemma admissible_cong:
  assumes "g_config g' = g_config g" "g_inFlight g' = g_inFlight g" "g_telemetry g' = g_telemetry g"
    and "g_circuit g' = g_circuit g" "g_cooldownUntil g' = g_cooldownUntil g" "g_tasks g' = g_tasks g"
    and "g_ledger g' = g_ledger g" "g_lastStart g' = g_lastStart g"
  shows "admissible now rq g' = admissible now rq g"
  using assms
  by (simp add: admissible_def circuit_clear_def upstream_clear_def task_room_def usage_def task_of_def
      window_room_def paced_def remainingSignalApplies_def rollingBudgetsApply_def localNumericLayerApplies_def)

lemma quiet_delay_block: "quiet g h \<Longrightarrow> quiet g (snd (delayedLocked rq c u b h))"
  by (erule quiet_trans) simp

lemma queueAdmit_decide_cases:
  assumes "queueAdmit_decide ctx a obs now g = (tn, g')" "0 \<le> now" "now \<le> g_now g"
  shows "(\<forall>r. tn = Return r \<longrightarrow> ad_Permit r = None) \<and> quiet g g'
    \<or> (\<exists>r p. tn = Return r \<and> ad_Permit r = Some p \<and> grants g p g')"
proof (cases "waiter_of g a")
  case None
  then show ?thesis using assms(1) by (auto simp: queueAdmit_decide_def)
next
  case (Some w)
  obtain tel healthy where tel: "readTelemetry g obs = (tel, healthy)" by fastforce
  let ?g1 = "set_waiter a (\<lambda>w. w\<lparr>w_checking := False\<rparr>) g"
  let ?g2 = "case tel of None \<Rightarrow> ?g1 | Some s \<Rightarrow> applyTelemetryLocked s now ?g1"
  have q1: "quiet g ?g1" by (rule quiet_queue_only) simp
  then have q2: "quiet g ?g2" by (auto split: option.split)
  then have now: "now \<le> g_now ?g2" using assms(3) by (simp add: quiet_def)
  obtain ck g3 where ck: "checkLocked now (w_request w) ?g2 = (ck, g3)" by fastforce
  have q3: "quiet g g3"
    using quiet_trans [OF q2 quiet_checkLocked [of now ?g2 "w_request w"]] ck now by simp
  show ?thesis
  proof (cases "w_removed w \<or> cx_Err ctx \<noteq> None \<or> ck_code ck \<noteq> AdmissionNone")
    case True
    have "ad_Permit (contextResult ctx) = None"
      by (simp add: contextResult_def admission_result_def empty_result_def split: option.split)
    moreover have "ad_Permit (admission_result c1 c2 t cs) = None" for c1 c2 t cs
      by (simp add: admission_result_def empty_result_def)
    moreover have "quiet g (snd (queueAdmit_abort a rq r b ?g2))" "quiet g (snd (queueAdmit_abort a rq r b g3))"
      for rq r b using q2 q3 by (auto intro: quiet_trans [OF _ quiet_abort])
    ultimately show ?thesis
      using True assms(1) Some tel ck q1 quiet_delay_block [OF q3]
      by (auto simp: queueAdmit_decide_def Let_def queueAdmit_abort_def split: if_splits)
  next
    case False
    then have "fst (checkLocked now (w_request w) ?g2) = pass"
      using ck checkLocked_code [of now "w_request w" ?g2] by simp
    then have adm: "ceilings_ok (g_config g) \<longrightarrow> admissible now (w_request w) g3"
      using checkLocked_admissible(2) [OF q2 assms(2,3), of "w_request w"] ck by simp
    have "quiet g (removeWaiterLocked a g3)" using q3 quiet_removeWaiter by (rule quiet_trans)
    moreover have "ceilings_ok (g_config g) \<longrightarrow> admissible now (w_request w) (removeWaiterLocked a g3)"
      using adm admissible_cong [of "removeWaiterLocked a g3" g3] by simp
    ultimately obtain p where "ad_Permit (fst (grant_and_emit (w_request w) healthy (removeWaiterLocked a g3))) = Some p"
      "grants g p (snd (grant_and_emit (w_request w) healthy (removeWaiterLocked a g3)))"
      using grant_and_emit_grants [of g "removeWaiterLocked a g3" now "w_request w" healthy] assms(3) by blast
    moreover have "(tn, g') = (case grant_and_emit (w_request w) healthy (removeWaiterLocked a g3) of
        (r, g4) \<Rightarrow> (Return r, g4))"
      using False assms(1) Some tel ck by (simp add: queueAdmit_decide_def Let_def)
    ultimately show ?thesis by (auto split: prod.splits)
  qed
qed

end
