(* ===== verification/Governor_Debit.thy ===== *)
theory Governor_Debit
  imports Governor_Gates
begin

text \<open>
  The permit operations against the accounting they owe. A debit is one ledger entry and one
  attempt of the task; \<open>debits\<close> and \<open>releases\<close> state it up to quiet steps. Starting a plain
  permit debits once, at the start; a receipt-aware permit is debited when it finishes, once
  per receipt, and every irregular receipt set leaves the route marked unsafe.
\<close>

definition bump :: "string \<Rightarrow> bool \<Rightarrow> Governor \<Rightarrow> taskState" where
  "bump t retry g =
     (task_of g t)\<lparr>ts_attempts := ts_attempts (task_of g t) + 1,
       ts_retries := (if retry then ts_retries (task_of g t) + 1 else ts_retries (task_of g t))\<rparr>"

definition basic_debit :: "time \<Rightarrow> time \<Rightarrow> string \<Rightarrow> bool \<Rightarrow> Governor \<Rightarrow> Governor" where
  "basic_debit at ls t retry g =
     g\<lparr>g_lastStart := ls, g_ledger := ledger_add (g_ledger g) at t,
       g_tasks := map_put t (bump t retry g) (g_tasks g)\<rparr>"

definition debits :: "time \<Rightarrow> time \<Rightarrow> string \<Rightarrow> bool \<Rightarrow> Governor \<Rightarrow> Governor \<Rightarrow> bool" where
  "debits at ls t retry g g' \<longleftrightarrow> (\<exists>h. quiet g h \<and> quiet (basic_debit at ls t retry h) g')"

definition free_lane :: "Governor \<Rightarrow> Governor" where
  "free_lane g = g\<lparr>g_inFlight := False, g_activeTaskID := []\<rparr>"

definition releases :: "Governor \<Rightarrow> Governor \<Rightarrow> bool" where
  "releases g g' \<longleftrightarrow> (\<exists>h. quiet g h \<and> quiet (free_lane h) g')"

text \<open>What every way of completing a permit does, whatever it debits.\<close>

definition settles :: "Governor \<Rightarrow> Governor \<Rightarrow> bool" where
  "settles g g' \<longleftrightarrow>
     g_config g' = g_config g \<and> g_now g' = g_now g
     \<and> (ledger_wf (g_ledger g) \<longrightarrow> ledger_wf (g_ledger g'))
     \<and> (map_wf (g_tasks g) \<longrightarrow> map_wf (g_tasks g'))
     \<and> (t_unsafe (g_telemetry g) \<longrightarrow> t_unsafe (g_telemetry g'))"

section \<open>Basic facts\<close>

lemma basic_debit_fields [simp]:
  "g_config (basic_debit at ls t r g) = g_config g" "g_now (basic_debit at ls t r g) = g_now g"
  "g_inFlight (basic_debit at ls t r g) = g_inFlight g"
  "g_activeTaskID (basic_debit at ls t r g) = g_activeTaskID g"
  "g_telemetry (basic_debit at ls t r g) = g_telemetry g" "g_lastStart (basic_debit at ls t r g) = ls"
  "g_ledger (basic_debit at ls t r g) = ledger_add (g_ledger g) at t"
  "g_tasks (basic_debit at ls t r g) = map_put t (bump t r g) (g_tasks g)"
  by (simp_all add: basic_debit_def)

lemma basic_debit_lastStart:
  "(basic_debit at ls t r g)\<lparr>g_lastStart := x\<rparr> = basic_debit at x t r g"
  by (rule Governor.equality) (simp_all add: basic_debit_def)

lemma basic_debit_usage:
  "usage (basic_debit at ls t r g) u =
     (if u = t then (fst (usage g t) + 1, snd (usage g t) + (if r then 1 else 0)) else usage g u)"
  by (simp add: usage_def task_of_def basic_debit_def bump_def split: option.split)

lemma settles_refl [simp]: "settles g g" by (simp add: settles_def)

lemma settles_trans [trans]: "settles g h \<Longrightarrow> settles h k \<Longrightarrow> settles g k"
  by (simp add: settles_def)

lemma quiet_settles: "quiet g g' \<Longrightarrow> settles g g'"
  by (auto simp: quiet_def settles_def shrinks_def forgets_def)

lemma settles_free_lane [simp]: "settles g (free_lane g)"
  by (simp add: settles_def free_lane_def)

lemma settles_basic_debit [simp]: "settles g (basic_debit at ls t r g)"
  by (simp add: settles_def)

lemma releases_settles: "releases g g' \<Longrightarrow> settles g g' \<and> \<not> g_inFlight g'"
proof -
  assume "releases g g'"
  then obtain h where h: "quiet g h" "quiet (free_lane h) g'" by (auto simp: releases_def)
  then have "\<not> g_inFlight g'" by (simp add: quiet_def free_lane_def)
  moreover have "settles g g'"
    using settles_trans [OF settles_trans [OF quiet_settles [OF h(1)] settles_free_lane] quiet_settles [OF h(2)]] .
  ultimately show ?thesis by simp
qed

lemma quiet_lastStart: "quiet g h \<Longrightarrow> quiet (g\<lparr>g_lastStart := x\<rparr>) (h\<lparr>g_lastStart := x\<rparr>)"
  by (simp add: quiet_def forgets_def usage_def task_of_def)

lemma quiet_releases: "quiet g h \<Longrightarrow> quiet (free_lane h) g' \<Longrightarrow> releases g g'"
  by (auto simp: releases_def)

lemma quiet_release_lane: "quiet (free_lane g) (release_lane g)"
  unfolding release_lane_def free_lane_def by (rule quiet_queue_only) simp

lemma quiet_unsafe [simp]: "quiet g (g\<lparr>g_telemetry := (g_telemetry g)\<lparr>t_unsafe := True\<rparr>\<rparr>)"
  by (rule quiet_same) simp_all

lemma quiet_debit_remaining [simp]: "quiet g (debit_remaining g)"
  by (rule quiet_same) (simp_all add: debit_remaining_def split: option.split)

lemma quiet_take_turn [simp]: "quiet g (take_turn t g)"
  by (rule quiet_same) (simp_all add: take_turn_def)

text \<open>The tail every completion shares: complete the request, release the lane, snapshot the
  budgets and emit.\<close>

lemma release_tail:
  assumes "quiet g h" "now = g_now g"
  shows "releases g (queueEventLocked e (snd (budgetLocked now t (release_lane (completeRequestLocked i now h)))))"
proof -
  let ?k = "completeRequestLocked i now h"
  have "quiet g ?k" using assms(1) quiet_requests(3) by (rule quiet_trans)
  moreover have "quiet (free_lane ?k) (queueEventLocked e (snd (budgetLocked now t (release_lane ?k))))"
  proof (rule quiet_trans [OF quiet_release_lane], rule quiet_trans [OF _ quiet_queueEvent], rule quiet_budget)
    have "g_now h = g_now g" using assms(1) by (simp add: quiet_def)
    then show "now \<le> g_now (release_lane ?k)" using assms(2) by (simp add: release_lane_def)
  qed
  ultimately show ?thesis by (rule quiet_releases)
qed

section \<open>Start\<close>

lemma debit_task_usage:
  "g_tasks (debit_task t r g) = map_put t ((bump t r g)\<lparr>ts_lastTouched := g_now g\<rparr>)
      (map_put t ((task_of g t)\<lparr>ts_lastTouched := g_now g\<rparr>) (g_tasks g))"
  by (cases "task_of g t") (simp add: debit_task_def taskLocked_def task_store_def Let_def bump_def)

lemma debit_task_frame [simp]:
  "g_config (debit_task t r g) = g_config g" "g_now (debit_task t r g) = g_now g"
  "g_inFlight (debit_task t r g) = g_inFlight g" "g_activeTaskID (debit_task t r g) = g_activeTaskID g"
  "g_telemetry (debit_task t r g) = g_telemetry g" "g_ledger (debit_task t r g) = g_ledger g"
  "g_lastStart (debit_task t r g) = g_lastStart g"
  by (simp_all add: debit_task_def Let_def split_beta)

lemma quiet_debit_task:
  assumes "g_config g' = g_config g" "g_now g' = g_now g" "g_inFlight g' = g_inFlight g"
    and "g_activeTaskID g' = g_activeTaskID g" "g_lastStart g' = ls"
    and "t_unsafe (g_telemetry g) \<longrightarrow> t_unsafe (g_telemetry g')"
    and "g_ledger g' = ledger_add (g_ledger g) at t" "g_tasks g' = g_tasks (debit_task t r g)"
  shows "quiet (basic_debit at ls t r g) g'"
proof -
  have "usage g' u = usage (basic_debit at ls t r g) u" for u
    using assms(8) by (simp add: usage_map_get debit_task_usage bump_def)
  then have "forgets (basic_debit at ls t r g) g'"
    using assms(8) by (simp add: forgets_def debit_task_usage update_keys)
  then show ?thesis using assms by (simp add: quiet_def)
qed

lemma permit_start_cases:
  assumes "permit_start ra p g = (err, p', g')"
  shows "err \<noteq> None \<and> p' = p \<and> g' = g
    \<or> err = None \<and> \<not> pm_completed p \<and> \<not> pm_started p \<and> g_inFlight g
      \<and> p' = p\<lparr>pm_started := True, pm_receiptAware := ra, pm_startedAt := g_now g,
               pm_attemptSequence := g_nextAttempt g\<rparr>
      \<and> (if ra then quiet g g'
         else debits (g_now g) (g_now g) (rq_TaskID (pm_request p)) (rq_Retry (pm_request p)) g g')"
proof (cases "pm_completed p \<or> pm_started p \<or> \<not> g_inFlight g")
  case True
  then show ?thesis using assms by (auto simp: permit_start_def split: if_splits)
next
  case False
  let ?t = "rq_TaskID (pm_request p)"
  let ?p = "p\<lparr>pm_started := True, pm_receiptAware := ra, pm_startedAt := g_now g,
               pm_attemptSequence := g_nextAttempt g\<rparr>"
  define g1 where "g1 = snd (budgetLocked (g_now g) ?t g)"
  define g2 where "g2 = markRequestActiveLocked (rq_ClientRequestID (pm_request p)) (g1\<lparr>g_nextAttempt := g_nextAttempt g1 + 1\<rparr>)"
  have "quiet g g1" by (simp add: g1_def)
  also have "quiet g1 g2"
    unfolding g2_def by (rule quiet_trans [OF _ quiet_requests(2)]) (rule quiet_same; simp)
  also have "quiet g2 (take_turn ?t g2)" by simp
  finally have q: "quiet g (take_turn ?t g2)" .
  have now: "g_now g2 = g_now g" and na: "g_nextAttempt g1 = g_nextAttempt g" by (simp_all add: g2_def g1_def)
  show ?thesis
  proof (cases ra)
    case True
    have "(err, p', g') = (None, ?p, take_turn ?t g2)"
      using False True assms na unfolding permit_start_def g2_def g1_def
      by (simp only: Let_def split_beta if_False if_True fst_conv snd_conv de_Morgan_disj not_not not_True_eq_False)
    with False True q show ?thesis by simp
  next
    case nra: False
    define g4 where "g4 = take_turn ?t (g2\<lparr>g_lastStart := g_now g\<rparr>)"
    define g5 where "g5 = debit_task ?t (rq_Retry (pm_request p)) g4"
    define g6 where "g6 = debit_remaining (g5\<lparr>g_ledger := ledger_add (g_ledger g5) (g_now g) ?t\<rparr>)"
    have "\<exists>e. (err, p', g') = (None, ?p, queueEventLocked e (snd (budgetLocked (g_now g) ?t g6)))"
      using False nra assms na unfolding permit_start_def g6_def g5_def g4_def g2_def g1_def
      by (simp only: Let_def split_beta if_False if_True fst_conv snd_conv de_Morgan_disj not_not not_True_eq_False) blast
    then obtain e where g': "err = None" "p' = ?p" "g' = queueEventLocked e (snd (budgetLocked (g_now g) ?t g6))"
      by blast
    let ?h = "take_turn ?t g2"
    have "quiet (basic_debit (g_now g) (g_now g) ?t (rq_Retry (pm_request p)) ?h)
        (g5\<lparr>g_ledger := ledger_add (g_ledger g5) (g_now g) ?t\<rparr>)"
      by (rule quiet_debit_task)
        (simp_all add: g5_def g4_def take_turn_def debit_task_usage bump_def task_of_def)
    also have "quiet (g5\<lparr>g_ledger := ledger_add (g_ledger g5) (g_now g) ?t\<rparr>) g6"
      unfolding g6_def by simp
    also have "quiet g6 (snd (budgetLocked (g_now g) ?t g6))"
    proof (rule quiet_budget)
      have "g_now g6 = g_now g2"
        by (simp add: g6_def g5_def g4_def debit_remaining_def take_turn_def split: option.split)
      then show "g_now g \<le> g_now g6" using now by simp
    qed
    also have "quiet (snd (budgetLocked (g_now g) ?t g6)) g'" unfolding g'(3) by simp
    finally have "debits (g_now g) (g_now g) ?t (rq_Retry (pm_request p)) g g'"
      using q unfolding debits_def by blast
    with g'(1,2) False nra show ?thesis by simp
  qed
qed

section \<open>Cancellation and plain finish\<close>

lemma CancelBeforeStart_cases:
  assumes "CancelBeforeStart p g = (err, p', g')"
  shows "err \<noteq> None \<and> p' = p \<and> g' = g
    \<or> err = None \<and> \<not> pm_completed p \<and> \<not> pm_started p \<and> p' = p\<lparr>pm_completed := True\<rparr> \<and> releases g g'"
proof (cases "pm_completed p \<or> pm_started p")
  case True
  then show ?thesis using assms by (auto simp: CancelBeforeStart_def split: if_splits)
next
  case False
  define h where "h = releaseRequestLocked (rq_ClientRequestID (pm_request p)) g"
  have "quiet g h" by (simp add: h_def)
  moreover have "quiet (free_lane h) (signalAllLocked (emitAdmissionLocked rq r b (free_lane h)))" for rq r b
    by (rule quiet_trans [OF quiet_emit quiet_queue_only], rule queue_only_signalAll)
  ultimately show ?thesis
    using False assms
    by (auto simp: CancelBeforeStart_def Let_def free_lane_def h_def [symmetric] intro: quiet_releases)
qed

lemma CancelAfterStart_cases:
  assumes "CancelAfterStart p g = (r, p', g')"
  shows "fr_Err r \<noteq> None \<and> p' = p \<and> g' = g
    \<or> fr_Err r = None \<and> \<not> pm_completed p \<and> pm_started p \<and> p' = p\<lparr>pm_completed := True\<rparr> \<and> releases g g'"
proof (cases "pm_completed p \<or> \<not> pm_started p")
  case True
  then show ?thesis using assms by (auto simp: CancelAfterStart_def finish_error_def split: if_splits)
next
  case False
  define h where "h = completeRequestLocked (rq_ClientRequestID (pm_request p)) (g_now g) g"
  have "quiet g h" by (simp add: h_def)
  moreover have "quiet (free_lane h) (queueEventLocked e (release_lane h))" for e
    by (rule quiet_trans [OF quiet_release_lane quiet_queueEvent])
  ultimately show ?thesis
    using False assms
    by (auto simp: CancelAfterStart_def Let_def h_def [symmetric] intro: quiet_releases)
qed

lemma Permit_Finish_cases:
  assumes "Permit_Finish j oc p g = (r, p', g')"
  shows "fr_Err r \<noteq> None \<and> p' = p \<and> g' = g
    \<or> fr_Err r = None \<and> \<not> pm_completed p \<and> pm_started p \<and> \<not> pm_receiptAware p
      \<and> p' = p\<lparr>pm_completed := True\<rparr> \<and> releases g g'"
proof (cases "pm_completed p \<or> \<not> pm_started p \<or> pm_receiptAware p")
  case True
  then show ?thesis using assms by (auto simp: Permit_Finish_def finish_error_def split: if_splits)
next
  case False
  let ?t = "rq_TaskID (pm_request p)"
  define g1 where "g1 = snd (budgetLocked (g_now g) ?t g)"
  define res where "res = recordOutcomeLocked j (g_now g) ?t oc g1"
  have "quiet g g1" by (simp add: g1_def)
  also have "quiet g1 (snd res)" by (simp add: res_def g1_def)
  finally have "quiet g (snd res)" .
  note tail = release_tail [OF this refl]
  have "fr_Err (fst res) = None" by (simp add: res_def recordOutcomeLocked_def Let_def split_beta)
  with False assms tail show ?thesis
    by (auto simp: Permit_Finish_def Let_def split_beta g1_def [symmetric] res_def [symmetric])
qed

section \<open>Receipts\<close>

lemma debit_receipt_step:
  "\<exists>at. quiet (basic_debit at (g_lastStart g) (rq_TaskID (pm_request p))
        (1 < ar_Sequence r \<or> rq_Retry (pm_request p)) g) (debit_receipt p now r g)
     \<and> at = normalizeReceiptProtectionTime (ar_StartedAt r) (pm_startedAt p) now"
proof -
  let ?t = "rq_TaskID (pm_request p)"
  let ?at = "normalizeReceiptProtectionTime (ar_StartedAt r) (pm_startedAt p) now"
  let ?retry = "1 < ar_Sequence r \<or> rq_Retry (pm_request p)"
  define b where "b = basic_debit ?at (g_lastStart g) ?t ?retry g"
  define g1 where "g1 = task_store ?t ((task_of g ?t)\<lparr>ts_attempts := ts_attempts (task_of g ?t) + 1,
      ts_retries := (if ?retry then ts_retries (task_of g ?t) + 1 else ts_retries (task_of g ?t))\<rparr>)
      (g\<lparr>g_ledger := ledger_add (g_ledger g) ?at ?t\<rparr>)"
  define g2 where "g2 = (if 1 < ar_Sequence r then g1\<lparr>g_nextAttempt := g_nextAttempt g1 + 1\<rparr> else g1)"
  have "g1 = b" by (simp add: g1_def b_def basic_debit_def task_store_def bump_def)
  then have "quiet b g2" by (simp add: g2_def) (rule impI, rule quiet_same; simp)
  also have "quiet g2 (debit_remaining g2)" by simp
  finally have "quiet b (debit_remaining g2)" .
  moreover have "\<exists>e. debit_receipt p now r g = queueEventLocked e (debit_remaining g2)"
    unfolding debit_receipt_def g2_def g1_def Let_def by blast
  ultimately have "quiet b (debit_receipt p now r g)" by (metis quiet_trans quiet_queueEvent)
  then show ?thesis unfolding b_def by blast
qed

lemma settles_debit_receipt: "settles g (debit_receipt p now r g)"
  using debit_receipt_step [of g p r now] settles_trans [OF settles_basic_debit quiet_settles] by blast

lemma settles_fold: "(\<And>x h. settles h (f x h)) \<Longrightarrow> settles g (fold f xs g)"
  by (induction xs arbitrary: g) (auto intro: settles_trans)

lemma quiet_record_receipts:
  "now = g_now g \<Longrightarrow>
   quiet g (snd (snd (snd (record_receipts j now t oc rs (res, b, a, g)))))"
proof (induction rs arbitrary: res b a g)
  case (Cons r rs)
  define v where "v = (if rs = [] \<and> oc_Class oc \<noteq> OutcomeEmpty \<and> oc_Class oc \<noteq> OutcomeSuccess
      \<and> oc_Class oc = oc_Class (receipt_outcome_value r)
    then (receipt_outcome_value r)\<lparr>oc_RetryAfter := oc_RetryAfter oc, oc_ResetAt := oc_ResetAt oc\<rparr>
    else receipt_outcome_value r)"
  have q: "quiet g (snd (recordOutcomeLocked j now t v g))" using Cons.prems by simp
  then have now: "now = g_now (snd (recordOutcomeLocked j now t v g))" using Cons.prems by simp
  from quiet_trans [OF q Cons.IH [OF now]] show ?case
    by (simp add: Let_def split_beta v_def [symmetric])
qed simp

lemma unsafe_tail:
  assumes "quiet g' h'" "t_unsafe (g_telemetry g')"
  shows "t_unsafe (g_telemetry h')"
  using assms by (simp add: quiet_def)

text \<open>A rejected or missing receipt set: the permit is closed, the lane is free, and the route is
  marked unsafe.\<close>

lemma finishReceiptFailure_cases:
  assumes "finishReceiptFailureLocked e deb ds p g = (r, p', g')"
  shows "fr_Err r = Some e \<and> p' = p\<lparr>pm_completed := True\<rparr> \<and> settles g g' \<and> \<not> g_inFlight g'
    \<and> t_unsafe (g_telemetry g')"
proof -
  let ?t = "rq_TaskID (pm_request p)"
  define g1 where "g1 = g\<lparr>g_telemetry := (g_telemetry g)\<lparr>t_unsafe := True\<rparr>\<rparr>"
  define g2 where "g2 = snd (budgetLocked (g_now g) ?t g1)"
  define at where "at = (if is_zero (pm_startedAt p) then g_now g else pm_startedAt p)"
  define h1 where "h1 = debit_task ?t (rq_Retry (pm_request p)) g2"
  define h2 where "h2 = debit_remaining (h1\<lparr>g_ledger := ledger_add (g_ledger h1) at ?t\<rparr>)"
  define h3 where "h3 = h2\<lparr>g_lastStart := at\<rparr>"
  define ev where "ev = (permit_event EventUncertainAttempt p h3)
    \<lparr>ev_Outcome := OutcomeUncertainReached, ev_UpstreamReached := True, ev_DeliveryState := ds\<rparr>"
  define g3 where "g3 = (if deb then queueEventLocked ev h3 else g2)"
  have q12: "quiet g g1" "quiet g1 g2" by (simp_all add: g1_def g2_def)
  have "t_unsafe (g_telemetry g2)" using unsafe_tail [OF q12(2)] by (simp add: g1_def)
  moreover have now2: "g_now g2 = g_now g" by (simp add: g2_def g1_def)
  moreover have "quiet (basic_debit at at ?t (rq_Retry (pm_request p)) g2) h3"
    by (rule quiet_debit_task)
      (simp_all add: h3_def h2_def h1_def debit_remaining_def split: option.split)
  then have "settles g2 h3" "t_unsafe (g_telemetry g2) \<Longrightarrow> t_unsafe (g_telemetry h3)"
    using settles_trans [OF settles_basic_debit quiet_settles] unsafe_tail by fastforce+
  ultimately have g3: "settles g2 g3" "t_unsafe (g_telemetry g3)" "g_now g3 = g_now g"
    using settles_trans [OF _ quiet_settles [OF quiet_queueEvent], of g2 h3 ev]
    by (auto simp: g3_def settles_def)
  have "\<exists>e'. r = \<lparr>fr_Outcome = OutcomeUncertainReached, fr_RetryEligible = False, fr_SelectedBackoff = 0,
        fr_AttemptDebited = (if deb then 1 else 0), fr_Circuit = Some (circuitSnapshotLocked g2),
        fr_DeliveryState = ds, fr_Err = Some e\<rparr> \<and> p' = p\<lparr>pm_completed := True\<rparr>
      \<and> g' = queueEventLocked e' (snd (budgetLocked (g_now g) ?t
          (release_lane (completeRequestLocked (rq_ClientRequestID (pm_request p)) (g_now g) g3))))"
    using assms unfolding finishReceiptFailureLocked_def g3_def ev_def h3_def h2_def h1_def at_def g2_def g1_def
    by (simp only: Let_def split_beta prod.inject) blast
  then obtain e' where r: "fr_Err r = Some e" "p' = p\<lparr>pm_completed := True\<rparr>"
    and g': "g' = queueEventLocked e' (snd (budgetLocked (g_now g) ?t
          (release_lane (completeRequestLocked (rq_ClientRequestID (pm_request p)) (g_now g) g3))))"
    by auto
  have "releases g3 g'" unfolding g' by (rule release_tail) (simp_all add: g3)
  note rel = releases_settles [OF this]
  have "settles g g'"
    using settles_trans [OF settles_trans [OF quiet_settles [OF quiet_trans [OF q12]] g3(1)]] rel by blast
  with rel r g3(2) show ?thesis by (auto simp: settles_def)
qed

lemma quiet_record_classified:
  "now = g_now g \<Longrightarrow> quiet g (snd (snd (record_classified j now t oc lc rc b g)))"
  by (simp add: record_classified_def split_beta split: option.split)

lemma apply_policy_quiet: "quiet g (snd (apply_policy pe res g))"
  by (simp add: apply_policy_def Let_def split: option.split)

lemma apply_policy_unsafe: "pe \<noteq> None \<Longrightarrow> t_unsafe (g_telemetry (snd (apply_policy pe res g)))"
  by (auto simp: apply_policy_def Let_def)

text \<open>The shape of a settlement: quiet steps, the debits, quiet steps, the policy, the last start,
  the release.\<close>

lemma settle_receipts_shape:
  assumes "settle_receipts j oc rset pe news p g = (r, p', g')"
  obtains g2 g5 res e where "quiet g g2"
    and "quiet (fold (debit_receipt p (g_now g)) news g2) g5"
    and "r = fst (apply_policy pe res g5)" "p' = p\<lparr>pm_completed := True\<rparr>"
    and "\<exists>g6. g6 = snd (apply_policy pe res g5) \<and>
      g' = queueEventLocked e (snd (budgetLocked (g_now g) (rq_TaskID (pm_request p))
        (release_lane (completeRequestLocked (rq_ClientRequestID (pm_request p)) (g_now g)
          (if g_lastStart g6 < latest_start p (g_now g) news
           then g6\<lparr>g_lastStart := latest_start p (g_now g) news\<rparr> else g6)))))"
proof -
  let ?t = "rq_TaskID (pm_request p)"
  define g1 where "g1 = snd (budgetLocked (g_now g) ?t g)"
  define g2 where "g2 = snd (taskLocked ?t g1)"
  define g3 where "g3 = fold (debit_receipt p (g_now g)) news g2"
  define oc' where "oc' = (if oc_Class oc = OutcomeCancelledBeforeUpstream
      \<and> effectiveDeliveryState (oc_DeliveryState oc) \<noteq> DeliveryNotSent
    then oc\<lparr>oc_Class := OutcomeUncertainReached\<rparr> else oc)"
  define rr where "rr = record_receipts j (g_now g) ?t oc' news
    (None, 0, (if oc_Class oc' = OutcomeEmpty then OutcomeSuccess else oc_Class oc'), g3)"
  define rc where "rc = record_classified j (g_now g) ?t oc' (oc_Class (receipt_outcome_value (last news)))
    (fst rr) (fst (snd rr)) (snd (snd (snd rr)))"
  define g5 where "g5 = snd (snd rc)"
  define res where "res = receipt_result ?t (oc_DeliveryState oc')
    (if ContainsUncertain rset then strongerOutcome (fst (snd (snd rr))) OutcomeUncertainReached
     else fst (snd (snd rr))) (length news) (fst (snd rc)) (fst rc) g5"
  have "quiet g g1" by (simp add: g1_def)
  also have "quiet g1 g2" by (simp add: g2_def)
  finally have q2: "quiet g g2" .
  have "settles g2 g3" unfolding g3_def by (rule settles_fold) (rule settles_debit_receipt)
  then have now3: "g_now g3 = g_now g" using q2 by (simp add: settles_def quiet_def)
  then have q4: "quiet g3 (snd (snd (snd rr)))" unfolding rr_def by (intro quiet_record_receipts) simp
  then have now4: "g_now g = g_now (snd (snd (snd rr)))" using now3 by (simp add: quiet_def)
  have q5: "quiet g3 g5"
    unfolding g5_def rc_def by (rule quiet_trans [OF q4 quiet_record_classified]) (rule now4)
  let ?g6 = "snd (apply_policy pe res g5)"
  have "\<exists>e. settle_receipts j oc rset pe news p g = (fst (apply_policy pe res g5), p\<lparr>pm_completed := True\<rparr>,
      queueEventLocked e (snd (budgetLocked (g_now g) ?t
        (release_lane (completeRequestLocked (rq_ClientRequestID (pm_request p)) (g_now g)
          (if g_lastStart ?g6 < latest_start p (g_now g) news
           then ?g6\<lparr>g_lastStart := latest_start p (g_now g) news\<rparr> else ?g6))))))"
    unfolding settle_receipts_def res_def g5_def rc_def rr_def oc'_def g3_def g2_def g1_def
    by (simp only: Let_def split_beta prod.inject fst_conv snd_conv) blast
  with assms that [OF q2 q5 [unfolded g3_def]] show thesis by auto
qed

lemma settle_receipts_settles:
  assumes "settle_receipts j oc rset pe news p g = (r, p', g')"
  shows "p' = p\<lparr>pm_completed := True\<rparr>" and "settles g g'" and "\<not> g_inFlight g'"
    and "pe \<noteq> None \<Longrightarrow> t_unsafe (g_telemetry g')"
proof -
  from assms obtain g2 g5 res e where q: "quiet g g2" "quiet (fold (debit_receipt p (g_now g)) news g2) g5"
    and p': "p' = p\<lparr>pm_completed := True\<rparr>"
    and ex: "\<exists>g6. g6 = snd (apply_policy pe res g5) \<and>
      g' = queueEventLocked e (snd (budgetLocked (g_now g) (rq_TaskID (pm_request p))
        (release_lane (completeRequestLocked (rq_ClientRequestID (pm_request p)) (g_now g)
          (if g_lastStart g6 < latest_start p (g_now g) news
           then g6\<lparr>g_lastStart := latest_start p (g_now g) news\<rparr> else g6)))))"
    by (rule settle_receipts_shape) blast
  define g6 where "g6 = snd (apply_policy pe res g5)"
  define g7 where "g7 = (if g_lastStart g6 < latest_start p (g_now g) news
           then g6\<lparr>g_lastStart := latest_start p (g_now g) news\<rparr> else g6)"
  have "settles g2 (fold (debit_receipt p (g_now g)) news g2)" by (rule settles_fold) (rule settles_debit_receipt)
  then have s6: "settles g g6"
    using quiet_settles [OF q(1)] quiet_settles [OF quiet_trans [OF q(2) apply_policy_quiet [of g5 pe res]]]
    unfolding g6_def by (metis settles_trans)
  also have s7: "settles g6 g7" by (simp add: g7_def settles_def)
  finally have s: "settles g g7" .
  have g': "g' = queueEventLocked e (snd (budgetLocked (g_now g) (rq_TaskID (pm_request p))
        (release_lane (completeRequestLocked (rq_ClientRequestID (pm_request p)) (g_now g) g7))))"
    using ex unfolding g7_def g6_def by blast
  have "releases g7 g'" unfolding g' using s by (intro release_tail) (simp_all add: settles_def)
  note rel = releases_settles [OF this]
  show "p' = p\<lparr>pm_completed := True\<rparr>" by (fact p')
  show "settles g g'" using settles_trans [OF s] rel by blast
  show "\<not> g_inFlight g'" using rel by blast
  assume "pe \<noteq> None"
  then have "t_unsafe (g_telemetry g6)" unfolding g6_def by (rule apply_policy_unsafe)
  then show "t_unsafe (g_telemetry g')" using s7 rel by (simp add: settles_def)
qed

text \<open>A regular settlement has one receipt: one debit and the release.\<close>

lemma settle_single:
  assumes "settle_receipts j oc rset None [rc] p g = (r, p', g')" "ar_Sequence rc = 1"
    and "pm_startedAt p \<le> g_now g" "0 < pm_startedAt p" "g_lastStart g \<le> pm_startedAt p"
  obtains at h where "pm_startedAt p \<le> at" "at \<le> g_now g"
    and "debits at at (rq_TaskID (pm_request p)) (rq_Retry (pm_request p)) g h" "releases h g'"
proof -
  let ?t = "rq_TaskID (pm_request p)" and ?re = "rq_Retry (pm_request p)"
  let ?at = "normalizeReceiptProtectionTime (ar_StartedAt rc) (pm_startedAt p) (g_now g)"
  from assms(1) obtain g2 g5 res e where q: "quiet g g2" "quiet (fold (debit_receipt p (g_now g)) [rc] g2) g5"
    and ex: "\<exists>g6. g6 = snd (apply_policy None res g5) \<and>
      g' = queueEventLocked e (snd (budgetLocked (g_now g) ?t
        (release_lane (completeRequestLocked (rq_ClientRequestID (pm_request p)) (g_now g)
          (if g_lastStart g6 < latest_start p (g_now g) [rc]
           then g6\<lparr>g_lastStart := latest_start p (g_now g) [rc]\<rparr> else g6)))))"
    by (rule settle_receipts_shape) blast
  have at: "pm_startedAt p \<le> ?at" "?at \<le> g_now g"
    using assms(3) by (auto simp: normalizeReceiptProtectionTime_def)
  then have latest: "latest_start p (g_now g) [rc] = ?at" using assms(4) by (simp add: latest_start_def Let_def)
  have "quiet (basic_debit ?at (g_lastStart g2) ?t ?re g2) (debit_receipt p (g_now g) rc g2)"
    using debit_receipt_step [of g2 p rc "g_now g"] assms(2) by simp
  then have q5: "quiet (basic_debit ?at (g_lastStart g2) ?t ?re g2) g5" using q(2) by (simp add: quiet_trans)
  then have ls5: "g_lastStart g5 = g_lastStart g" using q(1) by (simp add: quiet_def)
  let ?h = "g5\<lparr>g_lastStart := ?at\<rparr>"
  have "quiet ((basic_debit ?at (g_lastStart g2) ?t ?re g2)\<lparr>g_lastStart := ?at\<rparr>) ?h"
    using q5 by (rule quiet_lastStart)
  then have "quiet (basic_debit ?at ?at ?t ?re g2) ?h" unfolding basic_debit_lastStart .
  with q(1) have deb: "debits ?at ?at ?t ?re g ?h" by (auto simp: debits_def)
  have g7: "(if g_lastStart g5 < ?at then ?h else g5) = ?h"
    using ls5 assms(5) at(1) by (cases "g_lastStart g5 < ?at") simp_all
  have "g_now ?h = g_now g" using q5 q(1) by (simp add: quiet_def)
  then have "releases ?h g'"
    using ex g7 latest release_tail [of ?h ?h "g_now g"] by (auto simp: apply_policy_def)
  with at deb show thesis by (rule that)
qed

lemma news_single:
  assumes "ValidateAttemptReceiptSet marshal year rs ex = None" "length (as_Receipts rs) \<le> 1"
    and "\<not> length (new_receipts seen (as_Receipts rs)) < length (as_Receipts rs)"
  obtains rc where "new_receipts seen (as_Receipts rs) = [rc]" "ar_Sequence rc = 1"
proof -
  from ValidateAttemptReceiptSet_ok(2) [OF assms(1)] assms(2) obtain rc where rc: "as_Receipts rs = [rc]"
    by (cases "as_Receipts rs") auto
  moreover have "ar_Sequence rc = 1"
    using ValidateAttemptReceiptSet_receipts(1) [OF assms(1)] rc by (simp add: receipt_ok_def)
  moreover have "new_receipts seen (as_Receipts rs) = [rc]"
    using assms(3) rc by (simp add: new_receipts_def split: if_splits)
  ultimately show thesis using that by blast
qed

text \<open>Finishing with receipts an open receipt-aware permit: it is always completed and the lane
  freed; the set was irregular and the route is unsafe, or one receipt is settled.\<close>

lemma FinishWithAttemptReceipts_shape:
  assumes fin: "FinishWithAttemptReceipts marshal year j oc rset p g = (r, p', g')"
    and open_permit: "\<not> pm_completed p" "pm_started p" "pm_receiptAware p"
  shows "p' = p\<lparr>pm_completed := True\<rparr> \<and> settles g g' \<and> \<not> g_inFlight g'
    \<and> (t_unsafe (g_telemetry g')
       \<or> (\<exists>rs g2 rc. quiet g g2 \<and> ar_Sequence rc = 1
            \<and> settle_receipts j oc rs None [rc] p g2 = (r, p', g')))"
proof -
  define ex where "ex = receipt_expectation p g"
  show ?thesis
  proof (cases "\<exists>rs. rset = Some rs \<and> ValidateAttemptReceiptSet marshal year rs ex = None")
    case False
    then obtain e where "finishReceiptFailureLocked e True (oc_DeliveryState oc) p g = (r, p', g')"
      using fin open_permit
      by (auto simp: FinishWithAttemptReceipts_def Let_def ex_def split: option.splits)
    from finishReceiptFailure_cases [OF this] show ?thesis by simp
  next
    case True
    then obtain rs where rs: "rset = Some rs" and val: "ValidateAttemptReceiptSet marshal year rs ex = None" by blast
    define g1 where "g1 = pruneAttemptIDsLocked (g_now g) g"
    define news where "news = new_receipts (g_attemptIDs g1) (as_Receipts rs)"
    define g2 where "g2 = g1\<lparr>g_attemptIDs := fold (\<lambda>r m. map_put (ar_AttemptID r) (g_now g) m) news (g_attemptIDs g1)\<rparr>"
    define pe1 where "pe1 = (if 1 < length (as_Receipts rs)
      then map_option ErrAttemptReceipt (ValidateAttemptReceiptSet marshal year rs (ex\<lparr>ae_SingleAttempt := True\<rparr>))
      else None)"
    define pe where "pe = (if pe1 = None \<and> length news < length (as_Receipts rs)
      then Some ErrAttemptReceiptReplayed else pe1)"
    have q: "quiet g g2" unfolding g2_def g1_def by (rule quiet_trans [OF quiet_requests(5)]) (rule quiet_same; simp)
    have fin': "(r, p', g') = (if news = []
        then finishReceiptFailureLocked (case pe of Some e \<Rightarrow> e | None \<Rightarrow> ErrAttemptReceiptReplayed) False
               (oc_DeliveryState oc) p g2
        else settle_receipts j oc rs pe news p g2)"
      using fin open_permit val
      unfolding FinishWithAttemptReceipts_def rs pe_def pe1_def g2_def news_def g1_def ex_def
      by (simp only: Let_def if_False option.simps not_not if_not_P if_True not_True_eq_False)
    show ?thesis
    proof (cases "news = []")
      case True
      with fin' have "finishReceiptFailureLocked (case pe of Some e \<Rightarrow> e | None \<Rightarrow> ErrAttemptReceiptReplayed)
          False (oc_DeliveryState oc) p g2 = (r, p', g')" by simp
      from finishReceiptFailure_cases [OF this] settles_trans [OF quiet_settles [OF q]] show ?thesis by blast
    next
      case False
      with fin' have set: "settle_receipts j oc rs pe news p g2 = (r, p', g')" by simp
      note base = settle_receipts_settles [OF set]
      have "\<exists>rc. ar_Sequence rc = 1 \<and> settle_receipts j oc rs None [rc] p g2 = (r, p', g')" if None: "pe = None"
      proof -
        have nrep: "\<not> length news < length (as_Receipts rs)" and one: "pe1 = None"
          using None by (auto simp: pe_def split: if_splits)
        have len: "length (as_Receipts rs) \<le> 1"
          using one ValidateAttemptReceiptSet_ok(5) [of marshal year rs "ex\<lparr>ae_SingleAttempt := True\<rparr>"]
          by (auto simp: pe1_def split: if_splits)
        obtain rc where "news = [rc]" "ar_Sequence rc = 1"
          using news_single [OF val len] nrep unfolding news_def by blast
        with set None show ?thesis by auto
      qed
      with base q settles_trans [OF quiet_settles [OF q]] show ?thesis by (cases "pe = None") blast+
    qed
  qed
qed

text \<open>When the start is on record and not before the last one, the regular case is exactly one
  debit at an instant between start and now, and the release.\<close>

lemma FinishWithAttemptReceipts_debit:
  assumes fin: "FinishWithAttemptReceipts marshal year j oc rset p g = (r, p', g')"
    and open_permit: "\<not> pm_completed p" "pm_started p" "pm_receiptAware p"
    and start: "pm_startedAt p \<le> g_now g" "0 < pm_startedAt p" "g_lastStart g \<le> pm_startedAt p"
  shows "t_unsafe (g_telemetry g')
    \<or> (\<exists>at h. pm_startedAt p \<le> at \<and> at \<le> g_now g
         \<and> debits at at (rq_TaskID (pm_request p)) (rq_Retry (pm_request p)) g h \<and> releases h g')"
proof (cases "t_unsafe (g_telemetry g')")
  case False
  then obtain rs g2 rc where q: "quiet g g2" and sq: "ar_Sequence rc = 1"
    and set: "settle_receipts j oc rs None [rc] p g2 = (r, p', g')"
    using FinishWithAttemptReceipts_shape [OF fin open_permit] by blast
  from q have core: "g_now g2 = g_now g" "g_lastStart g2 = g_lastStart g" by (simp_all add: quiet_def)
  with settle_single [OF set sq] start obtain at h where at: "pm_startedAt p \<le> at" "at \<le> g_now g"
    and d: "debits at at (rq_TaskID (pm_request p)) (rq_Retry (pm_request p)) g2 h" and rel: "releases h g'"
    by metis
  have "debits at at (rq_TaskID (pm_request p)) (rq_Retry (pm_request p)) g h"
    using d q quiet_trans unfolding debits_def by blast
  with at rel show ?thesis by blast
qed simp

end
