(* ===== verification/Governor_Limits.thy ===== *)
theory Governor_Limits
  imports Governor_Debit
begin

text \<open>
  The protection limits as predicates of a governor: configuration and representation facts
  that always hold (\<open>base_ok\<close>), the account limits (\<open>within\<close>) and what is reserved for a permit
  that has not been debited yet (\<open>room\<close>). Quiet steps, debits, releases and the clock keep them.
\<close>

definition config_ok :: "Config \<Rightarrow> bool" where
  "config_ok c \<longleftrightarrow> Config_Validate c = None \<and> EffectiveAllowanceKind c = cfg_AllowanceKind c"

definition base_ok :: "Governor \<Rightarrow> bool" where
  "base_ok g \<longleftrightarrow>
     config_ok (g_config g) \<and> 0 < g_now g \<and> ledger_wf (g_ledger g) \<and> map_wf (g_tasks g)"

definition spaced :: "duration \<Rightarrow> ledgerEvent list \<Rightarrow> bool" where
  "spaced interval es \<longleftrightarrow> sorted_wrt (\<lambda>a b. le_at a + interval \<le> le_at b) es"

definition windows_within :: "Governor \<Rightarrow> bool" where
  "windows_within g \<longleftrightarrow>
     ledger_count (g_ledger g) (g_now g) (3 * Hour) \<le> cfg_Rolling3h (g_config g)
     \<and> ledger_count (g_ledger g) (g_now g) Hour \<le> cfg_Rolling1h (g_config g)
     \<and> ledger_count (g_ledger g) (g_now g) (10 * Minute) \<le> cfg_Rolling10m (g_config g)"

definition tasks_within :: "Governor \<Rightarrow> bool" where
  "tasks_within g \<longleftrightarrow>
     (\<forall>t. fst (usage g t) \<le> cfg_TaskBudget (g_config g) \<and> snd (usage g t) \<le> cfg_RetryBudget (g_config g))"

definition within :: "Governor \<Rightarrow> bool" where
  "within g \<longleftrightarrow>
     (\<forall>e \<in> set (live (g_ledger g)). 0 < le_at e \<and> le_at e \<le> g_lastStart g)
     \<and> g_lastStart g \<le> g_now g
     \<and> spaced (cfg_MinimumStartInterval (g_config g)) (live (g_ledger g))
     \<and> (rollingBudgetsApply g \<longrightarrow> windows_within g)
     \<and> tasks_within g"

definition undebited :: "Permit \<Rightarrow> bool" where
  "undebited p \<longleftrightarrow> \<not> pm_completed p \<and> (\<not> pm_started p \<or> pm_receiptAware p)"

definition start_time :: "Permit \<Rightarrow> Governor \<Rightarrow> time" where
  "start_time p g = (if pm_started p then pm_startedAt p else g_now g)"

definition room :: "Permit \<Rightarrow> Governor \<Rightarrow> bool" where
  "room p g \<longleftrightarrow> undebited p \<longrightarrow>
     task_room (pm_request p) g \<and> (rollingBudgetsApply g \<longrightarrow> window_room g (g_now g))
     \<and> paced g (start_time p g)"

section \<open>Quiet steps\<close>

lemma quiet_base: "quiet g g' \<Longrightarrow> base_ok g \<Longrightarrow> base_ok g'"
  by (auto simp: quiet_def base_ok_def shrinks_def forgets_def)

lemma settles_base: "settles g g' \<Longrightarrow> base_ok g \<Longrightarrow> base_ok g'"
  by (auto simp: settles_def base_ok_def)

lemma quiet_counts:
  assumes "quiet g g'" "base_ok g" "w \<le> 3 * Hour"
  shows "ledger_count (g_ledger g') (g_now g') w = ledger_count (g_ledger g) (g_now g) w"
  using assms shrinks_count [of "g_now g" "g_ledger g" "g_ledger g'" w "g_now g"]
  by (simp add: quiet_def base_ok_def)

lemma quiet_rolling [simp]: "quiet g g' \<Longrightarrow> rollingBudgetsApply g' = rollingBudgetsApply g"
  by (simp add: quiet_def rollingBudgetsApply_def localNumericLayerApplies_def)

lemma quiet_config: "quiet g g' \<Longrightarrow> g_config g' = g_config g"
  and quiet_now: "quiet g g' \<Longrightarrow> g_now g' = g_now g"
  and quiet_last: "quiet g g' \<Longrightarrow> g_lastStart g' = g_lastStart g"
  by (simp_all add: quiet_def)

lemma quiet_windows:
  assumes "quiet g g'" "base_ok g"
  shows "windows_within g' = windows_within g" and "window_room g' (g_now g') = window_room g (g_now g)"
  using quiet_counts [OF assms] quiet_config [OF assms(1)]
  by (simp_all add: windows_within_def window_room_def)

lemma budgets_nonneg: "base_ok g \<Longrightarrow> 0 \<le> cfg_TaskBudget (g_config g) \<and> 0 \<le> cfg_RetryBudget (g_config g)"
  using Config_Validate_limits [of "g_config g"] by (simp add: base_ok_def config_ok_def)

lemma quiet_tasks_within:
  assumes "quiet g g'" "base_ok g" "tasks_within g"
  shows "tasks_within g'"
  unfolding tasks_within_def
proof
  fix t
  have "usage g' t = usage g t \<or> usage g' t = (0, 0)"
    using assms(1,2) by (auto simp: quiet_def forgets_def base_ok_def)
  then show "fst (usage g' t) \<le> cfg_TaskBudget (g_config g') \<and> snd (usage g' t) \<le> cfg_RetryBudget (g_config g')"
    using assms(3) budgets_nonneg [OF assms(2)] quiet_config [OF assms(1)] by (auto simp: tasks_within_def)
qed

lemma quiet_live:
  assumes "quiet g g'" "base_ok g"
  obtains k where "live (g_ledger g') = drop k (live (g_ledger g))"
  using assms by (auto simp: quiet_def shrinks_def base_ok_def)

lemma spaced_drop: "spaced i es \<Longrightarrow> spaced i (drop k es)"
  by (simp add: spaced_def sorted_wrt_drop)

lemma quiet_within:
  assumes "quiet g g'" "base_ok g" "within g"
  shows "within g'"
proof -
  obtain k where k: "live (g_ledger g') = drop k (live (g_ledger g))" using quiet_live [OF assms(1,2)] .
  have "set (live (g_ledger g')) \<subseteq> set (live (g_ledger g))" using k by (simp add: set_drop_subset)
  then show ?thesis
    using assms k quiet_tasks_within [OF assms(1,2)] quiet_windows(1) [OF assms(1,2)]
      quiet_config [OF assms(1)] quiet_now [OF assms(1)] quiet_last [OF assms(1)]
    by (auto simp: within_def spaced_drop)
qed

text \<open>The task that holds the lane is never forgotten, so its reservation survives.\<close>

lemma quiet_room:
  assumes "quiet g g'" "base_ok g" "room p g" "g_inFlight g" "g_activeTaskID g = rq_TaskID (pm_request p)"
  shows "room p g'"
proof -
  have "usage g' (rq_TaskID (pm_request p)) = usage g (rq_TaskID (pm_request p))"
    using assms(1,2,4,5) by (auto simp: quiet_def forgets_def base_ok_def)
  then show ?thesis
    using assms quiet_windows(2) [OF assms(1,2)] quiet_config [OF assms(1)] quiet_now [OF assms(1)]
      quiet_last [OF assms(1)]
    by (auto simp: room_def task_room_def paced_def start_time_def split: if_splits)
qed

section \<open>Debits\<close>

lemma within_basic_debit:
  assumes "base_ok g" "within g" "task_room rq g" "rollingBudgetsApply g \<longrightarrow> window_room g (g_now g)"
    and "paced g at" "0 < at" "at \<le> g_now g" "t = rq_TaskID rq" "r = rq_Retry rq"
  shows "within (basic_debit at at t r g)"
proof -
  let ?b = "basic_debit at at t r g"
  let ?i = "cfg_MinimumStartInterval (g_config g)"
  have wf: "ledger_wf (g_ledger g)" and i: "0 < ?i"
    using assms(1) Config_Validate_limits(5) [of "g_config g"] by (simp_all add: base_ok_def config_ok_def)
  have old: "\<forall>e \<in> set (live (g_ledger g)). 0 < le_at e \<and> le_at e \<le> g_lastStart g"
    using assms(2) by (simp add: within_def)
  have next_to: "le_at e + ?i \<le> at" if "e \<in> set (live (g_ledger g))" for e
    using old assms(5) that by (fastforce simp: paced_def)
  have "\<forall>e \<in> set (live (g_ledger ?b)). 0 < le_at e \<and> le_at e \<le> g_lastStart ?b"
    using old next_to i assms(6) by (fastforce simp: live_add wf)
  moreover have "spaced ?i (live (g_ledger ?b))"
    using assms(2) next_to by (simp add: within_def spaced_def live_add wf sorted_wrt_append)
  moreover have "rollingBudgetsApply g \<Longrightarrow> windows_within ?b"
    using assms(4) by (simp add: windows_within_def window_room_def ledger_count_add wf)
  moreover have "tasks_within ?b"
    using assms(2,3,8,9) by (auto simp: tasks_within_def within_def basic_debit_usage task_room_def)
  ultimately show ?thesis
    using assms(7) by (simp add: within_def rollingBudgetsApply_def localNumericLayerApplies_def)
qed

lemma base_basic_debit: "base_ok g \<Longrightarrow> base_ok (basic_debit at ls t r g)"
  by (rule settles_base) simp_all

lemma debits_within:
  assumes "debits at at (rq_TaskID rq) (rq_Retry rq) g g'" "base_ok g" "within g" "task_room rq g"
    and "rollingBudgetsApply g \<longrightarrow> window_room g (g_now g)" "paced g at" "0 < at" "at \<le> g_now g"
    and "g_inFlight g" "g_activeTaskID g = rq_TaskID rq"
  shows "within g'" and "base_ok g'"
proof -
  let ?t = "rq_TaskID rq" and ?r = "rq_Retry rq"
  obtain h where h: "quiet g h" "quiet (basic_debit at at ?t ?r h) g'" using assms(1) by (auto simp: debits_def)
  have base: "base_ok h" using quiet_base h(1) assms(2) .
  have "usage h ?t = usage g ?t"
    using h(1) assms(2,9,10) by (auto simp: quiet_def forgets_def base_ok_def)
  then have "task_room rq h" using assms(4) quiet_config [OF h(1)] by (simp add: task_room_def)
  moreover have "rollingBudgetsApply h \<longrightarrow> window_room h (g_now h)"
    using assms(5) quiet_windows(2) [OF h(1) assms(2)] h(1) by simp
  moreover have "paced h at" using assms(6) quiet_config [OF h(1)] quiet_last [OF h(1)] by (simp add: paced_def)
  ultimately have "within (basic_debit at at ?t ?r h)"
    using within_basic_debit [OF base quiet_within [OF h(1) assms(2,3)]] assms(7,8) quiet_now [OF h(1)] by simp
  then show "within g'" "base_ok g'"
    using quiet_within [OF h(2) base_basic_debit [OF base]] quiet_base [OF h(2) base_basic_debit [OF base]] by simp_all
qed

section \<open>Release, grant and the clock\<close>

lemma free_lane_within: "within (free_lane g) = within g" "base_ok (free_lane g) = base_ok g"
  by (simp_all add: free_lane_def within_def base_ok_def windows_within_def tasks_within_def usage_def
      task_of_def rollingBudgetsApply_def localNumericLayerApplies_def)

lemma releases_within:
  assumes "releases g g'" "base_ok g"
  shows "within g \<Longrightarrow> within g'" "base_ok g'"
proof -
  obtain h where h: "quiet g h" "quiet (free_lane h) g'" using assms(1) by (auto simp: releases_def)
  have base: "base_ok h" using quiet_base h(1) assms(2) .
  show "base_ok g'" using quiet_base [OF h(2)] base by (simp add: free_lane_within)
  assume "within g"
  then have "within h" by (rule quiet_within [OF h(1) assms(2)])
  then show "within g'" using quiet_within [OF h(2)] base by (simp add: free_lane_within)
qed

lemma grant_preds:
  "within (grant rq g) = within g" "base_ok (grant rq g) = base_ok g"
  "room p (grant rq g) = room p g"
  by (simp_all add: grant_def within_def base_ok_def windows_within_def tasks_within_def usage_def
      task_of_def rollingBudgetsApply_def localNumericLayerApplies_def room_def task_room_def
      window_room_def paced_def start_time_def)

lemma base_ceilings: "base_ok g \<Longrightarrow> ceilings_ok (g_config g)"
  using Config_Validate_kind(3) [of "g_config g"]
  by (auto simp: base_ok_def config_ok_def ceilings_ok_def validate_rolling_None)

text \<open>A decision at an earlier reading of the clock is still good now: windows only empty and the
  distance to the last start only grows.\<close>

lemma admissible_room:
  assumes "admissible now (pm_request p) g" "now \<le> g_now g" "\<not> pm_started p"
  shows "room p g"
proof -
  note mono = ledger_count_antimono [OF assms(2)]
  have "window_room g now \<Longrightarrow> window_room g (g_now g)"
    by (simp add: window_room_def) (meson mono order_le_less_trans)
  moreover have "paced g now \<Longrightarrow> paced g (g_now g)" using assms(2) by (auto simp: paced_def)
  ultimately show ?thesis using assms(1,3) by (simp add: admissible_def room_def start_time_def)
qed

lemma grants_within:
  assumes "grants g p g'" "base_ok g"
  shows "base_ok g'" "within g \<Longrightarrow> within g'" "room p g'" "g_inFlight g'" "\<not> g_inFlight g"
    and "g_activeTaskID g' = rq_TaskID (pm_request p)" "\<not> t_unsafe (g_telemetry g)"
    and "\<not> pm_completed p" "\<not> pm_started p" "g_now g' = g_now g" "g_config g' = g_config g"
proof -
  obtain now h healthy where h: "quiet g h" "quiet (grant (pm_request p) h) g'" and now: "now \<le> g_now g"
    and p: "p = fresh_permit (pm_request p) healthy" and adm: "admissible now (pm_request p) h"
    using assms base_ceilings [OF assms(2)] by (auto simp: grants_def)
  have base: "base_ok h" using quiet_base h(1) assms(2) .
  then have base': "base_ok (grant (pm_request p) h)" by (simp add: grant_preds)
  show "base_ok g'" by (rule quiet_base [OF h(2) base'])
  show "within g \<Longrightarrow> within g'"
    using quiet_within [OF h(2) base'] quiet_within [OF h(1) assms(2)] by (simp add: grant_preds)
  show np: "\<not> pm_completed p" "\<not> pm_started p" by (subst p, simp add: fresh_permit_def)+
  have "room p h" using adm np now quiet_now [OF h(1)] by (intro admissible_room) simp_all
  then show "room p g'" using quiet_room [OF h(2) base', of p] by (simp add: grant_preds) (simp add: grant_def)
  show "g_inFlight g'" "g_activeTaskID g' = rq_TaskID (pm_request p)"
    using h(2) by (simp_all add: quiet_def grant_def)
  show "\<not> g_inFlight g" "\<not> t_unsafe (g_telemetry g)"
    using adm h(1) by (auto simp: admissible_def quiet_def)
  show "g_now g' = g_now g" "g_config g' = g_config g" using h by (simp_all add: quiet_def grant_def)
qed

lemma tick_preds:
  assumes "g_now g \<le> t"
  shows "base_ok g \<Longrightarrow> base_ok (g\<lparr>g_now := t\<rparr>)" "within g \<Longrightarrow> within (g\<lparr>g_now := t\<rparr>)"
    and "room p g \<Longrightarrow> room p (g\<lparr>g_now := t\<rparr>)"
proof -
  note mono = ledger_count_antimono [OF assms]
  show "base_ok g \<Longrightarrow> base_ok (g\<lparr>g_now := t\<rparr>)" using assms by (simp add: base_ok_def)
  have "windows_within g \<Longrightarrow> windows_within (g\<lparr>g_now := t\<rparr>)"
    by (simp add: windows_within_def) (meson mono order_trans)
  then show "within g \<Longrightarrow> within (g\<lparr>g_now := t\<rparr>)"
    using assms
    by (simp add: within_def tasks_within_def usage_def task_of_def rollingBudgetsApply_def
        localNumericLayerApplies_def)
  have "window_room g (g_now g) \<Longrightarrow> window_room (g\<lparr>g_now := t\<rparr>) t"
    by (simp add: window_room_def) (meson mono order_le_less_trans)
  moreover have "paced g (start_time p g) \<Longrightarrow> paced (g\<lparr>g_now := t\<rparr>) (start_time p (g\<lparr>g_now := t\<rparr>))"
    using assms by (auto simp: paced_def start_time_def)
  ultimately show "room p g \<Longrightarrow> room p (g\<lparr>g_now := t\<rparr>)"
    by (simp add: room_def task_room_def usage_def task_of_def rollingBudgetsApply_def
        localNumericLayerApplies_def)
qed

end
