(* ===== verification/Governor_Restore.thy ===== *)
theory Governor_Restore
  imports Governor_Limits
begin

text \<open>
  The durable projection read back. A fresh governor that restores the projection of another
  one has its ledger, its task usage, its last start, cooldown, telemetry evidence and circuit,
  up to the retention pruning at the instant of the restart.
\<close>

section \<open>Reading the lists back\<close>

lemma restore_ledger_live:
  "ledger_wf l \<Longrightarrow> live (restore_ledger evs l) = live l @ filter (\<lambda>e. \<not> is_zero (le_at e)) evs
     \<and> ledger_wf (restore_ledger evs l)"
  by (induction evs arbitrary: l) (auto simp: restore_ledger_def live_add)

lemma map_put_fresh: "k \<notin> fst ` set m \<Longrightarrow> map_put k v m = m @ [(k, v)]"
  by (induction m) auto

lemma foldl_put_rebuild:
  assumes "distinct (map fst (acc @ m))"
  shows "foldl (\<lambda>acc e. map_put (fst e) (snd e) acc) acc m = acc @ m"
  using assms
proof (induction m arbitrary: acc)
  case (Cons e m)
  then show ?case by (cases e) (auto simp: map_put_fresh)
qed simp

lemma record_eta [simp]:
  "\<lparr>ts_attempts = ts_attempts st, ts_retries = ts_retries st, ts_lastTouched = ts_lastTouched st\<rparr> = st"
  "\<lparr>rr_state = rr_state r, rr_completedAt = rr_completedAt r\<rparr> = r"
  by (cases st, simp) (cases r, simp)

lemma restore_tasks_records: "map_wf m \<Longrightarrow> restore_tasks (task_records m) [] = m"
proof -
  assume wf: "map_wf m"
  have "restore_tasks (task_records m) [] = foldl (\<lambda>acc e. map_put (fst e) (snd e) acc) [] m"
    unfolding restore_tasks_def task_records_def foldl_map by (rule foldl_cong) auto
  then show ?thesis using foldl_put_rebuild [of "[]" m] wf by simp
qed

lemma requestState_roundtrip: "requestStateFromName (requestStateName st) = st"
  by (cases st) (simp_all add: requestStateFromName_def)

lemma restore_requests_records: "map_wf m \<Longrightarrow> restore_requests (request_records m) [] = m"
proof -
  assume wf: "map_wf m"
  have "restore_requests (request_records m) [] = foldl (\<lambda>acc e. map_put (fst e) (snd e) acc) [] m"
    unfolding restore_requests_def request_records_def foldl_map
    by (rule foldl_cong) (auto simp: requestState_roundtrip)
  then show ?thesis using foldl_put_rebuild [of "[]" m] wf by simp
qed

lemma restore_attempts_records:
  "map_wf m \<Longrightarrow> \<forall>(k, t) \<in> set m. \<not> is_zero t \<Longrightarrow> restore_attempts (attemptIDRecords m) [] = m"
proof -
  assume wf: "map_wf m" and nz: "\<forall>(k, t) \<in> set m. \<not> is_zero t"
  have "restore_attempts (attemptIDRecords m) [] = foldl (\<lambda>acc e. map_put (fst e) (snd e) acc) [] m"
    unfolding restore_attempts_def attemptIDRecords_def foldl_map
    using nz by (intro foldl_cong) auto
  then show ?thesis using foldl_put_rebuild [of "[]" m] wf by simp
qed

section \<open>The restored governor\<close>

text \<open>The state before the final pruning.\<close>

definition restored :: "PersistedState \<Rightarrow> Governor \<Rightarrow> Governor" where
  "restored s g =
     g\<lparr>g_nextAttempt := (if g_nextAttempt g < ps_NextAttempt s then ps_NextAttempt s else g_nextAttempt g),
       g_lastStart := ps_LastStart s, g_cooldownUntil := ps_CooldownUntil s,
       g_telemetry := restore_telemetry (ps_Telemetry s) (g_telemetry g),
       g_ledger := restore_ledger (ps_RollingEvents s) (g_ledger g),
       g_tasks := restore_tasks (ps_TaskStates s) (g_tasks g),
       g_requestIDs := restore_requests (ps_RequestRecords s) (g_requestIDs g),
       g_attemptIDs := restore_attempts (ps_AttemptIDs s) (g_attemptIDs g),
       g_circuit := restore_circuit (g_now g) s (g_circuit g)\<rparr>"

lemma RestorePersistedState_restored:
  "RestorePersistedState s g = pruneRetentionLocked (g_now g) (restored s g)"
proof -
  have "restore_circuit now (s\<lparr>ps_AllowanceKind := k\<rparr>) c = restore_circuit now s c" for now k c
    by (simp add: restore_circuit_def Let_def)
  then show ?thesis by (simp add: RestorePersistedState_def Let_def restored_def)
qed

lemma restored_fields:
  assumes "map_wf (g_tasks h)" "\<forall>e \<in> set (live (g_ledger h)). 0 < le_at e"
  shows "live (g_ledger (restored (persistedStateLocked h) (fresh_governor c op))) = live (g_ledger h)"
    and "ledger_wf (g_ledger (restored (persistedStateLocked h) (fresh_governor c op)))"
    and "g_tasks (restored (persistedStateLocked h) (fresh_governor c op)) = g_tasks h"
    and "g_lastStart (restored (persistedStateLocked h) (fresh_governor c op)) = g_lastStart h"
    and "g_cooldownUntil (restored (persistedStateLocked h) (fresh_governor c op)) = g_cooldownUntil h"
    and "g_telemetry (restored (persistedStateLocked h) (fresh_governor c op)) = g_telemetry h"
    and "g_inFlight (restored (persistedStateLocked h) (fresh_governor c op)) = False"
    and "g_now (restored (persistedStateLocked h) (fresh_governor c op)) = op_Now op"
    and "g_config (restored (persistedStateLocked h) (fresh_governor c op)) =
      c\<lparr>cfg_AllowanceKind := EffectiveAllowanceKind c\<rparr>"
proof -
  let ?r = "restored (persistedStateLocked h) (fresh_governor c op)"
  have "filter (\<lambda>e. \<not> is_zero (le_at e)) (live (g_ledger h)) = live (g_ledger h)"
    using assms(2) by (auto simp: filter_id_conv)
  then show "live (g_ledger ?r) = live (g_ledger h)" "ledger_wf (g_ledger ?r)"
    using restore_ledger_live [of empty_ledger "copyEvents (g_ledger h)"]
    by (simp_all add: restored_def persistedStateLocked_def Let_def fresh_governor_def copyEvents_def)
  show "g_tasks ?r = g_tasks h" using restore_tasks_records [OF assms(1)]
    by (simp add: restored_def persistedStateLocked_def Let_def fresh_governor_def)
  show "g_telemetry ?r = g_telemetry h"
    by (simp add: restored_def persistedStateLocked_def Let_def fresh_governor_def restore_telemetry_def
        telemetrySummaryLocked_def zero_telemetry_def split: option.split)
qed (simp_all add: restored_def persistedStateLocked_def Let_def fresh_governor_def)

text \<open>Retention drops a record of a task only when the task has been idle or the map is over its bound.\<close>

lemma pruned_task_lost:
  assumes "map_wf (g_tasks g)" "map_get (g_tasks (pruneRetentionLocked now g)) t \<noteq> map_get (g_tasks g) t"
  shows "map_get (g_tasks (pruneRetentionLocked now g)) t = None
    \<and> (\<exists>st. map_get (g_tasks g) t = Some st
         \<and> (ts_lastTouched st \<le> now - taskRetentionWindow \<or> maxRetainedTaskStates < length (g_tasks g)))"
proof -
  let ?h = "pruneAttemptIDsLocked now g"
  let ?P = "\<lambda>(k, st). taskProtectedLocked ?h k \<or> now - taskRetentionWindow < ts_lastTouched st"
  have tasks: "g_tasks (pruneRetentionLocked now g) =
      evict maxRetainedTaskStates (taskProtectedLocked ?h) ts_lastTouched (filter ?P (g_tasks g))"
    by (simp add: pruneRetentionLocked_def Let_def split: prod.splits)
  have lost: "map_get (g_tasks (pruneRetentionLocked now g)) t = None" using pruned_tasks [OF assms(1)] assms(2) by blast
  then obtain st where st: "map_get (g_tasks g) t = Some st" using assms(2) by (metis option.exhaust)
  have "ts_lastTouched st \<le> now - taskRetentionWindow \<or> maxRetainedTaskStates < length (g_tasks g)"
  proof (rule ccontr)
    assume n: "\<not> ?thesis"
    then have "length (filter ?P (g_tasks g)) \<le> maxRetainedTaskStates" using length_filter_le [of ?P "g_tasks g"] by linarith
    then have "map_get (evict maxRetainedTaskStates (taskProtectedLocked ?h) ts_lastTouched (filter ?P (g_tasks g))) t = Some st"
      using n by (intro task_states.fresh_kept [OF assms(1) st]) simp_all
    then show False using lost tasks by simp
  qed
  then show ?thesis using lost st by blast
qed

lemma restored_circuit:
  assumes "c_state (g_circuit h) \<noteq> CircuitEmpty"
  shows "g_circuit (restored (persistedStateLocked h) (fresh_governor c op)) =
    (if c_state (g_circuit h) = CircuitOpenUntil \<and> \<not> is_zero (c_openUntil (g_circuit h)) \<and> c_openUntil (g_circuit h) \<le> op_Now op
     then (g_circuit h)\<lparr>c_state := CircuitClosed, c_reason := OutcomeEmpty, c_openUntil := zero_time, c_refreshInFlight := False\<rparr>
     else (g_circuit h)\<lparr>c_refreshInFlight := False\<rparr>)"
  using assms
  by (cases "g_circuit h") (auto simp: restored_def restore_circuit_def persistedStateLocked_def circuitSnapshotLocked_def
      fresh_governor_def zero_circuit_def Let_def)

lemma within_cong:
  assumes "g_config g' = g_config g" "g_now g' = g_now g" "g_lastStart g' = g_lastStart g"
    and "live (g_ledger g') = live (g_ledger g)" "g_tasks g' = g_tasks g"
  shows "within g' = within g"
  using assms by (simp add: within_def windows_within_def tasks_within_def usage_def task_of_def
      ledger_count_eq rollingBudgetsApply_def localNumericLayerApplies_def)

lemma config_ok_normal: "config_ok c \<Longrightarrow> c\<lparr>cfg_AllowanceKind := EffectiveAllowanceKind c\<rparr> = c"
  by (simp add: config_ok_def)

text \<open>Restarting from a projection taken earlier under the same configuration.\<close>

lemma restart_within:
  assumes "base_ok h" "t_unsafe (g_telemetry h) \<or> within h" "g_now h \<le> op_Now op"
    and "r = RestorePersistedState (persistedStateLocked h) (fresh_governor (g_config h) op)"
  shows "base_ok r" "t_unsafe (g_telemetry r) \<or> within r" "\<not> g_inFlight r"
    and "g_config r = g_config h" "g_now r = op_Now op"
proof -
  let ?f = "fresh_governor (g_config h) op"
  let ?s = "restored (persistedStateLocked h) ?f"
  have cfg: "(g_config h)\<lparr>cfg_AllowanceKind := EffectiveAllowanceKind (g_config h)\<rparr> = g_config h"
    using assms(1) by (simp add: base_ok_def config_ok_normal)
  have fnow: "g_now ?f = op_Now op" by (simp add: fresh_governor_def)
  have core: "g_inFlight ?s = False" "g_now ?s = op_Now op" "g_config ?s = g_config h"
    "ledger_wf (g_ledger ?s)" "g_tasks ?s = g_tasks h" "t_unsafe (g_telemetry ?s) = t_unsafe (g_telemetry h)"
    using cfg restore_ledger_live [of empty_ledger "copyEvents (g_ledger h)"]
      restore_tasks_records [of "g_tasks h"] assms(1)
    by (simp_all add: restored_def persistedStateLocked_def Let_def fresh_governor_def base_ok_def
        restore_telemetry_def)
  have r: "quiet ?s r" using assms(4) by (simp add: RestorePersistedState_restored fnow)
  have base: "base_ok ?s" using assms(1,3) core by (simp add: base_ok_def)
  then show "base_ok r" by (rule quiet_base [OF r])
  show "\<not> g_inFlight r" "g_config r = g_config h" "g_now r = op_Now op"
    using r core by (simp_all add: quiet_def)
  show "t_unsafe (g_telemetry r) \<or> within r"
  proof (cases "t_unsafe (g_telemetry h)")
    case True
    then show ?thesis using r core(6) by (simp add: quiet_def)
  next
    case False
    with assms(2) have wi: "within h" by simp
    have wf: "map_wf (g_tasks h)" using assms(1) by (simp add: base_ok_def)
    have ev: "\<forall>e \<in> set (live (g_ledger h)). 0 < le_at e" using wi by (simp add: within_def)
    have "within (h\<lparr>g_now := op_Now op\<rparr>)" using tick_preds(2) [OF assms(3) wi] .
    then have "within ?s"
      using restored_fields [OF wf ev, of "g_config h" op] cfg
      by (subst within_cong [of ?s "h\<lparr>g_now := op_Now op\<rparr>"]) simp_all
    then show ?thesis using quiet_within [OF r base] by simp
  qed
qed

end
