(* ===== verification/Transition.thy ===== *)
theory Transition
  imports Main
begin

text \<open>
  Transition systems and their invariants. A component that is a set of interleaved critical
  sections is a step relation; what holds in every reachable state is proved once, from the
  two obligations of the locale.
\<close>

inductive reach :: "('s \<Rightarrow> bool) \<Rightarrow> ('s \<Rightarrow> 's \<Rightarrow> bool) \<Rightarrow> 's \<Rightarrow> bool"
  for init :: "'s \<Rightarrow> bool" and step :: "'s \<Rightarrow> 's \<Rightarrow> bool" where
  reach_init: "init s \<Longrightarrow> reach init step s"
| reach_step: "reach init step s \<Longrightarrow> step s s' \<Longrightarrow> reach init step s'"

locale invariant_system =
  fixes init :: "'s \<Rightarrow> bool" and step :: "'s \<Rightarrow> 's \<Rightarrow> bool" and inv :: "'s \<Rightarrow> bool"
  assumes inv_init: "init s \<Longrightarrow> inv s"
    and inv_step: "inv s \<Longrightarrow> step s s' \<Longrightarrow> inv s'"
begin

lemma inv_reach: "reach init step s \<Longrightarrow> inv s"
  by (induction rule: reach.induct) (auto intro: inv_init inv_step)

text \<open>A property of two consecutive states that follows from the invariant holds along every
  run, and a monotone measure never decreases.\<close>

lemma step_reach:
  assumes "reach init step s" "step s s'" "\<And>s s'. inv s \<Longrightarrow> step s s' \<Longrightarrow> Q s s'"
  shows "Q s s'"
  using assms inv_reach by blast

lemma reach_trans:
  assumes "reach (\<lambda>x. x = s) step s'" "reach init step s"
  shows "reach init step s'"
  using assms by (induction rule: reach.induct) (auto intro: reach.intros)

end

end
