(* ===== verification/Governor_System.thy ===== *)
theory Governor_System
  imports Governor_Restore Transition
begin

text \<open>
  The governor as a concurrent system: every critical section of the mutex is a step, in any
  interleaving, by any number of goroutines. The state is the governor, every permit and
  refresh permit handed out so far, and the projection on disk. The clock moves forward
  between sections; a queued decision may use a reading taken before its section began. A crash loses everything but the disk; a restart constructs a new governor
  from it under the same configuration.
\<close>

record System =
  sy_gov :: Governor
  sy_permits :: "Permit list"
  sy_refreshes :: "bool list"
  sy_disk :: "PersistedState option"

definition handed :: "AdmissionResult \<Rightarrow> Permit list" where
  "handed r = (case ad_Permit r of None \<Rightarrow> [] | Some p \<Rightarrow> [p])"

definition handed_turn :: "turn \<Rightarrow> Permit list" where
  "handed_turn t = (case t of Return r \<Rightarrow> handed r | _ \<Rightarrow> [])"

inductive gov_step :: "System \<Rightarrow> System \<Rightarrow> bool" where
  tick: "g_now (sy_gov s) \<le> t \<Longrightarrow> gov_step s (s\<lparr>sy_gov := (sy_gov s)\<lparr>g_now := t\<rparr>\<rparr>)"
| try_first: "gov_step s (s\<lparr>sy_gov := snd (tryAdmit_first rq (sy_gov s))\<rparr>)"
| try_second: "tryAdmit_second ctx rq obs (sy_gov s) = (r, g') \<Longrightarrow>
    gov_step s (s\<lparr>sy_gov := g', sy_permits := sy_permits s @ handed r\<rparr>)"
| enter: "gov_step s (s\<lparr>sy_gov := snd (queueAdmit_enter rq (sy_gov s))\<rparr>)"
| turn: "gov_step s (s\<lparr>sy_gov := snd (queueAdmit_turn ctx a (sy_gov s))\<rparr>)"
| decide: "0 < now \<Longrightarrow> now \<le> g_now (sy_gov s) \<Longrightarrow> queueAdmit_decide ctx a obs now (sy_gov s) = (tn, g') \<Longrightarrow>
    gov_step s (s\<lparr>sy_gov := g', sy_permits := sy_permits s @ handed_turn tn\<rparr>)"
| abort: "gov_step s (s\<lparr>sy_gov := snd (queueAdmit_abort a rq r healthy (sy_gov s))\<rparr>)"
| start: "i < length (sy_permits s) \<Longrightarrow> permit_start ra (sy_permits s ! i) (sy_gov s) = (e, p', g') \<Longrightarrow>
    gov_step s (s\<lparr>sy_gov := g', sy_permits := (sy_permits s)[i := p']\<rparr>)"
| cancel_before: "i < length (sy_permits s) \<Longrightarrow> CancelBeforeStart (sy_permits s ! i) (sy_gov s) = (e, p', g') \<Longrightarrow>
    gov_step s (s\<lparr>sy_gov := g', sy_permits := (sy_permits s)[i := p']\<rparr>)"
| cancel_after: "i < length (sy_permits s) \<Longrightarrow> CancelAfterStart (sy_permits s ! i) (sy_gov s) = (r, p', g') \<Longrightarrow>
    gov_step s (s\<lparr>sy_gov := g', sy_permits := (sy_permits s)[i := p']\<rparr>)"
| finish: "i < length (sy_permits s) \<Longrightarrow> Permit_Finish j oc (sy_permits s ! i) (sy_gov s) = (r, p', g') \<Longrightarrow>
    gov_step s (s\<lparr>sy_gov := g', sy_permits := (sy_permits s)[i := p']\<rparr>)"
| finish_receipts: "i < length (sy_permits s) \<Longrightarrow>
    FinishWithAttemptReceipts marshal year j oc rset (sy_permits s ! i) (sy_gov s) = (r, p', g') \<Longrightarrow>
    gov_step s (s\<lparr>sy_gov := g', sy_permits := (sy_permits s)[i := p']\<rparr>)"
| acknowledge: "gov_step s (s\<lparr>sy_gov := snd (AcknowledgeHuman (sy_gov s))\<rparr>)"
| refresh_begin: "BeginCredentialRefresh (sy_gov s) = (code, g') \<Longrightarrow>
    gov_step s (s\<lparr>sy_gov := g', sy_refreshes := sy_refreshes s @ (if code = AdmissionAdmitted then [False] else [])\<rparr>)"
| refresh_finish: "i < length (sy_refreshes s) \<Longrightarrow>
    RefreshPermit_Finish ok (sy_refreshes s ! i) (sy_gov s) = (e, f', g') \<Longrightarrow>
    gov_step s (s\<lparr>sy_gov := g', sy_refreshes := (sy_refreshes s)[i := f']\<rparr>)"
| close: "gov_step s (s\<lparr>sy_gov := Governor_Close (sy_gov s)\<rparr>)"
| drain1: "gov_step s (s\<lparr>sy_gov := snd (drain_begin (sy_gov s))\<rparr>)"
| drain2: "gov_step s (s\<lparr>sy_gov := snd (drain_batch (sy_gov s))\<rparr>)"
| drain3: "gov_step s (s\<lparr>sy_gov := drain_abort (sy_gov s)\<rparr>)"
| gateway: "gov_step s (s\<lparr>sy_gov := emitAdmissionLocked rq r False (sy_gov s)\<rparr>)"
| snapshot: "gov_step s (s\<lparr>sy_gov := snd (Governor_Snapshot (sy_gov s))\<rparr>)"
| persist: "Governor_PersistedState (sy_gov s) = (ps, g') \<Longrightarrow> gov_step s (s\<lparr>sy_gov := g', sy_disk := Some ps\<rparr>)"
| restart: "sy_disk s = Some ps \<Longrightarrow> op_Restore op = Some ps \<Longrightarrow> g_now (sy_gov s) \<le> op_Now op \<Longrightarrow>
    New (g_config (sy_gov s)) op = Inr g' \<Longrightarrow>
    gov_step s (s\<lparr>sy_gov := g', sy_permits := [], sy_refreshes := []\<rparr>)"

definition gov_init :: "System \<Rightarrow> bool" where
  "gov_init s \<longleftrightarrow>
     (\<exists>c op. New c op = Inr (sy_gov s) \<and> op_Restore op = None \<and> 0 < op_Now op)
     \<and> sy_permits s = [] \<and> sy_refreshes s = [] \<and> sy_disk s = None"

section \<open>The invariant\<close>

definition holders :: "System \<Rightarrow> Permit list" where
  "holders s = filter (\<lambda>p. \<not> pm_completed p) (sy_permits s)"

definition holds :: "Permit \<Rightarrow> Governor \<Rightarrow> bool" where
  "holds p g \<longleftrightarrow> g_activeTaskID g = rq_TaskID (pm_request p)
     \<and> (pm_started p \<longrightarrow> 0 < pm_startedAt p \<and> pm_startedAt p \<le> g_now g)"

definition lane_inv :: "System \<Rightarrow> bool" where
  "lane_inv s \<longleftrightarrow>
     (if g_inFlight (sy_gov s) then (\<exists>p. holders s = [p] \<and> holds p (sy_gov s)) else holders s = [])"

definition safe :: "System \<Rightarrow> bool" where
  "safe s \<longleftrightarrow> t_unsafe (g_telemetry (sy_gov s))
     \<or> within (sy_gov s) \<and> (\<forall>p \<in> set (holders s). room p (sy_gov s))"

definition disk_ok :: "System \<Rightarrow> bool" where
  "disk_ok s \<longleftrightarrow> (\<forall>ps. sy_disk s = Some ps \<longrightarrow>
     (\<exists>h. ps = persistedStateLocked h \<and> g_config h = g_config (sy_gov s) \<and> base_ok h
        \<and> g_now h \<le> g_now (sy_gov s) \<and> (t_unsafe (g_telemetry h) \<or> within h)))"

definition gov_inv :: "System \<Rightarrow> bool" where
  "gov_inv s \<longleftrightarrow> base_ok (sy_gov s) \<and> lane_inv s \<and> safe s \<and> disk_ok s"

section \<open>Preservation\<close>

lemma disk_ok_mono:
  "disk_ok s \<Longrightarrow> sy_disk s' = sy_disk s \<Longrightarrow> g_config (sy_gov s') = g_config (sy_gov s) \<Longrightarrow>
   g_now (sy_gov s) \<le> g_now (sy_gov s') \<Longrightarrow> disk_ok s'"
  unfolding disk_ok_def by (metis order_trans)

text \<open>A quiet step that hands out nothing.\<close>

lemma gov_inv_quiet:
  assumes "gov_inv s" "quiet (sy_gov s) (sy_gov s')" "sy_permits s' = sy_permits s" "sy_disk s' = sy_disk s"
  shows "gov_inv s'"
proof -
  let ?g = "sy_gov s" and ?g' = "sy_gov s'"
  have base: "base_ok ?g" using assms(1) by (simp add: gov_inv_def)
  have hold: "holders s' = holders s" using assms(3) by (simp add: holders_def)
  have "lane_inv s'"
    using assms(1,2) hold by (auto simp: gov_inv_def lane_inv_def holds_def quiet_def)
  moreover have "safe s'"
  proof (cases "t_unsafe (g_telemetry ?g)")
    case False
    then have w: "within ?g" and r: "\<forall>p \<in> set (holders s). room p ?g"
      using assms(1) by (auto simp: gov_inv_def safe_def)
    have "room p ?g'" if "p \<in> set (holders s)" for p
      using quiet_room [OF assms(2) base] r that assms(1)
      by (auto simp: gov_inv_def lane_inv_def holds_def split: if_splits)
    then show ?thesis using quiet_within [OF assms(2) base w] hold by (simp add: safe_def)
  qed (use assms(2) in \<open>simp add: safe_def quiet_def\<close>)
  moreover have "disk_ok s'"
    using assms(1) disk_ok_mono [of s s'] assms(2,4) by (simp add: gov_inv_def quiet_def)
  ultimately show ?thesis using quiet_base [OF assms(2) base] by (simp add: gov_inv_def)
qed

lemma gov_inv_grants:
  assumes "gov_inv s" "grants (sy_gov s) p (sy_gov s')" "sy_permits s' = sy_permits s @ [p]"
    and "sy_disk s' = sy_disk s"
  shows "gov_inv s'"
proof -
  have base: "base_ok (sy_gov s)" using assms(1) by (simp add: gov_inv_def)
  note gr = grants_within [OF assms(2) base]
  have "holders s = []" using assms(1) gr(5) by (simp add: gov_inv_def lane_inv_def)
  then have hold: "holders s' = [p]" using assms(3) gr(8) by (simp add: holders_def)
  have "within (sy_gov s')" using gr(2,7) assms(1) by (simp add: gov_inv_def safe_def)
  moreover have "disk_ok s'" using assms(1,4) gr(10,11) disk_ok_mono [of s s'] by (simp add: gov_inv_def)
  ultimately show ?thesis
    using gr hold by (simp add: gov_inv_def lane_inv_def holds_def safe_def)
qed

text \<open>Replacing the permit that holds the lane.\<close>

lemma holders_update:
  assumes "i < length ps" "filter P ps = [q]" "P (ps ! i)"
  shows "q = ps ! i" and "filter P (ps[i := p']) = (if P p' then [p'] else [])"
proof -
  have split: "ps = take i ps @ ps ! i # drop (Suc i) ps" using assms(1) by (rule id_take_nth_drop)
  then have "filter P (take i ps) @ ps ! i # filter P (drop (Suc i) ps) = [q]"
    using assms(2,3) by (metis filter.simps(2) filter_append)
  then have parts: "q = ps ! i" "filter P (take i ps) = []" "filter P (drop (Suc i) ps) = []"
    by (cases "filter P (take i ps)"; auto)+
  show "q = ps ! i" by (fact parts(1))
  have "ps[i := p'] = take i ps @ p' # drop (Suc i) ps" using assms(1) by (rule upd_conv_take_nth_drop)
  then show "filter P (ps[i := p']) = (if P p' then [p'] else [])" using parts by simp
qed

lemma open_permit:
  assumes "gov_inv s" "i < length (sy_permits s)" "\<not> pm_completed (sy_permits s ! i)"
  shows "holders s = [sy_permits s ! i]" "g_inFlight (sy_gov s)" "holds (sy_permits s ! i) (sy_gov s)"
    and "filter (\<lambda>p. \<not> pm_completed p) ((sy_permits s)[i := p']) = (if pm_completed p' then [] else [p'])"
proof -
  have "sy_permits s ! i \<in> set (holders s)" using assms(2,3) by (simp add: holders_def)
  then obtain q where q: "g_inFlight (sy_gov s)" "holders s = [q]" "holds q (sy_gov s)"
    using assms(1) by (auto simp: gov_inv_def lane_inv_def split: if_splits)
  note upd = holders_update [OF assms(2) q(2) [unfolded holders_def] assms(3)]
  show "holders s = [sy_permits s ! i]" "g_inFlight (sy_gov s)" "holds (sy_permits s ! i) (sy_gov s)"
    using q upd(1) by simp_all
  show "filter (\<lambda>p. \<not> pm_completed p) ((sy_permits s)[i := p']) = (if pm_completed p' then [] else [p'])"
    using upd(2) [of p'] by simp
qed

text \<open>Completing the permit that holds the lane, in a state that satisfies the limits.\<close>

lemma gov_inv_complete:
  assumes "gov_inv s" "i < length (sy_permits s)" "\<not> pm_completed (sy_permits s ! i)" "pm_completed p'"
    and "settles (sy_gov s) g'" "\<not> g_inFlight g'"
    and "t_unsafe (g_telemetry g') \<or> within g'"
    and "s' = s\<lparr>sy_gov := g', sy_permits := (sy_permits s)[i := p']\<rparr>"
  shows "gov_inv s'"
proof -
  have "holders s' = []" using open_permit(4) [OF assms(1-3), of p'] assms(4,8) by (simp add: holders_def)
  moreover have "base_ok g'" using settles_base [OF assms(5)] assms(1) by (simp add: gov_inv_def)
  moreover have "disk_ok s'"
    using assms(1,5,8) disk_ok_mono [of s s'] by (simp add: gov_inv_def settles_def)
  ultimately show ?thesis using assms(6-8) by (simp add: gov_inv_def lane_inv_def safe_def)
qed

lemma gov_inv_releases:
  assumes "gov_inv s" "i < length (sy_permits s)" "\<not> pm_completed (sy_permits s ! i)" "pm_completed p'"
    and "releases (sy_gov s) g'" "s' = s\<lparr>sy_gov := g', sy_permits := (sy_permits s)[i := p']\<rparr>"
  shows "gov_inv s'"
proof (rule gov_inv_complete [OF assms(1-4) _ _ _ assms(6)])
  note rel = releases_settles [OF assms(5)]
  show "settles (sy_gov s) g'" "\<not> g_inFlight g'" using rel by simp_all
  show "t_unsafe (g_telemetry g') \<or> within g'"
    using assms(1) rel releases_within(1) [OF assms(5)] by (auto simp: gov_inv_def safe_def settles_def)
qed

lemma gov_inv_unchanged:
  "gov_inv s \<Longrightarrow> i < length (sy_permits s) \<Longrightarrow>
   gov_inv (s\<lparr>sy_gov := sy_gov s, sy_permits := (sy_permits s)[i := sy_permits s ! i]\<rparr>)"
  by (cases s) simp

lemma gov_inv_start:
  assumes inv: "gov_inv s" and i: "i < length (sy_permits s)"
    and st: "permit_start ra (sy_permits s ! i) (sy_gov s) = (e, p', g')"
  shows "gov_inv (s\<lparr>sy_gov := g', sy_permits := (sy_permits s)[i := p']\<rparr>)" (is "gov_inv ?s")
proof (cases "e = None")
  case False
  then show ?thesis using permit_start_cases [OF st] gov_inv_unchanged [OF inv i] by auto
next
  case True
  let ?p = "sy_permits s ! i" and ?g = "sy_gov s"
  let ?rq = "pm_request ?p"
  from permit_start_cases [OF st] True have np: "\<not> pm_completed ?p" "\<not> pm_started ?p"
    and p': "p' = ?p\<lparr>pm_started := True, pm_receiptAware := ra, pm_startedAt := g_now ?g,
               pm_attemptSequence := g_nextAttempt ?g\<rparr>"
    and g': "if ra then quiet ?g g' else debits (g_now ?g) (g_now ?g) (rq_TaskID ?rq) (rq_Retry ?rq) ?g g'"
    by auto
  note op = open_permit [OF inv i np(1)]
  have base: "base_ok ?g" using inv by (simp add: gov_inv_def)
  then have now: "0 < g_now ?g" by (simp add: base_ok_def)
  have room: "\<not> t_unsafe (g_telemetry ?g) \<Longrightarrow> within ?g \<and> room ?p ?g"
    using inv op(1) by (simp add: gov_inv_def safe_def)
  have und: "undebited ?p" using np by (simp add: undebited_def)
  have core: "g_config g' = g_config ?g" "g_now g' = g_now ?g" "g_inFlight g'"
      "g_activeTaskID g' = rq_TaskID ?rq" "t_unsafe (g_telemetry ?g) \<longrightarrow> t_unsafe (g_telemetry g')"
    using g' op(2,3) by (auto simp: quiet_def debits_def holds_def split: if_splits)
  have hold: "holders ?s = [p']" using op(4) [of p'] np p' by (simp add: holders_def)
  have base': "base_ok g'"
  proof (cases ra)
    case True
    then show ?thesis using g' quiet_base base by auto
  next
    case False
    then obtain h where "quiet ?g h" "quiet (basic_debit (g_now ?g) (g_now ?g) (rq_TaskID ?rq) (rq_Retry ?rq) h) g'"
      using g' by (auto simp: debits_def)
    then show ?thesis using quiet_base base base_basic_debit by blast
  qed
  have "within g' \<and> room p' g'" if safe: "\<not> t_unsafe (g_telemetry ?g)"
  proof (cases ra)
    case True
    then have q: "quiet ?g g'" using g' by simp
    have "room p' ?g" using room [OF safe] np p' by (simp add: room_def undebited_def start_time_def)
    then have "room p' g'" using quiet_room [OF q base] op(2,3) p' by (simp add: holds_def)
    then show ?thesis using quiet_within [OF q base] room [OF safe] by simp
  next
    case False
    then have d: "debits (g_now ?g) (g_now ?g) (rq_TaskID ?rq) (rq_Retry ?rq) ?g g'" using g' by simp
    have "within g'"
      using debits_within(1) [OF d base] room [OF safe] und now op(2,3) np
      by (simp add: room_def start_time_def holds_def)
    then show ?thesis using False p' by (simp add: room_def undebited_def)
  qed
  then have "safe ?s" using core(5) hold by (auto simp: safe_def)
  moreover have "lane_inv ?s" using core hold p' now by (simp add: lane_inv_def holds_def)
  moreover have "disk_ok ?s" using inv core disk_ok_mono [of s ?s] by (simp add: gov_inv_def)
  ultimately show ?thesis using base' by (simp add: gov_inv_def)
qed

lemma gov_inv_finish_receipts:
  assumes inv: "gov_inv s" and i: "i < length (sy_permits s)"
    and fin: "FinishWithAttemptReceipts marshal year j oc rset (sy_permits s ! i) (sy_gov s) = (r, p', g')"
  shows "gov_inv (s\<lparr>sy_gov := g', sy_permits := (sy_permits s)[i := p']\<rparr>)"
proof (cases "pm_completed (sy_permits s ! i) \<or> \<not> pm_started (sy_permits s ! i) \<or> \<not> pm_receiptAware (sy_permits s ! i)")
  case True
  then have "p' = sy_permits s ! i \<and> g' = sy_gov s"
    using fin by (auto simp: FinishWithAttemptReceipts_def split: if_splits)
  then show ?thesis using gov_inv_unchanged [OF inv i] by simp
next
  case False
  let ?p = "sy_permits s ! i" and ?g = "sy_gov s"
  let ?rq = "pm_request ?p"
  have np: "\<not> pm_completed ?p" and started: "pm_started ?p" and ra: "pm_receiptAware ?p" and und: "undebited ?p"
    using False by (auto simp: undebited_def)
  note shape = FinishWithAttemptReceipts_shape [OF fin np started ra]
  then have p': "p' = ?p\<lparr>pm_completed := True\<rparr>" and s: "settles ?g g'" "\<not> g_inFlight g'" by auto
  note op = open_permit [OF inv i np]
  have base: "base_ok ?g" using inv by (simp add: gov_inv_def)
  have at: "pm_startedAt ?p \<le> g_now ?g" "0 < pm_startedAt ?p" using op(3) started by (simp_all add: holds_def)
  have room: "\<not> t_unsafe (g_telemetry ?g) \<Longrightarrow> within ?g \<and> task_room ?rq ?g
      \<and> (rollingBudgetsApply ?g \<longrightarrow> window_room ?g (g_now ?g)) \<and> paced ?g (pm_startedAt ?p)"
    using inv op(1) und started by (simp add: gov_inv_def safe_def room_def start_time_def)
  have interval: "0 < cfg_MinimumStartInterval (g_config ?g)"
    using base Config_Validate_limits(5) by (simp add: base_ok_def config_ok_def)
  show ?thesis
  proof (cases "g_lastStart ?g \<le> pm_startedAt ?p")
    case True
    note alt = FinishWithAttemptReceipts_debit [OF fin np started ra at True]
    have "t_unsafe (g_telemetry g') \<or> within g'"
    proof (cases "t_unsafe (g_telemetry g')")
      case False
      with s(1) have safe: "\<not> t_unsafe (g_telemetry ?g)" by (auto simp: settles_def)
      from alt False obtain t h where t: "pm_startedAt ?p \<le> t" "t \<le> g_now ?g"
        and d: "debits t t (rq_TaskID ?rq) (rq_Retry ?rq) ?g h" and rel: "releases h g'" by blast
      have "paced ?g t" using room [OF safe] t(1) by (auto simp: paced_def)
      then have "within h" "base_ok h"
        using debits_within [OF d base] room [OF safe] t at op(2,3) by (simp_all add: holds_def)
      then show ?thesis using releases_within(1) [OF rel] by simp
    qed simp
    then show ?thesis using gov_inv_complete [OF inv i np _ s] p' by simp
  next
    case False
    then have "t_unsafe (g_telemetry ?g)"
      using room at(2) interval by (fastforce simp: paced_def)
    then have "t_unsafe (g_telemetry g')" using s(1) by (simp add: settles_def)
    then show ?thesis using gov_inv_complete [OF inv i np _ s] p' by simp
  qed
qed

lemma quiet_Close: "quiet g (Governor_Close g)"
proof -
  let ?f = "\<lambda>a g. signalLocked a (set_waiter a (\<lambda>w. w\<lparr>w_removed := True\<rparr>) g)"
  let ?c = "g\<lparr>g_closed := True\<rparr>"
  have "queue_only ?c (fold ?f (g_queue g) ?c)"
    by (rule queue_only_fold) (rule queue_only_trans [OF queue_only_set_waiter queue_only_signal])
  then have "quiet ?c (fold ?f (g_queue g) ?c)" by (rule quiet_queue_only)
  moreover have "quiet g ?c" by (rule quiet_same) simp_all
  moreover have "quiet h (h\<lparr>g_queue := []\<rparr>)" for h by (rule quiet_same) simp_all
  ultimately have "quiet g ((fold ?f (g_queue g) ?c)\<lparr>g_queue := []\<rparr>)" using quiet_trans by blast
  then show ?thesis by (simp add: Governor_Close_def)
qed

lemma quiet_Snapshot: "quiet g (snd (Governor_Snapshot g))"
  using quiet_trans [OF quiet_expireLocked [OF order_refl] quiet_budget, of "g_now g" g "[]"]
  by (simp add: Governor_Snapshot_def Let_def split_beta)

lemma gov_inv_persist:
  assumes "gov_inv s" "Governor_PersistedState (sy_gov s) = (ps, g')"
  shows "gov_inv (s\<lparr>sy_gov := g', sy_disk := Some ps\<rparr>)"
proof -
  have g': "g' = expireLocked (g_now (sy_gov s)) (sy_gov s)" and ps: "ps = persistedStateLocked g'"
    using assms(2) by (auto simp: Governor_PersistedState_def Let_def)
  then have "quiet (sy_gov s) g'" by simp
  then have "gov_inv (s\<lparr>sy_gov := g'\<rparr>)" using gov_inv_quiet [OF assms(1)] by simp
  then show ?thesis
    using ps by (auto simp: gov_inv_def lane_inv_def safe_def disk_ok_def holders_def holds_def)
qed

lemma gov_inv_restart:
  assumes "gov_inv s" "sy_disk s = Some ps" "op_Restore op = Some ps" "g_now (sy_gov s) \<le> op_Now op"
    and "New (g_config (sy_gov s)) op = Inr g'"
  shows "gov_inv (s\<lparr>sy_gov := g', sy_permits := [], sy_refreshes := []\<rparr>)"
proof -
  obtain h where h: "ps = persistedStateLocked h" "g_config h = g_config (sy_gov s)" "base_ok h"
    "g_now h \<le> g_now (sy_gov s)" "t_unsafe (g_telemetry h) \<or> within h"
    using assms(1,2) by (auto simp: gov_inv_def disk_ok_def)
  have "g' = RestorePersistedState (persistedStateLocked h) (fresh_governor (g_config h) op)"
    using assms(3,5) h(1,2) by (simp add: New_def split: option.splits)
  from restart_within [OF h(3,5) _ this] h(4) assms(4)
  have r: "base_ok g'" "t_unsafe (g_telemetry g') \<or> within g'" "\<not> g_inFlight g'"
    "g_config g' = g_config h" "g_now g' = op_Now op" by auto
  have "disk_ok (s\<lparr>sy_gov := g', sy_permits := [], sy_refreshes := []\<rparr>)"
    using assms(1,4) r(4,5) h(2) disk_ok_mono [of s] by (simp add: gov_inv_def)
  with r show ?thesis by (simp add: gov_inv_def lane_inv_def safe_def holders_def)
qed

lemma handed_simps [simp]:
  "ad_Permit r = None \<Longrightarrow> handed r = []" "ad_Permit r = Some p \<Longrightarrow> handed r = [p]"
  by (simp_all add: handed_def)

lemma gov_inv_step: "gov_step s s' \<Longrightarrow> gov_inv s \<Longrightarrow> gov_inv s'"
proof (induction rule: gov_step.induct)
  case (tick s t)
  let ?s = "s\<lparr>sy_gov := (sy_gov s)\<lparr>g_now := t\<rparr>\<rparr>"
  have "lane_inv ?s" using tick by (auto simp: gov_inv_def lane_inv_def holds_def holders_def)
  moreover have "safe ?s"
    using tick tick_preds [OF tick(1)] by (auto simp: gov_inv_def safe_def holders_def)
  moreover have "disk_ok ?s" using tick disk_ok_mono [of s ?s] by (simp add: gov_inv_def)
  ultimately show ?case using tick tick_preds(1) [OF tick(1)] by (simp add: gov_inv_def)
next
  case (try_first s rq)
  then show ?case by (rule gov_inv_quiet) (simp_all add: tryAdmit_first_quiet)
next
  case (try_second ctx rq obs s r g')
  have "0 \<le> g_now (sy_gov s)" using try_second(2) by (simp add: gov_inv_def base_ok_def)
  from tryAdmit_second_cases [OF try_second(1) this] show ?case
  proof
    assume "ad_Permit r = None \<and> quiet (sy_gov s) g'"
    then show ?thesis by (intro gov_inv_quiet [OF try_second(2)]) simp_all
  next
    assume "\<exists>p. ad_Permit r = Some p \<and> pm_request p = rq \<and> grants (sy_gov s) p g'"
    then show ?thesis using gov_inv_grants [OF try_second(2)] by fastforce
  qed
next
  case (decide now s ctx a obs tn g')
  from queueAdmit_decide_cases [OF decide(3) less_imp_le [OF decide(1)] decide(2)] show ?case
  proof
    assume "(\<forall>r. tn = Return r \<longrightarrow> ad_Permit r = None) \<and> quiet (sy_gov s) g'"
    then show ?thesis
      by (intro gov_inv_quiet [OF decide(4)]) (auto simp: handed_turn_def split: turn.split)
  next
    assume "\<exists>r p. tn = Return r \<and> ad_Permit r = Some p \<and> grants (sy_gov s) p g'"
    then show ?thesis using gov_inv_grants [OF decide(4)] by (fastforce simp: handed_turn_def)
  qed
next
  case (start i s ra e p' g')
  then show ?case by (intro gov_inv_start)
next
  case (cancel_before i s e p' g')
  from CancelBeforeStart_cases [OF cancel_before(2)] cancel_before show ?case
    using gov_inv_unchanged gov_inv_releases by fastforce
next
  case (cancel_after i s r p' g')
  from CancelAfterStart_cases [OF cancel_after(2)] cancel_after show ?case
    using gov_inv_unchanged gov_inv_releases by fastforce
next
  case (finish i s j oc r p' g')
  from Permit_Finish_cases [OF finish(2)] finish show ?case
    using gov_inv_unchanged gov_inv_releases by fastforce
next
  case (finish_receipts i s marshal year j oc rset r p' g')
  then show ?case by (intro gov_inv_finish_receipts)
next
  case (refresh_begin s code g')
  then show ?case
    using quiet_BeginRefresh [of "sy_gov s"] by (intro gov_inv_quiet [OF refresh_begin(2)]) simp_all
next
  case (refresh_finish i s ok e f' g')
  then show ?case
    using quiet_RefreshFinish [of "sy_gov s" ok "sy_refreshes s ! i"]
    by (intro gov_inv_quiet [OF refresh_finish(3)]) simp_all
next
  case (persist s ps g')
  then show ?case by (intro gov_inv_persist)
next
  case (restart s ps op g')
  then show ?case by (intro gov_inv_restart)
qed (rule gov_inv_quiet; simp add: quiet_Close quiet_Snapshot)+

lemma Config_Validate_normalized:
  assumes "Config_Validate c = None"
  shows "config_ok (c\<lparr>cfg_AllowanceKind := EffectiveAllowanceKind c\<rparr>)"
proof -
  have k: "EffectiveAllowanceKind c = AllowanceKindForProfile (cfg_AllowanceProfile c)"
    "AllowanceKind_Valid (EffectiveAllowanceKind c)" using Config_Validate_kind [OF assms] by simp_all
  have eq: "validate_kind kd (c\<lparr>cfg_AllowanceKind := x\<rparr>) = validate_kind kd c"
    "validate_limits (c\<lparr>cfg_AllowanceKind := x\<rparr>) = validate_limits c" for kd x
    by (simp_all add: validate_kind_def validate_rolling_def validate_limits_def split: AllowanceKind.split)
  show ?thesis
    using assms k
    by (auto simp: config_ok_def Config_Validate_def eq Let_def EffectiveAllowanceKind_def
        split: if_splits AllowanceProfile.splits option.splits)
qed

lemma gov_inv_init: "gov_init s \<Longrightarrow> gov_inv s"
proof -
  assume "gov_init s"
  then obtain c op where new: "New c op = Inr (sy_gov s)" "op_Restore op = None" "0 < op_Now op"
    and e: "sy_permits s = []" "sy_disk s = None" by (auto simp: gov_init_def)
  then have val: "Config_Validate c = None" and g: "sy_gov s = fresh_governor c op"
    by (auto simp: New_def split: option.splits)
  have "base_ok (sy_gov s)" using Config_Validate_normalized [OF val] new(3) g
    by (simp add: base_ok_def fresh_governor_def)
  moreover from this have "0 \<le> cfg_TaskBudget (g_config (sy_gov s)) \<and> 0 \<le> cfg_RetryBudget (g_config (sy_gov s))"
    by (rule budgets_nonneg)
  moreover from \<open>base_ok (sy_gov s)\<close> have "ceilings_ok (g_config (sy_gov s))" by (rule base_ceilings)
  ultimately have "base_ok (sy_gov s) \<and> within (sy_gov s)"
    using new(3) g
    by (auto simp: within_def fresh_governor_def spaced_def windows_within_def tasks_within_def usage_def
        task_of_def ledger_count_eq ceilings_ok_def rollingBudgetsApply_def localNumericLayerApplies_def)
  then show ?thesis
    using e g by (simp add: gov_inv_def lane_inv_def safe_def disk_ok_def holders_def fresh_governor_def)
qed

interpretation gov: invariant_system gov_init gov_step gov_inv
  by unfold_locales (fact gov_inv_init, rule gov_inv_step)

abbreviation gov_reachable :: "System \<Rightarrow> bool" where
  "gov_reachable \<equiv> reach gov_init gov_step"

end
