(* ===== verification/Governor_Theorems.thy ===== *)
theory Governor_Theorems
  imports Governor_System
begin

text \<open>
  The properties of the account governor: what holds in every reachable state of the system,
  what each permit operation does to the account, and what survives a restart. The definitions
  at the head are a concrete system and its first steps, used by the witnesses.
\<close>

section \<open>A concrete system\<close>

definition demo_config :: Config where
  "demo_config = DefaultInstantConfig ''acct'' ''prov'' ''pool'' SafeRouteSafety"

definition demo_options :: Options where
  "demo_options = \<lparr>op_Now = 1000 * Hour, op_Telemetry = False, op_Events = False, op_Restore = None\<rparr>"

definition demo_request :: AttemptRequest where
  "demo_request =
     \<lparr>rq_TaskID = ''t1'', rq_WorkUnitID = [], rq_ClientRequestID = ''r1'', rq_ModelPool = ''pool'',
      rq_Retry = False,
      rq_ProviderRequest = \<lparr>pr_Protocol = [], pr_Prompt = ''hi'', pr_Model = [], pr_ClientRequestID = ''r1''\<rparr>\<rparr>"

definition background :: Ctx where
  "background = \<lparr>cx_Err = None, cx_Deadline = None\<rparr>"

definition demo0 :: System where
  "demo0 = \<lparr>sy_gov = fresh_governor demo_config demo_options, sy_permits = [], sy_refreshes = [], sy_disk = None\<rparr>"

definition demo1 :: System where
  "demo1 = (case tryAdmit_second background demo_request None (sy_gov demo0) of
     (r, g) \<Rightarrow> demo0\<lparr>sy_gov := g, sy_permits := sy_permits demo0 @ handed r\<rparr>)"

definition demo2 :: System where
  "demo2 = (case permit_start False (sy_permits demo1 ! 0) (sy_gov demo1) of
     (e, p, g) \<Rightarrow> demo1\<lparr>sy_gov := g, sy_permits := (sy_permits demo1)[0 := p]\<rparr>)"

section \<open>Exact facts about the debits\<close>

lemma unsafe_kept [simp]:
  "t_unsafe (g_telemetry (expireLocked now g)) = t_unsafe (g_telemetry g)"
  "t_unsafe (g_telemetry (snd (budgetLocked now t g))) = t_unsafe (g_telemetry g)"
  "t_unsafe (g_telemetry (debit_remaining g)) = t_unsafe (g_telemetry g)"
  "t_unsafe (g_telemetry (take_turn t g)) = t_unsafe (g_telemetry g)"
  by (simp_all add: expireLocked_def Let_def expire_telemetry_def budgetLocked_def split_beta
      taskRetryCountLocked_def debit_remaining_def take_turn_def split: option.split)

lemma permit_start_unsafe:
  "permit_start ra p g = (e, p', g') \<Longrightarrow> t_unsafe (g_telemetry g') = t_unsafe (g_telemetry g)"
  unfolding permit_start_def Let_def split_beta by (auto split: if_splits)

lemma quiet_active_usage:
  "quiet g h \<Longrightarrow> map_wf (g_tasks g) \<Longrightarrow> g_inFlight g \<Longrightarrow> usage h (g_activeTaskID g) = usage g (g_activeTaskID g)"
  by (auto simp: quiet_def forgets_def)

lemma quiet_wf:
  "quiet g h \<Longrightarrow> map_wf (g_tasks g) \<Longrightarrow> map_wf (g_tasks h)"
  "quiet g h \<Longrightarrow> ledger_wf (g_ledger g) \<Longrightarrow> ledger_wf (g_ledger h)"
  by (auto simp: quiet_def forgets_def shrinks_def)

lemma debits_exact:
  assumes "debits at ls t r g g'" "ledger_wf (g_ledger g)" "map_wf (g_tasks g)"
    and "g_inFlight g" "g_activeTaskID g = t" "w \<le> 3 * Hour"
  shows "ledger_count (g_ledger g') (g_now g) w =
      ledger_count (g_ledger g) (g_now g) w + (if g_now g - w < at then 1 else 0)"
    and "usage g' t = (fst (usage g t) + 1, snd (usage g t) + (if r then 1 else 0))"
    and "g_lastStart g' = ls" "g_inFlight g'" "g_now g' = g_now g"
proof -
  obtain h where h: "quiet g h" "quiet (basic_debit at ls t r h) g'" using assms(1) by (auto simp: debits_def)
  let ?b = "basic_debit at ls t r h"
  have wf: "ledger_wf (g_ledger h)" "map_wf (g_tasks h)" using quiet_wf [OF h(1)] assms(2,3) by simp_all
  have now: "g_now h = g_now g" using h(1) by (simp add: quiet_def)
  have "ledger_count (g_ledger g') (g_now g) w = ledger_count (g_ledger ?b) (g_now g) w"
    using h(2) shrinks_count [of "g_now g" "g_ledger ?b" "g_ledger g'" w] assms(6) now wf(1)
    by (simp add: quiet_def)
  also have "\<dots> = ledger_count (g_ledger h) (g_now g) w + (if g_now g - w < at then 1 else 0)"
    by (simp add: ledger_count_add wf(1))
  also have "ledger_count (g_ledger h) (g_now g) w = ledger_count (g_ledger g) (g_now g) w"
    using h(1) shrinks_count [of "g_now g" "g_ledger g" "g_ledger h" w] assms(2,6) by (simp add: quiet_def)
  finally show "ledger_count (g_ledger g') (g_now g) w =
      ledger_count (g_ledger g) (g_now g) w + (if g_now g - w < at then 1 else 0)" .
  have "usage h t = usage g t" using quiet_active_usage [OF h(1) assms(3,4)] assms(5) by simp
  moreover have "usage g' t = usage ?b t"
    using quiet_active_usage [OF h(2)] wf(2) h(1) assms(4,5) by (simp add: quiet_def)
  ultimately show "usage g' t = (fst (usage g t) + 1, snd (usage g t) + (if r then 1 else 0))"
    by (simp add: basic_debit_usage)
  show "g_lastStart g' = ls" "g_inFlight g'" "g_now g' = g_now g" using h assms(4) by (simp_all add: quiet_def)
qed

section \<open>The concrete system is reachable\<close>

lemma demo_config_fields [simp]:
  "cfg_Rolling3h demo_config = 140" "cfg_ManualReserve demo_config = 20"
  "cfg_Rolling1h demo_config = 80" "cfg_Rolling10m demo_config = 25"
  "cfg_TaskBudget demo_config = 80" "cfg_RetryBudget demo_config = 2"
  "cfg_QueueCapacity demo_config = 16" "cfg_FairnessQuantum demo_config = 1"
  "cfg_MinimumStartInterval demo_config = 5 * Second" "cfg_RateResponseWindow demo_config = Hour"
  "cfg_AllowanceKind demo_config = AllowanceKindPublishedQuota"
  by (simp_all add: demo_config_def DefaultInstantConfig_def)

lemma demo_config_kind: "demo_config\<lparr>cfg_AllowanceKind := EffectiveAllowanceKind demo_config\<rparr> = demo_config"
  by (simp add: demo_config_def EffectiveAllowanceKind_def DefaultInstantConfig_def)

lemma demo_config_valid: "Config_Validate demo_config = None"
  by code_simp

lemma demo0_init: "gov_init demo0"
  unfolding gov_init_def
  by (intro conjI exI [of _ demo_config] exI [of _ demo_options])
    (simp_all add: demo0_def New_def demo_config_valid demo_options_def)

lemma advance_head_stop:
  "\<not> (h < length evs \<and> \<not> c < le_at (evs ! h)) \<Longrightarrow> advance_head c evs h = h"
  by (simp add: advance_head.simps)

lemma search_range_empty: "\<not> i < j \<Longrightarrow> search_range f i j = i"
  by (simp add: search_range.simps)

lemmas run_retention =
  evict_small maxRetainedAttemptIDs_def maxRetainedTaskStates_def maxCompletedRequestIDs_def
  pruneAttemptIDsLocked_def pruneRetentionLocked_def requestSeenLocked_def expireLocked_def
  ledger_expire_def empty_ledger_def advance_head_stop search_range_empty expire_rate_events_def
  expire_telemetry_def sort_Search_def taskProtectedLocked_def requestRetentionWindow_def
  taskRetentionWindow_def attemptIDRetentionWindow_def

lemmas run_admission =
  tryAdmit_second_def try_precheck_def readTelemetry_def checkLocked_def Let_def check_circuit_def
  check_upstream_def taskLocked_def task_of_def check_task_def check_rolling_def check_pacing_def
  rollingBudgetsApply_def localNumericLayerApplies_def ledger_next_def ledger_count_def live_def
  grant_and_emit_def grantLocked_def emitAdmissionLocked_def reserveRequestLocked_def handed_def
  empty_result_def

lemmas run_demo =
  demo_options_def demo_request_def background_def fresh_governor_def demo_config_kind
  zero_circuit_def zero_telemetry_def

lemma demo1_eq:
  "demo1 =
     \<lparr>sy_gov =
        \<lparr>g_config = demo_config, g_now = 1000 * Hour, g_telemetrySource = False, g_events = False,
         g_closed = False, g_inFlight = True, g_queue = [], g_waiters = [], g_currentTask = [],
         g_consecutiveTurns = 0, g_lastStart = zero_time, g_nextAttempt = 1,
         g_ledger = empty_ledger,
         g_tasks = [(''t1'', \<lparr>ts_attempts = 0, ts_retries = 0, ts_lastTouched = 1000 * Hour\<rparr>)],
         g_requestIDs = [(''r1'', \<lparr>rr_state = requestPending, rr_completedAt = zero_time\<rparr>)],
         g_attemptIDs = [], g_completedRequestIDs = [], g_activeTaskID = ''t1'',
         g_circuit = zero_circuit, g_cooldownUntil = zero_time, g_telemetry = zero_telemetry,
         g_pendingEvents = [], g_drainingEvents = False\<rparr>,
      sy_permits = [fresh_permit demo_request True], sy_refreshes = [], sy_disk = None\<rparr>"
  by (simp add: demo1_def demo0_def run_demo run_admission run_retention fresh_permit_def
      cong: let_weak_cong prod.case_cong_weak if_weak_cong)

lemma demo1_facts:
  "sy_permits demo1 = [fresh_permit demo_request True]" "g_inFlight (sy_gov demo1)"
  "g_activeTaskID (sy_gov demo1) = ''t1''" "\<not> t_unsafe (g_telemetry (sy_gov demo1))"
  "g_config (sy_gov demo1) = demo_config" "g_now (sy_gov demo1) = 1000 * Hour"
  "usage (sy_gov demo1) ''t1'' = (0, 0)"
  by (simp_all add: demo1_eq zero_telemetry_def usage_def task_of_def)

lemma demo1_reach: "gov_reachable demo1"
proof -
  obtain r g where rg: "tryAdmit_second background demo_request None (sy_gov demo0) = (r, g)" by fastforce
  have "gov_step demo0 demo1" using gov_step.try_second [OF rg] rg by (simp add: demo1_def)
  moreover have "gov_reachable demo0" using demo0_init by (rule reach_init)
  ultimately show ?thesis by (metis reach_step)
qed

lemma demo2_step:
  obtains e p where "permit_start False (fresh_permit demo_request True) (sy_gov demo1) = (e, p, sy_gov demo2)"
    and "sy_permits demo2 = [p]" "gov_step demo1 demo2"
proof -
  obtain e p g where st: "permit_start False (fresh_permit demo_request True) (sy_gov demo1) = (e, p, g)"
    by (metis prod_cases3)
  then have d2: "demo2 = demo1\<lparr>sy_gov := g, sy_permits := (sy_permits demo1)[0 := p]\<rparr>"
    by (simp add: demo2_def demo1_facts)
  moreover have "gov_step demo1 demo2"
    using gov_step.start [of 0 demo1 False e p g] st d2 by (simp add: demo1_facts)
  moreover have "g = sy_gov demo2" "sy_permits demo2 = [p]" by (subst d2, simp add: demo1_facts(1))+
  ultimately show thesis using that [of e p] st by simp
qed

lemma demo2_reach: "gov_reachable demo2"
  using demo1_reach demo2_step reach_step by metis

lemma demo2_facts:
  "\<not> t_unsafe (g_telemetry (sy_gov demo2))" "g_config (sy_gov demo2) = demo_config"
  "usage (sy_gov demo2) ''t1'' = (1, 0)"
proof -
  obtain e p where st: "permit_start False (fresh_permit demo_request True) (sy_gov demo1) = (e, p, sy_gov demo2)"
    using demo2_step by metis
  show "\<not> t_unsafe (g_telemetry (sy_gov demo2))" using permit_start_unsafe [OF st] demo1_facts(4) by simp
  have base: "base_ok (sy_gov demo1)" using gov.inv_reach [OF demo1_reach] by (simp add: gov_inv_def)
  from permit_start_cases [OF st] have "e = None"
    using demo1_facts st by (auto simp: permit_start_def fresh_permit_def Let_def split_beta)
  with permit_start_cases [OF st]
  have d: "debits (g_now (sy_gov demo1)) (g_now (sy_gov demo1)) ''t1'' False (sy_gov demo1) (sy_gov demo2)"
    by (simp add: fresh_permit_def demo_request_def)
  show "g_config (sy_gov demo2) = demo_config"
    using d demo1_facts(5) by (auto simp: debits_def quiet_def)
  show "usage (sy_gov demo2) ''t1'' = (1, 0)"
    using debits_exact(2) [OF d _ _ demo1_facts(2,3), of 0] base demo1_facts(7) by (simp add: base_ok_def)
qed

section \<open>Invariants of every reachable state\<close>

text \<open>C1: the account has one lane. In every reachable state, whatever the interleaving of
  admissions, starts, cancellations, finishes, refreshes and restarts, the number of permits that
  are still open is one when the lane is taken and zero otherwise.\<close>

theorem lane_is_exclusive:
  assumes "gov_reachable s"
  shows "length (filter (\<lambda>p. \<not> pm_completed p) (sy_permits s)) = (if g_inFlight (sy_gov s) then 1 else 0)"
  using gov.inv_reach [OF assms] by (auto simp: gov_inv_def lane_inv_def holders_def)

theorem lane_is_exclusive_witness:
  "gov_reachable demo1 \<and> g_inFlight (sy_gov demo1)
   \<and> length (filter (\<lambda>p. \<not> pm_completed p) (sy_permits demo1)) = 1"
  using lane_is_exclusive [OF demo1_reach] demo1_reach demo1_facts(2) by simp

text \<open>C2: the rolling ceilings are never exceeded. In every reachable state whose route has not
  been marked unsafe, under a quota or unknown allowance, the ledger counts at most the
  configured number of attempts in each of the three rolling windows, restarts included.\<close>

theorem rolling_ceilings_hold:
  assumes "gov_reachable s" "\<not> t_unsafe (g_telemetry (sy_gov s))"
    and "cfg_AllowanceKind (g_config (sy_gov s)) \<noteq> AllowanceKindUnlimitedText"
  shows "ledger_count (g_ledger (sy_gov s)) (g_now (sy_gov s)) (3 * Hour) \<le> cfg_Rolling3h (g_config (sy_gov s))
    \<and> ledger_count (g_ledger (sy_gov s)) (g_now (sy_gov s)) Hour \<le> cfg_Rolling1h (g_config (sy_gov s))
    \<and> ledger_count (g_ledger (sy_gov s)) (g_now (sy_gov s)) (10 * Minute) \<le> cfg_Rolling10m (g_config (sy_gov s))"
  using gov.inv_reach [OF assms(1)] assms(2,3)
  by (simp add: gov_inv_def safe_def within_def windows_within_def rollingBudgetsApply_def localNumericLayerApplies_def)

theorem rolling_ceilings_hold_witness:
  "gov_reachable demo2 \<and> \<not> t_unsafe (g_telemetry (sy_gov demo2))
   \<and> ledger_count (g_ledger (sy_gov demo2)) (g_now (sy_gov demo2)) (3 * Hour) \<le> 140"
  using rolling_ceilings_hold [OF demo2_reach] demo2_reach demo2_facts by simp

text \<open>C3: task and retry budgets are never exceeded. In every reachable state whose route has not
  been marked unsafe, no task has more attempts than the task budget or more retries than the
  retry budget.\<close>

theorem task_budgets_hold:
  assumes "gov_reachable s" "\<not> t_unsafe (g_telemetry (sy_gov s))"
  shows "ts_attempts (task_of (sy_gov s) t) \<le> cfg_TaskBudget (g_config (sy_gov s))
    \<and> ts_retries (task_of (sy_gov s) t) \<le> cfg_RetryBudget (g_config (sy_gov s))"
  using gov.inv_reach [OF assms(1)] assms(2)
  by (simp add: gov_inv_def safe_def within_def tasks_within_def usage_def)

theorem task_budgets_hold_witness:
  "gov_reachable demo2 \<and> ts_attempts (task_of (sy_gov demo2) ''t1'') = 1
   \<and> ts_attempts (task_of (sy_gov demo2) ''t1'') \<le> 80 \<and> ts_retries (task_of (sy_gov demo2) ''t1'') \<le> 2"
  using task_budgets_hold [OF demo2_reach, of "''t1''"] demo2_reach demo2_facts by (simp add: usage_def)

text \<open>C4: pacing. In every reachable state whose route has not been marked unsafe, the recorded
  attempts are in order and every two of them are at least the minimum start interval apart.\<close>

theorem starts_are_paced:
  assumes "gov_reachable s" "\<not> t_unsafe (g_telemetry (sy_gov s))"
  shows "sorted_wrt (\<lambda>a b. le_at a + cfg_MinimumStartInterval (g_config (sy_gov s)) \<le> le_at b)
    (live (g_ledger (sy_gov s)))"
  using gov.inv_reach [OF assms(1)] assms(2) by (simp add: gov_inv_def safe_def within_def spaced_def)

theorem starts_are_paced_witness:
  "gov_reachable demo2 \<and> \<not> t_unsafe (g_telemetry (sy_gov demo2))
   \<and> sorted_wrt (\<lambda>a b. le_at a + 5 * Second \<le> le_at b) (live (g_ledger (sy_gov demo2)))"
  using starts_are_paced [OF demo2_reach] demo2_reach demo2_facts by simp

end
