(* ===== verification/Governor_Operations.thy ===== *)
theory Governor_Operations
  imports Governor_Theorems
begin

text \<open>
  What the single operations of the governor do: the admission decision, the debits of starting
  and finishing, the circuit after a security signal, the queue, retention and restart.
\<close>

section \<open>Admission\<close>

text \<open>C6: the admission check is exactly the conjunction of the protection gates. It passes
  precisely when, in the state it leaves, the lane is free, the route is not unsafe, no refresh or
  human review is pending and the circuit is not open, upstream circuit, cooldown and upstream
  allowance are clear, task and retry budgets have room, the three rolling windows have room
  where they apply, and the minimum interval since the last start has passed.\<close>

theorem admission_check_is_the_gates:
  assumes "0 \<le> now" "ceilings_ok (g_config g)"
  shows "fst (checkLocked now rq g) = pass \<longleftrightarrow> admissible now rq (snd (checkLocked now rq g))"
  using assms by (rule checkLocked_spec)

lemma demo0_check:
  "fst (checkLocked (1000 * Hour) demo_request (sy_gov demo0)) = pass"
  by (simp add: demo0_def run_demo run_admission run_retention
      cong: let_weak_cong prod.case_cong_weak if_weak_cong)

theorem admission_check_is_the_gates_witness:
  "ceilings_ok (g_config (sy_gov demo0))
   \<and> admissible (1000 * Hour) demo_request (snd (checkLocked (1000 * Hour) demo_request (sy_gov demo0)))"
proof -
  have ok: "ceilings_ok (g_config (sy_gov demo0))"
    by (simp add: ceilings_ok_def demo0_def fresh_governor_def demo_config_kind)
  show ?thesis
    using admission_check_is_the_gates [of "1000 * Hour", OF _ ok, of demo_request] ok demo0_check by simp
qed

text \<open>An unsafe route admits nobody. While the route is marked unsafe, neither the immediate
  nor the queued admission hands out a permit, whatever telemetry reports.\<close>

theorem unsafe_route_admits_nobody:
  assumes "t_unsafe (g_telemetry g)" "0 \<le> g_now g" "0 \<le> now" "now \<le> g_now g" "ceilings_ok (g_config g)"
  shows "ad_Permit (fst (tryAdmit_second ctx rq obs g)) = None
    \<and> handed_turn (fst (queueAdmit_decide ctx a obs now g)) = []"
proof -
  have no: "\<not> grants g p g'" for p g'
    using assms(1,5) by (auto simp: grants_def admissible_def quiet_def)
  obtain r g1 where r: "tryAdmit_second ctx rq obs g = (r, g1)" by fastforce
  obtain tn g2 where tn: "queueAdmit_decide ctx a obs now g = (tn, g2)" by fastforce
  show ?thesis
    using tryAdmit_second_cases [OF r assms(2)] queueAdmit_decide_cases [OF tn assms(3,4)] no r tn
    by (auto simp: handed_turn_def split: turn.split)
qed

definition unsafe_governor :: Governor where
  "unsafe_governor = (sy_gov demo0)\<lparr>g_telemetry := zero_telemetry\<lparr>t_unsafe := True\<rparr>\<rparr>"

theorem unsafe_route_admits_nobody_witness:
  "ad_Permit (fst (tryAdmit_second background demo_request None unsafe_governor)) = None"
  using unsafe_route_admits_nobody [of unsafe_governor "g_now unsafe_governor" background demo_request None 0]
  by (simp add: unsafe_governor_def demo0_def fresh_governor_def demo_config_kind ceilings_ok_def demo_options_def)

section \<open>Debits\<close>

text \<open>C10: starting a plain permit debits the account exactly once. A successful start adds one
  attempt to every window of at most three hours, one attempt and, for a retry, one retry to the
  task, and sets the last start to now.\<close>

theorem start_debits_once:
  assumes "permit_start False p g = (None, p', g')" "ledger_wf (g_ledger g)" "map_wf (g_tasks g)"
    and "g_activeTaskID g = rq_TaskID (pm_request p)" "0 < w" "w \<le> 3 * Hour"
  shows "ledger_count (g_ledger g') (g_now g) w = ledger_count (g_ledger g) (g_now g) w + 1
    \<and> usage g' (rq_TaskID (pm_request p)) =
        (fst (usage g (rq_TaskID (pm_request p))) + 1,
         snd (usage g (rq_TaskID (pm_request p))) + (if rq_Retry (pm_request p) then 1 else 0))
    \<and> g_lastStart g' = g_now g \<and> pm_started p' \<and> \<not> pm_completed p'"
proof -
  from permit_start_cases [OF assms(1)]
  have d: "debits (g_now g) (g_now g) (rq_TaskID (pm_request p)) (rq_Retry (pm_request p)) g g'"
    and fl: "g_inFlight g" and p': "pm_started p'" "\<not> pm_completed p'" by auto
  from debits_exact [OF d assms(2,3) fl assms(4,6)] assms(5) p' show ?thesis by simp
qed

lemma demo1_wf: "ledger_wf (g_ledger (sy_gov demo1))" "map_wf (g_tasks (sy_gov demo1))"
  using gov.inv_reach [OF demo1_reach] by (simp_all add: gov_inv_def base_ok_def)

lemma demo2_started:
  obtains p where "permit_start False (fresh_permit demo_request True) (sy_gov demo1) = (None, p, sy_gov demo2)"
proof -
  obtain e p where st: "permit_start False (fresh_permit demo_request True) (sy_gov demo1) = (e, p, sy_gov demo2)"
    using demo2_step by metis
  then have "e = None" using demo1_facts(2) by (auto simp: permit_start_def fresh_permit_def Let_def split_beta)
  with st that show thesis by simp
qed

theorem start_debits_once_witness:
  "ledger_count (g_ledger (sy_gov demo1)) (1000 * Hour) Hour = 0
   \<and> ledger_count (g_ledger (sy_gov demo2)) (1000 * Hour) Hour = 1
   \<and> g_lastStart (sy_gov demo2) = 1000 * Hour"
proof -
  obtain p where st: "permit_start False (fresh_permit demo_request True) (sy_gov demo1) = (None, p, sy_gov demo2)"
    using demo2_started .
  have zero: "ledger_count (g_ledger (sy_gov demo1)) (1000 * Hour) Hour = 0"
    by (simp add: demo1_eq ledger_count_eq)
  from start_debits_once [OF st demo1_wf, of Hour] zero demo1_facts(3,6) show ?thesis
    by (simp add: fresh_permit_def demo_request_def)
qed

text \<open>C11: an open permit finishes exactly once. Every way to finish a started permit completes it
  and frees the lane, and on a completed permit every operation reports the completion and leaves
  permit and governor as they were.\<close>

theorem permits_complete_once:
  assumes "pm_completed p"
  shows "permit_start ra p g = (Some ErrPermitCompleted, p, g)
    \<and> CancelBeforeStart p g = (Some ErrPermitCompleted, p, g)
    \<and> CancelAfterStart p g = (finish_error ErrPermitCompleted, p, g)
    \<and> Permit_Finish j oc p g = (finish_error ErrPermitCompleted, p, g)
    \<and> FinishWithAttemptReceipts marshal year j oc rset p g = (finish_error ErrPermitCompleted, p, g)"
  using assms
  by (simp add: permit_start_def CancelBeforeStart_def CancelAfterStart_def Permit_Finish_def
      FinishWithAttemptReceipts_def)

theorem permits_complete_once_witness:
  "CancelAfterStart ((fresh_permit demo_request True)\<lparr>pm_completed := True\<rparr>) (sy_gov demo1) =
     (finish_error ErrPermitCompleted, (fresh_permit demo_request True)\<lparr>pm_completed := True\<rparr>, sy_gov demo1)"
  using permits_complete_once [of "(fresh_permit demo_request True)\<lparr>pm_completed := True\<rparr>" False "sy_gov demo1"]
  by simp

text \<open>C5: attempt receipts cannot hide upstream attempts. Finishing an open receipt-aware permit
  always completes it and frees the lane; unless the route ends up marked unsafe, the account was
  debited exactly one attempt, inside every window that reaches back past the start.\<close>

theorem receipts_debit_or_mark_unsafe:
  assumes "FinishWithAttemptReceipts marshal year j oc rset p g = (r, p', g')"
    and "\<not> pm_completed p" "pm_started p" "pm_receiptAware p"
    and "pm_startedAt p \<le> g_now g" "0 < pm_startedAt p" "g_lastStart g \<le> pm_startedAt p"
    and "ledger_wf (g_ledger g)" "map_wf (g_tasks g)" "g_inFlight g"
    and "g_activeTaskID g = rq_TaskID (pm_request p)" "g_now g - pm_startedAt p < w" "w \<le> 3 * Hour"
  shows "pm_completed p' \<and> \<not> g_inFlight g'
    \<and> (t_unsafe (g_telemetry g')
       \<or> ledger_count (g_ledger g') (g_now g) w = ledger_count (g_ledger g) (g_now g) w + 1)"
proof -
  note shape = FinishWithAttemptReceipts_shape [OF assms(1-4)]
  from FinishWithAttemptReceipts_debit [OF assms(1-7)]
  have "t_unsafe (g_telemetry g')
    \<or> ledger_count (g_ledger g') (g_now g) w = ledger_count (g_ledger g) (g_now g) w + 1"
  proof
    assume "\<exists>at h. pm_startedAt p \<le> at \<and> at \<le> g_now g
      \<and> debits at at (rq_TaskID (pm_request p)) (rq_Retry (pm_request p)) g h \<and> releases h g'"
    then obtain at h where at: "pm_startedAt p \<le> at"
      and d: "debits at at (rq_TaskID (pm_request p)) (rq_Retry (pm_request p)) g h"
      and rel: "releases h g'" by blast
    note ex = debits_exact [OF d assms(8-11,13)]
    obtain k where k: "quiet h k" "quiet (free_lane k) g'" using rel by (auto simp: releases_def)
    have wfh: "ledger_wf (g_ledger h)"
      using d assms(8) quiet_wf(2) by (fastforce simp: debits_def)
    then have wfk: "ledger_wf (g_ledger k)" using quiet_wf(2) [OF k(1)] by simp
    have "ledger_count (g_ledger g') (g_now g) w = ledger_count (g_ledger k) (g_now g) w"
      using k shrinks_count [of "g_now k" "g_ledger k" "g_ledger g'" w "g_now g"] wfk ex(5) assms(13)
      by (simp add: quiet_def free_lane_def)
    also have "\<dots> = ledger_count (g_ledger h) (g_now g) w"
      using k(1) shrinks_count [of "g_now h" "g_ledger h" "g_ledger k" w "g_now g"] wfh ex(5) assms(13)
      by (simp add: quiet_def)
    finally show ?thesis using ex(1) at assms(12) by simp
  qed simp
  with shape show ?thesis by simp
qed

definition receipt_permit :: Permit where
  "receipt_permit = (fresh_permit demo_request True)
     \<lparr>pm_started := True, pm_receiptAware := True, pm_startedAt := 1000 * Hour\<rparr>"

theorem receipts_debit_or_mark_unsafe_witness:
  "\<exists>r p' g'. FinishWithAttemptReceipts (\<lambda>_. None) (\<lambda>_. 2026) (\<lambda>b _. b) (outcome_of_class OutcomeSuccess)
       None receipt_permit (sy_gov demo1) = (r, p', g') \<and> pm_completed p' \<and> \<not> g_inFlight g'"
proof -
  obtain r p' g' where fin: "FinishWithAttemptReceipts (\<lambda>_. None) (\<lambda>_. 2026) (\<lambda>b _. b)
      (outcome_of_class OutcomeSuccess) None receipt_permit (sy_gov demo1) = (r, p', g')"
    by (metis prod_cases3)
  have "g_lastStart (sy_gov demo1) = 0" by (simp add: demo1_eq)
  then show ?thesis
    using receipts_debit_or_mark_unsafe [OF fin, of Hour] fin demo1_wf demo1_facts
    by (simp add: receipt_permit_def fresh_permit_def demo_request_def)
qed

section \<open>Circuit\<close>

lemma transition_state [simp]: "c_state (g_circuit (transitionCircuitLocked st r u g)) = st"
  by (simp add: transitionCircuitLocked_def Let_def queueEventLocked_def)

lemma expire_circuit_state [simp]: "c_state (g_circuit (expireLocked now g)) = c_state (g_circuit g)"
  "c_refreshRequired (g_circuit (expireLocked now g)) = c_refreshRequired (g_circuit g)"
  by (simp_all add: expireLocked_def Let_def)

lemma budget_circuit_state [simp]: "c_state (g_circuit (snd (budgetLocked now t g))) = c_state (g_circuit g)"
  by (simp add: budgetLocked_def Let_def split_beta taskRetryCountLocked_def)




text \<open>A repeated rate signal of the telemetry source replaces a pending human review. When
  telemetry reports a rate limit or exhausted capacity and both the stored and the reported reset
  lie in the future, the circuit becomes a timed one whatever it was before, so a circuit that
  required a human acknowledgement closes by itself when the window has passed.\<close>

theorem telemetry_replaces_human_review:
  assumes "c_state (g_circuit g) = CircuitHumanReviewRequired"
    and "sn_RateLimited s \<or> sn_CapacityExhausted s"
    and "now < t_resetAt (g_telemetry g)" "now < sn_ResetAt s"
  shows "c_state (g_circuit (applyTelemetryLocked s now g)) = CircuitOpenUntil
    \<and> c_openUntil (g_circuit (applyTelemetryLocked s now g)) =
        max (t_resetAt (g_telemetry g)) (sn_ResetAt s) + cfg_ResetSafetyMargin (g_config g)"
proof -
  have open_until: "c_openUntil (g_circuit (transitionCircuitLocked st r u h)) = u" for st r u h
    by (simp add: transitionCircuitLocked_def Let_def queueEventLocked_def)
  show ?thesis
    using assms(2-4) by (simp add: applyTelemetryLocked_def Let_def split_beta open_until max_def)
qed

definition review_governor :: Governor where
  "review_governor = (sy_gov demo0)\<lparr>g_circuit := zero_circuit\<lparr>c_state := CircuitHumanReviewRequired\<rparr>,
     g_telemetry := zero_telemetry\<lparr>t_resetAt := 1001 * Hour\<rparr>\<rparr>"

definition rate_limited_snapshot :: TelemetrySnapshot where
  "rate_limited_snapshot =
     \<lparr>sn_Remaining = None, sn_ResetAt = 1002 * Hour, sn_CooldownUntil = zero_time, sn_RetryAfter = 0,
      sn_RateLimited = True, sn_CapacityExhausted = False, sn_UpstreamCircuit = UpstreamCircuitUnknown,
      sn_RouteSafety = None\<rparr>"

theorem telemetry_replaces_human_review_witness:
  "c_state (g_circuit review_governor) = CircuitHumanReviewRequired
   \<and> c_state (g_circuit (applyTelemetryLocked rate_limited_snapshot (1000 * Hour) review_governor)) = CircuitOpenUntil"
  using telemetry_replaces_human_review [of review_governor rate_limited_snapshot "1000 * Hour"]
  by (simp add: review_governor_def rate_limited_snapshot_def)

section \<open>Queue\<close>

lemma first_index_bound: "first_index P xs i = Some k \<Longrightarrow> i \<le> k \<and> k < i + length xs \<and> P (xs ! (k - i))
    \<and> (\<forall>j < k - i. \<not> P (xs ! j))"
proof (induction xs arbitrary: i)
  case (Cons x xs)
  show ?case
  proof (cases "P x")
    case True
    then show ?thesis using Cons.prems by auto
  next
    case False
    then have "first_index P xs (Suc i) = Some k" using Cons.prems by simp
    note ih = Cons.IH [OF this]
    then obtain m where "k = Suc i + m" using le_iff_add by blast
    with ih False show ?thesis by (auto simp: nth_Cons split: nat.splits)
  qed
qed simp

lemma first_index_None: "first_index P xs i = None \<longleftrightarrow> (\<forall>x \<in> set xs. \<not> P x)"
  by (induction xs arbitrary: i) auto

text \<open>Fair turns. The next waiter is the head of the queue, except when the current task has
  used up its consecutive turns and another task waits: then it is the first waiter of another
  task. An empty queue has no next waiter.\<close>

theorem fair_turns:
  "case eligibleIndexLocked g of
     None \<Rightarrow> g_queue g = []
   | Some i \<Rightarrow> i < length (g_queue g)
      \<and> (if g_currentTask g \<noteq> [] \<and> cfg_FairnessQuantum (g_config g) \<le> g_consecutiveTurns g
             \<and> (\<exists>a \<in> set (g_queue g). queue_task g a \<noteq> g_currentTask g)
         then queue_task g (g_queue g ! i) \<noteq> g_currentTask g
              \<and> (\<forall>j < i. queue_task g (g_queue g ! j) = g_currentTask g)
         else i = 0)"
  using first_index_bound [of "\<lambda>a. queue_task g a \<noteq> g_currentTask g" "g_queue g" 0]
    first_index_None [of "\<lambda>a. queue_task g a \<noteq> g_currentTask g" "g_queue g" 0]
  by (auto simp: eligibleIndexLocked_def split: option.splits)

definition waiter_for :: "string \<Rightarrow> waiter" where
  "waiter_for t = \<lparr>w_request = demo_request\<lparr>rq_TaskID := t\<rparr>, w_notify = 0, w_checking = False, w_removed = False\<rparr>"

definition queued_governor :: Governor where
  "queued_governor = (sy_gov demo0)\<lparr>g_queue := [0, 1], g_waiters := [(0, waiter_for ''t1''), (1, waiter_for ''t2'')],
     g_currentTask := ''t1'', g_consecutiveTurns := 1\<rparr>"

theorem fair_turns_witness:
  "eligibleIndexLocked queued_governor = Some 1 \<and> queue_task queued_governor (g_queue queued_governor ! 1) \<noteq> ''t1''"
proof -
  have "eligibleIndexLocked queued_governor = Some 1"
    by (simp add: eligibleIndexLocked_def queued_governor_def demo0_def fresh_governor_def demo_config_kind
        queue_task_def waiter_of_def waiter_for_def)
  moreover have "\<exists>a \<in> set (g_queue queued_governor). queue_task queued_governor a \<noteq> g_currentTask queued_governor"
    by (simp add: queued_governor_def queue_task_def waiter_of_def waiter_for_def)
  moreover have "g_currentTask queued_governor = ''t1''" "g_consecutiveTurns queued_governor = 1"
    "cfg_FairnessQuantum (g_config queued_governor) = 1"
    by (simp_all add: queued_governor_def demo0_def fresh_governor_def demo_config_kind)
  ultimately show ?thesis using fair_turns [of queued_governor] by auto
qed

text \<open>A signal closes the channel of its waiter and of no other.\<close>

lemma waiter_of_signal:
  "waiter_of (signalLocked b g) a =
     map_option (\<lambda>w. if a = b then w\<lparr>w_notify := Suc (w_notify w)\<rparr> else w) (waiter_of g a)"
proof -
  have "map_of (map (\<lambda>(c, w). if c = b then (c, f w) else (c, w)) ws) a =
      map_option (\<lambda>w. if a = b then f w else w) (map_of ws a)" for ws :: "(nat \<times> waiter) list" and f
    by (induction ws) auto
  then show ?thesis by (simp add: waiter_of_def signalLocked_def set_waiter_def)
qed

lemma waiter_of_signals:
  assumes "waiter_of g a = Some w"
  shows "\<exists>w'. waiter_of (fold signalLocked q g) a = Some w' \<and> w_notify w' = w_notify w + count_list q a
    \<and> w_request w' = w_request w \<and> w_removed w' = w_removed w \<and> w_checking w' = w_checking w"
  using assms
proof (induction q arbitrary: g w)
  case (Cons b q)
  have "waiter_of (signalLocked b g) a = Some (if a = b then w\<lparr>w_notify := Suc (w_notify w)\<rparr> else w)"
    using Cons.prems by (simp add: waiter_of_signal)
  from Cons.IH [OF this] show ?case by auto
qed simp

text \<open>No lost wake-up. When a permit finishes, is cancelled or a waiter leaves, the lane's
  release closes the channel every queued waiter is blocked on, so a waiter that blocked on the
  current channel can proceed.\<close>

theorem release_wakes_every_waiter:
  assumes "a \<in> set (g_queue g)" "waiter_of g a = Some w"
  shows "waitForChange_ready a (w_notify w) zero_time (release_lane g)"
proof -
  let ?h = "g\<lparr>g_inFlight := False, g_activeTaskID := []\<rparr>"
  have "waiter_of ?h a = Some w" using assms(2) by (simp add: waiter_of_def)
  from waiter_of_signals [OF this, of "g_queue g"] obtain w'
    where "waiter_of (release_lane g) a = Some w'" "w_notify w' = w_notify w + count_list (g_queue g) a"
    by (auto simp: release_lane_def signalAllLocked_def)
  moreover have "0 < count_list (g_queue g) a" using assms(1) by (metis count_list_0_iff gr0I)
  ultimately show ?thesis by (simp add: waitForChange_ready_def)
qed

theorem release_wakes_every_waiter_witness:
  "waitForChange_ready 1 0 zero_time (release_lane queued_governor)"
  using release_wakes_every_waiter [of 1 queued_governor "waiter_for ''t2''"]
  by (simp add: queued_governor_def waiter_of_def waiter_for_def)

section \<open>Construction and restart\<close>

lemma start_circuit_frames [simp]:
  "g_circuit (debit_remaining g) = g_circuit g" "g_circuit (take_turn t g) = g_circuit g"
  "g_circuit (debit_task t r g) = g_circuit g"
  by (simp_all add: debit_remaining_def take_turn_def debit_task_def Let_def split_beta split: option.split)

lemma permit_start_circuit:
  "permit_start ra p g = (e, p', g') \<Longrightarrow> c_state (g_circuit g') = c_state (g_circuit g)"
  unfolding permit_start_def Let_def split_beta by (auto split: if_splits)

text \<open>Construction fails closed. A governor is only ever constructed from a configuration that
  passed validation; its allowance kind is a concrete kind that agrees with the profile, all limits
  are positive, exactly one accounting mode is required and, unless the allowance is unlimited
  text, the three rolling ceilings are positive and ordered.\<close>

theorem construction_fails_closed:
  assumes "New c op = Inr g" "op_Restore op = None"
  shows "Config_Validate c = None
    \<and> cfg_AllowanceKind (g_config g) = AllowanceKindForProfile (cfg_AllowanceProfile c)
    \<and> AllowanceKind_Valid (cfg_AllowanceKind (g_config g))
    \<and> 0 < cfg_TaskBudget (g_config g) \<and> 0 < cfg_QueueCapacity (g_config g)
    \<and> 0 < cfg_MinimumStartInterval (g_config g)
    \<and> cfg_RequireSingleAttempt (g_config g) \<noteq> cfg_RequireAttemptReceipts (g_config g)
    \<and> (cfg_AllowanceKind (g_config g) \<noteq> AllowanceKindUnlimitedText \<longrightarrow>
         0 < cfg_Rolling10m (g_config g) \<and> cfg_Rolling10m (g_config g) < cfg_Rolling1h (g_config g)
         \<and> cfg_Rolling1h (g_config g) < cfg_Rolling3h (g_config g))"
proof -
  have val: "Config_Validate c = None" and g: "g = fresh_governor c op"
    using assms by (auto simp: New_def split: option.splits)
  note kind = Config_Validate_kind [OF val] and lim = Config_Validate_limits [OF val]
  show ?thesis using val g kind lim by (auto simp: fresh_governor_def validate_rolling_None)
qed

theorem construction_fails_closed_witness:
  "New demo_config demo_options = Inr (sy_gov demo0)
   \<and> cfg_Rolling10m (g_config (sy_gov demo0)) < cfg_Rolling1h (g_config (sy_gov demo0))"
proof -
  have "New demo_config demo_options = Inr (sy_gov demo0)"
    by (simp add: New_def demo_config_valid demo_options_def demo0_def)
  then show ?thesis
    using construction_fails_closed [of demo_config demo_options "sy_gov demo0"]
    by (simp add: demo_options_def demo0_def fresh_governor_def demo_config_kind)
qed

text \<open>C7: a restart does not reset account protection. A governor constructed from the persisted
  projection of another one counts the same attempts in every window of at most three hours, now
  and later, and has the same last start, cooldown and telemetry evidence. Its circuit has the same
  state, reason, deadline, refresh flag and rate evidence, except that no credential refresh is in
  flight and a timed circuit whose window has passed is closed with no reason and no deadline. The
  record of every task is the same, unless retention forgets it, and then the task has been idle for
  the retention window or there are more tasks than are kept.\<close>

theorem restart_keeps_protection:
  assumes "ledger_wf (g_ledger g)" "map_wf (g_tasks g)"
    and "\<forall>e \<in> set (live (g_ledger g)). 0 < le_at e" "w \<le> 3 * Hour" "op_Now op \<le> t"
    and "c_state (g_circuit g) \<noteq> CircuitEmpty"
    and "r = RestorePersistedState (persistedStateLocked g) (fresh_governor c op)"
  shows "ledger_count (g_ledger r) t w = ledger_count (g_ledger g) t w
    \<and> g_lastStart r = g_lastStart g \<and> g_cooldownUntil r = g_cooldownUntil g
    \<and> g_telemetry r = g_telemetry g
    \<and> g_circuit r =
        (if c_state (g_circuit g) = CircuitOpenUntil \<and> \<not> is_zero (c_openUntil (g_circuit g)) \<and> c_openUntil (g_circuit g) \<le> op_Now op
         then (g_circuit g)\<lparr>c_state := CircuitClosed, c_reason := OutcomeEmpty, c_openUntil := zero_time, c_refreshInFlight := False\<rparr>
         else (g_circuit g)\<lparr>c_refreshInFlight := False\<rparr>)
    \<and> (map_get (g_tasks r) task = map_get (g_tasks g) task
       \<or> map_get (g_tasks r) task = None
         \<and> (\<exists>st. map_get (g_tasks g) task = Some st
              \<and> (ts_lastTouched st \<le> op_Now op - taskRetentionWindow \<or> maxRetainedTaskStates < length (g_tasks g))))"
proof -
  let ?s = "restored (persistedStateLocked g) (fresh_governor c op)"
  note f = restored_fields [OF assms(2,3), of c op]
  have r: "r = pruneRetentionLocked (op_Now op) ?s"
    using assms(7) by (simp add: RestorePersistedState_restored fresh_governor_def)
  have "ledger_count (g_ledger r) t w = ledger_count (g_ledger g) t w" unfolding r by (simp add: ledger_count_eq f(1))
  moreover have "g_lastStart r = g_lastStart g" "g_cooldownUntil r = g_cooldownUntil g" "g_telemetry r = g_telemetry g"
    unfolding r using f(4-6) by simp_all
  moreover have "g_circuit r = g_circuit ?s" unfolding r by simp
  moreover have "map_get (g_tasks r) task = map_get (g_tasks g) task
       \<or> map_get (g_tasks r) task = None
         \<and> (\<exists>st. map_get (g_tasks g) task = Some st
              \<and> (ts_lastTouched st \<le> op_Now op - taskRetentionWindow \<or> maxRetainedTaskStates < length (g_tasks g)))"
    using pruned_task_lost [of ?s "op_Now op" task] assms(2) unfolding r f(3) by blast
  ultimately show ?thesis using restored_circuit [OF assms(6)] by (simp only: simp_thms)
qed
theorem restart_keeps_protection_witness:
  "ledger_count (g_ledger (RestorePersistedState (persistedStateLocked (sy_gov demo2))
       (fresh_governor demo_config demo_options))) (1000 * Hour) Hour =
     ledger_count (g_ledger (sy_gov demo2)) (1000 * Hour) Hour"
proof -
  have inv: "gov_inv demo2" using gov.inv_reach [OF demo2_reach] .
  then have w: "within (sy_gov demo2)" "base_ok (sy_gov demo2)"
    using demo2_facts(1) by (auto simp: gov_inv_def safe_def)
  have "c_state (g_circuit (sy_gov demo2)) \<noteq> CircuitEmpty"
  proof -
    obtain p where "permit_start False (fresh_permit demo_request True) (sy_gov demo1) = (None, p, sy_gov demo2)"
      using demo2_started .
    then have "c_state (g_circuit (sy_gov demo2)) = c_state (g_circuit (sy_gov demo1))"
      by (rule permit_start_circuit)
    then show ?thesis by (simp add: demo1_eq zero_circuit_def)
  qed
  moreover have "ledger_wf (g_ledger (sy_gov demo2))" "map_wf (g_tasks (sy_gov demo2))"
    "\<forall>e \<in> set (live (g_ledger (sy_gov demo2))). 0 < le_at e"
    using w by (simp_all add: within_def base_ok_def)
  moreover have "Hour \<le> 3 * Hour" "op_Now demo_options \<le> 1000 * Hour" by (simp_all add: demo_options_def)
  ultimately show ?thesis
    using restart_keeps_protection [OF _ _ _ _ _ _ refl, of "sy_gov demo2" Hour demo_options "1000 * Hour" demo_config]
    by blast
qed

section \<open>Ledger, receipts and retention\<close>

text \<open>The wait the ledger announces is right. With a positive ceiling it announces no wait
  exactly when the window has room; otherwise the announced instant lies in the future and waiting
  until it frees at least one slot of the window.\<close>

theorem announced_wait_frees_a_slot:
  assumes "0 < ceiling" "0 \<le> now"
  shows "(ledger_next l now w ceiling = zero_time \<longleftrightarrow> ledger_count l now w < ceiling)
    \<and> (ledger_next l now w ceiling \<noteq> zero_time \<longrightarrow>
         now < ledger_next l now w ceiling
         \<and> ledger_count l (ledger_next l now w ceiling) w < ledger_count l now w)"
  using ledger_next_zero_iff [OF assms] ledger_next_future [OF assms(1)] ledger_next_frees [OF assms(1)]
  by (metis not_le_imp_less)

theorem announced_wait_frees_a_slot_witness:
  "ledger_next (ledger_add empty_ledger 10 ''t'') 20 15 1 = 25
   \<and> ledger_count (ledger_add empty_ledger 10 ''t'') 25 15 < ledger_count (ledger_add empty_ledger 10 ''t'') 20 15"
proof -
  have "ledger_next (ledger_add empty_ledger 10 ''t'') 20 15 1 = 25" by code_simp
  then show ?thesis
    using announced_wait_frees_a_slot [of 1 20 "ledger_add empty_ledger 10 ''t''" 15] by simp
qed

text \<open>expiry and compaction are invisible. Expiring the ledger keeps its representation
  invariant and changes no count of any window of at most the expiry window, now or later.\<close>

theorem expiry_is_invisible:
  assumes "ledger_wf l" "w \<le> W" "now \<le> t"
  shows "ledger_wf (ledger_expire l now W) \<and> ledger_count (ledger_expire l now W) t w = ledger_count l t w"
  using assms ledger_count_expire [OF assms] by simp

theorem expiry_is_invisible_witness:
  "ledger_count (ledger_expire (ledger_add (ledger_add empty_ledger 1 ''t'') 90 ''t'') 100 50) 120 40 = 1"
proof -
  let ?l = "ledger_add (ledger_add empty_ledger 1 ''t'') 90 ''t''"
  have "ledger_count ?l 120 40 = 1" by code_simp
  then show ?thesis using expiry_is_invisible [of ?l 40 50 100 120] by simp
qed

text \<open>A validated receipt set is complete evidence. It is finalized, not empty, not larger than
  the limit and belongs to the request; its receipts have distinct attempt ids, consecutive
  sequence numbers from one, reached the upstream, match the expected route, start with the
  initial attempt and do not overlap in time; under the single-attempt policy there is one.\<close>

theorem validated_receipts_are_evidence:
  assumes "ValidateAttemptReceiptSet marshal year rset expected = None"
  shows "as_Finalized rset \<and> as_Receipts rset \<noteq> [] \<and> length (as_Receipts rset) \<le> MaxAttemptReceipts
    \<and> (ae_ClientRequestID expected \<noteq> [] \<longrightarrow> as_ClientRequestID rset = ae_ClientRequestID expected)
    \<and> distinct (map ar_AttemptID (as_Receipts rset)) \<and> sequential (as_Receipts rset)
    \<and> (\<forall>i < length (as_Receipts rset). receipt_ok rset expected i (as_Receipts rset ! i))
    \<and> (ae_SingleAttempt expected \<longrightarrow> length (as_Receipts rset) = 1)"
  using ValidateAttemptReceiptSet_ok [OF assms] ValidateAttemptReceiptSet_receipts [OF assms] by auto

definition demo_receipt :: AttemptReceipt where
  "demo_receipt = \<lparr>ar_SchemaVersion = AttemptReceiptSchemaVersion, ar_AttemptID = ''a1'', ar_ClientRequestID = ''r1'',
     ar_Sequence = 1, ar_Provider = ''prov'', ar_Model = ''m'', ar_AccountLaneHash = ''lane'',
     ar_StartedAt = 1000 * Hour, ar_CompletedAt = 1000 * Hour + Second,
     ar_Outcome = AttemptOutcomeSuccess, ar_Trigger = AttemptTriggerInitial, ar_UpstreamReached = True\<rparr>"

definition demo_receipts :: AttemptReceiptSet where
  "demo_receipts = \<lparr>as_SchemaVersion = AttemptReceiptSchemaVersion, as_ClientRequestID = ''r1'',
     as_Finalized = True, as_Receipts = [demo_receipt]\<rparr>"

definition demo_expectation :: AttemptReceiptExpectation where
  "demo_expectation = \<lparr>ae_ClientRequestID = ''r1'', ae_Provider = ''prov'', ae_Model = ''m'', ae_AccountLaneHash = ''lane'',
     ae_RequestStartedAt = 1000 * Hour, ae_RequestCompletedAt = 1000 * Hour + Minute, ae_SingleAttempt = True,
     ae_Now = 1000 * Hour + Minute\<rparr>"

theorem validated_receipts_are_evidence_witness:
  "ValidateAttemptReceiptSet (\<lambda>_. Some ''{}'') (\<lambda>_. 2026) demo_receipts demo_expectation = None
   \<and> length (as_Receipts demo_receipts) = 1"
proof -
  have "ValidateAttemptReceiptSet (\<lambda>_. Some ''{}'') (\<lambda>_. 2026) demo_receipts demo_expectation = None" by code_simp
  with validated_receipts_are_evidence [OF this] show ?thesis by (simp add: demo_expectation_def)
qed

text \<open>replay memory loses only old ids. Pruning the retained receipt attempt ids keeps the
  instant of every id it keeps and keeps at most the bound; an id inside the retention window that
  is lost was evicted for room, and every id that stayed is at least as new.\<close>

theorem replay_memory_loses_only_old_ids:
  assumes "map_wf (g_attemptIDs g)" "[] \<notin> fst ` set (g_attemptIDs g)"
  shows "length (g_attemptIDs (pruneAttemptIDsLocked now g)) \<le> maxRetainedAttemptIDs
    \<and> (map_get (g_attemptIDs (pruneAttemptIDsLocked now g)) k = Some t \<longrightarrow>
         map_get (g_attemptIDs g) k = Some t \<and> now - attemptIDRetentionWindow \<le> t)
    \<and> (map_get (g_attemptIDs g) k = Some t \<and> now - attemptIDRetentionWindow \<le> t
         \<and> map_get (g_attemptIDs (pruneAttemptIDsLocked now g)) k = None
         \<and> map_get (g_attemptIDs (pruneAttemptIDsLocked now g)) k' = Some t' \<longrightarrow> t \<le> t')"
proof -
  let ?P = "\<lambda>(k, seenAt). \<not> seenAt < now - attemptIDRetentionWindow"
  let ?kept = "evict maxRetainedAttemptIDs (\<lambda>_. False) (\<lambda>t. t) (filter ?P (g_attemptIDs g))"
  have ids: "g_attemptIDs (pruneAttemptIDsLocked now g) = ?kept"
    by (simp add: pruneAttemptIDsLocked_def Let_def)
  have "[] \<notin> fst ` set (filter ?P (g_attemptIDs g))" using assms(2) by auto
  from attempt_ids.bounded [OF this] have "length ?kept \<le> maxRetainedAttemptIDs" by (cases ?kept) auto
  then show ?thesis
    using attempt_ids.retained_is_old_value [OF assms(1), of ?P k t]
      attempt_ids.lost_only_to_newer [OF assms, of k t ?P k' t'] by (auto simp: ids)
qed

definition replay_governor :: Governor where
  "replay_governor = (sy_gov demo0)\<lparr>g_attemptIDs := [(''old'', 900 * Hour), (''new'', 999 * Hour)]\<rparr>"

theorem replay_memory_loses_only_old_ids_witness:
  "map_get (g_attemptIDs (pruneAttemptIDsLocked (1000 * Hour) replay_governor)) ''new'' = Some (999 * Hour)
   \<and> map_get (g_attemptIDs (pruneAttemptIDsLocked (1000 * Hour) replay_governor)) ''old'' = None
   \<and> length (g_attemptIDs (pruneAttemptIDsLocked (1000 * Hour) replay_governor)) \<le> maxRetainedAttemptIDs"
proof -
  have ids: "g_attemptIDs (pruneAttemptIDsLocked (1000 * Hour) replay_governor) = [(''new'', 999 * Hour)]"
    by (simp add: replay_governor_def pruneAttemptIDsLocked_def attemptIDRetentionWindow_def evict_small
        maxRetainedAttemptIDs_def)
  then show ?thesis
    using replay_memory_loses_only_old_ids [of replay_governor "1000 * Hour" "''new''" "999 * Hour"]
    by (simp add: replay_governor_def)
qed

end
