(* ===== verification/Governor_Execute.thy ===== *)
theory Governor_Execute
  imports Governor_Operations
begin

text \<open>
  One governed provider execution, \<open>internal/governor/execute.go\<close>, with the records handed to the
  persistence boundary, \<open>persistence.go\<close>. The client, the classifier, the persistence boundary and
  the admission (which may wait) are arguments. Between two critical sections the clock moves and
  other goroutines run; what they did is the argument \<open>env\<close>, indexed by the gap. The calls to the
  outside are recorded as a list of effects, in order.
\<close>

section \<open>Boundary records\<close>

record ProviderPrepared =
  pp_TaskID :: string
  pp_WorkUnitID :: string
  pp_ClientRequestID :: string
  pp_ProviderID :: string
  pp_ModelPool :: string
  pp_Model :: string
  pp_ProtocolFamily :: string
  pp_ConfigIdentity :: string
  pp_AllowanceProfile :: AllowanceProfile
  pp_AttemptSequence :: int
  pp_StartedAt :: time
  pp_ReceiptAware :: bool
  pp_TelemetryHealthy :: bool
  pp_State :: PersistedState

record ProviderFinished =
  pf_TaskID :: string
  pf_WorkUnitID :: string
  pf_ClientRequestID :: string
  pf_Outcome :: OutcomeClass
  pf_ProviderFailureClass :: string
  pf_ProtocolFamily :: string
  pf_ConfigIdentity :: string
  pf_RequestID :: string
  pf_UpstreamReached :: bool
  pf_Uncertain :: bool
  pf_DeliveryState :: DeliveryState
  pf_StatusCode :: int
  pf_ObservedResetAt :: time
  pf_RateLimitObservation :: RateLimitObservation
  pf_AttemptDebited :: int
  pf_SelectedBackoff :: duration
  pf_Circuit :: "CircuitSnapshot option"
  pf_RetryEligible :: bool
  pf_Receipts :: "AttemptReceipt list"
  pf_ReceiptErrorCode :: "AttemptReceiptErrorCode option"
  pf_State :: PersistedState

text \<open>A client: whether it is safety aware, health aware and receipt aware, and its call.\<close>

record Client =
  cl_RouteSafety :: "RouteSafety option"
  cl_Health :: "GatewayContractHealthResult option"
  cl_Receipts :: "bool option"
  cl_Complete :: "ProviderRequest \<Rightarrow> ProviderResponse \<times> call_error option"

text \<open>The persistence boundary: the error of each of its two calls.\<close>

record Persistence =
  pe_Prepared :: "ProviderPrepared \<Rightarrow> string option"
  pe_Finished :: "ProviderFinished \<Rightarrow> string option"

datatype effect =
  RecordPrepared ProviderPrepared bool | Complete ProviderRequest | RecordFinished ProviderFinished bool

datatype execute_error =
    ExAdmission AdmissionError | ExStart governor_error | ExIntentNotPersisted string
  | ExCall call_error | ExCompletion governor_error | ExOutcomePersist string

record ExecutionResult =
  ex_Admission :: AdmissionResult
  ex_Response :: "ProviderResponse option"
  ex_Completion :: "FinishResult option"
  ex_Err :: "execute_error option"

definition admission_only :: "AdmissionResult \<Rightarrow> execute_error option \<Rightarrow> ExecutionResult" where
  "admission_only a e = \<lparr>ex_Admission = a, ex_Response = None, ex_Completion = None, ex_Err = e\<rparr>"

definition receiptEvidence :: "AttemptReceiptSet option \<Rightarrow> AttemptReceipt list" where
  "receiptEvidence rset = (case rset of None \<Rightarrow> [] | Some s \<Rightarrow> as_Receipts s)"

definition receiptErrorCode :: "governor_error option \<Rightarrow> AttemptReceiptErrorCode option" where
  "receiptErrorCode err =
     (case err of
        Some (ErrAttemptReceipt code) \<Rightarrow> Some code
      | Some ErrInvalidAttemptReceipts \<Rightarrow> Some AttemptReceiptMalformed
      | _ \<Rightarrow> None)"

definition gatewayContractHealthAdmission ::
  "AttemptRequest \<Rightarrow> GatewayContractHealthResult \<Rightarrow> Governor \<Rightarrow> AdmissionResult \<times> Governor" where
  "gatewayContractHealthAdmission request health g =
     (let result = (admission_result AdmissionGatewayContractUnhealthy AdmissionGatewayContractUnhealthy
                      zero_time (Some CauseGatewayUnhealthy))\<lparr>ad_GatewayContractHealth := Some health\<rparr>
      in (result, emitAdmissionLocked request result False g))"

section \<open>Execution\<close>

text \<open>The gates before admission: a client, a safe and matching route, a healthy gateway contract,
  receipts where the policy requires them, and the model of the policy.\<close>

definition execute_gate ::
  "AttemptRequest \<Rightarrow> Client option \<Rightarrow> Governor \<Rightarrow> (ExecutionResult + AttemptRequest \<times> bool) \<times> Governor" where
  "execute_gate request client g =
     (let cfg = g_config g;
          reject = (\<lambda>code cause. admission_only (admission_result code code zero_time (Some cause)) None)
      in case client of
           None \<Rightarrow> (Inl (reject AdmissionUnsafeConfiguration CauseClientRequired), g)
         | Some cl \<Rightarrow>
            (case cl_RouteSafety cl of
               None \<Rightarrow> (Inl (reject AdmissionUnsafeProviderAmplification CauseUnsafeRoute), g)
             | Some safety \<Rightarrow>
                if RouteSafety_Validate safety \<noteq> None \<or> \<not> RouteSafety_Equal safety (cfg_RouteSafety cfg)
                then (Inl (reject AdmissionUnsafeProviderAmplification CauseUnsafeRoute), g)
                else (case (case cl_Health cl of
                              Some h \<Rightarrow> if gh_State h = GatewayContractHealthHealthy then None else Some h
                            | None \<Rightarrow> None) of
                        Some h \<Rightarrow>
                          (case gatewayContractHealthAdmission request h g of
                             (a, g') \<Rightarrow> (Inl (admission_only a (map_option ExAdmission (ad_Err a))), g'))
                      | None \<Rightarrow>
                          if cfg_RequireAttemptReceipts cfg \<and> cl_Receipts cl \<noteq> Some True
                          then (Inl (reject AdmissionMissingAttemptReceipts CauseInvalidReceipts), g)
                          else (let pr = rq_ProviderRequest request;
                                    model = TrimSpace (pr_Model pr)
                                in if model = []
                                   then (Inr (request\<lparr>rq_ProviderRequest := pr\<lparr>pr_Model := cfg_Model cfg\<rparr>\<rparr>,
                                              cfg_RequireAttemptReceipts cfg), g)
                                   else if cfg_Model cfg \<noteq> [] \<and> model \<noteq> cfg_Model cfg
                                   then (Inl (reject AdmissionUnsafeConfiguration CauseModelDiffers), g)
                                   else (Inr (request, cfg_RequireAttemptReceipts cfg), g)))))"

definition prepared_record ::
  "AttemptRequest \<Rightarrow> AdmissionResult \<Rightarrow> Permit \<Rightarrow> bool \<Rightarrow> PersistedState \<Rightarrow> Config \<Rightarrow> ProviderPrepared" where
  "prepared_record request admission p receiptAware st cfg =
     \<lparr>pp_TaskID = rq_TaskID request, pp_WorkUnitID = rq_WorkUnitID request,
      pp_ClientRequestID = rq_ClientRequestID request, pp_ProviderID = cfg_ProviderID cfg,
      pp_ModelPool = cfg_ModelPool cfg, pp_Model = cfg_Model cfg,
      pp_ProtocolFamily = cfg_ProtocolFamily cfg, pp_ConfigIdentity = cfg_ConfigIdentity cfg,
      pp_AllowanceProfile = cfg_AllowanceProfile cfg, pp_AttemptSequence = pm_attemptSequence p,
      pp_StartedAt = pm_startedAt p, pp_ReceiptAware = receiptAware,
      pp_TelemetryHealthy = ad_TelemetryHealthy admission, pp_State = st\<rparr>"

definition finished_record ::
  "AttemptRequest \<Rightarrow> Outcome \<Rightarrow> ProviderResponse \<Rightarrow> FinishResult \<Rightarrow> PersistedState \<Rightarrow> Config \<Rightarrow> ProviderFinished" where
  "finished_record request outcome response completion st cfg =
     (let md = rsp_Metadata response
      in \<lparr>pf_TaskID = rq_TaskID request, pf_WorkUnitID = rq_WorkUnitID request,
          pf_ClientRequestID = rq_ClientRequestID request, pf_Outcome = fr_Outcome completion,
          pf_ProviderFailureClass = oc_ProviderFailureClass outcome,
          pf_ProtocolFamily = cfg_ProtocolFamily cfg, pf_ConfigIdentity = cfg_ConfigIdentity cfg,
          pf_RequestID = md_RequestID md, pf_UpstreamReached = oc_UpstreamReached outcome,
          pf_Uncertain = (fr_Outcome completion = OutcomeUncertainReached),
          pf_DeliveryState = md_DeliveryState md, pf_StatusCode = md_StatusCode md,
          pf_ObservedResetAt = md_ResetAt md, pf_RateLimitObservation = md_RateLimitObservation md,
          pf_AttemptDebited = fr_AttemptDebited completion,
          pf_SelectedBackoff = fr_SelectedBackoff completion, pf_Circuit = fr_Circuit completion,
          pf_RetryEligible = fr_RetryEligible completion,
          pf_Receipts = receiptEvidence (md_AttemptReceipts md),
          pf_ReceiptErrorCode = receiptErrorCode (fr_Err completion), pf_State = st\<rparr>)"

text \<open>The arguments that stand for the outside: the serializer and the calendar year of the receipt
  validation, the jitter, the interference of the other goroutines, the admission, the state of the
  context after admission, the classifier and the persistence boundary.\<close>

record World =
  wd_marshal :: "AttemptReceiptSet \<Rightarrow> string option"
  wd_year :: "time \<Rightarrow> int"
  wd_jitter :: "duration \<Rightarrow> int \<Rightarrow> duration"
  wd_env :: "nat \<Rightarrow> Governor \<Rightarrow> Governor"
  wd_admit :: "AttemptRequest \<Rightarrow> Governor \<Rightarrow> AdmissionResult \<times> Governor"
  wd_ctx :: Ctx
  wd_classifier :: "(ProviderResponse \<Rightarrow> call_error option \<Rightarrow> Outcome) option"
  wd_persistence :: "Persistence option"

definition classify :: "World \<Rightarrow> ProviderResponse \<Rightarrow> call_error option \<Rightarrow> Outcome" where
  "classify wd response callErr =
     (let classifier = (case wd_classifier wd of None \<Rightarrow> defaultOutcome | Some c \<Rightarrow> c);
          outcome = classifier response callErr
      in applyDeliveryEvidence
           (outcome\<lparr>oc_DeliveryState := md_DeliveryState (rsp_Metadata response),
                    oc_Metadata := rsp_Metadata response\<rparr>))"

text \<open>The provider call and everything after it.\<close>

definition execute_call ::
  "World \<Rightarrow> AttemptRequest \<Rightarrow> bool \<Rightarrow> Client \<Rightarrow> AdmissionResult \<Rightarrow> effect list \<Rightarrow> Permit \<Rightarrow> Governor \<Rightarrow>
   ExecutionResult \<times> effect list \<times> Permit \<times> Governor" where
  "execute_call wd request receiptAware cl admission effs p g =
     (let (response, callErr) = cl_Complete cl (rq_ProviderRequest request);
          outcome = classify wd response callErr;
          (completion, p', g1) =
            (if receiptAware
             then FinishWithAttemptReceipts (wd_marshal wd) (wd_year wd) (wd_jitter wd) outcome
                    (md_AttemptReceipts (rsp_Metadata response)) p (wd_env wd 3 g)
             else Permit_Finish (wd_jitter wd) outcome p (wd_env wd 3 g));
          callErr' = (case callErr of
                        Some e \<Rightarrow> Some (ExCall e)
                      | None \<Rightarrow> if receiptAware then map_option ExCompletion (fr_Err completion) else None);
          result = \<lparr>ex_Admission = admission, ex_Response = Some response,
                    ex_Completion = Some completion, ex_Err = callErr'\<rparr>;
          effs1 = effs @ [Complete (rq_ProviderRequest request)]
      in case wd_persistence wd of
           None \<Rightarrow> (result, effs1, p', g1)
         | Some pe \<Rightarrow>
             (let (st, g2) = Governor_PersistedState (wd_env wd 4 g1);
                  rec = finished_record request outcome response completion st (g_config g2)
              in case pe_Finished pe rec of
                   Some e \<Rightarrow> (result\<lparr>ex_Err := Some (ExOutcomePersist e)\<rparr>,
                               effs1 @ [RecordFinished rec False], p', g2)
                 | None \<Rightarrow> (result, effs1 @ [RecordFinished rec True], p', g2)))"

text \<open>From an admitted permit on.\<close>

definition execute_admitted ::
  "World \<Rightarrow> AttemptRequest \<Rightarrow> bool \<Rightarrow> Client \<Rightarrow> AdmissionResult \<Rightarrow> Permit \<Rightarrow> Governor \<Rightarrow>
   ExecutionResult \<times> effect list \<times> Permit \<times> Governor" where
  "execute_admitted wd request0 receiptAware cl admission p g =
     (case cx_Err (wd_ctx wd) of
        Some e \<Rightarrow>
          (let (_, p', g') = CancelBeforeStart p g;
               code = contextAdmissionCode (wd_ctx wd);
               err = \<lparr>aer_Code = code, aer_Cause = Some (ctx_cause e)\<rparr>
           in (admission_only (admission\<lparr>ad_Code := code, ad_Err := Some err\<rparr>) (Some (ExAdmission err)),
               [], p', g'))
      | None \<Rightarrow>
          (let request = request0\<lparr>rq_ProviderRequest := (rq_ProviderRequest request0)
                            \<lparr>pr_ClientRequestID := rq_ClientRequestID request0\<rparr>\<rparr>
           in case permit_start receiptAware p g of
                (Some e, p', g') \<Rightarrow> (admission_only admission (Some (ExStart e)), [], p', g')
              | (None, p', g') \<Rightarrow>
                  (case wd_persistence wd of
                     None \<Rightarrow> execute_call wd request receiptAware cl admission [] p' g'
                   | Some pe \<Rightarrow>
                       (let (st, g2) = Governor_PersistedState (wd_env wd 1 g');
                            rec = prepared_record request admission p' receiptAware st (g_config g2)
                        in case pe_Prepared pe rec of
                             Some e \<Rightarrow>
                               (let (completion, p'', g3) = CancelAfterStart p' (wd_env wd 2 g2)
                                in (\<lparr>ex_Admission = admission, ex_Response = None,
                                     ex_Completion = Some completion,
                                     ex_Err = Some (ExIntentNotPersisted e)\<rparr>,
                                    [RecordPrepared rec False], p'', g3))
                           | None \<Rightarrow> execute_call wd request receiptAware cl admission
                                       [RecordPrepared rec True] p' g2))))"

definition Execute ::
  "World \<Rightarrow> AttemptRequest \<Rightarrow> Client option \<Rightarrow> Governor \<Rightarrow>
   ExecutionResult \<times> effect list \<times> Permit option \<times> Governor" where
  "Execute wd request client g =
     (case execute_gate request client g of
        (Inl r, g') \<Rightarrow> (r, [], None, g')
      | (Inr (request', receiptAware), g') \<Rightarrow>
          (let (admission, g1) = wd_admit wd request' g'
           in case ad_Permit admission of
                None \<Rightarrow> (admission_only admission (map_option ExAdmission (ad_Err admission)), [], None, g1)
              | Some p \<Rightarrow>
                  if ad_Code admission \<noteq> AdmissionAdmitted
                  then (admission_only admission (map_option ExAdmission (ad_Err admission)), [], None, g1)
                  else (case execute_admitted wd request' receiptAware (the client) admission p (wd_env wd 0 g1) of
                          (r, effs, p', g2) \<Rightarrow> (r, effs, Some p', g2))))"

section \<open>Lemmas\<close>

lemma execute_gate_Inr:
  assumes "execute_gate rq client g = (Inr (rq', ra), g')"
  shows "g' = g" and "ra = cfg_RequireAttemptReceipts (g_config g)"
    and "\<exists>cl safety. client = Some cl \<and> cl_RouteSafety cl = Some safety \<and> RouteSafety_Validate safety = None
      \<and> RouteSafety_Equal safety (cfg_RouteSafety (g_config g))
      \<and> (\<forall>h. cl_Health cl = Some h \<longrightarrow> gh_State h = GatewayContractHealthHealthy)
      \<and> (ra \<longrightarrow> cl_Receipts cl = Some True)"
  using assms
  by (auto simp: execute_gate_def Let_def split: option.splits if_splits prod.splits)

text \<open>The calls to the outside, in order.\<close>

definition well_ordered :: "bool \<Rightarrow> effect list \<Rightarrow> bool" where
  "well_ordered durable effs \<longleftrightarrow>
     effs = []
     \<or> (\<not> durable \<and> (\<exists>r. effs = [Complete r]))
     \<or> (durable \<and> (\<exists>rec. effs = [RecordPrepared rec False]))
     \<or> (durable \<and> (\<exists>rec r fin ok. effs = [RecordPrepared rec True, Complete r, RecordFinished fin ok]))"

lemma execute_call_effects:
  assumes "execute_call wd rq ra cl a effs p g = (r, effs', p', g')"
  shows "if wd_persistence wd = None then effs' = effs @ [Complete (rq_ProviderRequest rq)]
    else \<exists>fin ok. effs' = effs @ [Complete (rq_ProviderRequest rq), RecordFinished fin ok]"
  using assms by (auto simp: execute_call_def Let_def split_beta split: option.splits)

lemma Execute_effects:
  assumes "Execute wd rq client g = (r, effs, p, g')"
  shows "well_ordered (wd_persistence wd \<noteq> None) effs"
proof -
  have call: "well_ordered (wd_persistence wd \<noteq> None) es'"
    if "execute_call wd q ra cl a es pm h = (x, es', pm', h')"
      and "if wd_persistence wd = None then es = [] else \<exists>rec. es = [RecordPrepared rec True]"
    for q ra cl a es pm h x es' pm' h'
    using execute_call_effects [OF that(1)] that(2) by (auto simp: well_ordered_def split: if_splits)
  have adm: "well_ordered (wd_persistence wd \<noteq> None) es'"
    if "execute_admitted wd q ra cl a pm h = (x, es', pm', h')" for q ra cl a pm h x es' pm' h'
    using that call unfolding execute_admitted_def
    by (auto simp: Let_def split_beta split: option.splits prod.splits) (auto simp: well_ordered_def)
  show ?thesis
    using assms adm unfolding Execute_def
    by (auto simp: Let_def well_ordered_def split: option.splits prod.splits sum.splits if_splits)
qed

text \<open>What the execution relies on: an admission hands out a fresh permit and leaves the lane taken,
  and no other goroutine frees a lane it does not hold.\<close>

definition fair_world :: "World \<Rightarrow> bool" where
  "fair_world wd \<longleftrightarrow>
     (\<forall>rq g. case wd_admit wd rq g of (a, g') \<Rightarrow>
        (case ad_Permit a of None \<Rightarrow> True
         | Some p \<Rightarrow> \<not> pm_completed p \<and> \<not> pm_started p \<and> g_inFlight g'))
     \<and> (\<forall>k g. g_inFlight (wd_env wd k g) = g_inFlight g)"

lemma execute_call_completes:
  assumes "execute_call wd rq ra cl a effs p g = (r, effs', p', g')"
    and "\<not> pm_completed p" "pm_started p" "pm_receiptAware p = ra"
  shows "pm_completed p'"
proof -
  obtain resp ce where c: "cl_Complete cl (rq_ProviderRequest rq) = (resp, ce)" by fastforce
  define oc where "oc = classify wd resp ce"
  define fin where "fin = (if ra
     then FinishWithAttemptReceipts (wd_marshal wd) (wd_year wd) (wd_jitter wd) oc
            (md_AttemptReceipts (rsp_Metadata resp)) p (wd_env wd 3 g)
     else Permit_Finish (wd_jitter wd) oc p (wd_env wd 3 g))"
  obtain cm q h where f: "fin = (cm, q, h)" by (metis prod_cases3)
  have p': "p' = q"
    using assms(1) unfolding execute_call_def c Let_def prod.case oc_def [symmetric] fin_def [symmetric] f
    by (auto split: option.splits prod.splits)
  show ?thesis
  proof (cases ra)
    case True
    then have "FinishWithAttemptReceipts (wd_marshal wd) (wd_year wd) (wd_jitter wd) oc
        (md_AttemptReceipts (rsp_Metadata resp)) p (wd_env wd 3 g) = (cm, q, h)" using f fin_def by simp
    from FinishWithAttemptReceipts_shape [OF this] True assms p' show ?thesis by simp
  next
    case False
    then have "Permit_Finish (wd_jitter wd) oc p (wd_env wd 3 g) = (cm, q, h)" using f fin_def by simp
    then show ?thesis using False assms p' by (auto simp: Permit_Finish_def Let_def split_beta)
  qed
qed

lemma execute_admitted_completes:
  assumes "execute_admitted wd rq ra cl a p g = (r, effs, p', g')"
    and "\<not> pm_completed p" "\<not> pm_started p" "g_inFlight g"
  shows "pm_completed p'"
proof (cases "cx_Err (wd_ctx wd)")
  case (Some e)
  then show ?thesis
    using assms(1-3) by (auto simp: execute_admitted_def CancelBeforeStart_def Let_def split_beta)
next
  case None
  let ?rq = "rq\<lparr>rq_ProviderRequest := (rq_ProviderRequest rq)\<lparr>pr_ClientRequestID := rq_ClientRequestID rq\<rparr>\<rparr>"
  obtain e q h where st: "permit_start ra p g = (e, q, h)" by (metis prod_cases3)
  have "e = None" using st assms(2-4) by (auto simp: permit_start_def Let_def split_beta split: if_splits)
  with permit_start_cases [OF st] have q: "\<not> pm_completed q" "pm_started q" "pm_receiptAware q = ra"
    using assms(2) by auto
  show ?thesis
  proof (cases "wd_persistence wd")
    case no_store: None
    then have "execute_call wd ?rq ra cl a [] q h = (r, effs, p', g')"
      using assms(1) None st \<open>e = None\<close> by (simp add: execute_admitted_def Let_def)
    then show ?thesis using q by (rule execute_call_completes)
  next
    case (Some pe)
    obtain ps g2 where ps: "Governor_PersistedState (wd_env wd 1 h) = (ps, g2)" by fastforce
    define rec where "rec = prepared_record ?rq a q ra ps (g_config g2)"
    show ?thesis
    proof (cases "pe_Prepared pe rec")
      case ok: None
      then have "execute_call wd ?rq ra cl a [RecordPrepared rec True] q g2 = (r, effs, p', g')"
        using assms(1) None st \<open>e = None\<close> Some ps by (simp add: execute_admitted_def rec_def Let_def)
      then show ?thesis using q by (rule execute_call_completes)
    next
      case failed: (Some x)
      then show ?thesis
        using assms(1) None st \<open>e = None\<close> Some ps q
        by (auto simp: execute_admitted_def rec_def CancelAfterStart_def Let_def split_beta)
    qed
  qed
qed

section \<open>Uncertain deliveries\<close>

lemma recoverable_uncertain:
  "outcomePriority OutcomeUncertainReached \<le> outcomePriority oc \<Longrightarrow> isRecoverableOutcome oc \<Longrightarrow> oc = OutcomeRateCapacity"
  by (cases oc) simp_all

lemma strongerOutcome_ge:
  "outcomePriority a \<le> outcomePriority (strongerOutcome a b)"
  "strongerOutcome a b = a \<or> strongerOutcome a b = b"
  by (simp_all add: strongerOutcome_def)

text \<open>The aggregate of a receipt set: at least as strong as its start, which it is unless a receipt replaced it.\<close>

lemma record_receipts_aggregate:
  assumes "a' = fst (snd (snd (record_receipts j now t oc rs (res, b, a, g))))"
  shows "outcomePriority a \<le> outcomePriority a' \<and> (a' = a \<or> (\<exists>x \<in> set rs. a' = receiptOutcome (ar_Outcome x)))"
  using assms
proof (induction rs arbitrary: res b a g)
  case (Cons x rs)
  define v where "v = (if rs = [] \<and> oc_Class oc \<noteq> OutcomeEmpty \<and> oc_Class oc \<noteq> OutcomeSuccess
      \<and> oc_Class oc = oc_Class (receipt_outcome_value x)
    then (receipt_outcome_value x)\<lparr>oc_RetryAfter := oc_RetryAfter oc, oc_ResetAt := oc_ResetAt oc\<rparr>
    else receipt_outcome_value x)"
  have v: "oc_Class v = receiptOutcome (ar_Outcome x)"
    by (simp add: v_def receipt_outcome_value_def outcome_of_class_def)
  obtain rec g' where rec: "recordOutcomeLocked j now t v g = (rec, g')" by fastforce
  have "outcomePriority (strongerOutcome a (oc_Class v)) \<le> outcomePriority a'
      \<and> (a' = strongerOutcome a (oc_Class v) \<or> (\<exists>x \<in> set rs. a' = receiptOutcome (ar_Outcome x)))"
    using Cons.prems unfolding record_receipts.simps Let_def v_def [symmetric] rec prod.case by (rule Cons.IH)
  then show ?case using strongerOutcome_ge [of a "oc_Class v"] v by (metis list.set_intros order_trans)
qed simp

lemma settle_receipts_uncertain:
  assumes "settle_receipts j oc rset pe news p g = (r, p', g')" "oc_Class oc = OutcomeUncertainReached"
  shows "outcomePriority OutcomeUncertainReached \<le> outcomePriority (fr_Outcome r)
    \<and> (fr_RetryEligible r \<longrightarrow> pe = None \<and> isRecoverableOutcome (fr_Outcome r)
         \<and> (\<exists>x \<in> set news. fr_Outcome r = receiptOutcome (ar_Outcome x)))"
proof -
  define g3 where "g3 = fold (debit_receipt p (g_now g)) news
    (snd (taskLocked (rq_TaskID (pm_request p)) (snd (budgetLocked (g_now g) (rq_TaskID (pm_request p)) g))))"
  define a where "a = fst (snd (snd (record_receipts j (g_now g) (rq_TaskID (pm_request p)) oc news (None, 0, OutcomeUncertainReached, g3))))"
  have "\<exists>ds n b res h. r = fst (apply_policy pe (receipt_result (rq_TaskID (pm_request p)) ds
      (if ContainsUncertain rset then strongerOutcome a OutcomeUncertainReached else a) n b res h) h)"
    using assms unfolding settle_receipts_def a_def g3_def
    by (simp only: Let_def split_beta prod.inject fst_conv snd_conv OutcomeClass.distinct simp_thms if_False) blast
  then obtain ds n b res h where r: "r = fst (apply_policy pe (receipt_result (rq_TaskID (pm_request p)) ds
      (if ContainsUncertain rset then strongerOutcome a OutcomeUncertainReached else a) n b res h) h)" by blast
  note agg = record_receipts_aggregate [OF a_def]
  have same: "(if ContainsUncertain rset then strongerOutcome a OutcomeUncertainReached else a) = a"
    using agg by (simp add: strongerOutcome_def)
  have final: "strongerOutcome OutcomeSuccess a = a" using agg by (simp add: strongerOutcome_def)
  show ?thesis using agg unfolding r same receipt_result_def Let_def final apply_policy_def
    by (auto simp: strongerOutcome_def split: option.splits)
qed

lemma finishReceiptFailure_result:
  "finishReceiptFailureLocked e deb ds p g = (r, p', g') \<Longrightarrow> fr_Outcome r = OutcomeUncertainReached \<and> \<not> fr_RetryEligible r"
  by (auto simp: finishReceiptFailureLocked_def Let_def split_beta)

text \<open>Settling by receipts an outcome that is uncertain leaves the permit ineligible for a retry, unless
  the set is one receipt, not seen before, of an attempt refused for its rate.\<close>

lemma FinishWithAttemptReceipts_uncertain:
  assumes fin: "FinishWithAttemptReceipts marshal year j oc rset p g = (r, p', g')"
    and cls: "oc_Class oc = OutcomeUncertainReached"
    and open_permit: "\<not> pm_completed p" "pm_started p" "pm_receiptAware p"
  shows "outcomePriority OutcomeUncertainReached \<le> outcomePriority (fr_Outcome r)
    \<and> (fr_RetryEligible r \<longrightarrow> (\<exists>rs x. rset = Some rs \<and> as_Receipts rs = [x] \<and> receiptOutcome (ar_Outcome x) = OutcomeRateCapacity))"
proof -
  define ex where "ex = receipt_expectation p g"
  show ?thesis
  proof (cases "\<exists>rs. rset = Some rs \<and> ValidateAttemptReceiptSet marshal year rs ex = None")
    case False
    then obtain e where "finishReceiptFailureLocked e True (oc_DeliveryState oc) p g = (r, p', g')"
      using fin open_permit
      by (auto simp: FinishWithAttemptReceipts_def Let_def ex_def split: option.splits)
    from finishReceiptFailure_result [OF this] show ?thesis by simp
  next
    case True
    then obtain rs where rs: "rset = Some rs" and val: "ValidateAttemptReceiptSet marshal year rs ex = None" by blast
    define pe1 where "pe1 = (if 1 < length (as_Receipts rs)
      then map_option ErrAttemptReceipt (ValidateAttemptReceiptSet marshal year rs (ex\<lparr>ae_SingleAttempt := True\<rparr>))
      else None)"
    have single: "\<exists>x. as_Receipts rs = [x]" if "pe1 = None"
    proof -
      have "length (as_Receipts rs) \<le> 1"
        using that ValidateAttemptReceiptSet_ok(5) [of marshal year rs "ex\<lparr>ae_SingleAttempt := True\<rparr>"]
        by (auto simp: pe1_def split: if_splits)
      then show ?thesis using ValidateAttemptReceiptSet_ok(2) [OF val] by (cases "as_Receipts rs") auto
    qed
    define g1 where "g1 = pruneAttemptIDsLocked (g_now g) g"
    define news where "news = new_receipts (g_attemptIDs g1) (as_Receipts rs)"
    define h where "h = g1\<lparr>g_attemptIDs := fold (\<lambda>r m. map_put (ar_AttemptID r) (g_now g) m) news (g_attemptIDs g1)\<rparr>"
    define pe where "pe = (if pe1 = None \<and> length news < length (as_Receipts rs) then Some ErrAttemptReceiptReplayed else pe1)"
    have news: "set news \<subseteq> set (as_Receipts rs)" by (auto simp: news_def new_receipts_def)
    have "(r, p', g') = (if news = []
        then finishReceiptFailureLocked (case pe of Some e \<Rightarrow> e | None \<Rightarrow> ErrAttemptReceiptReplayed) False (oc_DeliveryState oc) p h
        else settle_receipts j oc rs pe news p h)"
      using fin open_permit val
      unfolding FinishWithAttemptReceipts_def rs pe_def pe1_def h_def news_def g1_def ex_def
      by (simp only: Let_def if_False option.simps not_not if_not_P if_True not_True_eq_False)
    then have alt: "(\<exists>f. finishReceiptFailureLocked f False (oc_DeliveryState oc) p h = (r, p', g'))
         \<or> settle_receipts j oc rs pe news p h = (r, p', g')" by (metis (full_types))
    from alt show ?thesis
    proof (elim disjE exE)
      fix f assume "finishReceiptFailureLocked f False (oc_DeliveryState oc) p h = (r, p', g')"
      from finishReceiptFailure_result [OF this] show ?thesis by simp
    next
      assume "settle_receipts j oc rs pe news p h = (r, p', g')"
      note u = settle_receipts_uncertain [OF this cls]
      have "\<exists>rs x. rset = Some rs \<and> as_Receipts rs = [x] \<and> receiptOutcome (ar_Outcome x) = OutcomeRateCapacity" if e: "fr_RetryEligible r"
      proof -
        have "pe1 = None" using u e by (auto simp: pe_def split: if_splits)
        then obtain x where "as_Receipts rs = [x]" using single by blast
        moreover have "fr_Outcome r = OutcomeRateCapacity" using u e recoverable_uncertain by blast
        ultimately show ?thesis using u e news rs by auto
      qed
      then show ?thesis using u by blast
    qed
  qed
qed

lemma classify_uncertain:
  "md_DeliveryState (rsp_Metadata response) \<in> {DeliverySentUnconfirmed, DeliveryResponseStarted} \<Longrightarrow>
   oc_Class (classify wd response callErr) = OutcomeUncertainReached"
  by (simp add: classify_def Let_def applyDeliveryEvidence_class)

lemma Permit_Finish_uncertain:
  assumes "Permit_Finish j oc p g = (r, p', g')" "oc_Class oc = OutcomeUncertainReached"
    and "\<not> pm_completed p" "pm_started p" "\<not> pm_receiptAware p"
  shows "fr_Outcome r = OutcomeUncertainReached \<and> \<not> fr_RetryEligible r"
proof -
  have "normalize_outcome oc = oc" using assms(2) by (simp add: normalize_outcome_def Let_def)
  then have "fr_Outcome (fst (recordOutcomeLocked j now t oc h)) = OutcomeUncertainReached
      \<and> \<not> fr_RetryEligible (fst (recordOutcomeLocked j now t oc h))" for now t h
    using assms(2) by (simp add: recordOutcomeLocked_def Let_def split_beta)
  then show ?thesis using assms(1,3-5) by (auto simp: Permit_Finish_def Let_def split_beta)
qed

text \<open>The completion of an execution whose response may have reached the upstream.\<close>

definition held_back :: "bool \<Rightarrow> ProviderResponse \<Rightarrow> FinishResult \<Rightarrow> bool" where
  "held_back receiptAware response c \<longleftrightarrow>
     outcomePriority OutcomeUncertainReached \<le> outcomePriority (fr_Outcome c)
     \<and> (\<not> receiptAware \<longrightarrow> fr_Outcome c = OutcomeUncertainReached)
     \<and> (fr_RetryEligible c \<longrightarrow> receiptAware
          \<and> (\<exists>rs x. md_AttemptReceipts (rsp_Metadata response) = Some rs \<and> as_Receipts rs = [x]
               \<and> receiptOutcome (ar_Outcome x) = OutcomeRateCapacity))"

lemma execute_call_uncertain:
  assumes "execute_call wd rq ra cl a effs p g = (r, effs', p', g')" "ex_Response r = Some response"
    and "\<not> pm_completed p" "pm_started p" "pm_receiptAware p = ra"
    and "md_DeliveryState (rsp_Metadata response) \<in> {DeliverySentUnconfirmed, DeliveryResponseStarted}"
  shows "\<exists>c. ex_Completion r = Some c \<and> held_back ra response c"
proof -
  obtain resp ce where c: "cl_Complete cl (rq_ProviderRequest rq) = (resp, ce)" by fastforce
  define oc where "oc = classify wd resp ce"
  define fin where "fin = (if ra
     then FinishWithAttemptReceipts (wd_marshal wd) (wd_year wd) (wd_jitter wd) oc
            (md_AttemptReceipts (rsp_Metadata resp)) p (wd_env wd 3 g)
     else Permit_Finish (wd_jitter wd) oc p (wd_env wd 3 g))"
  obtain cm q h where f: "fin = (cm, q, h)" by (metis prod_cases3)
  have r: "ex_Response r = Some resp" "ex_Completion r = Some cm"
    using assms(1) unfolding execute_call_def c Let_def prod.case oc_def [symmetric] fin_def [symmetric] f
    by (auto split: option.splits prod.splits)
  then have resp: "resp = response" using assms(2) by simp
  have cls: "oc_Class oc = OutcomeUncertainReached" using classify_uncertain assms(6) unfolding oc_def resp by blast
  have "held_back ra response cm"
  proof (cases ra)
    case True
    then have "FinishWithAttemptReceipts (wd_marshal wd) (wd_year wd) (wd_jitter wd) oc
        (md_AttemptReceipts (rsp_Metadata response)) p (wd_env wd 3 g) = (cm, q, h)" using f fin_def resp by simp
    from FinishWithAttemptReceipts_uncertain [OF this cls] True assms(3-5) show ?thesis by (simp add: held_back_def)
  next
    case False
    then have "Permit_Finish (wd_jitter wd) oc p (wd_env wd 3 g) = (cm, q, h)" using f fin_def by simp
    from Permit_Finish_uncertain [OF this cls] False assms(3-5) show ?thesis by (simp add: held_back_def)
  qed
  with r(2) show ?thesis by blast
qed

text \<open>An execution that has a response made the provider call, with a permit that was started.\<close>

lemma execute_admitted_responds:
  assumes "execute_admitted wd rq ra cl a p g = (r, effs, p', g')" "ex_Response r = Some response" "\<not> pm_completed p"
  shows "\<exists>rq1 es q h. execute_call wd rq1 ra cl a es q h = (r, effs, p', g')
    \<and> \<not> pm_completed q \<and> pm_started q \<and> pm_receiptAware q = ra"
proof -
  have go: "cx_Err (wd_ctx wd) = None"
    using assms(1,2) by (auto simp: execute_admitted_def admission_only_def Let_def split_beta split: option.splits)
  let ?rq = "rq\<lparr>rq_ProviderRequest := (rq_ProviderRequest rq)\<lparr>pr_ClientRequestID := rq_ClientRequestID rq\<rparr>\<rparr>"
  obtain e q h where st: "permit_start ra p g = (e, q, h)" by (metis prod_cases3)
  have "e = None" using assms(1,2) go st by (auto simp: execute_admitted_def admission_only_def Let_def split: option.splits)
  with permit_start_cases [OF st] have q: "\<not> pm_completed q" "pm_started q" "pm_receiptAware q = ra"
    using assms(3) by auto
  have "\<exists>es h'. execute_call wd ?rq ra cl a es q h' = (r, effs, p', g')"
    using assms(1,2) go st \<open>e = None\<close>
    by (auto simp: execute_admitted_def Let_def split: option.splits prod.splits)
  with q show ?thesis by blast
qed

section \<open>Properties\<close>

definition quiet_client :: Client where
  "quiet_client = \<lparr>cl_RouteSafety = Some SafeRouteSafety, cl_Health = None, cl_Receipts = None,
     cl_Complete = (\<lambda>_. (\<lparr>rsp_Text = ''ok'', rsp_Metadata = empty_metadata\<rparr>, None))\<rparr>"

definition demo_world :: World where
  "demo_world = \<lparr>wd_marshal = (\<lambda>_. None), wd_year = (\<lambda>_. 2026), wd_jitter = (\<lambda>b _. b), wd_env = (\<lambda>_ g. g),
     wd_admit = (\<lambda>rq g. (empty_result\<lparr>ad_Code := AdmissionAdmitted, ad_Permit := Some (fresh_permit rq True)\<rparr>,
                        g\<lparr>g_inFlight := True\<rparr>)),
     wd_ctx = background, wd_classifier = None,
     wd_persistence = Some \<lparr>pe_Prepared = (\<lambda>_. Some ''disk full''), pe_Finished = (\<lambda>_. None)\<rparr>\<rparr>"

lemma demo0_config: "g_config (sy_gov demo0) = demo_config"
  by (simp add: demo0_def fresh_governor_def demo_config_kind)

lemma demo_route:
  "cfg_RouteSafety demo_config = SafeRouteSafety" "cfg_Model demo_config = []"
  "\<not> cfg_RequireAttemptReceipts demo_config" "RouteSafety_Validate SafeRouteSafety = None"
  "RouteSafety_Equal SafeRouteSafety SafeRouteSafety"
  by (simp_all add: demo_config_def DefaultInstantConfig_def) code_simp+

text \<open>C13: no provider call without a durable intent, and at most one call. The calls of one
  execution to the outside are, in order: nothing; or, without a store, the one provider call; or
  one intent that could not be persisted and then no provider call; or the persisted intent, the
  one provider call, and the record of its outcome.\<close>

theorem no_call_without_durable_intent:
  assumes "Execute wd rq client g = (r, effs, p, g')"
  shows "effs = []
    \<or> (wd_persistence wd = None \<and> (\<exists>req. effs = [Complete req]))
    \<or> (wd_persistence wd \<noteq> None \<and> (\<exists>rec. effs = [RecordPrepared rec False]))
    \<or> (wd_persistence wd \<noteq> None
       \<and> (\<exists>rec req fin ok. effs = [RecordPrepared rec True, Complete req, RecordFinished fin ok]))"
  using Execute_effects [OF assms] by (auto simp: well_ordered_def)

theorem no_call_without_durable_intent_witness:
  "\<exists>r effs p g'. Execute demo_world demo_request (Some quiet_client) (sy_gov demo0) = (r, effs, p, g')
     \<and> (\<forall>req. effs \<noteq> [Complete req])"
proof -
  obtain r effs p g' where e: "Execute demo_world demo_request (Some quiet_client) (sy_gov demo0) = (r, effs, p, g')"
    by (metis prod_cases4)
  then show ?thesis using no_call_without_durable_intent [OF e] by (auto simp: demo_world_def)
qed

text \<open>C14: an execution never leaves the lane taken. Whatever the client, the classifier, the store
  and the context do, a permit that the admission handed out is completed when the execution
  returns.\<close>

theorem execution_completes_its_permit:
  assumes "Execute wd rq client g = (r, effs, Some p, g')" "fair_world wd"
  shows "pm_completed p"
proof -
  obtain rq' ra h where gate: "execute_gate rq client g = (Inr (rq', ra), h)"
    using assms(1) by (auto simp: Execute_def split: prod.splits sum.splits)
  obtain a g1 where a: "wd_admit wd rq' h = (a, g1)" by fastforce
  obtain q where q: "ad_Permit a = Some q"
    and ex: "execute_admitted wd rq' ra (the client) a q (wd_env wd 0 g1) = (r, effs, p, g')"
    using assms(1) gate a by (auto simp: Execute_def Let_def split: option.splits if_splits prod.splits)
  have adm: "case wd_admit wd rq' h of (a, g') \<Rightarrow>
      (case ad_Permit a of None \<Rightarrow> True | Some p \<Rightarrow> \<not> pm_completed p \<and> \<not> pm_started p \<and> g_inFlight g')"
    using assms(2) by (auto simp: fair_world_def)
  have env: "g_inFlight (wd_env wd 0 g1) = g_inFlight g1" using assms(2) by (simp add: fair_world_def)
  from adm a q have "\<not> pm_completed q" "\<not> pm_started q" "g_inFlight g1" by simp_all
  with env show ?thesis using execute_admitted_completes [OF ex] by simp
qed

theorem execution_completes_its_permit_witness:
  "\<exists>r effs p g'. Execute demo_world demo_request (Some quiet_client) (sy_gov demo0) = (r, effs, Some p, g')
     \<and> pm_completed p"
proof -
  have fair: "fair_world demo_world" by (simp add: fair_world_def demo_world_def fresh_permit_def)
  have "execute_gate demo_request (Some quiet_client) (sy_gov demo0) =
      (Inr (demo_request\<lparr>rq_ProviderRequest := (rq_ProviderRequest demo_request)\<lparr>pr_Model := []\<rparr>\<rparr>, False), sy_gov demo0)"
    by (simp add: execute_gate_def quiet_client_def demo0_config demo_route Let_def demo_request_def TrimSpace_def
        trim_left.simps)
  then obtain r effs p g' where e: "Execute demo_world demo_request (Some quiet_client) (sy_gov demo0) = (r, effs, Some p, g')"
    by (auto simp: Execute_def demo_world_def Let_def split_beta)
  then show ?thesis using execution_completes_its_permit [OF e fair] by blast
qed

text \<open>C15: an attempt that may have reached the upstream is not retried on its own. When the metadata of
  the response of an execution says that the request was sent without confirmation or that a response
  had started, the completion is at least as severe as an uncertain outcome, whatever the classifier
  said, and exactly that without attempt receipts. It is eligible for a retry only in one case: receipts
  are required and the whole set is one receipt of an attempt that was refused for its rate.\<close>

theorem uncertain_delivery_is_not_retried:
  assumes "Execute wd rq client g = (r, effs, p, g')" "fair_world wd" "ex_Response r = Some response"
    and "md_DeliveryState (rsp_Metadata response) \<in> {DeliverySentUnconfirmed, DeliveryResponseStarted}"
  shows "\<exists>c. ex_Completion r = Some c
    \<and> outcomePriority OutcomeUncertainReached \<le> outcomePriority (fr_Outcome c)
    \<and> (\<not> cfg_RequireAttemptReceipts (g_config g) \<longrightarrow> fr_Outcome c = OutcomeUncertainReached)
    \<and> (fr_RetryEligible c \<longrightarrow> cfg_RequireAttemptReceipts (g_config g)
         \<and> (\<exists>rs x. md_AttemptReceipts (rsp_Metadata response) = Some rs \<and> as_Receipts rs = [x]
              \<and> receiptOutcome (ar_Outcome x) = OutcomeRateCapacity))"
proof -
  have none: "ex_Response (admission_only ad e) = None" for ad e by (simp add: admission_only_def)
  obtain rq' ra h where gate: "execute_gate rq client g = (Inr (rq', ra), h)"
    using assms(1,3) by (auto simp: Execute_def execute_gate_def none Let_def split: prod.splits sum.splits option.splits if_splits)
  obtain a g1 where a: "wd_admit wd rq' h = (a, g1)" by fastforce
  obtain q p' where q: "ad_Permit a = Some q"
    and ex: "execute_admitted wd rq' ra (the client) a q (wd_env wd 0 g1) = (r, effs, p', g')"
    using assms(1,3) gate a by (auto simp: Execute_def none Let_def split: option.splits if_splits prod.splits)
  have "case wd_admit wd rq' h of (a, g') \<Rightarrow>
      (case ad_Permit a of None \<Rightarrow> True | Some p \<Rightarrow> \<not> pm_completed p \<and> \<not> pm_started p \<and> g_inFlight g')"
    using assms(2) by (auto simp: fair_world_def)
  then have "\<not> pm_completed q" using a q by simp
  from execute_admitted_responds [OF ex assms(3) this]
  have "\<exists>c. ex_Completion r = Some c \<and> held_back ra response c" using execute_call_uncertain assms(3,4) by metis
  then show ?thesis using execute_gate_Inr(2) [OF gate] by (simp add: held_back_def)
qed

definition unconfirmed_client :: Client where
  "unconfirmed_client = quiet_client\<lparr>cl_Complete := (\<lambda>_. (\<lparr>rsp_Text = ''x'',
     rsp_Metadata = empty_metadata\<lparr>md_DeliveryState := DeliverySentUnconfirmed\<rparr>\<rparr>, Some CallDeadlineExceeded))\<rparr>"

definition admitting_world :: World where
  "admitting_world = demo_world\<lparr>wd_admit := (\<lambda>_ _. (empty_result\<lparr>ad_Code := AdmissionAdmitted,
     ad_Permit := Some (fresh_permit demo_request True)\<rparr>, sy_gov demo1)), wd_persistence := None\<rparr>"

theorem uncertain_delivery_is_not_retried_witness:
  "\<exists>r effs p g' response c. Execute admitting_world demo_request (Some unconfirmed_client) (sy_gov demo0) = (r, effs, p, g')
     \<and> ex_Response r = Some response \<and> ex_Completion r = Some c \<and> fr_Outcome c = OutcomeUncertainReached \<and> \<not> fr_RetryEligible c"
proof -
  obtain r effs p g' where e: "Execute admitting_world demo_request (Some unconfirmed_client) (sy_gov demo0) = (r, effs, p, g')"
    by (metis prod_cases4)
  have fair: "fair_world admitting_world" by (simp add: fair_world_def admitting_world_def demo_world_def fresh_permit_def demo1_facts)
  have gate: "execute_gate demo_request (Some unconfirmed_client) (sy_gov demo0) =
      (Inr (demo_request\<lparr>rq_ProviderRequest := (rq_ProviderRequest demo_request)\<lparr>pr_Model := []\<rparr>\<rparr>, False), sy_gov demo0)"
    by (simp add: execute_gate_def unconfirmed_client_def quiet_client_def demo0_config demo_route Let_def demo_request_def TrimSpace_def
        trim_left.simps)
  obtain q where st: "permit_start False (fresh_permit demo_request True) (sy_gov demo1) = (None, q, sy_gov demo2)"
    using demo2_started .
  have resp: "ex_Response r = Some \<lparr>rsp_Text = ''x'', rsp_Metadata = empty_metadata\<lparr>md_DeliveryState := DeliverySentUnconfirmed\<rparr>\<rparr>"
    using e unfolding Execute_def gate
    by (simp add: admitting_world_def demo_world_def background_def execute_admitted_def st execute_call_def Let_def split_beta)
      (auto simp: unconfirmed_client_def)
  have "\<not> cfg_RequireAttemptReceipts (g_config (sy_gov demo0))" by (simp add: demo0_config demo_route)
  then show ?thesis using uncertain_delivery_is_not_retried [OF e fair resp] e resp by auto
qed

end
