(* ===== verification/Policy.thy ===== *)
theory Policy
  imports Prelude
begin

text \<open>
  The control-plane decision seam of \<open>internal/policy/policy.go\<close>: the configured mode of every
  write tool and process recipe, the decision on one proposal, and the textual policy
  specifications with their parsers. A mode is a string as in the source, so a configuration may
  hold an unknown one. The approvals table is an interface in the source; here it is a function
  argument that returns the approval, whether there is one, and the error of the lookup.
\<close>

section \<open>Decisions, modes and requests\<close>

datatype Decision = Allowed | Denied | ApprovalRequired

type_synonym Mode = string

definition ModeAllow :: Mode where "ModeAllow = ''allow''"
definition ModeDeny :: Mode where "ModeDeny = ''deny''"
definition ModeApprovalRequired :: Mode where "ModeApprovalRequired = ''approval_required''"

lemmas mode_defs = ModeAllow_def ModeDeny_def ModeApprovalRequired_def

record PolicyRequest =
  pq_TaskID :: string
  pq_ActionID :: string
  pq_Tool :: string
  pq_Fingerprint :: string
  pq_Workspace :: string
  pq_Recipe :: string

record PolicyOutcome =
  po_Decision :: Decision
  po_Reason :: string

record Approval =
  ap_Decision :: string
  ap_Reason :: string

type_synonym Approvals = "string \<Rightarrow> string \<Rightarrow> Approval \<times> bool \<times> string option"

record PolicyConfig =
  pc_Modes :: "Mode gomap"
  pc_RecipeModes :: "Mode gomap"

section \<open>Configurations\<close>

definition ToolWriteFile :: string where "ToolWriteFile = ''write_file''"
definition ToolApplyPatch :: string where "ToolApplyPatch = ''apply_patch''"

definition WriteTools :: "string list" where
  "WriteTools = [ToolWriteFile, ToolApplyPatch]"

definition Spec :: "PolicyConfig \<Rightarrow> string" where
  "Spec c = Join '','' (concat (map (\<lambda>tool.
     case map_get (pc_Modes c) tool of None \<Rightarrow> [] | Some mode \<Rightarrow> [tool @ ''='' @ mode])
     (sort WriteTools)))"

definition modeOf :: "PolicyConfig \<Rightarrow> string \<Rightarrow> Mode" where
  "modeOf c tool = (case map_get (pc_Modes c) tool of Some mode \<Rightarrow> mode | None \<Rightarrow> ModeApprovalRequired)"

definition Config_Equal :: "PolicyConfig \<Rightarrow> PolicyConfig \<Rightarrow> bool" where
  "Config_Equal a b \<longleftrightarrow> list_all (\<lambda>tool. modeOf a tool = modeOf b tool) WriteTools"

definition DefaultConfig :: PolicyConfig where
  "DefaultConfig = \<lparr>pc_Modes = [(ToolWriteFile, ModeApprovalRequired), (ToolApplyPatch, ModeApprovalRequired)],
     pc_RecipeModes = []\<rparr>"

definition recipeModeOf :: "PolicyConfig \<Rightarrow> string \<Rightarrow> Mode" where
  "recipeModeOf c rid =
     (case map_get (pc_RecipeModes c) rid of Some mode \<Rightarrow> mode | None \<Rightarrow> ModeApprovalRequired)"

definition RecipeSpec :: "PolicyConfig \<Rightarrow> string list \<Rightarrow> string" where
  "RecipeSpec c recipeIDs = Join '','' (map (\<lambda>rid. rid @ ''='' @ recipeModeOf c rid) (sort recipeIDs))"

definition RecipeEqual :: "PolicyConfig \<Rightarrow> PolicyConfig \<Rightarrow> string list \<Rightarrow> bool" where
  "RecipeEqual a b recipeIDs \<longleftrightarrow> list_all (\<lambda>rid. recipeModeOf a rid = recipeModeOf b rid) recipeIDs"

section \<open>The decision on one proposal\<close>

record Static =
  st_modes :: "Mode gomap"
  st_recipeModes :: "Mode gomap"
  st_approvals :: "Approvals option"

definition NewStatic :: "PolicyConfig \<Rightarrow> Approvals option \<Rightarrow> Static" where
  "NewStatic c approvals =
     \<lparr>st_modes = pc_Modes c, st_recipeModes = pc_RecipeModes c, st_approvals = approvals\<rparr>"

definition outcome :: "Decision \<Rightarrow> string \<Rightarrow> PolicyOutcome" where
  "outcome d r = \<lparr>po_Decision = d, po_Reason = r\<rparr>"

definition evaluateApproval :: "Static \<Rightarrow> PolicyRequest \<Rightarrow> PolicyOutcome" where
  "evaluateApproval p rq =
     (case st_approvals p of
        None \<Rightarrow> outcome ApprovalRequired ''approval_required''
      | Some lookup \<Rightarrow>
          if pq_Fingerprint rq = '''' then outcome ApprovalRequired ''approval_required''
          else (case lookup (pq_TaskID rq) (pq_Fingerprint rq) of
              (approval, ok, Some err) \<Rightarrow> outcome ApprovalRequired ''approval_lookup_failed''
            | (approval, ok, None) \<Rightarrow>
                if \<not> ok then outcome ApprovalRequired ''approval_required''
                else if ap_Decision approval = ''approved'' then outcome Allowed ''approved_by_operator''
                else if ap_Decision approval = ''rejected'' then outcome Denied ''rejected_by_operator''
                else outcome ApprovalRequired ''approval_required''))"

definition evaluateRecipe :: "Static \<Rightarrow> PolicyRequest \<Rightarrow> PolicyOutcome" where
  "evaluateRecipe p rq =
     (let mode = (case map_get (st_recipeModes p) (pq_Recipe rq) of Some m \<Rightarrow> m | None \<Rightarrow> ModeApprovalRequired)
      in if mode = ModeAllow then outcome Allowed ''policy_allow''
         else if mode = ModeDeny then outcome Denied ''policy_deny''
         else if mode = ModeApprovalRequired then evaluateApproval p rq
         else outcome Denied ''unknown_policy_mode'')"

definition Evaluate :: "Static \<Rightarrow> PolicyRequest \<Rightarrow> PolicyOutcome" where
  "Evaluate p rq =
     (if pq_Recipe rq \<noteq> '''' then evaluateRecipe p rq
      else (case map_get (st_modes p) (pq_Tool rq) of
          None \<Rightarrow> outcome Denied ''no_policy_for_tool''
        | Some mode \<Rightarrow>
            if mode = ModeAllow then outcome Allowed ''policy_allow''
            else if mode = ModeDeny then outcome Denied ''policy_deny''
            else if mode = ModeApprovalRequired then evaluateApproval p rq
            else outcome Denied ''unknown_policy_mode''))"

section \<open>Parsing policy specifications\<close>

datatype policy_error =
    PolicyEmpty
  | PolicyNoAssignment string
  | PolicyBadTool string
  | PolicyNoRecipe string
  | PolicyBadMode string

definition known_mode :: "Mode \<Rightarrow> bool" where
  "known_mode m \<longleftrightarrow> m = ModeAllow \<or> m = ModeDeny \<or> m = ModeApprovalRequired"

text \<open>The loop over the comma-separated items; the body is the rest of one iteration.\<close>

fun parse_items :: "(string \<Rightarrow> 'c \<Rightarrow> policy_error + 'c) \<Rightarrow> string list \<Rightarrow> 'c \<Rightarrow> policy_error + 'c" where
  "parse_items body [] c = Inr c"
| "parse_items body (raw # items) c =
     (let item = TrimSpace raw
      in if item = '''' then parse_items body items c
         else (case body item c of Inl e \<Rightarrow> Inl e | Inr c' \<Rightarrow> parse_items body items c'))"

definition config_item :: "string \<Rightarrow> PolicyConfig \<Rightarrow> policy_error + PolicyConfig" where
  "config_item item c =
     (case SplitN2 (CHR ''='') item of
        None \<Rightarrow> Inl (PolicyNoAssignment item)
      | Some (l, r) \<Rightarrow>
          let tool = TrimSpace l; mode = TrimSpace r
          in if tool \<noteq> ToolWriteFile \<and> tool \<noteq> ToolApplyPatch then Inl (PolicyBadTool tool)
             else if known_mode mode then Inr (c\<lparr>pc_Modes := map_put tool mode (pc_Modes c)\<rparr>)
             else Inl (PolicyBadMode mode))"

definition ParseConfig :: "string \<Rightarrow> policy_error + PolicyConfig" where
  "ParseConfig raw =
     (let value = TrimSpace raw
      in if value = '''' then Inl PolicyEmpty
         else parse_items config_item (Split (CHR '','') value) DefaultConfig)"

definition recipe_item :: "string \<Rightarrow> PolicyConfig \<Rightarrow> policy_error + PolicyConfig" where
  "recipe_item item c =
     (case SplitN2 (CHR ''='') item of
        None \<Rightarrow> Inl (PolicyNoAssignment item)
      | Some (l, r) \<Rightarrow>
          let rid = TrimSpace l; mode = TrimSpace r
          in if rid = '''' then Inl (PolicyNoRecipe item)
             else if known_mode mode
             then Inr (c\<lparr>pc_RecipeModes := map_put rid mode (pc_RecipeModes c)\<rparr>)
             else Inl (PolicyBadMode mode))"

definition ParseRecipePolicy :: "string \<Rightarrow> policy_error + PolicyConfig" where
  "ParseRecipePolicy raw =
     (let value = TrimSpace raw
      in if value = '''' then Inl PolicyEmpty
         else parse_items recipe_item (Split (CHR '','') value) \<lparr>pc_Modes = [], pc_RecipeModes = []\<rparr>)"

section \<open>Trimming\<close>

lemma trim_left_le: "length (trim_left ps s) \<le> length s"
proof (induction ps s rule: trim_left.induct)
  case (1 ps s)
  show ?case
    by (cases "strip_one ps s") (use 1 strip_one_shorter in \<open>fastforce simp: trim_left.simps [of ps s]\<close>)+
qed

lemma trim_left_fixed: "length s \<le> length (trim_left ps s) \<Longrightarrow> strip_one ps s = None"
proof (rule ccontr)
  assume len: "length s \<le> length (trim_left ps s)" and "strip_one ps s \<noteq> None"
  then obtain s' where s': "strip_one ps s = Some s'" by blast
  then have "trim_left ps s = trim_left ps s'" by (simp add: trim_left.simps [of ps s])
  with len strip_one_shorter [OF s'] trim_left_le [of ps s'] show False by simp
qed

lemma TrimSpace_fixed:
  assumes "TrimSpace s = s"
  shows "strip_one space_encodings s = None" "strip_one (map rev space_encodings) (rev s) = None"
proof -
  let ?l = "trim_left space_encodings s"
  have r: "trim_left (map rev space_encodings) (rev ?l) = rev s"
    using assms unfolding TrimSpace_def by (metis rev_rev_ident)
  have "length s \<le> length ?l" using trim_left_le [of "map rev space_encodings" "rev ?l"] r by simp
  then show 1: "strip_one space_encodings s = None" by (rule trim_left_fixed)
  then have "trim_left (map rev space_encodings) (rev s) = rev s" using r by (simp add: trim_left_no_space)
  then show "strip_one (map rev space_encodings) (rev s) = None" by (intro trim_left_fixed) simp
qed

text \<open>A separator that starts no space encoding protects what stands before it.\<close>

lemma strip_one_before_sep:
  "strip_one ps s = None \<Longrightarrow> \<forall>p \<in> set ps. c \<notin> set p \<Longrightarrow> strip_one ps (s @ c # t) = None"
proof (induction ps)
  case (Cons p ps)
  have "HasPrefix s p" if hp: "HasPrefix (s @ c # t) p"
  proof -
    have "length p \<le> length s"
    proof (rule ccontr)
      assume "\<not> length p \<le> length s"
      then obtain n where n: "length p - length s = Suc n" by (cases "length p - length s") auto
      have "c \<in> set (take (length p) (s @ c # t))" using n by simp
      with hp Cons.prems(2) show False by (simp add: HasPrefix_def)
    qed
    with hp show ?thesis by (simp add: HasPrefix_def)
  qed
  with Cons show ?case by (auto split: if_splits)
qed simp

lemma strip_one_head:
  "\<forall>p \<in> set ps. p = [] \<or> hd p \<noteq> c \<Longrightarrow> strip_one ps (c # t) = None"
proof (induction ps)
  case (Cons p ps)
  then show ?case by (cases p) (auto simp: HasPrefix_def)
qed simp


lemma known_mode_trim: "known_mode m \<Longrightarrow> TrimSpace m = m \<and> m \<noteq> [] \<and> CHR '','' \<notin> set m \<and> CHR ''='' \<notin> set m"
proof -
  assume "known_mode m"
  moreover have "TrimSpace ModeAllow = ModeAllow" "TrimSpace ModeDeny = ModeDeny"
    "TrimSpace ModeApprovalRequired = ModeApprovalRequired"
    by (rule TrimSpace_id; simp add: mode_defs space_encodings_def HasPrefix_def)+
  ultimately show ?thesis by (auto simp: known_mode_def mode_defs)
qed

lemma known_mode_end:
  assumes "known_mode m"
  shows "strip_one (map rev space_encodings) (rev (s @ m)) = None"
proof -
  have "strip_one (map rev space_encodings) (c # t) = None"
    if "c \<in> {CHR ''w'', CHR ''y'', CHR ''d''}" for c t
    using that by (intro strip_one_head) (auto simp: space_encodings_def)
  moreover have "\<exists>c t. rev (s @ m) = c # t \<and> c \<in> {CHR ''w'', CHR ''y'', CHR ''d''}"
    using assms by (auto simp: known_mode_def mode_defs)
  ultimately show ?thesis by metis
qed

definition clean_name :: "string \<Rightarrow> bool" where
  "clean_name n \<longleftrightarrow> n \<noteq> [] \<and> TrimSpace n = n \<and> CHR '','' \<notin> set n \<and> CHR ''='' \<notin> set n"

definition render :: "string \<times> Mode \<Rightarrow> string" where
  "render a = fst a @ ''='' @ snd a"

lemma render_start: "clean_name n \<Longrightarrow> strip_one space_encodings (render (n, m) @ t) = None"
  using TrimSpace_fixed(1) [of n] strip_one_before_sep [of space_encodings n "CHR ''=''" "m @ t"]
  by (simp add: clean_name_def render_def space_encodings_def)

lemma render_end: "known_mode m \<Longrightarrow> strip_one (map rev space_encodings) (rev (t @ render (n, m))) = None"
  using known_mode_end [of m "t @ n @ ''=''"] by (simp add: render_def)

lemma Join_front: "\<exists>t. Join sep (x # xs) = x @ t"
  by (cases xs) auto

lemma Join_back: "xs \<noteq> [] \<Longrightarrow> \<exists>t. Join sep xs = t @ last xs"
proof (induction sep xs rule: Join.induct)
  case (3 sep x y ys)
  then obtain t where "Join sep (y # ys) = t @ last (y # ys)" by auto
  then show ?case by (metis Join.simps(3) append.assoc last_ConsR list.distinct(1))
qed auto

definition clean_assignments :: "(string \<times> Mode) list \<Rightarrow> bool" where
  "clean_assignments xs \<longleftrightarrow> xs \<noteq> [] \<and> (\<forall>(n, m) \<in> set xs. clean_name n \<and> known_mode m)"

lemma TrimSpace_rendered:
  assumes "clean_assignments xs"
  shows "TrimSpace (Join '','' (map render xs)) = Join '','' (map render xs)"
proof (rule TrimSpace_id)
  obtain n m ys where xs: "xs = (n, m) # ys" "clean_name n"
    using assms by (cases xs) (auto simp: clean_assignments_def)
  obtain t where "Join '','' (map render xs) = render (n, m) @ t" using Join_front xs(1) by fastforce
  then show "strip_one space_encodings (Join '','' (map render xs)) = None"
    using render_start xs(2) by simp
  obtain n' m' where l: "last xs = (n', m')" "known_mode m'"
    using assms by (cases xs rule: rev_cases) (auto simp: clean_assignments_def)
  obtain u where "Join '','' (map render xs) = u @ render (last xs)"
    using Join_back [of "map render xs" "'',''"] assms by (auto simp: clean_assignments_def last_map)
  then show "strip_one (map rev space_encodings) (rev (Join '','' (map render xs))) = None"
    using render_end l by simp
qed

lemma Split_rendered:
  assumes "clean_assignments xs"
  shows "Split (CHR '','') (Join '','' (map render xs)) = map render xs"
  using assms known_mode_trim
  by (intro Split_Join) (fastforce simp: clean_assignments_def clean_name_def render_def)+

lemma rendered_item:
  assumes "clean_name n" "known_mode m"
  shows "TrimSpace (render (n, m)) = render (n, m)" "render (n, m) \<noteq> []"
    "SplitN2 (CHR ''='') (render (n, m)) = Some (n, m)"
  using TrimSpace_rendered [of "[(n, m)]"] assms SplitN2_append [of "CHR ''=''" n m]
  by (simp_all add: clean_assignments_def render_def clean_name_def)

section \<open>The interface of the two item parsers\<close>

text \<open>Both parsers run the same loop over \<open>name=mode\<close> items and differ in the names they accept and
  the map they write. What the loop computes is proved once from what one item does.\<close>

definition assigns :: "string \<Rightarrow> string \<Rightarrow> Mode \<Rightarrow> bool" where
  "assigns raw n m \<longleftrightarrow>
     (case SplitN2 (CHR ''='') (TrimSpace raw) of None \<Rightarrow> False
      | Some (l, r) \<Rightarrow> TrimSpace l = n \<and> TrimSpace r = m)"

locale mode_items =
  fixes body :: "string \<Rightarrow> 'c \<Rightarrow> policy_error + 'c"
    and accepts :: "string \<Rightarrow> bool"
    and assign :: "string \<Rightarrow> Mode \<Rightarrow> 'c \<Rightarrow> 'c"
    and get :: "'c \<Rightarrow> string \<Rightarrow> Mode option"
  assumes body_Inr: "body item c = Inr c' \<longleftrightarrow>
      (\<exists>l r. SplitN2 (CHR ''='') item = Some (l, r) \<and> accepts (TrimSpace l) \<and> known_mode (TrimSpace r)
         \<and> c' = assign (TrimSpace l) (TrimSpace r) c)"
    and get_assign: "get (assign n m c) n' = (if n' = n then Some m else get c n')"
begin

lemma parse_rendered:
  "\<forall>(n, m) \<in> set xs. clean_name n \<and> known_mode m \<and> accepts n \<Longrightarrow>
   parse_items body (map render xs) c = Inr (fold (\<lambda>(n, m). assign n m) xs c)"
proof (induction xs arbitrary: c)
  case (Cons x xs)
  obtain n m where x: "x = (n, m)" "clean_name n" "known_mode m" "accepts n" using Cons.prems by (cases x) auto
  have "body (render x) c = Inr (assign n m c)"
    using x rendered_item(3) [OF x(2,3)] known_mode_trim by (simp add: body_Inr clean_name_def)
  then show ?case using Cons x rendered_item(1,2) [OF x(2,3)] by (simp add: Let_def)
qed simp

lemma get_fold:
  "get (fold (\<lambda>(n, m). assign n m) xs c) n = (case map_of (rev xs) n of Some m \<Rightarrow> Some m | None \<Rightarrow> get c n)"
  by (induction xs arbitrary: c) (auto simp: get_assign map_add_def split: option.splits)

lemma parse_specification:
  assumes "clean_assignments xs" "\<forall>(n, m) \<in> set xs. accepts n"
  shows "parse_items body (Split (CHR '','') (TrimSpace (Join '','' (map render xs)))) c
     = Inr (fold (\<lambda>(n, m). assign n m) xs c)"
  using parse_rendered [of xs c] assms TrimSpace_rendered [OF assms(1)] Split_rendered [OF assms(1)]
  by (auto simp: clean_assignments_def)

lemma parse_origin:
  "parse_items body items c = Inr c' \<Longrightarrow> get c' n = Some m \<Longrightarrow>
   get c n = Some m \<or> (known_mode m \<and> accepts n \<and> (\<exists>raw \<in> set items. assigns raw n m))"
proof (induction items arbitrary: c)
  case (Cons raw items)
  show ?case
  proof (cases "TrimSpace raw = []")
    case True
    then show ?thesis using Cons by fastforce
  next
    case False
    then obtain d where d: "body (TrimSpace raw) c = Inr d" "parse_items body items d = Inr c'"
      using Cons.prems(1) by (auto simp: Let_def split: sum.splits)
    then obtain l r where lr: "SplitN2 (CHR ''='') (TrimSpace raw) = Some (l, r)"
      "accepts (TrimSpace l)" "known_mode (TrimSpace r)" "d = assign (TrimSpace l) (TrimSpace r) c"
      by (auto simp: body_Inr)
    then show ?thesis using Cons.IH [OF d(2) Cons.prems(2)]
      by (auto simp: get_assign assigns_def split: if_splits)
  qed
qed simp

end

interpretation write_tools: mode_items config_item
  "\<lambda>tool. tool = ToolWriteFile \<or> tool = ToolApplyPatch"
  "\<lambda>tool mode c. c\<lparr>pc_Modes := map_put tool mode (pc_Modes c)\<rparr>"
  "\<lambda>c. map_get (pc_Modes c)"
  by unfold_locales (auto simp: config_item_def Let_def split: option.splits)

interpretation recipes: mode_items recipe_item
  "\<lambda>rid. rid \<noteq> []"
  "\<lambda>rid mode c. c\<lparr>pc_RecipeModes := map_put rid mode (pc_RecipeModes c)\<rparr>"
  "\<lambda>c. map_get (pc_RecipeModes c)"
  by unfold_locales (auto simp: recipe_item_def Let_def split: option.splits)

section \<open>Properties\<close>

lemma rendered_not_empty: "clean_assignments xs \<Longrightarrow> Join '','' (map render xs) \<noteq> []"
proof -
  assume a: "clean_assignments xs"
  then obtain n m ys where "xs = (n, m) # ys" by (cases xs) (auto simp: clean_assignments_def)
  moreover obtain t where "Join '','' (render (n, m) # map render ys) = render (n, m) @ t" using Join_front by blast
  ultimately show ?thesis by (simp add: render_def)
qed

lemma assigned_distinct:
  "distinct ts \<Longrightarrow> distinct (map fst (List.map_filter (\<lambda>t. map_option (Pair t) (f t)) (sort ts)))"
proof -
  have "map fst (List.map_filter (\<lambda>t. map_option (Pair t) (f t)) us) = filter (\<lambda>t. f t \<noteq> None) us" for us
    by (induction us) (auto simp: map_filter_simps split: option.splits)
  then show "distinct ts \<Longrightarrow> ?thesis" by simp
qed

lemma write_tools_clean: "tool \<in> set WriteTools \<Longrightarrow> clean_name tool"
proof -
  have "TrimSpace ToolWriteFile = ToolWriteFile" "TrimSpace ToolApplyPatch = ToolApplyPatch"
    by (rule TrimSpace_id; simp add: ToolWriteFile_def ToolApplyPatch_def space_encodings_def HasPrefix_def)+
  then show "tool \<in> set WriteTools \<Longrightarrow> ?thesis"
    by (auto simp: WriteTools_def clean_name_def) (auto simp: ToolWriteFile_def ToolApplyPatch_def)
qed

lemma Spec_render:
  "Spec c = Join '','' (map render (List.map_filter
     (\<lambda>tool. map_option (Pair tool) (map_get (pc_Modes c) tool)) (sort WriteTools)))"
proof -
  have "concat (map (\<lambda>tool. case f tool of None \<Rightarrow> [] | Some mode \<Rightarrow> [tool @ ''='' @ mode]) ts)
      = map render (List.map_filter (\<lambda>tool. map_option (Pair tool) (f tool)) ts)" for f ts
    by (induction ts) (auto simp: map_filter_simps render_def split: option.splits)
  then show ?thesis by (simp add: Spec_def)
qed

text \<open>C24: nothing runs without permission. A proposal is allowed exactly when the mode configured
  for its recipe or write tool is \<open>allow\<close>, or that mode is \<open>approval_required\<close> (which is what an
  unconfigured recipe has in the code, against its comment) and the approvals table, asked for the task and the fingerprint of the
  proposal, answers without error that the operator approved it. A tool without a mode, an unknown
  mode, a missing fingerprint, a missing table and a failed lookup never allow it.\<close>

theorem only_permitted_writes_run:
  "po_Decision (Evaluate (NewStatic c approvals) rq) = Allowed \<longleftrightarrow>
   (let mode = (if pq_Recipe rq \<noteq> [] then Some (recipeModeOf c (pq_Recipe rq)) else map_get (pc_Modes c) (pq_Tool rq))
    in mode = Some ModeAllow
       \<or> mode = Some ModeApprovalRequired \<and> pq_Fingerprint rq \<noteq> []
         \<and> (\<exists>lookup approval. approvals = Some lookup
              \<and> lookup (pq_TaskID rq) (pq_Fingerprint rq) = (approval, True, None)
              \<and> ap_Decision approval = ''approved''))"
proof -
  have "po_Decision (evaluateApproval (NewStatic c approvals) rq) = Allowed \<longleftrightarrow>
      pq_Fingerprint rq \<noteq> [] \<and> (\<exists>lookup approval. approvals = Some lookup
        \<and> lookup (pq_TaskID rq) (pq_Fingerprint rq) = (approval, True, None) \<and> ap_Decision approval = ''approved'')"
    by (auto simp: evaluateApproval_def NewStatic_def outcome_def split: option.splits prod.splits)
  moreover have "ModeAllow \<noteq> ModeDeny" "ModeAllow \<noteq> ModeApprovalRequired" "ModeDeny \<noteq> ModeApprovalRequired"
    by (simp_all add: mode_defs)
  ultimately show ?thesis
    by (auto simp: Evaluate_def evaluateRecipe_def recipeModeOf_def Let_def outcome_def NewStatic_def
        split: option.splits)
qed

text \<open>The comment on \<open>evaluateRecipe\<close> says that an unconfigured recipe is denied; the code asks for approval,
  and such a recipe runs once the operator approved it.\<close>

lemma unconfigured_recipe_runs_once_approved:
  assumes "pq_Recipe rq \<noteq> []" "map_get (pc_RecipeModes c) (pq_Recipe rq) = None" "pq_Fingerprint rq \<noteq> []"
    and "lookup (pq_TaskID rq) (pq_Fingerprint rq) = (approval, True, None)" "ap_Decision approval = ''approved''"
  shows "po_Decision (Evaluate (NewStatic c (Some lookup)) rq) = Allowed"
  using assms by (simp add: Evaluate_def evaluateRecipe_def evaluateApproval_def NewStatic_def outcome_def mode_defs)

text \<open>The durable write policy survives a restart. The specification of a configuration whose
  modes are known and that sets a mode for some write tool is accepted by the parser, and the
  parsed configuration decides every write tool as the original does.\<close>

theorem write_policy_round_trip:
  assumes "list_all (\<lambda>tool. case map_get (pc_Modes c) tool of None \<Rightarrow> True | Some m \<Rightarrow> known_mode m) WriteTools"
    and "list_ex (\<lambda>tool. map_get (pc_Modes c) tool \<noteq> None) WriteTools"
  shows "\<exists>c'. ParseConfig (Spec c) = Inr c' \<and> Config_Equal c' c"
proof -
  define xs where "xs = List.map_filter (\<lambda>tool. map_option (Pair tool) (map_get (pc_Modes c) tool)) (sort WriteTools)"
  have in_xs: "(n, m) \<in> set xs \<longleftrightarrow> n \<in> set WriteTools \<and> map_get (pc_Modes c) n = Some m" for n m
    by (auto simp: xs_def map_filter_def image_iff)
  have tools: "tool \<in> set WriteTools \<longleftrightarrow> tool = ToolWriteFile \<or> tool = ToolApplyPatch" for tool
    by (auto simp: WriteTools_def)
  have keys: "distinct (map fst xs)"
    unfolding xs_def by (rule assigned_distinct) (simp add: WriteTools_def ToolWriteFile_def ToolApplyPatch_def)
  have clean: "clean_assignments xs"
    using assms in_xs write_tools_clean by (fastforce simp: clean_assignments_def list_all_iff list_ex_iff)
  let ?c' = "fold (\<lambda>(n, m) c. c\<lparr>pc_Modes := map_put n m (pc_Modes c)\<rparr>) xs DefaultConfig"
  have "\<forall>(n, m) \<in> set xs. n = ToolWriteFile \<or> n = ToolApplyPatch" using in_xs tools by blast
  then have "ParseConfig (Spec c) = Inr ?c'"
    using write_tools.parse_specification [OF clean] rendered_not_empty [OF clean] TrimSpace_rendered [OF clean]
    by (simp add: ParseConfig_def Spec_render xs_def)
  moreover have "map_of (rev xs) tool = map_get (pc_Modes c) tool" if "tool \<in> set WriteTools" for tool
  proof -
    have "map_of (rev xs) tool = Some m \<longleftrightarrow> map_get (pc_Modes c) tool = Some m" for m
    proof -
      have "distinct (map fst (rev xs))" using keys by (simp add: rev_map [symmetric])
      from map_of_eq_Some_iff [OF this] that in_xs show ?thesis by simp
    qed
    then show ?thesis by (metis option.exhaust)
  qed
  ultimately show ?thesis
    using write_tools.get_fold [of xs DefaultConfig] tools
    by (auto simp: Config_Equal_def list_all_iff modeOf_def DefaultConfig_def split: option.splits)
qed

theorem write_policy_round_trip_witness:
  "\<exists>c'. ParseConfig (Spec \<lparr>pc_Modes = [(ToolWriteFile, ModeAllow)], pc_RecipeModes = []\<rparr>) = Inr c'
     \<and> modeOf c' ToolWriteFile = ModeAllow"
  using write_policy_round_trip [of "\<lparr>pc_Modes = [(ToolWriteFile, ModeAllow)], pc_RecipeModes = []\<rparr>"]
  by (auto simp: WriteTools_def known_mode_def ToolWriteFile_def ToolApplyPatch_def Config_Equal_def modeOf_def)

text \<open>The durable recipe policy survives a restart: for recipe ids that are not blank at an end
  and hold neither a comma nor an equals sign, the complete specification of the recipes is
  accepted by the parser and the parsed configuration decides every recipe as the original does.\<close>

theorem recipe_policy_round_trip:
  assumes "recipeIDs \<noteq> []" "list_all clean_name recipeIDs" "list_all (\<lambda>rid. known_mode (recipeModeOf c rid)) recipeIDs"
  shows "\<exists>c'. ParseRecipePolicy (RecipeSpec c recipeIDs) = Inr c' \<and> RecipeEqual c' c recipeIDs"
proof -
  define xs where "xs = map (\<lambda>rid. (rid, recipeModeOf c rid)) (sort recipeIDs)"
  have clean: "clean_assignments xs"
    using assms by (auto simp: xs_def clean_assignments_def list_all_iff dest: arg_cong [where f = set])
  have spec: "RecipeSpec c recipeIDs = Join '','' (map render xs)"
    by (simp add: RecipeSpec_def xs_def render_def comp_def)
  let ?c' = "fold (\<lambda>(n, m) c. c\<lparr>pc_RecipeModes := map_put n m (pc_RecipeModes c)\<rparr>) xs \<lparr>pc_Modes = [], pc_RecipeModes = []\<rparr>"
  have "\<forall>(n, m) \<in> set xs. n \<noteq> []" using clean by (auto simp: clean_assignments_def clean_name_def)
  then have "ParseRecipePolicy (RecipeSpec c recipeIDs) = Inr ?c'"
    using recipes.parse_specification [OF clean] rendered_not_empty [OF clean] TrimSpace_rendered [OF clean]
    by (simp add: ParseRecipePolicy_def spec)
  moreover have "map_of (rev xs) rid = Some (recipeModeOf c rid)" if "rid \<in> set recipeIDs" for rid
    using that by (simp add: xs_def rev_map map_of_map_restrict)
  ultimately show ?thesis
    using recipes.get_fold [of xs "\<lparr>pc_Modes = [], pc_RecipeModes = []\<rparr>"]
    by (auto simp: RecipeEqual_def list_all_iff recipeModeOf_def [of ?c'])
qed

theorem recipe_policy_round_trip_witness:
  "\<exists>c'. ParseRecipePolicy (RecipeSpec \<lparr>pc_Modes = [], pc_RecipeModes = [(''test'', ModeAllow)]\<rparr> [''vet'', ''test'']) = Inr c'
     \<and> recipeModeOf c' ''test'' = ModeAllow \<and> recipeModeOf c' ''vet'' = ModeApprovalRequired"
proof -
  have "clean_name ''vet''" "clean_name ''test''"
    by (simp_all add: clean_name_def) (rule TrimSpace_id; simp add: space_encodings_def HasPrefix_def)+
  then show ?thesis
    using recipe_policy_round_trip
      [of "[''vet'', ''test'']" "\<lparr>pc_Modes = [], pc_RecipeModes = [(''test'', ModeAllow)]\<rparr>"]
    by (auto simp: known_mode_def recipeModeOf_def RecipeEqual_def)
qed

text \<open>A partial or sloppy specification never widens the write policy. If a value is accepted,
  every write tool has a known mode afterwards, and a mode other than \<open>approval_required\<close> is one
  that an item of the value assigns to that very tool.\<close>

theorem write_policy_never_widens:
  assumes "ParseConfig value = Inr c" "tool \<in> set WriteTools"
  shows "known_mode (modeOf c tool) \<and>
    (modeOf c tool = ModeApprovalRequired
     \<or> (\<exists>item \<in> set (Split (CHR '','') (TrimSpace value)). assigns item tool (modeOf c tool)))"
proof -
  have run: "parse_items config_item (Split (CHR '','') (TrimSpace value)) DefaultConfig = Inr c"
    using assms(1) by (auto simp: ParseConfig_def Let_def split: if_splits)
  show ?thesis
  proof (cases "map_get (pc_Modes c) tool")
    case (Some m)
    then show ?thesis using write_tools.parse_origin [OF run Some]
      by (auto simp: modeOf_def DefaultConfig_def known_mode_def split: if_splits)
  qed (simp add: modeOf_def known_mode_def)
qed

theorem write_policy_never_widens_witness:
  "\<exists>c. ParseConfig '' write_file = deny ,'' = Inr c \<and> known_mode (modeOf c ToolWriteFile)"
proof -
  have "\<not> isl (ParseConfig '' write_file = deny ,'')" by code_simp
  then obtain c where c: "ParseConfig '' write_file = deny ,'' = Inr c" by (cases "ParseConfig '' write_file = deny ,''") simp_all
  then show ?thesis using write_policy_never_widens [OF c, of ToolWriteFile] by (auto simp: WriteTools_def)
qed

end
