(* ===== verification/Store_Tables.thy ===== *)
theory Store_Tables
  imports Governor_Execute
begin

text \<open>
  The durable store of \<open>internal/state\<close>: its tables as lists of rows in insertion order, the journal,
  the identity sequence and the transaction discipline.

  \<^item> A table is a list of rows. An \<open>UPDATE\<close> with a \<open>WHERE\<close> clause maps the rows, and its number of
    affected rows is the number of rows that satisfy the clause.
  \<^item> A transaction either returns an error and leaves the store as it was (every operation defers a
    rollback) or commits all its statements. An operation also takes the failure of the database
    itself: begin, a statement or the commit reports an error, and nothing is changed.
  \<^item> What is not code of the repository is an argument: the textual form of instants, the strict
    JSON scanner and SHA-256 of the execution contract, and the serialisation of tool envelopes.
    \<open>Redact\<close> is an argument too: the theorems hold for every redaction.
  \<^item> Payloads of journal events are the values handed to \<open>appendEvent\<close>, before they are encoded.
\<close>

section \<open>Text codecs\<close>

record Codec =
  cx_redact :: "string \<Rightarrow> string"
  cx_rfc3339 :: "time \<Rightarrow> string"
  cx_parse3339 :: "string \<Rightarrow> time option"
  cx_strictJSON :: "string \<Rightarrow> string option"
  cx_sha256hex :: "string \<Rightarrow> string"
  cx_tools :: "string list option \<Rightarrow> string list option"
  cx_plan :: "string \<Rightarrow> string + (int \<times> (string \<times> string) list)"

definition formatTime :: "Codec \<Rightarrow> time \<Rightarrow> string" where
  "formatTime cx t = (if is_zero t then [] else cx_rfc3339 cx t)"

definition parseTime :: "Codec \<Rightarrow> string \<Rightarrow> time" where
  "parseTime cx s = (case cx_parse3339 cx s of None \<Rightarrow> zero_time | Some t \<Rightarrow> t)"

text \<open>The documented behaviour of \<open>time.RFC3339Nano\<close> the store relies on: an instant that was
  formatted is parsed back, and the empty text is no instant.\<close>

definition times_round_trip :: "Codec \<Rightarrow> bool" where
  "times_round_trip cx \<longleftrightarrow> (\<forall>t. cx_parse3339 cx (cx_rfc3339 cx t) = Some t) \<and> cx_parse3339 cx [] = None"

lemma parse_format: "times_round_trip cx \<Longrightarrow> parseTime cx (formatTime cx t) = t"
  by (simp add: times_round_trip_def parseTime_def formatTime_def)

fun dec :: "nat \<Rightarrow> string" where
  "dec n = (if n < 10 then [char_of (48 + n)] else dec (n div 10) @ [char_of (48 + n mod 10)])"

declare dec.simps [simp del]

definition pad6 :: "string \<Rightarrow> string" where
  "pad6 s = replicate (6 - length s) (CHR ''0'') @ s"

section \<open>Errors\<close>

datatype store_error =
    StoreFault string
  | ContractCorrupt string
  | TaskMissing string
  | TaskNotRunning string
  | NotResumable
  | NotReconcilable string
  | ActionMissing string
  | ActionNoFingerprint string
  | OpenWorkUnitsBlockFinalize int
  | PendingApprovalsBlockFinalize int
  | VerificationRequired
  | VerificationNotPassed string
  | AdmissionUnsafe
  | ConstraintViolated string
  | WorkUnitInvalid string
  | WorkUnitNotFound string
  | WorkUnitMissingDependency string
  | WorkUnitCycle string
  | InvalidWorkUnitTransition string string
  | UnsupportedWorkUnitVersion string int

section \<open>Rows\<close>

record TaskRow =
  tk_task_id :: string
  tk_objective :: string
  tk_status :: string
  tk_workspace :: string
  tk_model :: string
  tk_config_json :: string
  tk_contract_json :: string
  tk_contract_hash :: string
  tk_outcome :: string
  tk_stop_reason :: string
  tk_summary :: string
  tk_resume_count :: int
  tk_created_at :: string
  tk_started_at :: string
  tk_finished_at :: string

record ActionRow =
  ac_action_id :: string
  ac_task_id :: string
  ac_work_unit_id :: string
  ac_sequence :: int
  ac_tool :: string
  ac_arguments_json :: string
  ac_fingerprint :: string
  ac_recipe_fingerprint :: string
  ac_workspace_signature :: string
  ac_status :: string
  ac_created_at :: string

record ToolAttemptRow =
  ta_execution_id :: string
  ta_task_id :: string
  ta_work_unit_id :: string
  ta_action_id :: string
  ta_tool :: string
  ta_arguments_json :: string
  ta_status :: string
  ta_recovery_class :: int
  ta_effect_after_hash :: string
  ta_planned_diff_json :: string
  ta_process_intent_json :: string
  ta_classification :: string
  ta_evidence_id :: string
  ta_duration_ns :: int
  ta_recovery_reason :: string
  ta_created_at :: string
  ta_prepared_at :: string
  ta_completed_at :: string

record ToolResultRow =
  rr_evidence_id :: string
  rr_task_id :: string
  rr_execution_id :: string
  rr_untrusted :: bool
  rr_data_json :: string
  rr_metadata_json :: string
  rr_created_at :: string

record persistedRateLimitObservation =
  pr_statusCode :: "int option"
  pr_observedResetAt :: "string option"
  pr_observedRetryAfterNS :: "int option"
  pr_limitRequests :: "int option"
  pr_remainingRequests :: "int option"
  pr_resetRequestsNS :: "int option"
  pr_limitTokens :: "int option"
  pr_remainingTokens :: "int option"
  pr_resetTokensNS :: "int option"

record ProviderAttemptRow =
  pa_execution_id :: string
  pa_task_id :: string
  pa_work_unit_id :: string
  pa_client_request_id :: string
  pa_provider :: string
  pa_model_pool :: string
  pa_model :: string
  pa_attempt_sequence :: int
  pa_receipt_aware :: bool
  pa_protocol_family :: string
  pa_config_identity :: string
  pa_delivery_state :: string
  pa_status :: string
  pa_outcome :: OutcomeClass
  pa_upstream_reached :: bool
  pa_uncertain :: bool
  pa_attempt_debited :: int
  pa_selected_backoff_ns :: int
  pa_error_class :: "AttemptReceiptErrorCode option"
  pa_failure_class :: string
  pa_request_id :: string
  pa_rate :: "persistedRateLimitObservation option"
  pa_recovery_reason :: string
  pa_created_at :: string
  pa_prepared_at :: string
  pa_completed_at :: string

record DecisionRow =
  de_task_id :: string
  de_action_id :: string
  de_tool :: string
  de_decision :: string
  de_reason :: string
  de_created_at :: string

record ApprovalRow =
  av_approval_id :: string
  av_task_id :: string
  av_action_id :: string
  av_fingerprint :: string
  av_decision :: string
  av_reason :: string
  av_actor :: string
  av_created_at :: string

record VerificationCheckRecord =
  vc_CheckID :: string
  vc_Type :: string
  vc_Status :: string
  vc_Expected :: string
  vc_Observed :: string
  vc_Evidence :: "string list"
  vc_Reason :: string

record VerificationRow =
  ve_attempt_id :: string
  ve_task_id :: string
  ve_work_unit_id :: string
  ve_sequence :: int
  ve_decision :: string
  ve_report_json :: string
  ve_summary :: string
  ve_checks :: "VerificationCheckRecord list"
  ve_created_at :: string

record WorkUnit =
  wu_WorkUnitID :: string
  wu_TaskID :: string
  wu_ParentWorkUnitID :: string
  wu_Objective :: string
  wu_Status :: string
  wu_Tools :: "string list option"
  wu_WorkspaceScope :: string
  wu_AcceptancePlanSpec :: string
  wu_AcceptanceDigest :: string
  wu_ContextBudget :: int
  wu_ProviderBudget :: int
  wu_StepBudget :: int
  wu_EvidenceRefs :: "string list"
  wu_FailureReason :: string
  wu_BlockingReason :: string
  wu_Version :: int
  wu_CreatedAt :: string
  wu_UpdatedAt :: string
  wu_Dependencies :: "string list"

text \<open>The rows of the governor projection: one row of scalars and five lists.\<close>

record GovernorRow =
  gr_account_policy_id :: string
  gr_provider_id :: string
  gr_model_pool :: string
  gr_model :: string
  gr_allowance_profile :: AllowanceProfile
  gr_next_attempt :: int
  gr_last_start :: string
  gr_cooldown_until :: string
  gr_circuit_state :: CircuitState
  gr_circuit_reason :: OutcomeClass
  gr_circuit_open_until :: string
  gr_circuit_refresh_required :: bool
  gr_circuit_last_rate_reset :: string
  gr_telemetry_available :: "int option"
  gr_telemetry_reset_at :: string
  gr_telemetry_cooldown_until :: string
  gr_telemetry_rate_limited :: bool
  gr_telemetry_capacity_exhausted :: bool
  gr_telemetry_upstream_circuit :: UpstreamCircuitState
  gr_telemetry_unsafe :: bool
  gr_ceilings :: BudgetCeilings
  gr_updated_at :: string

datatype jval = JS string | JI int | JB bool | JL "string list"

record event =
  ev_task_id :: string
  ev_sequence :: int
  ev_kind :: string
  ev_payload :: "(string \<times> jval) list"
  ev_created_at :: string

record Store =
  db_tasks :: "TaskRow list"
  db_actions :: "ActionRow list"
  db_tool_attempts :: "ToolAttemptRow list"
  db_tool_results :: "ToolResultRow list"
  db_provider_attempts :: "ProviderAttemptRow list"
  db_receipts :: "(string \<times> string \<times> AttemptReceipt) list"
  db_decisions :: "DecisionRow list"
  db_approvals :: "ApprovalRow list"
  db_plans :: "(string \<times> string \<times> string) list"
  db_baselines :: "(string \<times> string \<times> string \<times> bool \<times> bool) list"
  db_verifications :: "VerificationRow list"
  db_units :: "WorkUnit list"
  db_deps :: "(string \<times> string) list"
  db_governor :: "GovernorRow option"
  db_ledger :: "(string \<times> string) list"
  db_task_states :: "(string \<times> int \<times> int \<times> string) list"
  db_request_records :: "(string \<times> string \<times> string) list"
  db_attempt_ids :: "(string \<times> string) list"
  db_rate_events :: "string list"
  db_events :: "event list"
  db_identity :: nat
  db_clock :: time

section \<open>Statements\<close>

definition update_where :: "('r \<Rightarrow> bool) \<Rightarrow> ('r \<Rightarrow> 'r) \<Rightarrow> 'r list \<Rightarrow> 'r list" where
  "update_where P f rows = map (\<lambda>r. if P r then f r else r) rows"

definition affected :: "('r \<Rightarrow> bool) \<Rightarrow> 'r list \<Rightarrow> nat" where
  "affected P rows = length (filter P rows)"

definition now_text :: "Codec \<Rightarrow> Store \<Rightarrow> string" where
  "now_text cx s = formatTime cx (db_clock s)"

definition next_sequence :: "int list \<Rightarrow> int" where
  "next_sequence xs = foldr max xs 0 + 1"

definition nextIdentity :: "string \<Rightarrow> Store \<Rightarrow> string \<times> Store" where
  "nextIdentity prefix s =
     (let n = Suc (db_identity s) in (prefix @ ''-'' @ pad6 (dec n), s\<lparr>db_identity := n\<rparr>))"

definition appendEvent :: "Codec \<Rightarrow> string \<Rightarrow> string \<Rightarrow> (string \<times> jval) list \<Rightarrow> Store \<Rightarrow> Store" where
  "appendEvent cx task kind payload s =
     s\<lparr>db_events := db_events s @ [\<lparr>ev_task_id = task,
        ev_sequence = next_sequence (map ev_sequence (filter (\<lambda>e. ev_task_id e = task) (db_events s))),
        ev_kind = kind, ev_payload = payload, ev_created_at = now_text cx s\<rparr>]\<rparr>"

text \<open>A transaction body gives an error or a result with the changed store.\<close>

definition transaction :: "string option \<Rightarrow> Store \<Rightarrow> (store_error + ('a \<times> Store)) \<Rightarrow> (store_error + 'a) \<times> Store" where
  "transaction fault s body =
     (case fault of Some e \<Rightarrow> (Inl (StoreFault e), s)
      | None \<Rightarrow> (case body of Inl e \<Rightarrow> (Inl e, s) | Inr (x, s') \<Rightarrow> (Inr x, s')))"

text \<open>The last statement of an operation: its journal event, which refers to an existing task.\<close>

definition has_task :: "Store \<Rightarrow> string \<Rightarrow> bool" where
  "has_task s task \<longleftrightarrow> task \<in> set (map tk_task_id (db_tasks s))"

definition journal :: "Codec \<Rightarrow> string \<Rightarrow> string \<Rightarrow> (string \<times> jval) list \<Rightarrow> 'a \<Rightarrow> Store \<Rightarrow> store_error + ('a \<times> Store)" where
  "journal cx task kind payload x s =
     (if has_task s task then Inr (x, appendEvent cx task kind payload s)
      else Inl (ConstraintViolated ''events''))"

lemma transaction_cases:
  assumes "transaction fault s body = (r, s')"
  obtains (failed) e where "r = Inl e" "s' = s"
  | (committed) x where "fault = None" "body = Inr (x, s')" "r = Inr x"
  using assms by (auto simp: transaction_def split: option.splits sum.splits)

lemma map_update_where: "(\<And>r. key (f r) = key r) \<Longrightarrow> map key (update_where P f rows) = map key rows"
  by (simp add: update_where_def comp_def cong: if_cong)

lemma in_update_where: "r \<in> set (update_where P f rows) \<longleftrightarrow> (\<exists>q \<in> set rows. r = (if P q then f q else q))"
  by (auto simp: update_where_def)

lemma affected_zero: "affected P rows = 0 \<longleftrightarrow> (\<forall>r \<in> set rows. \<not> P r)"
  by (auto simp: affected_def filter_empty_conv)

lemma db_events_append [simp]:
  "db_events (appendEvent cx task kind payload s) = db_events s @ [\<lparr>ev_task_id = task,
     ev_sequence = next_sequence (map ev_sequence (filter (\<lambda>e. ev_task_id e = task) (db_events s))),
     ev_kind = kind, ev_payload = payload, ev_created_at = now_text cx s\<rparr>]"
  by (simp add: appendEvent_def)

text \<open>An appended event changes nothing but the journal.\<close>

lemma appendEvent_frame [simp]:
  "db_tasks (appendEvent cx task kind payload s) = db_tasks s"
  "db_actions (appendEvent cx task kind payload s) = db_actions s"
  "db_tool_attempts (appendEvent cx task kind payload s) = db_tool_attempts s"
  "db_tool_results (appendEvent cx task kind payload s) = db_tool_results s"
  "db_provider_attempts (appendEvent cx task kind payload s) = db_provider_attempts s"
  "db_decisions (appendEvent cx task kind payload s) = db_decisions s"
  "db_approvals (appendEvent cx task kind payload s) = db_approvals s"
  "db_verifications (appendEvent cx task kind payload s) = db_verifications s"
  "db_units (appendEvent cx task kind payload s) = db_units s"
  "db_deps (appendEvent cx task kind payload s) = db_deps s"
  "db_governor (appendEvent cx task kind payload s) = db_governor s"
  "db_ledger (appendEvent cx task kind payload s) = db_ledger s"
  "db_task_states (appendEvent cx task kind payload s) = db_task_states s"
  "db_clock (appendEvent cx task kind payload s) = db_clock s"
  by (simp_all add: appendEvent_def)

lemma nextIdentity_frame [simp]:
  "snd (nextIdentity prefix s) = s\<lparr>db_identity := Suc (db_identity s)\<rparr>"
  by (simp add: nextIdentity_def Let_def)

end
