(* ===== verification/Store_Governor.thy ===== *)
theory Store_Governor
  imports Store_Tables
begin

text \<open>
  The governor projection in the store (\<open>internal/state/governor_state.go\<close>) and the conservative debit
  of recovery (\<open>internal/state/recovery.go\<close>). The projection is one row of scalars and five tables;
  saving replaces them all inside the caller's transaction, and loading reads the keyed tables in
  key order.
\<close>

section \<open>Saving and loading\<close>

definition governor_row :: "Codec \<Rightarrow> PersistedState \<Rightarrow> string \<Rightarrow> GovernorRow" where
  "governor_row cx p updatedAt =
     \<lparr>gr_account_policy_id = ps_AccountPolicyID p, gr_provider_id = ps_ProviderID p,
      gr_model_pool = ps_ModelPool p, gr_model = ps_Model p,
      gr_allowance_profile = ps_AllowanceProfile p, gr_next_attempt = ps_NextAttempt p,
      gr_last_start = formatTime cx (ps_LastStart p), gr_cooldown_until = formatTime cx (ps_CooldownUntil p),
      gr_circuit_state = cs_State (ps_Circuit p), gr_circuit_reason = cs_Reason (ps_Circuit p),
      gr_circuit_open_until = formatTime cx (cs_OpenUntil (ps_Circuit p)),
      gr_circuit_refresh_required = cs_RefreshRequired (ps_Circuit p),
      gr_circuit_last_rate_reset = formatTime cx (ps_LastRateReset p),
      gr_telemetry_available = pt_Available (ps_Telemetry p),
      gr_telemetry_reset_at = formatTime cx (pt_ResetAt (ps_Telemetry p)),
      gr_telemetry_cooldown_until = formatTime cx (pt_CooldownUntil (ps_Telemetry p)),
      gr_telemetry_rate_limited = pt_RateLimited (ps_Telemetry p),
      gr_telemetry_capacity_exhausted = pt_CapacityExhausted (ps_Telemetry p),
      gr_telemetry_upstream_circuit = pt_UpstreamCircuit (ps_Telemetry p),
      gr_telemetry_unsafe = pt_Unsafe (ps_Telemetry p),
      gr_ceilings = ps_Ceilings p, gr_updated_at = updatedAt\<rparr>"

text \<open>The keyed tables have a primary key; a projection that repeats one fails the transaction.\<close>

definition saveGovernorStateInTx :: "Codec \<Rightarrow> PersistedState \<Rightarrow> string \<Rightarrow> Store \<Rightarrow> store_error + Store" where
  "saveGovernorStateInTx cx p updatedAt s =
     (if \<not> distinct (map tr_TaskID (ps_TaskStates p)) then Inl (ConstraintViolated ''governor_task_states'')
      else if \<not> distinct (map rs_RequestID (ps_RequestRecords p)) then Inl (ConstraintViolated ''governor_request_records'')
      else if \<not> distinct (map ai_AttemptID (ps_AttemptIDs p)) then Inl (ConstraintViolated ''governor_attempt_ids'')
      else Inr (s\<lparr>db_governor := Some (governor_row cx p updatedAt),
        db_ledger := map (\<lambda>e. (formatTime cx (le_at e), le_taskID e)) (ps_RollingEvents p),
        db_task_states := map (\<lambda>r. (tr_TaskID r, tr_Attempts r, tr_Retries r, formatTime cx (tr_LastTouched r))) (ps_TaskStates p),
        db_request_records := map (\<lambda>r. (rs_RequestID r, rs_State r, formatTime cx (rs_CompletedAt r))) (ps_RequestRecords p),
        db_attempt_ids := map (\<lambda>r. (ai_AttemptID r, formatTime cx (ai_SeenAt r))) (ps_AttemptIDs p),
        db_rate_events := map (formatTime cx) (ps_RateEvents p)\<rparr>))"

definition loadGovernorState :: "Codec \<Rightarrow> Store \<Rightarrow> PersistedState option" where
  "loadGovernorState cx s =
     (case db_governor s of
        None \<Rightarrow> None
      | Some r \<Rightarrow> Some
          \<lparr>ps_AccountPolicyID = gr_account_policy_id r, ps_ProviderID = gr_provider_id r,
           ps_ModelPool = gr_model_pool r, ps_Model = gr_model r,
           ps_AllowanceProfile = gr_allowance_profile r,
           ps_AllowanceKind = AllowanceKindForProfile (gr_allowance_profile r),
           ps_NextAttempt = gr_next_attempt r, ps_LastStart = parseTime cx (gr_last_start r),
           ps_CooldownUntil = parseTime cx (gr_cooldown_until r),
           ps_Circuit = \<lparr>cs_State = gr_circuit_state r, cs_Reason = gr_circuit_reason r,
             cs_OpenUntil = parseTime cx (gr_circuit_open_until r),
             cs_RefreshRequired = gr_circuit_refresh_required r\<rparr>,
           ps_RateEvents = map (parseTime cx) (db_rate_events s),
           ps_LastRateReset = parseTime cx (gr_circuit_last_rate_reset r),
           ps_Telemetry = \<lparr>pt_Available = gr_telemetry_available r,
             pt_ResetAt = parseTime cx (gr_telemetry_reset_at r),
             pt_CooldownUntil = parseTime cx (gr_telemetry_cooldown_until r),
             pt_RateLimited = gr_telemetry_rate_limited r,
             pt_CapacityExhausted = gr_telemetry_capacity_exhausted r,
             pt_UpstreamCircuit = gr_telemetry_upstream_circuit r, pt_Unsafe = gr_telemetry_unsafe r\<rparr>,
           ps_RollingEvents = map (\<lambda>(at, task). \<lparr>le_at = parseTime cx at, le_taskID = task\<rparr>) (db_ledger s),
           ps_TaskStates = map (\<lambda>(task, a, rt, lt). \<lparr>tr_TaskID = task, tr_Attempts = a, tr_Retries = rt,
             tr_LastTouched = parseTime cx lt\<rparr>) (sort_key fst (db_task_states s)),
           ps_RequestRecords = map (\<lambda>(rid, st, at). \<lparr>rs_RequestID = rid, rs_State = st,
             rs_CompletedAt = parseTime cx at\<rparr>) (sort_key fst (db_request_records s)),
           ps_AttemptIDs = map (\<lambda>(aid, at). \<lparr>ai_AttemptID = aid, ai_SeenAt = parseTime cx at\<rparr>)
             (sort_key fst (db_attempt_ids s)),
           ps_Ceilings = gr_ceilings r\<rparr>)"

section \<open>The conservative debit\<close>

definition bootstrap_projection :: PersistedState where
  "bootstrap_projection =
     \<lparr>ps_AccountPolicyID = ''runstead-cli'', ps_ProviderID = ''scripted'', ps_ModelPool = ''instant'', ps_Model = [],
      ps_AllowanceProfile = AllowanceProfileInstant, ps_AllowanceKind = AllowanceKindEmpty,
      ps_NextAttempt = 0, ps_LastStart = zero_time, ps_CooldownUntil = zero_time,
      ps_Circuit = \<lparr>cs_State = CircuitClosed, cs_Reason = OutcomeEmpty, cs_OpenUntil = zero_time, cs_RefreshRequired = False\<rparr>,
      ps_RateEvents = [], ps_LastRateReset = zero_time,
      ps_Telemetry = \<lparr>pt_Available = None, pt_ResetAt = zero_time, pt_CooldownUntil = zero_time,
        pt_RateLimited = False, pt_CapacityExhausted = False, pt_UpstreamCircuit = UpstreamCircuitEmpty, pt_Unsafe = False\<rparr>,
      ps_RollingEvents = [], ps_TaskStates = [], ps_RequestRecords = [], ps_AttemptIDs = [],
      ps_Ceilings = \<lparr>bc_Rolling3h = 0, bc_Rolling1h = 0, bc_Rolling10m = 0, bc_TaskBudget = 0,
        bc_RetryBudget = 0, bc_ManualReserve = 0\<rparr>\<rparr>"

fun charge_task :: "string \<Rightarrow> time \<Rightarrow> TaskStateRecord list \<Rightarrow> TaskStateRecord list" where
  "charge_task task at [] = [\<lparr>tr_TaskID = task, tr_Attempts = 1, tr_Retries = 0, tr_LastTouched = at\<rparr>]"
| "charge_task task at (r # rs) =
     (if tr_TaskID r = task then r\<lparr>tr_Attempts := tr_Attempts r + 1, tr_LastTouched := at\<rparr> # rs
      else r # charge_task task at rs)"

definition charge :: "string \<Rightarrow> time \<Rightarrow> PersistedState \<Rightarrow> PersistedState" where
  "charge task debitAt p =
     p\<lparr>ps_Telemetry := (ps_Telemetry p)\<lparr>pt_Unsafe := True,
         pt_Available := (case pt_Available (ps_Telemetry p) of
            Some v \<Rightarrow> if 0 < v then Some (v - 1) else Some v | None \<Rightarrow> None)\<rparr>,
       ps_LastStart := debitAt,
       ps_TaskStates := charge_task task debitAt (ps_TaskStates p),
       ps_RollingEvents := ps_RollingEvents p @ [\<lparr>le_at = debitAt, le_taskID = task\<rparr>]\<rparr>"

text \<open>The wall clock read when the permit start is missing is an argument.\<close>

definition applyConservativeGovernorDebit ::
  "Codec \<Rightarrow> time \<Rightarrow> string \<Rightarrow> time \<Rightarrow> Store \<Rightarrow> store_error + Store" where
  "applyConservativeGovernorDebit cx wall task debitAt0 s =
     (let p = (case loadGovernorState cx s of None \<Rightarrow> bootstrap_projection | Some p \<Rightarrow> p);
          debitAt = (if is_zero debitAt0 then wall else debitAt0)
      in saveGovernorStateInTx cx (charge task debitAt p) (now_text cx s) s)"

section \<open>Lemmas\<close>

lemma insort_key_map: "insort_key k (f x) (map f xs) = map f (insort_key (\<lambda>x. k (f x)) x xs)"
  by (induction xs) auto

lemma sort_key_map: "sort_key k (map f xs) = map f (sort_key (\<lambda>x. k (f x)) xs)"
  by (induction xs) (simp_all add: sort_key_def insort_key_map)

lemma charge_task_ids:
  "set (map tr_TaskID (charge_task task at rs)) = insert task (set (map tr_TaskID rs))"
  "distinct (map tr_TaskID rs) \<Longrightarrow> distinct (map tr_TaskID (charge_task task at rs))"
  by (induction rs) auto


text \<open>What a saved projection reads back as: the kind is derived from the profile, and the keyed
  lists are in key order.\<close>

definition as_stored :: "PersistedState \<Rightarrow> PersistedState" where
  "as_stored p = p\<lparr>ps_AllowanceKind := AllowanceKindForProfile (ps_AllowanceProfile p),
     ps_TaskStates := sort_key tr_TaskID (ps_TaskStates p),
     ps_RequestRecords := sort_key rs_RequestID (ps_RequestRecords p),
     ps_AttemptIDs := sort_key ai_AttemptID (ps_AttemptIDs p)\<rparr>"

text \<open>Rebuilding a record from its fields.\<close>

lemma record_etas:
  "\<lparr>cs_State = cs_State c, cs_Reason = cs_Reason c, cs_OpenUntil = cs_OpenUntil c, cs_RefreshRequired = cs_RefreshRequired c\<rparr> = c"
  "\<lparr>pt_Available = pt_Available t, pt_ResetAt = pt_ResetAt t, pt_CooldownUntil = pt_CooldownUntil t,
    pt_RateLimited = pt_RateLimited t, pt_CapacityExhausted = pt_CapacityExhausted t,
    pt_UpstreamCircuit = pt_UpstreamCircuit t, pt_Unsafe = pt_Unsafe t\<rparr> = t"
  "\<lparr>le_at = le_at e, le_taskID = le_taskID e\<rparr> = e"
  "\<lparr>tr_TaskID = tr_TaskID r, tr_Attempts = tr_Attempts r, tr_Retries = tr_Retries r, tr_LastTouched = tr_LastTouched r\<rparr> = r"
  "\<lparr>rs_RequestID = rs_RequestID q, rs_State = rs_State q, rs_CompletedAt = rs_CompletedAt q\<rparr> = q"
  "\<lparr>ai_AttemptID = ai_AttemptID a, ai_SeenAt = ai_SeenAt a\<rparr> = a"
  by simp_all

lemma load_save:
  assumes "times_round_trip cx" "saveGovernorStateInTx cx p at s = Inr s'"
  shows "loadGovernorState cx s' = Some (as_stored p)"
proof -
  have s': "db_governor s' = Some (governor_row cx p at)"
    "db_ledger s' = map (\<lambda>e. (formatTime cx (le_at e), le_taskID e)) (ps_RollingEvents p)"
    "db_task_states s' = map (\<lambda>r. (tr_TaskID r, tr_Attempts r, tr_Retries r, formatTime cx (tr_LastTouched r))) (ps_TaskStates p)"
    "db_request_records s' = map (\<lambda>r. (rs_RequestID r, rs_State r, formatTime cx (rs_CompletedAt r))) (ps_RequestRecords p)"
    "db_attempt_ids s' = map (\<lambda>r. (ai_AttemptID r, formatTime cx (ai_SeenAt r))) (ps_AttemptIDs p)"
    "db_rate_events s' = map (formatTime cx) (ps_RateEvents p)"
    using assms(2) by (auto simp: saveGovernorStateInTx_def split: if_splits)
  show ?thesis
    unfolding loadGovernorState_def s' option.case option.inject as_stored_def
    by (rule PersistedState.equality)
      (simp_all add: governor_row_def parse_format [OF assms(1)] sort_key_map comp_def record_etas)
qed

lemma save_frame:
  assumes "saveGovernorStateInTx cx p at s = Inr s'"
  shows "db_tasks s' = db_tasks s" "db_events s' = db_events s" "db_units s' = db_units s" "db_deps s' = db_deps s"
    "db_provider_attempts s' = db_provider_attempts s" "db_verifications s' = db_verifications s"
    "db_actions s' = db_actions s" "db_tool_attempts s' = db_tool_attempts s" "db_clock s' = db_clock s"
    "db_decisions s' = db_decisions s" "db_approvals s' = db_approvals s" "db_tool_results s' = db_tool_results s"
  using assms by (auto simp: saveGovernorStateInTx_def split: if_splits)

lemma debit_save:
  assumes "applyConservativeGovernorDebit cx wall task at s = Inr s'"
  shows "\<exists>p. saveGovernorStateInTx cx p (now_text cx s) s = Inr s'"
  using assms by (auto simp: applyConservativeGovernorDebit_def Let_def)

end
