(* ===== verification/Store_Tasks.thy ===== *)
theory Store_Tasks
  imports Store_Tables Store_Governor Policy
begin

text \<open>
  Tasks, verification, policy decisions and approvals in the store: \<open>tasks.go\<close>, \<open>execution_contract.go\<close>,
  \<open>verification.go\<close>, \<open>write_policy.go\<close>, \<open>approval_flow.go\<close>, and the task transitions of \<open>recovery.go\<close>.
\<close>

section \<open>The frozen execution contract\<close>

definition is_hex :: "char \<Rightarrow> bool" where
  "is_hex c \<longleftrightarrow> c \<in> set ''0123456789abcdefABCDEF''"

definition validExecutionContractHash :: "string \<Rightarrow> bool" where
  "validExecutionContractHash v \<longleftrightarrow>
     length v = 71 \<and> HasPrefix v ''sha256:'' \<and> list_all is_hex (drop 7 v)"

definition validateStrictJSONObject :: "Codec \<Rightarrow> string \<Rightarrow> string option" where
  "validateStrictJSONObject cx data =
     (if TrimSpace data = [] \<or> hd (TrimSpace data) \<noteq> CHR ''{'' then Some ''contract must be a JSON object''
      else cx_strictJSON cx data)"

definition validateExecutionContractPair :: "Codec \<Rightarrow> string \<Rightarrow> string \<Rightarrow> store_error option" where
  "validateExecutionContractPair cx data hash =
     (if data = [] \<and> hash = [] then None
      else if data = [] \<or> hash = [] then Some (ContractCorrupt ''JSON and hash must be present together'')
      else if \<not> validExecutionContractHash hash then Some (ContractCorrupt ''invalid SHA-256 format'')
      else (case validateStrictJSONObject cx data of
          Some e \<Rightarrow> Some (ContractCorrupt e)
        | None \<Rightarrow>
            if hash \<noteq> ''sha256:'' @ cx_sha256hex cx data
            then Some (ContractCorrupt ''hash does not match persisted JSON'') else None))"

section \<open>Task lifecycle\<close>

record TaskRecord =
  tc_TaskID :: string
  tc_Objective :: string
  tc_Workspace :: string
  tc_Model :: string
  tc_ConfigJSON :: string
  tc_ExecutionContractJSON :: string
  tc_ExecutionContractHash :: string

record TaskFinalize =
  tf_TaskID :: string
  tf_Outcome :: string
  tf_StopReason :: string
  tf_Summary :: string
  tf_Classification :: string
  tf_Evidence :: "string list"
  tf_Turns :: int
  tf_Attempts :: int
  tf_Observations :: int
  tf_Corrections :: int
  tf_Repeated :: int
  tf_MixedProse :: int

definition terminalStatus :: "string \<Rightarrow> string" where
  "terminalStatus oc =
     (if oc = ''completed'' then ''completed''
      else if oc = ''canceled'' then ''canceled'' else ''failed'')"

definition new_task :: "Codec \<Rightarrow> TaskRecord \<Rightarrow> string \<Rightarrow> TaskRow" where
  "new_task cx r now =
     \<lparr>tk_task_id = tc_TaskID r, tk_objective = cx_redact cx (tc_Objective r), tk_status = ''planned'',
      tk_workspace = cx_redact cx (tc_Workspace r), tk_model = cx_redact cx (tc_Model r),
      tk_config_json = cx_redact cx (tc_ConfigJSON r), tk_contract_json = tc_ExecutionContractJSON r,
      tk_contract_hash = tc_ExecutionContractHash r, tk_outcome = [], tk_stop_reason = [], tk_summary = [],
      tk_resume_count = 0, tk_created_at = now, tk_started_at = now, tk_finished_at = []\<rparr>"

definition CreateTask :: "Codec \<Rightarrow> string option \<Rightarrow> TaskRecord \<Rightarrow> Store \<Rightarrow> (store_error + unit) \<times> Store" where
  "CreateTask cx fault r s =
     (case validateExecutionContractPair cx (tc_ExecutionContractJSON r) (tc_ExecutionContractHash r) of
        Some e \<Rightarrow> (Inl e, s)
      | None \<Rightarrow> transaction fault s
          (if has_task s (tc_TaskID r) then Inl (ConstraintViolated ''tasks'')
           else journal cx (tc_TaskID r) ''task_created'' [(''status'', JS ''planned'')] ()
             (s\<lparr>db_tasks := db_tasks s @ [new_task cx r (now_text cx s)]\<rparr>)))"

definition StartTask :: "Codec \<Rightarrow> string option \<Rightarrow> string \<Rightarrow> Store \<Rightarrow> (store_error + unit) \<times> Store" where
  "StartTask cx fault task s = transaction fault s
     (let P = (\<lambda>t. tk_task_id t = task \<and> tk_status t = ''planned'')
      in if affected P (db_tasks s) = 0 then Inl (TaskMissing task)
         else journal cx task ''task_started'' [(''status'', JS ''running'')] ()
           (s\<lparr>db_tasks := update_where P (\<lambda>t. t\<lparr>tk_status := ''running'', tk_started_at := now_text cx s\<rparr>) (db_tasks s)\<rparr>))"

text \<open>The rows a pending approval is made of: an \<open>approval_required\<close> decision joined with its action,
  for whose effective fingerprint there is no approval row.\<close>

definition effectiveFingerprint :: "ActionRow \<Rightarrow> string" where
  "effectiveFingerprint a =
     (if ac_tool a = ''run_recipe'' \<and> ac_recipe_fingerprint a \<noteq> [] then ac_recipe_fingerprint a else ac_fingerprint a)"

definition has_approval :: "Store \<Rightarrow> string \<Rightarrow> string \<Rightarrow> bool" where
  "has_approval s task fp \<longleftrightarrow> list_ex (\<lambda>v. av_task_id v = task \<and> av_fingerprint v = fp) (db_approvals s)"

definition pending_rows :: "Store \<Rightarrow> string \<Rightarrow> (DecisionRow \<times> ActionRow) list" where
  "pending_rows s task =
     filter (\<lambda>(d, a). ac_task_id a = de_task_id d \<and> ac_action_id a = de_action_id d
         \<and> de_task_id d = task \<and> de_decision d = ''approval_required''
         \<and> \<not> has_approval s (de_task_id d) (effectiveFingerprint a))
       (List.product (db_decisions s) (db_actions s))"

definition latest_decision :: "VerificationRow list \<Rightarrow> string option" where
  "latest_decision rows =
     (case sort_key ve_sequence rows of [] \<Rightarrow> None | v # vs \<Rightarrow> Some (ve_decision (last (v # vs))))"

definition LatestVerificationDecision :: "string \<Rightarrow> Store \<Rightarrow> string option" where
  "LatestVerificationDecision task s = latest_decision (filter (\<lambda>v. ve_task_id v = task) (db_verifications s))"

definition open_units :: "Store \<Rightarrow> string \<Rightarrow> WorkUnit list" where
  "open_units s task = filter (\<lambda>u. wu_TaskID u = task \<and> wu_Status u \<noteq> ''completed'') (db_units s)"

text \<open>The completion gate of \<open>FinalizeTask\<close>, in the order of its checks.\<close>

definition completion_gate :: "string \<Rightarrow> Store \<Rightarrow> store_error option" where
  "completion_gate task s =
     (if open_units s task \<noteq> [] then Some (OpenWorkUnitsBlockFinalize (int (length (open_units s task))))
      else if pending_rows s task \<noteq> [] then Some (PendingApprovalsBlockFinalize (int (length (pending_rows s task))))
      else (case LatestVerificationDecision task s of
          None \<Rightarrow> Some VerificationRequired
        | Some d \<Rightarrow> if d \<noteq> ''passed'' then Some (VerificationNotPassed d) else None))"

definition FinalizeTask :: "Codec \<Rightarrow> string option \<Rightarrow> TaskFinalize \<Rightarrow> Store \<Rightarrow> (store_error + unit) \<times> Store" where
  "FinalizeTask cx fault r s = transaction fault s
     (let status = terminalStatus (tf_Outcome r);
          gate = (if status = ''completed'' then completion_gate (tf_TaskID r) s else None);
          P = (\<lambda>t. tk_task_id t = tf_TaskID r)
      in case gate of
           Some e \<Rightarrow> Inl e
         | None \<Rightarrow>
             if affected P (db_tasks s) = 0 then Inl (TaskMissing (tf_TaskID r))
             else journal cx (tf_TaskID r) ''task_finalized''
               [(''status'', JS status), (''outcome'', JS (tf_Outcome r)), (''stop_reason'', JS (tf_StopReason r)),
                (''classification'', JS (tf_Classification r)), (''summary'', JS (tf_Summary r)),
                (''evidence'', JL (tf_Evidence r)), (''turns'', JI (tf_Turns r)), (''attempts'', JI (tf_Attempts r)),
                (''observations'', JI (tf_Observations r)), (''corrections'', JI (tf_Corrections r)),
                (''repeated'', JI (tf_Repeated r)), (''mixed_prose'', JI (tf_MixedProse r))] ()
               (s\<lparr>db_tasks := update_where P (\<lambda>t. t\<lparr>tk_status := status, tk_outcome := cx_redact cx (tf_Outcome r),
                  tk_stop_reason := cx_redact cx (tf_StopReason r), tk_summary := cx_redact cx (tf_Summary r),
                  tk_finished_at := now_text cx s\<rparr>) (db_tasks s)\<rparr>))"

definition TaskStatus :: "string \<Rightarrow> Store \<Rightarrow> string option" where
  "TaskStatus task s = map_option tk_status (find (\<lambda>t. tk_task_id t = task) (db_tasks s))"

text \<open>The control-plane pauses and the recovery transitions of a task.\<close>

definition MarkTaskApprovalRequired ::
  "Codec \<Rightarrow> string option \<Rightarrow> string \<Rightarrow> string \<Rightarrow> string \<Rightarrow> Store \<Rightarrow> (store_error + unit) \<times> Store" where
  "MarkTaskApprovalRequired cx fault task action reason s = transaction fault s
     (let stop = ''waiting for operator approval'' @ (if action \<noteq> [] then '': action '' @ action else []);
          P = (\<lambda>t. tk_task_id t = task \<and> tk_status t = ''running'')
      in if affected P (db_tasks s) = 0 then Inl (TaskNotRunning task)
         else journal cx task ''task_approval_required'' [(''action_id'', JS action), (''reason'', JS (cx_redact cx reason))] ()
           (s\<lparr>db_tasks := update_where P (\<lambda>t. t\<lparr>tk_outcome := ''approval_required'',
              tk_stop_reason := cx_redact cx stop\<rparr>) (db_tasks s)\<rparr>))"

definition pausable :: "string \<Rightarrow> TaskRow \<Rightarrow> bool" where
  "pausable task t \<longleftrightarrow> tk_task_id t = task \<and> tk_status t \<in> {''running'', ''planned''}"

definition MarkTaskVerificationPaused ::
  "Codec \<Rightarrow> string option \<Rightarrow> string \<Rightarrow> string \<Rightarrow> Store \<Rightarrow> (store_error + unit) \<times> Store" where
  "MarkTaskVerificationPaused cx fault task stop s = transaction fault s
     (if affected (pausable task) (db_tasks s) = 0 then Inl (TaskNotRunning task)
      else journal cx task ''task_verification_paused'' [(''stop_reason'', JS (cx_redact cx stop))] ()
        (s\<lparr>db_tasks := update_where (pausable task) (\<lambda>t. t\<lparr>tk_status := ''running'', tk_outcome := ''verification_blocked'',
           tk_stop_reason := cx_redact cx stop\<rparr>) (db_tasks s)\<rparr>))"

definition MarkTaskPersistencePaused ::
  "Codec \<Rightarrow> string option \<Rightarrow> string \<Rightarrow> string \<Rightarrow> Store \<Rightarrow> (store_error + unit) \<times> Store" where
  "MarkTaskPersistencePaused cx fault task stop s = transaction fault s
     (if affected (pausable task) (db_tasks s) = 0 then Inl (TaskNotRunning task)
      else journal cx task ''task_persistence_paused'' [(''stop_reason'', JS (cx_redact cx stop))] ()
        (s\<lparr>db_tasks := update_where (pausable task) (\<lambda>t. t\<lparr>tk_status := ''running'', tk_outcome := ''persistence_paused'',
           tk_stop_reason := cx_redact cx stop\<rparr>) (db_tasks s)\<rparr>))"

definition MarkRecoveryStarted ::
  "Codec \<Rightarrow> string option \<Rightarrow> string \<Rightarrow> string \<Rightarrow> Store \<Rightarrow> (store_error + unit) \<times> Store" where
  "MarkRecoveryStarted cx fault task reason s = transaction fault s
     (if affected (pausable task) (db_tasks s) = 0 then Inl NotResumable
      else journal cx task ''recovery_started'' [(''reason'', JS (cx_redact cx reason))] ()
        (s\<lparr>db_tasks := update_where (pausable task) (\<lambda>t. t\<lparr>tk_status := ''running'', tk_outcome := [],
           tk_stop_reason := [], tk_resume_count := tk_resume_count t + 1\<rparr>) (db_tasks s)\<rparr>))"

definition MarkHumanReviewRequired ::
  "Codec \<Rightarrow> string option \<Rightarrow> string \<Rightarrow> string \<Rightarrow> string list \<Rightarrow> Store \<Rightarrow> (store_error + unit) \<times> Store" where
  "MarkHumanReviewRequired cx fault task reason attempts s = transaction fault s
     (if affected (pausable task) (db_tasks s) = 0 then Inl NotResumable
      else journal cx task ''task_human_review_required'' [(''reason'', JS (cx_redact cx reason)), (''attempts'', JL attempts)] ()
        (s\<lparr>db_tasks := update_where (pausable task) (\<lambda>t. t\<lparr>tk_status := ''human_review_required'',
           tk_outcome := ''human_review_required'', tk_stop_reason := cx_redact cx reason,
           tk_finished_at := now_text cx s\<rparr>) (db_tasks s)\<rparr>))"

definition AppendRecoveryEvent ::
  "Codec \<Rightarrow> string option \<Rightarrow> string \<Rightarrow> string \<Rightarrow> (string \<times> jval) list \<Rightarrow> Store \<Rightarrow> (store_error + unit) \<times> Store" where
  "AppendRecoveryEvent cx fault task kind payload s = transaction fault s (journal cx task kind payload () s)"

section \<open>Verification\<close>

record VerificationAttemptRecord =
  va_TaskID :: string
  va_WorkUnitID :: string
  va_Decision :: string
  va_Summary :: string
  va_ReportJSON :: string
  va_Checks :: "VerificationCheckRecord list"

definition redact_check :: "Codec \<Rightarrow> VerificationCheckRecord \<Rightarrow> VerificationCheckRecord" where
  "redact_check cx c = c\<lparr>vc_CheckID := cx_redact cx (vc_CheckID c), vc_Type := cx_redact cx (vc_Type c),
     vc_Status := cx_redact cx (vc_Status c), vc_Expected := cx_redact cx (vc_Expected c),
     vc_Observed := cx_redact cx (vc_Observed c), vc_Reason := cx_redact cx (vc_Reason c)\<rparr>"

text \<open>The values the schema allows for a decision and for the status of a check; the checks of one
  attempt have different ids.\<close>

definition verification_statuses :: "string list" where
  "verification_statuses = [''passed'', ''failed'', ''blocked'', ''uncertain'']"

definition SaveVerificationAttempt ::
  "Codec \<Rightarrow> string option \<Rightarrow> VerificationAttemptRecord \<Rightarrow> Store \<Rightarrow> (store_error + unit) \<times> Store" where
  "SaveVerificationAttempt cx fault r s = transaction fault s
     (let (attemptID, s1) = nextIdentity ''verif'' s;
          seq = next_sequence (map ve_sequence (filter (\<lambda>v. ve_task_id v = va_TaskID r) (db_verifications s)))
      in if attemptID \<in> set (map ve_attempt_id (db_verifications s)) \<or> cx_redact cx (va_Decision r) \<notin> set verification_statuses
         then Inl (ConstraintViolated ''verification_attempts'')
         else if \<not> list_all (\<lambda>c. cx_redact cx (vc_Status c) \<in> set verification_statuses) (va_Checks r)
              \<or> \<not> distinct (map (cx_redact cx \<circ> vc_CheckID) (va_Checks r))
         then Inl (ConstraintViolated ''verification_checks'')
         else journal cx (va_TaskID r) ''verification_recorded''
           [(''attempt_id'', JS attemptID), (''decision'', JS (va_Decision r)), (''summary'', JS (va_Summary r))] ()
           (s1\<lparr>db_verifications := db_verifications s @ [\<lparr>ve_attempt_id = attemptID, ve_task_id = va_TaskID r,
              ve_work_unit_id = cx_redact cx (va_WorkUnitID r), ve_sequence = seq, ve_decision = cx_redact cx (va_Decision r),
              ve_report_json = cx_redact cx (va_ReportJSON r), ve_summary = cx_redact cx (va_Summary r),
              ve_checks = map (redact_check cx) (va_Checks r), ve_created_at = now_text cx s\<rparr>]\<rparr>))"

definition SaveAcceptancePlan ::
  "Codec \<Rightarrow> string option \<Rightarrow> string \<Rightarrow> string \<Rightarrow> string \<Rightarrow> Store \<Rightarrow> (store_error + unit) \<times> Store" where
  "SaveAcceptancePlan cx fault task plan digest s = transaction fault s
     (journal cx task ''acceptance_plan_saved'' [(''digest'', JS (cx_redact cx digest))] ()
        (s\<lparr>db_plans := map_put task (cx_redact cx plan, cx_redact cx digest) (db_plans s)\<rparr>))"

definition AcceptancePlan :: "string \<Rightarrow> Store \<Rightarrow> (string \<times> string) option" where
  "AcceptancePlan task s = map_get (db_plans s) task"

definition SaveWorkspaceBaseline ::
  "Codec \<Rightarrow> string option \<Rightarrow> string \<Rightarrow> string \<Rightarrow> string \<Rightarrow> bool \<Rightarrow> bool \<Rightarrow> Store \<Rightarrow> (store_error + unit) \<times> Store" where
  "SaveWorkspaceBaseline cx fault task gitStatus gitDiff statusTruncated diffTruncated s = transaction fault s
     (journal cx task ''workspace_baseline_saved''
        [(''git_status_bytes'', JI (int (length gitStatus))), (''git_diff_bytes'', JI (int (length gitDiff))),
         (''git_status_truncated'', JB statusTruncated), (''git_diff_truncated'', JB diffTruncated)] ()
        (s\<lparr>db_baselines := map_put task (cx_redact cx gitStatus, cx_redact cx gitDiff, statusTruncated, diffTruncated)
           (db_baselines s)\<rparr>))"

definition WorkspaceBaseline :: "string \<Rightarrow> Store \<Rightarrow> (string \<times> string \<times> bool \<times> bool) option" where
  "WorkspaceBaseline task s = map_get (db_baselines s) task"

section \<open>Policy decisions and approvals\<close>

record WritePolicyDecision =
  wd_TaskID :: string
  wd_ActionID :: string
  wd_Tool :: string
  wd_Decision :: string
  wd_Reason :: string

definition insert_decision :: "Codec \<Rightarrow> string \<Rightarrow> string \<Rightarrow> string \<Rightarrow> string \<Rightarrow> string \<Rightarrow> Store \<Rightarrow> Store" where
  "insert_decision cx task action tool decision reason s =
     s\<lparr>db_decisions := db_decisions s @ [\<lparr>de_task_id = task, de_action_id = cx_redact cx action, de_tool = tool,
        de_decision = cx_redact cx decision, de_reason = cx_redact cx reason, de_created_at = now_text cx s\<rparr>]\<rparr>"

definition RecordWritePolicyDecision ::
  "Codec \<Rightarrow> string option \<Rightarrow> WritePolicyDecision \<Rightarrow> Store \<Rightarrow> (store_error + unit) \<times> Store" where
  "RecordWritePolicyDecision cx fault r s = transaction fault s
     (journal cx (wd_TaskID r) ''write_policy_decision''
        [(''action_id'', JS (wd_ActionID r)), (''tool'', JS (wd_Tool r)), (''decision'', JS (wd_Decision r)),
         (''reason'', JS (wd_Reason r))] ()
        (insert_decision cx (wd_TaskID r) (wd_ActionID r) (cx_redact cx (wd_Tool r)) (wd_Decision r) (wd_Reason r) s))"

definition RecordRecipePolicyDecision ::
  "Codec \<Rightarrow> string option \<Rightarrow> WritePolicyDecision \<Rightarrow> Store \<Rightarrow> (store_error + unit) \<times> Store" where
  "RecordRecipePolicyDecision cx fault r s = transaction fault s
     (journal cx (wd_TaskID r) ''recipe_policy_decision''
        [(''action_id'', JS (wd_ActionID r)), (''recipe'', JS (wd_Tool r)), (''decision'', JS (wd_Decision r)),
         (''reason'', JS (wd_Reason r))] ()
        (insert_decision cx (wd_TaskID r) (wd_ActionID r) ''run_recipe'' (wd_Decision r) (wd_Reason r) s))"

record ApprovalRecord =
  ar_TaskID :: string
  ar_ActionID :: string
  ar_Decision :: string
  ar_Reason :: string
  ar_Actor :: string

definition approval_row :: "Codec \<Rightarrow> ApprovalRecord \<Rightarrow> string \<Rightarrow> string \<Rightarrow> string \<Rightarrow> string \<Rightarrow> ApprovalRow" where
  "approval_row cx r approvalID fingerprint actor now =
     \<lparr>av_approval_id = approvalID, av_task_id = ar_TaskID r, av_action_id = cx_redact cx (ar_ActionID r),
      av_fingerprint = cx_redact cx fingerprint, av_decision = cx_redact cx (ar_Decision r),
      av_reason = cx_redact cx (ar_Reason r), av_actor = cx_redact cx actor, av_created_at = now\<rparr>"

text \<open>Insertion with \<open>ON CONFLICT (task_id, fingerprint) DO UPDATE\<close>: the row that is there keeps its
  approval id. The decision column admits \<open>approved\<close> and \<open>rejected\<close> only, and the approval id is a
  primary key.\<close>

definition upsert_approval :: "ApprovalRow \<Rightarrow> ApprovalRow list \<Rightarrow> store_error + ApprovalRow list" where
  "upsert_approval v rows =
     (let same = (\<lambda>w. av_task_id w = av_task_id v \<and> av_fingerprint w = av_fingerprint v)
      in if av_decision v \<notin> {''approved'', ''rejected''} then Inl (ConstraintViolated ''approvals'')
         else if list_ex same rows
         then Inr (update_where same (\<lambda>w. w\<lparr>av_action_id := av_action_id v, av_decision := av_decision v,
                av_reason := av_reason v, av_actor := av_actor v, av_created_at := av_created_at v\<rparr>) rows)
         else if av_approval_id v \<in> set (map av_approval_id rows) then Inl (ConstraintViolated ''approvals'')
         else Inr (rows @ [v]))"

definition RecordApproval :: "Codec \<Rightarrow> string option \<Rightarrow> ApprovalRecord \<Rightarrow> Store \<Rightarrow> (store_error + string) \<times> Store" where
  "RecordApproval cx fault r s = transaction fault s
     (case find (\<lambda>a. ac_task_id a = ar_TaskID r \<and> ac_action_id a = ar_ActionID r) (db_actions s) of
        None \<Rightarrow> Inl (ActionMissing (ar_ActionID r))
      | Some a \<Rightarrow>
          let fp = effectiveFingerprint a;
              approvalID = ''approval-'' @ ar_TaskID r @ ''-'' @ fp;
              actor = (if ar_Actor r = [] then ''operator'' else ar_Actor r)
          in if fp = [] then Inl (ActionNoFingerprint (ar_ActionID r))
             else (case upsert_approval (approval_row cx r approvalID fp actor (now_text cx s)) (db_approvals s) of
                 Inl e \<Rightarrow> Inl e
               | Inr rows \<Rightarrow> journal cx (ar_TaskID r) ''approval_recorded''
                   [(''action_id'', JS (ar_ActionID r)), (''fingerprint'', JS fp), (''decision'', JS (ar_Decision r)),
                    (''reason'', JS (ar_Reason r)), (''actor'', JS actor)] approvalID (s\<lparr>db_approvals := rows\<rparr>)))"

definition Store_Approval :: "string \<Rightarrow> string \<Rightarrow> Store \<Rightarrow> ApprovalRow option" where
  "Store_Approval task fp s = find (\<lambda>v. av_task_id v = task \<and> av_fingerprint v = fp) (db_approvals s)"

text \<open>The adapter of the composition root: the approvals interface of the policy over the store.\<close>

definition storeApprovals :: "string option \<Rightarrow> Store \<Rightarrow> Approvals" where
  "storeApprovals fault s task fp =
     (case fault of
        Some e \<Rightarrow> (\<lparr>ap_Decision = [], ap_Reason = []\<rparr>, False, Some e)
      | None \<Rightarrow>
          (case Store_Approval task fp s of
             None \<Rightarrow> (\<lparr>ap_Decision = [], ap_Reason = []\<rparr>, False, None)
           | Some v \<Rightarrow> (\<lparr>ap_Decision = av_decision v, ap_Reason = av_reason v\<rparr>, True, None)))"

definition PendingApprovals :: "string \<Rightarrow> Store \<Rightarrow> (string \<times> string \<times> string) list" where
  "PendingApprovals task s =
     map (\<lambda>(d, a). (de_action_id d, ac_tool a, ac_fingerprint a)) (pending_rows s task)"

definition HasPendingApprovals :: "string \<Rightarrow> Store \<Rightarrow> bool" where
  "HasPendingApprovals task s \<longleftrightarrow> PendingApprovals task s \<noteq> []"

definition WorkUnitPendingApprovalCount :: "string \<Rightarrow> string \<Rightarrow> Store \<Rightarrow> nat" where
  "WorkUnitPendingApprovalCount task unit s =
     length (filter (\<lambda>(d, a). ac_work_unit_id a = unit) (pending_rows s task))"

end
