(* ===== verification/Store_Attempts.thy ===== *)
theory Store_Attempts
  imports Store_Tasks
begin

text \<open>
  Actions and concrete attempts in the store: \<open>actions.go\<close>, \<open>tool_attempts.go\<close>, \<open>write_reconcile.go\<close>,
  \<open>provider_attempts.go\<close>, \<open>admission.go\<close>, and the reconciliations of \<open>recovery.go\<close>. An attempt is written
  twice: its intent before the effect and its outcome after it; an attempt whose outcome is missing
  is settled by recovery.
\<close>

section \<open>Actions\<close>

record ActionRecord =
  an_TaskID :: string
  an_WorkUnitID :: string
  an_Tool :: string
  an_Arguments :: string
  an_Fingerprint :: string
  an_RecipeFingerprint :: string
  an_WorkspaceSignature :: string

definition RecordAction :: "Codec \<Rightarrow> string option \<Rightarrow> ActionRecord \<Rightarrow> Store \<Rightarrow> (store_error + string) \<times> Store" where
  "RecordAction cx fault r s = transaction fault s
     (let (actionID, s1) = nextIdentity ''action'' s;
          seq = next_sequence (map ac_sequence (filter (\<lambda>a. ac_task_id a = an_TaskID r) (db_actions s)))
      in if actionID \<in> set (map ac_action_id (db_actions s)) then Inl (ConstraintViolated ''actions'')
         else journal cx (an_TaskID r) ''action_planned'' [(''action_id'', JS actionID), (''tool'', JS (an_Tool r))] actionID
           (s1\<lparr>db_actions := db_actions s @ [\<lparr>ac_action_id = actionID, ac_task_id = an_TaskID r,
              ac_work_unit_id = cx_redact cx (an_WorkUnitID r), ac_sequence = seq, ac_tool = cx_redact cx (an_Tool r),
              ac_arguments_json = cx_redact cx (an_Arguments r), ac_fingerprint = cx_redact cx (an_Fingerprint r),
              ac_recipe_fingerprint = cx_redact cx (an_RecipeFingerprint r),
              ac_workspace_signature = cx_redact cx (an_WorkspaceSignature r), ac_status = ''planned'',
              ac_created_at = now_text cx s\<rparr>]\<rparr>))"

definition RejectAction :: "Codec \<Rightarrow> string option \<Rightarrow> string \<Rightarrow> string \<Rightarrow> string \<Rightarrow> Store \<Rightarrow> (store_error + unit) \<times> Store" where
  "RejectAction cx fault task action reason s = transaction fault s
     (let P = (\<lambda>a. ac_action_id a = action \<and> ac_task_id a = task \<and> ac_status a = ''planned'')
      in if affected P (db_actions s) = 0 then Inl (ActionMissing action)
         else journal cx task ''action_rejected'' [(''action_id'', JS action), (''reason'', JS (cx_redact cx reason))] ()
           (s\<lparr>db_actions := update_where P (\<lambda>a. a\<lparr>ac_status := ''rejected''\<rparr>) (db_actions s)\<rparr>))"

section \<open>Tool attempts\<close>

record ToolAttemptPrepared =
  tp_TaskID :: string
  tp_WorkUnitID :: string
  tp_ActionID :: string
  tp_Tool :: string
  tp_Arguments :: string
  tp_RecoveryClass :: int
  tp_EffectAfterHash :: string
  tp_PlannedEffect :: string
  tp_ProcessIntent :: string

record ToolAttemptCompleted =
  to_TaskID :: string
  to_ExecutionID :: string
  to_Status :: string
  to_Classification :: string
  to_EvidenceID :: string
  to_DurationNanos :: int
  to_Success :: bool
  to_Untrusted :: bool
  to_Data :: string
  to_Metadata :: string

definition tool_attempt_statuses :: "string list" where
  "tool_attempt_statuses = [''planned'', ''prepared'', ''running'', ''observed'', ''verified'', ''completed'', ''failed'',
     ''uncertain'', ''verification_failed'', ''reconciled'', ''canceled'', ''human_review_required'']"

definition PrepareToolAttempt :: "Codec \<Rightarrow> string option \<Rightarrow> ToolAttemptPrepared \<Rightarrow> Store \<Rightarrow> (store_error + string) \<times> Store" where
  "PrepareToolAttempt cx fault r s = transaction fault s
     (let (executionID, s1) = nextIdentity ''exec'' s;
          recoveryClass = (if tp_RecoveryClass r < 1 \<or> tp_RecoveryClass r > 4 then 1 else tp_RecoveryClass r)
      in if executionID \<in> set (map ta_execution_id (db_tool_attempts s)) then Inl (ConstraintViolated ''tool_attempts'')
         else if tp_ActionID r \<notin> set (map ac_action_id (db_actions s)) then Inl (ConstraintViolated ''tool_attempts'')
         else journal cx (tp_TaskID r) ''tool_attempt_prepared''
           [(''execution_id'', JS executionID), (''action_id'', JS (tp_ActionID r)), (''tool'', JS (tp_Tool r)),
            (''effect_after_hash'', JS (tp_EffectAfterHash r))] executionID
           (s1\<lparr>db_tool_attempts := db_tool_attempts s @ [\<lparr>ta_execution_id = executionID, ta_task_id = tp_TaskID r,
              ta_work_unit_id = cx_redact cx (tp_WorkUnitID r), ta_action_id = tp_ActionID r,
              ta_tool = cx_redact cx (tp_Tool r), ta_arguments_json = cx_redact cx (tp_Arguments r),
              ta_status = ''prepared'', ta_recovery_class = recoveryClass, ta_effect_after_hash = tp_EffectAfterHash r,
              ta_planned_diff_json = cx_redact cx (tp_PlannedEffect r), ta_process_intent_json = cx_redact cx (tp_ProcessIntent r),
              ta_classification = [], ta_evidence_id = [], ta_duration_ns = 0, ta_recovery_reason = [],
              ta_created_at = now_text cx s, ta_prepared_at = now_text cx s, ta_completed_at = []\<rparr>],
              db_actions := update_where (\<lambda>a. ac_action_id a = tp_ActionID r \<and> ac_task_id a = tp_TaskID r \<and> ac_status a = ''planned'')
                (\<lambda>a. a\<lparr>ac_status := ''prepared''\<rparr>) (db_actions s)\<rparr>))"

text \<open>The action of an execution, moved on from \<open>prepared\<close>.\<close>

definition settle_action :: "string \<Rightarrow> string \<Rightarrow> Store \<Rightarrow> Store" where
  "settle_action execution status s =
     s\<lparr>db_actions := update_where
        (\<lambda>a. (\<exists>t \<in> set (db_tool_attempts s). ta_execution_id t = execution \<and> ta_action_id t = ac_action_id a) \<and> ac_status a = ''prepared'')
        (\<lambda>a. a\<lparr>ac_status := status\<rparr>) (db_actions s)\<rparr>"

definition insert_result :: "ToolResultRow \<Rightarrow> Store \<Rightarrow> store_error + Store" where
  "insert_result row s =
     (if list_ex (\<lambda>r. rr_task_id r = rr_task_id row \<and> rr_evidence_id r = rr_evidence_id row) (db_tool_results s)
      then Inl (ConstraintViolated ''tool_results'')
      else Inr (s\<lparr>db_tool_results := db_tool_results s @ [row]\<rparr>))"

definition CompleteToolAttempt :: "Codec \<Rightarrow> string option \<Rightarrow> ToolAttemptCompleted \<Rightarrow> Store \<Rightarrow> (store_error + unit) \<times> Store" where
  "CompleteToolAttempt cx fault r s = transaction fault s
     (let status = (if to_Status r = [] then ''completed'' else to_Status r);
          P = (\<lambda>t. ta_execution_id t = to_ExecutionID r \<and> ta_task_id t = to_TaskID r);
          s1 = s\<lparr>db_tool_attempts := update_where P (\<lambda>t. t\<lparr>ta_status := status,
             ta_classification := cx_redact cx (to_Classification r), ta_evidence_id := to_EvidenceID r,
             ta_duration_ns := to_DurationNanos r, ta_completed_at := now_text cx s\<rparr>) (db_tool_attempts s)\<rparr>;
          s2 = settle_action (to_ExecutionID r) (if status \<noteq> ''completed'' then ''failed'' else ''completed'') s1;
          row = \<lparr>rr_evidence_id = to_EvidenceID r, rr_task_id = to_TaskID r, rr_execution_id = to_ExecutionID r,
             rr_untrusted = to_Untrusted r, rr_data_json = cx_redact cx (to_Data r),
             rr_metadata_json = cx_redact cx (to_Metadata r), rr_created_at = now_text cx s\<rparr>
      in if status \<notin> set tool_attempt_statuses then Inl (ConstraintViolated ''tool_attempts'')
         else if affected P (db_tool_attempts s) = 0 then Inl (NotReconcilable (to_ExecutionID r))
         else (case (if status = ''completed'' \<and> to_Success r \<and> to_EvidenceID r \<noteq> [] then insert_result row s2 else Inr s2) of
             Inl e \<Rightarrow> Inl e
           | Inr s3 \<Rightarrow> journal cx (to_TaskID r) (if status \<noteq> ''completed'' then ''tool_attempt_failed'' else ''tool_attempt_completed'')
               [(''execution_id'', JS (to_ExecutionID r)), (''status'', JS status), (''classification'', JS (to_Classification r)),
                (''evidence_id'', JS (to_EvidenceID r)), (''duration_ns'', JI (to_DurationNanos r))] () s3))"

text \<open>The statuses of a tool attempt that recovery may still settle.\<close>

definition reconcilable_tool :: "string list" where
  "reconcilable_tool = [''planned'', ''prepared'', ''running'', ''observed'', ''verified'', ''uncertain'', ''verification_failed'']"

record ReconcileAttempt =
  rc_TaskID :: string
  rc_ExecutionID :: string
  rc_Status :: string
  rc_Reason :: string

definition ReconcileToolAttempt :: "Codec \<Rightarrow> string option \<Rightarrow> ReconcileAttempt \<Rightarrow> Store \<Rightarrow> (store_error + unit) \<times> Store" where
  "ReconcileToolAttempt cx fault r s = transaction fault s
     (let P = (\<lambda>t. ta_execution_id t = rc_ExecutionID r \<and> ta_task_id t = rc_TaskID r \<and> ta_status t \<in> set reconcilable_tool);
          s1 = s\<lparr>db_tool_attempts := update_where P (\<lambda>t. t\<lparr>ta_status := rc_Status r,
             ta_recovery_reason := cx_redact cx (rc_Reason r), ta_completed_at := now_text cx s\<rparr>) (db_tool_attempts s)\<rparr>;
          s2 = (if rc_Status r = ''human_review_required'' then settle_action (rc_ExecutionID r) ''human_review_required'' s1 else s1)
      in if rc_Status r \<notin> set tool_attempt_statuses then Inl (ConstraintViolated ''tool_attempts'')
         else if affected P (db_tool_attempts s) = 0 then Inl (NotReconcilable (rc_ExecutionID r))
         else journal cx (rc_TaskID r) ''tool_attempt_reconciled''
           [(''execution_id'', JS (rc_ExecutionID r)), (''status'', JS (rc_Status r)), (''reason'', JS (rc_Reason r))] () s2)"

text \<open>A verified write: the observed evidence is an argument, already encoded.\<close>

definition ReconcileWriteAttempt ::
  "Codec \<Rightarrow> string option \<Rightarrow> ReconcileAttempt \<Rightarrow> string \<Rightarrow> string \<Rightarrow> string \<Rightarrow> Store \<Rightarrow> (store_error + unit) \<times> Store" where
  "ReconcileWriteAttempt cx fault r evidenceID data metadata s = transaction fault s
     (let P = (\<lambda>t. ta_execution_id t = rc_ExecutionID r \<and> ta_task_id t = rc_TaskID r \<and> ta_status t \<in> set reconcilable_tool);
          s1 = s\<lparr>db_tool_attempts := update_where P (\<lambda>t. t\<lparr>ta_status := rc_Status r,
             ta_recovery_reason := cx_redact cx (rc_Reason r), ta_evidence_id := evidenceID,
             ta_completed_at := now_text cx s\<rparr>) (db_tool_attempts s)\<rparr>;
          row = \<lparr>rr_evidence_id = evidenceID, rr_task_id = rc_TaskID r, rr_execution_id = rc_ExecutionID r,
             rr_untrusted = True, rr_data_json = cx_redact cx data, rr_metadata_json = cx_redact cx metadata,
             rr_created_at = now_text cx s\<rparr>
      in if rc_Status r \<notin> set tool_attempt_statuses then Inl (ConstraintViolated ''tool_attempts'')
         else if affected P (db_tool_attempts s) = 0 then Inl (NotReconcilable (rc_ExecutionID r))
         else (case (if rc_Status r = ''reconciled'' \<and> evidenceID \<noteq> [] then insert_result row s1 else Inr s1) of
             Inl e \<Rightarrow> Inl e
           | Inr s2 \<Rightarrow> journal cx (rc_TaskID r) ''tool_attempt_reconciled''
               [(''execution_id'', JS (rc_ExecutionID r)), (''status'', JS (rc_Status r)), (''reason'', JS (rc_Reason r)),
                (''evidence_id'', JS evidenceID)] ()
               (if rc_Status r = ''reconciled'' \<and> rc_Reason r = ''write_effect_completed''
                then settle_action (rc_ExecutionID r) ''completed'' s2 else s2)))"

section \<open>Provider attempts\<close>

definition providerAttemptStatus :: "OutcomeClass \<Rightarrow> bool \<Rightarrow> string" where
  "providerAttemptStatus oc uncertain =
     (if uncertain \<or> oc = OutcomeUncertainReached then ''uncertain''
      else if oc = OutcomeSuccess then ''completed'' else ''failed'')"

definition persistedDeliveryState :: "DeliveryState \<Rightarrow> string" where
  "persistedDeliveryState d = (if \<not> DeliveryState_Valid d then [] else DeliveryState_String d)"

definition parsePersistedDeliveryState :: "string \<Rightarrow> DeliveryState option" where
  "parsePersistedDeliveryState raw =
     (if raw = [] then Some DeliveryUnobserved
      else if raw = ''not_sent'' then Some DeliveryNotSent
      else if raw = ''sent_confirmed'' then Some DeliverySentConfirmed
      else if raw = ''sent_unconfirmed'' then Some DeliverySentUnconfirmed
      else if raw = ''response_started'' then Some DeliveryResponseStarted
      else if raw = ''completed'' then Some DeliveryCompleted
      else None)"

definition maxObservedResetDistance :: duration where
  "maxObservedResetDistance = 30 * 24 * Hour"

definition persistObservedResetAt :: "Codec \<Rightarrow> time \<Rightarrow> time \<Rightarrow> string option" where
  "persistObservedResetAt cx value recordedAt =
     (if is_zero value \<or> is_zero recordedAt \<or> value < recordedAt - maxObservedResetDistance
         \<or> recordedAt + maxObservedResetDistance < value then None
      else Some (formatTime cx value))"

definition persistObservedDuration :: "duration \<Rightarrow> int option" where
  "persistObservedDuration v = (if v \<le> 0 \<or> v > 30 * 24 * Hour then None else Some v)"

definition persistRateLimitObservation :: "Codec \<Rightarrow> ProviderFinished \<Rightarrow> time \<Rightarrow> persistedRateLimitObservation" where
  "persistRateLimitObservation cx r recordedAt =
     (let ob = Sanitized (pf_RateLimitObservation r)
      in \<lparr>pr_statusCode = (if 100 \<le> pf_StatusCode r \<and> pf_StatusCode r \<le> 599 then Some (pf_StatusCode r) else None),
          pr_observedResetAt = persistObservedResetAt cx (pf_ObservedResetAt r) recordedAt,
          pr_observedRetryAfterNS = persistObservedDuration (ro_ObservedRetryAfter ob),
          pr_limitRequests = ro_LimitRequests ob, pr_remainingRequests = ro_RemainingRequests ob,
          pr_resetRequestsNS = persistObservedDuration (ro_ResetRequests ob),
          pr_limitTokens = ro_LimitTokens ob, pr_remainingTokens = ro_RemainingTokens ob,
          pr_resetTokensNS = persistObservedDuration (ro_ResetTokens ob)\<rparr>)"

definition RecordProviderPrepared :: "Codec \<Rightarrow> string option \<Rightarrow> ProviderPrepared \<Rightarrow> Store \<Rightarrow> (store_error + unit) \<times> Store" where
  "RecordProviderPrepared cx fault r s = transaction fault s
     (let (executionID, s1) = nextIdentity ''exec'' s
      in if executionID \<in> set (map pa_execution_id (db_provider_attempts s))
           \<or> list_ex (\<lambda>p. pa_task_id p = pp_TaskID r \<and> pa_client_request_id p = pp_ClientRequestID r) (db_provider_attempts s)
         then Inl (ConstraintViolated ''provider_attempts'')
         else (case saveGovernorStateInTx cx (pp_State r) (now_text cx s)
             (s1\<lparr>db_provider_attempts := db_provider_attempts s @ [\<lparr>pa_execution_id = executionID, pa_task_id = pp_TaskID r,
                pa_work_unit_id = cx_redact cx (pp_WorkUnitID r), pa_client_request_id = pp_ClientRequestID r,
                pa_provider = pp_ProviderID r, pa_model_pool = pp_ModelPool r, pa_model = pp_Model r,
                pa_attempt_sequence = pp_AttemptSequence r, pa_receipt_aware = pp_ReceiptAware r,
                pa_protocol_family = pp_ProtocolFamily r, pa_config_identity = cx_redact cx (pp_ConfigIdentity r),
                pa_delivery_state = [], pa_status = ''prepared'', pa_outcome = OutcomeEmpty, pa_upstream_reached = False,
                pa_uncertain = False, pa_attempt_debited = 0, pa_selected_backoff_ns = 0, pa_error_class = None,
                pa_failure_class = [], pa_request_id = [], pa_rate = None, pa_recovery_reason = [],
                pa_created_at = now_text cx s, pa_prepared_at = formatTime cx (pp_StartedAt r), pa_completed_at = []\<rparr>]\<rparr>) of
             Inl e \<Rightarrow> Inl e
           | Inr s2 \<Rightarrow> journal cx (pp_TaskID r) ''provider_attempt_prepared''
               [(''execution_id'', JS executionID), (''client_request_id'', JS (pp_ClientRequestID r)),
                (''provider'', JS (pp_ProviderID r)), (''model'', JS (pp_Model r)), (''model_pool'', JS (pp_ModelPool r)),
                (''attempt_sequence'', JI (pp_AttemptSequence r)), (''receipt_aware'', JB (pp_ReceiptAware r)),
                (''protocol_family'', JS (pp_ProtocolFamily r)),
                (''config_identity'', JS (cx_redact cx (pp_ConfigIdentity r)))] () s2))"

text \<open>The receipts of one outcome refer to the attempt of the request; they are refused when the
  attempt is missing or a receipt id is already stored.\<close>

fun insert_receipts :: "string \<Rightarrow> string option \<Rightarrow> AttemptReceipt list \<Rightarrow> Store \<Rightarrow> store_error + Store" where
  "insert_receipts task execution [] s = Inr s"
| "insert_receipts task execution (r # rs) s =
     (case execution of
        None \<Rightarrow> Inl (ConstraintViolated ''provider_attempt_receipts'')
      | Some e \<Rightarrow>
          if ar_AttemptID r \<in> set (map (\<lambda>(t, x, q). ar_AttemptID q) (db_receipts s))
          then Inl (ConstraintViolated ''provider_attempt_receipts'')
          else insert_receipts task execution rs (s\<lparr>db_receipts := db_receipts s @ [(task, e, r)]\<rparr>))"

definition RecordProviderFinished :: "Codec \<Rightarrow> string option \<Rightarrow> ProviderFinished \<Rightarrow> Store \<Rightarrow> (store_error + unit) \<times> Store" where
  "RecordProviderFinished cx fault r s = transaction fault s
     (let status = providerAttemptStatus (pf_Outcome r) (pf_Uncertain r);
          rate = persistRateLimitObservation cx r (parseTime cx (now_text cx s));
          P = (\<lambda>p. pa_task_id p = pf_TaskID r \<and> pa_client_request_id p = pf_ClientRequestID r \<and> pa_status p = ''prepared'');
          failureClass = (if ProviderFailureClass_Valid (pf_ProviderFailureClass r) then pf_ProviderFailureClass r else []);
          s1 = s\<lparr>db_provider_attempts := update_where P (\<lambda>p. p\<lparr>pa_status := status, pa_outcome := pf_Outcome r,
             pa_upstream_reached := pf_UpstreamReached r, pa_uncertain := pf_Uncertain r,
             pa_attempt_debited := pf_AttemptDebited r, pa_selected_backoff_ns := pf_SelectedBackoff r,
             pa_error_class := pf_ReceiptErrorCode r, pa_failure_class := failureClass,
             pa_delivery_state := persistedDeliveryState (pf_DeliveryState r),
             pa_request_id := cx_redact cx (pf_RequestID r), pa_rate := Some rate,
             pa_completed_at := now_text cx s\<rparr>) (db_provider_attempts s)\<rparr>;
          execution = map_option pa_execution_id (find (\<lambda>p. pa_task_id p = pf_TaskID r \<and> pa_client_request_id p = pf_ClientRequestID r)
             (db_provider_attempts s1))
      in case insert_receipts (pf_TaskID r) execution (pf_Receipts r) s1 of
           Inl e \<Rightarrow> Inl e
         | Inr s2 \<Rightarrow>
             (case saveGovernorStateInTx cx (pf_State r) (now_text cx s) s2 of
                Inl e \<Rightarrow> Inl e
              | Inr s3 \<Rightarrow> journal cx (pf_TaskID r)
                  (if status = ''failed'' then ''provider_attempt_failed''
                   else if status = ''uncertain'' then ''provider_attempt_uncertain'' else ''provider_attempt_completed'')
                  [(''client_request_id'', JS (pf_ClientRequestID r)), (''status'', JS status),
                   (''upstream_reached'', JB (pf_UpstreamReached r)), (''uncertain'', JB (pf_Uncertain r)),
                   (''delivery_state'', JS (DeliveryState_String (pf_DeliveryState r))),
                   (''attempt_debited'', JI (pf_AttemptDebited r)), (''selected_backoff'', JI (pf_SelectedBackoff r)),
                   (''protocol_family'', JS (pf_ProtocolFamily r)),
                   (''config_identity'', JS (cx_redact cx (pf_ConfigIdentity r))),
                   (''request_id'', JS (cx_redact cx (pf_RequestID r))), (''receipts'', JI (int (length (pf_Receipts r)))),
                   (''provider_failure_class'', JS failureClass)] () s3))"

record ReconcileProvider =
  rp_TaskID :: string
  rp_ExecutionID :: string
  rp_ClientRequestID :: string
  rp_Status :: string
  rp_Reason :: string
  rp_Uncertain :: bool
  rp_AttemptDebited :: int
  rp_DebitAt :: time
  rp_ApplyConservativeDebit :: bool

definition provider_attempt_statuses :: "string list" where
  "provider_attempt_statuses = [''planned'', ''prepared'', ''running'', ''completed'', ''failed'', ''uncertain'', ''reconciled'',
     ''canceled'', ''human_review_required'']"

definition reconcilable_provider :: "string list" where
  "reconcilable_provider = [''planned'', ''prepared'', ''running'', ''uncertain'']"

definition ReconcileProviderAttempt :: "Codec \<Rightarrow> string option \<Rightarrow> time \<Rightarrow> ReconcileProvider \<Rightarrow> Store \<Rightarrow> (store_error + unit) \<times> Store" where
  "ReconcileProviderAttempt cx fault wall r s = transaction fault s
     (let P = (\<lambda>p. pa_execution_id p = rp_ExecutionID r \<and> pa_task_id p = rp_TaskID r \<and> pa_status p \<in> set reconcilable_provider);
          s1 = s\<lparr>db_provider_attempts := update_where P (\<lambda>p. p\<lparr>pa_status := rp_Status r,
             pa_recovery_reason := cx_redact cx (rp_Reason r), pa_uncertain := rp_Uncertain r,
             pa_attempt_debited := rp_AttemptDebited r, pa_completed_at := now_text cx s\<rparr>) (db_provider_attempts s)\<rparr>
      in if rp_Status r \<notin> set provider_attempt_statuses then Inl (ConstraintViolated ''provider_attempts'')
         else if affected P (db_provider_attempts s) = 0 then Inl (NotReconcilable (rp_ExecutionID r))
         else (case (if rp_ApplyConservativeDebit r then applyConservativeGovernorDebit cx wall (rp_TaskID r) (rp_DebitAt r) s1 else Inr s1) of
             Inl e \<Rightarrow> Inl e
           | Inr s2 \<Rightarrow> journal cx (rp_TaskID r) ''provider_attempt_reconciled''
               [(''execution_id'', JS (rp_ExecutionID r)), (''status'', JS (rp_Status r)), (''reason'', JS (rp_Reason r)),
                (''uncertain'', JB (rp_Uncertain r)), (''attempt_debited'', JI (rp_AttemptDebited r)),
                (''client_request_id'', JS (rp_ClientRequestID r)),
                (''conservative_debit'', JB (rp_ApplyConservativeDebit r))] () s2))"

definition CheckSIWCAdmissionSafety :: "Store \<Rightarrow> store_error option" where
  "CheckSIWCAdmissionSafety s =
     (if affected (\<lambda>p. pa_status p \<in> {''prepared'', ''running'', ''uncertain'', ''human_review_required''}) (db_provider_attempts s) \<noteq> 0
      then Some AdmissionUnsafe else None)"

end
