(* ===== verification/WorkUnit_Cycle.thy ===== *)
theory WorkUnit_Cycle
  imports Prelude
begin

text \<open>
  The dependency cycle check of \<open>internal/state/workunits.go\<close>: an iterative depth-first search with
  an explicit stack and three colours. The inner loop need not end, so it is a partial function
  into \<open>option\<close> whose value is \<open>None\<close> when the loop does not return. The stack is a list with its
  top first.
\<close>

section \<open>The search\<close>

datatype color = White | Gray | Black

type_synonym edges = "string list gomap"
type_synonym coloring = "color gomap"

definition color_of :: "coloring \<Rightarrow> string \<Rightarrow> color" where
  "color_of c n = (case map_get c n of None \<Rightarrow> White | Some x \<Rightarrow> x)"

definition deps_of :: "edges \<Rightarrow> string \<Rightarrow> string list" where
  "deps_of es n = (case map_get es n of None \<Rightarrow> [] | Some ds \<Rightarrow> ds)"

fun push_deps :: "coloring \<Rightarrow> string \<Rightarrow> string list \<Rightarrow> string list \<Rightarrow> bool \<Rightarrow> string + (string list \<times> bool)" where
  "push_deps c current [] stack pushed = Inr (stack, pushed)"
| "push_deps c current (d # ds) stack pushed =
     (case color_of c d of
        Gray \<Rightarrow> Inl (current @ '' -> '' @ d)
      | White \<Rightarrow> push_deps c current ds (d # stack) True
      | Black \<Rightarrow> push_deps c current ds stack pushed)"

text \<open>The body of the inner loop: it returns from the function, ends the loop, or goes on.\<close>

definition dfs_turn :: "edges \<Rightarrow> coloring \<Rightarrow> string list \<Rightarrow> (string + coloring) + (coloring \<times> string list)" where
  "dfs_turn es c stack =
     (case stack of
        [] \<Rightarrow> Inl (Inr c)
      | current # rest \<Rightarrow>
          (case color_of c current of
             Gray \<Rightarrow> Inr (map_put current Black c, rest)
           | Black \<Rightarrow> Inr (c, stack)
           | White \<Rightarrow>
               (let c' = map_put current Gray c
                in case push_deps c' current (sort (deps_of es current)) stack False of
                     Inl cycle \<Rightarrow> Inl (Inl cycle)
                   | Inr (stack', pushed) \<Rightarrow>
                       if pushed then Inr (c', stack') else Inr (map_put current Black c', rest))))"

partial_function (option) dfs :: "edges \<Rightarrow> coloring \<Rightarrow> string list \<Rightarrow> (string + coloring) option" where
  "dfs es c stack =
     (case dfs_turn es c stack of Inl r \<Rightarrow> Some r | Inr cs \<Rightarrow> dfs es (fst cs) (snd cs))"

fun dfs_all :: "edges \<Rightarrow> string list \<Rightarrow> coloring \<Rightarrow> string option" where
  "dfs_all es [] c = Some ''''"
| "dfs_all es (start # units) c =
     (if color_of c start \<noteq> White then dfs_all es units c
      else (case dfs es c [start] of
          None \<Rightarrow> None
        | Some (Inl cycle) \<Rightarrow> Some cycle
        | Some (Inr c') \<Rightarrow> dfs_all es units c'))"

definition findWorkUnitCycle :: "edges \<Rightarrow> string option" where
  "findWorkUnitCycle es = dfs_all es (sort (map fst es)) []"

section \<open>Colours and pushes\<close>

definition edge_rel :: "edges \<Rightarrow> (string \<times> string) set" where
  "edge_rel es = {(n, d). d \<in> set (deps_of es n)}"

abbreviation on_cycle :: "edges \<Rightarrow> string \<Rightarrow> bool" where
  "on_cycle es n \<equiv> (n, n) \<in> (edge_rel es)\<^sup>+"

lemma color_of_put [simp]: "color_of (map_put n x c) m = (if m = n then x else color_of c m)"
  by (simp add: color_of_def)

lemma color_of_Nil [simp]: "color_of [] n = White"
  by (simp add: color_of_def)

lemma push_deps_Inl:
  "push_deps c current ds stack pushed = Inl cycle \<Longrightarrow>
   \<exists>d \<in> set ds. color_of c d = Gray \<and> cycle = current @ '' -> '' @ d"
  by (induction c current ds stack pushed rule: push_deps.induct) (auto split: color.splits)

lemma push_deps_Inr:
  "push_deps c current ds stack pushed = Inr (stack', pushed') \<Longrightarrow>
   stack' = rev (filter (\<lambda>d. color_of c d = White) ds) @ stack
   \<and> (\<forall>d \<in> set ds. color_of c d \<noteq> Gray)
   \<and> (pushed' \<longleftrightarrow> pushed \<or> filter (\<lambda>d. color_of c d = White) ds \<noteq> [])"
  by (induction c current ds stack pushed rule: push_deps.induct) (auto split: color.splits)

text \<open>One turn of the inner loop, by cases.\<close>

lemma dfs_turn_cases:
  obtains (finish) "stack = []" "dfs_turn es c stack = Inl (Inr c)"
  | (blacken) n rest where "stack = n # rest" "color_of c n = Gray" "dfs_turn es c stack = Inr (map_put n Black c, rest)"
  | (stuck) n rest where "stack = n # rest" "color_of c n = Black" "dfs_turn es c stack = Inr (c, stack)"
  | (cycle) n rest d where "stack = n # rest" "color_of c n = White" "d \<in> set (deps_of es n)"
      "d = n \<or> color_of c d = Gray" "dfs_turn es c stack = Inl (Inl (n @ '' -> '' @ d))"
  | (push) n rest ds where "stack = n # rest" "color_of c n = White"
      "\<forall>d \<in> set (deps_of es n). d \<noteq> n \<and> color_of c d \<noteq> Gray"
      "ds = rev (filter (\<lambda>d. color_of c d = White) (sort (deps_of es n)))"
      "dfs_turn es c stack = Inr (map_put n Gray c, ds @ stack)"
  | (leaf) n rest where "stack = n # rest" "color_of c n = White" "\<forall>d \<in> set (deps_of es n). color_of c d = Black"
      "dfs_turn es c stack = Inr (map_put n Black (map_put n Gray c), rest)"
proof (cases stack)
  case Nil
  then show ?thesis using finish by (simp add: dfs_turn_def)
next
  case (Cons n rest)
  show ?thesis
  proof (cases "color_of c n")
    case White
    let ?c = "map_put n Gray c" and ?ds = "sort (deps_of es n)"
    show ?thesis
    proof (cases "push_deps ?c n ?ds stack False")
      case (Inl cyc)
      then obtain d where "d \<in> set (deps_of es n)" "d = n \<or> color_of c d = Gray" "cyc = n @ '' -> '' @ d"
        using push_deps_Inl [OF Inl] by (auto split: if_splits)
      then show ?thesis using cycle [OF Cons White] Cons White Inl by (simp add: dfs_turn_def)
    next
      case (Inr sp)
      obtain stack' pushed where sp: "sp = (stack', pushed)" by fastforce
      note pd = push_deps_Inr [OF Inr [unfolded sp]]
      have ng: "\<forall>d \<in> set (deps_of es n). d \<noteq> n \<and> color_of c d \<noteq> Gray" using pd by (auto split: if_splits)
      have flt: "filter (\<lambda>d. color_of ?c d = White) ?ds = filter (\<lambda>d. color_of c d = White) ?ds"
        using ng by (intro filter_cong) auto
      show ?thesis
      proof (cases pushed)
        case True
        then show ?thesis using push [OF Cons White ng refl] pd flt Inr sp Cons White
          by (simp add: dfs_turn_def Let_def)
      next
        case False
        then have "filter (\<lambda>d. color_of ?c d = White) ?ds = []" using pd by blast
        then have "filter (\<lambda>d. color_of c d = White) ?ds = []" by (simp only: flt)
        then have "\<forall>d \<in> set (deps_of es n). color_of c d \<noteq> White" unfolding filter_empty_conv by simp
        with ng have "\<forall>d \<in> set (deps_of es n). color_of c d = Black" by (metis color.exhaust)
        then show ?thesis using leaf [OF Cons White] False Inr sp Cons White by (simp add: dfs_turn_def Let_def)
      qed
    qed
  qed (use Cons blacken stuck in \<open>simp_all add: dfs_turn_def\<close>)
qed

section \<open>Partial correctness\<close>

text \<open>The invariant of the inner loop: what is black is closed under dependencies and on no cycle,
  what is gray is on the stack, everything above a gray unit is reachable from it, and the
  dependencies of a gray unit are black or above it.\<close>

definition over :: "string list \<Rightarrow> string \<Rightarrow> string set" where
  "over stack g = set (takeWhile (\<lambda>x. x \<noteq> g) stack)"

definition dfs_inv :: "edges \<Rightarrow> coloring \<Rightarrow> string list \<Rightarrow> bool" where
  "dfs_inv es c stack \<longleftrightarrow>
     (\<forall>b. color_of c b = Black \<longrightarrow> \<not> on_cycle es b \<and> (\<forall>d \<in> set (deps_of es b). color_of c d = Black))
     \<and> (\<forall>g. color_of c g = Gray \<longrightarrow> g \<in> set stack
          \<and> (\<forall>x \<in> over stack g. (g, x) \<in> (edge_rel es)\<^sup>+)
          \<and> (\<forall>d \<in> set (deps_of es g). color_of c d = Black \<or> d \<in> over stack g))"

lemma over_Nil [simp]: "over [] g = {}"
  by (simp add: over_def)

lemma over_Cons: "over (x # xs) g = (if x = g then {} else insert x (over xs g))"
  unfolding over_def by (cases "x = g") simp_all

lemma over_append: "over (xs @ ys) g = (if g \<in> set xs then over xs g else set xs \<union> over ys g)"
  by (induction xs) (auto simp: over_Cons)

lemma black_closed:
  assumes "dfs_inv es c stack" "(b, x) \<in> (edge_rel es)\<^sup>+" "color_of c b = Black"
  shows "color_of c x = Black"
  using assms(2,3)
proof (induction rule: trancl_induct)
  case (base y) then show ?case using assms(1) by (auto simp: dfs_inv_def edge_rel_def)
next
  case (step y z) then show ?case using assms(1) by (auto simp: dfs_inv_def edge_rel_def)
qed

text \<open>A unit all of whose dependencies are black, and that is not itself black, is on no cycle.\<close>

lemma not_on_cycle:
  assumes "dfs_inv es c stack" "color_of c n \<noteq> Black" "\<forall>d \<in> set (deps_of es n). color_of c d = Black"
  shows "\<not> on_cycle es n"
proof
  assume "on_cycle es n"
  then obtain d where d: "(n, d) \<in> edge_rel es" "d = n \<or> (d, n) \<in> (edge_rel es)\<^sup>+" by (meson tranclD rtranclD)
  then have "color_of c d = Black" using assms(3) by (simp add: edge_rel_def)
  with d(2) assms(1,2) black_closed show False by metis
qed

lemma dfs_inv_blacken_top:
  assumes "dfs_inv es c (n # rest)" "color_of c n = Gray"
  shows "dfs_inv es (map_put n Black c) rest"
proof -
  have deps: "\<forall>d \<in> set (deps_of es n). color_of c d = Black" using assms by (auto simp: dfs_inv_def over_Cons)
  then have "\<not> on_cycle es n" using not_on_cycle [OF assms(1)] assms(2) by simp
  then show ?thesis using assms deps unfolding dfs_inv_def
    by (auto simp: over_Cons split: if_splits)
qed

lemma dfs_inv_leaf:
  assumes "dfs_inv es c (n # rest)" "color_of c n = White" "\<forall>d \<in> set (deps_of es n). color_of c d = Black"
  shows "dfs_inv es (map_put n Black (map_put n Gray c)) rest"
proof -
  have "\<not> on_cycle es n" using not_on_cycle [OF assms(1)] assms(2,3) by simp
  then show ?thesis using assms unfolding dfs_inv_def by (auto simp: over_Cons split: if_splits)
qed

lemma dfs_inv_push:
  assumes "dfs_inv es c (n # rest)" "color_of c n = White"
    and "\<forall>d \<in> set (deps_of es n). d \<noteq> n \<and> color_of c d \<noteq> Gray"
    and "ds = rev (filter (\<lambda>d. color_of c d = White) (sort (deps_of es n)))"
  shows "dfs_inv es (map_put n Gray c) (ds @ n # rest)"
proof -
  have ds: "set ds = {d \<in> set (deps_of es n). color_of c d = White}" using assms(4) by auto
  have white: "d \<in> set (deps_of es n) \<Longrightarrow> color_of c d = Black \<or> d \<in> set ds" for d
    using assms(3) ds by (cases "color_of c d") auto
  have E: "d \<in> set ds \<Longrightarrow> (n, d) \<in> (edge_rel es)\<^sup>+" for d using ds by (auto simp: edge_rel_def)
  have new: "n \<notin> set ds" using assms(3) ds by auto
  let ?c = "map_put n Gray c" and ?s = "ds @ n # rest"
  have gray: "g \<in> set ?s \<and> (\<forall>x \<in> over ?s g. (g, x) \<in> (edge_rel es)\<^sup>+)
      \<and> (\<forall>d \<in> set (deps_of es g). color_of ?c d = Black \<or> d \<in> over ?s g)" if g: "color_of c g = Gray" for g
  proof -
    have ne: "g \<noteq> n" "g \<notin> set ds" using assms(2) g ds by auto
    have old: "g \<in> set rest" "\<forall>x \<in> insert n (over rest g). (g, x) \<in> (edge_rel es)\<^sup>+"
      "\<forall>d \<in> set (deps_of es g). color_of c d = Black \<or> d \<in> insert n (over rest g)"
      using assms(1) g ne(1) unfolding dfs_inv_def over_Cons if_not_P [OF ne(1) [symmetric]]
      by (fastforce, metis, metis)
    have "over ?s g = set ds \<union> insert n (over rest g)" using ne by (auto simp: over_append over_Cons)
    then show ?thesis using old E ne assms(2) by (auto intro: trancl_trans)
  qed
  have self: "over ?s n = set ds" using new by (simp add: over_append over_Cons)
  have black: "\<not> on_cycle es b \<and> (\<forall>d \<in> set (deps_of es b). color_of ?c d = Black)" if "color_of c b = Black" for b
    using assms(1,2) that by (fastforce simp: dfs_inv_def)
  show ?thesis unfolding dfs_inv_def
  proof (intro conjI allI impI)
    fix b assume "color_of ?c b = Black"
    then have "color_of c b = Black" by (simp split: if_splits)
    from black [OF this] show "\<not> on_cycle es b" "\<forall>d \<in> set (deps_of es b). color_of ?c d = Black" by blast+
  next
    fix g assume g: "color_of ?c g = Gray"
    have "g \<in> set ?s \<and> (\<forall>x \<in> over ?s g. (g, x) \<in> (edge_rel es)\<^sup>+)
      \<and> (\<forall>d \<in> set (deps_of es g). color_of ?c d = Black \<or> d \<in> over ?s g)"
    proof (cases "g = n")
      case True
      then show ?thesis using self white E assms(2,3) by auto
    next
      case False
      with g have "color_of c g = Gray" by simp
      from gray [OF this] show ?thesis .
    qed
    then show "g \<in> set ?s" "\<forall>x \<in> over ?s g. (g, x) \<in> (edge_rel es)\<^sup>+"
      "\<forall>d \<in> set (deps_of es g). color_of ?c d = Black \<or> d \<in> over ?s g" by blast+
  qed
qed

lemma dfs_turn_inv:
  assumes "dfs_turn es c stack = Inr (c', stack')" "dfs_inv es c stack"
  shows "dfs_inv es c' stack'"
proof (cases rule: dfs_turn_cases [of stack es c])
  case (leaf n rest)
  then show ?thesis using assms dfs_inv_leaf [of es c n rest] by simp
next
  case (push n rest ds)
  then show ?thesis using assms dfs_inv_push [of es c n rest ds] by simp
next
  case (blacken n rest)
  then show ?thesis using assms dfs_inv_blacken_top [of es c n rest] by simp
qed (use assms in simp_all)

lemma dfs_turn_black:
  "dfs_turn es c stack = Inr (c', stack') \<Longrightarrow> color_of c x = Black \<or> x \<in> set stack \<Longrightarrow>
   color_of c' x = Black \<or> x \<in> set stack'"
  by (rule dfs_turn_cases [of stack es c]) auto

definition dfs_result_ok :: "edges \<Rightarrow> coloring \<Rightarrow> string list \<Rightarrow> string + coloring \<Rightarrow> bool" where
  "dfs_result_ok es c stack r \<longleftrightarrow>
     (case r of
        Inl cyc \<Rightarrow> \<exists>n d. cyc = n @ '' -> '' @ d \<and> (n, d) \<in> edge_rel es \<and> on_cycle es n
      | Inr c' \<Rightarrow> dfs_inv es c' [] \<and> (\<forall>x. color_of c x = Black \<or> x \<in> set stack \<longrightarrow> color_of c' x = Black))"

lemma dfs_turn_result:
  assumes "dfs_turn es c stack = Inl r" "dfs_inv es c stack"
  shows "dfs_result_ok es c stack r"
proof (cases rule: dfs_turn_cases [of stack es c])
  case (cycle n rest d)
  have e: "(n, d) \<in> edge_rel es" using cycle by (simp add: edge_rel_def)
  have "d = n \<or> (d, n) \<in> (edge_rel es)\<^sup>+"
  proof (cases "d = n")
    case False
    then have "n \<in> over stack d" "color_of c d = Gray" using cycle by (simp_all add: over_Cons)
    then show ?thesis using assms(2) unfolding dfs_inv_def by blast
  qed simp
  then have "on_cycle es n" using e by (auto intro: trancl_into_trancl2)
  moreover have "r = Inl (n @ '' -> '' @ d)" using cycle(5) assms(1) by simp
  ultimately show ?thesis using e by (auto simp: dfs_result_ok_def)
qed (use assms in \<open>auto simp: dfs_result_ok_def\<close>)

text \<open>The induction rule of the loop: it speaks of every run that returns.\<close>

lemma dfs_loop_induct [consumes 1, case_names return again]:
  assumes "dfs es c stack = Some r"
    and "\<And>c stack r. dfs_turn es c stack = Inl r \<Longrightarrow> P c stack r"
    and "\<And>c stack c' stack' r. dfs_turn es c stack = Inr (c', stack') \<Longrightarrow> P c' stack' r \<Longrightarrow> P c stack r"
  shows "P c stack r"
proof -
  have "\<And>es' c stack r. dfs es' c stack = Some r \<Longrightarrow> es' = es \<longrightarrow> P c stack r"
  proof (rule dfs.raw_induct [where P = "\<lambda>es' c stack r. es' = es \<longrightarrow> P c stack r"])
    fix f es' c stack r
    assume IH: "\<And>es' c stack r. f es' c stack = Some r \<Longrightarrow> es' = es \<longrightarrow> P c stack r"
      and run: "(case dfs_turn es' c stack of Inl r \<Rightarrow> Some r | Inr cs \<Rightarrow> f es' (fst cs) (snd cs)) = Some r"
    show "es' = es \<longrightarrow> P c stack r"
    proof
      assume [simp]: "es' = es"
      show "P c stack r"
      proof (cases "dfs_turn es c stack")
        case (Inl r') then show ?thesis using run assms(2) by simp
      next
        case (Inr cs)
        then have "P (fst cs) (snd cs) r" using run IH by simp
        with Inr show ?thesis using assms(3) [of c stack "fst cs" "snd cs"] by simp
      qed
    qed
  qed
  then show ?thesis using assms(1) by blast
qed

lemma dfs_sound:
  assumes "dfs es c stack = Some r" "dfs_inv es c stack"
  shows "dfs_result_ok es c stack r"
proof -
  have "dfs_inv es c stack \<longrightarrow> dfs_result_ok es c stack r" using assms(1)
  proof (induction rule: dfs_loop_induct)
    case (return c stack r) then show ?case using dfs_turn_result by blast
  next
    case (again c stack c' stack' r)
    then show ?case using dfs_turn_inv [OF again(1)] dfs_turn_black [OF again(1)]
      by (fastforce simp: dfs_result_ok_def split: sum.splits)
  qed
  with assms(2) show ?thesis by blast
qed

lemma dfs_again: "dfs_turn es c stack = Inr (c', stack') \<Longrightarrow> dfs es c stack = dfs es c' stack'"
  by (simp add: dfs.simps [of es c stack])

lemma dfs_return: "dfs_turn es c stack = Inl r \<Longrightarrow> dfs es c stack = Some r"
  by (simp add: dfs.simps [of es c stack])

text \<open>A black unit on top of the stack is never removed: the loop does not end.\<close>

lemma dfs_stuck: "color_of c n = Black \<Longrightarrow> dfs es c (n # rest) = None"
proof (rule ccontr)
  assume b: "color_of c n = Black" "dfs es c (n # rest) \<noteq> None"
  then obtain r where "dfs es c (n # rest) = Some r" by blast
  then have "n # rest = [] \<or> color_of c (hd (n # rest)) \<noteq> Black"
  proof (induction rule: dfs_loop_induct)
    case (return c stack r) then show ?case by (cases rule: dfs_turn_cases [of stack es c]) auto
  next
    case (again c stack c' stack' r) then show ?case by (cases rule: dfs_turn_cases [of stack es c]) auto
  qed
  with b(1) show False by simp
qed


section \<open>Termination on forests\<close>

text \<open>A graph in which no unit is named twice as a dependency.\<close>

definition forest :: "edges \<Rightarrow> bool" where
  "forest es \<longleftrightarrow> map_wf es \<and> distinct (concat (map snd es))"

lemma named_once:
  "(p, dp) \<in> set es \<Longrightarrow> (q, dq) \<in> set es \<Longrightarrow> d \<in> set dp \<Longrightarrow> d \<in> set dq \<Longrightarrow> distinct (concat (map snd es)) \<Longrightarrow> p = q"
proof (induction es)
  case (Cons e es)
  have apart: "d \<in> set (snd e) \<Longrightarrow> (x, ds) \<in> set es \<Longrightarrow> d \<notin> set ds" for x ds using Cons.prems(5) by fastforce
  show ?case
  proof (cases "e = (p, dp) \<or> e = (q, dq)")
    case True
    then show ?thesis using apart [of p dp] apart [of q dq] Cons.prems(1-4) by auto
  next
    case False
    then show ?thesis using Cons by auto
  qed
qed simp

lemma forest_deps:
  assumes "forest es"
  shows "distinct (deps_of es p)" "d \<in> set (deps_of es p) \<Longrightarrow> d \<in> set (deps_of es q) \<Longrightarrow> p = q"
proof -
  have wf: "map_wf es" and dc: "distinct (concat (map snd es))" using assms by (auto simp: forest_def)
  have row: "(p, deps_of es p) \<in> set es" if "deps_of es p \<noteq> []" for p
    using that by (auto simp: deps_of_def split: option.splits dest: map_of_SomeD)
  show "distinct (deps_of es p)"
  proof (cases "deps_of es p = []")
    case False
    then have "deps_of es p \<in> set (map snd es)" using row by force
    with dc show ?thesis by (simp only: distinct_concat_iff)
  qed simp
  assume d: "d \<in> set (deps_of es p)" "d \<in> set (deps_of es q)"
  have "deps_of es p \<noteq> []" "deps_of es q \<noteq> []" using d by auto
  from row [OF this(1)] row [OF this(2)] d dc show "p = q" by (rule named_once)
qed

definition nodes :: "edges \<Rightarrow> string set" where
  "nodes es = set (map fst es) \<union> (\<Union>n \<in> set (map fst es). set (deps_of es n))"

lemma deps_keys: "deps_of es n \<noteq> [] \<Longrightarrow> n \<in> set (map fst es)"
  by (force simp: deps_of_def split: option.splits dest: map_of_SomeD)

lemma nodes_finite: "finite (nodes es)"
  by (simp add: nodes_def)

lemma nodes_deps: "d \<in> set (deps_of es n) \<Longrightarrow> d \<in> nodes es"
  using deps_keys [of es n] unfolding nodes_def by force

definition remaining :: "edges \<Rightarrow> coloring \<Rightarrow> nat" where
  "remaining es c = (\<Sum>n \<in> nodes es. case color_of c n of White \<Rightarrow> 2 | Gray \<Rightarrow> 1 | Black \<Rightarrow> 0)"

lemma remaining_less:
  assumes "n \<in> nodes es" "color_of c n = White \<and> x \<noteq> White \<or> color_of c n = Gray \<and> x = Black"
    "\<And>m. color_of c' m = (if m = n then x else color_of c m)"
  shows "remaining es c' < remaining es c"
  unfolding remaining_def
  using assms nodes_finite by (intro sum_strict_mono_ex1) (auto split: color.splits)

definition dfs_fresh :: "edges \<Rightarrow> coloring \<Rightarrow> string list \<Rightarrow> bool" where
  "dfs_fresh es c stack \<longleftrightarrow>
     distinct stack \<and> set stack \<subseteq> nodes es \<and> (\<forall>n \<in> set stack. color_of c n \<noteq> Black)
     \<and> (\<forall>d \<in> set stack. color_of c d = White \<longrightarrow> stack = [d] \<or> (\<exists>p. color_of c p = Gray \<and> d \<in> set (deps_of es p)))"

lemma dfs_fresh_push:
  assumes "dfs_fresh es c (n # rest)" "forest es" "color_of c n = White"
    and "\<forall>d \<in> set (deps_of es n). d \<noteq> n \<and> color_of c d \<noteq> Gray"
    and "ds = rev (filter (\<lambda>d. color_of c d = White) (sort (deps_of es n)))"
  shows "dfs_fresh es (map_put n Gray c) (ds @ n # rest)"
proof -
  have ds: "set ds = {d \<in> set (deps_of es n). color_of c d = White}" using assms(5) by auto
  have dist: "distinct ds" using assms(5) forest_deps(1) [OF assms(2)] by simp
  have parent: "\<exists>p. color_of c p = Gray \<and> d \<in> set (deps_of es p)" if "d \<in> set rest" "color_of c d = White" for d
    using assms(1) that by (auto simp: dfs_fresh_def)
  have sep: "set ds \<inter> set (n # rest) = {}"
  proof (rule ccontr)
    assume "set ds \<inter> set (n # rest) \<noteq> {}"
    then obtain d where d: "d \<in> set rest" "d \<in> set (deps_of es n)" "color_of c d = White" using ds assms(4) by auto
    then obtain p where "color_of c p = Gray" "d \<in> set (deps_of es p)" using parent by blast
    then show False using forest_deps(2) [OF assms(2) d(2)] assms(3) by force
  qed
  have whites: "\<exists>p. color_of (map_put n Gray c) p = Gray \<and> d \<in> set (deps_of es p)"
    if "d \<in> set (ds @ n # rest)" "color_of (map_put n Gray c) d = White" for d
  proof (cases "d \<in> set ds")
    case True
    then show ?thesis using ds by (intro exI [of _ n]) simp
  next
    case False
    then have "d \<in> set rest" "color_of c d = White" using that by (auto split: if_splits)
    then show ?thesis using parent by fastforce
  qed
  have "set ds \<subseteq> nodes es" "\<forall>d \<in> set ds. color_of c d = White" using ds nodes_deps by auto
  with assms(1,3) dist sep whites show ?thesis unfolding dfs_fresh_def by auto
qed

lemma dfs_fresh_pop:
  assumes "dfs_fresh es c (n # rest)" "dfs_inv es c (n # rest)" "color_of c n \<noteq> Black"
    and "\<And>m. color_of c' m = (if m = n then Black else color_of c m)"
  shows "dfs_fresh es c' rest"
proof -
  have "\<exists>p. color_of c' p = Gray \<and> d \<in> set (deps_of es p)" if d: "d \<in> set rest" "color_of c d = White" for d
  proof -
    obtain p where p: "color_of c p = Gray" "d \<in> set (deps_of es p)" using assms(1) d by (auto simp: dfs_fresh_def)
    have "d \<in> over (n # rest) p" using assms(2) p d(2) unfolding dfs_inv_def by (metis color.distinct(3))
    then have "p \<noteq> n" by (auto simp: over_Cons)
    with p show ?thesis using assms(4) by auto
  qed
  with assms(1,4) show ?thesis unfolding dfs_fresh_def by auto
qed

lemma dfs_returns:
  assumes "forest es" "dfs_inv es c stack" "dfs_fresh es c stack"
  shows "\<exists>r. dfs es c stack = Some r"
  using assms(2,3)
proof (induction "remaining es c" arbitrary: c stack rule: less_induct)
  case less
  have next_turn: ?case
    if "dfs_turn es c stack = Inr (c', stack')" "remaining es c' < remaining es c" "dfs_fresh es c' stack'" for c' stack'
    using less.hyps [OF that(2) dfs_turn_inv [OF that(1) less.prems(1)] that(3)] that(1)
    by (simp add: dfs_again)
  show ?case
  proof (cases rule: dfs_turn_cases [of stack es c])
    case (blacken n rest)
    then have "n \<in> nodes es" using less.prems(2) by (simp add: dfs_fresh_def)
    with blacken show ?thesis
      using dfs_fresh_pop [of es c n rest "map_put n Black c"] less.prems
      by (intro next_turn) (auto intro!: remaining_less [of n _ c Black])
  next
    case (push n rest ds)
    then have "n \<in> nodes es" using less.prems(2) by (simp add: dfs_fresh_def)
    with push show ?thesis
      using dfs_fresh_push [of es c n rest ds] less.prems assms(1)
      by (intro next_turn) (auto intro!: remaining_less [of n _ c Gray])
  next
    case (leaf n rest)
    then have "n \<in> nodes es" using less.prems(2) by (simp add: dfs_fresh_def)
    with leaf show ?thesis
      using dfs_fresh_pop [of es c n rest "map_put n Black (map_put n Gray c)"] less.prems
      by (intro next_turn) (auto intro!: remaining_less [of n _ c Black])
  next
    case (stuck n rest)
    then show ?thesis using less.prems(2) by (simp add: dfs_fresh_def)
  qed (simp_all add: dfs_return)
qed

section \<open>The whole search\<close>

lemma dfs_inv_start: "dfs_inv es c [] \<Longrightarrow> color_of c n = White \<Longrightarrow> dfs_inv es c [n]"
  by (auto simp: dfs_inv_def)

lemma dfs_all_sound:
  assumes "dfs_all es units c = Some r" "dfs_inv es c []"
    and "\<forall>n. deps_of es n \<noteq> [] \<longrightarrow> n \<in> set units \<or> color_of c n = Black"
  shows "if r = [] then \<forall>n. \<not> on_cycle es n
    else \<exists>n d. r = n @ '' -> '' @ d \<and> (n, d) \<in> edge_rel es \<and> on_cycle es n"
  using assms
proof (induction es units c arbitrary: r rule: dfs_all.induct)
  case (1 es c)
  have "\<not> on_cycle es n" for n
  proof
    assume cyc: "on_cycle es n"
    then obtain d where "(n, d) \<in> edge_rel es" by (meson tranclD)
    then have "deps_of es n \<noteq> []" by (auto simp: edge_rel_def)
    then show False using 1 cyc by (auto simp: dfs_inv_def)
  qed
  then show ?case using 1 by simp
next
  case (2 es start units c)
  show ?case
  proof (cases "color_of c start = White")
    case False
    then have "color_of c start = Black" using "2.prems"(2) by (cases "color_of c start") (auto simp: dfs_inv_def)
    then have "\<forall>n. deps_of es n \<noteq> [] \<longrightarrow> n \<in> set units \<or> color_of c n = Black"
      using "2.prems"(3) by (metis set_ConsD)
    then show ?thesis using "2.IH"(1) [OF False _ "2.prems"(2)] "2.prems"(1) False by simp
  next
    case True
    then obtain s where s: "dfs es c [start] = Some s" using "2.prems"(1) by (auto split: option.splits)
    note ok = dfs_sound [OF s dfs_inv_start [OF "2.prems"(2) True]]
    show ?thesis
    proof (cases s)
      case (Inl cyc)
      then show ?thesis using ok "2.prems"(1) True s by (auto simp: dfs_result_ok_def)
    next
      case (Inr c')
      then have "dfs_inv es c' []" "\<forall>n. color_of c n = Black \<or> n = start \<longrightarrow> color_of c' n = Black"
        using ok by (auto simp: dfs_result_ok_def)
      moreover from this(2) have "\<forall>n. deps_of es n \<noteq> [] \<longrightarrow> n \<in> set units \<or> color_of c' n = Black"
        using "2.prems"(3) by (metis set_ConsD)
      ultimately show ?thesis using "2.IH"(2) [of s c' r] "2.prems"(1) True s Inr by simp
    qed
  qed
qed

lemma dfs_all_returns:
  assumes "forest es" "dfs_inv es c []" "set units \<subseteq> nodes es"
  shows "\<exists>r. dfs_all es units c = Some r"
  using assms
proof (induction es units c rule: dfs_all.induct)
  case (2 es start units c)
  show ?case
  proof (cases "color_of c start = White")
    case False
    then show ?thesis using 2 by auto
  next
    case True
    have "dfs_fresh es c [start]" using True 2 by (simp add: dfs_fresh_def)
    then obtain s where s: "dfs es c [start] = Some s"
      using dfs_returns [OF "2.prems"(1) dfs_inv_start [OF "2.prems"(2) True]] by blast
    note ok = dfs_sound [OF s dfs_inv_start [OF "2.prems"(2) True]]
    show ?thesis
    proof (cases s)
      case (Inr c')
      then have "dfs_inv es c' []" using ok by (simp add: dfs_result_ok_def)
      then show ?thesis using "2.IH"(2) [of s c'] "2.prems" True s Inr by auto
    qed (use True s in simp)
  qed
qed simp

lemma start_inv: "dfs_inv es [] []"
  by (simp add: dfs_inv_def)

section \<open>Properties\<close>

text \<open>The verdict of the cycle check. Whenever the check returns, an empty answer means that no
  unit is on a dependency cycle, and any other answer names a dependency of a unit that is on one.\<close>

theorem cycle_check_verdict:
  assumes "findWorkUnitCycle es = Some r"
  shows "if r = [] then \<forall>n. \<not> on_cycle es n
    else \<exists>n d. r = n @ '' -> '' @ d \<and> (n, d) \<in> edge_rel es \<and> on_cycle es n"
  using dfs_all_sound [OF assms [unfolded findWorkUnitCycle_def] start_inv] deps_keys by auto

theorem cycle_check_verdict_witness:
  "\<exists>r. findWorkUnitCycle [(''a'', [''b'']), (''b'', [''a''])] = Some r \<and> (\<exists>n. on_cycle [(''a'', [''b'']), (''b'', [''a''])] n)"
proof -
  let ?es = "[(''a'', [''b'']), (''b'', [''a''])]"
  have t1: "dfs_turn ?es [] [''a''] = Inr ([(''a'', Gray)], [''b'', ''a''])"
    and t2: "dfs_turn ?es [(''a'', Gray)] [''b'', ''a''] = Inl (Inl ''b -> a'')" by code_simp+
  have r: "findWorkUnitCycle ?es = Some ''b -> a''"
    by (simp add: findWorkUnitCycle_def dfs_again [OF t1] dfs_return [OF t2])
  from cycle_check_verdict [OF r] r show ?thesis by auto
qed

text \<open>The check ends on forests. When no unit is named twice as a dependency the search returns,
  and its answer is empty exactly when no unit is on a cycle.\<close>

theorem cycle_check_decides_forests:
  assumes "forest es"
  shows "\<exists>r. findWorkUnitCycle es = Some r \<and> (r = [] \<longleftrightarrow> (\<forall>n. \<not> on_cycle es n))"
proof -
  have "set (sort (map fst es)) \<subseteq> nodes es" by (auto simp: nodes_def)
  then obtain r where r: "findWorkUnitCycle es = Some r"
    using dfs_all_returns [OF assms start_inv] unfolding findWorkUnitCycle_def by blast
  have "r = [] \<longleftrightarrow> (\<forall>n. \<not> on_cycle es n)"
    using dfs_all_sound [OF r [unfolded findWorkUnitCycle_def] start_inv] deps_keys by (auto split: if_splits)
  with r show ?thesis by blast
qed

theorem cycle_check_decides_forests_witness:
  "\<exists>r. findWorkUnitCycle [(''a'', [''b'', ''c'']), (''c'', [''d''])] = Some r"
  using cycle_check_decides_forests [of "[(''a'', [''b'', ''c'']), (''c'', [''d''])]"]
  by (auto simp: forest_def)

text \<open>The check does not end on every graph without a cycle. Unit \<open>a\<close> depends on \<open>b\<close> and \<open>c\<close> and
  \<open>c\<close> depends on \<open>b\<close>, and nothing is on a cycle; \<open>b\<close> is pushed twice, and when the second copy comes
  to the top of the stack it is black and is never removed.\<close>

theorem cycle_check_hangs_on_a_diamond:
  "findWorkUnitCycle [(''a'', [''b'', ''c'']), (''c'', [''b''])] = None
   \<and> \<not> on_cycle [(''a'', [''b'', ''c'']), (''c'', [''b''])] n"
proof -
  let ?es = "[(''a'', [''b'', ''c'']), (''c'', [''b''])]"
  have t1: "dfs_turn ?es [] [''a''] = Inr ([(''a'', Gray)], [''c'', ''b'', ''a''])"
    and t2: "dfs_turn ?es [(''a'', Gray)] [''c'', ''b'', ''a''] =
        Inr ([(''a'', Gray), (''c'', Gray)], [''b'', ''c'', ''b'', ''a''])"
    and t3: "dfs_turn ?es [(''a'', Gray), (''c'', Gray)] [''b'', ''c'', ''b'', ''a''] =
        Inr ([(''a'', Gray), (''c'', Gray), (''b'', Black)], [''c'', ''b'', ''a''])"
    and t4: "dfs_turn ?es [(''a'', Gray), (''c'', Gray), (''b'', Black)] [''c'', ''b'', ''a''] =
        Inr ([(''a'', Gray), (''c'', Black), (''b'', Black)], [''b'', ''a''])" by code_simp+
  have "dfs ?es [] [''a''] = None"
    unfolding dfs_again [OF t1] dfs_again [OF t2] dfs_again [OF t3] dfs_again [OF t4]
    by (rule dfs_stuck) (simp add: color_of_def)
  then have "findWorkUnitCycle ?es = None" by (simp add: findWorkUnitCycle_def)
  moreover have "acyclic (edge_rel ?es)"
  proof -
    let ?rank = "\<lambda>n. if n = ''a'' then 2 else if n = ''c'' then 1 else (0::nat)"
    have "edge_rel ?es \<subseteq> (measure ?rank)\<inverse>" by (auto simp: edge_rel_def deps_of_def split: if_splits)
    then show ?thesis by (rule acyclic_subset [rotated]) (simp add: wf_acyclic)
  qed
  ultimately show ?thesis by (simp add: acyclic_def)
qed

end
