(* ===== verification/Store_WorkUnits.thy ===== *)
theory Store_WorkUnits
  imports Store_Attempts WorkUnit_Cycle "HOL-Library.Product_Lexorder"
begin

text \<open>
  Work units in the store (\<open>internal/state/workunits.go\<close>): the closed lifecycle, creation with its
  checks, the transitions and the recovery resets. A creation may not return, because its cycle
  check may not, so its result is an \<open>option\<close>. An omitted tool envelope (\<open>nil\<close>) is \<open>None\<close> and an
  empty one \<open>Some []\<close>.
\<close>

section \<open>Lifecycle\<close>

definition workUnitTransitions :: "(string \<times> string) list" where
  "workUnitTransitions =
     [(''created'', ''ready''), (''ready'', ''running''), (''running'', ''completed''), (''uncertain'', ''ready''),
      (''running'', ''failed''), (''running'', ''blocked''), (''running'', ''uncertain''), (''blocked'', ''ready''),
      (''running'', ''ready'')]"

definition WorkUnitStates :: "string list" where
  "WorkUnitStates = [''created'', ''ready'', ''running'', ''completed'', ''failed'', ''blocked'', ''uncertain'']"

record WorkUnitCreate =
  wc_TaskID :: string
  wc_WorkUnitID :: string
  wc_ParentWorkUnitID :: string
  wc_Objective :: string
  wc_Dependencies :: "string list"
  wc_Tools :: "string list option"
  wc_WorkspaceScope :: string
  wc_AcceptancePlan :: string
  wc_AcceptanceDigest :: string
  wc_ContextBudget :: int
  wc_ProviderBudget :: int
  wc_StepBudget :: int

definition tool_list :: "string list option \<Rightarrow> string list" where
  "tool_list ts = (case ts of None \<Rightarrow> [] | Some xs \<Rightarrow> xs)"

definition maxWorkUnitObjectiveBytes :: nat where "maxWorkUnitObjectiveBytes = 4096"
definition supportedWorkUnitVersion :: int where "supportedWorkUnitVersion = 1"

definition validateWorkUnitPlanShape :: "Codec \<Rightarrow> string \<Rightarrow> store_error option" where
  "validateWorkUnitPlanShape cx spec =
     (case cx_plan cx spec of
        Inl e \<Rightarrow> Some (WorkUnitInvalid e)
      | Inr (version, checks) \<Rightarrow>
          if version \<noteq> 1 then Some (WorkUnitInvalid ''unsupported version'')
          else if checks = [] then Some (WorkUnitInvalid ''no checks'')
          else if list_ex (\<lambda>(cid, typ). cid = [] \<or> typ = []) checks then Some (WorkUnitInvalid ''check requires id and type'')
          else None)"

definition ValidateWorkUnitCreate :: "Codec \<Rightarrow> WorkUnitCreate \<Rightarrow> store_error option" where
  "ValidateWorkUnitCreate cx r =
     (if is_blank (wc_TaskID r) then Some (WorkUnitInvalid ''work unit requires a task id'')
      else if is_blank (wc_WorkUnitID r) then Some (WorkUnitInvalid ''work unit requires a stable id'')
      else if is_blank (wc_Objective r) then Some (WorkUnitInvalid ''work unit requires a bounded objective'')
      else if length (wc_Objective r) > maxWorkUnitObjectiveBytes then Some (WorkUnitInvalid ''objective too long'')
      else if list_ex is_blank (tool_list (wc_Tools r)) then Some (WorkUnitInvalid ''empty tool id'')
      else if length (wc_Dependencies r) > 64 \<or> length (tool_list (wc_Tools r)) > 64
      then Some (WorkUnitInvalid ''lists exceed the bounded maximum'')
      else if wc_ContextBudget r < 0 \<or> wc_ProviderBudget r < 0 \<or> wc_StepBudget r < 0
      then Some (WorkUnitInvalid ''budgets must not be negative'')
      else if wc_AcceptancePlan r \<noteq> []
      then (case validateWorkUnitPlanShape cx (wc_AcceptancePlan r) of
          Some e \<Rightarrow> Some e
        | None \<Rightarrow> if is_blank (wc_AcceptanceDigest r) then Some (WorkUnitInvalid ''acceptance plan requires its digest'') else None)
      else None)"

definition has_unit :: "Store \<Rightarrow> string \<Rightarrow> string \<Rightarrow> bool" where
  "has_unit s task unit \<longleftrightarrow> affected (\<lambda>u. wu_WorkUnitID u = unit \<and> wu_TaskID u = task) (db_units s) = 1"

definition loadDependencyEdges :: "string \<Rightarrow> Store \<Rightarrow> edges" where
  "loadDependencyEdges task s =
     filter (\<lambda>(n, ds). ds \<noteq> [])
       (map (\<lambda>u. (wu_WorkUnitID u, map snd (filter (\<lambda>(w, d). w = wu_WorkUnitID u \<and> d \<noteq> []) (db_deps s))))
         (filter (\<lambda>u. wu_TaskID u = task) (db_units s)))"

definition creation_edges :: "WorkUnitCreate \<Rightarrow> Store \<Rightarrow> edges" where
  "creation_edges r s =
     map_put (wc_WorkUnitID r) (wc_Dependencies r @ [wc_ParentWorkUnitID r]) (loadDependencyEdges (wc_TaskID r) s)"

definition new_unit :: "Codec \<Rightarrow> WorkUnitCreate \<Rightarrow> string \<Rightarrow> WorkUnit" where
  "new_unit cx r now =
     \<lparr>wu_WorkUnitID = wc_WorkUnitID r, wu_TaskID = wc_TaskID r, wu_ParentWorkUnitID = cx_redact cx (wc_ParentWorkUnitID r),
      wu_Objective = cx_redact cx (wc_Objective r), wu_Status = ''created'', wu_Tools = cx_tools cx (wc_Tools r),
      wu_WorkspaceScope = cx_redact cx (wc_WorkspaceScope r), wu_AcceptancePlanSpec = cx_redact cx (wc_AcceptancePlan r),
      wu_AcceptanceDigest = cx_redact cx (wc_AcceptanceDigest r), wu_ContextBudget = wc_ContextBudget r,
      wu_ProviderBudget = wc_ProviderBudget r, wu_StepBudget = wc_StepBudget r, wu_EvidenceRefs = [],
      wu_FailureReason = [], wu_BlockingReason = [], wu_Version = 1, wu_CreatedAt = now, wu_UpdatedAt = now,
      wu_Dependencies = []\<rparr>"

text \<open>The statements after the cycle check. The work-unit id is a primary key across tasks, and so is
  the pair of a dependency.\<close>

definition insert_unit :: "Codec \<Rightarrow> WorkUnitCreate \<Rightarrow> Store \<Rightarrow> store_error + (string \<times> Store)" where
  "insert_unit cx r s =
     (if wc_WorkUnitID r \<in> set (map wu_WorkUnitID (db_units s)) then Inl (ConstraintViolated ''work_units'')
      else if \<not> distinct (wc_Dependencies r) then Inl (ConstraintViolated ''work_unit_dependencies'')
      else journal cx (wc_TaskID r) ''workunit_created''
        [(''work_unit_id'', JS (wc_WorkUnitID r)), (''parent'', JS (wc_ParentWorkUnitID r)),
         (''dependencies'', JL (wc_Dependencies r)), (''tools'', JL (tool_list (wc_Tools r)))] (wc_WorkUnitID r)
        (s\<lparr>db_units := db_units s @ [new_unit cx r (now_text cx s)],
           db_deps := db_deps s @ map (\<lambda>d. (wc_WorkUnitID r, d)) (wc_Dependencies r)\<rparr>))"

definition CreateWorkUnit :: "Codec \<Rightarrow> string option \<Rightarrow> WorkUnitCreate \<Rightarrow> Store \<Rightarrow> ((store_error + string) \<times> Store) option" where
  "CreateWorkUnit cx fault r s =
     (case ValidateWorkUnitCreate cx r of
        Some e \<Rightarrow> Some (Inl e, s)
      | None \<Rightarrow>
          if fault \<noteq> None then Some (transaction fault s (insert_unit cx r s))
          else if \<not> has_task s (wc_TaskID r) then Some (Inl (WorkUnitNotFound (wc_TaskID r)), s)
          else if wc_ParentWorkUnitID r \<noteq> [] \<and> \<not> has_unit s (wc_TaskID r) (wc_ParentWorkUnitID r)
          then Some (Inl (WorkUnitNotFound (wc_ParentWorkUnitID r)), s)
          else (case find (\<lambda>d. \<not> has_unit s (wc_TaskID r) d) (wc_Dependencies r) of
              Some d \<Rightarrow> Some (Inl (WorkUnitMissingDependency d), s)
            | None \<Rightarrow>
                (case findWorkUnitCycle (creation_edges r s) of
                   None \<Rightarrow> None
                 | Some cycle \<Rightarrow>
                     if cycle \<noteq> [] then Some (Inl (WorkUnitCycle cycle), s)
                     else Some (transaction fault s (insert_unit cx r s)))))"

section \<open>Reading\<close>

definition workUnitDependencies :: "string \<Rightarrow> Store \<Rightarrow> string list" where
  "workUnitDependencies unit s = sort (map snd (filter (\<lambda>(w, d). w = unit) (db_deps s)))"

definition with_deps :: "Store \<Rightarrow> WorkUnit \<Rightarrow> WorkUnit" where
  "with_deps s u = u\<lparr>wu_Dependencies := workUnitDependencies (wu_WorkUnitID u) s\<rparr>"

definition GetWorkUnit :: "string \<Rightarrow> string \<Rightarrow> Store \<Rightarrow> store_error + WorkUnit" where
  "GetWorkUnit task unit s =
     (case find (\<lambda>u. wu_WorkUnitID u = unit \<and> wu_TaskID u = task) (db_units s) of
        None \<Rightarrow> Inl (WorkUnitNotFound unit)
      | Some u \<Rightarrow> if wu_Version u \<noteq> supportedWorkUnitVersion then Inl (UnsupportedWorkUnitVersion unit (wu_Version u))
                  else Inr (with_deps s u))"

definition ListWorkUnits :: "string \<Rightarrow> Store \<Rightarrow> store_error + WorkUnit list" where
  "ListWorkUnits task s =
     (let rows = sort_key (\<lambda>u. (wu_CreatedAt u, wu_WorkUnitID u)) (filter (\<lambda>u. wu_TaskID u = task) (db_units s))
      in case find (\<lambda>u. wu_Version u \<noteq> supportedWorkUnitVersion) rows of
           Some u \<Rightarrow> Inl (UnsupportedWorkUnitVersion (wu_WorkUnitID u) (wu_Version u))
         | None \<Rightarrow> Inr (map (with_deps s) rows))"

definition unit_completed :: "WorkUnit list \<Rightarrow> string \<Rightarrow> bool" where
  "unit_completed units n \<longleftrightarrow> map_of (rev (map (\<lambda>u. (wu_WorkUnitID u, wu_Status u)) units)) n = Some ''completed''"

definition unit_ready :: "WorkUnit list \<Rightarrow> WorkUnit \<Rightarrow> bool" where
  "unit_ready units u \<longleftrightarrow>
     wu_Status u \<in> {''created'', ''ready''} \<and> list_all (unit_completed units) (wu_Dependencies u)
     \<and> (wu_ParentWorkUnitID u \<noteq> [] \<longrightarrow> unit_completed units (wu_ParentWorkUnitID u))"

definition ReadyWorkUnits :: "string \<Rightarrow> Store \<Rightarrow> store_error + WorkUnit list" where
  "ReadyWorkUnits task s =
     (case ListWorkUnits task s of Inl e \<Rightarrow> Inl e | Inr units \<Rightarrow> Inr (filter (unit_ready units) units))"

definition HasOpenWorkUnits :: "string \<Rightarrow> Store \<Rightarrow> bool" where
  "HasOpenWorkUnits task s \<longleftrightarrow> open_units s task \<noteq> []"

definition LatestWorkUnitVerification :: "string \<Rightarrow> string \<Rightarrow> Store \<Rightarrow> string option" where
  "LatestWorkUnitVerification task unit s =
     latest_decision (filter (\<lambda>v. ve_task_id v = task \<and> ve_work_unit_id v = unit) (db_verifications s))"

section \<open>Transitions\<close>

definition reasonFor :: "Codec \<Rightarrow> string \<Rightarrow> string \<Rightarrow> string \<Rightarrow> string" where
  "reasonFor cx to reason column =
     (if reason = [] then []
      else if column = ''failure'' \<and> to = ''failed'' then cx_redact cx reason
      else if column = ''blocking'' \<and> (to = ''blocked'' \<or> to = ''uncertain'') then cx_redact cx reason
      else [])"

definition workUnitEvidenceRefs :: "string \<Rightarrow> string \<Rightarrow> Store \<Rightarrow> string list" where
  "workUnitEvidenceRefs task unit s =
     sort (map (\<lambda>(r, t). rr_evidence_id r)
       (filter (\<lambda>(r, t). ta_execution_id t = rr_execution_id r \<and> ta_task_id t = task \<and> ta_work_unit_id t = unit)
         (List.product (db_tool_results s) (db_tool_attempts s))))"

definition transition_row :: "Codec \<Rightarrow> string \<Rightarrow> string \<Rightarrow> string \<Rightarrow> string list \<Rightarrow> WorkUnit \<Rightarrow> WorkUnit" where
  "transition_row cx to reason now evidence u =
     (let v = u\<lparr>wu_Status := to, wu_FailureReason := reasonFor cx to reason ''failure'',
                wu_BlockingReason := reasonFor cx to reason ''blocking'', wu_UpdatedAt := now\<rparr>
      in if to = ''completed'' then v\<lparr>wu_EvidenceRefs := evidence\<rparr> else v)"

definition transition_payload :: "string \<Rightarrow> string \<Rightarrow> string \<Rightarrow> string \<Rightarrow> (string \<times> jval) list" where
  "transition_payload unit from to reason =
     [(''work_unit_id'', JS unit), (''from'', JS from), (''to'', JS to), (''reason'', JS reason)]"

definition TransitionWorkUnit ::
  "Codec \<Rightarrow> string option \<Rightarrow> string \<Rightarrow> string \<Rightarrow> string \<Rightarrow> string \<Rightarrow> string \<Rightarrow> Store \<Rightarrow> (store_error + unit) \<times> Store" where
  "TransitionWorkUnit cx fault task unit from to reason s =
     (if from \<notin> set WorkUnitStates \<or> to \<notin> set WorkUnitStates \<or> (from, to) \<notin> set workUnitTransitions
      then (Inl (InvalidWorkUnitTransition from to), s)
      else transaction fault s
        (let P = (\<lambda>u. wu_WorkUnitID u = unit \<and> wu_TaskID u = task \<and> wu_Status u = from)
         in if affected P (db_units s) \<noteq> 1 then Inl (InvalidWorkUnitTransition from to)
            else journal cx task ''workunit_transition'' (transition_payload unit from to reason) ()
              (s\<lparr>db_units := update_where P
                 (transition_row cx to reason (now_text cx s) (workUnitEvidenceRefs task unit s)) (db_units s)\<rparr>)))"

text \<open>The recovery resets. All interrupted units of a task move in one transaction; uncertain units
  move one transaction each, and the failure of each is an argument.\<close>

fun reset_units :: "Codec \<Rightarrow> string \<Rightarrow> string \<Rightarrow> string list \<Rightarrow> Store \<Rightarrow> store_error + Store" where
  "reset_units cx task reason [] s = Inr s"
| "reset_units cx task reason (unit # units) s =
     (case journal cx task ''workunit_transition'' (transition_payload unit ''running'' ''ready'' reason) ()
        (s\<lparr>db_units := update_where (\<lambda>u. wu_WorkUnitID u = unit \<and> wu_TaskID u = task \<and> wu_Status u = ''running'')
           (\<lambda>u. u\<lparr>wu_Status := ''ready'', wu_UpdatedAt := now_text cx s\<rparr>) (db_units s)\<rparr>) of
        Inl e \<Rightarrow> Inl e
      | Inr (_, s') \<Rightarrow> reset_units cx task reason units s')"

definition ResetInterruptedWorkUnits ::
  "Codec \<Rightarrow> string option \<Rightarrow> string \<Rightarrow> string \<Rightarrow> Store \<Rightarrow> (store_error + nat) \<times> Store" where
  "ResetInterruptedWorkUnits cx fault task reason s = transaction fault s
     (let ids = map wu_WorkUnitID (filter (\<lambda>u. wu_TaskID u = task \<and> wu_Status u = ''running'') (db_units s))
      in case reset_units cx task reason ids s of Inl e \<Rightarrow> Inl e | Inr s' \<Rightarrow> Inr (length ids, s'))"

definition unresolved_attempts :: "string \<Rightarrow> string \<Rightarrow> Store \<Rightarrow> nat" where
  "unresolved_attempts task unit s =
     affected (\<lambda>t. ta_task_id t = task \<and> ta_work_unit_id t = unit
         \<and> ta_status t \<notin> {''completed'', ''failed'', ''reconciled'', ''canceled''}) (db_tool_attempts s)"

fun reconcile_units ::
  "Codec \<Rightarrow> (string \<Rightarrow> string option) \<Rightarrow> string \<Rightarrow> string \<Rightarrow> WorkUnit list \<Rightarrow> nat \<Rightarrow> Store \<Rightarrow> (store_error + nat) \<times> Store" where
  "reconcile_units cx fault task reason [] changed s = (Inr changed, s)"
| "reconcile_units cx fault task reason (u # us) changed s =
     (if wu_Status u \<noteq> ''uncertain'' \<or> 0 < unresolved_attempts task (wu_WorkUnitID u) s
      then reconcile_units cx fault task reason us changed s
      else (case TransitionWorkUnit cx (fault (wu_WorkUnitID u)) task (wu_WorkUnitID u) ''uncertain'' ''ready'' reason s of
          (Inl e, s') \<Rightarrow> (Inl e, s')
        | (Inr _, s') \<Rightarrow> reconcile_units cx fault task reason us (Suc changed) s'))"

definition ReconcileUncertainWorkUnits ::
  "Codec \<Rightarrow> (string \<Rightarrow> string option) \<Rightarrow> string \<Rightarrow> string \<Rightarrow> Store \<Rightarrow> (store_error + nat) \<times> Store" where
  "ReconcileUncertainWorkUnits cx fault task reason s =
     (case ListWorkUnits task s of
        Inl e \<Rightarrow> (Inl e, s)
      | Inr units \<Rightarrow> reconcile_units cx fault task reason units 0 s)"

end
