(* ===== verification/Store_System.thy ===== *)
theory Store_System
  imports Store_WorkUnits Transition
begin

text \<open>
  The store as a transition system: every operation that writes is a step, with any arguments and
  any database failure. The main invariant is the discipline of the journal: the statuses of tasks
  and of work units are exactly what replaying the journal gives.
\<close>

section \<open>Replaying the journal\<close>

fun replay :: "(event \<Rightarrow> (string \<times> string) option) \<Rightarrow> event list \<Rightarrow> string \<Rightarrow> string option" where
  "replay sets [] = Map.empty"
| "replay sets (e # es) =
     (case sets e of None \<Rightarrow> replay sets es
      | Some (k, v) \<Rightarrow> (\<lambda>n. case replay sets es n of Some w \<Rightarrow> Some w | None \<Rightarrow> if n = k then Some v else None))"

lemma replay_snoc:
  "replay sets (es @ [e]) = (case sets e of None \<Rightarrow> replay sets es | Some (k, v) \<Rightarrow> (replay sets es)(k \<mapsto> v))"
  by (induction es) (auto simp: fun_eq_iff split: option.splits prod.splits)

definition field :: "event \<Rightarrow> string \<Rightarrow> string" where
  "field e name = (case map_of (ev_payload e) name of Some (JS v) \<Rightarrow> v | _ \<Rightarrow> [])"

definition unit_sets :: "event \<Rightarrow> (string \<times> string) option" where
  "unit_sets e =
     (if ev_kind e = ''workunit_created'' then Some (field e ''work_unit_id'', ''created'')
      else if ev_kind e = ''workunit_transition'' then Some (field e ''work_unit_id'', field e ''to'')
      else None)"

definition task_sets :: "event \<Rightarrow> (string \<times> string) option" where
  "task_sets e =
     (if ev_kind e = ''task_created'' then Some (ev_task_id e, ''planned'')
      else if ev_kind e \<in> {''task_started'', ''recovery_started'', ''task_verification_paused'', ''task_persistence_paused''}
      then Some (ev_task_id e, ''running'')
      else if ev_kind e = ''task_human_review_required'' then Some (ev_task_id e, ''human_review_required'')
      else if ev_kind e = ''task_finalized'' then Some (ev_task_id e, field e ''status'')
      else None)"

definition unit_kinds :: "string set" where
  "unit_kinds = {''workunit_created'', ''workunit_transition''}"
definition task_kinds :: "string set" where
  "task_kinds = {''task_created'', ''task_started'', ''recovery_started'', ''task_verification_paused'',
     ''task_persistence_paused'', ''task_human_review_required'', ''task_finalized''}"

text \<open>The kinds the recovery component appends (\<open>recovery/recovery.go\<close> 302, 369 and 384).\<close>

definition recovery_kinds :: "string set" where
  "recovery_kinds = {''recovery_blocked'', ''recovery_context_reconstructed'', ''recovery_continued''}"

text \<open>A table is projected from the journal when its keys are distinct and replaying gives the status
  of every key.\<close>

definition projected ::
  "('r \<Rightarrow> string) \<Rightarrow> ('r \<Rightarrow> string) \<Rightarrow> (event \<Rightarrow> (string \<times> string) option) \<Rightarrow> 'r list \<Rightarrow> event list \<Rightarrow> bool" where
  "projected key status sets rows es \<longleftrightarrow>
     distinct (map key rows) \<and> map_of (map (\<lambda>r. (key r, status r)) rows) = replay sets es"

lemma map_pair_zip: "map (\<lambda>r. (f r, g r)) xs = zip (map f xs) (map g xs)"
  by (induction xs) auto

lemma option_ext: "(\<And>w. a = Some w \<longleftrightarrow> b = Some w) \<Longrightarrow> a = b"
  by (cases a; cases b) auto

locale projection =
  fixes key :: "'r \<Rightarrow> string" and status :: "'r \<Rightarrow> string"
    and sets :: "event \<Rightarrow> (string \<times> string) option" and kinds :: "string set"
  assumes other_kinds: "ev_kind e \<notin> kinds \<Longrightarrow> sets e = None"
begin

lemma keep:
  assumes "projected key status sets rows es" "map key rows' = map key rows" "map status rows' = map status rows"
    and "es' = es \<or> (\<exists>e. es' = es @ [e] \<and> ev_kind e \<notin> kinds)"
  shows "projected key status sets rows' es'"
proof -
  have "map (\<lambda>r. (key r, status r)) rows' = map (\<lambda>r. (key r, status r)) rows"
    using assms(2,3) by (simp add: map_pair_zip)
  then show ?thesis using assms(1,2,4) other_kinds by (auto simp: projected_def replay_snoc)
qed

lemma insert:
  assumes "projected key status sets rows es" "key r \<notin> set (map key rows)" "sets e = Some (key r, status r)"
  shows "projected key status sets (rows @ [r]) (es @ [e])"
proof -
  have new: "map_of (map (\<lambda>r. (key r, status r)) rows) (key r) = None"
    using assms(2) by (simp add: map_of_eq_None_iff image_image)
  have "map_of (map (\<lambda>r. (key r, status r)) (rows @ [r])) = (map_of (map (\<lambda>r. (key r, status r)) rows))(key r \<mapsto> status r)"
    using new by (auto simp: fun_eq_iff map_add_def split: option.splits)
  then show ?thesis using assms by (simp add: projected_def replay_snoc)
qed

lemma update:
  assumes "projected key status sets rows es" "affected P rows \<noteq> 0" "\<And>r. P r \<Longrightarrow> key r = k"
    and "\<And>r. key (f r) = key r" "\<And>r. P r \<Longrightarrow> status (f r) = v" "sets e = Some (k, v)"
  shows "projected key status sets (update_where P f rows) (es @ [e])"
proof -
  have keys: "map key (update_where P f rows) = map key rows" using assms(4) by (rule map_update_where)
  obtain q where q: "q \<in> set rows" "P q" using assms(2) by (auto simp: affected_zero)
  have dist: "distinct (map key rows)" using assms(1) by (simp add: projected_def)
  have "map_of (map (\<lambda>r. (key r, status r)) (update_where P f rows)) =
      (map_of (map (\<lambda>r. (key r, status r)) rows))(k \<mapsto> v)" (is "?l = ?r")
  proof
    fix n
    have d: "distinct (map fst (map (\<lambda>r. (key r, status r)) (update_where P f rows)))"
      "distinct (map fst (map (\<lambda>r. (key r, status r)) rows))"
      using dist keys by (simp_all add: comp_def)
    show "?l n = ?r n"
    proof (cases "n = k")
      case True
      have "(k, v) \<in> set (map (\<lambda>r. (key r, status r)) (update_where P f rows))"
      proof -
        have "f q \<in> set (update_where P f rows)" using q by (auto simp: in_update_where)
        then show ?thesis using q assms(3-5) by (auto intro!: rev_image_eqI)
      qed
      then show ?thesis using True d(1) by (simp add: map_of_eq_Some_iff)
    next
      case False
      have "?l n = Some w \<longleftrightarrow> map_of (map (\<lambda>r. (key r, status r)) rows) n = Some w" for w
      proof -
        have "(n, w) \<in> set (map (\<lambda>r. (key r, status r)) (update_where P f rows))
            \<longleftrightarrow> (n, w) \<in> set (map (\<lambda>r. (key r, status r)) rows)"
          using False assms(3,4) unfolding update_where_def by (auto simp: image_iff split: if_splits)
        then show ?thesis unfolding map_of_eq_Some_iff [OF d(1)] map_of_eq_Some_iff [OF d(2)] .
      qed
      then have "?l n = map_of (map (\<lambda>r. (key r, status r)) rows) n" by (rule option_ext)
      then show ?thesis using False by simp
    qed
  qed
  then show ?thesis using assms(1,6) keys by (simp add: projected_def replay_snoc)
qed

end

interpretation units: projection wu_WorkUnitID wu_Status unit_sets unit_kinds
  by unfold_locales (simp add: unit_sets_def unit_kinds_def)

interpretation tasks: projection tk_task_id tk_status task_sets task_kinds
  by unfold_locales (simp add: task_sets_def task_kinds_def)

section \<open>Quiet operations\<close>

text \<open>Operations that leave tasks, work units and dependencies alone and journal nothing about them.\<close>

definition silent :: "Store \<Rightarrow> Store \<Rightarrow> bool" where
  "silent s s' \<longleftrightarrow> db_tasks s' = db_tasks s \<and> db_units s' = db_units s \<and> db_deps s' = db_deps s
     \<and> (db_events s' = db_events s
        \<or> (\<exists>e. db_events s' = db_events s @ [e] \<and> ev_kind e \<notin> unit_kinds \<union> task_kinds))"

lemma silent_refl [simp]: "silent s s"
  by (simp add: silent_def)

lemma silent_journal:
  assumes "transaction fault s body = (r, s')" "\<And>x t. body = Inr (x, t) \<Longrightarrow> silent s t"
  shows "silent s s'"
  using assms(1) by (rule transaction_cases) (use assms(2) in auto)

lemma journal_silent:
  assumes "journal cx task kind payload x t = Inr (y, t')" "kind \<notin> unit_kinds \<union> task_kinds"
    and "db_tasks t = db_tasks s" "db_units t = db_units s" "db_deps t = db_deps s" "db_events t = db_events s"
  shows "silent s t'"
  using assms by (auto simp: journal_def silent_def split: if_splits)

lemmas kinds_defs = unit_kinds_def task_kinds_def

lemma decisions_silent:
  "RecordWritePolicyDecision cx fault d s = (r, s') \<Longrightarrow> silent s s'"
  "RecordRecipePolicyDecision cx fault d s = (r, s') \<Longrightarrow> silent s s'"
  unfolding RecordWritePolicyDecision_def RecordRecipePolicyDecision_def
  by (erule silent_journal, erule journal_silent; simp add: kinds_defs insert_decision_def)+

lemma verification_silent:
  "SaveVerificationAttempt cx fault v s = (r, s') \<Longrightarrow> silent s s'"
  "SaveAcceptancePlan cx fault task plan digest s = (q, s') \<Longrightarrow> silent s s'"
  "SaveWorkspaceBaseline cx fault task a b c d s = (q, s') \<Longrightarrow> silent s s'"
  unfolding SaveVerificationAttempt_def SaveAcceptancePlan_def SaveWorkspaceBaseline_def
  by (erule silent_journal, auto simp: Let_def nextIdentity_def kinds_defs split: if_splits elim!: journal_silent)+

lemma RecordApproval_silent: "RecordApproval cx fault a s = (r, s') \<Longrightarrow> silent s s'"
  unfolding RecordApproval_def
  by (erule silent_journal) (auto simp: Let_def kinds_defs split: option.splits if_splits sum.splits elim!: journal_silent)

lemma actions_silent:
  "RecordAction cx fault a s = (r, s') \<Longrightarrow> silent s s'"
  "RejectAction cx fault task action reason s = (q, s') \<Longrightarrow> silent s s'"
  "PrepareToolAttempt cx fault t s = (r, s') \<Longrightarrow> silent s s'"
  unfolding RecordAction_def RejectAction_def PrepareToolAttempt_def
  by (erule silent_journal, auto simp: Let_def nextIdentity_def kinds_defs split: if_splits elim!: journal_silent)+

lemma settle_action_frame [simp]:
  "db_tasks (settle_action e st s) = db_tasks s" "db_units (settle_action e st s) = db_units s"
  "db_deps (settle_action e st s) = db_deps s" "db_events (settle_action e st s) = db_events s"
  by (simp_all add: settle_action_def)

lemma insert_result_frame:
  "insert_result row s = Inr s' \<Longrightarrow> db_tasks s' = db_tasks s \<and> db_units s' = db_units s \<and> db_deps s' = db_deps s
     \<and> db_events s' = db_events s"
  by (auto simp: insert_result_def split: if_splits)

lemma CompleteToolAttempt_silent: "CompleteToolAttempt cx fault t s = (r, s') \<Longrightarrow> silent s s'"
  unfolding CompleteToolAttempt_def
  by (erule silent_journal)
    (auto simp: Let_def kinds_defs split: if_splits sum.splits elim!: journal_silent dest!: insert_result_frame)

lemma reconciliations_silent:
  "ReconcileToolAttempt cx fault t s = (r, s') \<Longrightarrow> silent s s'"
  "ReconcileWriteAttempt cx fault t e d m s = (r, s') \<Longrightarrow> silent s s'"
  unfolding ReconcileToolAttempt_def ReconcileWriteAttempt_def
  by (erule silent_journal,
      auto simp: Let_def kinds_defs split: if_splits sum.splits elim!: journal_silent dest!: insert_result_frame)+

lemma insert_receipts_frame:
  "insert_receipts task e rs s = Inr s' \<Longrightarrow> db_tasks s' = db_tasks s \<and> db_units s' = db_units s \<and> db_deps s' = db_deps s
     \<and> db_events s' = db_events s"
  by (induction task e rs s rule: insert_receipts.induct) (auto split: option.splits if_splits)

lemma debit_frame:
  assumes "applyConservativeGovernorDebit cx wall task at s = Inr s'"
  shows "db_tasks s' = db_tasks s" "db_units s' = db_units s" "db_deps s' = db_deps s" "db_events s' = db_events s"
  using debit_save [OF assms] save_frame by blast+

lemma RecordProviderPrepared_silent: "RecordProviderPrepared cx fault p s = (r, s') \<Longrightarrow> silent s s'"
  unfolding RecordProviderPrepared_def
  by (erule silent_journal)
    (auto simp: Let_def nextIdentity_def kinds_defs save_frame split: if_splits sum.splits elim!: journal_silent)

lemma RecordProviderFinished_silent: "RecordProviderFinished cx fault f s = (r, s') \<Longrightarrow> silent s s'"
  unfolding RecordProviderFinished_def Let_def
proof (erule silent_journal, goal_cases)
  case (1 x t)
  then show ?case
    by (auto simp: kinds_defs save_frame split: sum.splits if_splits elim!: journal_silent dest!: insert_receipts_frame)
qed

lemma ReconcileProviderAttempt_silent: "ReconcileProviderAttempt cx fault wall q s = (r, s') \<Longrightarrow> silent s s'"
  unfolding ReconcileProviderAttempt_def Let_def
  by (erule silent_journal)
    (auto simp: kinds_defs debit_frame split: if_splits sum.splits elim!: journal_silent)


section \<open>The transition system\<close>

inductive store_step :: "Codec \<Rightarrow> Store \<Rightarrow> Store \<Rightarrow> bool" for cx where
  create_task: "CreateTask cx fault t s = (r, s') \<Longrightarrow> store_step cx s s'"
| start_task: "StartTask cx fault task s = (r, s') \<Longrightarrow> store_step cx s s'"
| finalize_task: "FinalizeTask cx fault f s = (r, s') \<Longrightarrow> store_step cx s s'"
| approval_pause: "MarkTaskApprovalRequired cx fault task action reason s = (r, s') \<Longrightarrow> store_step cx s s'"
| verification_pause: "MarkTaskVerificationPaused cx fault task reason s = (r, s') \<Longrightarrow> store_step cx s s'"
| persistence_pause: "MarkTaskPersistencePaused cx fault task reason s = (r, s') \<Longrightarrow> store_step cx s s'"
| recovery_start: "MarkRecoveryStarted cx fault task reason s = (r, s') \<Longrightarrow> store_step cx s s'"
| human_review: "MarkHumanReviewRequired cx fault task reason attempts s = (r, s') \<Longrightarrow> store_step cx s s'"
| recovery_event: "AppendRecoveryEvent cx fault task kind payload s = (r, s') \<Longrightarrow>
    kind \<in> recovery_kinds \<Longrightarrow> store_step cx s s'"
| save_verification: "SaveVerificationAttempt cx fault v s = (r, s') \<Longrightarrow> store_step cx s s'"
| save_plan: "SaveAcceptancePlan cx fault task plan digest s = (r, s') \<Longrightarrow> store_step cx s s'"
| save_baseline: "SaveWorkspaceBaseline cx fault task gs gd st dt s = (r, s') \<Longrightarrow> store_step cx s s'"
| write_decision: "RecordWritePolicyDecision cx fault d s = (r, s') \<Longrightarrow> store_step cx s s'"
| recipe_decision: "RecordRecipePolicyDecision cx fault d s = (r, s') \<Longrightarrow> store_step cx s s'"
| record_approval: "RecordApproval cx fault a s = (q, s') \<Longrightarrow> store_step cx s s'"
| record_action: "RecordAction cx fault act s = (q, s') \<Longrightarrow> store_step cx s s'"
| reject_action: "RejectAction cx fault task action reason s = (r, s') \<Longrightarrow> store_step cx s s'"
| prepare_tool: "PrepareToolAttempt cx fault tp s = (q, s') \<Longrightarrow> store_step cx s s'"
| complete_tool: "CompleteToolAttempt cx fault tc s = (r, s') \<Longrightarrow> store_step cx s s'"
| reconcile_tool: "ReconcileToolAttempt cx fault rc s = (r, s') \<Longrightarrow> store_step cx s s'"
| reconcile_write: "ReconcileWriteAttempt cx fault rc evidence data metadata s = (r, s') \<Longrightarrow> store_step cx s s'"
| provider_prepared: "RecordProviderPrepared cx fault pp s = (r, s') \<Longrightarrow> store_step cx s s'"
| provider_finished: "RecordProviderFinished cx fault pf s = (r, s') \<Longrightarrow> store_step cx s s'"
| reconcile_provider: "ReconcileProviderAttempt cx fault wall rp s = (r, s') \<Longrightarrow> store_step cx s s'"
| create_unit: "CreateWorkUnit cx fault wc s = Some (q, s') \<Longrightarrow> store_step cx s s'"
| transition_unit: "TransitionWorkUnit cx fault task u from to reason s = (r, s') \<Longrightarrow> store_step cx s s'"
| reset_units: "ResetInterruptedWorkUnits cx fault task reason s = (n, s') \<Longrightarrow> store_step cx s s'"
| reconcile_units: "ReconcileUncertainWorkUnits cx faults task reason s = (n, s') \<Longrightarrow> store_step cx s s'"
| tick: "store_step cx s (s\<lparr>db_clock := t\<rparr>)"

definition empty_store :: Store where
  "empty_store = \<lparr>db_tasks = [], db_actions = [], db_tool_attempts = [], db_tool_results = [], db_provider_attempts = [],
     db_receipts = [], db_decisions = [], db_approvals = [], db_plans = [], db_baselines = [], db_verifications = [],
     db_units = [], db_deps = [], db_governor = None, db_ledger = [], db_task_states = [], db_request_records = [],
     db_attempt_ids = [], db_rate_events = [], db_events = [], db_identity = 0, db_clock = 0\<rparr>"

abbreviation store_init :: "Store \<Rightarrow> bool" where "store_init s \<equiv> s = empty_store"

definition deps_ok :: "Store \<Rightarrow> bool" where
  "deps_ok s \<longleftrightarrow> acyclic (set (db_deps s))
     \<and> (\<forall>(u, d) \<in> set (db_deps s). u \<in> set (map wu_WorkUnitID (db_units s)) \<and> d \<in> set (map wu_WorkUnitID (db_units s)))"

definition store_inv :: "Store \<Rightarrow> bool" where
  "store_inv s \<longleftrightarrow> projected wu_WorkUnitID wu_Status unit_sets (db_units s) (db_events s)
     \<and> projected tk_task_id tk_status task_sets (db_tasks s) (db_events s) \<and> deps_ok s"

lemma silent_inv:
  assumes "silent s s'" "store_inv s"
  shows "store_inv s'"
proof -
  have same: "db_tasks s' = db_tasks s" "db_units s' = db_units s" "db_deps s' = db_deps s"
    and ev: "db_events s' = db_events s \<or> (\<exists>e. db_events s' = db_events s @ [e] \<and> ev_kind e \<notin> unit_kinds)"
      "db_events s' = db_events s \<or> (\<exists>e. db_events s' = db_events s @ [e] \<and> ev_kind e \<notin> task_kinds)"
    using assms(1) by (auto simp: silent_def)
  have "projected wu_WorkUnitID wu_Status unit_sets (db_units s) (db_events s)"
    "projected tk_task_id tk_status task_sets (db_tasks s) (db_events s)" "deps_ok s"
    using assms(2) by (auto simp: store_inv_def)
  then show ?thesis
    using units.keep [OF _ refl refl ev(1)] tasks.keep [OF _ refl refl ev(2)] same
    unfolding store_inv_def deps_ok_def by metis
qed

text \<open>A task operation: the work units stay, and the tasks remain projected from the journal.\<close>

lemma task_step_inv:
  assumes "store_inv s" "db_units s' = db_units s" "db_deps s' = db_deps s"
    and "\<exists>e. db_events s' = db_events s @ [e] \<and> ev_kind e \<notin> unit_kinds"
    and "projected tk_task_id tk_status task_sets (db_tasks s') (db_events s')"
  shows "store_inv s'"
proof -
  have "projected wu_WorkUnitID wu_Status unit_sets (db_units s) (db_events s)" "deps_ok s"
    using assms(1) by (auto simp: store_inv_def)
  then show ?thesis using units.keep [OF _ refl refl disjI2 [OF assms(4)]] assms(2,3,5)
    by (simp add: store_inv_def deps_ok_def)
qed

text \<open>An operation that updates task rows and journals the status they get.\<close>

lemma task_update_inv:
  assumes "transaction fault s (if affected P (db_tasks s) = 0 then Inl err
       else journal cx task kind payload x (s\<lparr>db_tasks := update_where P f (db_tasks s)\<rparr>)) = (r, s')"
    and "store_inv s" "\<And>q. P q \<Longrightarrow> tk_task_id q = task" "\<And>q. tk_task_id (f q) = tk_task_id q" "\<And>q. tk_status (f q) = v"
    and "kind \<notin> unit_kinds"
    and "\<And>e. ev_kind e = kind \<Longrightarrow> ev_task_id e = task \<Longrightarrow> ev_payload e = payload \<Longrightarrow> task_sets e = Some (task, v)"
  shows "store_inv s'"
  using assms(1)
proof (cases rule: transaction_cases)
  case (committed y)
  then have a: "affected P (db_tasks s) \<noteq> 0"
    and s': "s' = appendEvent cx task kind payload (s\<lparr>db_tasks := update_where P f (db_tasks s)\<rparr>)"
    by (auto simp: journal_def split: if_splits)
  let ?e = "\<lparr>ev_task_id = task,
     ev_sequence = next_sequence (map ev_sequence (filter (\<lambda>e. ev_task_id e = task) (db_events s))),
     ev_kind = kind, ev_payload = payload, ev_created_at = now_text cx s\<rparr>"
  have p: "projected tk_task_id tk_status task_sets (db_tasks s) (db_events s)" using assms(2) by (simp add: store_inv_def)
  have "task_sets ?e = Some (task, v)" by (rule assms(7)) simp_all
  from tasks.update [OF p a assms(3) assms(4) assms(5) this]
  have "projected tk_task_id tk_status task_sets (db_tasks s') (db_events s')"
    unfolding s' by (simp add: now_text_def)
  moreover have "db_units s' = db_units s" "db_deps s' = db_deps s" "db_events s' = db_events s @ [?e]"
    by (simp_all add: s' now_text_def)
  moreover have "\<exists>e. db_events s @ [?e] = db_events s @ [e] \<and> ev_kind e \<notin> unit_kinds" using assms(6) by simp
  ultimately show ?thesis using task_step_inv [OF assms(2)] by metis
qed (use assms(2) in simp)

lemma task_operations_inv:
  assumes "store_inv s"
  shows "StartTask cx fault task s = (r, s') \<Longrightarrow> store_inv s'"
    "MarkTaskVerificationPaused cx fault task reason s = (r, s') \<Longrightarrow> store_inv s'"
    "MarkTaskPersistencePaused cx fault task reason s = (r, s') \<Longrightarrow> store_inv s'"
    "MarkRecoveryStarted cx fault task reason s = (r, s') \<Longrightarrow> store_inv s'"
    "MarkHumanReviewRequired cx fault task reason attempts s = (r, s') \<Longrightarrow> store_inv s'"
  unfolding StartTask_def MarkTaskVerificationPaused_def MarkTaskPersistencePaused_def MarkRecoveryStarted_def
    MarkHumanReviewRequired_def Let_def
  by (erule task_update_inv [OF _ assms, where v = "''running''"] task_update_inv [OF _ assms, where v = "''human_review_required''"];
      simp add: pausable_def unit_kinds_def task_sets_def; fail)+

lemma FinalizeTask_inv:
  assumes "FinalizeTask cx fault f s = (r, s')" "store_inv s"
  shows "store_inv s'"
proof (cases "if terminalStatus (tf_Outcome f) = ''completed'' then completion_gate (tf_TaskID f) s else None")
  case None
  show ?thesis
    using assms(1) unfolding FinalizeTask_def Let_def None option.case
    by (rule task_update_inv [OF _ assms(2), where v = "terminalStatus (tf_Outcome f)"])
      (simp_all add: unit_kinds_def task_sets_def field_def)
next
  case (Some e)
  then show ?thesis using assms by (auto simp: FinalizeTask_def Let_def transaction_def split: option.splits)
qed

lemma MarkTaskApprovalRequired_inv:
  assumes "MarkTaskApprovalRequired cx fault task action reason s = (r, s')" "store_inv s"
  shows "store_inv s'"
  using assms(1) unfolding MarkTaskApprovalRequired_def Let_def
proof (cases rule: transaction_cases)
  case (committed x)
  then have ev: "\<exists>e. db_events s' = db_events s @ [e] \<and> ev_kind e \<notin> unit_kinds"
    "\<exists>e. db_events s' = db_events s @ [e] \<and> ev_kind e \<notin> task_kinds"
    and same: "db_units s' = db_units s" "db_deps s' = db_deps s"
      "map tk_task_id (db_tasks s') = map tk_task_id (db_tasks s)" "map tk_status (db_tasks s') = map tk_status (db_tasks s)"
    by (auto simp: journal_def kinds_defs intro!: map_update_where split: if_splits)
  have "projected tk_task_id tk_status task_sets (db_tasks s) (db_events s)" using assms(2) by (simp add: store_inv_def)
  from tasks.keep [OF this same(3,4) disjI2 [OF ev(2)]] show ?thesis
    by (rule task_step_inv [OF assms(2) same(1,2) ev(1)])
qed (use assms(2) in simp)

lemma CreateTask_inv:
  assumes "CreateTask cx fault t s = (r, s')" "store_inv s"
  shows "store_inv s'"
proof (cases "s' = s")
  case False
  let ?row = "new_task cx t (now_text cx s)"
  from False have new: "\<not> has_task s (tc_TaskID t)"
    and s': "s' = appendEvent cx (tc_TaskID t) ''task_created'' [(''status'', JS ''planned'')] (s\<lparr>db_tasks := db_tasks s @ [?row]\<rparr>)"
    using assms(1) by (auto simp: CreateTask_def transaction_def journal_def split: option.splits if_splits)
  have row: "tk_task_id ?row = tc_TaskID t" "tk_status ?row = ''planned''" by (simp_all add: new_task_def)
  let ?e = "last (db_events s')"
  have e: "db_events s' = db_events s @ [?e]" "task_sets ?e = Some (tk_task_id ?row, tk_status ?row)" "ev_kind ?e = ''task_created''"
    by (simp_all add: s' task_sets_def row)
  have p: "projected tk_task_id tk_status task_sets (db_tasks s) (db_events s)" using assms(2) by (simp add: store_inv_def)
  have fresh: "tk_task_id ?row \<notin> set (map tk_task_id (db_tasks s))" using new row by (simp add: has_task_def)
  from tasks.insert [OF p this e(2)] have q: "projected tk_task_id tk_status task_sets (db_tasks s') (db_events s')"
    using e(1) by (simp add: s')
  have "\<exists>e. db_events s' = db_events s @ [e] \<and> ev_kind e \<notin> unit_kinds"
    using e by (intro exI [of _ ?e]) (simp add: unit_kinds_def)
  from task_step_inv [OF assms(2) _ _ this q] show ?thesis by (simp add: s')
qed (use assms(2) in simp)

section \<open>Work-unit operations\<close>

lemma acyclic_fresh:
  assumes "acyclic R" "u \<notin> Range R" "u \<notin> D" "finite D"
  shows "acyclic (R \<union> (\<lambda>d. (u, d)) ` D)"
  using assms(4,3)
proof (induction D)
  case empty
  then show ?case using assms(1) by simp
next
  case (insert d D)
  let ?R = "R \<union> (\<lambda>d. (u, d)) ` D"
  have "(d, u) \<notin> ?R\<^sup>*"
  proof
    assume "(d, u) \<in> ?R\<^sup>*"
    then show False
      by (cases rule: rtranclE) (use insert.prems assms(2) in auto)
  qed
  then show ?case using insert by simp
qed

lemma transition_row_frame [simp]:
  "wu_WorkUnitID (transition_row cx to reason now ev u) = wu_WorkUnitID u"
  "wu_TaskID (transition_row cx to reason now ev u) = wu_TaskID u"
  "wu_Status (transition_row cx to reason now ev u) = to"
  by (simp_all add: transition_row_def Let_def)

text \<open>What a committed transition did.\<close>

lemma TransitionWorkUnit_cases:
  assumes "TransitionWorkUnit cx fault task unit from to reason s = (r, s')"
  obtains (refused) e where "r = Inl e" "s' = s"
  | (moved) P where "r = Inr ()" "(from, to) \<in> set workUnitTransitions"
      "P = (\<lambda>u. wu_WorkUnitID u = unit \<and> wu_TaskID u = task \<and> wu_Status u = from)" "affected P (db_units s) = 1"
      "s' = appendEvent cx task ''workunit_transition'' (transition_payload unit from to reason)
        (s\<lparr>db_units := update_where P
           (transition_row cx to reason (now_text cx s) (workUnitEvidenceRefs task unit s)) (db_units s)\<rparr>)"
proof (cases "from \<notin> set WorkUnitStates \<or> to \<notin> set WorkUnitStates \<or> (from, to) \<notin> set workUnitTransitions")
  case True
  have "TransitionWorkUnit cx fault task unit from to reason s = (Inl (InvalidWorkUnitTransition from to), s)"
    unfolding TransitionWorkUnit_def by (rule if_P [OF True])
  then show ?thesis using assms by (intro refused) simp_all
next
  case False
  let ?P = "\<lambda>u. wu_WorkUnitID u = unit \<and> wu_TaskID u = task \<and> wu_Status u = from"
  from assms show ?thesis
    unfolding TransitionWorkUnit_def if_not_P [OF False] Let_def
  proof (cases rule: transaction_cases)
    case (committed x)
    then show ?thesis using False by (intro moved [of ?P]) (simp_all add: journal_def split: if_splits)
  qed (rule refused)
qed

lemma unit_step_inv:
  assumes "store_inv s" "db_tasks s' = db_tasks s" "db_deps s' = db_deps s"
    and "map wu_WorkUnitID (db_units s') = map wu_WorkUnitID (db_units s)"
    and "\<exists>e. db_events s' = db_events s @ [e] \<and> ev_kind e \<notin> task_kinds"
    and "projected wu_WorkUnitID wu_Status unit_sets (db_units s') (db_events s')"
  shows "store_inv s'"
proof -
  have "projected tk_task_id tk_status task_sets (db_tasks s) (db_events s)" "deps_ok s"
    using assms(1) by (auto simp: store_inv_def)
  then show ?thesis using tasks.keep [OF _ refl refl disjI2 [OF assms(5)]] assms(2-4,6)
    unfolding store_inv_def deps_ok_def by metis
qed

lemma unit_update_inv:
  assumes "store_inv s" "affected P (db_units s) \<noteq> 0" "\<And>u. P u \<Longrightarrow> wu_WorkUnitID u = unit"
    and "\<And>u. wu_WorkUnitID (f u) = wu_WorkUnitID u" "\<And>u. wu_Status (f u) = to"
    and "s' = appendEvent cx task ''workunit_transition'' (transition_payload unit from to reason)
        (s\<lparr>db_units := update_where P f (db_units s)\<rparr>)"
  shows "store_inv s'"
proof -
  let ?e = "last (db_events s')"
  have e: "db_events s' = db_events s @ [?e]" "unit_sets ?e = Some (unit, to)" "ev_kind ?e = ''workunit_transition''"
    by (simp_all add: assms(6) unit_sets_def field_def transition_payload_def)
  have p: "projected wu_WorkUnitID wu_Status unit_sets (db_units s) (db_events s)" using assms(1) by (simp add: store_inv_def)
  from units.update [OF p assms(2,3,4,5) e(2)]
  have q: "projected wu_WorkUnitID wu_Status unit_sets (db_units s') (db_events s')" using e(1) by (simp add: assms(6))
  have "map wu_WorkUnitID (db_units s') = map wu_WorkUnitID (db_units s)"
    using assms(4,6) by (simp add: map_update_where)
  moreover have "\<exists>e. db_events s' = db_events s @ [e] \<and> ev_kind e \<notin> task_kinds"
    using e by (intro exI [of _ ?e]) (simp add: task_kinds_def)
  ultimately show ?thesis using unit_step_inv [OF assms(1) _ _ _ _ q] by (simp add: assms(6))
qed

lemma TransitionWorkUnit_inv:
  assumes "TransitionWorkUnit cx fault task unit from to reason s = (r, s')" "store_inv s"
  shows "store_inv s'"
  using assms(1)
proof (cases rule: TransitionWorkUnit_cases)
  case (moved P)
  then show ?thesis by (intro unit_update_inv [OF assms(2), of P unit _ to s']) simp_all
qed (use assms(2) in simp)


text \<open>Resetting moves every running unit of the task once; its units are distinct, so each of them is
  still running when its turn comes.\<close>

lemma reset_units_inv:
  assumes "reset_units cx task reason ids s = Inr s'" "store_inv s" "distinct ids"
    and "\<And>i. i \<in> set ids \<Longrightarrow> \<exists>u \<in> set (db_units s). wu_WorkUnitID u = i \<and> wu_TaskID u = task \<and> wu_Status u = ''running''"
  shows "store_inv s'"
  using assms
proof (induction cx task reason ids s rule: reset_units.induct)
  case (2 cx task reason unit units s)
  let ?P = "\<lambda>u. wu_WorkUnitID u = unit \<and> wu_TaskID u = task \<and> wu_Status u = ''running''"
  let ?f = "\<lambda>u. u\<lparr>wu_Status := ''ready'', wu_UpdatedAt := now_text cx s\<rparr>"
  let ?s = "appendEvent cx task ''workunit_transition'' (transition_payload unit ''running'' ''ready'' reason)
        (s\<lparr>db_units := update_where ?P ?f (db_units s)\<rparr>)"
  have j: "journal cx task ''workunit_transition'' (transition_payload unit ''running'' ''ready'' reason) ()
        (s\<lparr>db_units := update_where ?P ?f (db_units s)\<rparr>) = Inr ((), ?s)"
    using "2.prems"(1) by (auto simp: journal_def split: if_splits)
  have rest: "reset_units cx task reason units ?s = Inr s'" using "2.prems"(1) unfolding reset_units.simps j by simp
  have inv: "store_inv ?s"
    by (rule unit_update_inv [OF "2.prems"(2), of ?P unit ?f "''ready''"])
      (use "2.prems"(4) in \<open>auto simp: affected_zero\<close>)
  have "\<exists>u \<in> set (db_units ?s). wu_WorkUnitID u = i \<and> wu_TaskID u = task \<and> wu_Status u = ''running''"
    if i: "i \<in> set units" for i
  proof -
    obtain u where u: "u \<in> set (db_units s)" "wu_WorkUnitID u = i" "wu_TaskID u = task" "wu_Status u = ''running''"
      using "2.prems"(4) i by auto
    moreover have "i \<noteq> unit" using i "2.prems"(3) by auto
    ultimately show ?thesis by (intro bexI [of _ u]) (auto simp: in_update_where intro!: bexI [of _ u])
  qed
  then show ?case using "2.IH" [OF j, of "()" ?s] rest inv "2.prems"(3) by simp
qed simp

lemma ResetInterruptedWorkUnits_inv:
  assumes "ResetInterruptedWorkUnits cx fault task reason s = (r, s')" "store_inv s"
  shows "store_inv s'"
  using assms(1) unfolding ResetInterruptedWorkUnits_def Let_def
proof (cases rule: transaction_cases)
  case (committed n)
  let ?ids = "map wu_WorkUnitID (filter (\<lambda>u. wu_TaskID u = task \<and> wu_Status u = ''running'') (db_units s))"
  have "reset_units cx task reason ?ids s = Inr s'" using committed(2) by (auto split: sum.splits)
  moreover have "distinct ?ids" using assms(2) by (auto simp: store_inv_def projected_def distinct_map inj_on_def)
  ultimately show ?thesis using reset_units_inv [OF _ assms(2), of cx task reason ?ids s'] by auto
qed (use assms(2) in simp)

lemma reconcile_units_inv:
  "reconcile_units cx fault task reason us n s = (r, s') \<Longrightarrow> store_inv s \<Longrightarrow> store_inv s'"
  by (induction cx fault task reason us n s rule: reconcile_units.induct)
    (auto split: if_splits prod.splits sum.splits dest: TransitionWorkUnit_inv)

lemma ReconcileUncertainWorkUnits_inv:
  "ReconcileUncertainWorkUnits cx faults task reason s = (r, s') \<Longrightarrow> store_inv s \<Longrightarrow> store_inv s'"
  by (auto simp: ReconcileUncertainWorkUnits_def split: sum.splits dest: reconcile_units_inv)

text \<open>What a created unit adds.\<close>

lemma CreateWorkUnit_cases:
  assumes "CreateWorkUnit cx fault w s = Some (r, s')"
  obtains (refused) e where "r = Inl e" "s' = s"
  | (created) "r = Inr (wc_WorkUnitID w)" "wc_WorkUnitID w \<notin> set (map wu_WorkUnitID (db_units s))"
      "\<And>d. d \<in> set (wc_Dependencies w) \<Longrightarrow> has_unit s (wc_TaskID w) d"
      "insert_unit cx w s = Inr (wc_WorkUnitID w, s')"
proof -
  consider "s' = s \<and> (\<exists>e. r = Inl e)"
    | "transaction None s (insert_unit cx w s) = (r, s')" "find (\<lambda>d. \<not> has_unit s (wc_TaskID w) d) (wc_Dependencies w) = None"
    using assms
    by (auto simp: CreateWorkUnit_def transaction_def split: option.splits if_splits)
  then show ?thesis
  proof cases
    case 2
    show ?thesis using 2(1)
    proof (cases rule: transaction_cases)
      case (committed x)
      then show ?thesis using 2(2) created
        by (auto simp: insert_unit_def journal_def find_None_iff split: if_splits)
    qed (use refused in blast)
  qed (use refused in blast)
qed

lemma has_unit_in: "has_unit s task d \<Longrightarrow> d \<in> set (map wu_WorkUnitID (db_units s))"
proof -
  assume "has_unit s task d"
  then have "affected (\<lambda>u. wu_WorkUnitID u = d \<and> wu_TaskID u = task) (db_units s) \<noteq> 0" by (simp add: has_unit_def)
  then show ?thesis by (auto simp: affected_zero)
qed

lemma CreateWorkUnit_inv:
  assumes "CreateWorkUnit cx fault w s = Some (r, s')" "store_inv s"
  shows "store_inv s'"
  using assms(1)
proof (cases rule: CreateWorkUnit_cases)
  case created
  let ?u = "wc_WorkUnitID w" and ?ids = "set (map wu_WorkUnitID (db_units s))"
  let ?e = "last (db_events s')"
  have row: "wu_WorkUnitID (new_unit cx w now) = ?u" "wu_Status (new_unit cx w now) = ''created''" for now
    by (simp_all add: new_unit_def)
  have s': "db_units s' = db_units s @ [new_unit cx w (now_text cx s)]" "db_tasks s' = db_tasks s"
    "db_deps s' = db_deps s @ map (Pair ?u) (wc_Dependencies w)" "db_events s' = db_events s @ [?e]"
    "unit_sets ?e = Some (?u, ''created'')" "ev_kind ?e = ''workunit_created''"
    using created(4) by (auto simp: insert_unit_def journal_def unit_sets_def field_def split: if_splits)
  have p: "projected wu_WorkUnitID wu_Status unit_sets (db_units s) (db_events s)"
    "projected tk_task_id tk_status task_sets (db_tasks s) (db_events s)" and d: "deps_ok s"
    using assms(2) by (auto simp: store_inv_def)
  have "projected wu_WorkUnitID wu_Status unit_sets (db_units s') (db_events s')"
    unfolding s'(1) by (subst s'(4)) (rule units.insert [OF p(1)], use created(2) s'(5) row in auto)
  moreover have "projected tk_task_id tk_status task_sets (db_tasks s') (db_events s')"
    using s'(6) by (intro tasks.keep [OF p(2)] disjI2 exI [of _ ?e]) (simp_all add: s'(2,4) [symmetric] task_kinds_def)
  moreover have "deps_ok s'"
  proof -
    have ids: "?u \<notin> Range (set (db_deps s))" "?u \<notin> set (wc_Dependencies w)"
      using d created(2) has_unit_in [OF created(3)] by (auto simp: deps_ok_def)
    have "acyclic (set (db_deps s'))"
      using acyclic_fresh [OF _ ids finite_set] d by (simp add: s'(3) deps_ok_def)
    then show ?thesis using d has_unit_in [OF created(3)] by (auto simp: deps_ok_def s'(1,3) row)
  qed
  ultimately show ?thesis by (simp add: store_inv_def)
qed (use assms(2) in simp)

lemma AppendRecoveryEvent_silent:
  "AppendRecoveryEvent cx fault task kind payload s = (r, s') \<Longrightarrow> kind \<in> recovery_kinds \<Longrightarrow> silent s s'"
  unfolding AppendRecoveryEvent_def
  by (erule silent_journal) (erule journal_silent; auto simp: kinds_defs recovery_kinds_def)

lemmas silent_operations = decisions_silent verification_silent RecordApproval_silent actions_silent
  CompleteToolAttempt_silent reconciliations_silent RecordProviderPrepared_silent RecordProviderFinished_silent
  ReconcileProviderAttempt_silent AppendRecoveryEvent_silent

lemmas operations_inv = task_operations_inv FinalizeTask_inv MarkTaskApprovalRequired_inv CreateTask_inv
  TransitionWorkUnit_inv ResetInterruptedWorkUnits_inv ReconcileUncertainWorkUnits_inv CreateWorkUnit_inv

lemma store_inv_step:
  assumes "store_inv s" "store_step cx s s'"
  shows "store_inv s'"
  using assms(2)
proof cases
  case (tick t)
  then show ?thesis using assms(1) by (simp add: store_inv_def deps_ok_def)
qed (use assms(1) in \<open>blast intro: silent_inv silent_operations operations_inv\<close>)+

interpretation store: invariant_system store_init "store_step cx" store_inv for cx
proof
  fix s :: Store
  assume "store_init s"
  then show "store_inv s" by (simp add: store_inv_def projected_def deps_ok_def empty_store_def acyclic_def)
qed (rule store_inv_step)

end
