(* ===== verification/Store_Run.thy ===== *)
theory Store_Run
  imports Store_System
begin

text \<open>
  A concrete run of the store, evaluated by the kernel: a task with one work unit that is created,
  run, verified and completed, an action that waits for approval and is approved, and a provider
  attempt that is interrupted and reconciled. The theorems about the store are applied to it.
\<close>

text \<open>A codec that redacts nothing and writes an instant as a sign and that many zeros.\<close>

definition demo_codec :: Codec where
  "demo_codec = \<lparr>cx_redact = (\<lambda>t. t),
     cx_rfc3339 = (\<lambda>t. (if 0 \<le> t then CHR ''+'' else CHR ''-'') # replicate (nat \<bar>t\<bar>) CHR ''0''),
     cx_parse3339 = (\<lambda>t. case t of [] \<Rightarrow> None | c # ds \<Rightarrow> Some (if c = CHR ''+'' then int (length ds) else - int (length ds))),
     cx_strictJSON = (\<lambda>t. None), cx_sha256hex = (\<lambda>t. t), cx_tools = (\<lambda>t. t), cx_plan = (\<lambda>t. Inr (1, [(t, t)]))\<rparr>"

definition demo_task :: TaskRecord where
  "demo_task = \<lparr>tc_TaskID = ''t'', tc_Objective = ''o'', tc_Workspace = [], tc_Model = [], tc_ConfigJSON = [],
     tc_ExecutionContractJSON = [], tc_ExecutionContractHash = []\<rparr>"

definition demo_unit :: WorkUnitCreate where
  "demo_unit = \<lparr>wc_TaskID = ''t'', wc_WorkUnitID = ''u'', wc_ParentWorkUnitID = [], wc_Objective = ''o'', wc_Dependencies = [],
     wc_Tools = None, wc_WorkspaceScope = [], wc_AcceptancePlan = [], wc_AcceptanceDigest = [], wc_ContextBudget = 0,
     wc_ProviderBudget = 0, wc_StepBudget = 0\<rparr>"

definition demo_verification :: VerificationAttemptRecord where
  "demo_verification = \<lparr>va_TaskID = ''t'', va_WorkUnitID = ''u'', va_Decision = ''passed'', va_Summary = [],
     va_ReportJSON = [], va_Checks = []\<rparr>"

definition demo_finalize :: TaskFinalize where
  "demo_finalize = \<lparr>tf_TaskID = ''t'', tf_Outcome = ''completed'', tf_StopReason = [], tf_Summary = [],
     tf_Classification = [], tf_Evidence = [], tf_Turns = 0, tf_Attempts = 0, tf_Observations = 0, tf_Corrections = 0,
     tf_Repeated = 0, tf_MixedProse = 0\<rparr>"

section \<open>A task with one work unit\<close>

definition demo_created :: Store where
  "demo_created = snd (CreateTask demo_codec None demo_task empty_store)"
definition demo_planned :: Store where
  "demo_planned = snd (the (CreateWorkUnit demo_codec None demo_unit demo_created))"
definition demo_ready :: Store where
  "demo_ready = snd (TransitionWorkUnit demo_codec None ''t'' ''u'' ''created'' ''ready'' [] demo_planned)"
definition demo_running :: Store where
  "demo_running = snd (TransitionWorkUnit demo_codec None ''t'' ''u'' ''ready'' ''running'' [] demo_ready)"
definition demo_unit_done :: Store where
  "demo_unit_done = snd (TransitionWorkUnit demo_codec None ''t'' ''u'' ''running'' ''completed'' [] demo_running)"
definition demo_verified :: Store where
  "demo_verified = snd (SaveVerificationAttempt demo_codec None demo_verification demo_unit_done)"
definition demo_completed :: Store where
  "demo_completed = snd (FinalizeTask demo_codec None demo_finalize demo_verified)"

section \<open>An approved action\<close>

definition demo_action :: ActionRecord where
  "demo_action = \<lparr>an_TaskID = ''t'', an_WorkUnitID = [], an_Tool = ''write_file'', an_Arguments = [], an_Fingerprint = ''f'',
     an_RecipeFingerprint = [], an_WorkspaceSignature = []\<rparr>"
definition demo_decision :: WritePolicyDecision where
  "demo_decision = \<lparr>wd_TaskID = ''t'', wd_ActionID = ''action-000001'', wd_Tool = ''write_file'',
     wd_Decision = ''approval_required'', wd_Reason = []\<rparr>"
definition demo_approval :: ApprovalRecord where
  "demo_approval = \<lparr>ar_TaskID = ''t'', ar_ActionID = ''action-000001'', ar_Decision = ''approved'', ar_Reason = [], ar_Actor = []\<rparr>"

definition demo_pending :: Store where
  "demo_pending = snd (RecordWritePolicyDecision demo_codec None demo_decision
     (snd (RecordAction demo_codec None demo_action demo_created)))"
definition demo_approved :: Store where
  "demo_approved = snd (RecordApproval demo_codec None demo_approval demo_pending)"

definition demo_policy :: "Store \<Rightarrow> Static" where
  "demo_policy s = \<lparr>st_modes = [(''write_file'', ModeApprovalRequired)], st_recipeModes = [],
     st_approvals = Some (storeApprovals None s)\<rparr>"
definition demo_request :: PolicyRequest where
  "demo_request = \<lparr>pq_TaskID = ''t'', pq_ActionID = ''action-000001'', pq_Tool = ''write_file'', pq_Fingerprint = ''f'',
     pq_Workspace = [], pq_Recipe = []\<rparr>"

section \<open>Provider attempts\<close>

definition demo_prepared_record :: ProviderPrepared where
  "demo_prepared_record = \<lparr>pp_TaskID = ''t'', pp_WorkUnitID = [], pp_ClientRequestID = ''r'', pp_ProviderID = ''p'',
     pp_ModelPool = [], pp_Model = [], pp_ProtocolFamily = [], pp_ConfigIdentity = [],
     pp_AllowanceProfile = AllowanceProfileInstant, pp_AttemptSequence = 1, pp_StartedAt = 5, pp_ReceiptAware = False,
     pp_TelemetryHealthy = True, pp_State = bootstrap_projection\<rparr>"
definition demo_finished_record :: ProviderFinished where
  "demo_finished_record = \<lparr>pf_TaskID = ''t'', pf_WorkUnitID = [], pf_ClientRequestID = ''r'', pf_Outcome = OutcomeSuccess,
     pf_ProviderFailureClass = [], pf_ProtocolFamily = [], pf_ConfigIdentity = [], pf_RequestID = [],
     pf_UpstreamReached = True, pf_Uncertain = False, pf_DeliveryState = DeliveryCompleted, pf_StatusCode = 200,
     pf_ObservedResetAt = zero_time, pf_RateLimitObservation = empty_observation, pf_AttemptDebited = 1,
     pf_SelectedBackoff = 0, pf_Circuit = None, pf_RetryEligible = False, pf_Receipts = [], pf_ReceiptErrorCode = None,
     pf_State = charge ''t'' 5 bootstrap_projection\<rparr>"
definition demo_reconcile :: ReconcileProvider where
  "demo_reconcile = \<lparr>rp_TaskID = ''t'', rp_ExecutionID = ''exec-000001'', rp_ClientRequestID = ''r'', rp_Status = ''reconciled'',
     rp_Reason = [], rp_Uncertain = True, rp_AttemptDebited = 1, rp_DebitAt = 5, rp_ApplyConservativeDebit = True\<rparr>"

definition demo_in_flight :: Store where
  "demo_in_flight = snd (RecordProviderPrepared demo_codec None demo_prepared_record demo_created)"
definition demo_finished :: Store where
  "demo_finished = snd (RecordProviderFinished demo_codec None demo_finished_record demo_in_flight)"
definition demo_reconciled :: Store where
  "demo_reconciled = snd (ReconcileProviderAttempt demo_codec None 0 demo_reconcile demo_in_flight)"

section \<open>The run\<close>

declare dfs.simps [code]

lemma demo_times: "times_round_trip demo_codec"
  by (auto simp: times_round_trip_def demo_codec_def)

lemma demo_unit_created: "CreateWorkUnit demo_codec None demo_unit demo_created = Some (Inr ''u'', demo_planned)"
proof -
  have "map_option fst (CreateWorkUnit demo_codec None demo_unit demo_created) = Some (Inr ''u'')" by code_simp
  then show ?thesis by (auto simp: demo_planned_def)
qed

lemma transition_next: "store_step cx s (snd (TransitionWorkUnit cx fault task u from to reason s))"
  by (rule store_step.transition_unit) (rule prod.collapse [symmetric])

lemma demo_created_step: "store_step demo_codec empty_store demo_created"
  unfolding demo_created_def by (rule store_step.create_task) (rule prod.collapse [symmetric])

lemma demo_finalized: "store_step demo_codec demo_verified demo_completed"
  unfolding demo_completed_def by (rule store_step.finalize_task) (rule prod.collapse [symmetric])

lemma demo_reach: "reach store_init (store_step demo_codec) demo_completed"
proof -
  have "reach store_init (store_step demo_codec) empty_store" by (rule reach_init) simp
  moreover note demo_created_step
  moreover have "store_step demo_codec demo_created demo_planned" using demo_unit_created by (rule store_step.create_unit)
  moreover have "store_step demo_codec demo_planned demo_ready" by (subst demo_ready_def) (rule transition_next)
  moreover have "store_step demo_codec demo_ready demo_running" by (subst demo_running_def) (rule transition_next)
  moreover have "store_step demo_codec demo_running demo_unit_done" by (subst demo_unit_done_def) (rule transition_next)
  moreover have "store_step demo_codec demo_unit_done demo_verified"
    unfolding demo_verified_def by (rule store_step.save_verification) (rule prod.collapse [symmetric])
  ultimately show ?thesis using demo_finalized by (meson reach_step)
qed

lemma demo_statuses:
  "TaskStatus ''t'' demo_verified = Some ''planned''" "TaskStatus ''t'' demo_completed = Some ''completed''"
  by code_simp+

lemma demo_units: "map (\<lambda>u. (wu_WorkUnitID u, wu_Status u)) (db_units demo_running) = [(''u'', ''running'')]"
  "map (\<lambda>u. (wu_WorkUnitID u, wu_Status u)) (db_units demo_completed) = [(''u'', ''completed'')]"
  by code_simp+

lemma demo_approval_recorded: "RecordApproval demo_codec None demo_approval demo_pending = (Inr ''approval-t-f'', demo_approved)"
proof -
  have "fst (RecordApproval demo_codec None demo_approval demo_pending) = Inr ''approval-t-f''" by code_simp
  then show ?thesis by (simp add: demo_approved_def prod_eq_iff)
qed

lemma demo_finish_recorded: "RecordProviderFinished demo_codec None demo_finished_record demo_in_flight = (Inr (), demo_finished)"
proof -
  have "fst (RecordProviderFinished demo_codec None demo_finished_record demo_in_flight) = Inr ()" by code_simp
  then show ?thesis by (simp add: demo_finished_def prod_eq_iff)
qed

lemma demo_reconcile_recorded: "ReconcileProviderAttempt demo_codec None 0 demo_reconcile demo_in_flight = (Inr (), demo_reconciled)"
proof -
  have "fst (ReconcileProviderAttempt demo_codec None 0 demo_reconcile demo_in_flight) = Inr ()" by code_simp
  then show ?thesis by (simp add: demo_reconciled_def prod_eq_iff)
qed

end
