(* ===== verification/Store_Theorems.thy ===== *)
theory Store_Theorems
  imports Store_Run
begin

text \<open>
  What the store guarantees in every reachable state and on every step: the completion gate, the
  journal, the lifecycle of work units, the approvals, and the durable projection of the governor.
\<close>

section \<open>Statuses of tasks\<close>

lemma find_update_where:
  "(\<And>t. key (f t) = key t) \<Longrightarrow>
     find (\<lambda>t. key t = k) (update_where P f rows) = map_option (\<lambda>t. if P t then f t else t) (find (\<lambda>t. key t = k) rows)"
  by (induction rows) (auto simp: update_where_def)

lemma update_where_cases:
  assumes "r \<in> set (update_where P f rows)"
  obtains (updated) q where "q \<in> set rows" "P q" "r = f q" | (kept) "r \<in> set rows" "\<not> P r"
  using assms by (auto simp: update_where_def split: if_splits)

lemma TaskStatus_cong: "db_tasks s' = db_tasks s \<Longrightarrow> TaskStatus task s' = TaskStatus task s"
  by (simp add: TaskStatus_def)

text \<open>A task whose status an operation sets got the status of that operation.\<close>

lemma updated_status:
  assumes "transaction fault s (if affected P (db_tasks s) = 0 then Inl err
       else journal cx k kind payload x (s\<lparr>db_tasks := update_where P f (db_tasks s)\<rparr>)) = (r, s')"
    and "\<And>t. tk_task_id (f t) = tk_task_id t" "TaskStatus task s' \<noteq> TaskStatus task s"
  shows "\<exists>t. P t \<and> tk_task_id t = task \<and> TaskStatus task s' = Some (tk_status (f t))"
  using assms(1)
proof (cases rule: transaction_cases)
  case (committed y)
  then have "db_tasks s' = update_where P f (db_tasks s)" by (auto simp: journal_def split: if_splits)
  then have "TaskStatus task s' = map_option (\<lambda>t. tk_status (if P t then f t else t)) (find (\<lambda>t. tk_task_id t = task) (db_tasks s))"
    using find_update_where [of tk_task_id f task P, OF assms(2)] by (simp add: TaskStatus_def option.map_comp comp_def)
  moreover have "tk_task_id t = task" if "find (\<lambda>t. tk_task_id t = task) rows = Some t" for t rows
    using that by (auto simp: find_Some_iff)
  ultimately show ?thesis
    using assms(3) by (cases "find (\<lambda>t. tk_task_id t = task) (db_tasks s)") (auto simp: TaskStatus_def split: if_splits)
qed (use assms(3) in simp)

lemma status_set:
  assumes "transaction fault s (if affected P (db_tasks s) = 0 then Inl err
       else journal cx k kind payload x (s\<lparr>db_tasks := update_where P f (db_tasks s)\<rparr>)) = (r, s')"
    and "\<And>t. tk_task_id (f t) = tk_task_id t" "\<And>t. tk_status (f t) = v" "TaskStatus task s' \<noteq> TaskStatus task s"
  shows "TaskStatus task s' = Some v"
  using updated_status [OF assms(1,2,4)] assms(3) by auto

lemma task_operations_status:
  assumes "TaskStatus task s' \<noteq> TaskStatus task s"
  shows "StartTask cx fault k s = (r, s') \<Longrightarrow> TaskStatus task s' = Some ''running''"
    "MarkTaskVerificationPaused cx fault k reason s = (r, s') \<Longrightarrow> TaskStatus task s' = Some ''running''"
    "MarkTaskPersistencePaused cx fault k reason s = (r, s') \<Longrightarrow> TaskStatus task s' = Some ''running''"
    "MarkRecoveryStarted cx fault k reason s = (r, s') \<Longrightarrow> TaskStatus task s' = Some ''running''"
    "MarkHumanReviewRequired cx fault k reason attempts s = (r, s') \<Longrightarrow> TaskStatus task s' = Some ''human_review_required''"
  unfolding StartTask_def MarkTaskVerificationPaused_def MarkTaskPersistencePaused_def MarkRecoveryStarted_def
    MarkHumanReviewRequired_def Let_def
  by (erule status_set [OF _ _ _ assms]; simp; fail)+

lemma MarkTaskApprovalRequired_status:
  assumes "MarkTaskApprovalRequired cx fault k action reason s = (r, s')"
  shows "TaskStatus task s' = TaskStatus task s"
proof -
  have "map tk_task_id (db_tasks s') = map tk_task_id (db_tasks s) \<and> map tk_status (db_tasks s') = map tk_status (db_tasks s)"
    using assms unfolding MarkTaskApprovalRequired_def Let_def
    by (rule transaction_cases) (auto simp: journal_def intro!: map_update_where split: if_splits)
  moreover have "map_option tk_status (find (\<lambda>t. tk_task_id t = task) xs) = map_of (zip (map tk_task_id xs) (map tk_status xs)) task" for xs
    by (induction xs) auto
  ultimately show ?thesis unfolding TaskStatus_def by metis
qed

lemma CreateTask_status:
  assumes "CreateTask cx fault t s = (r, s')" "TaskStatus task s' \<noteq> TaskStatus task s"
  shows "TaskStatus task s' = Some ''planned''"
proof -
  have "db_tasks s' = db_tasks s \<or> db_tasks s' = db_tasks s @ [new_task cx t (now_text cx s)]"
    using assms(1) by (auto simp: CreateTask_def transaction_def journal_def split: option.splits if_splits)
  moreover have "find P (xs @ [x]) = (case find P xs of None \<Rightarrow> if P x then Some x else None | Some y \<Rightarrow> Some y)" for P x and xs :: "TaskRow list"
    by (induction xs) auto
  ultimately show ?thesis using assms(2) by (auto simp: TaskStatus_def new_task_def split: option.splits if_splits)
qed

lemma FinalizeTask_status:
  assumes "FinalizeTask cx fault f s = (r, s')" "TaskStatus task s' \<noteq> TaskStatus task s"
  shows "task = tf_TaskID f \<and> TaskStatus task s' = Some (terminalStatus (tf_Outcome f))
     \<and> (terminalStatus (tf_Outcome f) = ''completed'' \<longrightarrow> completion_gate task s = None)"
proof (cases "if terminalStatus (tf_Outcome f) = ''completed'' then completion_gate (tf_TaskID f) s else None")
  case None
  have "task = tf_TaskID f \<and> TaskStatus task s' = Some (terminalStatus (tf_Outcome f))"
    using updated_status [OF assms(1) [unfolded FinalizeTask_def Let_def None option.case] _ assms(2)] by auto
  then show ?thesis using None by (auto split: if_splits)
next
  case (Some e)
  then show ?thesis using assms by (auto simp: FinalizeTask_def Let_def transaction_def split: option.splits)
qed

lemma gate_open:
  "completion_gate task s = None \<longleftrightarrow>
     open_units s task = [] \<and> pending_rows s task = [] \<and> LatestVerificationDecision task s = Some ''passed''"
  by (auto simp: completion_gate_def split: option.splits)

lemma silent_tasks: "silent s s' \<Longrightarrow> db_tasks s' = db_tasks s"
  by (simp add: silent_def)

lemma unit_operations_tasks:
  "TransitionWorkUnit cx fault k u from to reason s = (r, s') \<Longrightarrow> db_tasks s' = db_tasks s"
  by (erule TransitionWorkUnit_cases) simp_all

lemma reset_units_tasks: "reset_units cx k reason ids s = Inr s' \<Longrightarrow> db_tasks s' = db_tasks s"
  by (induction cx k reason ids s rule: reset_units.induct) (auto simp: journal_def split: sum.splits if_splits)

lemma ResetInterruptedWorkUnits_tasks:
  assumes "ResetInterruptedWorkUnits cx fault k reason s = (n, s')"
  shows "db_tasks s' = db_tasks s"
  using assms unfolding ResetInterruptedWorkUnits_def
  by (rule transaction_cases) (auto simp: Let_def reset_units_tasks split: sum.splits)

lemma reconcile_units_tasks: "reconcile_units cx fault k reason us n s = (r, s') \<Longrightarrow> db_tasks s' = db_tasks s"
  by (induction cx fault k reason us n s rule: reconcile_units.induct)
    (auto split: if_splits prod.splits sum.splits dest: unit_operations_tasks)

lemma ReconcileUncertainWorkUnits_tasks:
  "ReconcileUncertainWorkUnits cx faults k reason s = (n, s') \<Longrightarrow> db_tasks s' = db_tasks s"
  by (auto simp: ReconcileUncertainWorkUnits_def reconcile_units_tasks split: sum.splits)

lemma CreateWorkUnit_tasks: "CreateWorkUnit cx fault w s = Some (r, s') \<Longrightarrow> db_tasks s' = db_tasks s"
  by (erule CreateWorkUnit_cases) (auto simp: insert_unit_def journal_def split: if_splits)

lemmas unit_tasks = unit_operations_tasks ResetInterruptedWorkUnits_tasks ReconcileUncertainWorkUnits_tasks CreateWorkUnit_tasks

lemma status_change:
  assumes "store_step cx s s'" "TaskStatus task s' \<noteq> TaskStatus task s"
  shows "TaskStatus task s' \<noteq> Some ''completed'' \<or> completion_gate task s = None"
proof -
  have quiet: "db_tasks s' = db_tasks s \<Longrightarrow> ?thesis" using assms(2) TaskStatus_cong by blast
  have running: "TaskStatus task s' = Some ''running'' \<Longrightarrow> ?thesis"
    and review: "TaskStatus task s' = Some ''human_review_required'' \<Longrightarrow> ?thesis"
    and planned: "TaskStatus task s' = Some ''planned'' \<Longrightarrow> ?thesis" by simp_all
  from assms(1) show ?thesis
  proof cases
    case (finalize_task fault f r)
    then show ?thesis using FinalizeTask_status assms(2) by fastforce
  next
    case (approval_pause fault k action reason r)
    then show ?thesis using MarkTaskApprovalRequired_status assms(2) by blast
  next
    case (tick t)
    then show ?thesis using assms(2) by (simp add: TaskStatus_def)
  qed ((rule quiet, erule unit_tasks)
      | (rule quiet [OF silent_tasks], (erule silent_operations; assumption))
      | (rule planned, erule CreateTask_status [OF _ assms(2)])
      | (rule running, erule task_operations_status [OF assms(2)])
      | (rule review, erule task_operations_status [OF assms(2)]))+
qed

text \<open>C26: the completion gate. Whatever the operation, its arguments and its failures: a step that
  makes a task completed finds every work unit of it completed, no approval pending and a passed
  latest verification.\<close>

theorem completed_only_through_the_gate:
  assumes "store_step cx s s'" "TaskStatus task s' = Some ''completed''" "TaskStatus task s \<noteq> Some ''completed''"
  shows "open_units s task = [] \<and> pending_rows s task = [] \<and> LatestVerificationDecision task s = Some ''passed''"
  using status_change [OF assms(1), of task] assms(2,3) by (simp add: gate_open)

theorem completed_only_through_the_gate_witness:
  "open_units demo_verified ''t'' = [] \<and> pending_rows demo_verified ''t'' = []
     \<and> LatestVerificationDecision ''t'' demo_verified = Some ''passed''"
  using completed_only_through_the_gate [OF demo_finalized, of "''t''"] demo_statuses by simp

text \<open>The verification the gate looks at may be that of a work unit: in the run, the task is completed
  and no verification of the task itself was ever stored.\<close>

lemma unit_verification_opens_the_gate:
  "list_all (\<lambda>v. ve_work_unit_id v \<noteq> []) (db_verifications demo_verified)
     \<and> FinalizeTask demo_codec None demo_finalize demo_verified = (Inr (), demo_completed)
     \<and> TaskStatus ''t'' demo_completed = Some ''completed''"
proof -
  have "fst (FinalizeTask demo_codec None demo_finalize demo_verified) = Inr ()" by code_simp
  moreover have "list_all (\<lambda>v. ve_work_unit_id v \<noteq> []) (db_verifications demo_verified)" by code_simp
  ultimately show ?thesis using demo_statuses by (simp add: demo_completed_def prod_eq_iff)
qed

text \<open>C27: the journal is the truth. In every reachable store the statuses of the work units and of the
  tasks are what replaying the journal gives, so a status never changes without its event.\<close>

theorem statuses_are_replayed_from_the_journal:
  assumes "reach store_init (store_step cx) s"
  shows "map_of (map (\<lambda>u. (wu_WorkUnitID u, wu_Status u)) (db_units s)) = replay unit_sets (db_events s)
    \<and> map_of (map (\<lambda>t. (tk_task_id t, tk_status t)) (db_tasks s)) = replay task_sets (db_events s)"
  using store.inv_reach [OF assms] by (simp_all add: store_inv_def projected_def)

theorem statuses_are_replayed_from_the_journal_witness:
  "replay unit_sets (db_events demo_completed) = [''u'' \<mapsto> ''completed'']"
  using statuses_are_replayed_from_the_journal [OF demo_reach] demo_units(2) by simp

text \<open>C32: the dependencies stored are acyclic and lead from units to units.\<close>

theorem dependencies_stay_acyclic:
  assumes "reach store_init (store_step cx) s"
  shows "acyclic (set (db_deps s)) \<and> Field (set (db_deps s)) \<subseteq> set (map wu_WorkUnitID (db_units s))"
  using store.inv_reach [OF assms] by (auto simp: store_inv_def deps_ok_def Field_def)

theorem dependencies_stay_acyclic_witness: "acyclic (set (db_deps demo_completed))"
  using dependencies_stay_acyclic [OF demo_reach] by simp

section \<open>The lifecycle of work units\<close>

text \<open>What is fixed when a unit is created, and the moves of a step.\<close>

definition unit_definition :: "WorkUnit \<Rightarrow> WorkUnit" where
  "unit_definition u = u\<lparr>wu_Status := [], wu_EvidenceRefs := [], wu_FailureReason := [], wu_BlockingReason := [],
     wu_UpdatedAt := []\<rparr>"

definition moves :: "(string \<times> string) set \<Rightarrow> WorkUnit \<Rightarrow> WorkUnit \<Rightarrow> bool" where
  "moves T u u' \<longleftrightarrow> unit_definition u' = unit_definition u \<and> (u' = u \<or> (wu_Status u, wu_Status u') \<in> T)"

definition units_move :: "(string \<times> string) set \<Rightarrow> Store \<Rightarrow> Store \<Rightarrow> bool" where
  "units_move T s s' \<longleftrightarrow> list_all2 (moves T) (db_units s) (db_units s') \<and> db_deps s' = db_deps s"

lemma moves_refl [simp]: "moves T u u"
  by (simp add: moves_def)

lemma units_move_refl [simp]: "db_units s' = db_units s \<Longrightarrow> db_deps s' = db_deps s \<Longrightarrow> units_move T s s'"
  by (simp add: units_move_def list_all2_refl)

lemma units_move_update:
  assumes "\<And>u. P u \<Longrightarrow> moves T u (f u)"
  shows "list_all2 (moves T) us (update_where P f us)"
  using assms by (simp add: update_where_def list_all2_conv_all_nth)

lemma units_move_trans:
  assumes "units_move {(a, b)} s t" "units_move {(a, b)} t s'" "a \<noteq> b"
  shows "units_move {(a, b)} s s'"
proof -
  have "moves {(a, b)} x z" if "moves {(a, b)} x y" "moves {(a, b)} y z" for x y z
    using that assms(3) by (auto simp: moves_def)
  then show ?thesis using assms list_all2_trans [of "moves {(a, b)}" "moves {(a, b)}" "moves {(a, b)}"]
    unfolding units_move_def by metis
qed

lemma units_move_mono: "units_move T s s' \<Longrightarrow> T \<subseteq> T' \<Longrightarrow> units_move T' s s'"
  unfolding units_move_def by (auto simp: moves_def elim!: list_all2_mono)

lemma unit_definition_transition [simp]: "unit_definition (transition_row cx to reason now ev u) = unit_definition u"
  by (simp add: unit_definition_def transition_row_def Let_def)

lemma TransitionWorkUnit_moves:
  assumes "TransitionWorkUnit cx fault task unit from to reason s = (r, s')"
  shows "units_move (if (from, to) \<in> set workUnitTransitions then {(from, to)} else {}) s s'"
  using assms
proof (cases rule: TransitionWorkUnit_cases)
  case (moved P)
  then show ?thesis by (simp add: units_move_def) (auto intro!: units_move_update simp: moves_def)
qed simp

lemma reset_units_moves: "reset_units cx task reason ids s = Inr s' \<Longrightarrow> units_move {(''running'', ''ready'')} s s'"
proof (induction cx task reason ids s rule: reset_units.induct)
  case (2 cx task reason unit units s)
  let ?t = "s\<lparr>db_units := update_where (\<lambda>u. wu_WorkUnitID u = unit \<and> wu_TaskID u = task \<and> wu_Status u = ''running'')
           (\<lambda>u. u\<lparr>wu_Status := ''ready'', wu_UpdatedAt := now_text cx s\<rparr>) (db_units s)\<rparr>"
  obtain t where j: "journal cx task ''workunit_transition'' (transition_payload unit ''running'' ''ready'' reason) () ?t = Inr ((), t)"
    and t: "db_units t = db_units ?t" "db_deps t = db_deps ?t" and rest: "reset_units cx task reason units t = Inr s'"
    using "2.prems" by (auto simp: journal_def split: if_splits)
  have "units_move {(''running'', ''ready'')} s t"
    by (simp add: units_move_def t) (auto intro!: units_move_update simp: moves_def unit_definition_def)
  then show ?case using "2.IH" [OF j refl rest] by (rule units_move_trans) simp
qed simp

lemma ResetInterruptedWorkUnits_moves:
  assumes "ResetInterruptedWorkUnits cx fault task reason s = (n, s')"
  shows "units_move {(''running'', ''ready'')} s s'"
  using assms unfolding ResetInterruptedWorkUnits_def
  by (rule transaction_cases) (auto simp: Let_def reset_units_moves split: sum.splits)

lemma reconcile_units_moves:
  "reconcile_units cx fault task reason us n s = (r, s') \<Longrightarrow> units_move {(''uncertain'', ''ready'')} s s'"
proof (induction cx fault task reason us n s arbitrary: r rule: reconcile_units.induct)
  case (2 cx fault task reason u us n s)
  show ?case
  proof (cases "wu_Status u \<noteq> ''uncertain'' \<or> 0 < unresolved_attempts task (wu_WorkUnitID u) s")
    case True
    then show ?thesis using 2 by simp
  next
    case False
    obtain q t where tr: "TransitionWorkUnit cx (fault (wu_WorkUnitID u)) task (wu_WorkUnitID u) ''uncertain'' ''ready'' reason s = (q, t)"
      by (cases "TransitionWorkUnit cx (fault (wu_WorkUnitID u)) task (wu_WorkUnitID u) ''uncertain'' ''ready'' reason s") auto
    have m: "units_move {(''uncertain'', ''ready'')} s t" using TransitionWorkUnit_moves [OF tr] by (simp add: workUnitTransitions_def)
    show ?thesis
    proof (cases q)
      case (Inl e)
      then show ?thesis using "2.prems" False tr m by auto
    next
      case (Inr x)
      have "reconcile_units cx fault task reason us (Suc n) t = (r, s')" using "2.prems" False tr Inr by auto
      from "2.IH"(2) [OF False tr [symmetric] _ this] Inr have "units_move {(''uncertain'', ''ready'')} t s'" by simp
      then show ?thesis using units_move_trans [OF m] by simp
    qed
  qed
qed simp

lemma ReconcileUncertainWorkUnits_moves:
  "ReconcileUncertainWorkUnits cx faults task reason s = (n, s') \<Longrightarrow> units_move {(''uncertain'', ''ready'')} s s'"
  by (auto simp: ReconcileUncertainWorkUnits_def reconcile_units_moves split: sum.splits)

lemma silent_moves: "silent s s' \<Longrightarrow> units_move T s s'"
  by (simp add: silent_def)

lemma CreateWorkUnit_moves:
  assumes "CreateWorkUnit cx fault w s = Some (r, s')"
  shows "units_move T s s' \<or> db_units s' = db_units s @ [new_unit cx w (now_text cx s)]"
  using assms by (cases rule: CreateWorkUnit_cases) (auto simp: insert_unit_def journal_def split: if_splits)

lemma task_update_units:
  assumes "transaction fault s (if affected P (db_tasks s) = 0 then Inl err
       else journal cx k kind payload x (s\<lparr>db_tasks := rows\<rparr>)) = (r, s')"
  shows "units_move T s s'"
  using assms by (rule transaction_cases) (auto simp: journal_def split: if_splits)

lemma task_operations_units:
  "StartTask cx fault k s = (r, s') \<Longrightarrow> units_move T s s'"
  "MarkTaskApprovalRequired cx fault k action reason s = (r, s') \<Longrightarrow> units_move T s s'"
  "MarkTaskVerificationPaused cx fault k reason s = (r, s') \<Longrightarrow> units_move T s s'"
  "MarkTaskPersistencePaused cx fault k reason s = (r, s') \<Longrightarrow> units_move T s s'"
  "MarkRecoveryStarted cx fault k reason s = (r, s') \<Longrightarrow> units_move T s s'"
  "MarkHumanReviewRequired cx fault k reason attempts s = (r, s') \<Longrightarrow> units_move T s s'"
  unfolding StartTask_def MarkTaskVerificationPaused_def MarkTaskPersistencePaused_def MarkRecoveryStarted_def
    MarkHumanReviewRequired_def MarkTaskApprovalRequired_def Let_def
  by (erule task_update_units)+

lemma CreateTask_units: "CreateTask cx fault t s = (r, s') \<Longrightarrow> units_move T s s'"
  by (auto simp: CreateTask_def transaction_def journal_def split: option.splits if_splits)

lemma FinalizeTask_units: "FinalizeTask cx fault f s = (r, s') \<Longrightarrow> units_move T s s'"
  unfolding FinalizeTask_def Let_def
  by (erule transaction_cases) (auto simp: journal_def split: option.splits if_splits)

text \<open>What a step does to the work units: moves along the table, or one unit more.\<close>

lemma step_moves:
  assumes "store_step cx s s'"
  shows "units_move (set workUnitTransitions) s s' \<or> (\<exists>w now. db_units s' = db_units s @ [new_unit cx w now])"
proof -
  let ?moved = "units_move (set workUnitTransitions) s s'"
  have old: ?thesis if "units_move T s s'" "T \<subseteq> set workUnitTransitions" for T
    using units_move_mono [OF that] by blast
  from assms show ?thesis
  proof cases
    case (create_unit fault w q)
    then show ?thesis using CreateWorkUnit_moves [of cx fault w s q s' "set workUnitTransitions"] by auto
  next
    case (transition_unit fault task u "from" to reason r)
    from old [OF TransitionWorkUnit_moves [OF this]] show ?thesis by (simp split: if_splits)
  next
    case (reset_units fault task reason n)
    from old [OF ResetInterruptedWorkUnits_moves [OF this]] show ?thesis by (simp add: workUnitTransitions_def)
  next
    case (reconcile_units faults task reason n)
    from old [OF ReconcileUncertainWorkUnits_moves [OF this]] show ?thesis by (simp add: workUnitTransitions_def)
  next
    case (tick t)
    then show ?thesis by simp
  qed ((rule disjI1, rule silent_moves, (erule silent_operations; assumption))
      | (rule disjI1, (erule CreateTask_units FinalizeTask_units task_operations_units)))+
qed

text \<open>C28: the lifecycle is closed. A step leaves every unit in place with the definition it was created
  with, and moves its status along one transition of the table or not at all; a unit that appears
  is in its first state. So completed and failed units stay as they are.\<close>

theorem units_move_along_the_lifecycle:
  assumes "store_step cx s s'"
  shows "\<exists>old new. db_units s' = old @ new \<and> list_all2 (moves (set workUnitTransitions)) (db_units s) old
     \<and> length new \<le> 1 \<and> list_all (\<lambda>u. wu_Status u = ''created'') new"
  using step_moves [OF assms]
proof (elim disjE exE)
  assume "units_move (set workUnitTransitions) s s'"
  then show ?thesis by (intro exI [of _ "db_units s'"] exI [of _ "[]"]) (simp add: units_move_def)
next
  fix w now
  assume "db_units s' = db_units s @ [new_unit cx w now]"
  then show ?thesis
    by (intro exI [of _ "db_units s"] exI [of _ "[new_unit cx w now]"]) (simp add: new_unit_def list_all2_refl)
qed

theorem units_move_along_the_lifecycle_witness:
  "\<exists>old new. db_units demo_completed = old @ new
     \<and> list_all2 (moves (set workUnitTransitions)) (db_units demo_verified) old"
  using units_move_along_the_lifecycle [OF demo_finalized] by blast

section \<open>Approvals\<close>

lemma list_ex_find: "list_ex P xs \<longleftrightarrow> find P xs \<noteq> None"
  by (induction xs) auto

text \<open>The approvals after an upsert: the decision of the row for its key, the old rows for the others.\<close>

abbreviation decided :: "string \<Rightarrow> string \<Rightarrow> ApprovalRow list \<Rightarrow> (string \<times> string) option" where
  "decided task fp rows \<equiv> map_option (\<lambda>w. (av_decision w, av_reason w)) (find (\<lambda>w. av_task_id w = task \<and> av_fingerprint w = fp) rows)"

lemma upsert_lookup:
  assumes "upsert_approval v rows = Inr rows'"
  shows "decided task fp rows' =
     (if av_task_id v = task \<and> av_fingerprint v = fp then Some (av_decision v, av_reason v) else decided task fp rows)"
proof -
  let ?k = "\<lambda>w. (av_task_id w, av_fingerprint w)"
  let ?P = "\<lambda>w. av_task_id w = task \<and> av_fingerprint w = fp"
  let ?same = "\<lambda>w. av_task_id w = av_task_id v \<and> av_fingerprint w = av_fingerprint v"
  have P: "?P = (\<lambda>w. ?k w = (task, fp))" by auto
  have snoc: "find ?P (xs @ [v]) = (case find ?P xs of None \<Rightarrow> if ?P v then Some v else None | Some y \<Rightarrow> Some y)" for xs
    by (induction xs) auto
  have key: "?k w = (task, fp)" if "find (\<lambda>w. ?k w = (task, fp)) xs = Some w" for w xs
    using that by (auto simp: find_Some_iff)
  show ?thesis
  proof (cases "list_ex ?same rows")
    case True
    let ?f = "\<lambda>w. w\<lparr>av_action_id := av_action_id v, av_decision := av_decision v,
                av_reason := av_reason v, av_actor := av_actor v, av_created_at := av_created_at v\<rparr>"
    have rows': "rows' = update_where ?same ?f rows"
      using assms True by (auto simp: upsert_approval_def Let_def split: if_splits)
    have f: "find (\<lambda>w. ?k w = (task, fp)) rows' = map_option (\<lambda>w. if ?same w then ?f w else w) (find (\<lambda>w. ?k w = (task, fp)) rows)"
      unfolding rows' by (rule find_update_where) simp
    show ?thesis
    proof (cases "find (\<lambda>w. ?k w = (task, fp)) rows")
      case None
      then have "\<not> ?P v" using True by (auto simp: list_ex_find)
      then show ?thesis unfolding P f None by simp
    next
      case (Some w)
      then show ?thesis using key [OF Some] unfolding P f Some by auto
    qed
  next
    case False
    then have "rows' = rows @ [v]" using assms by (auto simp: upsert_approval_def Let_def split: if_splits)
    moreover have "find ?P rows = None" if "?P v" using False that by (simp add: list_ex_find)
    ultimately show ?thesis by (auto simp: snoc split: option.splits)
  qed
qed

lemma upsert_decision: "upsert_approval v rows = Inr rows' \<Longrightarrow> av_decision v = ''approved'' \<or> av_decision v = ''rejected''"
  by (auto simp: upsert_approval_def Let_def split: if_splits)

lemma approvals_lookup:
  "storeApprovals None s task fp =
     (case decided task fp (db_approvals s) of
        None \<Rightarrow> (\<lparr>ap_Decision = [], ap_Reason = []\<rparr>, False, None)
      | Some (d, r) \<Rightarrow> (\<lparr>ap_Decision = d, ap_Reason = r\<rparr>, True, None))"
  by (simp add: storeApprovals_def Store_Approval_def split: option.splits)

lemma has_approval_lookup: "has_approval s task fp \<longleftrightarrow> decided task fp (db_approvals s) \<noteq> None"
  by (simp add: has_approval_def list_ex_find)

lemma RecordApproval_cases:
  assumes "RecordApproval cx fault r s = (Inr i, s')"
    and "find (\<lambda>a. ac_task_id a = ar_TaskID r \<and> ac_action_id a = ar_ActionID r) (db_actions s) = Some a"
  obtains j actor now where "effectiveFingerprint a \<noteq> []"
    "upsert_approval (approval_row cx r j (effectiveFingerprint a) actor now) (db_approvals s) = Inr (db_approvals s')"
  using assms(1) unfolding RecordApproval_def Let_def assms(2) option.case
  by (rule transaction_cases) (auto simp: journal_def split: if_splits sum.splits)

text \<open>The mode a policy has for a proposal, an unconfigured recipe counting as one to be approved, and a
  request for the action put to a policy that asks the store for approvals.\<close>

definition approval_mode :: "Static \<Rightarrow> PolicyRequest \<Rightarrow> Mode option" where
  "approval_mode p rq =
     (if pq_Recipe rq \<noteq> [] then Some (case map_get (st_recipeModes p) (pq_Recipe rq) of Some m \<Rightarrow> m | None \<Rightarrow> ModeApprovalRequired)
      else map_get (st_modes p) (pq_Tool rq))"

definition asks :: "Static \<Rightarrow> Store \<Rightarrow> string \<Rightarrow> string \<Rightarrow> PolicyRequest \<Rightarrow> bool" where
  "asks p s task fp rq \<longleftrightarrow> st_approvals p = Some (storeApprovals None s) \<and> pq_TaskID rq = task \<and> pq_Fingerprint rq = fp
     \<and> approval_mode p rq = Some ModeApprovalRequired"

lemma Evaluate_asking: "approval_mode p rq = Some ModeApprovalRequired \<Longrightarrow> Evaluate p rq = evaluateApproval p rq"
  by (auto simp: approval_mode_def Evaluate_def evaluateRecipe_def Let_def mode_defs split: if_splits)

lemma Evaluate_approvals_cong:
  assumes "f (pq_TaskID rq) (pq_Fingerprint rq) = h (pq_TaskID rq) (pq_Fingerprint rq)"
  shows "Evaluate (p\<lparr>st_approvals := Some f\<rparr>) rq = Evaluate (p\<lparr>st_approvals := Some h\<rparr>) rq"
  using assms by (auto simp: Evaluate_def evaluateRecipe_def evaluateApproval_def Let_def split: option.splits)

text \<open>C29: an operator's decision reaches the policy, and nothing else does. Recording a decision on an
  action makes the policy answer with that decision for the fingerprint of the action, for write
  tools and for recipes, whenever the mode of the proposal asks for approval; no row with that
  fingerprint is pending any more; and for every other task or fingerprint the approvals table and
  so the policy answer what they answered before.\<close>

theorem approvals_decide_their_action_only:
  assumes "RecordApproval cx fault r s = (Inr i, s')"
    and "find (\<lambda>a. ac_task_id a = ar_TaskID r \<and> ac_action_id a = ar_ActionID r) (db_actions s) = Some a"
    and "cx_redact cx (effectiveFingerprint a) = effectiveFingerprint a" "cx_redact cx (ar_Decision r) = ar_Decision r"
  shows "(asks p s' (ar_TaskID r) (effectiveFingerprint a) rq
        \<longrightarrow> po_Decision (Evaluate p rq) = (if ar_Decision r = ''approved'' then Allowed else Denied))
    \<and> (\<forall>(d, b) \<in> set (pending_rows s' (ar_TaskID r)). effectiveFingerprint b \<noteq> effectiveFingerprint a)
    \<and> ((pq_TaskID rq, pq_Fingerprint rq) \<noteq> (ar_TaskID r, effectiveFingerprint a) \<longrightarrow>
         Evaluate (p\<lparr>st_approvals := Some (storeApprovals None s')\<rparr>) rq = Evaluate (p\<lparr>st_approvals := Some (storeApprovals None s)\<rparr>) rq)
    \<and> (\<forall>task fp. (task, fp) \<noteq> (ar_TaskID r, effectiveFingerprint a) \<longrightarrow>
         storeApprovals None s' task fp = storeApprovals None s task fp)"
proof -
  obtain j actor now where up: "effectiveFingerprint a \<noteq> []"
    "upsert_approval (approval_row cx r j (effectiveFingerprint a) actor now) (db_approvals s) = Inr (db_approvals s')"
    using assms(1,2) by (rule RecordApproval_cases)
  note look = upsert_lookup [OF up(2)]
  have dec: "ar_Decision r = ''approved'' \<or> ar_Decision r = ''rejected''"
    using upsert_decision [OF up(2)] assms(4) by (simp add: approval_row_def)
  have "asks p s' (ar_TaskID r) (effectiveFingerprint a) rq
        \<longrightarrow> po_Decision (Evaluate p rq) = (if ar_Decision r = ''approved'' then Allowed else Denied)"
    using dec up(1) assms(3,4)
    by (auto simp: asks_def Evaluate_asking evaluateApproval_def approvals_lookup look approval_row_def outcome_def)
  moreover have "\<forall>(d, b) \<in> set (pending_rows s' (ar_TaskID r)). effectiveFingerprint b \<noteq> effectiveFingerprint a"
    using assms(3) by (auto simp: pending_rows_def has_approval_lookup look approval_row_def)
  moreover have other: "\<forall>task fp. (task, fp) \<noteq> (ar_TaskID r, effectiveFingerprint a) \<longrightarrow>
         storeApprovals None s' task fp = storeApprovals None s task fp"
    using assms(3) by (auto simp: approvals_lookup look approval_row_def)
  moreover have "(pq_TaskID rq, pq_Fingerprint rq) \<noteq> (ar_TaskID r, effectiveFingerprint a) \<longrightarrow>
         Evaluate (p\<lparr>st_approvals := Some (storeApprovals None s')\<rparr>) rq = Evaluate (p\<lparr>st_approvals := Some (storeApprovals None s)\<rparr>) rq"
    using Evaluate_approvals_cong other by blast
  ultimately show ?thesis by blast
qed

theorem approvals_decide_their_action_only_witness:
  "po_Decision (Evaluate (demo_policy demo_approved) demo_request) = Allowed
   \<and> po_Decision (Evaluate (demo_policy demo_approved) (demo_request\<lparr>pq_Recipe := ''test''\<rparr>)) = Allowed
   \<and> pending_rows demo_approved ''t'' = []"
proof -
  let ?a = "hd (db_actions demo_pending)" and ?p = "demo_policy demo_approved"
  have fp: "effectiveFingerprint ?a = ''f''" by code_simp
  have "find (\<lambda>a. ac_task_id a = ar_TaskID demo_approval \<and> ac_action_id a = ar_ActionID demo_approval) (db_actions demo_pending) = Some ?a"
    by code_simp
  from approvals_decide_their_action_only [OF demo_approval_recorded this, of ?p]
  have "asks ?p demo_approved ''t'' ''f'' rq \<longrightarrow> po_Decision (Evaluate ?p rq) = Allowed" for rq
    by (simp add: fp demo_codec_def demo_approval_def)
  moreover have "asks ?p demo_approved ''t'' ''f'' demo_request" "asks ?p demo_approved ''t'' ''f'' (demo_request\<lparr>pq_Recipe := ''test''\<rparr>)"
    by (simp_all add: asks_def approval_mode_def demo_policy_def demo_request_def)
  moreover have "pending_rows demo_approved ''t'' = []" by code_simp
  ultimately show ?thesis by blast
qed

section \<open>The durable projection of the governor\<close>

lemma load_append [simp]: "loadGovernorState cx (appendEvent cx' task kind payload s) = loadGovernorState cx s"
  by (cases "db_governor s") (simp_all add: loadGovernorState_def appendEvent_def)

lemma load_attempts [simp]: "loadGovernorState cx (s\<lparr>db_provider_attempts := rows\<rparr>) = loadGovernorState cx s"
  by (cases "db_governor s") (simp_all add: loadGovernorState_def)

text \<open>What a finished provider attempt leaves is what the next process restores: reading the
  projection back gives the state that was saved with the outcome.\<close>

theorem finished_attempt_leaves_its_projection:
  assumes "times_round_trip cx" "RecordProviderFinished cx fault r s = (Inr (), s')"
  shows "loadGovernorState cx s' = Some (as_stored (pf_State r))"
proof -
  obtain t u where u: "saveGovernorStateInTx cx (pf_State r) (now_text cx s) t = Inr u"
    and e: "\<exists>k p. s' = appendEvent cx (pf_TaskID r) k p u"
    using assms(2) unfolding RecordProviderFinished_def Let_def
    by (rule transaction_cases) (auto simp: journal_def split: sum.splits if_splits)
  have "loadGovernorState cx s' = loadGovernorState cx u" using e by auto
  then show ?thesis using load_save [OF assms(1) u] by simp
qed

theorem finished_attempt_leaves_its_projection_witness:
  "loadGovernorState demo_codec demo_finished = Some (as_stored (charge ''t'' 5 bootstrap_projection))"
  using finished_attempt_leaves_its_projection [OF demo_times demo_finish_recorded] by (simp add: demo_finished_record_def)

lemma charged_projection:
  assumes "times_round_trip cx" "applyConservativeGovernorDebit cx wall task at s = Inr t"
  shows "loadGovernorState cx t = Some (as_stored (charge task (if is_zero at then wall else at)
     (case loadGovernorState cx s of None \<Rightarrow> bootstrap_projection | Some p \<Rightarrow> p)))"
  using assms(2) by (intro load_save [OF assms(1)]) (simp add: applyConservativeGovernorDebit_def Let_def)

lemma debit_attempts:
  "applyConservativeGovernorDebit cx wall task at s = Inr s' \<Longrightarrow> db_provider_attempts s' = db_provider_attempts s"
  using debit_save save_frame(5) by blast

lemma ReconcileProviderAttempt_debit:
  assumes "ReconcileProviderAttempt cx fault wall r s = (Inr (), s')" "rp_ApplyConservativeDebit r"
  shows "\<exists>rows u. applyConservativeGovernorDebit cx wall (rp_TaskID r) (rp_DebitAt r) (s\<lparr>db_provider_attempts := rows\<rparr>) = Inr u
     \<and> loadGovernorState cx s' = loadGovernorState cx u \<and> db_provider_attempts s' = rows
     \<and> (\<forall>p \<in> set rows. pa_execution_id p = rp_ExecutionID r \<and> pa_task_id p = rp_TaskID r \<longrightarrow>
          pa_status p = rp_Status r \<or> pa_status p \<notin> set reconcilable_provider)"
proof -
  let ?P = "\<lambda>p. pa_execution_id p = rp_ExecutionID r \<and> pa_task_id p = rp_TaskID r \<and> pa_status p \<in> set reconcilable_provider"
  let ?rows = "update_where ?P (\<lambda>p. p\<lparr>pa_status := rp_Status r,
             pa_recovery_reason := cx_redact cx (rp_Reason r), pa_uncertain := rp_Uncertain r,
             pa_attempt_debited := rp_AttemptDebited r, pa_completed_at := now_text cx s\<rparr>) (db_provider_attempts s)"
  obtain u where u: "applyConservativeGovernorDebit cx wall (rp_TaskID r) (rp_DebitAt r) (s\<lparr>db_provider_attempts := ?rows\<rparr>) = Inr u"
    and s': "\<exists>k p. s' = appendEvent cx (rp_TaskID r) k p u"
    using assms(1) unfolding ReconcileProviderAttempt_def Let_def if_P [OF assms(2)]
    by (rule transaction_cases) (auto simp: journal_def split: if_splits sum.splits)
  have "db_provider_attempts s' = ?rows" using debit_attempts [OF u] s' by auto
  moreover have "\<forall>p \<in> set ?rows. pa_execution_id p = rp_ExecutionID r \<and> pa_task_id p = rp_TaskID r \<longrightarrow>
          pa_status p = rp_Status r \<or> pa_status p \<notin> set reconcilable_provider"
  proof
    fix p
    assume "p \<in> set ?rows"
    then have "\<not> ?P p \<or> pa_status p = rp_Status r" by (rule update_where_cases) simp_all
    then show "pa_execution_id p = rp_ExecutionID r \<and> pa_task_id p = rp_TaskID r \<longrightarrow>
          pa_status p = rp_Status r \<or> pa_status p \<notin> set reconcilable_provider" by auto
  qed
  moreover have "loadGovernorState cx s' = loadGovernorState cx u" using s' by auto
  ultimately show ?thesis using u by blast
qed

text \<open>C30: an interrupted attempt is charged, and once. Reconciling it with the conservative debit adds one
  event to the stored ledger, counts one attempt of the task and marks the telemetry unsafe; and
  when its new status is final, reconciling it again is refused and changes nothing.\<close>

theorem interrupted_attempt_is_charged_once:
  assumes "times_round_trip cx" "ReconcileProviderAttempt cx fault wall r s = (Inr (), s')" "rp_ApplyConservativeDebit r"
    and "loadGovernorState cx s = Some p" "\<not> is_zero (rp_DebitAt r)" "rp_Status r \<notin> set reconcilable_provider"
    and "rp_ExecutionID q = rp_ExecutionID r"  "rp_TaskID q = rp_TaskID r"
  shows "(\<exists>p'. loadGovernorState cx s' = Some p' \<and> pt_Unsafe (ps_Telemetry p')
       \<and> ps_RollingEvents p' = ps_RollingEvents p @ [\<lparr>le_at = rp_DebitAt r, le_taskID = rp_TaskID r\<rparr>])
     \<and> (\<exists>e. ReconcileProviderAttempt cx fault' wall' q s' = (Inl e, s'))"
proof -
  obtain rows u where
    u: "applyConservativeGovernorDebit cx wall (rp_TaskID r) (rp_DebitAt r) (s\<lparr>db_provider_attempts := rows\<rparr>) = Inr u"
    and s': "loadGovernorState cx s' = loadGovernorState cx u" "db_provider_attempts s' = rows"
    and final: "\<forall>p \<in> set rows. pa_execution_id p = rp_ExecutionID r \<and> pa_task_id p = rp_TaskID r \<longrightarrow>
          pa_status p = rp_Status r \<or> pa_status p \<notin> set reconcilable_provider"
    using ReconcileProviderAttempt_debit [OF assms(2,3)] by blast
  have "loadGovernorState cx s' = Some (as_stored (charge (rp_TaskID r) (rp_DebitAt r) p))"
    using charged_projection [OF assms(1) u] assms(4,5) by (simp add: s')
  then have "\<exists>p'. loadGovernorState cx s' = Some p' \<and> pt_Unsafe (ps_Telemetry p')
       \<and> ps_RollingEvents p' = ps_RollingEvents p @ [\<lparr>le_at = rp_DebitAt r, le_taskID = rp_TaskID r\<rparr>]"
    by (simp add: as_stored_def charge_def)
  moreover have "affected (\<lambda>p. pa_execution_id p = rp_ExecutionID q \<and> pa_task_id p = rp_TaskID q \<and> pa_status p \<in> set reconcilable_provider)
      (db_provider_attempts s') = 0"
    unfolding affected_zero s'(2) assms(7,8) using final assms(6) by auto
  then have "\<exists>e. ReconcileProviderAttempt cx fault' wall' q s' = (Inl e, s')"
    by (simp add: ReconcileProviderAttempt_def Let_def transaction_def split: option.splits)
  ultimately show ?thesis by blast
qed

theorem interrupted_attempt_is_charged_once_witness:
  "map_option ps_RollingEvents (loadGovernorState demo_codec demo_reconciled) = Some [\<lparr>le_at = 5, le_taskID = ''t''\<rparr>]
     \<and> (\<exists>e. ReconcileProviderAttempt demo_codec None 0 demo_reconcile demo_reconciled = (Inl e, demo_reconciled))"
proof -
  obtain p where p: "loadGovernorState demo_codec demo_in_flight = Some p" "ps_RollingEvents p = []"
  proof -
    have "map_option ps_RollingEvents (loadGovernorState demo_codec demo_in_flight) = Some []" by code_simp
    then show ?thesis using that by auto
  qed
  have "\<not> is_zero (rp_DebitAt demo_reconcile)" "rp_Status demo_reconcile \<notin> set reconcilable_provider"
    "rp_ApplyConservativeDebit demo_reconcile" by code_simp+
  from interrupted_attempt_is_charged_once [OF demo_times demo_reconcile_recorded this(3) p(1) this(1,2) refl refl, of None 0] p(2)
  show ?thesis by (auto simp: demo_reconcile_def)
qed

end
