(* ===== verification/WorkUnit_Order.thy ===== *)
theory WorkUnit_Order
  imports Prelude "HOL-Library.Multiset"
begin

text \<open>
  The operator's work-unit definitions and the order in which they are created
  (\<open>internal/workunit/driver.go\<close>, \<open>topologicalDefinitions\<close>): counting the edges inside the batch and
  removing, again and again, the smallest definition without open predecessors. The loop ends for
  every input, by a measure; its order is shown to be a permutation that puts every dependency and
  parent first, and its failure to be a repeated id or a cycle.
\<close>

section \<open>Definitions and their graph\<close>

record Definition =
  df_WorkUnitID :: string
  df_Objective :: string
  df_ParentWorkUnitID :: string
  df_Dependencies :: "string list"
  df_Tools :: "string list option"
  df_WorkspaceScope :: string
  df_AcceptancePlan :: string
  df_ContextBudget :: int
  df_ProviderBudget :: int
  df_StepBudget :: int

datatype order_error = DuplicateDefinition string | DefinitionCycle int

fun index_definitions :: "Definition list \<Rightarrow> Definition gomap \<Rightarrow> order_error + Definition gomap" where
  "index_definitions [] m = Inr m"
| "index_definitions (d # ds) m =
     (if map_get m (df_WorkUnitID d) \<noteq> None then Inl (DuplicateDefinition (df_WorkUnitID d))
      else index_definitions ds (map_put (df_WorkUnitID d) d m))"

record graph =
  outgoing :: "string list gomap"
  indegree :: "int gomap"

definition deg :: "int gomap \<Rightarrow> string \<Rightarrow> int" where
  "deg m k = (case map_get m k of None \<Rightarrow> 0 | Some v \<Rightarrow> v)"

definition succs :: "string list gomap \<Rightarrow> string \<Rightarrow> string list" where
  "succs m k = (case map_get m k of None \<Rightarrow> [] | Some v \<Rightarrow> v)"

text \<open>The predecessors of a definition inside the batch: its dependencies, then its parent.\<close>

definition batch_preds :: "Definition gomap \<Rightarrow> Definition \<Rightarrow> string list" where
  "batch_preds byID d =
     filter (\<lambda>dep. map_get byID dep \<noteq> None) (df_Dependencies d)
     @ (if \<not> is_blank (df_ParentWorkUnitID d) \<and> map_get byID (df_ParentWorkUnitID d) \<noteq> None
        then [df_ParentWorkUnitID d] else [])"

definition add_edge :: "string \<Rightarrow> graph \<Rightarrow> string \<Rightarrow> graph" where
  "add_edge n g p = g\<lparr>outgoing := map_put p (succs (outgoing g) p @ [n]) (outgoing g),
     indegree := map_put n (deg (indegree g) n + 1) (indegree g)\<rparr>"

definition batch_graph :: "Definition gomap \<Rightarrow> Definition list \<Rightarrow> graph" where
  "batch_graph byID ds =
     foldl (\<lambda>g d. foldl (add_edge (df_WorkUnitID d)) g (batch_preds byID d)) \<lparr>outgoing = [], indegree = []\<rparr> ds"

section \<open>The loop\<close>

fun release :: "string list \<Rightarrow> string list \<Rightarrow> int gomap \<Rightarrow> string list \<times> int gomap" where
  "release [] queue m = (queue, m)"
| "release (n # ns) queue m =
     (let v = deg m n - 1 in release ns (if v = 0 then queue @ [n] else queue) (map_put n v m))"

lemma deg_put [simp]: "deg (map_put n v m) k = (if k = n then v else deg m k)"
  by (simp add: deg_def)

abbreviation open_nodes :: "int gomap \<Rightarrow> string set" where
  "open_nodes m \<equiv> {k. 0 < deg m k}"

lemma finite_open [simp]: "finite (open_nodes m)"
proof (rule finite_subset)
  show "open_nodes m \<subseteq> set (map fst m)"
    by (auto simp: deg_def split: option.splits dest: map_of_SomeD intro: rev_image_eqI)
qed simp

lemma release_measure:
  "length (fst (release ns queue m)) + card (open_nodes (snd (release ns queue m))) \<le> length queue + card (open_nodes m)"
proof (induction ns queue m rule: release.induct)
  case (2 n ns queue m)
  let ?v = "deg m n - 1" and ?m = "map_put n (deg m n - 1) m"
  have "open_nodes ?m = (if 0 < ?v then open_nodes m else open_nodes m - {n})" by auto
  moreover have "card (open_nodes m - {n}) = card (open_nodes m) - 1 \<and> 0 < card (open_nodes m)" if "?v = 0"
    using that by (auto simp: card_gt_0_iff intro!: exI [of _ n])
  moreover have "card (open_nodes m - {n}) \<le> card (open_nodes m)" by (simp add: card_Diff_subset_Int diff_le_self)
  ultimately have "length (if ?v = 0 then queue @ [n] else queue) + card (open_nodes ?m) \<le> length queue + card (open_nodes m)"
    by auto
  then show ?case using "2.IH" [OF refl] by (simp add: Let_def)
qed simp

function order_loop :: "string list gomap \<Rightarrow> (string \<Rightarrow> 'a) \<Rightarrow> string list \<Rightarrow> int gomap \<Rightarrow> 'a list \<Rightarrow> 'a list" where
  "order_loop out emit queue m ordered =
     (case sort queue of
        [] \<Rightarrow> ordered
      | current # rest \<Rightarrow>
          (let r = release (sort (succs out current)) rest m
           in order_loop out emit (fst r) (snd r) (ordered @ [emit current])))"
  by auto

termination
proof (relation "measure (\<lambda>(out, emit, queue, m, ordered). length queue + card (open_nodes m))")
  fix out :: "string list gomap" and emit :: "string \<Rightarrow> 'a" and queue rest current m r and ordered :: "'a list"
  assume s: "sort queue = current # rest" and r: "r = release (sort (succs out current)) rest m"
  have "length queue = Suc (length rest)" using arg_cong [OF s, of length] by simp
  then show "((out, emit, fst r, snd r, ordered @ [emit current]), (out, emit, queue, m, ordered))
      \<in> measure (\<lambda>(out, emit, queue, m, ordered). length queue + card (open_nodes m))"
    using release_measure [of "sort (succs out current)" rest m] r by simp
qed simp

declare order_loop.simps [simp del]

definition topologicalDefinitions :: "Definition list \<Rightarrow> order_error + Definition list" where
  "topologicalDefinitions ds =
     (case index_definitions ds [] of
        Inl e \<Rightarrow> Inl e
      | Inr byID \<Rightarrow>
          (let g = batch_graph byID ds;
               queue = filter (\<lambda>n. deg (indegree g) n = 0) (map df_WorkUnitID ds);
               ordered = order_loop (outgoing g) (\<lambda>n. the (map_get byID n)) queue (indegree g) []
           in if length ordered \<noteq> length ds then Inl (DefinitionCycle (int (length ds) - int (length ordered)))
              else Inr ordered))"

section \<open>The graph of a batch\<close>

text \<open>The edges of a batch, with their multiplicity.\<close>

definition edge_list :: "Definition gomap \<Rightarrow> Definition list \<Rightarrow> (string \<times> string) list" where
  "edge_list byID ds = concat (map (\<lambda>d. map (\<lambda>p. (p, df_WorkUnitID d)) (batch_preds byID d)) ds)"

definition edges_open :: "(string \<times> string) list \<Rightarrow> string set \<Rightarrow> string \<Rightarrow> nat" where
  "edges_open es gone n = length (filter (\<lambda>(p, m). m = n \<and> p \<notin> gone) es)"

lemma succs_put [simp]: "succs (map_put p v m) k = (if k = p then v else succs m k)"
  by (simp add: succs_def)

lemma add_edges:
  "succs (outgoing (foldl (\<lambda>g (p, n). add_edge n g p) g es)) q = succs (outgoing g) q @ map snd (filter (\<lambda>(p, n). p = q) es)"
  "deg (indegree (foldl (\<lambda>g (p, n). add_edge n g p) g es)) k = deg (indegree g) k + int (edges_open es {} k)"
  by (induction es arbitrary: g) (auto simp: add_edge_def edges_open_def split: prod.splits)

lemma batch_graph_edges: "batch_graph byID ds = foldl (\<lambda>g (p, n). add_edge n g p) \<lparr>outgoing = [], indegree = []\<rparr> (edge_list byID ds)"
proof -
  have inner: "foldl (add_edge n) g ps = foldl (\<lambda>g (p, n). add_edge n g p) g (map (\<lambda>p. (p, n)) ps)" for n g ps
    by (induction ps arbitrary: g) auto
  have "foldl (\<lambda>g d. foldl (add_edge (df_WorkUnitID d)) g (batch_preds byID d)) g ds =
      foldl (\<lambda>g (p, n). add_edge n g p) g (edge_list byID ds)" for g
    by (induction ds arbitrary: g) (auto simp: edge_list_def inner)
  then show ?thesis by (simp add: batch_graph_def)
qed

lemma batch_graph_spec:
  "succs (outgoing (batch_graph byID ds)) q = map snd (filter (\<lambda>(p, n). p = q) (edge_list byID ds))"
  "deg (indegree (batch_graph byID ds)) k = int (edges_open (edge_list byID ds) {} k)"
  unfolding batch_graph_edges add_edges by (simp_all add: succs_def deg_def)

section \<open>The invariant of the loop\<close>

lemma release_spec:
  assumes "\<And>n. n \<in> set ns \<Longrightarrow> int (count_list ns n) \<le> deg m n"
  shows "\<exists>new. fst (release ns queue m) = queue @ new \<and> distinct new
     \<and> set new = {n \<in> set ns. deg m n = int (count_list ns n)}
     \<and> (\<forall>n. deg (snd (release ns queue m)) n = deg m n - int (count_list ns n))"
  using assms
proof (induction ns queue m rule: release.induct)
  case (2 n ns queue m)
  let ?m = "map_put n (deg m n - 1) m" and ?q = "if deg m n - 1 = 0 then queue @ [n] else queue"
  have "int (count_list ns k) \<le> deg ?m k" if "k \<in> set ns" for k using "2.prems" [of k] that by (auto split: if_splits)
  from "2.IH" [OF refl, of, OF this] obtain new where new: "fst (release ns ?q ?m) = ?q @ new" "distinct new"
    "set new = {k \<in> set ns. deg ?m k = int (count_list ns k)}"
    "\<forall>k. deg (snd (release ns ?q ?m)) k = deg ?m k - int (count_list ns k)" by auto
  have n: "n \<notin> set ns" if "deg m n = 1"
  proof
    assume "n \<in> set ns"
    then have "0 < count_list ns n" by (metis count_list_0_iff gr0I)
    then show False using "2.prems" [of n] that by simp
  qed
  show ?case
  proof (cases "deg m n = 1")
    case True
    then show ?thesis using new n [OF True] by (intro exI [of _ "n # new"]) (auto simp: Let_def count_list_0_iff)
  next
    case False
    have "n \<notin> set new \<or> n \<in> set ns" using new(3) by blast
    moreover have "count_list ns n = 0 \<longleftrightarrow> n \<notin> set ns" by (simp add: count_list_0_iff)
    ultimately show ?thesis using new False by (intro exI [of _ new]) (auto simp: Let_def)
  qed
qed simp

text \<open>
  The state of the loop over the edges \<open>es\<close> and the nodes \<open>vs\<close>: every counter is the number of
  edges from nodes that are not out yet, what is out or queued is what has no such edge, and what
  is out has its predecessors before it.
\<close>

definition loop_inv :: "(string \<times> string) list \<Rightarrow> string set \<Rightarrow> string list \<Rightarrow> int gomap \<Rightarrow> string list \<Rightarrow> bool" where
  "loop_inv es vs queue m ordered \<longleftrightarrow>
     distinct (ordered @ queue) \<and> (\<forall>n. deg m n = int (edges_open es (set ordered) n))
     \<and> set (ordered @ queue) = {n \<in> vs. edges_open es (set ordered) n = 0}
     \<and> (\<forall>i < length ordered. \<forall>p. (p, ordered ! i) \<in> set es \<longrightarrow> p \<in> set (take i ordered))"

lemma edges_open_zero: "edges_open es gone n = 0 \<longleftrightarrow> (\<forall>p. (p, n) \<in> set es \<longrightarrow> p \<in> gone)"
  by (auto simp: edges_open_def filter_empty_conv)

lemma edges_open_insert:
  assumes "c \<notin> gone"
  shows "edges_open es gone n = edges_open es (insert c gone) n + count_list (map snd (filter (\<lambda>(p, n). p = c) es)) n"
  using assms by (induction es) (auto simp: edges_open_def)

lemma loop_step:
  assumes "loop_inv es vs queue m ordered" "sort queue = c # rest" "\<forall>(p, n) \<in> set es. n \<in> vs"
    and "\<And>q. succs out q = map snd (filter (\<lambda>(p, n). p = q) es)"
  shows "loop_inv es vs (fst (release (sort (succs out c)) rest m)) (snd (release (sort (succs out c)) rest m)) (ordered @ [c])"
proof -
  let ?ns = "sort (succs out c)" and ?o = "ordered @ [c]"
  have q1: "set queue = insert c (set rest)" using arg_cong [OF assms(2), of set] by simp
  have q2: "distinct (c # rest)" using assms(1) arg_cong [OF assms(2), of distinct] by (simp add: loop_inv_def)
  have q: "set queue = insert c (set rest)" "distinct (c # rest)" "set ordered \<inter> set (c # rest) = {}"
    using assms(1) q1 q2 by (auto simp: loop_inv_def)
  have d: "deg m n = int (edges_open es (set ordered) n)" for n using assms(1) by (simp add: loop_inv_def)
  have cnt: "count_list ?ns n = count_list (map snd (filter (\<lambda>(p, n). p = c) es)) n" for n
    by (metis assms(4) count_mset mset_sort)
  have opn: "edges_open es (set ordered) n = edges_open es (set ?o) n + count_list ?ns n" for n
    using edges_open_insert [of c "set ordered" es n] q(3) by (simp add: cnt)
  obtain new where new: "fst (release ?ns rest m) = rest @ new" "distinct new"
    "set new = {n \<in> set ?ns. deg m n = int (count_list ?ns n)}"
    "\<And>n. deg (snd (release ?ns rest m)) n = deg m n - int (count_list ?ns n)"
    using release_spec [of ?ns m rest] by (auto simp: d opn)
  have zero: "edges_open es (set ordered) n = 0 \<longleftrightarrow> n \<in> set ordered \<or> n \<in> insert c (set rest)" if "n \<in> vs" for n
    using assms(1) q(1) that by (auto simp: loop_inv_def)
  have old: "n \<in> vs" "edges_open es (set ordered) n = 0" if "n \<in> set ordered \<or> n \<in> insert c (set rest)" for n
    using assms(1) q(1) that by (auto simp: loop_inv_def)
  have pos: "n \<in> set ?ns \<longleftrightarrow> count_list ?ns n \<noteq> 0" for n by (metis count_list_0_iff)
  have ns: "n \<in> vs" if "n \<in> set ?ns" for n using that assms(3) by (auto simp: assms(4))
  have newset: "set new = {n \<in> vs. edges_open es (set ?o) n = 0 \<and> edges_open es (set ordered) n \<noteq> 0}"
  proof (rule set_eqI)
    fix n
    have "n \<in> set new \<longleftrightarrow> n \<in> set ?ns \<and> edges_open es (set ?o) n = 0" using opn [of n] by (auto simp: new(3) d)
    also have "\<dots> \<longleftrightarrow> n \<in> vs \<and> edges_open es (set ?o) n = 0 \<and> edges_open es (set ordered) n \<noteq> 0"
      using opn [of n] pos [of n] ns [of n] by auto
    finally show "n \<in> set new \<longleftrightarrow> n \<in> {n \<in> vs. edges_open es (set ?o) n = 0 \<and> edges_open es (set ordered) n \<noteq> 0}" by simp
  qed
  have "distinct (?o @ rest @ new)"
    using q new(2) assms(1) old newset by (auto simp: loop_inv_def)
  moreover have "set (?o @ rest @ new) = {n \<in> vs. edges_open es (set ?o) n = 0}"
    using old zero newset opn by (auto simp: trans_less_add1) 
  moreover have "\<forall>i < length ?o. \<forall>p. (p, ?o ! i) \<in> set es \<longrightarrow> p \<in> set (take i ?o)"
    using assms(1) old(2) [of c] by (auto simp: loop_inv_def nth_append edges_open_zero less_Suc_eq)
  ultimately show ?thesis using new(1,4) d opn by (simp add: loop_inv_def)
qed

lemma order_loop_inv:
  assumes "loop_inv es vs queue m ordered" "\<forall>(p, n) \<in> set es. n \<in> vs"
    and "\<And>q. succs out q = map snd (filter (\<lambda>(p, n). p = q) es)"
  shows "\<exists>m'. loop_inv es vs [] m' (order_loop out id queue m ordered)"
  using assms(1)
proof (induction "length queue + card (open_nodes m)" arbitrary: queue m ordered rule: less_induct)
  case less
  show ?case
  proof (cases "sort queue")
    case Nil
    then have "queue = []" by (metis length_0_conv length_sort)
    then show ?thesis using less.prems by (subst order_loop.simps) auto
  next
    case (Cons c rest)
    let ?r = "release (sort (succs out c)) rest m"
    have "length queue = Suc (length rest)" using arg_cong [OF Cons, of length] by simp
    then have "length (fst ?r) + card (open_nodes (snd ?r)) < length queue + card (open_nodes m)"
      using release_measure [of "sort (succs out c)" rest m] by simp
    from less.hyps [OF this loop_step [OF less.prems Cons assms(2,3)]] show ?thesis
      by (subst order_loop.simps) (simp add: Cons Let_def)
  qed
qed

text \<open>Whatever is collected for a node is collected in the order of the nodes.\<close>

lemma order_loop_emit: "order_loop out emit queue m (map emit ordered) = map emit (order_loop out id queue m ordered)"
proof (induction "length queue + card (open_nodes m)" arbitrary: queue m ordered rule: less_induct)
  case less
  show ?case
  proof (cases "sort queue")
    case Nil
    then show ?thesis by (simp add: order_loop.simps)
  next
    case (Cons c rest)
    let ?r = "release (sort (succs out c)) rest m"
    have "length queue = Suc (length rest)" using arg_cong [OF Cons, of length] by simp
    then have "length (fst ?r) + card (open_nodes (snd ?r)) < length queue + card (open_nodes m)"
      using release_measure [of "sort (succs out c)" rest m] by simp
    from less.hyps [OF this, of "ordered @ [c]"] show ?thesis
      by (subst (1 2) order_loop.simps) (simp add: Cons Let_def)
  qed
qed

section \<open>Indexing\<close>

lemma index_definitions_Inr:
  "index_definitions ds m = Inr byID \<Longrightarrow>
     distinct (map df_WorkUnitID ds) \<and> (\<forall>d \<in> set ds. map_get m (df_WorkUnitID d) = None \<and> map_get byID (df_WorkUnitID d) = Some d)
     \<and> (\<forall>k. k \<notin> df_WorkUnitID ` set ds \<longrightarrow> map_get byID k = map_get m k)"
proof (induction ds arbitrary: m)
  case (Cons d ds)
  then have new: "map_get m (df_WorkUnitID d) = None" and rest: "index_definitions ds (map_put (df_WorkUnitID d) d m) = Inr byID"
    by (auto split: if_splits)
  note ih = Cons.IH [OF rest]
  have fresh: "df_WorkUnitID d \<notin> df_WorkUnitID ` set ds" using ih by auto
  then show ?case using ih new by (auto split: if_splits)
qed simp

lemma index_definitions_total:
  "distinct (map df_WorkUnitID ds) \<Longrightarrow> \<forall>d \<in> set ds. map_get m (df_WorkUnitID d) = None \<Longrightarrow>
     \<exists>byID. index_definitions ds m = Inr byID"
proof (induction ds arbitrary: m)
  case (Cons d ds)
  have "\<forall>e \<in> set ds. map_get (map_put (df_WorkUnitID d) d m) (df_WorkUnitID e) = None"
    using Cons.prems by (auto simp: image_iff)
  then show ?case using Cons.IH [of "map_put (df_WorkUnitID d) d m"] Cons.prems by simp
qed simp

text \<open>The edges of the batch as a relation, from the definitions alone.\<close>

definition batch_edges :: "Definition list \<Rightarrow> (string \<times> string) set" where
  "batch_edges ds = {(p, df_WorkUnitID d) | p d. d \<in> set ds \<and> p \<in> df_WorkUnitID ` set ds
     \<and> (p \<in> set (df_Dependencies d) \<or> p = df_ParentWorkUnitID d \<and> \<not> is_blank p)}"

lemma edge_list_set:
  assumes "index_definitions ds [] = Inr byID"
  shows "set (edge_list byID ds) = batch_edges ds"
proof -
  have "map_get byID k \<noteq> None \<longleftrightarrow> k \<in> df_WorkUnitID ` set ds" for k
    using index_definitions_Inr [OF assms] by force
  then have preds: "p \<in> set (batch_preds byID d) \<longleftrightarrow>
      p \<in> df_WorkUnitID ` set ds \<and> (p \<in> set (df_Dependencies d) \<or> p = df_ParentWorkUnitID d \<and> \<not> is_blank p)" for p d
    unfolding batch_preds_def set_append set_filter by (auto intro: rev_image_eqI)
  have "(p, n) \<in> set (edge_list byID ds) \<longleftrightarrow> (\<exists>d \<in> set ds. n = df_WorkUnitID d \<and> p \<in> set (batch_preds byID d))" for p n
    by (auto simp: edge_list_def)
  moreover have "(p, n) \<in> batch_edges ds \<longleftrightarrow> (\<exists>d \<in> set ds. n = df_WorkUnitID d \<and> p \<in> set (batch_preds byID d))" for p n
    unfolding preds batch_edges_def by blast
  ultimately show ?thesis unfolding set_eq_iff split_paired_All by blast
qed

lemma acyclic_source:
  assumes "finite V" "V \<noteq> {}" "acyclic R"
  shows "\<exists>n \<in> V. \<forall>p \<in> V. (p, n) \<notin> R"
proof -
  let ?R = "R \<inter> V \<times> V"
  have "wf ?R" using assms(1,3) by (intro finite_acyclic_wf) (auto intro: acyclic_subset)
  then obtain n where "n \<in> V" "\<And>p. (p, n) \<in> ?R \<Longrightarrow> p \<notin> V" using assms(2) by (metis all_not_in_conv wfE_min)
  then show ?thesis by blast
qed

lemma loop_inv_complete:
  assumes "loop_inv es vs [] m ordered" "finite vs" "acyclic (set es)" "\<forall>(p, n) \<in> set es. p \<in> vs"
  shows "vs \<subseteq> set ordered"
proof (rule ccontr)
  assume "\<not> ?thesis"
  then have "vs - set ordered \<noteq> {}" by blast
  from acyclic_source [OF _ this assms(3)] assms(2) obtain n where n: "n \<in> vs" "n \<notin> set ordered"
    "\<And>p. p \<in> vs - set ordered \<Longrightarrow> (p, n) \<notin> set es" by auto
  then have "edges_open es (set ordered) n = 0" using assms(4) by (auto simp: edges_open_zero)
  then show False using assms(1) n(1,2) by (auto simp: loop_inv_def)
qed

section \<open>The order\<close>

lemma topologicalDefinitions_cases:
  fixes ds :: "Definition list"
  defines "ids \<equiv> map df_WorkUnitID ds"
  assumes "distinct ids"
  obtains byID names where "index_definitions ds [] = Inr byID" "distinct names" "set names \<subseteq> set ids"
    "\<And>i p. i < length names \<Longrightarrow> (p, names ! i) \<in> batch_edges ds \<Longrightarrow> p \<in> set (take i names)"
    "acyclic (batch_edges ds) \<Longrightarrow> set ids \<subseteq> set names"
    "topologicalDefinitions ds = (if length names \<noteq> length ds then Inl (DefinitionCycle (int (length ds) - int (length names)))
       else Inr (map (\<lambda>n. the (map_get byID n)) names))"
proof -
  obtain byID where byID: "index_definitions ds [] = Inr byID"
    using index_definitions_total [of ds "[]"] assms(2) by (auto simp: ids_def)
  let ?es = "edge_list byID ds" and ?g = "batch_graph byID ds"
  let ?queue = "filter (\<lambda>n. deg (indegree ?g) n = 0) ids"
  have es: "set ?es = batch_edges ds" by (rule edge_list_set [OF byID])
  then have inside: "\<forall>(p, n) \<in> set ?es. n \<in> set ids" "\<forall>(p, n) \<in> set ?es. p \<in> set ids"
    by (auto simp: batch_edges_def ids_def)
  have "loop_inv ?es (set ids) ?queue (indegree ?g) []"
    using assms(2) by (auto simp: loop_inv_def batch_graph_spec)
  from order_loop_inv [OF this inside(1) batch_graph_spec(1)] obtain m where
    m: "loop_inv ?es (set ids) [] m (order_loop (outgoing ?g) id ?queue (indegree ?g) [])" by blast
  let ?names = "order_loop (outgoing ?g) id ?queue (indegree ?g) []"
  show thesis
  proof (rule that [OF byID, of ?names])
    show "distinct ?names" "set ?names \<subseteq> set ids" using m by (auto simp: loop_inv_def)
    show "p \<in> set (take i ?names)" if "i < length ?names" "(p, ?names ! i) \<in> batch_edges ds" for i p
      using m that by (auto simp: loop_inv_def es)
    show "set ids \<subseteq> set ?names" if "acyclic (batch_edges ds)"
      using loop_inv_complete [OF m] that inside(2) by (simp add: es)
    show "topologicalDefinitions ds = (if length ?names \<noteq> length ds then Inl (DefinitionCycle (int (length ds) - int (length ?names)))
       else Inr (map (\<lambda>n. the (map_get byID n)) ?names))"
      using order_loop_emit [of "outgoing ?g" "\<lambda>n. the (map_get byID n)" ?queue "indegree ?g" "[]"]
      by (simp add: topologicalDefinitions_def byID Let_def ids_def)
  qed
qed

text \<open>Names that are all the ids of a batch, each once, stand for its definitions.\<close>

lemma names_of_batch:
  assumes "index_definitions ds [] = Inr byID" "distinct names" "set names \<subseteq> df_WorkUnitID ` set ds" "length names = length ds"
  shows "map df_WorkUnitID (map (\<lambda>n. the (map_get byID n)) names) = names" "mset (map (\<lambda>n. the (map_get byID n)) names) = mset ds"
proof -
  let ?def = "\<lambda>n. the (map_get byID n)"
  note index = index_definitions_Inr [OF assms(1)]
  have look: "?def (df_WorkUnitID d) = d" if "d \<in> set ds" for d using index that by simp
  then show ids: "map df_WorkUnitID (map ?def names) = names" using assms(3) by (auto intro!: map_idI)
  have "card (set names) = card (df_WorkUnitID ` set ds)"
    using assms(2,4) index by (metis distinct_card length_map set_map)
  then have "set names = df_WorkUnitID ` set ds" using assms(3) by (intro card_subset_eq) simp_all
  then have "set (map ?def names) = set ds" using look by (simp add: image_image)
  moreover have "distinct (map ?def names)" using ids assms(2) by (metis distinct_map)
  moreover have "distinct ds" using index by (simp add: distinct_map)
  ultimately show "mset (map ?def names) = mset ds" by (simp only: set_eq_iff_mset_eq_distinct [symmetric])
qed

lemma topological_distinct: "topologicalDefinitions ds = Inr ordered \<Longrightarrow> distinct (map df_WorkUnitID ds)"
  using index_definitions_Inr [of ds "[]"] by (auto simp: topologicalDefinitions_def split: sum.splits)

lemma topological_success:
  assumes "topologicalDefinitions ds = Inr ordered"
  shows "mset ordered = mset ds" "distinct (map df_WorkUnitID ordered)"
    "\<And>i p. i < length ordered \<Longrightarrow> (p, df_WorkUnitID (ordered ! i)) \<in> batch_edges ds \<Longrightarrow> p \<in> set (map df_WorkUnitID (take i ordered))"
proof -
  from topological_distinct [OF assms] obtain byID names where
    names: "index_definitions ds [] = Inr byID" "distinct names" "set names \<subseteq> df_WorkUnitID ` set ds"
    "\<And>i p. i < length names \<Longrightarrow> (p, names ! i) \<in> batch_edges ds \<Longrightarrow> p \<in> set (take i names)"
    "topologicalDefinitions ds = (if length names \<noteq> length ds then Inl (DefinitionCycle (int (length ds) - int (length names)))
       else Inr (map (\<lambda>n. the (map_get byID n)) names))"
    by (rule topologicalDefinitions_cases) (simp only: set_map)
  then have len: "length names = length ds" and o: "ordered = map (\<lambda>n. the (map_get byID n)) names"
    using assms by (auto split: if_splits)
  note batch = names_of_batch [OF names(1-3) len, folded o]
  show "mset ordered = mset ds" "distinct (map df_WorkUnitID ordered)" using batch names(2) by simp_all
  show "p \<in> set (map df_WorkUnitID (take i ordered))" if "i < length ordered" "(p, df_WorkUnitID (ordered ! i)) \<in> batch_edges ds" for i p
  proof -
    have "df_WorkUnitID (ordered ! i) = names ! i" using arg_cong [OF batch(1), of "\<lambda>xs. xs ! i"] that(1) by simp
    then have "p \<in> set (take i names)" using names(4) [of i p] that o by simp
    then show ?thesis using batch(1) by (metis take_map)
  qed
qed

lemma topological_failure:
  assumes "topologicalDefinitions ds = Inl e"
  shows "\<not> distinct (map df_WorkUnitID ds) \<or> \<not> acyclic (batch_edges ds)"
proof (rule ccontr)
  assume "\<not> ?thesis"
  then obtain byID names where names: "distinct names" "set names \<subseteq> set (map df_WorkUnitID ds)" "set (map df_WorkUnitID ds) \<subseteq> set names"
    "topologicalDefinitions ds = (if length names \<noteq> length ds then Inl (DefinitionCycle (int (length ds) - int (length names)))
       else Inr (map (\<lambda>n. the (map_get byID n)) names))" and d: "distinct (map df_WorkUnitID ds)"
    using topologicalDefinitions_cases [of ds thesis] by blast
  have "length names = length ds" using names(1-3) d by (metis distinct_card length_map subset_antisym)
  then show False using names(4) assms by simp
qed

text \<open>C38: the creation order of work units. When the ordering succeeds, its result is the definitions of the
  batch, each once, with every dependency and every parent inside the batch before the definitions
  that name it; when it fails, an id is repeated or the batch has a dependency cycle.\<close>

theorem creation_order_is_topological:
  "case topologicalDefinitions ds of
     Inr ordered \<Rightarrow> mset ordered = mset ds \<and> distinct (map df_WorkUnitID ordered)
       \<and> (\<forall>i < length ordered. \<forall>p. (p, df_WorkUnitID (ordered ! i)) \<in> batch_edges ds \<longrightarrow>
            p \<in> set (map df_WorkUnitID (take i ordered)))
   | Inl e \<Rightarrow> \<not> distinct (map df_WorkUnitID ds) \<or> \<not> acyclic (batch_edges ds)"
proof (cases "topologicalDefinitions ds")
  case (Inl e)
  then show ?thesis using topological_failure by simp
next
  case (Inr ordered)
  note found = topological_success [OF Inr]
  show ?thesis unfolding Inr sum.case using found(1,2) by (auto dest: found(3))
qed

definition demo_definition :: "string \<Rightarrow> string \<Rightarrow> string list \<Rightarrow> Definition" where
  "demo_definition n parent deps = \<lparr>df_WorkUnitID = n, df_Objective = ''o'', df_ParentWorkUnitID = parent,
     df_Dependencies = deps, df_Tools = None, df_WorkspaceScope = [], df_AcceptancePlan = [], df_ContextBudget = 0,
     df_ProviderBudget = 0, df_StepBudget = 0\<rparr>"

theorem creation_order_is_topological_witness:
  "topologicalDefinitions [demo_definition ''b'' [] [''a''], demo_definition ''a'' [] []] =
     Inr [demo_definition ''a'' [] [], demo_definition ''b'' [] [''a'']]
   \<and> mset [demo_definition ''a'' [] [], demo_definition ''b'' [] [''a'']]
     = mset [demo_definition ''b'' [] [''a''], demo_definition ''a'' [] []]"
proof -
  have "topologicalDefinitions [demo_definition ''b'' [] [''a''], demo_definition ''a'' [] []] =
     Inr [demo_definition ''a'' [] [], demo_definition ''b'' [] [''a'']]" by code_simp
  with creation_order_is_topological [of "[demo_definition ''b'' [] [''a''], demo_definition ''a'' [] []]"]
  show ?thesis by simp
qed

end
