(* ===== verification/Workspace_Path.thy ===== *)
theory Workspace_Path
  imports Prelude "HOL-Library.Sublist"
begin

text \<open>
  Paths of the workspace (\<open>internal/tools/workspace.go\<close>): the normalization every tool and every
  work-unit scope goes through, and the resolver that keeps a tool inside the workspace whatever
  its symbolic links lead to. The functions of Go's \<open>path/filepath\<close> are those of Unix: the separator
  is the slash, there are no volume names, and \<open>FromSlash\<close> and \<open>ToSlash\<close> do nothing. The file
  system is a parameter: the working directory, the resolution of symbolic links and \<open>os.Stat\<close>.
\<close>

section \<open>Package filepath\<close>

definition IsAbs :: "string \<Rightarrow> bool" where
  "IsAbs p \<longleftrightarrow> HasPrefix p ''/''"

text \<open>The elements of a path that \<open>filepath.Clean\<close> keeps: a stack, its top first.\<close>

fun clean_elems :: "bool \<Rightarrow> string list \<Rightarrow> string list \<Rightarrow> string list" where
  "clean_elems rooted stack [] = rev stack"
| "clean_elems rooted stack (c # cs) =
     (if c = [] \<or> c = ''.'' then clean_elems rooted stack cs
      else if c = ''..'' then
        (case stack of
           [] \<Rightarrow> clean_elems rooted (if rooted then [] else [c]) cs
         | prev # below \<Rightarrow> clean_elems rooted (if prev = ''..'' then c # stack else below) cs)
      else clean_elems rooted (c # stack) cs)"

definition Clean :: "string \<Rightarrow> string" where
  "Clean p =
     (let out = (if IsAbs p then ''/'' else []) @ Join ''/'' (clean_elems (IsAbs p) [] (Split (CHR ''/'') p))
      in if out = [] then ''.'' else out)"

definition filepath_Join :: "string \<Rightarrow> string \<Rightarrow> string" where
  "filepath_Join a b = (if a \<noteq> [] then Clean (a @ ''/'' @ b) else if b \<noteq> [] then Clean b else [])"

definition elems :: "string \<Rightarrow> string list" where
  "elems p = filter (\<lambda>c. c \<noteq> []) (Split (CHR ''/'') p)"

fun strip_common :: "string list \<Rightarrow> string list \<Rightarrow> string list \<times> string list" where
  "strip_common (b # bs) (t # ts) = (if b = t then strip_common bs ts else (b # bs, t # ts))"
| "strip_common bs ts = (bs, ts)"

definition Rel :: "string \<Rightarrow> string \<Rightarrow> string option" where
  "Rel basepath targpath =
     (let base = Clean basepath; targ = Clean targpath; base' = (if base = ''.'' then [] else base)
      in if targ = base then Some ''.''
         else if IsAbs base' \<noteq> IsAbs targ then None
         else (case strip_common (elems base') (elems targ) of
             (bs, ts) \<Rightarrow> if bs \<noteq> [] \<and> hd bs = ''..'' then None
                         else Some (Join ''/'' (replicate (length bs) ''..'' @ ts))))"

section \<open>The workspace\<close>

datatype FailureCode =
    FailureUnknownTool | FailureInvalidArguments | FailureAbsolutePath | FailurePathTraversal | FailureSymlinkEscape | FailurePathNotFound
  | FailureWrongType | FailureBinaryFile | FailureInvalidUTF8 | FailureOutputTruncated | FailureNotGitRepository | FailureGitFailure
  | FailureSearchFailure | FailureReadFailure | FailureListFailure | FailureCanceled | FailureTimeout | FailureStaleState
  | FailureInvalidPatch | FailureWriteFailure | FailureWriteTooLarge | FailureUnknownRecipe | FailureRecipeStart | FailureNoRecipes

datatype fs_error = ErrNotExist | ErrOther string

record filesystem =
  fs_getwd :: "fs_error + string"
  fs_evalSymlinks :: "string \<Rightarrow> fs_error + string"
  fs_stat :: "string \<Rightarrow> fs_error + bool"

definition NormalizeWorkspacePath :: "string \<Rightarrow> FailureCode + string" where
  "NormalizeWorkspacePath input =
     (if input = [] \<or> CHR 0x00 \<in> set input then Inl FailureInvalidArguments
      else if IsAbs input then Inl FailureAbsolutePath
      else if list_ex (\<lambda>c. c = ''..'') (Split (CHR ''/'') input) then Inl FailurePathTraversal
      else (let clean = Clean input
            in if IsAbs clean \<or> clean = ''..'' \<or> HasPrefix clean ''../'' then Inl FailurePathTraversal
               else Inr clean))"

definition within :: "string \<Rightarrow> string \<Rightarrow> bool" where
  "within root candidate =
     (case Rel root candidate of
        None \<Rightarrow> False
      | Some relative \<Rightarrow> relative \<noteq> ''..'' \<and> \<not> HasPrefix relative ''../'' \<and> \<not> IsAbs relative)"

definition Abs :: "filesystem \<Rightarrow> string \<Rightarrow> fs_error + string" where
  "Abs fs p = (if IsAbs p then Inr (Clean p)
     else (case fs_getwd fs of Inl e \<Rightarrow> Inl e | Inr wd \<Rightarrow> Inr (filepath_Join wd p)))"

record workspace =
  ws_root :: string

text \<open>The directory test of \<open>newWorkspace\<close> is the value of \<open>os.Stat\<close>.\<close>

definition newWorkspace :: "filesystem \<Rightarrow> string \<Rightarrow> workspace option" where
  "newWorkspace fs configured0 =
     (let configured = (if is_blank configured0 then ''.'' else configured0)
      in case Abs fs configured of
           Inl e \<Rightarrow> None
         | Inr absolute \<Rightarrow>
             (case fs_evalSymlinks fs absolute of
                Inl e \<Rightarrow> None
              | Inr resolved \<Rightarrow>
                  (case Abs fs resolved of
                     Inl e \<Rightarrow> None
                   | Inr canonical \<Rightarrow>
                       (case fs_stat fs canonical of
                          Inl e \<Rightarrow> None
                        | Inr isDir \<Rightarrow> if isDir then Some \<lparr>ws_root = Clean canonical\<rparr> else None))))"

definition subRoot :: "workspace \<Rightarrow> string \<Rightarrow> FailureCode + workspace" where
  "subRoot w scope =
     (case NormalizeWorkspacePath scope of
        Inl e \<Rightarrow> Inl e
      | Inr normalized \<Rightarrow>
          (let candidate = filepath_Join (ws_root w) normalized
           in if \<not> within (ws_root w) candidate then Inl FailurePathTraversal
              else Inr \<lparr>ws_root = Clean candidate\<rparr>))"

record resolvedPath =
  rp_relative :: string
  rp_canonical :: string
  rp_info :: bool

definition fs_failure :: "fs_error \<Rightarrow> FailureCode" where
  "fs_failure e = (if e = ErrNotExist then FailurePathNotFound else FailureReadFailure)"

definition workspace_resolve :: "filesystem \<Rightarrow> workspace \<Rightarrow> string \<Rightarrow> FailureCode + resolvedPath" where
  "workspace_resolve fs w input =
     (case NormalizeWorkspacePath input of
        Inl e \<Rightarrow> Inl e
      | Inr relative \<Rightarrow>
          (let candidate = filepath_Join (ws_root w) relative
           in if \<not> within (ws_root w) candidate then Inl FailurePathTraversal
              else (case fs_evalSymlinks fs candidate of
                  Inl e \<Rightarrow> Inl (fs_failure e)
                | Inr evaluated \<Rightarrow>
                    (case Abs fs evaluated of
                       Inl e \<Rightarrow> Inl FailureReadFailure
                     | Inr canonical \<Rightarrow>
                         if \<not> within (ws_root w) canonical then Inl FailureSymlinkEscape
                         else (case fs_stat fs canonical of
                             Inl e \<Rightarrow> Inl (fs_failure e)
                           | Inr info \<Rightarrow> Inr \<lparr>rp_relative = relative, rp_canonical = Clean canonical, rp_info = info\<rparr>)))))"

section \<open>Cleaning\<close>

lemma Split_elements: "c \<in> set (Split x p) \<Longrightarrow> x \<notin> set c"
  by (induction p arbitrary: c) (auto split: if_splits list.splits)

lemma Split_chars: "c \<in> set (Split x p) \<Longrightarrow> set c \<subseteq> set p"
  by (induction p arbitrary: c) (fastforce split: if_splits list.splits)+

lemma Join_chars: "set (Join sep cs) \<subseteq> set sep \<union> (\<Union>c \<in> set cs. set c)"
  by (induction sep cs rule: Join.induct) auto

text \<open>An element that is a name.\<close>

definition proper :: "string \<Rightarrow> bool" where
  "proper c \<longleftrightarrow> c \<noteq> [] \<and> c \<noteq> ''.'' \<and> c \<noteq> ''..'' \<and> CHR ''/'' \<notin> set c"

lemma clean_elems_plain:
  "\<forall>c \<in> set cs. c \<noteq> ''..'' \<Longrightarrow> clean_elems rooted stack cs = rev stack @ filter (\<lambda>c. c \<noteq> [] \<and> c \<noteq> ''.'') cs"
  by (induction cs arbitrary: stack) auto

lemma Join_not_rooted: "\<forall>c \<in> set cs. proper c \<Longrightarrow> cs \<noteq> [] \<Longrightarrow> Join ''/'' cs \<noteq> [] \<and> hd (Join ''/'' cs) \<noteq> CHR ''/''"
proof (cases cs)
  case (Cons x xs)
  assume "\<forall>c \<in> set cs. proper c"
  then have x: "x \<noteq> []" "CHR ''/'' \<notin> set x" using Cons by (auto simp: proper_def)
  obtain t where "Join ''/'' cs = x @ t" unfolding Cons by (cases xs) auto
  moreover have "hd x \<noteq> CHR ''/''" using x by (cases x) auto
  ultimately show ?thesis using x(1) by simp
qed simp

lemma IsAbs_iff: "IsAbs p \<longleftrightarrow> p \<noteq> [] \<and> hd p = CHR ''/''"
  by (cases p) (auto simp: IsAbs_def HasPrefix_def)

lemma Split_proper: "cs \<noteq> [] \<Longrightarrow> \<forall>c \<in> set cs. proper c \<Longrightarrow> Split (CHR ''/'') (Join ''/'' cs) = cs"
  by (intro Split_Join) (auto simp: proper_def)

lemma Clean_proper:
  assumes "cs \<noteq> []" "\<forall>c \<in> set cs. proper c"
  shows "Clean (Join ''/'' cs) = Join ''/'' cs"
proof -
  have "filter (\<lambda>c. c \<noteq> [] \<and> c \<noteq> ''.'') cs = cs" using assms(2) by (intro filter_True) (auto simp: proper_def)
  moreover have "\<forall>c \<in> set cs. c \<noteq> ''..''" using assms(2) by (auto simp: proper_def)
  ultimately show ?thesis
    using Join_not_rooted [OF assms(2,1)] assms
    by (simp add: Clean_def IsAbs_iff Split_proper clean_elems_plain Let_def)
qed

lemma parent_prefix:
  assumes "cs \<noteq> []" "\<forall>c \<in> set cs. proper c"
  shows "\<not> HasPrefix (Join ''/'' cs) ''../''" "Join ''/'' cs \<noteq> ''..''" "Join ''/'' cs \<noteq> ''.''"
proof -
  have dots: "Split (CHR ''/'') ''..'' = [''..'']" "Split (CHR ''/'') ''.'' = [''.'']" by (simp_all add: Split_no_sep)
  have improper: "\<not> proper ''..''" "\<not> proper ''.''" by (simp_all add: proper_def)
  then have names: "cs \<noteq> [''..'']" "cs \<noteq> [''.'']" using assms(2) by auto
  note split = Split_proper [OF assms]
  show "Join ''/'' cs \<noteq> ''..''"
  proof
    assume e: "Join ''/'' cs = ''..''"
    show False using split names(1) unfolding e dots by (rule notE [rotated, OF sym])
  qed
  show "Join ''/'' cs \<noteq> ''.''"
  proof
    assume e: "Join ''/'' cs = ''.''"
    show False using split names(2) unfolding e dots by (rule notE [rotated, OF sym])
  qed
  show "\<not> HasPrefix (Join ''/'' cs) ''../''"
  proof
    assume "HasPrefix (Join ''/'' cs) ''../''"
    then obtain t where "Join ''/'' cs = ''../'' @ t" by (metis HasPrefix_def append_take_drop_id)
    then have "Join ''/'' cs = ''..'' @ CHR ''/'' # t" by simp
    from arg_cong [OF this, of "Split (CHR ''/'')"] have "cs = ''..'' # Split (CHR ''/'') t"
      unfolding split by (subst (asm) Split_append_sep) simp_all
    then show False using assms(2) improper by simp
  qed
qed

text \<open>What the normalization accepts and what it gives.\<close>

lemma NormalizeWorkspacePath_cases:
  assumes "NormalizeWorkspacePath p = Inr q"
  obtains (dot) "q = ''.''" | (names) cs where "cs \<noteq> []" "\<forall>c \<in> set cs. proper c" "q = Join ''/'' cs" "CHR 0x00 \<notin> set q"
proof -
  let ?cs = "filter (\<lambda>c. c \<noteq> [] \<and> c \<noteq> ''.'') (Split (CHR ''/'') p)"
  have p: "CHR 0x00 \<notin> set p" "\<not> IsAbs p" "\<forall>c \<in> set (Split (CHR ''/'') p). c \<noteq> ''..''" "q = Clean p"
    using assms by (auto simp: NormalizeWorkspacePath_def Let_def list_ex_iff split: if_splits)
  have q: "q = (if Join ''/'' ?cs = [] then ''.'' else Join ''/'' ?cs)"
    using p by (simp add: Clean_def clean_elems_plain Let_def)
  have "\<forall>c \<in> set ?cs. proper c" using p(3) Split_elements by (auto simp: proper_def)
  moreover have "CHR 0x00 \<notin> set (Join ''/'' ?cs)"
    using p(1) Split_chars [of _ "CHR ''/''" p] Join_chars [of "''/''" ?cs] by fastforce
  ultimately show thesis using q dot names [of ?cs] Join_not_rooted [of ?cs] by (cases "?cs = []") auto
qed

lemma Normalize_dot: "NormalizeWorkspacePath ''.'' = Inr ''.''"
  by code_simp

section \<open>Relative paths\<close>

lemma strip_common_prefix: "strip_common bs ts = (rb, rt) \<Longrightarrow> \<exists>cs. bs = cs @ rb \<and> ts = cs @ rt"
  by (induction bs ts rule: strip_common.induct) (auto split: if_splits)

lemma dotdot_first: "HasPrefix (Join ''/'' (''..'' # cs)) ''../'' \<or> Join ''/'' (''..'' # cs) = ''..''"
  by (cases cs) (auto simp: HasPrefix_def)

lemma within_prefix:
  assumes "within root candidate" "IsAbs (Clean root)"
  shows "IsAbs (Clean candidate)" "prefix (elems (Clean root)) (elems (Clean candidate))"
proof -
  have base: "Clean root \<noteq> ''.''" using assms(2) by (auto simp: IsAbs_def HasPrefix_def)
  show "IsAbs (Clean candidate)"
    using assms base by (auto simp: within_def Rel_def Let_def split: option.splits if_splits)
  show "prefix (elems (Clean root)) (elems (Clean candidate))"
  proof (cases "Clean candidate = Clean root")
    case False
    obtain bs ts where s: "strip_common (elems (Clean root)) (elems (Clean candidate)) = (bs, ts)" by fastforce
    have rel: "Rel root candidate = (if bs \<noteq> [] \<and> hd bs = ''..'' then None else Some (Join ''/'' (replicate (length bs) ''..'' @ ts)))"
      using assms False base s by (auto simp: Rel_def Let_def within_def split: if_splits option.splits)
    have "bs = []"
    proof (rule ccontr)
      assume "bs \<noteq> []"
      then obtain n where "length bs = Suc n" by (cases bs) auto
      then have "replicate (length bs) ''..'' @ ts = ''..'' # replicate n ''..'' @ ts" by simp
      then show False using assms(1) rel dotdot_first [of "replicate n ''..'' @ ts"]
        by (auto simp: within_def split: if_splits)
    qed
    then show ?thesis using strip_common_prefix [OF s] by auto
  qed simp
qed

lemma normalize_again:
  assumes "NormalizeWorkspacePath p = Inr q"
  shows "\<not> IsAbs q" "NormalizeWorkspacePath q = Inr q"
proof -
  from assms have "\<not> IsAbs q \<and> NormalizeWorkspacePath q = Inr q"
  proof (cases rule: NormalizeWorkspacePath_cases)
    case dot
    then show ?thesis using Normalize_dot by (simp add: IsAbs_iff)
  next
    case (names cs)
    have abs: "\<not> IsAbs q" "q \<noteq> []" using Join_not_rooted [OF names(2,1)] names(3) by (simp_all add: IsAbs_iff)
    moreover have "Clean q = q" using Clean_proper [OF names(1,2)] names(3) by simp
    moreover have "\<not> list_ex (\<lambda>c. c = ''..'') (Split (CHR ''/'') q)"
      using Split_proper [OF names(1,2)] names(2,3) by (auto simp: list_ex_iff proper_def)
    ultimately show ?thesis using parent_prefix [OF names(1,2)] names(3,4) by (simp add: NormalizeWorkspacePath_def)
  qed
  then show "\<not> IsAbs q" "NormalizeWorkspacePath q = Inr q" by simp_all
qed

text \<open>Normalized paths. A path the normalization accepts is turned into the current directory or into
  names joined by slashes, none of which is empty, a dot or a double dot; it is relative, and
  normalizing it again changes nothing.\<close>

theorem normalized_paths_descend:
  assumes "NormalizeWorkspacePath p = Inr q"
  shows "(q = ''.'' \<or> (\<exists>cs. cs \<noteq> [] \<and> list_all proper cs \<and> q = Join ''/'' cs))
     \<and> \<not> IsAbs q \<and> NormalizeWorkspacePath q = Inr q"
proof -
  from assms have "q = ''.'' \<or> (\<exists>cs. cs \<noteq> [] \<and> list_all proper cs \<and> q = Join ''/'' cs)"
    by (cases rule: NormalizeWorkspacePath_cases) (auto simp: list_all_iff)
  then show ?thesis using normalize_again [OF assms] by blast
qed

theorem normalized_paths_descend_witness:
  "NormalizeWorkspacePath ''a//./b/'' = Inr ''a/b'' \<and> NormalizeWorkspacePath ''a/b'' = Inr ''a/b''"
proof -
  have "NormalizeWorkspacePath ''a//./b/'' = Inr ''a/b''" by code_simp
  with normalized_paths_descend [OF this] show ?thesis by simp
qed

text \<open>C40: the workspace is a prison. Whatever the symbolic links of the file system lead to, a path the
  resolver returns has the elements of the workspace root as a prefix.\<close>

theorem resolved_paths_stay_inside:
  assumes "workspace_resolve fs w input = Inr r" "IsAbs (Clean (ws_root w))"
  shows "IsAbs (rp_canonical r) \<and> prefix (elems (Clean (ws_root w))) (elems (rp_canonical r))
     \<and> NormalizeWorkspacePath (rp_relative r) = Inr (rp_relative r)"
proof -
  obtain canonical where c: "within (ws_root w) canonical" "rp_canonical r = Clean canonical"
    "NormalizeWorkspacePath input = Inr (rp_relative r)"
    using assms(1) by (auto simp: workspace_resolve_def Let_def split: sum.splits if_splits)
  show ?thesis using within_prefix [OF c(1) assms(2)] c(2) normalize_again [OF c(3)] by simp
qed

text \<open>A file system in which \<open>/w/link\<close> is a symbolic link out of the workspace \<open>/w\<close>.\<close>

definition demo_fs :: filesystem where
  "demo_fs = \<lparr>fs_getwd = Inr ''/'', fs_evalSymlinks = (\<lambda>p. if p = ''/w/link'' then Inr ''/etc'' else Inr p), fs_stat = (\<lambda>p. Inr True)\<rparr>"

theorem resolved_paths_stay_inside_witness:
  "workspace_resolve demo_fs \<lparr>ws_root = ''/w''\<rparr> ''link'' = Inl FailureSymlinkEscape
   \<and> workspace_resolve demo_fs \<lparr>ws_root = ''/w''\<rparr> ''./a/b'' = Inr \<lparr>rp_relative = ''a/b'', rp_canonical = ''/w/a/b'', rp_info = True\<rparr>
   \<and> prefix [''w''] (elems ''/w/a/b'')"
proof -
  have r: "workspace_resolve demo_fs \<lparr>ws_root = ''/w''\<rparr> ''./a/b'' = Inr \<lparr>rp_relative = ''a/b'', rp_canonical = ''/w/a/b'', rp_info = True\<rparr>"
    by code_simp
  have "IsAbs (Clean (ws_root \<lparr>ws_root = ''/w''\<rparr>))" "elems (Clean (ws_root \<lparr>ws_root = ''/w''\<rparr>)) = [''w'']" by code_simp+
  then have "prefix [''w''] (elems ''/w/a/b'')" using resolved_paths_stay_inside [OF r] by simp
  moreover have "workspace_resolve demo_fs \<lparr>ws_root = ''/w''\<rparr> ''link'' = Inl FailureSymlinkEscape" by code_simp
  ultimately show ?thesis using r by simp
qed

end
