(* ===== verification/WorkUnit_Driver.thy ===== *)
theory WorkUnit_Driver
  imports Store_Theorems WorkUnit_Order Workspace_Path
begin

text \<open>
  The work-unit driver (\<open>internal/workunit/driver.go\<close>, \<open>lane.go\<close>): the scheduling lane of a unit, the
  containment of its capabilities, the idempotent creation of the operator's definitions, the gate
  of the parent task and the release of units whose approvals are resolved. Parsing an acceptance
  plan is a parameter that gives the digest of the plan; the failures of single store calls are
  arguments.
\<close>

section \<open>Lanes\<close>

datatype Lane = LaneShared | LaneExclusive

definition readOnlyTools :: "string list" where
  "readOnlyTools = [''read_file'', ''list_files'', ''search_text'', ''git_status'', ''git_diff'']"

fun Classify :: "string list option \<Rightarrow> Lane" where
  "Classify None = LaneExclusive"
| "Classify (Some tools) = (if list_ex (\<lambda>t. t \<notin> set readOnlyTools) tools then LaneExclusive else LaneShared)"

definition DefaultConcurrency :: int where "DefaultConcurrency = 1"
definition MinConcurrency :: int where "MinConcurrency = 1"
definition MaxConcurrency :: int where "MaxConcurrency = 4"

section \<open>The driver\<close>

record Driver =
  dr_TaskID :: string
  dr_AllowedTools :: "string list"
  dr_TaskWorkspace :: string
  dr_Concurrency :: int

datatype driver_error =
    CapabilityEscalation string
  | WorkUnitBlockedChain string
  | ParentCompletionGated "(string \<times> string) list"
  | WorkUnitDefinitionDrift string
  | WorkUnitConcurrency int
  | DefinitionRequiresID
  | AcceptancePlanInvalid string
  | OrderFailed order_error
  | StoreFailed store_error
  | UnitCanceled string
  | UnitInterrupted string
  | ContextDone string
  | RunFailed string

definition ValidateEnvelope :: "Driver \<Rightarrow> string list option \<Rightarrow> string \<Rightarrow> driver_error option" where
  "ValidateEnvelope d toolList workspaceScope =
     (case find (\<lambda>t. t \<notin> set (dr_AllowedTools d)) (tool_list toolList) of
        Some t \<Rightarrow> Some (CapabilityEscalation t)
      | None \<Rightarrow>
          if \<not> is_blank workspaceScope
          then (case NormalizeWorkspacePath workspaceScope of
              Inl e \<Rightarrow> Some (CapabilityEscalation workspaceScope)
            | Inr p \<Rightarrow> None)
          else None)"

definition string_set :: "string list \<Rightarrow> string set" where
  "string_set xs = {t. t \<noteq> [] \<and> t \<in> set (map TrimSpace xs)}"

definition stringSetsEqual :: "string list \<Rightarrow> string list \<Rightarrow> bool" where
  "stringSetsEqual a b \<longleftrightarrow>
     (let left = remdups (filter (\<lambda>t. t \<noteq> []) (map TrimSpace a));
          right = remdups (filter (\<lambda>t. t \<noteq> []) (map TrimSpace b))
      in length left = length right \<and> list_all (\<lambda>t. t \<in> set right) left)"

definition toolEnvelopeIdentical :: "string list option \<Rightarrow> string list option \<Rightarrow> bool" where
  "toolEnvelopeIdentical a b \<longleftrightarrow> (a = None) = (b = None) \<and> stringSetsEqual (tool_list a) (tool_list b)"

definition ensureIdenticalDefinition :: "WorkUnit \<Rightarrow> Definition \<Rightarrow> string \<Rightarrow> driver_error option" where
  "ensureIdenticalDefinition existing def digest =
     (if TrimSpace (wu_Objective existing) \<noteq> TrimSpace (df_Objective def) then Some (WorkUnitDefinitionDrift ''objective changed'')
      else if TrimSpace (wu_ParentWorkUnitID existing) \<noteq> TrimSpace (df_ParentWorkUnitID def)
      then Some (WorkUnitDefinitionDrift ''parent work unit changed'')
      else if TrimSpace (wu_WorkspaceScope existing) \<noteq> TrimSpace (df_WorkspaceScope def)
      then Some (WorkUnitDefinitionDrift ''workspace scope changed'')
      else if wu_ContextBudget existing \<noteq> df_ContextBudget def \<or> wu_ProviderBudget existing \<noteq> df_ProviderBudget def
           \<or> wu_StepBudget existing \<noteq> df_StepBudget def
      then Some (WorkUnitDefinitionDrift ''budgets changed'')
      else if \<not> toolEnvelopeIdentical (wu_Tools existing) (df_Tools def) then Some (WorkUnitDefinitionDrift ''tool envelope changed'')
      else if \<not> stringSetsEqual (wu_Dependencies existing) (df_Dependencies def)
      then Some (WorkUnitDefinitionDrift ''dependency set changed'')
      else if wu_AcceptanceDigest existing \<noteq> digest then Some (WorkUnitDefinitionDrift ''acceptance plan changed'')
      else None)"

text \<open>The checks before any unit is stored: one definition, then all of them.\<close>

definition definition_digest :: "(string \<Rightarrow> string + string) \<Rightarrow> Definition \<Rightarrow> string + string" where
  "definition_digest parsePlan def = (if df_AcceptancePlan def = [] then Inr [] else parsePlan (df_AcceptancePlan def))"

fun inspect_definitions ::
  "Driver \<Rightarrow> (string \<Rightarrow> string + string) \<Rightarrow> Definition list \<Rightarrow> driver_error + (Definition \<times> string) list" where
  "inspect_definitions d parsePlan [] = Inr []"
| "inspect_definitions d parsePlan (def # defs) =
     (if is_blank (df_WorkUnitID def) then Inl DefinitionRequiresID
      else (case ValidateEnvelope d (df_Tools def) (df_WorkspaceScope def) of
          Some e \<Rightarrow> Inl e
        | None \<Rightarrow>
            (case definition_digest parsePlan def of
               Inl e \<Rightarrow> Inl (AcceptancePlanInvalid e)
             | Inr digest \<Rightarrow>
                 (case inspect_definitions d parsePlan defs of
                    Inl e \<Rightarrow> Inl e
                  | Inr rest \<Rightarrow> Inr ((def, digest) # rest)))))"

definition creation_record :: "Driver \<Rightarrow> Definition \<Rightarrow> string \<Rightarrow> WorkUnitCreate" where
  "creation_record d def digest =
     \<lparr>wc_TaskID = dr_TaskID d, wc_WorkUnitID = df_WorkUnitID def, wc_ParentWorkUnitID = df_ParentWorkUnitID def,
      wc_Objective = df_Objective def, wc_Dependencies = df_Dependencies def, wc_Tools = df_Tools def,
      wc_WorkspaceScope = df_WorkspaceScope def, wc_AcceptancePlan = df_AcceptancePlan def, wc_AcceptanceDigest = digest,
      wc_ContextBudget = df_ContextBudget def, wc_ProviderBudget = df_ProviderBudget def, wc_StepBudget = df_StepBudget def\<rparr>"

text \<open>The creation loop. Its result is the counts of created and skipped units with the error, and it has
  none when a creation does not return.\<close>

fun create_definitions ::
  "Codec \<Rightarrow> (string \<Rightarrow> string option) \<Rightarrow> Driver \<Rightarrow> (Definition \<times> string) list \<Rightarrow> int \<Rightarrow> int \<Rightarrow> Store
     \<Rightarrow> ((int \<times> int \<times> driver_error option) \<times> Store) option" where
  "create_definitions cx fault d [] created skipped s = Some ((created, skipped, None), s)"
| "create_definitions cx fault d ((def, digest) # defs) created skipped s =
     (case GetWorkUnit (dr_TaskID d) (df_WorkUnitID def) s of
        Inr existing \<Rightarrow>
          (case ensureIdenticalDefinition existing def digest of
             Some e \<Rightarrow> Some ((0, 0, Some e), s)
           | None \<Rightarrow> create_definitions cx fault d defs created (skipped + 1) s)
      | Inl e \<Rightarrow>
          if e \<noteq> WorkUnitNotFound (df_WorkUnitID def) then Some ((0, 0, Some (StoreFailed e)), s)
          else (case CreateWorkUnit cx (fault (df_WorkUnitID def)) (creation_record d def digest) s of
              None \<Rightarrow> None
            | Some (Inl e', s') \<Rightarrow> Some ((created, skipped, Some (StoreFailed e')), s')
            | Some (Inr _, s') \<Rightarrow> create_definitions cx fault d defs (created + 1) skipped s'))"

definition EnsureDefinitions ::
  "Codec \<Rightarrow> (string \<Rightarrow> string option) \<Rightarrow> (string \<Rightarrow> string + string) \<Rightarrow> Driver \<Rightarrow> Definition list \<Rightarrow> Store
     \<Rightarrow> ((int \<times> int \<times> driver_error option) \<times> Store) option" where
  "EnsureDefinitions cx fault parsePlan d definitions s =
     (case topologicalDefinitions definitions of
        Inl e \<Rightarrow> Some ((0, 0, Some (OrderFailed e)), s)
      | Inr ordered \<Rightarrow>
          (case inspect_definitions d parsePlan ordered of
             Inl e \<Rightarrow> Some ((0, 0, Some e), s)
           | Inr inspected \<Rightarrow> create_definitions cx fault d inspected 0 0 s))"

definition openUnits :: "Driver \<Rightarrow> Store \<Rightarrow> store_error + WorkUnit list" where
  "openUnits d s = (case ListWorkUnits (dr_TaskID d) s of
     Inl e \<Rightarrow> Inl e | Inr units \<Rightarrow> Inr (filter (\<lambda>u. wu_Status u \<noteq> ''completed'') units))"

definition GateParent :: "Driver \<Rightarrow> Store \<Rightarrow> driver_error option" where
  "GateParent d s =
     (case openUnits d s of
        Inl e \<Rightarrow> Some (StoreFailed e)
      | Inr units \<Rightarrow> if units = [] then None
                     else Some (ParentCompletionGated (map (\<lambda>u. (wu_WorkUnitID u, wu_Status u)) units)))"

fun resolve_blocked ::
  "Codec \<Rightarrow> (string \<Rightarrow> string option) \<Rightarrow> Driver \<Rightarrow> WorkUnit list \<Rightarrow> Store \<Rightarrow> store_error option \<times> Store" where
  "resolve_blocked cx fault d [] s = (None, s)"
| "resolve_blocked cx fault d (u # us) s =
     (if wu_Status u \<noteq> ''blocked'' \<or> \<not> Contains (wu_BlockingReason u) ''approval'' then resolve_blocked cx fault d us s
      else if WorkUnitPendingApprovalCount (dr_TaskID d) (wu_WorkUnitID u) s \<noteq> 0 then resolve_blocked cx fault d us s
      else (case TransitionWorkUnit cx (fault (wu_WorkUnitID u)) (dr_TaskID d) (wu_WorkUnitID u) ''blocked'' ''ready''
              ''operator approval resolved'' s of
          (Inl e, s') \<Rightarrow> (Some e, s')
        | (Inr _, s') \<Rightarrow> resolve_blocked cx fault d us s'))"

definition resolveBlockedWorkUnits ::
  "Codec \<Rightarrow> (string \<Rightarrow> string option) \<Rightarrow> Driver \<Rightarrow> Store \<Rightarrow> store_error option \<times> Store" where
  "resolveBlockedWorkUnits cx fault d s =
     (case ListWorkUnits (dr_TaskID d) s of
        Inl e \<Rightarrow> (Some e, s)
      | Inr units \<Rightarrow> resolve_blocked cx fault d units s)"

definition OpenUnits :: "Driver \<Rightarrow> Store \<Rightarrow> store_error + WorkUnit list" where
  "OpenUnits d s = openUnits d s"

definition SortedIDs :: "WorkUnit list \<Rightarrow> string list" where
  "SortedIDs units = sort (map wu_WorkUnitID units)"

section \<open>Comparing definitions\<close>

lemma stringSetsEqual_iff: "stringSetsEqual a b \<longleftrightarrow> string_set a = string_set b"
proof -
  let ?l = "\<lambda>xs. remdups (filter (\<lambda>t. t \<noteq> []) (map TrimSpace xs))"
  have s: "set (?l xs) = string_set xs" for xs by (auto simp: string_set_def)
  have c: "length (?l xs) = card (string_set xs)" for xs
    using distinct_card [of "?l xs"] s [of xs] by (metis distinct_remdups)
  have f: "finite (string_set xs)" for xs using s [of xs] by (metis List.finite_set)
  show ?thesis unfolding stringSetsEqual_def Let_def c list_all_iff s
    using f by (metis card_subset_eq subsetI subset_refl)
qed

section \<open>Creating definitions again\<close>

text \<open>A definition whose texts the store keeps as they are.\<close>

definition kept_as_is :: "Codec \<Rightarrow> Definition \<Rightarrow> string \<Rightarrow> bool" where
  "kept_as_is cx def digest \<longleftrightarrow> cx_redact cx (df_Objective def) = df_Objective def
     \<and> cx_redact cx (df_ParentWorkUnitID def) = df_ParentWorkUnitID def
     \<and> cx_redact cx (df_WorkspaceScope def) = df_WorkspaceScope def \<and> cx_redact cx digest = digest
     \<and> cx_tools cx (df_Tools def) = df_Tools def"

definition supplied :: "Driver \<Rightarrow> Store \<Rightarrow> Definition \<times> string \<Rightarrow> bool" where
  "supplied d s x \<longleftrightarrow> (\<exists>u. GetWorkUnit (dr_TaskID d) (df_WorkUnitID (fst x)) s = Inr u
     \<and> ensureIdenticalDefinition u (fst x) (snd x) = None)"

lemma rerun:
  "list_all (supplied d s) defs \<Longrightarrow>
     create_definitions cx fault d defs created skipped s = Some ((created, skipped + int (length defs), None), s)"
  by (induction cx fault d defs created skipped s rule: create_definitions.induct)
    (auto simp: supplied_def algebra_simps)

lemma find_append: "find P (xs @ ys) = (case find P xs of None \<Rightarrow> find P ys | Some x \<Rightarrow> Some x)"
  by (induction xs) auto

text \<open>What a created unit changes for the readers.\<close>

lemma CreateWorkUnit_rows:
  assumes "CreateWorkUnit cx fault w s = Some (Inr i, s')"
  shows "db_units s' = db_units s @ [new_unit cx w (now_text cx s)]"
    "db_deps s' = db_deps s @ map (Pair (wc_WorkUnitID w)) (wc_Dependencies w)"
    "wc_WorkUnitID w \<notin> set (map wu_WorkUnitID (db_units s))"
  using assms by (auto elim!: CreateWorkUnit_cases simp: insert_unit_def journal_def split: if_splits)

lemma no_row: "n \<notin> set (map wu_WorkUnitID us) \<Longrightarrow> find (\<lambda>u. wu_WorkUnitID u = n \<and> wu_TaskID u = task) us = None"
  by (induction us) auto

lemma GetWorkUnit_other:
  assumes "CreateWorkUnit cx fault w s = Some (Inr i, s')" "n \<noteq> wc_WorkUnitID w"
  shows "GetWorkUnit task n s' = GetWorkUnit task n s"
proof -
  note rows = CreateWorkUnit_rows [OF assms(1)]
  have "workUnitDependencies n s' = workUnitDependencies n s"
  proof -
    have "filter (\<lambda>(u, e). u = n) (map (Pair (wc_WorkUnitID w)) (wc_Dependencies w)) = []"
      using assms(2) by (auto simp: filter_empty_conv)
    then show ?thesis by (simp add: workUnitDependencies_def rows(2))
  qed
  then have "with_deps s' u = with_deps s u" if "find (\<lambda>u. wu_WorkUnitID u = n \<and> wu_TaskID u = task) (db_units s) = Some u" for u
    using that by (auto simp: find_Some_iff with_deps_def)
  moreover have same: "find (\<lambda>u. wu_WorkUnitID u = n \<and> wu_TaskID u = task) (db_units s') =
      find (\<lambda>u. wu_WorkUnitID u = n \<and> wu_TaskID u = task) (db_units s)"
    using assms(2) by (simp add: rows(1) find_append new_unit_def split: option.splits)
  ultimately show ?thesis unfolding GetWorkUnit_def same
    by (cases "find (\<lambda>u. wu_WorkUnitID u = n \<and> wu_TaskID u = task) (db_units s)") simp_all
qed

lemma CreateWorkUnit_supplied:
  assumes "CreateWorkUnit cx fault (creation_record d def digest) s = Some (Inr i, s')" "store_inv s" "kept_as_is cx def digest"
  shows "supplied d s' (def, digest)"
proof -
  let ?n = "df_WorkUnitID def" and ?u = "new_unit cx (creation_record d def digest) (now_text cx s)"
  note rows = CreateWorkUnit_rows [OF assms(1), unfolded creation_record_def WorkUnitCreate.simps, folded creation_record_def]
  have old: "find (\<lambda>u. wu_WorkUnitID u = ?n \<and> wu_TaskID u = dr_TaskID d) (db_units s) = None"
    using rows(3) by (rule no_row)
  have fresh: "filter (\<lambda>(u, e). u = ?n) (db_deps s) = []"
    using assms(2) rows(3) by (auto simp: store_inv_def deps_ok_def filter_empty_conv)
  have "workUnitDependencies ?n s' = sort (df_Dependencies def)"
    using fresh by (simp add: workUnitDependencies_def rows(2) comp_def)
  then have get: "GetWorkUnit (dr_TaskID d) ?n s' = Inr (?u\<lparr>wu_Dependencies := sort (df_Dependencies def)\<rparr>)"
    using old by (simp add: GetWorkUnit_def rows(1) find_append new_unit_def creation_record_def supportedWorkUnitVersion_def with_deps_def)
  have "stringSetsEqual (sort (df_Dependencies def)) (df_Dependencies def)"
    by (simp add: stringSetsEqual_iff string_set_def)
  moreover have "toolEnvelopeIdentical (df_Tools def) (df_Tools def)"
    by (simp add: toolEnvelopeIdentical_def stringSetsEqual_iff)
  ultimately have "ensureIdenticalDefinition (?u\<lparr>wu_Dependencies := sort (df_Dependencies def)\<rparr>) def digest = None"
    using assms(3) by (simp add: ensureIdenticalDefinition_def kept_as_is_def new_unit_def creation_record_def)
  then show ?thesis using get by (simp add: supplied_def)
qed

lemma supplied_stays:
  assumes "CreateWorkUnit cx fault (creation_record d def digest) s = Some (Inr i, s')" "supplied d s x"
  shows "supplied d s' x"
proof -
  have "df_WorkUnitID (fst x) \<noteq> df_WorkUnitID def"
  proof
    assume "df_WorkUnitID (fst x) = df_WorkUnitID def"
    then have "find (\<lambda>u. wu_WorkUnitID u = df_WorkUnitID def \<and> wu_TaskID u = dr_TaskID d) (db_units s) \<noteq> None"
      using assms(2) by (auto simp: supplied_def GetWorkUnit_def split: option.splits)
    then show False using no_row [OF CreateWorkUnit_rows(3) [OF assms(1)]] by (simp add: creation_record_def)
  qed
  then show ?thesis using assms(2) GetWorkUnit_other [OF assms(1)] by (simp add: supplied_def creation_record_def)
qed

lemma create_definitions_supplies:
  assumes "create_definitions cx fault d defs created skipped s = Some ((c, k, None), s')" "store_inv s"
    and "list_all (\<lambda>(def, digest). kept_as_is cx def digest) defs"
  shows "list_all (supplied d s') defs \<and> c + k = created + skipped + int (length defs)
     \<and> (\<forall>x. supplied d s x \<longrightarrow> supplied d s' x)"
  using assms
proof (induction cx fault d defs created skipped s rule: create_definitions.induct)
  case (2 cx fault d def digest defs created skipped s)
  show ?case
  proof (cases "GetWorkUnit (dr_TaskID d) (df_WorkUnitID def) s")
    case (Inr u)
    then have same: "ensureIdenticalDefinition u def digest = None"
      and rest: "create_definitions cx fault d defs created (skipped + 1) s = Some ((c, k, None), s')"
      using "2.prems"(1) by (auto split: option.splits)
    have "supplied d s (def, digest)" using Inr same by (simp add: supplied_def)
    then show ?thesis using "2.IH"(2) [OF Inr same rest "2.prems"(2)] "2.prems"(3) by auto
  next
    case (Inl e)
    then have e: "\<not> e \<noteq> WorkUnitNotFound (df_WorkUnitID def)" using "2.prems"(1) by (auto split: if_splits)
    then obtain i t where create: "CreateWorkUnit cx (fault (df_WorkUnitID def)) (creation_record d def digest) s = Some (Inr i, t)"
      and rest: "create_definitions cx fault d defs (created + 1) skipped t = Some ((c, k, None), s')"
      using "2.prems"(1) Inl by (auto split: option.splits sum.splits)
    have inv: "store_inv t" using CreateWorkUnit_inv [OF create "2.prems"(2)] .
    have "supplied d t (def, digest)" using create "2.prems"(2,3) by (intro CreateWorkUnit_supplied) auto
    then show ?thesis using "2.IH"(1) [OF Inl e create refl refl rest inv] "2.prems"(3) supplied_stays [OF create] by auto
  qed
qed simp

lemma ordered_batch:
  assumes "topologicalDefinitions ds = Inr ordered"
  shows "set ordered = set ds" "length ordered = length ds"
proof -
  have "mset ordered = mset ds" using topological_success(1) [OF assms] .
  then show "set ordered = set ds" "length ordered = length ds" by (metis set_mset_mset, metis size_mset)
qed

lemma inspect_definitions_all:
  "inspect_definitions d parsePlan ds = Inr xs \<Longrightarrow>
     list_all (\<lambda>(def, digest). def \<in> set ds \<and> definition_digest parsePlan def = Inr digest) xs \<and> length xs = length ds"
proof (induction ds arbitrary: xs)
  case (Cons def ds)
  then obtain digest rest where x: "xs = (def, digest) # rest" "definition_digest parsePlan def = Inr digest"
    "inspect_definitions d parsePlan ds = Inr rest"
    by (auto split: if_splits option.splits sum.splits)
  from Cons.IH [OF x(3)] x(1,2) show ?case by (auto simp: list_all_iff)
qed simp

text \<open>Supplying definitions again changes nothing. When the operator's definitions were accepted, a second
  supply of the same definitions to the store that results creates no unit, recognizes all of them
  and leaves the store as it is, whatever store failures are in the way.\<close>

theorem definitions_are_supplied_once:
  assumes "reach store_init (store_step cx) s" "EnsureDefinitions cx fault parsePlan d defs s = Some ((c, k, None), s')"
    and "\<And>def digest. def \<in> set defs \<Longrightarrow> definition_digest parsePlan def = Inr digest \<Longrightarrow> kept_as_is cx def digest"
  shows "EnsureDefinitions cx fault' parsePlan d defs s' = Some ((0, c + k, None), s') \<and> c + k = int (length defs)"
proof -
  obtain ordered inspected where o: "topologicalDefinitions defs = Inr ordered" "inspect_definitions d parsePlan ordered = Inr inspected"
    and run: "create_definitions cx fault d inspected 0 0 s = Some ((c, k, None), s')"
    using assms(2) by (auto simp: EnsureDefinitions_def split: sum.splits)
  have perm: "set ordered = set defs" "length ordered = length defs" using ordered_batch [OF o(1)] .
  have inspected: "list_all (\<lambda>(def, digest). def \<in> set ordered \<and> definition_digest parsePlan def = Inr digest) inspected
      \<and> length inspected = length ordered"
    using inspect_definitions_all [OF o(2)] .
  then have "list_all (\<lambda>(def, digest). kept_as_is cx def digest) inspected"
    using assms(3) perm(1) by (auto simp: list_all_iff)
  from create_definitions_supplies [OF run store.inv_reach [OF assms(1)] this]
  have "list_all (supplied d s') inspected" "c + k = int (length defs)" using inspected perm(2) by auto
  then show ?thesis using rerun [of d s' inspected cx fault' 0 0] inspected perm(2) by (simp add: EnsureDefinitions_def o)
qed

definition demo_driver :: Driver where
  "demo_driver = \<lparr>dr_TaskID = ''t'', dr_AllowedTools = [''read_file''], dr_TaskWorkspace = [], dr_Concurrency = 2\<rparr>"

definition demo_batch :: "Definition list" where
  "demo_batch = [demo_definition ''b'' [] [''a''], demo_definition ''a'' [] []]"

theorem definitions_are_supplied_once_witness:
  "\<exists>s'. EnsureDefinitions demo_codec (\<lambda>u. None) (\<lambda>p. Inr []) demo_driver demo_batch demo_created = Some ((2, 0, None), s')
     \<and> EnsureDefinitions demo_codec (\<lambda>u. None) (\<lambda>p. Inr []) demo_driver demo_batch s' = Some ((0, 2, None), s')"
proof -
  have "map_option fst (EnsureDefinitions demo_codec (\<lambda>u. None) (\<lambda>p. Inr []) demo_driver demo_batch demo_created) = Some (2, 0, None)"
    by code_simp
  then obtain s' where s': "EnsureDefinitions demo_codec (\<lambda>u. None) (\<lambda>p. Inr []) demo_driver demo_batch demo_created = Some ((2, 0, None), s')"
    by auto
  have reach: "reach store_init (store_step demo_codec) demo_created"
    by (rule reach_step [of _ _ empty_store]) (simp_all add: reach_init demo_created_step)
  have "kept_as_is demo_codec def digest" for def digest by (simp add: kept_as_is_def demo_codec_def)
  from definitions_are_supplied_once [OF reach s' this] s' show ?thesis by auto
qed

end
