(* ===== verification/WorkUnit_Scheduler.thy ===== *)
theory WorkUnit_Scheduler
  imports WorkUnit_Driver
begin

text \<open>
  The bounded shared/exclusive scheduler (\<open>internal/workunit/scheduler.go\<close>) as a transition system.
  The main loop has an explicit program point; every dispatched unit has a worker, which first runs
  the unit (its result is any value), then applies the outcome to the store and sends one settle
  event on the buffered channel. A dispatch and the recording of a cancellation exclude each other
  (\<open>dispatchMu\<close>), so each is one step. Between any two steps the context may be cancelled and the
  store may change by any store operation.
\<close>

section \<open>State\<close>

record RunResult =
  ru_Outcome :: string
  ru_Reason :: string

record settleEvent =
  se_unitID :: string
  se_outcome :: string
  se_err :: "driver_error option"
  se_exclusive :: bool

datatype worker = Running WorkUnit | Finishing WorkUnit "driver_error + RunResult"

datatype point =
    Head
  | Resolve
  | Select
  | Dispatch WorkUnit
  | Fill "WorkUnit list" bool
  | Settle
  | Drain "driver_error option"
  | Returned "driver_error option"

record Sched =
  sc_point :: point
  sc_active :: int
  sc_activeExclusive :: bool
  sc_stop :: "driver_error option"
  sc_canceled :: "string option"
  sc_workers :: "worker list"
  sc_settleCh :: "settleEvent list"
  sc_ctx :: "driver_error option"
  sc_store :: Store

section \<open>The main loop\<close>

definition concurrency_of :: "Driver \<Rightarrow> int" where
  "concurrency_of d = (if dr_Concurrency d = 0 then DefaultConcurrency else dr_Concurrency d)"

definition RunAll :: "Driver \<Rightarrow> Store \<Rightarrow> driver_error + Sched" where
  "RunAll d st =
     (if concurrency_of d < MinConcurrency \<or> concurrency_of d > MaxConcurrency then Inl (WorkUnitConcurrency (concurrency_of d))
      else Inr \<lparr>sc_point = Head, sc_active = 0, sc_activeExclusive = False, sc_stop = None, sc_canceled = None,
        sc_workers = [], sc_settleCh = [], sc_ctx = None, sc_store = st\<rparr>)"

definition canceledOutcomeError :: "Sched \<Rightarrow> driver_error option" where
  "canceledOutcomeError s = map_option UnitCanceled (sc_canceled s)"

definition stop_with :: "driver_error \<Rightarrow> Sched \<Rightarrow> Sched" where
  "stop_with e s =
     (let stop = (case sc_stop s of None \<Rightarrow> e | Some e' \<Rightarrow> e') in s\<lparr>sc_stop := Some stop, sc_point := Drain (Some stop)\<rparr>)"

definition loop_head :: "Sched \<Rightarrow> Sched" where
  "loop_head s =
     (case sc_ctx s of
        Some e \<Rightarrow> stop_with e s
      | None \<Rightarrow>
          (case canceledOutcomeError s of
             Some e \<Rightarrow> stop_with e s
           | None \<Rightarrow>
               (case sc_stop s of
                  Some e \<Rightarrow> s\<lparr>sc_point := Drain (Some e)\<rparr>
                | None \<Rightarrow> s\<lparr>sc_point := Resolve\<rparr>)))"

definition loop_resolve :: "Codec \<Rightarrow> (string \<Rightarrow> string option) \<Rightarrow> Driver \<Rightarrow> Sched \<Rightarrow> Sched" where
  "loop_resolve cx fault d s =
     (case resolveBlockedWorkUnits cx fault d (sc_store s) of
        (Some e, st) \<Rightarrow> s\<lparr>sc_store := st, sc_point := Drain (Some (StoreFailed e))\<rparr>
      | (None, st) \<Rightarrow> s\<lparr>sc_store := st, sc_point := Select\<rparr>)"

definition after_select :: "WorkUnit list \<Rightarrow> Sched \<Rightarrow> point" where
  "after_select ready s =
     (if ready = [] then if sc_active s = 0 then Returned None else Settle
      else (case find (\<lambda>u. Classify (wu_Tools u) = LaneExclusive) ready of
          Some u \<Rightarrow> if sc_active s > 0 then Settle else Dispatch u
        | None \<Rightarrow> if sc_activeExclusive s then Settle else Fill ready False))"

text \<open>Reading the ready units may fail.\<close>

definition loop_select :: "string option \<Rightarrow> Driver \<Rightarrow> Sched \<Rightarrow> Sched" where
  "loop_select fault d s =
     (case fault of
        Some e \<Rightarrow> s\<lparr>sc_point := Drain (Some (StoreFailed (StoreFault e)))\<rparr>
      | None \<Rightarrow>
          (case ReadyWorkUnits (dr_TaskID d) (sc_store s) of
             Inl e \<Rightarrow> s\<lparr>sc_point := Drain (Some (StoreFailed e))\<rparr>
           | Inr ready \<Rightarrow> s\<lparr>sc_point := after_select ready s\<rparr>))"

text \<open>The durable part of a dispatch: \<open>created\<close> to \<open>ready\<close> to \<open>running\<close>, two transactions that may fail.\<close>

definition reserve :: "Codec \<Rightarrow> string option \<Rightarrow> string option \<Rightarrow> Driver \<Rightarrow> WorkUnit \<Rightarrow> Store \<Rightarrow> store_error option \<times> Store" where
  "reserve cx fault1 fault2 d u st =
     (case (if wu_Status u = ''created''
            then TransitionWorkUnit cx fault1 (dr_TaskID d) (wu_WorkUnitID u) ''created'' ''ready'' [] st
            else (Inr (), st)) of
        (Inl e, st1) \<Rightarrow> (Some e, st1)
      | (Inr _, st1) \<Rightarrow>
          (case TransitionWorkUnit cx fault2 (dr_TaskID d) (wu_WorkUnitID u) ''ready'' ''running'' [] st1 of
             (Inl e, st2) \<Rightarrow> (Some e, st2)
           | (Inr _, st2) \<Rightarrow> (None, st2)))"

definition dispatch ::
  "Codec \<Rightarrow> string option \<Rightarrow> string option \<Rightarrow> Driver \<Rightarrow> WorkUnit \<Rightarrow> Sched \<Rightarrow> driver_error option \<times> Sched" where
  "dispatch cx fault1 fault2 d u s =
     (case canceledOutcomeError s of
        Some e \<Rightarrow> (Some e, s)
      | None \<Rightarrow>
          (case ValidateEnvelope d (wu_Tools u) (wu_WorkspaceScope u) of
             Some e \<Rightarrow> (Some e, s)
           | None \<Rightarrow>
               (case reserve cx fault1 fault2 d u (sc_store s) of
                  (Some e, st) \<Rightarrow> (Some (StoreFailed e), s\<lparr>sc_store := st\<rparr>)
                | (None, st) \<Rightarrow>
                    (None, s\<lparr>sc_store := st, sc_active := sc_active s + 1,
                       sc_activeExclusive := (if Classify (wu_Tools u) = LaneExclusive then True else sc_activeExclusive s),
                       sc_workers := sc_workers s @ [Running u]\<rparr>))))"

definition loop_exclusive :: "Codec \<Rightarrow> string option \<Rightarrow> string option \<Rightarrow> Driver \<Rightarrow> WorkUnit \<Rightarrow> Sched \<Rightarrow> Sched" where
  "loop_exclusive cx fault1 fault2 d u s =
     (case dispatch cx fault1 fault2 d u s of
        (Some e, s') \<Rightarrow> s'\<lparr>sc_point := Drain (Some e)\<rparr>
      | (None, s') \<Rightarrow> s'\<lparr>sc_point := Head\<rparr>)"

definition loop_fill :: "Codec \<Rightarrow> string option \<Rightarrow> string option \<Rightarrow> Driver \<Rightarrow> WorkUnit list \<Rightarrow> bool \<Rightarrow> Sched \<Rightarrow> Sched" where
  "loop_fill cx fault1 fault2 d units dispatched s =
     (case units of
        [] \<Rightarrow> s\<lparr>sc_point := (if dispatched then Head else Settle)\<rparr>
      | u # us \<Rightarrow>
          if sc_active s \<ge> concurrency_of d then s\<lparr>sc_point := (if dispatched then Head else Settle)\<rparr>
          else (case dispatch cx fault1 fault2 d u s of
              (Some e, s') \<Rightarrow> s'\<lparr>sc_point := Drain (Some e)\<rparr>
            | (None, s') \<Rightarrow> s'\<lparr>sc_point := Fill us True\<rparr>))"

definition handleSettle :: "settleEvent \<Rightarrow> Sched \<Rightarrow> Sched" where
  "handleSettle e s =
     (let s1 = s\<lparr>sc_active := sc_active s - 1,
                 sc_activeExclusive := (if se_exclusive e then False else sc_activeExclusive s)\<rparr>
      in if sc_stop s \<noteq> None then s1
         else (case se_err e of
             Some err \<Rightarrow> s1\<lparr>sc_stop := Some err\<rparr>
           | None \<Rightarrow>
               if se_outcome e = ''completed'' then s1
               else if se_outcome e = ''canceled'' then s1\<lparr>sc_stop := Some (UnitCanceled (se_unitID e))\<rparr>
               else if se_outcome e \<in> {''failed'', ''blocked'', ''uncertain''}
               then s1\<lparr>sc_stop := Some (WorkUnitBlockedChain (se_unitID e))\<rparr>
               else s1\<lparr>sc_stop := Some (UnitInterrupted (se_unitID e))\<rparr>))"

section \<open>Workers\<close>

definition recordCanceledOutcome :: "string \<Rightarrow> Sched \<Rightarrow> Sched" where
  "recordCanceledOutcome unit s = s\<lparr>sc_canceled := (case sc_canceled s of None \<Rightarrow> Some unit | Some u \<Rightarrow> Some u)\<rparr>"

definition settle_event :: "WorkUnit \<Rightarrow> string \<Rightarrow> driver_error option \<Rightarrow> settleEvent" where
  "settle_event u oc err = \<lparr>se_unitID = wu_WorkUnitID u, se_outcome = oc, se_err = err,
     se_exclusive = (Classify (wu_Tools u) = LaneExclusive)\<rparr>"

definition outcome_transition :: "Codec \<Rightarrow> string option \<Rightarrow> Driver \<Rightarrow> WorkUnit \<Rightarrow> string \<Rightarrow> string \<Rightarrow> Store \<Rightarrow> settleEvent \<times> Store" where
  "outcome_transition cx fault d u to reason st =
     (case TransitionWorkUnit cx fault (dr_TaskID d) (wu_WorkUnitID u) ''running'' to reason st of
        (Inl e, st') \<Rightarrow> (settle_event u [] (Some (StoreFailed e)), st')
      | (Inr _, st') \<Rightarrow> (settle_event u to None, st'))"

definition reason_or :: "string \<Rightarrow> string \<Rightarrow> string" where
  "reason_or r alt = (if r = [] then alt else r)"

definition worker_outcome ::
  "Codec \<Rightarrow> string option \<Rightarrow> string option \<Rightarrow> Driver \<Rightarrow> WorkUnit \<Rightarrow> driver_error + RunResult \<Rightarrow> Store \<Rightarrow> settleEvent \<times> Store" where
  "worker_outcome cx readFault fault d u res st =
     (case res of
        Inl e \<Rightarrow> (settle_event u [] (Some e), st)
      | Inr r \<Rightarrow>
          if ru_Outcome r = ''completed''
          then (case readFault of
              Some e \<Rightarrow> (settle_event u [] (Some (StoreFailed (StoreFault e))), st)
            | None \<Rightarrow>
                (case LatestWorkUnitVerification (dr_TaskID d) (wu_WorkUnitID u) st of
                   None \<Rightarrow> outcome_transition cx fault d u ''blocked'' ''verification did not pass for work unit'' st
                 | Some decision \<Rightarrow>
                     if decision \<noteq> ''passed'' then outcome_transition cx fault d u ''blocked'' (''verification decision '' @ decision) st
                     else outcome_transition cx fault d u ''completed'' [] st))
          else if ru_Outcome r = ''failed'' then outcome_transition cx fault d u ''failed'' (reason_or (ru_Reason r) ''work unit failed'') st
          else if ru_Outcome r = ''blocked'' then outcome_transition cx fault d u ''blocked'' (reason_or (ru_Reason r) ''work unit blocked'') st
          else if ru_Outcome r = ''uncertain''
          then outcome_transition cx fault d u ''uncertain'' (reason_or (ru_Reason r) ''work unit outcome uncertain'') st
          else if ru_Outcome r = ''canceled'' then (settle_event u ''canceled'' None, st)
          else (settle_event u ''interrupted'' None, st))"

section \<open>Steps\<close>

definition remove_at :: "nat \<Rightarrow> 'a list \<Rightarrow> 'a list" where
  "remove_at i xs = take i xs @ drop (Suc i) xs"

inductive sched_own :: "Codec \<Rightarrow> Driver \<Rightarrow> Sched \<Rightarrow> Sched \<Rightarrow> bool" for cx d where
  head: "sc_point s = Head \<Longrightarrow> sched_own cx d s (loop_head s)"
| resolve: "sc_point s = Resolve \<Longrightarrow> sched_own cx d s (loop_resolve cx fault d s)"
| select: "sc_point s = Select \<Longrightarrow> sched_own cx d s (loop_select rfault d s)"
| exclusive: "sc_point s = Dispatch u \<Longrightarrow> sched_own cx d s (loop_exclusive cx f1 f2 d u s)"
| fill: "sc_point s = Fill us b \<Longrightarrow> sched_own cx d s (loop_fill cx f1 f2 d us b s)"
| settle: "sc_point s = Settle \<Longrightarrow> sc_settleCh s = e # es \<Longrightarrow>
    sched_own cx d s (handleSettle e s\<lparr>sc_settleCh := es, sc_point := Head\<rparr>)"
| drain: "sc_point s = Drain r \<Longrightarrow> sc_active s > 0 \<Longrightarrow> sc_settleCh s = e # es \<Longrightarrow>
    sched_own cx d s (s\<lparr>sc_settleCh := es, sc_active := sc_active s - 1\<rparr>)"
| drained: "sc_point s = Drain r \<Longrightarrow> \<not> sc_active s > 0 \<Longrightarrow> sched_own cx d s (s\<lparr>sc_point := Returned r\<rparr>)"
| worker_ran: "i < length (sc_workers s) \<Longrightarrow> sc_workers s ! i = Running u \<Longrightarrow>
    s' = s\<lparr>sc_workers := (sc_workers s)[i := Finishing u res]\<rparr> \<Longrightarrow>
    sched_own cx d s (case res of Inr r \<Rightarrow> if ru_Outcome r = ''canceled'' then recordCanceledOutcome (wu_WorkUnitID u) s' else s'
      | Inl e \<Rightarrow> s')"
| worker_settled: "i < length (sc_workers s) \<Longrightarrow> sc_workers s ! i = Finishing u res \<Longrightarrow>
    int (length (sc_settleCh s)) < MaxConcurrency \<Longrightarrow> worker_outcome cx f1 f2 d u res (sc_store s) = (e, st) \<Longrightarrow>
    sched_own cx d s (s\<lparr>sc_workers := remove_at i (sc_workers s), sc_settleCh := sc_settleCh s @ [e], sc_store := st\<rparr>)"

inductive sched_step :: "Codec \<Rightarrow> Driver \<Rightarrow> Sched \<Rightarrow> Sched \<Rightarrow> bool" for cx d where
  own: "sched_own cx d s s' \<Longrightarrow> sched_step cx d s s'"
| cancel: "sched_step cx d s (s\<lparr>sc_ctx := Some e\<rparr>)"
| environment: "store_step cx (sc_store s) st \<Longrightarrow> sched_step cx d s (s\<lparr>sc_store := st\<rparr>)"

definition sched_init :: "Codec \<Rightarrow> Driver \<Rightarrow> Sched \<Rightarrow> bool" where
  "sched_init cx d s \<longleftrightarrow> RunAll d (sc_store s) = Inr s \<and> reach store_init (store_step cx) (sc_store s)"

section \<open>The load of the scheduler\<close>

text \<open>The units that are dispatched and not settled, by lane: their workers and the events on the channel.\<close>

fun worker_unit :: "worker \<Rightarrow> WorkUnit" where
  "worker_unit (Running u) = u"
| "worker_unit (Finishing u res) = u"

abbreviation exclusive_unit :: "WorkUnit \<Rightarrow> bool" where
  "exclusive_unit u \<equiv> Classify (wu_Tools u) = LaneExclusive"

definition unsettled :: "Sched \<Rightarrow> bool list" where
  "unsettled s = map (\<lambda>w. exclusive_unit (worker_unit w)) (sc_workers s) @ map se_exclusive (sc_settleCh s)"

definition flag_ok :: "Sched \<Rightarrow> bool" where
  "flag_ok s \<longleftrightarrow> sc_activeExclusive s = (True \<in> set (unsettled s))"

fun point_ok :: "point \<Rightarrow> Sched \<Rightarrow> bool" where
  "point_ok Head s = flag_ok s"
| "point_ok Resolve s = (flag_ok s \<and> sc_stop s = None)"
| "point_ok Select s = (flag_ok s \<and> sc_stop s = None)"
| "point_ok (Dispatch u) s = (flag_ok s \<and> sc_stop s = None \<and> exclusive_unit u \<and> sc_active s = 0)"
| "point_ok (Fill us b) s = (flag_ok s \<and> sc_stop s = None \<and> True \<notin> set (unsettled s)
     \<and> list_all (\<lambda>u. \<not> exclusive_unit u) us \<and> (b \<or> us \<noteq> []))"
| "point_ok Settle s = (flag_ok s \<and> sc_active s > 0)"
| "point_ok (Drain r) s = True"
| "point_ok (Returned r) s = (sc_active s = 0)"

definition load_ok :: "Driver \<Rightarrow> Sched \<Rightarrow> bool" where
  "load_ok d s \<longleftrightarrow> 1 \<le> concurrency_of d \<and> concurrency_of d \<le> MaxConcurrency
     \<and> sc_active s = int (length (unsettled s)) \<and> sc_active s \<le> concurrency_of d
     \<and> (True \<in> set (unsettled s) \<longrightarrow> length (unsettled s) = 1)"

definition sched_inv :: "Driver \<Rightarrow> Sched \<Rightarrow> bool" where
  "sched_inv d s \<longleftrightarrow> load_ok d s \<and> point_ok (sc_point s) s"

lemma point_ok_frame:
  assumes "set (unsettled s') = set (unsettled s)" "sc_active s' = sc_active s" "sc_activeExclusive s' = sc_activeExclusive s"
    and "sc_stop s' = sc_stop s"
  shows "point_ok p s' = point_ok p s"
  using assms by (cases p) (simp_all add: flag_ok_def)

lemma sched_inv_frame:
  assumes "sched_inv d s" "set (unsettled s') = set (unsettled s)" "length (unsettled s') = length (unsettled s)"
    and "sc_active s' = sc_active s" "sc_activeExclusive s' = sc_activeExclusive s" "sc_stop s' = sc_stop s" "sc_point s' = sc_point s"
  shows "sched_inv d s'"
  using assms point_ok_frame [OF assms(2,4,5,6)] by (auto simp: sched_inv_def load_ok_def)

lemma unsettled_simps [simp]:
  "unsettled (s\<lparr>sc_point := p\<rparr>) = unsettled s" "unsettled (s\<lparr>sc_store := st\<rparr>) = unsettled s"
  "unsettled (s\<lparr>sc_ctx := c\<rparr>) = unsettled s" "unsettled (s\<lparr>sc_stop := x\<rparr>) = unsettled s"
  "unsettled (s\<lparr>sc_active := n\<rparr>) = unsettled s" "unsettled (s\<lparr>sc_activeExclusive := b\<rparr>) = unsettled s"
  "unsettled (s\<lparr>sc_canceled := y\<rparr>) = unsettled s"
  by (simp_all add: unsettled_def)

lemma point_ok_simps [simp]:
  "point_ok q (s\<lparr>sc_point := p\<rparr>) = point_ok q s" "point_ok q (s\<lparr>sc_store := st\<rparr>) = point_ok q s"
  by (cases q; simp add: flag_ok_def)+

lemma flag_ok_simps [simp]: "flag_ok (s\<lparr>sc_point := p\<rparr>) = flag_ok s" "flag_ok (s\<lparr>sc_store := st\<rparr>) = flag_ok s"
  by (simp_all add: flag_ok_def)

lemma load_ok_simps [simp]:
  "load_ok d (s\<lparr>sc_point := p\<rparr>) = load_ok d s" "load_ok d (s\<lparr>sc_store := st\<rparr>) = load_ok d s"
  "load_ok d (s\<lparr>sc_stop := x\<rparr>) = load_ok d s"
  by (simp_all add: load_ok_def)

subsection \<open>Preservation\<close>

lemma loop_head_inv: "sched_inv d s \<Longrightarrow> sc_point s = Head \<Longrightarrow> sched_inv d (loop_head s)"
  by (auto simp: sched_inv_def loop_head_def stop_with_def Let_def flag_ok_def split: option.splits)

lemma loop_resolve_inv: "sched_inv d s \<Longrightarrow> sc_point s = Resolve \<Longrightarrow> sched_inv d (loop_resolve cx fault d s)"
  by (auto simp: sched_inv_def loop_resolve_def flag_ok_def split: prod.splits option.splits)

lemma after_select_ok:
  assumes "load_ok d s" "flag_ok s" "sc_stop s = None"
  shows "point_ok (after_select ready s) s"
proof -
  have "sc_active s > 0" if "sc_activeExclusive s"
    using assms(1,2) that by (auto simp: flag_ok_def load_ok_def)
  moreover have "list_all (\<lambda>u. \<not> exclusive_unit u) ready" if "find (\<lambda>u. exclusive_unit u) ready = None"
    using that by (auto simp: find_None_iff list_all_iff)
  moreover have "exclusive_unit u" if "find (\<lambda>u. exclusive_unit u) ready = Some u" for u
    using that by (auto simp: find_Some_iff)
  moreover have "0 \<le> sc_active s" using assms(1) by (simp add: load_ok_def)
  ultimately show ?thesis using assms(2,3)
    by (auto simp: after_select_def flag_ok_def split: option.splits)
qed

lemma loop_select_inv: "sched_inv d s \<Longrightarrow> sc_point s = Select \<Longrightarrow> sched_inv d (loop_select fault d s)"
  using after_select_ok [of d s] by (auto simp: sched_inv_def loop_select_def split: sum.splits option.splits)

text \<open>What a dispatch does, and that it is refused once a cancellation is recorded.\<close>

lemma dispatch_cases:
  assumes "dispatch cx f1 f2 d u s = (r, s')"
  obtains (refused) e st where "r = Some e" "s' = s\<lparr>sc_store := st\<rparr>" 
  | (started) st where "r = None" "sc_canceled s = None" "ValidateEnvelope d (wu_Tools u) (wu_WorkspaceScope u) = None"
      "reserve cx f1 f2 d u (sc_store s) = (None, st)"
      "s' = s\<lparr>sc_store := st, sc_active := sc_active s + 1,
         sc_activeExclusive := (if exclusive_unit u then True else sc_activeExclusive s), sc_workers := sc_workers s @ [Running u]\<rparr>"
proof (cases "canceledOutcomeError s")
  case (Some e)
  then show thesis using assms by (intro refused [of e "sc_store s"]) (simp_all add: dispatch_def)
next
  case none: None
  show thesis
  proof (cases "ValidateEnvelope d (wu_Tools u) (wu_WorkspaceScope u)")
    case (Some e)
    then show thesis using assms none by (intro refused [of e "sc_store s"]) (simp_all add: dispatch_def)
  next
    case None
    obtain q st where q: "reserve cx f1 f2 d u (sc_store s) = (q, st)" by fastforce
    show thesis
    proof (cases q)
      case (Some e)
      then show thesis using assms none None q by (intro refused [of "StoreFailed e" st]) (simp_all add: dispatch_def)
    next
      case nofail: None
      then show thesis using assms none None q by (intro started [of st]) (simp_all add: dispatch_def canceledOutcomeError_def)
    qed
  qed
qed

lemma started_load:
  assumes "load_ok d s" "sc_active s < concurrency_of d" "True \<notin> set (unsettled s)" "exclusive_unit u \<longrightarrow> sc_active s = 0"
    and "s' = s\<lparr>sc_store := st, sc_active := sc_active s + 1,
         sc_activeExclusive := (if exclusive_unit u then True else sc_activeExclusive s), sc_workers := sc_workers s @ [Running u]\<rparr>"
  shows "load_ok d s'" "flag_ok s \<Longrightarrow> flag_ok s'" "set (unsettled s') = insert (exclusive_unit u) (set (unsettled s))"
proof -
  show u: "set (unsettled s') = insert (exclusive_unit u) (set (unsettled s))"
    by (auto simp: assms(5) unsettled_def)
  have "length (unsettled s') = Suc (length (unsettled s))" by (simp add: assms(5) unsettled_def)
  then show "load_ok d s'" using assms(1-4) u by (auto simp: load_ok_def assms(5))
  show "flag_ok s \<Longrightarrow> flag_ok s'" using u assms(3) by (auto simp: flag_ok_def assms(5))
qed

lemma loop_exclusive_inv:
  assumes "sched_inv d s" "sc_point s = Dispatch u"
  shows "sched_inv d (loop_exclusive cx f1 f2 d u s)"
proof -
  obtain r s' where r: "dispatch cx f1 f2 d u s = (r, s')" by fastforce
  have inv: "load_ok d s" "flag_ok s" "exclusive_unit u" "sc_active s = 0" using assms by (auto simp: sched_inv_def)
  from r show ?thesis
  proof (cases rule: dispatch_cases)
    case (refused e st)
    then show ?thesis using inv r by (simp add: loop_exclusive_def sched_inv_def)
  next
    case (started st)
    have "sc_active s < concurrency_of d" "True \<notin> set (unsettled s)" using inv by (auto simp: load_ok_def)
    from started_load [OF inv(1) this _ started(5)] inv started(1) r show ?thesis
      by (simp add: loop_exclusive_def sched_inv_def flag_ok_def)
  qed
qed

lemma loop_fill_inv:
  assumes "sched_inv d s" "sc_point s = Fill us b"
  shows "sched_inv d (loop_fill cx f1 f2 d us b s)"
proof -
  have inv: "load_ok d s" "flag_ok s" "sc_stop s = None" "True \<notin> set (unsettled s)" "list_all (\<lambda>u. \<not> exclusive_unit u) us" "b \<or> us \<noteq> []"
    using assms by (auto simp: sched_inv_def)
  show ?thesis
  proof (cases us)
    case Nil
    then show ?thesis using inv by (auto simp: loop_fill_def sched_inv_def flag_ok_def)
  next
    case (Cons u vs)
    show ?thesis
    proof (cases "sc_active s \<ge> concurrency_of d")
      case True
      moreover have "1 \<le> concurrency_of d" using inv(1) by (simp add: load_ok_def)
      ultimately have "sc_active s > 0" by linarith
      then show ?thesis using inv True Cons by (auto simp: loop_fill_def sched_inv_def flag_ok_def)
    next
      case False
      obtain r s' where r: "dispatch cx f1 f2 d u s = (r, s')" by fastforce
      from r show ?thesis
      proof (cases rule: dispatch_cases)
        case (refused e st)
        then show ?thesis using inv r False Cons by (simp add: loop_fill_def sched_inv_def)
      next
        case (started st)
        have shared: "\<not> exclusive_unit u" using inv(5) Cons by simp
        note load = started_load [OF inv(1) _ inv(4) _ started(5)]
        have "load_ok d s'" "flag_ok s'" "True \<notin> set (unsettled s')" "sc_stop s' = None"
          using load shared False inv(2-4) by (auto simp: started(5))
        then show ?thesis using r started(1) False Cons inv(5) by (simp add: loop_fill_def sched_inv_def)
      qed
    qed
  qed
qed

lemma handleSettle_inv:
  assumes "sched_inv d s" "sc_point s = Settle" "sc_settleCh s = e # es"
  shows "sched_inv d (handleSettle e s\<lparr>sc_settleCh := es, sc_point := Head\<rparr>)"
proof -
  let ?s = "handleSettle e s\<lparr>sc_settleCh := es, sc_point := Head\<rparr>"
  have fields: "sc_active ?s = sc_active s - 1" "sc_activeExclusive ?s = (if se_exclusive e then False else sc_activeExclusive s)"
    "sc_workers ?s = sc_workers s" "sc_settleCh ?s = es" "sc_point ?s = Head"
    by (auto simp: handleSettle_def Let_def split: option.splits)
  have len: "length (unsettled s) = Suc (length (unsettled ?s))" "set (unsettled s) = insert (se_exclusive e) (set (unsettled ?s))"
    using assms(3) fields by (auto simp: unsettled_def)
  have inv: "load_ok d s" "flag_ok s" using assms(1,2) by (auto simp: sched_inv_def)
  have alone: "unsettled ?s = []" if "True \<in> set (unsettled s)" using inv(1) len(1) that by (auto simp: load_ok_def)
  have "load_ok d ?s" using inv(1) len fields(1) alone by (auto simp: load_ok_def)
  moreover have "flag_ok ?s" using inv(2) len(2) fields(2) alone by (auto simp: flag_ok_def)
  ultimately show ?thesis using fields(5) by (simp add: sched_inv_def)
qed

lemma remove_at_facts:
  assumes "i < length xs"
  shows "length xs = Suc (length (remove_at i xs))" "set xs = insert (xs ! i) (set (remove_at i xs))"
proof -
  show "length xs = Suc (length (remove_at i xs))" using assms by (simp add: remove_at_def)
  have "set xs = set (take i xs @ xs ! i # drop (Suc i) xs)" using assms by (simp add: id_take_nth_drop [symmetric])
  then show "set xs = insert (xs ! i) (set (remove_at i xs))" by (auto simp: remove_at_def)
qed

lemma worker_outcome_lane: "worker_outcome cx f1 f2 d u res st = (e, st') \<Longrightarrow> se_exclusive e = exclusive_unit u"
  by (auto simp: worker_outcome_def outcome_transition_def settle_event_def split: sum.splits if_splits option.splits prod.splits)

lemma sched_own_inv:
  assumes "sched_own cx d s s'" "sched_inv d s"
  shows "sched_inv d s'"
  using assms(1)
proof cases
  case (drain r e es)
  then have "length (unsettled s) = Suc (length (unsettled s'))" "set (unsettled s') \<subseteq> set (unsettled s)"
    by (auto simp: unsettled_def)
  moreover have "load_ok d s" using assms(2) by (simp add: sched_inv_def)
  ultimately have "load_ok d s'" using drain by (auto simp: load_ok_def)
  then show ?thesis using drain by (simp add: sched_inv_def)
next
  case (drained r)
  then show ?thesis using assms(2) by (auto simp: sched_inv_def load_ok_def)
next
  case (worker_ran i u t res)
  have "unsettled t = unsettled s" using worker_ran(2-4)
    by (auto simp: unsettled_def map_update list_update_same_conv)
  then have "sched_inv d t" using worker_ran(4) by (intro sched_inv_frame [OF assms(2)]) simp_all
  then show ?thesis using worker_ran(1)
    by (auto simp: recordCanceledOutcome_def sched_inv_def load_ok_def point_ok_frame [of "t\<lparr>sc_canceled := _\<rparr>" t] split: sum.splits)
next
  case (worker_settled i u res f1 f2 e st)
  let ?ex = "\<lambda>w. exclusive_unit (worker_unit w)"
  have lane: "se_exclusive e = ?ex (sc_workers s ! i)" using worker_outcome_lane [OF worker_settled(5)] worker_settled(3) by simp
  note w = remove_at_facts [OF worker_settled(2)]
  show ?thesis
  proof (rule sched_inv_frame [OF assms(2)])
    show "set (unsettled s') = set (unsettled s)" using w(2) lane by (auto simp: unsettled_def worker_settled(1))
    show "length (unsettled s') = length (unsettled s)" using w(1) by (simp add: unsettled_def worker_settled(1))
  qed (simp_all add: worker_settled(1))
qed (use assms(2) in \<open>auto intro: loop_head_inv loop_resolve_inv loop_select_inv loop_exclusive_inv loop_fill_inv handleSettle_inv\<close>)

lemma sched_step_inv:
  assumes "sched_inv d s" "sched_step cx d s s'"
  shows "sched_inv d s'"
  using assms(2)
proof cases
  case own
  then show ?thesis using sched_own_inv assms(1) by blast
qed (use assms(1) in \<open>auto intro: sched_inv_frame [OF assms(1)]\<close>)

lemma sched_init_inv: "sched_init cx d s \<Longrightarrow> sched_inv d s"
  by (cases s) (auto simp: sched_init_def RunAll_def sched_inv_def load_ok_def unsettled_def flag_ok_def MinConcurrency_def split: if_splits)

interpretation sched: invariant_system "sched_init cx d" "sched_step cx d" "sched_inv d" for cx d
  by unfold_locales (auto intro: sched_init_inv sched_step_inv)

end
