(* ===== verification/Scheduler_Theorems.thy ===== *)
theory Scheduler_Theorems
  imports WorkUnit_Scheduler
begin

text \<open>
  What the scheduler guarantees in every reachable state: its bounds and the isolation of exclusive
  units, that it always has a next step and returns only when every worker has ended, that only
  units whose prerequisites are completed run, that nothing starts after a stop, and that a unit
  is completed only on a passed verification.
\<close>

section \<open>The store under the scheduler\<close>

text \<open>Every change a scheduler step makes to the store is a sequence of store operations.\<close>

lemma transition_steps: "TransitionWorkUnit cx fault task u from to reason s = (r, s') \<Longrightarrow> (store_step cx)\<^sup>*\<^sup>* s s'"
  by (rule r_into_rtranclp) (rule store_step.transition_unit)

lemma resolve_blocked_steps: "resolve_blocked cx fault d us s = (r, s') \<Longrightarrow> (store_step cx)\<^sup>*\<^sup>* s s'"
proof (induction cx fault d us s arbitrary: r rule: resolve_blocked.induct)
  case (2 cx fault d u us s)
  then show ?case
    by (auto split: if_splits prod.splits sum.splits dest!: transition_steps intro: rtranclp_trans)
qed simp

lemma reserve_steps: "reserve cx f1 f2 d u s = (r, s') \<Longrightarrow> (store_step cx)\<^sup>*\<^sup>* s s'"
  by (auto simp: reserve_def split: if_splits prod.splits sum.splits dest!: transition_steps intro: rtranclp_trans)

lemma dispatch_steps: "dispatch cx f1 f2 d u s = (r, s') \<Longrightarrow> (store_step cx)\<^sup>*\<^sup>* (sc_store s) (sc_store s')"
  by (auto simp: dispatch_def split: option.splits prod.splits dest!: reserve_steps)

lemma outcome_transition_steps: "outcome_transition cx f d u to reason s = (e, s') \<Longrightarrow> (store_step cx)\<^sup>*\<^sup>* s s'"
  by (auto simp: outcome_transition_def split: prod.splits sum.splits dest!: transition_steps)

lemma worker_outcome_steps: "worker_outcome cx f1 f2 d u res s = (e, s') \<Longrightarrow> (store_step cx)\<^sup>*\<^sup>* s s'"
  by (auto simp: worker_outcome_def split: sum.splits if_splits option.splits dest!: outcome_transition_steps)

lemma handleSettle_frame [simp]:
  "sc_store (handleSettle e s) = sc_store s" "sc_workers (handleSettle e s) = sc_workers s"
  by (auto simp: handleSettle_def Let_def split: option.splits)

lemma loop_frame [simp]:
  "sc_store (loop_head s) = sc_store s" "sc_workers (loop_head s) = sc_workers s"
  "sc_store (loop_select fault d s) = sc_store s" "sc_workers (loop_select fault d s) = sc_workers s"
  "sc_workers (loop_resolve cx faults d s) = sc_workers s"
  by (auto simp: loop_head_def stop_with_def Let_def loop_select_def loop_resolve_def split: option.splits sum.splits prod.splits)

lemma sched_own_store:
  assumes "sched_own cx d s s'"
  shows "(store_step cx)\<^sup>*\<^sup>* (sc_store s) (sc_store s')"
  using assms
proof cases
  case (resolve fault)
  then show ?thesis
    by (auto simp: loop_resolve_def resolveBlockedWorkUnits_def split: option.splits prod.splits sum.splits dest!: resolve_blocked_steps)
next
  case (exclusive u f1 f2)
  then show ?thesis by (auto simp: loop_exclusive_def split: option.splits prod.splits dest!: dispatch_steps)
next
  case (fill us b f1 f2)
  then show ?thesis by (auto simp: loop_fill_def split: option.splits prod.splits list.splits dest!: dispatch_steps)
next
  case (worker_ran i u t res)
  then show ?thesis by (auto simp: recordCanceledOutcome_def split: sum.splits)
next
  case (worker_settled i u res f1 f2 e st)
  then show ?thesis by (auto dest: worker_outcome_steps)
qed simp_all

lemma sched_store:
  assumes "sched_step cx d s s'"
  shows "(store_step cx)\<^sup>*\<^sup>* (sc_store s) (sc_store s')"
  using assms by cases (auto intro: sched_own_store)

section \<open>Completed units stay completed\<close>

definition completed_units :: "string \<Rightarrow> Store \<Rightarrow> string set" where
  "completed_units task s = wu_WorkUnitID ` set (filter (\<lambda>u. wu_TaskID u = task \<and> wu_Status u = ''completed'') (db_units s))"

lemma completed_units_grow:
  assumes "store_step cx s s'"
  shows "completed_units task s \<subseteq> completed_units task s'"
  using step_moves [OF assms]
proof (elim disjE exE)
  assume "units_move (set workUnitTransitions) s s'"
  then have moved: "list_all2 (moves (set workUnitTransitions)) (db_units s) (db_units s')" by (simp add: units_move_def)
  show ?thesis
  proof
    fix n assume "n \<in> completed_units task s"
    then obtain u where u: "u \<in> set (db_units s)" "wu_TaskID u = task" "wu_Status u = ''completed''" "n = wu_WorkUnitID u"
      by (auto simp: completed_units_def)
    from moved u(1) obtain u' where u': "u' \<in> set (db_units s')" "moves (set workUnitTransitions) u u'"
      by (metis in_set_conv_nth list_all2_lengthD list_all2_nthD)
    have "u' = u" using u'(2) u(3) by (auto simp: moves_def workUnitTransitions_def)
    then show "n \<in> completed_units task s'" using u u'(1) by (auto simp: completed_units_def)
  qed
next
  fix w now assume "db_units s' = db_units s @ [new_unit cx w now]"
  then show ?thesis by (auto simp: completed_units_def)
qed

lemma completed_units_steps: "(store_step cx)\<^sup>*\<^sup>* s s' \<Longrightarrow> completed_units task s \<subseteq> completed_units task s'"
  by (induction rule: rtranclp_induct) (auto dest: completed_units_grow)


text \<open>A step that moves no unit to \<open>completed\<close> completes none.\<close>

lemma units_move_completed:
  assumes "units_move T s s'" "\<And>x. (x, ''completed'') \<notin> T"
  shows "completed_units task s' \<subseteq> completed_units task s"
proof
  have moved: "list_all2 (moves T) (db_units s) (db_units s')" using assms(1) by (simp add: units_move_def)
  fix n assume "n \<in> completed_units task s'"
  then obtain u' where u': "u' \<in> set (db_units s')" "wu_TaskID u' = task" "wu_Status u' = ''completed''" "n = wu_WorkUnitID u'"
    by (auto simp: completed_units_def)
  from moved u'(1) obtain u where u: "u \<in> set (db_units s)" "moves T u u'"
    by (metis in_set_conv_nth list_all2_lengthD list_all2_nthD)
  have "u' = u" using u(2) u'(3) assms(2) by (auto simp: moves_def)
  then show "n \<in> completed_units task s" using u(1) u' by (auto simp: completed_units_def)
qed

lemma transition_completes_none:
  assumes "TransitionWorkUnit cx fault k u from to reason s = (r, s')" "to \<noteq> ''completed''"
  shows "completed_units task s' \<subseteq> completed_units task s"
  by (rule units_move_completed [OF TransitionWorkUnit_moves [OF assms(1)]]) (use assms(2) in auto)

lemma transition_completes_one:
  assumes "TransitionWorkUnit cx fault k u from ''completed'' reason s = (r, s')"
  shows "completed_units task s' \<subseteq> completed_units task s \<union> (if task = k then {u} else {})"
  using assms
proof (cases rule: TransitionWorkUnit_cases)
  case (moved P)
  let ?f = "transition_row cx ''completed'' reason (now_text cx s) (workUnitEvidenceRefs k u s)"
  show ?thesis
  proof
    fix n assume "n \<in> completed_units task s'"
    then obtain y where y: "y \<in> set (db_units s')" "wu_TaskID y = task" "wu_Status y = ''completed''" "n = wu_WorkUnitID y"
      by (auto simp: completed_units_def)
    from y(1) obtain x where x: "x \<in> set (db_units s)" "y = (if P x then ?f x else x)" by (auto simp: moved(5) update_where_def)
    show "n \<in> completed_units task s \<union> (if task = k then {u} else {})"
    proof (cases "P x")
      case True
      then have "y = ?f x" using x(2) by simp
      then show ?thesis using True y(2,4) moved(3) by simp
    next
      case False
      then have "y = x" using x(2) by simp
      then show ?thesis using x(1) y by (auto simp: completed_units_def)
    qed
  qed
qed simp

lemma resolve_blocked_completes: "resolve_blocked cx fault d us s = (r, s') \<Longrightarrow> completed_units task s' \<subseteq> completed_units task s"
proof (induction cx fault d us s arbitrary: r rule: resolve_blocked.induct)
  case (2 cx fault d u us s)
  then show ?case
    by (auto split: if_splits prod.splits sum.splits dest!: transition_completes_none [where task = task])
qed simp

lemma reserve_completes: "reserve cx f1 f2 d u s = (r, s') \<Longrightarrow> completed_units task s' \<subseteq> completed_units task s"
  by (auto simp: reserve_def split: if_splits prod.splits sum.splits dest!: transition_completes_none [where task = task])

lemma dispatch_completes:
  "dispatch cx f1 f2 d u s = (r, s') \<Longrightarrow> completed_units task (sc_store s') \<subseteq> completed_units task (sc_store s)"
  by (auto simp: dispatch_def split: option.splits prod.splits dest!: reserve_completes [where task = task])

lemma worker_outcome_completes:
  assumes "worker_outcome cx f1 f2 d u res s = (e, s')" "n \<in> completed_units task s'" "n \<notin> completed_units task s"
  shows "task = dr_TaskID d \<and> n = wu_WorkUnitID u \<and> (\<exists>r. res = Inr r \<and> ru_Outcome r = ''completed'')
     \<and> LatestWorkUnitVerification task n s = Some ''passed''"
proof -
  have other: False if "outcome_transition cx f d u to reason s = (e, s')" "to \<noteq> ''completed''" for f to reason
    using that assms(2,3) transition_completes_none [of cx f "dr_TaskID d" "wu_WorkUnitID u" "''running''" to reason s _ s' task]
    by (auto simp: outcome_transition_def split: prod.splits sum.splits)
  have this_one: "task = dr_TaskID d \<and> n = wu_WorkUnitID u" if "outcome_transition cx f d u ''completed'' reason s = (e, s')" for f reason
    using that assms(2,3) transition_completes_one [of cx f "dr_TaskID d" "wu_WorkUnitID u" "''running''" reason s _ s' task]
    by (auto simp: outcome_transition_def split: prod.splits sum.splits if_splits)
  show ?thesis using assms other this_one
    by (auto simp: worker_outcome_def split: sum.splits if_splits option.splits)
qed

section \<open>Prerequisites of dispatched units\<close>

definition prerequisites_completed :: "Driver \<Rightarrow> Store \<Rightarrow> WorkUnit \<Rightarrow> bool" where
  "prerequisites_completed d st u \<longleftrightarrow> set (wu_Dependencies u) \<subseteq> completed_units (dr_TaskID d) st
     \<and> (wu_ParentWorkUnitID u \<noteq> [] \<longrightarrow> wu_ParentWorkUnitID u \<in> completed_units (dr_TaskID d) st)"

lemma prerequisites_steps:
  "(store_step cx)\<^sup>*\<^sup>* st st' \<Longrightarrow> prerequisites_completed d st u \<Longrightarrow> prerequisites_completed d st' u"
  using completed_units_steps [of cx st st' "dr_TaskID d"] by (auto simp: prerequisites_completed_def)

lemma ready_prerequisites:
  assumes "ReadyWorkUnits (dr_TaskID d) st = Inr ready" "u \<in> set ready"
  shows "prerequisites_completed d st u"
proof -
  obtain units where units: "ListWorkUnits (dr_TaskID d) st = Inr units" and u: "unit_ready units u"
    using assms by (auto simp: ReadyWorkUnits_def split: sum.splits)
  have "n \<in> completed_units (dr_TaskID d) st" if "unit_completed units n" for n
  proof -
    from that have "(n, ''completed'') \<in> set (rev (map (\<lambda>u. (wu_WorkUnitID u, wu_Status u)) units))"
      unfolding unit_completed_def by (rule map_of_SomeD)
    then show ?thesis using units
      by (auto simp: ListWorkUnits_def Let_def with_deps_def completed_units_def split: option.splits)
  qed
  then show ?thesis using u by (auto simp: unit_ready_def prerequisites_completed_def list_all_iff)
qed

fun candidates :: "point \<Rightarrow> WorkUnit list" where
  "candidates (Dispatch u) = [u]"
| "candidates (Fill us b) = us"
| "candidates p = []"

definition dispatched_ok :: "Driver \<Rightarrow> Sched \<Rightarrow> bool" where
  "dispatched_ok d s \<longleftrightarrow> list_all (prerequisites_completed d (sc_store s)) (candidates (sc_point s))
     \<and> list_all (\<lambda>w. ValidateEnvelope d (wu_Tools (worker_unit w)) (wu_WorkspaceScope (worker_unit w)) = None
          \<and> prerequisites_completed d (sc_store s) (worker_unit w)) (sc_workers s)"

lemma dispatch_ok:
  assumes "dispatch cx f1 f2 d u s = (r, s')" "prerequisites_completed d (sc_store s) u" "dispatched_ok d s"
  shows "list_all (\<lambda>w. ValidateEnvelope d (wu_Tools (worker_unit w)) (wu_WorkspaceScope (worker_unit w)) = None
     \<and> prerequisites_completed d (sc_store s') (worker_unit w)) (sc_workers s')"
proof -
  note keep = prerequisites_steps [OF dispatch_steps [OF assms(1)]]
  from assms(1) show ?thesis
  proof (cases rule: dispatch_cases)
    case (refused e st)
    then show ?thesis using assms(3) keep by (auto simp: dispatched_ok_def list_all_iff)
  next
    case (started st)
    then show ?thesis using assms(2,3) keep by (auto simp: dispatched_ok_def list_all_iff)
  qed
qed

text \<open>A step that adds no candidate and no worker keeps the invariant.\<close>

lemma dispatched_frame:
  assumes "dispatched_ok d s" "(store_step cx)\<^sup>*\<^sup>* (sc_store s) (sc_store s')"
    and "worker_unit ` set (sc_workers s') \<subseteq> worker_unit ` set (sc_workers s)"
    and "set (candidates (sc_point s')) \<subseteq> set (candidates (sc_point s))"
  shows "dispatched_ok d s'"
proof -
  note keep = prerequisites_steps [OF assms(2)]
  have "\<exists>v \<in> set (sc_workers s). worker_unit w = worker_unit v" if "w \<in> set (sc_workers s')" for w
    using assms(3) that by blast
  then show ?thesis using assms(1,4) keep by (fastforce simp: dispatched_ok_def list_all_iff)
qed

lemma loop_candidates [simp]:
  "candidates (sc_point (loop_head s)) = []" "candidates (sc_point (loop_resolve cx fault d s)) = []"
  "candidates (sc_point (loop_exclusive cx f1 f2 d u s)) = []"
  by (auto simp: loop_head_def stop_with_def Let_def loop_resolve_def loop_exclusive_def split: option.splits prod.splits)

lemma loop_select_candidates:
  "set (candidates (sc_point (loop_select fault d s))) \<subseteq> {u. prerequisites_completed d (sc_store s) u}"
  by (auto simp: loop_select_def after_select_def find_Some_iff intro: ready_prerequisites split: option.splits sum.splits if_splits)

lemma sched_own_dispatched:
  assumes own: "sched_own cx d s s'" and ok: "dispatched_ok d s"
  shows "dispatched_ok d s'"
proof -
  note keep = dispatched_frame [OF ok sched_own_store [OF own]]
  from own show ?thesis
  proof cases
    case (select fault)
    then show ?thesis using loop_select_candidates [of fault d s] ok by (auto simp: dispatched_ok_def list_all_iff)
  next
    case (exclusive u f1 f2)
    obtain r t where t: "dispatch cx f1 f2 d u s = (r, t)" by fastforce
    then show ?thesis using dispatch_ok [OF t _ ok] exclusive ok
      by (auto simp: dispatched_ok_def loop_exclusive_def split: option.splits)
  next
    case (fill us b f1 f2)
    show ?thesis
    proof (cases us)
      case Nil
      then show ?thesis using fill ok by (auto simp: loop_fill_def dispatched_ok_def)
    next
      case (Cons u vs)
      obtain r t where t: "dispatch cx f1 f2 d u s = (r, t)" by fastforce
      note keep = prerequisites_steps [OF dispatch_steps [OF t]]
      show ?thesis using dispatch_ok [OF t _ ok] fill ok t Cons keep
        by (auto simp: dispatched_ok_def loop_fill_def list_all_iff split: option.splits)
    qed
  next
    case (worker_ran i u t res)
    have "worker_unit ` set (sc_workers s') \<subseteq> worker_unit ` set (sc_workers s)"
    proof -
      have "worker_unit (Finishing u res) \<in> worker_unit ` set (sc_workers s)"
        using worker_ran(2,3) by (metis image_eqI nth_mem worker_unit.simps)
      then have "worker_unit ` set ((sc_workers s)[i := Finishing u res]) \<subseteq> worker_unit ` set (sc_workers s)"
        using set_update_subset_insert [of "sc_workers s" i "Finishing u res"] by blast
      then show ?thesis using worker_ran(1,4) by (auto simp: recordCanceledOutcome_def split: sum.splits if_splits)
    qed
    then show ?thesis using worker_ran(1,4) by (intro keep) (auto simp: recordCanceledOutcome_def split: sum.splits)
  next
    case (worker_settled i u res f1 f2 e st)
    then show ?thesis using remove_at_facts(2) [OF worker_settled(2)] by (intro keep) auto
  qed (rule keep; simp)+
qed

lemma sched_step_dispatched:
  assumes "sched_step cx d s s'" "dispatched_ok d s"
  shows "dispatched_ok d s'"
  using assms(1)
proof cases
  case own
  then show ?thesis using assms(2) by (rule sched_own_dispatched)
qed (rule dispatched_frame [OF assms(2) sched_store [OF assms(1)]]; simp)+

interpretation dispatched: invariant_system "sched_init cx d" "sched_step cx d" "dispatched_ok d" for cx d
proof
  fix s show "sched_init cx d s \<Longrightarrow> dispatched_ok d s"
    by (cases s) (auto simp: sched_init_def RunAll_def dispatched_ok_def split: if_splits)
qed (rule sched_step_dispatched)

section \<open>Progress and stopping\<close>

lemma unsettled_length: "length (unsettled s) = length (sc_workers s) + length (sc_settleCh s)"
  by (simp add: unsettled_def)

lemma worker_moves:
  assumes "sc_workers s \<noteq> []" "int (length (sc_settleCh s)) < MaxConcurrency"
  shows "\<exists>s'. sched_own cx d s s'"
proof -
  have i: "0 < length (sc_workers s)" using assms(1) by simp
  show ?thesis
  proof (cases "sc_workers s ! 0")
    case (Running u)
    show ?thesis by (rule exI) (rule sched_own.worker_ran [OF i Running refl, of _ _ "Inl (RunFailed [])"])
  next
    case (Finishing u res)
    obtain e st where "worker_outcome cx None None d u res (sc_store s) = (e, st)" by fastforce
    from sched_own.worker_settled [OF i Finishing assms(2) this] show ?thesis by blast
  qed
qed

lemma waiting_moves:
  assumes "load_ok d s" "sc_active s > 0" "sc_point s = Settle \<or> (\<exists>r. sc_point s = Drain r)"
  shows "\<exists>s'. sched_own cx d s s'"
proof (cases "sc_settleCh s")
  case Nil
  then have "sc_workers s \<noteq> []" using assms(1,2) by (auto simp: load_ok_def unsettled_length)
  moreover have "int (length (sc_settleCh s)) < MaxConcurrency" using Nil by (simp add: MaxConcurrency_def)
  ultimately show ?thesis by (rule worker_moves)
next
  case (Cons e es)
  then show ?thesis using assms(2,3) sched_own.settle [of s e es] sched_own.drain [of s _ e es] by blast
qed

lemma sched_own_stops:
  assumes "sched_own cx d s s'" "sched_inv d s" "sc_stop s \<noteq> None \<or> sc_canceled s \<noteq> None"
  shows "length (sc_workers s') \<le> length (sc_workers s) \<and> (sc_stop s' \<noteq> None \<or> sc_canceled s' \<noteq> None)"
  using assms(1)
proof cases
  case (exclusive u f1 f2)
  have "sc_stop s = None" using assms(2) exclusive(2) by (simp add: sched_inv_def)
  moreover obtain r t where t: "dispatch cx f1 f2 d u s = (r, t)" by fastforce
  ultimately show ?thesis using t exclusive(1) assms(3)
    by (auto simp: loop_exclusive_def elim!: dispatch_cases)
next
  case (fill us b f1 f2)
  have "sc_stop s = None" using assms(2) fill(2) by (simp add: sched_inv_def)
  then have c: "sc_canceled s \<noteq> None" using assms(3) by simp
  show ?thesis
  proof (cases us)
    case Nil
    then show ?thesis using fill c by (simp add: loop_fill_def)
  next
    case (Cons u vs)
    obtain r t where t: "dispatch cx f1 f2 d u s = (r, t)" by fastforce
    then show ?thesis using fill(1) c Cons by (auto simp: loop_fill_def elim!: dispatch_cases)
  qed
next
  case (worker_ran i u t res)
  then show ?thesis using assms(3) by (auto simp: recordCanceledOutcome_def split: sum.splits option.splits)
next
  case (worker_settled i u res f1 f2 e st)
  then show ?thesis using remove_at_facts(1) [OF worker_settled(2)] assms(3) by simp
qed (use assms(3) in \<open>auto simp: loop_head_def stop_with_def Let_def loop_resolve_def loop_select_def handleSettle_def
    split: option.splits prod.splits sum.splits\<close>)

section \<open>A run\<close>

text \<open>A scheduler over one exclusive unit: it is selected, dispatched, run, verified by the store's user
  meanwhile, and settled.\<close>

definition demo_idle :: Sched where
  "demo_idle = \<lparr>sc_point = Head, sc_active = 0, sc_activeExclusive = False, sc_stop = None, sc_canceled = None,
     sc_workers = [], sc_settleCh = [], sc_ctx = None, sc_store = demo_planned\<rparr>"
definition demo_selected :: Sched where
  "demo_selected = loop_select None demo_driver (loop_resolve demo_codec (\<lambda>u. None) demo_driver (loop_head demo_idle))"
definition demo_candidate :: WorkUnit where "demo_candidate = hd (candidates (sc_point demo_selected))"
definition demo_dispatched :: Sched where
  "demo_dispatched = loop_exclusive demo_codec None None demo_driver demo_candidate demo_selected"
definition demo_result :: "string \<Rightarrow> RunResult" where "demo_result oc = \<lparr>ru_Outcome = oc, ru_Reason = []\<rparr>"
definition demo_ran :: Sched where
  "demo_ran = demo_dispatched\<lparr>sc_workers := [Finishing demo_candidate (Inr (demo_result ''completed''))]\<rparr>"
definition demo_checked :: Sched where
  "demo_checked = demo_ran\<lparr>sc_store := snd (SaveVerificationAttempt demo_codec None demo_verification (sc_store demo_ran))\<rparr>"
definition demo_settled :: Sched where
  "demo_settled = (let (e, st) = worker_outcome demo_codec None None demo_driver demo_candidate (Inr (demo_result ''completed''))
       (sc_store demo_checked) in demo_checked\<lparr>sc_workers := [], sc_settleCh := [e], sc_store := st\<rparr>)"

definition demo_canceled :: Sched where
  "demo_canceled = recordCanceledOutcome (wu_WorkUnitID demo_candidate)
     (demo_dispatched\<lparr>sc_workers := [Finishing demo_candidate (Inr (demo_result ''canceled''))]\<rparr>)"

lemma demo_idle_reach: "reach (sched_init demo_codec demo_driver) (sched_step demo_codec demo_driver) demo_idle"
proof (rule reach_init)
  have "reach store_init (store_step demo_codec) empty_store" by (rule reach_init) simp
  moreover note demo_created_step
  moreover have "store_step demo_codec demo_created demo_planned" using demo_unit_created by (rule store_step.create_unit)
  ultimately have "reach store_init (store_step demo_codec) demo_planned" by (meson reach_step)
  then show "sched_init demo_codec demo_driver demo_idle"
    by (simp add: sched_init_def RunAll_def demo_idle_def concurrency_of_def demo_driver_def MinConcurrency_def MaxConcurrency_def)
qed

lemma demo_points:
  "sc_point (loop_head demo_idle) = Resolve"
  "sc_point (loop_resolve demo_codec (\<lambda>u. None) demo_driver (loop_head demo_idle)) = Select"
  by code_simp+

lemma demo_selected_point: "sc_point demo_selected = Dispatch demo_candidate"
proof -
  have "\<exists>u. sc_point demo_selected = Dispatch u"
  proof -
    have "(case sc_point demo_selected of Dispatch u \<Rightarrow> True | _ \<Rightarrow> False)" by code_simp
    then show ?thesis by (cases "sc_point demo_selected") simp_all
  qed
  then show ?thesis by (auto simp: demo_candidate_def)
qed

lemma demo_dispatched_workers: "sc_workers demo_dispatched = [Running demo_candidate]"
  by code_simp

lemma demo_dispatched_reach: "reach (sched_init demo_codec demo_driver) (sched_step demo_codec demo_driver) demo_dispatched"
proof -
  let ?step = "sched_step demo_codec demo_driver" and ?r = "loop_resolve demo_codec (\<lambda>u. None) demo_driver (loop_head demo_idle)"
  have "sc_point demo_idle = Head" by (simp add: demo_idle_def)
  then have "?step demo_idle (loop_head demo_idle)" by (intro sched_step.own sched_own.head)
  moreover have "?step (loop_head demo_idle) ?r" using demo_points(1) by (intro sched_step.own sched_own.resolve)
  moreover have "?step ?r demo_selected" unfolding demo_selected_def using demo_points(2) by (intro sched_step.own sched_own.select)
  moreover have "?step demo_selected demo_dispatched"
    unfolding demo_dispatched_def using demo_selected_point by (intro sched_step.own sched_own.exclusive)
  ultimately show ?thesis using demo_idle_reach by (meson reach_step)
qed

lemma demo_settled_step: "sched_own demo_codec demo_driver demo_checked demo_settled"
proof -
  let ?r = "Inr (demo_result ''completed'')"
  obtain e st where w: "worker_outcome demo_codec None None demo_driver demo_candidate ?r (sc_store demo_checked) = (e, st)"
    by fastforce
  have workers: "sc_workers demo_checked = [Finishing demo_candidate ?r]" by (simp add: demo_checked_def demo_ran_def)
  have ch: "sc_settleCh demo_checked = []" by code_simp
  have "sched_own demo_codec demo_driver demo_checked
      (demo_checked\<lparr>sc_workers := remove_at 0 (sc_workers demo_checked), sc_settleCh := sc_settleCh demo_checked @ [e], sc_store := st\<rparr>)"
    by (rule sched_own.worker_settled [OF _ _ _ w]) (simp_all add: workers ch MaxConcurrency_def)
  then show ?thesis by (simp add: demo_settled_def w workers ch remove_at_def)
qed

section \<open>Theorems\<close>

text \<open>C33: In every reachable state of the scheduler the active count is the number of units that are
  dispatched and not settled, it never exceeds the configured concurrency, which is at most four,
  and an exclusive unit that runs is alone: no other worker and no unsettled event beside it.\<close>

theorem scheduler_is_bounded_and_isolated:
  assumes "reach (sched_init cx d) (sched_step cx d) s"
  shows "sc_active s = int (length (sc_workers s) + length (sc_settleCh s)) \<and> sc_active s \<le> concurrency_of d
     \<and> concurrency_of d \<le> 4
     \<and> (\<forall>w \<in> set (sc_workers s). Classify (wu_Tools (worker_unit w)) = LaneExclusive \<longrightarrow> sc_workers s = [w] \<and> sc_settleCh s = [])"
proof -
  have load: "load_ok d s" using sched.inv_reach [OF assms] by (simp add: sched_inv_def)
  have "sc_workers s = [w] \<and> sc_settleCh s = []" if "w \<in> set (sc_workers s)" "exclusive_unit (worker_unit w)" for w
  proof -
    have "True \<in> set (unsettled s)" using that by (force simp: unsettled_def)
    then have "length (unsettled s) = 1" using load by (simp add: load_ok_def)
    then show ?thesis using that(1) by (cases "sc_workers s") (auto simp: unsettled_length)
  qed
  then show ?thesis using load by (simp add: load_ok_def unsettled_length MaxConcurrency_def)
qed

theorem scheduler_is_bounded_and_isolated_witness:
  "sc_workers demo_dispatched = [Running demo_candidate] \<and> sc_settleCh demo_dispatched = [] \<and> sc_active demo_dispatched = 1"
proof -
  have "Classify (wu_Tools demo_candidate) = LaneExclusive" by code_simp
  then show ?thesis using scheduler_is_bounded_and_isolated [OF demo_dispatched_reach] demo_dispatched_workers by simp
qed

text \<open>C36: The scheduler returns only when no worker is alive and no event is pending, and before that it
  always has a next step of its own: it never waits for an event that cannot come, and a worker
  never waits for room on the channel.\<close>

theorem scheduler_never_sticks:
  assumes "reach (sched_init cx d) (sched_step cx d) s"
  shows "(case sc_point s of Returned r \<Rightarrow> sc_workers s = [] \<and> sc_settleCh s = [] | _ \<Rightarrow> \<exists>s'. sched_own cx d s s')
     \<and> (sc_workers s \<noteq> [] \<longrightarrow> int (length (sc_settleCh s)) < MaxConcurrency)"
proof
  have inv: "sched_inv d s" using sched.inv_reach [OF assms] .
  then have load: "load_ok d s" by (simp add: sched_inv_def)
  then show "sc_workers s \<noteq> [] \<longrightarrow> int (length (sc_settleCh s)) < MaxConcurrency"
    by (cases "sc_workers s") (auto simp: load_ok_def unsettled_length)
  show "case sc_point s of Returned r \<Rightarrow> sc_workers s = [] \<and> sc_settleCh s = [] | _ \<Rightarrow> \<exists>s'. sched_own cx d s s'"
  proof (cases "sc_point s")
    case Settle
    then show ?thesis using waiting_moves [OF load, of cx] inv by (auto simp: sched_inv_def)
  next
    case (Drain r)
    then show ?thesis using waiting_moves [OF load, of cx] sched_own.drained [of s r cx d] by (cases "sc_active s > 0") auto
  next
    case (Returned r)
    then have "sc_active s = 0" using inv by (simp add: sched_inv_def)
    moreover have "sc_active s = int (length (unsettled s))" using load by (simp only: load_ok_def)
    ultimately have "length (unsettled s) = 0" by linarith
    then show ?thesis using Returned by (simp add: unsettled_length)
  qed (auto intro: sched_own.intros)
qed

theorem scheduler_never_sticks_witness: "\<exists>s'. sched_own demo_codec demo_driver demo_dispatched s'"
proof -
  have "sc_point demo_dispatched = Head" by code_simp
  then show ?thesis using scheduler_never_sticks [OF demo_dispatched_reach] by simp
qed

text \<open>C34: A unit runs only within the capabilities of its parent task and only when every dependency and
  its parent unit are completed in the store, and they stay so while it runs.\<close>

theorem running_units_were_ready:
  assumes "reach (sched_init cx d) (sched_step cx d) s" "w \<in> set (sc_workers s)"
  shows "ValidateEnvelope d (wu_Tools (worker_unit w)) (wu_WorkspaceScope (worker_unit w)) = None
     \<and> set (wu_Dependencies (worker_unit w)) \<subseteq> completed_units (dr_TaskID d) (sc_store s)
     \<and> (wu_ParentWorkUnitID (worker_unit w) \<noteq> [] \<longrightarrow>
          wu_ParentWorkUnitID (worker_unit w) \<in> completed_units (dr_TaskID d) (sc_store s))"
  using dispatched.inv_reach [OF assms(1)] assms(2) by (simp add: dispatched_ok_def prerequisites_completed_def list_all_iff)

theorem running_units_were_ready_witness:
  "ValidateEnvelope demo_driver (wu_Tools demo_candidate) (wu_WorkspaceScope demo_candidate) = None"
  using running_units_were_ready [OF demo_dispatched_reach, of "Running demo_candidate"] demo_dispatched_workers by simp

text \<open>Once a stop condition or a cancelled unit is recorded, no step starts another unit, and the
  record stays.\<close>

theorem stopped_scheduler_starts_nothing:
  assumes "reach (sched_init cx d) (sched_step cx d) s" "sched_step cx d s s'" "sc_stop s \<noteq> None \<or> sc_canceled s \<noteq> None"
  shows "length (sc_workers s') \<le> length (sc_workers s) \<and> (sc_stop s' \<noteq> None \<or> sc_canceled s' \<noteq> None)"
  using assms(2)
proof cases
  case own
  then show ?thesis using sched.inv_reach [OF assms(1)] assms(3) by (rule sched_own_stops)
qed (use assms(3) in simp_all)

theorem stopped_scheduler_starts_nothing_witness:
  "sc_canceled demo_canceled = Some ''u'' \<and> length (sc_workers (loop_head demo_canceled)) \<le> 1"
proof -
  have "sched_step demo_codec demo_driver demo_dispatched demo_canceled"
    using sched_own.worker_ran [of 0 demo_dispatched demo_candidate _ "Inr (demo_result ''canceled'')" demo_codec demo_driver, OF _ _ refl]
    by (intro sched_step.own) (simp add: demo_dispatched_workers demo_canceled_def demo_result_def)
  with demo_dispatched_reach have "reach (sched_init demo_codec demo_driver) (sched_step demo_codec demo_driver) demo_canceled"
    by (rule reach_step)
  moreover have "sc_point demo_canceled = Head" by code_simp
  then have "sched_step demo_codec demo_driver demo_canceled (loop_head demo_canceled)" by (intro sched_step.own sched_own.head)
  moreover have "sc_canceled demo_canceled = Some ''u''" "length (sc_workers demo_canceled) = 1" by code_simp+
  ultimately show ?thesis using stopped_scheduler_starts_nothing [of demo_codec demo_driver demo_canceled "loop_head demo_canceled"] by simp
qed

text \<open>C35: A scheduler step completes a unit only when its own worker reported completion and the latest
  verification of that unit passed; no other step of the scheduler completes a unit.\<close>

theorem units_complete_only_when_verified:
  assumes "sched_own cx d s s'" "n \<in> completed_units task (sc_store s')" "n \<notin> completed_units task (sc_store s)"
  shows "task = dr_TaskID d \<and> LatestWorkUnitVerification task n (sc_store s) = Some ''passed''
     \<and> (\<exists>u r. Finishing u (Inr r) \<in> set (sc_workers s) \<and> wu_WorkUnitID u = n \<and> ru_Outcome r = ''completed'')"
  using assms(1)
proof cases
  case (resolve fault)
  then show ?thesis using assms(2,3)
    by (auto simp: loop_resolve_def resolveBlockedWorkUnits_def split: option.splits prod.splits sum.splits
        dest!: resolve_blocked_completes [where task = task])
next
  case (exclusive u f1 f2)
  then show ?thesis using assms(2,3)
    by (auto simp: loop_exclusive_def split: option.splits prod.splits dest!: dispatch_completes [where task = task])
next
  case (fill us b f1 f2)
  then show ?thesis using assms(2,3)
    by (auto simp: loop_fill_def split: option.splits prod.splits list.splits if_splits dest!: dispatch_completes [where task = task])
next
  case (worker_ran i u t res)
  then show ?thesis using assms(2,3) by (auto simp: recordCanceledOutcome_def split: sum.splits if_splits)
next
  case (worker_settled i u res f1 f2 e st)
  have "Finishing u res \<in> set (sc_workers s)" using worker_settled(2,3) by (metis nth_mem)
  moreover have "n \<in> completed_units task st" using assms(2) worker_settled(1) by simp
  ultimately show ?thesis using worker_outcome_completes [OF worker_settled(5) _ assms(3)] by auto
qed (use assms(2,3) in simp_all)

theorem units_complete_only_when_verified_witness:
  "''u'' \<in> completed_units ''t'' (sc_store demo_settled) \<and> LatestWorkUnitVerification ''t'' ''u'' (sc_store demo_checked) = Some ''passed''"
proof -
  have "''u'' \<in> completed_units ''t'' (sc_store demo_settled)" "''u'' \<notin> completed_units ''t'' (sc_store demo_checked)" by code_simp+
  then show ?thesis using units_complete_only_when_verified [OF demo_settled_step] by simp
qed

end
