(* ===== verification/Json.thy ===== *)
theory Json
  imports Prelude
begin

text \<open>
  The part of Go's \<open>encoding/json\<close> the program relies on, as functions on byte strings: the scanner,
  the parser with its nesting limit, decoding into the fields of a struct, and the walk of
  \<open>scanJSONValue\<close> (\<open>internal/protocol/parser.go\<close>, \<open>internal/verifier/plan.go\<close>) that rejects duplicate keys.
  A string is a list of bytes; an escaped code point becomes its UTF-8 encoding, and bytes that are
  no UTF-8 become the encoding of U+FFFD, as \<open>unquote\<close> does.
\<close>

section \<open>Runes\<close>

definition byte :: "int \<Rightarrow> char" where
  "byte n = char_of n"

definition char_code :: "char \<Rightarrow> int" where
  "char_code c = of_char c"

definition RuneError :: int where "RuneError = 65533"

definition EncodeRune :: "int \<Rightarrow> string" where
  "EncodeRune r =
     (let r = (if r > 1114111 \<or> (55296 \<le> r \<and> r \<le> 57343) then RuneError else r)
      in if r < 128 then [byte r]
         else if r < 2048 then [byte (192 + r div 64), byte (128 + r mod 64)]
         else if r < 65536 then [byte (224 + r div 4096), byte (128 + r div 64 mod 64), byte (128 + r mod 64)]
         else [byte (240 + r div 262144), byte (128 + r div 4096 mod 64), byte (128 + r div 64 mod 64), byte (128 + r mod 64)])"

definition continuation_byte :: "int \<Rightarrow> int \<Rightarrow> char list \<Rightarrow> nat \<Rightarrow> bool" where
  "continuation_byte lo hi s i \<longleftrightarrow> i < length s \<and> lo \<le> char_code (s ! i) \<and> char_code (s ! i) \<le> hi"

text \<open>The first rune of a non-empty string with its width; what is no UTF-8 is an error of width one.\<close>

definition DecodeRune :: "string \<Rightarrow> int \<times> nat" where
  "DecodeRune s =
     (let b = (\<lambda>i. char_code (s ! i)); b0 = b 0
      in if b0 < 128 then (b0, 1)
         else if 194 \<le> b0 \<and> b0 \<le> 223 \<and> continuation_byte 128 191 s 1 then ((b0 - 192) * 64 + (b 1 - 128), 2)
         else if 224 \<le> b0 \<and> b0 \<le> 239
              \<and> continuation_byte (if b0 = 224 then 160 else 128) (if b0 = 237 then 159 else 191) s 1 \<and> continuation_byte 128 191 s 2
         then ((b0 - 224) * 4096 + (b 1 - 128) * 64 + (b 2 - 128), 3)
         else if 240 \<le> b0 \<and> b0 \<le> 244
              \<and> continuation_byte (if b0 = 240 then 144 else 128) (if b0 = 244 then 143 else 191) s 1 \<and> continuation_byte 128 191 s 2 \<and> continuation_byte 128 191 s 3
         then ((b0 - 240) * 262144 + (b 1 - 128) * 4096 + (b 2 - 128) * 64 + (b 3 - 128), 4)
         else (RuneError, 1))"

lemma DecodeRune_width: "0 < snd (DecodeRune s)"
  by (auto simp: DecodeRune_def Let_def)

section \<open>Tokens\<close>

datatype token = TLBrace | TRBrace | TLBracket | TRBracket | TColon | TComma | TNull | TBool bool | TNum string | TStr string

definition hex_value :: "char \<Rightarrow> int option" where
  "hex_value c =
     (let n = char_code c
      in if 48 \<le> n \<and> n \<le> 57 then Some (n - 48)
         else if 97 \<le> n \<and> n \<le> 102 then Some (n - 87)
         else if 65 \<le> n \<and> n \<le> 70 then Some (n - 55) else None)"

text \<open>Four hexadecimal digits after \<open>\u\<close>.\<close>

definition hex4 :: "string \<Rightarrow> int option" where
  "hex4 s =
     (case s of
        a # b # c # d # _ \<Rightarrow>
          (case (hex_value a, hex_value b, hex_value c, hex_value d) of
             (Some x, Some y, Some z, Some w) \<Rightarrow> Some (x * 4096 + y * 256 + z * 16 + w)
           | _ \<Rightarrow> None)
      | _ \<Rightarrow> None)"

definition getu4 :: "string \<Rightarrow> int option" where
  "getu4 s = (case s of a # b # r \<Rightarrow> if a = CHR 0x5C \<and> b = CHR ''u'' then hex4 r else None | _ \<Rightarrow> None)"

text \<open>\<open>utf16.DecodeRune\<close> of a surrogate and what follows it.\<close>

definition surrogate_pair :: "int \<Rightarrow> int option \<Rightarrow> int option" where
  "surrogate_pair r r1 =
     (case r1 of
        Some q \<Rightarrow> if 55296 \<le> r \<and> r < 56320 \<and> 56320 \<le> q \<and> q < 57344 then Some ((r - 55296) * 1024 + (q - 56320) + 65536) else None
      | None \<Rightarrow> None)"

definition simple_escape :: "char \<Rightarrow> char option" where
  "simple_escape e =
     (if e = CHR 0x22 \<or> e = CHR 0x5C \<or> e = CHR ''/'' then Some e
      else if e = CHR ''b'' then Some CHR 0x08
      else if e = CHR ''f'' then Some CHR 0x0C
      else if e = CHR ''n'' then Some CHR 0x0A
      else if e = CHR ''r'' then Some CHR 0x0D
      else if e = CHR ''t'' then Some CHR 0x09 else None)"

text \<open>The text after an opening quote: the decoded bytes and what follows the closing quote.\<close>

function lex_string :: "string \<Rightarrow> (string \<times> string) option" where
  "lex_string [] = None"
| "lex_string (c # cs) =
     (if c = CHR 0x22 then Some ([], cs)
      else if c = CHR 0x5C
      then (case cs of
          [] \<Rightarrow> None
        | e # es \<Rightarrow>
            if e = CHR ''u''
            then (case hex4 es of
                None \<Rightarrow> None
              | Some r \<Rightarrow>
                  if 55296 \<le> r \<and> r \<le> 57343
                  then (case surrogate_pair r (getu4 (drop 4 es)) of
                      Some p \<Rightarrow> map_option (apfst (append (EncodeRune p))) (lex_string (drop 10 es))
                    | None \<Rightarrow> map_option (apfst (append (EncodeRune RuneError))) (lex_string (drop 4 es)))
                  else map_option (apfst (append (EncodeRune r))) (lex_string (drop 4 es)))
            else (case simple_escape e of
                None \<Rightarrow> None
              | Some x \<Rightarrow> map_option (apfst (Cons x)) (lex_string es)))
      else if char_code c < 32 then None
      else map_option (apfst (append (EncodeRune (fst (DecodeRune (c # cs)))))) (lex_string (drop (snd (DecodeRune (c # cs))) (c # cs))))"
  by pat_completeness auto
termination
proof (relation "measure length")
  fix c :: char and cs
  have "0 < snd (DecodeRune (c # cs))" by (rule DecodeRune_width)
  then show "(drop (snd (DecodeRune (c # cs))) (c # cs), c # cs) \<in> measure length" by simp
qed auto

definition is_digit :: "char \<Rightarrow> bool" where
  "is_digit c \<longleftrightarrow> 48 \<le> char_code c \<and> char_code c \<le> 57"

definition digits :: "string \<Rightarrow> string \<times> string" where
  "digits s = (takeWhile is_digit s, dropWhile is_digit s)"

definition lex_fraction :: "string \<Rightarrow> (string \<times> string) option" where
  "lex_fraction s =
     (case s of
        c # r \<Rightarrow> if c = CHR ''.'' then (case digits r of ([], _) \<Rightarrow> None | (ds, r') \<Rightarrow> Some (c # ds, r')) else Some ([], s)
      | [] \<Rightarrow> Some ([], s))"

definition lex_exponent :: "string \<Rightarrow> (string \<times> string) option" where
  "lex_exponent s =
     (case s of
        c # r \<Rightarrow>
          if c = CHR ''e'' \<or> c = CHR ''E''
          then (let (sg, r') = (case r of d # q \<Rightarrow> if d = CHR ''+'' \<or> d = CHR ''-'' then ([d], q) else ([], r) | [] \<Rightarrow> ([], r))
                in case digits r' of ([], _) \<Rightarrow> None | (ds, r'') \<Rightarrow> Some (c # sg @ ds, r''))
          else Some ([], s)
      | [] \<Rightarrow> Some ([], s))"

definition lex_number :: "string \<Rightarrow> (string \<times> string) option" where
  "lex_number s =
     (let (sg, s1) = (case s of c # r \<Rightarrow> if c = CHR ''-'' then ([c], r) else ([], s) | [] \<Rightarrow> ([], s));
          whole = (case s1 of c # r \<Rightarrow> if c = CHR ''0'' then ([c], r) else digits s1 | [] \<Rightarrow> ([], []))
      in case whole of
           ([], _) \<Rightarrow> None
         | (ds, s2) \<Rightarrow>
             (case lex_fraction s2 of
                None \<Rightarrow> None
              | Some (fr, s3) \<Rightarrow> map_option (apfst (\<lambda>ex. sg @ ds @ fr @ ex)) (lex_exponent s3)))"

definition lex_word :: "string \<Rightarrow> (token \<times> string) option" where
  "lex_word s =
     (if HasPrefix s ''null'' then Some (TNull, drop 4 s)
      else if HasPrefix s ''true'' then Some (TBool True, drop 4 s)
      else if HasPrefix s ''false'' then Some (TBool False, drop 5 s) else None)"

definition json_space :: "char \<Rightarrow> bool" where
  "json_space c \<longleftrightarrow> c = CHR '' '' \<or> c = CHR 0x09 \<or> c = CHR 0x0A \<or> c = CHR 0x0D"

definition punctuation :: "char \<Rightarrow> token option" where
  "punctuation c =
     (if c = CHR ''{'' then Some TLBrace else if c = CHR ''}'' then Some TRBrace
      else if c = CHR ''['' then Some TLBracket else if c = CHR '']'' then Some TRBracket
      else if c = CHR '':'' then Some TColon else if c = CHR '','' then Some TComma else None)"

definition lex_token :: "string \<Rightarrow> (token \<times> string) option" where
  "lex_token s =
     (case s of
        [] \<Rightarrow> None
      | c # cs \<Rightarrow>
          (case punctuation c of
             Some t \<Rightarrow> Some (t, cs)
           | None \<Rightarrow>
               if c = CHR 0x22 then map_option (apfst TStr) (lex_string cs)
               else if c = CHR ''-'' \<or> is_digit c then map_option (apfst TNum) (lex_number s)
               else lex_word s))"

lemma lex_string_rest: "lex_string s = Some (v, r) \<Longrightarrow> length r < length s"
proof (induction s arbitrary: v rule: lex_string.induct)
  case (2 c cs)
  have w: "length (drop (snd (DecodeRune (c # cs))) (c # cs)) \<le> length cs"
    using DecodeRune_width [of "c # cs"] by simp
  show ?case using "2.prems" "2.IH" w
    by (auto split: if_splits list.splits option.splits) (force dest: less_trans le_less_trans)+
qed simp

lemma digits_rest: "digits s = (ds, r) \<Longrightarrow> length r + length ds = length s"
  by (auto simp: digits_def) (metis length_append takeWhile_dropWhile_id add.commute)

lemma lex_number_rest:
  assumes "lex_number s = Some (v, r)"
  shows "length r < length s"
proof -
  obtain sg s1 where sg: "(case s of c # r \<Rightarrow> if c = CHR ''-'' then ([c], r) else ([], s) | [] \<Rightarrow> ([], s)) = (sg, s1)" by fastforce
  have s1: "length s1 \<le> length s" using sg by (auto split: list.splits if_splits)
  define whole where "whole = (case s1 of c # r \<Rightarrow> if c = CHR ''0'' then ([c], r) else digits s1 | [] \<Rightarrow> ([], []))"
  obtain ds s2 where w: "whole = (ds, s2)" by fastforce
  have ds: "ds \<noteq> []" using assms sg w by (auto simp: lex_number_def whole_def Let_def split: list.splits)
  then have s2: "length s2 < length s1"
    using w by (cases ds) (auto simp: whole_def split: list.splits if_splits dest!: digits_rest)
  obtain fr s3 ex where f: "lex_fraction s2 = Some (fr, s3)" "lex_exponent s3 = Some (ex, r)"
    using assms sg w ds by (auto simp: lex_number_def whole_def [symmetric] split: list.splits option.splits)
  have "length s3 \<le> length s2" using f(1)
    by (auto simp: lex_fraction_def split: list.splits if_splits prod.splits dest!: digits_rest)
  moreover have "length r \<le> length s3" using f(2)
    by (auto simp: lex_exponent_def split: list.splits if_splits prod.splits dest!: digits_rest)
  ultimately show ?thesis using s1 s2 by linarith
qed

lemma lex_token_rest: "lex_token s = Some (t, r) \<Longrightarrow> length r < length s"
  by (auto simp: lex_token_def lex_word_def HasPrefix_def
      split: list.splits option.splits if_splits dest!: lex_string_rest lex_number_rest)

function lex :: "string \<Rightarrow> token list option" where
  "lex [] = Some []"
| "lex (c # cs) =
     (if json_space c then lex cs
      else (case lex_token (c # cs) of
          None \<Rightarrow> None
        | Some (t, r) \<Rightarrow> map_option (Cons t) (lex r)))"
  by pat_completeness auto
termination
  by (relation "measure length") (auto dest: lex_token_rest)

section \<open>Values\<close>

datatype json = JNull | JBool bool | JNum string | JStr string | JArr "json list" | JObj "(string \<times> json) list"

text \<open>The parser is the scanner's automaton: a mode, a stack of open arrays and objects, one token at a
  time. At most 10000 of them may be open.\<close>

datatype frame = InArr "json list" | InObj "(string \<times> json) list" | InField "(string \<times> json) list" string

datatype mode = WantValue | WantFirst | WantKeyOrEnd | WantKey | WantColon | AfterValue json

definition maxNestingDepth :: nat where "maxNestingDepth = 10000"

fun scalar :: "token \<Rightarrow> json option" where
  "scalar TNull = Some JNull"
| "scalar (TBool b) = Some (JBool b)"
| "scalar (TNum n) = Some (JNum n)"
| "scalar (TStr s) = Some (JStr s)"
| "scalar t = None"

fun begin_value :: "token \<Rightarrow> frame list \<Rightarrow> (mode \<times> frame list) option" where
  "begin_value TLBrace st = (if length st < maxNestingDepth then Some (WantKeyOrEnd, InObj [] # st) else None)"
| "begin_value TLBracket st = (if length st < maxNestingDepth then Some (WantFirst, InArr [] # st) else None)"
| "begin_value t st = map_option (\<lambda>v. (AfterValue v, st)) (scalar t)"

fun parse_step :: "mode \<Rightarrow> frame list \<Rightarrow> token \<Rightarrow> (mode \<times> frame list) option" where
  "parse_step WantValue st t = begin_value t st"
| "parse_step WantFirst (InArr xs # st) t = (if t = TRBracket then Some (AfterValue (JArr xs), st) else begin_value t (InArr xs # st))"
| "parse_step WantKeyOrEnd (InObj ps # st) t =
     (case t of TRBrace \<Rightarrow> Some (AfterValue (JObj ps), st) | TStr k \<Rightarrow> Some (WantColon, InField ps k # st) | _ \<Rightarrow> None)"
| "parse_step WantKey (InObj ps # st) t = (case t of TStr k \<Rightarrow> Some (WantColon, InField ps k # st) | _ \<Rightarrow> None)"
| "parse_step WantColon st t = (if t = TColon then Some (WantValue, st) else None)"
| "parse_step (AfterValue v) (InArr xs # st) t =
     (if t = TComma then Some (WantValue, InArr (xs @ [v]) # st)
      else if t = TRBracket then Some (AfterValue (JArr (xs @ [v])), st) else None)"
| "parse_step (AfterValue v) (InField ps k # st) t =
     (if t = TComma then Some (WantKey, InObj (ps @ [(k, v)]) # st)
      else if t = TRBrace then Some (AfterValue (JObj (ps @ [(k, v)])), st) else None)"
| "parse_step _ _ _ = None"

fun parse_tokens :: "mode \<Rightarrow> frame list \<Rightarrow> token list \<Rightarrow> json option" where
  "parse_tokens m st [] = (case (m, st) of (AfterValue v, []) \<Rightarrow> Some v | _ \<Rightarrow> None)"
| "parse_tokens m st (t # ts) = (case parse_step m st t of None \<Rightarrow> None | Some (m', st') \<Rightarrow> parse_tokens m' st' ts)"

text \<open>Exactly one value, with nothing but space around it: \<open>json.Unmarshal\<close>, and \<open>Decode\<close> followed by
  the check for the end of the input.\<close>

definition json_parse :: "string \<Rightarrow> json option" where
  "json_parse s = (case lex s of None \<Rightarrow> None | Some ts \<Rightarrow> parse_tokens WantValue [] ts)"

text \<open>
  A number is read into a \<open>float64\<close> by the walk below and refused when it rounds to an infinity: its
  absolute value is at least the middle between the largest float and \<open>2 ^ 1024\<close>. The exponent stops
  growing once it has five digits, as in \<open>readFloat\<close>.
\<close>

definition digit_value :: "char \<Rightarrow> int" where
  "digit_value c = char_code c - 48"

definition decimal :: "string \<Rightarrow> int" where
  "decimal ds = fold (\<lambda>c n. n * 10 + digit_value c) ds 0"

definition exponent :: "string \<Rightarrow> int" where
  "exponent s =
     (let neg = (case s of c # _ \<Rightarrow> c = CHR ''-'' | [] \<Rightarrow> False);
          e = fold (\<lambda>c n. if n < 10000 then n * 10 + digit_value c else n) (filter is_digit s) 0
      in if neg then - e else e)"

definition float_overflow :: int where
  "float_overflow = 2 ^ 1024 - 2 ^ 970"

definition ParseFloat_range :: "string \<Rightarrow> bool" where
  "ParseFloat_range num =
     (let mantissa = takeWhile (\<lambda>c. c \<noteq> CHR ''e'' \<and> c \<noteq> CHR ''E'') num;
          fraction = filter is_digit (dropWhile (\<lambda>c. c \<noteq> CHR ''.'') mantissa);
          m = decimal (filter is_digit mantissa);
          e = exponent (drop (Suc (length mantissa)) num) - int (length fraction)
      in if 0 \<le> e then m * 10 ^ nat e < float_overflow else m < float_overflow * 10 ^ nat (- e))"

text \<open>The walk over all nested values: no duplicate key in an object, no value nested too deep, no number
  out of range.\<close>

fun scanJSONValue :: "nat \<Rightarrow> nat \<Rightarrow> json \<Rightarrow> bool" where
  "scanJSONValue limit depth (JArr vs) \<longleftrightarrow> depth < limit \<and> list_all (scanJSONValue limit (Suc depth)) vs"
| "scanJSONValue limit depth (JObj ps) \<longleftrightarrow>
     depth < limit \<and> distinct (map fst ps) \<and> list_all (\<lambda>v. scanJSONValue limit (Suc depth) v) (map snd ps)"
| "scanJSONValue limit depth (JNum n) \<longleftrightarrow> ParseFloat_range n"
| "scanJSONValue limit depth v \<longleftrightarrow> True"

lemma ParseFloat_range_example: "ParseFloat_range ''-1.5e3'' \<and> \<not> ParseFloat_range ''1e309''"
  by code_simp

section \<open>Struct fields\<close>

text \<open>Field names match exactly or after folding. Of the foldings only those that reach an ASCII letter
  matter for the ASCII names of the structs: letter case, the Kelvin sign and the long s.\<close>

definition fold_byte :: "char \<Rightarrow> char" where
  "fold_byte c = (if 97 \<le> char_code c \<and> char_code c \<le> 122 then byte (char_code c - 32) else c)"

fun foldName :: "string \<Rightarrow> string" where
  "foldName (a # b # c # r) =
     (if a = CHR 0xE2 \<and> b = CHR 0x84 \<and> c = CHR 0xAA then CHR ''K'' # foldName r
      else if a = CHR 0xC5 \<and> b = CHR 0xBF then CHR ''S'' # foldName (c # r)
      else fold_byte a # foldName (b # c # r))"
| "foldName [a, b] = (if a = CHR 0xC5 \<and> b = CHR 0xBF then [CHR ''S''] else fold_byte a # foldName [b])"
| "foldName [a] = [fold_byte a]"
| "foldName [] = []"

definition field_of :: "string list \<Rightarrow> string \<Rightarrow> string option" where
  "field_of fields key =
     (if key \<in> set fields then Some key else find (\<lambda>f. foldName f = foldName key) fields)"

text \<open>The values that reach a field, the last of them first; \<open>None\<close> when a key names no field and unknown
  fields are refused.\<close>

definition known_fields :: "string list \<Rightarrow> (string \<times> json) list \<Rightarrow> bool" where
  "known_fields fields ps \<longleftrightarrow> list_all (\<lambda>(k, v). field_of fields k \<noteq> None) ps"

definition field_values :: "string list \<Rightarrow> string \<Rightarrow> (string \<times> json) list \<Rightarrow> json list" where
  "field_values fields f ps = rev (map snd (filter (\<lambda>(k, v). field_of fields k = Some f) ps))"

definition fields_of :: "json \<Rightarrow> (string \<times> json) list option" where
  "fields_of v = (case v of JObj ps \<Rightarrow> Some ps | JNull \<Rightarrow> Some [] | _ \<Rightarrow> None)"

text \<open>A field that is a pointer to a string: \<open>null\<close> clears it, anything but a string is an error.\<close>

definition is_string_or_null :: "json \<Rightarrow> bool" where
  "is_string_or_null v \<longleftrightarrow> (case v of JStr s \<Rightarrow> True | JNull \<Rightarrow> True | _ \<Rightarrow> False)"

definition pointer_string :: "json list \<Rightarrow> string option option" where
  "pointer_string vs =
     (if list_all is_string_or_null vs
      then Some (case vs of JStr s # _ \<Rightarrow> Some s | _ \<Rightarrow> None) else None)"

text \<open>A plain string field: \<open>null\<close> leaves it as it was.\<close>

definition plain_string :: "json list \<Rightarrow> string option" where
  "plain_string vs =
     (if list_all is_string_or_null vs
      then Some (case filter (\<lambda>v. v \<noteq> JNull) vs of JStr s # _ \<Rightarrow> s | _ \<Rightarrow> []) else None)"

text \<open>Decoding into a map: the last value of a key counts.\<close>

definition to_map :: "(string \<times> json) list \<Rightarrow> (string \<times> json) list" where
  "to_map ps = fold (\<lambda>(k, v) m. map_put k v m) ps []"

lemma json_parse_example:
  \<open>json_parse (''{"a": [1, -2.5e3, true, null], "b": {"c": "x'' @ [CHR 0x5C] @ ''u00e9'' @ [CHR 0x5C] @ ''n"}}'') =
     Some (JObj [(''a'', JArr [JNum ''1'', JNum ''-2.5e3'', JBool True, JNull]),
       (''b'', JObj [(''c'', JStr [CHR ''x'', CHR 0xC3, CHR 0xA9, CHR 0x0A])])])\<close>
  by code_simp

end
