(* ===== verification/Protocol.thy ===== *)
theory Protocol
  imports Json "HOL-Library.Multiset"
begin

text \<open>
  The model protocol (\<open>internal/protocol\<close>): finding the one envelope of a response, decoding the action
  or the final answer in it, and the fingerprint of an action. Arguments are kept as parsed values.
  The two regular expressions that name the reason of a missing envelope, the tool catalog and
  the hash of the fingerprint are arguments.
\<close>

section \<open>Types\<close>

definition maxResponseBytes :: int where "maxResponseBytes = 1048576"
definition maxJSONDepth :: nat where "maxJSONDepth = 128"

datatype EnvelopeKind = KindInvalid | KindAction | KindFinal

type_synonym Arguments = "(string \<times> json) list"

record Action =
  act_Version :: string
  act_Tool :: string
  act_Arguments :: Arguments

datatype FinalStatus = StatusComplete | StatusIncomplete

record EvidenceCitation =
  ci_EvidenceID :: string
  ci_Tool :: string

record FinalResponse =
  fi_Version :: string
  fi_Status :: FinalStatus
  fi_Summary :: string
  fi_Evidence :: "EvidenceCitation list"

datatype ProtocolFailure =
    MissingEnvelope | ProtocolRefusal | UnsupportedExecutionClaim | MultipleEnvelopes | UnclosedEnvelope
  | MalformedJSON | InvalidActionSchema | InvalidFinalSchema | UnsupportedProtocolVersion | UnknownTool
  | InvalidArguments | RepeatedAction

record ParseFailure =
  fl_Code :: ProtocolFailure
  fl_CorrectionReasonable :: bool

record ParseResult =
  ps_Kind :: EnvelopeKind
  ps_Action :: "Action option"
  ps_Final :: "FinalResponse option"
  ps_Failure :: "ParseFailure option"
  ps_MixedProse :: bool
  ps_SchemaValid :: bool
  ps_Accepted :: bool
  ps_Executable :: bool

definition CurrentVersion :: string where "CurrentVersion = ''runstead.protocol.v1''"

text \<open>A tool catalog says whether a tool is registered and whether its arguments are refused.\<close>

type_synonym ToolCatalog = "string \<Rightarrow> Arguments \<Rightarrow> bool \<times> bool"

section \<open>The envelope\<close>

record envelopeTag =
  et_kind :: EnvelopeKind
  et_opening :: bool
  et_start :: nat
  et_end :: nat

definition envelopeMarkers :: "(string \<times> EnvelopeKind \<times> bool) list" where
  "envelopeMarkers =
     [(''<runstead_action>'', KindAction, True), (''</runstead_action>'', KindAction, False),
      (''<runstead_final>'', KindFinal, True), (''</runstead_final>'', KindFinal, False)]"

definition markerAt :: "string \<Rightarrow> (string \<times> EnvelopeKind \<times> bool) option" where
  "markerAt s = find (\<lambda>m. HasPrefix s (fst m)) envelopeMarkers"

lemma markerAt_SomeD: "markerAt s = Some m \<Longrightarrow> m \<in> set envelopeMarkers \<and> HasPrefix s (fst m)"
  by (auto simp: markerAt_def find_Some_iff)

lemma marker_width: "m \<in> set envelopeMarkers \<Longrightarrow> 0 < length (fst m)"
  by (auto simp: envelopeMarkers_def)

text \<open>The scan over the rest of a response: its offset, and whether it is in an envelope, in a JSON string
  there, and after a backslash in that string.\<close>

function scanEnvelopeTags :: "string \<Rightarrow> nat \<Rightarrow> bool \<Rightarrow> bool \<Rightarrow> bool \<Rightarrow> envelopeTag list" where
  "scanEnvelopeTags [] offset inEnvelope inJSONString escaped = []"
| "scanEnvelopeTags (c # cs) offset inEnvelope inJSONString escaped =
     (if inEnvelope \<and> inJSONString
      then (if escaped then scanEnvelopeTags cs (Suc offset) inEnvelope inJSONString False
            else if c = CHR 0x5C then scanEnvelopeTags cs (Suc offset) inEnvelope inJSONString True
            else scanEnvelopeTags cs (Suc offset) inEnvelope (c \<noteq> CHR 0x22) False)
      else (case markerAt (c # cs) of
          Some (m, kind, opening) \<Rightarrow>
            \<lparr>et_kind = kind, et_opening = opening, et_start = offset, et_end = offset + length m\<rparr>
            # scanEnvelopeTags (drop (length m) (c # cs)) (offset + length m) opening
                (if opening then inJSONString else False) (if opening then escaped else False)
        | None \<Rightarrow> scanEnvelopeTags cs (Suc offset) inEnvelope (if inEnvelope \<and> c = CHR 0x22 then True else inJSONString) escaped))"
  by pat_completeness auto
termination
  by (relation "measure (length \<circ> fst)") (auto dest!: markerAt_SomeD marker_width)

definition classifyMissingEnvelope :: "(string \<Rightarrow> bool) \<Rightarrow> (string \<Rightarrow> bool) \<Rightarrow> string \<Rightarrow> ProtocolFailure" where
  "classifyMissingEnvelope refusal claim response =
     (if refusal response then ProtocolRefusal else if claim response then UnsupportedExecutionClaim else MissingEnvelope)"

definition extractEnvelope ::
  "(string \<Rightarrow> bool) \<Rightarrow> (string \<Rightarrow> bool) \<Rightarrow> string \<Rightarrow> EnvelopeKind \<times> string \<times> bool \<times> ProtocolFailure option" where
  "extractEnvelope refusal claim response =
     (let tags = scanEnvelopeTags response 0 False False False;
          openCount = length (filter et_opening tags)
      in if tags = [] then (KindInvalid, [], False, Some (classifyMissingEnvelope refusal claim response))
         else if openCount = 0 then (KindInvalid, [], False, Some UnclosedEnvelope)
         else if openCount > 1 then (KindInvalid, [], False, Some MultipleEnvelopes)
         else if \<not> et_opening (tags ! 0) then (KindInvalid, [], False, Some UnclosedEnvelope)
         else if length tags \<noteq> 2 then (KindInvalid, [], False, Some UnclosedEnvelope)
         else if et_opening (tags ! 1) \<or> et_kind (tags ! 0) \<noteq> et_kind (tags ! 1) then (KindInvalid, [], False, Some MultipleEnvelopes)
         else (let outside = take (et_start (tags ! 0)) response @ drop (et_end (tags ! 1)) response
               in (et_kind (tags ! 0), drop (et_end (tags ! 0)) (take (et_start (tags ! 1)) response), TrimSpace outside \<noteq> [], None)))"

section \<open>Decoding\<close>

definition decodeSingleJSON :: "string \<Rightarrow> json option" where
  "decodeSingleJSON block =
     (case json_parse block of
        None \<Rightarrow> None
      | Some v \<Rightarrow> if scanJSONValue maxJSONDepth 0 v then Some v else None)"

definition failedResult :: "EnvelopeKind \<Rightarrow> Action option \<Rightarrow> bool \<Rightarrow> bool \<Rightarrow> ProtocolFailure \<Rightarrow> ParseResult" where
  "failedResult kind action mixedProse schemaValid fcode =
     \<lparr>ps_Kind = kind, ps_Action = action, ps_Final = None,
      ps_Failure = Some \<lparr>fl_Code = fcode, fl_CorrectionReasonable = True\<rparr>, ps_MixedProse = mixedProse,
      ps_SchemaValid = schemaValid, ps_Accepted = False, ps_Executable = False\<rparr>"

definition decodeArguments :: "json \<Rightarrow> Arguments option" where
  "decodeArguments raw = (case raw of JObj ps \<Rightarrow> Some (to_map ps) | _ \<Rightarrow> None)"

definition action_fields :: "string list" where "action_fields = [''version'', ''tool'', ''arguments'']"
definition final_fields :: "string list" where "final_fields = [''version'', ''status'', ''summary'', ''evidence'']"
definition citation_fields :: "string list" where "citation_fields = [''evidence_id'', ''tool'']"

text \<open>The strict decoding of an envelope: the two string fields and the raw field, when all are there.\<close>

definition action_envelope :: "json \<Rightarrow> (string \<times> string \<times> json) option" where
  "action_envelope raw =
     (case fields_of raw of
        None \<Rightarrow> None
      | Some ps \<Rightarrow>
          if \<not> known_fields action_fields ps then None
          else (case (pointer_string (field_values action_fields ''version'' ps), pointer_string (field_values action_fields ''tool'' ps),
                  field_values action_fields ''arguments'' ps) of
              (Some (Some v), Some (Some t), a # _) \<Rightarrow> Some (v, t, a)
            | _ \<Rightarrow> None))"

definition final_envelope :: "json \<Rightarrow> (string \<times> string \<times> string \<times> json) option" where
  "final_envelope raw =
     (case fields_of raw of
        None \<Rightarrow> None
      | Some ps \<Rightarrow>
          if \<not> known_fields final_fields ps then None
          else (case (pointer_string (field_values final_fields ''version'' ps), pointer_string (field_values final_fields ''status'' ps),
                  pointer_string (field_values final_fields ''summary'' ps), field_values final_fields ''evidence'' ps) of
              (Some (Some v), Some (Some st), Some (Some sm), e # _) \<Rightarrow> Some (v, st, sm, e)
            | _ \<Rightarrow> None))"

definition decode_citation :: "json \<Rightarrow> EvidenceCitation option" where
  "decode_citation v =
     (case fields_of v of
        None \<Rightarrow> None
      | Some ps \<Rightarrow>
          if \<not> known_fields citation_fields ps then None
          else (case (plain_string (field_values citation_fields ''evidence_id'' ps), plain_string (field_values citation_fields ''tool'' ps)) of
              (Some i, Some t) \<Rightarrow> if is_blank i \<or> is_blank t then None else Some \<lparr>ci_EvidenceID = i, ci_Tool = t\<rparr>
            | _ \<Rightarrow> None))"

fun decode_citations :: "json list \<Rightarrow> EvidenceCitation list option" where
  "decode_citations [] = Some []"
| "decode_citations (v # vs) =
     (case decode_citation v of
        None \<Rightarrow> None
      | Some c \<Rightarrow> map_option (Cons c) (decode_citations vs))"

definition decodeEvidence :: "json \<Rightarrow> EvidenceCitation list option" where
  "decodeEvidence raw = (case raw of JArr vs \<Rightarrow> if vs = [] then None else decode_citations vs | _ \<Rightarrow> None)"

definition parseAction :: "ToolCatalog option \<Rightarrow> json \<Rightarrow> bool \<Rightarrow> ParseResult" where
  "parseAction catalog raw mixedProse =
     (case action_envelope raw of
        None \<Rightarrow> failedResult KindAction None mixedProse False InvalidActionSchema
      | Some (version, tool, args) \<Rightarrow>
          if version \<noteq> CurrentVersion then failedResult KindAction None mixedProse False UnsupportedProtocolVersion
          else if tool = [] then failedResult KindAction None mixedProse False InvalidActionSchema
          else (case decodeArguments args of
              None \<Rightarrow> failedResult KindAction None mixedProse False InvalidActionSchema
            | Some arguments \<Rightarrow>
                let action = \<lparr>act_Version = version, act_Tool = tool, act_Arguments = arguments\<rparr>
                in (case catalog of
                      None \<Rightarrow> failedResult KindAction (Some action) mixedProse True UnknownTool
                    | Some validate \<Rightarrow>
                        let (registered, bad) = validate tool arguments
                        in if \<not> registered then failedResult KindAction (Some action) mixedProse True UnknownTool
                           else if bad then failedResult KindAction (Some action) mixedProse True InvalidArguments
                           else \<lparr>ps_Kind = KindAction, ps_Action = Some action, ps_Final = None, ps_Failure = None,
                             ps_MixedProse = mixedProse, ps_SchemaValid = True, ps_Accepted = True, ps_Executable = True\<rparr>)))"

definition parse_status :: "string \<Rightarrow> FinalStatus option" where
  "parse_status st = (if st = ''complete'' then Some StatusComplete else if st = ''incomplete'' then Some StatusIncomplete else None)"

definition parseFinal :: "json \<Rightarrow> bool \<Rightarrow> ParseResult" where
  "parseFinal raw mixedProse =
     (case final_envelope raw of
        None \<Rightarrow> failedResult KindFinal None mixedProse False InvalidFinalSchema
      | Some (version, st, summary, ev) \<Rightarrow>
          if version \<noteq> CurrentVersion then failedResult KindFinal None mixedProse False UnsupportedProtocolVersion
          else (case parse_status st of
              None \<Rightarrow> failedResult KindFinal None mixedProse False InvalidFinalSchema
            | Some status \<Rightarrow>
                (case decodeEvidence ev of
                   None \<Rightarrow> failedResult KindFinal None mixedProse False InvalidFinalSchema
                 | Some evidence \<Rightarrow>
                     \<lparr>ps_Kind = KindFinal, ps_Action = None,
                      ps_Final = Some \<lparr>fi_Version = version, fi_Status = status, fi_Summary = summary, fi_Evidence = evidence\<rparr>,
                      ps_Failure = None, ps_MixedProse = mixedProse, ps_SchemaValid = True, ps_Accepted = True,
                      ps_Executable = False\<rparr>)))"

definition Parse :: "(string \<Rightarrow> bool) \<Rightarrow> (string \<Rightarrow> bool) \<Rightarrow> ToolCatalog option \<Rightarrow> string \<Rightarrow> ParseResult" where
  "Parse refusal claim catalog response =
     (if int (length response) > maxResponseBytes then failedResult KindInvalid None False False MalformedJSON
      else (case extractEnvelope refusal claim response of
          (kind, block, mixedProse, Some fcode) \<Rightarrow> failedResult kind None mixedProse False fcode
        | (kind, block, mixedProse, None) \<Rightarrow>
            (case decodeSingleJSON block of
               None \<Rightarrow> failedResult KindInvalid None mixedProse False MalformedJSON
             | Some raw \<Rightarrow> if kind = KindAction then parseAction catalog raw mixedProse else parseFinal raw mixedProse)))"

section \<open>Fingerprints\<close>

text \<open>Decoding into generic values and encoding again: objects become maps, printed in the order of
  their keys; numbers keep their text.\<close>

fun canonicalJSON :: "json \<Rightarrow> json" where
  "canonicalJSON (JArr vs) = JArr (map canonicalJSON vs)"
| "canonicalJSON (JObj ps) = JObj (sort_key fst (to_map (map (\<lambda>(k, v). (k, canonicalJSON v)) ps)))"
| "canonicalJSON v = v"

definition ActionFingerprint :: "(string \<Rightarrow> json \<Rightarrow> 'h) \<Rightarrow> Action \<Rightarrow> 'h" where
  "ActionFingerprint hash a = hash (act_Tool a) (canonicalJSON (JObj (act_Arguments a)))"

text \<open>The stand-alone guard of the package: the first sight of a fingerprint is recorded.\<close>

definition RepeatGuard_Check :: "(string \<Rightarrow> json \<Rightarrow> 'h) \<Rightarrow> 'h list \<Rightarrow> Action \<Rightarrow> ParseFailure option \<times> 'h list" where
  "RepeatGuard_Check hash seen a =
     (let fp = ActionFingerprint hash a
      in if fp \<in> set seen then (Some \<lparr>fl_Code = RepeatedAction, fl_CorrectionReasonable = True\<rparr>, seen)
         else (None, fp # seen))"

text \<open>A correction message is refused for a negative number of retries.\<close>

definition GenerateCorrectionMessage :: "ProtocolFailure \<Rightarrow> int \<Rightarrow> (ProtocolFailure \<times> int) option" where
  "GenerateCorrectionMessage fcode retriesRemaining = (if retriesRemaining < 0 then None else Some (fcode, retriesRemaining))"


section \<open>Envelopes\<close>

text \<open>The opening and the closing marker of an envelope.\<close>

fun open_marker :: "EnvelopeKind \<Rightarrow> string" where
  "open_marker KindAction = ''<runstead_action>''"
| "open_marker KindFinal = ''<runstead_final>''"
| "open_marker KindInvalid = []"

fun close_marker :: "EnvelopeKind \<Rightarrow> string" where
  "close_marker KindAction = ''</runstead_action>''"
| "close_marker KindFinal = ''</runstead_final>''"
| "close_marker KindInvalid = []"

text \<open>A text without a marker, and a text that, read inside an envelope, has no marker outside its strings
  and ends outside of one.\<close>

fun marker_free :: "string \<Rightarrow> bool" where
  "marker_free [] \<longleftrightarrow> True"
| "marker_free (c # cs) \<longleftrightarrow> markerAt (c # cs) = None \<and> marker_free cs"

fun plain_body :: "bool \<Rightarrow> bool \<Rightarrow> string \<Rightarrow> bool" where
  "plain_body inString escaped [] \<longleftrightarrow> \<not> inString"
| "plain_body True True (c # cs) \<longleftrightarrow> plain_body True False cs"
| "plain_body True False (c # cs) \<longleftrightarrow> (if c = CHR 0x5C then plain_body True True cs else plain_body (c \<noteq> CHR 0x22) False cs)"
| "plain_body False escaped (c # cs) \<longleftrightarrow> markerAt (c # cs) = None \<and> plain_body (c = CHR 0x22) False cs"

text \<open>A marker begins with the only \<open><\<close> in it, so it never reaches into a text that begins with one.\<close>

lemma marker_shape: "m \<in> set envelopeMarkers \<Longrightarrow> \<exists>r. fst m = CHR ''<'' # r \<and> CHR ''<'' \<notin> set r"
  by (auto simp: envelopeMarkers_def)

lemma HasPrefix_before:
  assumes "x \<noteq> []" "m \<in> set envelopeMarkers" "y = [] \<or> hd y = CHR ''<''"
  shows "HasPrefix (x @ y) (fst m) \<longleftrightarrow> HasPrefix x (fst m)"
proof -
  obtain r where r: "fst m = CHR ''<'' # r" "CHR ''<'' \<notin> set r" using marker_shape [OF assms(2)] by blast
  show ?thesis
  proof (cases "length (fst m) \<le> length x")
    case True
    then show ?thesis by (simp add: HasPrefix_def)
  next
    case False
    have "\<not> HasPrefix (x @ y) (fst m)"
    proof
      assume "HasPrefix (x @ y) (fst m)"
      then have t: "take (length (fst m)) (x @ y) = fst m" by (simp add: HasPrefix_def)
      then have "y \<noteq> []" using False by (metis append_Nil2 length_take min.cobounded1 nat_le_linear)
      then have "hd y = CHR ''<''" using assms(3) by blast
      moreover have "(x @ y) ! length x = hd y" using \<open>y \<noteq> []\<close> by (simp add: nth_append hd_conv_nth)
      moreover have "fst m ! length x = (x @ y) ! length x" using t False by (metis nth_take not_le)
      ultimately have "r ! (length x - 1) = CHR ''<''" using r(1) assms(1) by (cases x) auto
      moreover have "length x - 1 < length r" using False r(1) assms(1) by (cases x) auto
      ultimately show False using r(2) by (metis nth_mem)
    qed
    moreover have "\<not> HasPrefix x (fst m)" using False by (metis HasPrefix_def length_take min.cobounded1 not_le)
    ultimately show ?thesis by simp
  qed
qed

lemma markerAt_before:
  assumes "x \<noteq> []" "y = [] \<or> hd y = CHR ''<''"
  shows "markerAt (x @ y) = markerAt x"
  unfolding markerAt_def by (rule find_cong [OF refl]) (rule HasPrefix_before [OF assms(1) _ assms(2)])

lemma scan_outside:
  assumes "marker_free x" "y = [] \<or> hd y = CHR ''<''"
  shows "scanEnvelopeTags (x @ y) n False False False = scanEnvelopeTags y (n + length x) False False False"
  using assms(1)
proof (induction x arbitrary: n)
  case (Cons c cs)
  have "markerAt ((c # cs) @ y) = None" using Cons.prems markerAt_before [of "c # cs" y] assms(2) by simp
  then show ?case using Cons by simp
qed simp

lemma scan_inside:
  assumes "plain_body inString escaped x" "hd y = CHR ''<''" "\<not> inString \<longrightarrow> \<not> escaped"
  shows "scanEnvelopeTags (x @ y) n True inString escaped = scanEnvelopeTags y (n + length x) True False False"
  using assms(1,3)
proof (induction inString escaped x arbitrary: n rule: plain_body.induct)
  case (4 escaped c cs)
  have "markerAt ((c # cs) @ y) = None" using "4.prems"(1) markerAt_before [of "c # cs" y] assms(2) by simp
  then show ?case using "4" by (cases "c = CHR 0x22") simp_all
qed (auto split: if_splits)

lemma markerAt_markers:
  "k \<noteq> KindInvalid \<Longrightarrow> markerAt (open_marker k @ s) = Some (open_marker k, k, True)"
  "k \<noteq> KindInvalid \<Longrightarrow> markerAt (close_marker k @ s) = Some (close_marker k, k, False)"
  by (cases k; simp add: markerAt_def envelopeMarkers_def HasPrefix_def)+

lemma markers_Cons:
  "k \<noteq> KindInvalid \<Longrightarrow> \<exists>r. open_marker k = CHR ''<'' # r" "k \<noteq> KindInvalid \<Longrightarrow> \<exists>r. close_marker k = CHR ''<'' # r"
  by (cases k; simp)+

lemma scan_at_marker:
  assumes "markerAt s = Some (m, k, opn)" "s = m @ r" "\<not> (inEnv \<and> inString)"
  shows "scanEnvelopeTags s n inEnv inString escaped =
    \<lparr>et_kind = k, et_opening = opn, et_start = n, et_end = n + length m\<rparr>
      # scanEnvelopeTags r (n + length m) opn (if opn then inString else False) (if opn then escaped else False)"
proof (cases s)
  case Nil
  then show ?thesis using assms(1) by (simp add: markerAt_def envelopeMarkers_def HasPrefix_def)
next
  case (Cons c cs)
  then have "drop (length m) (c # cs) = r" using assms(2) by (metis append_eq_conv_conj)
  moreover have "markerAt (c # cs) = Some (m, k, opn)" using assms(1) Cons by simp
  ultimately show ?thesis unfolding Cons using assms(3) by auto
qed

lemma extract_envelope:
  assumes "marker_free pre" "plain_body False False body" "marker_free post" "k \<noteq> KindInvalid"
  shows "extractEnvelope refusal claim (pre @ open_marker k @ body @ close_marker k @ post) =
    (k, body, TrimSpace (pre @ post) \<noteq> [], None)"
proof -
  let ?o = "open_marker k" and ?c = "close_marker k"
  let ?a = "length pre" and ?b = "length pre + length ?o" and ?d = "length pre + length ?o + length body"
  have o: "hd (?o @ x) = CHR ''<''" and c: "hd (?c @ x) = CHR ''<''" for x using markers_Cons [OF assms(4)] by auto
  have t0: "scanEnvelopeTags (pre @ ?o @ body @ ?c @ post) 0 False False False =
      scanEnvelopeTags (?o @ body @ ?c @ post) ?a False False False"
    using scan_outside [OF assms(1), of "?o @ body @ ?c @ post" 0] o by simp
  have t1: "scanEnvelopeTags (?o @ body @ ?c @ post) ?a False False False =
      \<lparr>et_kind = k, et_opening = True, et_start = ?a, et_end = ?b\<rparr> # scanEnvelopeTags (body @ ?c @ post) ?b True False False"
    using scan_at_marker [OF markerAt_markers(1) [OF assms(4)] refl] by simp
  have t2: "scanEnvelopeTags (body @ ?c @ post) ?b True False False = scanEnvelopeTags (?c @ post) ?d True False False"
    using scan_inside [OF assms(2), of "?c @ post"] c by simp
  have t3: "scanEnvelopeTags (?c @ post) ?d True False False =
      \<lparr>et_kind = k, et_opening = False, et_start = ?d, et_end = ?d + length ?c\<rparr> # scanEnvelopeTags post (?d + length ?c) False False False"
    using scan_at_marker [OF markerAt_markers(2) [OF assms(4)] refl] by simp
  have t4: "scanEnvelopeTags post n False False False = []" for n using scan_outside [OF assms(3), of "[]"] by simp
  show ?thesis unfolding extractEnvelope_def t0 t1 t2 t3 t4 by (simp add: Let_def)
qed


text \<open>A text of tokens is plain: no token outside a string begins with \<open><\<close>.\<close>

lemma no_marker: "c \<noteq> CHR ''<'' \<Longrightarrow> markerAt (c # cs) = None"
  by (simp add: markerAt_def envelopeMarkers_def HasPrefix_def)

lemma plain_skip: "set x \<inter> {CHR 0x22, CHR 0x5C} = {} \<Longrightarrow> plain_body True False (x @ y) = plain_body True False y"
  by (induction x) auto

lemma plain_outside: "CHR ''<'' \<notin> set x \<Longrightarrow> CHR 0x22 \<notin> set x \<Longrightarrow> plain_body False False (x @ y) = plain_body False False y"
  by (induction x) (auto simp: no_marker)

lemma hex4_chars:
  assumes "hex4 s = Some r"
  shows "\<exists>a b c d q. s = a # b # c # d # q \<and> {a, b, c, d} \<inter> {CHR 0x22, CHR 0x5C} = {}"
proof -
  have "hex_value CHR 0x22 = None" "hex_value CHR 0x5C = None" by code_simp+
  then show ?thesis using assms by (auto simp: hex4_def split: list.splits option.splits)
qed

lemma plain_hex4: "hex4 s = Some r \<Longrightarrow> plain_body True False s = plain_body True False (drop 4 s)"
  by (drule hex4_chars) auto

lemma plain_getu4:
  assumes "getu4 s = Some r"
  shows "plain_body True False s = plain_body True False (drop 6 s)"
proof -
  obtain q where q: "s = CHR 0x5C # CHR ''u'' # q" "hex4 q = Some r"
    using assms by (auto simp: getu4_def split: list.splits if_splits)
  then show ?thesis using plain_hex4 [OF q(2)] by simp
qed

lemma surrogate_pair_Some: "surrogate_pair r q = Some p \<Longrightarrow> q \<noteq> None"
  by (auto simp: surrogate_pair_def split: option.splits)

text \<open>The bytes of one rune: none of them is a quote or a backslash when the first is not.\<close>

lemma rune_tail: "0 < i \<Longrightarrow> i < snd (DecodeRune s) \<Longrightarrow> 128 \<le> char_code (s ! i)"
proof -
  assume i: "0 < i" "i < snd (DecodeRune s)"
  then have "snd (DecodeRune s) \<le> 4" by (auto simp: DecodeRune_def Let_def split: if_splits)
  then have "i = 1 \<or> i = 2 \<or> i = 3" using i by linarith
  then show ?thesis using i(2)
    by (elim disjE) (auto simp: DecodeRune_def Let_def continuation_byte_def split: if_splits)
qed

lemma rune_bytes:
  assumes "c \<noteq> CHR 0x22" "c \<noteq> CHR 0x5C"
  shows "set (take (snd (DecodeRune (c # cs))) (c # cs)) \<inter> {CHR 0x22, CHR 0x5C} = {}"
proof -
  have "(c # cs) ! i \<notin> {CHR 0x22, CHR 0x5C}" if "i < snd (DecodeRune (c # cs))" for i
  proof (cases i)
    case (Suc j)
    have "char_code CHR 0x22 < 128" "char_code CHR 0x5C < 128" by code_simp+
    then show ?thesis using rune_tail [of i "c # cs"] that Suc by auto
  qed (use assms in simp)
  then have "x \<notin> {CHR 0x22, CHR 0x5C}" if "x \<in> set (take (snd (DecodeRune (c # cs))) (c # cs))" for x
    using that unfolding in_set_conv_nth by (metis length_take min_less_iff_conj nth_take)
  then show ?thesis by blast
qed

lemma plain_string:
  "lex_string s = Some (v, r) \<Longrightarrow> plain_body True False s = plain_body False False r"
proof (induction s arbitrary: v rule: lex_string.induct)
  case (2 c cs)
  show ?case
  proof (cases "c = CHR 0x22 \<or> c = CHR 0x5C")
    case False
    let ?n = "snd (DecodeRune (c # cs))"
    have "plain_body True False (c # cs) = plain_body True False (drop ?n (c # cs))"
      using plain_skip [OF rune_bytes, of c cs "drop ?n (c # cs)"] False by (metis append_take_drop_id)
    then show ?thesis using "2.IH"(5) "2.prems" False by (auto split: if_splits)
  next
    case esc: True
    show ?thesis
    proof (cases "c = CHR 0x22")
      case True
      then show ?thesis using "2.prems" by auto
    next
      case False
      then have c: "c = CHR 0x5C" using esc by simp
      then obtain e es where cs: "cs = e # es" using "2.prems" by (cases cs) auto
      show ?thesis
      proof (cases "e = CHR ''u''")
        case True
        obtain u where u: "hex4 es = Some u" using "2.prems" c cs True by (auto split: option.splits)
        have hex: "plain_body True False (c # cs) = plain_body True False (drop 4 es)"
          using plain_hex4 [OF u] c cs True by simp
        show ?thesis
        proof (cases "surrogate_pair u (getu4 (drop 4 es))")
          case None
          then show ?thesis using "2.prems" "2.IH"(1-4) c cs True u hex by (cases "55296 \<le> u \<and> u \<le> 57343") auto
        next
          case (Some q)
          then obtain w where w: "getu4 (drop 4 es) = Some w" using surrogate_pair_Some by blast
          have "plain_body True False (c # cs) = plain_body True False (drop 10 es)"
            using hex plain_getu4 [OF w] by simp
          then show ?thesis using "2.prems" "2.IH"(1-4) c cs True u hex Some by (cases "55296 \<le> u \<and> u \<le> 57343") auto
        qed
      next
        case False
        then show ?thesis using "2.prems" "2.IH"(4) c cs by (auto split: option.splits)
      qed
    qed
  qed
qed simp

definition number_char :: "char \<Rightarrow> bool" where
  "number_char c \<longleftrightarrow> is_digit c \<or> c = CHR ''-'' \<or> c = CHR ''+'' \<or> c = CHR ''.'' \<or> c = CHR ''e'' \<or> c = CHR ''E''"

definition splits_number :: "string \<Rightarrow> string \<Rightarrow> string \<Rightarrow> bool" where
  "splits_number s v r \<longleftrightarrow> s = v @ r \<and> list_all number_char v"

lemma splits_digits: "digits s = (ds, r) \<Longrightarrow> splits_number s ds r"
  by (auto simp: digits_def splits_number_def list_all_iff number_char_def dest: set_takeWhileD)

lemma splits_fraction: "lex_fraction s = Some (v, r) \<Longrightarrow> splits_number s v r"
  by (auto simp: lex_fraction_def splits_number_def number_char_def split: list.splits if_splits prod.splits dest!: splits_digits)

lemma splits_exponent: "lex_exponent s = Some (v, r) \<Longrightarrow> splits_number s v r"
  by (auto simp: lex_exponent_def splits_number_def number_char_def split: list.splits if_splits prod.splits dest!: splits_digits)

lemma splits_lex_number:
  assumes "lex_number s = Some (v, r)"
  shows "splits_number s v r"
proof -
  obtain sg s1 where sg: "(case s of c # r \<Rightarrow> if c = CHR ''-'' then ([c], r) else ([], s) | [] \<Rightarrow> ([], s)) = (sg, s1)" by fastforce
  have s1: "splits_number s sg s1" using sg by (auto simp: splits_number_def number_char_def split: list.splits if_splits)
  define whole where "whole = (case s1 of c # r \<Rightarrow> if c = CHR ''0'' then ([c], r) else digits s1 | [] \<Rightarrow> ([], []))"
  obtain ds s2 where w: "whole = (ds, s2)" by fastforce
  have zero: "is_digit CHR ''0''" by code_simp
  have s2: "splits_number s1 ds s2"
    using w zero by (auto simp: whole_def splits_number_def number_char_def split: list.splits if_splits dest!: splits_digits)
  obtain fr s3 ex where f: "lex_fraction s2 = Some (fr, s3)" "lex_exponent s3 = Some (ex, r)" "v = sg @ ds @ fr @ ex"
    using assms sg w by (auto simp: lex_number_def whole_def [symmetric] split: list.splits option.splits)
  show ?thesis using s1 s2 splits_fraction [OF f(1)] splits_exponent [OF f(2)] f(3) by (simp add: splits_number_def)
qed

lemma plain_number: "splits_number s v r \<Longrightarrow> plain_body False False s = plain_body False False r"
proof -
  assume s: "splits_number s v r"
  have "\<not> number_char CHR ''<''" "\<not> number_char CHR 0x22" by code_simp+
  then show ?thesis using s plain_outside [of v r] by (auto simp: splits_number_def list_all_iff)
qed

lemma plain_prefix:
  assumes "HasPrefix s v" "CHR ''<'' \<notin> set v" "CHR 0x22 \<notin> set v"
  shows "plain_body False False s = plain_body False False (drop (length v) s)"
  using assms plain_outside [of v "drop (length v) s"] by (metis HasPrefix_def append_take_drop_id)

lemma plain_word: "lex_word s = Some (t, r) \<Longrightarrow> plain_body False False s = plain_body False False r"
  using plain_prefix [of s "''null''"] plain_prefix [of s "''true''"] plain_prefix [of s "''false''"]
  by (auto simp: lex_word_def eval_nat_numeral split: if_splits)

lemma plain_token:
  assumes "lex_token s = Some (t, r)"
  shows "plain_body False False s = plain_body False False r"
proof -
  obtain c cs where s: "s = c # cs" using assms by (cases s) (auto simp: lex_token_def)
  show ?thesis
  proof (cases "punctuation c")
    case (Some p)
    then have "c \<noteq> CHR ''<''" "c \<noteq> CHR 0x22" by (auto simp: punctuation_def split: if_splits)
    then show ?thesis using assms s Some by (auto simp: lex_token_def no_marker)
  next
    case None
    show ?thesis
    proof (cases "c = CHR 0x22")
      case True
      then obtain v where v: "lex_string cs = Some (v, r)" using assms s None by (auto simp: lex_token_def)
      show ?thesis using plain_string [OF v] s True by (simp add: no_marker)
    next
      case False
      then show ?thesis using assms s None plain_number [OF splits_lex_number, of s] plain_word [of s]
        by (auto simp: lex_token_def split: if_splits)
    qed
  qed
qed

lemma lex_plain: "lex s = Some ts \<Longrightarrow> plain_body False False s"
proof (induction s arbitrary: ts rule: lex.induct)
  case (2 c cs)
  show ?case
  proof (cases "json_space c")
    case True
    then have "c \<noteq> CHR ''<''" "c \<noteq> CHR 0x22" by (auto simp: json_space_def)
    then show ?thesis using 2 True by (simp add: no_marker)
  next
    case False
    then obtain t r us where "lex_token (c # cs) = Some (t, r)" "lex r = Some us"
      using "2.prems" by (auto split: option.splits)
    then show ?thesis using "2.IH"(2) [OF False _ refl] plain_token by blast
  qed
qed simp

end
