(* ===== verification/Json_Decode.thy ===== *)
theory Json_Decode
  imports Json
begin

text \<open>
  Decoding of JSON into Go values: strings, booleans, 64-bit integers, slices and structs. A value is decoded
  into the one that is already there, as \<open>encoding/json\<close> does: \<open>null\<close> leaves it (and empties a
  slice), a struct keeps the fields a document does not name, and the elements of a slice are decoded into
  the elements of its backing array, those beyond its length included. A type error anywhere fails the whole.
\<close>

datatype shape = SString | SBool | SInt | SSlice shape | SStruct "(string \<times> shape) list"

datatype gval = GString string | GBool bool | GInt int | GSlice "gval list" "gval list" | GStruct "(string \<times> gval) list"

fun zero_of :: "shape \<Rightarrow> gval" where
  "zero_of SString = GString []"
| "zero_of SBool = GBool False"
| "zero_of SInt = GInt 0"
| "zero_of (SSlice sh) = GSlice [] []"
| "zero_of (SStruct fs) = GStruct (map (\<lambda>(k, sh). (k, zero_of sh)) fs)"

definition ParseInt :: "string \<Rightarrow> int option" where
  "ParseInt s =
     (let (neg, ds) = (case s of c # r \<Rightarrow> if c = CHR ''-'' then (True, r) else (False, s) | [] \<Rightarrow> (False, s));
          v = (if neg then - decimal ds else decimal ds)
      in if ds \<noteq> [] \<and> list_all is_digit ds \<and> - (2 ^ 63) \<le> v \<and> v < 2 ^ 63 then Some v else None)"

fun decode :: "bool \<Rightarrow> shape \<Rightarrow> gval \<Rightarrow> json \<Rightarrow> gval option"
  and decode_elements :: "bool \<Rightarrow> shape \<Rightarrow> gval list \<Rightarrow> json list \<Rightarrow> gval list option"
  and decode_fields :: "bool \<Rightarrow> (string \<times> shape) list \<Rightarrow> (string \<times> gval) list \<Rightarrow> (string \<times> json) list \<Rightarrow> (string \<times> gval) list option" where
  "decode strict sh old JNull = Some (case sh of SSlice _ \<Rightarrow> GSlice [] [] | _ \<Rightarrow> old)"
| "decode strict SString old (JStr s) = Some (GString s)"
| "decode strict SBool old (JBool b) = Some (GBool b)"
| "decode strict SInt old (JNum n) = map_option GInt (ParseInt n)"
| "decode strict (SSlice sh) (GSlice xs stale) (JArr vs) =
     (if vs = [] then Some (GSlice [] [])
      else map_option (\<lambda>ws. GSlice ws (drop (length vs) (xs @ stale))) (decode_elements strict sh (xs @ stale) vs))"
| "decode strict (SStruct fs) (GStruct cur) (JObj ps) = map_option GStruct (decode_fields strict fs cur ps)"
| "decode strict sh old v = None"
| "decode_elements strict sh olds [] = Some []"
| "decode_elements strict sh olds (v # vs) =
     (case decode strict sh (case olds of old # _ \<Rightarrow> old | [] \<Rightarrow> zero_of sh) v of
        None \<Rightarrow> None
      | Some w \<Rightarrow> map_option (Cons w) (decode_elements strict sh (tl olds) vs))"
| "decode_fields strict fs cur [] = Some cur"
| "decode_fields strict fs cur ((k, v) # ps) =
     (case field_of (map fst fs) k of
        None \<Rightarrow> if strict then None else decode_fields strict fs cur ps
      | Some f \<Rightarrow>
          (case (map_of fs f, map_of cur f) of
             (Some sh, Some old) \<Rightarrow>
               (case decode strict sh old v of
                  None \<Rightarrow> None
                | Some w \<Rightarrow> decode_fields strict fs (map_put f w cur) ps)
           | _ \<Rightarrow> None))"

text \<open>Reading the fields of a decoded struct.\<close>

definition g_field :: "string \<Rightarrow> gval \<Rightarrow> gval option" where
  "g_field f v = (case v of GStruct cur \<Rightarrow> map_of cur f | _ \<Rightarrow> None)"

definition g_string :: "string \<Rightarrow> gval \<Rightarrow> string" where
  "g_string f v = (case g_field f v of Some (GString s) \<Rightarrow> s | _ \<Rightarrow> [])"

definition g_bool :: "string \<Rightarrow> gval \<Rightarrow> bool" where
  "g_bool f v = (case g_field f v of Some (GBool b) \<Rightarrow> b | _ \<Rightarrow> False)"

definition g_int :: "string \<Rightarrow> gval \<Rightarrow> int" where
  "g_int f v = (case g_field f v of Some (GInt n) \<Rightarrow> n | _ \<Rightarrow> 0)"

definition g_slice :: "string \<Rightarrow> gval \<Rightarrow> gval list" where
  "g_slice f v = (case g_field f v of Some (GSlice xs _) \<Rightarrow> xs | _ \<Rightarrow> [])"

text \<open>\<open>json.Unmarshal\<close> into a fresh value of a shape.\<close>

definition Unmarshal :: "shape \<Rightarrow> string \<Rightarrow> gval option" where
  "Unmarshal sh data = (case json_parse data of None \<Rightarrow> None | Some v \<Rightarrow> decode False sh (zero_of sh) v)"

section \<open>Decoded values keep their shape\<close>

text \<open>A value fits its shape, the elements beyond the length of a slice included.\<close>

fun fits :: "shape \<Rightarrow> gval \<Rightarrow> bool" where
  "fits SString (GString s) \<longleftrightarrow> True"
| "fits SBool (GBool b) \<longleftrightarrow> True"
| "fits SInt (GInt n) \<longleftrightarrow> - (2 ^ 63) \<le> n \<and> n < 2 ^ 63"
| "fits (SSlice sh) (GSlice xs stale) \<longleftrightarrow> list_all (\<lambda>x. fits sh x) xs \<and> list_all (\<lambda>x. fits sh x) stale"
| "fits (SStruct fs) (GStruct cur) \<longleftrightarrow> list_all2 (\<lambda>f c. fst f = fst c \<and> fits (snd f) (snd c)) fs cur"
| "fits sh v \<longleftrightarrow> False"

lemma zero_fits: "fits sh (zero_of sh)"
  by (induction sh) (auto simp: list_all2_map2 intro: list.rel_refl_strong)

lemma ParseInt_range: "ParseInt s = Some n \<Longrightarrow> - (2 ^ 63) \<le> n \<and> n < 2 ^ 63"
  by (auto simp: ParseInt_def Let_def split: list.splits if_splits)

lemma put_field_fits:
  assumes "list_all2 (\<lambda>f c. fst f = fst c \<and> fits (snd f) (snd c)) fs cur" "map_of fs k = Some sh" "fits sh v"
  shows "list_all2 (\<lambda>f c. fst f = fst c \<and> fits (snd f) (snd c)) fs (map_put k v cur)"
  using assms by (induction fs cur rule: list_all2_induct) (auto split: if_splits)

lemma field_fits:
  assumes "list_all2 (\<lambda>f c. fst f = fst c \<and> fits (snd f) (snd c)) fs cur" "map_of fs k = Some sh" "map_of cur k = Some v"
  shows "fits sh v"
  using assms by (induction fs cur rule: list_all2_induct) (auto split: if_splits)

text \<open>Whatever a document holds, the decoded value has the shape asked for: every field is there with its
  type, and every integer is a 64-bit one.\<close>

lemma decode_fits_all:
  "fits sh old \<Longrightarrow> decode strict sh old v = Some w \<Longrightarrow> fits sh w"
  "list_all (\<lambda>x. fits sh x) olds \<Longrightarrow> decode_elements strict sh olds vs = Some ws \<Longrightarrow> list_all (\<lambda>x. fits sh x) ws"
  "list_all2 (\<lambda>f c. fst f = fst c \<and> fits (snd f) (snd c)) fs cur \<Longrightarrow> decode_fields strict fs cur ps = Some cur' \<Longrightarrow>
     list_all2 (\<lambda>f c. fst f = fst c \<and> fits (snd f) (snd c)) fs cur'"
proof (induction strict sh old v and strict sh olds vs and strict fs cur ps arbitrary: w and ws and cur'
    rule: decode_decode_elements_decode_fields.induct)
  case (1 strict sh old)
  then show ?case by (cases sh) auto
next
  case (5 strict sh xs stale vs)
  have "list_all (\<lambda>x. fits sh x) (drop n (xs @ stale))" for n using "5.prems"(1) by (auto simp: list_all_iff dest: in_set_dropD)
  then show ?case using 5 by (auto split: if_splits)
next
  case (11 strict fs cur k v ps)
  show ?case
  proof (cases "field_of (map fst fs) k")
    case None
    then show ?thesis using "11.IH"(1) [OF None] "11.prems" by (simp split: if_splits)
  next
    case (Some f)
    then obtain sh old w where h: "map_of fs f = Some sh" "map_of cur f = Some old" "decode strict sh old v = Some w"
        "decode_fields strict fs (map_put f w cur) ps = Some cur'"
      using "11.prems"(2) by (auto split: option.splits)
    have "fits sh w" using "11.IH"(2) [OF Some refl h(1,2)] field_fits [OF "11.prems"(1) h(1,2)] h(3) by simp
    then show ?thesis using "11.IH"(3) [OF Some refl h(1,2) h(3)] put_field_fits [OF "11.prems"(1) h(1)] h(4) by simp
  qed
qed (auto dest: ParseInt_range split: option.splits if_splits list.splits simp: zero_fits)

theorem unmarshal_fits:
  assumes "Unmarshal sh data = Some g"
  shows "fits sh g"
  using assms decode_fits_all(1) [OF zero_fits] by (auto simp: Unmarshal_def split: option.splits)

end
