(* ===== verification/Store_Recovery.thy ===== *)
theory Store_Recovery
  imports Store_WorkUnits Store_System
begin

text \<open>
  The read side of recovery (\<open>internal/state/recovery.go\<close>): the persisted history of one task as the
  recovery pipeline and the verifier load it. A loader reads the rows of the task in the order of its
  query. Every query can fail with an error of the database.
\<close>

record RecoveryTask =
  rk_TaskID :: string
  rk_Objective :: string
  rk_Status :: string
  rk_Workspace :: string
  rk_Model :: string
  rk_ConfigJSON :: string
  rk_ResumeCount :: int
  rk_ExecutionContractJSON :: string
  rk_ExecutionContractHash :: string

record RecoveryAction =
  ra_ActionID :: string
  ra_Tool :: string
  ra_ArgumentsJSON :: string
  ra_Fingerprint :: string
  ra_RecipeFingerprint :: string
  ra_Status :: string
  ra_WorkspaceSignature :: string

record RecoveryToolAttempt =
  rt_ExecutionID :: string
  rt_ActionID :: string
  rt_Tool :: string
  rt_ArgumentsJSON :: string
  rt_Status :: string
  rt_Classification :: string
  rt_RecoveryClass :: int
  rt_EvidenceID :: string
  rt_RecoveryReason :: string
  rt_EffectAfterHash :: string
  rt_PlannedEffectJSON :: string
  rt_ProcessIntentJSON :: string
  rt_WorkUnitID :: string

record RecoveryProviderAttempt =
  ry_ExecutionID :: string
  ry_ClientRequestID :: string
  ry_Status :: string
  ry_Outcome :: OutcomeClass
  ry_DeliveryState :: DeliveryState
  ry_UpstreamReached :: bool
  ry_Uncertain :: bool
  ry_AttemptDebited :: int
  ry_AttemptSequence :: int
  ry_ReceiptAware :: bool
  ry_PreparedAt :: time
  ry_RecoveryReason :: string

record RecoveryEvidence =
  re_EvidenceID :: string
  re_ExecutionID :: string
  re_Tool :: string
  re_ArgumentsJSON :: string
  re_DataJSON :: string
  re_MetadataJSON :: string

record RecoverySnapshot =
  sn_Task :: RecoveryTask
  sn_Actions :: "RecoveryAction list"
  sn_ToolAttempts :: "RecoveryToolAttempt list"
  sn_ProviderAttempts :: "RecoveryProviderAttempt list"
  sn_Evidence :: "RecoveryEvidence list"
  sn_AcceptancePlanSpec :: string
  sn_AcceptancePlanDigest :: string
  sn_BaselineGitStatus :: string
  sn_BaselineGitDiff :: string
  sn_BaselineGitStatusTruncated :: bool
  sn_BaselineGitDiffTruncated :: bool
  sn_VerificationAttempts :: "VerificationRow list"
  sn_WorkUnits :: "WorkUnit list"

definition loadRecoveryTask :: "Codec \<Rightarrow> string \<Rightarrow> Store \<Rightarrow> store_error + RecoveryTask" where
  "loadRecoveryTask cx task s =
     (case find (\<lambda>t. tk_task_id t = task) (db_tasks s) of
        None \<Rightarrow> Inl (TaskMissing task)
      | Some t \<Rightarrow>
          (case validateExecutionContractPair cx (tk_contract_json t) (tk_contract_hash t) of
             Some e \<Rightarrow> Inl e
           | None \<Rightarrow> Inr \<lparr>rk_TaskID = tk_task_id t, rk_Objective = tk_objective t, rk_Status = tk_status t,
               rk_Workspace = tk_workspace t, rk_Model = tk_model t, rk_ConfigJSON = tk_config_json t, rk_ResumeCount = tk_resume_count t,
               rk_ExecutionContractJSON = tk_contract_json t, rk_ExecutionContractHash = tk_contract_hash t\<rparr>))"

definition loadRecoveryActions :: "string \<Rightarrow> Store \<Rightarrow> RecoveryAction list" where
  "loadRecoveryActions task s =
     map (\<lambda>a. \<lparr>ra_ActionID = ac_action_id a, ra_Tool = ac_tool a, ra_ArgumentsJSON = ac_arguments_json a, ra_Fingerprint = ac_fingerprint a,
         ra_RecipeFingerprint = ac_recipe_fingerprint a, ra_Status = ac_status a, ra_WorkspaceSignature = ac_workspace_signature a\<rparr>)
       (sort_key ac_sequence (filter (\<lambda>a. ac_task_id a = task) (db_actions s)))"

definition recovery_tool_attempt :: "ToolAttemptRow \<Rightarrow> RecoveryToolAttempt" where
  "recovery_tool_attempt a =
     \<lparr>rt_ExecutionID = ta_execution_id a, rt_ActionID = ta_action_id a, rt_Tool = ta_tool a, rt_ArgumentsJSON = ta_arguments_json a,
      rt_Status = ta_status a, rt_Classification = ta_classification a, rt_RecoveryClass = ta_recovery_class a, rt_EvidenceID = ta_evidence_id a,
      rt_RecoveryReason = ta_recovery_reason a, rt_EffectAfterHash = ta_effect_after_hash a, rt_PlannedEffectJSON = ta_planned_diff_json a,
      rt_ProcessIntentJSON = ta_process_intent_json a, rt_WorkUnitID = ta_work_unit_id a\<rparr>"

definition loadRecoveryToolAttempts :: "string \<Rightarrow> Store \<Rightarrow> RecoveryToolAttempt list" where
  "loadRecoveryToolAttempts task s =
     map recovery_tool_attempt
       (sort_key (\<lambda>a. (ta_created_at a, ta_execution_id a)) (filter (\<lambda>a. ta_task_id a = task) (db_tool_attempts s)))"

definition recovery_provider_attempt :: "Codec \<Rightarrow> ProviderAttemptRow \<Rightarrow> RecoveryProviderAttempt option" where
  "recovery_provider_attempt cx p =
     (case parsePersistedDeliveryState (pa_delivery_state p) of
        None \<Rightarrow> None
      | Some d \<Rightarrow> Some \<lparr>ry_ExecutionID = pa_execution_id p, ry_ClientRequestID = pa_client_request_id p, ry_Status = pa_status p,
          ry_Outcome = pa_outcome p, ry_DeliveryState = d, ry_UpstreamReached = pa_upstream_reached p, ry_Uncertain = pa_uncertain p,
          ry_AttemptDebited = pa_attempt_debited p, ry_AttemptSequence = pa_attempt_sequence p, ry_ReceiptAware = pa_receipt_aware p,
          ry_PreparedAt = parseTime cx (pa_prepared_at p), ry_RecoveryReason = pa_recovery_reason p\<rparr>)"

definition loadRecoveryProviderAttempts :: "Codec \<Rightarrow> string \<Rightarrow> Store \<Rightarrow> store_error + RecoveryProviderAttempt list" where
  "loadRecoveryProviderAttempts cx task s =
     (case those (map (recovery_provider_attempt cx)
         (sort_key (\<lambda>p. (pa_created_at p, pa_execution_id p)) (filter (\<lambda>p. pa_task_id p = task) (db_provider_attempts s)))) of
        None \<Rightarrow> Inl (StoreFault ''delivery_state'')
      | Some ps \<Rightarrow> Inr ps)"

definition loadRecoveryEvidence :: "string \<Rightarrow> Store \<Rightarrow> RecoveryEvidence list" where
  "loadRecoveryEvidence task s =
     map (\<lambda>(r, a). \<lparr>re_EvidenceID = rr_evidence_id r, re_ExecutionID = rr_execution_id r, re_Tool = ta_tool a,
         re_ArgumentsJSON = ta_arguments_json a, re_DataJSON = rr_data_json r, re_MetadataJSON = rr_metadata_json r\<rparr>)
       (sort_key (\<lambda>(r, a). (rr_created_at r, rr_evidence_id r))
         (filter (\<lambda>(r, a). ta_execution_id a = rr_execution_id r \<and> rr_task_id r = task)
           (List.product (db_tool_results s) (db_tool_attempts s))))"

text \<open>The verification attempts of a task in the order of their sequence, each with its checks by id.\<close>

definition VerificationAttempts :: "string \<Rightarrow> Store \<Rightarrow> VerificationRow list" where
  "VerificationAttempts task s =
     map (\<lambda>v. v\<lparr>ve_checks := sort_key vc_CheckID (ve_checks v)\<rparr>)
       (sort_key ve_sequence (filter (\<lambda>v. ve_task_id v = task) (db_verifications s)))"

text \<open>The units of a task; rows are read before their dependencies, and a version that is not
  supported refuses the whole list.\<close>

definition loadRecoveryWorkUnits :: "string \<Rightarrow> Store \<Rightarrow> store_error + WorkUnit list" where
  "loadRecoveryWorkUnits task s = ListWorkUnits task s"

definition LoadRecoverySnapshot :: "Codec \<Rightarrow> string option \<Rightarrow> string \<Rightarrow> Store \<Rightarrow> store_error + RecoverySnapshot" where
  "LoadRecoverySnapshot cx fault task s =
     (case fault of Some e \<Rightarrow> Inl (StoreFault e)
      | None \<Rightarrow>
        (case loadRecoveryTask cx task s of Inl e \<Rightarrow> Inl e
         | Inr t \<Rightarrow>
           (case loadRecoveryProviderAttempts cx task s of Inl e \<Rightarrow> Inl e
            | Inr ps \<Rightarrow>
              (case loadRecoveryWorkUnits task s of Inl e \<Rightarrow> Inl e
               | Inr us \<Rightarrow>
                 let (plan, digest) = (case AcceptancePlan task s of None \<Rightarrow> ([], []) | Some pd \<Rightarrow> pd);
                     (status, diff, st, dt) = (case WorkspaceBaseline task s of None \<Rightarrow> ([], [], False, False) | Some b \<Rightarrow> b)
                 in Inr \<lparr>sn_Task = t, sn_Actions = loadRecoveryActions task s, sn_ToolAttempts = loadRecoveryToolAttempts task s,
                      sn_ProviderAttempts = ps, sn_Evidence = loadRecoveryEvidence task s,
                      sn_AcceptancePlanSpec = plan, sn_AcceptancePlanDigest = digest,
                      sn_BaselineGitStatus = status, sn_BaselineGitDiff = diff,
                      sn_BaselineGitStatusTruncated = st, sn_BaselineGitDiffTruncated = dt,
                      sn_VerificationAttempts = VerificationAttempts task s, sn_WorkUnits = us\<rparr>))))"

end
