(* ===== verification/Verifier.thy ===== *)
theory Verifier
  imports Json_Decode Store_Recovery
begin

text \<open>
  The verification boundary (\<open>internal/verifier\<close>): acceptance plans, and the evaluation of one completion
  proposal against the persisted history and the observed workspace. The observer (file hashes and
  Git texts) is an argument that answers the same way throughout one verification. The encoding of a check and
  the hash of the plan digest are arguments too.
\<close>

section \<open>Plans\<close>

definition PlanVersion :: int where "PlanVersion = 1"

definition CheckFileExists :: string where "CheckFileExists = ''file_exists''"
definition CheckFileAbsent :: string where "CheckFileAbsent = ''file_absent''"
definition CheckFileHash :: string where "CheckFileHash = ''file_hash''"
definition CheckRecipeExitZero :: string where "CheckRecipeExitZero = ''recipe_exit_zero''"

definition AllCheckTypes :: "string list" where
  "AllCheckTypes = [CheckFileExists, CheckFileAbsent, CheckFileHash, CheckRecipeExitZero]"

definition ParseCheckType :: "string \<Rightarrow> string option" where
  "ParseCheckType v = find (\<lambda>t. t = v) AllCheckTypes"

record Check =
  ck_ID :: string
  ck_Type :: string
  ck_Path :: string
  ck_SHA256 :: string
  ck_Recipe :: string
  ck_RequireUntruncated :: bool

record Plan =
  pl_Version :: int
  pl_Checks :: "Check list"

datatype plan_error =
    EmptyCheckID | CheckNeedsPath string | CheckNeedsHash string | CheckNeedsRecipe string | UnknownCheckType string
  | PlanUndecodable | PlanVersionUnsupported int | DuplicateCheckID string

definition validHexSHA256 :: "string \<Rightarrow> bool" where
  "validHexSHA256 v \<longleftrightarrow> length v = 64 \<and> list_all (\<lambda>c. hex_value c \<noteq> None) v"

definition Check_Validate :: "Check \<Rightarrow> plan_error option" where
  "Check_Validate c =
     (if is_blank (ck_ID c) then Some EmptyCheckID
      else if ck_Type c = CheckFileExists \<or> ck_Type c = CheckFileAbsent \<or> ck_Type c = CheckFileHash
      then (if is_blank (ck_Path c) then Some (CheckNeedsPath (ck_ID c))
            else if ck_Type c = CheckFileHash \<and> \<not> validHexSHA256 (ck_SHA256 c) then Some (CheckNeedsHash (ck_ID c)) else None)
      else if ck_Type c = CheckRecipeExitZero
      then (if is_blank (ck_Recipe c) then Some (CheckNeedsRecipe (ck_ID c)) else None)
      else Some (UnknownCheckType (ck_ID c)))"

definition check_shape :: shape where
  "check_shape = SStruct [(''id'', SString), (''type'', SString), (''path'', SString), (''sha256'', SString),
     (''recipe'', SString), (''require_untruncated'', SBool)]"

definition plan_shape :: shape where
  "plan_shape = SStruct [(''version'', SInt), (''checks'', SSlice check_shape)]"

definition check_of :: "gval \<Rightarrow> Check" where
  "check_of v = \<lparr>ck_ID = g_string ''id'' v, ck_Type = g_string ''type'' v, ck_Path = g_string ''path'' v,
     ck_SHA256 = g_string ''sha256'' v, ck_Recipe = g_string ''recipe'' v, ck_RequireUntruncated = g_bool ''require_untruncated'' v\<rparr>"

definition plan_of :: "gval \<Rightarrow> Plan" where
  "plan_of v = \<lparr>pl_Version = g_int ''version'' v, pl_Checks = map check_of (g_slice ''checks'' v)\<rparr>"

definition planJSONDepth :: nat where "planJSONDepth = 64"

text \<open>The checks in order, with the ids seen so far.\<close>

fun validate_checks :: "string set \<Rightarrow> Check list \<Rightarrow> plan_error option" where
  "validate_checks seen [] = None"
| "validate_checks seen (c # cs) =
     (case Check_Validate c of
        Some e \<Rightarrow> Some e
      | None \<Rightarrow> if ck_ID c \<in> seen then Some (DuplicateCheckID (ck_ID c)) else validate_checks (insert (ck_ID c) seen) cs)"

definition ParsePlan :: "string \<Rightarrow> plan_error + Plan" where
  "ParsePlan data =
     (case json_parse data of
        None \<Rightarrow> Inl PlanUndecodable
      | Some v \<Rightarrow>
          if \<not> scanJSONValue planJSONDepth 0 v then Inl PlanUndecodable
          else (case decode True plan_shape (zero_of plan_shape) v of
              None \<Rightarrow> Inl PlanUndecodable
            | Some g \<Rightarrow>
                let plan = plan_of g
                in if pl_Version plan \<noteq> PlanVersion then Inl (PlanVersionUnsupported (pl_Version plan))
                   else (case validate_checks {} (pl_Checks plan) of Some e \<Rightarrow> Inl e | None \<Rightarrow> Inr plan)))"

definition EmptyPlan :: Plan where
  "EmptyPlan = \<lparr>pl_Version = PlanVersion, pl_Checks = []\<rparr>"

definition int_dec :: "int \<Rightarrow> string" where
  "int_dec n = (if n < 0 then ''-'' @ dec (nat (- n)) else dec (nat n))"

text \<open>The lines of the digest: the version and the encoded checks by id.\<close>

definition digest_lines :: "(Check \<Rightarrow> string) \<Rightarrow> Plan \<Rightarrow> string list" where
  "digest_lines marshal p =
     (''version='' @ int_dec (pl_Version p)) #
     concat (map (\<lambda>i. map (\<lambda>c. i @ ''='' @ marshal c) (filter (\<lambda>c. ck_ID c = i) (pl_Checks p))) (sort (map ck_ID (pl_Checks p))))"

definition Digest :: "(Check \<Rightarrow> string) \<Rightarrow> (string \<Rightarrow> string) \<Rightarrow> Plan option \<Rightarrow> string" where
  "Digest marshal sha256hex plan =
     (case plan of None \<Rightarrow> [] | Some p \<Rightarrow> sha256hex (Join [CHR 0x0A] (digest_lines marshal p)))"

section \<open>Reports\<close>

datatype VerifyDecision = DecisionPassed | DecisionFailed | DecisionBlocked | DecisionUncertain

text \<open>The empty status is the one a check of an unknown type keeps.\<close>

datatype CheckStatus = CheckPassed | CheckFailed | CheckBlocked | CheckUncertain | CheckNone

record CheckResult =
  cr_ID :: string
  cr_Type :: string
  cr_Status :: CheckStatus
  cr_Expected :: string
  cr_Observed :: string
  cr_EvidenceIDs :: "string list"
  cr_Reason :: string

record ChangedFile =
  cf_Path :: string
  cf_Status :: string

record GitObservation =
  go_CurrentStatus :: string
  go_CurrentDiff :: string
  go_Truncated :: bool
  go_Available :: bool
  go_Failure :: string
  go_PreExisting :: "ChangedFile list"
  go_DuringTask :: "ChangedFile list"
  go_BaselineTruncated :: bool

record CitedEvidence =
  ce_EvidenceID :: string
  ce_ClaimedTool :: string
  ce_Tool :: string
  ce_Exists :: bool
  ce_ToolMatches :: bool

record AttemptRef =
  ar_ExecutionID :: string
  ar_Tool :: string
  ar_Status :: string
  ar_Reason :: string

record WriteReconciled =
  wr_Path :: string
  wr_ChangeKind :: string
  wr_AfterHash :: string
  wr_ObservedHash :: string
  wr_Matches :: bool
  wr_EvidenceID :: string
  wr_Superseded :: "string list"

record Report =
  rv_TaskID :: string
  rv_AttemptID :: string
  rv_Decision :: VerifyDecision
  rv_Summary :: string
  rv_Checks :: "CheckResult list"
  rv_CitedEvidence :: "CitedEvidence list"
  rv_UncertainAttempts :: "AttemptRef list"
  rv_PendingApprovals :: "string list"
  rv_TruncatedEvidence :: "string list"
  rv_Git :: "GitObservation option"
  rv_WriteReconciliation :: "WriteReconciled list"
  rv_Limitations :: "string list"
  rv_CreatedAt :: string

record EvidenceClaim =
  cl_EvidenceID :: string
  cl_Tool :: string

record VerifyInput =
  vi_TaskID :: string
  vi_FinalEvidence :: "EvidenceClaim list"
  vi_Actions :: "RecoveryAction list"
  vi_ToolAttempts :: "RecoveryToolAttempt list"
  vi_Evidence :: "RecoveryEvidence list"
  vi_PendingApprovals :: "string list"
  vi_BaselineGitStatus :: string
  vi_BaselineGitDiff :: string
  vi_BaselineGitStatusTruncated :: bool
  vi_BaselineGitDiffTruncated :: bool
  vi_Now :: string

text \<open>A hash with whether the file is there, or a failure; a bounded text with its truncation, or a failure.\<close>

record Observer =
  ob_FileSHA256 :: "string \<Rightarrow> string \<times> bool \<times> string option"
  ob_GitStatusText :: "string \<times> bool \<times> string option"
  ob_GitDiffText :: "string \<times> bool \<times> string option"

record VerifyLimits =
  vl_MaxChecks :: int
  vl_MaxChangedFiles :: int
  vl_MaxObservedChars :: int

definition DefaultLimits :: VerifyLimits where
  "DefaultLimits = \<lparr>vl_MaxChecks = 256, vl_MaxChangedFiles = 512, vl_MaxObservedChars = 512\<rparr>"

record Verifier =
  vr_observer :: "Observer option"
  vr_plan :: "Plan option"
  vr_limits :: VerifyLimits

definition NewVerifier :: "Observer option \<Rightarrow> Plan option \<Rightarrow> Verifier" where
  "NewVerifier ob plan =
     (let l = DefaultLimits
      in \<lparr>vr_observer = ob, vr_plan = plan,
          vr_limits = \<lparr>vl_MaxChecks = (if vl_MaxChecks l \<le> 0 then 256 else vl_MaxChecks l),
            vl_MaxChangedFiles = (if vl_MaxChangedFiles l \<le> 0 then 512 else vl_MaxChangedFiles l),
            vl_MaxObservedChars = (if vl_MaxObservedChars l \<le> 0 then 512 else vl_MaxObservedChars l)\<rparr>\<rparr>)"

definition WithPlan :: "Verifier option \<Rightarrow> Plan option \<Rightarrow> Verifier" where
  "WithPlan v plan = (case v of None \<Rightarrow> NewVerifier None plan | Some w \<Rightarrow> w\<lparr>vr_plan := plan\<rparr>)"

definition planChecks :: "Verifier \<Rightarrow> Check list" where
  "planChecks v = (case vr_plan v of None \<Rightarrow> [] | Some p \<Rightarrow> sort_key ck_ID (pl_Checks p))"

definition boundText :: "int \<Rightarrow> string \<Rightarrow> string" where
  "boundText limit v = (if limit \<le> 0 \<or> int (length v) \<le> limit then v else take (nat limit) v @ ''[truncated]'')"

definition shortHash :: "string \<Rightarrow> string" where
  "shortHash v = (if length v \<le> 12 then v else take 12 v)"

section \<open>Authoritative inputs\<close>

definition resolveCitedEvidence :: "VerifyInput \<Rightarrow> CitedEvidence list" where
  "resolveCitedEvidence inp =
     (let byID = map_of (rev (map (\<lambda>e. (re_EvidenceID e, e)) (vi_Evidence inp)))
      in map (\<lambda>c. case byID (cl_EvidenceID c) of
               None \<Rightarrow> \<lparr>ce_EvidenceID = cl_EvidenceID c, ce_ClaimedTool = cl_Tool c, ce_Tool = [], ce_Exists = False, ce_ToolMatches = False\<rparr>
             | Some e \<Rightarrow> \<lparr>ce_EvidenceID = cl_EvidenceID c, ce_ClaimedTool = cl_Tool c, ce_Tool = re_Tool e, ce_Exists = True,
                 ce_ToolMatches = (re_Tool e = cl_Tool c)\<rparr>)
           (sort_key cl_EvidenceID (vi_FinalEvidence inp)))"

definition uncertainAttempts :: "RecoveryToolAttempt list \<Rightarrow> AttemptRef list" where
  "uncertainAttempts attempts =
     sort_key ar_ExecutionID
       (map (\<lambda>a. \<lparr>ar_ExecutionID = rt_ExecutionID a, ar_Tool = rt_Tool a, ar_Status = rt_Status a, ar_Reason = rt_RecoveryReason a\<rparr>)
         (filter (\<lambda>a. rt_Status a \<in> {''prepared'', ''uncertain'', ''human_review_required''}) attempts))"

definition write_shape :: shape where
  "write_shape = SStruct [(''path'', SString), (''before_hash'', SString), (''after_hash'', SString), (''byte_count'', SInt),
     (''change_kind'', SString), (''outcome'', SString), (''diff'', SString), (''diff_truncated'', SBool), (''diff_bytes'', SInt),
     (''action_id'', SString), (''execution_id'', SString), (''evidence_id'', SString)]"

text \<open>The decoded writes: evidence id, path, change kind and hash.\<close>

definition decode_write :: "RecoveryEvidence \<Rightarrow> (string \<times> string \<times> string \<times> string) option" where
  "decode_write e =
     (if re_Tool e \<noteq> ToolWriteFile \<and> re_Tool e \<noteq> ToolApplyPatch then None
      else (case Unmarshal write_shape (re_DataJSON e) of
          None \<Rightarrow> None
        | Some g \<Rightarrow> if g_string ''path'' g = [] \<or> g_string ''after_hash'' g = [] then None
                    else Some (re_EvidenceID e, g_string ''path'' g, g_string ''change_kind'' g, g_string ''after_hash'' g)))"

definition reconcile_path :: "Observer \<Rightarrow> (string \<times> string \<times> string \<times> string) list \<Rightarrow> string \<Rightarrow> WriteReconciled" where
  "reconcile_path ob ws path =
     (let writes = sort_key fst (filter (\<lambda>(i, p, k, h). p = path) ws);
          (i, p, k, h) = last writes;
          (observed, present, failure) = ob_FileSHA256 ob p
      in \<lparr>wr_Path = p, wr_ChangeKind = k, wr_AfterHash = h,
          wr_ObservedHash = (if failure \<noteq> None then ''unreadable'' else if \<not> present then ''absent'' else observed),
          wr_Matches = (present \<and> observed = h), wr_EvidenceID = i, wr_Superseded = map fst (butlast writes)\<rparr>)"

definition reconcileWrites :: "Observer \<Rightarrow> VerifyInput \<Rightarrow> WriteReconciled list" where
  "reconcileWrites ob inp =
     (let ws = List.map_filter decode_write (vi_Evidence inp)
      in map (reconcile_path ob ws) (sort (remdups (map (\<lambda>(i, p, k, h). p) ws))))"

section \<open>Git\<close>

definition trim_cr :: "string \<Rightarrow> string" where
  "trim_cr line = rev (dropWhile (\<lambda>c. c = CHR 0x0D) (rev line))"

definition git_status_line :: "string \<Rightarrow> (string \<times> string) option" where
  "git_status_line raw =
     (let line = trim_cr raw
      in if length line < 3 \<or> HasPrefix line ''##'' then None
         else let path = (let p = drop 3 line in if HasPrefix p '' '' then drop 1 p else p)
              in if path = [] \<or> path = ''.'' then None else Some (path, take 2 line))"

definition parseGitStatus :: "string \<Rightarrow> (string \<times> string) list" where
  "parseGitStatus output = fold (\<lambda>(p, st) m. map_put p st m) (List.map_filter git_status_line (Split CHR 0x0A output)) []"

definition changedFiles :: "(string \<times> string) list \<Rightarrow> (string \<times> string) list \<Rightarrow> int \<Rightarrow> ChangedFile list" where
  "changedFiles current baseline limit =
     (let paths = sort_key fst (filter (\<lambda>(p, st). map_get baseline p \<noteq> Some st) current);
          kept = (if limit > 0 \<and> int (length paths) > limit then take (nat limit) paths else paths)
      in map (\<lambda>(p, st). \<lparr>cf_Path = p, cf_Status = st\<rparr>) kept)"

definition observeGit :: "Observer \<Rightarrow> int \<Rightarrow> VerifyInput \<Rightarrow> GitObservation" where
  "observeGit ob maxChangedFiles inp =
     (let (currentStatus, statusTruncated, statusFailure) = ob_GitStatusText ob
      in case statusFailure of
           Some e \<Rightarrow> \<lparr>go_CurrentStatus = [], go_CurrentDiff = [], go_Truncated = False, go_Available = False, go_Failure = e,
             go_PreExisting = [], go_DuringTask = [], go_BaselineTruncated = False\<rparr>
         | None \<Rightarrow>
             let (diff, diffTruncated, diffFailure) = ob_GitDiffText ob;
                 baseline = parseGitStatus (vi_BaselineGitStatus inp);
                 current = parseGitStatus currentStatus
             in \<lparr>go_CurrentStatus = currentStatus, go_CurrentDiff = (if diffFailure = None then diff else []),
                 go_Truncated = (if diffFailure = None then statusTruncated \<or> diffTruncated else True),
                 go_Available = True, go_Failure = [],
                 go_PreExisting = changedFiles baseline [] maxChangedFiles, go_DuringTask = changedFiles current baseline maxChangedFiles,
                 go_BaselineTruncated = (vi_BaselineGitStatusTruncated inp \<or> vi_BaselineGitDiffTruncated inp)\<rparr>)"

section \<open>Recipe evidence\<close>

definition recipe_shape :: shape where
  "recipe_shape = SStruct [(''recipe_id'', SString), (''executable'', SString), (''argv'', SSlice SString), (''working_directory'', SString),
     (''capabilities'', SSlice SString), (''policy'', SStruct [(''decision'', SString), (''reason'', SString)]), (''duration_nanos'', SInt),
     (''exit_code'', SInt), (''signal'', SString), (''stdout'', SString), (''stderr'', SString), (''stdout_bytes'', SInt),
     (''stderr_bytes'', SInt), (''stdout_truncated'', SBool), (''stderr_truncated'', SBool), (''timed_out'', SBool), (''canceled'', SBool),
     (''network_isolation'', SString), (''started'', SBool), (''action_id'', SString), (''execution_id'', SString), (''evidence_id'', SString)]"

record RecipeEvidence =
  pe_RecipeID :: string
  pe_ExitCode :: int
  pe_Signal :: string
  pe_StdoutTruncated :: bool
  pe_StderrTruncated :: bool
  pe_TimedOut :: bool
  pe_Canceled :: bool
  pe_Started :: bool
  pe_EvidenceID :: string

definition decode_recipe :: "RecoveryEvidence \<Rightarrow> RecipeEvidence option" where
  "decode_recipe e =
     (if re_Tool e \<noteq> ''run_recipe'' then None
      else map_option (\<lambda>g. \<lparr>pe_RecipeID = g_string ''recipe_id'' g, pe_ExitCode = g_int ''exit_code'' g, pe_Signal = g_string ''signal'' g,
          pe_StdoutTruncated = g_bool ''stdout_truncated'' g, pe_StderrTruncated = g_bool ''stderr_truncated'' g,
          pe_TimedOut = g_bool ''timed_out'' g, pe_Canceled = g_bool ''canceled'' g, pe_Started = g_bool ''started'' g,
          pe_EvidenceID = g_string ''evidence_id'' g\<rparr>) (Unmarshal recipe_shape (re_DataJSON e)))"

definition pe_truncated :: "RecipeEvidence \<Rightarrow> bool" where
  "pe_truncated p \<longleftrightarrow> pe_StdoutTruncated p \<or> pe_StderrTruncated p"

definition truncatedRecipeEvidence :: "RecoveryEvidence list \<Rightarrow> string list" where
  "truncatedRecipeEvidence evidence =
     sort (List.map_filter (\<lambda>e. case decode_recipe e of
         Some p \<Rightarrow> if pe_truncated p then Some (re_EvidenceID e) else None
       | None \<Rightarrow> None) evidence)"

definition recipeEvidenceFor :: "RecoveryEvidence list \<Rightarrow> string \<Rightarrow> RecipeEvidence list" where
  "recipeEvidenceFor evidence recipeID = filter (\<lambda>p. pe_RecipeID p = recipeID) (List.map_filter decode_recipe evidence)"

definition evidenceIDs :: "RecipeEvidence list \<Rightarrow> string list" where
  "evidenceIDs evidence = sort (filter (\<lambda>i. i \<noteq> []) (map pe_EvidenceID evidence))"

fun latestRecipeEvidence :: "RecipeEvidence \<Rightarrow> RecipeEvidence list \<Rightarrow> RecipeEvidence" where
  "latestRecipeEvidence latest [] = latest"
| "latestRecipeEvidence latest (p # ps) = latestRecipeEvidence (if pe_EvidenceID p > pe_EvidenceID latest then p else latest) ps"

section \<open>Checks\<close>

definition check_result :: "Check \<Rightarrow> CheckStatus \<Rightarrow> string \<Rightarrow> string \<Rightarrow> string list \<Rightarrow> string \<Rightarrow> CheckResult" where
  "check_result c st expected observed ids reason =
     \<lparr>cr_ID = ck_ID c, cr_Type = ck_Type c, cr_Status = st, cr_Expected = expected, cr_Observed = observed,
      cr_EvidenceIDs = ids, cr_Reason = reason\<rparr>"

definition evaluate_file :: "Observer \<Rightarrow> Check \<Rightarrow> CheckResult" where
  "evaluate_file ob c =
     (let (hash, present, failure) = ob_FileSHA256 ob (ck_Path c)
      in case failure of
           Some e \<Rightarrow> check_result c CheckBlocked [] e [] ''file_observation_failed''
         | None \<Rightarrow>
             if ck_Type c = CheckFileExists
             then (if present then check_result c CheckPassed (''file exists at '' @ ck_Path c) ''present'' [] []
                   else check_result c CheckFailed (''file exists at '' @ ck_Path c) ''absent'' [] ''file_not_found'')
             else if ck_Type c = CheckFileAbsent
             then (if \<not> present then check_result c CheckPassed (''file absent at '' @ ck_Path c) ''absent'' [] []
                   else check_result c CheckFailed (''file absent at '' @ ck_Path c) (''present (hash '' @ shortHash hash @ '')'') [] ''file_present'')
             else (let expected = ''file at '' @ ck_Path c @ '' has sha256 '' @ shortHash (ck_SHA256 c)
                   in if \<not> present then check_result c CheckFailed expected ''absent'' [] ''file_not_found''
                      else if hash = ck_SHA256 c then check_result c CheckPassed expected ''hash matches'' [] []
                      else check_result c CheckFailed expected (''hash '' @ shortHash hash) [] ''hash_mismatch''))"

definition evaluate_recipe :: "VerifyInput \<Rightarrow> Check \<Rightarrow> CheckResult" where
  "evaluate_recipe inp c =
     (let expected = ''a run_recipe evidence for '' @ ck_Recipe c @ '' with exit code 0''
      in case recipeEvidenceFor (vi_Evidence inp) (ck_Recipe c) of
           [] \<Rightarrow> check_result c CheckFailed expected (''no executed recipe evidence for '' @ ck_Recipe c) [] ''recipe_evidence_missing''
         | e # es \<Rightarrow>
             let ids = evidenceIDs (e # es); p = latestRecipeEvidence e es; fail = (\<lambda>obs reason. check_result c CheckFailed expected obs ids reason)
             in if ck_RequireUntruncated c \<and> pe_truncated p
                then fail (''exit='' @ int_dec (pe_ExitCode p) @ '' truncated=yes (evidence '' @ pe_EvidenceID p @ '')'') ''truncated_output_cannot_support_conclusion''
                else if \<not> pe_Started p then fail ''process did not start'' ''recipe_start_failed''
                else if pe_TimedOut p then fail ''timed out'' ''recipe_timed_out''
                else if pe_Canceled p then fail ''canceled'' ''recipe_canceled''
                else if pe_Signal p \<noteq> [] then fail (''signal '' @ pe_Signal p) ''recipe_terminated_by_signal''
                else if pe_ExitCode p \<noteq> 0 then fail (''exit='' @ int_dec (pe_ExitCode p)) ''recipe_exit_nonzero''
                else check_result c CheckPassed expected (''exit=0'' @ (if pe_truncated p then '' (output truncated, recorded)'' else [])) ids [])"

definition evaluateCheck :: "Observer \<Rightarrow> VerifyInput \<Rightarrow> Check \<Rightarrow> CheckResult" where
  "evaluateCheck ob inp c =
     (if ck_Type c = CheckFileExists \<or> ck_Type c = CheckFileAbsent \<or> ck_Type c = CheckFileHash then evaluate_file ob c
      else if ck_Type c = CheckRecipeExitZero then evaluate_recipe inp c
      else check_result c CheckNone [] [] [] [])"

section \<open>Verification\<close>

definition structural :: "string \<Rightarrow> CheckStatus \<Rightarrow> string \<Rightarrow> string \<Rightarrow> string \<Rightarrow> CheckResult" where
  "structural cid st expected observed reason =
     \<lparr>cr_ID = cid, cr_Type = ''structural'', cr_Status = st, cr_Expected = expected, cr_Observed = observed, cr_EvidenceIDs = [], cr_Reason = reason\<rparr>"

definition bound_result :: "int \<Rightarrow> CheckResult \<Rightarrow> CheckResult" where
  "bound_result limit r = r\<lparr>cr_Expected := boundText limit (cr_Expected r), cr_Observed := boundText limit (cr_Observed r),
     cr_Reason := boundText limit (cr_Reason r)\<rparr>"

definition grounding_check :: "CitedEvidence list \<Rightarrow> CheckResult" where
  "grounding_check cited =
     (let missing = map ce_EvidenceID (filter (\<lambda>c. \<not> ce_Exists c) cited)
      in if missing = [] then structural ''evidence_grounded'' CheckPassed [] [] []
         else structural ''evidence_grounded'' CheckFailed ''every cited evidence id exists in the task's persisted evidence''
           (''missing: '' @ Join '','' missing) ''evidence_ids_not_found'')"

definition typing_check :: "CitedEvidence list \<Rightarrow> CheckResult" where
  "typing_check cited =
     (let mismatched = map (\<lambda>c. ce_EvidenceID c @ ''(claimed='' @ ce_ClaimedTool c @ '',persisted='' @ ce_Tool c @ '')'')
            (filter (\<lambda>c. ce_Exists c \<and> \<not> ce_ToolMatches c) cited)
      in if mismatched = [] then structural ''evidence_claims_typed'' CheckPassed [] [] []
         else structural ''evidence_claims_typed'' CheckFailed ''every cited evidence's claimed tool matches its persisted tool''
           (''type mismatch: '' @ Join '','' mismatched) ''evidence_type_mismatch'')"

definition uncertain_check :: "AttemptRef list \<Rightarrow> CheckResult" where
  "uncertain_check refs =
     (if refs = [] then structural ''no_uncertain_attempts'' CheckPassed [] [] []
      else structural ''no_uncertain_attempts'' CheckUncertain ''no uncertain or interrupted effect''
        (dec (length refs) @ '' uncertain attempt(s)'') ''uncertain_effect_blocks_completion'')"

definition approvals_check :: "string list \<Rightarrow> CheckResult" where
  "approvals_check pending =
     (if pending = [] then structural ''no_pending_approvals'' CheckPassed [] [] []
      else structural ''no_pending_approvals'' CheckBlocked ''no pending operator approval''
        (dec (length pending) @ '' pending approval(s)'') ''approval_required_pending'')"

definition writes_check :: "WriteReconciled list \<Rightarrow> CheckResult" where
  "writes_check reconciled =
     (let mismatches = map wr_Path (filter (\<lambda>w. \<not> wr_Matches w) reconciled)
      in if mismatches = [] then structural ''writes_reconciled'' CheckPassed [] [] []
         else structural ''writes_reconciled'' CheckFailed ''the latest persisted write of every target path matches the current filesystem''
           (''mismatch: '' @ Join '','' mismatches) ''write_evidence_does_not_match_filesystem'')"

definition git_check :: "GitObservation \<Rightarrow> CheckResult" where
  "git_check git =
     structural ''git_observed'' CheckPassed []
       (if go_BaselineTruncated git
        then ''baseline truncated at task start; pre-existing changes outside the truncated baseline may be attributed as during_task''
        else if \<not> go_Available git then ''unavailable: '' @ go_Failure git else []) []"

definition git_limitations :: "int \<Rightarrow> GitObservation \<Rightarrow> string list" where
  "git_limitations limit git =
     (if \<not> go_Available git then [boundText limit (''git observation unavailable: '' @ go_Failure git)] else [])
     @ (if go_BaselineTruncated git
        then [''git baseline truncated at task start; pre-existing changes outside the truncated baseline window may be attributed as during_task'']
        else [])"

definition criteria_check :: CheckResult where
  "criteria_check = structural ''acceptance_criteria_required'' CheckBlocked ''an operator acceptance plan with at least one acceptance check''
     ''no acceptance plan configured for the task'' ''acceptance_plan_missing''"

definition budget_check :: "int \<Rightarrow> CheckResult" where
  "budget_check limit = structural ''check_budget_exceeded'' CheckBlocked (''at most '' @ int_dec limit @ '' checks evaluated per attempt'')
     ''the operator plan has more checks than the attempt budget'' ''check_budget_exceeded''"

text \<open>The plan checks, as long as the report has room; what does not fit is one blocked check.\<close>

fun run_checks :: "VerifyLimits \<Rightarrow> (Check \<Rightarrow> CheckResult) \<Rightarrow> CheckResult list \<Rightarrow> Check list \<Rightarrow> CheckResult list" where
  "run_checks l eval done [] = done"
| "run_checks l eval done (c # cs) =
     (if int (length done) \<ge> vl_MaxChecks l then done @ [bound_result (vl_MaxObservedChars l) (budget_check (vl_MaxChecks l))]
      else run_checks l eval (done @ [bound_result (vl_MaxObservedChars l) (eval c)]) cs)"

definition has_status :: "CheckStatus \<Rightarrow> CheckResult list \<Rightarrow> bool" where
  "has_status st rs \<longleftrightarrow> list_ex (\<lambda>r. cr_Status r = st) rs"

definition passed_summary :: "CheckResult list \<Rightarrow> string" where
  "passed_summary rs =
     (case map cr_ID (filter (\<lambda>r. cr_Type r \<noteq> ''structural'') rs) of
        [] \<Rightarrow> ''completion verified: all acceptance checks passed''
      | [n] \<Rightarrow> ''completion verified: acceptance check passed ('' @ n @ '')''
      | ns \<Rightarrow> ''completion verified: '' @ dec (length ns) @ '' acceptance checks passed ('' @ Join '','' ns @ '')'')"

definition combine :: "int \<Rightarrow> CheckResult list \<Rightarrow> VerifyDecision \<times> string" where
  "combine limit rs =
     (if has_status CheckUncertain rs then (DecisionUncertain, ''completion refused: an authoritative effect is uncertain'')
      else if has_status CheckBlocked rs then (DecisionBlocked, ''completion refused: a control-plane dependency is pending'')
      else if has_status CheckFailed rs
      then (DecisionFailed, ''completion refused: '' @ dec (length (filter (\<lambda>r. cr_Status r = CheckFailed) rs)) @ '' check(s) failed'')
      else (DecisionPassed, boundText limit (passed_summary rs)))"

definition Verify :: "string \<Rightarrow> Verifier option \<Rightarrow> VerifyInput \<Rightarrow> Report" where
  "Verify clock verifier inp =
     (let now = (if is_blank (vi_Now inp) then clock else vi_Now inp)
      in case (verifier, case verifier of Some v \<Rightarrow> vr_observer v | None \<Rightarrow> None) of
           (Some v, Some ob) \<Rightarrow>
             let l = vr_limits v;
                 cited = resolveCitedEvidence inp;
                 refs = uncertainAttempts (vi_ToolAttempts inp);
                 reconciled = reconcileWrites ob inp;
                 git = observeGit ob (vl_MaxChangedFiles l) inp;
                 fixed = map (bound_result (vl_MaxObservedChars l))
                   ([grounding_check cited, typing_check cited, uncertain_check refs, approvals_check (vi_PendingApprovals inp),
                     writes_check reconciled, git_check git]
                    @ (if planChecks v = [] then [criteria_check] else []));
                 checks = run_checks l (evaluateCheck ob inp) fixed (planChecks v);
                 (decision, summary) = combine (vl_MaxObservedChars l) checks
             in \<lparr>rv_TaskID = vi_TaskID inp, rv_AttemptID = [], rv_Decision = decision, rv_Summary = summary, rv_Checks = checks,
                 rv_CitedEvidence = cited, rv_UncertainAttempts = refs, rv_PendingApprovals = vi_PendingApprovals inp,
                 rv_TruncatedEvidence = truncatedRecipeEvidence (vi_Evidence inp), rv_Git = Some git, rv_WriteReconciliation = reconciled,
                 rv_Limitations = git_limitations (vl_MaxObservedChars l) git, rv_CreatedAt = now\<rparr>
         | _ \<Rightarrow>
             \<lparr>rv_TaskID = vi_TaskID inp, rv_AttemptID = [], rv_Decision = DecisionBlocked,
              rv_Summary = ''verification unavailable: no authoritative observer'',
              rv_Checks = [structural ''evidence_grounded'' CheckBlocked [] [] ''verification has no authoritative observer; completion is refused''],
              rv_CitedEvidence = [], rv_UncertainAttempts = [], rv_PendingApprovals = [], rv_TruncatedEvidence = [], rv_Git = None,
              rv_WriteReconciliation = [], rv_Limitations = [], rv_CreatedAt = now\<rparr>)"

end
