(* ===== verification/Agent_Types.thy ===== *)
theory Agent_Types
  imports Protocol Verifier
begin

text \<open>
  The small parts of the agent runtime (\<open>internal/agent\<close>): outcomes with their exit codes and reasons,
  observations of tools, the evidence set, the repeat guard, the transcript, the trace and the seed of a resumed run.
\<close>

section \<open>Outcomes\<close>

datatype RunOutcome =
    OutcomeCompleted | OutcomeStepsExhausted | OutcomeCorrectionsExhausted | OutcomeRepeatedAction
  | OutcomeTimeBudgetExhausted | OutcomeProviderBudgetExhausted | OutcomeAccountDelayTimeout | OutcomeAccountCircuitOpen
  | OutcomeCanceled | OutcomeFinalNotGrounded | OutcomeProviderFailure | OutcomePersistenceFailure | OutcomePersistencePaused
  | OutcomeFinalIncomplete | OutcomeApprovalRequired | OutcomeVerificationBlocked | OutcomeConsecutiveFailuresExhausted
  | OutcomeVerificationFailuresExhausted

fun outcome_text :: "RunOutcome \<Rightarrow> string" where
  "outcome_text OutcomeCompleted = ''completed''"
| "outcome_text OutcomeStepsExhausted = ''steps_exhausted''"
| "outcome_text OutcomeCorrectionsExhausted = ''corrections_exhausted''"
| "outcome_text OutcomeRepeatedAction = ''repeated_action''"
| "outcome_text OutcomeTimeBudgetExhausted = ''time_budget_exhausted''"
| "outcome_text OutcomeProviderBudgetExhausted = ''provider_budget_exhausted''"
| "outcome_text OutcomeAccountDelayTimeout = ''account_delay_timeout''"
| "outcome_text OutcomeAccountCircuitOpen = ''account_circuit_open''"
| "outcome_text OutcomeCanceled = ''canceled''"
| "outcome_text OutcomeFinalNotGrounded = ''final_not_grounded''"
| "outcome_text OutcomeProviderFailure = ''provider_failure''"
| "outcome_text OutcomePersistenceFailure = ''persistence_failure''"
| "outcome_text OutcomePersistencePaused = ''persistence_paused''"
| "outcome_text OutcomeFinalIncomplete = ''final_incomplete''"
| "outcome_text OutcomeApprovalRequired = ''approval_required''"
| "outcome_text OutcomeVerificationBlocked = ''verification_blocked''"
| "outcome_text OutcomeConsecutiveFailuresExhausted = ''consecutive_failures_exhausted''"
| "outcome_text OutcomeVerificationFailuresExhausted = ''verification_failures_exhausted''"

definition exitOutcomeBase :: int where "exitOutcomeBase = 20"

fun ExitCode :: "RunOutcome \<Rightarrow> int" where
  "ExitCode OutcomeCompleted = 0"
| "ExitCode OutcomeCanceled = 130"
| "ExitCode OutcomeStepsExhausted = exitOutcomeBase"
| "ExitCode OutcomeCorrectionsExhausted = exitOutcomeBase + 1"
| "ExitCode OutcomeRepeatedAction = exitOutcomeBase + 2"
| "ExitCode OutcomeTimeBudgetExhausted = exitOutcomeBase + 3"
| "ExitCode OutcomeProviderBudgetExhausted = exitOutcomeBase + 4"
| "ExitCode OutcomeAccountDelayTimeout = exitOutcomeBase + 5"
| "ExitCode OutcomeAccountCircuitOpen = exitOutcomeBase + 6"
| "ExitCode OutcomeFinalNotGrounded = exitOutcomeBase + 7"
| "ExitCode OutcomeProviderFailure = exitOutcomeBase + 8"
| "ExitCode OutcomePersistenceFailure = exitOutcomeBase + 11"
| "ExitCode OutcomeFinalIncomplete = exitOutcomeBase + 9"
| "ExitCode OutcomeApprovalRequired = exitOutcomeBase + 12"
| "ExitCode OutcomeVerificationBlocked = exitOutcomeBase + 13"
| "ExitCode OutcomeConsecutiveFailuresExhausted = exitOutcomeBase + 14"
| "ExitCode OutcomeVerificationFailuresExhausted = exitOutcomeBase + 15"
| "ExitCode OutcomePersistencePaused = exitOutcomeBase + 16"

fun StopReason :: "RunOutcome \<Rightarrow> string" where
  "StopReason OutcomeCompleted = ''completion verified by the control plane''"
| "StopReason OutcomeStepsExhausted = ''model-turn budget exhausted''"
| "StopReason OutcomeCorrectionsExhausted = ''protocol correction attempts exhausted''"
| "StopReason OutcomeRepeatedAction = ''repeated action guard exceeded''"
| "StopReason OutcomeTimeBudgetExhausted = ''task time budget exhausted''"
| "StopReason OutcomeProviderBudgetExhausted = ''provider attempt budget exhausted''"
| "StopReason OutcomeAccountDelayTimeout = ''account lane delay exceeded task deadline''"
| "StopReason OutcomeAccountCircuitOpen = ''account circuit open''"
| "StopReason OutcomeCanceled = ''task canceled''"
| "StopReason OutcomeFinalNotGrounded = ''final evidence not grounded''"
| "StopReason OutcomeProviderFailure = ''provider attempt failed''"
| "StopReason OutcomePersistenceFailure = ''durable state could not be persisted''"
| "StopReason OutcomeFinalIncomplete = ''grounded final reported incomplete''"
| "StopReason OutcomeApprovalRequired = ''write approval required''"
| "StopReason OutcomeVerificationBlocked = ''completion refused by control-plane verification''"
| "StopReason OutcomeConsecutiveFailuresExhausted = ''consecutive tool/process failures exhausted''"
| "StopReason OutcomeVerificationFailuresExhausted = ''repeated verification failures exhausted''"
| "StopReason OutcomePersistencePaused =
     ''durable write failed after a potentially executed effect; task remains resumable for recovery''"

record LoopResult =
  lr_Outcome :: RunOutcome
  lr_StopReason :: string
  lr_Turns :: int
  lr_Attempts :: int
  lr_Observations :: int
  lr_Corrections :: int
  lr_Repeated :: int
  lr_MixedProse :: int
  lr_Summary :: string
  lr_Note :: string
  lr_Evidence :: "string list"
  lr_Classification :: string
  lr_PendingActionID :: string

section \<open>Observations\<close>

record WriteEvidence =
  we_Path :: string
  we_BeforeHash :: string
  we_AfterHash :: string
  we_ByteCount :: int
  we_ChangeKind :: string
  we_Outcome :: string
  we_Diff :: string
  we_DiffTruncated :: bool
  we_DiffBytes :: int
  we_ActionID :: string
  we_ExecutionID :: string
  we_EvidenceID :: string

record ProcessEvidence =
  pv_RecipeID :: string
  pv_Executable :: string
  pv_Argv :: "string list"
  pv_WorkingDirectory :: string
  pv_Capabilities :: "string list"
  pv_Policy :: "string \<times> string"
  pv_DurationNanos :: int
  pv_ExitCode :: int
  pv_Signal :: string
  pv_Stdout :: string
  pv_Stderr :: string
  pv_StdoutBytes :: int
  pv_StderrBytes :: int
  pv_StdoutTruncated :: bool
  pv_StderrTruncated :: bool
  pv_TimedOut :: bool
  pv_Canceled :: bool
  pv_NetworkIsolation :: string
  pv_Started :: bool
  pv_ActionID :: string
  pv_ExecutionID :: string
  pv_EvidenceID :: string

datatype ToolData = NoData | WriteData WriteEvidence | ProcessData ProcessEvidence | OtherData string

record Observation =
  on_ID :: string
  on_Tool :: string
  on_Success :: bool
  on_Data :: ToolData
  on_Failure :: "string option"
  on_Truncated :: bool
  on_Untrusted :: bool
  on_Metadata :: string

definition AnnotateWriteEvidence :: "string \<Rightarrow> string \<Rightarrow> Observation \<Rightarrow> Observation" where
  "AnnotateWriteEvidence actionID executionID o' =
     (if \<not> on_Success o' then o'
      else (case on_Data o' of
          WriteData e \<Rightarrow> o'\<lparr>on_Data := WriteData (e\<lparr>we_ActionID := actionID, we_ExecutionID := executionID, we_EvidenceID := on_ID o'\<rparr>)\<rparr>
        | _ \<Rightarrow> o'))"

definition AnnotateRecipeEvidence :: "string \<Rightarrow> string \<Rightarrow> string \<Rightarrow> string \<Rightarrow> Observation \<Rightarrow> Observation" where
  "AnnotateRecipeEvidence actionID executionID decision reason o' =
     (if \<not> on_Success o' then o'
      else (case on_Data o' of
          ProcessData e \<Rightarrow> o'\<lparr>on_Data := ProcessData (e\<lparr>pv_ActionID := actionID, pv_ExecutionID := executionID,
            pv_EvidenceID := on_ID o', pv_Policy := (decision, reason)\<rparr>)\<rparr>
        | _ \<Rightarrow> o'))"

definition ToolRunRecipe :: string where "ToolRunRecipe = ''run_recipe''"

definition IsWriteTool :: "string \<Rightarrow> bool" where
  "IsWriteTool tool \<longleftrightarrow> tool = ToolWriteFile \<or> tool = ToolApplyPatch"

definition IsRecipeTool :: "string \<Rightarrow> bool" where
  "IsRecipeTool tool \<longleftrightarrow> tool = ToolRunRecipe"

definition IsPolicyGated :: "string \<Rightarrow> bool" where
  "IsPolicyGated tool \<longleftrightarrow> IsWriteTool tool \<or> IsRecipeTool tool"

definition recoveryClassFor :: "string \<Rightarrow> int" where
  "recoveryClassFor tool =
     (if tool = ToolWriteFile \<or> tool = ToolApplyPatch then 2 else if tool = ToolRunRecipe then 4 else 1)"

definition failureCountedForGuard :: "Action \<Rightarrow> Observation \<Rightarrow> bool" where
  "failureCountedForGuard a o' \<longleftrightarrow>
     \<not> on_Success o' \<or> (act_Tool a = ToolRunRecipe \<and> (case on_Data o' of ProcessData e \<Rightarrow> pv_ExitCode e \<noteq> 0 | _ \<Rightarrow> False))"

section \<open>Evidence\<close>

type_synonym EvidenceSet = "(string \<times> Observation) list"

definition EvidenceSet_Add :: "Observation \<Rightarrow> EvidenceSet \<Rightarrow> EvidenceSet" where
  "EvidenceSet_Add o' e = (if on_Success o' then map_put (on_ID o') o' e else e)"

definition EvidenceSet_Count :: "EvidenceSet \<Rightarrow> int" where
  "EvidenceSet_Count e = int (length e)"

definition Ground :: "FinalResponse \<Rightarrow> EvidenceSet \<Rightarrow> bool \<times> string list" where
  "Ground f e =
     (let missing = filter (\<lambda>i. map_get e i = None) (map ci_EvidenceID (fi_Evidence f)) in (missing = [], missing))"

section \<open>The repeat guard\<close>

type_synonym repeatGuard = "(string \<times> string) list"

definition guard_repeat :: "(string \<Rightarrow> json \<Rightarrow> string) \<Rightarrow> Action \<Rightarrow> string \<Rightarrow> repeatGuard \<Rightarrow> bool" where
  "guard_repeat hash a signature g \<longleftrightarrow> map_get g (ActionFingerprint hash a) = Some signature \<and> signature \<noteq> []"

definition guard_record :: "(string \<Rightarrow> json \<Rightarrow> string) \<Rightarrow> Action \<Rightarrow> string \<Rightarrow> repeatGuard \<Rightarrow> repeatGuard" where
  "guard_record hash a signature g = map_put (ActionFingerprint hash a) signature g"

definition guard_seed :: "string \<times> string \<Rightarrow> repeatGuard \<Rightarrow> repeatGuard" where
  "guard_seed p g = (if fst p = [] then g else map_put (fst p) (snd p) g)"

section \<open>Transcript and trace\<close>

datatype role = roleSystem | roleUser | roleAssistant | roleObservation | roleCorrection | roleRecovery | roleVerification

type_synonym transcript = "(role \<times> string) list"

definition newTranscript :: "string \<Rightarrow> string \<Rightarrow> transcript" where
  "newTranscript contract task = (roleSystem, contract) # (if is_blank task then [] else [(roleUser, task)])"

fun role_text :: "role \<Rightarrow> string" where
  "role_text roleSystem = ''system''"
| "role_text roleUser = ''user''"
| "role_text roleAssistant = ''assistant''"
| "role_text roleObservation = ''observation''"
| "role_text roleCorrection = ''correction''"
| "role_text roleRecovery = ''recovery''"
| "role_text roleVerification = ''verification''"

definition transcript_render :: "transcript \<Rightarrow> string" where
  "transcript_render t =
     concat (map (\<lambda>(r, c). ''=== runstead:'' @ role_text r @ '' ==='' @ [CHR 0x0A] @ c @ [CHR 0x0A]) t)"

datatype TraceKind =
    TraceAttempt | TraceAction | TraceObservation | TraceCorrection | TraceDeviation | TraceStop | TraceVerification
  | TraceRecoveryStart | TraceRecoveryReconcile | TraceRecoveryUncertain | TraceRecoveryContext | TraceRecoveryBoundary | TraceRecoveryBlocked

record TraceLine =
  tl_Sequence :: int
  tl_Kind :: TraceKind
  tl_Status :: string
  tl_EvidenceID :: string
  tl_Classification :: string
  tl_StopReason :: string
  tl_Tool :: string
  tl_Code :: string
  tl_RetriesRemaining :: int
  tl_ExitCode :: int

definition trace_line :: "TraceKind \<Rightarrow> string \<Rightarrow> TraceLine" where
  "trace_line k st = \<lparr>tl_Sequence = 0, tl_Kind = k, tl_Status = st, tl_EvidenceID = [], tl_Classification = [], tl_StopReason = [],
     tl_Tool = [], tl_Code = [], tl_RetriesRemaining = 0, tl_ExitCode = 0\<rparr>"

section \<open>Resumed runs\<close>

record RecoverySeed =
  sd_Turns :: int
  sd_Attempts :: int
  sd_Repeated :: int
  sd_ConsecutiveFailures :: int
  sd_VerificationRetries :: int
  sd_Evidence :: "Observation list"
  sd_Guard :: "(string \<times> string) list"
  sd_Context :: string
  sd_TraceSequence :: int

section \<open>Lemmas\<close>

text \<open>Every outcome has an exit code of its own, and only a verified completion exits with zero.\<close>

definition all_outcomes :: "RunOutcome list" where
  "all_outcomes = [OutcomeCompleted, OutcomeStepsExhausted, OutcomeCorrectionsExhausted, OutcomeRepeatedAction, OutcomeTimeBudgetExhausted,
     OutcomeProviderBudgetExhausted, OutcomeAccountDelayTimeout, OutcomeAccountCircuitOpen, OutcomeCanceled, OutcomeFinalNotGrounded,
     OutcomeProviderFailure, OutcomePersistenceFailure, OutcomePersistencePaused, OutcomeFinalIncomplete, OutcomeApprovalRequired,
     OutcomeVerificationBlocked, OutcomeConsecutiveFailuresExhausted, OutcomeVerificationFailuresExhausted]"

lemma in_all_outcomes: "o' \<in> set all_outcomes"
  by (cases o') (simp_all add: all_outcomes_def)

theorem exit_codes_identify_outcomes:
  "(ExitCode o' = ExitCode p \<longleftrightarrow> o' = p) \<and> (ExitCode o' = 0 \<longleftrightarrow> o' = OutcomeCompleted)"
proof -
  have "distinct (map ExitCode all_outcomes)" by code_simp
  then have "inj_on ExitCode (set all_outcomes)" by (simp only: distinct_map)
  then have inj: "ExitCode a = ExitCode b \<longleftrightarrow> a = b" for a b
    using in_all_outcomes inj_onD by metis
  then show ?thesis using inj [of o' OutcomeCompleted] by simp
qed

text \<open>A recorded action is a repeat exactly until the workspace changes.\<close>

lemma guard_repeat_record:
  "guard_repeat hash b sig (guard_record hash a sig' g) \<longleftrightarrow>
     (if ActionFingerprint hash a = ActionFingerprint hash b then sig = sig' \<and> sig \<noteq> [] else guard_repeat hash b sig g)"
  by (auto simp: guard_repeat_def guard_record_def)

lemma Ground_iff: "fst (Ground f e) \<longleftrightarrow> (\<forall>c \<in> set (fi_Evidence f). map_get e (ci_EvidenceID c) \<noteq> None)"
  by (auto simp: Ground_def Let_def filter_empty_conv)

text \<open>Only successful observations become evidence.\<close>

lemma in_map_put: "p \<in> set (map_put k v m) \<Longrightarrow> p = (k, v) \<or> p \<in> set m"
  by (induction m) (auto split: if_splits)

lemma evidence_successful:
  assumes "\<And>i x. (i, x) \<in> set e \<Longrightarrow> on_Success x \<and> on_ID x = i" "(i, x) \<in> set (EvidenceSet_Add y e)"
  shows "on_Success x \<and> on_ID x = i"
proof (cases "on_Success y")
  case True
  then have "(i, x) = (on_ID y, y) \<or> (i, x) \<in> set e" using assms(2) in_map_put by (simp only: EvidenceSet_Add_def if_True)
  then show ?thesis
  proof
    assume "(i, x) = (on_ID y, y)"
    then have "i = on_ID y" "x = y" by (blast dest: Pair_inject)+
    then show ?thesis using True by simp
  qed (rule assms(1))
next
  case False
  then show ?thesis using assms by (simp add: EvidenceSet_Add_def)
qed

end
