(* ===== verification/Agent_Loop.thy ===== *)
theory Agent_Loop
  imports Agent_Types Store_System
begin

text \<open>
  The agent loop (\<open>internal/agent/loop.go\<close>). A run is a function of the loop's configuration, of the task
  and of what the outside answers in each turn: the record \<open>Turn\<close> holds the state of the context and of the clock,
  the governed runner (with what it wrote to the store), the workspace signature, the execution of a tool,
  the observer of the verifier, and for every call of the store the failure of the database, if any.
  Encodings and hashes are arguments. The store is optional, as in the code.
\<close>

section \<open>Configuration\<close>

record Limits =
  lm_MaxSteps :: int
  lm_MaxCorrections :: int
  lm_MaxRepeatedActions :: int
  lm_TimeBudget :: duration
  lm_ProviderBudget :: int
  lm_MaxConsecutiveFailures :: int
  lm_MaxVerificationRetries :: int

definition DefaultLoopLimits :: Limits where
  "DefaultLoopLimits = \<lparr>lm_MaxSteps = 24, lm_MaxCorrections = 2, lm_MaxRepeatedActions = 2, lm_TimeBudget = 10 * Minute,
     lm_ProviderBudget = 80, lm_MaxConsecutiveFailures = 5, lm_MaxVerificationRetries = 3\<rparr>"

definition effective_limits :: "Limits \<Rightarrow> Limits" where
  "effective_limits l =
     (let d = DefaultLoopLimits
      in \<lparr>lm_MaxSteps = (if lm_MaxSteps l \<le> 0 then lm_MaxSteps d else lm_MaxSteps l),
          lm_MaxCorrections = (if lm_MaxCorrections l < 0 then lm_MaxCorrections d else lm_MaxCorrections l),
          lm_MaxRepeatedActions = (if lm_MaxRepeatedActions l < 0 then lm_MaxRepeatedActions d else lm_MaxRepeatedActions l),
          lm_TimeBudget = (if lm_TimeBudget l \<le> 0 then lm_TimeBudget d else lm_TimeBudget l),
          lm_ProviderBudget = (if lm_ProviderBudget l \<le> 0 then lm_ProviderBudget d else lm_ProviderBudget l),
          lm_MaxConsecutiveFailures = (if lm_MaxConsecutiveFailures l \<le> 0 then lm_MaxConsecutiveFailures d else lm_MaxConsecutiveFailures l),
          lm_MaxVerificationRetries = (if lm_MaxVerificationRetries l \<le> 0 then lm_MaxVerificationRetries d else lm_MaxVerificationRetries l)\<rparr>)"

record Task =
  ts_ID :: string
  ts_Prompt :: string
  ts_WorkUnitID :: string
  ts_SkipTaskFinalize :: bool

text \<open>Encodings and hashes.\<close>

record Encoding =
  en_arguments :: "Arguments \<Rightarrow> string"
  en_observation :: "Observation \<Rightarrow> string"
  en_data :: "ToolData \<Rightarrow> string"
  en_config :: "(string \<times> jval) list \<Rightarrow> string"
  en_plan :: "Plan \<Rightarrow> string"
  en_check :: "Check \<Rightarrow> string"
  en_sha256hex :: "string \<Rightarrow> string"
  en_report :: "Report \<Rightarrow> string"
  en_verification :: "string \<Rightarrow> string \<Rightarrow> CheckResult list \<Rightarrow> string"
  en_correction :: "ProtocolFailure \<times> int \<Rightarrow> string"
  en_policyMessage :: "string \<Rightarrow> PolicyOutcome \<Rightarrow> int \<Rightarrow> string"
  en_intent :: "string \<Rightarrow> string \<Rightarrow> PolicyOutcome \<Rightarrow> string"
  en_fingerprint :: "string \<Rightarrow> json \<Rightarrow> string"
  en_approval :: "string \<Rightarrow> string \<Rightarrow> string"
  en_error :: "store_error \<Rightarrow> string"
  en_failure :: "ProtocolFailure \<Rightarrow> string"
  en_outcome :: "OutcomeClass \<Rightarrow> string"
  en_admission :: "AdmissionCode \<Rightarrow> string"
  en_call :: "execute_error \<Rightarrow> string"

text \<open>A loop: the registry's workspace, tool catalog and recipes (a recipe is its digest), and the rest of the
  configuration. The policy is the static one over the approvals of the store.\<close>

record Loop =
  lp_cx :: Codec
  lp_en :: Encoding
  lp_refusal :: "string \<Rightarrow> bool"
  lp_claim :: "string \<Rightarrow> bool"
  lp_workspace :: string
  lp_catalog :: ToolCatalog
  lp_recipes :: "string \<Rightarrow> string option"
  lp_contract :: string
  lp_limits :: Limits
  lp_model :: string
  lp_identity :: "(string \<times> string) list"
  lp_policy :: "PolicyConfig option"
  lp_writePolicy :: string
  lp_recipePolicy :: string
  lp_recipeCatalogDigest :: string
  lp_plan :: "Plan option"
  lp_acceptancePlanDigest :: string
  lp_executionContractJSON :: string
  lp_executionContractHash :: string
  lp_recovery :: "RecoverySeed option"

datatype ctx_end = CtxCanceled | CtxDeadline

record Faults =
  ft_RecordAction :: "string option"
  ft_Decision :: "string option"
  ft_Approvals :: "string option"
  ft_Reject :: "string option"
  ft_Prepare :: "string option"
  ft_Complete :: "string option"
  ft_Pending :: "string option"
  ft_Snapshot :: "string option"
  ft_PendingInput :: "string option"
  ft_SaveVerification :: "string option"
  ft_Stop :: "string option"

text \<open>What the outside answers in one turn.\<close>

record Turn =
  tn_ctx :: "ctx_end option"
  tn_now :: time
  tn_pressure :: bool
  tn_runner :: "AttemptRequest \<Rightarrow> Store option \<Rightarrow> ExecutionResult \<times> Store option"
  tn_ctx_after :: "ctx_end option"
  tn_now_after :: time
  tn_signature :: string
  tn_planWrite :: "Action \<Rightarrow> string \<times> string"
  tn_execute :: "Action \<Rightarrow> Observation"
  tn_duration :: duration
  tn_observer :: Observer
  tn_verifyNow :: string
  tn_faults :: Faults

record runState =
  rn_sequence :: int
  rn_turns :: int
  rn_attempts :: int
  rn_corrections :: int
  rn_repeated :: int
  rn_mixedProse :: int
  rn_consecutiveFailures :: int
  rn_verificationRetries :: int

text \<open>What the run did to the outside, in order: a model attempt, or the execution of a tool with the
  policy outcome that released it, its execution id and the store at that moment.\<close>

datatype deed = ModelAttempt AttemptRequest | ToolExecuted Action PolicyOutcome string "Store option" | Verified Report

record Session =
  ss_run :: runState
  ss_transcript :: transcript
  ss_evidence :: EvidenceSet
  ss_guard :: repeatGuard
  ss_store :: "Store option"
  ss_trace :: "TraceLine list"
  ss_deeds :: "deed list"

definition emit :: "TraceLine \<Rightarrow> Session \<Rightarrow> Session" where
  "emit line ss =
     (let n = rn_sequence (ss_run ss) + 1
      in ss\<lparr>ss_run := (ss_run ss)\<lparr>rn_sequence := n\<rparr>, ss_trace := ss_trace ss @ [line\<lparr>tl_Sequence := n\<rparr>]\<rparr>)"

definition say :: "role \<Rightarrow> string \<Rightarrow> Session \<Rightarrow> Session" where
  "say r content ss = ss\<lparr>ss_transcript := ss_transcript ss @ [(r, content)]\<rparr>"

text \<open>A call of the store, skipped when there is none.\<close>

definition db_call :: "(Store \<Rightarrow> (store_error + 'a) \<times> Store) \<Rightarrow> 'a \<Rightarrow> Session \<Rightarrow> (store_error + 'a) \<times> Session" where
  "db_call f none ss =
     (case ss_store ss of
        None \<Rightarrow> (Inr none, ss)
      | Some s \<Rightarrow> (case f s of (r, s') \<Rightarrow> (r, ss\<lparr>ss_store := Some s'\<rparr>)))"

section \<open>Stopping\<close>

definition base_result :: "RunOutcome \<Rightarrow> string \<Rightarrow> Session \<Rightarrow> LoopResult" where
  "base_result oc reason ss =
     (let r = ss_run ss
      in \<lparr>lr_Outcome = oc, lr_StopReason = reason, lr_Turns = rn_turns r, lr_Attempts = rn_attempts r,
          lr_Observations = EvidenceSet_Count (ss_evidence ss), lr_Corrections = rn_corrections r, lr_Repeated = rn_repeated r,
          lr_MixedProse = rn_mixedProse r, lr_Summary = [], lr_Note = [], lr_Evidence = [], lr_Classification = [], lr_PendingActionID = []\<rparr>)"

definition finalize_record :: "Task \<Rightarrow> LoopResult \<Rightarrow> TaskFinalize" where
  "finalize_record task r =
     \<lparr>tf_TaskID = ts_ID task, tf_Outcome = outcome_text (lr_Outcome r), tf_StopReason = lr_StopReason r, tf_Summary = lr_Summary r,
      tf_Classification = lr_Classification r, tf_Evidence = lr_Evidence r, tf_Turns = lr_Turns r, tf_Attempts = lr_Attempts r,
      tf_Observations = lr_Observations r, tf_Corrections = lr_Corrections r, tf_Repeated = lr_Repeated r, tf_MixedProse = lr_MixedProse r\<rparr>"

text \<open>The durable side of a stop: the three pauses, nothing for a unit run, and the finalization otherwise.\<close>

definition stop_store :: "Loop \<Rightarrow> Task \<Rightarrow> string option \<Rightarrow> RunOutcome \<Rightarrow> LoopResult \<Rightarrow> Store \<Rightarrow> (store_error + unit) \<times> Store" where
  "stop_store lp task fault oc r s =
     (if oc = OutcomeApprovalRequired then MarkTaskApprovalRequired (lp_cx lp) fault (ts_ID task) (lr_PendingActionID r) (lr_StopReason r) s
      else if oc = OutcomeVerificationBlocked then MarkTaskVerificationPaused (lp_cx lp) fault (ts_ID task) (lr_StopReason r) s
      else if oc = OutcomePersistencePaused then MarkTaskPersistencePaused (lp_cx lp) fault (ts_ID task) (lr_StopReason r) s
      else if ts_SkipTaskFinalize task then (Inr (), s)
      else FinalizeTask (lp_cx lp) fault (finalize_record task r) s)"

definition persist_reason :: "Loop \<Rightarrow> store_error \<Rightarrow> string" where
  "persist_reason lp e = ''durable state could not be persisted: '' @ en_error (lp_en lp) e"

definition stop :: "Loop \<Rightarrow> Task \<Rightarrow> string option \<Rightarrow> RunOutcome \<Rightarrow> string \<Rightarrow> (LoopResult \<Rightarrow> LoopResult) \<Rightarrow> Session \<Rightarrow> LoopResult \<times> Session" where
  "stop lp task fault oc reason extra ss =
     (let r = extra (base_result oc reason ss)
      in case db_call (stop_store lp task fault oc r) () ss of
           (res, ss1) \<Rightarrow>
             let r' = (case res of
                   Inr _ \<Rightarrow> r
                 | Inl e \<Rightarrow> r\<lparr>lr_Outcome := OutcomePersistenceFailure, lr_StopReason := persist_reason lp e\<rparr>)
             in (r', emit ((trace_line TraceStop (outcome_text (lr_Outcome r')))\<lparr>tl_StopReason := lr_StopReason r'\<rparr>) ss1))"

text \<open>A turn ends the run with a result or goes on.\<close>

type_synonym turn_end = "LoopResult option \<times> Session"

definition stopped :: "LoopResult \<times> Session \<Rightarrow> turn_end" where
  "stopped x = (Some (fst x), snd x)"

definition persistence_stop :: "Loop \<Rightarrow> Task \<Rightarrow> Turn \<Rightarrow> store_error \<Rightarrow> Session \<Rightarrow> turn_end" where
  "persistence_stop lp task tn e ss =
     stopped (stop lp task (ft_Stop (tn_faults tn)) OutcomePersistenceFailure
       (StopReason OutcomePersistenceFailure @ '': '' @ en_error (lp_en lp) e) id ss)"

definition outcomeReasonCanceled :: "string \<Rightarrow> string" where
  "outcomeReasonCanceled err = StopReason OutcomeCanceled @ '': '' @ err"

definition deadlineReached :: "time \<Rightarrow> time \<Rightarrow> bool" where
  "deadlineReached now deadline \<longleftrightarrow> \<not> is_zero deadline \<and> \<not> now < deadline"

section \<open>Starting\<close>

definition captureGitBaseline :: "Observer \<Rightarrow> (string \<times> string \<times> bool \<times> bool) option" where
  "captureGitBaseline ob =
     (case ob_GitStatusText ob of
        (st, stt, Some e) \<Rightarrow> None
      | (st, stt, None) \<Rightarrow> (case ob_GitDiffText ob of (df, dft, _) \<Rightarrow> Some (st, df, stt, dft)))"

definition ConfigSnapshot :: "Loop \<Rightarrow> (string \<times> jval) list" where
  "ConfigSnapshot lp =
     (let l = lp_limits lp
      in [(''workspace'', JS (lp_workspace lp)), (''model'', JS (lp_model lp)), (''write_policy'', JS (lp_writePolicy lp)),
          (''recipe_policy'', JS (lp_recipePolicy lp)), (''recipe_catalog_digest'', JS (lp_recipeCatalogDigest lp)),
          (''acceptance_plan_digest'', JS (lp_acceptancePlanDigest lp)), (''max_steps'', JI (lm_MaxSteps l)),
          (''max_corrections'', JI (lm_MaxCorrections l)), (''max_repeated_actions'', JI (lm_MaxRepeatedActions l)),
          (''time_budget_ns'', JI (lm_TimeBudget l)), (''provider_budget'', JI (lm_ProviderBudget l)),
          (''max_consecutive_failures'', JI (lm_MaxConsecutiveFailures l)), (''max_verification_retries'', JI (lm_MaxVerificationRetries l))]
         @ map (\<lambda>(k, v). (k, JS v)) (lp_identity lp))"

text \<open>The failures of the four writes of the bootstrap.\<close>

record BootFaults =
  bf_Create :: "string option"
  bf_Start :: "string option"
  bf_Plan :: "string option"
  bf_Baseline :: "string option"

definition BootstrapTask ::
  "Codec \<Rightarrow> Encoding \<Rightarrow> BootFaults \<Rightarrow> TaskRecord \<Rightarrow> Plan option \<Rightarrow> Observer \<Rightarrow> Store \<Rightarrow> (store_error + unit) \<times> Store" where
  "BootstrapTask cx en bf record plan ob s =
     (case CreateTask cx (bf_Create bf) record s of
        (Inl e, s1) \<Rightarrow> (Inl e, s1)
      | (Inr _, s1) \<Rightarrow>
          (case StartTask cx (bf_Start bf) (tc_TaskID record) s1 of
             (Inl e, s2) \<Rightarrow> (Inl e, s2)
           | (Inr _, s2) \<Rightarrow>
               (case (case plan of
                        None \<Rightarrow> (Inr (), s2)
                      | Some p \<Rightarrow> SaveAcceptancePlan cx (bf_Plan bf) (tc_TaskID record) (en_plan en p)
                          (Digest (en_check en) (en_sha256hex en) (Some p)) s2) of
                  (Inl e, s3) \<Rightarrow> (Inl e, s3)
                | (Inr _, s3) \<Rightarrow>
                    (case captureGitBaseline ob of
                       None \<Rightarrow> (Inr (), s3)
                     | Some (st, df, stt, dft) \<Rightarrow> SaveWorkspaceBaseline cx (bf_Baseline bf) (tc_TaskID record) st df stt dft s3))))"

definition task_record :: "Loop \<Rightarrow> Task \<Rightarrow> TaskRecord" where
  "task_record lp task =
     \<lparr>tc_TaskID = ts_ID task, tc_Objective = ts_Prompt task, tc_Workspace = lp_workspace lp, tc_Model = lp_model lp,
      tc_ConfigJSON = en_config (lp_en lp) (ConfigSnapshot lp), tc_ExecutionContractJSON = lp_executionContractJSON lp,
      tc_ExecutionContractHash = lp_executionContractHash lp\<rparr>"

definition fresh_run :: runState where
  "fresh_run = \<lparr>rn_sequence = 0, rn_turns = 0, rn_attempts = 0, rn_corrections = 0, rn_repeated = 0, rn_mixedProse = 0,
     rn_consecutiveFailures = 0, rn_verificationRetries = 0\<rparr>"

definition fresh_session :: "Loop \<Rightarrow> Task \<Rightarrow> Store option \<Rightarrow> Session" where
  "fresh_session lp task store =
     \<lparr>ss_run = fresh_run, ss_transcript = newTranscript (lp_contract lp) (ts_Prompt task), ss_evidence = [], ss_guard = [],
      ss_store = store, ss_trace = [], ss_deeds = []\<rparr>"

definition seed_session :: "RecoverySeed \<Rightarrow> Session \<Rightarrow> Session" where
  "seed_session sd ss =
     (let r = ss_run ss;
          ss1 = (if sd_Context sd \<noteq> [] \<and> \<not> is_blank (sd_Context sd) then say roleRecovery (sd_Context sd) ss else ss);
          ss2 = ss1\<lparr>ss_evidence := fold EvidenceSet_Add (sd_Evidence sd) (ss_evidence ss1),
                    ss_guard := fold guard_seed (sd_Guard sd) (ss_guard ss1),
                    ss_run := r\<lparr>rn_turns := max (rn_turns r) (sd_Turns sd), rn_attempts := max (rn_attempts r) (sd_Attempts sd),
                      rn_repeated := max (rn_repeated r) (sd_Repeated sd),
                      rn_consecutiveFailures := max (rn_consecutiveFailures r) (sd_ConsecutiveFailures sd),
                      rn_verificationRetries := max (rn_verificationRetries r) (sd_VerificationRetries sd),
                      rn_sequence := max (rn_sequence r) (sd_TraceSequence sd)\<rparr>\<rparr>
      in emit (trace_line TraceRecoveryBoundary ''new execution begins'') ss2)"

section \<open>Corrections\<close>

definition correct :: "Loop \<Rightarrow> Task \<Rightarrow> Turn \<Rightarrow> ProtocolFailure \<Rightarrow> int \<Rightarrow> Session \<Rightarrow> turn_end" where
  "correct lp task tn fcode retriesRemaining ss =
     (case GenerateCorrectionMessage fcode retriesRemaining of
        None \<Rightarrow> stopped (stop lp task (ft_Stop (tn_faults tn)) OutcomeProviderFailure ''provider failure: correction message generation failed'' id ss)
      | Some m \<Rightarrow>
          (None, say roleCorrection (en_correction (lp_en lp) m)
             (emit ((trace_line TraceCorrection (en_failure (lp_en lp) fcode))\<lparr>tl_Code := en_failure (lp_en lp) fcode, tl_RetriesRemaining := retriesRemaining\<rparr>) ss)))"

definition handleParseFailure :: "Loop \<Rightarrow> Task \<Rightarrow> Turn \<Rightarrow> ParseFailure \<Rightarrow> Session \<Rightarrow> turn_end" where
  "handleParseFailure lp task tn f ss =
     (if \<not> fl_CorrectionReasonable f \<or> rn_corrections (ss_run ss) \<ge> lm_MaxCorrections (lp_limits lp)
      then stopped (stop lp task (ft_Stop (tn_faults tn)) OutcomeCorrectionsExhausted
             (''protocol correction exhausted: '' @ en_failure (lp_en lp) (fl_Code f)) id ss)
      else let ss1 = ss\<lparr>ss_run := (ss_run ss)\<lparr>rn_corrections := rn_corrections (ss_run ss) + 1\<rparr>\<rparr>
           in correct lp task tn (fl_Code f) (lm_MaxCorrections (lp_limits lp) - rn_corrections (ss_run ss1)) ss1)"

fun decision_text :: "Decision \<Rightarrow> string" where
  "decision_text Allowed = ''allowed''"
| "decision_text Denied = ''denied''"
| "decision_text ApprovalRequired = ''approval_required''"

definition policyCorrection :: "Loop \<Rightarrow> Task \<Rightarrow> Turn \<Rightarrow> string \<Rightarrow> PolicyOutcome \<Rightarrow> Session \<Rightarrow> turn_end" where
  "policyCorrection lp task tn tool po ss =
     (let d = decision_text (po_Decision po)
      in if rn_corrections (ss_run ss) \<ge> lm_MaxCorrections (lp_limits lp)
         then stopped (stop lp task (ft_Stop (tn_faults tn)) OutcomeCorrectionsExhausted (''correction exhausted: '' @ tool @ '' '' @ d)
                (\<lambda>r. r\<lparr>lr_Classification := d\<rparr>) ss)
         else let ss1 = ss\<lparr>ss_run := (ss_run ss)\<lparr>rn_corrections := rn_corrections (ss_run ss) + 1\<rparr>\<rparr>;
                  retries = lm_MaxCorrections (lp_limits lp) - rn_corrections (ss_run ss1)
              in (None, say roleCorrection (en_policyMessage (lp_en lp) tool po retries)
                   (emit ((trace_line TraceCorrection d)\<lparr>tl_Code := d, tl_RetriesRemaining := retries\<rparr>) ss1)))"

section \<open>Actions\<close>

definition recipeArgument :: "Action \<Rightarrow> string option" where
  "recipeArgument a =
     (case map_get (act_Arguments a) ''recipe'' of
        Some (JStr v) \<Rightarrow> if v = [] then None else Some v
      | _ \<Rightarrow> None)"

definition recipeApprovalFingerprint :: "Loop \<Rightarrow> Action \<Rightarrow> string" where
  "recipeApprovalFingerprint lp a =
     (if \<not> IsRecipeTool (act_Tool a) then []
      else (case recipeArgument a of
          None \<Rightarrow> []
        | Some rid \<Rightarrow> (case lp_recipes lp rid of None \<Rightarrow> [] | Some digest \<Rightarrow> en_approval (lp_en lp) rid digest)))"

definition buildProcessIntent :: "Loop \<Rightarrow> Action \<Rightarrow> PolicyOutcome \<Rightarrow> string" where
  "buildProcessIntent lp a po =
     (if \<not> IsRecipeTool (act_Tool a) then []
      else (case recipeArgument a of
          None \<Rightarrow> []
        | Some rid \<Rightarrow> (case lp_recipes lp rid of None \<Rightarrow> [] | Some digest \<Rightarrow> en_intent (lp_en lp) rid digest po)))"

text \<open>The request handed to the policy: \<open>None\<close> is a recipe outside the catalog.\<close>

definition policy_request :: "Loop \<Rightarrow> Task \<Rightarrow> string \<Rightarrow> Action \<Rightarrow> PolicyRequest option" where
  "policy_request lp task actionID a =
     (let rq = \<lparr>pq_TaskID = ts_ID task, pq_ActionID = actionID, pq_Tool = act_Tool a,
                pq_Fingerprint = ActionFingerprint (en_fingerprint (lp_en lp)) a, pq_Workspace = lp_workspace lp, pq_Recipe = []\<rparr>
      in if \<not> IsRecipeTool (act_Tool a) then Some rq
         else (case recipeArgument a of
             None \<Rightarrow> Some rq
           | Some rid \<Rightarrow>
               (case lp_recipes lp rid of
                  None \<Rightarrow> None
                | Some digest \<Rightarrow> Some (rq\<lparr>pq_Recipe := rid, pq_Fingerprint := en_approval (lp_en lp) rid digest\<rparr>))))"

definition policy_outcome :: "Loop \<Rightarrow> Turn \<Rightarrow> PolicyRequest option \<Rightarrow> Store option \<Rightarrow> PolicyOutcome" where
  "policy_outcome lp tn rq store =
     (case rq of
        None \<Rightarrow> outcome Denied ''unknown_recipe''
      | Some q \<Rightarrow>
          (case lp_policy lp of
             None \<Rightarrow> outcome Denied ''no_write_policy''
           | Some pc \<Rightarrow> Evaluate (NewStatic pc (map_option (storeApprovals (ft_Approvals (tn_faults tn))) store)) q))"

definition record_decision :: "Loop \<Rightarrow> Task \<Rightarrow> string option \<Rightarrow> string \<Rightarrow> Action \<Rightarrow> PolicyRequest option \<Rightarrow> PolicyOutcome \<Rightarrow> Store \<Rightarrow> (store_error + unit) \<times> Store" where
  "record_decision lp task fault actionID a rq po s =
     (let rid = (case rq of Some q \<Rightarrow> pq_Recipe q | None \<Rightarrow> []);
          d = \<lparr>wd_TaskID = ts_ID task, wd_ActionID = actionID, wd_Tool = (if rid \<noteq> [] then rid else act_Tool a),
               wd_Decision = decision_text (po_Decision po), wd_Reason = po_Reason po\<rparr>
      in if rid \<noteq> [] then RecordRecipePolicyDecision (lp_cx lp) fault d s else RecordWritePolicyDecision (lp_cx lp) fault d s)"

definition evaluatePolicy :: "Loop \<Rightarrow> Task \<Rightarrow> Turn \<Rightarrow> string \<Rightarrow> Action \<Rightarrow> Session \<Rightarrow> (store_error + PolicyOutcome) \<times> Session" where
  "evaluatePolicy lp task tn actionID a ss =
     (let rq = policy_request lp task actionID a;
          po = policy_outcome lp tn rq (ss_store ss)
      in case db_call (record_decision lp task (ft_Decision (tn_faults tn)) actionID a rq po) () ss of
           (Inl e, ss1) \<Rightarrow> (Inl e, ss1)
         | (Inr _, ss1) \<Rightarrow> (Inr po, ss1))"

text \<open>The zero outcome that a tool outside the policy carries: its decision is read for gated tools only.\<close>

definition no_outcome :: PolicyOutcome where "no_outcome = \<lparr>po_Decision = Denied, po_Reason = []\<rparr>"

definition action_record :: "Loop \<Rightarrow> Task \<Rightarrow> Turn \<Rightarrow> Action \<Rightarrow> ActionRecord" where
  "action_record lp task tn a =
     \<lparr>an_TaskID = ts_ID task, an_WorkUnitID = ts_WorkUnitID task, an_Tool = act_Tool a, an_Arguments = en_arguments (lp_en lp) (act_Arguments a),
      an_Fingerprint = ActionFingerprint (en_fingerprint (lp_en lp)) a, an_RecipeFingerprint = recipeApprovalFingerprint lp a,
      an_WorkspaceSignature = tn_signature tn\<rparr>"

definition attempt_prepared :: "Loop \<Rightarrow> Task \<Rightarrow> Turn \<Rightarrow> string \<Rightarrow> Action \<Rightarrow> PolicyOutcome \<Rightarrow> ToolAttemptPrepared" where
  "attempt_prepared lp task tn actionID a po =
     \<lparr>tp_TaskID = ts_ID task, tp_WorkUnitID = ts_WorkUnitID task, tp_ActionID = actionID, tp_Tool = act_Tool a,
      tp_Arguments = en_arguments (lp_en lp) (act_Arguments a), tp_RecoveryClass = recoveryClassFor (act_Tool a),
      tp_EffectAfterHash = fst (tn_planWrite tn a), tp_PlannedEffect = snd (tn_planWrite tn a), tp_ProcessIntent = buildProcessIntent lp a po\<rparr>"

definition attempt_completed :: "Loop \<Rightarrow> Task \<Rightarrow> Turn \<Rightarrow> string \<Rightarrow> Observation \<Rightarrow> ToolAttemptCompleted" where
  "attempt_completed lp task tn executionID obs =
     \<lparr>to_TaskID = ts_ID task, to_ExecutionID = executionID, to_Status = (if on_Success obs then ''completed'' else ''failed''),
      to_Classification = (if on_Success obs then [] else (case on_Failure obs of Some c \<Rightarrow> c | None \<Rightarrow> [])),
      to_EvidenceID = (if on_Success obs then on_ID obs else []), to_DurationNanos = tn_duration tn, to_Success = on_Success obs,
      to_Untrusted = on_Untrusted obs, to_Data = en_data (lp_en lp) (on_Data obs), to_Metadata = on_Metadata obs\<rparr>"

definition annotate :: "string \<Rightarrow> string \<Rightarrow> Action \<Rightarrow> PolicyOutcome \<Rightarrow> Observation \<Rightarrow> Observation" where
  "annotate actionID executionID a po obs =
     (let o1 = (if IsWriteTool (act_Tool a) then AnnotateWriteEvidence actionID executionID obs else obs)
      in if IsRecipeTool (act_Tool a) then AnnotateRecipeEvidence actionID executionID (decision_text (po_Decision po)) (po_Reason po) o1 else o1)"

definition emit_observation :: "Action \<Rightarrow> Observation \<Rightarrow> Session \<Rightarrow> Session" where
  "emit_observation a obs ss =
     (let status = (if on_Success obs then ''executed'' else (case on_Failure obs of Some c \<Rightarrow> c | None \<Rightarrow> ''failed''));
          xc = (case on_Data obs of ProcessData e \<Rightarrow> if IsRecipeTool (act_Tool a) then pv_ExitCode e else 0 | _ \<Rightarrow> 0)
      in emit ((trace_line TraceObservation (if on_Success obs then ''success'' else ''failed''))\<lparr>tl_EvidenceID := on_ID obs\<rparr>)
           (emit ((trace_line TraceAction status)\<lparr>tl_Tool := act_Tool a, tl_EvidenceID := on_ID obs, tl_ExitCode := xc\<rparr>) ss))"

text \<open>After the effect: the second transaction, the failure guard, and the observation for the model.\<close>

definition after_effect :: "Loop \<Rightarrow> Task \<Rightarrow> Turn \<Rightarrow> Action \<Rightarrow> string \<Rightarrow> Observation \<Rightarrow> Session \<Rightarrow> turn_end" where
  "after_effect lp task tn a executionID obs ss =
     (case db_call (CompleteToolAttempt (lp_cx lp) (ft_Complete (tn_faults tn)) (attempt_completed lp task tn executionID obs)) () ss of
        (Inl e, ss1) \<Rightarrow>
          stopped (stop lp task (ft_Stop (tn_faults tn)) OutcomePersistencePaused
            (''durable tool result could not be persisted after the effect; task remains resumable for recovery: '' @ en_error (lp_en lp) e) id ss1)
      | (Inr _, ss1) \<Rightarrow>
          let n = (if failureCountedForGuard a obs then rn_consecutiveFailures (ss_run ss1) + 1 else 0);
              ss2 = ss1\<lparr>ss_run := (ss_run ss1)\<lparr>rn_consecutiveFailures := n\<rparr>\<rparr>
          in if failureCountedForGuard a obs \<and> n > lm_MaxConsecutiveFailures (lp_limits lp)
             then stopped (stop lp task (ft_Stop (tn_faults tn)) OutcomeConsecutiveFailuresExhausted
                    (StopReason OutcomeConsecutiveFailuresExhausted @ '': '' @ int_dec n @ '' consecutive failing observation(s)'') id ss2)
             else (None, say roleObservation (en_observation (lp_en lp) obs)
                    (ss2\<lparr>ss_guard := guard_record (en_fingerprint (lp_en lp)) a (tn_signature tn) (ss_guard ss2),
                         ss_evidence := EvidenceSet_Add obs (ss_evidence ss2)\<rparr>)))"

text \<open>The first transaction, then the effect.\<close>

definition execute_action :: "Loop \<Rightarrow> Task \<Rightarrow> Turn \<Rightarrow> Action \<Rightarrow> string \<Rightarrow> PolicyOutcome \<Rightarrow> Session \<Rightarrow> turn_end" where
  "execute_action lp task tn a actionID po ss =
     (case db_call (PrepareToolAttempt (lp_cx lp) (ft_Prepare (tn_faults tn)) (attempt_prepared lp task tn actionID a po)) [] ss of
        (Inl e, ss1) \<Rightarrow> persistence_stop lp task tn e ss1
      | (Inr executionID, ss1) \<Rightarrow>
          let obs = annotate actionID executionID a po (tn_execute tn a);
              ss2 = ss1\<lparr>ss_deeds := ss_deeds ss1 @ [ToolExecuted a po executionID (ss_store ss1)]\<rparr>
          in after_effect lp task tn a executionID obs (emit_observation a obs ss2))"

definition guarded_action :: "Loop \<Rightarrow> Task \<Rightarrow> Turn \<Rightarrow> Action \<Rightarrow> string \<Rightarrow> PolicyOutcome \<Rightarrow> Session \<Rightarrow> turn_end" where
  "guarded_action lp task tn a actionID po ss =
     (if guard_repeat (en_fingerprint (lp_en lp)) a (tn_signature tn) (ss_guard ss)
      then (let n = rn_repeated (ss_run ss) + 1;
                ss1 = ss\<lparr>ss_run := (ss_run ss)\<lparr>rn_repeated := n\<rparr>\<rparr>
            in case db_call (RejectAction (lp_cx lp) (ft_Reject (tn_faults tn)) (ts_ID task) actionID ''repeated_action'') () ss1 of
                 (Inl e, ss2) \<Rightarrow> persistence_stop lp task tn e ss2
               | (Inr _, ss2) \<Rightarrow>
                   if n > lm_MaxRepeatedActions (lp_limits lp)
                   then stopped (stop lp task (ft_Stop (tn_faults tn)) OutcomeRepeatedAction (StopReason OutcomeRepeatedAction) id ss2)
                   else correct lp task tn RepeatedAction (lm_MaxRepeatedActions (lp_limits lp) - n) ss2)
      else execute_action lp task tn a actionID po ss)"

definition handleAction :: "Loop \<Rightarrow> Task \<Rightarrow> Turn \<Rightarrow> Action \<Rightarrow> Session \<Rightarrow> turn_end" where
  "handleAction lp task tn a ss =
     (case db_call (RecordAction (lp_cx lp) (ft_RecordAction (tn_faults tn)) (action_record lp task tn a)) [] ss of
        (Inl e, ss1) \<Rightarrow> persistence_stop lp task tn e ss1
      | (Inr actionID, ss1) \<Rightarrow>
          if \<not> IsPolicyGated (act_Tool a) then guarded_action lp task tn a actionID no_outcome ss1
          else (case evaluatePolicy lp task tn actionID a ss1 of
              (Inl e, ss2) \<Rightarrow> persistence_stop lp task tn e ss2
            | (Inr po, ss2) \<Rightarrow>
                let line = (trace_line TraceAction (decision_text (po_Decision po)))\<lparr>tl_Tool := act_Tool a, tl_Classification := po_Reason po\<rparr>
                in (case po_Decision po of
                      Denied \<Rightarrow>
                        (case db_call (RejectAction (lp_cx lp) (ft_Reject (tn_faults tn)) (ts_ID task) actionID (po_Reason po)) () ss2 of
                           (Inl e, ss3) \<Rightarrow> persistence_stop lp task tn e ss3
                         | (Inr _, ss3) \<Rightarrow> policyCorrection lp task tn (act_Tool a) po (emit line ss3))
                    | ApprovalRequired \<Rightarrow>
                        stopped (stop lp task (ft_Stop (tn_faults tn)) OutcomeApprovalRequired (StopReason OutcomeApprovalRequired)
                          (\<lambda>r. r\<lparr>lr_PendingActionID := actionID\<rparr>) (emit line ss2))
                    | Allowed \<Rightarrow> guarded_action lp task tn a actionID po ss2)))"

section \<open>Completion\<close>

definition unit_view :: "Task \<Rightarrow> RecoveryToolAttempt list \<Rightarrow> RecoveryToolAttempt list" where
  "unit_view task attempts =
     (if ts_WorkUnitID task \<noteq> [] then filter (\<lambda>a. rt_WorkUnitID a = ts_WorkUnitID task) attempts else attempts)"

definition pending_of :: "string option \<Rightarrow> string \<Rightarrow> Store \<Rightarrow> store_error + (string \<times> string \<times> string) list" where
  "pending_of fault task s = (case fault of Some e \<Rightarrow> Inl (StoreFault e) | None \<Rightarrow> Inr (PendingApprovals task s))"

definition empty_input :: "Task \<Rightarrow> FinalResponse \<Rightarrow> VerifyInput" where
  "empty_input task f =
     \<lparr>vi_TaskID = ts_ID task, vi_FinalEvidence = map (\<lambda>c. \<lparr>cl_EvidenceID = ci_EvidenceID c, cl_Tool = ci_Tool c\<rparr>) (fi_Evidence f),
      vi_Actions = [], vi_ToolAttempts = [], vi_Evidence = [], vi_PendingApprovals = [], vi_BaselineGitStatus = [], vi_BaselineGitDiff = [],
      vi_BaselineGitStatusTruncated = False, vi_BaselineGitDiffTruncated = False, vi_Now = []\<rparr>"

definition verify_input :: "Loop \<Rightarrow> Task \<Rightarrow> Turn \<Rightarrow> FinalResponse \<Rightarrow> Session \<Rightarrow> VerifyInput" where
  "verify_input lp task tn f ss =
     (case ss_store ss of
        None \<Rightarrow> (empty_input task f)\<lparr>vi_Evidence := map (\<lambda>(i, obs). \<lparr>re_EvidenceID = on_ID obs, re_ExecutionID = [], re_Tool = on_Tool obs,
            re_ArgumentsJSON = [], re_DataJSON = en_data (lp_en lp) (on_Data obs), re_MetadataJSON = []\<rparr>) (ss_evidence ss)\<rparr>
      | Some s \<Rightarrow>
          (case LoadRecoverySnapshot (lp_cx lp) (ft_Snapshot (tn_faults tn)) (ts_ID task) s of
             Inl e \<Rightarrow> empty_input task f
           | Inr sn \<Rightarrow> (empty_input task f)\<lparr>vi_Actions := sn_Actions sn, vi_Evidence := sn_Evidence sn,
               vi_BaselineGitStatus := sn_BaselineGitStatus sn, vi_BaselineGitDiff := sn_BaselineGitDiff sn,
               vi_BaselineGitStatusTruncated := sn_BaselineGitStatusTruncated sn, vi_BaselineGitDiffTruncated := sn_BaselineGitDiffTruncated sn,
               vi_ToolAttempts := unit_view task (sn_ToolAttempts sn),
               vi_PendingApprovals := (case pending_of (ft_PendingInput (tn_faults tn)) (ts_ID task) s of Inl e \<Rightarrow> [] | Inr ps \<Rightarrow> map fst ps)\<rparr>))"

fun check_status_text :: "CheckStatus \<Rightarrow> string" where
  "check_status_text CheckPassed = ''passed''"
| "check_status_text CheckFailed = ''failed''"
| "check_status_text CheckBlocked = ''blocked''"
| "check_status_text CheckUncertain = ''uncertain''"
| "check_status_text CheckNone = []"

fun verify_decision_text :: "VerifyDecision \<Rightarrow> string" where
  "verify_decision_text DecisionPassed = ''passed''"
| "verify_decision_text DecisionFailed = ''failed''"
| "verify_decision_text DecisionBlocked = ''blocked''"
| "verify_decision_text DecisionUncertain = ''uncertain''"

definition verification_record :: "Loop \<Rightarrow> Task \<Rightarrow> Report \<Rightarrow> VerificationAttemptRecord" where
  "verification_record lp task r =
     \<lparr>va_TaskID = ts_ID task, va_WorkUnitID = ts_WorkUnitID task, va_Decision = verify_decision_text (rv_Decision r), va_Summary = rv_Summary r,
      va_ReportJSON = en_report (lp_en lp) r,
      va_Checks = map (\<lambda>c. \<lparr>vc_CheckID = cr_ID c, vc_Type = cr_Type c, vc_Status = check_status_text (cr_Status c), vc_Expected = cr_Expected c,
         vc_Observed = cr_Observed c, vc_Evidence = cr_EvidenceIDs c, vc_Reason = cr_Reason c\<rparr>) (rv_Checks r)\<rparr>"

definition unpersisted_report :: "Loop \<Rightarrow> Task \<Rightarrow> store_error \<Rightarrow> Report" where
  "unpersisted_report lp task e =
     \<lparr>rv_TaskID = ts_ID task, rv_AttemptID = [], rv_Decision = DecisionBlocked, rv_Summary = ''verification could not be persisted'',
      rv_Checks = [structural ''verification_persisted'' CheckBlocked [] [] (en_error (lp_en lp) e)], rv_CitedEvidence = [],
      rv_UncertainAttempts = [], rv_PendingApprovals = [], rv_TruncatedEvidence = [], rv_Git = None, rv_WriteReconciliation = [],
      rv_Limitations = [], rv_CreatedAt = []\<rparr>"

definition verifyCompletion :: "Loop \<Rightarrow> Task \<Rightarrow> Turn \<Rightarrow> FinalResponse \<Rightarrow> Session \<Rightarrow> Report \<times> Session" where
  "verifyCompletion lp task tn f ss =
     (let report = Verify (tn_verifyNow tn) (Some (NewVerifier (Some (tn_observer tn)) (lp_plan lp))) (verify_input lp task tn f ss);
          ss0 = ss\<lparr>ss_deeds := ss_deeds ss @ [Verified report]\<rparr>
      in case db_call (SaveVerificationAttempt (lp_cx lp) (ft_SaveVerification (tn_faults tn)) (verification_record lp task report)) () ss0 of
           (Inl e, ss1) \<Rightarrow> (unpersisted_report lp task e, ss1)
         | (Inr _, ss1) \<Rightarrow> (report, ss1))"

definition missingCitedEvidence :: "Report \<Rightarrow> string list \<Rightarrow> string list" where
  "missingCitedEvidence r inRunMissing =
     (let missing = map ce_EvidenceID (filter (\<lambda>c. \<not> ce_Exists c) (rv_CitedEvidence r))
      in if missing = [] \<and> rv_CitedEvidence r = [] \<and> inRunMissing \<noteq> [] then inRunMissing else missing)"

definition citedEvidenceIDs :: "EvidenceCitation list \<Rightarrow> string list" where
  "citedEvidenceIDs cs = map ci_EvidenceID cs"

definition not_grounded_stop :: "Loop \<Rightarrow> Task \<Rightarrow> Turn \<Rightarrow> string list \<Rightarrow> Session \<Rightarrow> turn_end" where
  "not_grounded_stop lp task tn ids ss =
     stopped (stop lp task (ft_Stop (tn_faults tn)) OutcomeFinalNotGrounded (''final evidence not grounded: missing '' @ Join '','' ids)
       (\<lambda>r. r\<lparr>lr_Evidence := ids\<rparr>) ss)"

definition conclude :: "Loop \<Rightarrow> Task \<Rightarrow> Turn \<Rightarrow> FinalResponse \<Rightarrow> string list \<Rightarrow> Report \<Rightarrow> Session \<Rightarrow> turn_end" where
  "conclude lp task tn f missing report ss =
     (case rv_Decision report of
        DecisionPassed \<Rightarrow>
          stopped (stop lp task (ft_Stop (tn_faults tn)) OutcomeCompleted (''verification passed: '' @ rv_Summary report)
            (\<lambda>r. r\<lparr>lr_Summary := rv_Summary report, lr_Note := fi_Summary f, lr_Evidence := citedEvidenceIDs (fi_Evidence f),
                   lr_Classification := verify_decision_text (rv_Decision report)\<rparr>) ss)
      | DecisionFailed \<Rightarrow>
          let n = rn_verificationRetries (ss_run ss) + 1;
              ss1 = ss\<lparr>ss_run := (ss_run ss)\<lparr>rn_verificationRetries := n\<rparr>\<rparr>
          in if n > lm_MaxVerificationRetries (lp_limits lp)
             then (if missingCitedEvidence report missing \<noteq> []
                   then not_grounded_stop lp task tn (missingCitedEvidence report missing) ss1
                   else stopped (stop lp task (ft_Stop (tn_faults tn)) OutcomeVerificationFailuresExhausted
                          (StopReason OutcomeVerificationFailuresExhausted @ '': '' @ int_dec n @ '' consecutive failed verification attempt(s)'') id ss1))
             else (None, say roleVerification
                    (en_verification (lp_en lp) (verify_decision_text (rv_Decision report)) (rv_Summary report) (rv_Checks report)) ss1)
      | _ \<Rightarrow>
          if missingCitedEvidence report missing \<noteq> [] then not_grounded_stop lp task tn (missingCitedEvidence report missing) ss
          else stopped (stop lp task (ft_Stop (tn_faults tn)) OutcomeVerificationBlocked (rv_Summary report)
                 (\<lambda>r. r\<lparr>lr_Summary := fi_Summary f, lr_Evidence := citedEvidenceIDs (fi_Evidence f),
                        lr_Classification := verify_decision_text (rv_Decision report)\<rparr>) ss))"

definition handleFinal :: "Loop \<Rightarrow> Task \<Rightarrow> Turn \<Rightarrow> FinalResponse \<Rightarrow> Session \<Rightarrow> turn_end" where
  "handleFinal lp task tn f ss =
     (case Ground f (ss_evidence ss) of
        (grounded', missing) \<Rightarrow>
          if fi_Status f = StatusIncomplete \<and> \<not> grounded' then not_grounded_stop lp task tn missing ss
          else (case (case ss_store ss of None \<Rightarrow> Inr [] | Some s \<Rightarrow> pending_of (ft_Pending (tn_faults tn)) (ts_ID task) s) of
              Inl e \<Rightarrow> persistence_stop lp task tn e ss
            | Inr (p # _) \<Rightarrow>
                stopped (stop lp task (ft_Stop (tn_faults tn)) OutcomeApprovalRequired (StopReason OutcomeApprovalRequired)
                  (\<lambda>r. r\<lparr>lr_PendingActionID := fst p\<rparr>)
                  (emit ((trace_line TraceAction ''approval_required'')\<lparr>tl_Tool := fst (snd p), tl_Classification := ''approval_required''\<rparr>) ss))
            | Inr [] \<Rightarrow>
                if fi_Status f = StatusIncomplete
                then stopped (stop lp task (ft_Stop (tn_faults tn)) OutcomeFinalIncomplete (StopReason OutcomeFinalIncomplete)
                       (\<lambda>r. r\<lparr>lr_Summary := fi_Summary f, lr_Evidence := citedEvidenceIDs (fi_Evidence f)\<rparr>) ss)
                else (case verifyCompletion lp task tn f ss of
                    (report, ss1) \<Rightarrow>
                      conclude lp task tn f missing report
                        (emit ((trace_line TraceVerification (verify_decision_text (rv_Decision report)))\<lparr>tl_Classification := rv_Summary report\<rparr>) ss1))))"

section \<open>Model turns\<close>

definition classifyAdmission :: "Loop \<Rightarrow> Task \<Rightarrow> Turn \<Rightarrow> AdmissionResult \<Rightarrow> Session \<Rightarrow> turn_end" where
  "classifyAdmission lp task tn ad ss =
     (let st = (\<lambda>oc reason extra. stopped (stop lp task (ft_Stop (tn_faults tn)) oc reason extra ss));
          code_text = en_admission (lp_en lp) (ad_Code ad)
      in if ad_Code ad = AdmissionContextCancelled
         then st OutcomeCanceled (case ad_Err ad of None \<Rightarrow> StopReason OutcomeCanceled | Some e \<Rightarrow> outcomeReasonCanceled (en_call (lp_en lp) (ExAdmission e))) id
         else if ad_Code ad = AdmissionTaskDeadlineExceeded
         then (if tn_pressure tn then st OutcomeAccountDelayTimeout (StopReason OutcomeAccountDelayTimeout) id
               else st OutcomeTimeBudgetExhausted (StopReason OutcomeTimeBudgetExhausted) id)
         else if ad_Code ad \<in> {AdmissionTaskBudgetExhausted, AdmissionRollingBudgetExhausted, AdmissionUpstreamAllowanceExhausted, AdmissionRetryBudgetExhausted}
         then st OutcomeProviderBudgetExhausted (StopReason OutcomeProviderBudgetExhausted) id
         else if ad_Code ad \<in> {AdmissionCircuitOpen, AdmissionHumanAcknowledgementRequired, AdmissionAuthenticationRefreshRequired}
         then st OutcomeAccountCircuitOpen (StopReason OutcomeAccountCircuitOpen) id
         else if ad_Code ad \<in> {AdmissionDelayed, AdmissionCooldownActive}
         then st OutcomeAccountDelayTimeout (StopReason OutcomeAccountDelayTimeout) id
         else st OutcomeProviderFailure (''provider failure: '' @ code_text) (\<lambda>r. r\<lparr>lr_Classification := code_text\<rparr>))"

definition completion_class :: "ExecutionResult \<Rightarrow> OutcomeClass" where
  "completion_class ex = (case ex_Completion ex of None \<Rightarrow> OutcomeEmpty | Some c \<Rightarrow> fr_Outcome c)"

definition providerFailureReason :: "Loop \<Rightarrow> OutcomeClass \<Rightarrow> execute_error \<Rightarrow> string" where
  "providerFailureReason lp c e =
     ''provider failure: '' @ (if c \<noteq> OutcomeEmpty then en_outcome (lp_en lp) c else en_call (lp_en lp) e)"

definition attempt_failed :: "Loop \<Rightarrow> Task \<Rightarrow> Turn \<Rightarrow> time \<Rightarrow> ExecutionResult \<Rightarrow> execute_error \<Rightarrow> Session \<Rightarrow> turn_end" where
  "attempt_failed lp task tn deadline ex e ss =
     (let c = completion_class ex;
          classed = (\<lambda>r. r\<lparr>lr_Classification := en_outcome (lp_en lp) c\<rparr>);
          reasoned = (\<lambda>r. r\<lparr>lr_Classification := en_outcome (lp_en lp) c, lr_StopReason := providerFailureReason lp c e\<rparr>);
          st = (\<lambda>oc reason extra. stopped (stop lp task (ft_Stop (tn_faults tn)) oc reason extra ss))
      in case e of
           ExOutcomePersist _ \<Rightarrow>
             st OutcomePersistencePaused
               (''durable provider outcome could not be persisted; task remains resumable for recovery: '' @ en_call (lp_en lp) e) classed
         | _ \<Rightarrow>
             if tn_ctx_after tn = Some CtxCanceled then st OutcomeCanceled (outcomeReasonCanceled ''context canceled'') reasoned
             else if deadlineReached (tn_now_after tn) deadline then st OutcomeTimeBudgetExhausted (StopReason OutcomeTimeBudgetExhausted) reasoned
             else st OutcomeProviderFailure (StopReason OutcomeProviderFailure) reasoned)"

definition pad4 :: "string \<Rightarrow> string" where
  "pad4 s = replicate (4 - length s) (CHR ''0'') @ s"

definition attempt_request :: "Loop \<Rightarrow> Task \<Rightarrow> Session \<Rightarrow> AttemptRequest" where
  "attempt_request lp task ss =
     (let n = pad4 (int_dec (rn_turns (ss_run ss)));
          rid = (if ts_WorkUnitID task \<noteq> [] then ts_ID task @ ''-'' @ ts_WorkUnitID task @ ''-'' @ n else ts_ID task @ ''-'' @ n)
      in \<lparr>rq_TaskID = ts_ID task, rq_WorkUnitID = ts_WorkUnitID task, rq_ClientRequestID = rid, rq_ModelPool = [], rq_Retry = False,
          rq_ProviderRequest = \<lparr>pr_Protocol = CurrentVersion, pr_Prompt = transcript_render (ss_transcript ss), pr_Model = lp_model lp,
            pr_ClientRequestID = []\<rparr>\<rparr>)"

definition respond :: "Loop \<Rightarrow> Task \<Rightarrow> Turn \<Rightarrow> string \<Rightarrow> Session \<Rightarrow> turn_end" where
  "respond lp task tn text ss =
     (let ss1 = say roleAssistant text ss;
          p = Parse (lp_refusal lp) (lp_claim lp) (Some (lp_catalog lp)) text;
          ss2 = (if ps_MixedProse p
                 then emit (trace_line TraceDeviation ''mixed_prose'') (ss1\<lparr>ss_run := (ss_run ss1)\<lparr>rn_mixedProse := rn_mixedProse (ss_run ss1) + 1\<rparr>\<rparr>)
                 else ss1)
      in case ps_Failure p of
           Some f \<Rightarrow> handleParseFailure lp task tn f ss2
         | None \<Rightarrow>
             (case (ps_Kind p, ps_Action p, ps_Final p) of
                (KindAction, Some a, _) \<Rightarrow> handleAction lp task tn a ss2
              | (KindFinal, _, Some f) \<Rightarrow> handleFinal lp task tn f ss2
              | _ \<Rightarrow> stopped (stop lp task (ft_Stop (tn_faults tn)) OutcomeProviderFailure ''provider failure: unrecognized envelope kind'' id ss2)))"

definition modelTurn :: "Loop \<Rightarrow> Task \<Rightarrow> time \<Rightarrow> Turn \<Rightarrow> Session \<Rightarrow> turn_end" where
  "modelTurn lp task deadline tn ss =
     (let ss1 = ss\<lparr>ss_run := (ss_run ss)\<lparr>rn_turns := rn_turns (ss_run ss) + 1, rn_attempts := rn_attempts (ss_run ss) + 1\<rparr>\<rparr>;
          rq = attempt_request lp task ss1
      in case tn_runner tn rq (ss_store ss1) of
           (ex, store) \<Rightarrow>
             let ss2 = emit ((trace_line TraceAttempt (if ad_Code (ex_Admission ex) = AdmissionAdmitted then ''admitted''
                           else en_admission (lp_en lp) (ad_Code (ex_Admission ex))))\<lparr>tl_Classification := en_outcome (lp_en lp) (completion_class ex)\<rparr>)
                         (ss1\<lparr>ss_store := store, ss_deeds := ss_deeds ss1 @ [ModelAttempt rq]\<rparr>)
             in if ad_Code (ex_Admission ex) \<noteq> AdmissionAdmitted then classifyAdmission lp task tn (ex_Admission ex) ss2
                else (case ex_Err ex of
                    Some e \<Rightarrow> attempt_failed lp task tn deadline ex e ss2
                  | None \<Rightarrow>
                      let text = (case ex_Response ex of None \<Rightarrow> [] | Some r \<Rightarrow> rsp_Text r)
                      in if is_blank text
                         then stopped (stop lp task (ft_Stop (tn_faults tn)) OutcomeProviderFailure ''provider failure: empty_response''
                                (\<lambda>r. r\<lparr>lr_Classification := ''empty_response''\<rparr>) ss2)
                         else respond lp task tn text ss2))"

text \<open>The checks at the head of the loop.\<close>

definition loop_head_stop :: "Loop \<Rightarrow> Task \<Rightarrow> time \<Rightarrow> Turn \<Rightarrow> Session \<Rightarrow> (LoopResult \<times> Session) option" where
  "loop_head_stop lp task deadline tn ss =
     (let st = (\<lambda>oc reason. Some (stop lp task (ft_Stop (tn_faults tn)) oc reason id ss))
      in case tn_ctx tn of
           Some CtxCanceled \<Rightarrow> st OutcomeCanceled (outcomeReasonCanceled ''context canceled'')
         | Some CtxDeadline \<Rightarrow> st OutcomeTimeBudgetExhausted (StopReason OutcomeTimeBudgetExhausted)
         | None \<Rightarrow>
             if deadlineReached (tn_now tn) deadline then st OutcomeTimeBudgetExhausted (StopReason OutcomeTimeBudgetExhausted)
             else if rn_turns (ss_run ss) \<ge> lm_MaxSteps (lp_limits lp) then st OutcomeStepsExhausted (StopReason OutcomeStepsExhausted)
             else if rn_attempts (ss_run ss) \<ge> lm_ProviderBudget (lp_limits lp) then st OutcomeProviderBudgetExhausted (StopReason OutcomeProviderBudgetExhausted)
             else None)"

end
