(* ===== verification/Agent_Turn.thy ===== *)
theory Agent_Turn
  imports Agent_Loop Store_Theorems
begin

text \<open>
  One turn of the loop, step by step: what it does to the counters, to the store and to the outside, and what the
  result it stops with says about the durable task.
\<close>

section \<open>Calm parts of a turn\<close>

text \<open>A deed is safe: a tool that the policy gates ran because the policy allowed it, and, when there is a
  store, after its prepared attempt was there.\<close>

fun safe_deed :: "Loop \<Rightarrow> Task \<Rightarrow> deed \<Rightarrow> bool" where
  "safe_deed lp task (ToolExecuted a po ex store) \<longleftrightarrow>
     (IsPolicyGated (act_Tool a) \<longrightarrow> po_Decision po = Allowed \<and> (\<exists>tn aid s. po = policy_outcome lp tn (policy_request lp task aid a) s)) \<and>
     (case store of None \<Rightarrow> True
      | Some s \<Rightarrow> \<exists>t \<in> set (db_tool_attempts s). ta_execution_id t = ex \<and> ta_task_id t = ts_ID task \<and> ta_status t = ''prepared'')"
| "safe_deed lp task d \<longleftrightarrow> True"

fun is_attempt :: "deed \<Rightarrow> bool" where
  "is_attempt (ModelAttempt rq) \<longleftrightarrow> True"
| "is_attempt d \<longleftrightarrow> False"

definition store_path :: "Codec \<Rightarrow> Store option \<Rightarrow> Store option \<Rightarrow> bool" where
  "store_path cx a b \<longleftrightarrow> rel_option (\<lambda>s s'. (store_step cx)\<^sup>*\<^sup>* s s') a b"

lemma store_path_refl [simp]: "store_path cx s s"
  by (cases s) (simp_all add: store_path_def)

lemma store_path_trans: "store_path cx a b \<Longrightarrow> store_path cx b c \<Longrightarrow> store_path cx a c"
  by (cases a; cases b; cases c) (auto simp: store_path_def)

text \<open>What happened between two sessions: the deeds, with the counters of turns and attempts, and the store.\<close>

definition counted :: "Loop \<Rightarrow> Task \<Rightarrow> Session \<Rightarrow> Session \<Rightarrow> bool" where
  "counted lp task ss ss' \<longleftrightarrow>
     (\<exists>ds. ss_deeds ss' = ss_deeds ss @ ds \<and> list_all (safe_deed lp task) ds
        \<and> rn_turns (ss_run ss') = rn_turns (ss_run ss) + int (length (filter is_attempt ds))
        \<and> rn_attempts (ss_run ss') = rn_attempts (ss_run ss) + int (length (filter is_attempt ds)))"

definition progress :: "Loop \<Rightarrow> Task \<Rightarrow> Session \<Rightarrow> Session \<Rightarrow> bool" where
  "progress lp task ss ss' \<longleftrightarrow> store_path (lp_cx lp) (ss_store ss) (ss_store ss') \<and> counted lp task ss ss'"

lemma counted_refl [simp]: "counted lp task ss ss"
  by (simp add: counted_def)

lemma counted_trans:
  assumes "counted lp task a b" "counted lp task b c"
  shows "counted lp task a c"
proof -
  obtain ds es where "ss_deeds b = ss_deeds a @ ds" "list_all (safe_deed lp task) ds"
      "rn_turns (ss_run b) = rn_turns (ss_run a) + int (length (filter is_attempt ds))"
      "rn_attempts (ss_run b) = rn_attempts (ss_run a) + int (length (filter is_attempt ds))"
    and "ss_deeds c = ss_deeds b @ es" "list_all (safe_deed lp task) es"
      "rn_turns (ss_run c) = rn_turns (ss_run b) + int (length (filter is_attempt es))"
      "rn_attempts (ss_run c) = rn_attempts (ss_run b) + int (length (filter is_attempt es))"
    using assms by (auto simp: counted_def)
  then have "ss_deeds c = ss_deeds a @ (ds @ es) \<and> list_all (safe_deed lp task) (ds @ es)
      \<and> rn_turns (ss_run c) = rn_turns (ss_run a) + int (length (filter is_attempt (ds @ es)))
      \<and> rn_attempts (ss_run c) = rn_attempts (ss_run a) + int (length (filter is_attempt (ds @ es)))" by simp
  then show ?thesis unfolding counted_def by blast
qed

lemma progress_refl [simp]: "progress lp task ss ss"
  by (simp add: progress_def)

lemma progress_trans: "progress lp task a b \<Longrightarrow> progress lp task b c \<Longrightarrow> progress lp task a c"
  unfolding progress_def using store_path_trans counted_trans by blast

text \<open>The counters a turn may move: only a stop leaves one above its limit, by one.\<close>

definition within :: "Limits \<Rightarrow> int \<Rightarrow> runState \<Rightarrow> runState \<Rightarrow> bool" where
  "within l b r r' \<longleftrightarrow>
     rn_corrections r' \<le> max (rn_corrections r) (lm_MaxCorrections l)
     \<and> rn_repeated r' \<le> max (rn_repeated r) (lm_MaxRepeatedActions l) + b
     \<and> rn_consecutiveFailures r' \<le> max 0 (max (rn_consecutiveFailures r) (lm_MaxConsecutiveFailures l)) + b
     \<and> rn_verificationRetries r' \<le> max (rn_verificationRetries r) (lm_MaxVerificationRetries l) + b"

definition counters_in :: "Limits \<Rightarrow> int \<Rightarrow> runState \<Rightarrow> runState \<Rightarrow> bool" where
  "counters_in l b r r' \<longleftrightarrow> within l b r r' \<and> rn_turns r' = rn_turns r"

definition same_counters :: "runState \<Rightarrow> runState \<Rightarrow> bool" where
  "same_counters r r' \<longleftrightarrow> rn_turns r' = rn_turns r \<and> rn_corrections r' = rn_corrections r \<and> rn_repeated r' = rn_repeated r
     \<and> rn_consecutiveFailures r' = rn_consecutiveFailures r \<and> rn_verificationRetries r' = rn_verificationRetries r"

definition calm :: "Loop \<Rightarrow> Task \<Rightarrow> Session \<Rightarrow> Session \<Rightarrow> bool" where
  "calm lp task ss ss' \<longleftrightarrow> progress lp task ss ss' \<and> same_counters (ss_run ss) (ss_run ss')"

lemma calm_refl [simp]: "calm lp task ss ss"
  by (simp add: calm_def same_counters_def)

lemma calm_trans: "calm lp task a b \<Longrightarrow> calm lp task b c \<Longrightarrow> calm lp task a c"
  using progress_trans by (fastforce simp: calm_def same_counters_def)

lemma emit_frame [simp]:
  "ss_store (emit x ss) = ss_store ss" "ss_deeds (emit x ss) = ss_deeds ss" "ss_evidence (emit x ss) = ss_evidence ss"
  "ss_guard (emit x ss) = ss_guard ss" "ss_transcript (emit x ss) = ss_transcript ss"
  "rn_turns (ss_run (emit x ss)) = rn_turns (ss_run ss)" "rn_attempts (ss_run (emit x ss)) = rn_attempts (ss_run ss)"
  "rn_corrections (ss_run (emit x ss)) = rn_corrections (ss_run ss)" "rn_repeated (ss_run (emit x ss)) = rn_repeated (ss_run ss)"
  "rn_consecutiveFailures (ss_run (emit x ss)) = rn_consecutiveFailures (ss_run ss)"
  "rn_verificationRetries (ss_run (emit x ss)) = rn_verificationRetries (ss_run ss)"
  by (simp_all add: emit_def Let_def)

lemma say_frame [simp]:
  "ss_store (say r c ss) = ss_store ss" "ss_deeds (say r c ss) = ss_deeds ss" "ss_run (say r c ss) = ss_run ss"
  "ss_evidence (say r c ss) = ss_evidence ss" "ss_guard (say r c ss) = ss_guard ss"
  by (simp_all add: say_def)

text \<open>A session that keeps deeds, store and counters is calm.\<close>

lemma calmI:
  assumes "ss_deeds ss' = ss_deeds ss" "ss_store ss' = ss_store ss" "rn_turns (ss_run ss') = rn_turns (ss_run ss)"
    "rn_attempts (ss_run ss') = rn_attempts (ss_run ss)" "same_counters (ss_run ss) (ss_run ss')"
  shows "calm lp task ss ss'"
  using assms by (simp add: calm_def progress_def counted_def)

lemma calm_emit [simp]: "calm lp task ss (emit x ss)"
  by (rule calmI) (simp_all add: same_counters_def)

lemma db_call_cases:
  assumes "db_call f n ss = (r, ss')"
  obtains (none) "ss_store ss = None" "r = Inr n" "ss' = ss"
  | (some) s s' where "ss_store ss = Some s" "f s = (r, s')" "ss' = ss\<lparr>ss_store := Some s'\<rparr>"
  using assms by (auto simp: db_call_def split: option.splits prod.splits)

lemma db_call_calm:
  assumes "db_call f n ss = (r, ss')" "\<And>s q s'. f s = (q, s') \<Longrightarrow> (store_step (lp_cx lp))\<^sup>*\<^sup>* s s'"
  shows "calm lp task ss ss'"
  using assms(1)
proof (cases rule: db_call_cases)
  case (some s s')
  then show ?thesis using assms(2) [OF some(2)] by (simp add: calm_def progress_def counted_def same_counters_def store_path_def)
qed simp

lemma db_call_step:
  assumes "db_call f n ss = (r, ss')" "\<And>s q s'. f s = (q, s') \<Longrightarrow> store_step (lp_cx lp) s s'"
  shows "calm lp task ss ss'"
  using assms(1) by (rule db_call_calm) (use assms(2) in blast)

section \<open>Stopping\<close>

text \<open>What a result says about the durable task: a pause leaves it running, any other outcome finalized it with
  the status of the outcome; a failure of the store says nothing.\<close>

definition durable_status :: "RunOutcome \<Rightarrow> string" where
  "durable_status oc =
     (if oc \<in> {OutcomeApprovalRequired, OutcomeVerificationBlocked, OutcomePersistencePaused} then ''running''
      else terminalStatus (outcome_text oc))"

definition settled_result :: "Task \<Rightarrow> LoopResult \<Rightarrow> Session \<Rightarrow> bool" where
  "settled_result task r ss \<longleftrightarrow>
     (lr_Outcome r = OutcomeCompleted \<longrightarrow> (\<exists>rep. last (ss_deeds ss) = Verified rep \<and> ss_deeds ss \<noteq> [] \<and> rv_Decision rep = DecisionPassed))
     \<and> lr_Turns r = rn_turns (ss_run ss) \<and> lr_Corrections r = rn_corrections (ss_run ss) \<and> lr_Repeated r = rn_repeated (ss_run ss)
     \<and> (case ss_store ss of None \<Rightarrow> True
        | Some s \<Rightarrow> store_inv s \<longrightarrow> \<not> ts_SkipTaskFinalize task \<longrightarrow> lr_Outcome r \<noteq> OutcomePersistenceFailure \<longrightarrow>
            TaskStatus (ts_ID task) s = Some (durable_status (lr_Outcome r)))"

lemma stop_store_steps: "stop_store lp task fault oc r s = (q, s') \<Longrightarrow> (store_step (lp_cx lp))\<^sup>*\<^sup>* s s'"
  by (auto simp: stop_store_def split: if_splits
      intro: approval_pause verification_pause persistence_pause finalize_task)

text \<open>In a store with unique task ids, an update that affects a row of the task sets the status of the task.\<close>

lemma find_unique: "distinct (map f xs) \<Longrightarrow> x \<in> set xs \<Longrightarrow> find (\<lambda>y. f y = f x) xs = Some x"
  by (induction xs) (auto simp: image_iff)

lemma unique_task: "store_inv s \<Longrightarrow> t \<in> set (db_tasks s) \<Longrightarrow> TaskStatus (tk_task_id t) s = Some (tk_status t)"
  using find_unique [of tk_task_id "db_tasks s" t] by (simp add: store_inv_def projected_def TaskStatus_def)

lemma update_sets_status:
  assumes "transaction fault s (if affected P (db_tasks s) = 0 then Inl err
       else journal cx k kind payload x (s\<lparr>db_tasks := update_where P f (db_tasks s)\<rparr>)) = (Inr y, s')"
    and "\<And>t. P t \<Longrightarrow> tk_task_id (f t) = task \<and> tk_status (f t) = v" "store_inv s'"
  shows "TaskStatus task s' = Some v"
proof -
  have a: "affected P (db_tasks s) \<noteq> 0" and d: "db_tasks s' = update_where P f (db_tasks s)"
    using assms(1) by (auto simp: transaction_def journal_def split: option.splits if_splits)
  obtain q where q: "q \<in> set (db_tasks s)" "P q" using a by (auto simp: affected_zero)
  then have "f q \<in> set (db_tasks s')" unfolding d in_update_where by force
  then show ?thesis using unique_task [OF assms(3)] assms(2) [OF q(2)] by metis
qed

lemma FinalizeTask_sets_status:
  assumes "FinalizeTask cx fault f s = (Inr y, s')" "store_inv s'"
  shows "TaskStatus (tf_TaskID f) s' = Some (terminalStatus (tf_Outcome f))"
proof (cases "if terminalStatus (tf_Outcome f) = ''completed'' then completion_gate (tf_TaskID f) s else None")
  case None
  show ?thesis
    by (rule update_sets_status [OF assms(1) [unfolded FinalizeTask_def Let_def None option.case] _ assms(2)]) simp
next
  case (Some e)
  then show ?thesis using assms by (auto simp: FinalizeTask_def Let_def transaction_def split: option.splits)
qed

lemma stop_store_status:
  assumes "stop_store lp task fault oc r s = (Inr y, s')" "store_inv s'" "\<not> ts_SkipTaskFinalize task" "lr_Outcome r = oc"
  shows "TaskStatus (ts_ID task) s' = Some (durable_status oc)"
proof (cases "oc \<in> {OutcomeApprovalRequired, OutcomeVerificationBlocked, OutcomePersistencePaused}")
  case True
  then consider "oc = OutcomeApprovalRequired" "MarkTaskApprovalRequired (lp_cx lp) fault (ts_ID task) (lr_PendingActionID r) (lr_StopReason r) s = (Inr y, s')"
    | "oc = OutcomeVerificationBlocked" "MarkTaskVerificationPaused (lp_cx lp) fault (ts_ID task) (lr_StopReason r) s = (Inr y, s')"
    | "oc = OutcomePersistencePaused" "MarkTaskPersistencePaused (lp_cx lp) fault (ts_ID task) (lr_StopReason r) s = (Inr y, s')"
    using assms(1) by (auto simp: stop_store_def)
  then have "TaskStatus (ts_ID task) s' = Some ''running''"
    unfolding MarkTaskApprovalRequired_def MarkTaskVerificationPaused_def MarkTaskPersistencePaused_def Let_def
    by cases (erule update_sets_status [OF _ _ assms(2)], auto simp: pausable_def)+
  then show ?thesis using True by (simp add: durable_status_def)
next
  case False
  then have f: "FinalizeTask (lp_cx lp) fault (finalize_record task r) s = (Inr y, s')"
    using assms(1,3) by (auto simp: stop_store_def)
  have "TaskStatus (tf_TaskID (finalize_record task r)) s' = Some (terminalStatus (tf_Outcome (finalize_record task r)))"
    using FinalizeTask_sets_status [OF f assms(2)] .
  then show ?thesis using False assms(4) by (simp add: durable_status_def finalize_record_def)
qed

text \<open>A stop with an outcome other than completion, or after a passed verification.\<close>

definition keeps_outcome :: "(LoopResult \<Rightarrow> LoopResult) \<Rightarrow> bool" where
  "keeps_outcome extra \<longleftrightarrow> (\<forall>r. lr_Outcome (extra r) = lr_Outcome r \<and> lr_Turns (extra r) = lr_Turns r
     \<and> lr_Corrections (extra r) = lr_Corrections r \<and> lr_Repeated (extra r) = lr_Repeated r)"

lemma keeps_id [simp]: "keeps_outcome id"
  by (simp add: keeps_outcome_def)

lemma stop_ok:
  assumes "stop lp task fault oc reason extra ss = (r, ss')" "keeps_outcome extra"
    and "oc = OutcomeCompleted \<Longrightarrow> \<exists>rep. ss_deeds ss \<noteq> [] \<and> last (ss_deeds ss) = Verified rep \<and> rv_Decision rep = DecisionPassed"
  shows "calm lp task ss ss' \<and> settled_result task r ss'"
proof -
  let ?r = "extra (base_result oc reason ss)"
  obtain res ss1 where c: "db_call (stop_store lp task fault oc ?r) () ss = (res, ss1)" by fastforce
  have q: "calm lp task ss ss1" using c by (rule db_call_calm) (rule stop_store_steps)
  have fr: "ss_deeds ss1 = ss_deeds ss" "ss_run ss1 = ss_run ss" using c by (auto elim: db_call_cases)
  have o: "lr_Outcome ?r = oc" "lr_Turns ?r = rn_turns (ss_run ss)" "lr_Corrections ?r = rn_corrections (ss_run ss)" "lr_Repeated ?r = rn_repeated (ss_run ss)"
    using assms(2) by (simp_all add: keeps_outcome_def base_result_def Let_def)
  define r' where "r' = (case res of Inr _ \<Rightarrow> ?r | Inl e \<Rightarrow> ?r\<lparr>lr_Outcome := OutcomePersistenceFailure, lr_StopReason := persist_reason lp e\<rparr>)"
  have rs: "r = r'" "ss' = emit ((trace_line TraceStop (outcome_text (lr_Outcome r')))\<lparr>tl_StopReason := lr_StopReason r'\<rparr>) ss1"
    using assms(1) c unfolding stop_def Let_def r'_def by auto
  have "settled_result task r ss'"
  proof (cases res)
    case (Inl e)
    then show ?thesis using rs fr o by (auto simp: settled_result_def r'_def split: option.splits)
  next
    case (Inr y)
    then have "case ss_store ss1 of None \<Rightarrow> True | Some s \<Rightarrow> store_inv s \<longrightarrow> \<not> ts_SkipTaskFinalize task \<longrightarrow> TaskStatus (ts_ID task) s = Some (durable_status oc)"
      using c stop_store_status [OF _ _ _ o(1)] by (auto elim!: db_call_cases)
    then show ?thesis using Inr rs fr o assms(3) by (auto simp: settled_result_def r'_def split: option.splits)
  qed
  then show ?thesis using q rs(2) calm_trans calm_emit by blast
qed

section \<open>The ends of a turn\<close>

definition calm_end :: "Loop \<Rightarrow> Task \<Rightarrow> Session \<Rightarrow> turn_end \<Rightarrow> bool" where
  "calm_end lp task ss x \<longleftrightarrow> calm lp task ss (snd x) \<and> (case fst x of None \<Rightarrow> True | Some r \<Rightarrow> settled_result task r (snd x))"

definition turn_ok :: "Loop \<Rightarrow> Task \<Rightarrow> Session \<Rightarrow> turn_end \<Rightarrow> bool" where
  "turn_ok lp task ss x \<longleftrightarrow> progress lp task ss (snd x)
     \<and> counters_in (lp_limits lp) (case fst x of None \<Rightarrow> 0 | Some _ \<Rightarrow> 1) (ss_run ss) (ss_run (snd x))
     \<and> (case fst x of None \<Rightarrow> True | Some r \<Rightarrow> settled_result task r (snd x))"

lemma bumped:
  assumes "calm_end lp task ss1 x" "progress lp task ss ss1"
    "counters_in (lp_limits lp) (case fst x of None \<Rightarrow> 0 | Some _ \<Rightarrow> 1) (ss_run ss) (ss_run ss1)"
  shows "turn_ok lp task ss x"
proof -
  have "progress lp task ss (snd x)" using assms(1,2) progress_trans unfolding calm_end_def calm_def by blast
  then show ?thesis using assms(1,3) by (simp add: turn_ok_def calm_end_def calm_def counters_in_def within_def same_counters_def)
qed

lemma calm_end_ok: "calm_end lp task ss x \<Longrightarrow> turn_ok lp task ss x"
  by (rule bumped) (auto simp: counters_in_def within_def split: option.splits)

lemma calm_then:
  assumes "calm lp task ss ss1" "turn_ok lp task ss1 x"
  shows "turn_ok lp task ss x"
proof -
  have "progress lp task ss (snd x)" using assms progress_trans unfolding calm_def turn_ok_def by blast
  then show ?thesis using assms by (simp add: turn_ok_def calm_def counters_in_def within_def same_counters_def)
qed

lemma calm_then_end: "calm lp task ss ss1 \<Longrightarrow> calm_end lp task ss1 x \<Longrightarrow> calm_end lp task ss x"
  using calm_trans by (auto simp: calm_end_def)

lemma going_on: "calm lp task ss ss' \<Longrightarrow> calm_end lp task ss (None, ss')"
  by (simp add: calm_end_def)

lemma stopped_end:
  assumes "keeps_outcome extra"
    and "oc = OutcomeCompleted \<Longrightarrow> \<exists>rep. ss_deeds ss \<noteq> [] \<and> last (ss_deeds ss) = Verified rep \<and> rv_Decision rep = DecisionPassed"
  shows "calm_end lp task ss (stopped (stop lp task fault oc reason extra ss))"
proof -
  obtain r ss' where "stop lp task fault oc reason extra ss = (r, ss')" by fastforce
  then show ?thesis using stop_ok [OF _ assms] by (simp add: calm_end_def stopped_def)
qed

lemma persistence_stop_end: "calm_end lp task ss (persistence_stop lp task tn e ss)"
  unfolding persistence_stop_def by (rule stopped_end) simp_all

lemma correct_end: "calm_end lp task ss (correct lp task tn fcode n ss)"
  unfolding correct_def
  by (auto split: option.splits intro!: stopped_end going_on calmI simp: same_counters_def)

text \<open>A session that differs in counters only.\<close>

lemma progress_run:
  assumes "rn_turns r = rn_turns (ss_run ss)" "rn_attempts r = rn_attempts (ss_run ss)"
  shows "progress lp task ss (ss\<lparr>ss_run := r\<rparr>)"
  using assms by (simp add: progress_def counted_def)

lemma handleParseFailure_ok: "turn_ok lp task ss (handleParseFailure lp task tn f ss)"
proof (cases "\<not> fl_CorrectionReasonable f \<or> rn_corrections (ss_run ss) \<ge> lm_MaxCorrections (lp_limits lp)")
  case True
  then show ?thesis unfolding handleParseFailure_def by (auto intro!: calm_end_ok stopped_end)
next
  case False
  let ?ss = "ss\<lparr>ss_run := (ss_run ss)\<lparr>rn_corrections := rn_corrections (ss_run ss) + 1\<rparr>\<rparr>"
  have "turn_ok lp task ss (correct lp task tn (fl_Code f) n ?ss)" for n
    by (rule bumped [OF correct_end]) (use False in \<open>auto simp: counters_in_def within_def intro!: progress_run split: option.splits\<close>)
  then show ?thesis using False unfolding handleParseFailure_def Let_def by auto
qed

lemma policyCorrection_ok: "turn_ok lp task ss (policyCorrection lp task tn tool po ss)"
proof (cases "rn_corrections (ss_run ss) \<ge> lm_MaxCorrections (lp_limits lp)")
  case True
  then show ?thesis unfolding policyCorrection_def Let_def by (auto intro!: calm_end_ok stopped_end simp: keeps_outcome_def)
next
  case False
  let ?ss = "ss\<lparr>ss_run := (ss_run ss)\<lparr>rn_corrections := rn_corrections (ss_run ss) + 1\<rparr>\<rparr>"
  have "turn_ok lp task ss (None, say roleCorrection c (emit l ?ss))" for c l
    by (rule bumped [of lp task ?ss])
      (use False in \<open>auto simp: counters_in_def within_def same_counters_def intro!: progress_run going_on calmI split: option.splits\<close>)
  then show ?thesis using False unfolding policyCorrection_def Let_def by auto
qed

section \<open>Actions\<close>

lemma prepared_row:
  assumes "PrepareToolAttempt cx fault r s = (Inr ex, s')"
  shows "\<exists>t \<in> set (db_tool_attempts s'). ta_execution_id t = ex \<and> ta_task_id t = tp_TaskID r \<and> ta_status t = ''prepared''"
  using assms unfolding PrepareToolAttempt_def
  by (rule transaction_cases) (auto simp: Let_def journal_def split: if_splits prod.splits)

lemma after_effect_ok: "turn_ok lp task ss (after_effect lp task tn a ex obs ss)"
proof -
  obtain res ss1 where c: "db_call (CompleteToolAttempt (lp_cx lp) (ft_Complete (tn_faults tn)) (attempt_completed lp task tn ex obs)) () ss = (res, ss1)"
    by fastforce
  have q: "calm lp task ss ss1" using c by (rule db_call_step) (rule complete_tool)
  show ?thesis
  proof (cases res)
    case (Inl e)
    have "turn_ok lp task ss (stopped (stop lp task f OutcomePersistencePaused m id ss1))" for f m
      by (rule calm_then [OF q], rule calm_end_ok, rule stopped_end) simp_all
    then show ?thesis unfolding after_effect_def c Inl by (simp only: prod.case sum.case)
  next
    case (Inr y)
    define n where "n = (if failureCountedForGuard a obs then rn_consecutiveFailures (ss_run ss1) + 1 else 0)"
    let ?ss = "ss1\<lparr>ss_run := (ss_run ss1)\<lparr>rn_consecutiveFailures := n\<rparr>\<rparr>"
    let ?x = "if failureCountedForGuard a obs \<and> n > lm_MaxConsecutiveFailures (lp_limits lp)
             then stopped (stop lp task (ft_Stop (tn_faults tn)) OutcomeConsecutiveFailuresExhausted
                    (StopReason OutcomeConsecutiveFailuresExhausted @ '': '' @ int_dec n @ '' consecutive failing observation(s)'') id ?ss)
             else (None, say roleObservation (en_observation (lp_en lp) obs)
                    (?ss\<lparr>ss_guard := guard_record (en_fingerprint (lp_en lp)) a (tn_signature tn) (ss_guard ?ss),
                         ss_evidence := EvidenceSet_Add obs (ss_evidence ?ss)\<rparr>))"
    have "turn_ok lp task ss1 ?x"
    proof (rule bumped [of lp task ?ss])
      show "calm_end lp task ?ss ?x"
        by (auto intro!: stopped_end going_on calmI simp: same_counters_def)
      show "progress lp task ss1 ?ss" by (rule progress_run) simp_all
      show "counters_in (lp_limits lp) (case fst ?x of None \<Rightarrow> 0 | Some _ \<Rightarrow> 1) (ss_run ss1) (ss_run ?ss)"
        by (auto simp: counters_in_def within_def n_def stopped_def)
    qed
    then have "turn_ok lp task ss ?x" by (rule calm_then [OF q])
    moreover have "after_effect lp task tn a ex obs ss = ?x" using c Inr by (simp add: after_effect_def Let_def n_def)
    ultimately show ?thesis by simp
  qed
qed

lemma execute_action_ok:
  assumes "IsPolicyGated (act_Tool a) \<Longrightarrow> po_Decision po = Allowed \<and> (\<exists>tn aid s. po = policy_outcome lp tn (policy_request lp task aid a) s)"
  shows "turn_ok lp task ss (execute_action lp task tn a actionID po ss)"
proof -
  obtain res ss1 where c: "db_call (PrepareToolAttempt (lp_cx lp) (ft_Prepare (tn_faults tn)) (attempt_prepared lp task tn actionID a po)) [] ss = (res, ss1)"
    by fastforce
  have q: "calm lp task ss ss1" using c by (rule db_call_step) (rule prepare_tool)
  show ?thesis
  proof (cases res)
    case (Inl e)
    have "turn_ok lp task ss (persistence_stop lp task tn e ss1)" by (rule calm_then [OF q calm_end_ok [OF persistence_stop_end]])
    then show ?thesis by (simp add: execute_action_def c Inl)
  next
    case (Inr ex)
    let ?obs = "annotate actionID ex a po (tn_execute tn a)"
    let ?ss = "ss1\<lparr>ss_deeds := ss_deeds ss1 @ [ToolExecuted a po ex (ss_store ss1)]\<rparr>"
    have "safe_deed lp task (ToolExecuted a po ex (ss_store ss1))"
    proof -
      have "tp_TaskID (attempt_prepared lp task tn actionID a po) = ts_ID task" by (simp add: attempt_prepared_def)
      then show ?thesis using c Inr assms by (auto elim!: db_call_cases dest!: prepared_row)
    qed
    then have "calm lp task ss1 ?ss" by (simp add: calm_def progress_def counted_def same_counters_def)
    moreover have "calm lp task ?ss (emit_observation a ?obs ?ss)"
      unfolding emit_observation_def Let_def by (rule calmI) (simp_all add: same_counters_def)
    ultimately have "calm lp task ss (emit_observation a ?obs ?ss)" using calm_trans [OF q calm_trans] by blast
    then have "turn_ok lp task ss (after_effect lp task tn a ex ?obs (emit_observation a ?obs ?ss))"
      by (rule calm_then [OF _ after_effect_ok])
    then show ?thesis using c Inr by (simp add: execute_action_def Let_def)
  qed
qed

lemma guarded_action_ok:
  assumes "IsPolicyGated (act_Tool a) \<Longrightarrow> po_Decision po = Allowed \<and> (\<exists>tn aid s. po = policy_outcome lp tn (policy_request lp task aid a) s)"
  shows "turn_ok lp task ss (guarded_action lp task tn a actionID po ss)"
proof (cases "guard_repeat (en_fingerprint (lp_en lp)) a (tn_signature tn) (ss_guard ss)")
  case False
  then show ?thesis using execute_action_ok [OF assms] by (simp add: guarded_action_def)
next
  case True
  define n where "n = rn_repeated (ss_run ss) + 1"
  let ?ss = "ss\<lparr>ss_run := (ss_run ss)\<lparr>rn_repeated := n\<rparr>\<rparr>"
  obtain res ss2 where c: "db_call (RejectAction (lp_cx lp) (ft_Reject (tn_faults tn)) (ts_ID task) actionID ''repeated_action'') () ?ss = (res, ss2)"
    by fastforce
  have q: "calm lp task ?ss ss2" using c by (rule db_call_step) (rule reject_action)
  let ?x = "case res of Inl e \<Rightarrow> persistence_stop lp task tn e ss2
    | Inr _ \<Rightarrow> if n > lm_MaxRepeatedActions (lp_limits lp)
        then stopped (stop lp task (ft_Stop (tn_faults tn)) OutcomeRepeatedAction (StopReason OutcomeRepeatedAction) id ss2)
        else correct lp task tn RepeatedAction (lm_MaxRepeatedActions (lp_limits lp) - n) ss2"
  have "turn_ok lp task ss ?x"
  proof (rule bumped [of lp task ?ss])
    show "calm_end lp task ?ss ?x"
      by (rule calm_then_end [OF q]) (auto intro!: stopped_end persistence_stop_end correct_end split: sum.splits)
    show "progress lp task ss ?ss" by (rule progress_run) simp_all
    show "counters_in (lp_limits lp) (case fst ?x of None \<Rightarrow> 0 | Some _ \<Rightarrow> 1) (ss_run ss) (ss_run ?ss)"
      by (auto simp: counters_in_def within_def n_def stopped_def persistence_stop_def split: sum.splits option.splits)
  qed
  moreover have "guarded_action lp task tn a actionID po ss = ?x"
    using c True by (simp add: guarded_action_def Let_def n_def split: sum.splits)
  ultimately show ?thesis by simp
qed

lemma handleAction_ok: "turn_ok lp task ss (handleAction lp task tn a ss)"
proof -
  obtain res ss1 where c: "db_call (RecordAction (lp_cx lp) (ft_RecordAction (tn_faults tn)) (action_record lp task tn a)) [] ss = (res, ss1)"
    by fastforce
  have q: "calm lp task ss ss1" using c by (rule db_call_step) (rule record_action)
  show ?thesis
  proof (cases res)
    case (Inl e)
    have "turn_ok lp task ss (persistence_stop lp task tn e ss1)" by (rule calm_then [OF q calm_end_ok [OF persistence_stop_end]])
    then show ?thesis by (simp add: handleAction_def c Inl)
  next
    case (Inr actionID)
    show ?thesis
    proof (cases "IsPolicyGated (act_Tool a)")
      case False
      have "turn_ok lp task ss (guarded_action lp task tn a actionID no_outcome ss1)"
        by (rule calm_then [OF q], rule guarded_action_ok) (use False in simp)
      then show ?thesis using False by (simp add: handleAction_def c Inr)
    next
      case True
      define rq where "rq = policy_request lp task actionID a"
      define po where "po = policy_outcome lp tn rq (ss_store ss1)"
      obtain res2 ss2 where d: "db_call (record_decision lp task (ft_Decision (tn_faults tn)) actionID a rq po) () ss1 = (res2, ss2)"
        by fastforce
      have q2: "calm lp task ss1 ss2" using d
        by (rule db_call_step) (auto simp: record_decision_def Let_def split: if_splits intro: recipe_decision write_decision)
      have ev: "evaluatePolicy lp task tn actionID a ss1 = (case res2 of Inl e \<Rightarrow> (Inl e, ss2) | Inr _ \<Rightarrow> (Inr po, ss2))"
        using d by (simp add: evaluatePolicy_def Let_def rq_def po_def split: sum.splits)
      have qq: "calm lp task ss ss2" using q q2 calm_trans by blast
      show ?thesis
      proof (cases res2)
        case Inl2: (Inl e)
        have "turn_ok lp task ss (persistence_stop lp task tn e ss2)" by (rule calm_then [OF qq calm_end_ok [OF persistence_stop_end]])
        then show ?thesis using True by (simp add: handleAction_def c Inr ev Inl2)
      next
        case Inr2: (Inr y)
        let ?line = "(trace_line TraceAction (decision_text (po_Decision po)))\<lparr>tl_Tool := act_Tool a, tl_Classification := po_Reason po\<rparr>"
        have h: "handleAction lp task tn a ss = (case po_Decision po of
              Denied \<Rightarrow>
                (case db_call (RejectAction (lp_cx lp) (ft_Reject (tn_faults tn)) (ts_ID task) actionID (po_Reason po)) () ss2 of
                   (Inl e, ss3) \<Rightarrow> persistence_stop lp task tn e ss3
                 | (Inr _, ss3) \<Rightarrow> policyCorrection lp task tn (act_Tool a) po (emit ?line ss3))
            | ApprovalRequired \<Rightarrow>
                stopped (stop lp task (ft_Stop (tn_faults tn)) OutcomeApprovalRequired (StopReason OutcomeApprovalRequired)
                  (\<lambda>r. r\<lparr>lr_PendingActionID := actionID\<rparr>) (emit ?line ss2))
            | Allowed \<Rightarrow> guarded_action lp task tn a actionID po ss2)"
          using True by (simp add: handleAction_def Let_def c Inr ev Inr2)
        show ?thesis
        proof (cases "po_Decision po")
          case Allowed
          have "turn_ok lp task ss2 (guarded_action lp task tn a actionID po ss2)"
            by (rule guarded_action_ok) (use Allowed po_def rq_def in blast)
          then have "turn_ok lp task ss (guarded_action lp task tn a actionID po ss2)" by (rule calm_then [OF qq])
          then show ?thesis unfolding h Allowed by (simp only: Decision.case)
        next
          case Denied
          obtain res3 ss3 where r: "db_call (RejectAction (lp_cx lp) (ft_Reject (tn_faults tn)) (ts_ID task) actionID (po_Reason po)) () ss2 = (res3, ss3)"
            by fastforce
          have q3: "calm lp task ss2 ss3" using r by (rule db_call_step) (rule reject_action)
          have "turn_ok lp task ss3 (case res3 of Inl e \<Rightarrow> persistence_stop lp task tn e ss3
              | Inr _ \<Rightarrow> policyCorrection lp task tn (act_Tool a) po (emit ?line ss3))"
            using calm_then [OF calm_emit policyCorrection_ok] by (auto intro: calm_end_ok persistence_stop_end split: sum.splits)
          then have "turn_ok lp task ss (case res3 of Inl e \<Rightarrow> persistence_stop lp task tn e ss3
              | Inr _ \<Rightarrow> policyCorrection lp task tn (act_Tool a) po (emit ?line ss3))" by (rule calm_then [OF calm_trans [OF qq q3]])
          then show ?thesis unfolding h Denied r by (cases res3) (simp_all only: Decision.case prod.case sum.case)
        next
          case ApprovalRequired
          have "turn_ok lp task ss (stopped (stop lp task f OutcomeApprovalRequired m (\<lambda>r. r\<lparr>lr_PendingActionID := actionID\<rparr>) (emit l ss2)))" for f m l
            by (rule calm_then [OF calm_trans [OF qq calm_emit]], rule calm_end_ok, rule stopped_end) (simp_all add: keeps_outcome_def)
          then show ?thesis unfolding h ApprovalRequired by (simp only: Decision.case)
        qed
      qed
    qed
  qed
qed

end
