(* ===== verification/Agent_Run.thy ===== *)
theory Agent_Run
  imports Agent_Turn
begin

text \<open>
  The rest of a turn, the loop and \<open>Run\<close>. Each turn but the last counts one attempt more, so the loop
  ends after at most \<open>MaxSteps\<close> turns: \<open>run_loop\<close> is a total function.
\<close>

section \<open>Completion\<close>

lemma verifyCompletion_calm:
  assumes "verifyCompletion lp task tn f ss = (report, ss')"
  shows "calm lp task ss ss'"
    and "rv_Decision report = DecisionPassed \<Longrightarrow> ss_deeds ss' \<noteq> [] \<and> last (ss_deeds ss') = Verified report"
proof -
  define rep where "rep = Verify (tn_verifyNow tn) (Some (NewVerifier (Some (tn_observer tn)) (lp_plan lp))) (verify_input lp task tn f ss)"
  define ss0 where "ss0 = ss\<lparr>ss_deeds := ss_deeds ss @ [Verified rep]\<rparr>"
  obtain res ss1 where c: "db_call (SaveVerificationAttempt (lp_cx lp) (ft_SaveVerification (tn_faults tn)) (verification_record lp task rep)) () ss0 = (res, ss1)"
    by fastforce
  have r: "(report, ss') = (case res of Inl e \<Rightarrow> (unpersisted_report lp task e, ss1) | Inr _ \<Rightarrow> (rep, ss1))"
    using assms [unfolded verifyCompletion_def Let_def, folded rep_def, folded ss0_def] c by (simp split: sum.splits)
  have "calm lp task ss ss0" by (simp add: ss0_def calm_def progress_def counted_def same_counters_def)
  moreover have "calm lp task ss0 ss1" using c by (rule db_call_step) (rule save_verification)
  moreover have s: "ss' = ss1" using r by (simp split: sum.splits)
  ultimately show "calm lp task ss ss'" using calm_trans by blast
  have "ss_deeds ss1 = ss_deeds ss @ [Verified rep]" using c by (auto elim: db_call_cases simp: ss0_def)
  moreover assume "rv_Decision report = DecisionPassed"
  ultimately show "ss_deeds ss' \<noteq> [] \<and> last (ss_deeds ss') = Verified report"
    using r s by (auto simp: unpersisted_report_def split: sum.splits)
qed

lemma not_grounded_end: "calm_end lp task ss (not_grounded_stop lp task tn ids ss)"
  unfolding not_grounded_stop_def by (rule stopped_end) (simp_all add: keeps_outcome_def)

lemma conclude_ok:
  assumes "rv_Decision report = DecisionPassed \<Longrightarrow> ss_deeds ss \<noteq> [] \<and> last (ss_deeds ss) = Verified report"
  shows "turn_ok lp task ss (conclude lp task tn f missing report ss)"
proof (cases "rv_Decision report")
  case DecisionPassed
  show ?thesis unfolding conclude_def DecisionPassed VerifyDecision.case
    by (rule calm_end_ok, rule stopped_end) (use assms DecisionPassed in \<open>auto simp: keeps_outcome_def\<close>)
next
  case DecisionFailed
  define n where "n = rn_verificationRetries (ss_run ss) + 1"
  let ?ss = "ss\<lparr>ss_run := (ss_run ss)\<lparr>rn_verificationRetries := n\<rparr>\<rparr>"
  let ?x = "if n > lm_MaxVerificationRetries (lp_limits lp)
             then (if missingCitedEvidence report missing \<noteq> []
                   then not_grounded_stop lp task tn (missingCitedEvidence report missing) ?ss
                   else stopped (stop lp task (ft_Stop (tn_faults tn)) OutcomeVerificationFailuresExhausted
                          (StopReason OutcomeVerificationFailuresExhausted @ '': '' @ int_dec n @ '' consecutive failed verification attempt(s)'') id ?ss))
             else (None, say roleVerification
                    (en_verification (lp_en lp) (verify_decision_text (rv_Decision report)) (rv_Summary report) (rv_Checks report)) ?ss)"
  have "turn_ok lp task ss ?x"
  proof (rule bumped [of lp task ?ss])
    show "calm_end lp task ?ss ?x"
      by (auto intro!: stopped_end not_grounded_end going_on calmI simp: same_counters_def)
    show "progress lp task ss ?ss" by (rule progress_run) simp_all
    show "counters_in (lp_limits lp) (case fst ?x of None \<Rightarrow> 0 | Some _ \<Rightarrow> 1) (ss_run ss) (ss_run ?ss)"
      by (auto simp: counters_in_def within_def n_def stopped_def not_grounded_stop_def)
  qed
  then show ?thesis unfolding conclude_def DecisionFailed VerifyDecision.case Let_def n_def .
next
  case DecisionBlocked
  show ?thesis unfolding conclude_def DecisionBlocked VerifyDecision.case
    by (auto intro!: calm_end_ok stopped_end not_grounded_end simp: keeps_outcome_def)
next
  case DecisionUncertain
  show ?thesis unfolding conclude_def DecisionUncertain VerifyDecision.case
    by (auto intro!: calm_end_ok stopped_end not_grounded_end simp: keeps_outcome_def)
qed

lemma handleFinal_ok: "turn_ok lp task ss (handleFinal lp task tn f ss)"
proof -
  obtain g missing where g: "Ground f (ss_evidence ss) = (g, missing)" by fastforce
  obtain report ss1 where v: "verifyCompletion lp task tn f ss = (report, ss1)" by fastforce
  have vc: "turn_ok lp task ss (conclude lp task tn f missing report (emit l ss1))" for l
    by (rule calm_then [OF calm_trans [OF verifyCompletion_calm(1) [OF v] calm_emit]], rule conclude_ok)
      (use verifyCompletion_calm(2) [OF v] in simp)
  have ap: "turn_ok lp task ss (stopped (stop lp task flt OutcomeApprovalRequired m (\<lambda>r. r\<lparr>lr_PendingActionID := p\<rparr>) (emit l ss)))" for flt m p l
    by (rule calm_then [OF calm_emit], rule calm_end_ok, rule stopped_end) (simp_all add: keeps_outcome_def)
  have inc: "turn_ok lp task ss (stopped (stop lp task flt OutcomeFinalIncomplete m (\<lambda>r. r\<lparr>lr_Summary := a, lr_Evidence := b\<rparr>) ss))" for flt m a b
    by (rule calm_end_ok, rule stopped_end) (simp_all add: keeps_outcome_def)
  note ends = calm_end_ok [OF not_grounded_end] calm_end_ok [OF persistence_stop_end] vc ap inc
  define ps where "ps = (case ss_store ss of None \<Rightarrow> Inr [] | Some s \<Rightarrow> pending_of (ft_Pending (tn_faults tn)) (ts_ID task) s)"
  show ?thesis unfolding handleFinal_def g v prod.case ps_def [symmetric]
    by (intro conjI impI allI ends | split if_split sum.split list.split)+
qed

section \<open>Model turns\<close>

lemma classifyAdmission_ok: "turn_ok lp task ss (classifyAdmission lp task tn ad ss)"
proof -
  have "turn_ok lp task ss (stopped (stop lp task flt oc reason extra ss))" if "oc \<noteq> OutcomeCompleted" "keeps_outcome extra" for flt oc reason extra
    by (rule calm_end_ok, rule stopped_end) (use that in simp_all)
  then show ?thesis unfolding classifyAdmission_def Let_def by (auto simp: keeps_outcome_def)
qed

lemma attempt_failed_ok: "turn_ok lp task ss (attempt_failed lp task tn deadline ex e ss)"
proof -
  have "turn_ok lp task ss (stopped (stop lp task flt oc reason extra ss))" if "oc \<noteq> OutcomeCompleted" "keeps_outcome extra" for flt oc reason extra
    by (rule calm_end_ok, rule stopped_end) (use that in simp_all)
  then show ?thesis unfolding attempt_failed_def Let_def by (auto simp: keeps_outcome_def split: execute_error.splits)
qed

lemma respond_ok: "turn_ok lp task ss (respond lp task tn text ss)"
proof -
  define p where "p = Parse (lp_refusal lp) (lp_claim lp) (Some (lp_catalog lp)) text"
  define ss2 where "ss2 = (if ps_MixedProse p
     then emit (trace_line TraceDeviation ''mixed_prose'')
       ((say roleAssistant text ss)\<lparr>ss_run := (ss_run (say roleAssistant text ss))\<lparr>rn_mixedProse := rn_mixedProse (ss_run (say roleAssistant text ss)) + 1\<rparr>\<rparr>)
     else say roleAssistant text ss)"
  have q: "calm lp task ss ss2" unfolding ss2_def by (auto intro!: calmI simp: same_counters_def)
  have st: "turn_ok lp task ss2 (stopped (stop lp task flt OutcomeProviderFailure m id ss2))" for flt m
    by (rule calm_end_ok, rule stopped_end) simp_all
  have "turn_ok lp task ss2 (case ps_Failure p of
           Some f \<Rightarrow> handleParseFailure lp task tn f ss2
         | None \<Rightarrow>
             (case (ps_Kind p, ps_Action p, ps_Final p) of
                (KindAction, Some a, _) \<Rightarrow> handleAction lp task tn a ss2
              | (KindFinal, _, Some f) \<Rightarrow> handleFinal lp task tn f ss2
              | _ \<Rightarrow> stopped (stop lp task (ft_Stop (tn_faults tn)) OutcomeProviderFailure ''provider failure: unrecognized envelope kind'' id ss2)))"
    by (auto intro: st handleParseFailure_ok handleAction_ok handleFinal_ok split: option.splits EnvelopeKind.splits)
  then have "turn_ok lp task ss2 (respond lp task tn text ss)"
    unfolding respond_def Let_def p_def [symmetric] ss2_def [symmetric] .
  then show ?thesis by (rule calm_then [OF q])
qed

text \<open>A whole turn: what the runner left is the start of the rest, which counts no attempt of its own.\<close>

definition after_runner :: "Loop \<Rightarrow> Task \<Rightarrow> Turn \<Rightarrow> Session \<Rightarrow> Session" where
  "after_runner lp task tn ss =
     (let ss1 = ss\<lparr>ss_run := (ss_run ss)\<lparr>rn_turns := rn_turns (ss_run ss) + 1, rn_attempts := rn_attempts (ss_run ss) + 1\<rparr>\<rparr>;
          rq = attempt_request lp task ss1
      in ss1\<lparr>ss_store := snd (tn_runner tn rq (ss_store ss1)), ss_deeds := ss_deeds ss1 @ [ModelAttempt rq]\<rparr>)"

lemma modelTurn_rest: "turn_ok lp task (after_runner lp task tn ss) (modelTurn lp task deadline tn ss)"
proof -
  define ss1 where "ss1 = ss\<lparr>ss_run := (ss_run ss)\<lparr>rn_turns := rn_turns (ss_run ss) + 1, rn_attempts := rn_attempts (ss_run ss) + 1\<rparr>\<rparr>"
  define rq where "rq = attempt_request lp task ss1"
  obtain ex store where r: "tn_runner tn rq (ss_store ss1) = (ex, store)" by fastforce
  have a: "after_runner lp task tn ss = ss1\<lparr>ss_store := store, ss_deeds := ss_deeds ss1 @ [ModelAttempt rq]\<rparr>"
    unfolding after_runner_def Let_def ss1_def [symmetric] rq_def [symmetric] r by simp
  have st: "turn_ok lp task s2 (stopped (stop lp task flt OutcomeProviderFailure m (\<lambda>r. r\<lparr>lr_Classification := c\<rparr>) s2))" for flt m c s2
    by (rule calm_end_ok, rule stopped_end) (simp_all add: keeps_outcome_def)
  note ends = calm_then [OF calm_emit classifyAdmission_ok] calm_then [OF calm_emit attempt_failed_ok]
    calm_then [OF calm_emit respond_ok] calm_then [OF calm_emit st]
  show ?thesis
    unfolding modelTurn_def Let_def ss1_def [symmetric] rq_def [symmetric] r prod.case a [symmetric]
    by (intro conjI impI allI ends | split if_split option.split)+
qed

lemma after_runner_counts: "rn_turns (ss_run (after_runner lp task tn ss)) = rn_turns (ss_run ss) + 1"
  by (simp add: after_runner_def Let_def)

lemma modelTurn_turns:
  assumes "modelTurn lp task deadline tn ss = (r, ss')"
  shows "rn_turns (ss_run ss') = rn_turns (ss_run ss) + 1"
  using modelTurn_rest [of lp task tn ss deadline] after_runner_counts [of lp task tn ss] assms
  by (simp add: turn_ok_def counters_in_def)

section \<open>The loop\<close>

lemma loop_head_goes_on:
  assumes "loop_head_stop lp task deadline tn ss = None"
  shows "rn_turns (ss_run ss) < lm_MaxSteps (lp_limits lp)"
  using assms by (auto simp: loop_head_stop_def Let_def split: option.splits ctx_end.splits if_splits)

function run_loop :: "Loop \<Rightarrow> Task \<Rightarrow> time \<Rightarrow> (nat \<Rightarrow> Turn) \<Rightarrow> nat \<Rightarrow> Session \<Rightarrow> LoopResult \<times> Session" where
  "run_loop lp task deadline turns k ss =
     (case loop_head_stop lp task deadline (turns k) ss of
        Some x \<Rightarrow> x
      | None \<Rightarrow>
          (case modelTurn lp task deadline (turns k) ss of
             (Some r, ss') \<Rightarrow> (r, ss')
           | (None, ss') \<Rightarrow> run_loop lp task deadline turns (Suc k) ss'))"
  by pat_completeness auto
termination
proof (relation "measure (\<lambda>(lp, task, deadline, turns, k, ss). nat (lm_MaxSteps (lp_limits lp) - rn_turns (ss_run ss)))", goal_cases)
  case 1
  show ?case by simp
next
  case (2 lp task deadline turns k ss x ss')
  have "rn_turns (ss_run ss') = rn_turns (ss_run ss) + 1" using modelTurn_turns 2 by metis
  moreover have "rn_turns (ss_run ss) < lm_MaxSteps (lp_limits lp)" using loop_head_goes_on 2 by metis
  ultimately show ?case by simp
qed

declare run_loop.simps [simp del]

definition persistenceFailure :: "Loop \<Rightarrow> store_error \<Rightarrow> LoopResult" where
  "persistenceFailure lp e =
     \<lparr>lr_Outcome = OutcomePersistenceFailure, lr_StopReason = persist_reason lp e,
      lr_Turns = 0, lr_Attempts = 0, lr_Observations = 0, lr_Corrections = 0, lr_Repeated = 0, lr_MixedProse = 0, lr_Summary = [],
      lr_Note = [], lr_Evidence = [], lr_Classification = [], lr_PendingActionID = []\<rparr>"

definition run_deadline :: "Loop \<Rightarrow> time \<Rightarrow> time" where
  "run_deadline lp startedAt = (if lm_TimeBudget (lp_limits lp) > 0 then startedAt + lm_TimeBudget (lp_limits lp) else zero_time)"

text \<open>The durable root of the task: written unless the run resumes a recovered task.\<close>

definition bootstrap :: "Loop \<Rightarrow> Task \<Rightarrow> BootFaults \<Rightarrow> Observer \<Rightarrow> Store option \<Rightarrow> (store_error + unit) \<times> Store option" where
  "bootstrap lp task bf ob store =
     (case (store, lp_recovery lp) of
        (Some s, None) \<Rightarrow>
          (case BootstrapTask (lp_cx lp) (lp_en lp) bf (task_record lp task) (lp_plan lp) ob s of (r, s') \<Rightarrow> (r, Some s'))
      | _ \<Rightarrow> (Inr (), store))"

definition start_session :: "Loop \<Rightarrow> Task \<Rightarrow> Store option \<Rightarrow> Session" where
  "start_session lp task store =
     (case lp_recovery lp of
        None \<Rightarrow> fresh_session lp task store
      | Some sd \<Rightarrow> seed_session sd (fresh_session lp task store))"

definition Run :: "Loop \<Rightarrow> Task \<Rightarrow> time \<Rightarrow> BootFaults \<Rightarrow> Observer \<Rightarrow> (nat \<Rightarrow> Turn) \<Rightarrow> Store option \<Rightarrow> LoopResult \<times> Session" where
  "Run lp task startedAt bf ob turns store =
     (case bootstrap lp task bf ob store of
        (Inl e, store1) \<Rightarrow> (persistenceFailure lp e, fresh_session lp task store1)
      | (Inr _, store1) \<Rightarrow> run_loop lp task (run_deadline lp startedAt) turns 0 (start_session lp task store1))"

section \<open>The run, turn by turn\<close>

lemma after_runner_counted: "counted lp task ss (after_runner lp task tn ss)"
  unfolding counted_def
  by (rule exI [of _ "[ModelAttempt (attempt_request lp task
        (ss\<lparr>ss_run := (ss_run ss)\<lparr>rn_turns := rn_turns (ss_run ss) + 1, rn_attempts := rn_attempts (ss_run ss) + 1\<rparr>\<rparr>))]"])
    (simp add: after_runner_def Let_def)

lemma after_runner_within: "within l b r (ss_run (after_runner lp task tn ss)) \<longleftrightarrow> within l b r (ss_run ss)"
  by (simp add: after_runner_def Let_def within_def)

definition turn_within :: "Loop \<Rightarrow> Task \<Rightarrow> Session \<Rightarrow> LoopResult \<times> Session \<Rightarrow> bool" where
  "turn_within lp task ss x \<longleftrightarrow> counted lp task ss (snd x) \<and> within (lp_limits lp) 1 (ss_run ss) (ss_run (snd x))
     \<and> settled_result task (fst x) (snd x)
     \<and> rn_turns (ss_run (snd x)) \<le> max (rn_turns (ss_run ss)) (lm_MaxSteps (lp_limits lp))
     \<and> rn_attempts (ss_run (snd x)) \<le> max (rn_attempts (ss_run ss)) (lm_ProviderBudget (lp_limits lp))"

lemma within_refl: "within l 1 r r"
  by (auto simp: within_def)

lemma max_chain: "\<lbrakk>b \<le> max a m; c \<le> max b m + k\<rbrakk> \<Longrightarrow> c \<le> max a m + k" for a :: int
  by linarith

lemma within_trans:
  assumes "within l 0 a b" "within l 1 b c"
  shows "within l 1 a c"
proof -
  have m: "max 0 (max x y) = max x (max 0 y)" for x y :: int by (simp add: max.left_commute)
  show ?thesis using assms unfolding within_def m add_0_right
    by (elim conjE, intro conjI) (blast intro: max_chain max_chain [where k = 0, unfolded add_0_right])+
qed

lemma counted_attempts:
  "counted lp task a b \<Longrightarrow> rn_attempts (ss_run b) - rn_attempts (ss_run a) = rn_turns (ss_run b) - rn_turns (ss_run a)"
  by (auto simp: counted_def)

lemma loop_head_ok:
  assumes "loop_head_stop lp task deadline tn ss = Some x"
  shows "turn_within lp task ss x"
proof -
  obtain oc reason where x: "x = stop lp task (ft_Stop (tn_faults tn)) oc reason id ss" "oc \<noteq> OutcomeCompleted"
    using assms by (auto simp: loop_head_stop_def Let_def split: option.splits ctx_end.splits if_splits)
  then have "calm lp task ss (snd x) \<and> settled_result task (fst x) (snd x)"
    using stop_ok [of lp task "ft_Stop (tn_faults tn)" oc reason id ss "fst x" "snd x"] by simp
  moreover have "same_counters (ss_run ss) (ss_run (snd x)) \<Longrightarrow> within (lp_limits lp) 1 (ss_run ss) (ss_run (snd x))"
    by (auto simp: same_counters_def within_def)
  ultimately show ?thesis using counted_attempts [of lp task ss "snd x"]
    by (simp add: turn_within_def calm_def progress_def same_counters_def)
qed

lemma loop_head_limits:
  assumes "loop_head_stop lp task deadline tn ss = None"
  shows "rn_turns (ss_run ss) < lm_MaxSteps (lp_limits lp) \<and> rn_attempts (ss_run ss) < lm_ProviderBudget (lp_limits lp)"
  using assms by (auto simp: loop_head_stop_def Let_def split: option.splits ctx_end.splits if_splits)

lemma modelTurn_counted:
  assumes "modelTurn lp task deadline tn ss = (r, ss')"
  shows "counted lp task ss ss'" "within (lp_limits lp) (case r of None \<Rightarrow> 0 | Some _ \<Rightarrow> 1) (ss_run ss) (ss_run ss')"
    "r = Some res \<Longrightarrow> settled_result task res ss'"
proof -
  have t: "turn_ok lp task (after_runner lp task tn ss) (r, ss')" using modelTurn_rest assms by metis
  then have "counted lp task (after_runner lp task tn ss) ss'" by (simp add: turn_ok_def progress_def)
  then show "counted lp task ss ss'" by (rule counted_trans [OF after_runner_counted])
  have "within l b (ss_run (after_runner lp task tn ss)) r' \<longleftrightarrow> within l b (ss_run ss) r'" for l b r'
    by (simp add: after_runner_def Let_def within_def)
  then show "within (lp_limits lp) (case r of None \<Rightarrow> 0 | Some _ \<Rightarrow> 1) (ss_run ss) (ss_run ss')"
    using t by (simp add: turn_ok_def counters_in_def)
  show "r = Some res \<Longrightarrow> settled_result task res ss'" using t by (simp add: turn_ok_def)
qed

lemma run_loop_ok: "turn_within lp task ss (run_loop lp task deadline turns k ss)"
proof (induction lp task deadline turns k ss rule: run_loop.induct)
  case (1 lp task deadline turns k ss)
  show ?case
  proof (cases "loop_head_stop lp task deadline (turns k) ss")
    case (Some x)
    then show ?thesis using loop_head_ok by (simp add: run_loop.simps)
  next
    case None
    obtain r ss' where m: "modelTurn lp task deadline (turns k) ss = (r, ss')" by fastforce
    note c = modelTurn_counted [OF m] modelTurn_turns [OF m] loop_head_limits [OF None]
    have a: "rn_attempts (ss_run ss') = rn_attempts (ss_run ss) + 1" using counted_attempts [OF c(1)] c(4) by simp
    show ?thesis
    proof (cases r)
      case (Some res)
      then show ?thesis using None m c a by (simp add: run_loop.simps turn_within_def)
    next
      case n: None
      let ?x = "run_loop lp task deadline turns (Suc k) ss'"
      have i: "turn_within lp task ss' ?x" using 1 [OF None m [symmetric] n] n by simp
      have w: "within (lp_limits lp) 1 (ss_run ss) (ss_run (snd ?x))"
        using within_trans c(2) i by (simp add: n turn_within_def)
      have "turn_within lp task ss ?x"
        using counted_trans [OF c(1)] w i c(4,5) a by (simp add: turn_within_def)
      then show ?thesis using None m n by (simp add: run_loop.simps)
    qed
  qed
qed

end
