(* ===== verification/Verifier_Theorems.thy ===== *)
theory Verifier_Theorems
  imports Verifier "HOL-Library.Multiset"
begin

text \<open>
  What a verification establishes: a plan that was accepted is valid with unique ids, its digest does not depend
  on the order of its checks, a report is bounded, and the decision is \<open>passed\<close> exactly when
  everything the boundary promises holds of the history and of the workspace.
\<close>

section \<open>Plans\<close>

lemma validate_checks_None:
  "validate_checks seen cs = None \<longleftrightarrow> list_all (\<lambda>c. Check_Validate c = None) cs \<and> distinct (map ck_ID cs) \<and> set (map ck_ID cs) \<inter> seen = {}"
  by (induction cs arbitrary: seen) (auto split: option.splits)

definition valid_plan :: "Plan \<Rightarrow> bool" where
  "valid_plan p \<longleftrightarrow> pl_Version p = PlanVersion \<and> list_all (\<lambda>c. Check_Validate c = None) (pl_Checks p) \<and> distinct (map ck_ID (pl_Checks p))"

lemma ParsePlan_valid: "ParsePlan data = Inr p \<Longrightarrow> valid_plan p"
  by (auto simp: ParsePlan_def valid_plan_def Let_def validate_checks_None split: option.splits if_splits)

lemma valid_check_type: "Check_Validate c = None \<Longrightarrow> ck_Type c \<in> set AllCheckTypes"
  by (auto simp: Check_Validate_def AllCheckTypes_def split: if_splits)

lemma filter_unique: "distinct (map f xs) \<Longrightarrow> x \<in> set xs \<Longrightarrow> filter (\<lambda>y. f y = f x) xs = [x]"
  by (induction xs) (auto simp: filter_empty_conv, metis image_eqI)

text \<open>With unique ids the lines of the digest are those of the checks sorted by id.\<close>

lemma digest_lines_sorted:
  assumes "distinct (map ck_ID (pl_Checks p))"
  shows "digest_lines m p = (''version='' @ int_dec (pl_Version p)) # map (\<lambda>c. ck_ID c @ ''='' @ m c) (sort_key ck_ID (pl_Checks p))"
proof -
  have "sort (map ck_ID (pl_Checks p)) = map ck_ID (sort_key ck_ID (pl_Checks p))"
    by (metis mset_map mset_sort properties_for_sort sorted_sort_key)
  moreover have "map (\<lambda>i. map (\<lambda>c. i @ ''='' @ m c) (filter (\<lambda>c. ck_ID c = i) (pl_Checks p))) (map ck_ID (sort_key ck_ID (pl_Checks p))) =
      map (\<lambda>c. [ck_ID c @ ''='' @ m c]) (sort_key ck_ID (pl_Checks p))"
    unfolding map_map by (rule map_cong [OF refl]) (simp add: filter_unique [OF assms])
  ultimately show ?thesis unfolding digest_lines_def by (simp only: concat_map_singleton)
qed

theorem plan_digest_ignores_order:
  assumes "distinct (map ck_ID (pl_Checks p))" "mset (pl_Checks p) = mset (pl_Checks q)" "pl_Version p = pl_Version q"
  shows "Digest marshal sha256hex (Some p) = Digest marshal sha256hex (Some q)"
proof -
  have "distinct (map ck_ID (pl_Checks q))" using assms(1,2) by (metis mset_eq_imp_distinct_iff mset_map)
  moreover have "sort_key ck_ID (pl_Checks p) = sort_key ck_ID (pl_Checks q)"
  proof (rule map_sorted_distinct_set_unique [where f = ck_ID])
    show "inj_on ck_ID (set (sort_key ck_ID (pl_Checks p)) \<union> set (sort_key ck_ID (pl_Checks q)))"
      using assms mset_eq_setD [OF assms(2)] by (simp add: distinct_map)
    show "distinct (map ck_ID (sort_key ck_ID (pl_Checks p)))" "distinct (map ck_ID (sort_key ck_ID (pl_Checks q)))"
      using assms(1) calculation by (metis mset_eq_imp_distinct_iff mset_map mset_sort)+
  qed (use mset_eq_setD [OF assms(2)] in simp_all)
  ultimately show ?thesis using assms by (simp add: Digest_def digest_lines_sorted)
qed

section \<open>What passes\<close>

text \<open>A check of each type holds of the observed file, or of the latest run of the recipe.\<close>

definition clean_run :: "Check \<Rightarrow> RecipeEvidence \<Rightarrow> bool" where
  "clean_run c p \<longleftrightarrow> pe_Started p \<and> \<not> pe_TimedOut p \<and> \<not> pe_Canceled p \<and> pe_Signal p = [] \<and> pe_ExitCode p = 0
     \<and> (ck_RequireUntruncated c \<longrightarrow> \<not> pe_truncated p)"

definition check_holds :: "Observer \<Rightarrow> VerifyInput \<Rightarrow> Check \<Rightarrow> bool" where
  "check_holds ob inp c \<longleftrightarrow>
     (if ck_Type c = CheckFileExists then (\<exists>h. ob_FileSHA256 ob (ck_Path c) = (h, True, None))
      else if ck_Type c = CheckFileAbsent then (\<exists>h. ob_FileSHA256 ob (ck_Path c) = (h, False, None))
      else if ck_Type c = CheckFileHash then ob_FileSHA256 ob (ck_Path c) = (ck_SHA256 c, True, None)
      else (\<exists>p \<in> set (recipeEvidenceFor (vi_Evidence inp) (ck_Recipe c)).
              (\<forall>q \<in> set (recipeEvidenceFor (vi_Evidence inp) (ck_Recipe c)). pe_EvidenceID q \<le> pe_EvidenceID p) \<and> clean_run c p))"

text \<open>The evidence rows have different ids, and so have the recipe runs in them.\<close>

definition unique_evidence :: "VerifyInput \<Rightarrow> bool" where
  "unique_evidence inp \<longleftrightarrow> distinct (map re_EvidenceID (vi_Evidence inp))
     \<and> distinct (map pe_EvidenceID (List.map_filter decode_recipe (vi_Evidence inp)))"

lemma latest_run:
  "latestRecipeEvidence e es \<in> set (e # es) \<and> (\<forall>q \<in> set (e # es). pe_EvidenceID q \<le> pe_EvidenceID (latestRecipeEvidence e es))"
proof (induction es arbitrary: e)
  case (Cons p ps)
  let ?m = "if pe_EvidenceID p > pe_EvidenceID e then p else e"
  have m: "pe_EvidenceID p \<le> pe_EvidenceID ?m" "pe_EvidenceID e \<le> pe_EvidenceID ?m" "?m \<in> {p, e}" by auto
  have l: "latestRecipeEvidence e (p # ps) = latestRecipeEvidence ?m ps" by simp
  have "pe_EvidenceID ?m \<le> pe_EvidenceID (latestRecipeEvidence ?m ps)" using Cons [of ?m] by simp
  then have "pe_EvidenceID p \<le> pe_EvidenceID (latestRecipeEvidence ?m ps)" "pe_EvidenceID e \<le> pe_EvidenceID (latestRecipeEvidence ?m ps)"
    using m(1,2) by (blast intro: order_trans)+
  then show ?case unfolding l using Cons [of ?m] m(3) by auto
qed simp

lemma recipe_ids_unique:
  assumes "unique_evidence inp" "p \<in> set (recipeEvidenceFor (vi_Evidence inp) r)" "q \<in> set (recipeEvidenceFor (vi_Evidence inp) r)"
    "pe_EvidenceID p = pe_EvidenceID q"
  shows "p = q"
  using assms by (auto simp: unique_evidence_def recipeEvidenceFor_def distinct_map inj_on_def)

lemma evaluate_recipe_passed:
  assumes "unique_evidence inp"
  shows "cr_Status (evaluate_recipe inp c) = CheckPassed \<longleftrightarrow>
    (\<exists>p \<in> set (recipeEvidenceFor (vi_Evidence inp) (ck_Recipe c)).
       (\<forall>q \<in> set (recipeEvidenceFor (vi_Evidence inp) (ck_Recipe c)). pe_EvidenceID q \<le> pe_EvidenceID p) \<and> clean_run c p)"
proof (cases "recipeEvidenceFor (vi_Evidence inp) (ck_Recipe c)")
  case Nil
  then show ?thesis by (simp add: evaluate_recipe_def check_result_def)
next
  case (Cons e es)
  let ?p = "latestRecipeEvidence e es"
  have "cr_Status (evaluate_recipe inp c) = CheckPassed \<longleftrightarrow> clean_run c ?p"
    using Cons by (auto simp: evaluate_recipe_def check_result_def clean_run_def Let_def)
  moreover have "p = ?p" if "p \<in> set (e # es)" "\<forall>q \<in> set (e # es). pe_EvidenceID q \<le> pe_EvidenceID p" for p
  proof -
    have "pe_EvidenceID p = pe_EvidenceID ?p" using that latest_run [of e es] by (blast intro: order_antisym)
    then show ?thesis using that(1) latest_run [of e es] recipe_ids_unique [OF assms, of p "ck_Recipe c" ?p] unfolding Cons by blast
  qed
  ultimately show ?thesis using latest_run [of e es] unfolding Cons by blast
qed

lemma evaluate_file_status: "cr_Status (evaluate_file ob c) \<in> {CheckPassed, CheckFailed, CheckBlocked}"
proof -
  obtain h p f where o: "ob_FileSHA256 ob (ck_Path c) = (h, p, f)" by (metis prod_cases3)
  show ?thesis unfolding evaluate_file_def o by (cases f) (simp_all add: check_result_def Let_def)
qed

lemma evaluate_recipe_status: "cr_Status (evaluate_recipe inp c) \<in> {CheckPassed, CheckFailed}"
  by (cases "recipeEvidenceFor (vi_Evidence inp) (ck_Recipe c)") (simp_all add: evaluate_recipe_def check_result_def Let_def)

lemma evaluateCheck_status:
  assumes "Check_Validate c = None"
  shows "cr_Status (evaluateCheck ob inp c) \<in> {CheckPassed, CheckFailed, CheckBlocked}"
  using valid_check_type [OF assms] evaluate_file_status [of ob c] evaluate_recipe_status [of inp c]
  by (auto simp: evaluateCheck_def AllCheckTypes_def)

lemma evaluateCheck_passed:
  assumes "Check_Validate c = None" "unique_evidence inp"
  shows "cr_Status (evaluateCheck ob inp c) = CheckPassed \<longleftrightarrow> check_holds ob inp c"
proof (cases "ck_Type c = CheckRecipeExitZero")
  case True
  then show ?thesis using evaluate_recipe_passed [OF assms(2), of c]
    by (simp add: evaluateCheck_def check_holds_def CheckRecipeExitZero_def CheckFileExists_def CheckFileAbsent_def CheckFileHash_def)
next
  case False
  then have "ck_Type c \<in> {CheckFileExists, CheckFileAbsent, CheckFileHash}"
    using valid_check_type [OF assms(1)] by (auto simp: AllCheckTypes_def)
  moreover obtain h p f where o: "ob_FileSHA256 ob (ck_Path c) = (h, p, f)" by (metis prod_cases3)
  ultimately show ?thesis unfolding evaluateCheck_def evaluate_file_def check_holds_def o
    by (cases f) (auto simp: check_result_def Let_def CheckFileExists_def CheckFileAbsent_def CheckFileHash_def)
qed

section \<open>The six structural checks\<close>

text \<open>The latest write of a path: no other write of the path has a greater evidence id.\<close>

definition latest_write :: "VerifyInput \<Rightarrow> string \<Rightarrow> string \<Rightarrow> bool" where
  "latest_write inp path h \<longleftrightarrow>
     (\<exists>i k. (i, path, k, h) \<in> set (List.map_filter decode_write (vi_Evidence inp))
        \<and> (\<forall>j k' h'. (j, path, k', h') \<in> set (List.map_filter decode_write (vi_Evidence inp)) \<longrightarrow> j \<le> i))"

definition grounded :: "VerifyInput \<Rightarrow> bool" where
  "grounded inp \<longleftrightarrow> (\<forall>c \<in> set (vi_FinalEvidence inp). \<exists>e \<in> set (vi_Evidence inp). re_EvidenceID e = cl_EvidenceID c \<and> re_Tool e = cl_Tool c)"

definition settled :: "VerifyInput \<Rightarrow> bool" where
  "settled inp \<longleftrightarrow> (\<forall>a \<in> set (vi_ToolAttempts inp). rt_Status a \<notin> {''prepared'', ''uncertain'', ''human_review_required''})"

definition writes_stand :: "Observer \<Rightarrow> VerifyInput \<Rightarrow> bool" where
  "writes_stand ob inp \<longleftrightarrow> (\<forall>path h. latest_write inp path h \<longrightarrow> (\<exists>f. ob_FileSHA256 ob path = (h, True, f)))"

lemma cited_ok:
  assumes "distinct (map re_EvidenceID (vi_Evidence inp))"
  shows "cr_Status (grounding_check (resolveCitedEvidence inp)) = CheckPassed \<and> cr_Status (typing_check (resolveCitedEvidence inp)) = CheckPassed \<longleftrightarrow> grounded inp"
proof -
  let ?m = "map_of (rev (map (\<lambda>e. (re_EvidenceID e, e)) (vi_Evidence inp)))"
  have m: "?m i = Some e \<longleftrightarrow> e \<in> set (vi_Evidence inp) \<and> re_EvidenceID e = i" for i e
  proof -
    have "distinct (map fst (rev (map (\<lambda>e. (re_EvidenceID e, e)) (vi_Evidence inp))))" using assms by (simp add: rev_map [symmetric] comp_def)
    then show ?thesis by (subst map_of_eq_Some_iff) auto
  qed
  have r: "set (resolveCitedEvidence inp) = (\<lambda>k. case ?m (cl_EvidenceID k) of
         None \<Rightarrow> \<lparr>ce_EvidenceID = cl_EvidenceID k, ce_ClaimedTool = cl_Tool k, ce_Tool = [], ce_Exists = False, ce_ToolMatches = False\<rparr>
       | Some e \<Rightarrow> \<lparr>ce_EvidenceID = cl_EvidenceID k, ce_ClaimedTool = cl_Tool k, ce_Tool = re_Tool e, ce_Exists = True,
           ce_ToolMatches = (re_Tool e = cl_Tool k)\<rparr>) ` set (vi_FinalEvidence inp)"
    by (auto simp: resolveCitedEvidence_def)
  have "cr_Status (grounding_check (resolveCitedEvidence inp)) = CheckPassed \<and> cr_Status (typing_check (resolveCitedEvidence inp)) = CheckPassed \<longleftrightarrow>
      (\<forall>c \<in> set (resolveCitedEvidence inp). ce_Exists c \<and> ce_ToolMatches c)"
    by (auto simp: grounding_check_def typing_check_def structural_def Let_def filter_empty_conv)
  also have "\<dots> \<longleftrightarrow> (\<forall>k \<in> set (vi_FinalEvidence inp). \<exists>e. ?m (cl_EvidenceID k) = Some e \<and> re_Tool e = cl_Tool k)"
    unfolding r by (auto split: option.splits)
  also have "\<dots> \<longleftrightarrow> grounded inp" unfolding grounded_def m by blast
  finally show ?thesis .
qed

lemma uncertain_ok: "cr_Status (uncertain_check (uncertainAttempts (vi_ToolAttempts inp))) = (if settled inp then CheckPassed else CheckUncertain)"
proof -
  have "uncertainAttempts as = [] \<longleftrightarrow> (\<forall>a \<in> set as. rt_Status a \<notin> {''prepared'', ''uncertain'', ''human_review_required''})" for as
  proof -
    have "uncertainAttempts as = [] \<longleftrightarrow> set (uncertainAttempts as) = {}" by simp
    then show ?thesis by (auto simp: uncertainAttempts_def)
  qed
  then show ?thesis by (simp add: uncertain_check_def structural_def settled_def)
qed

lemma last_is_greatest:
  assumes "xs \<noteq> []"
  shows "last (sort_key f xs) \<in> set xs \<and> (\<forall>x \<in> set xs. f x \<le> f (last (sort_key f xs)))"
proof -
  have "sort_key f xs \<noteq> []" using assms by (metis length_0_conv length_sort)
  then have "last (sort_key f xs) \<in> set xs" by (metis last_in_set set_sort)
  moreover have "f x \<le> f (last (sort_key f xs))" if "x \<in> set xs" for x
  proof -
    obtain ys where ys: "sort_key f xs = ys @ [last (sort_key f xs)]" using \<open>sort_key f xs \<noteq> []\<close> by (metis append_butlast_last_id)
    have "sorted (map f (ys @ [last (sort_key f xs)]))" using ys sorted_sort_key by metis
    moreover have "x \<in> set (ys @ [last (sort_key f xs)])" using that ys by (metis set_sort)
    ultimately show ?thesis by (auto simp: sorted_append)
  qed
  ultimately show ?thesis by blast
qed

lemma decode_write_id: "decode_write e = Some (i, x) \<Longrightarrow> i = re_EvidenceID e"
  by (auto simp: decode_write_def split: option.splits if_splits)

lemma write_ids_unique:
  assumes "distinct (map re_EvidenceID es)"
  shows "distinct (map fst (List.map_filter decode_write es))"
proof -
  have "map fst (List.map_filter decode_write es) = map re_EvidenceID (filter (\<lambda>e. decode_write e \<noteq> None) es)"
    by (induction es) (auto simp: List.map_filter_simps split: option.splits dest: decode_write_id)
  then show ?thesis using assms by (simp add: distinct_map_filter)
qed

lemma reconcile_path_matches:
  assumes "distinct (map fst (List.map_filter decode_write (vi_Evidence inp)))"
    and "path \<in> (\<lambda>(i, p, k, h). p) ` set (List.map_filter decode_write (vi_Evidence inp))"
  shows "wr_Matches (reconcile_path ob (List.map_filter decode_write (vi_Evidence inp)) path) \<longleftrightarrow>
    (\<forall>h. latest_write inp path h \<longrightarrow> (\<exists>f. ob_FileSHA256 ob path = (h, True, f)))"
proof -
  let ?ws = "List.map_filter decode_write (vi_Evidence inp)"
  let ?W = "filter (\<lambda>(i, p, k, h). p = path) ?ws"
  have "?W \<noteq> []" using assms(2) by (auto simp: filter_empty_conv)
  then have g: "last (sort_key fst ?W) \<in> set ?W" "\<forall>x \<in> set ?W. fst x \<le> fst (last (sort_key fst ?W))"
    using last_is_greatest [of ?W fst] by blast+
  obtain i k h where l: "last (sort_key fst ?W) = (i, path, k, h)" using g(1) by auto
  have here: "(i, path, k, h) \<in> set ?ws" using g(1) unfolding l by simp
  have greatest: "j \<le> i" if "(j, path, k', h') \<in> set ?ws" for j k' h'
    using bspec [OF g(2), of "(j, path, k', h')"] that unfolding l by simp
  have lw: "latest_write inp path h' \<longleftrightarrow> h' = h" for h'
  proof
    assume "latest_write inp path h'"
    then obtain j k' where j: "(j, path, k', h') \<in> set ?ws" "i \<le> j" using here unfolding latest_write_def by blast
    then have "j = i" using greatest [OF j(1)] by simp
    then have "(path, k', h') = (path, k, h)" using j(1) here by (intro eq_key_imp_eq_value [OF assms(1)]) simp_all
    then show "h' = h" by simp
  next
    assume "h' = h"
    then show "latest_write inp path h'" using here greatest unfolding latest_write_def by blast
  qed
  show ?thesis unfolding lw reconcile_path_def by (auto simp: l Let_def split: prod.splits)
qed

lemma writes_ok:
  assumes "distinct (map re_EvidenceID (vi_Evidence inp))"
  shows "cr_Status (writes_check (reconcileWrites ob inp)) = (if writes_stand ob inp then CheckPassed else CheckFailed)"
proof -
  let ?ws = "List.map_filter decode_write (vi_Evidence inp)"
  let ?paths = "(\<lambda>(i, p, k, h). p) ` set ?ws"
  have in_paths: "path \<in> ?paths" if "latest_write inp path h" for path h
  proof -
    obtain i k where "(i, path, k, h) \<in> set ?ws" using \<open>latest_write inp path h\<close> unfolding latest_write_def by blast
    then show ?thesis by force
  qed
  have "(\<forall>w \<in> set (reconcileWrites ob inp). wr_Matches w) \<longleftrightarrow> (\<forall>path \<in> ?paths. wr_Matches (reconcile_path ob ?ws path))"
    by (simp add: reconcileWrites_def Let_def)
  also have "\<dots> \<longleftrightarrow> (\<forall>path \<in> ?paths. \<forall>h. latest_write inp path h \<longrightarrow> (\<exists>f. ob_FileSHA256 ob path = (h, True, f)))"
    by (rule ball_cong [OF refl]) (rule reconcile_path_matches [OF write_ids_unique [OF assms]])
  also have "\<dots> \<longleftrightarrow> writes_stand ob inp" unfolding writes_stand_def using in_paths by blast
  finally have "filter (\<lambda>w. \<not> wr_Matches w) (reconcileWrites ob inp) = [] \<longleftrightarrow> writes_stand ob inp" by (simp add: filter_empty_conv)
  then show ?thesis by (simp add: writes_check_def structural_def Let_def)
qed

section \<open>The decision\<close>

lemma status_bound [simp]: "cr_Status (bound_result n r) = cr_Status r"
  by (simp add: bound_result_def)

lemma has_status_map_bound [simp]: "has_status st (map (bound_result n) rs) = has_status st rs"
  by (simp add: has_status_def list_ex_iff)

lemma has_status_append [simp]: "has_status st (xs @ ys) \<longleftrightarrow> has_status st xs \<or> has_status st ys"
  by (simp add: has_status_def)

lemma has_status_simps [simp]: "\<not> has_status st []" "has_status st (r # rs) \<longleftrightarrow> cr_Status r = st \<or> has_status st rs"
  by (simp_all add: has_status_def)

lemma run_checks_eq:
  assumes "int (length done) \<le> vl_MaxChecks l"
  shows "run_checks l eval done cs =
    (if int (length done + length cs) \<le> vl_MaxChecks l then done @ map (bound_result (vl_MaxObservedChars l) \<circ> eval) cs
     else done @ map (bound_result (vl_MaxObservedChars l) \<circ> eval) (take (nat (vl_MaxChecks l) - length done) cs)
       @ [bound_result (vl_MaxObservedChars l) (budget_check (vl_MaxChecks l))])"
  using assms
proof (induction cs arbitrary: "done")
  case (Cons c cs)
  show ?case
  proof (cases "int (length done) \<ge> vl_MaxChecks l")
    case True
    then have "nat (vl_MaxChecks l) - length done = 0" using Cons.prems by linarith
    then show ?thesis using True Cons.prems by simp
  next
    case False
    then have "nat (vl_MaxChecks l) - length done = Suc (nat (vl_MaxChecks l) - Suc (length done))" by linarith
    then show ?thesis using Cons.IH [of "done @ [bound_result (vl_MaxObservedChars l) (eval c)]"] False by simp
  qed
qed simp

lemma combine_passed: "fst (combine n rs) = DecisionPassed \<longleftrightarrow> \<not> has_status CheckUncertain rs \<and> \<not> has_status CheckBlocked rs \<and> \<not> has_status CheckFailed rs"
  by (simp add: combine_def)

definition plan_slots :: nat where "plan_slots = 250"

lemma NewVerifier_limits [simp]: "vr_limits (NewVerifier ob p) = DefaultLimits" "vr_plan (NewVerifier ob p) = p" "vr_observer (NewVerifier ob p) = ob"
  by (simp_all add: NewVerifier_def DefaultLimits_def Let_def)

text \<open>The six structural checks of a verification with an observer, and what its plan adds.\<close>

definition structural_checks :: "Observer \<Rightarrow> VerifyInput \<Rightarrow> CheckResult list" where
  "structural_checks ob inp =
     [grounding_check (resolveCitedEvidence inp), typing_check (resolveCitedEvidence inp), uncertain_check (uncertainAttempts (vi_ToolAttempts inp)),
      approvals_check (vi_PendingApprovals inp), writes_check (reconcileWrites ob inp), git_check (observeGit ob 512 inp)]"

lemma Verify_checks:
  fixes p :: Plan and ob :: Observer
  defines "v \<equiv> NewVerifier (Some ob) (Some p)"
  shows "rv_Checks (Verify clock (Some v) inp) = run_checks DefaultLimits (evaluateCheck ob inp)
      (map (bound_result 512) (structural_checks ob inp @ (if pl_Checks p = [] then [criteria_check] else []))) (sort_key ck_ID (pl_Checks p))"
    and "rv_Decision (Verify clock (Some v) inp) = fst (combine 512 (rv_Checks (Verify clock (Some v) inp)))"
proof -
  have pc: "planChecks v = sort_key ck_ID (pl_Checks p)" by (simp add: v_def planChecks_def)
  have e: "sort_key ck_ID (pl_Checks p) = [] \<longleftrightarrow> pl_Checks p = []" by (metis length_0_conv length_sort)
  have l: "vl_MaxObservedChars DefaultLimits = 512" "vl_MaxChangedFiles DefaultLimits = 512" by (simp_all add: DefaultLimits_def)
  show "rv_Checks (Verify clock (Some v) inp) = run_checks DefaultLimits (evaluateCheck ob inp)
      (map (bound_result 512) (structural_checks ob inp @ (if pl_Checks p = [] then [criteria_check] else []))) (sort_key ck_ID (pl_Checks p))"
    unfolding Verify_def by (simp add: v_def l Let_def structural_checks_def pc [unfolded v_def] e split: prod.splits)
  show "rv_Decision (Verify clock (Some v) inp) = fst (combine 512 (rv_Checks (Verify clock (Some v) inp)))"
    unfolding Verify_def by (simp add: v_def l Let_def split: prod.splits)
qed

lemma structural_passed:
  assumes "unique_evidence inp"
  shows "\<not> has_status CheckUncertain (structural_checks ob inp) \<and> \<not> has_status CheckBlocked (structural_checks ob inp)
      \<and> \<not> has_status CheckFailed (structural_checks ob inp) \<longleftrightarrow>
    grounded inp \<and> settled inp \<and> vi_PendingApprovals inp = [] \<and> writes_stand ob inp"
proof -
  have d: "distinct (map re_EvidenceID (vi_Evidence inp))" using assms by (simp add: unique_evidence_def)
  have g: "cr_Status (grounding_check x) \<in> {CheckPassed, CheckFailed}" "cr_Status (typing_check x) \<in> {CheckPassed, CheckFailed}"
      "cr_Status (approvals_check y) = (if y = [] then CheckPassed else CheckBlocked)" "cr_Status (git_check z) = CheckPassed" for x y z
    by (simp_all add: grounding_check_def typing_check_def approvals_check_def git_check_def structural_def Let_def)
  show ?thesis using cited_ok [OF d] g(1,2) [of "resolveCitedEvidence inp"]
    by (auto simp: structural_checks_def g(3,4) uncertain_ok writes_ok [OF d] split: if_splits)
qed

text \<open>C19: completion is verified exactly when every citation names evidence of the task produced by the claimed
  tool, no attempt is unresolved, no approval is pending, the file of every written path has the hash
  of its latest write, and the plan has between one and 250 checks, all of which hold.\<close>

theorem verification_passes_iff:
  assumes "valid_plan p" "unique_evidence inp"
  shows "rv_Decision (Verify clock (Some (NewVerifier (Some ob) (Some p))) inp) = DecisionPassed \<longleftrightarrow>
    grounded inp \<and> settled inp \<and> vi_PendingApprovals inp = [] \<and> writes_stand ob inp
    \<and> pl_Checks p \<noteq> [] \<and> length (pl_Checks p) \<le> plan_slots \<and> (\<forall>c \<in> set (pl_Checks p). check_holds ob inp c)"
proof -
  let ?f = "map (bound_result 512) (structural_checks ob inp @ (if pl_Checks p = [] then [criteria_check] else []))"
  let ?cs = "sort_key ck_ID (pl_Checks p)"
  let ?rs = "run_checks DefaultLimits (evaluateCheck ob inp) ?f ?cs"
  have lim: "vl_MaxChecks DefaultLimits = 256" "vl_MaxObservedChars DefaultLimits = 512" by (simp_all add: DefaultLimits_def)
  have len: "length (structural_checks ob inp) = 6" by (simp add: structural_checks_def)
  have eq: "?rs = (if int (length ?f + length ?cs) \<le> 256 then ?f @ map (bound_result 512 \<circ> evaluateCheck ob inp) ?cs
     else ?f @ map (bound_result 512 \<circ> evaluateCheck ob inp) (take (nat 256 - length ?f) ?cs) @ [bound_result 512 (budget_check 256)])"
    using run_checks_eq [of ?f DefaultLimits "evaluateCheck ob inp" ?cs] len by (simp only: lim) simp
  have val: "Check_Validate c = None" if "c \<in> set (pl_Checks p)" for c using that assms(1) by (simp add: valid_plan_def list_all_iff)
  have checks: "\<not> has_status CheckUncertain (map (bound_result 512 \<circ> evaluateCheck ob inp) ?cs) \<and>
      \<not> has_status CheckBlocked (map (bound_result 512 \<circ> evaluateCheck ob inp) ?cs) \<and>
      \<not> has_status CheckFailed (map (bound_result 512 \<circ> evaluateCheck ob inp) ?cs) \<longleftrightarrow> (\<forall>c \<in> set (pl_Checks p). check_holds ob inp c)"
    using evaluateCheck_status [OF val] evaluateCheck_passed [OF val assms(2)]
    by (auto simp: has_status_def list_ex_iff) (metis CheckStatus.distinct)+
  have d: "rv_Decision (Verify clock (Some (NewVerifier (Some ob) (Some p))) inp) = fst (combine 512 ?rs)"
    unfolding Verify_checks(2) Verify_checks(1) ..
  show ?thesis
  proof (cases "pl_Checks p = []")
    case True
    then show ?thesis unfolding d combine_passed eq by (simp add: criteria_check_def structural_def)
  next
    case False
    show ?thesis
    proof (cases "length (pl_Checks p) \<le> plan_slots")
      case True
      then show ?thesis unfolding d combine_passed eq using False structural_passed [OF assms(2), of ob] checks len
        by (auto simp: plan_slots_def)
    next
      case big: False
      then show ?thesis unfolding d combine_passed eq using False len by (simp add: plan_slots_def budget_check_def structural_def)
    qed
  qed
qed

text \<open>A workspace with one file, and a plan that asks for it.\<close>

definition demo_observer :: Observer where
  "demo_observer = \<lparr>ob_FileSHA256 = (\<lambda>p. if p = ''a.txt'' then (''h'', True, None) else ([], False, None)),
     ob_GitStatusText = ([], False, None), ob_GitDiffText = ([], False, None)\<rparr>"

definition demo_plan :: Plan where
  "demo_plan = \<lparr>pl_Version = 1, pl_Checks = [\<lparr>ck_ID = ''c'', ck_Type = ''file_exists'', ck_Path = ''a.txt'', ck_SHA256 = [], ck_Recipe = [],
     ck_RequireUntruncated = False\<rparr>]\<rparr>"

definition demo_input :: VerifyInput where
  "demo_input = \<lparr>vi_TaskID = ''t'', vi_FinalEvidence = [], vi_Actions = [], vi_ToolAttempts = [], vi_Evidence = [], vi_PendingApprovals = [],
     vi_BaselineGitStatus = [], vi_BaselineGitDiff = [], vi_BaselineGitStatusTruncated = False, vi_BaselineGitDiffTruncated = False, vi_Now = []\<rparr>"

lemma demo_plan_parses:
  \<open>ParsePlan ''{"version": 1, "checks": [{"id": "c", "type": "file_exists", "path": "a.txt"}]}'' = Inr demo_plan\<close>
  by code_simp

lemma demo_plan_valid: "valid_plan demo_plan"
  by (rule ParsePlan_valid [OF demo_plan_parses])

theorem verification_passes_iff_witness:
  "rv_Decision (Verify [] (Some (NewVerifier (Some demo_observer) (Some demo_plan))) demo_input) = DecisionPassed"
proof (rule verification_passes_iff [THEN iffD2])
  show "valid_plan demo_plan" by (rule demo_plan_valid)
  show "unique_evidence demo_input" by (simp add: unique_evidence_def demo_input_def List.map_filter_simps)
  show "grounded demo_input \<and> settled demo_input \<and> vi_PendingApprovals demo_input = [] \<and> writes_stand demo_observer demo_input
    \<and> pl_Checks demo_plan \<noteq> [] \<and> length (pl_Checks demo_plan) \<le> plan_slots \<and> (\<forall>c \<in> set (pl_Checks demo_plan). check_holds demo_observer demo_input c)"
    by (simp add: grounded_def settled_def writes_stand_def latest_write_def demo_input_def demo_plan_def plan_slots_def check_holds_def
        CheckFileExists_def demo_observer_def List.map_filter_simps)
qed

theorem plan_digest_ignores_order_witness:
  "Digest ck_ID id (Some \<lparr>pl_Version = 1, pl_Checks = [(hd (pl_Checks demo_plan))\<lparr>ck_ID := ''a''\<rparr>, (hd (pl_Checks demo_plan))\<lparr>ck_ID := ''b''\<rparr>]\<rparr>) =
   Digest ck_ID id (Some \<lparr>pl_Version = 1, pl_Checks = [(hd (pl_Checks demo_plan))\<lparr>ck_ID := ''b''\<rparr>, (hd (pl_Checks demo_plan))\<lparr>ck_ID := ''a''\<rparr>]\<rparr>)"
  by (rule plan_digest_ignores_order) simp_all

section \<open>Bounds\<close>

text \<open>A report has at most 257 checks, and no description in it is longer than 523 bytes.\<close>

definition bounded_result :: "CheckResult \<Rightarrow> bool" where
  "bounded_result r \<longleftrightarrow> length (cr_Expected r) \<le> 523 \<and> length (cr_Observed r) \<le> 523 \<and> length (cr_Reason r) \<le> 523"

lemma boundText_length: "length (boundText 512 v) \<le> 523"
  by (simp add: boundText_def)

lemma bounded_bound_result [simp]: "bounded_result (bound_result 512 r)"
  by (simp add: bounded_result_def bound_result_def boundText_length)

lemma run_checks_bounded:
  assumes "int (length done) \<le> 256" "list_all bounded_result done"
  shows "length (run_checks DefaultLimits eval done cs) \<le> 257 \<and> list_all bounded_result (run_checks DefaultLimits eval done cs)"
proof -
  have lim: "vl_MaxChecks DefaultLimits = 256" "vl_MaxObservedChars DefaultLimits = 512" by (simp_all add: DefaultLimits_def)
  show ?thesis using assms run_checks_eq [of "done" DefaultLimits eval cs]
    by (auto simp: lim list_all_iff)
qed

text \<open>A report is bounded: it has at most 257 checks (the budget of 256 and the check that reports that it is
  exceeded), and each text of a check is cut at 512 bytes plus the truncation mark.\<close>

theorem report_bounded:
  "length (rv_Checks (Verify clock (Some (NewVerifier ob p)) inp)) \<le> 257
   \<and> list_all bounded_result (rv_Checks (Verify clock (Some (NewVerifier ob p)) inp))"
proof (cases ob)
  case None
  then show ?thesis by (simp add: Verify_def Let_def structural_def bounded_result_def)
next
  case (Some o')
  have l: "vl_MaxObservedChars DefaultLimits = 512" by (simp add: DefaultLimits_def)
  have "list_all bounded_result (map (bound_result 512) rs)" for rs by (simp add: list_all_iff)
  then show ?thesis unfolding Some Verify_def
    by (simp add: Let_def l split: prod.splits) (intro conjI impI run_checks_bounded [THEN conjunct1] run_checks_bounded [THEN conjunct2]; simp)
qed

section \<open>Git status\<close>

text \<open>Only what differs from the baseline is attributed to the task.\<close>

lemma changed_files_differ:
  "f \<in> set (changedFiles current baseline limit) \<Longrightarrow>
     (cf_Path f, cf_Status f) \<in> set current \<and> map_get baseline (cf_Path f) \<noteq> Some (cf_Status f)"
  by (auto simp: changedFiles_def Let_def split: if_splits dest!: in_set_takeD)

end
