(* ===== verification/Agent_Theorems.thy ===== *)
theory Agent_Theorems
  imports Agent_Run Verifier_Theorems Store_Run
begin

text \<open>
  What a run of the agent loop guarantees: it ends within its limits, a tool with an effect runs only behind the
  policy and its durable attempt, and the result agrees with the durable task.
\<close>

section \<open>The whole run\<close>

lemma Run_cases:
  obtains (failed) e st where "bootstrap lp task bf ob store = (Inl e, st)"
    "Run lp task started bf ob turns store = (persistenceFailure lp e, fresh_session lp task st)"
  | (booted) y st where "bootstrap lp task bf ob store = (Inr y, st)"
    "Run lp task started bf ob turns store = run_loop lp task (run_deadline lp started) turns 0 (start_session lp task st)"
  by (cases "bootstrap lp task bf ob store"; cases "fst (bootstrap lp task bf ob store)") (auto simp: Run_def)

text \<open>The counters a run starts with: those of the recovered task, or zero.\<close>

definition seeded :: "(RecoverySeed \<Rightarrow> int) \<Rightarrow> Loop \<Rightarrow> int" where
  "seeded f lp = (case lp_recovery lp of None \<Rightarrow> 0 | Some sd \<Rightarrow> max 0 (f sd))"

lemma seeded_nonneg: "0 \<le> seeded f lp"
  by (simp add: seeded_def split: option.splits)

lemma start_counters:
  "rn_turns (ss_run (start_session lp task store)) = seeded sd_Turns lp"
  "rn_attempts (ss_run (start_session lp task store)) = seeded sd_Attempts lp"
  "rn_corrections (ss_run (start_session lp task store)) = 0"
  "rn_repeated (ss_run (start_session lp task store)) = seeded sd_Repeated lp"
  "ss_deeds (start_session lp task store) = []"
  "ss_store (start_session lp task store) = store"
  by (simp_all add: start_session_def seed_session_def fresh_session_def fresh_run_def seeded_def Let_def split: option.splits)

text \<open>Model attempts are what the counters count.\<close>

lemma counted_from_start:
  assumes "counted lp task (start_session lp task store) ss"
  shows "rn_turns (ss_run ss) = seeded sd_Turns lp + int (length (filter is_attempt (ss_deeds ss)))"
    "rn_attempts (ss_run ss) = seeded sd_Attempts lp + int (length (filter is_attempt (ss_deeds ss)))"
    "list_all (safe_deed lp task) (ss_deeds ss)"
  using assms by (auto simp: counted_def start_counters)

lemma fresh_deeds [simp]: "ss_deeds (fresh_session lp task store) = []" "ss_store (fresh_session lp task store) = store"
  by (simp_all add: fresh_session_def)

text \<open>C18: a run of the loop always ends, and within its limits: whatever the model, the tools and the
  database do, it makes at most \<open>MaxSteps\<close> and at most \<open>ProviderBudget\<close> model attempts, less what a resumed
  run already spent, at most \<open>MaxCorrections\<close> corrections, and at most one repeated action above its limit.\<close>

theorem run_within_limits:
  "case Run lp task started bf ob turns store of (r, ss) \<Rightarrow>
     int (length (filter is_attempt (ss_deeds ss))) \<le> max 0 (lm_MaxSteps (lp_limits lp) - seeded sd_Turns lp)
     \<and> int (length (filter is_attempt (ss_deeds ss))) \<le> max 0 (lm_ProviderBudget (lp_limits lp) - seeded sd_Attempts lp)
     \<and> lr_Turns r \<le> max (seeded sd_Turns lp) (lm_MaxSteps (lp_limits lp))
     \<and> lr_Corrections r \<le> max 0 (lm_MaxCorrections (lp_limits lp))
     \<and> lr_Repeated r \<le> max (seeded sd_Repeated lp) (lm_MaxRepeatedActions (lp_limits lp)) + 1"
proof (cases rule: Run_cases [where lp = lp and task = task and bf = bf and ob = ob and store = store and started = started and turns = turns])
  case (failed e st)
  show ?thesis unfolding failed(2)
    using seeded_nonneg [of sd_Turns lp] seeded_nonneg [of sd_Repeated lp] by (simp add: persistenceFailure_def)
next
  case (booted y st)
  obtain r ss where x: "run_loop lp task (run_deadline lp started) turns 0 (start_session lp task st) = (r, ss)" by fastforce
  have "turn_within lp task (start_session lp task st) (r, ss)" using run_loop_ok x by metis
  then have t: "counted lp task (start_session lp task st) ss"
      "within (lp_limits lp) 1 (ss_run (start_session lp task st)) (ss_run ss)" "settled_result task r ss"
      "rn_turns (ss_run ss) \<le> max (seeded sd_Turns lp) (lm_MaxSteps (lp_limits lp))"
      "rn_attempts (ss_run ss) \<le> max (seeded sd_Attempts lp) (lm_ProviderBudget (lp_limits lp))"
    by (simp_all add: turn_within_def start_counters)
  have "lr_Turns r = rn_turns (ss_run ss)" "lr_Corrections r = rn_corrections (ss_run ss)" "lr_Repeated r = rn_repeated (ss_run ss)"
    using t(3) by (simp_all add: settled_result_def)
  moreover have "rn_corrections (ss_run ss) \<le> max 0 (lm_MaxCorrections (lp_limits lp))"
    "rn_repeated (ss_run ss) \<le> max (seeded sd_Repeated lp) (lm_MaxRepeatedActions (lp_limits lp)) + 1"
    using t(2) by (simp_all add: within_def start_counters)
  ultimately show ?thesis unfolding booted(2) x prod.case using t(4,5) counted_from_start(1,2) [OF t(1)] by linarith
qed


section \<open>The store of a run\<close>

text \<open>The governed runner writes to the store by the operations of the store.\<close>

definition runner_ok :: "Codec \<Rightarrow> (nat \<Rightarrow> Turn) \<Rightarrow> bool" where
  "runner_ok cx turns \<longleftrightarrow> (\<forall>k rq s. store_path cx s (snd (tn_runner (turns k) rq s)))"

lemma store_path_inv: "store_path cx (Some s) (Some s') \<Longrightarrow> store_inv s \<Longrightarrow> store_inv s'"
proof -
  assume "store_path cx (Some s) (Some s')" "store_inv s"
  then have "(store_step cx)\<^sup>*\<^sup>* s s'" "store_inv s" by (simp_all add: store_path_def)
  then show ?thesis by (induction rule: rtranclp_induct) (auto intro: store_inv_step)
qed

lemma modelTurn_path:
  assumes "modelTurn lp task deadline tn ss = (r, ss')" "\<And>rq s. store_path (lp_cx lp) s (snd (tn_runner tn rq s))"
  shows "store_path (lp_cx lp) (ss_store ss) (ss_store ss')"
proof -
  have "store_path (lp_cx lp) (ss_store (after_runner lp task tn ss)) (ss_store ss')"
    using modelTurn_rest [of lp task tn ss deadline] assms(1) by (simp add: turn_ok_def progress_def)
  moreover have "store_path (lp_cx lp) (ss_store ss) (ss_store (after_runner lp task tn ss))"
    using assms(2) [of "ss_store ss"] by (simp add: after_runner_def Let_def)
  ultimately show ?thesis using store_path_trans by blast
qed

lemma run_loop_path:
  assumes "runner_ok (lp_cx lp) turns"
  shows "store_path (lp_cx lp) (ss_store ss) (ss_store (snd (run_loop lp task deadline turns k ss)))"
  using assms
proof (induction lp task deadline turns k ss rule: run_loop.induct)
  case (1 lp task deadline turns k ss)
  show ?case
  proof (cases "loop_head_stop lp task deadline (turns k) ss")
    case (Some x)
    then obtain oc reason where x: "x = stop lp task (ft_Stop (tn_faults (turns k))) oc reason id ss" "oc \<noteq> OutcomeCompleted"
      by (auto simp: loop_head_stop_def Let_def split: option.splits ctx_end.splits if_splits)
    have "calm lp task ss (snd x)"
      using stop_ok [of lp task "ft_Stop (tn_faults (turns k))" oc reason id ss "fst x" "snd x"] x by simp
    then show ?thesis using Some by (simp add: run_loop.simps calm_def progress_def)
  next
    case None
    obtain r ss' where m: "modelTurn lp task deadline (turns k) ss = (r, ss')" by fastforce
    have p: "store_path (lp_cx lp) (ss_store ss) (ss_store ss')"
      by (rule modelTurn_path [OF m]) (use 1(2) in \<open>simp add: runner_ok_def\<close>)
    show ?thesis
    proof (cases r)
      case (Some res)
      then show ?thesis using None m p by (simp add: run_loop.simps)
    next
      case n: None
      have "store_path (lp_cx lp) (ss_store ss') (ss_store (snd (run_loop lp task deadline turns (Suc k) ss')))"
        using 1(1) [OF None m [symmetric] n 1(2)] .
      then show ?thesis using store_path_trans [OF p] None m n by (simp add: run_loop.simps)
    qed
  qed
qed

lemma BootstrapTask_path:
  assumes "BootstrapTask cx en bf record plan ob s = (r, s')"
  shows "(store_step cx)\<^sup>*\<^sup>* s s'"
proof -
  obtain r1 s1 where c1: "CreateTask cx (bf_Create bf) record s = (r1, s1)" by fastforce
  obtain r2 s2 where c2: "StartTask cx (bf_Start bf) (tc_TaskID record) s1 = (r2, s2)" by fastforce
  obtain r3 s3 where c3: "(case plan of None \<Rightarrow> (Inr (), s2)
      | Some p \<Rightarrow> SaveAcceptancePlan cx (bf_Plan bf) (tc_TaskID record) (en_plan en p) (Digest (en_check en) (en_sha256hex en) (Some p)) s2) = (r3, s3)"
    by fastforce
  obtain r4 s4 where c4: "(case captureGitBaseline ob of None \<Rightarrow> (Inr (), s3)
      | Some (st, df, stt, dft) \<Rightarrow> SaveWorkspaceBaseline cx (bf_Baseline bf) (tc_TaskID record) st df stt dft s3) = (r4, s4)"
    by fastforce
  have p1: "(store_step cx)\<^sup>*\<^sup>* s s1" using create_task [OF c1] by blast
  have p2: "(store_step cx)\<^sup>*\<^sup>* s s2" using p1 start_task [OF c2] by (rule rtranclp.rtrancl_into_rtrancl)
  have "(store_step cx)\<^sup>*\<^sup>* s2 s3" using c3 by (auto split: option.splits intro: save_plan)
  with p2 have p3: "(store_step cx)\<^sup>*\<^sup>* s s3" by (rule rtranclp_trans)
  have "(store_step cx)\<^sup>*\<^sup>* s3 s4" using c4 by (auto split: option.splits intro: save_baseline)
  with p3 have p4: "(store_step cx)\<^sup>*\<^sup>* s s4" by (rule rtranclp_trans)
  have "s' \<in> {s1, s2, s3, s4}"
    using assms unfolding BootstrapTask_def c1 prod.case
    by (cases r1; cases r2; cases r3) (simp_all add: c2 c3 c4)
  then show ?thesis using p1 p2 p3 p4 by blast
qed

lemma bootstrap_path:
  assumes "bootstrap lp task bf ob store = (r, st)"
  shows "store_path (lp_cx lp) store st"
  using assms BootstrapTask_path
  by (auto simp: bootstrap_def store_path_def option.rel_refl split: option.splits prod.splits)

text \<open>C17: the result of a run and the durable task agree. From any store that satisfies the invariant, a run
  that does not report a failure of the store itself changes the store only by operations of the store,
  and reports completion only when the last thing it did was a verification that passed. If the run
  finalizes its task, which every run does but that of a work unit, the task is left with the status of
  the reported outcome, running for the three pauses.\<close>

theorem result_agrees_with_durable_task:
  assumes "runner_ok (lp_cx lp) turns" "store_inv s0"
    and "Run lp task started bf ob turns (Some s0) = (r, ss)" "lr_Outcome r \<noteq> OutcomePersistenceFailure"
  shows "\<exists>s. ss_store ss = Some s \<and> (store_step (lp_cx lp))\<^sup>*\<^sup>* s0 s
    \<and> (\<not> ts_SkipTaskFinalize task \<longrightarrow> TaskStatus (ts_ID task) s = Some (durable_status (lr_Outcome r)))
    \<and> (lr_Outcome r = OutcomeCompleted \<longrightarrow> (\<exists>rep. last (ss_deeds ss) = Verified rep \<and> rv_Decision rep = DecisionPassed))"
proof (cases rule: Run_cases [where lp = lp and task = task and bf = bf and ob = ob and store = "Some s0" and started = started and turns = turns])
  case (failed e st)
  then show ?thesis using assms(3,4) by (simp add: persistenceFailure_def)
next
  case (booted y st)
  let ?x = "run_loop lp task (run_deadline lp started) turns 0 (start_session lp task st)"
  have x: "?x = (r, ss)" using booted(2) assms(3) by simp
  have "store_path (lp_cx lp) (Some s0) (ss_store ss)"
    using store_path_trans [OF bootstrap_path [OF booted(1)]] run_loop_path [OF assms(1), of "start_session lp task st" task "run_deadline lp started" 0] x
    by (simp add: start_counters)
  then obtain s where s: "ss_store ss = Some s" "store_path (lp_cx lp) (Some s0) (Some s)"
    by (cases "ss_store ss") (auto simp: store_path_def)
  then have "store_inv s" using store_path_inv assms(2) by blast
  moreover have "settled_result task r ss" using run_loop_ok x by (metis turn_within_def fst_conv snd_conv)
  ultimately show ?thesis using s assms(4) by (auto simp: settled_result_def store_path_def)
qed

section \<open>A canceled run\<close>

text \<open>A loop over the empty store whose context is canceled before the first turn.\<close>

definition demo_encoding :: Encoding where
  \<open>demo_encoding = \<lparr>en_arguments = (\<lambda>_. ''{}''), en_observation = on_ID,
     en_data = (\<lambda>d. case d of WriteData w \<Rightarrow> ''{"path":"'' @ we_Path w @ ''","after_hash":"'' @ we_AfterHash w @ ''","outcome":"'' @ we_Outcome w @ ''"}'' | _ \<Rightarrow> ''{}''),
     en_config = (\<lambda>_. []), en_plan = (\<lambda>_. []), en_check = ck_ID, en_sha256hex = id, en_report = (\<lambda>_. []), en_verification = (\<lambda>d s _. d @ s),
     en_correction = (\<lambda>_. []), en_policyMessage = (\<lambda>t _ _. t), en_intent = (\<lambda>r d _. r @ d), en_fingerprint = (\<lambda>t _. t),
     en_approval = (\<lambda>r d. r @ d), en_error = (\<lambda>_. ''error''), en_failure = (\<lambda>_. ''failure''), en_outcome = (\<lambda>_. []),
     en_admission = (\<lambda>_. []), en_call = (\<lambda>_. ''call'')\<rparr>\<close>

definition demo_loop :: Loop where
  "demo_loop = \<lparr>lp_cx = demo_codec, lp_en = demo_encoding, lp_refusal = (\<lambda>_. False), lp_claim = (\<lambda>_. False), lp_workspace = ''/w'',
     lp_catalog = (\<lambda>t _. (t = ''write_file'', False)), lp_recipes = (\<lambda>_. None), lp_contract = [], lp_limits = DefaultLoopLimits, lp_model = ''m'',
     lp_identity = [], lp_policy = Some \<lparr>pc_Modes = [(''write_file'', ModeAllow)], pc_RecipeModes = []\<rparr>, lp_writePolicy = [], lp_recipePolicy = [],
     lp_recipeCatalogDigest = [], lp_plan = Some demo_plan, lp_acceptancePlanDigest = [], lp_executionContractJSON = [],
     lp_executionContractHash = [], lp_recovery = None\<rparr>"

definition demo_run_task :: Task where
  "demo_run_task = \<lparr>ts_ID = ''t'', ts_Prompt = ''write a.txt'', ts_WorkUnitID = [], ts_SkipTaskFinalize = False\<rparr>"

definition no_faults :: Faults where
  "no_faults = \<lparr>ft_RecordAction = None, ft_Decision = None, ft_Approvals = None, ft_Reject = None, ft_Prepare = None, ft_Complete = None,
     ft_Pending = None, ft_Snapshot = None, ft_PendingInput = None, ft_SaveVerification = None, ft_Stop = None\<rparr>"

definition demo_turn :: Turn where
  "demo_turn = \<lparr>tn_ctx = Some CtxCanceled, tn_now = 1, tn_pressure = False,
     tn_runner = (\<lambda>_ s. (admission_only (admission_result AdmissionCircuitOpen AdmissionCircuitOpen 0 None) None, s)), tn_ctx_after = None,
     tn_now_after = 1, tn_signature = ''sig'', tn_planWrite = (\<lambda>_. ([], [])),
     tn_execute = (\<lambda>a. \<lparr>on_ID = [], on_Tool = act_Tool a, on_Success = False, on_Data = NoData, on_Failure = None, on_Truncated = False,
        on_Untrusted = False, on_Metadata = []\<rparr>), tn_duration = 1, tn_observer = demo_observer, tn_verifyNow = [], tn_faults = no_faults\<rparr>"

definition no_boot_faults :: BootFaults where
  "no_boot_faults = \<lparr>bf_Create = None, bf_Start = None, bf_Plan = None, bf_Baseline = None\<rparr>"

definition demo_canceled :: "LoopResult \<times> Session" where
  "demo_canceled = Run demo_loop demo_run_task 0 no_boot_faults demo_observer (\<lambda>_. demo_turn) (Some empty_store)"

theorem result_agrees_with_durable_task_witness:
  "\<exists>s. ss_store (snd demo_canceled) = Some s \<and> (store_step demo_codec)\<^sup>*\<^sup>* empty_store s
    \<and> TaskStatus ''t'' s = Some (durable_status (lr_Outcome (fst demo_canceled)))
    \<and> (lr_Outcome (fst demo_canceled) = OutcomeCompleted \<longrightarrow>
        (\<exists>rep. last (ss_deeds (snd demo_canceled)) = Verified rep \<and> rv_Decision rep = DecisionPassed))"
proof -
  have r: "runner_ok (lp_cx demo_loop) (\<lambda>_. demo_turn)" by (simp add: runner_ok_def demo_turn_def)
  have i: "store_inv empty_store" by (rule store.inv_init) simp
  have f: "\<not> ts_SkipTaskFinalize demo_run_task" by (simp add: demo_run_task_def)
  have c: "lr_Outcome (fst demo_canceled) \<noteq> OutcomePersistenceFailure" by code_simp
  have "Run demo_loop demo_run_task 0 no_boot_faults demo_observer (\<lambda>_. demo_turn) (Some empty_store) = (fst demo_canceled, snd demo_canceled)"
    by (simp add: demo_canceled_def)
  from result_agrees_with_durable_task [OF r i this c] f show ?thesis by (simp add: demo_loop_def demo_run_task_def)
qed

text \<open>The ids of a plan are compared with each other, not with those of the structural checks: a plan with
  a check named \<open>git_observed\<close> is accepted, verification passes, and the key of the stored checks refuses the attempt.\<close>

definition colliding_plan :: Plan where
  "colliding_plan = demo_plan\<lparr>pl_Checks := [(hd (pl_Checks demo_plan))\<lparr>ck_ID := ''git_observed''\<rparr>]\<rparr>"

lemma colliding_plan_parses:
  \<open>ParsePlan ''{"version": 1, "checks": [{"id": "git_observed", "type": "file_exists", "path": "a.txt"}]}'' = Inr colliding_plan\<close>
  by code_simp

lemma structural_id_blocks_completion:
  "rv_Decision (Verify [] (Some (NewVerifier (Some demo_observer) (Some colliding_plan))) demo_input) = DecisionPassed
   \<and> fst (SaveVerificationAttempt demo_codec None (verification_record demo_loop demo_run_task
        (Verify [] (Some (NewVerifier (Some demo_observer) (Some colliding_plan))) demo_input)) demo_created)
      = Inl (ConstraintViolated ''verification_checks'')"
  by code_simp

end
