(* ===== verification/Protocol_Theorems.thy ===== *)
theory Protocol_Theorems
  imports Protocol
begin

text \<open>
  What the protocol promises: a document put in an envelope is found again exactly, whatever its strings
  contain; nothing is executable but one well-formed, registered and valid action; and two actions have one
  fingerprint exactly when they name the same tool with the same arguments.
\<close>

section \<open>Where the tags are\<close>

lemma marker_of_kind:
  "(m, k, opn) \<in> set envelopeMarkers \<Longrightarrow> k \<noteq> KindInvalid \<and> m = (if opn then open_marker k else close_marker k)"
  by (auto simp: envelopeMarkers_def)

text \<open>The scan, read backwards: what stands before the first tag has no marker, and the scan goes on behind
  the tag.\<close>

lemma marker_head: "m \<in> set envelopeMarkers \<Longrightarrow> fst m @ r \<noteq> [] \<and> hd (fst m @ r) = CHR ''<''"
  by (auto simp: envelopeMarkers_def)

lemma markerAt_split:
  assumes "markerAt s = Some (m, k, opn)"
  obtains r where "(m, k, opn) \<in> set envelopeMarkers" "s = m @ r" "drop (length m) s = r"
proof (rule that [OF _ _ refl])
  show "(m, k, opn) \<in> set envelopeMarkers" using markerAt_SomeD [OF assms] by simp
  show "s = m @ drop (length m) s" using markerAt_SomeD [OF assms] by (metis HasPrefix_def append_take_drop_id fst_conv)
qed

lemma scan_outside_none: "scanEnvelopeTags s n False False False = [] \<Longrightarrow> marker_free s"
proof (induction s arbitrary: n)
  case (Cons c cs)
  then show ?case by (cases "markerAt (c # cs)") (auto simp: split_beta split: prod.splits)
qed simp

lemma scan_outside_first:
  "scanEnvelopeTags s n False False False = t # ts \<Longrightarrow>
   \<exists>pre m r. s = pre @ m @ r \<and> marker_free pre \<and> (m, et_kind t, et_opening t) \<in> set envelopeMarkers
     \<and> ts = scanEnvelopeTags r (n + length pre + length m) (et_opening t) False False"
proof (induction s arbitrary: n)
  case (Cons c cs)
  show ?case
  proof (cases "markerAt (c # cs)")
    case None
    then have "scanEnvelopeTags cs (Suc n) False False False = t # ts" using Cons.prems by simp
    from Cons.IH [OF this] obtain pre m r where h: "cs = pre @ m @ r" "marker_free pre"
        "(m, et_kind t, et_opening t) \<in> set envelopeMarkers"
        "ts = scanEnvelopeTags r (Suc n + length pre + length m) (et_opening t) False False" by blast
    have "markerAt ((c # pre) @ m @ r) = markerAt (c # pre)"
      by (rule markerAt_before) (use marker_head [OF h(3)] in auto)
    then have "marker_free (c # pre)" using None h(1,2) by simp
    then show ?thesis using h by (intro exI [of _ "c # pre"] exI [of _ m] exI [of _ r]) simp
  next
    case (Some q)
    obtain m k opn where q: "q = (m, k, opn)" by (cases q)
    obtain r where r: "(m, k, opn) \<in> set envelopeMarkers" "c # cs = m @ r" "drop (length m) (c # cs) = r"
      using markerAt_split [OF Some [unfolded q]] .
    have "t = \<lparr>et_kind = k, et_opening = opn, et_start = n, et_end = n + length m\<rparr>"
        "ts = scanEnvelopeTags r (n + length m) opn False False"
      using Cons.prems Some q r(3) by auto
    then show ?thesis using r(1,2) by (intro exI [of _ "[]"] exI [of _ m] exI [of _ r]) simp
  qed
qed simp

lemma scan_inside_first:
  "scanEnvelopeTags s n True inString escaped = t # ts \<Longrightarrow> \<not> inString \<longrightarrow> \<not> escaped \<Longrightarrow>
   \<exists>body m r. s = body @ m @ r \<and> plain_body inString escaped body \<and> (m, et_kind t, et_opening t) \<in> set envelopeMarkers
     \<and> ts = scanEnvelopeTags r (n + length body + length m) (et_opening t) False False"
proof (induction s arbitrary: n inString escaped)
  case (Cons c cs)
  have step: ?case if s: "scanEnvelopeTags cs (Suc n) True i e = t # ts" "\<not> i \<longrightarrow> \<not> e"
    and body: "\<And>body m r. cs = body @ m @ r \<Longrightarrow> (m, et_kind t, et_opening t) \<in> set envelopeMarkers \<Longrightarrow> plain_body i e body \<Longrightarrow> plain_body inString escaped (c # body)" for i e
  proof -
    obtain body m r where h: "cs = body @ m @ r" "plain_body i e body" "(m, et_kind t, et_opening t) \<in> set envelopeMarkers"
        "ts = scanEnvelopeTags r (Suc n + length body + length m) (et_opening t) False False"
      using Cons.IH [OF s] by blast
    then show ?thesis using body by (intro exI [of _ "c # body"] exI [of _ m] exI [of _ r]) simp
  qed
  show ?case
  proof (cases inString)
    case True
    show ?thesis
    proof (rule step)
      let ?i = "if escaped then True else if c = CHR 0x5C then True else c \<noteq> CHR 0x22"
      let ?e = "\<not> escaped \<and> c = CHR 0x5C"
      show "scanEnvelopeTags cs (Suc n) True ?i ?e = t # ts" using Cons.prems True by (auto split: if_splits)
      show "\<not> ?i \<longrightarrow> \<not> ?e" by simp
      show "plain_body inString escaped (c # body)" if "plain_body ?i ?e body" for body
        using that True by (cases escaped) (auto split: if_splits)
    qed
  next
    case False
    then have esc: "\<not> escaped" using Cons.prems by simp
    show ?thesis
    proof (cases "markerAt (c # cs)")
      case None
      show ?thesis
      proof (rule step)
        show "scanEnvelopeTags cs (Suc n) True (c = CHR 0x22) False = t # ts" using Cons.prems False esc None by (auto split: if_splits)
        show "plain_body inString escaped (c # body)" if "cs = body @ m @ r" "(m, et_kind t, et_opening t) \<in> set envelopeMarkers"
            "plain_body (c = CHR 0x22) False body" for body m r
        proof -
          have "markerAt ((c # body) @ m @ r) = markerAt (c # body)"
            by (rule markerAt_before) (use marker_head [OF that(2)] in auto)
          then show ?thesis using None that False by simp
        qed
      qed simp
    next
      case (Some q)
      obtain m k opn where q: "q = (m, k, opn)" by (cases q)
      obtain r where r: "(m, k, opn) \<in> set envelopeMarkers" "c # cs = m @ r" "drop (length m) (c # cs) = r"
        using markerAt_split [OF Some [unfolded q]] .
      have "t = \<lparr>et_kind = k, et_opening = opn, et_start = n, et_end = n + length m\<rparr>"
          "ts = scanEnvelopeTags r (n + length m) opn False False"
        using Cons.prems Some q False esc r(3) by (auto split: if_splits)
      then show ?thesis using r(1,2) False by (intro exI [of _ "[]"] exI [of _ m] exI [of _ r]) simp
    qed
  qed
qed simp

text \<open>An envelope is found exactly when the response has one opening marker and one closing marker of its
  kind outside strings, and none else.\<close>

lemma extract_iff:
  "extractEnvelope refusal claim s = (k, block, mixed, None) \<longleftrightarrow>
     k \<noteq> KindInvalid \<and> (\<exists>pre post. s = pre @ open_marker k @ block @ close_marker k @ post
        \<and> marker_free pre \<and> plain_body False False block \<and> marker_free post \<and> mixed = (TrimSpace (pre @ post) \<noteq> []))"
proof
  assume e: "extractEnvelope refusal claim s = (k, block, mixed, None)"
  let ?ts = "scanEnvelopeTags s 0 False False False"
  obtain t u where ts: "?ts = [t, u]" "et_opening t" "\<not> et_opening u" "et_kind t = k" "et_kind u = k"
  proof -
    have l: "length ?ts = 2" using e by (auto simp: extractEnvelope_def Let_def split: if_splits)
    then obtain t u where "?ts = [t, u]" by (auto simp: length_Suc_conv numeral_2_eq_2)
    then show ?thesis using e that by (auto simp: extractEnvelope_def Let_def split: if_splits)
  qed
  obtain pre m r where a: "s = pre @ m @ r" "marker_free pre" "(m, k, True) \<in> set envelopeMarkers"
      "[u] = scanEnvelopeTags r (length pre + length m) True False False"
    using scan_outside_first [OF ts(1)] ts by auto
  obtain body q post where b: "r = body @ q @ post" "plain_body False False body" "(q, k, False) \<in> set envelopeMarkers"
      "[] = scanEnvelopeTags post (length pre + length m + length body + length q) False False False"
    using scan_inside_first [OF a(4) [symmetric]] ts by auto
  have k: "k \<noteq> KindInvalid" "m = open_marker k" "q = close_marker k" using marker_of_kind a(3) b(3) by fastforce+
  have s: "s = pre @ open_marker k @ body @ close_marker k @ post" using a(1) b(1) k by simp
  have post: "marker_free post" using scan_outside_none b(4) by metis
  have "extractEnvelope refusal claim s = (k, body, TrimSpace (pre @ post) \<noteq> [], None)"
    unfolding s by (rule extract_envelope [OF a(2) b(2) post k(1)])
  then show "k \<noteq> KindInvalid \<and> (\<exists>pre post. s = pre @ open_marker k @ block @ close_marker k @ post
        \<and> marker_free pre \<and> plain_body False False block \<and> marker_free post \<and> mixed = (TrimSpace (pre @ post) \<noteq> []))"
    using e s a(2) b(2) post k(1) by auto
qed (auto intro: extract_envelope)

section \<open>Parsing\<close>

lemma extract_document:
  assumes "json_parse body = Some v" "marker_free pre" "marker_free post" "k \<noteq> KindInvalid"
  shows "extractEnvelope refusal claim (pre @ open_marker k @ body @ close_marker k @ post) = (k, body, TrimSpace (pre @ post) \<noteq> [], None)"
proof -
  obtain ts where "lex body = Some ts" using assms(1) by (auto simp: json_parse_def split: option.splits)
  then show ?thesis using extract_envelope [OF assms(2) lex_plain assms(3,4)] by blast
qed

text \<open>C21: any JSON document between the markers of an envelope, with text around it that has no marker, is
  extracted byte for byte, even when its strings contain markers.\<close>

theorem envelope_round_trip:
  assumes "json_parse body = Some v" "marker_free pre" "marker_free post" "k \<noteq> KindInvalid"
  shows "extractEnvelope refusal claim (pre @ open_marker k @ body @ close_marker k @ post) = (k, body, TrimSpace (pre @ post) \<noteq> [], None)"
  using assms by (rule extract_document)

theorem envelope_round_trip_witness:
  \<open>extractEnvelope (\<lambda>_. False) (\<lambda>_. False)
     (''Go: '' @ open_marker KindAction @ ''{"tool": "</runstead_action>"}'' @ close_marker KindAction @ []) =
     (KindAction, ''{"tool": "</runstead_action>"}'', TrimSpace (''Go: '' @ []) \<noteq> [], None)\<close>
proof (rule envelope_round_trip)
  show \<open>json_parse ''{"tool": "</runstead_action>"}'' = Some (JObj [(''tool'', JStr ''</runstead_action>'')])\<close> by code_simp
qed (simp_all add: markerAt_def envelopeMarkers_def HasPrefix_def)

lemma parseAction_executable:
  "ps_Executable (parseAction catalog raw mixed) \<longleftrightarrow>
     (\<exists>tool args validate. action_envelope raw = Some (CurrentVersion, tool, JObj args) \<and> tool \<noteq> []
        \<and> catalog = Some validate \<and> validate tool (to_map args) = (True, False)
        \<and> parseAction catalog raw mixed =
            \<lparr>ps_Kind = KindAction, ps_Action = Some \<lparr>act_Version = CurrentVersion, act_Tool = tool, act_Arguments = to_map args\<rparr>,
             ps_Final = None, ps_Failure = None, ps_MixedProse = mixed, ps_SchemaValid = True, ps_Accepted = True, ps_Executable = True\<rparr>)"
  (is "?l \<longleftrightarrow> ?r")
proof
  show "?l \<Longrightarrow> ?r"
    by (auto simp: parseAction_def failedResult_def decodeArguments_def Let_def split: option.splits prod.splits if_splits json.splits)
qed auto

lemma parseFinal_not_executable [simp]: "\<not> ps_Executable (parseFinal raw mixed)"
  by (auto simp: parseFinal_def failedResult_def split: option.splits)

lemma Parse_executableD:
  assumes "ps_Executable (Parse refusal claim catalog response)"
  obtains block mixed raw where "int (length response) \<le> maxResponseBytes"
    "extractEnvelope refusal claim response = (KindAction, block, mixed, None)"
    "json_parse block = Some raw" "scanJSONValue maxJSONDepth 0 raw"
    "Parse refusal claim catalog response = parseAction catalog raw mixed"
proof -
  obtain k block mixed fail where e: "extractEnvelope refusal claim response = (k, block, mixed, fail)"
    by (metis prod_cases4)
  have size: "\<not> int (length response) > maxResponseBytes" using assms by (auto simp: Parse_def failedResult_def)
  have f: "fail = None" using assms e size by (auto simp: Parse_def failedResult_def split: option.splits)
  obtain raw where raw: "decodeSingleJSON block = Some raw" using assms e size f
    by (auto simp: Parse_def failedResult_def split: option.splits)
  have k: "k = KindAction" using assms e size f raw by (auto simp: Parse_def split: if_splits)
  have p: "Parse refusal claim catalog response = parseAction catalog raw mixed" using e size f raw k by (simp add: Parse_def)
  have "json_parse block = Some raw" "scanJSONValue maxJSONDepth 0 raw"
    using raw by (auto simp: decodeSingleJSON_def split: option.splits if_splits)
  then show thesis using that size e f k p by simp
qed

text \<open>A key that differs in case only is not a duplicate, and the struct takes the last of the two.\<close>

lemma folded_key_overrides:
  \<open>ps_Action (Parse (\<lambda>_. False) (\<lambda>_. False) (Some (\<lambda>_ _. (True, False)))
     (open_marker KindAction @ ''{"version":"runstead.protocol.v1","tool":"a","TOOL":"b","arguments":{}}'' @ close_marker KindAction)) =
     Some \<lparr>act_Version = CurrentVersion, act_Tool = ''b'', act_Arguments = []\<rparr>\<close>
  by code_simp

section \<open>Fingerprints\<close>

text \<open>Two values are the same when they differ only in the order of the keys of their objects.\<close>

inductive same_json :: "json \<Rightarrow> json \<Rightarrow> bool" where
  same_null: "same_json JNull JNull"
| same_bool: "same_json (JBool b) (JBool b)"
| same_num: "same_json (JNum n) (JNum n)"
| same_str: "same_json (JStr s) (JStr s)"
| same_arr: "list_all2 same_json vs ws \<Longrightarrow> same_json (JArr vs) (JArr ws)"
| same_obj: "(\<And>k. rel_option same_json (map_of ps k) (map_of qs k)) \<Longrightarrow> same_json (JObj ps) (JObj qs)"

inductive_cases same_cases: "same_json (JArr vs) w" "same_json (JObj ps) w" "same_json JNull w" "same_json (JBool b) w" "same_json (JNum n) w" "same_json (JStr s) w"

inductive_simps same_json_simps [simp]:
  "same_json JNull w" "same_json (JBool b) w" "same_json (JNum n) w" "same_json (JStr s) w"
  "same_json (JArr vs) w" "same_json (JObj ps) w"

text \<open>No object in a value has a key twice.\<close>

fun unique_keys :: "json \<Rightarrow> bool" where
  "unique_keys (JArr vs) \<longleftrightarrow> list_all unique_keys vs"
| "unique_keys (JObj ps) \<longleftrightarrow> distinct (map fst ps) \<and> list_all (\<lambda>v. unique_keys v) (map snd ps)"
| "unique_keys v \<longleftrightarrow> True"

lemma scan_unique_keys: "scanJSONValue limit depth v \<Longrightarrow> unique_keys v"
  by (induction limit depth v rule: scanJSONValue.induct) (auto simp: list_all_iff)

lemma map_put_new: "k \<notin> fst ` set m \<Longrightarrow> map_put k v m = m @ [(k, v)]"
  by (induction m) auto

lemma to_map_acc: "distinct (map fst (m @ ps)) \<Longrightarrow> fold (\<lambda>(k, v) m. map_put k v m) ps m = m @ ps"
proof (induction ps arbitrary: m)
  case (Cons p ps)
  obtain k v where p: "p = (k, v)" by (cases p)
  have "map_put k v m = m @ [p]" using Cons.prems p by (auto intro: map_put_new)
  then show ?case using Cons p by simp
qed simp

lemma to_map_distinct: "distinct (map fst ps) \<Longrightarrow> to_map ps = ps"
  unfolding to_map_def using to_map_acc [of "[]" ps] by simp

lemma sorted_maps_eq:
  assumes "distinct (map fst ps)" "distinct (map fst qs)"
  shows "sort_key fst ps = sort_key fst qs \<longleftrightarrow> map_of ps = map_of qs"
proof -
  have "sort_key fst ps = sort_key fst qs" if "set ps = set qs"
  proof (rule map_sorted_distinct_set_unique [where f = fst])
    show "inj_on fst (set (sort_key fst ps) \<union> set (sort_key fst qs))" using assms that by (simp add: distinct_map)
    show "distinct (map fst (sort_key fst ps))" "distinct (map fst (sort_key fst qs))"
      using assms by (metis distinct_map distinct_sort set_sort)+
  qed (use that in simp_all)
  then show ?thesis using assms by (metis map_of_inject_set set_sort)
qed

lemma map_of_canonical: "map_of (map (\<lambda>(k, v). (k, f v)) ps) k = map_option f (map_of ps k)"
  by (induction ps) auto

lemma keys_canonical: "map fst (map (\<lambda>(k, v). (k, f v)) ps) = map fst ps"
  by (induction ps) auto

lemma map_option_rel: "map_option f x = map_option f y \<longleftrightarrow> rel_option (\<lambda>v w. f v = f w) x y"
  by (cases x; cases y) auto

lemma map_rel: "map f xs = map f ys \<longleftrightarrow> list_all2 (\<lambda>v w. f v = f w) xs ys"
  by (auto simp: list_all2_conv_all_nth list_eq_iff_nth_eq)

lemma canonical_objects:
  assumes "distinct (map fst ps)" "distinct (map fst qs)"
  shows "canonicalJSON (JObj ps) = canonicalJSON (JObj qs) \<longleftrightarrow>
    (\<forall>k. rel_option (\<lambda>v w. canonicalJSON v = canonicalJSON w) (map_of ps k) (map_of qs k))"
proof -
  let ?f = "map (\<lambda>(k, v). (k, canonicalJSON v))"
  have d: "distinct (map fst (?f ps))" "distinct (map fst (?f qs))" using assms by (simp_all only: keys_canonical)
  then have "canonicalJSON (JObj ps) = canonicalJSON (JObj qs) \<longleftrightarrow> map_of (?f ps) = map_of (?f qs)"
    by (simp only: canonicalJSON.simps json.inject to_map_distinct sorted_maps_eq)
  also have "\<dots> \<longleftrightarrow> (\<forall>k. map_option canonicalJSON (map_of ps k) = map_option canonicalJSON (map_of qs k))"
    by (simp only: fun_eq_iff map_of_canonical)
  also have "\<dots> \<longleftrightarrow> (\<forall>k. rel_option (\<lambda>v w. canonicalJSON v = canonicalJSON w) (map_of ps k) (map_of qs k))"
    by (simp only: map_option_rel)
  finally show ?thesis .
qed

lemma canonical_same:
  "unique_keys v \<Longrightarrow> unique_keys w \<Longrightarrow> canonicalJSON v = canonicalJSON w \<longleftrightarrow> same_json v w"
proof (induction v arbitrary: w)
  case (JArr vs)
  show ?case
  proof (cases w)
    case w: (JArr ws)
    have "canonicalJSON (JArr vs) = canonicalJSON w \<longleftrightarrow> list_all2 (\<lambda>x y. canonicalJSON x = canonicalJSON y) vs ws"
      using w by (simp add: map_rel)
    also have "\<dots> \<longleftrightarrow> list_all2 same_json vs ws"
      by (rule list.rel_cong) (use JArr w in \<open>auto simp: list_all_iff\<close>)
    finally show ?thesis using w by simp
  qed auto
next
  case (JObj ps)
  show ?case
  proof (cases w)
    case w: (JObj qs)
    have d: "distinct (map fst ps)" "distinct (map fst qs)" using JObj.prems w by simp_all
    have IH: "canonicalJSON x = canonicalJSON y \<longleftrightarrow> same_json x y" if "map_of ps k = Some x" "map_of qs k = Some y" for k x y
    proof -
      have xy: "(k, x) \<in> set ps" "(k, y) \<in> set qs" using that map_of_SomeD by metis+
      then show ?thesis using JObj.IH [OF xy(1), of x y] JObj.prems w by (force simp: list_all_iff)
    qed
    have "rel_option (\<lambda>x y. canonicalJSON x = canonicalJSON y) (map_of ps k) (map_of qs k) = rel_option same_json (map_of ps k) (map_of qs k)" for k
      by (rule option.rel_cong [OF refl refl]) (use IH in auto)
    then show ?thesis using canonical_objects [OF d] w by simp
  qed auto
qed (case_tac w; auto)+

text \<open>For a hash without collisions, two actions have one fingerprint exactly when they name one tool and
  their arguments are the same values, whatever the order of the keys.\<close>

theorem fingerprint_identifies_action:
  assumes "\<And>t u x y. hash t x = hash u y \<longleftrightarrow> t = u \<and> x = y"
    and "unique_keys (JObj (act_Arguments a))" "unique_keys (JObj (act_Arguments b))"
  shows "ActionFingerprint hash a = ActionFingerprint hash b \<longleftrightarrow>
    act_Tool a = act_Tool b \<and> same_json (JObj (act_Arguments a)) (JObj (act_Arguments b))"
  unfolding ActionFingerprint_def using assms(1) canonical_same [OF assms(2,3)] by simp

theorem fingerprint_identifies_action_witness:
  "ActionFingerprint Pair \<lparr>act_Version = CurrentVersion, act_Tool = ''t'', act_Arguments = [(''a'', JNum ''1''), (''b'', JNull)]\<rparr> =
   ActionFingerprint Pair \<lparr>act_Version = CurrentVersion, act_Tool = ''t'', act_Arguments = [(''b'', JNull), (''a'', JNum ''1'')]\<rparr>"
  by (rule fingerprint_identifies_action [THEN iffD2]) auto

text \<open>The arguments of an accepted action have unique keys, so the two conditions hold for whatever the
  parser returns.\<close>

lemma field_value_in:
  assumes "field_values names f ps = v # vs"
  shows "v \<in> snd ` set ps"
proof -
  have "v \<in> set (field_values names f ps)" using assms by simp
  then show ?thesis by (auto simp: field_values_def)
qed

lemma accepted_unique_keys:
  assumes "ps_Executable (Parse refusal claim catalog response)" "ps_Action (Parse refusal claim catalog response) = Some a"
  shows "unique_keys (JObj (act_Arguments a))"
proof -
  obtain block mixed raw where h: "scanJSONValue maxJSONDepth 0 raw"
      "Parse refusal claim catalog response = parseAction catalog raw mixed" using assms(1) by (rule Parse_executableD)
  obtain tool args where e: "action_envelope raw = Some (CurrentVersion, tool, JObj args)" and a: "act_Arguments a = to_map args"
    using assms h(2) parseAction_executable [of catalog raw mixed] by auto
  obtain ps where ps: "raw = JObj ps" "JObj args \<in> snd ` set ps" using e
    by (auto simp: action_envelope_def fields_of_def
        split: json.splits option.splits if_splits list.splits dest: field_value_in)
  have "\<forall>v \<in> snd ` set ps. unique_keys v" using scan_unique_keys [OF h(1)] ps(1) by (simp add: list_all_iff)
  then have "unique_keys (JObj args)" using ps(2) by blast
  then show ?thesis using a by (simp add: to_map_distinct)
qed

text \<open>The guard refuses an action exactly when one with the same fingerprint was recorded before.\<close>

lemma repeat_guard_blocks:
  "fst (RepeatGuard_Check hash (snd (RepeatGuard_Check hash seen a)) b) \<noteq> None \<longleftrightarrow>
     ActionFingerprint hash b \<in> insert (ActionFingerprint hash a) (set seen)"
  by (auto simp: RepeatGuard_Check_def Let_def)

section \<open>What an executable response is\<close>

text \<open>The walk over the values, as three separate conditions.\<close>

fun json_depth :: "json \<Rightarrow> nat" where
  "json_depth (JArr vs) = Suc (foldr (\<lambda>v d. max (json_depth v) d) vs 0)"
| "json_depth (JObj ps) = Suc (foldr (\<lambda>v d. max (json_depth v) d) (map snd ps) 0)"
| "json_depth v = 0"

fun json_numbers :: "json \<Rightarrow> string list" where
  "json_numbers (JNum n) = [n]"
| "json_numbers (JArr vs) = concat (map json_numbers vs)"
| "json_numbers (JObj ps) = concat (map (\<lambda>v. json_numbers v) (map snd ps))"
| "json_numbers v = []"

lemma foldr_max_le: "foldr (\<lambda>v d. max (f v) d) vs 0 \<le> n \<longleftrightarrow> (\<forall>v \<in> set vs. f v \<le> (n :: nat))"
  by (induction vs) auto

lemma scan_conditions:
  "depth \<le> limit \<Longrightarrow> scanJSONValue limit depth v \<longleftrightarrow>
     depth + json_depth v \<le> limit \<and> unique_keys v \<and> list_all ParseFloat_range (json_numbers v)"
proof (induction limit depth v rule: scanJSONValue.induct)
  case (1 limit depth vs)
  show ?case
  proof (cases "depth < limit")
    case True
    have "foldr (\<lambda>v d. max (json_depth v) d) vs 0 \<le> limit - Suc depth \<longleftrightarrow> (\<forall>v \<in> set vs. Suc depth + json_depth v \<le> limit)"
      using True by (auto simp: foldr_max_le)
    then have "depth + json_depth (JArr vs) \<le> limit \<longleftrightarrow> (\<forall>v \<in> set vs. Suc depth + json_depth v \<le> limit)" using True by auto
    then show ?thesis using 1 True by (auto simp: list_all_iff simp del: json_depth.simps)
  qed simp
next
  case (2 limit depth ps)
  show ?case
  proof (cases "depth < limit")
    case True
    have "foldr (\<lambda>v d. max (json_depth v) d) (map snd ps) 0 \<le> limit - Suc depth \<longleftrightarrow> (\<forall>v \<in> set (map snd ps). Suc depth + json_depth v \<le> limit)"
      using True by (simp only: foldr_max_le) auto
    then have "depth + json_depth (JObj ps) \<le> limit \<longleftrightarrow> (\<forall>v \<in> set (map snd ps). Suc depth + json_depth v \<le> limit)" using True by auto
    then show ?thesis using 2 True by (auto simp: list_all_iff simp del: json_depth.simps)
  qed simp
qed auto

text \<open>The fields of an action: a key stands for a field when the two fold to one name, and the last key that
  stands for a field decides.\<close>

definition stands_for :: "string \<Rightarrow> string \<Rightarrow> bool" where
  "stands_for key f \<longleftrightarrow> foldName key = foldName f"

definition last_field :: "(string \<times> json) list \<Rightarrow> string \<Rightarrow> json option" where
  "last_field fs f = map_of (map (\<lambda>(key, v). (foldName key, v)) (rev fs)) (foldName f)"

definition action_document :: "(string \<times> json) list \<Rightarrow> string \<Rightarrow> (string \<times> json) list \<Rightarrow> bool" where
  "action_document fs tool args \<longleftrightarrow>
     (\<forall>(key, v) \<in> set fs. stands_for key ''arguments''
        \<or> (stands_for key ''version'' \<or> stands_for key ''tool'') \<and> (v = JNull \<or> (\<exists>s. v = JStr s)))
     \<and> last_field fs ''version'' = Some (JStr CurrentVersion)
     \<and> last_field fs ''tool'' = Some (JStr tool) \<and> tool \<noteq> []
     \<and> last_field fs ''arguments'' = Some (JObj args)"

lemma action_names: "foldName ''version'' = ''VERSION''" "foldName ''tool'' = ''TOOL''" "foldName ''arguments'' = ''ARGUMENTS''"
  by code_simp+

lemma field_of_iff:
  assumes "inj_on foldName (set names)"
  shows "field_of names key = Some f \<longleftrightarrow> f \<in> set names \<and> foldName key = foldName f"
proof (cases "key \<in> set names")
  case True
  then show ?thesis using inj_onD [OF assms] by (auto simp: field_of_def)
next
  case False
  have "find (\<lambda>g. foldName g = foldName key) names = Some f" if "f \<in> set names" "foldName key = foldName f"
  proof (cases "find (\<lambda>g. foldName g = foldName key) names")
    case None
    then show ?thesis using that by (auto simp: find_None_iff)
  next
    case (Some g)
    then show ?thesis using that inj_onD [OF assms] by (auto simp: find_Some_iff)
  qed
  then show ?thesis using False by (auto simp: field_of_def find_Some_iff)
qed

lemma field_of_action:
  "field_of action_fields key = Some f \<longleftrightarrow> f \<in> set action_fields \<and> stands_for key f"
proof -
  have "inj_on foldName (set action_fields)"
    by (simp add: action_fields_def action_names inj_on_def del: foldName.simps)
  then show ?thesis by (simp add: field_of_iff stands_for_def del: foldName.simps)
qed

lemma field_values_last:
  assumes "f \<in> set action_fields"
  shows "last_field fs f = (case field_values action_fields f fs of [] \<Rightarrow> None | v # _ \<Rightarrow> Some v)"
proof -
  have "map_of (map (\<lambda>(key, v). (foldName key, v)) xs) (foldName f) =
      (case map snd (filter (\<lambda>(k, v). field_of action_fields k = Some f) xs) of [] \<Rightarrow> None | v # _ \<Rightarrow> Some v)" for xs
  proof (induction xs)
    case (Cons e xs)
    then show ?case using assms
      by (cases e; cases "foldName (fst e) = foldName f") (simp_all add: field_of_action stands_for_def del: foldName.simps)
  qed simp
  from this [of "rev fs"] show ?thesis by (simp add: last_field_def field_values_def rev_map rev_filter)
qed

lemma pointer_string_iff:
  "pointer_string vs = Some (Some x) \<longleftrightarrow> list_all is_string_or_null vs \<and> (\<exists>r. vs = JStr x # r)"
  by (auto simp: pointer_string_def split: list.splits json.splits)

lemma strings_or_null:
  assumes "f \<in> set action_fields"
  shows "list_all is_string_or_null (field_values action_fields f fs) \<longleftrightarrow>
    (\<forall>(key, v) \<in> set fs. stands_for key f \<longrightarrow> v = JNull \<or> (\<exists>s. v = JStr s))"
proof -
  have "is_string_or_null v \<longleftrightarrow> v = JNull \<or> (\<exists>s. v = JStr s)" for v by (cases v) (simp_all add: is_string_or_null_def)
  then show ?thesis using assms by (auto simp: field_values_def list_all_iff field_of_action)
qed

lemma stands_for_one:
  "stands_for key ''arguments'' \<Longrightarrow> \<not> stands_for key ''version'' \<and> \<not> stands_for key ''tool''"
  by (simp add: stands_for_def action_names del: foldName.simps)

lemma action_document_iff:
  "action_document fs tool args \<longleftrightarrow> known_fields action_fields fs \<and> tool \<noteq> []
     \<and> pointer_string (field_values action_fields ''version'' fs) = Some (Some CurrentVersion)
     \<and> pointer_string (field_values action_fields ''tool'' fs) = Some (Some tool)
     \<and> (\<exists>r. field_values action_fields ''arguments'' fs = JObj args # r)"
proof -
  have m: "''version'' \<in> set action_fields" "''tool'' \<in> set action_fields" "''arguments'' \<in> set action_fields"
    by (simp_all add: action_fields_def)
  have last: "last_field fs f = Some v \<longleftrightarrow> (\<exists>r. field_values action_fields f fs = v # r)" if "f \<in> set action_fields" for f v
    unfolding field_values_last [OF that] by (auto split: list.splits)
  have known: "known_fields action_fields fs \<longleftrightarrow> (\<forall>(key, v) \<in> set fs. stands_for key ''version'' \<or> stands_for key ''tool'' \<or> stands_for key ''arguments'')"
  proof -
    have "field_of action_fields key \<noteq> None \<longleftrightarrow> stands_for key ''version'' \<or> stands_for key ''tool'' \<or> stands_for key ''arguments''" for key
      using field_of_action [of key] by (auto simp: action_fields_def)
    then show ?thesis by (simp add: known_fields_def list_all_iff)
  qed
  show ?thesis
    unfolding action_document_def pointer_string_iff last [OF m(1)] last [OF m(2)] last [OF m(3)] known
      strings_or_null [OF m(1)] strings_or_null [OF m(2)]
    using stands_for_one by (auto 4 3)
qed

lemma action_envelope_iff:
  "action_envelope raw = Some (CurrentVersion, tool, JObj args) \<and> tool \<noteq> [] \<longleftrightarrow> (\<exists>fs. raw = JObj fs \<and> action_document fs tool args)"
proof (cases raw)
  case (JObj fs)
  then show ?thesis
    by (auto simp: action_document_iff action_envelope_def fields_of_def split: option.splits list.splits)
qed (auto simp: action_envelope_def fields_of_def known_fields_def field_values_def pointer_string_def)

lemma executable_action:
  "ps_Executable (Parse refusal claim catalog response) \<longleftrightarrow>
     int (length response) \<le> maxResponseBytes \<and>
     (\<exists>block mixed raw tool args validate.
        extractEnvelope refusal claim response = (KindAction, block, mixed, None)
        \<and> json_parse block = Some raw \<and> scanJSONValue maxJSONDepth 0 raw
        \<and> action_envelope raw = Some (CurrentVersion, tool, JObj args) \<and> tool \<noteq> []
        \<and> catalog = Some validate \<and> validate tool (to_map args) = (True, False)
        \<and> ps_Action (Parse refusal claim catalog response) = Some \<lparr>act_Version = CurrentVersion, act_Tool = tool, act_Arguments = to_map args\<rparr>)"
  (is "?l \<longleftrightarrow> ?r")
proof
  assume l: ?l
  then obtain block mixed raw where h: "int (length response) \<le> maxResponseBytes"
      "extractEnvelope refusal claim response = (KindAction, block, mixed, None)"
      "json_parse block = Some raw" "scanJSONValue maxJSONDepth 0 raw"
      "Parse refusal claim catalog response = parseAction catalog raw mixed" by (rule Parse_executableD)
  then show ?r using l parseAction_executable [of catalog raw mixed] by auto
next
  assume r: ?r
  then obtain block mixed raw tool args validate where h:
      "extractEnvelope refusal claim response = (KindAction, block, mixed, None)" "decodeSingleJSON block = Some raw"
      "action_envelope raw = Some (CurrentVersion, tool, JObj args)" "tool \<noteq> []" "catalog = Some validate" "validate tool (to_map args) = (True, False)"
    by (auto simp: decodeSingleJSON_def)
  have "\<not> int (length response) > maxResponseBytes" using r by simp
  then show ?l using h by (simp add: Parse_def parseAction_def decodeArguments_def)
qed

lemma document_arguments:
  assumes "unique_keys (JObj fs)" "action_document fs tool args"
  shows "to_map args = args"
proof -
  have "last_field fs ''arguments'' = Some (JObj args)" using assms(2) by (simp add: action_document_def)
  then obtain key where "(key, JObj args) \<in> set fs" unfolding last_field_def
    by (auto dest!: map_of_SomeD simp del: foldName.simps)
  then have "JObj args \<in> snd ` set fs" by (metis image_eqI snd_conv)
  moreover have "\<forall>v \<in> snd ` set fs. unique_keys v" using assms(1) by (simp add: list_all_iff)
  ultimately have "unique_keys (JObj args)" by blast
  then show ?thesis by (simp add: to_map_distinct)
qed

text \<open>C20: a response is executable exactly when it is at most one mebibyte and holds one action envelope
  and no other marker outside strings, around one JSON object without duplicate keys, nested at most 128
  deep and with numbers in range, whose keys stand for the three fields of an action and nothing else,
  whose last version is the current one, whose last tool is a name the catalog has and whose last
  arguments are an object that the catalog accepts for that tool. The action is then that tool with
  those arguments.\<close>

theorem executable_is_one_valid_action:
  "ps_Executable (Parse refusal claim catalog response) \<longleftrightarrow>
     int (length response) \<le> 1048576 \<and>
     (\<exists>pre block post fs tool args validate.
        response = pre @ ''<runstead_action>'' @ block @ ''</runstead_action>'' @ post \<and> marker_free pre \<and> marker_free post
        \<and> json_parse block = Some (JObj fs)
        \<and> unique_keys (JObj fs) \<and> json_depth (JObj fs) \<le> 128 \<and> list_all ParseFloat_range (json_numbers (JObj fs))
        \<and> action_document fs tool args
        \<and> catalog = Some validate \<and> validate tool args = (True, False)
        \<and> ps_Action (Parse refusal claim catalog response) = Some \<lparr>act_Version = CurrentVersion, act_Tool = tool, act_Arguments = args\<rparr>)"
  (is "?l \<longleftrightarrow> ?r")
proof
  assume ?l
  then obtain block mixed raw tool args validate where h: "int (length response) \<le> maxResponseBytes"
      "extractEnvelope refusal claim response = (KindAction, block, mixed, None)"
      "json_parse block = Some raw" "scanJSONValue maxJSONDepth 0 raw"
      "action_envelope raw = Some (CurrentVersion, tool, JObj args)" "tool \<noteq> []" "catalog = Some validate" "validate tool (to_map args) = (True, False)"
      "ps_Action (Parse refusal claim catalog response) = Some \<lparr>act_Version = CurrentVersion, act_Tool = tool, act_Arguments = to_map args\<rparr>"
    unfolding executable_action by blast
  obtain pre post where e: "response = pre @ open_marker KindAction @ block @ close_marker KindAction @ post" "marker_free pre" "marker_free post"
    using h(2) unfolding extract_iff by blast
  obtain fs where fs: "raw = JObj fs" "action_document fs tool args" using h(5,6) action_envelope_iff by blast
  have c: "unique_keys (JObj fs)" "json_depth (JObj fs) \<le> 128" "list_all ParseFloat_range (json_numbers (JObj fs))"
    using h(4) scan_conditions [of 0 maxJSONDepth raw] fs(1) by (simp_all add: maxJSONDepth_def)
  show ?r
    using h(1,3,7-9) e fs c document_arguments [OF c(1) fs(2)]
    by (intro conjI exI [of _ pre] exI [of _ block] exI [of _ post] exI [of _ fs] exI [of _ tool] exI [of _ args])
      (simp_all add: maxResponseBytes_def)
next
  assume ?r
  then obtain pre block post fs tool args validate where h: "int (length response) \<le> 1048576"
      "response = pre @ ''<runstead_action>'' @ block @ ''</runstead_action>'' @ post" "marker_free pre" "marker_free post"
      "json_parse block = Some (JObj fs)"
      and c: "unique_keys (JObj fs)" "json_depth (JObj fs) \<le> 128" "list_all ParseFloat_range (json_numbers (JObj fs))"
      and d: "action_document fs tool args" "catalog = Some validate" "validate tool args = (True, False)"
      "ps_Action (Parse refusal claim catalog response) = Some \<lparr>act_Version = CurrentVersion, act_Tool = tool, act_Arguments = args\<rparr>"
    by blast
  have "extractEnvelope refusal claim response = (KindAction, block, TrimSpace (pre @ post) \<noteq> [], None)"
    using extract_document [OF h(5,3,4), of KindAction] h(2) by simp
  moreover have "scanJSONValue maxJSONDepth 0 (JObj fs)"
    using c scan_conditions [of 0 maxJSONDepth "JObj fs"] by (simp add: maxJSONDepth_def)
  moreover have "action_envelope (JObj fs) = Some (CurrentVersion, tool, JObj args) \<and> tool \<noteq> []"
    using d(1) action_envelope_iff by blast
  ultimately show ?l unfolding executable_action
    using h(1,5) d document_arguments [OF c(1) d(1)] by (auto simp: maxResponseBytes_def)
qed

end
