(* ===== verification/Tool_Patch.thy ===== *)
theory Tool_Patch
  imports Json_Decode Store_Tables Workspace_Path
begin

text \<open>
  Patches of the tool \<open>apply_patch\<close> (\<open>internal/tools/patch.go\<close>): parsing the accepted subset of unified
  diffs, applying it to the lines of a file, and the full-replacement diff of \<open>write_file.go\<close>. A position in a
  list of lines is the rest of the list from there.
\<close>

section \<open>Lines\<close>

definition newline :: char where "newline = CHR 0x0A"

definition contentLines :: "string \<Rightarrow> string list" where
  "contentLines text = (let ls = Split newline text in if last ls = [] then butlast ls else ls)"

definition endsWithNewline :: "string \<Rightarrow> bool" where
  "endsWithNewline content \<longleftrightarrow> content \<noteq> [] \<and> last content = newline"

definition joinLines :: "string list \<Rightarrow> bool \<Rightarrow> string" where
  "joinLines ls trailingNewline = Join [newline] ls @ (if trailingNewline then [newline] else [])"

section \<open>Parsing\<close>

datatype patchOpKind = patchContext | patchRemove | patchAdd

type_synonym patchOp = "patchOpKind \<times> string"

record patchHunk =
  ph_oldStart :: int
  ph_ops :: "patchOp list"

record parsedPatch =
  pt_oldPath :: string
  pt_newPath :: string
  pt_hunks :: "patchHunk list"

datatype patch_error =
    MissingHeader | HeaderMismatch | InvalidHunkHeader | InvalidHunkLine | HunkCounts | UnexpectedPatchLine
  | HunkOutOfOrder | PatchContentMismatch | PatchTargetTooLarge

definition TrimPrefix :: "string \<Rightarrow> string \<Rightarrow> string" where
  "TrimPrefix s p = (if HasPrefix s p then drop (length p) s else s)"

text \<open>\<open>strings.Trim(s, "\"")\<close>.\<close>

definition trim_quotes :: "string \<Rightarrow> string" where
  "trim_quotes s = (let q = (\<lambda>c. c = CHR 0x22) in rev (dropWhile q (rev (dropWhile q s))))"

definition normalizePatchHeader :: "string \<Rightarrow> string" where
  "normalizePatchHeader line =
     (let v = TrimSpace line;
          v1 = (if HasPrefix v ''--- '' then TrimPrefix v ''--- '' else TrimPrefix v ''+++ '')
      in TrimPrefix (TrimPrefix (trim_quotes (TrimSpace v1)) ''a/'') ''b/'')"

text \<open>\<open>strconv.Atoi\<close> of a text of digits, with zero for a number out of range.\<close>

definition atoi :: "string \<Rightarrow> int" where
  "atoi ds = (case ParseInt ds of Some n \<Rightarrow> n | None \<Rightarrow> 0)"

text \<open>One side of a hunk header: the start, the count with its default, and the rest.\<close>

definition hunk_range :: "string \<Rightarrow> (int \<times> int \<times> string) option" where
  "hunk_range s =
     (case (takeWhile is_digit s, dropWhile is_digit s) of
        ([], _) \<Rightarrow> None
      | (ds, r) \<Rightarrow>
          (case r of
             c # r1 \<Rightarrow> if c = CHR '','' then (case takeWhile is_digit r1 of [] \<Rightarrow> None | ns \<Rightarrow> Some (atoi ds, atoi ns, dropWhile is_digit r1))
                       else Some (atoi ds, 1, r)
           | [] \<Rightarrow> Some (atoi ds, 1, r)))"

text \<open>The pattern of a hunk header: the old start, the old count and the new count.\<close>

definition hunkHeader :: "string \<Rightarrow> (int \<times> int \<times> int) option" where
  "hunkHeader line =
     (if \<not> HasPrefix line ''@@ -'' then None
      else (case hunk_range (drop 4 line) of
          None \<Rightarrow> None
        | Some (oldStart, oldCount, r) \<Rightarrow>
            if \<not> HasPrefix r '' +'' then None
            else (case hunk_range (drop 2 r) of
                None \<Rightarrow> None
              | Some (_, newCount, r2) \<Rightarrow> if r2 = '' @@'' then Some (oldStart, oldCount, newCount) else None)))"

definition op_kind :: "char \<Rightarrow> patchOpKind option" where
  "op_kind c = (if c = CHR '' '' then Some patchContext else if c = CHR ''-'' then Some patchRemove
     else if c = CHR ''+'' then Some patchAdd else None)"

text \<open>The lines where the body of a hunk ends.\<close>

definition ends_hunk :: "string \<Rightarrow> bool" where
  "ends_hunk line \<longleftrightarrow> line = [] \<or> HasPrefix line ''@@ '' \<or> HasPrefix line ''--- '' \<or> HasPrefix line ''+++ ''"

fun hunk_lines :: "string list \<Rightarrow> patch_error + patchOp list \<times> string list" where
  "hunk_lines [] = Inr ([], [])"
| "hunk_lines (line # ls) =
     (if ends_hunk line then Inr ([], line # ls)
      else (case op_kind (hd line) of
          None \<Rightarrow> Inl InvalidHunkLine
        | Some k \<Rightarrow> (case hunk_lines ls of Inl e \<Rightarrow> Inl e | Inr (ops, rest) \<Rightarrow> Inr ((k, tl line) # ops, rest))))"

definition count_ops :: "patchOpKind \<Rightarrow> patchOp list \<Rightarrow> int" where
  "count_ops k ops = int (length (filter (\<lambda>p. fst p = k) ops))"

definition parseHunk :: "string \<Rightarrow> string list \<Rightarrow> patch_error + patchHunk \<times> string list" where
  "parseHunk line ls =
     (case hunkHeader line of
        None \<Rightarrow> Inl InvalidHunkHeader
      | Some (oldStart, oldCount, newCount) \<Rightarrow>
          (case hunk_lines ls of
             Inl e \<Rightarrow> Inl e
           | Inr (ops, rest) \<Rightarrow>
               if count_ops patchContext ops + count_ops patchRemove ops \<noteq> oldCount
                  \<or> count_ops patchContext ops + count_ops patchAdd ops \<noteq> newCount
               then Inl HunkCounts else Inr (\<lparr>ph_oldStart = oldStart, ph_ops = ops\<rparr>, rest)))"

lemma hunk_lines_shorter: "hunk_lines ls = Inr (ops, rest) \<Longrightarrow> length rest \<le> length ls"
  by (induction ls arbitrary: ops) (fastforce split: if_splits option.splits sum.splits)+

lemma parseHunk_shorter: "parseHunk line ls = Inr (h, rest) \<Longrightarrow> length rest \<le> length ls"
  by (auto simp: parseHunk_def split: option.splits sum.splits if_splits) (blast dest: hunk_lines_shorter)+

function parse_hunks :: "string list \<Rightarrow> patch_error + patchHunk list" where
  "parse_hunks [] = Inr []"
| "parse_hunks (line # ls) =
     (if is_blank line then parse_hunks ls
      else if HasPrefix line ''@@ '' then
        (case parseHunk line ls of
           Inl e \<Rightarrow> Inl e
         | Inr (h, rest) \<Rightarrow> (case parse_hunks rest of Inl e \<Rightarrow> Inl e | Inr hs \<Rightarrow> Inr (h # hs)))
      else Inl UnexpectedPatchLine)"
  by pat_completeness auto
termination
  by (relation "measure length") (auto simp: less_Suc_eq_le dest: parseHunk_shorter)

definition parsePatch :: "string \<Rightarrow> string \<Rightarrow> patch_error + parsedPatch" where
  "parsePatch patch targetPath =
     (case dropWhile is_blank (contentLines patch) of
        o' # n # rest \<Rightarrow>
          if \<not> HasPrefix o' ''--- '' \<or> \<not> HasPrefix n ''+++ '' then Inl MissingHeader
          else if normalizePatchHeader o' \<noteq> targetPath \<or> normalizePatchHeader n \<noteq> targetPath then Inl HeaderMismatch
          else (case parse_hunks rest of
              Inl e \<Rightarrow> Inl e
            | Inr hs \<Rightarrow> Inr \<lparr>pt_oldPath = normalizePatchHeader o', pt_newPath = normalizePatchHeader n, pt_hunks = hs\<rparr>)
      | _ \<Rightarrow> Inl MissingHeader)"

section \<open>Application\<close>

fun apply_ops :: "patchOp list \<Rightarrow> string list \<Rightarrow> (string list \<times> string list) option" where
  "apply_ops [] old = Some ([], old)"
| "apply_ops ((patchAdd, t) # ops) old = map_option (\<lambda>(out, rest). (t # out, rest)) (apply_ops ops old)"
| "apply_ops ((k, t) # ops) old =
     (case old of
        [] \<Rightarrow> None
      | l # ls \<Rightarrow>
          if l \<noteq> t then None
          else map_option (\<lambda>(out, rest). (if k = patchContext then t # out else out, rest)) (apply_ops ops ls))"

fun apply_hunks :: "patchHunk list \<Rightarrow> nat \<Rightarrow> string list \<Rightarrow> patch_error + string list" where
  "apply_hunks [] cursor old = Inr old"
| "apply_hunks (h # hs) cursor old =
     (let start = ph_oldStart h - 1
      in if start < int cursor \<or> int (cursor + length old) < start then Inl HunkOutOfOrder
         else (let gap = nat start - cursor
               in case apply_ops (ph_ops h) (drop gap old) of
                    None \<Rightarrow> Inl PatchContentMismatch
                  | Some (out, rest) \<Rightarrow>
                      (case apply_hunks hs (cursor + length old - length rest) rest of
                         Inl e \<Rightarrow> Inl e
                       | Inr r \<Rightarrow> Inr (take gap old @ out @ r))))"

definition applyParsedPatch :: "string list \<Rightarrow> parsedPatch \<Rightarrow> patch_error + string list" where
  "applyParsedPatch old p = apply_hunks (pt_hunks p) 0 old"

definition applyPatch :: "string \<Rightarrow> string \<Rightarrow> string \<Rightarrow> int \<Rightarrow> patch_error + string" where
  "applyPatch content patch targetPath targetLimit =
     (if int (length content) > targetLimit then Inl PatchTargetTooLarge
      else (case parsePatch patch targetPath of
          Inl e \<Rightarrow> Inl e
        | Inr p \<Rightarrow>
            (case applyParsedPatch (contentLines content) p of
               Inl e \<Rightarrow> Inl e
             | Inr ls \<Rightarrow> Inr (joinLines ls (endsWithNewline content)))))"

definition replacementDiffText :: "string \<Rightarrow> string \<Rightarrow> string \<Rightarrow> string" where
  "replacementDiffText path before after =
     (let b = contentLines before; a = contentLines after; nl = (\<lambda>l. l @ [newline])
      in nl (''--- '' @ path) @ nl (''+++ '' @ path)
         @ nl (''@@ -1,'' @ dec (length b) @ '' +1,'' @ dec (length a) @ '' @@'')
         @ concat (map (\<lambda>l. nl (CHR ''-'' # l)) b) @ concat (map (\<lambda>l. nl (CHR ''+'' # l)) a))"

text \<open>A diff cut to a number of bytes, with its length and whether it was cut.\<close>

definition boundedDiff :: "string \<Rightarrow> int \<Rightarrow> string \<times> int \<times> bool" where
  "boundedDiff diff limit =
     (if int (length diff) \<le> limit then (diff, int (length diff), False) else (take (nat limit) diff, int (length diff), True))"

section \<open>What an applied patch is\<close>

text \<open>The lines a hunk needs and the lines it leaves.\<close>

definition old_side :: "patchOp list \<Rightarrow> string list" where
  "old_side ops = map snd (filter (\<lambda>p. fst p \<noteq> patchAdd) ops)"

definition new_side :: "patchOp list \<Rightarrow> string list" where
  "new_side ops = map snd (filter (\<lambda>p. fst p \<noteq> patchRemove) ops)"

text \<open>The specification: the file is the gaps with the old sides between them at the lines the headers name,
  and the result is the same gaps with the new sides.\<close>

fun patches :: "patchHunk list \<Rightarrow> nat \<Rightarrow> string list \<Rightarrow> string list \<Rightarrow> bool" where
  "patches [] c old new \<longleftrightarrow> new = old"
| "patches (h # hs) c old new \<longleftrightarrow>
     (\<exists>gap old' new'. old = gap @ old_side (ph_ops h) @ old' \<and> new = gap @ new_side (ph_ops h) @ new'
        \<and> ph_oldStart h = int (c + length gap) + 1
        \<and> patches hs (c + length gap + length (old_side (ph_ops h))) old' new')"

lemma apply_ops_iff: "apply_ops ops old = Some (out, rest) \<longleftrightarrow> old = old_side ops @ rest \<and> out = new_side ops"
proof (induction ops arbitrary: old out)
  case Nil
  then show ?case by (auto simp: old_side_def new_side_def)
next
  case (Cons p ops)
  obtain k t where "p = (k, t)" by fastforce
  then show ?case using Cons
    by (cases k; cases old) (auto simp: old_side_def new_side_def map_option_eq_Some)
qed

lemma apply_hunks_iff: "apply_hunks hs c old = Inr new \<longleftrightarrow> patches hs c old new"
proof (induction hs arbitrary: c old new)
  case Nil
  then show ?case by auto
next
  case (Cons h hs)
  let ?o = "old_side (ph_ops h)" and ?n = "new_side (ph_ops h)"
  show ?case
  proof
    assume a: "apply_hunks (h # hs) c old = Inr new"
    define gap where "gap = nat (ph_oldStart h - 1) - c"
    obtain out rest r where st: "int c \<le> ph_oldStart h - 1" "ph_oldStart h - 1 \<le> int (c + length old)"
      and o: "apply_ops (ph_ops h) (drop gap old) = Some (out, rest)"
      and r: "apply_hunks hs (c + length old - length rest) rest = Inr r" "new = take gap old @ out @ r"
      using a by (auto simp: Let_def gap_def split: if_splits option.splits sum.splits)
    have d: "drop gap old = ?o @ rest" "out = ?n" using o by (auto simp: apply_ops_iff)
    have g: "gap \<le> length old" using st by (simp add: gap_def)
    have old: "old = take gap old @ ?o @ rest" using append_take_drop_id [of gap old] d(1) by simp
    have "length old = gap + length ?o + length rest" using arg_cong [OF d(1), of length] g by simp
    then have "c + length old - length rest = c + gap + length ?o" by simp
    then have "patches hs (c + gap + length ?o) rest r" using Cons.IH r(1) by simp
    moreover have "ph_oldStart h = int (c + gap) + 1" using st(1) by (simp add: gap_def)
    ultimately show "patches (h # hs) c old new" using old r(2) d(2) g
      by (intro patches.simps(2) [THEN iffD2] exI [of _ "take gap old"] exI [of _ rest] exI [of _ r]) simp
  next
    assume "patches (h # hs) c old new"
    then obtain gap old' new' where p: "old = gap @ ?o @ old'" "new = gap @ ?n @ new'"
      "ph_oldStart h = int (c + length gap) + 1" "patches hs (c + length gap + length ?o) old' new'" by auto
    have "apply_ops (ph_ops h) (?o @ old') = Some (?n, old')" by (simp add: apply_ops_iff)
    moreover have "nat (ph_oldStart h - 1) - c = length gap" using p(3) by simp
    moreover have "apply_hunks hs (c + (length gap + length ?o)) old' = Inr new'" using p(4) by (simp add: Cons.IH add.assoc)
    ultimately show "apply_hunks (h # hs) c old = Inr new" using p(1-3) by (simp add: Let_def)
  qed
qed

text \<open>C23: applying a patch is all or nothing, and touches only its hunks. A parsed patch applies exactly when the
  file consists of gaps and, at the lines the hunk headers name and in their order, the context and removed
  lines of the hunks; the result has the context and added lines in their place and every gap unchanged.\<close>

theorem patch_touches_only_its_hunks:
  "applyParsedPatch old p = Inr new \<longleftrightarrow> patches (pt_hunks p) 0 old new"
  unfolding applyParsedPatch_def by (rule apply_hunks_iff)

section \<open>Rendered and parsed\<close>

text \<open>A line that starts with a byte of no space is not blank.\<close>

definition no_space :: "char \<Rightarrow> bool" where
  "no_space c \<longleftrightarrow> list_all (\<lambda>e. c \<notin> set e) space_encodings"

lemma strip_one_split: "strip_one ps s = Some s' \<Longrightarrow> \<exists>p \<in> set ps. s = p @ s'"
proof (induction ps)
  case (Cons p ps)
  show ?case
  proof (cases "p \<noteq> [] \<and> HasPrefix s p")
    case True
    then show ?thesis using Cons.prems by (metis HasPrefix_def append_take_drop_id list.set_intros(1) option.inject strip_one.simps(2))
  qed (use Cons in auto)
qed simp

lemma trim_left_keeps_last:
  assumes "list_all (\<lambda>e. c \<notin> set e) ps"
  shows "\<exists>t. trim_left ps (s @ [c]) = t @ [c]"
proof (induction "length s" arbitrary: s rule: less_induct)
  case less
  show ?case
  proof (cases "strip_one ps (s @ [c])")
    case None
    then show ?thesis by (auto simp: trim_left.simps)
  next
    case (Some s')
    then obtain p where p: "p \<in> set ps" "s @ [c] = p @ s'" using strip_one_split by blast
    then have "c \<notin> set p" using assms by (auto simp: list_all_iff)
    then have "s' \<noteq> []" using p(2) by (metis append_Nil2 in_set_conv_decomp)
    then obtain t where t: "s' = t @ [c]" using p(2) by (metis append_butlast_last_id last_appendR last_snoc)
    then have "length t < length s" using strip_one_shorter [OF Some] by simp
    then show ?thesis using less [of t] t Some by (simp add: trim_left.simps [of ps "s @ [c]"])
  qed
qed

lemma not_blank: "no_space c \<Longrightarrow> \<not> is_blank (c # s)"
proof -
  assume n: "no_space c"
  have "strip_one space_encodings (c # s) = None"
  proof (rule ccontr)
    assume "strip_one space_encodings (c # s) \<noteq> None"
    then obtain r where r: "strip_one space_encodings (c # s) = Some r" by blast
    obtain p where "p \<in> set space_encodings" "c # s = p @ r" using strip_one_split [OF r] by blast
    moreover have "p \<noteq> []" if "p \<in> set space_encodings" for p using that by (auto simp: space_encodings_def)
    ultimately have "p \<in> set space_encodings" "c \<in> set p" by (auto simp: Cons_eq_append_conv)
    then show False using n by (auto simp: no_space_def list_all_iff)
  qed
  moreover have "list_all (\<lambda>e. c \<notin> set e) (map rev space_encodings)" using n by (simp add: no_space_def list_all_iff)
  ultimately show ?thesis using trim_left_keeps_last [of c "map rev space_encodings" "rev s"]
    by (auto simp: is_blank_def TrimSpace_def trim_left_no_space)
qed

lemma marks_no_space: "no_space CHR ''-''" "no_space CHR ''+''" "no_space CHR ''@''"
  by (simp_all add: no_space_def space_encodings_def)

text \<open>Numbers are read back.\<close>

lemma char_code_of: "n < 256 \<Longrightarrow> char_code (char_of (n :: nat)) = int n"
proof -
  assume "n < 256"
  have "int (of_char (char_of n :: char)) = int (n mod 256)" by (simp only: of_char_of)
  then show ?thesis using \<open>n < 256\<close> by (simp only: char_code_def of_nat_of_char mod_less)
qed

lemma dec_digits: "list_all is_digit (dec n) \<and> dec n \<noteq> []"
proof (induction n rule: dec.induct)
  case (1 n)
  have "is_digit (char_of (48 + k))" if "k < 10" for k :: nat
    using that by (simp add: is_digit_def char_code_of)
  moreover have "dec n = (if n < 10 then [char_of (48 + n)] else dec (n div 10) @ [char_of (48 + n mod 10)])" by (rule dec.simps)
  ultimately show ?case using 1 by (cases "n < 10") (simp_all del: dec.simps)
qed

lemma decimal_snoc: "decimal (ds @ [c]) = decimal ds * 10 + digit_value c"
  by (simp add: decimal_def)

lemma decimal_dec: "decimal (dec n) = int n"
proof (induction n rule: dec.induct)
  case (1 n)
  have d: "digit_value (char_of (48 + k)) = int k" if "k < 10" for k :: nat
    using that by (simp add: digit_value_def char_code_of)
  show ?case
  proof (cases "n < 10")
    case True
    then have "dec n = [char_of (48 + n)]" by (subst dec.simps) simp
    then show ?thesis using d [OF True] by (simp add: decimal_def)
  next
    case False
    then have "dec n = dec (n div 10) @ [char_of (48 + n mod 10)]" by (subst dec.simps) simp
    then show ?thesis using d [of "n mod 10"] 1 False by (simp add: decimal_snoc zdiv_int zmod_int)
  qed
qed

lemma atoi_dec:
  assumes "n < 2 ^ 63"
  shows "atoi (dec n) = int n"
proof -
  obtain c r where c: "dec n = c # r" using dec_digits [of n] by (cases "dec n") auto
  then have "c \<noteq> CHR ''-''" using dec_digits [of n] by (auto simp: is_digit_def char_code_def)
  then have "ParseInt (dec n) = Some (int n)"
    using dec_digits [of n] decimal_dec [of n] assms unfolding c by (simp add: ParseInt_def)
  then show ?thesis by (simp add: atoi_def)
qed

lemma digits_span:
  assumes "list_all is_digit ds" "r = [] \<or> \<not> is_digit (hd r)"
  shows "takeWhile is_digit (ds @ r) = ds" "dropWhile is_digit (ds @ r) = r"
  using assms by (induction ds) (auto simp: takeWhile_eq_Nil_iff dropWhile_eq_self_iff)

lemma hunk_range_dec:
  assumes "n < 2 ^ 63" "m < 2 ^ 63" "r = [] \<or> \<not> is_digit (hd r)"
  shows "hunk_range (dec n @ '','' @ dec m @ r) = Some (int n, int m, r)"
proof -
  have "takeWhile is_digit (dec n @ '','' @ dec m @ r) = dec n" "dropWhile is_digit (dec n @ '','' @ dec m @ r) = '','' @ dec m @ r"
    using digits_span [of "dec n" "'','' @ dec m @ r"] dec_digits [of n] by (simp_all add: is_digit_def char_code_def)
  moreover have "takeWhile is_digit (dec m @ r) = dec m" "dropWhile is_digit (dec m @ r) = r"
    using digits_span [of "dec m" r] dec_digits [of m] assms(3) by simp_all
  ultimately show ?thesis using dec_digits [of n] dec_digits [of m] atoi_dec [OF assms(1)] atoi_dec [OF assms(2)]
    by (auto simp: hunk_range_def split: list.splits)
qed

lemma hunkHeader_rendered:
  assumes "n < 2 ^ 63" "m < 2 ^ 63"
  shows "hunkHeader (''@@ -1,'' @ dec n @ '' +1,'' @ dec m @ '' @@'') = Some (1, int n, int m)"
proof -
  have one: "dec 1 = ''1''" by code_simp
  have "hunk_range (''1,'' @ dec n @ '' +1,'' @ dec m @ '' @@'') = Some (1, int n, '' +1,'' @ dec m @ '' @@'')"
    using hunk_range_dec [of 1 n "'' +1,'' @ dec m @ '' @@''"] assms one by (simp add: is_digit_def char_code_def del: dec.simps)
  moreover have "hunk_range (''1,'' @ dec m @ '' @@'') = Some (1, int m, '' @@'')"
    using hunk_range_dec [of 1 m "'' @@''"] assms one by (simp add: is_digit_def char_code_def del: dec.simps)
  ultimately show ?thesis by (simp add: hunkHeader_def HasPrefix_def numeral_eq_Suc del: dec.simps)
qed

text \<open>Lines are split where they were joined.\<close>

lemma Split_lines:
  "\<forall>l \<in> set ls. newline \<notin> set l \<Longrightarrow> Split newline (concat (map (\<lambda>l. l @ [newline]) ls)) = ls @ [[]]"
  by (induction ls) (auto simp: Split_append_sep)

lemma contentLines_lines:
  "\<forall>l \<in> set ls. newline \<notin> set l \<Longrightarrow> contentLines (concat (map (\<lambda>l. l @ [newline]) ls)) = ls"
  by (simp add: contentLines_def Split_lines)

lemma contentLines_plain: "l \<in> set (contentLines t) \<Longrightarrow> newline \<notin> set l"
  using Split_elements by (auto simp: contentLines_def Let_def split: if_splits dest: in_set_butlastD)

lemma Join_Split: "Join [c] (Split c t) = t"
proof (induction t)
  case (Cons x t)
  then show ?case by (cases "Split c t"; cases "tl (Split c t)") auto
qed simp

lemma Join_snoc: "xs \<noteq> [] \<Longrightarrow> Join sep (xs @ [y]) = Join sep xs @ sep @ y"
  by (induction sep xs rule: Join.induct) auto

lemma joinLines_content: "joinLines (contentLines t) (endsWithNewline t) = t"
proof -
  define ls where "ls = Split newline t"
  have t: "Join [newline] ls = t" and n: "ls \<noteq> []" by (simp_all add: ls_def Join_Split)
  have el: "newline \<notin> set (last ls)" using Split_elements n unfolding ls_def by (metis last_in_set)
  have sp: "ls = butlast ls @ [last ls]" using n by simp
  show ?thesis
  proof (cases "butlast ls = []")
    case True
    then have "t = last ls" using t sp by (metis Join.simps(2) append_Nil)
    then have "newline \<notin> set t" using el by simp
    moreover from this have "\<not> endsWithNewline t" by (metis endsWithNewline_def last_in_set)
    ultimately show ?thesis by (simp add: joinLines_def contentLines_def Split_no_sep Let_def)
  next
    case False
    then have j: "t = Join [newline] (butlast ls) @ newline # last ls" using t sp Join_snoc by (metis append_Cons append_Nil)
    show ?thesis
    proof (cases "last ls = []")
      case True
      then have "contentLines t = butlast ls" by (simp add: contentLines_def ls_def)
      moreover have "endsWithNewline t" using j True by (simp add: endsWithNewline_def)
      ultimately show ?thesis using j True by (simp add: joinLines_def)
    next
      case False
      then have "last t \<noteq> newline" using j el by (metis last.simps last_appendR last_in_set list.distinct(1))
      then have "\<not> endsWithNewline t" by (simp add: endsWithNewline_def)
      moreover have "contentLines t = ls" using False by (simp add: contentLines_def ls_def)
      ultimately show ?thesis using t by (simp add: joinLines_def)
    qed
  qed
qed

text \<open>Operations as lines.\<close>

fun op_line :: "patchOp \<Rightarrow> string" where
  "op_line (patchContext, t) = CHR '' '' # t"
| "op_line (patchRemove, t) = CHR ''-'' # t"
| "op_line (patchAdd, t) = CHR ''+'' # t"

lemma op_line_kind: "op_kind (hd (op_line p)) = Some (fst p) \<and> tl (op_line p) = snd p"
  by (cases p rule: op_line.cases) (simp_all add: op_kind_def)

lemma hunk_lines_ops:
  "\<forall>p \<in> set ops. \<not> ends_hunk (op_line p) \<Longrightarrow> hunk_lines (map op_line ops) = Inr (ops, [])"
  by (induction ops) (auto simp: op_line_kind)

text \<open>The operations of a full replacement.\<close>

definition replacement_ops :: "string \<Rightarrow> string \<Rightarrow> patchOp list" where
  "replacement_ops before after = map (Pair patchRemove) (contentLines before) @ map (Pair patchAdd) (contentLines after)"

lemma replacement_counts:
  "count_ops patchContext (replacement_ops b a) = 0" "count_ops patchRemove (replacement_ops b a) = int (length (contentLines b))"
  "count_ops patchAdd (replacement_ops b a) = int (length (contentLines a))"
  "old_side (replacement_ops b a) = contentLines b" "new_side (replacement_ops b a) = contentLines a"
  by (simp_all add: count_ops_def replacement_ops_def old_side_def new_side_def filter_map comp_def)

definition replacement_header :: "string \<Rightarrow> string \<Rightarrow> string" where
  "replacement_header b a = ''@@ -1,'' @ dec (length (contentLines b)) @ '' +1,'' @ dec (length (contentLines a)) @ '' @@''"

lemma replacement_lines:
  "replacementDiffText path b a = concat (map (\<lambda>l. l @ [newline])
     ((''--- '' @ path) # (''+++ '' @ path) # replacement_header b a # map op_line (replacement_ops b a)))"
  by (simp add: replacementDiffText_def Let_def replacement_header_def replacement_ops_def comp_def del: dec.simps)

lemma replacement_hunk:
  assumes "\<forall>l \<in> set (contentLines b). \<not> HasPrefix l ''-- ''" "\<forall>l \<in> set (contentLines a). \<not> HasPrefix l ''++ ''"
    and "length (contentLines b) < 2 ^ 63" "length (contentLines a) < 2 ^ 63"
  shows "parse_hunks (replacement_header b a # map op_line (replacement_ops b a)) = Inr [\<lparr>ph_oldStart = 1, ph_ops = replacement_ops b a\<rparr>]"
proof -
  have "\<forall>p \<in> set (replacement_ops b a). \<not> ends_hunk (op_line p)"
    using assms(1,2) by (auto simp: replacement_ops_def ends_hunk_def HasPrefix_def)
  then have "hunk_lines (map op_line (replacement_ops b a)) = Inr (replacement_ops b a, [])" by (rule hunk_lines_ops)
  moreover have "hunkHeader (replacement_header b a) = Some (1, int (length (contentLines b)), int (length (contentLines a)))"
    unfolding replacement_header_def by (rule hunkHeader_rendered [OF assms(3,4)])
  ultimately have p: "parseHunk (replacement_header b a) (map op_line (replacement_ops b a)) = Inr (\<lparr>ph_oldStart = 1, ph_ops = replacement_ops b a\<rparr>, [])"
    by (simp add: parseHunk_def replacement_counts)
  have "\<not> is_blank (replacement_header b a)" "HasPrefix (replacement_header b a) ''@@ ''"
    by (simp_all add: replacement_header_def not_blank marks_no_space HasPrefix_def del: dec.simps)
  then show ?thesis by (simp add: p)
qed

text \<open>The diff that \<open>write_file\<close> records as evidence is a patch: \<open>apply_patch\<close> accepts it for the file it was made
  from and gives the file it was made to, when both end in a newline or both do not, the path is one a
  header can name, and no removed line starts with two dashes and a blank, nor an added one with two plus signs
  and a blank.\<close>

theorem replacement_diff_round_trip:
  assumes "normalizePatchHeader (''--- '' @ path) = path" "normalizePatchHeader (''+++ '' @ path) = path" "newline \<notin> set path"
    and "\<forall>l \<in> set (contentLines before). \<not> HasPrefix l ''-- ''" "\<forall>l \<in> set (contentLines after). \<not> HasPrefix l ''++ ''"
    and "length (contentLines before) < 2 ^ 63" "length (contentLines after) < 2 ^ 63"
    and "endsWithNewline before = endsWithNewline after" "int (length before) \<le> limit"
  shows "applyPatch before (replacementDiffText path before after) path limit = Inr after"
proof -
  let ?ls = "(''--- '' @ path) # (''+++ '' @ path) # replacement_header before after # map op_line (replacement_ops before after)"
  have nl: "newline \<notin> set (dec n)" for n using dec_digits [of n] by (auto simp: list_all_iff is_digit_def char_code_def newline_def)
  have "newline \<notin> set (op_line p)" if "p \<in> set (replacement_ops before after)" for p
    using that contentLines_plain by (auto simp: replacement_ops_def newline_def)
  then have "\<forall>l \<in> set ?ls. newline \<notin> set l"
    using assms(3) nl by (auto simp: replacement_header_def newline_def simp del: dec.simps)
  then have "contentLines (replacementDiffText path before after) = ?ls"
    unfolding replacement_lines by (rule contentLines_lines)
  moreover have "\<not> is_blank (''--- '' @ path)" by (simp add: not_blank marks_no_space)
  ultimately have "parsePatch (replacementDiffText path before after) path =
      Inr \<lparr>pt_oldPath = path, pt_newPath = path, pt_hunks = [\<lparr>ph_oldStart = 1, ph_ops = replacement_ops before after\<rparr>]\<rparr>"
    using replacement_hunk [OF assms(4-7)] assms(1,2) by (simp add: parsePatch_def HasPrefix_def del: parse_hunks.simps)
  moreover have "applyParsedPatch (contentLines before) \<lparr>pt_oldPath = path, pt_newPath = path,
      pt_hunks = [\<lparr>ph_oldStart = 1, ph_ops = replacement_ops before after\<rparr>]\<rparr> = Inr (contentLines after)"
    unfolding applyParsedPatch_def apply_hunks_iff by (simp add: replacement_counts)
  ultimately show ?thesis using assms(8,9) joinLines_content [of after] by (simp add: applyPatch_def)
qed

text \<open>The conditions are needed: a hunk that removes a line starting with two dashes and a blank is cut there, a
  file under a top-level directory \<open>b\<close> cannot be named by the header of a usual diff, and removing every line of
  a file leaves its last newline.\<close>

lemma dashed_line_cannot_be_removed:
  "applyPatch (''-- a'' @ [newline]) (replacementDiffText ''f'' (''-- a'' @ [newline]) (''b'' @ [newline])) ''f'' 100 = Inl HunkCounts"
  by code_simp

lemma emptied_file_keeps_newline:
  "applyPatch (''x'' @ [newline]) (replacementDiffText ''f'' (''x'' @ [newline]) []) ''f'' 100 = Inr [newline]"
  by code_simp

lemma directory_b_is_stripped: "normalizePatchHeader ''--- a/b/x'' = ''x''"
  by code_simp

theorem replacement_diff_round_trip_witness:
  "applyPatch (''x'' @ [newline]) (replacementDiffText ''f'' (''x'' @ [newline]) (''y'' @ [newline] @ ''z'' @ [newline])) ''f'' 100
   = Inr (''y'' @ [newline] @ ''z'' @ [newline])"
proof (rule replacement_diff_round_trip)
  have l: "contentLines (''x'' @ [newline]) = [''x'']" "contentLines (''y'' @ [newline] @ ''z'' @ [newline]) = [''y'', ''z'']" by code_simp+
  show "normalizePatchHeader (''--- '' @ ''f'') = ''f''" "normalizePatchHeader (''+++ '' @ ''f'') = ''f''" by code_simp+
  show "newline \<notin> set ''f''" by (simp add: newline_def)
  show "\<forall>l \<in> set (contentLines (''x'' @ [newline])). \<not> HasPrefix l ''-- ''"
    "\<forall>l \<in> set (contentLines (''y'' @ [newline] @ ''z'' @ [newline])). \<not> HasPrefix l ''++ ''"
    "length (contentLines (''x'' @ [newline])) < 2 ^ 63" "length (contentLines (''y'' @ [newline] @ ''z'' @ [newline])) < 2 ^ 63"
    unfolding l by (simp_all add: HasPrefix_def)
qed (simp_all add: endsWithNewline_def)

end
