(* ===== verification/Recipe.thy ===== *)
theory Recipe
  imports Agent_Types Tool_Patch
begin

text \<open>
  Recipes (\<open>internal/recipe/recipe.go\<close>): the processes an operator declares and the model can only select by id.
  Definitions and their normalization, the catalog with its parser, selection and digest, the environment of the
  child process, the bounded capture of its output and the evidence of a run. The process and the hashes are arguments.
\<close>

section \<open>Definitions\<close>

definition CapabilityReadWorkspace :: string where "CapabilityReadWorkspace = ''read_workspace''"
definition CapabilityWriteWorkspace :: string where "CapabilityWriteWorkspace = ''write_workspace''"
definition CapabilityTemporaryFiles :: string where "CapabilityTemporaryFiles = ''temporary_files''"
definition CapabilityExecuteRepoCode :: string where "CapabilityExecuteRepoCode = ''execute_repository_code''"
definition CapabilityNetwork :: string where "CapabilityNetwork = ''network''"
definition CapabilityGitMetadata :: string where "CapabilityGitMetadata = ''git_metadata''"
definition CapabilityInheritEnvironment :: string where "CapabilityInheritEnvironment = ''inherit_environment''"

definition AllCapabilities :: "string list" where
  "AllCapabilities = [CapabilityReadWorkspace, CapabilityWriteWorkspace, CapabilityTemporaryFiles, CapabilityExecuteRepoCode,
     CapabilityNetwork, CapabilityGitMetadata, CapabilityInheritEnvironment]"

definition ParseCapability :: "string \<Rightarrow> string option" where
  "ParseCapability v = find (\<lambda>c. c = v) AllCapabilities"

record Recipe =
  rc_ID :: string
  rc_Executable :: string
  rc_Argv :: "string list"
  rc_WorkingDirectory :: string
  rc_TimeoutNanos :: int
  rc_MaxStdoutBytes :: int
  rc_MaxStderrBytes :: int
  rc_Capabilities :: "string list"
  rc_AllowedEnvironment :: "string list"

definition DefaultTimeout :: duration where "DefaultTimeout = 60 * Second"
definition DefaultMaxStdoutBytes :: int where "DefaultMaxStdoutBytes = 262144"
definition DefaultMaxStderrBytes :: int where "DefaultMaxStderrBytes = 262144"
definition MaxOutputBytes :: int where "MaxOutputBytes = 4194304"

definition Timeout :: "Recipe \<Rightarrow> duration" where
  "Timeout r = (if rc_TimeoutNanos r \<le> 0 then DefaultTimeout else rc_TimeoutNanos r)"

text \<open>What the digest of a recipe covers: everything but its id.\<close>

type_synonym recipe_payload = "string \<times> string list \<times> string \<times> string list \<times> string list \<times> int \<times> int \<times> int"

definition Recipe_payload :: "Recipe \<Rightarrow> recipe_payload" where
  "Recipe_payload r = (rc_Executable r, rc_Argv r, rc_WorkingDirectory r, rc_Capabilities r, rc_AllowedEnvironment r,
     Timeout r, rc_MaxStdoutBytes r, rc_MaxStderrBytes r)"

definition Recipe_Digest :: "(recipe_payload \<Rightarrow> string) \<Rightarrow> Recipe \<Rightarrow> string" where
  "Recipe_Digest sha r = sha (Recipe_payload r)"

definition ApprovalFingerprint :: "(string \<Rightarrow> string) \<Rightarrow> string \<Rightarrow> string \<Rightarrow> string" where
  "ApprovalFingerprint sha256hex recipeID digest = sha256hex (''run_recipe'' @ [newline] @ recipeID @ [newline] @ digest)"

section \<open>Credential names\<close>

definition credentialNameMarkers :: "string list" where
  "credentialNameMarkers = [''API_KEY'', ''APISECRET'', ''AUTHORIZATION'', ''CHATGPT'', ''CLIENT_SECRET'',
     ''COOKIE'', ''CREDENTIAL'', ''OMNIROUTE'', ''PASSWD'', ''PASSWORD'', ''SECRET'', ''SESSION'', ''TOKEN'']"

text \<open>\<open>strings.ToUpper\<close> as far as ASCII letters of the result are concerned: besides the ASCII letters only the
  dotless i and the long s have an ASCII upper case. Other characters keep their bytes.\<close>

fun ToUpper :: "string \<Rightarrow> string" where
  "ToUpper [] = []"
| "ToUpper [c] = (if char_code CHR ''a'' \<le> char_code c \<and> char_code c \<le> char_code CHR ''z'' then [char_of (char_code c - 32)] else [c])"
| "ToUpper (c # d # s) =
     (if char_code CHR ''a'' \<le> char_code c \<and> char_code c \<le> char_code CHR ''z'' then char_of (char_code c - 32) # ToUpper (d # s)
      else if c = CHR 0xC4 \<and> d = CHR 0xB1 then CHR ''I'' # ToUpper s
      else if c = CHR 0xC5 \<and> d = CHR 0xBF then CHR ''S'' # ToUpper s
      else c # ToUpper (d # s))"

definition isCredentialName :: "string \<Rightarrow> bool" where
  "isCredentialName name = list_ex (\<lambda>m. Contains (ToUpper name) m) credentialNameMarkers"

section \<open>Normalization\<close>

datatype recipe_error =
    EmptyRecipeID | EmptyExecutable string | ExecutableTraverses string | WorkingDirectoryAbsolute string | WorkingDirectoryTraverses string
  | StdoutCap string | StderrCap string | UnknownCapability string string | CredentialName string string | AllowlistUndeclared string
  | DuplicateRecipeID string | CatalogUndecodable | CatalogUnavailable | RecipeMissing string

definition norm_directory :: "string \<Rightarrow> string \<Rightarrow> recipe_error + string" where
  "norm_directory rid d =
     (let wd = TrimSpace d
      in if wd = [] then Inr d
         else if IsAbs wd then Inl (WorkingDirectoryAbsolute rid)
         else if list_ex (\<lambda>c. c = ''..'') (Split (CHR ''/'') wd) then Inl (WorkingDirectoryTraverses rid)
         else Inr (Clean wd))"

text \<open>The capabilities in order, each once.\<close>

fun norm_capabilities :: "string \<Rightarrow> string list \<Rightarrow> string list \<Rightarrow> recipe_error + string list" where
  "norm_capabilities rid seen [] = Inr (rev seen)"
| "norm_capabilities rid seen (raw # cs) =
     (case ParseCapability (TrimSpace raw) of
        None \<Rightarrow> Inl (UnknownCapability rid (TrimSpace raw))
      | Some c \<Rightarrow> norm_capabilities rid (if c \<in> set seen then seen else c # seen) cs)"

fun norm_environment :: "string \<Rightarrow> bool \<Rightarrow> string list \<Rightarrow> string list \<Rightarrow> recipe_error + string list" where
  "norm_environment rid inherit seen [] = Inr (sort (rev seen))"
| "norm_environment rid inherit seen (raw # ns) =
     (let name = TrimSpace raw
      in if name = [] then norm_environment rid inherit seen ns
         else if isCredentialName name then Inl (CredentialName rid name)
         else if \<not> inherit then Inl (AllowlistUndeclared rid)
         else norm_environment rid inherit (if name \<in> set seen then seen else name # seen) ns)"

definition Normalize :: "Recipe \<Rightarrow> recipe_error + Recipe" where
  "Normalize r =
     (let rid = TrimSpace (rc_ID r); exe = TrimSpace (rc_Executable r);
          out = (if rc_MaxStdoutBytes r \<le> 0 then DefaultMaxStdoutBytes else rc_MaxStdoutBytes r);
          err = (if rc_MaxStderrBytes r \<le> 0 then DefaultMaxStderrBytes else rc_MaxStderrBytes r)
      in if rid = [] then Inl EmptyRecipeID
         else if exe = [] then Inl (EmptyExecutable rid)
         else if Clean exe = ''..'' \<or> HasPrefix (Clean exe) ''../'' then Inl (ExecutableTraverses rid)
         else (case norm_directory rid (rc_WorkingDirectory r) of
             Inl e \<Rightarrow> Inl e
           | Inr wd \<Rightarrow>
               if MaxOutputBytes < out then Inl (StdoutCap rid)
               else if MaxOutputBytes < err then Inl (StderrCap rid)
               else (case norm_capabilities rid [] (rc_Capabilities r) of
                   Inl e \<Rightarrow> Inl e
                 | Inr caps \<Rightarrow>
                     (case norm_environment rid (CapabilityInheritEnvironment \<in> set caps) [] (rc_AllowedEnvironment r) of
                        Inl e \<Rightarrow> Inl e
                      | Inr env \<Rightarrow>
                          Inr (r\<lparr>rc_ID := rid, rc_Executable := exe, rc_WorkingDirectory := wd, rc_TimeoutNanos := Timeout r,
                            rc_MaxStdoutBytes := out, rc_MaxStderrBytes := err, rc_Capabilities := caps, rc_AllowedEnvironment := env\<rparr>)))))"

section \<open>The catalog\<close>

text \<open>A nil catalog is \<open>None\<close>.\<close>

type_synonym Catalog = "Recipe gomap"

fun add_recipes :: "Catalog \<Rightarrow> Recipe list \<Rightarrow> recipe_error + Catalog" where
  "add_recipes index [] = Inr index"
| "add_recipes index (raw # rs) =
     (case Normalize raw of
        Inl e \<Rightarrow> Inl e
      | Inr r \<Rightarrow>
          if map_get index (rc_ID r) \<noteq> None then Inl (DuplicateRecipeID (rc_ID r))
          else add_recipes (map_put (rc_ID r) r index) rs)"

definition NewCatalog :: "Recipe list \<Rightarrow> recipe_error + Catalog" where
  "NewCatalog recipes = add_recipes [] recipes"

definition recipe_shape :: shape where
  "recipe_shape = SStruct [(''id'', SString), (''executable'', SString), (''argv'', SSlice SString), (''working_directory'', SString),
     (''timeout_nanos'', SInt), (''output_limits'', SStruct [(''max_stdout_bytes'', SInt), (''max_stderr_bytes'', SInt)]),
     (''capabilities'', SSlice SString), (''allowed_environment'', SSlice SString)]"

definition g_strings :: "string \<Rightarrow> gval \<Rightarrow> string list" where
  "g_strings f v = map (\<lambda>x. case x of GString s \<Rightarrow> s | _ \<Rightarrow> []) (g_slice f v)"

definition recipe_of :: "gval \<Rightarrow> Recipe" where
  "recipe_of v =
     (let l = (case g_field ''output_limits'' v of Some w \<Rightarrow> w | None \<Rightarrow> GStruct [])
      in \<lparr>rc_ID = g_string ''id'' v, rc_Executable = g_string ''executable'' v, rc_Argv = g_strings ''argv'' v,
          rc_WorkingDirectory = g_string ''working_directory'' v, rc_TimeoutNanos = g_int ''timeout_nanos'' v,
          rc_MaxStdoutBytes = g_int ''max_stdout_bytes'' l, rc_MaxStderrBytes = g_int ''max_stderr_bytes'' l,
          rc_Capabilities = g_strings ''capabilities'' v, rc_AllowedEnvironment = g_strings ''allowed_environment'' v\<rparr>)"

definition maxCatalogJSONDepth :: nat where "maxCatalogJSONDepth = 64"

definition ParseCatalog :: "string \<Rightarrow> recipe_error + Catalog" where
  "ParseCatalog data =
     (case json_parse data of
        None \<Rightarrow> Inl CatalogUndecodable
      | Some v \<Rightarrow>
          if \<not> scanJSONValue maxCatalogJSONDepth 0 v then Inl CatalogUndecodable
          else (case decode True (SSlice recipe_shape) (zero_of (SSlice recipe_shape)) v of
              Some (GSlice xs _) \<Rightarrow> NewCatalog (map recipe_of xs)
            | _ \<Rightarrow> Inl CatalogUndecodable))"

definition Catalog_Get :: "Catalog option \<Rightarrow> string \<Rightarrow> Recipe option" where
  "Catalog_Get c rid = (case c of None \<Rightarrow> None | Some m \<Rightarrow> map_get m rid)"

definition Catalog_IDs :: "Catalog option \<Rightarrow> string list" where
  "Catalog_IDs c = (case c of None \<Rightarrow> [] | Some m \<Rightarrow> sort (map fst m))"

fun select_recipes :: "Catalog \<Rightarrow> string list \<Rightarrow> string list \<Rightarrow> recipe_error + Recipe list" where
  "select_recipes m seen [] = Inr []"
| "select_recipes m seen (raw # ids) =
     (let rid = TrimSpace raw
      in if rid = [] then Inl EmptyRecipeID
         else if rid \<in> set seen then Inl (DuplicateRecipeID rid)
         else (case map_get m rid of
             None \<Rightarrow> Inl (RecipeMissing rid)
           | Some r \<Rightarrow> (case select_recipes m (rid # seen) ids of Inl e \<Rightarrow> Inl e | Inr rs \<Rightarrow> Inr (r # rs))))"

definition Catalog_Select :: "Catalog option \<Rightarrow> string list \<Rightarrow> recipe_error + Catalog" where
  "Catalog_Select c ids =
     (case c of
        None \<Rightarrow> Inl CatalogUnavailable
      | Some m \<Rightarrow> (case select_recipes m [] ids of Inl e \<Rightarrow> Inl e | Inr rs \<Rightarrow> NewCatalog rs))"

definition Catalog_Len :: "Catalog option \<Rightarrow> int" where
  "Catalog_Len c = (case c of None \<Rightarrow> 0 | Some m \<Rightarrow> int (length m))"

definition catalog_lines :: "(recipe_payload \<Rightarrow> string) \<Rightarrow> Catalog \<Rightarrow> string list" where
  "catalog_lines sha m = List.map_filter (\<lambda>rid. map_option (\<lambda>r. rid @ ''='' @ Recipe_Digest sha r) (map_get m rid)) (Catalog_IDs (Some m))"

definition Catalog_Digest :: "(recipe_payload \<Rightarrow> string) \<Rightarrow> (string \<Rightarrow> string) \<Rightarrow> Catalog option \<Rightarrow> string" where
  "Catalog_Digest sha sha256hex c =
     (case c of
        None \<Rightarrow> []
      | Some m \<Rightarrow> if m = [] then [] else sha256hex (Join [newline] (catalog_lines sha m)))"

section \<open>The process\<close>

text \<open>The environment of the parent as a map: entries without a name before the equals sign are skipped.\<close>

definition parent_values :: "string list \<Rightarrow> string gomap" where
  "parent_values parent =
     fold (\<lambda>e m. case SplitN2 (CHR ''='') e of Some (n, v) \<Rightarrow> if n = [] then m else map_put n v m | None \<Rightarrow> m) parent []"

definition add_env :: "string \<Rightarrow> string \<Rightarrow> string list \<times> string list \<Rightarrow> string list \<times> string list" where
  "add_env name value st =
     (case st of (seen, env) \<Rightarrow> if name = [] \<or> name \<in> set seen then st else (name # seen, env @ [name @ ''='' @ value]))"

definition BuildEnvironment :: "string list \<Rightarrow> Recipe \<Rightarrow> string list" where
  "BuildEnvironment parent r =
     (let values = parent_values parent;
          base = add_env ''RUNSTEAD_RECIPE_ID'' (rc_ID r)
            (add_env ''PATH'' (case map_get values ''PATH'' of Some p \<Rightarrow> p | None \<Rightarrow> ''/usr/bin:/bin'') ([], []))
      in snd (if CapabilityInheritEnvironment \<in> set (rc_Capabilities r)
              then fold (\<lambda>name st. if isCredentialName name then st
                      else (case map_get values name of Some v \<Rightarrow> add_env name v st | None \<Rightarrow> st))
                   (rc_AllowedEnvironment r) base
              else base))"

record boundedBuffer =
  bb_limit :: int
  bb_total :: int
  bb_data :: string

definition buffer_Write :: "string \<Rightarrow> boundedBuffer \<Rightarrow> boundedBuffer" where
  "buffer_Write chunk b =
     (let b1 = b\<lparr>bb_total := bb_total b + int (length chunk)\<rparr>
      in if int (length (bb_data b)) < bb_limit b
         then b1\<lparr>bb_data := bb_data b @ take (nat (bb_limit b - int (length (bb_data b)))) chunk\<rparr> else b1)"

definition buffer_truncated :: "boundedBuffer \<Rightarrow> bool" where
  "buffer_truncated b \<longleftrightarrow> int (length (bb_data b)) < bb_total b"

definition new_buffer :: "int \<Rightarrow> boundedBuffer" where
  "new_buffer limit = \<lparr>bb_limit = limit, bb_total = 0, bb_data = []\<rparr>"

record RecipeResult =
  rn_Started :: bool
  rn_ExitCode :: int
  rn_Signal :: string
  rn_Stdout :: string
  rn_Stderr :: string
  rn_StdoutBytes :: int
  rn_StderrBytes :: int
  rn_StdoutTruncated :: bool
  rn_StderrTruncated :: bool
  rn_TimedOut :: bool
  rn_Canceled :: bool
  rn_DurationNanos :: int
  rn_Err :: "string option"

text \<open>What a started process and its clock do: the pieces it writes to each stream, how it ended, what waiting for it
  reports, and whether the deadline or a cancellation came first.\<close>

record Process =
  px_start :: "string option"
  px_stdout :: "string list"
  px_stderr :: "string list"
  px_state :: "(int \<times> string) option"
  px_wait :: "string option"
  px_timedOut :: bool
  px_canceled :: bool
  px_duration :: int

definition Run_process :: "Recipe \<Rightarrow> Process \<Rightarrow> RecipeResult" where
  "Run_process r p =
     (case px_start p of
        Some e \<Rightarrow> \<lparr>rn_Started = False, rn_ExitCode = 0, rn_Signal = [], rn_Stdout = [], rn_Stderr = [], rn_StdoutBytes = 0, rn_StderrBytes = 0,
            rn_StdoutTruncated = False, rn_StderrTruncated = False, rn_TimedOut = False, rn_Canceled = False, rn_DurationNanos = 0, rn_Err = Some e\<rparr>
      | None \<Rightarrow>
          (let out = fold buffer_Write (px_stdout p) (new_buffer (rc_MaxStdoutBytes r));
               err = fold buffer_Write (px_stderr p) (new_buffer (rc_MaxStderrBytes r))
           in \<lparr>rn_Started = True,
               rn_ExitCode = (case px_state p of Some (c, _) \<Rightarrow> c | None \<Rightarrow> -1),
               rn_Signal = (case px_state p of Some (_, s) \<Rightarrow> s | None \<Rightarrow> []),
               rn_Stdout = bb_data out, rn_Stderr = bb_data err, rn_StdoutBytes = bb_total out, rn_StderrBytes = bb_total err,
               rn_StdoutTruncated = buffer_truncated out, rn_StderrTruncated = buffer_truncated err,
               rn_TimedOut = px_timedOut p, rn_Canceled = px_canceled p, rn_DurationNanos = px_duration p,
               rn_Err = (if px_timedOut p \<or> px_canceled p then None else px_wait p)\<rparr>))"

definition NetworkIsolationValue :: string where "NetworkIsolationValue = ''unenforced''"

definition BuildEvidence :: "Recipe \<Rightarrow> string \<Rightarrow> string \<times> string \<Rightarrow> RecipeResult \<Rightarrow> ProcessEvidence" where
  "BuildEvidence r workingDirectory policy x =
     \<lparr>pv_RecipeID = rc_ID r, pv_Executable = rc_Executable r, pv_Argv = rc_Argv r, pv_WorkingDirectory = workingDirectory,
      pv_Capabilities = rc_Capabilities r, pv_Policy = policy, pv_DurationNanos = rn_DurationNanos x, pv_ExitCode = rn_ExitCode x,
      pv_Signal = rn_Signal x, pv_Stdout = rn_Stdout x, pv_Stderr = rn_Stderr x, pv_StdoutBytes = rn_StdoutBytes x,
      pv_StderrBytes = rn_StderrBytes x, pv_StdoutTruncated = rn_StdoutTruncated x, pv_StderrTruncated = rn_StderrTruncated x,
      pv_TimedOut = rn_TimedOut x, pv_Canceled = rn_Canceled x, pv_NetworkIsolation = NetworkIsolationValue, pv_Started = rn_Started x,
      pv_ActionID = [], pv_ExecutionID = [], pv_EvidenceID = []\<rparr>"

section \<open>Trimming again\<close>

lemma strip_one_None: "[] \<notin> set ps \<Longrightarrow> strip_one ps s = None \<longleftrightarrow> (\<forall>p \<in> set ps. \<forall>t. s \<noteq> p @ t)"
  by (induction ps) (auto simp: HasPrefix_def, metis append_take_drop_id)

lemma trim_left_done: "strip_one ps (trim_left ps s) = None"
proof (induction ps s rule: trim_left.induct)
  case (1 ps s)
  then show ?case by (cases "strip_one ps s") (simp_all add: trim_left.simps [of ps s])
qed

lemma trim_left_suffix: "\<exists>p. s = p @ trim_left ps s"
proof (induction ps s rule: trim_left.induct)
  case (1 ps s)
  show ?case
  proof (cases "strip_one ps s")
    case None
    then show ?thesis by (simp add: trim_left.simps [of ps s])
  next
    case (Some s')
    then obtain p where "s = p @ s'" using strip_one_split by blast
    moreover obtain q where "s' = q @ trim_left ps s'" using 1 [OF Some] by blast
    ultimately have "s = (p @ q) @ trim_left ps s'" by simp
    moreover have "trim_left ps s = trim_left ps s'" using Some by (simp add: trim_left.simps [of ps s])
    ultimately show ?thesis by metis
  qed
qed

lemma TrimSpace_again [simp]: "TrimSpace (TrimSpace s) = TrimSpace s"
proof -
  let ?t = "trim_left space_encodings s"
  let ?r = "trim_left (map rev space_encodings) (rev ?t)"
  have n: "[] \<notin> set space_encodings" "[] \<notin> set (map rev space_encodings)" by (simp_all add: space_encodings_def)
  obtain p where "rev ?t = p @ ?r" using trim_left_suffix by blast
  then have t: "?t = rev ?r @ rev p" by (metis rev_append rev_rev_ident)
  have "strip_one space_encodings ?t = None" by (rule trim_left_done)
  then have "strip_one space_encodings (rev ?r) = None"
    unfolding strip_one_None [OF n(1)] by (subst (asm) t) (metis append.assoc)
  moreover have "strip_one (map rev space_encodings) (rev (rev ?r)) = None" by (simp add: trim_left_done)
  ultimately show ?thesis unfolding TrimSpace_def [of s] by (rule TrimSpace_id)
qed

section \<open>Normalized recipes\<close>

lemma capabilities_trimmed: "c \<in> set AllCapabilities \<Longrightarrow> ParseCapability (TrimSpace c) = Some c"
proof -
  assume "c \<in> set AllCapabilities"
  moreover have "list_all (\<lambda>c. ParseCapability (TrimSpace c) = Some c) AllCapabilities" by code_simp
  ultimately show ?thesis by (simp add: list_all_iff)
qed

lemma ParseCapability_Some: "ParseCapability v = Some c \<Longrightarrow> c = v \<and> c \<in> set AllCapabilities"
  by (auto simp: ParseCapability_def find_Some_iff)

lemma norm_capabilities_ok:
  "norm_capabilities rid seen cs = Inr caps \<Longrightarrow> distinct seen \<Longrightarrow> set seen \<subseteq> set AllCapabilities \<Longrightarrow>
   distinct caps \<and> set caps \<subseteq> set AllCapabilities \<and> set caps = set seen \<union> TrimSpace ` set cs"
proof (induction cs arbitrary: seen)
  case (Cons raw cs)
  let ?n = "TrimSpace raw" and ?s = "if TrimSpace raw \<in> set seen then seen else TrimSpace raw # seen"
  have c: "?n \<in> set AllCapabilities" "norm_capabilities rid ?s cs = Inr caps"
    using Cons.prems(1) by (auto split: option.splits if_splits dest!: ParseCapability_Some)
  have "distinct ?s" "set ?s \<subseteq> set AllCapabilities" using Cons.prems(2,3) c(1) by auto
  from Cons.IH [OF c(2) this] show ?case by (auto split: if_splits)
qed auto

lemma norm_capabilities_again:
  "distinct (seen @ caps) \<Longrightarrow> set caps \<subseteq> set AllCapabilities \<Longrightarrow> norm_capabilities rid seen caps = Inr (rev seen @ caps)"
  by (induction caps arbitrary: seen) (auto simp: capabilities_trimmed)

text \<open>An entry of a normalized allowlist.\<close>

definition allowed_name :: "string \<Rightarrow> bool" where
  "allowed_name n \<longleftrightarrow> n \<noteq> [] \<and> TrimSpace n = n \<and> \<not> isCredentialName n"

lemma norm_environment_ok:
  "norm_environment rid inherit seen ns = Inr env \<Longrightarrow> distinct seen \<Longrightarrow> list_all allowed_name seen \<Longrightarrow> (seen \<noteq> [] \<longrightarrow> inherit) \<Longrightarrow>
   sorted env \<and> distinct env \<and> list_all allowed_name env \<and> (env \<noteq> [] \<longrightarrow> inherit)
   \<and> set env = set seen \<union> {n \<in> TrimSpace ` set ns. n \<noteq> []}"
proof (induction ns arbitrary: seen)
  case Nil
  then show ?case by (auto simp: list_all_iff dest: arg_cong [of "sort _" "[]" length])
next
  case (Cons raw ns)
  let ?n = "TrimSpace raw"
  show ?case
  proof (cases "?n = []")
    case True
    then show ?thesis using Cons by auto
  next
    case False
    then have c: "\<not> isCredentialName ?n" "inherit"
      "norm_environment rid inherit (if ?n \<in> set seen then seen else ?n # seen) ns = Inr env"
      using Cons.prems(1) by (auto simp: Let_def split: if_splits)
    have "allowed_name ?n" using False c(1) by (simp add: allowed_name_def)
    then have "list_all allowed_name (if ?n \<in> set seen then seen else ?n # seen)" "distinct (if ?n \<in> set seen then seen else ?n # seen)"
      using Cons.prems(2,3) by simp_all
    then show ?thesis using Cons.IH [OF c(3)] c(2) False by auto
  qed
qed

lemma norm_environment_again:
  "list_all allowed_name ns \<Longrightarrow> distinct (seen @ ns) \<Longrightarrow> (ns \<noteq> [] \<longrightarrow> inherit) \<Longrightarrow>
   norm_environment rid inherit seen ns = Inr (sort (rev seen @ ns))"
  by (induction ns arbitrary: seen) (auto simp: allowed_name_def)

lemma Clean_relative:
  assumes "\<not> IsAbs p" "\<not> list_ex (\<lambda>c. c = ''..'') (Split (CHR ''/'') p)"
  shows "Clean p = ''.'' \<or> (\<exists>cs. cs \<noteq> [] \<and> (\<forall>c \<in> set cs. proper c) \<and> Clean p = Join ''/'' cs)"
proof -
  let ?cs = "filter (\<lambda>c. c \<noteq> [] \<and> c \<noteq> ''.'') (Split (CHR ''/'') p)"
  have plain: "\<forall>c \<in> set (Split (CHR ''/'') p). c \<noteq> ''..''" using assms(2) by (auto simp: list_ex_iff)
  have q: "Clean p = (if Join ''/'' ?cs = [] then ''.'' else Join ''/'' ?cs)"
    using assms(1) plain by (simp add: Clean_def clean_elems_plain Let_def)
  have "\<forall>c \<in> set ?cs. proper c" using plain Split_elements by (auto simp: proper_def)
  then show ?thesis using q Join_not_rooted [of ?cs] by (cases "?cs = []") auto
qed

lemma Clean_relative_again:
  assumes "\<not> IsAbs p" "\<not> list_ex (\<lambda>c. c = ''..'') (Split (CHR ''/'') p)"
  shows "\<not> IsAbs (Clean p) \<and> \<not> list_ex (\<lambda>c. c = ''..'') (Split (CHR ''/'') (Clean p)) \<and> Clean (Clean p) = Clean p \<and> Clean p \<noteq> []"
  using Clean_relative [OF assms]
proof
  assume "Clean p = ''.''"
  moreover have "\<not> IsAbs ''.'' \<and> \<not> list_ex (\<lambda>c. c = ''..'') (Split (CHR ''/'') ''.'') \<and> Clean ''.'' = ''.''" by code_simp
  ultimately show ?thesis by simp
next
  assume "\<exists>cs. cs \<noteq> [] \<and> (\<forall>c \<in> set cs. proper c) \<and> Clean p = Join ''/'' cs"
  then obtain cs where cs: "cs \<noteq> []" "\<forall>c \<in> set cs. proper c" "Clean p = Join ''/'' cs" by blast
  have "\<forall>c \<in> set cs. c \<noteq> ''..''" using cs(2) by (auto simp: proper_def)
  then show ?thesis
    using Join_not_rooted [OF cs(2,1)] Clean_proper [OF cs(1,2)] Split_proper [OF cs(1,2)] unfolding cs(3)
    by (auto simp: IsAbs_iff list_ex_iff)
qed

text \<open>A working directory that stays as it is when it is normalized again.\<close>

definition settled_directory :: "string \<Rightarrow> bool" where
  "settled_directory d \<longleftrightarrow> is_blank d \<or> TrimSpace d = d"

lemma norm_directory_again:
  assumes "norm_directory rid d = Inr d'" "settled_directory d'"
  shows "norm_directory rid' d' = Inr d'"
proof (cases "TrimSpace d = []")
  case True
  then show ?thesis using assms(1) by (simp add: norm_directory_def)
next
  case False
  then have d: "\<not> IsAbs (TrimSpace d)" "\<not> list_ex (\<lambda>c. c = ''..'') (Split (CHR ''/'') (TrimSpace d))" "d' = Clean (TrimSpace d)"
    using assms(1) by (auto simp: norm_directory_def Let_def split: if_splits)
  show ?thesis
  proof (cases "TrimSpace d' = []")
    case True
    then show ?thesis by (simp add: norm_directory_def)
  next
    case False
    then have "TrimSpace d' = d'" using assms(2) by (simp add: settled_directory_def is_blank_def)
    then show ?thesis using False Clean_relative_again [OF d(1,2)] d(3) by (simp add: norm_directory_def)
  qed
qed

lemma Normalize_cases:
  assumes "Normalize r = Inr r'"
  obtains wd caps env where
    "TrimSpace (rc_ID r) \<noteq> []" "TrimSpace (rc_Executable r) \<noteq> []"
    "\<not> (Clean (TrimSpace (rc_Executable r)) = ''..'' \<or> HasPrefix (Clean (TrimSpace (rc_Executable r))) ''../'')"
    "norm_directory (TrimSpace (rc_ID r)) (rc_WorkingDirectory r) = Inr wd"
    "norm_capabilities (TrimSpace (rc_ID r)) [] (rc_Capabilities r) = Inr caps"
    "norm_environment (TrimSpace (rc_ID r)) (CapabilityInheritEnvironment \<in> set caps) [] (rc_AllowedEnvironment r) = Inr env"
    "rc_ID r' = TrimSpace (rc_ID r)" "rc_Executable r' = TrimSpace (rc_Executable r)" "rc_WorkingDirectory r' = wd"
    "rc_TimeoutNanos r' = Timeout r" "rc_Capabilities r' = caps" "rc_AllowedEnvironment r' = env" "rc_Argv r' = rc_Argv r"
    "rc_MaxStdoutBytes r' = (if rc_MaxStdoutBytes r \<le> 0 then DefaultMaxStdoutBytes else rc_MaxStdoutBytes r)"
    "rc_MaxStderrBytes r' = (if rc_MaxStderrBytes r \<le> 0 then DefaultMaxStderrBytes else rc_MaxStderrBytes r)"
    "rc_MaxStdoutBytes r' \<le> MaxOutputBytes" "rc_MaxStderrBytes r' \<le> MaxOutputBytes"
  using assms by (auto simp: Normalize_def Let_def split: if_splits sum.splits)

lemma Timeout_pos: "0 < Timeout r"
  by (simp add: Timeout_def DefaultTimeout_def)

text \<open>What the normalization guarantees.\<close>

definition well_formed_recipe :: "Recipe \<Rightarrow> bool" where
  "well_formed_recipe r \<longleftrightarrow>
     rc_ID r \<noteq> [] \<and> TrimSpace (rc_ID r) = rc_ID r \<and> rc_Executable r \<noteq> [] \<and> TrimSpace (rc_Executable r) = rc_Executable r
     \<and> Clean (rc_Executable r) \<noteq> ''..'' \<and> \<not> HasPrefix (Clean (rc_Executable r)) ''../''
     \<and> (is_blank (rc_WorkingDirectory r) \<or> \<not> IsAbs (rc_WorkingDirectory r) \<and> ''..'' \<notin> set (Split (CHR ''/'') (rc_WorkingDirectory r)))
     \<and> 0 < rc_TimeoutNanos r
     \<and> 0 < rc_MaxStdoutBytes r \<and> rc_MaxStdoutBytes r \<le> MaxOutputBytes \<and> 0 < rc_MaxStderrBytes r \<and> rc_MaxStderrBytes r \<le> MaxOutputBytes
     \<and> distinct (rc_Capabilities r) \<and> set (rc_Capabilities r) \<subseteq> set AllCapabilities
     \<and> sorted (rc_AllowedEnvironment r) \<and> distinct (rc_AllowedEnvironment r) \<and> list_all allowed_name (rc_AllowedEnvironment r)
     \<and> (rc_AllowedEnvironment r \<noteq> [] \<longrightarrow> CapabilityInheritEnvironment \<in> set (rc_Capabilities r))"

lemma Normalize_well_formed:
  assumes "Normalize r = Inr r'"
  shows "well_formed_recipe r'"
proof -
  from assms obtain wd caps env where n:
    "TrimSpace (rc_ID r) \<noteq> []" "TrimSpace (rc_Executable r) \<noteq> []"
    "\<not> (Clean (TrimSpace (rc_Executable r)) = ''..'' \<or> HasPrefix (Clean (TrimSpace (rc_Executable r))) ''../'')"
    "norm_directory (TrimSpace (rc_ID r)) (rc_WorkingDirectory r) = Inr wd"
    "norm_capabilities (TrimSpace (rc_ID r)) [] (rc_Capabilities r) = Inr caps"
    "norm_environment (TrimSpace (rc_ID r)) (CapabilityInheritEnvironment \<in> set caps) [] (rc_AllowedEnvironment r) = Inr env"
    "rc_ID r' = TrimSpace (rc_ID r)" "rc_Executable r' = TrimSpace (rc_Executable r)" "rc_WorkingDirectory r' = wd"
    "rc_TimeoutNanos r' = Timeout r" "rc_Capabilities r' = caps" "rc_AllowedEnvironment r' = env" "rc_Argv r' = rc_Argv r"
    "rc_MaxStdoutBytes r' = (if rc_MaxStdoutBytes r \<le> 0 then DefaultMaxStdoutBytes else rc_MaxStdoutBytes r)"
    "rc_MaxStderrBytes r' = (if rc_MaxStderrBytes r \<le> 0 then DefaultMaxStderrBytes else rc_MaxStderrBytes r)"
    "rc_MaxStdoutBytes r' \<le> MaxOutputBytes" "rc_MaxStderrBytes r' \<le> MaxOutputBytes"
    by (rule Normalize_cases)
  have "is_blank wd \<or> \<not> IsAbs wd \<and> ''..'' \<notin> set (Split (CHR ''/'') wd)"
    using n(4) Clean_relative_again [of "TrimSpace (rc_WorkingDirectory r)"]
    by (auto simp: norm_directory_def Let_def is_blank_def list_ex_iff split: if_splits)
  moreover have "distinct caps \<and> set caps \<subseteq> set AllCapabilities"
    using norm_capabilities_ok [OF n(5)] by (metis distinct.simps(1) empty_subsetI list.set(1))
  moreover have "sorted env \<and> distinct env \<and> list_all allowed_name env \<and> (env \<noteq> [] \<longrightarrow> CapabilityInheritEnvironment \<in> set caps)"
    using norm_environment_ok [OF n(6)] by simp
  moreover have "0 < rc_MaxStdoutBytes r'" "0 < rc_MaxStderrBytes r'"
    using n(14,15) by (auto simp: DefaultMaxStdoutBytes_def DefaultMaxStderrBytes_def)
  ultimately show ?thesis using n(1-3,7-12,16,17) by (simp add: well_formed_recipe_def Timeout_pos)
qed

lemma Normalize_again:
  assumes "Normalize r = Inr r'" "settled_directory (rc_WorkingDirectory r')"
  shows "Normalize r' = Inr r'"
proof -
  from assms(1) obtain wd where d: "norm_directory (TrimSpace (rc_ID r)) (rc_WorkingDirectory r) = Inr wd" "rc_WorkingDirectory r' = wd"
    by (rule Normalize_cases)
  note w = Normalize_well_formed [OF assms(1), unfolded well_formed_recipe_def]
  have "norm_directory (rc_ID r') (rc_WorkingDirectory r') = Inr (rc_WorkingDirectory r')"
    using norm_directory_again [OF d(1)] assms(2) d(2) by simp
  moreover have "norm_capabilities (rc_ID r') [] (rc_Capabilities r') = Inr (rc_Capabilities r')"
    using norm_capabilities_again [of "[]" "rc_Capabilities r'"] w by simp
  moreover have "norm_environment (rc_ID r') (CapabilityInheritEnvironment \<in> set (rc_Capabilities r')) [] (rc_AllowedEnvironment r')
      = Inr (rc_AllowedEnvironment r')"
    using norm_environment_again [of "rc_AllowedEnvironment r'" "[]"] w by (simp add: sorted_sort_id)
  moreover have "Timeout r' = rc_TimeoutNanos r'" using w by (simp add: Timeout_def)
  ultimately show ?thesis using w by (simp add: Normalize_def)
qed

section \<open>Catalogs\<close>

lemma add_recipes_ok:
  "add_recipes index rs = Inr m \<Longrightarrow> map_wf index \<Longrightarrow>
   map_wf m \<and> (\<forall>k r. map_get m k = Some r \<longleftrightarrow> map_get index k = Some r \<or> (\<exists>raw \<in> set rs. Normalize raw = Inr r \<and> rc_ID r = k))
   \<and> length m = length index + length rs"
proof (induction rs arbitrary: index)
  case (Cons raw rs)
  obtain r where r: "Normalize raw = Inr r" "map_get index (rc_ID r) = None" "add_recipes (map_put (rc_ID r) r index) rs = Inr m"
    using Cons.prems(1) by (auto split: sum.splits if_splits)
  have "rc_ID r \<notin> fst ` set index" using r(2) by (simp add: map_of_eq_None_iff)
  then have "length (map_put (rc_ID r) r index) = Suc (length index)" by (induction index) auto
  then show ?case using Cons.IH [OF r(3)] Cons.prems(2) r(1,2) by auto
qed auto

text \<open>The catalogs a parser can give.\<close>

definition catalog_ok :: "Catalog \<Rightarrow> bool" where
  "catalog_ok m \<longleftrightarrow> (\<exists>rs. NewCatalog rs = Inr m)"

lemma catalog_entries:
  assumes "catalog_ok m"
  shows "map_wf m" "map_get m k = Some r \<Longrightarrow> rc_ID r = k \<and> (\<exists>raw. Normalize raw = Inr r)"
  using assms add_recipes_ok by (fastforce simp: catalog_ok_def NewCatalog_def)+

lemma add_normalized:
  "\<forall>r \<in> set rs. Normalize r = Inr r \<Longrightarrow> distinct (map rc_ID rs) \<Longrightarrow> \<forall>r \<in> set rs. map_get index (rc_ID r) = None \<Longrightarrow>
   \<exists>m. add_recipes index rs = Inr m"
proof (induction rs arbitrary: index)
  case (Cons a rs)
  have "\<forall>r \<in> set rs. map_get (map_put (rc_ID a) a index) (rc_ID r) = None" using Cons.prems(2,3) by (auto simp: image_iff)
  then show ?case using Cons.IH [of "map_put (rc_ID a) a index"] Cons.prems by simp
qed simp

lemma select_recipes_iff:
  "select_recipes m seen ids = Inr rs \<longleftrightarrow>
    map (\<lambda>i. map_get m (TrimSpace i)) ids = map Some rs \<and> list_all (\<lambda>i. \<not> is_blank i) ids
    \<and> distinct (map TrimSpace ids) \<and> set (map TrimSpace ids) \<inter> set seen = {}"
proof (induction ids arbitrary: seen rs)
  case (Cons raw ids)
  let ?n = "TrimSpace raw"
  have "select_recipes m seen (raw # ids) = Inr rs \<longleftrightarrow>
      ?n \<noteq> [] \<and> ?n \<notin> set seen \<and> (\<exists>r rs'. map_get m ?n = Some r \<and> select_recipes m (?n # seen) ids = Inr rs' \<and> rs = r # rs')"
    by (auto simp: Let_def split: option.splits sum.splits)
  also have "\<dots> \<longleftrightarrow> map (\<lambda>i. map_get m (TrimSpace i)) (raw # ids) = map Some rs \<and> list_all (\<lambda>i. \<not> is_blank i) (raw # ids)
    \<and> distinct (map TrimSpace (raw # ids)) \<and> set (map TrimSpace (raw # ids)) \<inter> set seen = {}"
    unfolding Cons by (cases rs) (auto simp: is_blank_def)
  finally show ?case .
qed auto

lemma map_Some_lookup: "map f is = map Some rs \<Longrightarrow> r \<in> set rs \<longleftrightarrow> (\<exists>i \<in> set is. f i = Some r)"
  by (induction "is" arbitrary: rs) (auto simp: Cons_eq_map_conv)

lemma catalog_fixed:
  assumes "catalog_ok m" "\<forall>r \<in> snd ` set m. settled_directory (rc_WorkingDirectory r)"
    and lookup: "map_get m k = Some r"
  shows "rc_ID r = k" "Normalize r = Inr r"
proof -
  show "rc_ID r = k" using catalog_entries(2) [OF assms(1) lookup] by simp
  obtain raw where "Normalize raw = Inr r" using catalog_entries(2) [OF assms(1) lookup] by blast
  moreover have "r \<in> snd ` set m" using map_of_SomeD [OF lookup] by force
  ultimately show "Normalize r = Inr r" using Normalize_again assms(2) by blast
qed

lemma selected_rebuild:
  assumes "catalog_ok m" "\<forall>r \<in> snd ` set m. settled_directory (rc_WorkingDirectory r)"
    and sel: "select_recipes m [] ids = Inr rs"
  shows "\<exists>m'. NewCatalog rs = Inr m'"
proof -
  have s: "map (\<lambda>i. map_get m (TrimSpace i)) ids = map Some rs" "distinct (map TrimSpace ids)" using sel select_recipes_iff by blast+
  have "map rc_ID rs = map TrimSpace ids"
    using s(1) catalog_fixed(1) [OF assms(1,2)] by (induction ids arbitrary: rs) (auto simp: Cons_eq_map_conv)
  moreover have "\<forall>r \<in> set rs. Normalize r = Inr r" using map_Some_lookup [OF s(1)] catalog_fixed(2) [OF assms(1,2)] by blast
  ultimately show ?thesis using add_normalized [of rs "[]"] s(2) by (simp add: NewCatalog_def)
qed

lemma select_succeeds:
  assumes "catalog_ok m" "\<forall>r \<in> snd ` set m. settled_directory (rc_WorkingDirectory r)"
  shows "(\<exists>m'. Catalog_Select (Some m) ids = Inr m') \<longleftrightarrow>
     list_all (\<lambda>i. \<not> is_blank i \<and> map_get m (TrimSpace i) \<noteq> None) ids \<and> distinct (map TrimSpace ids)"
proof -
  have some: "(\<exists>rs. map (\<lambda>i. map_get m (TrimSpace i)) ids = map Some rs) \<longleftrightarrow> list_all (\<lambda>i. map_get m (TrimSpace i) \<noteq> None) ids"
    by (induction ids) (fastforce simp: Cons_eq_map_conv)+
  have "(\<exists>m'. Catalog_Select (Some m) ids = Inr m') \<longleftrightarrow> (\<exists>rs. select_recipes m [] ids = Inr rs)"
    using selected_rebuild [OF assms] by (fastforce simp: Catalog_Select_def split: sum.splits)
  then show ?thesis using some unfolding select_recipes_iff by (auto simp: list_all_iff)
qed

lemma select_result:
  assumes "catalog_ok m" "\<forall>r \<in> snd ` set m. settled_directory (rc_WorkingDirectory r)"
    and sel: "Catalog_Select (Some m) ids = Inr m'"
  shows "map_get m' k = (if k \<in> TrimSpace ` set ids then map_get m k else None)" "length m' = length ids"
proof -
  obtain rs where rs: "select_recipes m [] ids = Inr rs" "NewCatalog rs = Inr m'"
    using sel by (auto simp: Catalog_Select_def split: sum.splits)
  have s: "map (\<lambda>i. map_get m (TrimSpace i)) ids = map Some rs" using rs(1) select_recipes_iff by blast
  note n = add_recipes_ok [OF rs(2) [unfolded NewCatalog_def], simplified]
  have "map_get m' k = Some r \<longleftrightarrow> r \<in> set rs \<and> rc_ID r = k" for r
    using n map_Some_lookup [OF s] catalog_fixed(2) [OF assms(1,2)] by fastforce
  then have "map_get m' k = Some r \<longleftrightarrow> k \<in> TrimSpace ` set ids \<and> map_get m k = Some r" for r
    using map_Some_lookup [OF s] catalog_fixed(1) [OF assms(1,2)] by auto
  then show "map_get m' k = (if k \<in> TrimSpace ` set ids then map_get m k else None)"
    by (metis not_Some_eq)
  show "length m' = length ids" using n map_eq_imp_length_eq [OF s] by simp
qed

text \<open>C12: what a catalog holds is well formed. Whatever document an operator supplies, a parsed catalog has unique
  ids that its recipes carry, and every recipe has an executable that does not climb out, a relative working
  directory without parent steps, positive bounded limits, known capabilities, and an allowlist that is sorted,
  free of credential names, and empty unless inheriting is declared.\<close>

theorem parsed_catalogs_are_well_formed:
  assumes "ParseCatalog data = Inr m"
  shows "map_wf m \<and> (\<forall>(k, r) \<in> set m. rc_ID r = k \<and> well_formed_recipe r)"
proof -
  obtain rs where "NewCatalog rs = Inr m"
    using assms by (auto simp: ParseCatalog_def split: option.splits if_splits gval.splits)
  then have ok: "catalog_ok m" by (auto simp: catalog_ok_def)
  note e = catalog_entries [OF ok]
  show ?thesis using e Normalize_well_formed by (auto simp: map_of_eq_Some_iff)
qed

theorem parsed_catalogs_are_well_formed_witness:
  \<open>\<exists>m. ParseCatalog ''[{"id":"t","executable":" go"}]'' = Inr m \<and> map_get m ''t'' \<noteq> None \<and> map_wf m\<close>
proof -
  have p: \<open>ParseCatalog ''[{"id":"t","executable":" go"}]'' = Inr [(''t'', \<lparr>rc_ID = ''t'', rc_Executable = ''go'', rc_Argv = [],
      rc_WorkingDirectory = [], rc_TimeoutNanos = 60000000000, rc_MaxStdoutBytes = 262144, rc_MaxStderrBytes = 262144,
      rc_Capabilities = [], rc_AllowedEnvironment = []\<rparr>)]\<close>
    by code_simp
  show ?thesis using parsed_catalogs_are_well_formed [OF p] p by simp
qed

text \<open>A selected surface is exactly the part selected. From a catalog whose working directories are settled, a list
  of ids is selected exactly when no id is blank, none is repeated and all are in the catalog; the new catalog
  has the very definitions of these ids and no others, so no digest and no approval changes.\<close>

theorem selection_keeps_definitions:
  assumes "catalog_ok m" "\<forall>r \<in> snd ` set m. settled_directory (rc_WorkingDirectory r)"
  shows "((\<exists>m'. Catalog_Select (Some m) ids = Inr m') \<longleftrightarrow>
       list_all (\<lambda>i. \<not> is_blank i \<and> map_get m (TrimSpace i) \<noteq> None) ids \<and> distinct (map TrimSpace ids))
     \<and> (Catalog_Select (Some m) ids = Inr m' \<longrightarrow>
       (\<forall>k. map_get m' k = (if k \<in> TrimSpace ` set ids then map_get m k else None)) \<and> length m' = length ids)"
  using select_succeeds [OF assms] select_result [OF assms] by blast

text \<open>A catalog of two recipes of which one is selected.\<close>

definition demo_recipe :: "string \<Rightarrow> Recipe" where
  "demo_recipe rid = \<lparr>rc_ID = rid, rc_Executable = ''go'', rc_Argv = [''test''], rc_WorkingDirectory = ''a//b'', rc_TimeoutNanos = 0,
     rc_MaxStdoutBytes = 0, rc_MaxStderrBytes = 10, rc_Capabilities = [CapabilityInheritEnvironment, '' network ''],
     rc_AllowedEnvironment = [''HOME'', ''GOPATH'', ''HOME'']\<rparr>"

definition demo_normal :: "string \<Rightarrow> Recipe" where
  "demo_normal rid = \<lparr>rc_ID = rid, rc_Executable = ''go'', rc_Argv = [''test''], rc_WorkingDirectory = ''a/b'', rc_TimeoutNanos = 60000000000,
     rc_MaxStdoutBytes = 262144, rc_MaxStderrBytes = 10, rc_Capabilities = [CapabilityInheritEnvironment, CapabilityNetwork],
     rc_AllowedEnvironment = [''GOPATH'', ''HOME'']\<rparr>"

lemma demo_normalized:
  "Normalize (demo_recipe ''t'') = Inr (demo_normal ''t'')" "Normalize (demo_recipe ''u'') = Inr (demo_normal ''u'')"
  by code_simp+

lemma demo_catalog:
  "NewCatalog [demo_recipe ''t''] = Inr [(''t'', demo_normal ''t'')]"
  "NewCatalog [demo_recipe ''t'', demo_recipe ''u''] = Inr [(''t'', demo_normal ''t''), (''u'', demo_normal ''u'')]"
  by (simp_all add: NewCatalog_def demo_normalized) (simp_all add: demo_normal_def)

theorem selection_keeps_definitions_witness:
  "\<exists>m'. Catalog_Select (Some [(''t'', demo_normal ''t''), (''u'', demo_normal ''u'')]) ['' u ''] = Inr m'
     \<and> map_get m' ''u'' = Some (demo_normal ''u'') \<and> map_get m' ''t'' = None"
proof -
  let ?m = "[(''t'', demo_normal ''t''), (''u'', demo_normal ''u'')]"
  have ok: "catalog_ok ?m" using demo_catalog(2) by (auto simp: catalog_ok_def)
  have d: "\<forall>r \<in> snd ` set ?m. settled_directory (rc_WorkingDirectory r)"
    by (simp add: settled_directory_def demo_normal_def) code_simp
  have u: "TrimSpace '' u '' = ''u''" by code_simp
  obtain m' where m': "Catalog_Select (Some ?m) ['' u ''] = Inr m'"
    using selection_keeps_definitions [OF ok d, of "['' u '']"] u by (auto simp: is_blank_def)
  then show ?thesis using selection_keeps_definitions [OF ok d, of "['' u '']" m'] u by auto
qed

text \<open>Without settled directories a selection changes a definition: the directory \<open>a /\<close> of a catalog becomes \<open>a\<close> followed
  by a blank, and the selection trims it.\<close>

lemma selection_trims_directories:
  "\<exists>r r'. NewCatalog [(demo_recipe ''t'')\<lparr>rc_WorkingDirectory := ''a /''\<rparr>] = Inr [(''t'', r)]
     \<and> Catalog_Select (Some [(''t'', r)]) [''t''] = Inr [(''t'', r')] \<and> rc_WorkingDirectory r = ''a '' \<and> rc_WorkingDirectory r' = ''a''"
proof -
  have "NewCatalog [(demo_recipe ''t'')\<lparr>rc_WorkingDirectory := ''a /''\<rparr>] = Inr [(''t'', (demo_normal ''t'')\<lparr>rc_WorkingDirectory := ''a ''\<rparr>)]"
    by code_simp
  moreover have "Catalog_Select (Some [(''t'', (demo_normal ''t'')\<lparr>rc_WorkingDirectory := ''a ''\<rparr>)]) [''t'']
      = Inr [(''t'', (demo_normal ''t'')\<lparr>rc_WorkingDirectory := ''a''\<rparr>)]"
    by code_simp
  ultimately show ?thesis by fastforce
qed

section \<open>Drift\<close>

text \<open>The effective definitions of a catalog.\<close>

definition effective :: "Catalog \<Rightarrow> string \<Rightarrow> recipe_payload option" where
  "effective m k = map_option Recipe_payload (map_get m k)"

lemma Catalog_IDs_effective:
  assumes "map_wf m"
  shows "set (Catalog_IDs (Some m)) = dom (effective m)" "sorted (Catalog_IDs (Some m))" "distinct (Catalog_IDs (Some m))"
  using assms by (auto simp: Catalog_IDs_def effective_def dom_map_of_conv_image_fst dom_def image_iff
      intro: map_of_SomeD dest: map_of_SomeD) (metis map_of_eq_None_iff option.exhaust fst_conv image_eqI)

definition line_of :: "(recipe_payload \<Rightarrow> string) \<Rightarrow> Catalog \<Rightarrow> string \<Rightarrow> string" where
  "line_of sha m k = k @ ''='' @ sha (the (effective m k))"

lemma catalog_lines_eq:
  assumes "map_wf m"
  shows "catalog_lines sha m = map (line_of sha m) (Catalog_IDs (Some m))"
proof -
  have "List.map_filter (\<lambda>k. map_option (\<lambda>r. k @ ''='' @ Recipe_Digest sha r) (map_get m k)) ks = map (line_of sha m) ks"
    if "set ks \<subseteq> dom (effective m)" for ks
    using that by (induction ks) (auto simp: map_filter_simps effective_def line_of_def Recipe_Digest_def)
  then show ?thesis using Catalog_IDs_effective(1) [OF assms] by (simp add: catalog_lines_def)
qed

text \<open>A line gives back its id and its digest.\<close>

lemma line_parts:
  assumes "k @ ''='' @ d = k' @ ''='' @ d'" "length d = 64" "length d' = 64"
  shows "k = k' \<and> d = d'"
  using assms by (metis append_eq_append_conv length_append append_assoc)

lemma catalog_lines_split:
  assumes "\<forall>p. newline \<notin> set (sha p)" "map_wf x" "x \<noteq> []" "\<forall>k \<in> dom (effective x). newline \<notin> set k"
  shows "Split newline (Join [newline] (catalog_lines sha x)) = catalog_lines sha x"
proof (rule Split_Join)
  show "\<forall>l \<in> set (catalog_lines sha x). newline \<notin> set l"
    using assms(1,4) Catalog_IDs_effective(1) [OF assms(2)] by (auto simp: catalog_lines_eq [OF assms(2)] line_of_def newline_def)
  have "length (Catalog_IDs (Some x)) \<noteq> 0" using assms(3) by (simp add: Catalog_IDs_def)
  then show "catalog_lines sha x \<noteq> []" using catalog_lines_eq [OF assms(2)] by (metis length_0_conv map_is_Nil_conv)
qed

lemma same_lines:
  assumes "\<forall>p. length (sha p) = 64" "map (line_of sha m) as = map (line_of sha m') bs"
  shows "as = bs \<and> (\<forall>a \<in> set as. sha (the (effective m a)) = sha (the (effective m' a)))"
proof -
  have "a = b \<and> sha (the (effective m a)) = sha (the (effective m' b))" if "line_of sha m a = line_of sha m' b" for a b
    using that line_parts assms(1) unfolding line_of_def by blast
  note one = this
  show ?thesis using assms(2)
  proof (induction as arbitrary: bs)
    case (Cons a as)
    then obtain b bs' where b: "bs = b # bs'" "line_of sha m a = line_of sha m' b" "map (line_of sha m) as = map (line_of sha m') bs'"
      by (auto simp: Cons_eq_map_conv)
    show ?case using one [OF b(2)] Cons.IH [OF b(3)] unfolding b(1) by (metis set_ConsD)
  qed simp
qed

lemma empty_effective: "m = [] \<longleftrightarrow> effective m = Map.empty"
  by (cases m) (auto simp: effective_def fun_eq_iff)

lemma same_effective:
  assumes "map_wf m" "map_wf m'" "\<forall>p. length (sha p) = 64"
    and "\<forall>p \<in> ran (effective m). \<forall>q \<in> ran (effective m'). sha p = sha q \<longrightarrow> p = q"
    and "catalog_lines sha m = catalog_lines sha m'"
  shows "effective m = effective m'"
proof
  fix a
  note i = Catalog_IDs_effective(1) [OF assms(1)] Catalog_IDs_effective(1) [OF assms(2)]
  have "map (line_of sha m) (Catalog_IDs (Some m)) = map (line_of sha m') (Catalog_IDs (Some m'))"
    using assms(5) by (simp add: catalog_lines_eq assms(1,2))
  note l = same_lines [OF assms(3) this]
  have k: "dom (effective m) = dom (effective m')" using l i by simp
  show "effective m a = effective m' a"
  proof (cases "a \<in> dom (effective m)")
    case True
    then obtain p q where pq: "effective m a = Some p" "effective m' a = Some q" using k by (metis domD)
    moreover have "sha (the (effective m a)) = sha (the (effective m' a))" using l i(1) True by blast
    ultimately have "sha p = sha q" by simp
    then have "p = q" using assms(4) pq by (meson ranI)
    then show ?thesis using pq by simp
  next
    case False
    then show ?thesis using k by (metis domIff)
  qed
qed

text \<open>Drift is detected. If no two of the definitions at hand have the same hash, the texts of the two catalogs do
  not collide, digests are sixty-four characters and ids have no line breaks, then two catalogs have the same
  digest exactly when they have the same ids with the same effective definitions.\<close>

theorem catalog_digest_detects_drift:
  assumes "catalog_ok m" "catalog_ok m'"
    and "\<forall>p. length (sha p) = 64 \<and> newline \<notin> set (sha p)" "\<forall>x. sha256hex x \<noteq> []"
    and "\<forall>p \<in> ran (effective m). \<forall>q \<in> ran (effective m'). sha p = sha q \<longrightarrow> p = q"
    and "sha256hex (Join [newline] (catalog_lines sha m)) = sha256hex (Join [newline] (catalog_lines sha m')) \<longrightarrow>
         Join [newline] (catalog_lines sha m) = Join [newline] (catalog_lines sha m')"
    and "\<forall>k \<in> dom (effective m) \<union> dom (effective m'). newline \<notin> set k"
  shows "Catalog_Digest sha sha256hex (Some m) = Catalog_Digest sha sha256hex (Some m') \<longleftrightarrow> effective m = effective m'"
proof
  note w = catalog_entries(1) [OF assms(1)] catalog_entries(1) [OF assms(2)]
  assume d: "Catalog_Digest sha sha256hex (Some m) = Catalog_Digest sha sha256hex (Some m')"
  show "effective m = effective m'"
  proof (cases "m = [] \<or> m' = []")
    case True
    then have "m = [] \<and> m' = []" using d assms(4) by (auto simp: Catalog_Digest_def split: if_splits) (metis+)
    then show ?thesis by simp
  next
    case False
    then have "Join [newline] (catalog_lines sha m) = Join [newline] (catalog_lines sha m')"
      using d assms(6) by (simp add: Catalog_Digest_def)
    then have "catalog_lines sha m = catalog_lines sha m'"
      using catalog_lines_split [of sha, OF _ w(1)] catalog_lines_split [of sha, OF _ w(2)] False assms(3,7) by (metis UnCI)
    then show ?thesis using same_effective [OF w _ assms(5)] assms(3) by blast
  qed
next
  note w = catalog_entries(1) [OF assms(1)] catalog_entries(1) [OF assms(2)]
  assume e: "effective m = effective m'"
  then have "Catalog_IDs (Some m) = Catalog_IDs (Some m')"
    using Catalog_IDs_effective [OF w(1)] Catalog_IDs_effective [OF w(2)] by (simp add: sorted_distinct_set_unique)
  then have "catalog_lines sha m = catalog_lines sha m'"
    using e by (simp add: catalog_lines_eq [OF w(1)] catalog_lines_eq [OF w(2)] line_of_def)
  then show "Catalog_Digest sha sha256hex (Some m) = Catalog_Digest sha sha256hex (Some m')"
    using empty_effective [of m] empty_effective [of m'] e by (simp add: Catalog_Digest_def)
qed

definition demo_sha :: "recipe_payload \<Rightarrow> string" where
  "demo_sha p = (if p = Recipe_payload (demo_normal ''t'') then replicate 64 (CHR ''a'') else replicate 64 (CHR ''b''))"

text \<open>A changed argument changes the digest.\<close>

theorem catalog_digest_detects_drift_witness:
  "Catalog_Digest demo_sha (Cons (CHR ''h'')) (Some [(''t'', demo_normal ''t'')])
   \<noteq> Catalog_Digest demo_sha (Cons (CHR ''h'')) (Some [(''t'', (demo_normal ''t'')\<lparr>rc_Argv := [''vet'']\<rparr>)])"
proof -
  let ?m = "[(''t'', demo_normal ''t'')]" and ?n = "[(''t'', (demo_normal ''t'')\<lparr>rc_Argv := [''vet'']\<rparr>)]"
  have "NewCatalog [demo_recipe ''t''] = Inr ?m" by (rule demo_catalog)
  moreover have "NewCatalog [(demo_recipe ''t'')\<lparr>rc_Argv := [''vet'']\<rparr>] = Inr ?n" by code_simp
  ultimately have ok: "catalog_ok ?m" "catalog_ok ?n" unfolding catalog_ok_def by blast+
  have e: "effective ?m = [''t'' \<mapsto> Recipe_payload (demo_normal ''t'')]"
      "effective ?n = [''t'' \<mapsto> Recipe_payload ((demo_normal ''t'')\<lparr>rc_Argv := [''vet'']\<rparr>)]"
    by (auto simp: effective_def fun_eq_iff)
  have ne: "Recipe_payload (demo_normal ''t'') \<noteq> Recipe_payload ((demo_normal ''t'')\<lparr>rc_Argv := [''vet'']\<rparr>)" by code_simp
  then have differ: "demo_sha (Recipe_payload (demo_normal ''t'')) \<noteq> demo_sha (Recipe_payload ((demo_normal ''t'')\<lparr>rc_Argv := [''vet'']\<rparr>))"
    by (simp add: demo_sha_def numeral_eq_Suc)
  have "effective ?m \<noteq> effective ?n" using ne unfolding e by (metis fun_upd_same option.inject)
  then show ?thesis
    by (subst catalog_digest_detects_drift [OF ok]) (use e differ in \<open>simp_all add: demo_sha_def newline_def\<close>)
qed

text \<open>Ids with line breaks are not told apart: the catalog of two recipes and a catalog of one recipe whose id spells
  the first line have the same digest.\<close>

lemma line_break_hides_drift:
  "\<exists>k. Catalog_Digest demo_sha h (Some [(''a'', demo_normal ''a''), (''b'', demo_normal ''b'')]) = Catalog_Digest demo_sha h (Some [(k, demo_normal k)])"
proof -
  obtain P where p: "Recipe_payload (demo_normal k) = P" for k
    by (rule that [of "Recipe_payload (demo_normal ''t'')"]) (simp add: Recipe_payload_def demo_normal_def Timeout_def)
  show ?thesis
    by (rule exI [of _ "''a='' @ demo_sha P @ [newline] @ ''b''"])
      (simp add: Catalog_Digest_def catalog_lines_def Catalog_IDs_def map_filter_simps Recipe_Digest_def p)
qed

section \<open>The child environment\<close>

text \<open>An entry with its name.\<close>

definition env_entry :: "string \<Rightarrow> string \<Rightarrow> string" where
  "env_entry n v = n @ ''='' @ v"

definition env_inv :: "(string \<Rightarrow> string \<Rightarrow> bool) \<Rightarrow> string list \<times> string list \<Rightarrow> bool" where
  "env_inv P st \<longleftrightarrow> (\<exists>ps. snd st = map (\<lambda>(n, v). env_entry n v) ps \<and> rev (fst st) = map fst ps \<and> distinct (map fst ps)
     \<and> (\<forall>(n, v) \<in> set ps. P n v))"

lemma env_inv_entries:
  "env_inv P st \<Longrightarrow> \<exists>ps. snd st = map (\<lambda>(n, v). n @ ''='' @ v) ps \<and> distinct (map fst ps) \<and> (\<forall>(n, v) \<in> set ps. P n v)"
  by (auto simp: env_inv_def env_entry_def)

lemma add_env_inv: "env_inv P st \<Longrightarrow> P n v \<Longrightarrow> env_inv P (add_env n v st)"
proof -
  assume i: "env_inv P st" and p: "P n v"
  obtain seen env where st: "st = (seen, env)" by fastforce
  obtain ps where ps: "env = map (\<lambda>(n, v). env_entry n v) ps" "rev seen = map fst ps" "distinct (map fst ps)" "\<forall>(n, v) \<in> set ps. P n v"
    using i st by (auto simp: env_inv_def)
  show ?thesis
  proof (cases "n = [] \<or> n \<in> set seen")
    case True
    then show ?thesis using i st by (auto simp: add_env_def)
  next
    case False
    then have "n \<notin> set (map fst ps)" using ps(2) by (metis set_rev)
    then show ?thesis using False ps p st
      unfolding env_inv_def by (intro exI [of _ "ps @ [(n, v)]"]) (auto simp: add_env_def env_entry_def)
  qed
qed

text \<open>C31: the child process gets only what is declared. Its environment is a list of entries with distinct names: the
  path of the parent (or the default), the recipe's id, and values of the parent for names in the allowlist of a
  recipe that declares the capability to inherit; no name that looks like a credential is inherited.\<close>

theorem child_environment_is_allowlisted:
  "\<exists>ps. BuildEnvironment parent r = map (\<lambda>(n, v). n @ ''='' @ v) ps \<and> distinct (map fst ps)
     \<and> (\<forall>(n, v) \<in> set ps.
          (n = ''PATH'' \<and> v = (case map_get (parent_values parent) ''PATH'' of Some p \<Rightarrow> p | None \<Rightarrow> ''/usr/bin:/bin''))
        \<or> (n = ''RUNSTEAD_RECIPE_ID'' \<and> v = rc_ID r)
        \<or> (CapabilityInheritEnvironment \<in> set (rc_Capabilities r) \<and> n \<in> set (rc_AllowedEnvironment r)
           \<and> \<not> isCredentialName n \<and> map_get (parent_values parent) n = Some v))"
proof -
  let ?P = "\<lambda>n v. (n = ''PATH'' \<and> v = (case map_get (parent_values parent) ''PATH'' of Some p \<Rightarrow> p | None \<Rightarrow> ''/usr/bin:/bin''))
        \<or> (n = ''RUNSTEAD_RECIPE_ID'' \<and> v = rc_ID r)
        \<or> (CapabilityInheritEnvironment \<in> set (rc_Capabilities r) \<and> n \<in> set (rc_AllowedEnvironment r)
           \<and> \<not> isCredentialName n \<and> map_get (parent_values parent) n = Some v)"
  define base where "base = add_env ''RUNSTEAD_RECIPE_ID'' (rc_ID r)
            (add_env ''PATH'' (case map_get (parent_values parent) ''PATH'' of Some p \<Rightarrow> p | None \<Rightarrow> ''/usr/bin:/bin'') ([], []))"
  let ?f = "\<lambda>name st. if isCredentialName name then st
              else (case map_get (parent_values parent) name of Some v \<Rightarrow> add_env name v st | None \<Rightarrow> st)"
  have "env_inv ?P ([], [])" by (simp add: env_inv_def)
  then have base: "env_inv ?P base" unfolding base_def by (intro add_env_inv) simp_all
  have step: "env_inv ?P (fold ?f ns st)"
    if "CapabilityInheritEnvironment \<in> set (rc_Capabilities r)" "set ns \<subseteq> set (rc_AllowedEnvironment r)" "env_inv ?P st" for ns st
    using that(2,3)
  proof (induction ns arbitrary: st)
    case (Cons n ns)
    have "env_inv ?P (?f n st)"
      using Cons.prems that(1) by (auto split: option.splits intro!: add_env_inv)
    then show ?case using Cons.IH Cons.prems(1) by simp
  qed simp
  obtain st where st: "BuildEnvironment parent r = snd st" "env_inv ?P st"
  proof (cases "CapabilityInheritEnvironment \<in> set (rc_Capabilities r)")
    case True
    then have "BuildEnvironment parent r = snd (fold ?f (rc_AllowedEnvironment r) base)" by (simp add: BuildEnvironment_def base_def Let_def)
    then show ?thesis by (rule that [OF _ step [OF True subset_refl base]])
  next
    case False
    then have "BuildEnvironment parent r = snd base" by (simp add: BuildEnvironment_def base_def Let_def)
    then show ?thesis by (rule that [OF _ base])
  qed
  show ?thesis using env_inv_entries [OF st(2)] unfolding st(1) .
qed

theorem child_environment_is_allowlisted_witness:
  "BuildEnvironment [''PATH=/bin'', ''HOME=/h'', ''API_TOKEN=x'', ''SHELL=sh'', ''GOPATH=/g''] (demo_normal ''t'')
     = [''PATH=/bin'', ''RUNSTEAD_RECIPE_ID=t'', ''GOPATH=/g'', ''HOME=/h'']
   \<and> (\<exists>ps. BuildEnvironment [''PATH=/bin'', ''HOME=/h'', ''API_TOKEN=x'', ''SHELL=sh'', ''GOPATH=/g''] (demo_normal ''t'')
         = map (\<lambda>(n, v). n @ ''='' @ v) ps \<and> ''API_TOKEN'' \<notin> fst ` set ps \<and> ''SHELL'' \<notin> fst ` set ps)"
proof
  show "BuildEnvironment [''PATH=/bin'', ''HOME=/h'', ''API_TOKEN=x'', ''SHELL=sh'', ''GOPATH=/g''] (demo_normal ''t'')
     = [''PATH=/bin'', ''RUNSTEAD_RECIPE_ID=t'', ''GOPATH=/g'', ''HOME=/h'']" by code_simp
  have names: "\<exists>ps. BuildEnvironment parent r = map (\<lambda>(n, v). n @ ''='' @ v) ps
      \<and> fst ` set ps \<subseteq> {''PATH'', ''RUNSTEAD_RECIPE_ID''} \<union> set (rc_AllowedEnvironment r)" for parent r
    by (rule exE [OF child_environment_is_allowlisted [of parent r]], rule exI, rule conjI, erule conjunct1) auto
  have a: "{''PATH'', ''RUNSTEAD_RECIPE_ID''} \<union> set (rc_AllowedEnvironment (demo_normal ''t'')) = {''PATH'', ''RUNSTEAD_RECIPE_ID'', ''GOPATH'', ''HOME''}"
    by (auto simp: demo_normal_def)
  let ?P = "[''PATH=/bin'', ''HOME=/h'', ''API_TOKEN=x'', ''SHELL=sh'', ''GOPATH=/g'']"
  obtain ps where ps: "BuildEnvironment ?P (demo_normal ''t'') = map (\<lambda>(n, v). n @ ''='' @ v) ps"
    "fst ` set ps \<subseteq> {''PATH'', ''RUNSTEAD_RECIPE_ID'', ''GOPATH'', ''HOME''}"
    using names [of ?P "demo_normal ''t''"] unfolding a by (rule exE) (rule that, erule conjunct1, erule conjunct2)
  have n: "''API_TOKEN'' \<notin> {''PATH'', ''RUNSTEAD_RECIPE_ID'', ''GOPATH'', ''HOME''}" "''SHELL'' \<notin> {''PATH'', ''RUNSTEAD_RECIPE_ID'', ''GOPATH'', ''HOME''}"
    by code_simp+
  have "''API_TOKEN'' \<notin> fst ` set ps" "''SHELL'' \<notin> fst ` set ps"
    by (rule contra_subsetD [OF ps(2) n(1)], rule contra_subsetD [OF ps(2) n(2)])
  with ps(1) show "\<exists>ps. BuildEnvironment ?P (demo_normal ''t'') = map (\<lambda>(n, v). n @ ''='' @ v) ps
     \<and> ''API_TOKEN'' \<notin> fst ` set ps \<and> ''SHELL'' \<notin> fst ` set ps" by (intro exI [of _ ps] conjI)
qed

section \<open>Captured output\<close>

lemma buffer_Write_prefix:
  assumes "0 \<le> limit"
  shows "buffer_Write c \<lparr>bb_limit = limit, bb_total = int (length s), bb_data = take (nat limit) s\<rparr> =
     \<lparr>bb_limit = limit, bb_total = int (length (s @ c)), bb_data = take (nat limit) (s @ c)\<rparr>"
proof (cases "length s < nat limit")
  case True
  then have "nat (limit - int (length s)) = nat limit - length s" using assms by (simp add: nat_diff_distrib)
  then show ?thesis using True assms by (simp add: buffer_Write_def Let_def)
next
  case False
  then show ?thesis using assms by (simp add: buffer_Write_def Let_def)
qed

lemma buffer_writes:
  assumes "0 \<le> limit"
  shows "fold buffer_Write cs (new_buffer limit) =
     \<lparr>bb_limit = limit, bb_total = int (length (concat cs)), bb_data = take (nat limit) (concat cs)\<rparr>"
proof (induction cs rule: rev_induct)
  case Nil
  then show ?case by (simp add: new_buffer_def)
next
  case (snoc c cs)
  then show ?case using buffer_Write_prefix [OF assms, of c "concat cs"] by simp
qed

text \<open>The captured output is a faithful bounded prefix. However the process cuts what it writes into pieces, the
  evidence of a started recipe holds the first bytes of each stream up to the limit, counts all of them, and says
  that it is truncated exactly when some are missing.\<close>

theorem captured_output_is_a_prefix:
  assumes "well_formed_recipe r" "px_start p = None"
  shows "rn_Stdout (Run_process r p) = take (nat (rc_MaxStdoutBytes r)) (concat (px_stdout p))
     \<and> rn_StdoutBytes (Run_process r p) = int (length (concat (px_stdout p)))
     \<and> (rn_StdoutTruncated (Run_process r p) \<longleftrightarrow> rn_Stdout (Run_process r p) \<noteq> concat (px_stdout p))
     \<and> rn_Stderr (Run_process r p) = take (nat (rc_MaxStderrBytes r)) (concat (px_stderr p))
     \<and> rn_StderrBytes (Run_process r p) = int (length (concat (px_stderr p)))
     \<and> (rn_StderrTruncated (Run_process r p) \<longleftrightarrow> rn_Stderr (Run_process r p) \<noteq> concat (px_stderr p))"
proof -
  have l: "0 \<le> rc_MaxStdoutBytes r" "0 \<le> rc_MaxStderrBytes r" using assms(1) by (auto simp: well_formed_recipe_def)
  have t: "int (length (take n s)) < int (length s) \<longleftrightarrow> take n s \<noteq> s" for n and s :: string
    by (cases "n < length s") (auto dest: arg_cong [of _ _ length])
  show ?thesis using assms(2) by (simp add: Run_process_def buffer_writes [OF l(1)] buffer_writes [OF l(2)] buffer_truncated_def t del: of_nat_less_iff length_take)
qed

theorem captured_output_is_a_prefix_witness:
  "rn_Stderr (Run_process (demo_normal ''t'') \<lparr>px_start = None, px_stdout = [], px_stderr = [''123456'', ''789012''], px_state = Some (1, []),
      px_wait = Some ''exit status 1'', px_timedOut = False, px_canceled = False, px_duration = 5\<rparr>) = ''1234567890''"
proof -
  have w: "well_formed_recipe (demo_normal ''t'')" by (rule Normalize_well_formed [OF demo_normalized(1)])
  show ?thesis
    by (subst captured_output_is_a_prefix [OF w]) (simp_all add: demo_normal_def)
qed

end
