(* ===== verification/Tool_Registry.thy ===== *)
theory Tool_Registry
  imports Recipe Protocol_Theorems Workspace_Path
begin

text \<open>
  The tool registry (\<open>tools/registry.go\<close>, \<open>describe.go\<close>, \<open>observation.go\<close> and the dispatch helpers of
  \<open>execute.go\<close>): limits, the capability envelope and its restricted views, the validation of arguments, the
  description given to the model, and the observations tools return. A nil registry is \<open>None\<close>; the counter of
  evidence ids, which all views of a task share, is an argument.
\<close>

section \<open>Names and limits\<close>

definition ToolReadFile :: string where "ToolReadFile = ''read_file''"
definition ToolListFiles :: string where "ToolListFiles = ''list_files''"
definition ToolSearchText :: string where "ToolSearchText = ''search_text''"
definition ToolGitStatus :: string where "ToolGitStatus = ''git_status''"
definition ToolGitDiff :: string where "ToolGitDiff = ''git_diff''"

record ToolLimits =
  lt_MaxReadBytes :: int
  lt_MaxListEntries :: int
  lt_MaxSearchMatches :: int
  lt_MaxSearchBytes :: int
  lt_MaxGitStdoutBytes :: int
  lt_MaxGitStderrBytes :: int
  lt_MaxWriteBytes :: int
  lt_MaxPatchBytes :: int
  lt_MaxPatchTargetBytes :: int
  lt_MaxDiffBytes :: int
  lt_SearchTimeout :: duration
  lt_GitTimeout :: duration

definition DefaultToolLimits :: ToolLimits where
  "DefaultToolLimits = \<lparr>lt_MaxReadBytes = 65536, lt_MaxListEntries = 256, lt_MaxSearchMatches = 256, lt_MaxSearchBytes = 131072,
     lt_MaxGitStdoutBytes = 65536, lt_MaxGitStderrBytes = 16384, lt_MaxWriteBytes = 262144, lt_MaxPatchBytes = 131072,
     lt_MaxPatchTargetBytes = 4194304, lt_MaxDiffBytes = 8192, lt_SearchTimeout = 2 * Second, lt_GitTimeout = 2 * Second\<rparr>"

definition normalizeLimits :: "ToolLimits \<Rightarrow> ToolLimits option" where
  "normalizeLimits l =
     (let d = DefaultToolLimits; pick = (\<lambda>f. if f l = 0 then f d else f l);
          n = \<lparr>lt_MaxReadBytes = pick lt_MaxReadBytes, lt_MaxListEntries = pick lt_MaxListEntries,
            lt_MaxSearchMatches = pick lt_MaxSearchMatches, lt_MaxSearchBytes = pick lt_MaxSearchBytes,
            lt_MaxGitStdoutBytes = pick lt_MaxGitStdoutBytes, lt_MaxGitStderrBytes = pick lt_MaxGitStderrBytes,
            lt_MaxWriteBytes = pick lt_MaxWriteBytes, lt_MaxPatchBytes = pick lt_MaxPatchBytes,
            lt_MaxPatchTargetBytes = pick lt_MaxPatchTargetBytes, lt_MaxDiffBytes = pick lt_MaxDiffBytes,
            lt_SearchTimeout = pick lt_SearchTimeout, lt_GitTimeout = pick lt_GitTimeout\<rparr>
      in if lt_MaxReadBytes n < 0 \<or> lt_MaxListEntries n < 0 \<or> lt_MaxSearchMatches n < 0 \<or> lt_MaxSearchBytes n < 0
            \<or> lt_MaxGitStdoutBytes n < 0 \<or> lt_MaxGitStderrBytes n < 0 \<or> lt_SearchTimeout n < 0 \<or> lt_GitTimeout n < 0
            \<or> lt_MaxWriteBytes n < 0 \<or> lt_MaxPatchBytes n < 0 \<or> lt_MaxPatchTargetBytes n < 0 \<or> lt_MaxDiffBytes n < 0
         then None else Some n)"

section \<open>The registry\<close>

text \<open>The path of the search program is empty when there is none; \<open>None\<close> as envelope is the full surface.\<close>

record Registry =
  rg_workspace :: workspace
  rg_limits :: ToolLimits
  rg_rgPath :: string
  rg_recipes :: "Catalog option"
  rg_allowed :: "string list option"

record RegistryOptions =
  op_Workspace :: string
  op_Limits :: ToolLimits
  op_LookPath :: "(string \<Rightarrow> string) option"
  op_RGPath :: string
  op_RunRG :: bool
  op_Recipes :: "Catalog option"
  op_NextEvidenceSequence :: int

text \<open>The registry with the value its counter starts from.\<close>

definition NewRegistry :: "filesystem \<Rightarrow> (string \<Rightarrow> string) \<Rightarrow> RegistryOptions \<Rightarrow> (Registry \<times> nat) option" where
  "NewRegistry fs exec_LookPath opts =
     (case newWorkspace fs (op_Workspace opts) of
        None \<Rightarrow> None
      | Some w \<Rightarrow>
          (case normalizeLimits (op_Limits opts) of
             None \<Rightarrow> None
           | Some l \<Rightarrow>
               (let configured = TrimSpace (op_RGPath opts);
                    lookPath = (if op_LookPath opts = None \<and> \<not> op_RunRG opts then Some exec_LookPath else op_LookPath opts);
                    rgPath = (if configured \<noteq> [] then configured
                              else case lookPath of Some look \<Rightarrow> look ''rg'' | None \<Rightarrow> if op_RunRG opts then ''rg'' else [])
                in Some (\<lparr>rg_workspace = w, rg_limits = l, rg_rgPath = rgPath, rg_recipes = op_Recipes opts, rg_allowed = None\<rparr>,
                         nat (op_NextEvidenceSequence opts)))))"

definition WithRecipes :: "Catalog option \<Rightarrow> Registry option \<Rightarrow> Registry option" where
  "WithRecipes c r = map_option (\<lambda>r. r\<lparr>rg_recipes := c\<rparr>) r"

definition RecipeCatalog :: "Registry option \<Rightarrow> Catalog option" where
  "RecipeCatalog r = (case r of None \<Rightarrow> None | Some g \<Rightarrow> rg_recipes g)"

definition Registry_Recipe :: "Registry option \<Rightarrow> string \<Rightarrow> Recipe option" where
  "Registry_Recipe r rid = (case r of None \<Rightarrow> None | Some g \<Rightarrow> Catalog_Get (rg_recipes g) rid)"

definition Allows :: "Registry option \<Rightarrow> string \<Rightarrow> bool" where
  "Allows r tool = (case r of None \<Rightarrow> False | Some g \<Rightarrow> (case rg_allowed g of None \<Rightarrow> True | Some ts \<Rightarrow> tool \<in> set ts))"

definition Restricted :: "Registry option \<Rightarrow> string list \<Rightarrow> string \<Rightarrow> FailureCode + Registry" where
  "Restricted r allowed scope =
     (case r of
        None \<Rightarrow> Inl FailureInvalidArguments
      | Some g \<Rightarrow>
          (case (if is_blank scope then Inr (rg_workspace g) else subRoot (rg_workspace g) scope) of
             Inl e \<Rightarrow> Inl e
           | Inr w \<Rightarrow> Inr (g\<lparr>rg_workspace := w, rg_allowed := Some (remdups (filter (\<lambda>t. t \<noteq> []) (map TrimSpace allowed)))\<rparr>)))"

section \<open>Arguments\<close>

definition string_value :: "json \<Rightarrow> string option" where
  "string_value v = (case v of JStr s \<Rightarrow> Some s | JNull \<Rightarrow> Some [] | _ \<Rightarrow> None)"

definition stringArgumentAllowEmpty :: "Arguments \<Rightarrow> string \<Rightarrow> FailureCode + string" where
  "stringArgumentAllowEmpty args name =
     (case map_get args name of
        None \<Rightarrow> Inl FailureInvalidArguments
      | Some raw \<Rightarrow> (case string_value raw of None \<Rightarrow> Inl FailureInvalidArguments | Some s \<Rightarrow> Inr s))"

definition stringArgument :: "Arguments \<Rightarrow> string \<Rightarrow> FailureCode + string" where
  "stringArgument args name =
     (case stringArgumentAllowEmpty args name of
        Inl e \<Rightarrow> Inl e
      | Inr s \<Rightarrow> if s = [] then Inl FailureInvalidArguments else Inr s)"

definition AbsentBeforeHash :: string where "AbsentBeforeHash = ''absent''"

definition validBeforeHash :: "string \<Rightarrow> bool" where
  "validBeforeHash v \<longleftrightarrow> v = AbsentBeforeHash
     \<or> (length v = 64 \<and> list_all (\<lambda>c. is_digit c \<or> (char_code CHR ''a'' \<le> char_code c \<and> char_code c \<le> char_code CHR ''f'')) v)"

definition check_path :: "Arguments \<Rightarrow> FailureCode option" where
  "check_path args =
     (case stringArgument args ''path'' of
        Inl e \<Rightarrow> Some e
      | Inr p \<Rightarrow> (case NormalizeWorkspacePath p of Inl e \<Rightarrow> Some e | Inr _ \<Rightarrow> None))"

text \<open>The body of a write: the text with its bound.\<close>

definition check_body :: "Registry \<Rightarrow> string \<Rightarrow> Arguments \<Rightarrow> FailureCode option" where
  "check_body r tool args =
     (if tool = ToolWriteFile
      then (case stringArgumentAllowEmpty args ''content'' of
          Inr content \<Rightarrow> if lt_MaxWriteBytes (rg_limits r) < int (length content) then Some FailureInvalidArguments else None
        | Inl _ \<Rightarrow> Some FailureInvalidArguments)
      else (case stringArgumentAllowEmpty args ''patch'' of
          Inr patch \<Rightarrow> if is_blank patch \<or> lt_MaxPatchBytes (rg_limits r) < int (length patch) then Some FailureInvalidArguments else None
        | Inl _ \<Rightarrow> Some FailureInvalidArguments))"

text \<open>Whether the tool is registered, and the failure of its arguments.\<close>

definition ValidateArguments :: "Registry option \<Rightarrow> string \<Rightarrow> Arguments \<Rightarrow> bool \<times> FailureCode option" where
  "ValidateArguments r0 tool args =
     (case r0 of
        None \<Rightarrow> (False, None)
      | Some r \<Rightarrow>
          if \<not> Allows (Some r) tool then (False, None)
          else if tool = ToolReadFile \<or> tool = ToolListFiles
          then (True, if length args \<noteq> 1 then Some FailureInvalidArguments else check_path args)
          else if tool = ToolSearchText
          then (True, if length args \<noteq> 2 then Some FailureInvalidArguments
             else (case stringArgument args ''query'' of
                 Inl _ \<Rightarrow> Some FailureInvalidArguments
               | Inr q \<Rightarrow> if CHR 0x00 \<in> set q then Some FailureInvalidArguments else check_path args))
          else if tool = ToolGitStatus \<or> tool = ToolGitDiff
          then (True, if length args \<noteq> 0 then Some FailureInvalidArguments else None)
          else if tool = ToolWriteFile \<or> tool = ToolApplyPatch
          then (True, if length args \<noteq> 3 then Some FailureInvalidArguments
             else (case check_path args of
                 Some e \<Rightarrow> Some e
               | None \<Rightarrow>
                   (case stringArgument args ''expected_before_hash'' of
                      Inl _ \<Rightarrow> Some FailureInvalidArguments
                    | Inr h \<Rightarrow> if \<not> validBeforeHash h then Some FailureInvalidArguments else check_body r tool args)))
          else if tool = ToolRunRecipe
          then (True, if length args \<noteq> 1 then Some FailureInvalidArguments
             else (case stringArgument args ''recipe'' of Inl e \<Rightarrow> Some e | Inr _ \<Rightarrow> None))
          else (False, None))"

text \<open>The registry as the tool catalog of the protocol parser.\<close>

definition catalog_of :: "Registry option \<Rightarrow> string \<Rightarrow> Arguments \<Rightarrow> bool \<times> bool" where
  "catalog_of r tool args = (case ValidateArguments r tool args of (registered, e) \<Rightarrow> (registered, e \<noteq> None))"

section \<open>Description\<close>

record ArgumentSpec =
  as_Name :: string
  as_Type :: string
  as_Required :: bool

record ToolSpec =
  sp_Name :: string
  sp_Arguments :: "ArgumentSpec list"
  sp_ReadOnly :: bool

definition string_spec :: "string \<Rightarrow> ArgumentSpec" where
  "string_spec n = \<lparr>as_Name = n, as_Type = ''string'', as_Required = True\<rparr>"

definition tool_spec :: "string \<Rightarrow> string list \<Rightarrow> bool \<Rightarrow> ToolSpec" where
  "tool_spec n args ro = \<lparr>sp_Name = n, sp_Arguments = map string_spec args, sp_ReadOnly = ro\<rparr>"

definition all_specs :: "ToolSpec list" where
  "all_specs =
     [tool_spec ToolReadFile [''path''] True, tool_spec ToolListFiles [''path''] True,
      tool_spec ToolSearchText [''query'', ''path''] True, tool_spec ToolGitStatus [] True, tool_spec ToolGitDiff [] True,
      tool_spec ToolWriteFile [''path'', ''content'', ''expected_before_hash''] False,
      tool_spec ToolApplyPatch [''path'', ''patch'', ''expected_before_hash''] False, tool_spec ToolRunRecipe [''recipe''] False]"

definition Describe :: "Registry option \<Rightarrow> ToolSpec list" where
  "Describe r =
     (case r of
        None \<Rightarrow> all_specs
      | Some g \<Rightarrow> (case rg_allowed g of None \<Rightarrow> all_specs | Some ts \<Rightarrow> filter (\<lambda>s. sp_Name s \<in> set ts) all_specs))"

section \<open>Observations\<close>

record Metadata =
  md_Source :: string
  md_Backend :: string
  md_Untrusted :: bool
  md_Path :: string
  md_SizeBytes :: int
  md_BytesOriginal :: int
  md_BytesReturned :: int
  md_EntriesOriginal :: int
  md_EntriesReturned :: int
  md_MatchesOriginal :: int
  md_MatchesReturned :: int
  md_StdoutBytesOriginal :: int
  md_StdoutBytesReturned :: int
  md_StderrBytesOriginal :: int
  md_StderrBytesReturned :: int
  md_ExitCode :: int
  md_Signal :: string

definition plain_metadata :: "string \<Rightarrow> Metadata" where
  "plain_metadata source = \<lparr>md_Source = source, md_Backend = [], md_Untrusted = False, md_Path = [], md_SizeBytes = 0, md_BytesOriginal = 0,
     md_BytesReturned = 0, md_EntriesOriginal = 0, md_EntriesReturned = 0, md_MatchesOriginal = 0, md_MatchesReturned = 0,
     md_StdoutBytesOriginal = 0, md_StdoutBytesReturned = 0, md_StderrBytesOriginal = 0, md_StderrBytesReturned = 0,
     md_ExitCode = -1, md_Signal = []\<rparr>"

datatype EntryType = EntryFile | EntryDirectory | EntrySymlink | EntryOther

record FileData =
  fd_Path :: string
  fd_Content :: string
  fd_SHA256 :: string

record FileEntry =
  fe_Path :: string
  fe_Type :: EntryType
  fe_Size :: int

record SearchMatch =
  sm_Path :: string
  sm_Line :: int
  sm_Text :: string

datatype ResultData =
    NoResult
  | FileResult FileData
  | ListResult string "FileEntry list"
  | SearchResult "SearchMatch list" int int
  | GitResult string string
  | WriteResult WriteEvidence
  | RecipeResult ProcessEvidence

record ToolObservation =
  to_ID :: string
  to_Tool :: string
  to_Arguments :: "string gomap"
  to_Success :: bool
  to_Data :: ResultData
  to_Failure :: "FailureCode option"
  to_Truncated :: bool
  to_Metadata :: Metadata

definition evidence_id :: "nat \<Rightarrow> string" where
  "evidence_id n = ''obs-'' @ replicate (6 - length (dec n)) (CHR ''0'') @ dec n"

definition newObservation :: "nat \<Rightarrow> string \<Rightarrow> string gomap \<Rightarrow> ToolObservation \<times> nat" where
  "newObservation nextID tool args =
     (\<lparr>to_ID = evidence_id (Suc nextID), to_Tool = tool, to_Arguments = args, to_Success = False, to_Data = NoResult, to_Failure = None,
       to_Truncated = False, to_Metadata = plain_metadata tool\<rparr>, Suc nextID)"

definition failed :: "FailureCode \<Rightarrow> ToolObservation \<Rightarrow> ToolObservation" where
  "failed e x = x\<lparr>to_Failure := Some e\<rparr>"

definition succeeded :: "ResultData \<Rightarrow> bool \<Rightarrow> Metadata \<Rightarrow> ToolObservation \<Rightarrow> ToolObservation" where
  "succeeded d truncated m x = x\<lparr>to_Success := True, to_Data := d, to_Truncated := truncated, to_Metadata := m\<rparr>"

text \<open>The state of a context: alive, past its deadline or canceled.\<close>

datatype context_state = ContextAlive | ContextDeadline | ContextCanceled

definition contextFailure :: "context_state \<Rightarrow> FailureCode option" where
  "contextFailure c = (case c of ContextAlive \<Rightarrow> None | ContextDeadline \<Rightarrow> Some FailureTimeout | ContextCanceled \<Rightarrow> Some FailureCanceled)"

definition commandResultContextFailure :: "context_state \<Rightarrow> context_state \<Rightarrow> FailureCode option" where
  "commandResultContextFailure parent command = (case contextFailure parent of Some e \<Rightarrow> Some e | None \<Rightarrow> contextFailure command)"

definition right_option :: "'e + 'a \<Rightarrow> 'a option" where
  "right_option x = (case x of Inr a \<Rightarrow> Some a | Inl _ \<Rightarrow> None)"

definition optional_argument :: "Arguments \<Rightarrow> string \<Rightarrow> string gomap" where
  "optional_argument args name = (case stringArgumentAllowEmpty args name of Inr v \<Rightarrow> [(name, v)] | Inl _ \<Rightarrow> [])"

definition normalizedArguments :: "Action \<Rightarrow> string gomap" where
  "normalizedArguments a =
     (let tool = act_Tool a; args = act_Arguments a;
          norm = (case stringArgument args ''path'' of Inr p \<Rightarrow> right_option (NormalizeWorkspacePath p) | Inl _ \<Rightarrow> None)
      in if tool = ToolReadFile \<or> tool = ToolListFiles then (case norm of Some p \<Rightarrow> [(''path'', p)] | None \<Rightarrow> [])
         else if tool = ToolSearchText
         then (case (right_option (stringArgument args ''query''), norm) of (Some q, Some p) \<Rightarrow> [(''query'', q), (''path'', p)] | _ \<Rightarrow> [])
         else if tool = ToolWriteFile \<or> tool = ToolApplyPatch
         then (case (right_option (stringArgument args ''expected_before_hash''), norm) of
             (Some h, Some p) \<Rightarrow> [(''path'', p), (''expected_before_hash'', h)]
                @ optional_argument args (if tool = ToolWriteFile then ''content'' else ''patch'')
           | _ \<Rightarrow> [])
         else if tool = ToolRunRecipe
         then (case stringArgument args ''recipe'' of Inr rid \<Rightarrow> [(''recipe'', rid)] | Inl _ \<Rightarrow> [])
         else [])"

section \<open>What validation accepts\<close>

lemmas tool_names = ToolReadFile_def ToolListFiles_def ToolSearchText_def ToolGitStatus_def ToolGitDiff_def ToolWriteFile_def
  ToolApplyPatch_def ToolRunRecipe_def

lemma stringArgument_keys:
  "stringArgument args n = Inr s \<Longrightarrow> n \<in> fst ` set args \<and> s \<noteq> []"
  "stringArgumentAllowEmpty args n = Inr s \<Longrightarrow> n \<in> fst ` set args"
  by (force simp: stringArgument_def stringArgumentAllowEmpty_def split: option.splits sum.splits if_splits dest: map_of_SomeD)+

lemma check_path_key: "check_path args = None \<Longrightarrow> ''path'' \<in> fst ` set args"
  by (auto simp: check_path_def dest!: stringArgument_keys split: sum.splits)

text \<open>A map with as many entries as there are required keys has exactly these keys.\<close>

lemma keys_exactly:
  assumes "map_wf args" "distinct ks" "length args = length ks" "set ks \<subseteq> fst ` set args"
  shows "fst ` set args = set ks"
proof -
  have "card (fst ` set args) = card (set ks)" using assms(1,2,3) by (metis distinct_card length_map list.set_map)
  then show ?thesis using assms(4) card_subset_eq [of "fst ` set args" "set ks"] by simp
qed

definition spec_names :: "ToolSpec \<Rightarrow> string list" where
  "spec_names s = map as_Name (sp_Arguments s)"

lemma registered_tools:
  "fst (ValidateArguments (Some r) tool args) \<longleftrightarrow> tool \<in> sp_Name ` set (Describe (Some r))"
proof -
  have all: "sp_Name ` set all_specs = {ToolReadFile, ToolListFiles, ToolSearchText, ToolGitStatus, ToolGitDiff, ToolWriteFile, ToolApplyPatch, ToolRunRecipe}"
    by (auto simp: all_specs_def tool_spec_def)
  have "sp_Name ` set (Describe (Some r)) = {n \<in> sp_Name ` set all_specs. Allows (Some r) n}"
    by (auto simp: Describe_def Allows_def split: option.splits)
  then show ?thesis unfolding all by (auto simp: ValidateArguments_def)
qed

text \<open>The required arguments of a tool.\<close>

definition required :: "string \<Rightarrow> string list" where
  "required tool = (case find (\<lambda>s. sp_Name s = tool) all_specs of Some s \<Rightarrow> spec_names s | None \<Rightarrow> [])"

lemma required_simps:
  "required ToolReadFile = [''path'']" "required ToolListFiles = [''path'']" "required ToolSearchText = [''query'', ''path'']"
  "required ToolGitStatus = []" "required ToolGitDiff = []" "required ToolWriteFile = [''path'', ''content'', ''expected_before_hash'']"
  "required ToolApplyPatch = [''path'', ''patch'', ''expected_before_hash'']" "required ToolRunRecipe = [''recipe'']"
  by code_simp+

lemma described_required:
  assumes "s \<in> set (Describe r)"
  shows "spec_names s = required (sp_Name s)"
proof -
  have "list_all (\<lambda>s. spec_names s = required (sp_Name s)) all_specs" by code_simp
  moreover have "set (Describe r) \<subseteq> set all_specs" by (auto simp: Describe_def split: option.splits)
  ultimately show ?thesis using assms by (auto simp: list_all_iff)
qed

lemma check_body_key:
  "check_body r tool args = None \<Longrightarrow> (if tool = ToolWriteFile then ''content'' else ''patch'') \<in> fst ` set args"
  by (auto simp: check_body_def split: sum.splits if_splits dest: stringArgument_keys)

lemma tools_differ:
  "distinct [ToolReadFile, ToolListFiles, ToolSearchText, ToolGitStatus, ToolGitDiff, ToolWriteFile, ToolApplyPatch, ToolRunRecipe]"
  "distinct [ToolRunRecipe, ToolApplyPatch, ToolWriteFile, ToolGitDiff, ToolGitStatus, ToolSearchText, ToolListFiles, ToolReadFile]"
  by code_simp+

lemmas tool_neqs [simp] = tools_differ [simplified]

lemma accepted_write:
  assumes "ValidateArguments (Some r) tool args = (True, None)" "tool = ToolWriteFile \<or> tool = ToolApplyPatch"
  shows "length args = 3" "check_path args = None" "\<exists>h. stringArgument args ''expected_before_hash'' = Inr h \<and> validBeforeHash h"
    "check_body r tool args = None"
  using assms by (auto simp: ValidateArguments_def split: if_splits sum.splits option.splits)

lemma accepted_read:
  "ValidateArguments (Some r) tool args = (True, None) \<Longrightarrow> tool = ToolReadFile \<or> tool = ToolListFiles \<Longrightarrow> length args = 1 \<and> check_path args = None"
  "ValidateArguments (Some r) tool args = (True, None) \<Longrightarrow> tool = ToolSearchText \<Longrightarrow>
     length args = 2 \<and> check_path args = None \<and> (\<exists>q. stringArgument args ''query'' = Inr q)"
  "ValidateArguments (Some r) tool args = (True, None) \<Longrightarrow> tool = ToolGitStatus \<or> tool = ToolGitDiff \<Longrightarrow> args = []"
  "ValidateArguments (Some r) tool args = (True, None) \<Longrightarrow> tool = ToolRunRecipe \<Longrightarrow> length args = 1 \<and> (\<exists>q. stringArgument args ''recipe'' = Inr q)"
  by (auto simp: ValidateArguments_def split: if_splits sum.splits option.splits)

lemma accepted_tool:
  "fst (ValidateArguments (Some r) tool args) \<Longrightarrow>
     tool = ToolReadFile \<or> tool = ToolListFiles \<or> tool = ToolSearchText \<or> tool = ToolGitStatus \<or> tool = ToolGitDiff
     \<or> tool = ToolWriteFile \<or> tool = ToolApplyPatch \<or> tool = ToolRunRecipe"
  by (auto simp: ValidateArguments_def split: if_splits)

lemma accepted_keys:
  assumes "map_wf args" and ok: "ValidateArguments (Some r) tool args = (True, None)"
  shows "fst ` set args = set (required tool)"
proof -
  have "length args = length (required tool) \<and> set (required tool) \<subseteq> fst ` set args \<and> distinct (required tool)"
    using accepted_tool [of r tool args, unfolded ok, simplified]
  proof (elim disjE)
    assume t: "tool = ToolWriteFile"
    then have w: "tool = ToolWriteFile \<or> tool = ToolApplyPatch" by simp
    have "''expected_before_hash'' \<in> fst ` set args" using accepted_write(3) [OF ok w] stringArgument_keys(1) by blast
    then show ?thesis
      using accepted_write(1) [OF ok w] check_path_key [OF accepted_write(2) [OF ok w]] check_body_key [OF accepted_write(4) [OF ok w]]
      by (simp add: t required_simps)
  next
    assume t: "tool = ToolApplyPatch"
    then have w: "tool = ToolWriteFile \<or> tool = ToolApplyPatch" by simp
    have "''expected_before_hash'' \<in> fst ` set args" using accepted_write(3) [OF ok w] stringArgument_keys(1) by blast
    then show ?thesis
      using accepted_write(1) [OF ok w] check_path_key [OF accepted_write(2) [OF ok w]] check_body_key [OF accepted_write(4) [OF ok w]]
      by (simp add: t required_simps)
  next
    assume t: "tool = ToolSearchText"
    have "''query'' \<in> fst ` set args" using accepted_read(2) [OF ok t] stringArgument_keys(1) by blast
    then show ?thesis using accepted_read(2) [OF ok t] check_path_key [of args] by (simp add: t required_simps)
  next
    assume t: "tool = ToolRunRecipe"
    have "''recipe'' \<in> fst ` set args" using accepted_read(4) [OF ok t] stringArgument_keys(1) by blast
    then show ?thesis using accepted_read(4) [OF ok t] by (simp add: t required_simps)
  next
    assume t: "tool = ToolReadFile"
    then show ?thesis using accepted_read(1) [OF ok] check_path_key [of args] by (simp add: required_simps)
  next
    assume t: "tool = ToolListFiles"
    then show ?thesis using accepted_read(1) [OF ok] check_path_key [of args] by (simp add: required_simps)
  next
    assume t: "tool = ToolGitStatus"
    then show ?thesis using accepted_read(3) [OF ok] by (simp add: required_simps)
  next
    assume t: "tool = ToolGitDiff"
    then show ?thesis using accepted_read(3) [OF ok] by (simp add: required_simps)
  qed
  then show ?thesis using keys_exactly [OF assms(1)] by blast
qed

text \<open>What the model is told is what is accepted. A tool is registered exactly when it is described to the model,
  and arguments that validation accepts have exactly the names its description lists, in a full registry as in a
  restricted view.\<close>

theorem description_matches_validation:
  assumes "map_wf args"
  shows "(fst (ValidateArguments (Some r) tool args) \<longleftrightarrow> tool \<in> sp_Name ` set (Describe (Some r)))
     \<and> (ValidateArguments (Some r) tool args = (True, None) \<longrightarrow>
          (\<exists>s \<in> set (Describe (Some r)). sp_Name s = tool \<and> set (spec_names s) = fst ` set args))"
  using registered_tools accepted_keys [OF assms] described_required by (metis (no_types, lifting) fst_conv image_iff)

definition demo_registry :: Registry where
  "demo_registry = \<lparr>rg_workspace = \<lparr>ws_root = ''/w''\<rparr>, rg_limits = DefaultToolLimits, rg_rgPath = [], rg_recipes = None,
     rg_allowed = Some [''read_file'', ''write_file'']\<rparr>"

theorem description_matches_validation_witness:
  "map sp_Name (Describe (Some demo_registry)) = [''read_file'', ''write_file'']
   \<and> ValidateArguments (Some demo_registry) ''git_diff'' [] = (False, None)
   \<and> (\<exists>s \<in> set (Describe (Some demo_registry)). sp_Name s = ''read_file'' \<and> set (spec_names s) = {''path''})"
proof -
  have v: "ValidateArguments (Some demo_registry) ''read_file'' [(''path'', JStr ''a'')] = (True, None)" by code_simp
  have "\<exists>s \<in> set (Describe (Some demo_registry)). sp_Name s = ''read_file'' \<and> set (spec_names s) = fst ` set [(''path'', JStr ''a'')]"
    using description_matches_validation [of "[(''path'', JStr ''a'')]" demo_registry "''read_file''"] v by simp
  moreover have "map sp_Name (Describe (Some demo_registry)) = [''read_file'', ''write_file'']"
    "ValidateArguments (Some demo_registry) ''git_diff'' [] = (False, None)" by code_simp+
  ultimately show ?thesis by simp
qed

section \<open>Restricted views\<close>

lemma clean_elems_rooted:
  "list_all proper stack \<Longrightarrow> \<forall>c \<in> set cs. CHR ''/'' \<notin> set c \<Longrightarrow> list_all proper (clean_elems True stack cs)"
proof (induction cs arbitrary: stack)
  case (Cons c cs)
  then show ?case by (cases stack) (auto simp: proper_def)
qed (simp add: list_all_iff)

lemma Clean_again:
  assumes "IsAbs p"
  shows "Clean (Clean p) = Clean p"
proof -
  define cs where "cs = clean_elems True [] (Split (CHR ''/'') p)"
  have proper: "list_all proper cs" unfolding cs_def by (rule clean_elems_rooted) (auto dest: Split_elements)
  have c: "Clean p = ''/'' @ Join ''/'' cs" using assms by (simp add: Clean_def cs_def Let_def)
  have "clean_elems True [] (Split (CHR ''/'') (''/'' @ Join ''/'' cs)) = cs"
  proof (cases "cs = []")
    case True
    then show ?thesis by simp
  next
    case False
    have "Split (CHR ''/'') (''/'' @ Join ''/'' cs) = [] # cs" using Split_proper [of cs] False proper by (simp add: list_all_iff)
    moreover have "\<forall>c \<in> set ([] # cs). c \<noteq> ''..''" using proper by (auto simp: list_all_iff proper_def)
    moreover have "filter (\<lambda>c. c \<noteq> [] \<and> c \<noteq> ''.'') cs = cs" using proper by (intro filter_True) (auto simp: list_all_iff proper_def)
    ultimately show ?thesis by (simp add: clean_elems_plain del: clean_elems.simps)
  qed
  moreover have "IsAbs (''/'' @ Join ''/'' cs)" by (simp add: IsAbs_iff)
  ultimately show ?thesis unfolding c by (simp add: Clean_def Let_def)
qed

text \<open>A view allows only listed tools, and its root has the parent's root as a prefix.\<close>

lemma restricted_view:
  assumes "Restricted (Some r) allowed scope = Inr v" "IsAbs (Clean (ws_root (rg_workspace r)))" "Clean (ws_root (rg_workspace r)) = ws_root (rg_workspace r)"
  shows "\<forall>tool. Allows (Some v) tool \<longrightarrow> tool \<in> TrimSpace ` set allowed"
    and "prefix (elems (ws_root (rg_workspace r))) (elems (Clean (ws_root (rg_workspace v))))"
    and "rg_limits v = rg_limits r \<and> rg_recipes v = rg_recipes r"
proof -
  obtain w where w: "v = r\<lparr>rg_workspace := w, rg_allowed := Some (remdups (filter (\<lambda>t. t \<noteq> []) (map TrimSpace allowed)))\<rparr>"
    "(if is_blank scope then Inr (rg_workspace r) else subRoot (rg_workspace r) scope) = Inr w"
    using assms(1) by (auto simp: Restricted_def split: sum.splits)
  show "\<forall>tool. Allows (Some v) tool \<longrightarrow> tool \<in> TrimSpace ` set allowed" using w(1) by (auto simp: Allows_def)
  show "rg_limits v = rg_limits r \<and> rg_recipes v = rg_recipes r" using w(1) by simp
  show "prefix (elems (ws_root (rg_workspace r))) (elems (Clean (ws_root (rg_workspace v))))"
  proof (cases "is_blank scope")
    case True
    then show ?thesis using w assms(3) by simp
  next
    case False
    then obtain n where n: "within (ws_root (rg_workspace r)) (filepath_Join (ws_root (rg_workspace r)) n)"
        "ws_root w = Clean (filepath_Join (ws_root (rg_workspace r)) n)"
      using w(2) by (auto simp: subRoot_def Let_def split: if_splits sum.splits)
    have "IsAbs (ws_root (rg_workspace r) @ ''/'' @ n)" using assms(2) unfolding assms(3) by (auto simp: IsAbs_iff)
    then have "Clean (ws_root w) = Clean (filepath_Join (ws_root (rg_workspace r)) n)"
      using n(2) assms(2,3) by (auto simp: filepath_Join_def Clean_again IsAbs_iff)
    then show ?thesis using w(1) within_prefix(2) [OF n(1) assms(2)] assms(3) by simp
  qed
qed

text \<open>The scope of a view is not resolved: a scope that is a symbolic link out of the workspace gives a view whose root,
  the directory its Git commands run in, is that link.\<close>

lemma scope_may_be_a_link:
  "subRoot \<lparr>ws_root = ''/w''\<rparr> ''link'' = Inr \<lparr>ws_root = ''/w/link''\<rparr> \<and> fs_evalSymlinks demo_fs ''/w/link'' = Inr ''/etc''"
  by code_simp

end
