(* ===== verification/Tool_Read.thy ===== *)
theory Tool_Read
  imports Tool_Registry
begin

text \<open>
  The tools that observe (\<open>tools/read_file.go\<close>, \<open>list_files.go\<close>, \<open>git.go\<close>, \<open>process.go\<close>) and the control-plane
  observer that the verifier uses (\<open>workspace.go\<close>, \<open>git.go\<close>). The disk, the context and the result of a command are
  arguments; a file is read in the pieces the disk returns.
\<close>

section \<open>The disk\<close>

text \<open>What \<open>os.Lstat\<close> says of a path, with the permissions and the size of a regular file.\<close>

datatype FileKind = KindSymlink | KindDirectory | KindRegular nat int | KindOther

text \<open>Reading a file gives its pieces and the error it ends with, if any; \<open>dk_stat\<close> follows symbolic links, and
  \<open>dk_size\<close> is the size it reports.\<close>

record Disk =
  dk_fs :: filesystem
  dk_lstat :: "string \<Rightarrow> fs_error + FileKind"
  dk_stat :: "string \<Rightarrow> fs_error + FileKind"
  dk_size :: "string \<Rightarrow> int option"
  dk_open :: "string \<Rightarrow> fs_error + string list \<times> string option"
  dk_readdir :: "string \<Rightarrow> fs_error + string list"

definition is_regular :: "fs_error + FileKind \<Rightarrow> bool" where
  "is_regular k = (case k of Inr (KindRegular _ _) \<Rightarrow> True | _ \<Rightarrow> False)"

text \<open>\<open>os.ReadFile\<close>.\<close>

definition ReadFile :: "Disk \<Rightarrow> string \<Rightarrow> string option" where
  "ReadFile d p = (case dk_open d p of Inr (cs, None) \<Rightarrow> Some (concat cs) | _ \<Rightarrow> None)"

text \<open>The hash of a file, whether it exists, and an error.\<close>

definition hashFile :: "(string \<Rightarrow> string) \<Rightarrow> Disk \<Rightarrow> string \<Rightarrow> string \<times> bool \<times> bool" where
  "hashFile sha256hex d p =
     (case dk_open d p of
        Inl e \<Rightarrow> if e = ErrNotExist then ([], False, False) else ([], True, True)
      | Inr (cs, Some _) \<Rightarrow> ([], True, True)
      | Inr (cs, None) \<Rightarrow> (sha256hex (concat cs), True, False))"

definition fileSize :: "Disk \<Rightarrow> string \<Rightarrow> int" where
  "fileSize d p = (case dk_size d p of Some n \<Rightarrow> n | None \<Rightarrow> -1)"

section \<open>UTF-8 in pieces\<close>

text \<open>\<open>utf8.FullRune\<close> of a text that does not start with a valid encoding.\<close>

definition rune_length :: "char \<Rightarrow> nat" where
  "rune_length c =
     (let b = char_code c
      in if 194 \<le> b \<and> b \<le> 223 then 2 else if 224 \<le> b \<and> b \<le> 239 then 3 else if 240 \<le> b \<and> b \<le> 244 then 4 else 1)"

definition second_range :: "char \<Rightarrow> int \<times> int" where
  "second_range c =
     (let b = char_code c
      in (if b = 224 then 160 else if b = 240 then 144 else 128, if b = 237 then 159 else if b = 244 then 143 else 191))"

definition FullRune :: "string \<Rightarrow> bool" where
  "FullRune s =
     (case s of
        [] \<Rightarrow> False
      | c # _ \<Rightarrow>
          if rune_length c \<le> length s then True
          else if 1 < length s \<and> (char_code (s ! 1) < fst (second_range c) \<or> snd (second_range c) < char_code (s ! 1)) then True
          else 2 < length s \<and> (char_code (s ! 2) < 128 \<or> 191 < char_code (s ! 2)))"

definition rune_error :: "string \<Rightarrow> bool" where
  "rune_error s \<longleftrightarrow> fst (DecodeRune s) = RuneError \<and> snd (DecodeRune s) = 1"

text \<open>What is left over at the end of a piece, and whether a byte was found that no encoding has there.\<close>

function scan_runes :: "string \<Rightarrow> string \<times> bool" where
  "scan_runes s =
     (if s = [] then ([], False)
      else if rune_error s then (if \<not> FullRune s then (s, False) else ([], True))
      else scan_runes (drop (snd (DecodeRune s)) s))"
  by pat_completeness auto
termination
proof (relation "measure length")
  fix s :: string
  assume "s \<noteq> []"
  then show "(drop (snd (DecodeRune s)) s, s) \<in> measure length" using DecodeRune_width [of s] by simp
qed simp

declare scan_runes.simps [simp del]

definition scanUTF8 :: "string \<Rightarrow> string \<Rightarrow> string \<times> bool" where
  "scanUTF8 pending chunk = scan_runes (pending @ chunk)"

function validUTF8Prefix :: "string \<Rightarrow> string" where
  "validUTF8Prefix s = (if s = [] \<or> utf8_valid s then s else validUTF8Prefix (butlast s))"
  by pat_completeness auto
termination
  by (relation "measure length") auto

declare validUTF8Prefix.simps [simp del]

section \<open>Reading a file\<close>

record ReadState =
  rd_content :: string
  rd_original :: int
  rd_binary :: bool
  rd_invalid :: bool
  rd_pending :: string
  rd_hashed :: string

definition empty_read :: ReadState where
  "empty_read = \<lparr>rd_content = [], rd_original = 0, rd_binary = False, rd_invalid = False, rd_pending = [], rd_hashed = []\<rparr>"

definition read_piece :: "int \<Rightarrow> string \<Rightarrow> ReadState \<Rightarrow> ReadState" where
  "read_piece limit c r =
     (case scanUTF8 (rd_pending r) c of
        (pending, invalid) \<Rightarrow>
          \<lparr>rd_content = (if int (length (rd_content r)) < limit then rd_content r @ take (nat (limit - int (length (rd_content r)))) c else rd_content r),
           rd_original = rd_original r + int (length c),
           rd_binary = (rd_binary r \<or> CHR 0x00 \<in> set c),
           rd_invalid = (rd_invalid r \<or> invalid),
           rd_pending = pending,
           rd_hashed = rd_hashed r @ c\<rparr>)"

text \<open>The loop: the context is asked before every read, the last of which finds the end. Failing gives the number of
  questions asked.\<close>

fun read_pieces :: "(nat \<Rightarrow> context_state) \<Rightarrow> int \<Rightarrow> nat \<Rightarrow> string option \<Rightarrow> string list \<Rightarrow> ReadState \<Rightarrow> nat + ReadState" where
  "read_pieces ctx limit i fin [] r = (if contextFailure (ctx i) \<noteq> None \<or> fin \<noteq> None then Inl (Suc i) else Inr r)"
| "read_pieces ctx limit i fin (c # cs) r =
     (if contextFailure (ctx i) \<noteq> None then Inl (Suc i) else read_pieces ctx limit (Suc i) fin cs (read_piece limit c r))"

definition readBoundedFile :: "(nat \<Rightarrow> context_state) \<Rightarrow> Disk \<Rightarrow> string \<Rightarrow> int \<Rightarrow> nat + ReadState" where
  "readBoundedFile ctx d p limit =
     (case dk_open d p of
        Inl e \<Rightarrow> Inl 0
      | Inr (cs, fin) \<Rightarrow>
          map_sum id (\<lambda>r. r\<lparr>rd_invalid := rd_invalid r \<or> rd_pending r \<noteq> []\<rparr>) (read_pieces ctx limit 0 fin cs empty_read))"

definition executeReadFile :: "(string \<Rightarrow> string) \<Rightarrow> Registry \<Rightarrow> (nat \<Rightarrow> context_state) \<Rightarrow> Disk \<Rightarrow> ToolObservation \<Rightarrow> string \<Rightarrow> ToolObservation" where
  "executeReadFile sha256hex r ctx d x path =
     (case workspace_resolve (dk_fs d) (rg_workspace r) path of
        Inl e \<Rightarrow> failed e x
      | Inr p \<Rightarrow>
          if \<not> is_regular (dk_stat d (rp_canonical p)) then failed FailureWrongType x
          else (case readBoundedFile ctx d (rp_canonical p) (lt_MaxReadBytes (rg_limits r)) of
              Inl i \<Rightarrow> failed (case contextFailure (ctx i) of Some e \<Rightarrow> e | None \<Rightarrow> FailureReadFailure) x
            | Inr f \<Rightarrow>
                if rd_binary f then failed FailureBinaryFile x
                else if rd_invalid f then failed FailureInvalidUTF8 x
                else (let content = validUTF8Prefix (rd_content f)
                      in succeeded (FileResult \<lparr>fd_Path = rp_relative p, fd_Content = content, fd_SHA256 = sha256hex (rd_hashed f)\<rparr>)
                           (lt_MaxReadBytes (rg_limits r) < rd_original f)
                           ((plain_metadata ToolReadFile)\<lparr>md_Untrusted := True, md_Path := rp_relative p, md_SizeBytes := rd_original f,
                              md_BytesOriginal := rd_original f, md_BytesReturned := int (length content)\<rparr>) x)))"

section \<open>Listing a directory\<close>

definition filepath_Dir :: "string \<Rightarrow> string" where
  "filepath_Dir p = Clean (rev (dropWhile (\<lambda>c. c \<noteq> CHR ''/'') (rev p)))"

definition filepath_Base :: "string \<Rightarrow> string" where
  "filepath_Base p =
     (if p = [] then ''.''
      else (let q = rev (takeWhile (\<lambda>c. c \<noteq> CHR ''/'') (dropWhile (\<lambda>c. c = CHR ''/'') (rev p))) in if q = [] then ''/'' else q))"

definition entry_of :: "FileKind \<Rightarrow> EntryType \<times> int" where
  "entry_of k = (case k of KindSymlink \<Rightarrow> (EntrySymlink, 0) | KindDirectory \<Rightarrow> (EntryDirectory, 0) | KindRegular _ n \<Rightarrow> (EntryFile, n)
     | KindOther \<Rightarrow> (EntryOther, 0))"

text \<open>The entries by name; the context is asked before each.\<close>

fun list_entries :: "(nat \<Rightarrow> context_state) \<Rightarrow> Disk \<Rightarrow> resolvedPath \<Rightarrow> nat \<Rightarrow> string list \<Rightarrow> FailureCode + FileEntry list" where
  "list_entries ctx d p i [] = Inr []"
| "list_entries ctx d p i (n # ns) =
     (case contextFailure (ctx i) of
        Some e \<Rightarrow> Inl e
      | None \<Rightarrow>
          (case dk_lstat d (filepath_Join (rp_canonical p) n) of
             Inl _ \<Rightarrow> Inl FailureListFailure
           | Inr k \<Rightarrow>
               (case list_entries ctx d p (Suc i) ns of
                  Inl e \<Rightarrow> Inl e
                | Inr es \<Rightarrow> Inr (\<lparr>fe_Path = filepath_Join (rp_relative p) n, fe_Type = fst (entry_of k), fe_Size = snd (entry_of k)\<rparr> # es))))"

definition executeListFiles :: "Registry \<Rightarrow> (nat \<Rightarrow> context_state) \<Rightarrow> Disk \<Rightarrow> ToolObservation \<Rightarrow> string \<Rightarrow> ToolObservation" where
  "executeListFiles r ctx d x path =
     (case NormalizeWorkspacePath path of
        Inl e \<Rightarrow> failed e x
      | Inr relative \<Rightarrow>
          (case workspace_resolve (dk_fs d) (rg_workspace r) (filepath_Dir relative) of
             Inl e \<Rightarrow> failed e x
           | Inr parent \<Rightarrow>
               if \<not> rp_info parent then failed FailureWrongType x
               else (case dk_lstat d (filepath_Join (rp_canonical parent) (filepath_Base relative)) of
                   Inl e \<Rightarrow> failed (fs_failure e) x
                 | Inr kind \<Rightarrow>
                     (case workspace_resolve (dk_fs d) (rg_workspace r) path of
                        Inl e \<Rightarrow> failed e x
                      | Inr p \<Rightarrow>
                          if kind = KindSymlink \<or> \<not> rp_info p then failed FailureWrongType x
                          else (case dk_readdir d (rp_canonical p) of
                              Inl _ \<Rightarrow> failed FailureListFailure x
                            | Inr names \<Rightarrow>
                                (case list_entries ctx d p 0 (sort names) of
                                   Inl e \<Rightarrow> failed e x
                                 | Inr es \<Rightarrow>
                                     (let shown = take (nat (lt_MaxListEntries (rg_limits r))) es
                                      in succeeded (ListResult (rp_relative p) shown) (length shown < length es)
                                           ((plain_metadata ToolListFiles)\<lparr>md_Untrusted := True, md_Path := rp_relative p,
                                              md_EntriesOriginal := int (length es), md_EntriesReturned := int (length shown)\<rparr>) x)))))))"

section \<open>Commands and Git\<close>

record CommandResult =
  cm_Stdout :: string
  cm_Stderr :: string
  cm_StdoutBytes :: int
  cm_StderrBytes :: int
  cm_ExitCode :: int
  cm_Signal :: string
  cm_Err :: "string option"

text \<open>A command with bounded streams; the process is what it writes and how it ends.\<close>

definition runCommand :: "int \<Rightarrow> int \<Rightarrow> Process \<Rightarrow> CommandResult" where
  "runCommand stdoutLimit stderrLimit p =
     (let started = (px_start p = None);
          out = fold buffer_Write (if started then px_stdout p else []) (new_buffer stdoutLimit);
          err = fold buffer_Write (if started then px_stderr p else []) (new_buffer stderrLimit);
          ended = (if started then px_state p else None)
      in \<lparr>cm_Stdout = bb_data out, cm_Stderr = bb_data err, cm_StdoutBytes = bb_total out, cm_StderrBytes = bb_total err,
          cm_ExitCode = (case ended of Some (c, _) \<Rightarrow> c | None \<Rightarrow> -1), cm_Signal = (case ended of Some (_, s) \<Rightarrow> s | None \<Rightarrow> []),
          cm_Err = (if started then px_wait p else px_start p)\<rparr>)"

definition gitArguments :: "string \<Rightarrow> string list" where
  "gitArguments tool =
     (let common = [''--no-pager'', ''-c'', ''color.ui=false'', ''-c'', ''core.quotepath=false'', ''-c'', ''core.pager=cat'', ''-c'', ''core.fsmonitor=false'']
      in if tool = ToolGitStatus
         then common @ [''status'', ''--short'', ''--branch'', ''--no-renames'', ''--untracked-files=all'', ''--'', ''.'']
         else common @ [''diff'', ''--no-ext-diff'', ''--no-textconv'', ''--no-color'', ''--no-renames'', ''--'', ''.''])"

definition boundedBytes :: "string \<Rightarrow> int \<Rightarrow> string" where
  "boundedBytes v limit = (if int (length v) \<le> limit then v else take (nat limit) v)"

record gitObservation =
  gi_stdout :: string
  gi_stderr :: string
  gi_exitCode :: int
  gi_truncated :: bool
  gi_metadata :: Metadata
  gi_commandFailure :: "FailureCode option"
  gi_err :: "string option"

text \<open>The command runs on a line of arguments and in a directory, under a context of its own.\<close>

type_synonym git_runner = "string list \<Rightarrow> string \<Rightarrow> CommandResult \<times> context_state"

definition runGitObservation :: "Registry \<Rightarrow> git_runner \<Rightarrow> context_state \<Rightarrow> string \<Rightarrow> gitObservation" where
  "runGitObservation r git ctx tool =
     (case git (gitArguments tool) (ws_root (rg_workspace r)) of
        (c, commandContext) \<Rightarrow>
          (let outOriginal = max (cm_StdoutBytes c) (int (length (cm_Stdout c)));
               errOriginal = max (cm_StderrBytes c) (int (length (cm_Stderr c)));
               out = boundedBytes (cm_Stdout c) (lt_MaxGitStdoutBytes (rg_limits r));
               err = boundedBytes (cm_Stderr c) (lt_MaxGitStderrBytes (rg_limits r))
           in \<lparr>gi_stdout = out, gi_stderr = err, gi_exitCode = cm_ExitCode c,
               gi_truncated = (lt_MaxGitStdoutBytes (rg_limits r) < outOriginal \<or> lt_MaxGitStderrBytes (rg_limits r) < errOriginal),
               gi_metadata = (plain_metadata tool)\<lparr>md_Untrusted := True, md_StdoutBytesOriginal := outOriginal,
                 md_StdoutBytesReturned := int (length out), md_StderrBytesOriginal := errOriginal,
                 md_StderrBytesReturned := int (length err), md_ExitCode := cm_ExitCode c, md_Signal := cm_Signal c\<rparr>,
               gi_commandFailure = commandResultContextFailure ctx commandContext, gi_err = cm_Err c\<rparr>))"

definition git_failure :: "gitObservation \<Rightarrow> FailureCode option" where
  "git_failure g =
     (if gi_commandFailure g \<noteq> None then gi_commandFailure g
      else if gi_exitCode g = 128 then Some FailureNotGitRepository
      else if gi_exitCode g \<noteq> 0 \<or> gi_err g \<noteq> None then Some FailureGitFailure else None)"

definition executeGit :: "Registry \<Rightarrow> git_runner \<Rightarrow> context_state \<Rightarrow> ToolObservation \<Rightarrow> string \<Rightarrow> ToolObservation" where
  "executeGit r git ctx x tool =
     (let g = runGitObservation r git ctx tool;
          x1 = x\<lparr>to_Metadata := gi_metadata g, to_Truncated := gi_truncated g, to_Data := GitResult (gi_stdout g) (gi_stderr g)\<rparr>
      in case git_failure g of Some e \<Rightarrow> failed e x1 | None \<Rightarrow> x1\<lparr>to_Success := True\<rparr>)"

text \<open>The texts of the observer; a failure leaves an empty text.\<close>

definition git_text :: "Registry \<Rightarrow> git_runner \<Rightarrow> string \<Rightarrow> string \<times> bool \<times> FailureCode option" where
  "git_text r git tool =
     (let g = runGitObservation r git ContextAlive tool
      in case git_failure g of Some e \<Rightarrow> ([], gi_truncated g, Some e) | None \<Rightarrow> (gi_stdout g, gi_truncated g, None))"

definition GitStatusText :: "Registry \<Rightarrow> git_runner \<Rightarrow> string \<times> bool \<times> FailureCode option" where
  "GitStatusText r git = git_text r git ToolGitStatus"

definition GitDiffText :: "Registry \<Rightarrow> git_runner \<Rightarrow> string \<times> bool \<times> FailureCode option" where
  "GitDiffText r git = git_text r git ToolGitDiff"

section \<open>The observer of the verifier\<close>

definition ResolveWorkspacePath :: "Registry option \<Rightarrow> filesystem \<Rightarrow> string \<Rightarrow> FailureCode + string \<times> string" where
  "ResolveWorkspacePath r fs input =
     (case r of
        None \<Rightarrow> Inl FailureInvalidArguments
      | Some g \<Rightarrow> map_sum id (\<lambda>p. (rp_relative p, rp_canonical p)) (workspace_resolve fs (rg_workspace g) input))"

definition FileSHA256 :: "(string \<Rightarrow> string) \<Rightarrow> Registry option \<Rightarrow> Disk \<Rightarrow> string \<Rightarrow> string \<times> bool \<times> FailureCode option" where
  "FileSHA256 sha256hex r d input =
     (case ResolveWorkspacePath r (dk_fs d) input of
        Inl e \<Rightarrow> if r \<noteq> None \<and> e = FailurePathNotFound then ([], False, None) else ([], False, Some e)
      | Inr (_, canonical) \<Rightarrow>
          (case hashFile sha256hex d canonical of
             (h, present, err) \<Rightarrow> if err then ([], present, Some FailureReadFailure) else (h, present, None)))"

definition observer_of :: "(string \<Rightarrow> string) \<Rightarrow> (FailureCode \<Rightarrow> string) \<Rightarrow> Registry \<Rightarrow> git_runner \<Rightarrow> Disk \<Rightarrow> Observer" where
  "observer_of sha256hex text r git d =
     \<lparr>ob_FileSHA256 = (\<lambda>p. case FileSHA256 sha256hex (Some r) d p of (h, present, e) \<Rightarrow> (h, present, map_option text e)),
      ob_GitStatusText = (case GitStatusText r git of (t, tr, e) \<Rightarrow> (t, tr, map_option text e)),
      ob_GitDiffText = (case GitDiffText r git of (t, tr, e) \<Rightarrow> (t, tr, map_option text e))\<rparr>"

section \<open>Decoding in pieces\<close>

lemma byte_in_code: "byte_in lo hi c \<longleftrightarrow> int lo \<le> char_code c \<and> char_code c \<le> int hi"
proof -
  have "char_code c = int (of_char c)" by (simp only: char_code_def of_nat_of_char)
  then show ?thesis by (simp add: byte_in_def)
qed

lemma of_char_code: "of_char c = (n :: nat) \<longleftrightarrow> char_code c = int n"
proof -
  have "char_code c = int (of_char c)" by (simp only: char_code_def of_nat_of_char)
  then show ?thesis by simp
qed

lemma char_code_bounds: "0 \<le> char_code c \<and> char_code c < 256"
proof -
  have "char_code c = int (of_char c)" by (simp only: char_code_def of_nat_of_char)
  moreover have "(of_char c :: nat) < 256" using range_nat_of_char by force
  ultimately show ?thesis by simp
qed

text \<open>The width of the first rune of a text, if it has one.\<close>

definition rune_width :: "string \<Rightarrow> nat option" where
  "rune_width s =
     (let b0 = char_code (s ! 0)
      in if b0 < 128 then Some 1
         else if 194 \<le> b0 \<and> b0 \<le> 223 \<and> continuation_byte 128 191 s 1 then Some 2
         else if 224 \<le> b0 \<and> b0 \<le> 239
              \<and> continuation_byte (if b0 = 224 then 160 else 128) (if b0 = 237 then 159 else 191) s 1 \<and> continuation_byte 128 191 s 2
         then Some 3
         else if 240 \<le> b0 \<and> b0 \<le> 244
              \<and> continuation_byte (if b0 = 240 then 144 else 128) (if b0 = 244 then 143 else 191) s 1 \<and> continuation_byte 128 191 s 2 \<and> continuation_byte 128 191 s 3
         then Some 4
         else None)"

lemma rune_width_decode:
  "rune_error s \<longleftrightarrow> rune_width s = None" "rune_width s = Some w \<Longrightarrow> snd (DecodeRune s) = w"
  by (simp_all add: rune_error_def DecodeRune_def rune_width_def Let_def RuneError_def split: if_splits)

text \<open>What a first byte leaves to check.\<close>

definition rune_tail_ok :: "int \<Rightarrow> string \<Rightarrow> nat option" where
  "rune_tail_ok b0 s =
     (if b0 < 128 then Some 1
      else if 194 \<le> b0 \<and> b0 \<le> 223 then (if continuation_byte 128 191 s 1 then Some 2 else None)
      else if 224 \<le> b0 \<and> b0 \<le> 239
      then (if continuation_byte (if b0 = 224 then 160 else 128) (if b0 = 237 then 159 else 191) s 1 \<and> continuation_byte 128 191 s 2 then Some 3 else None)
      else if 240 \<le> b0 \<and> b0 \<le> 244
      then (if continuation_byte (if b0 = 240 then 144 else 128) (if b0 = 244 then 143 else 191) s 1 \<and> continuation_byte 128 191 s 2 \<and> continuation_byte 128 191 s 3
            then Some 4 else None)
      else None)"

lemma rune_width_tail: "rune_width s = rune_tail_ok (char_code (s ! 0)) s"
  by (auto simp: rune_width_def rune_tail_ok_def Let_def)

lemma continuation_append:
  "i < length s \<Longrightarrow> continuation_byte lo hi (s @ t) i = continuation_byte lo hi s i"
  "continuation_byte lo hi s i \<Longrightarrow> continuation_byte lo hi (s @ t) i"
  by (auto simp: continuation_byte_def nth_append)

lemma continuation_length: "continuation_byte lo hi s i \<Longrightarrow> i < length s"
  by (simp add: continuation_byte_def)

lemma rune_width_bounds: "rune_width s = Some w \<Longrightarrow> s \<noteq> [] \<Longrightarrow> 0 < w \<and> w \<le> 4 \<and> w \<le> length s"
proof -
  assume w: "rune_width s = Some w" and s: "s \<noteq> []"
  have "Suc 0 \<le> length s" using s by (cases s) simp_all
  then show ?thesis using w unfolding rune_width_tail rune_tail_ok_def
    by (simp split: if_splits) (auto dest: continuation_length)
qed

lemma continuation_simps:
  "continuation_byte lo hi [a] (Suc 0) \<longleftrightarrow> False" "continuation_byte lo hi (a # b # t) (Suc 0) \<longleftrightarrow> lo \<le> char_code b \<and> char_code b \<le> hi"
  "continuation_byte lo hi [a] 2 \<longleftrightarrow> False" "continuation_byte lo hi [a, b] 2 \<longleftrightarrow> False"
  "continuation_byte lo hi (a # b # c # t) 2 \<longleftrightarrow> lo \<le> char_code c \<and> char_code c \<le> hi"
  "continuation_byte lo hi [a] 3 \<longleftrightarrow> False" "continuation_byte lo hi [a, b] 3 \<longleftrightarrow> False" "continuation_byte lo hi [a, b, c] 3 \<longleftrightarrow> False"
  "continuation_byte lo hi (a # b # c # d # t) 3 \<longleftrightarrow> lo \<le> char_code d \<and> char_code d \<le> hi"
  by (simp_all add: continuation_byte_def)

lemma drop_four: "drop 4 (a # b # c # d # t) = t"
  by (simp add: numeral_eq_Suc)

lemma utf8_valid_step:
  "utf8_valid (a # s) \<longleftrightarrow> (case rune_width (a # s) of None \<Rightarrow> False | Some w \<Rightarrow> utf8_valid (drop w (a # s)))"
proof -
  let ?b = "char_code a"
  have lo: "0 \<le> ?b" using char_code_bounds by simp
  consider "?b < 128" | "194 \<le> ?b \<and> ?b \<le> 223" | "224 \<le> ?b \<and> ?b \<le> 239" | "240 \<le> ?b \<and> ?b \<le> 244"
    | "\<not> ?b < 128" "\<not> (194 \<le> ?b \<and> ?b \<le> 223)" "\<not> (224 \<le> ?b \<and> ?b \<le> 239)" "\<not> (240 \<le> ?b \<and> ?b \<le> 244)" by blast
  then show ?thesis
  proof cases
    case 1
    then show ?thesis using lo by (simp add: rune_width_tail rune_tail_ok_def byte_in_code)
  next
    case 2
    then show ?thesis
      by (cases s) (auto simp: rune_width_tail rune_tail_ok_def byte_in_code continuation_simps numeral_2_eq_2)
  next
    case 3
    then have n: "\<not> ?b < 128" "\<not> (194 \<le> ?b \<and> ?b \<le> 223)" "\<not> ?b \<le> 127" "\<not> ?b \<le> 223" by simp_all
    consider "s = []" | b where "s = [b]" | b c t where "s = b # c # t" by (metis list.exhaust)
    then show ?thesis
      by cases (use 3 n in \<open>auto simp: rune_width_tail rune_tail_ok_def byte_in_code of_char_code continuation_simps numeral_3_eq_3\<close>)
  next
    case 4
    then have n: "\<not> ?b < 128" "\<not> ?b \<le> 127" "\<not> ?b \<le> 223" "\<not> ?b \<le> 239" by simp_all
    consider "s = []" | b where "s = [b]" | b c where "s = [b, c]" | b c d t where "s = b # c # d # t" by (metis list.exhaust)
    then show ?thesis
      by cases (use 4 n in \<open>auto simp: rune_width_tail rune_tail_ok_def byte_in_code of_char_code continuation_simps drop_four\<close>)
  next
    case 5
    then have "\<not> byte_in 0x00 0x7F a" "\<not> byte_in 0xC2 0xDF a" "\<not> byte_in 0xE0 0xEF a" "\<not> byte_in 0xF0 0xF4 a"
      by (auto simp: byte_in_code)
    then have "\<not> utf8_valid (a # s)" by (simp only: utf8_valid.simps if_False simp_thms)
    moreover have "rune_width (a # s) = None" unfolding rune_width_tail rune_tail_ok_def nth_Cons_0 using 5 by (simp only: if_False)
    ultimately show ?thesis by (simp only: option.case)
  qed
qed

lemma rune_width_append: "rune_width s = Some w \<Longrightarrow> s \<noteq> [] \<Longrightarrow> rune_width (s @ t) = Some w"
proof -
  assume w: "rune_width s = Some w" and s: "s \<noteq> []"
  have z: "(s @ t) ! 0 = s ! 0" using s by (simp add: nth_append)
  show ?thesis using w unfolding rune_width_tail z rune_tail_ok_def
    by (simp split: if_splits) (simp_all add: continuation_append(2))
qed

text \<open>A full text without a rune has none whatever follows; a text that is not full is no rune.\<close>

lemma full_rune_append:
  assumes "rune_width s = None" "FullRune s"
  shows "rune_width (s @ t) = None"
proof -
  obtain a r where s: "s = a # r" using assms(2) by (cases s) (auto simp: FullRune_def)
  let ?b = "char_code a"
  have z: "(s @ t) ! 0 = a" "s ! 0 = a" using s by simp_all
  have out: "\<not> continuation_byte lo hi (s @ t) i" if "i < length s" "char_code (s ! i) < lo \<or> hi < char_code (s ! i)" for lo hi i
    using that by (auto simp: continuation_byte_def nth_append)
  consider "194 \<le> ?b \<and> ?b \<le> 223" | "224 \<le> ?b \<and> ?b \<le> 239" | "240 \<le> ?b \<and> ?b \<le> 244"
    | "\<not> (194 \<le> ?b \<and> ?b \<le> 223)" "\<not> (224 \<le> ?b \<and> ?b \<le> 239)" "\<not> (240 \<le> ?b \<and> ?b \<le> 244)" by blast
  then show ?thesis
  proof cases
    case 1
    then have "1 < length s" "\<not> continuation_byte 128 191 s 1"
      using assms unfolding rune_width_tail z s by (auto simp: rune_tail_ok_def FullRune_def rune_length_def split: if_splits)
    then show ?thesis using 1 continuation_append(1) [of 1 s] unfolding rune_width_tail z by (simp add: rune_tail_ok_def)
  next
    case 2
    let ?lo = "if ?b = 224 then 160 else 128" and ?hi = "if ?b = 237 then 159 else 191 :: int"
    have n: "\<not> (continuation_byte ?lo ?hi s 1 \<and> continuation_byte 128 191 s 2)" using assms(1) 2 unfolding rune_width_tail z by (auto simp: rune_tail_ok_def split: if_splits)
    have "fst (second_range a) = ?lo" "snd (second_range a) = ?hi" "rune_length a = 3"
      using 2 by (auto simp: second_range_def rune_length_def Let_def)
    then have "3 \<le> length s \<or> (1 < length s \<and> (char_code (s ! 1) < ?lo \<or> ?hi < char_code (s ! 1)))"
      using assms(2) unfolding FullRune_def s by (auto split: if_splits)
    then have "\<not> (continuation_byte ?lo ?hi (s @ t) 1 \<and> continuation_byte 128 191 (s @ t) 2)"
      using n out [of 1 ?lo ?hi] continuation_append(1) [of 1 s] continuation_append(1) [of 2 s] by (metis Suc_le_lessD Suc_lessD numeral_2_eq_2 numeral_3_eq_3 One_nat_def)
    then show ?thesis using 2 unfolding rune_width_tail z by (simp add: rune_tail_ok_def)
  next
    case 3
    let ?lo = "if ?b = 240 then 144 else 128" and ?hi = "if ?b = 244 then 143 else 191 :: int"
    have n: "\<not> (continuation_byte ?lo ?hi s 1 \<and> continuation_byte 128 191 s 2 \<and> continuation_byte 128 191 s 3)"
      using assms(1) 3 unfolding rune_width_tail z by (auto simp: rune_tail_ok_def split: if_splits)
    have "fst (second_range a) = ?lo" "snd (second_range a) = ?hi" "rune_length a = 4"
      using 3 by (auto simp: second_range_def rune_length_def Let_def)
    then have "4 \<le> length s \<or> (1 < length s \<and> (char_code (s ! 1) < ?lo \<or> ?hi < char_code (s ! 1)))
        \<or> (2 < length s \<and> (char_code (s ! 2) < 128 \<or> 191 < char_code (s ! 2)))"
      using assms(2) unfolding FullRune_def s by (auto split: if_splits)
    moreover have "\<not> (continuation_byte ?lo ?hi (s @ t) 1 \<and> continuation_byte 128 191 (s @ t) 2 \<and> continuation_byte 128 191 (s @ t) 3)" if "4 \<le> length s"
      using n continuation_append(1) [of 1 s] continuation_append(1) [of 2 s] continuation_append(1) [of 3 s] that by simp
    ultimately have "\<not> (continuation_byte ?lo ?hi (s @ t) 1 \<and> continuation_byte 128 191 (s @ t) 2 \<and> continuation_byte 128 191 (s @ t) 3)"
      using out [of 1 ?lo ?hi] out [of 2 128 191] by blast
    then show ?thesis using 3 unfolding rune_width_tail z by (simp add: rune_tail_ok_def)
  next
    case 4
    then show ?thesis using assms(1) unfolding rune_width_tail z by (auto simp: rune_tail_ok_def split: if_splits)
  qed
qed

text \<open>What a scan says of every text that starts with what was scanned: a wrong byte makes it invalid, and otherwise it is
  valid exactly when the rest is.\<close>

lemma scan_runes_sound:
  assumes "scan_runes s = (p, bad)"
  shows "if bad then p = [] \<and> \<not> utf8_valid (s @ t)
     else (utf8_valid (s @ t) \<longleftrightarrow> utf8_valid (p @ t)) \<and> (p \<noteq> [] \<longrightarrow> rune_width p = None)"
  using assms
proof (induction s arbitrary: p bad rule: scan_runes.induct)
  case (1 s)
  show ?case
  proof (cases "s = []")
    case True
    then show ?thesis using "1.prems" by (auto simp: scan_runes.simps [of "[]"])
  next
    case False
    then obtain a r where s: "s = a # r" by (cases s) auto
    show ?thesis
    proof (cases "rune_width s")
      case None
      then have e: "rune_error s" by (simp add: rune_width_decode)
      show ?thesis
      proof (cases "FullRune s")
        case True
        then have "rune_width (s @ t) = None" by (rule full_rune_append [OF None])
        then have "\<not> utf8_valid (s @ t)" unfolding s append_Cons utf8_valid_step by simp
        then show ?thesis using "1.prems" False e True by (auto simp: scan_runes.simps [of s])
      next
        case nofull: False
        then show ?thesis using "1.prems" False e None by (auto simp: scan_runes.simps [of s])
      qed
    next
      case (Some w)
      then have e: "\<not> rune_error s" "snd (DecodeRune s) = w" by (simp_all add: rune_width_decode)
      have rec: "scan_runes (drop w s) = (p, bad)" using "1.prems" False e by (simp add: scan_runes.simps [of s])
      have "w \<le> length s" using rune_width_bounds [OF Some False] by simp
      moreover have "rune_width (s @ t) = Some w" by (rule rune_width_append [OF Some False])
      ultimately have "utf8_valid (s @ t) \<longleftrightarrow> utf8_valid (drop w s @ t)"
        unfolding s append_Cons utf8_valid_step by (simp add: s [symmetric] append_Cons [symmetric] del: append_Cons)
      then show ?thesis using "1.IH" [OF False e(1), unfolded e(2), OF rec] by (cases bad) simp_all
    qed
  qed
qed

text \<open>What is known after some pieces.\<close>

definition read_inv :: "int \<Rightarrow> string \<Rightarrow> ReadState \<Rightarrow> bool" where
  "read_inv limit s r \<longleftrightarrow>
     rd_content r = take (nat limit) s \<and> rd_original r = int (length s) \<and> rd_hashed r = s
     \<and> (rd_binary r \<longleftrightarrow> CHR 0x00 \<in> set s)
     \<and> (if rd_invalid r then \<forall>t. \<not> utf8_valid (s @ t)
        else (\<forall>t. utf8_valid (s @ t) \<longleftrightarrow> utf8_valid (rd_pending r @ t)) \<and> (rd_pending r \<noteq> [] \<longrightarrow> rune_width (rd_pending r) = None))"

lemma read_piece_inv:
  assumes "0 \<le> limit" "read_inv limit s r"
  shows "read_inv limit (s @ c) (read_piece limit c r)"
proof -
  obtain p bad where p: "scanUTF8 (rd_pending r) c = (p, bad)" by fastforce
  note sound = scan_runes_sound [OF p [unfolded scanUTF8_def]]
  have content: "rd_content (read_piece limit c r) = take (nat limit) (s @ c)"
  proof (cases "length s < nat limit")
    case True
    then have "nat (limit - int (length s)) = nat limit - length s" using assms(1) by (simp add: nat_diff_distrib)
    then show ?thesis using True assms by (simp add: read_piece_def read_inv_def p)
  next
    case False
    then show ?thesis using assms by (simp add: read_piece_def read_inv_def p)
  qed
  have flags: "if rd_invalid r \<or> bad then \<forall>t. \<not> utf8_valid ((s @ c) @ t)
      else (\<forall>t. utf8_valid ((s @ c) @ t) \<longleftrightarrow> utf8_valid (p @ t)) \<and> (p \<noteq> [] \<longrightarrow> rune_width p = None)"
    using assms(2) sound by (auto simp: read_inv_def split: if_splits)
  have f: "rd_original (read_piece limit c r) = rd_original r + int (length c)" "rd_hashed (read_piece limit c r) = rd_hashed r @ c"
    "rd_binary (read_piece limit c r) = (rd_binary r \<or> CHR 0x00 \<in> set c)" "rd_invalid (read_piece limit c r) = (rd_invalid r \<or> bad)"
    "rd_pending (read_piece limit c r) = p"
    by (simp_all add: read_piece_def p)
  have o': "rd_original r = int (length s)" "rd_hashed r = s" "rd_binary r = (CHR 0x00 \<in> set s)" using assms(2) by (simp_all add: read_inv_def)
  show ?thesis unfolding read_inv_def f content o' using flags by (simp del: append_assoc)
qed

lemma read_pieces_inv:
  "read_pieces ctx limit i fin cs r = Inr r' \<Longrightarrow> 0 \<le> limit \<Longrightarrow> read_inv limit s r \<Longrightarrow> fin = None \<and> read_inv limit (s @ concat cs) r'"
proof (induction cs arbitrary: i r s)
  case (Cons c cs)
  then have "read_pieces ctx limit (Suc i) fin cs (read_piece limit c r) = Inr r'" by (auto split: if_splits)
  from Cons.IH [OF this Cons.prems(2) read_piece_inv [OF Cons.prems(2,3)]] show ?case by simp
qed (auto split: if_splits)

lemma readBoundedFile_ok:
  assumes "readBoundedFile ctx d p limit = Inr f" "0 \<le> limit"
  obtains cs where "dk_open d p = Inr (cs, None)" "rd_content f = take (nat limit) (concat cs)" "rd_original f = int (length (concat cs))"
    "rd_hashed f = concat cs" "rd_binary f \<longleftrightarrow> CHR 0x00 \<in> set (concat cs)" "rd_invalid f \<longleftrightarrow> \<not> utf8_valid (concat cs)"
proof -
  obtain cs fin r where o': "dk_open d p = Inr (cs, fin)" "read_pieces ctx limit 0 fin cs empty_read = Inr r"
    "f = r\<lparr>rd_invalid := rd_invalid r \<or> rd_pending r \<noteq> []\<rparr>"
    using assms(1) by (auto simp: readBoundedFile_def split: sum.splits) (case_tac "read_pieces ctx limit 0 b a empty_read"; simp)
  have "read_inv limit [] empty_read" by (simp add: read_inv_def empty_read_def)
  note inv = read_pieces_inv [OF o'(2) assms(2) this]
  then have i: "fin = None" "read_inv limit (concat cs) r" by simp_all
  have pend: "rd_pending r \<noteq> [] \<Longrightarrow> rune_width (rd_pending r) = None \<Longrightarrow> \<not> utf8_valid (rd_pending r)"
    by (cases "rd_pending r") (simp_all add: utf8_valid_step del: utf8_valid.simps)
  have "rd_invalid r \<or> rd_pending r \<noteq> [] \<longleftrightarrow> \<not> utf8_valid (concat cs)"
  proof (cases "rd_invalid r")
    case True
    then have "\<not> utf8_valid (concat cs @ [])" using i(2) unfolding read_inv_def by presburger
    then show ?thesis using True by simp
  next
    case False
    then have "utf8_valid (concat cs @ []) \<longleftrightarrow> utf8_valid (rd_pending r @ [])" "rd_pending r \<noteq> [] \<longrightarrow> rune_width (rd_pending r) = None"
      using i(2) unfolding read_inv_def by presburger+
    then show ?thesis using pend False by (cases "rd_pending r = []") simp_all
  qed
  then show thesis using that [OF o'(1) [unfolded i(1)]] i(2) o'(3) by (simp add: read_inv_def)
qed

text \<open>At most three bytes are cut at the limit.\<close>

lemma valid_prefix_near: "utf8_valid s \<Longrightarrow> n \<le> length s \<Longrightarrow> \<exists>k \<le> 3. k \<le> n \<and> utf8_valid (take (n - k) s)"
proof (induction "length s" arbitrary: s n rule: less_induct)
  case less
  show ?case
  proof (cases s)
    case Nil
    then show ?thesis using less.prems by auto
  next
    case (Cons a r)
    then obtain w where w: "rune_width s = Some w" "utf8_valid (drop w s)" using less.prems(1) by (auto simp: utf8_valid_step split: option.splits simp del: utf8_valid.simps)
    have b: "0 < w" "w \<le> 4" "w \<le> length s" using rune_width_bounds [OF w(1)] Cons by simp_all
    show ?thesis
    proof (cases "w \<le> n")
      case True
      have "n - w \<le> length (drop w s)" using less.prems(2) by simp
      moreover have "length (drop w s) < length s" using b by simp
      ultimately obtain k where k: "k \<le> 3" "k \<le> n - w" "utf8_valid (take (n - w - k) (drop w s))" using less.hyps w(2) by blast
      have "take (n - k) s = take w s @ take (n - w - k) (drop w s)"
        using k(2) True by (metis add_diff_assoc add_diff_inverse_nat diff_commute le_add_diff_inverse not_less take_add)
      moreover have "rune_width (take w s) = Some w"
        using w(1) b Cons unfolding rune_width_tail rune_tail_ok_def
        by (simp split: if_splits) (auto simp: continuation_byte_def)
      then have "rune_width (take w s @ take (n - w - k) (drop w s)) = Some w" using b Cons by (intro rune_width_append) auto
      moreover have "utf8_valid x \<longleftrightarrow> utf8_valid (drop w x)" if "rune_width x = Some w" "x \<noteq> []" for x
        using that by (cases x) (simp_all add: utf8_valid_step del: utf8_valid.simps)
      ultimately have "utf8_valid (take (n - k) s)" using k(3) b Cons by (metis append_eq_conv_conj append_is_Nil_conv drop_take length_take list.distinct(1) min.absorb2 take_eq_Nil)
      then show ?thesis using k True by (intro exI [of _ k]) simp
    next
      case False
      then show ?thesis using b by (intro exI [of _ n]) simp
    qed
  qed
qed

lemma validUTF8Prefix_spec:
  "prefix (validUTF8Prefix s) s" "utf8_valid (validUTF8Prefix s)" "utf8_valid (take k s) \<Longrightarrow> k \<le> length s \<Longrightarrow> k \<le> length (validUTF8Prefix s)"
proof (induction s arbitrary: k rule: validUTF8Prefix.induct)
  case (1 s)
  {
    case 1
    then show ?case using "1.IH"(1) prefixeq_butlast [of s] by (cases "s = [] \<or> utf8_valid s") (auto simp: validUTF8Prefix.simps [of s] intro: prefix_order.trans)
  next
    case 2
    then show ?case using "1.IH"(2) by (cases "s = [] \<or> utf8_valid s") (auto simp: validUTF8Prefix.simps [of s])
  next
    case 3
    show ?case
    proof (cases "s = [] \<or> utf8_valid s")
      case True
      then show ?thesis using 3 by (simp add: validUTF8Prefix.simps [of s])
    next
      case False
      then have "k \<noteq> length s" using 3(1) by auto
      then have "k \<le> length (butlast s)" using 3(2) by simp
      moreover have "take k (butlast s) = take k s" using \<open>k \<le> length (butlast s)\<close> by (simp add: butlast_conv_take)
      ultimately have "k \<le> length (validUTF8Prefix (butlast s))" using "1.IH"(3) [OF False] 3(1) by simp
      then show ?thesis using False by (simp add: validUTF8Prefix.simps [of s])
    qed
  }
qed

lemma read_pieces_alive: "\<forall>i. ctx i = ContextAlive \<Longrightarrow> \<exists>r'. read_pieces ctx limit i None cs r = Inr r'"
  by (induction cs arbitrary: i r) (auto simp: contextFailure_def)

text \<open>What a read returns of a file: the path, the content shown and the hash of all of it.\<close>

definition shows_file :: "(string \<Rightarrow> string) \<Rightarrow> int \<Rightarrow> string \<Rightarrow> string \<Rightarrow> ToolObservation \<Rightarrow> bool" where
  "shows_file sha256hex limit path all x \<longleftrightarrow>
     (\<exists>content. to_Data x = FileResult \<lparr>fd_Path = path, fd_Content = content, fd_SHA256 = sha256hex all\<rparr>
        \<and> prefix content all \<and> utf8_valid content \<and> int (length content) \<le> limit \<and> min limit (int (length all)) - 3 \<le> int (length content)
        \<and> (to_Truncated x \<longleftrightarrow> limit < int (length all)))"

lemma read_file_success:
  assumes "0 \<le> lt_MaxReadBytes (rg_limits r)" "\<not> to_Success x" "to_Success (executeReadFile sha256hex r ctx d x path)"
  shows "\<exists>p cs. workspace_resolve (dk_fs d) (rg_workspace r) path = Inr p \<and> is_regular (dk_stat d (rp_canonical p))
     \<and> dk_open d (rp_canonical p) = Inr (cs, None) \<and> utf8_valid (concat cs) \<and> CHR 0x00 \<notin> set (concat cs)
     \<and> shows_file sha256hex (lt_MaxReadBytes (rg_limits r)) (rp_relative p) (concat cs) (executeReadFile sha256hex r ctx d x path)"
proof -
  let ?l = "lt_MaxReadBytes (rg_limits r)"
  obtain p f where p: "workspace_resolve (dk_fs d) (rg_workspace r) path = Inr p" "is_regular (dk_stat d (rp_canonical p))"
    "readBoundedFile ctx d (rp_canonical p) ?l = Inr f" "\<not> rd_binary f" "\<not> rd_invalid f"
    using assms(2,3) by (auto simp: executeReadFile_def failed_def split: sum.splits if_splits)
  obtain cs where cs: "dk_open d (rp_canonical p) = Inr (cs, None)" "rd_content f = take (nat ?l) (concat cs)" "rd_original f = int (length (concat cs))"
    "rd_hashed f = concat cs" "rd_binary f \<longleftrightarrow> CHR 0x00 \<in> set (concat cs)" "rd_invalid f \<longleftrightarrow> \<not> utf8_valid (concat cs)"
    by (rule readBoundedFile_ok [OF p(3) assms(1)])
  define content where "content = validUTF8Prefix (take (nat ?l) (concat cs))"
  have v: "utf8_valid (concat cs)" using cs(6) p(5) by simp
  obtain k where k: "k \<le> 3" "k \<le> min (nat ?l) (length (concat cs))" "utf8_valid (take (min (nat ?l) (length (concat cs)) - k) (concat cs))"
    using valid_prefix_near [OF v, of "min (nat ?l) (length (concat cs))"] by auto
  have "min (nat ?l) (length (concat cs)) - k \<le> length content"
    unfolding content_def by (rule validUTF8Prefix_spec(3)) (use k(3) in \<open>simp_all add: min_def split: if_splits\<close>)
  moreover have "prefix content (take (nat ?l) (concat cs))" "utf8_valid content"
    unfolding content_def by (rule validUTF8Prefix_spec(1,2))+
  moreover have "length content \<le> nat ?l" using prefix_length_le [OF calculation(2)] by simp
  moreover have "prefix content (concat cs)" using calculation(2) take_is_prefix prefix_order.trans by blast
  moreover have "executeReadFile sha256hex r ctx d x path =
      succeeded (FileResult \<lparr>fd_Path = rp_relative p, fd_Content = content, fd_SHA256 = sha256hex (concat cs)\<rparr>) (?l < int (length (concat cs)))
        ((plain_metadata ToolReadFile)\<lparr>md_Untrusted := True, md_Path := rp_relative p, md_SizeBytes := rd_original f,
           md_BytesOriginal := rd_original f, md_BytesReturned := int (length content)\<rparr>) x"
    using p cs by (simp add: executeReadFile_def Let_def content_def)
  ultimately have "shows_file sha256hex ?l (rp_relative p) (concat cs) (executeReadFile sha256hex r ctx d x path)"
    using k(1,2) assms(1) unfolding shows_file_def by (intro exI [of _ content]) (simp add: succeeded_def, linarith)
  then show ?thesis using p(1,2) cs(1,5,6) p(4,5) by blast
qed

lemma read_file_complete:
  assumes "0 \<le> lt_MaxReadBytes (rg_limits r)" "\<forall>i. ctx i = ContextAlive" "workspace_resolve (dk_fs d) (rg_workspace r) path = Inr p"
    "is_regular (dk_stat d (rp_canonical p))" "dk_open d (rp_canonical p) = Inr (cs, None)" "utf8_valid (concat cs)" "CHR 0x00 \<notin> set (concat cs)"
  shows "to_Success (executeReadFile sha256hex r ctx d x path)"
proof -
  obtain f where f: "readBoundedFile ctx d (rp_canonical p) (lt_MaxReadBytes (rg_limits r)) = Inr f"
    using read_pieces_alive [OF assms(2), of "lt_MaxReadBytes (rg_limits r)" 0 cs empty_read] assms(5) by (auto simp: readBoundedFile_def)
  obtain cs' where "dk_open d (rp_canonical p) = Inr (cs', None)" "rd_binary f \<longleftrightarrow> CHR 0x00 \<in> set (concat cs')" "rd_invalid f \<longleftrightarrow> \<not> utf8_valid (concat cs')"
    by (rule readBoundedFile_ok [OF f assms(1)])
  then show ?thesis using assms f by (simp add: executeReadFile_def Let_def succeeded_def)
qed

text \<open>C39: a read shows the file as it is. Reading in pieces of any sizes succeeds only for a regular file inside the
  workspace that is valid UTF-8 without zero bytes (and, if the context stays alive, for every such file); then
  the content shown is valid UTF-8 and a prefix of the file of at most the limit that lacks at most three bytes of it,
  the observation is marked as truncated exactly when the file is longer than the limit, and the hash is
  that of the whole file.\<close>

theorem read_file_is_faithful:
  assumes "0 \<le> lt_MaxReadBytes (rg_limits r)" "\<not> to_Success x"
  shows "(to_Success (executeReadFile sha256hex r ctx d x path) \<longrightarrow>
       (\<exists>p cs. workspace_resolve (dk_fs d) (rg_workspace r) path = Inr p \<and> is_regular (dk_stat d (rp_canonical p))
         \<and> dk_open d (rp_canonical p) = Inr (cs, None) \<and> utf8_valid (concat cs) \<and> CHR 0x00 \<notin> set (concat cs)
         \<and> shows_file sha256hex (lt_MaxReadBytes (rg_limits r)) (rp_relative p) (concat cs) (executeReadFile sha256hex r ctx d x path)))
     \<and> ((\<forall>i. ctx i = ContextAlive)
         \<and> (\<exists>p cs. workspace_resolve (dk_fs d) (rg_workspace r) path = Inr p \<and> is_regular (dk_stat d (rp_canonical p))
              \<and> dk_open d (rp_canonical p) = Inr (cs, None) \<and> utf8_valid (concat cs) \<and> CHR 0x00 \<notin> set (concat cs))
         \<longrightarrow> to_Success (executeReadFile sha256hex r ctx d x path))"
  using read_file_success [OF assms] read_file_complete [OF assms(1)] by blast

text \<open>A disk with one file whose bytes come in two pieces that cut a character, in a workspace that shows five bytes.\<close>

definition demo_disk :: Disk where
  "demo_disk = \<lparr>dk_fs = demo_fs, dk_lstat = (\<lambda>p. Inr (KindRegular 420 6)), dk_stat = (\<lambda>p. Inr (KindRegular 420 6)), dk_size = (\<lambda>p. Some 6),
     dk_open = (\<lambda>p. Inr ([''abcd'' @ [CHR 0xC3], [CHR 0xA9]], None)), dk_readdir = (\<lambda>p. Inr [''b'', ''a''])\<rparr>"

definition small_registry :: Registry where
  "small_registry = demo_registry\<lparr>rg_limits := DefaultToolLimits\<lparr>lt_MaxReadBytes := 5\<rparr>\<rparr>"

theorem read_file_is_faithful_witness:
  "\<exists>x. x = executeReadFile id small_registry (\<lambda>i. ContextAlive) demo_disk (fst (newObservation 0 ToolReadFile [])) ''a''
     \<and> to_Success x \<and> to_Truncated x \<and> shows_file id 5 ''a'' (''abcd'' @ [CHR 0xC3, CHR 0xA9]) x"
proof -
  let ?x = "fst (newObservation 0 ToolReadFile [])"
  let ?y = "executeReadFile id small_registry (\<lambda>i. ContextAlive) demo_disk ?x ''a''"
  have l: "0 \<le> lt_MaxReadBytes (rg_limits small_registry)" "\<not> to_Success ?x" by (simp_all add: small_registry_def newObservation_def)
  have w: "workspace_resolve (dk_fs demo_disk) (rg_workspace small_registry) ''a'' = Inr \<lparr>rp_relative = ''a'', rp_canonical = ''/w/a'', rp_info = True\<rparr>"
    by code_simp
  have v: "utf8_valid (''abcd'' @ [CHR 0xC3, CHR 0xA9])" by code_simp
  have k: "is_regular (dk_stat demo_disk ''/w/a'')" "dk_open demo_disk ''/w/a'' = Inr ([''abcd'' @ [CHR 0xC3], [CHR 0xA9]], None)"
    by (simp_all add: demo_disk_def is_regular_def)
  have s: "to_Success ?y"
    by (rule mp [OF conjunct2 [OF read_file_is_faithful [OF l]]]) (use w k v in auto)
  have "shows_file id 5 ''a'' (''abcd'' @ [CHR 0xC3, CHR 0xA9]) ?y"
    using mp [OF conjunct1 [OF read_file_is_faithful [OF l]] s] w k by (auto simp: small_registry_def)
  moreover from this have "to_Truncated ?y" by (auto simp: shows_file_def)
  ultimately show ?thesis using s by blast
qed

section \<open>Listings and the observer\<close>

lemma list_entries_shape:
  "list_entries ctx d p i ns = Inr es \<Longrightarrow> map fe_Path es = map (filepath_Join (rp_relative p)) ns"
  by (induction ns arbitrary: i es) (auto split: option.splits sum.splits)

text \<open>A listing shows the first entries by name, at most the limit, and says when there are more.\<close>

lemma listing_is_bounded:
  assumes "to_Success (executeListFiles r ctx d x path)" "\<not> to_Success x"
  shows "\<exists>p names es. workspace_resolve (dk_fs d) (rg_workspace r) path = Inr p \<and> rp_info p \<and> dk_readdir d (rp_canonical p) = Inr names
     \<and> to_Data (executeListFiles r ctx d x path) = ListResult (rp_relative p) es
     \<and> map fe_Path es = take (nat (lt_MaxListEntries (rg_limits r))) (map (filepath_Join (rp_relative p)) (sort names))
     \<and> (to_Truncated (executeListFiles r ctx d x path) \<longleftrightarrow> nat (lt_MaxListEntries (rg_limits r)) < length names)"
proof -
  obtain p names es where l: "workspace_resolve (dk_fs d) (rg_workspace r) path = Inr p" "rp_info p" "dk_readdir d (rp_canonical p) = Inr names"
    "list_entries ctx d p 0 (sort names) = Inr es"
    "executeListFiles r ctx d x path = (let shown = take (nat (lt_MaxListEntries (rg_limits r))) es
       in succeeded (ListResult (rp_relative p) shown) (length shown < length es)
            ((plain_metadata ToolListFiles)\<lparr>md_Untrusted := True, md_Path := rp_relative p,
               md_EntriesOriginal := int (length es), md_EntriesReturned := int (length shown)\<rparr>) x)"
    using assms by (auto simp: executeListFiles_def failed_def split: sum.splits if_splits)
  have "length es = length names" using arg_cong [OF list_entries_shape [OF l(4)], of length] by simp
  then show ?thesis using l(1-3,5) list_entries_shape [OF l(4)]
    by (intro exI [of _ p] exI [of _ names] exI [of _ "take (nat (lt_MaxListEntries (rg_limits r))) es"]) (simp add: Let_def succeeded_def take_map [symmetric] min_less_iff_disj)
qed

text \<open>The hash a read reports is the one the observer of the verifier sees.\<close>

lemma read_hash_is_observed:
  assumes "0 \<le> lt_MaxReadBytes (rg_limits r)" "\<not> to_Success x" "to_Success (executeReadFile sha256hex r ctx d x path)"
  shows "\<exists>f. to_Data (executeReadFile sha256hex r ctx d x path) = FileResult f \<and> FileSHA256 sha256hex (Some r) d path = (fd_SHA256 f, True, None)"
proof -
  obtain p cs where p: "workspace_resolve (dk_fs d) (rg_workspace r) path = Inr p" "dk_open d (rp_canonical p) = Inr (cs, None)"
    "shows_file sha256hex (lt_MaxReadBytes (rg_limits r)) (rp_relative p) (concat cs) (executeReadFile sha256hex r ctx d x path)"
    using read_file_success [OF assms] by blast
  then show ?thesis by (auto simp: shows_file_def FileSHA256_def ResolveWorkspacePath_def hashFile_def)
qed

end
