(* ===== verification/Tool_Write.thy ===== *)
theory Tool_Write
  imports Tool_Read
begin

text \<open>
  The write tools (\<open>tools/write.go\<close>, \<open>write_file.go\<close>): the target of a write, its stale-state precondition, the effect
  with its two revalidations, the plan persisted before it and the classification of an interrupted write. A write
  looks at the disk several times, and each look may find another disk; the effect is the rename that took
  place: the path, the content and the mode of the new file.
\<close>

section \<open>Targets\<close>

record writePath =
  wp_relative :: string
  wp_canonical :: string
  wp_exists :: bool
  wp_mode :: nat

definition resolveWrite :: "Disk \<Rightarrow> workspace \<Rightarrow> string \<Rightarrow> FailureCode + writePath" where
  "resolveWrite d w input =
     (case NormalizeWorkspacePath input of
        Inl e \<Rightarrow> Inl e
      | Inr relative \<Rightarrow>
          (let candidate = filepath_Join (ws_root w) relative
           in if \<not> within (ws_root w) candidate then Inl FailurePathTraversal
              else (case fs_evalSymlinks (dk_fs d) (filepath_Dir candidate) of
                  Inl e \<Rightarrow> Inl (fs_failure e)
                | Inr evaluated \<Rightarrow>
                    (case Abs (dk_fs d) evaluated of
                       Inl e \<Rightarrow> Inl FailureReadFailure
                     | Inr parentCanonical \<Rightarrow>
                         if \<not> within (ws_root w) parentCanonical then Inl FailureSymlinkEscape
                         else (let target = filepath_Join parentCanonical (filepath_Base candidate);
                                   found = (\<lambda>ex m. Inr \<lparr>wp_relative = relative, wp_canonical = Clean target, wp_exists = ex, wp_mode = m\<rparr>)
                               in case dk_lstat d target of
                                    Inl e \<Rightarrow> if e = ErrNotExist then found False 0 else Inl FailureReadFailure
                                  | Inr KindSymlink \<Rightarrow> Inl FailureSymlinkEscape
                                  | Inr (KindRegular m _) \<Rightarrow> found True m
                                  | Inr _ \<Rightarrow> Inl FailureWrongType)))))"

text \<open>The state of a target: its hash, or that it is absent.\<close>

definition current_state :: "(string \<Rightarrow> string) \<Rightarrow> Disk \<Rightarrow> writePath \<Rightarrow> FailureCode + string" where
  "current_state sha256hex d p =
     (if wp_exists p
      then (case hashFile sha256hex d (wp_canonical p) of (h, present, err) \<Rightarrow> if err \<or> \<not> present then Inl FailureReadFailure else Inr h)
      else Inr AbsentBeforeHash)"

definition readBoundedPrefix :: "Disk \<Rightarrow> string \<Rightarrow> int \<Rightarrow> string" where
  "readBoundedPrefix d p limit =
     (case dk_open d p of Inl _ \<Rightarrow> [] | Inr (cs, _) \<Rightarrow> take (nat (if limit \<le> 0 then 65536 else limit)) (concat cs))"

text \<open>The two looks of a revalidation: where the path leads, and what is there.\<close>

definition revalidateWriteTarget :: "(string \<Rightarrow> string) \<Rightarrow> workspace \<Rightarrow> Disk \<Rightarrow> Disk \<Rightarrow> string \<Rightarrow> string \<Rightarrow> writePath \<Rightarrow> FailureCode option" where
  "revalidateWriteTarget sha256hex w d d' path expectedBefore original =
     (case resolveWrite d w path of
        Inl e \<Rightarrow> Some e
      | Inr p \<Rightarrow>
          if wp_canonical p \<noteq> wp_canonical original then Some FailureSymlinkEscape
          else (case current_state sha256hex d' p of
              Inl e \<Rightarrow> Some e
            | Inr current \<Rightarrow> if current \<noteq> expectedBefore then Some FailureStaleState else None))"

section \<open>The effect\<close>

text \<open>What a write meets: the disk at each look before the effect and when the result is observed, the context at its
  two checks, and the errors of the temporary file and of the rename.\<close>

record WriteWorld =
  wl_disk :: "nat \<Rightarrow> Disk"
  wl_after :: Disk
  wl_ctx :: context_state
  wl_ctxRename :: context_state
  wl_temp :: "fs_error option"
  wl_rename :: "fs_error option"

type_synonym write_effect = "(string \<times> string \<times> nat) option"

definition writeEffectFailure :: "fs_error \<Rightarrow> FailureCode" where
  "writeEffectFailure e = (if e = ErrNotExist then FailurePathNotFound else FailureWriteFailure)"

definition file_mode :: "nat \<Rightarrow> nat" where
  "file_mode existingMode = (if existingMode \<noteq> 0 then existingMode mod 512 else 420)"

definition atomicWrite :: "WriteWorld \<Rightarrow> string \<Rightarrow> string \<Rightarrow> nat \<Rightarrow> FailureCode option \<Rightarrow> FailureCode option \<times> write_effect" where
  "atomicWrite wl path content existingMode revalidated =
     (case wl_temp wl of
        Some e \<Rightarrow> (Some (writeEffectFailure e), None)
      | None \<Rightarrow>
          if contextFailure (wl_ctxRename wl) \<noteq> None then (Some FailureWriteFailure, None)
          else (case revalidated of
              Some e \<Rightarrow> (Some e, None)
            | None \<Rightarrow>
                (case wl_rename wl of
                   Some e \<Rightarrow> (Some (writeEffectFailure e), None)
                 | None \<Rightarrow> (None, Some (path, content, file_mode existingMode)))))"

definition changeKindFor :: "string \<Rightarrow> string \<Rightarrow> string" where
  "changeKindFor before after =
     (if before = AbsentBeforeHash then ''created'' else if before = after then ''unchanged'' else ''modified'')"

definition outcomeFor :: "string \<Rightarrow> string \<Rightarrow> string" where
  "outcomeFor before after = (if before = after then ''noop'' else ''success'')"

definition write_evidence :: "string \<Rightarrow> string \<Rightarrow> string \<Rightarrow> int \<Rightarrow> string \<times> int \<times> bool \<Rightarrow> WriteEvidence" where
  "write_evidence path before after n diff =
     \<lparr>we_Path = path, we_BeforeHash = before, we_AfterHash = after, we_ByteCount = n, we_ChangeKind = changeKindFor before after,
      we_Outcome = outcomeFor before after, we_Diff = fst diff, we_DiffTruncated = snd (snd diff), we_DiffBytes = fst (snd diff),
      we_ActionID = [], we_ExecutionID = [], we_EvidenceID = []\<rparr>"

text \<open>From the second check of the context on: revalidation, the effect if the content changes, and the observation of
  the result. Both tools end so.\<close>

definition perform_write :: "(string \<Rightarrow> string) \<Rightarrow> Registry \<Rightarrow> WriteWorld \<Rightarrow> string \<Rightarrow> string \<Rightarrow> writePath \<Rightarrow> nat \<Rightarrow> bool \<Rightarrow> string \<Rightarrow> string \<Rightarrow>
    string \<times> int \<times> bool \<Rightarrow> (FailureCode + WriteEvidence) \<times> write_effect" where
  "perform_write sha256hex r wl path expectedBefore resolved mode changed before content diff =
     (let look = (\<lambda>i. revalidateWriteTarget sha256hex (rg_workspace r) (wl_disk wl i) (wl_disk wl (Suc i)) path expectedBefore resolved);
          after = (if changed then sha256hex content else before)
      in case contextFailure (wl_ctx wl) of
           Some e \<Rightarrow> (Inl e, None)
         | None \<Rightarrow>
             (case look 4 of
                Some e \<Rightarrow> (Inl e, None)
              | None \<Rightarrow>
                  (case (if changed then atomicWrite wl (wp_canonical resolved) content mode (look 6) else (look 6, None)) of
                     (Some e, eff) \<Rightarrow> (Inl e, eff)
                   | (None, eff) \<Rightarrow>
                       (case hashFile sha256hex (wl_after wl) (wp_canonical resolved) of
                          (observed, present, err) \<Rightarrow>
                            if err \<or> \<not> present \<or> (changed \<and> observed \<noteq> after) then (Inl FailureWriteFailure, eff)
                            else (Inr (write_evidence (wp_relative resolved) before observed (int (length content)) diff), eff)))))"

definition executeWriteFile :: "(string \<Rightarrow> string) \<Rightarrow> Registry \<Rightarrow> WriteWorld \<Rightarrow> string \<Rightarrow> string \<Rightarrow> string \<Rightarrow> (FailureCode + WriteEvidence) \<times> write_effect" where
  "executeWriteFile sha256hex r wl path content expectedBefore =
     (case resolveWrite (wl_disk wl 0) (rg_workspace r) path of
        Inl e \<Rightarrow> (Inl e, None)
      | Inr resolved \<Rightarrow>
          (case current_state sha256hex (wl_disk wl 1) resolved of
             Inl e \<Rightarrow> (Inl e, None)
           | Inr before \<Rightarrow>
               if before \<noteq> expectedBefore then (Inl FailureStaleState, None)
               else (let changed = (before \<noteq> sha256hex content);
                         beforeContent = (if wp_exists resolved then readBoundedPrefix (wl_disk wl 2) (wp_canonical resolved) (lt_MaxDiffBytes (rg_limits r) * 2) else []);
                         diff = (if changed then boundedDiff (replacementDiffText (wp_relative resolved) beforeContent content) (lt_MaxDiffBytes (rg_limits r))
                                 else ([], 0, False))
                     in perform_write sha256hex r wl path expectedBefore resolved (if wp_exists resolved then wp_mode resolved else 0)
                          changed before content diff)))"

definition executeApplyPatch :: "(string \<Rightarrow> string) \<Rightarrow> Registry \<Rightarrow> WriteWorld \<Rightarrow> string \<Rightarrow> string \<Rightarrow> string \<Rightarrow> (FailureCode + WriteEvidence) \<times> write_effect" where
  "executeApplyPatch sha256hex r wl path patch expectedBefore =
     (case resolveWrite (wl_disk wl 0) (rg_workspace r) path of
        Inl e \<Rightarrow> (Inl e, None)
      | Inr resolved \<Rightarrow>
          if \<not> wp_exists resolved then (Inl FailurePathNotFound, None)
          else (case current_state sha256hex (wl_disk wl 1) resolved of
              Inl e \<Rightarrow> (Inl e, None)
            | Inr before \<Rightarrow>
                if before \<noteq> expectedBefore then (Inl FailureStaleState, None)
                else if lt_MaxPatchTargetBytes (rg_limits r) < fileSize (wl_disk wl 2) (wp_canonical resolved) then (Inl FailureWriteTooLarge, None)
                else (case ReadFile (wl_disk wl 3) (wp_canonical resolved) of
                    None \<Rightarrow> (Inl FailureReadFailure, None)
                  | Some current \<Rightarrow>
                      (case applyPatch current patch (wp_relative resolved) (lt_MaxPatchTargetBytes (rg_limits r)) of
                         Inl e \<Rightarrow> (Inl (if e = PatchContentMismatch then FailureStaleState else FailureInvalidPatch), None)
                       | Inr patched \<Rightarrow>
                           perform_write sha256hex r wl path expectedBefore resolved (wp_mode resolved) (current \<noteq> patched) before patched
                             (boundedDiff patch (lt_MaxDiffBytes (rg_limits r)))))))"

text \<open>The observation of a write.\<close>

definition write_observation :: "string \<Rightarrow> FailureCode + WriteEvidence \<Rightarrow> ToolObservation \<Rightarrow> ToolObservation" where
  "write_observation tool result x =
     (case result of
        Inl e \<Rightarrow> failed e x
      | Inr v \<Rightarrow> succeeded (WriteResult v) False ((plain_metadata tool)\<lparr>md_Untrusted := True, md_Path := we_Path v, md_SizeBytes := we_ByteCount v,
          md_BytesOriginal := we_ByteCount v, md_BytesReturned := we_ByteCount v\<rparr>) x)"

section \<open>Plans and recovery\<close>

record PlannedEffect =
  pe_Diff :: string
  pe_DiffBytes :: int
  pe_DiffTruncated :: bool

record PlannedWrite =
  pw_AfterHash :: string
  pw_Effect :: PlannedEffect

definition no_effect :: PlannedEffect where
  "no_effect = \<lparr>pe_Diff = [], pe_DiffBytes = 0, pe_DiffTruncated = False\<rparr>"

definition effect_of :: "string \<times> int \<times> bool \<Rightarrow> PlannedEffect" where
  "effect_of d = \<lparr>pe_Diff = fst d, pe_DiffBytes = fst (snd d), pe_DiffTruncated = snd (snd d)\<rparr>"

definition no_plan :: PlannedWrite where
  "no_plan = \<lparr>pw_AfterHash = [], pw_Effect = no_effect\<rparr>"

definition PlanWrite :: "(string \<Rightarrow> string) \<Rightarrow> Registry \<Rightarrow> Disk \<Rightarrow> Action \<Rightarrow> PlannedWrite" where
  "PlanWrite sha256hex r d a =
     (let args = act_Arguments a; limit = lt_MaxDiffBytes (rg_limits r)
      in if act_Tool a = ToolWriteFile
         then (case (stringArgument args ''path'', stringArgumentAllowEmpty args ''content'') of
             (Inr path, Inr content) \<Rightarrow>
               if lt_MaxWriteBytes (rg_limits r) < int (length content) then no_plan
               else \<lparr>pw_AfterHash = sha256hex content,
                     pw_Effect = (case resolveWrite d (rg_workspace r) path of
                         Inl _ \<Rightarrow> no_effect
                       | Inr p \<Rightarrow>
                           (let beforeContent = (if wp_exists p then readBoundedPrefix d (wp_canonical p) (limit * 2) else [])
                            in if beforeContent \<noteq> content then effect_of (boundedDiff (replacementDiffText (wp_relative p) beforeContent content) limit)
                               else no_effect))\<rparr>
           | _ \<Rightarrow> no_plan)
         else if act_Tool a = ToolApplyPatch
         then (case (stringArgument args ''path'', stringArgumentAllowEmpty args ''patch'') of
             (Inr path, Inr patch) \<Rightarrow>
               if is_blank patch then no_plan
               else (let effect = effect_of (boundedDiff patch limit)
                     in \<lparr>pw_AfterHash = (case resolveWrite d (rg_workspace r) path of
                             Inl _ \<Rightarrow> []
                           | Inr p \<Rightarrow>
                               if \<not> wp_exists p then []
                               else (case ReadFile d (wp_canonical p) of
                                   None \<Rightarrow> []
                                 | Some current \<Rightarrow>
                                     (case applyPatch current patch (wp_relative p) (lt_MaxPatchTargetBytes (rg_limits r)) of
                                        Inl _ \<Rightarrow> [] | Inr patched \<Rightarrow> sha256hex patched))),
                         pw_Effect = effect\<rparr>)
           | _ \<Rightarrow> no_plan)
         else no_plan)"

record writeIntentArguments =
  wi_Path :: string
  wi_Content :: string
  wi_Patch :: string
  wi_ExpectedBeforeHash :: string

record WriteIntent =
  in_Tool :: string
  in_Arguments :: string
  in_ExpectedAfterHash :: string
  in_PlannedEffect :: PlannedEffect

definition decodeWriteIntent :: "string \<Rightarrow> string \<Rightarrow> FailureCode + writeIntentArguments" where
  "decodeWriteIntent tool arguments =
     (case json_parse arguments of
        Some (JObj ps) \<Rightarrow>
          (let raw = to_map ps
           in case (stringArgument raw ''path'', stringArgument raw ''expected_before_hash'') of
                (Inr path, Inr expected) \<Rightarrow>
                  (let decoded = \<lparr>wi_Path = path, wi_Content = [], wi_Patch = [], wi_ExpectedBeforeHash = expected\<rparr>
                   in if tool = ToolWriteFile
                      then (case stringArgumentAllowEmpty raw ''content'' of Inl e \<Rightarrow> Inl e | Inr c \<Rightarrow> Inr (decoded\<lparr>wi_Content := c\<rparr>))
                      else if tool = ToolApplyPatch
                      then (case stringArgumentAllowEmpty raw ''patch'' of
                          Inl e \<Rightarrow> Inl e
                        | Inr p \<Rightarrow> if is_blank p then Inl FailureInvalidArguments else Inr (decoded\<lparr>wi_Patch := p\<rparr>))
                      else Inl FailureInvalidArguments)
              | (Inl e, _) \<Rightarrow> Inl e
              | (Inr _, Inl e) \<Rightarrow> Inl e)
      | _ \<Rightarrow> Inl FailureInvalidArguments)"

datatype ReconcileStatus = ReconcileNotStarted | ReconcileCompleted | ReconcileHumanReview

record ReconcileResult =
  rl_Status :: ReconcileStatus
  rl_Evidence :: "WriteEvidence option"
  rl_Failure :: "FailureCode option"

definition reconcile_result :: "ReconcileStatus \<Rightarrow> WriteEvidence option \<Rightarrow> FailureCode option \<Rightarrow> ReconcileResult" where
  "reconcile_result st v e = \<lparr>rl_Status = st, rl_Evidence = v, rl_Failure = e\<rparr>"

definition ReconcileWrite :: "(string \<Rightarrow> string) \<Rightarrow> Disk \<Rightarrow> string \<Rightarrow> WriteIntent \<Rightarrow> ReconcileResult" where
  "ReconcileWrite sha256hex d workspaceRoot intent =
     (case newWorkspace (dk_fs d) workspaceRoot of
        None \<Rightarrow> reconcile_result ReconcileHumanReview None (Some FailureReadFailure)
      | Some w \<Rightarrow>
          (case decodeWriteIntent (in_Tool intent) (in_Arguments intent) of
             Inl e \<Rightarrow> reconcile_result ReconcileHumanReview None (Some e)
           | Inr decoded \<Rightarrow>
               (case resolveWrite d w (wi_Path decoded) of
                  Inl e \<Rightarrow> reconcile_result ReconcileHumanReview None (Some e)
                | Inr p \<Rightarrow>
                    (case current_state sha256hex d p of
                       Inl e \<Rightarrow> reconcile_result ReconcileHumanReview None (Some e)
                     | Inr before \<Rightarrow>
                         if before = wi_ExpectedBeforeHash decoded then reconcile_result ReconcileNotStarted None None
                         else if in_ExpectedAfterHash intent \<noteq> [] \<and> before = in_ExpectedAfterHash intent
                         then reconcile_result ReconcileCompleted
                           (Some \<lparr>we_Path = wp_relative p, we_BeforeHash = wi_ExpectedBeforeHash decoded, we_AfterHash = before,
                              we_ByteCount = (if wp_exists p then fileSize d (wp_canonical p) else -1),
                              we_ChangeKind = (if wi_ExpectedBeforeHash decoded = AbsentBeforeHash then ''created'' else ''modified''),
                              we_Outcome = ''success'', we_Diff = pe_Diff (in_PlannedEffect intent),
                              we_DiffTruncated = pe_DiffTruncated (in_PlannedEffect intent), we_DiffBytes = pe_DiffBytes (in_PlannedEffect intent),
                              we_ActionID = [], we_ExecutionID = [], we_EvidenceID = []\<rparr>) None
                         else reconcile_result ReconcileHumanReview None None))))"

section \<open>Targets are inside\<close>

lemma Split_append: "Split c (s @ c # t) = Split c s @ Split c t"
  by (induction s) (auto split: list.splits)

lemma clean_elems_append: "clean_elems rooted stack (xs @ ys) = clean_elems rooted (rev (clean_elems rooted stack xs)) ys"
proof (induction xs arbitrary: stack)
  case (Cons x xs)
  then show ?case by (cases stack) simp_all
qed simp

lemma clean_elems_all:
  "P ''..'' \<Longrightarrow> list_all P stack \<Longrightarrow> \<forall>c \<in> set cs. c \<noteq> [] \<longrightarrow> P c \<Longrightarrow> list_all P (clean_elems rooted stack cs)"
proof (induction cs arbitrary: stack)
  case (Cons c cs)
  then show ?case by (cases stack) simp_all
qed (simp add: list_all_iff)

lemma Join_first: "xs \<noteq> [] \<Longrightarrow> hd xs \<noteq> [] \<Longrightarrow> hd (Join sep xs) = hd (hd xs) \<and> Join sep xs \<noteq> []"
  by (cases xs; cases "tl xs") auto

lemma IsAbs_Clean: "IsAbs (Clean p) \<Longrightarrow> IsAbs p"
proof (rule ccontr)
  assume a: "IsAbs (Clean p)" and n: "\<not> IsAbs p"
  let ?cs = "clean_elems False [] (Split (CHR ''/'') p)"
  have "list_all (\<lambda>c. c \<noteq> [] \<and> CHR ''/'' \<notin> set c) ?cs"
    by (rule clean_elems_all) (simp_all add: Split_elements)
  then have parts: "\<forall>c \<in> set ?cs. c \<noteq> [] \<and> CHR ''/'' \<notin> set c" by (simp add: list_all_iff)
  have c: "Clean p = (if Join ''/'' ?cs = [] then ''.'' else Join ''/'' ?cs)" using n by (simp add: Clean_def Let_def)
  show False
  proof (cases "?cs = []")
    case True
    then show ?thesis using a c by (simp add: IsAbs_iff)
  next
    case False
    then have "hd ?cs \<noteq> []" "CHR ''/'' \<notin> set (hd ?cs)" using parts by auto
    then have "hd (hd ?cs) \<noteq> CHR ''/''" by (cases "hd ?cs") auto
    then show ?thesis using a c Join_first [OF False \<open>hd ?cs \<noteq> []\<close>, of "''/''"] by (simp add: IsAbs_iff)
  qed
qed

lemma rooted_proper: "IsAbs q \<Longrightarrow> list_all proper (clean_elems True [] (Split (CHR ''/'') q))"
  by (rule clean_elems_rooted) (auto dest: Split_elements)

lemma Clean_rooted: "IsAbs q \<Longrightarrow> Clean q = ''/'' @ Join ''/'' (clean_elems True [] (Split (CHR ''/'') q))"
  by (simp add: Clean_def Let_def)

lemma elems_Clean:
  assumes "IsAbs q"
  shows "elems (Clean q) = clean_elems True [] (Split (CHR ''/'') q)"
proof -
  let ?cs = "clean_elems True [] (Split (CHR ''/'') q)"
  have p: "\<forall>c \<in> set ?cs. proper c" using rooted_proper [OF assms] by (simp add: list_all_iff)
  show ?thesis
  proof (cases "?cs = []")
    case True
    then show ?thesis using Clean_rooted [OF assms] by (simp add: elems_def)
  next
    case False
    have "filter (\<lambda>c. c \<noteq> []) ?cs = ?cs" using p by (intro filter_True) (auto simp: proper_def)
    then show ?thesis using Clean_rooted [OF assms] Split_proper [OF False p] by (simp add: elems_def)
  qed
qed

lemma Join_last: "cs \<noteq> [] \<Longrightarrow> \<exists>t. ''/'' @ Join ''/'' cs = t @ CHR ''/'' # last cs"
proof (induction cs)
  case (Cons c cs)
  show ?case
  proof (cases "cs = []")
    case False
    then obtain t where "''/'' @ Join ''/'' cs = t @ CHR ''/'' # last cs" using Cons.IH by blast
    moreover have "Join ''/'' (c # cs) = c @ ''/'' @ Join ''/'' cs" using False by (cases cs) auto
    ultimately show ?thesis using False by (intro exI [of _ "''/'' @ c @ t"]) simp
  qed simp
qed simp

lemma Base_rooted:
  assumes "IsAbs q"
  shows "proper (filepath_Base (Clean q)) \<or> filepath_Base (Clean q) = ''/''"
proof -
  let ?cs = "clean_elems True [] (Split (CHR ''/'') q)"
  show ?thesis
  proof (cases "?cs = []")
    case True
    then show ?thesis using Clean_rooted [OF assms] by (simp add: filepath_Base_def)
  next
    case False
    then have l: "proper (last ?cs)" using rooted_proper [OF assms] by (simp add: list_all_iff)
    obtain t where t: "Clean q = t @ CHR ''/'' # last ?cs" using Join_last [OF False] Clean_rooted [OF assms] by metis
    have n: "rev (last ?cs) \<noteq> []" "CHR ''/'' \<notin> set (rev (last ?cs))" using l by (auto simp: proper_def)
    then have "dropWhile (\<lambda>c. c = CHR ''/'') (rev (Clean q)) = rev (last ?cs) @ CHR ''/'' # rev t" unfolding t by (cases "rev (last ?cs)") auto
    moreover have "takeWhile (\<lambda>c. c \<noteq> CHR ''/'') (rev (last ?cs) @ CHR ''/'' # rev t) = rev (last ?cs)"
      using n(2) by (subst takeWhile_append2) auto
    ultimately have "filepath_Base (Clean q) = last ?cs" using n t by (simp add: filepath_Base_def)
    then show ?thesis using l by simp
  qed
qed

lemma resolveWrite_cases:
  assumes "resolveWrite d w input = Inr p"
  obtains relative parent where "NormalizeWorkspacePath input = Inr relative" "within (ws_root w) parent"
    "\<exists>e. fs_evalSymlinks (dk_fs d) (filepath_Dir (filepath_Join (ws_root w) relative)) = Inr e \<and> Abs (dk_fs d) e = Inr parent"
    "wp_relative p = relative" "wp_canonical p = Clean (filepath_Join parent (filepath_Base (filepath_Join (ws_root w) relative)))"
    "within (ws_root w) (filepath_Join (ws_root w) relative)"
  using assms by (auto simp: resolveWrite_def Let_def split: sum.splits if_splits FileKind.splits)

lemma write_targets_inside:
  assumes "resolveWrite d w input = Inr p" "IsAbs (Clean (ws_root w))"
  shows "IsAbs (wp_canonical p) \<and> prefix (elems (Clean (ws_root w))) (elems (wp_canonical p))"
proof -
  obtain relative parent where r: "within (ws_root w) parent"
    "wp_canonical p = Clean (filepath_Join parent (filepath_Base (filepath_Join (ws_root w) relative)))"
    using assms(1) by (rule resolveWrite_cases)
  let ?b = "filepath_Base (filepath_Join (ws_root w) relative)"
  have root: "IsAbs (ws_root w)" using IsAbs_Clean [OF assms(2)] .
  have par: "IsAbs parent" using IsAbs_Clean [OF within_prefix(1) [OF r(1) assms(2)]] .
  have "IsAbs (ws_root w @ ''/'' @ relative)" "filepath_Join (ws_root w) relative = Clean (ws_root w @ ''/'' @ relative)"
    using root by (auto simp: filepath_Join_def IsAbs_iff)
  then have b: "proper ?b \<or> ?b = ''/''" using Base_rooted by metis
  let ?t = "parent @ ''/'' @ ?b"
  have t: "IsAbs ?t" "filepath_Join parent ?b = Clean ?t" using par by (auto simp: filepath_Join_def IsAbs_iff)
  have canon: "wp_canonical p = Clean ?t" using r(2) t Clean_again by simp
  have "Split (CHR ''/'') ?t = Split (CHR ''/'') parent @ Split (CHR ''/'') ?b" using Split_append [of "CHR ''/''" parent ?b] by simp
  then have "elems (wp_canonical p) = clean_elems True (rev (clean_elems True [] (Split (CHR ''/'') parent))) (Split (CHR ''/'') ?b)"
    using canon elems_Clean [OF t(1)] clean_elems_append by simp
  also have "prefix (clean_elems True [] (Split (CHR ''/'') parent)) \<dots>"
    using b by (auto simp: proper_def Split_no_sep)
  finally have "prefix (elems (Clean parent)) (elems (wp_canonical p))" using elems_Clean [OF par] by simp
  moreover have "IsAbs (wp_canonical p)" unfolding canon using Clean_rooted [OF t(1)] by (simp add: IsAbs_iff)
  ultimately show ?thesis using within_prefix(2) [OF r(1) assms(2)] prefix_order.trans by blast
qed

section \<open>What a write does\<close>

lemma atomicWrite_effect:
  "atomicWrite wl path content m rv = (res, eff) \<Longrightarrow>
     (eff = None \<or> (eff = Some (path, content, file_mode m) \<and> rv = None \<and> wl_ctxRename wl = ContextAlive \<and> wl_temp wl = None \<and> wl_rename wl = None))
     \<and> (res = None \<longleftrightarrow> eff \<noteq> None)"
  by (auto simp: atomicWrite_def contextFailure_def split: option.splits if_splits context_state.splits)

text \<open>What holds of the result of a write.\<close>

definition write_sound :: "(string \<Rightarrow> string) \<Rightarrow> Registry \<Rightarrow> WriteWorld \<Rightarrow> string \<Rightarrow> string \<Rightarrow> writePath \<Rightarrow> bool \<Rightarrow> string \<Rightarrow> string \<Rightarrow>
    (FailureCode + WriteEvidence) \<times> write_effect \<Rightarrow> bool" where
  "write_sound sha256hex r wl path expected resolved changed before content y \<longleftrightarrow>
     (\<forall>e. fst y = Inl e \<longrightarrow> e \<noteq> FailureWriteFailure \<longrightarrow> snd y = None)
     \<and> (\<forall>p c m. snd y = Some (p, c, m) \<longrightarrow> changed \<and> p = wp_canonical resolved \<and> c = content
          \<and> wl_ctx wl = ContextAlive \<and> wl_ctxRename wl = ContextAlive
          \<and> revalidateWriteTarget sha256hex (rg_workspace r) (wl_disk wl 4) (wl_disk wl 5) path expected resolved = None
          \<and> revalidateWriteTarget sha256hex (rg_workspace r) (wl_disk wl 6) (wl_disk wl 7) path expected resolved = None)
     \<and> (\<forall>v. fst y = Inr v \<longrightarrow> (snd y \<noteq> None \<longleftrightarrow> changed)
          \<and> hashFile sha256hex (wl_after wl) (wp_canonical resolved) = (we_AfterHash v, True, False)
          \<and> (changed \<longrightarrow> we_AfterHash v = sha256hex content) \<and> we_BeforeHash v = before \<and> we_Path v = wp_relative resolved
          \<and> we_ByteCount v = int (length content))"

lemma perform_write_sound:
  "write_sound sha256hex r wl path expected resolved changed before content
     (perform_write sha256hex r wl path expected resolved mode changed before content diff)"
proof -
  let ?look = "\<lambda>i. revalidateWriteTarget sha256hex (rg_workspace r) (wl_disk wl i) (wl_disk wl (Suc i)) path expected resolved"
  define eff where "eff = (if changed then atomicWrite wl (wp_canonical resolved) content mode (?look 6) else (?look 6, None))"
  obtain h present err where h: "hashFile sha256hex (wl_after wl) (wp_canonical resolved) = (h, present, err)" by (cases "hashFile sha256hex (wl_after wl) (wp_canonical resolved)")
  have y: "perform_write sha256hex r wl path expected resolved mode changed before content diff =
      (case contextFailure (wl_ctx wl) of
         Some e \<Rightarrow> (Inl e, None)
       | None \<Rightarrow>
           (case ?look 4 of
              Some e \<Rightarrow> (Inl e, None)
            | None \<Rightarrow>
                (case eff of
                   (Some e, f) \<Rightarrow> (Inl e, f)
                 | (None, f) \<Rightarrow>
                     if err \<or> \<not> present \<or> (changed \<and> h \<noteq> (if changed then sha256hex content else before)) then (Inl FailureWriteFailure, f)
                     else (Inr (write_evidence (wp_relative resolved) before h (int (length content)) diff), f))))"
    by (simp only: perform_write_def Let_def eff_def h prod.case)
  show ?thesis
  proof (cases "contextFailure (wl_ctx wl)")
    case (Some e)
    then show ?thesis unfolding y by (simp add: write_sound_def)
  next
    case alive: None
    then have a: "wl_ctx wl = ContextAlive" by (cases "wl_ctx wl") (simp_all add: contextFailure_def)
    show ?thesis
    proof (cases "?look 4")
      case (Some e)
      then show ?thesis unfolding y alive by (simp add: write_sound_def)
    next
      case l4: None
      obtain res f where f: "eff = (res, f)" by fastforce
      have e: "(f = None \<or> (changed \<and> f = Some (wp_canonical resolved, content, file_mode mode) \<and> ?look 6 = None \<and> wl_ctxRename wl = ContextAlive))
          \<and> (res \<noteq> None \<longrightarrow> f = None) \<and> (res = None \<longrightarrow> (f \<noteq> None \<longleftrightarrow> changed))"
        using f atomicWrite_effect [of wl "wp_canonical resolved" content mode "?look 6" res f] by (auto simp: eff_def split: if_splits)
      show ?thesis
      proof (cases res)
        case (Some e')
        then show ?thesis using e unfolding y alive l4 f by (simp add: write_sound_def)
      next
        case None
        have "revalidateWriteTarget sha256hex (rg_workspace r) (wl_disk wl 4) (wl_disk wl 5) path expected resolved = None" using l4 by simp
        then show ?thesis using None e a h unfolding y alive l4 f
          by (auto simp: write_sound_def write_evidence_def)
      qed
    qed
  qed
qed

lemma executeWriteFile_sound:
  assumes "resolveWrite (wl_disk wl 0) (rg_workspace r) path = Inr resolved" "current_state sha256hex (wl_disk wl 1) resolved = Inr expected"
  shows "write_sound sha256hex r wl path expected resolved (expected \<noteq> sha256hex content) expected content
     (executeWriteFile sha256hex r wl path content expected)"
  using assms perform_write_sound by (simp add: executeWriteFile_def Let_def)

lemma executeWriteFile_starts:
  "executeWriteFile sha256hex r wl path content expected = (res, eff) \<Longrightarrow> eff \<noteq> None \<or> (\<exists>v. res = Inr v) \<Longrightarrow>
     \<exists>resolved. resolveWrite (wl_disk wl 0) (rg_workspace r) path = Inr resolved \<and> current_state sha256hex (wl_disk wl 1) resolved = Inr expected"
  by (auto simp: executeWriteFile_def split: sum.splits if_splits)

lemma executeApplyPatch_starts:
  "executeApplyPatch sha256hex r wl path patch expected = (res, eff) \<Longrightarrow> eff \<noteq> None \<or> (\<exists>v. res = Inr v) \<Longrightarrow>
     \<exists>resolved current patched. resolveWrite (wl_disk wl 0) (rg_workspace r) path = Inr resolved \<and> wp_exists resolved
       \<and> current_state sha256hex (wl_disk wl 1) resolved = Inr expected
       \<and> ReadFile (wl_disk wl 3) (wp_canonical resolved) = Some current
       \<and> applyPatch current patch (wp_relative resolved) (lt_MaxPatchTargetBytes (rg_limits r)) = Inr patched
       \<and> write_sound sha256hex r wl path expected resolved (current \<noteq> patched) expected patched (res, eff)"
proof -
  assume a: "executeApplyPatch sha256hex r wl path patch expected = (res, eff)" and b: "eff \<noteq> None \<or> (\<exists>v. res = Inr v)"
  then obtain resolved current patched where p:
    "resolveWrite (wl_disk wl 0) (rg_workspace r) path = Inr resolved" "wp_exists resolved" "current_state sha256hex (wl_disk wl 1) resolved = Inr expected"
    "ReadFile (wl_disk wl 3) (wp_canonical resolved) = Some current"
    "applyPatch current patch (wp_relative resolved) (lt_MaxPatchTargetBytes (rg_limits r)) = Inr patched"
    "perform_write sha256hex r wl path expected resolved (wp_mode resolved) (current \<noteq> patched) expected patched (boundedDiff patch (lt_MaxDiffBytes (rg_limits r))) = (res, eff)"
    by (auto simp: executeApplyPatch_def split: sum.splits if_splits option.splits)
  have "write_sound sha256hex r wl path expected resolved (current \<noteq> patched) expected patched (res, eff)"
    using perform_write_sound p(6) by metis
  then show ?thesis using p by blast
qed

lemma revalidated:
  assumes "revalidateWriteTarget sha256hex w d d' path expected original = None"
  shows "\<exists>p. resolveWrite d w path = Inr p \<and> wp_canonical p = wp_canonical original \<and> current_state sha256hex d' p = Inr expected"
  using assms by (auto simp: revalidateWriteTarget_def split: sum.splits if_splits)

text \<open>The state in which a rename may happen: just before, the path leads to the target and the target is in the expected
  state, both contexts are alive, and the target is inside the workspace.\<close>

definition guarded_effect :: "(string \<Rightarrow> string) \<Rightarrow> Registry \<Rightarrow> WriteWorld \<Rightarrow> string \<Rightarrow> string \<Rightarrow> string \<Rightarrow> bool" where
  "guarded_effect sha256hex r wl path expected target \<longleftrightarrow>
     (\<exists>p. resolveWrite (wl_disk wl 6) (rg_workspace r) path = Inr p \<and> wp_canonical p = target \<and> current_state sha256hex (wl_disk wl 7) p = Inr expected)
     \<and> wl_ctx wl = ContextAlive \<and> wl_ctxRename wl = ContextAlive
     \<and> IsAbs target \<and> prefix (elems (Clean (ws_root (rg_workspace r)))) (elems target)"

lemma effect_guarded:
  assumes "write_sound sha256hex r wl path expected resolved changed before content (res, Some (p, c, m))" "IsAbs (Clean (ws_root (rg_workspace r)))"
  shows "guarded_effect sha256hex r wl path expected p \<and> c = content \<and> changed \<and> p = wp_canonical resolved"
proof -
  have e: "changed" "p = wp_canonical resolved" "c = content" "wl_ctx wl = ContextAlive" "wl_ctxRename wl = ContextAlive"
    "revalidateWriteTarget sha256hex (rg_workspace r) (wl_disk wl 6) (wl_disk wl 7) path expected resolved = None"
    using assms(1) by (auto simp: write_sound_def)
  obtain q where q: "resolveWrite (wl_disk wl 6) (rg_workspace r) path = Inr q" "wp_canonical q = p" "current_state sha256hex (wl_disk wl 7) q = Inr expected"
    using revalidated [OF e(6)] e(2) by blast
  show ?thesis using e q write_targets_inside [OF q(1) assms(2)] by (auto simp: guarded_effect_def)
qed

text \<open>C22: writes replace only the state the model saw, and only inside the workspace. Whatever happens to the disk
  between the looks, a rename by either tool puts the proposed content (of a patch, the patched content) at a
  target under the workspace root that the path led to, and that was in the state the precondition names, in the
  last look before it, while the run was not canceled; any failure but a write failure means no rename at all.\<close>

theorem writes_replace_the_expected_state:
  assumes "IsAbs (Clean (ws_root (rg_workspace r)))"
  shows "(\<forall>res p c m. executeWriteFile sha256hex r wl path content expected = (res, Some (p, c, m)) \<longrightarrow>
       c = content \<and> sha256hex content \<noteq> expected \<and> guarded_effect sha256hex r wl path expected p)
     \<and> (\<forall>res p c m. executeApplyPatch sha256hex r wl path patch expected = (res, Some (p, c, m)) \<longrightarrow>
       (\<exists>relative current. ReadFile (wl_disk wl 3) p = Some current \<and> current \<noteq> c
          \<and> applyPatch current patch relative (lt_MaxPatchTargetBytes (rg_limits r)) = Inr c) \<and> guarded_effect sha256hex r wl path expected p)
     \<and> (\<forall>e eff. executeWriteFile sha256hex r wl path content expected = (Inl e, eff) \<longrightarrow> e \<noteq> FailureWriteFailure \<longrightarrow> eff = None)
     \<and> (\<forall>e eff. executeApplyPatch sha256hex r wl path patch expected = (Inl e, eff) \<longrightarrow> e \<noteq> FailureWriteFailure \<longrightarrow> eff = None)"
proof (intro conjI allI impI)
  fix res p c m
  assume w: "executeWriteFile sha256hex r wl path content expected = (res, Some (p, c, m))"
  then obtain resolved where s: "write_sound sha256hex r wl path expected resolved (expected \<noteq> sha256hex content) expected content (res, Some (p, c, m))"
    using executeWriteFile_starts [OF w] executeWriteFile_sound by (metis option.distinct(1))
  show "c = content" "sha256hex content \<noteq> expected" "guarded_effect sha256hex r wl path expected p"
    using effect_guarded [OF s assms] by auto
next
  fix res p c m
  assume w: "executeApplyPatch sha256hex r wl path patch expected = (res, Some (p, c, m))"
  then obtain resolved current patched where s: "ReadFile (wl_disk wl 3) (wp_canonical resolved) = Some current"
    "applyPatch current patch (wp_relative resolved) (lt_MaxPatchTargetBytes (rg_limits r)) = Inr patched"
    "write_sound sha256hex r wl path expected resolved (current \<noteq> patched) expected patched (res, Some (p, c, m))"
    using executeApplyPatch_starts [OF w] by blast
  show "\<exists>relative current. ReadFile (wl_disk wl 3) p = Some current \<and> current \<noteq> c
      \<and> applyPatch current patch relative (lt_MaxPatchTargetBytes (rg_limits r)) = Inr c"
    "guarded_effect sha256hex r wl path expected p"
    using effect_guarded [OF s(3) assms] s(1,2) by auto
next
  fix e eff
  assume w: "executeWriteFile sha256hex r wl path content expected = (Inl e, eff)" and e: "e \<noteq> FailureWriteFailure"
  show "eff = None"
  proof (rule ccontr)
    assume n: "eff \<noteq> None"
    obtain resolved where "write_sound sha256hex r wl path expected resolved (expected \<noteq> sha256hex content) expected content (Inl e, eff)"
      using executeWriteFile_starts [OF w disjI1 [OF n]] executeWriteFile_sound w by metis
    then show False using e n by (simp add: write_sound_def)
  qed
next
  fix e eff
  assume w: "executeApplyPatch sha256hex r wl path patch expected = (Inl e, eff)" and e: "e \<noteq> FailureWriteFailure"
  show "eff = None"
  proof (rule ccontr)
    assume n: "eff \<noteq> None"
    then show False using executeApplyPatch_starts [OF w disjI1 [OF n]] e by (auto simp: write_sound_def)
  qed
qed

section \<open>Evidence\<close>

text \<open>Evidence of a write is observed, not assumed. When a tool reports success, the hash it reports is the hash of the
  complete target read after the effect, a rename took place exactly when the content changes, and then that hash is
  the hash of the new content; the reported state before is the precondition.\<close>

theorem write_evidence_is_observed:
  "(\<forall>v eff. executeWriteFile sha256hex r wl path content expected = (Inr v, eff) \<longrightarrow>
       (\<exists>q. resolveWrite (wl_disk wl 0) (rg_workspace r) path = Inr q \<and> hashFile sha256hex (wl_after wl) (wp_canonical q) = (we_AfterHash v, True, False)
         \<and> we_Path v = wp_relative q \<and> we_BeforeHash v = expected \<and> we_ByteCount v = int (length content)
         \<and> (eff \<noteq> None \<longleftrightarrow> expected \<noteq> sha256hex content) \<and> (eff \<noteq> None \<longrightarrow> we_AfterHash v = sha256hex content)))
     \<and> (\<forall>v eff. executeApplyPatch sha256hex r wl path patch expected = (Inr v, eff) \<longrightarrow>
       (\<exists>q current patched. resolveWrite (wl_disk wl 0) (rg_workspace r) path = Inr q \<and> ReadFile (wl_disk wl 3) (wp_canonical q) = Some current
         \<and> applyPatch current patch (wp_relative q) (lt_MaxPatchTargetBytes (rg_limits r)) = Inr patched
         \<and> hashFile sha256hex (wl_after wl) (wp_canonical q) = (we_AfterHash v, True, False)
         \<and> we_Path v = wp_relative q \<and> we_BeforeHash v = expected \<and> we_ByteCount v = int (length patched)
         \<and> (eff \<noteq> None \<longleftrightarrow> current \<noteq> patched) \<and> (eff \<noteq> None \<longrightarrow> we_AfterHash v = sha256hex patched)))"
proof (intro conjI allI impI)
  fix v eff
  assume w: "executeWriteFile sha256hex r wl path content expected = (Inr v, eff)"
  have i: "eff \<noteq> None \<or> (\<exists>v'. Inr v = (Inr v' :: FailureCode + WriteEvidence))" by blast
  obtain q where q: "resolveWrite (wl_disk wl 0) (rg_workspace r) path = Inr q" "current_state sha256hex (wl_disk wl 1) q = Inr expected"
    using executeWriteFile_starts [OF w i] by blast
  have "write_sound sha256hex r wl path expected q (expected \<noteq> sha256hex content) expected content (Inr v, eff)"
    using executeWriteFile_sound [OF q] w by metis
  then show "\<exists>q. resolveWrite (wl_disk wl 0) (rg_workspace r) path = Inr q \<and> hashFile sha256hex (wl_after wl) (wp_canonical q) = (we_AfterHash v, True, False)
         \<and> we_Path v = wp_relative q \<and> we_BeforeHash v = expected \<and> we_ByteCount v = int (length content)
         \<and> (eff \<noteq> None \<longleftrightarrow> expected \<noteq> sha256hex content) \<and> (eff \<noteq> None \<longrightarrow> we_AfterHash v = sha256hex content)"
    using q(1) by (intro exI [of _ q]) (simp add: write_sound_def)
next
  fix v eff
  assume w: "executeApplyPatch sha256hex r wl path patch expected = (Inr v, eff)"
  have i: "eff \<noteq> None \<or> (\<exists>v'. Inr v = (Inr v' :: FailureCode + WriteEvidence))" by blast
  obtain q current patched where q: "resolveWrite (wl_disk wl 0) (rg_workspace r) path = Inr q" "ReadFile (wl_disk wl 3) (wp_canonical q) = Some current"
    "applyPatch current patch (wp_relative q) (lt_MaxPatchTargetBytes (rg_limits r)) = Inr patched"
    "write_sound sha256hex r wl path expected q (current \<noteq> patched) expected patched (Inr v, eff)"
    using executeApplyPatch_starts [OF w i] by blast
  then show "\<exists>q current patched. resolveWrite (wl_disk wl 0) (rg_workspace r) path = Inr q \<and> ReadFile (wl_disk wl 3) (wp_canonical q) = Some current
         \<and> applyPatch current patch (wp_relative q) (lt_MaxPatchTargetBytes (rg_limits r)) = Inr patched
         \<and> hashFile sha256hex (wl_after wl) (wp_canonical q) = (we_AfterHash v, True, False)
         \<and> we_Path v = wp_relative q \<and> we_BeforeHash v = expected \<and> we_ByteCount v = int (length patched)
         \<and> (eff \<noteq> None \<longleftrightarrow> current \<noteq> patched) \<and> (eff \<noteq> None \<longrightarrow> we_AfterHash v = sha256hex patched)"
    by (intro exI [of _ q] exI [of _ current] exI [of _ patched]) (simp add: write_sound_def)
qed

section \<open>Interrupted writes\<close>

text \<open>What recovery knows when it classifies: the decoded intent and the state of the target, if both can be had.\<close>

definition observed_intent :: "(string \<Rightarrow> string) \<Rightarrow> Disk \<Rightarrow> string \<Rightarrow> WriteIntent \<Rightarrow> (writeIntentArguments \<times> writePath \<times> string) option" where
  "observed_intent sha256hex d root intent =
     (case (newWorkspace (dk_fs d) root, decodeWriteIntent (in_Tool intent) (in_Arguments intent)) of
        (Some w, Inr a) \<Rightarrow>
          (case resolveWrite d w (wi_Path a) of
             Inr p \<Rightarrow> (case current_state sha256hex d p of Inr h \<Rightarrow> Some (a, p, h) | Inl _ \<Rightarrow> None)
           | Inl _ \<Rightarrow> None)
      | _ \<Rightarrow> None)"

text \<open>Recovery trusts observed state only: an attempt counts as not started exactly when the target is in the state the
  intent expects before, as completed exactly when it is in another state that is the planned one, and in every other
  case, undecodable or unreadable state included, a human decides.\<close>

lemma reconcile_status:
  "rl_Status (ReconcileWrite sha256hex d root intent) =
     (case observed_intent sha256hex d root intent of
        None \<Rightarrow> ReconcileHumanReview
      | Some (a, p, h) \<Rightarrow>
          if h = wi_ExpectedBeforeHash a then ReconcileNotStarted
          else if in_ExpectedAfterHash intent \<noteq> [] \<and> h = in_ExpectedAfterHash intent then ReconcileCompleted
          else ReconcileHumanReview)"
proof (cases "newWorkspace (dk_fs d) root")
  case (Some w)
  show ?thesis
  proof (cases "decodeWriteIntent (in_Tool intent) (in_Arguments intent)")
    case (Inr a)
    show ?thesis
    proof (cases "resolveWrite d w (wi_Path a)")
      case (Inr p)
      then show ?thesis using Some \<open>decodeWriteIntent _ _ = Inr a\<close>
        by (cases "current_state sha256hex d p") (simp_all add: ReconcileWrite_def observed_intent_def reconcile_result_def)
    qed (use Some Inr in \<open>simp add: ReconcileWrite_def observed_intent_def reconcile_result_def\<close>)
  qed (use Some in \<open>simp add: ReconcileWrite_def observed_intent_def reconcile_result_def\<close>)
qed (simp add: ReconcileWrite_def observed_intent_def reconcile_result_def)

lemma reconcile_evidence:
  "rl_Status (ReconcileWrite sha256hex d root intent) = ReconcileCompleted \<Longrightarrow> observed_intent sha256hex d root intent = Some (a, p, h) \<Longrightarrow>
     \<exists>v. rl_Evidence (ReconcileWrite sha256hex d root intent) = Some v \<and> we_AfterHash v = h \<and> we_Path v = wp_relative p
       \<and> we_BeforeHash v = wi_ExpectedBeforeHash a \<and> we_Diff v = pe_Diff (in_PlannedEffect intent)"
  by (auto simp: ReconcileWrite_def observed_intent_def reconcile_result_def split: option.splits sum.splits if_splits)

text \<open>The plan of a write names the hash the effect leaves.\<close>

lemma plan_of_write:
  assumes "act_Tool a = ToolWriteFile" "stringArgument (act_Arguments a) ''path'' = Inr path"
    "stringArgumentAllowEmpty (act_Arguments a) ''content'' = Inr content" "int (length content) \<le> lt_MaxWriteBytes (rg_limits r)"
  shows "pw_AfterHash (PlanWrite sha256hex r d a) = sha256hex content"
  using assms by (simp add: PlanWrite_def Let_def)

lemma plan_of_patch:
  assumes "act_Tool a = ToolApplyPatch" "stringArgument (act_Arguments a) ''path'' = Inr path"
    "stringArgumentAllowEmpty (act_Arguments a) ''patch'' = Inr patch" "\<not> is_blank patch"
    "resolveWrite d (rg_workspace r) path = Inr p" "wp_exists p" "ReadFile d (wp_canonical p) = Some current"
    "applyPatch current patch (wp_relative p) (lt_MaxPatchTargetBytes (rg_limits r)) = Inr patched"
  shows "pw_AfterHash (PlanWrite sha256hex r d a) = sha256hex patched"
  using assms by (simp add: PlanWrite_def Let_def)

text \<open>C9: a crash around a write is classified rightly. Let a write of new content be interrupted anywhere, with the intent
  and the planned hash persisted before it. If recovery finds the target in the state the precondition names, as
  it is when no rename took place, the attempt counts as not started; if it finds the content of the rename there, the
  attempt counts as completed, with the hash of that content as evidence; in any other state a human decides.\<close>

theorem interrupted_write_is_classified:
  assumes "act_Tool a = ToolWriteFile" "stringArgument (act_Arguments a) ''path'' = Inr path"
    "stringArgumentAllowEmpty (act_Arguments a) ''content'' = Inr content" "int (length content) \<le> lt_MaxWriteBytes (rg_limits r)"
    and "executeWriteFile sha256hex r wl path content expected = (res, eff)" "sha256hex content \<noteq> []"
    and "in_ExpectedAfterHash intent = pw_AfterHash (PlanWrite sha256hex r d0 a)"
    and "observed_intent sha256hex d root intent = Some (args, p, h)" "wi_ExpectedBeforeHash args = expected"
  shows "(h = expected \<longrightarrow> rl_Status (ReconcileWrite sha256hex d root intent) = ReconcileNotStarted)
     \<and> (\<forall>q c m. eff = Some (q, c, m) \<longrightarrow> wp_canonical p = q \<longrightarrow> wp_exists p \<longrightarrow> ReadFile d q = Some c \<longrightarrow>
          rl_Status (ReconcileWrite sha256hex d root intent) = ReconcileCompleted
          \<and> (\<exists>v. rl_Evidence (ReconcileWrite sha256hex d root intent) = Some v \<and> we_AfterHash v = sha256hex content \<and> we_BeforeHash v = expected))
     \<and> (h \<noteq> expected \<longrightarrow> h \<noteq> sha256hex content \<longrightarrow> rl_Status (ReconcileWrite sha256hex d root intent) = ReconcileHumanReview)"
proof -
  have after: "in_ExpectedAfterHash intent = sha256hex content" using plan_of_write [OF assms(1-4)] assms(7) by simp
  have st: "rl_Status (ReconcileWrite sha256hex d root intent) =
      (if h = expected then ReconcileNotStarted else if h = sha256hex content then ReconcileCompleted else ReconcileHumanReview)"
    using assms(6,8,9) after by (simp add: reconcile_status)
  have done': "rl_Status (ReconcileWrite sha256hex d root intent) = ReconcileCompleted
      \<and> (\<exists>v. rl_Evidence (ReconcileWrite sha256hex d root intent) = Some v \<and> we_AfterHash v = sha256hex content \<and> we_BeforeHash v = expected)"
    if e: "eff = Some (q, c, m)" "wp_canonical p = q" "wp_exists p" "ReadFile d q = Some c" for q c m
  proof -
    obtain resolved where "resolveWrite (wl_disk wl 0) (rg_workspace r) path = Inr resolved" "current_state sha256hex (wl_disk wl 1) resolved = Inr expected"
      using executeWriteFile_starts [OF assms(5)] e(1) by blast
    from executeWriteFile_sound [OF this, of content] have c: "c = content" "expected \<noteq> sha256hex content"
      using assms(5) e(1) by (simp_all add: write_sound_def)
    obtain w where "current_state sha256hex d p = Inr h"
      using assms(8) by (auto simp: observed_intent_def split: option.splits sum.splits)
    then have h: "h = sha256hex content" using e(2-4) c(1) by (auto simp: current_state_def hashFile_def ReadFile_def split: sum.splits option.splits if_splits)
    then have "rl_Status (ReconcileWrite sha256hex d root intent) = ReconcileCompleted" using st c(2) by simp
    then show ?thesis using reconcile_evidence [OF _ assms(8)] h assms(9) by metis
  qed
  show ?thesis using st done' by auto
qed

text \<open>A write of new content over the file of \<open>demo_disk\<close>; texts are their own hashes.\<close>

definition disk_with :: "string \<Rightarrow> Disk" where
  "disk_with content = demo_disk\<lparr>dk_open := (\<lambda>p. Inr ([content], None))\<rparr>"

definition demo_world :: WriteWorld where
  "demo_world = \<lparr>wl_disk = (\<lambda>i. disk_with ''old''), wl_after = disk_with ''new'', wl_ctx = ContextAlive, wl_ctxRename = ContextAlive,
     wl_temp = None, wl_rename = None\<rparr>"

definition demo_path :: writePath where
  "demo_path = \<lparr>wp_relative = ''a'', wp_canonical = ''/w/a'', wp_exists = True, wp_mode = 420\<rparr>"

lemma demo_resolve: "resolveWrite (disk_with c) \<lparr>ws_root = ''/w''\<rparr> ''a'' = Inr demo_path"
  unfolding disk_with_def demo_path_def by code_simp

lemma demo_looks:
  "rg_workspace demo_registry = \<lparr>ws_root = ''/w''\<rparr>" "current_state id (disk_with c) demo_path = Inr c"
  "hashFile id (disk_with c) ''/w/a'' = (c, True, False)" "ReadFile (disk_with c) ''/w/a'' = Some c"
  "revalidateWriteTarget id \<lparr>ws_root = ''/w''\<rparr> (disk_with c) (disk_with d) ''a'' e demo_path = (if d = e then None else Some FailureStaleState)"
  by (simp_all add: demo_registry_def current_state_def hashFile_def ReadFile_def disk_with_def demo_path_def revalidateWriteTarget_def
      demo_resolve [unfolded demo_path_def disk_with_def])

lemmas run_write = executeWriteFile_def demo_world_def demo_looks demo_resolve perform_write_def atomicWrite_def contextFailure_def Let_def

lemma demo_write:
  "\<exists>v. executeWriteFile id demo_registry demo_world ''a'' ''new'' ''old'' = (Inr v, Some (''/w/a'', ''new'', 420))"
  by (simp add: run_write file_mode_def) (simp add: demo_path_def demo_looks)

theorem writes_replace_the_expected_state_witness:
  "guarded_effect id demo_registry demo_world ''a'' ''old'' ''/w/a'' \<and> prefix [''w''] (elems ''/w/a'')"
proof -
  have root: "IsAbs (Clean (ws_root (rg_workspace demo_registry)))" "elems (Clean (ws_root (rg_workspace demo_registry))) = [''w'']" by code_simp+
  have g: "guarded_effect id demo_registry demo_world ''a'' ''old'' ''/w/a''"
    using writes_replace_the_expected_state [OF root(1), of id demo_world "''a''" "''new''" "''old''"] demo_write by blast
  then show ?thesis using root(2) by (simp add: guarded_effect_def)
qed

theorem write_evidence_is_observed_witness:
  "\<exists>v. executeWriteFile id demo_registry demo_world ''a'' ''new'' ''old'' = (Inr v, Some (''/w/a'', ''new'', 420))
     \<and> we_AfterHash v = ''new'' \<and> we_BeforeHash v = ''old'' \<and> we_ByteCount v = 3"
proof -
  obtain v where w: "executeWriteFile id demo_registry demo_world ''a'' ''new'' ''old'' = (Inr v, Some (''/w/a'', ''new'', 420))" using demo_write by blast
  then show ?thesis
    using write_evidence_is_observed [of id demo_registry demo_world "''a''" "''new''" "''old''"] by auto
qed

text \<open>A disk that changes after the first look is not overwritten.\<close>

lemma changed_file_is_kept:
  "executeWriteFile id demo_registry (demo_world\<lparr>wl_disk := (\<lambda>i. disk_with (if i < 7 then ''old'' else ''theirs''))\<rparr>) ''a'' ''new'' ''old''
   = (Inl FailureStaleState, None)"
  by (simp add: run_write)

text \<open>The base of a patch is read again after it was hashed: if the file is another one in that look only, the patched
  other file replaces the expected one.\<close>

lemma patch_base_is_not_hashed:
  "snd (executeApplyPatch id demo_registry (demo_world\<lparr>wl_disk := (\<lambda>i. disk_with (if i = 3 then ''theirs'' @ [newline] else ''old'' @ [newline])),
        wl_after := disk_with (''theirs'' @ [newline] @ ''x'' @ [newline])\<rparr>)
      ''a'' (''--- a'' @ [newline] @ ''+++ a'' @ [newline] @ ''@@ -2,0 +2,1 @@'' @ [newline] @ ''+x'' @ [newline]) (''old'' @ [newline]))
   = Some (''/w/a'', ''theirs'' @ [newline] @ ''x'' @ [newline], 420)"
  by code_simp

definition demo_intent :: WriteIntent where
  \<open>demo_intent = \<lparr>in_Tool = ToolWriteFile, in_Arguments = ''{"path":"a","content":"new","expected_before_hash":"old"}'',
     in_ExpectedAfterHash = ''new'', in_PlannedEffect = no_effect\<rparr>\<close>

text \<open>Recovery after the rename and recovery when nothing happened.\<close>

theorem interrupted_write_is_classified_witness:
  "rl_Status (ReconcileWrite id (disk_with ''new'') ''/w'' demo_intent) = ReconcileCompleted
   \<and> rl_Status (ReconcileWrite id (disk_with ''old'') ''/w'' demo_intent) = ReconcileNotStarted
   \<and> rl_Status (ReconcileWrite id (disk_with ''torn'') ''/w'' demo_intent) = ReconcileHumanReview"
proof -
  let ?a = "\<lparr>act_Version = [], act_Tool = ToolWriteFile, act_Arguments = [(''path'', JStr ''a''), (''content'', JStr ''new'')]\<rparr>"
  let ?args = "\<lparr>wi_Path = ''a'', wi_Content = ''new'', wi_Patch = [], wi_ExpectedBeforeHash = ''old''\<rparr>"
  have a: "act_Tool ?a = ToolWriteFile" "stringArgument (act_Arguments ?a) ''path'' = Inr ''a''"
    "stringArgumentAllowEmpty (act_Arguments ?a) ''content'' = Inr ''new''" "int (length ''new'') \<le> lt_MaxWriteBytes (rg_limits demo_registry)"
    by (code_simp, code_simp, code_simp, simp add: demo_registry_def DefaultToolLimits_def)
  have h: "in_ExpectedAfterHash demo_intent = pw_AfterHash (PlanWrite id demo_registry (disk_with ''old'') ?a)"
    by (subst plan_of_write [OF a]) (simp add: demo_intent_def)
  obtain v where w: "executeWriteFile id demo_registry demo_world ''a'' ''new'' ''old'' = (Inr v, Some (''/w/a'', ''new'', 420))" using demo_write by blast
  have dec: "decodeWriteIntent (in_Tool demo_intent) (in_Arguments demo_intent) = Inr ?args" by code_simp
  have o': "observed_intent id (disk_with c) ''/w'' demo_intent = Some (?args, demo_path, c)" for c
  proof -
    have "newWorkspace (dk_fs (disk_with c)) ''/w'' = Some \<lparr>ws_root = ''/w''\<rparr>" by (simp add: disk_with_def demo_disk_def) code_simp
    then show ?thesis unfolding observed_intent_def dec by (simp add: demo_resolve demo_looks)
  qed
  have n: "id ''new'' \<noteq> []" "wi_ExpectedBeforeHash ?args = ''old''" by simp_all
  note c = interrupted_write_is_classified [OF a w n(1) h o' n(2)]
  show ?thesis using c [of "''new''"] c [of "''old''"] c [of "''torn''"] by (simp add: demo_looks demo_path_def)
qed

end
