(* ===== verification/Recovery.thy ===== *)
theory Recovery
  imports Tool_Write Agent_Types Store_Recovery Store_Theorems
begin

text \<open>
  The recovery pipeline (\<open>recovery/recovery.go\<close>): classification of what a crash left, its reconciliation in the
  store, the decision, and the seed of the resumed run. Every access to the store is numbered; it has a failure of the
  database and a clock of its own. The compiler of the model-facing context, the governor's verdict and the
  encoding of evidence are arguments.
\<close>

section \<open>Classification\<close>

datatype RecoveryDecision = DecisionContinue | DecisionHumanReview | DecisionGovernorBlocked

datatype toolClass = toolVerified | toolFailed | toolNoop | toolReplaySafe | toolWriteReconcile | toolHumanReview

datatype providerClass = providerDone | providerConservative | providerHumanReview

definition isWriteTool :: "string \<Rightarrow> bool" where
  "isWriteTool tool \<longleftrightarrow> tool = ToolWriteFile \<or> tool = ToolApplyPatch"

definition classifyToolAttempt :: "RecoveryToolAttempt \<Rightarrow> toolClass" where
  "classifyToolAttempt a =
     (if rt_Status a = ''completed'' then toolVerified
      else if rt_Status a = ''failed'' then toolFailed
      else if rt_Status a = ''reconciled'' \<or> rt_Status a = ''canceled'' then toolNoop
      else if rt_Status a = ''human_review_required'' then toolHumanReview
      else if rt_RecoveryClass a = 1 then toolReplaySafe
      else if rt_RecoveryClass a = 2 \<and> isWriteTool (rt_Tool a) then toolWriteReconcile
      else toolHumanReview)"

definition classifyProviderAttempt :: "RecoveryProviderAttempt \<Rightarrow> providerClass" where
  "classifyProviderAttempt p =
     (if ry_Status p = ''completed'' \<or> ry_Status p = ''failed'' \<or> ry_Status p = ''reconciled'' \<or> ry_Status p = ''canceled'' then providerDone
      else if ry_Status p = ''human_review_required'' then providerHumanReview
      else providerConservative)"

definition isTerminalTaskStatus :: "string \<Rightarrow> bool" where
  "isTerminalTaskStatus status \<longleftrightarrow> status \<noteq> ''planned'' \<and> status \<noteq> ''running''"

section \<open>Evidence ids\<close>

text \<open>The number of an id, in the 64-bit integers of the source.\<close>

definition wrap64 :: "int \<Rightarrow> int" where
  "wrap64 x = (x + 2 ^ 63) mod 2 ^ 64 - 2 ^ 63"

fun sequence_digits :: "int \<Rightarrow> string \<Rightarrow> int" where
  "sequence_digits n [] = n"
| "sequence_digits n (c # cs) = (if is_digit c then sequence_digits (wrap64 (n * 10 + (char_code c - 48))) cs else 0)"

definition evidenceSequence :: "string \<Rightarrow> int" where
  "evidenceSequence i = (if HasPrefix i ''obs-'' then sequence_digits 0 (drop 4 i) else 0)"

definition maxEvidenceSequence :: "RecoveryEvidence list \<Rightarrow> int" where
  "maxEvidenceSequence es = fold (\<lambda>e m. if m < evidenceSequence (re_EvidenceID e) then evidenceSequence (re_EvidenceID e) else m) es 0"

definition evidence_id :: "int \<Rightarrow> string" where
  "evidence_id n = ''obs-'' @ pad6 (dec (nat n))"

section \<open>The governor's verdict\<close>

definition GovernorBlocks :: "(time \<Rightarrow> string) \<Rightarrow> time \<Rightarrow> Governor option \<Rightarrow> string \<Rightarrow> (bool \<times> string) \<times> Governor option" where
  "GovernorBlocks rfc3339 now g task =
     (case g of
        None \<Rightarrow> ((False, []), None)
      | Some g0 \<Rightarrow>
          (let (s, g1) = Governor_Snapshot g0; c = ss_Circuit s; t = ss_Telemetry s; b = ss_Budgets s
           in (if cs_State c = CircuitHumanReviewRequired then (True, ''account circuit requires human acknowledgement'')
               else if cs_State c = CircuitOpenUntil
               then (True, ''account circuit is open'' @ (if is_zero (cs_OpenUntil c) then [] else '' until '' @ rfc3339 (cs_OpenUntil c)))
               else if cs_RefreshRequired c then (True, ''account circuit requires credential refresh'')
               else if \<not> is_zero (ss_CooldownUntil s) \<and> now < ss_CooldownUntil s
               then (True, ''account cooldown active until '' @ rfc3339 (ss_CooldownUntil s))
               else if tm_RateLimited t \<or> tm_CapacityExhausted t \<or> tm_UpstreamCircuit t = UpstreamCircuitOpen
               then (True, ''upstream rate or capacity state blocks admission'')
               else if tm_Unsafe t then (True, ''conservative accounting is unsafe; human review required before continuation'')
               else if 0 < bs_Rolling3hCeiling b \<and> bs_Rolling3hCeiling b \<le> bs_Rolling3hUsed b then (True, ''rolling 3h provider budget exhausted'')
               else if 0 < bs_Rolling1hCeiling b \<and> bs_Rolling1hCeiling b \<le> bs_Rolling1hUsed b then (True, ''rolling 1h provider budget exhausted'')
               else if 0 < bs_Rolling10mCeiling b \<and> bs_Rolling10mCeiling b \<le> bs_Rolling10mUsed b then (True, ''rolling 10m provider budget exhausted'')
               else (case map_get (ss_Tasks s) task of
                   Some u \<Rightarrow> if 0 < bs_TaskCeiling b \<and> bs_TaskCeiling b \<le> tk_Attempts u then (True, ''task provider budget exhausted'') else (False, [])
                 | None \<Rightarrow> (False, [])), Some g1)))"

section \<open>The seed\<close>

text \<open>A Go map filled from a list: the last entry of a key counts.\<close>

definition rejectedCount :: "RecoverySnapshot \<Rightarrow> int" where
  "rejectedCount s = int (length (filter (\<lambda>a. ra_Status a = ''rejected'') (sn_Actions s)))"

definition evidence_by_id :: "RecoverySnapshot \<Rightarrow> string \<Rightarrow> RecoveryEvidence option" where
  "evidence_by_id s = map_of (rev (map (\<lambda>e. (re_EvidenceID e, e)) (sn_Evidence s)))"

definition toolAttemptCountedAsFailure :: "RecoveryToolAttempt \<Rightarrow> (string \<Rightarrow> RecoveryEvidence option) \<Rightarrow> bool" where
  "toolAttemptCountedAsFailure a byID \<longleftrightarrow>
     rt_Status a = ''failed''
     \<or> rt_Status a = ''completed'' \<and> rt_Tool a = ToolRunRecipe
       \<and> (case byID (rt_EvidenceID a) of
            None \<Rightarrow> False
          | Some e \<Rightarrow> (case Unmarshal Verifier.recipe_shape (re_DataJSON e) of None \<Rightarrow> False | Some g \<Rightarrow> g_int ''exit_code'' g \<noteq> 0))"

definition trailingToolFailures :: "RecoverySnapshot \<Rightarrow> int" where
  "trailingToolFailures s = int (length (takeWhile (\<lambda>a. toolAttemptCountedAsFailure a (evidence_by_id s)) (rev (sn_ToolAttempts s))))"

definition trailingVerificationFailures :: "RecoverySnapshot \<Rightarrow> int" where
  "trailingVerificationFailures s = int (length (takeWhile (\<lambda>v. ve_decision v = ''failed'') (rev (sn_VerificationAttempts s))))"

text \<open>A stored document decodes into data of any form; an unreadable one leaves the zero value. Of the metadata, the
  mark of untrusted content is what the loop reads.\<close>

definition decoded_data :: "string \<Rightarrow> ToolData" where
  "decoded_data raw =
     (if is_blank raw then NoData
      else (case json_parse raw of None \<Rightarrow> NoData | Some v \<Rightarrow> if v = JNull then NoData else OtherData raw))"

text \<open>Decoding that ignores errors: a field of a wrong type keeps its zero value.\<close>

definition lenient_field :: "string \<Rightarrow> shape \<Rightarrow> string \<Rightarrow> gval" where
  "lenient_field f sh raw =
     (if is_blank raw then zero_of (SStruct [(f, sh)])
      else (case Unmarshal (SStruct [(f, sh)]) raw of None \<Rightarrow> zero_of (SStruct [(f, sh)]) | Some g \<Rightarrow> g))"

definition decoded_untrusted :: "string \<Rightarrow> bool" where
  "decoded_untrusted raw = g_bool ''untrusted'' (lenient_field ''untrusted'' SBool raw)"

definition decoded_metadata :: "string \<Rightarrow> string" where
  "decoded_metadata raw = (case json_parse raw of Some (JObj ps) \<Rightarrow> raw | _ \<Rightarrow> [])"

definition citable :: "RecoveryToolAttempt \<Rightarrow> bool" where
  "citable a \<longleftrightarrow> (rt_Status a = ''completed'' \<or> rt_Status a = ''reconciled'') \<and> rt_EvidenceID a \<noteq> []"

definition reconstructed_observation :: "RecoverySnapshot \<Rightarrow> RecoveryEvidence \<Rightarrow> Observation" where
  "reconstructed_observation s e =
     \<lparr>on_ID = re_EvidenceID e,
      on_Tool = (if re_Tool e = []
         then (case map_of (rev (map (\<lambda>a. (rt_ExecutionID a, a)) (sn_ToolAttempts s))) (re_ExecutionID e) of Some a \<Rightarrow> rt_Tool a | None \<Rightarrow> [])
         else re_Tool e),
      on_Success = True, on_Data = decoded_data (re_DataJSON e), on_Failure = None, on_Truncated = False,
      on_Untrusted = decoded_untrusted (re_MetadataJSON e), on_Metadata = decoded_metadata (re_MetadataJSON e)\<rparr>"

fun observations_from :: "RecoverySnapshot \<Rightarrow> RecoveryToolAttempt list \<Rightarrow> string set \<Rightarrow> Observation list" where
  "observations_from s [] seen = []"
| "observations_from s (a # as) seen =
     (if \<not> citable a \<or> rt_EvidenceID a \<in> seen then observations_from s as seen
      else (case evidence_by_id s (rt_EvidenceID a) of
          None \<Rightarrow> observations_from s as seen
        | Some e \<Rightarrow> reconstructed_observation s e # observations_from s as (insert (rt_EvidenceID a) seen)))"

definition reconstructedObservations :: "RecoverySnapshot \<Rightarrow> Observation list" where
  "reconstructedObservations s = observations_from s (sn_ToolAttempts s) {}"

definition executed_attempt :: "RecoveryToolAttempt \<Rightarrow> bool" where
  "executed_attempt a \<longleftrightarrow> rt_Status a = ''completed'' \<or> rt_Status a = ''failed''
     \<or> rt_Status a = ''reconciled'' \<and> rt_RecoveryReason a = ''write_effect_completed''"

definition guard_entry :: "RecoverySnapshot \<Rightarrow> RecoveryToolAttempt \<Rightarrow> (string \<times> string) option" where
  "guard_entry s a =
     (if \<not> executed_attempt a then None
      else (case map_of (rev (map (\<lambda>x. (ra_ActionID x, x)) (sn_Actions s))) (rt_ActionID a) of
          None \<Rightarrow> None
        | Some x \<Rightarrow> if ra_Fingerprint x = [] then None else Some (ra_Fingerprint x, ra_WorkspaceSignature x)))"

definition reconstructedGuard :: "RecoverySnapshot \<Rightarrow> (string \<times> string) list" where
  "reconstructedGuard s =
     fold (\<lambda>a g. case guard_entry s a of
         None \<Rightarrow> g
       | Some (k, v) \<Rightarrow> if map_get g k = None then map_put k v g else g) (sn_ToolAttempts s) []"

definition buildSeed :: "RecoverySnapshot \<Rightarrow> string \<Rightarrow> int \<Rightarrow> RecoverySeed" where
  "buildSeed s context traceSequence =
     \<lparr>sd_Turns = int (length (sn_ProviderAttempts s)), sd_Attempts = int (length (sn_ProviderAttempts s)), sd_Repeated = rejectedCount s,
      sd_ConsecutiveFailures = trailingToolFailures s, sd_VerificationRetries = trailingVerificationFailures s,
      sd_Evidence = reconstructedObservations s, sd_Guard = reconstructedGuard s, sd_Context = context, sd_TraceSequence = traceSequence\<rparr>"

section \<open>The pipeline\<close>

text \<open>What a resume meets: the failure and the clock of each access to the store, the disk of each write to reconcile,
  and the answers of the options. The compiler gives a text, its citable ids and its version, or fails.\<close>

record ResumeWorld =
  rw_fault :: "nat \<Rightarrow> string option"
  rw_unitFault :: "string \<Rightarrow> string option"
  rw_clock :: "nat \<Rightarrow> time"
  rw_wall :: "nat \<Rightarrow> time"
  rw_disk :: "nat \<Rightarrow> Disk"
  rw_hash :: "string \<Rightarrow> string"
  rw_encode :: "WriteEvidence \<Rightarrow> string \<times> string"
  rw_traced :: bool
  rw_Blocked :: "(bool \<times> string) option"
  rw_CurrentWorkspaceSignature :: string
  rw_WorkspaceSignature :: "(string \<Rightarrow> string option) option"
  rw_PendingApprovals :: "(string \<Rightarrow> Store \<Rightarrow> (string \<times> string \<times> string) list option) option"
  rw_compile :: "RecoverySnapshot \<Rightarrow> string \<Rightarrow> (string \<times> string \<times> string) list option \<Rightarrow> (string \<times> string list \<times> string) option"

record Resuming =
  ru_store :: Store
  ru_calls :: nat
  ru_trace :: "TraceLine list"
  ru_tools :: int
  ru_providers :: int
  ru_uncertain :: int
  ru_review :: "string list"
  ru_next :: int

record TaskInfo =
  ti_ID :: string
  ti_Objective :: string
  ti_Workspace :: string
  ti_Model :: string
  ti_ConfigJSON :: string

record RecoveryPlan =
  py_Decision :: RecoveryDecision
  py_Reason :: string
  py_ReconciledToolAttempts :: int
  py_ReconciledProviderAttempts :: int
  py_UncertainProviderAttempts :: int
  py_Seed :: "RecoverySeed option"
  py_Task :: TaskInfo
  py_NextEvidenceSequence :: int

datatype resume_error = NoTaskID | StoreFailed store_error | ContextUnbuildable | ApprovalsUnreadable

type_synonym 'a resuming = "(resume_error + 'a) \<times> Resuming"

definition trace_emit :: "ResumeWorld \<Rightarrow> TraceKind \<Rightarrow> string \<Rightarrow> Resuming \<Rightarrow> Resuming" where
  "trace_emit w kind status st =
     (if \<not> rw_traced w then st
      else st\<lparr>ru_trace := ru_trace st @ [(trace_line kind status)\<lparr>tl_Sequence := int (length (ru_trace st)) + 1\<rparr>]\<rparr>)"

definition access :: "ResumeWorld \<Rightarrow> (string option \<Rightarrow> Store \<Rightarrow> (store_error + 'a) \<times> Store) \<Rightarrow> Resuming \<Rightarrow> 'a resuming" where
  "access w f st =
     (case f (rw_fault w (ru_calls st)) ((ru_store st)\<lparr>db_clock := rw_clock w (ru_calls st)\<rparr>) of
        (r, s') \<Rightarrow> (case r of Inl e \<Rightarrow> Inl (StoreFailed e) | Inr x \<Rightarrow> Inr x, st\<lparr>ru_store := s', ru_calls := Suc (ru_calls st)\<rparr>))"

definition and_then :: "'a resuming \<Rightarrow> ('a \<Rightarrow> Resuming \<Rightarrow> 'b resuming) \<Rightarrow> 'b resuming" where
  "and_then p f = (case p of (Inl e, st) \<Rightarrow> (Inl e, st) | (Inr x, st) \<Rightarrow> f x st)"

definition load_snapshot :: "Codec \<Rightarrow> ResumeWorld \<Rightarrow> string \<Rightarrow> Resuming \<Rightarrow> RecoverySnapshot resuming" where
  "load_snapshot cx w task = access w (\<lambda>fault s. (LoadRecoverySnapshot cx fault task s, s))"

definition decodePlannedEffect :: "string \<Rightarrow> PlannedEffect" where
  "decodePlannedEffect raw =
     \<lparr>pe_Diff = g_string ''diff'' (lenient_field ''diff'' SString raw),
      pe_DiffBytes = g_int ''diff_bytes'' (lenient_field ''diff_bytes'' SInt raw),
      pe_DiffTruncated = g_bool ''diff_truncated'' (lenient_field ''diff_truncated'' SBool raw)\<rparr>"

definition write_intent :: "RecoveryToolAttempt \<Rightarrow> WriteIntent" where
  "write_intent a = \<lparr>in_Tool = rt_Tool a, in_Arguments = rt_ArgumentsJSON a, in_ExpectedAfterHash = rt_EffectAfterHash a,
     in_PlannedEffect = decodePlannedEffect (rt_PlannedEffectJSON a)\<rparr>"

definition tool_mark :: "string \<Rightarrow> string \<Rightarrow> string \<Rightarrow> string \<Rightarrow> ReconcileAttempt" where
  "tool_mark task execution status reason = \<lparr>rc_TaskID = task, rc_ExecutionID = execution, rc_Status = status, rc_Reason = reason\<rparr>"

definition no_write_evidence :: WriteEvidence where
  "no_write_evidence = \<lparr>we_Path = [], we_BeforeHash = [], we_AfterHash = [], we_ByteCount = 0, we_ChangeKind = [], we_Outcome = [], we_Diff = [],
     we_DiffTruncated = False, we_DiffBytes = 0, we_ActionID = [], we_ExecutionID = [], we_EvidenceID = []\<rparr>"

text \<open>The answer says whether a human has to review the attempt.\<close>

definition reconcileWriteAttempt :: "Codec \<Rightarrow> ResumeWorld \<Rightarrow> string \<Rightarrow> string \<Rightarrow> RecoveryToolAttempt \<Rightarrow> Resuming \<Rightarrow> bool resuming" where
  "reconcileWriteAttempt cx w task workspaceRoot a st =
     (let result = ReconcileWrite (rw_hash w) (rw_disk w (ru_calls st)) workspaceRoot (write_intent a)
      in case rl_Status result of
           ReconcileNotStarted \<Rightarrow>
             and_then (access w (\<lambda>fault. ReconcileToolAttempt cx fault (tool_mark task (rt_ExecutionID a) ''reconciled'' ''write_effect_not_started'')) st)
               (\<lambda>_ st. (Inr False, st))
         | ReconcileCompleted \<Rightarrow>
             (let n = ru_next st + 1;
                  evidence = (case rl_Evidence result of Some v \<Rightarrow> v | None \<Rightarrow> no_write_evidence);
                  (data, metadata) = rw_encode w (evidence\<lparr>we_EvidenceID := evidence_id n, we_ExecutionID := rt_ExecutionID a\<rparr>)
              in and_then (access w (\<lambda>fault. ReconcileWriteAttempt cx fault (tool_mark task (rt_ExecutionID a) ''reconciled'' ''write_effect_completed'')
                     (evidence_id n) data metadata) (st\<lparr>ru_next := n\<rparr>))
                   (\<lambda>_ st. (Inr False, st)))
         | ReconcileHumanReview \<Rightarrow>
             and_then (access w (\<lambda>fault. ReconcileToolAttempt cx fault (tool_mark task (rt_ExecutionID a) ''human_review_required'' ''write_effect_unreconcilable'')) st)
               (\<lambda>_ st. (Inr True, st)))"

definition settle_tool :: "Codec \<Rightarrow> ResumeWorld \<Rightarrow> string \<Rightarrow> string \<Rightarrow> RecoveryToolAttempt \<Rightarrow> Resuming \<Rightarrow> unit resuming" where
  "settle_tool cx w task workspace a st =
     (case classifyToolAttempt a of
        toolReplaySafe \<Rightarrow>
          and_then (access w (\<lambda>fault. ReconcileToolAttempt cx fault (tool_mark task (rt_ExecutionID a) ''reconciled'' ''replay_safe_observation'')) st)
            (\<lambda>_ st. (Inr (), trace_emit w TraceRecoveryReconcile (''tool attempt '' @ rt_ExecutionID a @ '' reconciled as replay_safe_observation'')
               (st\<lparr>ru_tools := ru_tools st + 1\<rparr>)))
      | toolWriteReconcile \<Rightarrow>
          and_then (reconcileWriteAttempt cx w task workspace a st)
            (\<lambda>review st. (Inr (),
               if review
               then trace_emit w TraceRecoveryUncertain (''write attempt '' @ rt_ExecutionID a
                      @ '' requires human review: the filesystem state matches neither the recorded precondition nor the expected after-state'')
                      (st\<lparr>ru_tools := ru_tools st + 1, ru_review := ru_review st @ [rt_ExecutionID a]\<rparr>)
               else trace_emit w TraceRecoveryReconcile (''write attempt '' @ rt_ExecutionID a @ '' reconciled from observable filesystem state'')
                      (st\<lparr>ru_tools := ru_tools st + 1\<rparr>)))
      | toolHumanReview \<Rightarrow>
          and_then (access w (\<lambda>fault. ReconcileToolAttempt cx fault (tool_mark task (rt_ExecutionID a) ''human_review_required'' ''unreconcilable_effect'')) st)
            (\<lambda>_ st. (Inr (), trace_emit w TraceRecoveryUncertain (''tool attempt '' @ rt_ExecutionID a
               @ '' requires human review: effect may have occurred and cannot be reconciled safely'')
               (st\<lparr>ru_review := ru_review st @ [rt_ExecutionID a]\<rparr>)))
      | _ \<Rightarrow> (Inr (), st))"

definition provider_mark :: "string \<Rightarrow> RecoveryProviderAttempt \<Rightarrow> ReconcileProvider" where
  "provider_mark task p =
     \<lparr>rp_TaskID = task, rp_ExecutionID = ry_ExecutionID p, rp_ClientRequestID = ry_ClientRequestID p, rp_Status = ''reconciled'',
      rp_Reason = ''upstream_may_have_been_reached'', rp_Uncertain = True, rp_AttemptDebited = 1, rp_DebitAt = ry_PreparedAt p,
      rp_ApplyConservativeDebit = (ry_ReceiptAware p \<and> ry_Status p \<noteq> ''uncertain'')\<rparr>"

definition settle_provider :: "Codec \<Rightarrow> ResumeWorld \<Rightarrow> string \<Rightarrow> RecoveryProviderAttempt \<Rightarrow> Resuming \<Rightarrow> unit resuming" where
  "settle_provider cx w task p st =
     (case classifyProviderAttempt p of
        providerDone \<Rightarrow> (Inr (), st)
      | providerHumanReview \<Rightarrow>
          (Inr (), trace_emit w TraceRecoveryUncertain (''provider attempt '' @ ry_ExecutionID p @ '' already requires human review'')
             (st\<lparr>ru_review := ru_review st @ [ry_ExecutionID p]\<rparr>))
      | providerConservative \<Rightarrow>
          and_then (access w (\<lambda>fault. ReconcileProviderAttempt cx fault (rw_wall w (ru_calls st)) (provider_mark task p)) st)
            (\<lambda>_ st. (Inr (), trace_emit w TraceRecoveryUncertain (''provider attempt '' @ ry_ExecutionID p
               @ '' may have reached upstream; conservative debit preserved; not retried'')
               (st\<lparr>ru_providers := ru_providers st + 1, ru_uncertain := ru_uncertain st + 1\<rparr>))))"

fun settle_all :: "('a \<Rightarrow> Resuming \<Rightarrow> unit resuming) \<Rightarrow> 'a list \<Rightarrow> Resuming \<Rightarrow> unit resuming" where
  "settle_all f [] st = (Inr (), st)"
| "settle_all f (x # xs) st = and_then (f x st) (\<lambda>_. settle_all f xs)"

definition task_info :: "RecoveryTask \<Rightarrow> TaskInfo" where
  "task_info t = \<lparr>ti_ID = rk_TaskID t, ti_Objective = rk_Objective t, ti_Workspace = rk_Workspace t, ti_Model = rk_Model t, ti_ConfigJSON = rk_ConfigJSON t\<rparr>"

definition recovery_plan :: "RecoveryDecision \<Rightarrow> string \<Rightarrow> RecoverySeed option \<Rightarrow> int \<Rightarrow> TaskInfo \<Rightarrow> Resuming \<Rightarrow> RecoveryPlan" where
  "recovery_plan d reason seed n info st =
     \<lparr>py_Decision = d, py_Reason = reason, py_ReconciledToolAttempts = ru_tools st, py_ReconciledProviderAttempts = ru_providers st,
      py_UncertainProviderAttempts = ru_uncertain st, py_Seed = seed, py_Task = info, py_NextEvidenceSequence = n\<rparr>"

definition review_reason :: "nat \<Rightarrow> string" where
  "review_reason n = ''automatic continuation stopped: '' @ dec n @ '' attempt(s) require human review before any new execution''"

definition stop_for_review :: "Codec \<Rightarrow> ResumeWorld \<Rightarrow> string \<Rightarrow> TaskInfo \<Rightarrow> Resuming \<Rightarrow> RecoveryPlan resuming" where
  "stop_for_review cx w task info st =
     (let reason = review_reason (length (ru_review st))
      in and_then (access w (\<lambda>fault. MarkHumanReviewRequired cx fault task reason (ru_review st)) st)
           (\<lambda>_ st. (Inr (recovery_plan DecisionHumanReview reason None 0 info st), trace_emit w TraceRecoveryUncertain reason st)))"

text \<open>The signature the context is compiled with.\<close>

definition current_signature :: "ResumeWorld \<Rightarrow> RecoverySnapshot \<Rightarrow> string" where
  "current_signature w s =
     (case rw_WorkspaceSignature w of
        Some observe \<Rightarrow>
          if rw_CurrentWorkspaceSignature w = [] \<and> rk_Workspace (sn_Task s) \<noteq> []
          then (case observe (rk_Workspace (sn_Task s)) of Some v \<Rightarrow> v | None \<Rightarrow> [])
          else rw_CurrentWorkspaceSignature w
      | None \<Rightarrow> rw_CurrentWorkspaceSignature w)"

definition pending_for :: "ResumeWorld \<Rightarrow> string \<Rightarrow> Resuming \<Rightarrow> (string \<times> string \<times> string) list option resuming" where
  "pending_for w task st =
     (case rw_PendingApprovals w of
        None \<Rightarrow> (Inr None, st)
      | Some load \<Rightarrow> (case load task (ru_store st) of None \<Rightarrow> (Inl ApprovalsUnreadable, st) | Some rows \<Rightarrow> (Inr (Some rows), st)))"

text \<open>The context, its event, the seed and the boundary.\<close>

definition cross_boundary :: "Codec \<Rightarrow> ResumeWorld \<Rightarrow> string \<Rightarrow> TaskInfo \<Rightarrow> RecoverySnapshot \<Rightarrow> Resuming \<Rightarrow> RecoveryPlan resuming" where
  "cross_boundary cx w task info snapshot st0 =
     and_then (pending_for w task st0) (\<lambda>approvals st1.
       case rw_compile w snapshot (current_signature w snapshot) approvals of
         None \<Rightarrow> (Inl ContextUnbuildable, st1)
       | Some (text, ids, version) \<Rightarrow>
           and_then (access w (\<lambda>fault. AppendRecoveryEvent cx fault task ''recovery_context_reconstructed''
                [(''evidence_ids'', JL ids), (''reconciled_tool_attempts'', JI (ru_tools st1)), (''reconciled_provider_attempts'', JI (ru_providers st1)),
                 (''uncertain_provider_attempts'', JI (ru_uncertain st1)), (''context_chars'', JI (int (length text)))]) st1) (\<lambda>_ st2.
             let st3 = trace_emit w TraceRecoveryContext (''reconstructed '' @ dec (length text) @ ''-byte context with '' @ dec (length ids)
                     @ '' evidence ids; compiler '' @ version) st2;
                 seed = buildSeed snapshot text (int (length (ru_trace st3)))
             in and_then (access w (\<lambda>fault. AppendRecoveryEvent cx fault task ''recovery_continued''
                  [(''turns'', JI (sd_Turns seed)), (''attempts'', JI (sd_Attempts seed)), (''evidence'', JI (int (length (sd_Evidence seed)))),
                   (''context_chars'', JI (int (length text)))]) st3)
                  (\<lambda>_ st4. (Inr (recovery_plan DecisionContinue [] (Some seed) (ru_next st4) info st4), st4))))"

definition reset_and_cross :: "Codec \<Rightarrow> ResumeWorld \<Rightarrow> string \<Rightarrow> TaskInfo \<Rightarrow> Resuming \<Rightarrow> RecoveryPlan resuming" where
  "reset_and_cross cx w task info st0 =
     and_then (access w (\<lambda>fault. ResetInterruptedWorkUnits cx fault task ''interrupted; attempts reconciled'') st0) (\<lambda>_ st1.
     and_then (access w (\<lambda>fault. ReconcileUncertainWorkUnits cx (rw_unitFault w) task ''effects reconciled by recovery'') st1) (\<lambda>_ st2.
     and_then (load_snapshot cx w task st2) (\<lambda>snapshot. cross_boundary cx w task info snapshot)))"

text \<open>After reconciliation: the governor's verdict, the work units, the boundary.\<close>

definition continue_resume :: "Codec \<Rightarrow> ResumeWorld \<Rightarrow> string \<Rightarrow> TaskInfo \<Rightarrow> Resuming \<Rightarrow> RecoveryPlan resuming" where
  "continue_resume cx w task info st0 =
     and_then (load_snapshot cx w task st0) (\<lambda>_ st1.
       case rw_Blocked w of
         Some (True, reason) \<Rightarrow>
           and_then (access w (\<lambda>fault. AppendRecoveryEvent cx fault task ''recovery_blocked'' [(''reason'', JS (cx_redact cx reason))]) st1)
             (\<lambda>_ st2. (Inr (recovery_plan DecisionGovernorBlocked reason None 0 info st2), trace_emit w TraceRecoveryBlocked reason st2))
       | _ \<Rightarrow> reset_and_cross cx w task info st1)"

definition resume_start :: "Store \<Rightarrow> Resuming" where
  "resume_start s = \<lparr>ru_store = s, ru_calls = 0, ru_trace = [], ru_tools = 0, ru_providers = 0, ru_uncertain = 0, ru_review = [], ru_next = 0\<rparr>"

definition settle_attempts :: "Codec \<Rightarrow> ResumeWorld \<Rightarrow> string \<Rightarrow> RecoverySnapshot \<Rightarrow> Resuming \<Rightarrow> unit resuming" where
  "settle_attempts cx w task snapshot st =
     and_then (settle_all (settle_tool cx w task (rk_Workspace (sn_Task snapshot))) (sn_ToolAttempts snapshot) st)
       (\<lambda>_. settle_all (settle_provider cx w task) (sn_ProviderAttempts snapshot))"

definition settle_and_decide :: "Codec \<Rightarrow> ResumeWorld \<Rightarrow> string \<Rightarrow> RecoverySnapshot \<Rightarrow> Resuming \<Rightarrow> RecoveryPlan resuming" where
  "settle_and_decide cx w task snapshot st =
     and_then (settle_attempts cx w task snapshot
         (trace_emit w TraceRecoveryStart ''task interrupted; recovery started'' st\<lparr>ru_next := maxEvidenceSequence (sn_Evidence snapshot)\<rparr>))
       (\<lambda>_ st1. if ru_review st1 \<noteq> [] then stop_for_review cx w task (task_info (sn_Task snapshot)) st1
                 else continue_resume cx w task (task_info (sn_Task snapshot)) st1)"

definition Resume :: "Codec \<Rightarrow> ResumeWorld \<Rightarrow> string \<Rightarrow> Store \<Rightarrow> RecoveryPlan resuming" where
  "Resume cx w task s =
     (if task = [] then (Inl NoTaskID, resume_start s)
      else and_then (load_snapshot cx w task (resume_start s)) (\<lambda>snapshot st1.
        if isTerminalTaskStatus (rk_Status (sn_Task snapshot)) then (Inl (StoreFailed NotResumable), st1)
        else and_then (access w (\<lambda>fault. MarkRecoveryStarted cx fault task ''task interrupted; recovery started'') st1)
               (\<lambda>_. settle_and_decide cx w task snapshot)))"

end
