(* ===== verification/Recovery_Theorems.thy ===== *)
theory Recovery_Theorems
  imports Recovery Store_Run
begin

text \<open>
  What a resume does to the store, and what its decision says: it acts by operations of the store, repeats nothing,
  and continues only when every attempt is settled.
\<close>

section \<open>Threading\<close>

lemma and_then_cases:
  assumes "and_then p f = (r, st')"
  obtains (failed) e where "p = (Inl e, st')" "r = Inl e"
  | (passed) x st1 where "p = (Inr x, st1)" "f x st1 = (r, st')"
  using assms by (auto simp: and_then_def split: prod.splits sum.splits)

lemma access_cases:
  assumes "access w f st = (r, st')"
  obtains q s' where "f (rw_fault w (ru_calls st)) ((ru_store st)\<lparr>db_clock := rw_clock w (ru_calls st)\<rparr>) = (q, s')"
    "st' = st\<lparr>ru_store := s', ru_calls := Suc (ru_calls st)\<rparr>"
    "case q of Inl e \<Rightarrow> r = Inl (StoreFailed e) | Inr x \<Rightarrow> r = Inr x"
  using assms by (auto simp: access_def split: prod.splits sum.splits)

lemma trace_emit_frame [simp]:
  "ru_store (trace_emit w k t st) = ru_store st" "ru_calls (trace_emit w k t st) = ru_calls st" "ru_tools (trace_emit w k t st) = ru_tools st"
  "ru_review (trace_emit w k t st) = ru_review st" "ru_next (trace_emit w k t st) = ru_next st"
  by (simp_all add: trace_emit_def)

text \<open>What the operations of a resume do to the store, a resume does.\<close>

locale resume_relation =
  fixes cx :: Codec and R :: "Store \<Rightarrow> Store \<Rightarrow> bool"
  assumes R_refl: "R s s"
    and R_trans: "R s t \<Longrightarrow> R t u \<Longrightarrow> R s u"
    and R_tick: "R s (s\<lparr>db_clock := c\<rparr>)"
    and R_tool: "ReconcileToolAttempt cx fault m s = (q, s') \<Longrightarrow> rc_Status m \<in> {''reconciled'', ''human_review_required''} \<Longrightarrow> R s s'"
    and R_write: "ReconcileWriteAttempt cx fault m i data metadata s = (q, s') \<Longrightarrow> rc_Status m = ''reconciled'' \<Longrightarrow> R s s'"
    and R_provider: "ReconcileProviderAttempt cx fault wall p s = (q, s') \<Longrightarrow> rp_Status p = ''reconciled'' \<Longrightarrow> R s s'"
    and R_start: "MarkRecoveryStarted cx fault task reason s = (q, s') \<Longrightarrow> R s s'"
    and R_review: "MarkHumanReviewRequired cx fault task reason ids s = (q, s') \<Longrightarrow> R s s'"
    and R_event: "AppendRecoveryEvent cx fault task kind payload s = (q, s') \<Longrightarrow> kind \<in> recovery_kinds \<Longrightarrow> R s s'"
    and R_reset: "ResetInterruptedWorkUnits cx fault task reason s = (n, s') \<Longrightarrow> R s s'"
    and R_uncertain: "ReconcileUncertainWorkUnits cx faults task reason s = (n, s') \<Longrightarrow> R s s'"
begin

lemma access_R:
  assumes "access w f st = (r, st')" "\<And>fault s q s'. f fault s = (q, s') \<Longrightarrow> R s s'"
  shows "R (ru_store st) (ru_store st')"
  using assms(1) by (rule access_cases) (use R_trans [OF R_tick assms(2)] in simp)

lemma then_R:
  assumes "and_then p f = (r, st')" "\<And>x st1. p = (x, st1) \<Longrightarrow> R s (ru_store st1)"
    and "\<And>x st1. p = (Inr x, st1) \<Longrightarrow> f x st1 = (r, st') \<Longrightarrow> R (ru_store st1) (ru_store st')"
  shows "R s (ru_store st')"
  using assms(1) by (rule and_then_cases) (use assms(2,3) R_trans in blast)+

lemma then_keep_R:
  assumes "and_then p f = (r, st')" "\<And>x st1. p = (x, st1) \<Longrightarrow> R s (ru_store st1)"
    and "\<And>x st1. ru_store (snd (f x st1)) = ru_store st1"
  shows "R s (ru_store st')"
  using assms(1)
proof (rule and_then_cases)
  fix x st1
  assume "p = (Inr x, st1)" "f x st1 = (r, st')"
  then show ?thesis using assms(2) [of "Inr x" st1] assms(3) [of x st1] by simp
qed (use assms(2) in simp)

lemma mark_R: "access w (\<lambda>fault. ReconcileToolAttempt cx fault (tool_mark task e status reason)) st = (r, st') \<Longrightarrow>
    status \<in> {''reconciled'', ''human_review_required''} \<Longrightarrow> R (ru_store st) (ru_store st')"
  by (erule access_R, erule R_tool) (simp add: tool_mark_def)

lemma write_mark_R: "access w (\<lambda>fault. ReconcileWriteAttempt cx fault (tool_mark task e ''reconciled'' reason) i data metadata) st = (r, st') \<Longrightarrow>
    R (ru_store st) (ru_store st')"
  by (erule access_R, erule R_write) (simp add: tool_mark_def)

lemma reconcileWriteAttempt_R:
  assumes "reconcileWriteAttempt cx w task root a st = (r, st')"
  shows "R (ru_store st) (ru_store st')"
proof (cases "rl_Status (ReconcileWrite (rw_hash w) (rw_disk w (ru_calls st)) root (write_intent a))")
  case ReconcileCompleted
  obtain st1 r1 n evidence data metadata where "and_then (access w (\<lambda>fault. ReconcileWriteAttempt cx fault
      (tool_mark task (rt_ExecutionID a) ''reconciled'' ''write_effect_completed'') (evidence_id n) data metadata) (st\<lparr>ru_next := n\<rparr>))
      (\<lambda>_ st. (Inr False, st)) = (r, st')"
    using assms ReconcileCompleted by (auto simp: reconcileWriteAttempt_def Let_def split: prod.splits)
  then show ?thesis by (rule then_keep_R) (auto dest: write_mark_R)
qed (use assms in \<open>auto simp: reconcileWriteAttempt_def Let_def elim!: then_keep_R dest!: mark_R\<close>)

lemma settle_tool_R: "settle_tool cx w task root a st = (r, st') \<Longrightarrow> R (ru_store st) (ru_store st')"
  unfolding settle_tool_def
  by (cases "classifyToolAttempt a") (auto simp: R_refl elim!: then_keep_R dest!: mark_R reconcileWriteAttempt_R)

lemma settle_provider_R: "settle_provider cx w task p st = (r, st') \<Longrightarrow> R (ru_store st) (ru_store st')"
  unfolding settle_provider_def
  by (cases "classifyProviderAttempt p") (auto simp: R_refl provider_mark_def elim!: then_keep_R access_R intro: R_provider)

lemma settle_all_R:
  assumes "settle_all f xs st = (r, st')" "\<And>x st r st'. f x st = (r, st') \<Longrightarrow> R (ru_store st) (ru_store st')"
  shows "R (ru_store st) (ru_store st')"
  using assms(1)
proof (induction xs arbitrary: st)
  case (Cons x xs)
  show ?case using Cons.prems [unfolded settle_all.simps] by (rule then_R) (use assms(2) Cons.IH in blast)+
qed (simp add: R_refl)

lemma settle_attempts_R: "settle_attempts cx w task s st = (r, st') \<Longrightarrow> R (ru_store st) (ru_store st')"
  unfolding settle_attempts_def by (erule then_R) (blast intro: settle_all_R settle_tool_R settle_provider_R)+

lemma load_snapshot_R: "load_snapshot cx w task st = (r, st') \<Longrightarrow> R (ru_store st) (ru_store st')"
  unfolding load_snapshot_def by (erule access_R) (auto intro: R_refl)

lemma event_R: "access w (\<lambda>fault. AppendRecoveryEvent cx fault task kind payload) st = (r, st') \<Longrightarrow> kind \<in> recovery_kinds
    \<Longrightarrow> R (ru_store st) (ru_store st')"
  by (erule access_R) (rule R_event)

lemma stop_for_review_R: "stop_for_review cx w task info st = (r, st') \<Longrightarrow> R (ru_store st) (ru_store st')"
  unfolding stop_for_review_def Let_def by (erule then_keep_R) (auto elim!: access_R intro: R_review)

lemma cross_boundary_R: "cross_boundary cx w task info s st = (r, st') \<Longrightarrow> R (ru_store st) (ru_store st')"
  unfolding cross_boundary_def
proof (erule then_R, goal_cases)
  case (1 x st1)
  then show ?case by (auto simp: pending_for_def R_refl split: option.splits)
next
  case (2 x st1)
  show ?case
  proof (cases "rw_compile w s (current_signature w s) x")
    case None
    then show ?thesis using 2 by (simp add: R_refl)
  next
    case (Some c)
    obtain c1 c2 c3 where c: "c = (c1, c2, c3)" by (cases c) auto
    show ?thesis using 2(2) unfolding Some c Let_def option.case prod.case
      by (rule then_R) (auto elim!: then_keep_R dest!: event_R simp: recovery_kinds_def)
  qed
qed

lemma reset_and_cross_R: "reset_and_cross cx w task info st = (r, st') \<Longrightarrow> R (ru_store st) (ru_store st')"
  unfolding reset_and_cross_def
  by (erule then_R, erule access_R, erule R_reset, erule then_R, erule access_R, erule R_uncertain, erule then_R, erule load_snapshot_R,
      erule cross_boundary_R)

lemma continue_resume_R: "continue_resume cx w task info st = (r, st') \<Longrightarrow> R (ru_store st) (ru_store st')"
  unfolding continue_resume_def
proof (erule then_R, goal_cases)
  case (1 x st1)
  then show ?case by (rule load_snapshot_R)
next
  case (2 x st1)
  then show ?case
    by (auto split: option.splits prod.splits bool.splits elim!: then_keep_R dest!: event_R reset_and_cross_R simp: recovery_kinds_def)
qed

lemma settle_and_decide_R: "settle_and_decide cx w task snapshot st = (r, st') \<Longrightarrow> R (ru_store st) (ru_store st')"
  unfolding settle_and_decide_def
  by (erule then_R) (auto dest!: settle_attempts_R stop_for_review_R continue_resume_R split: if_splits)

lemma Resume_R:
  assumes "Resume cx w task s = (r, st')"
  shows "R s (ru_store st')"
proof (cases "task = []")
  case True
  then show ?thesis using assms by (auto simp: Resume_def resume_start_def R_refl)
next
  case False
  have start: "R (ru_store st1) (ru_store st2)" if "access w (\<lambda>fault. MarkRecoveryStarted cx fault task reason) st1 = (x, st2)" for x st1 st2 reason
    using that by (rule access_R) (rule R_start)
  show ?thesis using assms unfolding Resume_def if_not_P [OF False]
  proof (rule then_R)
    fix x st1
    assume "load_snapshot cx w task (resume_start s) = (x, st1)"
    then show "R s (ru_store st1)" using load_snapshot_R by (fastforce simp: resume_start_def)
  next
    show "R (ru_store st1) (ru_store st')" if "(if isTerminalTaskStatus (rk_Status (sn_Task snapshot)) then (Inl (StoreFailed NotResumable), st1)
        else and_then (access w (\<lambda>fault. MarkRecoveryStarted cx fault task ''task interrupted; recovery started'') st1) (\<lambda>_. settle_and_decide cx w task snapshot)) = (r, st')" for snapshot st1
    proof (cases "isTerminalTaskStatus (rk_Status (sn_Task snapshot))")
      case True
      then show ?thesis using that by (simp add: R_refl)
    next
      case False
      show ?thesis using that unfolding if_not_P [OF False] by (rule then_R) (erule start, erule settle_and_decide_R)
    qed
  qed
qed

end

section \<open>Operations of the store\<close>

interpretation resume_steps: resume_relation cx "(store_step cx)\<^sup>*\<^sup>*" for cx
proof
  show "(store_step cx)\<^sup>*\<^sup>* s u" if "(store_step cx)\<^sup>*\<^sup>* s t" "(store_step cx)\<^sup>*\<^sup>* t u" for s t u using that by (rule rtranclp_trans)
qed (auto intro: store_step.intros)

section \<open>Nothing is repeated\<close>

definition settled :: "string \<Rightarrow> bool" where
  "settled status \<longleftrightarrow> status \<in> {''completed'', ''failed'', ''reconciled'', ''canceled''}"

text \<open>What stays of an attempt: its identity and its intent, and all of a settled one.\<close>

definition tool_kept :: "ToolAttemptRow \<Rightarrow> ToolAttemptRow \<Rightarrow> bool" where
  "tool_kept a b \<longleftrightarrow> ta_execution_id b = ta_execution_id a \<and> ta_task_id b = ta_task_id a \<and> ta_action_id b = ta_action_id a \<and> ta_tool b = ta_tool a
     \<and> ta_arguments_json b = ta_arguments_json a \<and> ta_effect_after_hash b = ta_effect_after_hash a
     \<and> (settled (ta_status a) \<or> ta_status a = ''human_review_required'' \<longrightarrow> b = a) \<and> (b \<noteq> a \<longrightarrow> ta_status b \<in> {''reconciled'', ''human_review_required''})"

definition provider_kept :: "ProviderAttemptRow \<Rightarrow> ProviderAttemptRow \<Rightarrow> bool" where
  "provider_kept a b \<longleftrightarrow> pa_execution_id b = pa_execution_id a \<and> pa_task_id b = pa_task_id a \<and> pa_client_request_id b = pa_client_request_id a
     \<and> (settled (pa_status a) \<or> pa_status a = ''human_review_required'' \<longrightarrow> b = a) \<and> (b \<noteq> a \<longrightarrow> pa_status b = ''reconciled'')"

definition attempts_kept :: "Store \<Rightarrow> Store \<Rightarrow> bool" where
  "attempts_kept s s' \<longleftrightarrow> list_all2 tool_kept (db_tool_attempts s) (db_tool_attempts s')
     \<and> list_all2 provider_kept (db_provider_attempts s) (db_provider_attempts s') \<and> prefix (db_tool_results s) (db_tool_results s')"

lemma kept_refl [simp]: "tool_kept a a" "provider_kept p p"
  by (simp_all add: tool_kept_def provider_kept_def)

lemma kept_trans: "tool_kept a b \<Longrightarrow> tool_kept b c \<Longrightarrow> tool_kept a c" "provider_kept p q \<Longrightarrow> provider_kept q r \<Longrightarrow> provider_kept p r"
  by (auto simp: tool_kept_def provider_kept_def settled_def)

lemma all_kept_update:
  "(\<And>a. P a \<Longrightarrow> K a (f a)) \<Longrightarrow> (\<And>a. K a a) \<Longrightarrow> list_all2 K rows (update_where P f rows)"
  by (simp add: update_where_def list_all2_conv_all_nth)

lemma same_kept: "db_tool_attempts s' = db_tool_attempts s \<Longrightarrow> db_provider_attempts s' = db_provider_attempts s \<Longrightarrow>
    db_tool_results s' = db_tool_results s \<Longrightarrow> attempts_kept s s'"
  by (simp add: attempts_kept_def list_all2_refl)

lemma transaction_kept:
  assumes "transaction fault s body = (q, s')" "\<And>x t. body = Inr (x, t) \<Longrightarrow> attempts_kept s t"
  shows "attempts_kept s s'"
  using assms(1) by (rule transaction_cases) (use assms(2) in \<open>auto simp: same_kept\<close>)

lemma journal_frame:
  assumes "journal cx task kind payload x t = Inr (y, t')"
  shows "db_tool_attempts t' = db_tool_attempts t \<and> db_provider_attempts t' = db_provider_attempts t \<and> db_tool_results t' = db_tool_results t
    \<and> db_tasks t' = db_tasks t \<and> db_units t' = db_units t"
  using assms by (auto simp: journal_def appendEvent_def split: if_splits)

lemma reconcilable_open: "st \<in> set reconcilable_tool \<Longrightarrow> \<not> settled st \<and> st \<noteq> ''human_review_required''"
    "st \<in> set reconcilable_provider \<Longrightarrow> \<not> settled st \<and> st \<noteq> ''human_review_required''"
  by (auto simp: reconcilable_tool_def reconcilable_provider_def settled_def)

text \<open>What a committed reconciliation leaves.\<close>

lemma ReconcileToolAttempt_cases:
  assumes "ReconcileToolAttempt cx fault m s = (q, s')"
  obtains (failed) e where "q = Inl e" "s' = s"
  | (committed) reason now where "q = Inr ()" "db_provider_attempts s' = db_provider_attempts s" "db_tool_results s' = db_tool_results s"
      "db_tasks s' = db_tasks s" "db_units s' = db_units s"
      "\<exists>t \<in> set (db_tool_attempts s). ta_execution_id t = rc_ExecutionID m \<and> ta_task_id t = rc_TaskID m \<and> ta_status t \<in> set reconcilable_tool"
      "db_tool_attempts s' = update_where (\<lambda>t. ta_execution_id t = rc_ExecutionID m \<and> ta_task_id t = rc_TaskID m \<and> ta_status t \<in> set reconcilable_tool)
         (\<lambda>t. t\<lparr>ta_status := rc_Status m, ta_recovery_reason := reason, ta_completed_at := now\<rparr>) (db_tool_attempts s)"
proof -
  from assms show ?thesis unfolding ReconcileToolAttempt_def
  proof (cases rule: transaction_cases)
    case (committed x)
    then show ?thesis
      by (intro that(2) [where reason = "cx_redact cx (rc_Reason m)" and now = "now_text cx s"])
        (auto simp: Let_def affected_zero settle_action_def dest!: journal_frame split: if_splits)
  qed (rule that(1))
qed

lemma ReconcileWriteAttempt_cases:
  assumes "ReconcileWriteAttempt cx fault m i data metadata s = (q, s')"
  obtains (failed) e where "q = Inl e" "s' = s"
  | (committed) reason now rows where "q = Inr ()" "db_provider_attempts s' = db_provider_attempts s" "db_tool_results s' = db_tool_results s @ rows"
      "db_tasks s' = db_tasks s" "db_units s' = db_units s" "\<forall>r \<in> set rows. rr_evidence_id r = i"
      "\<exists>t \<in> set (db_tool_attempts s). ta_execution_id t = rc_ExecutionID m \<and> ta_task_id t = rc_TaskID m \<and> ta_status t \<in> set reconcilable_tool"
      "db_tool_attempts s' = update_where (\<lambda>t. ta_execution_id t = rc_ExecutionID m \<and> ta_task_id t = rc_TaskID m \<and> ta_status t \<in> set reconcilable_tool)
         (\<lambda>t. t\<lparr>ta_status := rc_Status m, ta_recovery_reason := reason, ta_evidence_id := i, ta_completed_at := now\<rparr>) (db_tool_attempts s)"
proof -
  from assms show ?thesis unfolding ReconcileWriteAttempt_def
  proof (cases rule: transaction_cases)
    case (committed x)
    let ?row = "\<lparr>rr_evidence_id = i, rr_task_id = rc_TaskID m, rr_execution_id = rc_ExecutionID m, rr_untrusted = True,
       rr_data_json = cx_redact cx data, rr_metadata_json = cx_redact cx metadata, rr_created_at = now_text cx s\<rparr>"
    show ?thesis using committed
      by (intro that(2) [where reason = "cx_redact cx (rc_Reason m)" and now = "now_text cx s"
            and rows = "if rc_Status m = ''reconciled'' \<and> i \<noteq> [] then [?row] else []"])
        (auto simp: Let_def affected_zero settle_action_def insert_result_def dest!: journal_frame split: if_splits sum.splits)
  qed (rule that(1))
qed

lemma debit_keeps_rows:
  assumes "applyConservativeGovernorDebit cx wall task at u = Inr t"
  shows "db_tool_attempts t = db_tool_attempts u \<and> db_provider_attempts t = db_provider_attempts u \<and> db_tool_results t = db_tool_results u
    \<and> db_tasks t = db_tasks u \<and> db_units t = db_units u"
proof -
  obtain p where "saveGovernorStateInTx cx p (now_text cx u) u = Inr t" using debit_save [OF assms] by blast
  then show ?thesis by (simp add: save_frame)
qed

lemma ReconcileProviderAttempt_cases:
  assumes "ReconcileProviderAttempt cx fault wall m s = (q, s')"
  obtains (failed) e where "q = Inl e" "s' = s"
  | (committed) reason now where "q = Inr ()" "db_tool_attempts s' = db_tool_attempts s" "db_tool_results s' = db_tool_results s"
      "db_tasks s' = db_tasks s" "db_units s' = db_units s"
      "\<exists>p \<in> set (db_provider_attempts s). pa_execution_id p = rp_ExecutionID m \<and> pa_task_id p = rp_TaskID m \<and> pa_status p \<in> set reconcilable_provider"
      "db_provider_attempts s' = update_where (\<lambda>p. pa_execution_id p = rp_ExecutionID m \<and> pa_task_id p = rp_TaskID m \<and> pa_status p \<in> set reconcilable_provider)
         (\<lambda>p. p\<lparr>pa_status := rp_Status m, pa_recovery_reason := reason, pa_uncertain := rp_Uncertain m,
             pa_attempt_debited := rp_AttemptDebited m, pa_completed_at := now\<rparr>) (db_provider_attempts s)"
proof -
  from assms show ?thesis unfolding ReconcileProviderAttempt_def
  proof (cases rule: transaction_cases)
    case (committed x)
    show ?thesis using committed
      by (intro that(2) [where reason = "cx_redact cx (rp_Reason m)" and now = "now_text cx s"])
        (auto simp: Let_def affected_zero dest!: journal_frame debit_keeps_rows split: if_splits sum.splits)
  qed (rule that(1))
qed

lemma task_updates_frame:
  assumes "transaction fault s (if affected P (db_tasks s) = 0 then Inl err
       else journal cx task kind payload () (s\<lparr>db_tasks := update_where P f (db_tasks s)\<rparr>)) = (q, s')"
  shows "db_tool_attempts s' = db_tool_attempts s \<and> db_provider_attempts s' = db_provider_attempts s \<and> db_tool_results s' = db_tool_results s
    \<and> db_units s' = db_units s \<and> (q = Inr () \<longrightarrow> affected P (db_tasks s) \<noteq> 0 \<and> db_tasks s' = update_where P f (db_tasks s))"
  using assms by (rule transaction_cases) (auto dest!: journal_frame split: if_splits)

lemma reset_units_frame: "reset_units cx task reason ids s = Inr s' \<Longrightarrow>
    db_tool_attempts s' = db_tool_attempts s \<and> db_provider_attempts s' = db_provider_attempts s \<and> db_tool_results s' = db_tool_results s"
  by (induction cx task reason ids s rule: reset_units.induct) (auto dest!: journal_frame split: sum.splits)

lemma TransitionWorkUnit_frame: "TransitionWorkUnit cx fault task u from to reason s = (q, s') \<Longrightarrow>
    db_tool_attempts s' = db_tool_attempts s \<and> db_provider_attempts s' = db_provider_attempts s \<and> db_tool_results s' = db_tool_results s"
  unfolding TransitionWorkUnit_def Let_def
  by (auto split: if_splits elim!: transaction_cases dest!: journal_frame)

lemma reconcile_units_frame: "reconcile_units cx fault task reason us n s = (q, s') \<Longrightarrow>
    db_tool_attempts s' = db_tool_attempts s \<and> db_provider_attempts s' = db_provider_attempts s \<and> db_tool_results s' = db_tool_results s"
  by (induction cx fault task reason us n s rule: reconcile_units.induct)
    (auto split: if_splits prod.splits sum.splits dest!: TransitionWorkUnit_frame)

lemma unit_resets_frame:
  "ResetInterruptedWorkUnits cx fault task reason s = (n, s') \<Longrightarrow>
     db_tool_attempts s' = db_tool_attempts s \<and> db_provider_attempts s' = db_provider_attempts s \<and> db_tool_results s' = db_tool_results s"
  "ReconcileUncertainWorkUnits cx faults task reason s = (n, s') \<Longrightarrow>
     db_tool_attempts s' = db_tool_attempts s \<and> db_provider_attempts s' = db_provider_attempts s \<and> db_tool_results s' = db_tool_results s"
  by (auto simp: ResetInterruptedWorkUnits_def ReconcileUncertainWorkUnits_def Let_def split: sum.splits elim!: transaction_cases
      dest!: reset_units_frame reconcile_units_frame)

lemma event_frame: "AppendRecoveryEvent cx fault task kind payload s = (q, s') \<Longrightarrow>
    db_tool_attempts s' = db_tool_attempts s \<and> db_provider_attempts s' = db_provider_attempts s \<and> db_tool_results s' = db_tool_results s
    \<and> db_tasks s' = db_tasks s \<and> db_units s' = db_units s"
  unfolding AppendRecoveryEvent_def by (erule transaction_cases) (auto dest!: journal_frame)

lemma marks_frame:
  "MarkRecoveryStarted cx fault task reason s = (q, s') \<Longrightarrow>
    db_tool_attempts s' = db_tool_attempts s \<and> db_provider_attempts s' = db_provider_attempts s \<and> db_tool_results s' = db_tool_results s"
  "MarkHumanReviewRequired cx fault task reason ids s = (q, s') \<Longrightarrow>
    db_tool_attempts s' = db_tool_attempts s \<and> db_provider_attempts s' = db_provider_attempts s \<and> db_tool_results s' = db_tool_results s"
  unfolding MarkRecoveryStarted_def MarkHumanReviewRequired_def by (drule task_updates_frame, simp)+

interpretation resume_kept: resume_relation cx attempts_kept for cx
proof (unfold_locales, goal_cases)
  case (2 s t u)
  then show ?case using list_all2_trans [of tool_kept tool_kept tool_kept] list_all2_trans [of provider_kept provider_kept provider_kept] kept_trans
    unfolding attempts_kept_def by (metis prefix_order.order_trans)
next
  case (4 fault m s q s')
  from 4(1) show ?case
    by (rule ReconcileToolAttempt_cases)
      (use 4(2) in \<open>auto simp: same_kept attempts_kept_def list_all2_refl tool_kept_def dest: reconcilable_open intro!: all_kept_update\<close>)
next
  case (5 fault m i data metadata s q s')
  from 5(1) show ?case
    by (rule ReconcileWriteAttempt_cases)
      (use 5(2) in \<open>auto simp: same_kept attempts_kept_def list_all2_refl tool_kept_def dest: reconcilable_open intro!: all_kept_update\<close>)
next
  case (6 fault wall m s q s')
  from 6(1) show ?case
    by (rule ReconcileProviderAttempt_cases)
      (use 6(2) in \<open>auto simp: same_kept attempts_kept_def list_all2_refl provider_kept_def dest: reconcilable_open intro!: all_kept_update\<close>)
qed (auto intro!: same_kept dest: marks_frame event_frame unit_resets_frame)

section \<open>Attempts are settled\<close>

definition tool_settled :: "string \<Rightarrow> string \<Rightarrow> Store \<Rightarrow> bool" where
  "tool_settled task e s \<longleftrightarrow> (\<forall>t \<in> set (db_tool_attempts s). ta_execution_id t = e \<longrightarrow> ta_task_id t = task \<longrightarrow> settled (ta_status t))"

definition provider_settled :: "string \<Rightarrow> string \<Rightarrow> Store \<Rightarrow> bool" where
  "provider_settled task e s \<longleftrightarrow> (\<forall>p \<in> set (db_provider_attempts s). pa_execution_id p = e \<longrightarrow> pa_task_id p = task \<longrightarrow> settled (pa_status p))"

definition unique_attempts :: "Store \<Rightarrow> bool" where
  "unique_attempts s \<longleftrightarrow> distinct (map ta_execution_id (db_tool_attempts s)) \<and> distinct (map pa_execution_id (db_provider_attempts s))"

lemma all_kept_in: "list_all2 K xs ys \<Longrightarrow> y \<in> set ys \<Longrightarrow> \<exists>x \<in> set xs. K x y"
  by (induction rule: list_all2_induct) auto

lemma all_kept_keys: "list_all2 K xs ys \<Longrightarrow> (\<And>x y. K x y \<Longrightarrow> key y = key x) \<Longrightarrow> map key ys = map key xs"
  by (induction rule: list_all2_induct) auto

lemma kept_settled:
  assumes "attempts_kept s s'"
  shows "tool_settled task e s \<Longrightarrow> tool_settled task e s'" "provider_settled task e s \<Longrightarrow> provider_settled task e s'"
    "unique_attempts s \<Longrightarrow> unique_attempts s'"
proof -
  have k: "list_all2 tool_kept (db_tool_attempts s) (db_tool_attempts s')" "list_all2 provider_kept (db_provider_attempts s) (db_provider_attempts s')"
    using assms by (simp_all add: attempts_kept_def)
  show "tool_settled task e s \<Longrightarrow> tool_settled task e s'"
    unfolding tool_settled_def tool_kept_def using all_kept_in [OF k(1)] unfolding tool_kept_def by metis
  show "provider_settled task e s \<Longrightarrow> provider_settled task e s'"
    unfolding provider_settled_def using all_kept_in [OF k(2)] unfolding provider_kept_def by metis
  have "map ta_execution_id (db_tool_attempts s') = map ta_execution_id (db_tool_attempts s)"
    by (rule all_kept_keys [OF k(1)]) (simp add: tool_kept_def)
  moreover have "map pa_execution_id (db_provider_attempts s') = map pa_execution_id (db_provider_attempts s)"
    by (rule all_kept_keys [OF k(2)]) (simp add: provider_kept_def)
  ultimately show "unique_attempts s \<Longrightarrow> unique_attempts s'" by (simp add: unique_attempts_def)
qed

text \<open>Keys are unique, so an update that meets the row of a key leaves no other row of it.\<close>

lemma update_settles:
  assumes "distinct (map key rows)" "\<exists>r \<in> set rows. P r" "\<And>r. P r \<Longrightarrow> key r = e" "\<And>r. key (f r) = key r" "\<And>r. good (f r)"
  shows "\<forall>b \<in> set (update_where P f rows). key b = e \<longrightarrow> good b"
proof (intro ballI impI)
  fix b
  assume "b \<in> set (update_where P f rows)" "key b = e"
  then obtain q where q: "q \<in> set rows" "b = (if P q then f q else q)" by (auto simp: in_update_where)
  obtain r where r: "r \<in> set rows" "P r" using assms(2) by blast
  have "key q = key r" using q(2) \<open>key b = e\<close> assms(3,4) r(2) by (metis (full_types))
  then have "q = r" using assms(1) q(1) r(1) by (auto simp: distinct_map inj_on_def)
  then show "good b" using q(2) r(2) assms(5) by simp
qed

lemma mark_settles:
  assumes "access w (\<lambda>fault. ReconcileToolAttempt cx fault (tool_mark task e ''reconciled'' reason)) st = (Inr x, st')"
    and "unique_attempts (ru_store st)"
  shows "tool_settled task e (ru_store st') \<and> ru_review st' = ru_review st"
  using assms(1)
proof (rule access_cases)
  fix q s'
  assume c: "ReconcileToolAttempt cx (rw_fault w (ru_calls st)) (tool_mark task e ''reconciled'' reason)
        ((ru_store st)\<lparr>db_clock := rw_clock w (ru_calls st)\<rparr>) = (q, s')"
    "st' = st\<lparr>ru_store := s', ru_calls := Suc (ru_calls st)\<rparr>" "case q of Inl e \<Rightarrow> Inr x = Inl (StoreFailed e) | Inr y \<Rightarrow> Inr x = (Inr y :: resume_error + unit)"
  from c(1) show ?thesis
  proof (cases rule: ReconcileToolAttempt_cases)
    case (committed reason' now)
    have "\<forall>b \<in> set (db_tool_attempts s'). ta_execution_id b = e \<longrightarrow> settled (ta_status b)"
      unfolding committed(7) by (rule update_settles) (use assms(2) committed(6) in \<open>auto simp: unique_attempts_def tool_mark_def settled_def\<close>)
    then show ?thesis using c(2) by (simp add: tool_settled_def)
  qed (use c(3) in simp)
qed

lemma write_mark_settles:
  assumes "access w (\<lambda>fault. ReconcileWriteAttempt cx fault (tool_mark task e ''reconciled'' reason) i data metadata) st = (Inr x, st')"
    and "unique_attempts (ru_store st)"
  shows "tool_settled task e (ru_store st') \<and> ru_review st' = ru_review st"
  using assms(1)
proof (rule access_cases)
  fix q s'
  assume c: "ReconcileWriteAttempt cx (rw_fault w (ru_calls st)) (tool_mark task e ''reconciled'' reason) i data metadata
        ((ru_store st)\<lparr>db_clock := rw_clock w (ru_calls st)\<rparr>) = (q, s')"
    "st' = st\<lparr>ru_store := s', ru_calls := Suc (ru_calls st)\<rparr>" "case q of Inl e \<Rightarrow> Inr x = Inl (StoreFailed e) | Inr y \<Rightarrow> Inr x = (Inr y :: resume_error + unit)"
  from c(1) show ?thesis
  proof (cases rule: ReconcileWriteAttempt_cases)
    case (committed reason' now rows)
    have "\<forall>b \<in> set (db_tool_attempts s'). ta_execution_id b = e \<longrightarrow> settled (ta_status b)"
      unfolding committed(8) by (rule update_settles) (use assms(2) committed(7) in \<open>auto simp: unique_attempts_def tool_mark_def settled_def\<close>)
    then show ?thesis using c(2) by (simp add: tool_settled_def)
  qed (use c(3) in simp)
qed

lemma provider_mark_settles:
  assumes "access w (\<lambda>fault. ReconcileProviderAttempt cx fault wall (provider_mark task p)) st = (Inr x, st')"
    and "unique_attempts (ru_store st)"
  shows "provider_settled task (ry_ExecutionID p) (ru_store st') \<and> ru_review st' = ru_review st"
  using assms(1)
proof (rule access_cases)
  fix q s'
  assume c: "ReconcileProviderAttempt cx (rw_fault w (ru_calls st)) wall (provider_mark task p)
        ((ru_store st)\<lparr>db_clock := rw_clock w (ru_calls st)\<rparr>) = (q, s')"
    "st' = st\<lparr>ru_store := s', ru_calls := Suc (ru_calls st)\<rparr>" "case q of Inl e \<Rightarrow> Inr x = Inl (StoreFailed e) | Inr y \<Rightarrow> Inr x = (Inr y :: resume_error + unit)"
  from c(1) show ?thesis
  proof (cases rule: ReconcileProviderAttempt_cases)
    case (committed reason' now)
    have "\<forall>b \<in> set (db_provider_attempts s'). pa_execution_id b = ry_ExecutionID p \<longrightarrow> settled (pa_status b)"
      unfolding committed(7) by (rule update_settles) (use assms(2) committed(6) in \<open>auto simp: unique_attempts_def provider_mark_def settled_def\<close>)
    then show ?thesis using c(2) by (simp add: provider_settled_def)
  qed (use c(3) in simp)
qed

lemma class_open: "\<not> settled (rt_Status a) \<Longrightarrow> classifyToolAttempt a \<in> {toolReplaySafe, toolWriteReconcile, toolHumanReview}"
    "settled (rt_Status a) \<Longrightarrow> classifyToolAttempt a \<in> {toolVerified, toolFailed, toolNoop}"
  by (auto simp: classifyToolAttempt_def settled_def)

lemma provider_class: "\<not> settled (ry_Status p) \<Longrightarrow> classifyProviderAttempt p \<in> {providerConservative, providerHumanReview}"
    "settled (ry_Status p) \<Longrightarrow> classifyProviderAttempt p = providerDone"
  by (auto simp: classifyProviderAttempt_def settled_def)

lemma reconcileWriteAttempt_settles:
  assumes "reconcileWriteAttempt cx w task root a st = (Inr review, st')" "unique_attempts (ru_store st)"
  shows "(\<not> review \<longrightarrow> tool_settled task (rt_ExecutionID a) (ru_store st')) \<and> ru_review st' = ru_review st"
proof (cases "rl_Status (ReconcileWrite (rw_hash w) (rw_disk w (ru_calls st)) root (write_intent a))")
  case ReconcileNotStarted
  then obtain x where "access w (\<lambda>fault. ReconcileToolAttempt cx fault (tool_mark task (rt_ExecutionID a) ''reconciled'' ''write_effect_not_started'')) st = (Inr x, st')"
    using assms(1) by (auto simp: reconcileWriteAttempt_def Let_def elim!: and_then_cases)
  then show ?thesis using mark_settles assms(2) by blast
next
  case ReconcileCompleted
  then obtain x n i data metadata where "access w (\<lambda>fault. ReconcileWriteAttempt cx fault (tool_mark task (rt_ExecutionID a) ''reconciled'' ''write_effect_completed'')
      i data metadata) (st\<lparr>ru_next := n\<rparr>) = (Inr x, st')"
    using assms(1) by (auto simp: reconcileWriteAttempt_def Let_def elim!: and_then_cases split: prod.splits)
  from write_mark_settles [OF this] show ?thesis using assms(2) by simp
next
  case ReconcileHumanReview
  then obtain x where x: "access w (\<lambda>fault. ReconcileToolAttempt cx fault (tool_mark task (rt_ExecutionID a) ''human_review_required'' ''write_effect_unreconcilable'')) st = (Inr x, st')"
    "review"
    using assms(1) by (auto simp: reconcileWriteAttempt_def Let_def elim!: and_then_cases)
  from x(1) show ?thesis by (rule access_cases) (simp add: x(2))
qed

lemma settle_tool_settles:
  assumes "settle_tool cx w task root a st = (Inr x, st')" "unique_attempts (ru_store st)"
    and "settled (rt_Status a) \<Longrightarrow> tool_settled task (rt_ExecutionID a) (ru_store st)"
  shows "ru_review st' = [] \<longrightarrow> tool_settled task (rt_ExecutionID a) (ru_store st') \<and> ru_review st = []"
proof (cases "settled (rt_Status a)")
  case True
  then show ?thesis using assms(1,3) class_open(2) [OF True] by (auto simp: settle_tool_def)
next
  case False
  consider "classifyToolAttempt a = toolReplaySafe" | "classifyToolAttempt a = toolWriteReconcile" | "classifyToolAttempt a = toolHumanReview"
    using class_open(1) [OF False] by blast
  then show ?thesis
  proof cases
    case 1
    then obtain y st1 where "access w (\<lambda>fault. ReconcileToolAttempt cx fault (tool_mark task (rt_ExecutionID a) ''reconciled'' ''replay_safe_observation'')) st = (Inr y, st1)"
      "ru_store st' = ru_store st1" "ru_review st' = ru_review st1"
      using assms(1) by (auto simp: settle_tool_def elim!: and_then_cases)
    then show ?thesis using mark_settles assms(2) by metis
  next
    case 2
    then obtain review st1 where "reconcileWriteAttempt cx w task root a st = (Inr review, st1)" "ru_store st' = ru_store st1"
      "ru_review st' = (if review then ru_review st1 @ [rt_ExecutionID a] else ru_review st1)"
      using assms(1) by (auto simp: settle_tool_def elim!: and_then_cases split: if_splits)
    then show ?thesis using reconcileWriteAttempt_settles assms(2) by (cases review) fastforce+
  next
    case 3
    then have "ru_review st' \<noteq> []" using assms(1) by (auto simp: settle_tool_def elim!: and_then_cases)
    then show ?thesis by simp
  qed
qed

lemma settle_provider_settles:
  assumes "settle_provider cx w task p st = (Inr x, st')" "unique_attempts (ru_store st)"
    and "settled (ry_Status p) \<Longrightarrow> provider_settled task (ry_ExecutionID p) (ru_store st)"
  shows "ru_review st' = [] \<longrightarrow> provider_settled task (ry_ExecutionID p) (ru_store st') \<and> ru_review st = []"
proof (cases "settled (ry_Status p)")
  case True
  then show ?thesis using assms(1,3) provider_class(2) by (auto simp: settle_provider_def)
next
  case False
  then consider "classifyProviderAttempt p = providerConservative" | "classifyProviderAttempt p = providerHumanReview"
    using provider_class(1) [OF False] by blast
  then show ?thesis
  proof cases
    case 1
    then obtain y st1 where "access w (\<lambda>fault. ReconcileProviderAttempt cx fault (rw_wall w (ru_calls st)) (provider_mark task p)) st = (Inr y, st1)"
      "ru_store st' = ru_store st1" "ru_review st' = ru_review st1"
      using assms(1) by (auto simp: settle_provider_def elim!: and_then_cases)
    then show ?thesis using provider_mark_settles assms(2) by metis
  next
    case 2
    then show ?thesis using assms(1) by (auto simp: settle_provider_def)
  qed
qed

text \<open>Settling one after the other: what is settled stays so.\<close>

lemma settle_all_settles:
  assumes "settle_all f xs st = (Inr (), st')" "unique_attempts (ru_store st)"
    and keep: "\<And>x st r st'. f x st = (r, st') \<Longrightarrow> attempts_kept (ru_store st) (ru_store st')"
    and one: "\<And>x st st'. f x st = (Inr (), st') \<Longrightarrow> unique_attempts (ru_store st) \<Longrightarrow> (before x \<Longrightarrow> good x (ru_store st)) \<Longrightarrow>
        ru_review st' = [] \<longrightarrow> good x (ru_store st') \<and> ru_review st = []"
    and stays: "\<And>x s s'. attempts_kept s s' \<Longrightarrow> good x s \<Longrightarrow> good x s'"
    and "\<And>x. x \<in> set xs \<Longrightarrow> before x \<Longrightarrow> good x (ru_store st)"
  shows "ru_review st' = [] \<longrightarrow> (\<forall>x \<in> set xs. good x (ru_store st')) \<and> ru_review st = []"
  using assms(1,2,6)
proof (induction xs arbitrary: st)
  case (Cons x xs)
  from Cons.prems(1) obtain st1 where c: "f x st = (Inr (), st1)" "settle_all f xs st1 = (Inr (), st')"
    by (auto elim!: and_then_cases)
  note k = keep [OF c(1)]
  note rest = resume_kept.settle_all_R [OF c(2) keep]
  have "ru_review st' = [] \<longrightarrow> (\<forall>x \<in> set xs. good x (ru_store st')) \<and> ru_review st1 = []"
    by (rule Cons.IH [OF c(2) kept_settled(3) [OF k Cons.prems(2)]]) (use Cons.prems(3) stays [OF k] in auto)
  moreover have "ru_review st1 = [] \<longrightarrow> good x (ru_store st1) \<and> ru_review st = []"
    by (rule one [OF c(1) Cons.prems(2)]) (use Cons.prems(3) in auto)
  ultimately show ?case using stays [OF rest] by auto
qed simp

text \<open>The stages a resume that returns a plan went through.\<close>

lemma Resume_stages:
  assumes "Resume cx w task s = (Inr plan, st')"
  obtains snapshot st1 st2 st3 where "load_snapshot cx w task (resume_start s) = (Inr snapshot, st1)"
    "access w (\<lambda>fault. MarkRecoveryStarted cx fault task ''task interrupted; recovery started'') st1 = (Inr (), st2)"
    "settle_attempts cx w task snapshot
       (trace_emit w TraceRecoveryStart ''task interrupted; recovery started'' st2\<lparr>ru_next := maxEvidenceSequence (sn_Evidence snapshot)\<rparr>) = (Inr (), st3)"
    "(if ru_review st3 \<noteq> [] then stop_for_review cx w task (task_info (sn_Task snapshot)) st3
      else continue_resume cx w task (task_info (sn_Task snapshot)) st3) = (Inr plan, st')"
  using assms unfolding Resume_def settle_and_decide_def
  by (auto split: if_splits elim!: and_then_cases)

lemma load_snapshot_Inr:
  assumes "load_snapshot cx w task st = (Inr snapshot, st')"
  shows "LoadRecoverySnapshot cx (rw_fault w (ru_calls st)) task ((ru_store st)\<lparr>db_clock := rw_clock w (ru_calls st)\<rparr>) = Inr snapshot
    \<and> ru_store st' = (ru_store st)\<lparr>db_clock := rw_clock w (ru_calls st)\<rparr> \<and> ru_review st' = ru_review st \<and> ru_next st' = ru_next st"
  using assms unfolding load_snapshot_def by (rule access_cases) (auto split: sum.splits)

lemma snapshot_attempts:
  assumes "LoadRecoverySnapshot cx fault task s = Inr snapshot"
  shows "sn_ToolAttempts snapshot = loadRecoveryToolAttempts task s" "loadRecoveryProviderAttempts cx task s = Inr (sn_ProviderAttempts snapshot)"
    "sn_Evidence snapshot = loadRecoveryEvidence task s"
  using assms by (auto simp: LoadRecoverySnapshot_def Let_def split: option.splits sum.splits prod.splits)

lemma snapshot_tool:
  "a \<in> set (loadRecoveryToolAttempts task s) \<longleftrightarrow> (\<exists>t \<in> set (db_tool_attempts s). ta_task_id t = task \<and> a = recovery_tool_attempt t)"
  by (auto simp: loadRecoveryToolAttempts_def)

lemma those_in: "those xs = Some ys \<Longrightarrow> (y \<in> set ys \<longleftrightarrow> Some y \<in> set xs)"
  by (induction xs arbitrary: ys) (auto split: option.splits)

lemma those_Some: "those xs = Some ys \<Longrightarrow> x \<in> set xs \<Longrightarrow> \<exists>y. x = Some y"
  by (induction xs arbitrary: ys) (auto split: option.splits)

lemma snapshot_provider:
  assumes "loadRecoveryProviderAttempts cx task s = Inr ps"
  shows "p \<in> set ps \<longleftrightarrow> (\<exists>q \<in> set (db_provider_attempts s). pa_task_id q = task \<and> recovery_provider_attempt cx q = Some p)"
    "q \<in> set (db_provider_attempts s) \<Longrightarrow> pa_task_id q = task \<Longrightarrow> \<exists>p. recovery_provider_attempt cx q = Some p"
proof -
  obtain t where t: "those (map (recovery_provider_attempt cx) (sort_key (\<lambda>p. (pa_created_at p, pa_execution_id p))
      (filter (\<lambda>p. pa_task_id p = task) (db_provider_attempts s)))) = Some ps"
    using assms by (auto simp: loadRecoveryProviderAttempts_def split: option.splits)
  show "p \<in> set ps \<longleftrightarrow> (\<exists>q \<in> set (db_provider_attempts s). pa_task_id q = task \<and> recovery_provider_attempt cx q = Some p)"
    using those_in [OF t, of p] by (auto simp: image_iff)
  show "q \<in> set (db_provider_attempts s) \<Longrightarrow> pa_task_id q = task \<Longrightarrow> \<exists>p. recovery_provider_attempt cx q = Some p"
    using those_Some [OF t, of "recovery_provider_attempt cx q"] by auto
qed

lemma recovery_rows:
  "rt_ExecutionID (recovery_tool_attempt t) = ta_execution_id t" "rt_Status (recovery_tool_attempt t) = ta_status t"
  "recovery_provider_attempt cx q = Some p \<Longrightarrow> ry_ExecutionID p = pa_execution_id q \<and> ry_Status p = pa_status q"
  by (auto simp: recovery_tool_attempt_def recovery_provider_attempt_def split: option.splits)

definition idle :: "string \<Rightarrow> Store \<Rightarrow> bool" where
  "idle task s \<longleftrightarrow> (\<forall>u \<in> set (db_units s). wu_TaskID u = task \<longrightarrow> wu_Status u \<noteq> ''running'')"

lemma units_move_idle:
  assumes "units_move {(a, b)} s s'" "b \<noteq> ''running''" "idle task s"
  shows "idle task s'"
proof -
  have l: "list_all2 (moves {(a, b)}) (db_units s) (db_units s')" using assms(1) by (simp add: units_move_def)
  show ?thesis unfolding idle_def
  proof (intro ballI impI)
    fix u
    assume "u \<in> set (db_units s')" "wu_TaskID u = task"
    with all_kept_in [OF l] obtain v where v: "v \<in> set (db_units s)" "moves {(a, b)} v u" by blast
    have "unit_definition u = unit_definition v" "wu_Status u = wu_Status v \<or> wu_Status u = b" using v(2) by (auto simp: moves_def)
    then have "wu_TaskID v = wu_TaskID u" "wu_Status u = wu_Status v \<or> wu_Status u = b"
      by (auto simp: unit_definition_def dest: arg_cong [of _ _ wu_TaskID])
    then show "wu_Status u \<noteq> ''running''" using assms(2,3) v(1) \<open>wu_TaskID u = task\<close> by (auto simp: idle_def)
  qed
qed

lemma same_units: "db_units s' = db_units s \<Longrightarrow> idle task s \<longrightarrow> idle task s'"
  by (simp add: idle_def)

lemma reconciliations_units:
  "ReconcileToolAttempt cx fault m s = (q, s') \<Longrightarrow> db_units s' = db_units s"
  "ReconcileWriteAttempt cx fault m i data metadata s = (q, s') \<Longrightarrow> db_units s' = db_units s"
  "ReconcileProviderAttempt cx fault wall p s = (q, s') \<Longrightarrow> db_units s' = db_units s"
  by (erule ReconcileToolAttempt_cases ReconcileWriteAttempt_cases ReconcileProviderAttempt_cases; simp)+

interpretation resume_idle: resume_relation cx "\<lambda>s s'. idle task s \<longrightarrow> idle task s'" for cx task
proof (unfold_locales, goal_cases)
  case (4 fault m s q s')
  show ?case by (rule same_units, rule reconciliations_units, rule 4(1))
next
  case (5 fault m i data metadata s q s')
  show ?case by (rule same_units, rule reconciliations_units, rule 5(1))
next
  case (6 fault wall m s q s')
  show ?case by (rule same_units, rule reconciliations_units, rule 6(1))
next
  case (7 fault task' reason s q s')
  show ?case using task_updates_frame [OF 7 [unfolded MarkRecoveryStarted_def]] same_units by blast
next
  case (8 fault task' reason ids s q s')
  show ?case using task_updates_frame [OF 8 [unfolded MarkHumanReviewRequired_def]] same_units by blast
next
  case (9 fault task' kind payload s q s')
  then show ?case using event_frame same_units by blast
next
  case (10 fault task' reason s n s')
  then show ?case using units_move_idle [OF ResetInterruptedWorkUnits_moves] by blast
next
  case (11 faults task' reason s n s')
  then show ?case using units_move_idle [OF ReconcileUncertainWorkUnits_moves] by blast
qed (auto simp: idle_def)

lemma reset_units_done:
  assumes "reset_units cx task reason ids s = Inr s'"
    and "\<forall>u \<in> set (db_units s). wu_TaskID u = task \<longrightarrow> wu_Status u = ''running'' \<longrightarrow> wu_WorkUnitID u \<in> set ids"
  shows "idle task s'"
  using assms
proof (induction cx task reason ids s rule: reset_units.induct)
  case (2 cx task reason unit units s)
  obtain t where t: "journal cx task ''workunit_transition'' (transition_payload unit ''running'' ''ready'' reason) ()
        (s\<lparr>db_units := update_where (\<lambda>u. wu_WorkUnitID u = unit \<and> wu_TaskID u = task \<and> wu_Status u = ''running'')
           (\<lambda>u. u\<lparr>wu_Status := ''ready'', wu_UpdatedAt := now_text cx s\<rparr>) (db_units s)\<rparr>) = Inr ((), t)"
      "reset_units cx task reason units t = Inr s'"
    using 2(2) by (auto split: sum.splits)
  have "\<forall>u \<in> set (db_units t). wu_TaskID u = task \<longrightarrow> wu_Status u = ''running'' \<longrightarrow> wu_WorkUnitID u \<in> set units"
  proof (intro ballI impI)
    fix u
    assume u: "u \<in> set (db_units t)" "wu_TaskID u = task" "wu_Status u = ''running''"
    let ?P = "\<lambda>u. wu_WorkUnitID u = unit \<and> wu_TaskID u = task \<and> wu_Status u = ''running''"
    have "db_units t = update_where ?P (\<lambda>u. u\<lparr>wu_Status := ''ready'', wu_UpdatedAt := now_text cx s\<rparr>) (db_units s)"
      using journal_frame [OF t(1)] by simp
    then have "\<exists>v \<in> set (db_units s). u = (if ?P v then v\<lparr>wu_Status := ''ready'', wu_UpdatedAt := now_text cx s\<rparr> else v)"
      using u(1) by (simp only: in_update_where)
    then obtain v where v: "v \<in> set (db_units s)" "u = (if ?P v then v\<lparr>wu_Status := ''ready'', wu_UpdatedAt := now_text cx s\<rparr> else v)"
      by (rule bexE)
    have np: "\<not> ?P v"
    proof
      assume "?P v"
      then have "wu_Status u = ''ready''" unfolding v(2) by simp
      then show False using u(3) by simp
    qed
    then have "u = v" unfolding v(2) by (rule if_not_P)
    with np show "wu_WorkUnitID u \<in> set units" using 2(3) u v(1) by auto
  qed
  then show ?case using 2(1) [OF t(1) refl t(2)] by blast
qed (auto simp: idle_def)

lemma ResetInterruptedWorkUnits_idle:
  assumes "ResetInterruptedWorkUnits cx fault task reason s = (Inr n, s')"
  shows "idle task s'"
  using assms unfolding ResetInterruptedWorkUnits_def
proof (cases rule: transaction_cases)
  case (committed x)
  then obtain r where "reset_units cx task reason (map wu_WorkUnitID (filter (\<lambda>u. wu_TaskID u = task \<and> wu_Status u = ''running'') (db_units s))) s = Inr r" "s' = r"
    by (auto simp: Let_def split: sum.splits)
  then show ?thesis using reset_units_done by fastforce
qed simp

section \<open>Decisions\<close>

lemma reset_and_cross_idle:
  assumes "reset_and_cross cx w task info st = (Inr plan, st')"
  shows "idle task (ru_store st')"
proof -
  obtain n st1 where r: "access w (\<lambda>fault. ResetInterruptedWorkUnits cx fault task ''interrupted; attempts reconciled'') st = (Inr n, st1)"
    "and_then (access w (\<lambda>fault. ReconcileUncertainWorkUnits cx (rw_unitFault w) task ''effects reconciled by recovery'') st1) (\<lambda>_ st2.
       and_then (load_snapshot cx w task st2) (\<lambda>snapshot. cross_boundary cx w task info snapshot)) = (Inr plan, st')"
    using assms unfolding reset_and_cross_def by (rule and_then_cases) (simp, erule (1) that)
  from r(1) have "idle task (ru_store st1)"
    by (rule access_cases) (auto split: sum.splits dest: ResetInterruptedWorkUnits_idle)
  moreover from r(2) have "idle task (ru_store st1) \<longrightarrow> idle task (ru_store st')"
    by (rule resume_idle.then_R)
      (erule resume_idle.access_R, erule resume_idle.R_uncertain, erule resume_idle.then_R, erule resume_idle.load_snapshot_R,
        erule resume_idle.cross_boundary_R)
  ultimately show ?thesis by blast
qed

lemma cross_boundary_plan:
  "cross_boundary cx w task info s st = (Inr plan, st') \<Longrightarrow> py_Decision plan = DecisionContinue \<and> py_Seed plan \<noteq> None
     \<and> py_NextEvidenceSequence plan = ru_next st'"
  by (auto simp: cross_boundary_def recovery_plan_def Let_def elim!: and_then_cases split: option.splits prod.splits)

lemma continue_resume_plan:
  assumes "continue_resume cx w task info st = (Inr plan, st')"
  shows "py_Decision plan = DecisionGovernorBlocked \<and> py_Seed plan = None
     \<or> py_Decision plan = DecisionContinue \<and> py_Seed plan \<noteq> None \<and> idle task (ru_store st')"
proof -
  obtain x st1 where c: "(case rw_Blocked w of
         Some (True, reason) \<Rightarrow>
           and_then (access w (\<lambda>fault. AppendRecoveryEvent cx fault task ''recovery_blocked'' [(''reason'', JS (cx_redact cx reason))]) st1)
             (\<lambda>_ st2. (Inr (recovery_plan DecisionGovernorBlocked reason None 0 info st2), trace_emit w TraceRecoveryBlocked reason st2))
       | _ \<Rightarrow> reset_and_cross cx w task info st1) = (Inr plan, st')"
    using assms unfolding continue_resume_def by (auto elim!: and_then_cases)
  show ?thesis
  proof (cases "\<exists>reason. rw_Blocked w = Some (True, reason)")
    case True
    then show ?thesis using c by (auto simp: recovery_plan_def elim!: and_then_cases)
  next
    case False
    then have r: "reset_and_cross cx w task info st1 = (Inr plan, st')" using c by (auto split: option.splits prod.splits bool.splits)
    then have "py_Decision plan = DecisionContinue \<and> py_Seed plan \<noteq> None"
      by (auto simp: reset_and_cross_def elim!: and_then_cases dest!: cross_boundary_plan)
    then show ?thesis using reset_and_cross_idle [OF r] by blast
  qed
qed

lemma stop_for_review_plan:
  assumes "stop_for_review cx w task info st = (Inr plan, st')"
  shows "py_Decision plan = DecisionHumanReview \<and> py_Seed plan = None
    \<and> (\<exists>t \<in> set (db_tasks (ru_store st')). tk_task_id t = task \<and> tk_status t = ''human_review_required'')"
proof -
  obtain x st1 where a: "access w (\<lambda>fault. MarkHumanReviewRequired cx fault task (review_reason (length (ru_review st))) (ru_review st)) st = (Inr x, st1)"
    "plan = recovery_plan DecisionHumanReview (review_reason (length (ru_review st))) None 0 info st1" "ru_store st' = ru_store st1"
    using assms by (auto simp: stop_for_review_def Let_def elim!: and_then_cases)
  from a(1) have "\<exists>t \<in> set (db_tasks (ru_store st1)). tk_task_id t = task \<and> tk_status t = ''human_review_required''"
  proof (rule access_cases)
    fix q s'
    assume c: "MarkHumanReviewRequired cx (rw_fault w (ru_calls st)) task (review_reason (length (ru_review st))) (ru_review st)
        ((ru_store st)\<lparr>db_clock := rw_clock w (ru_calls st)\<rparr>) = (q, s')"
      "st1 = st\<lparr>ru_store := s', ru_calls := Suc (ru_calls st)\<rparr>" "case q of Inl e \<Rightarrow> Inr x = Inl (StoreFailed e) | Inr y \<Rightarrow> Inr x = (Inr y :: resume_error + unit)"
    have "q = Inr ()" using c(3) by (cases q) auto
    then have "affected (pausable task) (db_tasks (ru_store st)) \<noteq> 0"
        "\<exists>f. db_tasks s' = update_where (pausable task) f (db_tasks (ru_store st)) \<and> (\<forall>t. tk_task_id (f t) = tk_task_id t \<and> tk_status (f t) = ''human_review_required'')"
      using task_updates_frame [OF c(1) [unfolded MarkHumanReviewRequired_def]] by auto
    then show ?thesis using c(2) unfolding affected_zero pausable_def by (fastforce simp: in_update_where)
  qed
  then show ?thesis using a by (simp add: recovery_plan_def)
qed

text \<open>When nothing is left for a human, every attempt of the task is settled.\<close>

lemma settle_attempts_settles:
  assumes "load_snapshot cx w task st0 = (Inr snapshot, st1)" "settle_attempts cx w task snapshot st = (Inr (), st')"
    and "attempts_kept (ru_store st1) (ru_store st)" "unique_attempts (ru_store st0)" "ru_review st' = []"
  shows "(\<forall>t \<in> set (db_tool_attempts (ru_store st')). ta_task_id t = task \<longrightarrow> settled (ta_status t))
    \<and> (\<forall>p \<in> set (db_provider_attempts (ru_store st')). pa_task_id p = task \<longrightarrow> settled (pa_status p))"
proof -
  note l = load_snapshot_Inr [OF assms(1)]
  note at = snapshot_attempts [OF conjunct1 [OF l]]
  let ?s = "(ru_store st0)\<lparr>db_clock := rw_clock w (ru_calls st0)\<rparr>"
  have s1: "ru_store st1 = ?s" using l by simp
  have u: "unique_attempts (ru_store st)" "unique_attempts ?s"
    using kept_settled(3) [OF assms(3)] assms(4) s1 by (simp_all add: unique_attempts_def)
  have settled_at_start: "tool_settled task (rt_ExecutionID a) ?s" if a: "a \<in> set (sn_ToolAttempts snapshot)" "settled (rt_Status a)" for a
  proof -
    obtain t where t: "t \<in> set (db_tool_attempts ?s)" "a = recovery_tool_attempt t" using a(1) unfolding at(1) snapshot_tool by blast
    have "t' = t" if "t' \<in> set (db_tool_attempts ?s)" "ta_execution_id t' = ta_execution_id t" for t'
      using u(2) t(1) that by (auto simp: unique_attempts_def distinct_map inj_on_def)
    then show ?thesis using a(2) t(2) by (auto simp: tool_settled_def recovery_rows)
  qed
  have provider_at_start: "provider_settled task (ry_ExecutionID p) ?s" if p: "p \<in> set (sn_ProviderAttempts snapshot)" "settled (ry_Status p)" for p
  proof -
    obtain q where q: "q \<in> set (db_provider_attempts ?s)" "recovery_provider_attempt cx q = Some p"
      using p(1) snapshot_provider(1) [OF at(2)] by blast
    have "q' = q" if "q' \<in> set (db_provider_attempts ?s)" "pa_execution_id q' = pa_execution_id q" for q'
      using u(2) q(1) that by (auto simp: unique_attempts_def distinct_map inj_on_def)
    then show ?thesis using p(2) recovery_rows(3) [OF q(2)] by (auto simp: provider_settled_def)
  qed
  obtain st2 where c: "settle_all (settle_tool cx w task (rk_Workspace (sn_Task snapshot))) (sn_ToolAttempts snapshot) st = (Inr (), st2)"
    "settle_all (settle_provider cx w task) (sn_ProviderAttempts snapshot) st2 = (Inr (), st')"
    using assms(2) by (auto simp: settle_attempts_def elim!: and_then_cases)
  have k: "attempts_kept (ru_store st) (ru_store st2)" "attempts_kept (ru_store st2) (ru_store st')"
    by (rule resume_kept.settle_all_R [OF c(1)], erule resume_kept.settle_tool_R, rule resume_kept.settle_all_R [OF c(2)], erule resume_kept.settle_provider_R)
  have k': "attempts_kept ?s (ru_store st2)" "attempts_kept ?s (ru_store st')"
    using resume_kept.R_trans assms(3) k s1 by metis+
  have p: "ru_review st' = [] \<longrightarrow> (\<forall>p \<in> set (sn_ProviderAttempts snapshot). provider_settled task (ry_ExecutionID p) (ru_store st')) \<and> ru_review st2 = []"
  proof (rule settle_all_settles [OF c(2) kept_settled(3) [OF k(1) u(1)], where before = "\<lambda>p. settled (ry_Status p)"], goal_cases)
    case (2 p st st')
    then show ?case by (rule settle_provider_settles)
  next
    case (4 p)
    then show ?case by (intro kept_settled(2) [OF k'(1)] provider_at_start)
  qed (erule resume_kept.settle_provider_R, erule (1) kept_settled(2))
  have t: "ru_review st2 = [] \<longrightarrow> (\<forall>a \<in> set (sn_ToolAttempts snapshot). tool_settled task (rt_ExecutionID a) (ru_store st2)) \<and> ru_review st = []"
  proof (rule settle_all_settles [OF c(1) u(1), where before = "\<lambda>a. settled (rt_Status a)"], goal_cases)
    case (2 a st st')
    then show ?case by (rule settle_tool_settles)
  next
    case (4 a)
    then show ?case unfolding s1 [symmetric] by (intro kept_settled(1) [OF assms(3)]) (simp add: s1 settled_at_start)
  qed (erule resume_kept.settle_tool_R, erule (1) kept_settled(1))
  have rows: "list_all2 tool_kept (db_tool_attempts ?s) (db_tool_attempts (ru_store st'))"
      "list_all2 provider_kept (db_provider_attempts ?s) (db_provider_attempts (ru_store st'))"
    using k'(2) by (simp_all add: attempts_kept_def)
  show ?thesis
  proof (intro conjI ballI impI)
    fix x
    assume x: "x \<in> set (db_tool_attempts (ru_store st'))" "ta_task_id x = task"
    obtain y where y: "y \<in> set (db_tool_attempts ?s)" "tool_kept y x" using all_kept_in [OF rows(1) x(1)] by (rule bexE)
    then have "ta_task_id y = task" using x(2) by (simp add: tool_kept_def)
    then have "recovery_tool_attempt y \<in> set (sn_ToolAttempts snapshot)" using y(1) unfolding at(1) snapshot_tool by blast
    then have "tool_settled task (ta_execution_id y) (ru_store st2)" using t p assms(5) recovery_rows(1) [of y] by auto
    then have "tool_settled task (ta_execution_id y) (ru_store st')" using kept_settled(1) [OF k(2)] by blast
    then show "settled (ta_status x)" using x y(2) by (simp add: tool_settled_def tool_kept_def)
  next
    fix x
    assume x: "x \<in> set (db_provider_attempts (ru_store st'))" "pa_task_id x = task"
    obtain y where y: "y \<in> set (db_provider_attempts ?s)" "provider_kept y x" using all_kept_in [OF rows(2) x(1)] by (rule bexE)
    then have task: "pa_task_id y = task" using x(2) by (simp add: provider_kept_def)
    then obtain r where r: "recovery_provider_attempt cx y = Some r" using snapshot_provider(2) [OF at(2) y(1)] by blast
    then have "r \<in> set (sn_ProviderAttempts snapshot)" using snapshot_provider(1) [OF at(2)] y(1) task by blast
    then have "provider_settled task (pa_execution_id y) (ru_store st')" using p assms(5) recovery_rows(3) [OF r] by metis
    then show "settled (pa_status x)" using x y(2) by (simp add: provider_settled_def provider_kept_def)
  qed
qed

lemma all_settled_kept:
  assumes "attempts_kept s s'" "\<forall>t \<in> set (db_tool_attempts s). ta_task_id t = task \<longrightarrow> settled (ta_status t)"
    and "\<forall>p \<in> set (db_provider_attempts s). pa_task_id p = task \<longrightarrow> settled (pa_status p)"
  shows "\<forall>t \<in> set (db_tool_attempts s'). ta_task_id t = task \<longrightarrow> settled (ta_status t)"
    "\<forall>p \<in> set (db_provider_attempts s'). pa_task_id p = task \<longrightarrow> settled (pa_status p)"
proof -
  have rows: "list_all2 tool_kept (db_tool_attempts s) (db_tool_attempts s')" "list_all2 provider_kept (db_provider_attempts s) (db_provider_attempts s')"
    using assms(1) by (simp_all add: attempts_kept_def)
  show "\<forall>t \<in> set (db_tool_attempts s'). ta_task_id t = task \<longrightarrow> settled (ta_status t)"
  proof (intro ballI impI)
    fix x
    assume x: "x \<in> set (db_tool_attempts s')" "ta_task_id x = task"
    obtain y where "y \<in> set (db_tool_attempts s)" "tool_kept y x" using all_kept_in [OF rows(1) x(1)] by (rule bexE)
    then show "settled (ta_status x)" using assms(2) x(2) by (simp add: tool_kept_def)
  qed
  show "\<forall>p \<in> set (db_provider_attempts s'). pa_task_id p = task \<longrightarrow> settled (pa_status p)"
  proof (intro ballI impI)
    fix x
    assume x: "x \<in> set (db_provider_attempts s')" "pa_task_id x = task"
    obtain y where "y \<in> set (db_provider_attempts s)" "provider_kept y x" using all_kept_in [OF rows(2) x(1)] by (rule bexE)
    then show "settled (pa_status x)" using assms(3) x(2) by (simp add: provider_kept_def)
  qed
qed

text \<open>C25: a resume continues only when nothing is open. Whatever the database, the disk and the options answer, a resume
  that does not stop for a human leaves every tool attempt and every provider attempt of its task settled; when it
  continues, no work unit of the task is left running and there is a seed; and when it stops for a human,
  the task itself is stored as waiting for that review and there is no seed.\<close>

theorem resume_continues_only_when_settled:
  assumes "Resume cx w task s = (Inr plan, st)"
    and "distinct (map ta_execution_id (db_tool_attempts s))" "distinct (map pa_execution_id (db_provider_attempts s))"
  shows "(py_Decision plan \<noteq> DecisionHumanReview \<longrightarrow>
       (\<forall>t \<in> set (db_tool_attempts (ru_store st)). ta_task_id t = task \<longrightarrow> settled (ta_status t))
       \<and> (\<forall>p \<in> set (db_provider_attempts (ru_store st)). pa_task_id p = task \<longrightarrow> settled (pa_status p)))
     \<and> (py_Decision plan = DecisionContinue \<longrightarrow>
       py_Seed plan \<noteq> None \<and> (\<forall>u \<in> set (db_units (ru_store st)). wu_TaskID u = task \<longrightarrow> wu_Status u \<noteq> ''running''))
     \<and> (py_Decision plan = DecisionHumanReview \<longrightarrow>
       py_Seed plan = None \<and> (\<exists>t \<in> set (db_tasks (ru_store st)). tk_task_id t = task \<and> tk_status t = ''human_review_required''))"
proof -
  obtain snapshot st1 st2 st3 where r: "load_snapshot cx w task (resume_start s) = (Inr snapshot, st1)"
    "access w (\<lambda>fault. MarkRecoveryStarted cx fault task ''task interrupted; recovery started'') st1 = (Inr (), st2)"
    "settle_attempts cx w task snapshot
       (trace_emit w TraceRecoveryStart ''task interrupted; recovery started'' st2\<lparr>ru_next := maxEvidenceSequence (sn_Evidence snapshot)\<rparr>) = (Inr (), st3)"
    "(if ru_review st3 \<noteq> [] then stop_for_review cx w task (task_info (sn_Task snapshot)) st3
      else continue_resume cx w task (task_info (sn_Task snapshot)) st3) = (Inr plan, st)"
    using Resume_stages [OF assms(1)] by blast
  show ?thesis
  proof (cases "ru_review st3 = []")
    case True
    then have c: "continue_resume cx w task (task_info (sn_Task snapshot)) st3 = (Inr plan, st)" using r(4) by simp
    have k: "attempts_kept (ru_store st1) (ru_store st2)" by (rule resume_kept.access_R [OF r(2)]) (rule resume_kept.R_start)
    have k': "attempts_kept (ru_store st3) (ru_store st)" by (rule resume_kept.continue_resume_R [OF c])
    have "unique_attempts (ru_store (resume_start s))" using assms(2,3) by (simp add: unique_attempts_def resume_start_def)
    with settle_attempts_settles [OF r(1,3)] k True
    have e: "\<forall>t \<in> set (db_tool_attempts (ru_store st3)). ta_task_id t = task \<longrightarrow> settled (ta_status t)"
      "\<forall>p \<in> set (db_provider_attempts (ru_store st3)). pa_task_id p = task \<longrightarrow> settled (pa_status p)" by auto
    have "\<forall>t \<in> set (db_tool_attempts (ru_store st)). ta_task_id t = task \<longrightarrow> settled (ta_status t)"
      "\<forall>p \<in> set (db_provider_attempts (ru_store st)). pa_task_id p = task \<longrightarrow> settled (pa_status p)"
      by (rule all_settled_kept [OF k' e])+
    then show ?thesis using continue_resume_plan [OF c] by (auto simp: idle_def)
  next
    case False
    then show ?thesis using r(4) stop_for_review_plan by auto
  qed
qed

text \<open>C37: recovery repeats nothing. However a resume ends, it changed the store only by operations of the store, added
  no attempt, left settled attempts and their results as they were, and changed an open attempt only by marking it
  as reconciled or for review: its task, action, tool, arguments and planned effect stay.\<close>

theorem resume_repeats_nothing:
  "(store_step cx)\<^sup>*\<^sup>* s (ru_store (snd (Resume cx w task s)))
   \<and> list_all2 tool_kept (db_tool_attempts s) (db_tool_attempts (ru_store (snd (Resume cx w task s))))
   \<and> list_all2 provider_kept (db_provider_attempts s) (db_provider_attempts (ru_store (snd (Resume cx w task s))))
   \<and> prefix (db_tool_results s) (db_tool_results (ru_store (snd (Resume cx w task s))))"
  using resume_steps.Resume_R [OF surjective_pairing] resume_kept.Resume_R [OF surjective_pairing]
  unfolding attempts_kept_def by (intro conjI) simp_all

text \<open>A run that was interrupted during its first provider call.\<close>

definition demo_resume :: ResumeWorld where
  "demo_resume = \<lparr>rw_fault = (\<lambda>_. None), rw_unitFault = (\<lambda>_. None), rw_clock = (\<lambda>i. 10 + int i), rw_wall = (\<lambda>_. 0), rw_disk = (\<lambda>_. demo_disk),
     rw_hash = id, rw_encode = (\<lambda>v. ([], [])), rw_traced = True, rw_Blocked = None, rw_CurrentWorkspaceSignature = [], rw_WorkspaceSignature = None,
     rw_PendingApprovals = None, rw_compile = (\<lambda>_ _ _. Some (''context'', [], ''1''))\<rparr>"

theorem resume_continues_only_when_settled_witness:
  "\<exists>plan st. Resume demo_codec demo_resume ''t'' demo_in_flight = (Inr plan, st) \<and> py_Decision plan = DecisionContinue \<and> py_Seed plan \<noteq> None
     \<and> (\<forall>p \<in> set (db_provider_attempts (ru_store st)). pa_task_id p = ''t'' \<longrightarrow> settled (pa_status p))"
proof -
  have "(case Resume demo_codec demo_resume ''t'' demo_in_flight of (Inr plan, st) \<Rightarrow> py_Decision plan = DecisionContinue | _ \<Rightarrow> False)"
    by code_simp
  then obtain plan st where r: "Resume demo_codec demo_resume ''t'' demo_in_flight = (Inr plan, st)" "py_Decision plan = DecisionContinue"
    by (auto split: prod.splits sum.splits)
  have d: "distinct (map ta_execution_id (db_tool_attempts demo_in_flight))" "distinct (map pa_execution_id (db_provider_attempts demo_in_flight))"
    by code_simp+
  show ?thesis using resume_continues_only_when_settled [OF r(1) d] r by simp
qed

section \<open>A mark for review blocks every later resume\<close>

lemma settle_all_reaches:
  assumes "settle_all f xs st = (Inr (), st')" "x \<in> set xs" "\<And>x st r st'. f x st = (r, st') \<Longrightarrow> attempts_kept (ru_store st) (ru_store st')"
  shows "\<exists>st1 st2. attempts_kept (ru_store st) (ru_store st1) \<and> f x st1 = (Inr (), st2)"
  using assms(1,2)
proof (induction xs arbitrary: st)
  case (Cons y ys)
  from Cons.prems(1) obtain st1 where c: "f y st = (Inr (), st1)" "settle_all f ys st1 = (Inr (), st')"
    by (auto elim!: and_then_cases)
  show ?case
  proof (cases "x = y")
    case True
    then show ?thesis using c(1) resume_kept.R_refl by blast
  next
    case False
    then show ?thesis using Cons.IH [OF c(2)] Cons.prems(2) assms(3) [OF c(1)] resume_kept.R_trans by (metis set_ConsD)
  qed
qed simp

text \<open>A crash between the mark of an attempt and the mark of its task leaves a task that no resume can take up: the marked
  attempt is marked once more, which the store refuses.\<close>

lemma review_mark_blocks_resume:
  assumes "t \<in> set (db_tool_attempts s)" "ta_task_id t = task" "ta_status t = ''human_review_required''"
    and "distinct (map ta_execution_id (db_tool_attempts s))"
  shows "\<exists>e. fst (Resume cx w task s) = Inl e"
proof (rule ccontr)
  assume "\<not> ?thesis"
  then obtain plan st where "Resume cx w task s = (Inr plan, st)" by (cases "Resume cx w task s"; cases "fst (Resume cx w task s)") auto
  then obtain snapshot st1 st2 st3 where r: "load_snapshot cx w task (resume_start s) = (Inr snapshot, st1)"
    "access w (\<lambda>fault. MarkRecoveryStarted cx fault task ''task interrupted; recovery started'') st1 = (Inr (), st2)"
    "settle_attempts cx w task snapshot
       (trace_emit w TraceRecoveryStart ''task interrupted; recovery started'' st2\<lparr>ru_next := maxEvidenceSequence (sn_Evidence snapshot)\<rparr>) = (Inr (), st3)"
    by (rule Resume_stages)
  let ?a = "recovery_tool_attempt t"
  note l = load_snapshot_Inr [OF r(1)]
  have k: "attempts_kept (ru_store st1) (ru_store st2)" by (rule resume_kept.access_R [OF r(2)]) (rule resume_kept.R_start)
  have a: "?a \<in> set (sn_ToolAttempts snapshot)"
    using assms(1,2) unfolding snapshot_attempts(1) [OF conjunct1 [OF l]] snapshot_tool by (auto simp: resume_start_def)
  obtain st4 where "settle_all (settle_tool cx w task (rk_Workspace (sn_Task snapshot))) (sn_ToolAttempts snapshot)
       (trace_emit w TraceRecoveryStart ''task interrupted; recovery started'' st2\<lparr>ru_next := maxEvidenceSequence (sn_Evidence snapshot)\<rparr>) = (Inr (), st4)"
    using r(3) unfolding settle_attempts_def by (rule and_then_cases) simp_all
  then have "\<exists>st5 st6. attempts_kept (ru_store (trace_emit w TraceRecoveryStart ''task interrupted; recovery started''
        st2\<lparr>ru_next := maxEvidenceSequence (sn_Evidence snapshot)\<rparr>)) (ru_store st5)
      \<and> settle_tool cx w task (rk_Workspace (sn_Task snapshot)) ?a st5 = (Inr (), st6)"
    using a by (rule settle_all_reaches) (erule resume_kept.settle_tool_R)
  then obtain st5 st6 where s5: "attempts_kept (ru_store st2) (ru_store st5)"
    "settle_tool cx w task (rk_Workspace (sn_Task snapshot)) ?a st5 = (Inr (), st6)" by auto
  have c: "classifyToolAttempt ?a = toolHumanReview" using assms(3) by (simp add: classifyToolAttempt_def recovery_rows)
  obtain x st7 where m: "access w (\<lambda>fault. ReconcileToolAttempt cx fault (tool_mark task (ta_execution_id t) ''human_review_required'' ''unreconcilable_effect'')) st5 = (Inr x, st7)"
    using s5(2) by (auto simp: settle_tool_def c recovery_rows elim!: and_then_cases)
  have "attempts_kept (ru_store st1) (ru_store st5)" using k s5(1) by (rule resume_kept.R_trans)
  then have rows: "list_all2 tool_kept (db_tool_attempts s) (db_tool_attempts (ru_store st5))" using l by (simp add: attempts_kept_def resume_start_def)
  have "\<exists>q \<in> set (db_tool_attempts (ru_store st5)). ta_execution_id q = ta_execution_id t \<and> ta_status q \<in> set reconcilable_tool"
    using m by (rule access_cases) (auto elim!: ReconcileToolAttempt_cases simp: tool_mark_def split: sum.splits)
  then obtain q where q: "q \<in> set (db_tool_attempts (ru_store st5))" "ta_execution_id q = ta_execution_id t" "ta_status q \<in> set reconcilable_tool" by blast
  obtain y where y: "y \<in> set (db_tool_attempts s)" "tool_kept y q" using all_kept_in [OF rows q(1)] by (rule bexE)
  then have "y = t" using q(2) assms(1,4) by (auto simp: tool_kept_def distinct_map inj_on_def)
  then have "q = t" using y(2) assms(3) by (simp add: tool_kept_def)
  then show False using q(3) assms(3) reconcilable_open(1) by blast
qed

section \<open>The seed\<close>

lemma evidence_by_id_key: "evidence_by_id s i = Some e \<Longrightarrow> re_EvidenceID e = i"
  by (auto simp: evidence_by_id_def dest!: map_of_SomeD)

lemma observations_from_ids:
  "set (map on_ID (observations_from s as seen)) = {i. i \<notin> seen \<and> (\<exists>a \<in> set as. citable a \<and> rt_EvidenceID a = i) \<and> evidence_by_id s i \<noteq> None}
   \<and> distinct (map on_ID (observations_from s as seen)) \<and> (\<forall>x \<in> set (observations_from s as seen). on_Success x)"
proof (induction s as seen rule: observations_from.induct)
  case (2 s a as seen)
  show ?case
  proof (cases "\<not> citable a \<or> rt_EvidenceID a \<in> seen")
    case True
    then show ?thesis using 2(1) by auto
  next
    case False
    show ?thesis
    proof (cases "evidence_by_id s (rt_EvidenceID a)")
      case None
      then show ?thesis using False 2(2) by auto
    next
      case (Some e)
      have "on_ID (reconstructed_observation s e) = rt_EvidenceID a" "on_Success (reconstructed_observation s e)"
        using evidence_by_id_key [OF Some] by (simp_all add: reconstructed_observation_def)
      then show ?thesis using False Some 2(3) [OF False Some] by auto
    qed
  qed
qed simp

lemma guard_fold:
  "map_get (fold (\<lambda>a g. case guard_entry s a of None \<Rightarrow> g | Some (k, v) \<Rightarrow> if map_get g k = None then map_put k v g else g) as g) k
   = (case map_get g k of Some v \<Rightarrow> Some v | None \<Rightarrow> map_of (List.map_filter (guard_entry s) as) k)"
  by (induction as arbitrary: g) (auto simp: map_filter_simps split: option.splits prod.splits)

text \<open>A resumed run cites and guards exactly what was done. The observations of the seed are the stored evidence of
  completed and reconciled attempts, each once and all successful; the repeat guard knows exactly the
  fingerprints of actions with an executed attempt, each with the workspace signature of its first one.\<close>

theorem seed_holds_what_was_done:
  "distinct (map on_ID (reconstructedObservations s)) \<and> list_all on_Success (reconstructedObservations s)
   \<and> on_ID ` set (reconstructedObservations s)
       = {i. (\<exists>a \<in> set (sn_ToolAttempts s). citable a \<and> rt_EvidenceID a = i) \<and> evidence_by_id s i \<noteq> None}
   \<and> map_get (reconstructedGuard s) = map_of (List.map_filter (guard_entry s) (sn_ToolAttempts s))"
  using observations_from_ids [of s "sn_ToolAttempts s" "{}"] guard_fold [of s "sn_ToolAttempts s" "[]"]
  by (auto simp: reconstructedObservations_def reconstructedGuard_def fun_eq_iff list_all_iff)

section \<open>Fresh evidence ids\<close>

lemma wrap64_id: "0 \<le> x \<Longrightarrow> x < 2 ^ 63 \<Longrightarrow> wrap64 x = x"
  by (simp add: wrap64_def)

lemma digits_grow:
  assumes "list_all is_digit ds" "0 \<le> m"
  shows "m \<le> fold (\<lambda>c n. n * 10 + digit_value c) ds m"
  using assms
proof (induction ds arbitrary: m)
  case (Cons c ds)
  then have "0 \<le> digit_value c" by (simp add: digit_value_def is_digit_def)
  then have "m \<le> m * 10 + digit_value c" "0 \<le> m * 10 + digit_value c" using Cons.prems(2) by linarith+
  then show ?case using Cons.IH [of "m * 10 + digit_value c"] Cons.prems(1) by simp
qed simp

lemma sequence_digits_decimal:
  assumes "list_all is_digit ds" "0 \<le> m" "fold (\<lambda>c n. n * 10 + digit_value c) ds m < 2 ^ 63"
  shows "sequence_digits m ds = fold (\<lambda>c n. n * 10 + digit_value c) ds m"
  using assms
proof (induction ds arbitrary: m)
  case (Cons c ds)
  let ?v = "m * 10 + digit_value c"
  have v: "0 \<le> ?v" using Cons.prems(1,2) by (simp add: digit_value_def is_digit_def)
  have g: "?v \<le> fold (\<lambda>c n. n * 10 + digit_value c) ds ?v" using digits_grow [OF _ v] Cons.prems(1) by simp
  have l: "fold (\<lambda>c n. n * 10 + digit_value c) ds ?v < 2 ^ 63" using Cons.prems(3) by simp
  have "wrap64 ?v = ?v" using v g l by (intro wrap64_id) (assumption, rule le_less_trans)
  moreover have "is_digit c" "list_all is_digit ds" using Cons.prems(1) by simp_all
  ultimately show ?case using Cons.IH [OF _ v l] by (simp only: sequence_digits.simps if_True fold_simps digit_value_def)
qed simp

lemma zeros_skipped: "sequence_digits 0 (replicate n (CHR ''0'') @ ds) = sequence_digits 0 ds"
proof (induction n)
  case (Suc n)
  have "is_digit (CHR ''0'')" "wrap64 (0 * 10 + (char_code (CHR ''0'') - 48)) = 0" by code_simp+
  then show ?case using Suc by simp
qed simp

lemma evidence_id_number:
  assumes "0 \<le> n" "n < 2 ^ 63"
  shows "evidenceSequence (evidence_id n) = n"
proof -
  have "sequence_digits 0 (dec (nat n)) = decimal (dec (nat n))"
    unfolding decimal_def by (rule sequence_digits_decimal) (use dec_digits decimal_dec [of "nat n"] assms in \<open>simp_all add: decimal_def\<close>)
  then have "sequence_digits 0 (pad6 (dec (nat n))) = n" using assms(1) by (simp add: pad6_def zeros_skipped decimal_dec)
  moreover have "HasPrefix (''obs-'' @ x) ''obs-''" for x by (simp add: HasPrefix_def)
  ultimately show ?thesis by (simp add: evidenceSequence_def evidence_id_def)
qed

lemma maxEvidenceSequence_bound: "e \<in> set es \<Longrightarrow> evidenceSequence (re_EvidenceID e) \<le> maxEvidenceSequence es"
proof -
  let ?f = "\<lambda>e m. if m < evidenceSequence (re_EvidenceID e) then evidenceSequence (re_EvidenceID e) else m"
  have grow: "m \<le> fold ?f es m" for es m
  proof (induction es arbitrary: m)
    case (Cons x es)
    have "m \<le> ?f x m" by simp
    also have "\<dots> \<le> fold ?f es (?f x m)" by (rule Cons.IH)
    finally show ?case by simp
  qed simp
  have "e \<in> set es \<Longrightarrow> evidenceSequence (re_EvidenceID e) \<le> fold ?f es m" for m
  proof (induction es arbitrary: m)
    case (Cons x es)
    show ?case
    proof (cases "e = x")
      case True
      have "evidenceSequence (re_EvidenceID e) \<le> ?f x m" using True by simp
      also have "\<dots> \<le> fold ?f es (?f x m)" by (rule grow)
      finally show ?thesis by simp
    qed (use Cons in simp)
  qed simp
  then show "e \<in> set es \<Longrightarrow> evidenceSequence (re_EvidenceID e) \<le> maxEvidenceSequence es" by (simp add: maxEvidenceSequence_def)
qed

text \<open>The ids a recovery gives to the evidence it finds are new.\<close>

lemma recovered_ids_are_fresh:
  assumes "maxEvidenceSequence es < n" "0 \<le> n" "n < 2 ^ 63"
  shows "evidence_id n \<notin> re_EvidenceID ` set es"
proof
  assume "evidence_id n \<in> re_EvidenceID ` set es"
  then obtain e where "e \<in> set es" "re_EvidenceID e = evidence_id n" by auto
  then show False using maxEvidenceSequence_bound [of e es] evidence_id_number [OF assms(2,3)] assms(1) by simp
qed

end
