(* ===== verification/Spec2Isabelle.thy ===== *)
theory Spec2Isabelle
  imports Governor_Execute Policy Scheduler_Theorems Agent_Theorems Protocol_Theorems Tool_Patch Recovery_Theorems
begin

text \<open>
  A verification library for Runstead, a control plane that runs a language model as a coding agent: every
  provider call goes through an account governor, every effect through a policy, a durable store and a
  verifier, and work is split into units that a bounded scheduler runs.

  \<^bold>\<open>The program and the theories\<close>

  Paths are relative to \<open>src/internal\<close>. Operations keep the names of the source; fields carry a prefix.

  \<^item> \<open>Prelude\<close>, \<open>Transition\<close>: instants and durations of package \<open>time\<close>, string functions of package
    \<open>strings\<close>, Go maps as association lists, and the locale \<open>invariant_system\<close> of step relations, interpreted
    by the governor, the store and the scheduler.
  \<^item> The provider contract, \<open>provider/*.go\<close>: \<open>Provider_Contract\<close> (route safety, delivery states, failure
    classes, rate limits) and \<open>Attempt_Receipts\<close> (receipts and their validation).
  \<^item> The account governor, \<open>governor/*.go\<close>: \<open>Governor_Types\<close>, \<open>Ledger\<close>, \<open>Governor_Core\<close>, \<open>Governor_Retention\<close>,
    \<open>Governor_Telemetry\<close>, \<open>Governor_Circuit\<close>, \<open>Governor_Admission\<close>, \<open>Governor_Permit\<close>, \<open>Governor_State\<close> hold
    the operations, one definition per critical section of the mutex. \<open>Governor_Quiet\<close>, \<open>Governor_Gates\<close>,
    \<open>Governor_Debit\<close>, \<open>Governor_Limits\<close>, \<open>Governor_Restore\<close> hold their lemmas, \<open>Governor_System\<close> the
    interleaving of all sections with crashes and restarts, \<open>Governor_Theorems\<close> and \<open>Governor_Operations\<close> what
    holds in every reachable state and what single operations do, and \<open>Governor_Execute\<close> one governed call
    (\<open>execute.go\<close>) with its durable intent and outcome.
  \<^item> The store, \<open>state/*.go\<close>: \<open>Store_Tables\<close> (rows, journal, transactions), \<open>Store_Tasks\<close>, \<open>Store_Governor\<close>,
    \<open>Store_Attempts\<close>, \<open>Store_WorkUnits\<close> (every writing operation), \<open>Store_Recovery\<close> (the recovery snapshot and
    the reading of verifications), \<open>Store_System\<close> (the operations as a step relation and its invariant),
    \<open>Store_Run\<close> (a concrete run) and \<open>Store_Theorems\<close>.
  \<^item> Work units, \<open>workunit/*.go\<close>: \<open>WorkUnit_Driver\<close>, \<open>WorkUnit_Order\<close> (definition batches), \<open>WorkUnit_Cycle\<close>
    (the cycle check of \<open>state/workunits.go\<close>), \<open>WorkUnit_Scheduler\<close> (the main loop and its workers) and
    \<open>Scheduler_Theorems\<close>.
  \<^item> The policy, \<open>policy/policy.go\<close>: \<open>Policy\<close>. Workspace paths, \<open>tools/workspace.go\<close>: \<open>Workspace_Path\<close>.
    Patches, \<open>tools/patch.go\<close> and the diff of \<open>tools/write_file.go\<close>: \<open>Tool_Patch\<close>.
  \<^item> Recipes, \<open>recipe/recipe.go\<close>: \<open>Recipe\<close> (catalogs, digests, the environment and the captured output of a process).
    The tools, \<open>tools/*.go\<close>: \<open>Tool_Registry\<close> (limits, restricted views, validation and description of arguments),
    \<open>Tool_Read\<close> (reading and listing files, git, the observer of the verifier) and \<open>Tool_Write\<close> (the write tools,
    their plan and the classification of an interrupted write).
  \<^item> Recovery, \<open>recovery/recovery.go\<close>: \<open>Recovery\<close> (classification and reconciliation of attempts, the governor's verdict,
    the seed, and \<open>Resume\<close>) with \<open>Recovery_Theorems\<close>. Its locale \<open>resume_relation\<close> carries what every operation does to
    the store over the whole pipeline; it is interpreted with the steps of the store, with the attempts that are
    kept, and with the work units that stay idle.
  \<^item> The model protocol, \<open>protocol/*.go\<close>: \<open>Json\<close> and \<open>Json_Decode\<close> model what the source uses of
    \<open>encoding/json\<close> on byte strings (scanner, strings and runes, numbers with their range, structs with folded
    names, decoding into existing values); \<open>Protocol\<close> is \<open>parser.go\<close> and \<open>version.go\<close>, with \<open>Protocol_Theorems\<close>.
  \<^item> The verifier, \<open>verifier/*.go\<close>: \<open>Verifier\<close> (plans, their parsing and digest, and \<open>Verify\<close>), with
    \<open>Verifier_Theorems\<close>.
  \<^item> The agent runtime, \<open>agent/*.go\<close>: \<open>Agent_Types\<close> (outcomes, observations, evidence, repeat guard, transcript,
    trace), \<open>Agent_Loop\<close> (the handlers of a turn, stopping, bootstrap and recovery seed), \<open>Agent_Turn\<close> and
    \<open>Agent_Run\<close> (lemmas on each handler, then the loop and \<open>Run\<close> as total functions) and \<open>Agent_Theorems\<close>.

  \<^bold>\<open>What the theorems show\<close>

  \<^item> Governor: the account has one lane; rolling windows, task and retry budgets and the minimum interval hold
    in every interleaving, across crashes and restarts; the admission check is the conjunction of the gates; a
    start debits once; receipts debit or mark the route unsafe; a security signal or an unsafe route admits
    nobody; permits complete once; no call without a durable intent; a restart restores ledger, circuit,
    telemetry and task records; an uncertain delivery is not retried, but for one receipt of a refused rate.
  \<^item> Store: a task is completed only through its gate; statuses are what replaying the journal gives; units move
    along their lifecycle; approvals decide their own action; an interrupted attempt is charged once; the
    dependency graph stays acyclic.
  \<^item> Scheduler: bounds and isolation, readiness of what runs, completion only on a passed verification, and that
    it is never stuck.
  \<^item> Protocol: an enveloped document is extracted exactly, whatever its strings contain; a response is
    executable exactly when it is one envelope of one valid action, told from its text and document alone; a fingerprint identifies tool and arguments.
  \<^item> Verifier: a report passes exactly when every claim, effect, write and check stands; reports are bounded.
  \<^item> Patches: a patch applies exactly when its hunks match, and touches nothing else; the diff of a full
    replacement is a patch from the old content to the new one.
  \<^item> Tools: a read shows a valid prefix of the file and the hash of the whole; a write replaces only the state
    the model saw, inside the workspace, whatever happens to the disk meanwhile; an interrupted write is classified
    rightly from the state it left; what a tool describes is what it accepts.
  \<^item> Recipes: catalogs are well formed, a selection keeps the definitions, the digest detects drift, the
    environment of a process holds only what is declared, and the captured output is a bounded prefix.
  \<^item> Recovery: a resume acts by operations of the store and repeats nothing; it continues only when every attempt
    of the task is settled and no unit is left running; the seed cites and guards what was done; new evidence ids
    are fresh. An attempt marked for review before its task was makes every later resume fail.
  \<^item> Agent loop: a run ends within its limits; a tool with an effect runs only after the policy allowed that very
    action and, with a store, after its attempt was prepared; the result agrees with the durable task (unless the run leaves its status to others, as that of a unit), and
    completion is reported only after a passed verification.

  \<^bold>\<open>How the code is modelled\<close>

  \<^item> A critical section of a mutex is one function, and the clock has one reading in it; \<open>Governor_System\<close> lets
    the clock move between sections. Go maps are association lists with unique keys; where the source iterates a
    map, the order of the list stands for the order of the iteration.
  \<^item> A table is a list of rows and a transaction is a function that commits or leaves the store as it is; an
    argument of each operation is the failure of the database. Instants and texts pass through a codec
    (formatting, redaction, hash, the parser of plans), an argument.
  \<^item> A run of the agent loop is a function of what the outside answers in each turn (record \<open>Turn\<close>): context,
    clock, governed runner, workspace signature, execution of tools, observer of the verifier, failures of the
    database. The signature is read once per action and the observer is fixed during one verification. The only
    hypothesis on the runner is that it writes to the store by operations of the store. Rendered texts and hashes
    are the fields of \<open>Encoding\<close>.
  \<^item> The disk is a record of answers: a file system for symbolic links, and per path the kind, the pieces in which
    it is read and the entries of a directory. A write looks several times, and each look may find another disk.
    Hashes, processes and the \<open>git\<close> binary are arguments.
  \<^item> A resume numbers its accesses to the store; each has a clock and a failure of the database of its own.
  \<^item> In the scheduler, a worker's reading of its verification and the transition that follows are one step, and so
    are the two transitions of a dispatch.
  \<^item> Integers are unbounded where the source counts (turns, attempts), and durations saturate where the source
    saturates. \<open>ParseInt\<close> and the numbers of JSON have the ranges of their types.
  \<^item> All functions are total: the loops of the source have termination proofs. The cycle check of the store, which
    may run forever, is a partial function into \<open>option\<close>; \<open>WorkUnit_Cycle\<close> proves that it returns on forests and
    that it hangs on a diamond.

  \<^bold>\<open>Not modelled\<close>

  The command line, configuration files and provider adapters (input, output and HTTP), the search and process tools
  (\<open>tools/search_text.go\<close>, the Linux part of \<open>recipe.go\<close>), the rendering of the recovery context (an argument of \<open>Resume\<close>),
  inspection reports, improvement proposals, sign-in state, and the opening and
  migration of the database.
\<close>

end
